(* ===== verification/Go_Runtime.thy ===== *)
theory Go_Runtime
  imports Main "HOL-Library.AList" "HOL-Library.Char_ord" "HOL-Library.List_Lexorder"
    "HOL-Library.Multiset"
begin

text \<open>
  The prelude: the parts of Go and of its standard library that the modelled packages use, and
  the generic lemmas the components share.

  A Go \<open>string\<close> is a sequence of bytes; it is modelled by the type \<open>string\<close>
  (a list of 8-bit \<open>char\<close>s), and \<open><\<close> on strings is the bytewise lexicographic order.  A Go
  \<open>map[string]v\<close> is an association list with distinct keys, read by \<open>map_of\<close>; the order in
  which \<open>range\<close> visits its keys is chosen by the runtime and is a parameter (\<open>ord\<close>) of the
  definitions that iterate over a map, one permutation per loop.  A function that returns
  \<open>(value, error)\<close> returns a sum, the error on the left; a \<open>for\<close> loop with early return is
  \<open>range_loop\<close>.  \<open>int\<close> values that cannot approach the 64-bit bounds are mathematical integers.
\<close>

named_theorems go_defs "definitions of small predicates, unfolded by the component proofs"

subsection \<open>Early return\<close>

fun and_then :: "'e + 'a \<Rightarrow> ('a \<Rightarrow> 'e + 'b) \<Rightarrow> 'e + 'b" where
  "and_then (Inl e) f = Inl e"
| "and_then (Inr x) f = f x"

lemma and_then_eq_Inr [simp]:
  "and_then r f = Inr y \<longleftrightarrow> (\<exists>x. r = Inr x \<and> f x = Inr y)"
  by (cases r) auto

lemma and_then_eq_Inl:
  "and_then r f = Inl e \<longleftrightarrow> r = Inl e \<or> (\<exists>x. r = Inr x \<and> f x = Inl e)"
  by (cases r) auto

fun range_loop :: "('s \<Rightarrow> 'x \<Rightarrow> 'e + 's) \<Rightarrow> 's \<Rightarrow> 'x list \<Rightarrow> 'e + 's" where
  "range_loop f s [] = Inr s"
| "range_loop f s (x # xs) = and_then (f s x) (\<lambda>s'. range_loop f s' xs)"

lemma range_loop_append:
  "range_loop f s (xs @ ys) = and_then (range_loop f s xs) (\<lambda>s'. range_loop f s' ys)"
proof (induction xs arbitrary: s)
  case Nil
  show ?case by simp
next
  case (Cons x xs)
  then show ?case by (cases "f s x") simp_all
qed

text \<open>The loop rule: the invariant relates the state to the elements already visited.\<close>

lemma range_loop_inv:
  assumes "range_loop f s xs = Inr t"
    and "I [] s"
    and "\<And>ys y s s'. I ys s \<Longrightarrow> y \<in> set xs \<Longrightarrow> f s y = Inr s' \<Longrightarrow> I (ys @ [y]) s'"
  shows "I xs t"
proof -
  have "range_loop f s xs' = Inr t \<Longrightarrow> I ys s \<Longrightarrow> set xs' \<subseteq> set xs \<Longrightarrow> I (ys @ xs') t" for xs' ys s
  proof (induction xs' arbitrary: ys s)
    case Nil
    then show ?case by simp
  next
    case (Cons x xs')
    from Cons.prems(1) obtain s' where s': "f s x = Inr s'" "range_loop f s' xs' = Inr t"
      by auto
    from Cons.prems(3) have "x \<in> set xs" by simp
    with Cons.prems(2) s'(1) have "I (ys @ [x]) s'" by (intro assms(3))
    from Cons.IH [OF s'(2) this] Cons.prems(3) show ?case by simp
  qed
  from this [of s xs "[]"] assms(1,2) show ?thesis by simp
qed

text \<open>A loop whose body only checks its element succeeds iff every check passes.\<close>

lemma range_loop_check:
  "range_loop (\<lambda>u x. if P x then Inr u else Inl e) u xs
     = (if list_all P xs then Inr u else Inl e)"
  by (induction xs) auto

text \<open>
  The loop that collects checked elements and rejects a second element with the same key,
  which the validators of the program all contain.
\<close>

lemma range_loop_collect:
  assumes step: "\<And>acc seen x. step (acc, seen) x = and_then (f x) (\<lambda>y.
      if key y \<in> seen then Inl e else Inr (acc @ [y], insert (key y) seen))"
  shows "range_loop step (acc, seen) xs = Inr r \<longleftrightarrow>
    (\<exists>ys. list_all2 (\<lambda>x y. f x = Inr y) xs ys \<and> distinct (map key ys)
       \<and> set (map key ys) \<inter> seen = {} \<and> r = (acc @ ys, seen \<union> set (map key ys)))"
proof (induction xs arbitrary: acc seen)
  case Nil
  show ?case by auto
next
  case (Cons x xs)
  show ?case
  proof (cases "f x")
    case (Inl e')
    then show ?thesis by (auto simp: step list_all2_Cons1)
  next
    case (Inr y)
    show ?thesis
    proof (cases "key y \<in> seen")
      case True
      with Inr show ?thesis by (auto simp: step list_all2_Cons1)
    next
      case False
      with Inr have "range_loop step (acc, seen) (x # xs)
          = range_loop step (acc @ [y], insert (key y) seen) xs"
        by (simp add: step)
      then show ?thesis
        using Inr False by (auto simp: Cons.IH list_all2_Cons1 insert_commute)
    qed
  qed
qed

lemma range_loop_collect_if:
  assumes step: "\<And>acc seen x. step (acc, seen) x =
      (if P x then Inl e else if k x \<in> seen then Inl e else Inr (acc @ [g x], insert (k x) seen))"
  shows "range_loop step (acc, seen) xs =
    (if list_all (\<lambda>x. \<not> P x) xs \<and> distinct (map k xs) \<and> k ` set xs \<inter> seen = {}
     then Inr (acc @ map g xs, seen \<union> k ` set xs) else Inl e)"
proof (induction xs arbitrary: acc seen)
  case Nil
  show ?case by simp
next
  case (Cons x xs)
  show ?case
  proof (cases "P x \<or> k x \<in> seen")
    case True
    then show ?thesis by (auto simp: step)
  next
    case False
    then have "range_loop step (acc, seen) (x # xs)
        = range_loop step (acc @ [g x], insert (k x) seen) xs"
      by (simp add: step)
    then show ?thesis using False by (auto simp: Cons.IH)
  qed
qed

text \<open>The same loop when only the keys are kept, and the loop that checks that keys ascend.\<close>

lemma range_loop_seen:
  assumes step: "\<And>seen x. step seen x =
      (if P x then Inl e else if k x \<in> seen then Inl e else Inr (insert (k x) seen))"
  shows "range_loop step seen xs =
    (if list_all (\<lambda>x. \<not> P x) xs \<and> distinct (map k xs) \<and> k ` set xs \<inter> seen = {}
     then Inr (seen \<union> k ` set xs) else Inl e)"
proof (induction xs arbitrary: seen)
  case Nil
  show ?case by simp
next
  case (Cons x xs)
  show ?case
  proof (cases "P x \<or> k x \<in> seen")
    case True
    then show ?thesis by (auto simp: step)
  next
    case False
    then have "range_loop step seen (x # xs) = range_loop step (insert (k x) seen) xs" by (simp add: step)
    then show ?thesis using False by (auto simp: Cons.IH)
  qed
qed

lemma range_loop_ascending:
  fixes k :: "'x \<Rightarrow> string"
  assumes step: "\<And>prev x. step prev x = (if P x \<or> prev \<noteq> [] \<and> k x \<le> prev then Inl e else Inr (k x))"
    and key: "\<And>x. \<not> P x \<Longrightarrow> k x \<noteq> []"
  shows "range_loop step prev xs =
    (if list_all (\<lambda>x. \<not> P x) xs \<and> sorted_wrt (<) (map k xs) \<and> (prev \<noteq> [] \<longrightarrow> (\<forall>x \<in> set xs. prev < k x))
     then Inr (if xs = [] then prev else k (last xs)) else Inl e)"
proof (induction xs arbitrary: prev)
  case Nil
  show ?case by simp
next
  case (Cons x xs)
  show ?case
  proof (cases "P x \<or> prev \<noteq> [] \<and> k x \<le> prev")
    case True
    then show ?thesis by (auto simp: step)
  next
    case False
    have "step prev x = Inr (k x)" unfolding step using False by (simp only: if_False)
    then have run: "range_loop step prev (x # xs) = range_loop step (k x) xs" by simp
    have "k x \<noteq> []" using False key by blast
    moreover have "(\<forall>y \<in> set xs. k x < k y) \<Longrightarrow> prev \<noteq> [] \<longrightarrow> (\<forall>y \<in> set xs. prev < k y)"
      using False by (meson less_trans not_le)
    moreover have "prev \<noteq> [] \<longrightarrow> prev < k x" using False by auto
    ultimately show ?thesis unfolding run using False by (auto simp: Cons.IH)
  qed
qed

text \<open>A loop that can only fail with one code.\<close>

lemma range_loop_code:
  assumes "\<And>s x d. f s x = Inl d \<Longrightarrow> d = e"
  shows "range_loop f s xs = Inl d \<Longrightarrow> d = e"
  using assms by (induction xs arbitrary: s) (auto simp: and_then_eq_Inl)

subsection \<open>Maps and their iteration order\<close>

type_synonym 'v gomap = "(string \<times> 'v) list"

type_synonym map_order = "nat \<Rightarrow> string list \<Rightarrow> string list"

definition map_keys :: "'v gomap \<Rightarrow> string list" where
  "map_keys m = map fst m"

definition map_range :: "map_order \<Rightarrow> nat \<Rightarrow> 'v gomap \<Rightarrow> (string \<times> 'v) list" where
  "map_range ord i m = List.map_filter (\<lambda>k. map_option (Pair k) (map_of m k)) (ord i (map_keys m))"

definition map_put :: "string \<Rightarrow> 'v \<Rightarrow> 'v gomap \<Rightarrow> 'v gomap" where
  "map_put k v m = AList.update k v m"

definition map_del :: "string \<Rightarrow> 'v gomap \<Rightarrow> 'v gomap" where
  "map_del k m = AList.delete k m"

definition wf_map :: "'v gomap \<Rightarrow> bool" where
  "wf_map m \<longleftrightarrow> distinct (map_keys m)"

lemma map_of_put [simp]: "map_of (map_put k v m) = (map_of m)(k \<mapsto> v)"
  by (simp add: map_put_def update_conv')

lemma map_of_del [simp]: "map_of (map_del k m) = (map_of m)(k := None)"
  by (simp add: map_del_def delete_conv')

lemma wf_map_Nil [simp, intro]: "wf_map []"
  by (simp add: wf_map_def map_keys_def)

lemma wf_map_put [simp, intro]: "wf_map m \<Longrightarrow> wf_map (map_put k v m)"
  by (simp add: wf_map_def map_keys_def map_put_def distinct_update)

lemma wf_map_del [simp, intro]: "wf_map m \<Longrightarrow> wf_map (map_del k m)"
  by (simp add: wf_map_def map_keys_def map_del_def distinct_delete)

lemma set_map_keys [simp]: "set (map_keys m) = dom (map_of m)"
  by (simp add: map_keys_def dom_map_of_conv_image_fst)

lemma wf_map_iff: "wf_map m \<Longrightarrow> (k, v) \<in> set m \<longleftrightarrow> map_of m k = Some v"
  by (auto simp: wf_map_def map_keys_def)

lemma map_put_fresh: "map_of m k = None \<Longrightarrow> map_put k v m = m @ [(k, v)]"
  unfolding map_put_def by (induction m) auto

text \<open>The loop that builds an index of a list and rejects a second element with the same key.\<close>

lemma range_loop_index:
  assumes step: "\<And>m x. step m x =
      (if P x then Inl e else if map_of m (k x) \<noteq> None then Inl e else Inr (map_put (k x) (v x) m))"
  shows "range_loop step m xs =
    (if list_all (\<lambda>x. \<not> P x) xs \<and> distinct (map k xs) \<and> k ` set xs \<inter> dom (map_of m) = {}
     then Inr (m @ map (\<lambda>x. (k x, v x)) xs) else Inl e)"
proof (induction xs arbitrary: m)
  case Nil
  show ?case by simp
next
  case (Cons x xs)
  show ?case
  proof (cases "P x \<or> map_of m (k x) \<noteq> None")
    case True
    then show ?thesis by (auto simp: step)
  next
    case False
    then have m: "map_put (k x) (v x) m = m @ [(k x, v x)]" by (simp add: map_put_fresh)
    have "dom (map_of (m @ [(k x, v x)])) = insert (k x) (dom (map_of m))"
      using False by (auto simp: map_add_def split: option.splits)
    moreover have "range_loop step m (x # xs) = range_loop step (m @ [(k x, v x)]) xs"
      using False m by (simp add: step)
    ultimately show ?thesis using False by (auto simp: Cons.IH)
  qed
qed

text \<open>
  What Go promises of \<open>range\<close> over a map: every entry exactly once, in some order.  The clients
  of the interface are the loops of the domain package.
\<close>

locale map_iteration =
  fixes ord :: map_order
  assumes ord_perm: "mset (ord i ks) = mset ks"
begin

lemma set_ord: "set (ord i ks) = set ks"
  by (metis ord_perm set_mset_mset)

lemma distinct_ord: "distinct (ord i ks) = distinct ks"
  by (metis ord_perm mset_eq_imp_distinct_iff)

lemma length_ord: "length (ord i ks) = length ks"
  by (metis ord_perm size_mset)

lemma set_map_range: "set (map_range ord i m) = {(k, v). map_of m k = Some v}"
proof -
  have "set (map_range ord i m)
      = {kv. \<exists>k \<in> dom (map_of m). map_option (Pair k) (map_of m k) = Some kv}"
    by (force simp: map_range_def List.map_filter_def set_ord)
  then show ?thesis by force
qed

lemma set_map_range_wf: "wf_map m \<Longrightarrow> set (map_range ord i m) = set m"
  by (auto simp: set_map_range wf_map_iff)

lemma map_fst_map_range: "map fst (map_range ord i m) = ord i (map_keys m)"
proof -
  have "map fst (List.map_filter (\<lambda>k. map_option (Pair k) (map_of m k)) ks) = ks"
    if "set ks \<subseteq> dom (map_of m)" for ks
    using that by (induction ks) (auto simp: List.map_filter_simps split: option.splits)
  then show ?thesis by (simp add: map_range_def set_ord)
qed

lemma distinct_map_range: "wf_map m \<Longrightarrow> distinct (map fst (map_range ord i m))"
  by (simp add: map_fst_map_range wf_map_def distinct_ord)

lemma mset_map_range: "wf_map m \<Longrightarrow> mset (map_range ord i m) = mset m"
  by (metis distinct_map distinct_map_range set_eq_iff_mset_eq_distinct set_map_range_wf
      wf_map_def map_keys_def)

lemma sort_ord_keys:
  assumes "wf_map m"
  shows "sort (ord i (map_keys m)) = sorted_list_of_set (dom (map_of m))"
proof -
  have "set (ord i (map_keys m)) = dom (map_of m)" by (simp add: set_ord)
  moreover have "distinct (ord i (map_keys m))" using assms by (simp add: distinct_ord wf_map_def)
  ultimately show ?thesis by (metis sorted_list_of_set_sort_remdups distinct_remdups_id)
qed

lemma collect_keys:
  fixes m :: "'v gomap"
  assumes "wf_map ids"
  shows "dom (map_of (foldl (\<lambda>s (k, _). map_put k () s) ids (map_range ord i m)))
      = dom (map_of ids) \<union> dom (map_of m)
    \<and> wf_map (foldl (\<lambda>s (k, _). map_put k () s) ids (map_range ord i m))"
proof -
  have f: "dom (map_of (foldl (\<lambda>s (k, _). map_put k () s) ids kvs)) = dom (map_of ids) \<union> fst ` set kvs
      \<and> wf_map (foldl (\<lambda>s (k, _). map_put k () s) ids kvs)"
    if "wf_map ids" for kvs :: "(string \<times> 'v) list" and ids
    using that
  proof (induction kvs arbitrary: ids)
    case Nil
    then show ?case by simp
  next
    case (Cons kv kvs)
    obtain k v where kv: "kv = (k, v)" by fastforce
    have "wf_map (map_put k () ids)" using Cons.prems by simp
    from Cons.IH [OF this] show ?case by (auto simp: kv)
  qed
  have "fst ` set (map_range ord i m) = dom (map_of m)" by (force simp: set_map_range)
  with f [OF assms, of "map_range ord i m"] show ?thesis by simp
qed

end

text \<open>The order in which the keys were inserted is one the runtime may choose.\<close>

interpretation insertion_order: map_iteration "\<lambda>_ ks. ks"
  by unfold_locales simp

interpretation reverse_order: map_iteration "\<lambda>_ ks. rev ks"
  by unfold_locales simp

end
