(* ===== verification/Go_Strings.thy ===== *)
theory Go_Strings
  imports Go_Runtime
begin

text \<open>
  The functions of Go's \<open>strings\<close>, \<open>unicode\<close>, \<open>unicode/utf8\<close>, \<open>encoding/hex\<close>, \<open>strconv\<close>
  and \<open>fmt\<close> that the modelled packages call, on byte strings.  The UTF-8 decoder is the one of
  \<open>unicode/utf8\<close> (an invalid byte decodes to U+FFFD and has width 1); \<open>unicode.ToLower\<close> is the table of the
  simple lower-case mappings of the Unicode version Go 1.25 ships.
\<close>

subsection \<open>Runes\<close>

abbreviation byte_of :: "char \<Rightarrow> int" where
  "byte_of c \<equiv> of_char c"

abbreviation char_at :: "int \<Rightarrow> char" where
  "char_at n \<equiv> char_of n"

definition utf8_cont :: "int \<Rightarrow> bool" where
  "utf8_cont b \<longleftrightarrow> 128 \<le> b \<and> b \<le> 191"

definition rune_error :: int where
  "rune_error = 65533"

fun decode_rune :: "int list \<Rightarrow> int \<times> nat" where
  "decode_rune [] = (rune_error, 0)"
| "decode_rune (b0 # bs) =
     (if b0 < 128 then (b0, 1)
      else if 194 \<le> b0 \<and> b0 \<le> 223 then
        (case bs of
           b1 # _ \<Rightarrow> if utf8_cont b1 then ((b0 - 192) * 64 + (b1 - 128), 2) else (rune_error, 1)
         | _ \<Rightarrow> (rune_error, 1))
      else if 224 \<le> b0 \<and> b0 \<le> 239 then
        (case bs of
           b1 # b2 # _ \<Rightarrow>
             if (if b0 = 224 then 160 else 128) \<le> b1 \<and> b1 \<le> (if b0 = 237 then 159 else 191)
                \<and> utf8_cont b2
             then ((b0 - 224) * 4096 + (b1 - 128) * 64 + (b2 - 128), 3) else (rune_error, 1)
         | _ \<Rightarrow> (rune_error, 1))
      else if 240 \<le> b0 \<and> b0 \<le> 244 then
        (case bs of
           b1 # b2 # b3 # _ \<Rightarrow>
             if (if b0 = 240 then 144 else 128) \<le> b1 \<and> b1 \<le> (if b0 = 244 then 143 else 191)
                \<and> utf8_cont b2 \<and> utf8_cont b3
             then ((b0 - 240) * 262144 + (b1 - 128) * 4096 + (b2 - 128) * 64 + (b3 - 128), 4)
             else (rune_error, 1)
         | _ \<Rightarrow> (rune_error, 1))
      else (rune_error, 1))"

function byte_runes :: "int list \<Rightarrow> int list" where
  "byte_runes [] = []"
| "byte_runes (b # bs) =
     (case decode_rune (b # bs) of (r, w) \<Rightarrow> r # byte_runes (drop (w - 1) bs))"
  by pat_completeness auto
termination
  by (relation "measure length") auto

definition runes :: "string \<Rightarrow> int list" where
  "runes s = byte_runes (map byte_of s)"

definition encode_rune :: "int \<Rightarrow> int list" where
  "encode_rune r =
     (if r < 128 then [r]
      else if r < 2048 then [192 + r div 64, 128 + r mod 64]
      else if 55296 \<le> r \<and> r \<le> 57343 \<or> 1114111 < r then [239, 191, 189]
      else if r < 65536 then [224 + r div 4096, 128 + r div 64 mod 64, 128 + r mod 64]
      else [240 + r div 262144, 128 + r div 4096 mod 64, 128 + r div 64 mod 64, 128 + r mod 64])"

definition is_space :: "int \<Rightarrow> bool" where
  "is_space r \<longleftrightarrow> r \<in> {9, 10, 11, 12, 13, 32, 133, 160, 5760, 8232, 8233, 8239, 8287, 12288}
     \<or> 8192 \<le> r \<and> r \<le> 8202"

definition contains_space :: "string \<Rightarrow> bool" where
  "contains_space s \<longleftrightarrow> list_ex is_space (runes s)"

subsection \<open>strings.TrimSpace\<close>

text \<open>The UTF-8 encodings of the runes of \<open>unicode.IsSpace\<close>.\<close>

definition space_encodings :: "int list list" where
  "space_encodings =
     map encode_rune
       ([9, 10, 11, 12, 13, 32, 133, 160, 5760] @ [8192..8202] @ [8232, 8233, 8239, 8287, 12288])"

definition starts_with :: "'a list \<Rightarrow> 'a list \<Rightarrow> bool" where
  "starts_with s p \<longleftrightarrow> take (length p) s = p"

function strip_left :: "'a list list \<Rightarrow> 'a list \<Rightarrow> 'a list" where
  "strip_left ps s =
     (case List.find (\<lambda>p. p \<noteq> [] \<and> starts_with s p) ps of
        None \<Rightarrow> s
      | Some p \<Rightarrow> strip_left ps (drop (length p) s))"
  by pat_completeness auto
termination
  by (relation "measure (\<lambda>(ps, s). length s)")
    (auto simp: find_Some_iff starts_with_def, metis diff_less length_greater_0_conv
      list.size(3) take_eq_Nil2)

declare strip_left.simps [simp del]

definition TrimSpace :: "string \<Rightarrow> string" where
  "TrimSpace s =
     map char_at (rev (strip_left (map rev space_encodings)
       (rev (strip_left space_encodings (map byte_of s)))))"

subsection \<open>strings.ToLower\<close>

text \<open>Rows \<open>(lo, hi, stride, delta)\<close>: the runes lo, lo + stride, ..., hi map to rune + delta.\<close>

definition lower_rows :: "(int \<times> int \<times> int \<times> int) list" where
  "lower_rows =
    [
     (65, 90, 1, 32), (192, 214, 1, 32), (216, 222, 1, 32), (256, 302, 2, 1), (304, 304, 1, -
     199), (306, 310, 2, 1), (313, 327, 2, 1), (330, 374, 2, 1), (376, 376, 1, - 121), (377, 381,
     2, 1), (385, 385, 1, 210), (386, 388, 2, 1), (390, 390, 1, 206), (391, 391, 1, 1), (393,
     394, 1, 205), (395, 395, 1, 1), (398, 398, 1, 79), (399, 399, 1, 202), (400, 400, 1, 203),
     (401, 401, 1, 1), (403, 403, 1, 205), (404, 404, 1, 207), (406, 406, 1, 211), (407, 407, 1,
     209), (408, 408, 1, 1), (412, 412, 1, 211), (413, 413, 1, 213), (415, 415, 1, 214), (416,
     420, 2, 1), (422, 422, 1, 218), (423, 423, 1, 1), (425, 425, 1, 218), (428, 428, 1, 1),
     (430, 430, 1, 218), (431, 431, 1, 1), (433, 434, 1, 217), (435, 437, 2, 1), (439, 439, 1,
     219), (440, 440, 1, 1), (444, 444, 1, 1), (452, 452, 1, 2), (453, 453, 1, 1), (455, 455, 1,
     2), (456, 456, 1, 1), (458, 458, 1, 2), (459, 475, 2, 1), (478, 494, 2, 1), (497, 497, 1,
     2), (498, 500, 2, 1), (502, 502, 1, - 97), (503, 503, 1, - 56), (504, 542, 2, 1), (544, 544,
     1, - 130), (546, 562, 2, 1), (570, 570, 1, 10795), (571, 571, 1, 1), (573, 573, 1, - 163),
     (574, 574, 1, 10792), (577, 577, 1, 1), (579, 579, 1, - 195), (580, 580, 1, 69), (581, 581,
     1, 71), (582, 590, 2, 1), (880, 882, 2, 1), (886, 886, 1, 1), (895, 895, 1, 116), (902, 902,
     1, 38), (904, 906, 1, 37), (908, 908, 1, 64), (910, 911, 1, 63), (913, 929, 1, 32), (931,
     939, 1, 32), (975, 975, 1, 8), (984, 1006, 2, 1), (1012, 1012, 1, - 60), (1015, 1015, 1, 1),
     (1017, 1017, 1, - 7), (1018, 1018, 1, 1), (1021, 1023, 1, - 130), (1024, 1039, 1, 80),
     (1040, 1071, 1, 32), (1120, 1152, 2, 1), (1162, 1214, 2, 1), (1216, 1216, 1, 15), (1217,
     1229, 2, 1), (1232, 1326, 2, 1), (1329, 1366, 1, 48), (4256, 4293, 1, 7264), (4295, 4295, 1,
     7264), (4301, 4301, 1, 7264), (5024, 5103, 1, 38864), (5104, 5109, 1, 8), (7312, 7354, 1, -
     3008), (7357, 7359, 1, - 3008), (7680, 7828, 2, 1), (7838, 7838, 1, - 7615), (7840, 7934, 2,
     1), (7944, 7951, 1, - 8), (7960, 7965, 1, - 8), (7976, 7983, 1, - 8), (7992, 7999, 1, - 8),
     (8008, 8013, 1, - 8), (8025, 8031, 2, - 8), (8040, 8047, 1, - 8), (8072, 8079, 1, - 8),
     (8088, 8095, 1, - 8), (8104, 8111, 1, - 8), (8120, 8121, 1, - 8), (8122, 8123, 1, - 74),
     (8124, 8124, 1, - 9), (8136, 8139, 1, - 86), (8140, 8140, 1, - 9), (8152, 8153, 1, - 8),
     (8154, 8155, 1, - 100), (8168, 8169, 1, - 8), (8170, 8171, 1, - 112), (8172, 8172, 1, - 7),
     (8184, 8185, 1, - 128), (8186, 8187, 1, - 126), (8188, 8188, 1, - 9), (8486, 8486, 1, -
     7517), (8490, 8490, 1, - 8383), (8491, 8491, 1, - 8262), (8498, 8498, 1, 28), (8544, 8559,
     1, 16), (8579, 8579, 1, 1), (9398, 9423, 1, 26), (11264, 11311, 1, 48), (11360, 11360, 1,
     1), (11362, 11362, 1, - 10743), (11363, 11363, 1, - 3814), (11364, 11364, 1, - 10727),
     (11367, 11371, 2, 1), (11373, 11373, 1, - 10780), (11374, 11374, 1, - 10749), (11375, 11375,
     1, - 10783), (11376, 11376, 1, - 10782), (11378, 11378, 1, 1), (11381, 11381, 1, 1), (11390,
     11391, 1, - 10815), (11392, 11490, 2, 1), (11499, 11501, 2, 1), (11506, 11506, 1, 1),
     (42560, 42604, 2, 1), (42624, 42650, 2, 1), (42786, 42798, 2, 1), (42802, 42862, 2, 1),
     (42873, 42875, 2, 1), (42877, 42877, 1, - 35332), (42878, 42886, 2, 1), (42891, 42891, 1,
     1), (42893, 42893, 1, - 42280), (42896, 42898, 2, 1), (42902, 42920, 2, 1), (42922, 42922,
     1, - 42308), (42923, 42923, 1, - 42319), (42924, 42924, 1, - 42315), (42925, 42925, 1, -
     42305), (42926, 42926, 1, - 42308), (42928, 42928, 1, - 42258), (42929, 42929, 1, - 42282),
     (42930, 42930, 1, - 42261), (42931, 42931, 1, 928), (42932, 42946, 2, 1), (42948, 42948, 1,
     - 48), (42949, 42949, 1, - 42307), (42950, 42950, 1, - 35384), (42951, 42953, 2, 1), (42960,
     42960, 1, 1), (42966, 42968, 2, 1), (42997, 42997, 1, 1), (65313, 65338, 1, 32), (66560,
     66599, 1, 40), (66736, 66771, 1, 40), (66928, 66938, 1, 39), (66940, 66954, 1, 39), (66956,
     66962, 1, 39), (66964, 66965, 1, 39), (68736, 68786, 1, 64), (71840, 71871, 1, 32), (93760,
     93791, 1, 32), (125184, 125217, 1, 34)]"

definition in_row :: "int \<Rightarrow> int \<times> int \<times> int \<times> int \<Rightarrow> bool" where
  "in_row r row = (case row of (lo, hi, stride, delta) \<Rightarrow>
     lo \<le> r \<and> r \<le> hi \<and> (stride = 1 \<or> even (r - lo)))"

definition rune_lower :: "int \<Rightarrow> int" where
  "rune_lower r =
     (case List.find (in_row r) lower_rows of
        None \<Rightarrow> r
      | Some (lo, hi, stride, delta) \<Rightarrow> r + delta)"

definition ToLower :: "string \<Rightarrow> string" where
  "ToLower s = map char_at (concat (map (\<lambda>r. encode_rune (rune_lower r)) (runes s)))"

subsection \<open>Hexadecimal\<close>

definition is_lower_hex :: "char \<Rightarrow> bool" where
  "is_lower_hex c \<longleftrightarrow> 48 \<le> byte_of c \<and> byte_of c \<le> 57 \<or> 97 \<le> byte_of c \<and> byte_of c \<le> 102"

definition is_hex :: "char \<Rightarrow> bool" where
  "is_hex c \<longleftrightarrow> is_lower_hex c \<or> 65 \<le> byte_of c \<and> byte_of c \<le> 70"

text \<open>\<open>hex.DecodeString\<close> succeeds iff the length is even and every byte is a hexadecimal digit.\<close>

definition hex_decodes :: "string \<Rightarrow> bool" where
  "hex_decodes s \<longleftrightarrow> even (length s) \<and> list_all is_hex s"

definition hex_digit :: "int \<Rightarrow> char" where
  "hex_digit n = char_at (if n < 10 then 48 + n else 87 + n)"

text \<open>\<open>fmt.Sprintf("%x", bytes)\<close>.\<close>

definition hex_encode :: "string \<Rightarrow> string" where
  "hex_encode s = concat (map (\<lambda>c. [hex_digit (byte_of c div 16), hex_digit (byte_of c mod 16)]) s)"

subsection \<open>Decimal\<close>

function dec_digits :: "int \<Rightarrow> string" where
  "dec_digits n =
     (if n < 10 then [char_at (48 + n)] else dec_digits (n div 10) @ [char_at (48 + n mod 10)])"
  by pat_completeness auto
termination
  by (relation "measure nat") auto

declare dec_digits.simps [simp del]

text \<open>\<open>fmt.Sprint\<close> of an \<open>int\<close>.\<close>

definition Sprint_int :: "int \<Rightarrow> string" where
  "Sprint_int i = (if i < 0 then CHR ''-'' # dec_digits (- i) else dec_digits i)"

definition is_digit :: "char \<Rightarrow> bool" where
  "is_digit c \<longleftrightarrow> 48 \<le> byte_of c \<and> byte_of c \<le> 57"

definition digits_value :: "string \<Rightarrow> int" where
  "digits_value s = foldl (\<lambda>v c. v * 10 + (byte_of c - 48)) 0 s"

text \<open>\<open>strconv.Atoi\<close>: an optional sign, at least one digit, the value in the range of \<open>int64\<close>.\<close>

definition Atoi :: "string \<Rightarrow> int option" where
  "Atoi s =
     (let (neg, ds) = (case s of
         CHR ''-'' # t \<Rightarrow> (True, t) | CHR ''+'' # t \<Rightarrow> (False, t) | _ \<Rightarrow> (False, s));
          v = (if neg then - digits_value ds else digits_value ds)
      in if ds \<noteq> [] \<and> list_all is_digit ds \<and> - (2 ^ 63) \<le> v \<and> v < 2 ^ 63 then Some v else None)"

subsection \<open>Searching and splitting\<close>

fun IndexByte :: "char \<Rightarrow> string \<Rightarrow> nat option" where
  "IndexByte c [] = None"
| "IndexByte c (x # xs) = (if x = c then Some 0 else map_option Suc (IndexByte c xs))"

definition LastIndexByte :: "char \<Rightarrow> string \<Rightarrow> nat option" where
  "LastIndexByte c s = map_option (\<lambda>i. length s - 1 - i) (IndexByte c (rev s))"

fun SplitByte :: "char \<Rightarrow> string \<Rightarrow> string list" where
  "SplitByte c [] = [[]]"
| "SplitByte c (x # xs) =
     (if x = c then [] # SplitByte c xs
      else (case SplitByte c xs of [] \<Rightarrow> [[x]] | p # ps \<Rightarrow> (x # p) # ps))"

definition ContainsAny :: "string \<Rightarrow> string \<Rightarrow> bool" where
  "ContainsAny s cs \<longleftrightarrow> list_ex (\<lambda>c. c \<in> set cs) s"

definition HasPrefix :: "string \<Rightarrow> string \<Rightarrow> bool" where
  "HasPrefix s p \<longleftrightarrow> starts_with s p"

definition HasSuffix :: "string \<Rightarrow> string \<Rightarrow> bool" where
  "HasSuffix s p \<longleftrightarrow> starts_with (rev s) (rev p)"

end
