(* ===== verification/Go_String_Facts.thy ===== *)
theory Go_String_Facts
  imports Go_Strings
begin

text \<open>
  Facts about the string functions that the components share: \<open>TrimSpace\<close> is idempotent and does
  not touch strings without white space, \<open>ToLower\<close> is the ASCII mapping on ASCII strings,
  hexadecimal encodings, and the order of strings joined by a NUL byte.
\<close>

subsection \<open>Bytes\<close>

lemma map_char_byte [simp]: "map char_at (map byte_of s) = s"
  by (induction s) auto

lemma map_byte_char: "\<forall>b \<in> set bs. 0 \<le> b \<and> b < 256 \<Longrightarrow> map byte_of (map char_at bs) = bs"
  by (induction bs) (auto simp: mod_pos_pos_trivial)

lemma byte_range [simp]: "0 \<le> byte_of c" "byte_of c < 256"
proof -
  have "byte_of c = byte_of c mod 256" by simp
  then show "0 \<le> byte_of c" "byte_of c < 256"
    by (metis pos_mod_sign zero_less_numeral, metis pos_mod_bound zero_less_numeral)
qed

lemma map_byte_inj: "map byte_of s = map byte_of t \<Longrightarrow> s = t"
  by (metis map_char_byte)

subsection \<open>TrimSpace\<close>

definition trim_bytes :: "int list \<Rightarrow> int list" where
  "trim_bytes bs = rev (strip_left (map rev space_encodings) (rev (strip_left space_encodings bs)))"

definition unstripped :: "'a list list \<Rightarrow> 'a list \<Rightarrow> bool" where
  "unstripped ps s \<longleftrightarrow> (\<forall>p \<in> set ps. p \<noteq> [] \<longrightarrow> \<not> starts_with s p)"

lemma strip_left_unstripped: "unstripped ps s \<Longrightarrow> strip_left ps s = s"
proof -
  assume "unstripped ps s"
  then have "List.find (\<lambda>p. p \<noteq> [] \<and> starts_with s p) ps = None"
    by (auto simp: unstripped_def find_None_iff)
  then show ?thesis by (simp add: strip_left.simps)
qed

lemma strip_left_result: "unstripped ps (strip_left ps s)"
proof (induction ps s rule: strip_left.induct)
  case (1 ps s)
  show ?case
  proof (cases "List.find (\<lambda>p. p \<noteq> [] \<and> starts_with s p) ps")
    case None
    then have "strip_left ps s = s" by (simp add: strip_left.simps)
    with None show ?thesis by (auto simp: unstripped_def find_None_iff)
  next
    case (Some p)
    with "1.IH" show ?thesis by (subst strip_left.simps) simp
  qed
qed

lemma strip_left_suffix: "\<exists>pre. s = pre @ strip_left ps s"
proof (induction ps s rule: strip_left.induct)
  case (1 ps s)
  show ?case
  proof (cases "List.find (\<lambda>p. p \<noteq> [] \<and> starts_with s p) ps")
    case None
    then have "strip_left ps s = s" by (simp add: strip_left.simps)
    then show ?thesis by auto
  next
    case (Some p)
    with "1.IH" obtain pre where pre: "drop (length p) s = pre @ strip_left ps (drop (length p) s)"
      by blast
    from Some have "strip_left ps s = strip_left ps (drop (length p) s)"
      by (subst strip_left.simps) simp
    with pre have "s = (take (length p) s @ pre) @ strip_left ps s"
      by (metis append.assoc append_take_drop_id)
    then show ?thesis by blast
  qed
qed

lemma starts_with_append: "starts_with s p \<Longrightarrow> starts_with (s @ t) p"
proof -
  assume p: "starts_with s p"
  then have "length p \<le> length s"
    by (metis nat_le_linear starts_with_def take_all)
  with p show ?thesis by (simp add: starts_with_def)
qed

lemma unstripped_prefix: "unstripped ps (s @ t) \<Longrightarrow> unstripped ps s"
  by (auto simp: unstripped_def dest: starts_with_append)

lemma strip_left_set: "set (strip_left ps s) \<subseteq> set s"
  by (metis strip_left_suffix set_append Un_upper2)

lemma trim_bytes_set: "set (trim_bytes bs) \<subseteq> set bs"
  unfolding trim_bytes_def using strip_left_set by (metis order_trans set_rev)

definition trimmed_bytes :: "int list \<Rightarrow> bool" where
  "trimmed_bytes bs \<longleftrightarrow> unstripped space_encodings bs \<and> unstripped (map rev space_encodings) (rev bs)"

lemma trim_bytes_trimmed: "trimmed_bytes (trim_bytes bs)"
proof -
  let ?t = "strip_left space_encodings bs"
  let ?u = "strip_left (map rev space_encodings) (rev ?t)"
  obtain pre where "rev ?t = pre @ ?u" using strip_left_suffix by blast
  then have "?t = rev ?u @ rev pre" by (metis rev_append rev_rev_ident)
  then have "unstripped space_encodings (rev ?u)"
    by (metis strip_left_result unstripped_prefix)
  then show ?thesis
    by (simp add: trimmed_bytes_def trim_bytes_def strip_left_result)
qed

lemma trim_bytes_id: "trimmed_bytes bs \<Longrightarrow> trim_bytes bs = bs"
  by (simp add: trimmed_bytes_def trim_bytes_def strip_left_unstripped)

lemma TrimSpace_bytes: "map byte_of (TrimSpace s) = trim_bytes (map byte_of s)"
proof -
  have "\<forall>b \<in> set (trim_bytes (map byte_of s)). 0 \<le> b \<and> b < 256"
    using trim_bytes_set [of "map byte_of s"] by auto
  then have "map byte_of (map char_at (trim_bytes (map byte_of s))) = trim_bytes (map byte_of s)"
    by (rule map_byte_char)
  then show ?thesis by (simp add: TrimSpace_def trim_bytes_def)
qed

lemma TrimSpace_fix: "trimmed_bytes (map byte_of s) \<Longrightarrow> TrimSpace s = s"
  by (rule map_byte_inj) (simp add: TrimSpace_bytes trim_bytes_id)

lemma TrimSpace_trimmed: "trimmed_bytes (map byte_of (TrimSpace s))"
  by (simp add: TrimSpace_bytes trim_bytes_trimmed)

lemma TrimSpace_idem [simp]: "TrimSpace (TrimSpace s) = TrimSpace s"
  by (rule TrimSpace_fix) (rule TrimSpace_trimmed)

lemma TrimSpace_Nil [simp]: "TrimSpace [] = []"
  by (rule TrimSpace_fix) (auto simp: trimmed_bytes_def unstripped_def starts_with_def)

text \<open>Printable ASCII: no byte of a white-space encoding.\<close>

definition graphic :: "int \<Rightarrow> bool" where
  "graphic b \<longleftrightarrow> 33 \<le> b \<and> b < 128"

lemma space_encodings_not_graphic:
  "\<forall>p \<in> set space_encodings. p \<noteq> [] \<and> \<not> graphic (hd p) \<and> \<not> graphic (last p)"
  by (simp add: space_encodings_def encode_rune_def graphic_def upt_rec)

lemma starts_with_hd: "starts_with s p \<Longrightarrow> p \<noteq> [] \<Longrightarrow> s \<noteq> [] \<and> hd s = hd p"
  by (cases s; cases p) (auto simp: starts_with_def)

lemma graphic_trimmed:
  assumes "bs \<noteq> [] \<Longrightarrow> graphic (hd bs) \<and> graphic (last bs)"
  shows "trimmed_bytes bs"
proof -
  have "\<not> starts_with bs p \<and> \<not> starts_with (rev bs) (rev p)"
    if "p \<in> set space_encodings" for p
  proof -
    from that space_encodings_not_graphic
    have p: "p \<noteq> []" "\<not> graphic (hd p)" "\<not> graphic (last p)" by auto
    then have "rev p \<noteq> []" by simp
    with p assms show ?thesis
      using starts_with_hd [of bs p] starts_with_hd [of "rev bs" "rev p"]
      by (auto simp: hd_rev)
  qed
  then show ?thesis by (auto simp: trimmed_bytes_def unstripped_def)
qed

lemma TrimSpace_graphic: "list_all (\<lambda>c. graphic (byte_of c)) s \<Longrightarrow> TrimSpace s = s"
  by (rule TrimSpace_fix, rule graphic_trimmed) (cases s, auto simp: list_all_iff last_map)

subsection \<open>ToLower on ASCII strings\<close>

definition ascii_lower :: "char \<Rightarrow> char" where
  "ascii_lower c = (if 65 \<le> byte_of c \<and> byte_of c \<le> 90 then char_at (byte_of c + 32) else c)"

lemma byte_runes_ascii: "\<forall>b \<in> set bs. b < 128 \<Longrightarrow> byte_runes bs = bs"
  by (induction bs) auto

lemma lower_rows_above_ascii:
  "r < 128 \<Longrightarrow> \<not> (65 \<le> r \<and> r \<le> 90) \<Longrightarrow> List.find (in_row r) lower_rows = None"
  by (simp add: find_None_iff lower_rows_def in_row_def)

lemma lower_rows_upper:
  "65 \<le> r \<Longrightarrow> r \<le> 90 \<Longrightarrow> List.find (in_row r) lower_rows = Some (65, 90, 1, 32)"
  by (simp add: lower_rows_def in_row_def)

lemma rune_lower_ascii:
  "r < 128 \<Longrightarrow> rune_lower r = (if 65 \<le> r \<and> r \<le> 90 then r + 32 else r)"
  by (auto simp: rune_lower_def lower_rows_above_ascii lower_rows_upper)

lemma ToLower_ascii:
  assumes "list_all (\<lambda>c. byte_of c < 128) s"
  shows "ToLower s = map ascii_lower s"
proof -
  from assms have "runes s = map byte_of s"
    by (auto simp: runes_def list_all_iff intro!: byte_runes_ascii)
  moreover from assms
  have "map char_at (concat (map (\<lambda>r. encode_rune (rune_lower r)) (map byte_of s)))
      = map ascii_lower s"
    by (induction s) (auto simp: rune_lower_ascii encode_rune_def ascii_lower_def)
  ultimately show ?thesis by (simp add: ToLower_def)
qed

subsection \<open>Hexadecimal\<close>

lemma is_hex_byte: "is_hex c \<Longrightarrow> graphic (byte_of c)"
  by (auto simp: is_hex_def is_lower_hex_def graphic_def)

lemma lower_hex_is_hex: "is_lower_hex c \<Longrightarrow> is_hex c"
  by (simp add: is_hex_def)

lemma TrimSpace_hex: "list_all is_hex s \<Longrightarrow> TrimSpace s = s"
  by (rule TrimSpace_graphic) (auto simp: list_all_iff is_hex_byte)

lemma ascii_lower_hex: "is_hex c \<Longrightarrow> is_lower_hex (ascii_lower c)"
  by (auto simp: ascii_lower_def is_hex_def is_lower_hex_def)

lemma ascii_lower_lower_hex: "is_lower_hex c \<Longrightarrow> ascii_lower c = c"
  by (auto simp: ascii_lower_def is_lower_hex_def)

lemma ToLower_hex:
  assumes "list_all is_hex s"
  shows "ToLower s = map ascii_lower s"
proof (rule ToLower_ascii)
  from assms show "list_all (\<lambda>c. byte_of c < 128) s"
    using is_hex_byte by (fastforce simp: list_all_iff graphic_def)
qed

lemma ToLower_lower_hex: "list_all is_lower_hex s \<Longrightarrow> ToLower s = s"
  by (subst ToLower_hex) (auto simp: list_all_iff lower_hex_is_hex ascii_lower_lower_hex map_idI)

lemma hex_digit_lower_hex: "0 \<le> n \<Longrightarrow> n < 16 \<Longrightarrow> is_lower_hex (hex_digit n)"
  by (auto simp: hex_digit_def is_lower_hex_def)

lemma hex_encode_lower_hex: "list_all is_lower_hex (hex_encode s)"
proof (induction s)
  case Nil
  show ?case by (simp add: hex_encode_def)
next
  case (Cons c s)
  have "0 \<le> byte_of c" "byte_of c < 256" by simp_all
  then have "0 \<le> byte_of c div 16" "byte_of c div 16 < 16" by linarith+
  with Cons show ?case by (simp add: hex_encode_def hex_digit_lower_hex)
qed

lemma length_hex_encode [simp]: "length (hex_encode s) = 2 * length s"
  by (induction s) (auto simp: hex_encode_def)

subsection \<open>Strings joined by a NUL byte\<close>

definition no_nul :: "string \<Rightarrow> bool" where
  "no_nul s \<longleftrightarrow> CHR 0x00 \<notin> set s"

definition join_nul :: "string \<Rightarrow> string \<Rightarrow> string" where
  "join_nul s t = s @ [CHR 0x00] @ t"

lemma nul_least: "CHR 0x00 \<le> c"
  by (simp add: less_eq_char_def)

lemma join_nul_less:
  assumes "no_nul s" "no_nul s'"
  shows "join_nul s t < join_nul s' t' \<longleftrightarrow> s < s' \<or> s = s' \<and> t < t'"
  using assms
proof (induction s arbitrary: s')
  case Nil
  then show ?case
    by (cases s') (auto simp: join_nul_def no_nul_def less_le nul_least)
next
  case (Cons c s)
  show ?case
  proof (cases s')
    case Nil
    with Cons.prems have "CHR 0x00 < c"
      using nul_least [of c] by (auto simp: no_nul_def less_le)
    with Nil show ?thesis by (auto simp: join_nul_def)
  next
    case (Cons c' s'')
    with Cons.prems have "no_nul s" "no_nul s''" by (auto simp: no_nul_def)
    then show ?thesis using Cons Cons.IH [of s''] by (auto simp: join_nul_def)
  qed
qed

lemma join_nul_inj:
  assumes "no_nul s" "no_nul s'"
  shows "join_nul s t = join_nul s' t' \<longleftrightarrow> s = s' \<and> t = t'"
  using join_nul_less [OF assms] join_nul_less [OF assms(2,1)]
  by (metis less_linear order_less_irrefl)

end
