(* ===== verification/Go_Json.thy ===== *)
theory Go_Json
  imports Go_String_Facts
begin

text \<open>
  \<open>time.Time\<close> and \<open>encoding/json\<close>, as far as the content digests of the program depend on
  them.  \<open>json_marshal\<close> is the byte string \<open>json.Marshal\<close> returns for a struct whose fields have
  been laid out in declaration order by the \<open>..._json\<close> functions of the component theories; it
  fails only for a time outside the years 0 to 9999 (or with an offset of a day or more).
  A Go slice is \<open>'a slice\<close> where the difference between the nil slice and an empty one is
  visible (in JSON, and to \<open>reflect.DeepEqual\<close>).
\<close>

subsection \<open>Slices\<close>

type_synonym 'a slice = "'a list option"

fun elems :: "'a slice \<Rightarrow> 'a list" where
  "elems None = []"
| "elems (Some xs) = xs"

text \<open>\<open>append([]T(nil), xs...)\<close>\<close>

definition copy_slice :: "'a list \<Rightarrow> 'a slice" where
  "copy_slice xs = (if xs = [] then None else Some xs)"

lemma elems_copy_slice [simp]: "elems (copy_slice xs) = xs"
  by (simp add: copy_slice_def)

subsection \<open>time.Time\<close>

text \<open>
  The instant in nanoseconds since the zero time (1 January of the year 1, UTC), the location
  (\<open>None\<close> is UTC, otherwise its name and offset in seconds) and the monotonic reading, if any.
  Record equality is \<open>reflect.DeepEqual\<close>.
\<close>

record go_time =
  time_instant :: int
  time_loc :: "(string \<times> int) option"
  time_mono :: "int option"

definition time_UTC :: "go_time \<Rightarrow> go_time" where
  "time_UTC t = t\<lparr>time_loc := None, time_mono := None\<rparr>"

definition time_IsZero :: "go_time \<Rightarrow> bool" where
  "time_IsZero t \<longleftrightarrow> time_instant t = 0"

definition time_Equal :: "go_time \<Rightarrow> go_time \<Rightarrow> bool" where
  "time_Equal t u \<longleftrightarrow>
     (case (time_mono t, time_mono u) of
        (Some m, Some n) \<Rightarrow> m = n
      | _ \<Rightarrow> time_instant t = time_instant u)"

text \<open>\<open>time.Time{}\<close>\<close>

definition zero_time :: go_time where
  "zero_time = \<lparr>time_instant = 0, time_loc = None, time_mono = None\<rparr>"

text \<open>
  \<open>time.Unix(0, ns).UTC()\<close> and \<open>UnixNano\<close>; the Unix epoch is 719162 days after the zero time.  The
  nanoseconds are an \<open>int64\<close>, which wraps for instants before 1677 and after 2262.
\<close>

definition unix_epoch :: int where
  "unix_epoch = 719162 * 86400 * 1000000000"

definition time_Unix :: "int \<Rightarrow> go_time" where
  "time_Unix ns = \<lparr>time_instant = ns + unix_epoch, time_loc = None, time_mono = None\<rparr>"

definition UnixNano :: "go_time \<Rightarrow> int" where
  "UnixNano t = (time_instant t - unix_epoch + 2 ^ 63) mod 2 ^ 64 - 2 ^ 63"

lemma UnixNano_bounds: "- (2 ^ 63) \<le> UnixNano t" "UnixNano t < 2 ^ 63"
proof -
  have "0 \<le> (time_instant t - unix_epoch + 2 ^ 63) mod 2 ^ 64" "(time_instant t - unix_epoch + 2 ^ 63) mod 2 ^ 64 < 2 ^ 64" by simp_all
  then show "- (2 ^ 63) \<le> UnixNano t" "UnixNano t < 2 ^ 63" unfolding UnixNano_def by simp_all
qed

lemma UnixNano_Unix: "- (2 ^ 63) \<le> ns \<Longrightarrow> ns < 2 ^ 63 \<Longrightarrow> UnixNano (time_Unix ns) = ns"
  by (simp add: UnixNano_def time_Unix_def)

lemma time_UTC_simps [simp]:
  "time_instant (time_UTC t) = time_instant t" "time_loc (time_UTC t) = None"
  "time_IsZero (time_UTC t) = time_IsZero t" "time_UTC (time_UTC t) = time_UTC t"
  by (simp_all add: time_UTC_def time_IsZero_def)

definition time_offset :: "go_time \<Rightarrow> int" where
  "time_offset t = (case time_loc t of None \<Rightarrow> 0 | Some (_, off) \<Rightarrow> off)"

definition local_seconds :: "go_time \<Rightarrow> int" where
  "local_seconds t = time_instant t div 1000000000 + time_offset t"

text \<open>Year, month and day of a day number (0 is 1 January of the year 1).\<close>

definition civil_date :: "int \<Rightarrow> int \<times> int \<times> int" where
  "civil_date days =
     (let z = days + 306; era = z div 146097; doe = z mod 146097;
          yoe = (doe - doe div 1460 + doe div 36524 - doe div 146096) div 365;
          doy = doe - (365 * yoe + yoe div 4 - yoe div 100);
          mp = (5 * doy + 2) div 153; d = doy - (153 * mp + 2) div 5 + 1;
          m = (if mp < 10 then mp + 3 else mp - 9)
      in (yoe + era * 400 + (if m \<le> 2 then 1 else 0), m, d))"

definition pad_dec :: "nat \<Rightarrow> int \<Rightarrow> string" where
  "pad_dec w i = (let s = dec_digits i in replicate (w - length s) CHR ''0'' @ s)"

definition fraction_text :: "int \<Rightarrow> string" where
  "fraction_text ns =
     (if ns = 0 then [] else CHR ''.'' # rev (dropWhile (\<lambda>c. c = CHR ''0'') (rev (pad_dec 9 ns))))"

definition zone_text :: "int \<Rightarrow> string" where
  "zone_text off =
     (if off = 0 then ''Z''
      else let m = sgn off * (\<bar>off\<bar> div 60)
           in (if m < 0 then ''-'' else ''+'') @ pad_dec 2 (\<bar>m\<bar> div 60) @ '':'' @ pad_dec 2 (\<bar>m\<bar> mod 60))"

definition time_text :: "go_time \<Rightarrow> string" where
  "time_text t =
     (let s = local_seconds t; sod = s mod 86400
      in case civil_date (s div 86400) of (y, m, d) \<Rightarrow>
        pad_dec 4 y @ ''-'' @ pad_dec 2 m @ ''-'' @ pad_dec 2 d @ ''T'' @
        pad_dec 2 (sod div 3600) @ '':'' @ pad_dec 2 (sod div 60 mod 60) @ '':'' @ pad_dec 2 (sod mod 60) @
        fraction_text (time_instant t mod 1000000000) @ zone_text (time_offset t))"

text \<open>\<open>MarshalJSON\<close> accepts the years 0 to 9999 and offsets of less than 24 hours.\<close>

definition time_json_ok :: "go_time \<Rightarrow> bool" where
  "time_json_ok t \<longleftrightarrow>
     (case civil_date (local_seconds t div 86400) of (y, _, _) \<Rightarrow> 0 \<le> y \<and> y \<le> 9999)
     \<and> \<bar>time_offset t\<bar> < 86400"

subsection \<open>encoding/json\<close>

datatype json =
    JNull
  | JBool bool
  | JInt int
  | JString string
  | JTime go_time
  | JArray "json list"
  | JObject "(string \<times> json) list"

definition low_hex4 :: "int \<Rightarrow> string" where
  "low_hex4 n = [hex_digit (n div 4096 mod 16), hex_digit (n div 256 mod 16),
     hex_digit (n div 16 mod 16), hex_digit (n mod 16)]"

text \<open>One rune of a JSON string, with the HTML escapes \<open>json.Marshal\<close> always applies.\<close>

definition json_rune :: "int \<Rightarrow> string" where
  "json_rune r =
     (if r = 34 \<or> r = 92 then [char_at 92, char_at r]
      else if r = 8 then [char_at 92, CHR ''b'']
      else if r = 12 then [char_at 92, CHR ''f'']
      else if r = 10 then [char_at 92, CHR ''n'']
      else if r = 13 then [char_at 92, CHR ''r'']
      else if r = 9 then [char_at 92, CHR ''t'']
      else if r < 32 \<or> r = 60 \<or> r = 62 \<or> r = 38 \<or> r = 8232 \<or> r = 8233
        then [char_at 92, CHR ''u''] @ low_hex4 r
      else map char_at (encode_rune r))"

text \<open>An invalid byte is written as \<open>\ufffd\<close>, a valid U+FFFD as its three bytes.\<close>

function json_bytes :: "int list \<Rightarrow> string" where
  "json_bytes [] = []"
| "json_bytes (b # bs) =
     (case decode_rune (b # bs) of (r, w) \<Rightarrow>
        (if r = rune_error \<and> w = 1 then [char_at 92, CHR ''u''] @ ''fffd'' else json_rune r)
        @ json_bytes (drop (w - 1) bs))"
  by pat_completeness auto
termination
  by (relation "measure length") auto

definition json_string :: "string \<Rightarrow> string" where
  "json_string s = [char_at 34] @ json_bytes (map byte_of s) @ [char_at 34]"

fun commas :: "string list \<Rightarrow> string" where
  "commas [] = []"
| "commas [x] = x"
| "commas (x # xs) = x @ '','' @ commas xs"

fun json_text :: "json \<Rightarrow> string" where
  "json_text JNull = ''null''"
| "json_text (JBool b) = (if b then ''true'' else ''false'')"
| "json_text (JInt i) = Sprint_int i"
| "json_text (JString s) = json_string s"
| "json_text (JTime t) = [char_at 34] @ time_text t @ [char_at 34]"
| "json_text (JArray vs) = ''['' @ commas (map json_text vs) @ '']''"
| "json_text (JObject fs) =
     ''{'' @ commas (map (\<lambda>(k, v). json_string k @ '':'' @ json_text v) fs) @ ''}''"

fun json_ok :: "json \<Rightarrow> bool" where
  "json_ok (JTime t) = time_json_ok t"
| "json_ok (JArray vs) = list_all json_ok vs"
| "json_ok (JObject fs) = list_all (\<lambda>(_, v). json_ok v) fs"
| "json_ok _ = True"

definition json_marshal :: "json \<Rightarrow> string option" where
  "json_marshal v = (if json_ok v then Some (json_text v) else None)"

text \<open>Fields: always present, omitted when empty, and arrays of slices.\<close>

definition fld :: "string \<Rightarrow> json \<Rightarrow> (string \<times> json) list" where
  "fld k v = [(k, v)]"

definition fld_s :: "string \<Rightarrow> string \<Rightarrow> (string \<times> json) list" where
  "fld_s k s = [(k, JString s)]"

definition fld_omit :: "string \<Rightarrow> string \<Rightarrow> (string \<times> json) list" where
  "fld_omit k s = (if s = [] then [] else [(k, JString s)])"

definition fld_omit_list :: "string \<Rightarrow> json list \<Rightarrow> (string \<times> json) list" where
  "fld_omit_list k vs = (if vs = [] then [] else [(k, JArray vs)])"

definition json_slice :: "json slice \<Rightarrow> json" where
  "json_slice s = (case s of None \<Rightarrow> JNull | Some vs \<Rightarrow> JArray vs)"

lemmas fld_defs = fld_def fld_s_def fld_omit_def fld_omit_list_def json_slice_def

end
