(* ===== verification/Domain_Types.thy ===== *)
theory Domain_Types
  imports Go_Json
begin

text \<open>
  The data of package \<open>domain\<close>: error codes, entities, notes, context objects, candidates,
  context plans, landing and merge sessions.  A Go string type with a block of constants stays a
  string type here, since the code also meets values outside the block (and rejects them in its
  validators).  A struct is a record whose field names carry the struct's abbreviation.  An error
  is represented by the code \<open>CodeOf\<close> returns for it; the texts are not modelled.
\<close>

subsection \<open>Errors (domain.go, errors.go)\<close>

datatype ErrorCode =
    CodeNone \<comment> \<open>the empty code of an untyped error\<close>
  | CodeValidation | CodeRepositoryState | CodeNotInitialized | CodeEntityNotFound
  | CodeNothingToCommit | CodeStaleWorkingSet | CodeWorkingSetDirty | CodeConcurrentUpdate
  | CodeCoverageIncomplete | CodeLocalStorage | CodeBusy | CodeRemoteConflict | CodeAuth
  | CodeIncompatiblePayload | CodeObjectMissing

type_synonym 'a result = "ErrorCode + 'a"

datatype go_error =
    PlainError string
  | WrappedError string go_error \<comment> \<open>\<open>fmt.Errorf("...: %w", err)\<close>\<close>
  | DomainError ErrorCode "go_error option" \<comment> \<open>\<open>*domain.Error\<close> with its \<open>Err\<close>\<close>

definition NewError :: "ErrorCode \<Rightarrow> go_error option \<Rightarrow> go_error" where
  "NewError code err = DomainError code err"

fun Unwrap :: "go_error \<Rightarrow> go_error option" where
  "Unwrap (DomainError _ err) = err"
| "Unwrap (WrappedError _ err) = Some err"
| "Unwrap (PlainError _) = None"

text \<open>\<open>errors.As\<close> walks the chain of wrapped errors to the first domain error.\<close>

fun CodeOf :: "go_error \<Rightarrow> ErrorCode" where
  "CodeOf (DomainError code _) = code"
| "CodeOf (WrappedError _ err) = CodeOf err"
| "CodeOf (PlainError _) = CodeNone"

subsection \<open>Entities and coverage\<close>

type_synonym EntityKind = string

definition EntityFunction :: EntityKind where [go_defs]: "EntityFunction = ''function''"
definition EntityMethod :: EntityKind where [go_defs]: "EntityMethod = ''method''"
definition EntityType :: EntityKind where [go_defs]: "EntityType = ''type''"
definition EntityClass :: EntityKind where [go_defs]: "EntityClass = ''class''"
definition EntityInterface :: EntityKind where [go_defs]: "EntityInterface = ''interface''"
definition EntityEnum :: EntityKind where [go_defs]: "EntityEnum = ''enum''"

record Entity =
  ent_Language :: string
  ent_Key :: string
  ent_Kind :: EntityKind
  ent_Name :: string
  ent_Signature :: string
  ent_Path :: string
  ent_StartLine :: int
  ent_EndLine :: int
  ent_SourceSHA :: string
  ent_StructuralHash :: string

text \<open>\<open>Entity{}\<close>, what a Go map returns for a missing key.\<close>

definition zero_entity :: Entity where
  "zero_entity = \<lparr>ent_Language = [], ent_Key = [], ent_Kind = [], ent_Name = [],
     ent_Signature = [], ent_Path = [], ent_StartLine = 0, ent_EndLine = 0, ent_SourceSHA = [],
     ent_StructuralHash = []\<rparr>"

type_synonym CoverageState = string

definition CoverageIndexed :: CoverageState where [go_defs]: "CoverageIndexed = ''indexed''"
definition CoverageMissingPack :: CoverageState where [go_defs]: "CoverageMissingPack = ''missing_pack''"
definition CoverageFailed :: CoverageState where [go_defs]: "CoverageFailed = ''failed''"

record Coverage =
  cov_Language :: string
  cov_State :: CoverageState
  cov_IndexerID :: string
  cov_IndexerVersion :: string
  cov_SourceSHA :: string
  cov_Detail :: string

subsection \<open>Notes\<close>

type_synonym NoteKind = string

definition NoteIntent :: NoteKind where [go_defs]: "NoteIntent = ''intent''"
definition NoteDecision :: NoteKind where [go_defs]: "NoteDecision = ''decision''"
definition NoteConstraint :: NoteKind where [go_defs]: "NoteConstraint = ''constraint''"
definition NoteExample :: NoteKind where [go_defs]: "NoteExample = ''example''"
definition NoteWarning :: NoteKind where [go_defs]: "NoteWarning = ''warning''"

type_synonym NoteBindingState = string

definition NoteBindingActive :: NoteBindingState where
  [go_defs]: "NoteBindingActive = ''active''"
definition NoteBindingNeedsReview :: NoteBindingState where
  [go_defs]: "NoteBindingNeedsReview = ''needs_review''"
definition NoteBindingHistorical :: NoteBindingState where
  [go_defs]: "NoteBindingHistorical = ''historical''"

record Note =
  note_ID :: string
  note_RevisionID :: string
  note_SupersedesRevisionID :: string
  note_EntityKey :: string
  note_Kind :: NoteKind
  note_Body :: string
  note_Author :: string
  note_Origin :: string
  note_CreatedAt :: go_time
  note_BindingState :: NoteBindingState
  note_BindingSourceSHA :: string
  note_ReviewReason :: string
  note_Topics :: "string slice"
  note_Pending :: bool

definition ValidNoteKind :: "NoteKind \<Rightarrow> bool" where
  "ValidNoteKind kind \<longleftrightarrow>
     kind \<in> {NoteIntent, NoteDecision, NoteConstraint, NoteExample, NoteWarning}"

definition ValidNoteBindingState :: "NoteBindingState \<Rightarrow> bool" where
  "ValidNoteBindingState state \<longleftrightarrow>
     state \<in> {NoteBindingActive, NoteBindingNeedsReview, NoteBindingHistorical}"

subsection \<open>Working sets, commits and context objects\<close>

record WorkingSetKey =
  key_RepositoryID :: string
  key_WorktreeID :: string
  key_RefName :: string
  key_SourceSHA :: string

record ContextCommit =
  commit_ID :: string
  commit_ParentID :: string
  commit_RefName :: string
  commit_SourceSHA :: string
  commit_Message :: string
  commit_Author :: string
  commit_CreatedAt :: go_time

record ContextSnapshotProvenance =
  prov_Language :: string
  prov_IndexerID :: string
  prov_IndexerVersion :: string
  prov_SourceSHA :: string

record ContextRevisionMapping =
  map_EntityKey :: string
  map_NoteID :: string
  map_RevisionID :: string
  map_BindingState :: NoteBindingState
  map_BindingSourceSHA :: string
  map_ReviewReason :: string

record CandidatePromotionMapping =
  promo_CandidateRecordID :: string
  promo_NoteID :: string
  promo_RevisionID :: string

record LandingReceipt =
  rcpt_ID :: string
  rcpt_Provider :: string
  rcpt_ForgeRepository :: string
  rcpt_ChangeNumber :: int
  rcpt_ContextRepositoryID :: string
  rcpt_TargetRef :: string
  rcpt_CandidateDigest :: string
  rcpt_FinalPlanID :: string
  rcpt_SourceMergeSHA :: string
  rcpt_BaseContextCommitID :: string
  rcpt_Resolver :: string
  rcpt_CandidateMappings :: "CandidatePromotionMapping list"

record ContextObject =
  obj_SchemaVersion :: int
  obj_RepositoryID :: string
  obj_RefName :: string
  obj_ParentID :: string
  obj_ParentIDs :: "string list"
  obj_LegacyParentID :: string
  obj_SourceSHA :: string
  obj_Message :: string
  obj_Author :: string
  obj_CreatedAt :: go_time
  obj_Provenance :: "ContextSnapshotProvenance list"
  obj_Entities :: "Entity slice"
  obj_Notes :: "Note slice"
  obj_RevisionMappings :: "ContextRevisionMapping list"
  obj_LandingReceipts :: "LandingReceipt list"

subsection \<open>Candidates (candidate.go)\<close>

definition MaxCandidateEnvelopeBytes :: int where "MaxCandidateEnvelopeBytes = 1048576"
definition maxCandidateNotes :: int where "maxCandidateNotes = 1000"

type_synonym CandidateState = string

definition CandidateOpen :: CandidateState where [go_defs]: "CandidateOpen = ''open''"
definition CandidateMerged :: CandidateState where [go_defs]: "CandidateMerged = ''merged''"
definition CandidateClosed :: CandidateState where [go_defs]: "CandidateClosed = ''closed''"

type_synonym CandidateNoteState = string

definition CandidateNoteDraft :: CandidateNoteState where
  [go_defs]: "CandidateNoteDraft = ''draft''"
definition CandidateNoteHistorical :: CandidateNoteState where
  [go_defs]: "CandidateNoteHistorical = ''historical''"
definition CandidateNotePromoted :: CandidateNoteState where
  [go_defs]: "CandidateNotePromoted = ''promoted''"

record Candidate =
  cand_ID :: string
  cand_Provider :: string
  cand_Repository :: string
  cand_Number :: int
  cand_State :: CandidateState
  cand_BaseSHA :: string
  cand_HeadSHA :: string
  cand_MergeSHA :: string
  cand_UpdatedAt :: go_time

record CandidateNote =
  cnote_CandidateID :: string
  cnote_ID :: string
  cnote_EntityKey :: string
  cnote_StructuralHash :: string
  cnote_Kind :: NoteKind
  cnote_Body :: string
  cnote_Author :: string
  cnote_Origin :: string
  cnote_CreatedAt :: go_time
  cnote_State :: CandidateNoteState
  cnote_PromotedNoteID :: string

record candidateEnvelopeNote =
  enote_ID :: string
  enote_EntityKey :: string
  enote_StructuralHash :: string
  enote_Kind :: NoteKind
  enote_Body :: string
  enote_Author :: string
  enote_Origin :: string
  enote_CreatedAt :: go_time

record candidateEnvelope =
  env_SchemaVersion :: int
  env_Provider :: string
  env_Repository :: string
  env_Number :: int
  env_State :: CandidateState
  env_BaseSHA :: string
  env_HeadSHA :: string
  env_MergeSHA :: string
  env_UpdatedAt :: go_time
  env_Notes :: "candidateEnvelopeNote list"

subsection \<open>Entity changes (retrieval.go)\<close>

type_synonym EntityChangeKind = string

definition ChangeAdded :: EntityChangeKind where [go_defs]: "ChangeAdded = ''added''"
definition ChangeModified :: EntityChangeKind where [go_defs]: "ChangeModified = ''modified''"
definition ChangeMoved :: EntityChangeKind where [go_defs]: "ChangeMoved = ''moved''"
definition ChangeRemoved :: EntityChangeKind where [go_defs]: "ChangeRemoved = ''removed''"

record EntityChange =
  chg_Kind :: EntityChangeKind
  chg_Base :: Entity
  chg_Target :: Entity

subsection \<open>Candidate deltas, plans and landings (landing_plan.go)\<close>

record ChangeKey =
  ck_Provider :: string
  ck_Repository :: string
  ck_Number :: int

type_synonym CandidateContextOperation = string

definition CandidateAdd :: CandidateContextOperation where [go_defs]: "CandidateAdd = ''add''"
definition CandidateRevise :: CandidateContextOperation where [go_defs]: "CandidateRevise = ''revise''"
definition CandidateRebind :: CandidateContextOperation where [go_defs]: "CandidateRebind = ''rebind''"

record CandidateContextRecord =
  rec_ID :: string
  rec_Operation :: CandidateContextOperation
  rec_NoteID :: string
  rec_RevisionID :: string
  rec_BaseRevisionID :: string
  rec_SupersedesRevisionID :: string
  rec_EntityKey :: string
  rec_StructuralHash :: string
  rec_Kind :: NoteKind
  rec_Body :: string
  rec_Topics :: "string list"
  rec_Author :: string
  rec_Origin :: string
  rec_CreatedAt :: go_time

record CandidateContextDelta =
  delta_SchemaVersion :: int
  delta_Change :: ChangeKey
  delta_BaseSourceSHA :: string
  delta_HeadSourceSHA :: string
  delta_BaseContextCommitID :: string
  delta_Records :: "CandidateContextRecord list"

type_synonym ContextPlanKind = string

definition ContextPlanPreview :: ContextPlanKind where [go_defs]: "ContextPlanPreview = ''preview''"
definition ContextPlanFinal :: ContextPlanKind where [go_defs]: "ContextPlanFinal = ''final''"

type_synonym ContextPlanOutcome = string

definition ContextPlanReady :: ContextPlanOutcome where [go_defs]: "ContextPlanReady = ''ready''"
definition ContextPlanReviewRequired :: ContextPlanOutcome where
  [go_defs]: "ContextPlanReviewRequired = ''review_required''"
definition ContextPlanBlocked :: ContextPlanOutcome where [go_defs]: "ContextPlanBlocked = ''blocked''"

record PlanFingerprint =
  fp_RepositoryID :: string
  fp_TargetRef :: string
  fp_Change :: ChangeKey
  fp_BaseSourceSHA :: string
  fp_HeadSourceSHA :: string
  fp_SourceEvidenceDigest :: string
  fp_BaseContextCommitID :: string
  fp_BaseContextVersion :: int
  fp_CandidateDigest :: string
  fp_ProvenanceDigest :: string

record LandingDecision =
  dec_CandidateRecordID :: string
  dec_Operation :: CandidateContextOperation
  dec_Note :: Note
  dec_Mapping :: ContextRevisionMapping
  dec_NoOp :: bool

record LandingConflict =
  conf_CandidateRecordID :: string
  conf_NoteID :: string
  conf_Reason :: string
  conf_BaseRevisionID :: string
  conf_CanonicalRevisionID :: string

record LandingSummary =
  sum_ActiveNotes :: int
  sum_NeedsReviewNotes :: int
  sum_HistoricalNotes :: int
  sum_CandidateRecords :: int
  sum_Conflicts :: int

record ContextPlan =
  plan_SchemaVersion :: int
  plan_ID :: string
  plan_Kind :: ContextPlanKind
  plan_Fingerprint :: PlanFingerprint
  plan_Outcome :: ContextPlanOutcome
  plan_EntityChanges :: "EntityChange list"
  plan_Decisions :: "LandingDecision slice"
  plan_Conflicts :: "LandingConflict list"
  plan_Summary :: LandingSummary
  plan_CreatedAt :: go_time

record LandingPlanInput =
  lpi_Kind :: ContextPlanKind
  lpi_Fingerprint :: PlanFingerprint
  lpi_Canonical :: ContextObject
  lpi_TargetEntities :: "Entity list"
  lpi_TargetProvenance :: "ContextSnapshotProvenance list"
  lpi_CoverageComplete :: bool
  lpi_Candidate :: CandidateContextDelta
  lpi_CreatedAt :: go_time

record LandingBuildInput =
  lbi_Plan :: ContextPlan
  lbi_ParentID :: string
  lbi_Entities :: "Entity list"
  lbi_Provenance :: "ContextSnapshotProvenance list"
  lbi_Message :: string
  lbi_Author :: string
  lbi_CreatedAt :: go_time
  lbi_Resolver :: string

subsection \<open>Merges and landing sessions (merge.go, landing_recovery.go)\<close>

record SnapshotMergeInput =
  smi_Base :: ContextObject
  smi_Local :: ContextObject
  smi_Remote :: ContextObject

record SnapshotMergeRecord =
  mrec_Note :: Note
  mrec_Mapping :: ContextRevisionMapping

record SnapshotMergeConflict =
  mconf_NoteID :: string
  mconf_Base :: "SnapshotMergeRecord option"
  mconf_Local :: "SnapshotMergeRecord option"
  mconf_Remote :: "SnapshotMergeRecord option"

record SnapshotMergePlan =
  mplan_Records :: "SnapshotMergeRecord list"
  mplan_Conflicts :: "SnapshotMergeConflict list"

type_synonym LandingResolutionUse = string

definition LandingUseCanonical :: LandingResolutionUse where
  [go_defs]: "LandingUseCanonical = ''canonical''"
definition LandingUseCandidate :: LandingResolutionUse where
  [go_defs]: "LandingUseCandidate = ''candidate''"
definition LandingUseAuthored :: LandingResolutionUse where
  [go_defs]: "LandingUseAuthored = ''authored''"

end
