(* ===== verification/Domain_Normalize.thy ===== *)
theory Domain_Normalize
  imports Domain_Types
begin

text \<open>
  The validators and normalisers of package \<open>domain\<close> (domain.go, candidate.go and the
  first half of landing_plan.go): topics, commit identifiers, remote names, candidate envelopes,
  change keys, candidate deltas, and the content digests.  \<open>b3\<close> is the BLAKE3 hash of the
  third-party package \<open>zeebo/blake3\<close>, a parameter of every definition that hashes.
\<close>

subsection \<open>Normalisers of domain.go\<close>

definition NormalizeNoteTopics :: "string list \<Rightarrow> string list result" where
  "NormalizeNoteTopics values =
     (if 16 < length values then Inl CodeValidation
      else and_then
        (range_loop (\<lambda>(topics, seen) raw.
           let value = ToLower (TrimSpace raw)
           in if value = [] \<or> 64 < length (runes value) then Inl CodeValidation
              else if value \<in> seen then Inl CodeValidation
              else Inr (topics @ [value], insert value seen)) ([], {}) values)
        (\<lambda>(topics, _). Inr (sort topics)))"

definition NormalizeLegacyNote :: "Note \<Rightarrow> string \<Rightarrow> Note" where
  "NormalizeLegacyNote n sourceSHA =
     (let n1 = (if note_RevisionID n = [] then n\<lparr>note_RevisionID := note_ID n\<rparr> else n);
          n2 = (if note_BindingState n1 = [] then n1\<lparr>note_BindingState := NoteBindingActive\<rparr> else n1)
      in if note_BindingSourceSHA n2 = [] then n2\<lparr>note_BindingSourceSHA := sourceSHA\<rparr> else n2)"

definition NormalizeContextCommitID :: "string \<Rightarrow> string result" where
  "NormalizeContextCommitID value =
     (let v = TrimSpace value
      in if length v \<noteq> 64 then Inl CodeValidation
         else if \<not> hex_decodes v then Inl CodeValidation
         else Inr (ToLower v))"

definition name_rune :: "int \<Rightarrow> bool" where
  "name_rune r \<longleftrightarrow> 97 \<le> r \<and> r \<le> 122 \<or> 65 \<le> r \<and> r \<le> 90 \<or> 48 \<le> r \<and> r \<le> 57 \<or> r \<in> {46, 95, 45}"

definition NormalizeRemoteName :: "string \<Rightarrow> string result" where
  "NormalizeRemoteName value =
     (let v = TrimSpace value
      in if length v = 0 \<or> 64 < length v then Inl CodeValidation
         else and_then
           (range_loop (\<lambda>first r.
              if name_rune r then (if first \<and> r \<in> {46, 45, 95} then Inl CodeValidation else Inr False)
              else Inl CodeValidation) True (runes v))
           (\<lambda>_. Inr v))"

definition IsContextSnapshotSchema :: "int \<Rightarrow> bool" where
  "IsContextSnapshotSchema version \<longleftrightarrow> version = 3 \<or> version = 4"

subsection \<open>Candidate envelopes (candidate.go)\<close>

definition ValidCandidateState :: "CandidateState \<Rightarrow> bool" where
  "ValidCandidateState state \<longleftrightarrow>
     state = CandidateOpen \<or> state = CandidateMerged \<or> state = CandidateClosed"

definition provider_rune :: "int \<Rightarrow> bool" where
  "provider_rune r \<longleftrightarrow> 97 \<le> r \<and> r \<le> 122 \<or> 48 \<le> r \<and> r \<le> 57 \<or> r \<in> {46, 95, 45}"

definition normalizeCandidateProvider :: "string \<Rightarrow> string result" where
  "normalizeCandidateProvider value =
     (let v = ToLower (TrimSpace value)
      in if length v = 0 \<or> 64 < length v then Inl CodeValidation
         else and_then
           (range_loop (\<lambda>first r.
              if provider_rune r then (if first \<and> r \<in> {46, 95, 45} then Inl CodeValidation else Inr False)
              else Inl CodeValidation) True (runes v))
           (\<lambda>_. Inr v))"

definition repository_stop_bytes :: string where
  "repository_stop_bytes = [CHR 0x5C, CHR '':'', CHR ''#'', CHR 0x09, CHR 0x0D, CHR 0x0A, CHR '' '']"

definition normalizeCandidateRepository :: "string \<Rightarrow> string result" where
  "normalizeCandidateRepository value =
     (let v = TrimSpace value
      in if length v = 0 \<or> 256 < length v \<or> HasPrefix v ''/'' \<or> HasSuffix v ''/''
            \<or> ContainsAny v repository_stop_bytes
         then Inl CodeValidation
         else and_then
           (range_loop (\<lambda>u segment. if segment = [] \<or> segment = ''.'' \<or> segment = ''..''
              then Inl CodeValidation else Inr u) () (SplitByte CHR ''/'' v))
           (\<lambda>_. Inr v))"

definition validCandidateSHA :: "string \<Rightarrow> bool" where
  "validCandidateSHA value \<longleftrightarrow> (length value = 40 \<or> length value = 64) \<and> hex_decodes value"

definition validateCandidateNote :: "CandidateNote \<Rightarrow> unit result" where
  "validateCandidateNote note =
     (if length (cnote_ID note) = 0 \<or> 128 < length (cnote_ID note) \<or> contains_space (cnote_ID note)
         \<or> TrimSpace (cnote_EntityKey note) = [] \<or> \<not> validCandidateSHA (cnote_StructuralHash note)
         \<or> \<not> ValidNoteKind (cnote_Kind note) \<or> TrimSpace (cnote_Body note) = []
         \<or> 65536 < length (cnote_Body note) \<or> TrimSpace (cnote_Author note) = []
         \<or> TrimSpace (cnote_Origin note) = [] \<or> time_IsZero (cnote_CreatedAt note)
      then Inl CodeValidation else Inr ())"

text \<open>The identity of a change: \<open>provider:repository#number\<close>.\<close>

definition change_identity :: "string \<Rightarrow> string \<Rightarrow> int \<Rightarrow> string" where
  "change_identity provider repository number =
     provider @ '':'' @ repository @ ''#'' @ Sprint_int number"

definition envelope_note :: "candidateEnvelopeNote \<Rightarrow> CandidateNote" where
  "envelope_note raw = \<lparr>cnote_CandidateID = [], cnote_ID = enote_ID raw,
     cnote_EntityKey = enote_EntityKey raw, cnote_StructuralHash = enote_StructuralHash raw,
     cnote_Kind = enote_Kind raw, cnote_Body = enote_Body raw, cnote_Author = enote_Author raw,
     cnote_Origin = enote_Origin raw, cnote_CreatedAt = enote_CreatedAt raw, cnote_State = [],
     cnote_PromotedNoteID = []\<rparr>"

definition normalizeCandidateEnvelope ::
  "candidateEnvelope \<Rightarrow> (Candidate \<times> CandidateNote list) result" where
  "normalizeCandidateEnvelope env =
     (if env_SchemaVersion env \<noteq> 1 then Inl CodeValidation
      else and_then (normalizeCandidateProvider (env_Provider env)) (\<lambda>provider.
      and_then (normalizeCandidateRepository (env_Repository env)) (\<lambda>repository.
      if env_Number env < 1 then Inl CodeValidation
      else if \<not> ValidCandidateState (env_State env) \<or> time_IsZero (env_UpdatedAt env)
        \<or> \<not> validCandidateSHA (env_BaseSHA env) \<or> \<not> validCandidateSHA (env_HeadSHA env)
        then Inl CodeValidation
      else if env_State env = CandidateMerged \<and> \<not> validCandidateSHA (env_MergeSHA env)
        then Inl CodeValidation
      else if env_State env \<noteq> CandidateMerged \<and> env_MergeSHA env \<noteq> [] then Inl CodeValidation
      else if maxCandidateNotes < int (length (env_Notes env)) then Inl CodeValidation
      else
        let candidate = \<lparr>cand_ID = change_identity provider repository (env_Number env),
              cand_Provider = provider, cand_Repository = repository, cand_Number = env_Number env,
              cand_State = env_State env, cand_BaseSHA = ToLower (env_BaseSHA env),
              cand_HeadSHA = ToLower (env_HeadSHA env), cand_MergeSHA = ToLower (env_MergeSHA env),
              cand_UpdatedAt = time_UTC (env_UpdatedAt env)\<rparr>
        in and_then
          (range_loop (\<lambda>(notes, noteIDs) raw.
             let note = envelope_note raw
             in and_then (validateCandidateNote note) (\<lambda>_.
                if cnote_ID note \<in> noteIDs then Inl CodeValidation
                else Inr (notes @ [note\<lparr>cnote_CandidateID := cand_ID candidate,
                    cnote_StructuralHash := ToLower (cnote_StructuralHash note),
                    cnote_CreatedAt := time_UTC (cnote_CreatedAt note),
                    cnote_State := CandidateNoteDraft, cnote_PromotedNoteID := []\<rparr>],
                  insert (cnote_ID note) noteIDs)))
            ([], {}) (env_Notes env))
          (\<lambda>(notes, _). Inr (candidate, notes)))))"

subsection \<open>Change keys (landing_plan.go)\<close>

definition normalizeChangeKey :: "ChangeKey \<Rightarrow> ChangeKey result" where
  "normalizeChangeKey ck =
     and_then (normalizeCandidateProvider (ck_Provider ck)) (\<lambda>provider.
     and_then (normalizeCandidateRepository (ck_Repository ck)) (\<lambda>repository.
     if ck_Number ck < 1 then Inl CodeValidation
     else Inr \<lparr>ck_Provider = provider, ck_Repository = repository, ck_Number = ck_Number ck\<rparr>))"

definition index_int :: "nat option \<Rightarrow> int" where
  "index_int i = (case i of None \<Rightarrow> - 1 | Some k \<Rightarrow> int k)"

definition ParseChangeKey :: "string \<Rightarrow> ChangeKey result" where
  "ParseChangeKey raw =
     (let value = TrimSpace raw;
          separator = index_int (IndexByte CHR '':'' value);
          numberSeparator = index_int (LastIndexByte CHR ''#'' value)
      in if separator < 1 \<or> numberSeparator \<le> separator + 1
            \<or> numberSeparator = int (length value) - 1
         then Inl CodeValidation
         else (case Atoi (drop (nat numberSeparator + 1) value) of
             None \<Rightarrow> Inl CodeValidation
           | Some number \<Rightarrow> normalizeChangeKey
               \<lparr>ck_Provider = take (nat separator) value,
                ck_Repository = drop (nat separator + 1) (take (nat numberSeparator) value),
                ck_Number = number\<rparr>))"

subsection \<open>Digests\<close>

definition canonicalDigest :: "(string \<Rightarrow> string) \<Rightarrow> json \<Rightarrow> string result" where
  "canonicalDigest b3 v =
     (case json_marshal v of None \<Rightarrow> Inl CodeValidation
      | Some contents \<Rightarrow> Inr (hex_encode (b3 contents)))"

definition digestParts :: "(string \<Rightarrow> string) \<Rightarrow> string list \<Rightarrow> string" where
  "digestParts b3 parts = hex_encode (b3 (concat (map (\<lambda>part. part @ [CHR 0x00]) parts)))"

text \<open>The JSON of the structs whose digests the package takes, field by field.\<close>

definition entity_json :: "Entity \<Rightarrow> json" where
  "entity_json e = JObject (fld_s ''language'' (ent_Language e) @ fld_s ''key'' (ent_Key e)
     @ fld_s ''kind'' (ent_Kind e) @ fld_s ''name'' (ent_Name e) @ fld_s ''signature'' (ent_Signature e)
     @ fld_s ''path'' (ent_Path e) @ fld ''start_line'' (JInt (ent_StartLine e))
     @ fld ''end_line'' (JInt (ent_EndLine e)) @ fld_s ''source_sha'' (ent_SourceSHA e)
     @ fld_s ''structural_hash'' (ent_StructuralHash e))"

definition provenance_json :: "ContextSnapshotProvenance \<Rightarrow> json" where
  "provenance_json p = JObject (fld_s ''language'' (prov_Language p)
     @ fld_s ''indexer_id'' (prov_IndexerID p) @ fld_s ''indexer_version'' (prov_IndexerVersion p)
     @ fld_s ''source_sha'' (prov_SourceSHA p))"

definition change_key_json :: "ChangeKey \<Rightarrow> json" where
  "change_key_json k = JObject (fld_s ''provider'' (ck_Provider k)
     @ fld_s ''repository'' (ck_Repository k) @ fld ''number'' (JInt (ck_Number k)))"

definition record_json :: "CandidateContextRecord \<Rightarrow> json" where
  "record_json r = JObject (fld_s ''id'' (rec_ID r) @ fld_s ''operation'' (rec_Operation r)
     @ fld_s ''note_id'' (rec_NoteID r) @ fld_s ''revision_id'' (rec_RevisionID r)
     @ fld_omit ''base_revision_id'' (rec_BaseRevisionID r)
     @ fld_omit ''supersedes_revision_id'' (rec_SupersedesRevisionID r)
     @ fld_s ''entity_key'' (rec_EntityKey r) @ fld_s ''structural_hash'' (rec_StructuralHash r)
     @ fld_s ''kind'' (rec_Kind r) @ fld_s ''body'' (rec_Body r)
     @ fld_omit_list ''topics'' (map JString (rec_Topics r)) @ fld_s ''author'' (rec_Author r)
     @ fld_s ''origin'' (rec_Origin r) @ fld ''created_at'' (JTime (rec_CreatedAt r)))"

definition delta_json :: "CandidateContextDelta \<Rightarrow> json" where
  "delta_json d = JObject (fld ''schema_version'' (JInt (delta_SchemaVersion d))
     @ fld ''change'' (change_key_json (delta_Change d))
     @ fld_s ''base_source_sha'' (delta_BaseSourceSHA d)
     @ fld_s ''head_source_sha'' (delta_HeadSourceSHA d)
     @ fld_omit ''base_context_commit_id'' (delta_BaseContextCommitID d)
     @ fld ''records'' (JArray (map record_json (delta_Records d))))"

subsection \<open>Candidate deltas\<close>

definition trim_record :: "CandidateContextRecord \<Rightarrow> CandidateContextRecord" where
  "trim_record r = r\<lparr>rec_NoteID := TrimSpace (rec_NoteID r),
     rec_RevisionID := TrimSpace (rec_RevisionID r),
     rec_BaseRevisionID := TrimSpace (rec_BaseRevisionID r),
     rec_SupersedesRevisionID := TrimSpace (rec_SupersedesRevisionID r),
     rec_EntityKey := TrimSpace (rec_EntityKey r),
     rec_StructuralHash := ToLower (TrimSpace (rec_StructuralHash r)),
     rec_Author := TrimSpace (rec_Author r), rec_Origin := TrimSpace (rec_Origin r),
     rec_CreatedAt := time_UTC (rec_CreatedAt r)\<rparr>"

definition record_operation_ok :: "CandidateContextRecord \<Rightarrow> bool" where
  "record_operation_ok r =
     (if rec_Operation r = CandidateAdd then
        \<not> (rec_BaseRevisionID r \<noteq> [] \<or> rec_SupersedesRevisionID r \<noteq> [])
      else if rec_Operation r = CandidateRevise then
        \<not> (rec_BaseRevisionID r = [] \<or> rec_SupersedesRevisionID r \<noteq> rec_BaseRevisionID r
           \<or> rec_RevisionID r = rec_BaseRevisionID r)
      else if rec_Operation r = CandidateRebind then
        \<not> (rec_BaseRevisionID r = [] \<or> rec_RevisionID r \<noteq> rec_BaseRevisionID r
           \<or> rec_SupersedesRevisionID r \<noteq> [])
      else False)"

definition normalizeCandidateContextRecord ::
  "(string \<Rightarrow> string) \<Rightarrow> CandidateContextRecord \<Rightarrow> CandidateContextRecord result" where
  "normalizeCandidateContextRecord b3 input =
     (let r = trim_record input
      in and_then (NormalizeNoteTopics (rec_Topics r)) (\<lambda>topics.
         let r = r\<lparr>rec_Topics := topics\<rparr>
         in if rec_NoteID r = [] \<or> rec_RevisionID r = [] \<or> rec_EntityKey r = []
               \<or> \<not> validCandidateSHA (rec_StructuralHash r) \<or> \<not> ValidNoteKind (rec_Kind r)
               \<or> TrimSpace (rec_Body r) = [] \<or> 65536 < length (rec_Body r) \<or> rec_Author r = []
               \<or> rec_Origin r = [] \<or> time_IsZero (rec_CreatedAt r)
            then Inl CodeValidation
            else if \<not> record_operation_ok r then Inl CodeValidation
            else let providedID = ToLower (TrimSpace (rec_ID r)); r = r\<lparr>rec_ID := []\<rparr>
              in and_then (canonicalDigest b3 (record_json r)) (\<lambda>identifier.
                 if providedID \<noteq> [] \<and> providedID \<noteq> identifier then Inl CodeValidation
                 else Inr (r\<lparr>rec_ID := identifier\<rparr>))))"

fun adjacent_distinct :: "string list \<Rightarrow> bool" where
  "adjacent_distinct (x # y # zs) = (x \<noteq> y \<and> adjacent_distinct (y # zs))"
| "adjacent_distinct _ = True"

definition NormalizeCandidateContextDelta ::
  "(string \<Rightarrow> string) \<Rightarrow> CandidateContextDelta \<Rightarrow> CandidateContextDelta result" where
  "NormalizeCandidateContextDelta b3 input =
     (if delta_SchemaVersion input \<noteq> 2 then Inl CodeValidation
      else and_then (normalizeChangeKey (delta_Change input)) (\<lambda>change.
      if \<not> validCandidateSHA (delta_BaseSourceSHA input) \<or> \<not> validCandidateSHA (delta_HeadSourceSHA input)
        then Inl CodeValidation
      else let baseContextID = ToLower (TrimSpace (delta_BaseContextCommitID input))
        in if baseContextID \<noteq> [] \<and> NormalizeContextCommitID baseContextID \<noteq> Inr baseContextID
          then Inl CodeValidation
        else if maxCandidateNotes < int (length (delta_Records input)) then Inl CodeValidation
        else and_then
          (range_loop (\<lambda>(records, noteIDs) raw.
             and_then (normalizeCandidateContextRecord b3 raw) (\<lambda>record.
             if rec_NoteID record \<in> noteIDs then Inl CodeValidation
             else Inr (records @ [record], insert (rec_NoteID record) noteIDs)))
            ([], {}) (delta_Records input))
          (\<lambda>(records, _).
             let sorted_records = sort_key rec_ID records
             in if \<not> adjacent_distinct (map rec_ID sorted_records) then Inl CodeValidation
                else Inr \<lparr>delta_SchemaVersion = 2, delta_Change = change,
                  delta_BaseSourceSHA = ToLower (delta_BaseSourceSHA input),
                  delta_HeadSourceSHA = ToLower (delta_HeadSourceSHA input),
                  delta_BaseContextCommitID = baseContextID, delta_Records = sorted_records\<rparr>)))"

definition CandidateContextDigest ::
  "(string \<Rightarrow> string) \<Rightarrow> CandidateContextDelta \<Rightarrow> string result" where
  "CandidateContextDigest b3 input =
     and_then (NormalizeCandidateContextDelta b3 input) (\<lambda>d. canonicalDigest b3 (delta_json d))"

definition candidate_v1_record ::
  "(string \<Rightarrow> string) \<Rightarrow> Candidate \<Rightarrow> CandidateNote \<Rightarrow> CandidateContextRecord" where
  "candidate_v1_record b3 candidate note =
     \<lparr>rec_ID = [], rec_Operation = CandidateAdd,
      rec_NoteID = digestParts b3 [''candidate-v1-note'', cand_ID candidate, cnote_ID note],
      rec_RevisionID = digestParts b3 [''candidate-v1-revision'', cand_ID candidate, cnote_ID note],
      rec_BaseRevisionID = [], rec_SupersedesRevisionID = [], rec_EntityKey = cnote_EntityKey note,
      rec_StructuralHash = ToLower (cnote_StructuralHash note), rec_Kind = cnote_Kind note,
      rec_Body = cnote_Body note, rec_Topics = [], rec_Author = cnote_Author note,
      rec_Origin = cnote_Origin note, rec_CreatedAt = time_UTC (cnote_CreatedAt note)\<rparr>"

definition NormalizeCandidateV1 ::
  "(string \<Rightarrow> string) \<Rightarrow> Candidate \<Rightarrow> CandidateNote list \<Rightarrow> string \<Rightarrow> CandidateContextDelta result" where
  "NormalizeCandidateV1 b3 candidate notes baseContextCommitID =
     and_then (normalizeChangeKey \<lparr>ck_Provider = cand_Provider candidate,
       ck_Repository = cand_Repository candidate, ck_Number = cand_Number candidate\<rparr>) (\<lambda>change.
     if cand_ID candidate \<noteq> change_identity (ck_Provider change) (ck_Repository change) (ck_Number change)
       \<or> \<not> validCandidateSHA (cand_BaseSHA candidate) \<or> \<not> validCandidateSHA (cand_HeadSHA candidate)
       then Inl CodeValidation
     else and_then
       (range_loop (\<lambda>records note.
          if cnote_CandidateID note \<noteq> cand_ID candidate \<or> cnote_State note \<noteq> CandidateNoteDraft
            \<or> cnote_PromotedNoteID note \<noteq> [] then Inl CodeValidation
          else and_then (validateCandidateNote note) (\<lambda>_.
            Inr (records @ [candidate_v1_record b3 candidate note]))) [] notes)
       (\<lambda>records. NormalizeCandidateContextDelta b3 \<lparr>delta_SchemaVersion = 2, delta_Change = change,
          delta_BaseSourceSHA = cand_BaseSHA candidate, delta_HeadSourceSHA = cand_HeadSHA candidate,
          delta_BaseContextCommitID = baseContextCommitID, delta_Records = records\<rparr>))"

definition DigestSourceEvidence :: "(string \<Rightarrow> string) \<Rightarrow> Entity list \<Rightarrow> string" where
  "DigestSourceEvidence b3 entities =
     (let canonical = sort_key ent_Key (map (\<lambda>e. e\<lparr>ent_SourceSHA := []\<rparr>) entities)
      in case canonicalDigest b3 (json_slice (copy_slice (map entity_json canonical))) of
           Inl _ \<Rightarrow> [] | Inr digest \<Rightarrow> digest)"

definition DigestProvenance :: "(string \<Rightarrow> string) \<Rightarrow> ContextSnapshotProvenance list \<Rightarrow> string" where
  "DigestProvenance b3 provenance =
     (let canonical = sort_key prov_Language provenance
      in case canonicalDigest b3 (json_slice (copy_slice (map provenance_json canonical))) of
           Inl _ \<Rightarrow> [] | Inr digest \<Rightarrow> digest)"

definition LandingIntentID :: "(string \<Rightarrow> string) \<Rightarrow> PlanFingerprint \<Rightarrow> string" where
  "LandingIntentID b3 fp = digestParts b3 [''landing-intent'', fp_RepositoryID fp, fp_TargetRef fp,
     ck_Provider (fp_Change fp), ck_Repository (fp_Change fp), Sprint_int (ck_Number (fp_Change fp)),
     fp_HeadSourceSHA fp, fp_CandidateDigest fp]"

end
