(* ===== verification/Landing_Bindings.thy ===== *)
theory Landing_Bindings
  imports Domain_Normalize "HOL-Library.Product_Lexorder"
begin

text \<open>
  Rebinding notes to a new source revision and classifying the entity changes between two source
  revisions (domain/landing.go).  The classification iterates over seven Go maps; its result is
  characterised as a set that mentions no iteration order, and shown to be sorted by a key that
  determines each change.
\<close>

subsection \<open>Reconciling a note with the current entities\<close>

record BindingReconciler =
  br_currentByKey :: "Entity gomap"
  br_currentEntities :: "Entity list"
  br_sourceSHA :: string

definition entities_by_key :: "Entity list \<Rightarrow> Entity gomap" where
  "entities_by_key es = foldl (\<lambda>m e. map_put (ent_Key e) e m) [] es"

definition NewBindingReconciler :: "Entity list \<Rightarrow> string \<Rightarrow> BindingReconciler" where
  "NewBindingReconciler currentEntities sourceSHA =
     \<lparr>br_currentByKey = entities_by_key currentEntities, br_currentEntities = currentEntities,
      br_sourceSHA = sourceSHA\<rparr>"

definition Reconcile :: "BindingReconciler \<Rightarrow> Note \<Rightarrow> Entity \<Rightarrow> Note \<times> bool" where
  "Reconcile r note previous =
     (let updated = note\<lparr>note_Pending := True, note_BindingSourceSHA := br_sourceSHA r,
            note_ReviewReason := []\<rparr>
      in if ent_Key previous = [] then
           (updated\<lparr>note_BindingState := NoteBindingNeedsReview,
              note_ReviewReason := ''unknown_lineage''\<rparr>, True)
         else (case map_of (br_currentByKey r) (note_EntityKey note) of
           Some current \<Rightarrow>
             if ent_StructuralHash current = ent_StructuralHash previous
             then (updated, note_BindingSourceSHA updated \<noteq> note_BindingSourceSHA note)
             else (updated\<lparr>note_BindingState := NoteBindingNeedsReview,
                     note_ReviewReason := ''structural_change''\<rparr>, True)
         | None \<Rightarrow>
             let candidates = filter (\<lambda>e. ent_Language e = ent_Language previous
                   \<and> ent_Kind e = ent_Kind previous
                   \<and> ent_StructuralHash e = ent_StructuralHash previous) (br_currentEntities r)
             in if length candidates = 1 then (updated\<lparr>note_EntityKey := ent_Key (candidates ! 0)\<rparr>, True)
                else if 1 < length candidates then
                  (updated\<lparr>note_BindingState := NoteBindingNeedsReview,
                     note_ReviewReason := ''ambiguous_lineage''\<rparr>, True)
                else (updated\<lparr>note_BindingState := NoteBindingHistorical,
                     note_ReviewReason := ''entity_removed''\<rparr>, True)))"

subsection \<open>Classifying entity changes\<close>

definition entity_signature :: "Entity \<Rightarrow> string" where
  "entity_signature e = ent_Language e @ [CHR 0x00] @ ent_Kind e @ [CHR 0x00] @ ent_StructuralHash e"

definition landingEntityGroups :: "map_order \<Rightarrow> nat \<Rightarrow> Entity gomap \<Rightarrow> Entity list gomap" where
  "landingEntityGroups ord i entities =
     foldl (\<lambda>groups (_, e). map_put (entity_signature e)
       ((case map_of groups (entity_signature e) of None \<Rightarrow> [] | Some es \<Rightarrow> es) @ [e]) groups)
       [] (map_range ord i entities)"

definition landingChangeKey :: "EntityChange \<Rightarrow> string" where
  "landingChangeKey change =
     (if ent_Key (chg_Target change) \<noteq> [] then ent_Key (chg_Target change) else ent_Key (chg_Base change))"

definition entity_change :: "EntityChangeKind \<Rightarrow> Entity \<Rightarrow> Entity \<Rightarrow> EntityChange" where
  "entity_change kind b t = \<lparr>chg_Kind = kind, chg_Base = b, chg_Target = t\<rparr>"

definition classify_base_step :: "Entity gomap \<Rightarrow> Entity gomap \<times> EntityChange list \<Rightarrow> string \<times> Entity \<Rightarrow>
    Entity gomap \<times> EntityChange list" where
  "classify_base_step currentByKey = (\<lambda>(unmatchedBase, changes) (key, previous).
     (case map_of currentByKey key of
        None \<Rightarrow> (map_put key previous unmatchedBase, changes)
      | Some nxt \<Rightarrow>
          (unmatchedBase, if ent_StructuralHash previous \<noteq> ent_StructuralHash nxt
             then changes @ [entity_change ChangeModified previous nxt] else changes)))"

definition classify_current_step :: "Entity gomap \<Rightarrow> Entity gomap \<Rightarrow> string \<times> Entity \<Rightarrow> Entity gomap" where
  "classify_current_step baseByKey = (\<lambda>unmatchedCurrent (key, nxt).
     (if map_of baseByKey key = None then map_put key nxt unmatchedCurrent else unmatchedCurrent))"

definition classify_move_step :: "Entity list gomap \<Rightarrow>
    EntityChange list \<times> Entity gomap \<times> Entity gomap \<Rightarrow> string \<times> Entity list \<Rightarrow>
    EntityChange list \<times> Entity gomap \<times> Entity gomap" where
  "classify_move_step currentGroups = (\<lambda>(changes, unmatchedBase, unmatchedCurrent) (signature, previous).
     (let nxt = (case map_of currentGroups signature of None \<Rightarrow> [] | Some es \<Rightarrow> es)
      in if length previous \<noteq> 1 \<or> length nxt \<noteq> 1 then (changes, unmatchedBase, unmatchedCurrent)
         else (changes @ [entity_change ChangeMoved (previous ! 0) (nxt ! 0)],
               map_del (ent_Key (previous ! 0)) unmatchedBase,
               map_del (ent_Key (nxt ! 0)) unmatchedCurrent)))"

definition ClassifyEntityChanges :: "map_order \<Rightarrow> Entity list \<Rightarrow> Entity list \<Rightarrow> EntityChange list" where
  "ClassifyEntityChanges ord base current =
     (let baseByKey = entities_by_key base; currentByKey = entities_by_key current;
          (unmatchedBase, changes) = foldl (classify_base_step currentByKey) ([], []) (map_range ord 0 baseByKey);
          unmatchedCurrent = foldl (classify_current_step baseByKey) [] (map_range ord 1 currentByKey);
          baseGroups = landingEntityGroups ord 2 unmatchedBase;
          currentGroups = landingEntityGroups ord 3 unmatchedCurrent;
          (changes, unmatchedBase, unmatchedCurrent) =
            foldl (classify_move_step currentGroups) (changes, unmatchedBase, unmatchedCurrent)
              (map_range ord 4 baseGroups);
          changes = changes @ map (\<lambda>(_, e). entity_change ChangeAdded zero_entity e)
            (map_range ord 5 unmatchedCurrent);
          changes = changes @ map (\<lambda>(_, e). entity_change ChangeRemoved e zero_entity)
            (map_range ord 6 unmatchedBase)
      in sort_key (\<lambda>change. (landingChangeKey change, chg_Kind change)) changes)"

subsection \<open>The entities of a list by key\<close>

lemma entities_by_key_fold:
  "wf_map m \<Longrightarrow> wf_map (foldl (\<lambda>m e. map_put (ent_Key e) e m) m es)
     \<and> map_of (foldl (\<lambda>m e. map_put (ent_Key e) e m) m es)
        = map_of m ++ map_of (rev (map (\<lambda>e. (ent_Key e, e)) es))"
proof (induction es arbitrary: m)
  case Nil
  then show ?case by simp
next
  case (Cons e es)
  have "wf_map (map_put (ent_Key e) e m)" using Cons.prems by simp
  from Cons.IH [OF this] show ?case by (auto simp: map_add_def fun_eq_iff split: option.splits)
qed

lemma wf_entities_by_key [simp]: "wf_map (entities_by_key es)"
  unfolding entities_by_key_def using entities_by_key_fold wf_map_Nil by blast

lemma map_of_entities_by_key: "map_of (entities_by_key es) = map_of (rev (map (\<lambda>e. (ent_Key e, e)) es))"
  unfolding entities_by_key_def using entities_by_key_fold [OF wf_map_Nil, of es] by simp

definition keyed :: "Entity gomap \<Rightarrow> bool" where
  "keyed m \<longleftrightarrow> wf_map m \<and> (\<forall>k e. map_of m k = Some e \<longrightarrow> ent_Key e = k)"

lemma keyed_entities_by_key: "keyed (entities_by_key es)"
  by (auto simp: keyed_def map_of_entities_by_key dest: map_of_SomeD)

lemma dom_entities_by_key: "dom (map_of (entities_by_key es)) = ent_Key ` set es"
  by (force simp: map_of_entities_by_key dom_map_of_conv_image_fst)

lemma entities_by_key_distinct:
  "distinct (map ent_Key es) \<Longrightarrow> map_of (entities_by_key es) k = Some e \<longleftrightarrow> e \<in> set es \<and> ent_Key e = k"
  unfolding map_of_entities_by_key
  by (subst map_of_eq_Some_iff) (auto simp: comp_def rev_map [symmetric])

subsection \<open>The loops of the classification\<close>

lemma base_loop:
  assumes "distinct (map fst kvs)" "wf_map ub" "\<forall>k \<in> fst ` set kvs. map_of ub k = None"
  shows "foldl (classify_base_step cm) (ub, cs) kvs =
    (ub @ filter (\<lambda>(k, _). map_of cm k = None) kvs,
     cs @ List.map_filter (\<lambda>(k, p). case map_of cm k of None \<Rightarrow> None
       | Some n \<Rightarrow> if ent_StructuralHash p \<noteq> ent_StructuralHash n then Some (entity_change ChangeModified p n) else None) kvs)"
  using assms
proof (induction kvs arbitrary: ub cs)
  case Nil
  then show ?case by (simp add: List.map_filter_simps)
next
  case (Cons kv kvs)
  obtain k p where kv: "kv = (k, p)" by fastforce
  show ?case
  proof (cases "map_of cm k")
    case None
    have put: "map_put k p ub = ub @ [(k, p)]" using Cons.prems(3) by (simp add: kv map_put_fresh)
    have "wf_map (ub @ [(k, p)])" using Cons.prems(2) put by (metis wf_map_put)
    moreover have "\<forall>j \<in> fst ` set kvs. map_of (ub @ [(k, p)]) j = None"
      using Cons.prems(1,3) by (auto simp: kv map_add_def split: option.splits)
    moreover have "distinct (map fst kvs)" using Cons.prems(1) by simp
    ultimately show ?thesis
      using None put Cons.IH [of "ub @ [(k, p)]" cs] by (simp add: kv classify_base_step_def List.map_filter_simps)
  next
    case (Some n)
    have "distinct (map fst kvs)" "\<forall>j \<in> fst ` set kvs. map_of ub j = None" using Cons.prems by simp_all
    then show ?thesis using Some Cons.IH [of ub] Cons.prems(2) by (simp add: kv classify_base_step_def List.map_filter_simps)
  qed
qed

lemma current_loop:
  assumes "distinct (map fst kvs)" "\<forall>k \<in> fst ` set kvs. map_of uc k = None"
  shows "foldl (classify_current_step bm) uc kvs = uc @ filter (\<lambda>(k, _). map_of bm k = None) kvs"
  using assms
proof (induction kvs arbitrary: uc)
  case Nil
  then show ?case by simp
next
  case (Cons kv kvs)
  obtain k n where kv: "kv = (k, n)" by fastforce
  show ?case
  proof (cases "map_of bm k = None")
    case True
    have put: "map_put k n uc = uc @ [(k, n)]" using Cons.prems by (simp add: kv map_put_fresh)
    have "\<forall>j \<in> fst ` set kvs. map_of (uc @ [(k, n)]) j = None"
      using Cons.prems by (auto simp: kv map_add_def split: option.splits)
    moreover have "distinct (map fst kvs)" using Cons.prems by simp
    ultimately show ?thesis using True put Cons.IH [of "uc @ [(k, n)]"] by (simp add: kv classify_current_step_def)
  next
    case False
    then obtain p where "map_of bm k = Some p" by auto
    then show ?thesis using Cons by (simp add: kv classify_current_step_def)
  qed
qed

lemma groups_fold:
  "map_of (foldl (\<lambda>groups (_, e). map_put (entity_signature e)
       ((case map_of groups (entity_signature e) of None \<Rightarrow> [] | Some es \<Rightarrow> es) @ [e]) groups) gs kvs) s
   = (let es = (case map_of gs s of None \<Rightarrow> [] | Some es \<Rightarrow> es)
           @ filter (\<lambda>e. entity_signature e = s) (map snd kvs)
      in if map_of gs s = None \<and> es = [] then None else Some es)"
proof (induction kvs arbitrary: gs)
  case Nil
  show ?case by (simp split: option.splits)
next
  case (Cons kv kvs)
  obtain k e where kv: "kv = (k, e)" by fastforce
  show ?case by (cases "map_of gs (entity_signature e)") (auto simp: kv Cons.IH Let_def split: option.splits)
qed

lemma wf_groups_fold:
  "wf_map gs \<Longrightarrow> wf_map (foldl (\<lambda>groups (_, e). map_put (entity_signature e)
       ((case map_of groups (entity_signature e) of None \<Rightarrow> [] | Some es \<Rightarrow> es) @ [e]) groups) gs kvs)"
  by (induction kvs arbitrary: gs) auto

definition sig_group :: "Entity list \<Rightarrow> string \<Rightarrow> Entity list" where
  "sig_group es s = filter (\<lambda>e. entity_signature e = s) es"

lemma map_of_groups:
  "map_of (landingEntityGroups ord i m) s =
     (let es = sig_group (map snd (map_range ord i m)) s in if es = [] then None else Some es)"
  by (simp add: landingEntityGroups_def groups_fold sig_group_def Let_def)

lemma wf_groups: "wf_map (landingEntityGroups ord i m)"
  unfolding landingEntityGroups_def by (intro wf_groups_fold) simp

definition lone_pair :: "Entity list gomap \<Rightarrow> string \<times> Entity list \<Rightarrow> (Entity \<times> Entity) option" where
  "lone_pair currentGroups = (\<lambda>(signature, previous).
     (let nxt = (case map_of currentGroups signature of None \<Rightarrow> [] | Some es \<Rightarrow> es)
      in if length previous \<noteq> 1 \<or> length nxt \<noteq> 1 then None else Some (previous ! 0, nxt ! 0)))"

lemma move_step:
  "classify_move_step cg (cs, ub, uc) g =
     (case lone_pair cg g of None \<Rightarrow> (cs, ub, uc)
      | Some (p, n) \<Rightarrow> (cs @ [entity_change ChangeMoved p n], map_del (ent_Key p) ub, map_del (ent_Key n) uc))"
  by (cases g) (simp add: classify_move_step_def lone_pair_def Let_def)

lemma move_loop:
  "foldl (classify_move_step cg) (cs, ub, uc) gs =
    (let moves = List.map_filter (lone_pair cg) gs in
     (cs @ map (\<lambda>(p, n). entity_change ChangeMoved p n) moves,
      foldl (\<lambda>m (p, n). map_del (ent_Key p) m) ub moves,
      foldl (\<lambda>m (p, n). map_del (ent_Key n) m) uc moves))"
proof (induction gs arbitrary: cs ub uc)
  case Nil
  show ?case by (simp add: List.map_filter_simps)
next
  case (Cons g gs)
  show ?case
    by (simp add: move_step Cons.IH List.map_filter_simps Let_def split: option.splits prod.splits)
qed

lemma del_loop:
  "map_of (foldl (\<lambda>m x. map_del (f x) m) m xs) k = (if k \<in> f ` set xs then None else map_of m k)"
  by (induction xs arbitrary: m) auto

lemma wf_del_loop: "wf_map m \<Longrightarrow> wf_map (foldl (\<lambda>m x. map_del (f x) m) m xs)"
  by (induction xs arbitrary: m) auto

subsection \<open>The classification as a set\<close>

definition lone :: "Entity set \<Rightarrow> Entity \<Rightarrow> bool" where
  "lone U e \<longleftrightarrow> e \<in> U \<and> (\<forall>e' \<in> U. entity_signature e' = entity_signature e \<longrightarrow> e' = e)"

definition unmatched :: "Entity gomap \<Rightarrow> Entity gomap \<Rightarrow> Entity set" where
  "unmatched m m' = {e. \<exists>k. map_of m k = Some e \<and> map_of m' k = None}"

definition moved :: "Entity gomap \<Rightarrow> Entity gomap \<Rightarrow> Entity \<Rightarrow> Entity \<Rightarrow> bool" where
  "moved b c p n \<longleftrightarrow> lone (unmatched b c) p \<and> lone (unmatched c b) n
     \<and> entity_signature p = entity_signature n"

definition classified :: "Entity gomap \<Rightarrow> Entity gomap \<Rightarrow> EntityChange set" where
  "classified b c =
     {entity_change ChangeModified p n | p n. \<exists>k. map_of b k = Some p \<and> map_of c k = Some n
        \<and> ent_StructuralHash p \<noteq> ent_StructuralHash n}
     \<union> {entity_change ChangeMoved p n | p n. moved b c p n}
     \<union> {entity_change ChangeAdded zero_entity n | n. n \<in> unmatched c b \<and> (\<nexists>p. moved b c p n)}
     \<union> {entity_change ChangeRemoved p zero_entity | p. p \<in> unmatched b c \<and> (\<nexists>n. moved b c p n)}"

lemma sig_group_lone:
  assumes "distinct es"
  shows "sig_group es s = [e] \<longleftrightarrow> lone (set es) e \<and> entity_signature e = s"
proof -
  have "sig_group es s = [e] \<longleftrightarrow> set (sig_group es s) = {e}"
  proof
    assume s: "set (sig_group es s) = {e}"
    have "distinct (sig_group es s)" using assms by (simp add: sig_group_def)
    from distinct_card [OF this] s have "length (sig_group es s) = 1" by simp
    then obtain x where "sig_group es s = [x]" by (cases "sig_group es s") simp_all
    with s show "sig_group es s = [e]" by simp
  qed simp
  moreover have "set (sig_group es s) = {x \<in> set es. entity_signature x = s}"
    by (auto simp: sig_group_def)
  ultimately have "sig_group es s = [e] \<longleftrightarrow> {x \<in> set es. entity_signature x = s} = {e}" by (simp only:)
  moreover have "{x \<in> A. g x = s} = {e} \<longleftrightarrow> e \<in> A \<and> g e = s \<and> (\<forall>x \<in> A. g x = s \<longrightarrow> x = e)"
    for A :: "Entity set" and g by (simp add: set_eq_iff) metis
  ultimately show ?thesis by (auto simp: lone_def)
qed

lemma one_elem: "length xs = 1 \<longleftrightarrow> xs = [xs ! 0]"
  by (cases xs) auto

lemma keyed_inj: "keyed m \<Longrightarrow> map_of m k = Some e \<Longrightarrow> map_of m j = Some e \<Longrightarrow> j = k"
  by (metis keyed_def)

lemma map_filter_distinct:
  assumes "distinct (map g (List.map_filter f xs))" shows "distinct (List.map_filter f xs)"
  using assms by (simp add: distinct_map)

lemma in_map_filter: "y \<in> set (List.map_filter f xs) \<longleftrightarrow> (\<exists>x \<in> set xs. f x = Some y)"
  by (force simp: List.map_filter_def)

lemma distinct_map_filter_keys:
  assumes "distinct (map fst xs)" "\<And>x y. x \<in> set xs \<Longrightarrow> f x = Some y \<Longrightarrow> h y = fst x"
  shows "distinct (map h (List.map_filter f xs))"
  using assms
proof (induction xs)
  case Nil
  then show ?case by (simp add: List.map_filter_simps)
next
  case (Cons x xs)
  have IH: "distinct (map h (List.map_filter f xs))" using Cons by simp
  show ?case
  proof (cases "f x")
    case None
    with IH show ?thesis by (simp add: List.map_filter_simps)
  next
    case (Some y)
    have "h y \<notin> h ` set (List.map_filter f xs)"
    proof
      assume "h y \<in> h ` set (List.map_filter f xs)"
      then obtain z x' where z: "x' \<in> set xs" "f x' = Some z" "h y = h z" by (auto simp: in_map_filter)
      with Cons.prems(2) [of x y] Cons.prems(2) [of x' z] Some have "fst x' = fst x" by simp
      with Cons.prems(1) z(1) show False by (metis distinct.simps(2) imageI list.simps(9) list.set_map)
    qed
    with IH Some show ?thesis by (simp add: List.map_filter_simps)
  qed
qed

context map_iteration
begin

lemma distinct_range_values:
  assumes "keyed m"
  shows "distinct (map snd (map_range ord i m)) \<and> set (map snd (map_range ord i m)) = {e. \<exists>k. map_of m k = Some e}"
proof -
  have "map ent_Key (map snd (map_range ord i m)) = map fst (map_range ord i m)"
    using assms by (auto simp: keyed_def set_map_range)
  moreover have "distinct (map fst (map_range ord i m))"
    using assms by (simp add: distinct_map_range keyed_def)
  ultimately have "distinct (map snd (map_range ord i m))" by (metis distinct_map)
  then show ?thesis by (force simp: set_map_range)
qed

lemma lone_pairs:
  assumes "keyed ub" "keyed uc"
  shows "(p, n) \<in> set (List.map_filter (lone_pair (landingEntityGroups ord i uc))
      (map_range ord j (landingEntityGroups ord l ub)))
    \<longleftrightarrow> lone {e. \<exists>k. map_of ub k = Some e} p \<and> lone {e. \<exists>k. map_of uc k = Some e} n
        \<and> entity_signature p = entity_signature n" (is "?L \<longleftrightarrow> ?R")
proof -
  let ?ub = "map snd (map_range ord l ub)" and ?uc = "map snd (map_range ord i uc)"
  note b = distinct_range_values [OF assms(1), of l] and c = distinct_range_values [OF assms(2), of i]
  have cg: "(case map_of (landingEntityGroups ord i uc) s of None \<Rightarrow> [] | Some es \<Rightarrow> es) = sig_group ?uc s" for s
    by (simp add: map_of_groups Let_def)
  have pair: "lone_pair (landingEntityGroups ord i uc) (s, es) = Some (p, n) \<longleftrightarrow>
      es = [p] \<and> sig_group ?uc s = [n]" for s es
    unfolding lone_pair_def cg Let_def
    by (cases es; cases "sig_group ?uc s") (auto simp: cg)
  have "?L \<longleftrightarrow> (\<exists>s es. map_of (landingEntityGroups ord l ub) s = Some es
      \<and> lone_pair (landingEntityGroups ord i uc) (s, es) = Some (p, n))"
    by (auto simp: in_map_filter set_map_range)
  also have "\<dots> \<longleftrightarrow> (\<exists>s. sig_group ?ub s = [p] \<and> sig_group ?uc s = [n])"
    unfolding pair by (force simp: map_of_groups Let_def)
  also have "\<dots> \<longleftrightarrow> ?R"
    using sig_group_lone [OF conjunct1 [OF b]] sig_group_lone [OF conjunct1 [OF c]] b c by auto
  finally show ?thesis .
qed

lemma map_of_map_range: "wf_map m \<Longrightarrow> map_of (map_range ord i m) k = map_of m k"
proof -
  assume m: "wf_map m"
  then have "map_of (map_range ord i m) k = Some v \<longleftrightarrow> map_of m k = Some v" for v
    by (subst map_of_eq_Some_iff) (simp_all add: distinct_map_range set_map_range)
  then show ?thesis by (metis option.exhaust)
qed

end

subsection \<open>The keys of the changes\<close>

lemma moved_unique: "moved b c p n \<Longrightarrow> moved b c p' n \<Longrightarrow> p = p'" "moved b c p n \<Longrightarrow> moved b c p n' \<Longrightarrow> n = n'"
  unfolding moved_def lone_def by metis+

lemma unmatched_key:
  "keyed m \<Longrightarrow> e \<in> unmatched m m' \<Longrightarrow> map_of m (ent_Key e) = Some e \<and> map_of m' (ent_Key e) = None"
  by (auto simp: unmatched_def keyed_def)

lemma change_key_simps [simp]:
  "landingChangeKey (entity_change k p n) = (if ent_Key n \<noteq> [] then ent_Key n else ent_Key p)"
  "ent_Key zero_entity = []" "chg_Kind (entity_change k p n) = k"
  by (simp_all add: landingChangeKey_def entity_change_def zero_entity_def)

lemma entity_change_eq [simp]:
  "entity_change k p n = entity_change k' p' n' \<longleftrightarrow> k = k' \<and> p = p' \<and> n = n'"
  by (auto simp: entity_change_def)

lemma classified_key:
  assumes "keyed b" "keyed c" "x \<in> classified b c"
  defines "k \<equiv> landingChangeKey x"
  shows "(\<exists>p n. map_of b k = Some p \<and> map_of c k = Some n \<and> x = entity_change ChangeModified p n)
    \<or> (\<exists>n. map_of b k = None \<and> map_of c k = Some n
         \<and> ((\<exists>p. moved b c p n \<and> x = entity_change ChangeMoved p n)
            \<or> (\<nexists>p. moved b c p n) \<and> x = entity_change ChangeAdded zero_entity n))
    \<or> (\<exists>p. map_of b k = Some p \<and> map_of c k = None
         \<and> ((\<exists>n. moved b c p n \<and> x = entity_change ChangeMoved p n)
            \<or> (\<nexists>n. moved b c p n) \<and> x = entity_change ChangeRemoved p zero_entity))"
proof -
  from assms(3) consider
      (modified) p n j where "x = entity_change ChangeModified p n" "map_of b j = Some p" "map_of c j = Some n"
    | (moved) p n where "x = entity_change ChangeMoved p n" "moved b c p n"
    | (added) n where "x = entity_change ChangeAdded zero_entity n" "n \<in> unmatched c b" "\<nexists>p. moved b c p n"
    | (removed) p where "x = entity_change ChangeRemoved p zero_entity" "p \<in> unmatched b c" "\<nexists>n. moved b c p n"
    unfolding classified_def by blast
  then show ?thesis
  proof cases
    case modified
    then have "ent_Key p = j" "ent_Key n = j" using assms(1,2) by (auto simp: keyed_def)
    with modified have "k = j" by (simp add: k_def)
    with modified show ?thesis by blast
  next
    case moved
    then have "p \<in> unmatched b c" "n \<in> unmatched c b" by (auto simp: moved_def lone_def)
    from unmatched_key [OF assms(1) this(1)] unmatched_key [OF assms(2) this(2)]
    have u: "map_of b (ent_Key p) = Some p" "map_of c (ent_Key p) = None"
      "map_of c (ent_Key n) = Some n" "map_of b (ent_Key n) = None" by simp_all
    show ?thesis
    proof (cases "ent_Key n = []")
      case True
      then have "k = ent_Key p" by (simp add: k_def moved(1))
      with u moved show ?thesis by blast
    next
      case False
      then have "k = ent_Key n" by (simp add: k_def moved(1))
      with u moved show ?thesis by blast
    qed
  next
    case added
    then have "k = ent_Key n" by (simp add: k_def)
    with added unmatched_key [OF assms(2)] show ?thesis by blast
  next
    case removed
    then have "k = ent_Key p" by (simp add: k_def)
    with removed unmatched_key [OF assms(1)] show ?thesis by blast
  qed
qed

lemma classified_inj:
  assumes "keyed b" "keyed c"
  shows "inj_on landingChangeKey (classified b c)"
proof (rule inj_onI)
  fix x y
  assume x: "x \<in> classified b c" and y: "y \<in> classified b c" and "landingChangeKey x = landingChangeKey y"
  with classified_key [OF assms x] classified_key [OF assms y] show "x = y"
    by (elim disjE exE conjE) (auto dest: moved_unique)
qed

lemma map_of_filter_keys: "map_of (filter (\<lambda>(k, _). P k) m) k = (if P k then map_of m k else None)"
  by (induction m) auto

lemma keyed_filter: "keyed m \<Longrightarrow> keyed (filter (\<lambda>(k, _). P k) m)"
  by (auto simp: keyed_def map_of_filter_keys wf_map_def map_keys_def distinct_map_filter split: if_splits)

lemma keyed_del: "keyed m \<Longrightarrow> keyed (foldl (\<lambda>m x. map_del (f x) m) m xs)"
  by (auto simp: keyed_def wf_del_loop del_loop split: if_splits)

lemma distinct_values: "distinct (map snd xs) \<Longrightarrow> inj f \<Longrightarrow> distinct (map (\<lambda>(_, e). f e) xs)"
proof -
  assume xs: "distinct (map snd xs)" and f: "inj f"
  have "map (\<lambda>(_, e). f e) xs = map f (map snd xs)" by (simp add: split_def)
  with xs f show ?thesis by (metis distinct_map inj_on_subset subset_UNIV)
qed

lemma distinct_kinds:
  assumes "distinct as" "distinct bs" "distinct cs" "distinct ds"
    and "\<forall>x \<in> set as. chg_Kind x = a" "\<forall>x \<in> set bs. chg_Kind x = b" "\<forall>x \<in> set cs. chg_Kind x = c"
      "\<forall>x \<in> set ds. chg_Kind x = d" and "distinct [a, b, c, d]"
  shows "distinct (as @ bs @ cs @ ds)"
  using assms by (simp add: disjoint_iff) metis

lemma keyed_rest:
  assumes "keyed m" "\<And>k. map_of m' k = (if k \<in> S then None else map_of m k)"
  shows "(\<exists>k. map_of m' k = Some e) \<longleftrightarrow> (\<exists>k. map_of m k = Some e) \<and> ent_Key e \<notin> S"
proof -
  have "map_of m k = Some e \<Longrightarrow> k = ent_Key e" for k using assms(1) by (simp add: keyed_def)
  then show ?thesis unfolding assms(2) by (metis option.distinct(1))
qed

context map_iteration
begin

lemma set_map_values: "set (map (\<lambda>(_, e). f e) (map_range ord i m)) = f ` {e. \<exists>k. map_of m k = Some e}"
  by (force simp: set_map_range)

lemma keyed_map_range: "keyed m \<Longrightarrow> keyed (map_range ord i m)"
  by (auto simp: keyed_def map_of_map_range wf_map_def map_keys_def map_fst_map_range distinct_ord)

lemma classify_set:
  fixes base current
  defines "b \<equiv> entities_by_key base" and "c \<equiv> entities_by_key current"
  obtains L where "ClassifyEntityChanges ord base current = sort_key (\<lambda>x. (landingChangeKey x, chg_Kind x)) L"
    "set L = classified b c" "distinct (map landingChangeKey L)"
proof -
  have kb: "keyed b" "wf_map b" and kc: "keyed c" "wf_map c"
    by (simp_all add: b_def c_def keyed_entities_by_key)
  let ?kb = "map_range ord 0 b" and ?kc = "map_range ord 1 c"
  let ?ub = "filter (\<lambda>(k, _). map_of c k = None) ?kb"
  let ?uc = "filter (\<lambda>(k, _). map_of b k = None) ?kc"
  let ?mods = "List.map_filter (\<lambda>(k, p). case map_of c k of None \<Rightarrow> None
       | Some n \<Rightarrow> if ent_StructuralHash p \<noteq> ent_StructuralHash n then Some (entity_change ChangeModified p n) else None) ?kb"
  let ?M = "List.map_filter (lone_pair (landingEntityGroups ord 3 ?uc)) (map_range ord 4 (landingEntityGroups ord 2 ?ub))"
  let ?ub' = "foldl (\<lambda>m (p, n). map_del (ent_Key p) m) ?ub ?M"
  let ?uc' = "foldl (\<lambda>m (p, n). map_del (ent_Key n) m) ?uc ?M"
  let ?adds = "map (\<lambda>(_, e). entity_change ChangeAdded zero_entity e) (map_range ord 5 ?uc')"
  let ?rems = "map (\<lambda>(_, e). entity_change ChangeRemoved e zero_entity) (map_range ord 6 ?ub')"
  let ?L = "?mods @ map (\<lambda>(p, n). entity_change ChangeMoved p n) ?M @ ?adds @ ?rems"
  have "foldl (classify_base_step c) ([], []) ?kb = (?ub, ?mods)"
    using kb by (subst base_loop) (simp_all add: distinct_map_range)
  moreover have "foldl (classify_current_step b) [] ?kc = ?uc"
    using kc by (subst current_loop) (simp_all add: distinct_map_range)
  ultimately have run: "ClassifyEntityChanges ord base current
      = sort_key (\<lambda>x. (landingChangeKey x, chg_Kind x)) ?L"
    by (simp add: ClassifyEntityChanges_def b_def [symmetric] c_def [symmetric] move_loop Let_def)
  have ub: "keyed ?ub" "{e. \<exists>k. map_of ?ub k = Some e} = unmatched b c"
    using kb by (auto simp: keyed_filter keyed_map_range map_of_filter_keys map_of_map_range unmatched_def)
  have uc: "keyed ?uc" "{e. \<exists>k. map_of ?uc k = Some e} = unmatched c b"
    using kc by (auto simp: keyed_filter keyed_map_range map_of_filter_keys map_of_map_range unmatched_def)
  have M: "(p, n) \<in> set ?M \<longleftrightarrow> moved b c p n" for p n
    using lone_pairs [OF ub(1) uc(1)] ub(2) uc(2) by (simp add: moved_def)
  have ub': "map_of ?ub' k = (if k \<in> (\<lambda>(p, n). ent_Key p) ` set ?M then None else map_of ?ub k)" for k
    using del_loop [of "\<lambda>(p, n). ent_Key p" ?ub ?M k] by (simp add: split_def)
  have uc': "map_of ?uc' k = (if k \<in> (\<lambda>(p, n). ent_Key n) ` set ?M then None else map_of ?uc k)" for k
    using del_loop [of "\<lambda>(p, n). ent_Key n" ?uc ?M k] by (simp add: split_def)
  have wub: "keyed ?ub'" using keyed_del [OF ub(1), of "\<lambda>(p, n). ent_Key p" ?M] by (simp add: split_def)
  have wuc: "keyed ?uc'" using keyed_del [OF uc(1), of "\<lambda>(p, n). ent_Key n" ?M] by (simp add: split_def)
  have rest_b: "(\<exists>k. map_of ?ub' k = Some p) \<longleftrightarrow> p \<in> unmatched b c \<and> (\<nexists>n. moved b c p n)" for p
  proof -
    have "ent_Key p \<in> (\<lambda>(p, n). ent_Key p) ` set ?M \<longleftrightarrow> (\<exists>n. moved b c p n)" if "p \<in> unmatched b c"
    proof -
      have "p' = p" if "moved b c p' n" "ent_Key p' = ent_Key p" for p' n
        using that \<open>p \<in> unmatched b c\<close> unmatched_key [OF kb(1)] by (metis lone_def moved_def option.inject)
      then show ?thesis using M by force
    qed
    moreover have "(\<exists>k. map_of ?ub' k = Some p) \<longleftrightarrow>
        p \<in> unmatched b c \<and> ent_Key p \<notin> (\<lambda>(p, n). ent_Key p) ` set ?M"
      unfolding keyed_rest [OF ub(1) ub'] ub(2) [symmetric] by simp
    ultimately show ?thesis by blast
  qed
  have rest_c: "(\<exists>k. map_of ?uc' k = Some n) \<longleftrightarrow> n \<in> unmatched c b \<and> (\<nexists>p. moved b c p n)" for n
  proof -
    have "ent_Key n \<in> (\<lambda>(p, n). ent_Key n) ` set ?M \<longleftrightarrow> (\<exists>p. moved b c p n)" if "n \<in> unmatched c b"
    proof -
      have "n' = n" if "moved b c p n'" "ent_Key n' = ent_Key n" for p n'
        using that \<open>n \<in> unmatched c b\<close> unmatched_key [OF kc(1)] by (metis lone_def moved_def option.inject)
      then show ?thesis using M by force
    qed
    moreover have "(\<exists>k. map_of ?uc' k = Some n) \<longleftrightarrow>
        n \<in> unmatched c b \<and> ent_Key n \<notin> (\<lambda>(p, n). ent_Key n) ` set ?M"
      unfolding keyed_rest [OF uc(1) uc'] uc(2) [symmetric] by simp
    ultimately show ?thesis by blast
  qed
  have smods: "set ?mods = {entity_change ChangeModified p n | p n. \<exists>k. map_of b k = Some p \<and> map_of c k = Some n
        \<and> ent_StructuralHash p \<noteq> ent_StructuralHash n}"
    by (force simp: in_map_filter set_map_range split: option.splits if_splits)
  have smoves: "set (map (\<lambda>(p, n). entity_change ChangeMoved p n) ?M) = {entity_change ChangeMoved p n | p n. moved b c p n}"
    using M by force
  have sadds: "set ?adds = {entity_change ChangeAdded zero_entity n | n. n \<in> unmatched c b \<and> (\<nexists>p. moved b c p n)}"
    unfolding set_map_values rest_c by blast
  have srems: "set ?rems = {entity_change ChangeRemoved p zero_entity | p. p \<in> unmatched b c \<and> (\<nexists>n. moved b c p n)}"
    unfolding set_map_values rest_b by blast
  have set: "set ?L = classified b c"
    using smods smoves sadds srems unfolding classified_def set_append by (simp only: Un_assoc)
  have "distinct (map landingChangeKey ?mods)"
    by (rule distinct_map_filter_keys)
      (use kb kc in \<open>auto simp: distinct_map_range set_map_range keyed_def split: option.splits if_splits\<close>)
  then have d1: "distinct ?mods" by (rule map_filter_distinct)
  have "distinct (map (\<lambda>(p, n). entity_signature p) ?M)"
  proof (rule distinct_map_filter_keys)
    show "distinct (map fst (map_range ord 4 (landingEntityGroups ord 2 ?ub)))"
      by (simp add: distinct_map_range wf_groups)
    show "(case y of (p, n) \<Rightarrow> entity_signature p) = fst x"
      if "x \<in> set (map_range ord 4 (landingEntityGroups ord 2 ?ub))"
        "lone_pair (landingEntityGroups ord 3 ?uc) x = Some y" for x y
    proof -
      from that obtain s es where x: "x = (s, es)" "map_of (landingEntityGroups ord 2 ?ub) s = Some es"
          "length es = 1" "fst y = es ! 0"
        by (auto simp: set_map_range lone_pair_def Let_def split: if_splits)
      then have "es ! 0 \<in> set es" by simp
      moreover from x(2) have "\<forall>e \<in> set es. entity_signature e = s"
        by (simp add: map_of_groups Let_def split: if_splits) (auto simp: sig_group_def)
      ultimately have "entity_signature (es ! 0) = s" by simp
      with x show ?thesis by (simp add: split_def)
    qed
  qed
  then have "distinct ?M" by (metis distinct_map)
  then have d2: "distinct (map (\<lambda>(p, n). entity_change ChangeMoved p n) ?M)"
    by (auto simp: distinct_map inj_on_def)
  have d3: "distinct ?adds"
    using distinct_range_values [OF wuc, of 5] by (intro distinct_values) (auto simp: inj_def)
  have d4: "distinct ?rems"
    using distinct_range_values [OF wub, of 6] by (intro distinct_values) (auto simp: inj_def)
  have "distinct ?L"
  proof (rule distinct_kinds [OF d1 d2 d3 d4])
    show "\<forall>x \<in> set ?mods. chg_Kind x = ChangeModified" unfolding smods by auto
    show "\<forall>x \<in> set (map (\<lambda>(p, n). entity_change ChangeMoved p n) ?M). chg_Kind x = ChangeMoved"
      unfolding smoves by auto
    show "\<forall>x \<in> set ?adds. chg_Kind x = ChangeAdded" unfolding sadds by auto
    show "\<forall>x \<in> set ?rems. chg_Kind x = ChangeRemoved" unfolding srems by auto
    show "distinct [ChangeModified, ChangeMoved, ChangeAdded, ChangeRemoved]" by (simp add: go_defs)
  qed
  then have "distinct (map landingChangeKey ?L)"
    using classified_inj [OF kb(1) kc(1)] unfolding distinct_map set by blast
  with run set show thesis by (rule that)
qed

end

subsection \<open>Properties\<close>

text \<open>C3: The classification lists exactly these changes: a key on both sides whose structural hash
  differs is modified; an entity without counterpart moved when it is the only unmatched entity
  of its language, kind and hash on either side, and was added or removed otherwise.  The changes are
  sorted by their keys, no two of which are equal.\<close>

theorem classification_complete:
  assumes "map_iteration ord"
  shows "set (ClassifyEntityChanges ord base current)
      = classified (entities_by_key base) (entities_by_key current)
    \<and> sorted_wrt (<) (map landingChangeKey (ClassifyEntityChanges ord base current))"
proof -
  obtain L where run: "ClassifyEntityChanges ord base current
        = sort_key (\<lambda>x. (landingChangeKey x, chg_Kind x)) L"
      and L: "set L = classified (entities_by_key base) (entities_by_key current)"
        "distinct (map landingChangeKey L)"
    by (rule map_iteration.classify_set [OF assms])
  let ?S = "ClassifyEntityChanges ord base current"
  have "sorted (map (\<lambda>x. (landingChangeKey x, chg_Kind x)) ?S)" unfolding run by simp
  then have "sorted (map landingChangeKey ?S)"
    by (auto simp: sorted_map less_eq_prod_def elim!: sorted_wrt_mono_rel [rotated])
  moreover have "mset ?S = mset L" unfolding run by simp
  then have "distinct (map landingChangeKey ?S)" using L(2) by (metis mset_eq_imp_distinct_iff mset_map)
  ultimately show ?thesis using L(1) by (simp add: strict_sorted_iff run)
qed

lemma ClassifyEntityChanges_deterministic:
  assumes "map_iteration ord" "map_iteration ord'"
  shows "ClassifyEntityChanges ord base current = ClassifyEntityChanges ord' base current"
proof -
  have char: "\<exists>L. ClassifyEntityChanges ord base current = sort_key (\<lambda>x. (landingChangeKey x, chg_Kind x)) L
      \<and> set L = classified (entities_by_key base) (entities_by_key current) \<and> distinct (map landingChangeKey L)"
    if "map_iteration ord" for ord
    by (rule map_iteration.classify_set [OF that, of base current]) blast
  from char [OF assms(1)] char [OF assms(2)] obtain L L' where
    L: "ClassifyEntityChanges ord base current = sort_key (\<lambda>x. (landingChangeKey x, chg_Kind x)) L"
      "set L = classified (entities_by_key base) (entities_by_key current)" "distinct (map landingChangeKey L)"
    and L': "ClassifyEntityChanges ord' base current = sort_key (\<lambda>x. (landingChangeKey x, chg_Kind x)) L'"
      "set L' = classified (entities_by_key base) (entities_by_key current)" "distinct (map landingChangeKey L')"
    by (elim exE conjE) (rule that)
  from L(2,3) L'(2,3) have "mset L = mset L'" by (metis distinct_map set_eq_iff_mset_eq_distinct)
  moreover have "inj_on (\<lambda>x. (landingChangeKey x, chg_Kind x)) (set L)"
    using L(3) by (auto simp: distinct_map inj_on_def)
  ultimately show ?thesis unfolding L(1) L'(1) by (intro sort_key_inj_key_eq) simp_all
qed

text \<open>The classification does not depend on the order in which the runtime iterates over its maps.\<close>

lemma classification_deterministic:
  assumes "map_iteration ord" "map_iteration ord'"
  shows "ClassifyEntityChanges ord base current = ClassifyEntityChanges ord' base current"
  using assms by (rule ClassifyEntityChanges_deterministic)

lemma unmatched_self: "unmatched m m = {}"
  by (auto simp: unmatched_def)

text \<open>Between two revisions with the same entities nothing changed; in particular the
  classification looks at neither paths nor lines nor source revisions.\<close>

lemma classification_unchanged:
  assumes "map_iteration ord" "distinct (map ent_Key base)" "distinct (map ent_Key current)"
    and "ent_Key ` set base = ent_Key ` set current"
    and "\<And>e e'. e \<in> set base \<Longrightarrow> e' \<in> set current \<Longrightarrow> ent_Key e = ent_Key e' \<Longrightarrow>
      ent_StructuralHash e = ent_StructuralHash e'"
  shows "ClassifyEntityChanges ord base current = []"
proof -
  have "dom (map_of (entities_by_key base)) = dom (map_of (entities_by_key current))"
    unfolding dom_entities_by_key by (rule assms(4))
  then have "unmatched (entities_by_key base) (entities_by_key current) = {}"
    "unmatched (entities_by_key current) (entities_by_key base) = {}"
    by (auto simp: unmatched_def domIff set_eq_iff)
  then have "classified (entities_by_key base) (entities_by_key current) = {}"
    using assms(5) by (auto simp: classified_def moved_def lone_def
        entities_by_key_distinct assms(2,3))
  moreover obtain L where "ClassifyEntityChanges ord base current
        = sort_key (\<lambda>x. (landingChangeKey x, chg_Kind x)) L"
      "set L = classified (entities_by_key base) (entities_by_key current)"
    by (rule map_iteration.classify_set [OF assms(1)])
  ultimately show ?thesis by simp
qed

lemma Reconcile_facts:
  assumes "Reconcile (NewBindingReconciler es sha) note previous = (u, changed)"
  shows "note_ID u = note_ID note \<and> note_RevisionID u = note_RevisionID note
    \<and> note_SupersedesRevisionID u = note_SupersedesRevisionID note \<and> note_Kind u = note_Kind note
    \<and> note_Body u = note_Body note \<and> note_Author u = note_Author note \<and> note_Origin u = note_Origin note
    \<and> note_CreatedAt u = note_CreatedAt note \<and> note_Topics u = note_Topics note
    \<and> note_BindingSourceSHA u = sha \<and> note_Pending u
    \<and> (\<not> changed \<longrightarrow> u = note\<lparr>note_Pending := True, note_ReviewReason := []\<rparr>)"
  using assms
  by (cases "note") (auto simp: Reconcile_def NewBindingReconciler_def Let_def split: if_splits option.splits)

text \<open>Reconciling a note never touches its content: identity, revisions, kind, body, author, origin, time and topics
  stay, the binding moves to the new source revision, and the note is reported unchanged only if nothing but
  the pending mark and the review reason can differ.\<close>

lemma reconcile_content:
  assumes "Reconcile (NewBindingReconciler es sha) note previous = (u, changed)"
  shows "note_ID u = note_ID note \<and> note_RevisionID u = note_RevisionID note
    \<and> note_SupersedesRevisionID u = note_SupersedesRevisionID note \<and> note_Kind u = note_Kind note
    \<and> note_Body u = note_Body note \<and> note_Author u = note_Author note \<and> note_Origin u = note_Origin note
    \<and> note_CreatedAt u = note_CreatedAt note \<and> note_Topics u = note_Topics note
    \<and> note_BindingSourceSHA u = sha \<and> note_Pending u
    \<and> (\<not> changed \<longrightarrow> u = note\<lparr>note_Pending := True, note_ReviewReason := []\<rparr>)"
  using assms by (rule Reconcile_facts)

definition same_lineage :: "Entity \<Rightarrow> Entity \<Rightarrow> bool" where
  "same_lineage e previous \<longleftrightarrow> ent_Language e = ent_Language previous \<and> ent_Kind e = ent_Kind previous
     \<and> ent_StructuralHash e = ent_StructuralHash previous"

lemma card_one_iff: "card A = 1 \<longleftrightarrow> (\<exists>!e. e \<in> A)"
  by (auto simp: card_1_singleton_iff set_eq_iff)

lemma lineage_candidates:
  assumes "distinct es"
  shows "length (filter (\<lambda>e. same_lineage e p) es) = 1 \<longleftrightarrow> (\<exists>!e. e \<in> set es \<and> same_lineage e p)"
    and "1 < length (filter (\<lambda>e. same_lineage e p) es) \<longleftrightarrow>
      (\<exists>e \<in> set es. \<exists>e' \<in> set es. e \<noteq> e' \<and> same_lineage e p \<and> same_lineage e' p)"
proof -
  let ?c = "filter (\<lambda>e. same_lineage e p) es"
  have d: "distinct ?c" and s: "set ?c = {e. e \<in> set es \<and> same_lineage e p}" using assms by auto
  have "length ?c = card (set ?c)" using distinct_card [OF d] by simp
  then show "length ?c = 1 \<longleftrightarrow> (\<exists>!e. e \<in> set es \<and> same_lineage e p)"
    unfolding s using card_one_iff [of "{e. e \<in> set es \<and> same_lineage e p}"] by simp
  have "1 < length ?c \<longleftrightarrow> (\<exists>e \<in> set ?c. \<exists>e' \<in> set ?c. e \<noteq> e')"
    using d by (cases ?c rule: remdups_adj.cases) auto
  then show "1 < length ?c \<longleftrightarrow>
      (\<exists>e \<in> set es. \<exists>e' \<in> set es. e \<noteq> e' \<and> same_lineage e p \<and> same_lineage e' p)"
    unfolding s by blast
qed

text \<open>C31: The binding state after reconciliation follows the lineage of the entity: kept while the
  hash is, under review when the hash of its key changed, moved to the only current entity of the same language,
  kind and hash when the key is gone, under review when there are several, historical when there is none.\<close>

theorem reconcile_lineage:
  assumes "Reconcile (NewBindingReconciler es sha) note previous = (u, changed)"
    and "distinct (map ent_Key es)" "ent_Key previous \<noteq> []"
  shows "(\<forall>e \<in> set es. ent_Key e = note_EntityKey note \<longrightarrow> note_EntityKey u = note_EntityKey note
      \<and> (if ent_StructuralHash e = ent_StructuralHash previous
         then note_BindingState u = note_BindingState note \<and> note_ReviewReason u = []
         else note_BindingState u = NoteBindingNeedsReview \<and> note_ReviewReason u = ''structural_change''))
    \<and> (note_EntityKey note \<notin> ent_Key ` set es \<longrightarrow>
        (if \<exists>!e. e \<in> set es \<and> same_lineage e previous
         then (\<exists>e \<in> set es. same_lineage e previous \<and> note_EntityKey u = ent_Key e)
            \<and> note_BindingState u = note_BindingState note \<and> note_ReviewReason u = []
         else note_EntityKey u = note_EntityKey note \<and>
           (if \<exists>e \<in> set es. same_lineage e previous
            then note_BindingState u = NoteBindingNeedsReview \<and> note_ReviewReason u = ''ambiguous_lineage''
            else note_BindingState u = NoteBindingHistorical \<and> note_ReviewReason u = ''entity_removed'')))"
proof (intro conjI ballI impI)
  fix e
  assume "e \<in> set es" "ent_Key e = note_EntityKey note"
  then have "map_of (entities_by_key es) (note_EntityKey note) = Some e"
    using assms(2) by (simp add: entities_by_key_distinct)
  then show "note_EntityKey u = note_EntityKey note"
    "if ent_StructuralHash e = ent_StructuralHash previous
         then note_BindingState u = note_BindingState note \<and> note_ReviewReason u = []
         else note_BindingState u = NoteBindingNeedsReview \<and> note_ReviewReason u = ''structural_change''"
    using assms(1,3) by (auto simp: Reconcile_def NewBindingReconciler_def Let_def split: if_splits)
next
  assume "note_EntityKey note \<notin> ent_Key ` set es"
  then have none: "map_of (entities_by_key es) (note_EntityKey note) = None"
    using dom_entities_by_key by blast
  let ?c = "filter (\<lambda>e. same_lineage e previous) es"
  have run: "(u, changed) = (let v = note\<lparr>note_Pending := True, note_BindingSourceSHA := sha, note_ReviewReason := []\<rparr>
      in if length ?c = 1 then (v\<lparr>note_EntityKey := ent_Key (?c ! 0)\<rparr>, True)
         else if 1 < length ?c then (v\<lparr>note_BindingState := NoteBindingNeedsReview,
            note_ReviewReason := ''ambiguous_lineage''\<rparr>, True)
         else (v\<lparr>note_BindingState := NoteBindingHistorical, note_ReviewReason := ''entity_removed''\<rparr>, True))"
    by (simp only: assms(1) [symmetric])
      (simp add: Reconcile_def NewBindingReconciler_def Let_def same_lineage_def [abs_def] assms(3) none)
  have d: "distinct es" using assms(2) by (simp add: distinct_map)
  have mem: "e \<in> set ?c \<longleftrightarrow> e \<in> set es \<and> same_lineage e previous" for e by auto
  consider (one) "length ?c = 1" | (many) "1 < length ?c" | (none) "?c = []" by (cases ?c) auto
  then show "if \<exists>!e. e \<in> set es \<and> same_lineage e previous
         then (\<exists>e \<in> set es. same_lineage e previous \<and> note_EntityKey u = ent_Key e)
            \<and> note_BindingState u = note_BindingState note \<and> note_ReviewReason u = []
         else note_EntityKey u = note_EntityKey note \<and>
           (if \<exists>e \<in> set es. same_lineage e previous
            then note_BindingState u = NoteBindingNeedsReview \<and> note_ReviewReason u = ''ambiguous_lineage''
            else note_BindingState u = NoteBindingHistorical \<and> note_ReviewReason u = ''entity_removed'')"
  proof cases
    case one
    then have "0 < length ?c" by linarith
    then have "?c ! 0 \<in> set ?c" by (rule nth_mem)
    then have "?c ! 0 \<in> set es" "same_lineage (?c ! 0) previous" using mem by blast+
    moreover have "\<exists>!e. e \<in> set es \<and> same_lineage e previous" using one lineage_candidates(1) [OF d] by blast
    moreover have "u = note\<lparr>note_Pending := True, note_BindingSourceSHA := sha, note_ReviewReason := [],
        note_EntityKey := ent_Key (?c ! 0)\<rparr>" using run one by (simp add: Let_def)
    ultimately show ?thesis by auto
  next
    case many
    then have "\<not> (\<exists>!e. e \<in> set es \<and> same_lineage e previous)" "\<exists>e \<in> set es. same_lineage e previous"
      using lineage_candidates [OF d, of previous] by auto
    moreover have "u = note\<lparr>note_Pending := True, note_BindingSourceSHA := sha,
        note_BindingState := NoteBindingNeedsReview, note_ReviewReason := ''ambiguous_lineage''\<rparr>"
      using run many by (simp add: Let_def)
    ultimately show ?thesis by simp
  next
    case none
    then have n: "\<not> (\<exists>e \<in> set es. same_lineage e previous)" using mem by (metis empty_iff empty_set)
    moreover have "u = note\<lparr>note_Pending := True, note_BindingSourceSHA := sha,
        note_BindingState := NoteBindingHistorical, note_ReviewReason := ''entity_removed''\<rparr>"
      using run none by (simp add: Let_def)
    ultimately show ?thesis by auto
  qed
qed

subsection \<open>Concrete revisions\<close>

definition ex_entity :: "string \<Rightarrow> string \<Rightarrow> Entity" where
  "ex_entity k hash = zero_entity\<lparr>ent_Language := ''go'', ent_Key := k, ent_Kind := EntityFunction,
     ent_StructuralHash := hash\<rparr>"

definition ex_base_revision :: "Entity list" where
  "ex_base_revision = [ex_entity ''a'' ''1'', ex_entity ''b'' ''2'', ex_entity ''c'' ''3'']"

text \<open>In the next revision a changed, b moved to d and c is gone.\<close>

definition ex_next_revision :: "Entity list" where
  "ex_next_revision = [ex_entity ''d'' ''2'', ex_entity ''a'' ''9'']"

definition ex_bound_note :: Note where
  "ex_bound_note = \<lparr>note_ID = ''n'', note_RevisionID = ''r'', note_SupersedesRevisionID = [],
     note_EntityKey = ''b'', note_Kind = NoteIntent, note_Body = ''b'', note_Author = ''a'', note_Origin = ''o'',
     note_CreatedAt = time_Unix 0, note_BindingState = NoteBindingActive, note_BindingSourceSHA = ''old'',
     note_ReviewReason = [], note_Topics = None, note_Pending = False\<rparr>"

lemma ex_classification:
  "ClassifyEntityChanges (\<lambda>_ ks. ks) ex_base_revision ex_next_revision =
    [entity_change ChangeModified (ex_entity ''a'' ''1'') (ex_entity ''a'' ''9''),
     entity_change ChangeRemoved (ex_entity ''c'' ''3'') zero_entity,
     entity_change ChangeMoved (ex_entity ''b'' ''2'') (ex_entity ''d'' ''2'')]"
  by code_simp

theorem classification_complete_witness:
  "entity_change ChangeMoved (ex_entity ''b'' ''2'') (ex_entity ''d'' ''2'')
     \<in> classified (entities_by_key ex_base_revision) (entities_by_key ex_next_revision)"
  using classification_complete [OF insertion_order.map_iteration_axioms, of ex_base_revision ex_next_revision]
  unfolding ex_classification by auto

lemma classification_deterministic_example:
  "ClassifyEntityChanges (\<lambda>_ ks. ks) ex_base_revision ex_next_revision
     = ClassifyEntityChanges (\<lambda>_ ks. rev ks) ex_base_revision ex_next_revision"
  by (rule classification_deterministic [OF insertion_order.map_iteration_axioms
      reverse_order.map_iteration_axioms])

lemma classification_unchanged_example:
  "ClassifyEntityChanges (\<lambda>_ ks. ks) ex_base_revision
     (rev (map (\<lambda>e. e\<lparr>ent_SourceSHA := ''next''\<rparr>) ex_base_revision)) = []"
  by (rule classification_unchanged [OF insertion_order.map_iteration_axioms])
    (auto simp: ex_base_revision_def ex_entity_def)

lemma ex_reconcile:
  "Reconcile (NewBindingReconciler ex_next_revision ''new'') ex_bound_note (ex_entity ''b'' ''2'')
     = (ex_bound_note\<lparr>note_Pending := True, note_BindingSourceSHA := ''new'', note_EntityKey := ''d''\<rparr>, True)"
  by code_simp

lemma reconcile_content_example:
  "note_Body (fst (Reconcile (NewBindingReconciler ex_next_revision ''new'') ex_bound_note (ex_entity ''b'' ''2''))) = ''b''"
  using reconcile_content [OF ex_reconcile] unfolding ex_reconcile by (simp add: ex_bound_note_def)

theorem reconcile_lineage_witness:
  "note_EntityKey ex_bound_note \<notin> ent_Key ` set ex_next_revision
   \<and> note_EntityKey (ex_bound_note\<lparr>note_Pending := True, note_BindingSourceSHA := ''new'',
       note_EntityKey := ''d''\<rparr>) = ''d''
   \<and> (\<exists>e \<in> set ex_next_revision. same_lineage e (ex_entity ''b'' ''2'') \<and> ent_Key e = ''d'')"
proof -
  have d: "distinct (map ent_Key ex_next_revision)" "ent_Key (ex_entity ''b'' ''2'') \<noteq> []"
    by (simp_all add: ex_next_revision_def ex_entity_def)
  have n: "note_EntityKey ex_bound_note \<notin> ent_Key ` set ex_next_revision"
    by (simp add: ex_bound_note_def ex_next_revision_def ex_entity_def)
  have "\<exists>!e. e \<in> set ex_next_revision \<and> same_lineage e (ex_entity ''b'' ''2'')"
    by (rule ex1I [of _ "ex_entity ''d'' ''2''"])
      (auto simp: ex_next_revision_def ex_entity_def same_lineage_def)
  with reconcile_lineage [OF ex_reconcile d] n show ?thesis by auto
qed

end
