(* ===== verification/Snapshot_Merge.thy ===== *)
theory Snapshot_Merge
  imports Domain_Normalize
begin

text \<open>
  The three-way merge of context snapshots (domain/merge.go).  The operations come first; then the
  abstract three-way rule and the lemma that the planner implements it for every iteration order of
  the maps it builds.
\<close>

subsection \<open>The planner\<close>

definition sameSnapshotProvenance ::
  "ContextSnapshotProvenance list \<Rightarrow> ContextSnapshotProvenance list \<Rightarrow> bool" where
  "sameSnapshotProvenance left right \<longleftrightarrow>
     length left = length right \<and> list_all (\<lambda>i. left ! i = right ! i) [0..<length left]"

definition validateMergeSnapshots :: "SnapshotMergeInput \<Rightarrow> unit result" where
  "validateMergeSnapshots input =
     (let b = smi_Base input; l = smi_Local input; r = smi_Remote input
      in if \<not> IsContextSnapshotSchema (obj_SchemaVersion b) \<or> \<not> IsContextSnapshotSchema (obj_SchemaVersion l)
            \<or> \<not> IsContextSnapshotSchema (obj_SchemaVersion r) then Inl CodeValidation
         else if obj_RepositoryID b \<noteq> obj_RepositoryID l \<or> obj_RepositoryID b \<noteq> obj_RepositoryID r
            \<or> obj_RefName b \<noteq> obj_RefName l \<or> obj_RefName b \<noteq> obj_RefName r
            \<or> obj_SourceSHA b \<noteq> obj_SourceSHA l \<or> obj_SourceSHA b \<noteq> obj_SourceSHA r
            \<or> \<not> sameSnapshotProvenance (obj_Provenance b) (obj_Provenance l)
            \<or> \<not> sameSnapshotProvenance (obj_Provenance b) (obj_Provenance r) then Inl CodeValidation
         else Inr ())"

definition mapping_matches_note :: "ContextRevisionMapping \<Rightarrow> Note \<Rightarrow> bool" where
  "mapping_matches_note mapping note \<longleftrightarrow>
     map_RevisionID mapping = note_RevisionID note \<and> map_EntityKey mapping = note_EntityKey note
     \<and> map_BindingState mapping = note_BindingState note
     \<and> map_BindingSourceSHA mapping = note_BindingSourceSHA note
     \<and> map_ReviewReason mapping = note_ReviewReason note"

definition snapshotMergeRecords :: "ContextObject \<Rightarrow> SnapshotMergeRecord gomap result" where
  "snapshotMergeRecords snapshot =
     (if length (elems (obj_Notes snapshot)) \<noteq> length (obj_RevisionMappings snapshot) then Inl CodeValidation
      else and_then
        (range_loop (\<lambda>mappings mapping.
           if map_NoteID mapping = [] \<or> map_RevisionID mapping = [] then Inl CodeValidation
           else if map_of mappings (map_NoteID mapping) \<noteq> None then Inl CodeValidation
           else Inr (map_put (map_NoteID mapping) mapping mappings))
          [] (obj_RevisionMappings snapshot))
        (\<lambda>mappings. range_loop (\<lambda>records note.
           if (case map_of mappings (note_ID note) of None \<Rightarrow> True
               | Some mapping \<Rightarrow> \<not> mapping_matches_note mapping note) then Inl CodeValidation
           else if map_of records (note_ID note) \<noteq> None then Inl CodeValidation
           else Inr (map_put (note_ID note)
             \<lparr>mrec_Note = note, mrec_Mapping = the (map_of mappings (note_ID note))\<rparr> records))
          [] (elems (obj_Notes snapshot))))"

definition mergeRecordsEqual :: "SnapshotMergeRecord option \<Rightarrow> SnapshotMergeRecord option \<Rightarrow> bool" where
  "mergeRecordsEqual left right \<longleftrightarrow>
     (left \<noteq> None) = (right \<noteq> None) \<and> (left = None \<or> the left = the right)"

definition append_found :: "SnapshotMergeRecord option \<Rightarrow> SnapshotMergePlan \<Rightarrow> SnapshotMergePlan" where
  "append_found found plan = (case found of None \<Rightarrow> plan
     | Some record \<Rightarrow> plan\<lparr>mplan_Records := mplan_Records plan @ [record]\<rparr>)"

definition merge_step :: "SnapshotMergeRecord gomap \<Rightarrow> SnapshotMergeRecord gomap \<Rightarrow>
    SnapshotMergeRecord gomap \<Rightarrow> SnapshotMergePlan \<Rightarrow> string \<Rightarrow> SnapshotMergePlan" where
  "merge_step base local remote plan identifier =
     (let b = map_of base identifier; l = map_of local identifier; r = map_of remote identifier
      in if mergeRecordsEqual l r then append_found l plan
         else if mergeRecordsEqual l b then append_found r plan
         else if mergeRecordsEqual r b then append_found l plan
         else plan\<lparr>mplan_Conflicts := mplan_Conflicts plan @
           [\<lparr>mconf_NoteID = identifier, mconf_Base = b, mconf_Local = l, mconf_Remote = r\<rparr>]\<rparr>)"

definition PlanSnapshotMerge :: "map_order \<Rightarrow> SnapshotMergeInput \<Rightarrow> SnapshotMergePlan result" where
  "PlanSnapshotMerge ord input =
     and_then (validateMergeSnapshots input) (\<lambda>_.
     and_then (snapshotMergeRecords (smi_Base input)) (\<lambda>base.
     and_then (snapshotMergeRecords (smi_Local input)) (\<lambda>local.
     and_then (snapshotMergeRecords (smi_Remote input)) (\<lambda>remote.
       let collect = \<lambda>i m ids. foldl (\<lambda>s (k, _). map_put k () s) ids (map_range ord i m);
           identifiers = collect 2 remote (collect 1 local (collect 0 base []));
           keys = sort (ord 3 (map_keys identifiers))
       in Inr (foldl (merge_step base local remote) \<lparr>mplan_Records = [], mplan_Conflicts = []\<rparr> keys)))))"

subsection \<open>The records of a snapshot\<close>

definition snapshot_wf :: "ContextObject \<Rightarrow> bool" where
  "snapshot_wf s \<longleftrightarrow>
     length (elems (obj_Notes s)) = length (obj_RevisionMappings s)
     \<and> list_all (\<lambda>m. map_NoteID m \<noteq> [] \<and> map_RevisionID m \<noteq> []) (obj_RevisionMappings s)
     \<and> distinct (map map_NoteID (obj_RevisionMappings s))
     \<and> distinct (map note_ID (elems (obj_Notes s)))
     \<and> list_all (\<lambda>n. list_ex (\<lambda>m. map_NoteID m = note_ID n \<and> mapping_matches_note m n)
          (obj_RevisionMappings s)) (elems (obj_Notes s))"

definition note_record :: "ContextObject \<Rightarrow> Note \<Rightarrow> SnapshotMergeRecord" where
  "note_record s n = \<lparr>mrec_Note = n,
     mrec_Mapping = the (map_of (map (\<lambda>m. (map_NoteID m, m)) (obj_RevisionMappings s)) (note_ID n))\<rparr>"

lemma map_of_index:
  "distinct (map k xs) \<Longrightarrow> map_of (map (\<lambda>x. (k x, x)) xs) i = Some y \<longleftrightarrow> y \<in> set xs \<and> k y = i"
  by (subst map_of_eq_Some_iff) (auto simp: comp_def)

lemma snapshotMergeRecords_eq:
  "snapshotMergeRecords s =
     (if snapshot_wf s then Inr (map (\<lambda>n. (note_ID n, note_record s n)) (elems (obj_Notes s)))
      else Inl CodeValidation)"
proof -
  let ?ms = "obj_RevisionMappings s" and ?ns = "elems (obj_Notes s)"
  let ?idx = "map (\<lambda>m. (map_NoteID m, m)) ?ms"
  let ?bad = "\<lambda>n. case map_of ?idx (note_ID n) of None \<Rightarrow> True | Some m \<Rightarrow> \<not> mapping_matches_note m n"
  have good: "\<not> ?bad n \<longleftrightarrow> list_ex (\<lambda>m. map_NoteID m = note_ID n \<and> mapping_matches_note m n) ?ms"
    if d: "distinct (map map_NoteID ?ms)" for n
  proof -
    have "\<not> ?bad n \<longleftrightarrow> (\<exists>m. map_of ?idx (note_ID n) = Some m \<and> mapping_matches_note m n)"
      by (simp split: option.split)
    then show ?thesis by (auto simp: map_of_index [OF d] list_ex_iff)
  qed
  have loop1: "range_loop (\<lambda>mappings mapping.
           if map_NoteID mapping = [] \<or> map_RevisionID mapping = [] then Inl CodeValidation
           else if map_of mappings (map_NoteID mapping) \<noteq> None then Inl CodeValidation
           else Inr (map_put (map_NoteID mapping) mapping mappings)) [] ?ms
      = (if list_all (\<lambda>m. map_NoteID m \<noteq> [] \<and> map_RevisionID m \<noteq> []) ?ms \<and> distinct (map map_NoteID ?ms)
         then Inr ?idx else Inl CodeValidation)"
    by (subst range_loop_index [where P = "\<lambda>m. map_NoteID m = [] \<or> map_RevisionID m = []"
          and k = map_NoteID and v = "\<lambda>m. m" and e = CodeValidation]) simp_all
  have loop2: "range_loop (\<lambda>records note.
           if ?bad note then Inl CodeValidation
           else if map_of records (note_ID note) \<noteq> None then Inl CodeValidation
           else Inr (map_put (note_ID note)
             \<lparr>mrec_Note = note, mrec_Mapping = the (map_of ?idx (note_ID note))\<rparr> records)) [] ?ns
      = (if list_all (\<lambda>n. \<not> ?bad n) ?ns \<and> distinct (map note_ID ?ns)
         then Inr (map (\<lambda>n. (note_ID n, note_record s n)) ?ns) else Inl CodeValidation)"
    by (subst range_loop_index [where P = ?bad and k = note_ID and e = CodeValidation
          and v = "note_record s"]) (simp_all add: note_record_def)
  show ?thesis
    unfolding snapshotMergeRecords_def loop1
    by (auto simp: snapshot_wf_def loop2 good list_all_iff simp del: range_loop.simps)
qed

definition record_at :: "ContextObject \<Rightarrow> string \<Rightarrow> SnapshotMergeRecord option" where
  "record_at s k = map_of (map (\<lambda>n. (note_ID n, note_record s n)) (elems (obj_Notes s))) k"

lemma record_at_Some:
  assumes "snapshot_wf s"
  shows "record_at s k = Some r \<longleftrightarrow> (\<exists>n \<in> set (elems (obj_Notes s)). note_ID n = k \<and> r = note_record s n)"
proof -
  have "distinct (map fst (map (\<lambda>n. (note_ID n, note_record s n)) (elems (obj_Notes s))))"
    using assms by (simp add: snapshot_wf_def comp_def)
  then show ?thesis unfolding record_at_def by (subst map_of_eq_Some_iff) auto
qed

lemma record_at_ID:
  "snapshot_wf s \<Longrightarrow> record_at s k = Some r \<Longrightarrow> note_ID (mrec_Note r) = k"
  by (auto simp: record_at_Some note_record_def)

lemma dom_record_at: "dom (record_at s) = note_ID ` set (elems (obj_Notes s))"
proof -
  have "record_at s = map_of (map (\<lambda>n. (note_ID n, note_record s n)) (elems (obj_Notes s)))"
    by (simp add: record_at_def fun_eq_iff)
  then show ?thesis by (simp add: dom_map_of_conv_image_fst image_image)
qed

lemma note_record_matches:
  assumes "snapshot_wf s" "n \<in> set (elems (obj_Notes s))"
  shows "mapping_matches_note (mrec_Mapping (note_record s n)) n
    \<and> map_NoteID (mrec_Mapping (note_record s n)) = note_ID n
    \<and> mrec_Mapping (note_record s n) \<in> set (obj_RevisionMappings s)"
proof -
  have d: "distinct (map map_NoteID (obj_RevisionMappings s))" using assms(1) by (simp add: snapshot_wf_def)
  from assms obtain m where m: "m \<in> set (obj_RevisionMappings s)" "map_NoteID m = note_ID n"
      "mapping_matches_note m n"
    by (auto simp: snapshot_wf_def list_all_iff list_ex_iff)
  then have "map_of (map (\<lambda>m. (map_NoteID m, m)) (obj_RevisionMappings s)) (note_ID n) = Some m"
    using map_of_index [OF d] by blast
  with m show ?thesis by (simp add: note_record_def)
qed

subsection \<open>The three-way rule\<close>

definition three_way :: "'r option \<Rightarrow> 'r option \<Rightarrow> 'r option \<Rightarrow> 'r option option" where
  "three_way b l r = (if l = r then Some l else if l = b then Some r else if r = b then Some l else None)"

definition settled :: "SnapshotMergeInput \<Rightarrow> string \<Rightarrow> SnapshotMergeRecord option option" where
  "settled inp k = three_way (record_at (smi_Base inp) k) (record_at (smi_Local inp) k) (record_at (smi_Remote inp) k)"

definition conflict_at :: "SnapshotMergeInput \<Rightarrow> string \<Rightarrow> SnapshotMergeConflict" where
  "conflict_at inp k = \<lparr>mconf_NoteID = k, mconf_Base = record_at (smi_Base inp) k,
     mconf_Local = record_at (smi_Local inp) k, mconf_Remote = record_at (smi_Remote inp) k\<rparr>"

definition merge_ids :: "SnapshotMergeInput \<Rightarrow> string set" where
  "merge_ids inp = dom (record_at (smi_Base inp)) \<union> dom (record_at (smi_Local inp))
     \<union> dom (record_at (smi_Remote inp))"

definition merge_ok :: "SnapshotMergeInput \<Rightarrow> bool" where
  "merge_ok inp \<longleftrightarrow> validateMergeSnapshots inp = Inr () \<and> snapshot_wf (smi_Base inp)
     \<and> snapshot_wf (smi_Local inp) \<and> snapshot_wf (smi_Remote inp)"

definition merge_result :: "SnapshotMergeInput \<Rightarrow> SnapshotMergePlan" where
  "merge_result inp = (let ks = sorted_list_of_set (merge_ids inp) in
     \<lparr>mplan_Records = List.map_filter (\<lambda>k. case settled inp k of Some r \<Rightarrow> r | None \<Rightarrow> None) ks,
      mplan_Conflicts = map (conflict_at inp) (filter (\<lambda>k. settled inp k = None) ks)\<rparr>)"

lemma three_way_swap: "three_way b r l = three_way b l r"
  by (auto simp: three_way_def)

lemma mergeRecordsEqual_iff: "mergeRecordsEqual l r \<longleftrightarrow> l = r"
  by (cases l; cases r) (auto simp: mergeRecordsEqual_def)

lemma validateMergeSnapshots_code:
  "validateMergeSnapshots inp \<noteq> Inr () \<Longrightarrow> validateMergeSnapshots inp = Inl CodeValidation"
  by (auto simp: validateMergeSnapshots_def Let_def split: if_splits)

lemma merge_fold:
  fixes bm lm rm :: "SnapshotMergeRecord gomap"
  defines "w \<equiv> \<lambda>k. three_way (map_of bm k) (map_of lm k) (map_of rm k)"
  shows "foldl (merge_step bm lm rm) plan ks =
    \<lparr>mplan_Records = mplan_Records plan @ List.map_filter (\<lambda>k. case w k of Some r \<Rightarrow> r | None \<Rightarrow> None) ks,
     mplan_Conflicts = mplan_Conflicts plan @ map (\<lambda>k. \<lparr>mconf_NoteID = k, mconf_Base = map_of bm k,
        mconf_Local = map_of lm k, mconf_Remote = map_of rm k\<rparr>) (filter (\<lambda>k. w k = None) ks)\<rparr>"
proof (induction ks arbitrary: plan)
  case Nil
  show ?case by (simp add: List.map_filter_simps)
next
  case (Cons k ks)
  have "merge_step bm lm rm plan k =
    \<lparr>mplan_Records = mplan_Records plan @ (case w k of Some (Some r) \<Rightarrow> [r] | _ \<Rightarrow> []),
     mplan_Conflicts = mplan_Conflicts plan @ (if w k = None then [\<lparr>mconf_NoteID = k,
        mconf_Base = map_of bm k, mconf_Local = map_of lm k, mconf_Remote = map_of rm k\<rparr>] else [])\<rparr>"
    unfolding merge_step_def w_def three_way_def mergeRecordsEqual_iff Let_def append_found_def
    by (cases plan) (auto split: option.splits)
  then show ?case
    by (auto simp: Cons.IH List.map_filter_simps split: option.split)
qed

context map_iteration
begin

lemma merge_keys:
  assumes "wf_map bm" "wf_map lm" "wf_map rm"
  shows "sort (ord j (map_keys
      (foldl (\<lambda>s (k, _). map_put k () s)
        (foldl (\<lambda>s (k, _). map_put k () s)
          (foldl (\<lambda>s (k, _). map_put k () s) [] (map_range ord 0 bm)) (map_range ord 1 lm))
        (map_range ord 2 rm))))
    = sorted_list_of_set (dom (map_of bm) \<union> dom (map_of lm) \<union> dom (map_of rm))"
proof -
  note c0 = collect_keys [OF wf_map_Nil, of 0 bm]
  note c1 = collect_keys [OF conjunct2 [OF c0], of 1 lm]
  note c2 = collect_keys [OF conjunct2 [OF c1], of 2 rm]
  show ?thesis using sort_ord_keys [OF conjunct2 [OF c2]] c0 c1 c2 by simp
qed

lemma PlanSnapshotMerge_eq:
  "PlanSnapshotMerge ord inp = (if merge_ok inp then Inr (merge_result inp) else Inl CodeValidation)"
proof -
  have wf: "wf_map (map (\<lambda>n. (note_ID n, note_record s n)) (elems (obj_Notes s)))" if "snapshot_wf s" for s
    using that by (simp add: wf_map_def map_keys_def snapshot_wf_def comp_def)
  show ?thesis
  proof (cases "merge_ok inp")
    case True
    then have w: "snapshot_wf (smi_Base inp)" "snapshot_wf (smi_Local inp)" "snapshot_wf (smi_Remote inp)"
      by (simp_all add: merge_ok_def)
    show ?thesis
      using True merge_keys [OF wf [OF w(1)] wf [OF w(2)] wf [OF w(3)], of 3]
      by (simp add: PlanSnapshotMerge_def merge_ok_def snapshotMergeRecords_eq merge_fold
          merge_result_def settled_def conflict_at_def merge_ids_def record_at_def [abs_def] Let_def)
  next
    case False
    show ?thesis
    proof (cases "validateMergeSnapshots inp = Inr ()")
      case valid: True
      with False have "\<not> (snapshot_wf (smi_Base inp) \<and> snapshot_wf (smi_Local inp) \<and> snapshot_wf (smi_Remote inp))"
        by (simp add: merge_ok_def)
      with valid False show ?thesis
        by (auto simp: PlanSnapshotMerge_def snapshotMergeRecords_eq)
    next
      case invalid: False
      from validateMergeSnapshots_code [OF this] False show ?thesis by (simp add: PlanSnapshotMerge_def)
    qed
  qed
qed

end


subsection \<open>What a merge plan contains\<close>

lemma finite_merge_ids: "finite (merge_ids inp)"
  by (simp add: merge_ids_def dom_record_at)

lemma settled_outside: "k \<notin> merge_ids inp \<Longrightarrow> settled inp k = Some None"
  by (auto simp: merge_ids_def settled_def three_way_def domIff)

lemma settled_id:
  assumes "merge_ok inp" "settled inp k = Some (Some r)"
  shows "note_ID (mrec_Note r) = k"
  using assms record_at_ID unfolding settled_def three_way_def merge_ok_def
  by (metis option.inject option.distinct(1))

lemma merge_result_records:
  "r \<in> set (mplan_Records (merge_result inp)) \<longleftrightarrow> (\<exists>k. settled inp k = Some (Some r))"
proof -
  have "r \<in> set (mplan_Records (merge_result inp)) \<longleftrightarrow> (\<exists>k \<in> merge_ids inp. settled inp k = Some (Some r))"
    by (force simp: merge_result_def Let_def List.map_filter_def finite_merge_ids split: option.splits)
  then show ?thesis using settled_outside by fastforce
qed

lemma merge_result_conflicts:
  "c \<in> set (mplan_Conflicts (merge_result inp)) \<longleftrightarrow>
     settled inp (mconf_NoteID c) = None \<and> c = conflict_at inp (mconf_NoteID c)"
proof -
  have "c \<in> set (mplan_Conflicts (merge_result inp)) \<longleftrightarrow>
     (\<exists>k \<in> merge_ids inp. settled inp k = None \<and> c = conflict_at inp k)"
    by (auto simp: merge_result_def Let_def finite_merge_ids)
  then show ?thesis using settled_outside by (fastforce simp: conflict_at_def)
qed

lemma merge_result_conflict_ids:
  "map mconf_NoteID (mplan_Conflicts (merge_result inp))
     = filter (\<lambda>k. settled inp k = None) (sorted_list_of_set (merge_ids inp))"
  by (simp add: merge_result_def Let_def comp_def conflict_at_def)

lemma map_filter_ids:
  assumes "\<And>k r. k \<in> set ks \<Longrightarrow> f k = Some r \<Longrightarrow> g r = k"
  shows "map g (List.map_filter f ks) = filter (\<lambda>k. f k \<noteq> None) ks"
  using assms by (induction ks) (auto simp: List.map_filter_simps split: option.splits)

lemma merge_result_record_ids:
  assumes "merge_ok inp"
  shows "map (\<lambda>r. note_ID (mrec_Note r)) (mplan_Records (merge_result inp))
     = filter (\<lambda>k. \<exists>r. settled inp k = Some (Some r)) (sorted_list_of_set (merge_ids inp))"
proof -
  let ?f = "\<lambda>k. case settled inp k of Some r \<Rightarrow> r | None \<Rightarrow> None"
  have "map (\<lambda>r. note_ID (mrec_Note r)) (List.map_filter ?f ks) = filter (\<lambda>k. ?f k \<noteq> None) ks" for ks
    by (rule map_filter_ids) (auto split: option.splits intro: settled_id [OF assms])
  moreover have "(\<lambda>k. ?f k \<noteq> None) = (\<lambda>k. \<exists>r. settled inp k = Some (Some r))"
    by (auto split: option.splits)
  ultimately show ?thesis by (simp add: merge_result_def Let_def)
qed

lemma strict_filter: "sorted_wrt (<) (filter P (sorted_list_of_set (S :: string set)))"
  by (simp add: sorted_wrt_filter)

lemmas merge_plan_facts = merge_result_records merge_result_conflicts merge_result_record_ids
  merge_result_conflict_ids strict_filter

definition swap_input :: "SnapshotMergeInput \<Rightarrow> SnapshotMergeInput" where
  "swap_input inp = inp\<lparr>smi_Local := smi_Remote inp, smi_Remote := smi_Local inp\<rparr>"

definition swap_plan :: "SnapshotMergePlan \<Rightarrow> SnapshotMergePlan" where
  "swap_plan plan = plan\<lparr>mplan_Conflicts :=
     map (\<lambda>c. c\<lparr>mconf_Local := mconf_Remote c, mconf_Remote := mconf_Local c\<rparr>) (mplan_Conflicts plan)\<rparr>"

lemma settled_swap: "settled (swap_input inp) k = settled inp k"
  by (simp add: settled_def swap_input_def three_way_swap)

lemma merge_ok_swap: "merge_ok (swap_input inp) = merge_ok inp"
proof -
  have "validateMergeSnapshots (swap_input inp) = validateMergeSnapshots inp"
    by (simp add: validateMergeSnapshots_def swap_input_def Let_def conj_disj_distribL disj_ac conj_ac
        cong: conj_cong disj_cong)
  then show ?thesis by (auto simp: merge_ok_def swap_input_def)
qed

lemma merge_result_swap: "merge_result (swap_input inp) = swap_plan (merge_result inp)"
proof -
  have "merge_ids (swap_input inp) = merge_ids inp" by (auto simp: merge_ids_def swap_input_def)
  moreover have "conflict_at (swap_input inp) k = (conflict_at inp k)
      \<lparr>mconf_Local := mconf_Remote (conflict_at inp k), mconf_Remote := mconf_Local (conflict_at inp k)\<rparr>" for k
    by (simp add: conflict_at_def swap_input_def)
  ultimately show ?thesis
    by (simp add: merge_result_def swap_plan_def Let_def settled_swap comp_def)
qed

lemma settled_source:
  assumes "settled inp k = Some (Some r)"
  shows "record_at (smi_Local inp) k = Some r \<or> record_at (smi_Remote inp) k = Some r"
  using assms by (auto simp: settled_def three_way_def split: if_splits)

lemma record_at_matches:
  assumes "snapshot_wf s" "record_at s k = Some r"
  shows "mapping_matches_note (mrec_Mapping r) (mrec_Note r) \<and> map_NoteID (mrec_Mapping r) = k
    \<and> note_ID (mrec_Note r) = k \<and> k \<noteq> [] \<and> map_RevisionID (mrec_Mapping r) \<noteq> []"
proof -
  from assms obtain n where n: "n \<in> set (elems (obj_Notes s))" "note_ID n = k" "r = note_record s n"
    by (auto simp: record_at_Some)
  with note_record_matches [OF assms(1) n(1)] assms(1) show ?thesis
    by (auto simp: snapshot_wf_def list_all_iff note_record_def)
qed

subsection \<open>Properties\<close>

text \<open>C1: The merge follows the three-way rule: a note whose two sides agree, or of which one side kept
  the base, is settled with the other side's version (or dropped with its deletion), every other note is a
  conflict that carries all three versions; records and conflicts are listed in the order of
  note IDs and no note is in both.\<close>

theorem merge_three_way:
  assumes "map_iteration ord" "PlanSnapshotMerge ord inp = Inr plan"
  shows "(\<forall>r. r \<in> set (mplan_Records plan) \<longleftrightarrow> (\<exists>k. settled inp k = Some (Some r)))
    \<and> (\<forall>c. c \<in> set (mplan_Conflicts plan) \<longleftrightarrow>
         settled inp (mconf_NoteID c) = None \<and> c = conflict_at inp (mconf_NoteID c))
    \<and> sorted_wrt (<) (map (\<lambda>r. note_ID (mrec_Note r)) (mplan_Records plan))
    \<and> sorted_wrt (<) (map mconf_NoteID (mplan_Conflicts plan))
    \<and> (\<forall>r \<in> set (mplan_Records plan). \<forall>c \<in> set (mplan_Conflicts plan). note_ID (mrec_Note r) \<noteq> mconf_NoteID c)"
proof -
  from assms(2) have ok: "merge_ok inp" and p: "plan = merge_result inp"
    by (simp_all add: map_iteration.PlanSnapshotMerge_eq [OF assms(1)] split: if_splits)
  have "note_ID (mrec_Note r) \<noteq> mconf_NoteID c"
    if "r \<in> set (mplan_Records plan)" "c \<in> set (mplan_Conflicts plan)" for r c
    using that settled_id [OF ok] by (auto simp: p merge_plan_facts)
  then show ?thesis by (simp add: p merge_plan_facts ok)
qed

text \<open>The plan does not depend on the order in which the runtime iterates over its maps.\<close>

lemma merge_order_irrelevant:
  assumes "map_iteration ord" "map_iteration ord'"
  shows "PlanSnapshotMerge ord inp = PlanSnapshotMerge ord' inp"
  by (simp only: map_iteration.PlanSnapshotMerge_eq [OF assms(1)] map_iteration.PlanSnapshotMerge_eq [OF assms(2)])

text \<open>C32: Exchanging the two sides changes nothing but the side labels of the conflicts.\<close>

theorem merge_symmetric:
  assumes "map_iteration ord"
  shows "PlanSnapshotMerge ord (swap_input inp) = map_sum id swap_plan (PlanSnapshotMerge ord inp)"
  by (simp add: map_iteration.PlanSnapshotMerge_eq [OF assms] merge_ok_swap merge_result_swap)

text \<open>When one side is the base, the merge is a fast-forward: no conflict, and the records are
  the other side's notes, in the order of their IDs.\<close>

lemma merge_fast_forward:
  assumes "map_iteration ord" "PlanSnapshotMerge ord inp = Inr plan" "smi_Local inp = smi_Base inp"
  shows "mplan_Conflicts plan = []
    \<and> map mrec_Note (mplan_Records plan) = sort_key note_ID (elems (obj_Notes (smi_Remote inp)))"
proof -
  let ?R = "smi_Remote inp" and ?rs = "mplan_Records plan"
  from assms(1,2) have ok: "merge_ok inp" and p: "plan = merge_result inp"
    by (simp_all add: map_iteration.PlanSnapshotMerge_eq [OF assms(1)] split: if_splits)
  have s: "settled inp k = Some (record_at ?R k)" for k
    using assms(3) by (simp add: settled_def three_way_def)
  have wf: "snapshot_wf ?R" using ok by (simp add: merge_ok_def)
  have ids: "map note_ID (map mrec_Note ?rs) = filter (\<lambda>k. \<exists>r. settled inp k = Some (Some r)) (sorted_list_of_set (merge_ids inp))"
    unfolding p merge_result_record_ids [OF ok, symmetric] by (simp add: comp_def)
  have sorted: "sorted_wrt (<) (map note_ID (map mrec_Note ?rs))" unfolding ids by (rule strict_filter)
  have set: "set (map mrec_Note ?rs) = set (elems (obj_Notes ?R))"
  proof -
    have mem: "r \<in> set ?rs \<longleftrightarrow> (\<exists>n \<in> set (elems (obj_Notes ?R)). r = note_record ?R n)" for r
      by (auto simp: p merge_result_records s record_at_Some [OF wf])
    have "mrec_Note (note_record ?R n) = n" for n by (simp add: note_record_def)
    moreover have "set ?rs = note_record ?R ` set (elems (obj_Notes ?R))" by (auto simp: mem)
    ultimately show ?thesis by (simp add: image_image)
  qed
  from sorted have "distinct (map note_ID (map mrec_Note ?rs))" "sorted (map note_ID (map mrec_Note ?rs))"
    by (auto simp: strict_sorted_iff)
  moreover have "distinct (map note_ID (elems (obj_Notes ?R)))" using wf by (simp add: snapshot_wf_def)
  ultimately have "mset (map mrec_Note ?rs) = mset (elems (obj_Notes ?R))"
    using set by (metis distinct_map set_eq_iff_mset_eq_distinct)
  moreover have "inj_on note_ID (set (elems (obj_Notes ?R)))"
    using \<open>distinct (map note_ID (elems (obj_Notes ?R)))\<close> by (simp add: distinct_map)
  ultimately have "sort_key note_ID (elems (obj_Notes ?R)) = map mrec_Note ?rs"
    using \<open>sorted (map note_ID (map mrec_Note ?rs))\<close> by (intro sort_key_inj_key_eq) simp_all
  moreover have "mplan_Conflicts plan = []"
    by (simp add: p merge_result_def Let_def s)
  ultimately show ?thesis by simp
qed

text \<open>C33: The records of a plan keep notes and revision mappings together: they are the notes and mappings of
  a well-formed snapshot again, and each comes unchanged from the local or the remote side.\<close>

theorem merge_records_wf:
  assumes "map_iteration ord" "PlanSnapshotMerge ord inp = Inr plan"
  shows "snapshot_wf (s\<lparr>obj_Notes := Some (map mrec_Note (mplan_Records plan)),
      obj_RevisionMappings := map mrec_Mapping (mplan_Records plan)\<rparr>)
    \<and> (\<forall>r \<in> set (mplan_Records plan). record_at (smi_Local inp) (note_ID (mrec_Note r)) = Some r
         \<or> record_at (smi_Remote inp) (note_ID (mrec_Note r)) = Some r)"
proof -
  from assms(2) have ok: "merge_ok inp" and p: "plan = merge_result inp"
    by (simp_all add: map_iteration.PlanSnapshotMerge_eq [OF assms(1)] split: if_splits)
  have src: "record_at (smi_Local inp) (note_ID (mrec_Note r)) = Some r
         \<or> record_at (smi_Remote inp) (note_ID (mrec_Note r)) = Some r" if "r \<in> set (mplan_Records plan)" for r
    using that settled_source settled_id [OF ok] by (fastforce simp: p merge_result_records)
  have m: "mapping_matches_note (mrec_Mapping r) (mrec_Note r) \<and> map_NoteID (mrec_Mapping r) = note_ID (mrec_Note r)
    \<and> note_ID (mrec_Note r) \<noteq> [] \<and> map_RevisionID (mrec_Mapping r) \<noteq> []" if "r \<in> set (mplan_Records plan)" for r
    using src [OF that] record_at_matches ok by (auto simp: merge_ok_def)
  have "distinct (map (\<lambda>r. note_ID (mrec_Note r)) (mplan_Records plan))"
    unfolding p merge_result_record_ids [OF ok] by simp
  moreover from this m have "distinct (map (\<lambda>r. map_NoteID (mrec_Mapping r)) (mplan_Records plan))"
    by (metis (no_types, lifting) map_cong)
  ultimately show ?thesis
    using src m by (auto simp: snapshot_wf_def list_all_iff list_ex_iff comp_def)
qed

subsection \<open>A concrete merge\<close>

definition ex_merge_note :: "string \<Rightarrow> string \<Rightarrow> Note" where
  "ex_merge_note i body = \<lparr>note_ID = i, note_RevisionID = i @ body, note_SupersedesRevisionID = [],
     note_EntityKey = ''e'', note_Kind = NoteIntent, note_Body = body, note_Author = ''a'',
     note_Origin = ''o'', note_CreatedAt = time_Unix 0, note_BindingState = NoteBindingActive,
     note_BindingSourceSHA = ''s'', note_ReviewReason = [], note_Topics = None, note_Pending = False\<rparr>"

definition ex_snapshot :: "Note list \<Rightarrow> ContextObject" where
  "ex_snapshot ns = \<lparr>obj_SchemaVersion = 3, obj_RepositoryID = ''repo'', obj_RefName = ''main'',
     obj_ParentID = [], obj_ParentIDs = [], obj_LegacyParentID = [], obj_SourceSHA = ''s'',
     obj_Message = ''m'', obj_Author = ''a'', obj_CreatedAt = time_Unix 0, obj_Provenance = [],
     obj_Entities = None, obj_Notes = Some ns,
     obj_RevisionMappings = map (\<lambda>n. \<lparr>map_EntityKey = note_EntityKey n, map_NoteID = note_ID n,
       map_RevisionID = note_RevisionID n, map_BindingState = note_BindingState n,
       map_BindingSourceSHA = note_BindingSourceSHA n, map_ReviewReason = note_ReviewReason n\<rparr>) ns,
     obj_LandingReceipts = []\<rparr>"

text \<open>Base: notes a and b.  The local side edits a and drops b, the remote side edits both and adds c.\<close>

definition ex_merge :: SnapshotMergeInput where
  "ex_merge = \<lparr>smi_Base = ex_snapshot [ex_merge_note ''a'' ''0'', ex_merge_note ''b'' ''0''],
     smi_Local = ex_snapshot [ex_merge_note ''b'' ''1'', ex_merge_note ''a'' ''0''],
     smi_Remote = ex_snapshot [ex_merge_note ''c'' ''0'', ex_merge_note ''b'' ''2'', ex_merge_note ''a'' ''3'']\<rparr>"

definition ex_forward :: SnapshotMergeInput where
  "ex_forward = ex_merge\<lparr>smi_Local := smi_Base ex_merge\<rparr>"

lemma ex_merge_run:
  "\<exists>plan. PlanSnapshotMerge (\<lambda>_ ks. ks) ex_merge = Inr plan
     \<and> map mrec_Note (mplan_Records plan) = [ex_merge_note ''a'' ''3'', ex_merge_note ''c'' ''0'']
     \<and> map mconf_NoteID (mplan_Conflicts plan) = [''b'']"
proof -
  have "case PlanSnapshotMerge (\<lambda>_ ks. ks) ex_merge of Inl _ \<Rightarrow> False
    | Inr plan \<Rightarrow> map mrec_Note (mplan_Records plan) = [ex_merge_note ''a'' ''3'', ex_merge_note ''c'' ''0'']
     \<and> map mconf_NoteID (mplan_Conflicts plan) = [''b'']" by code_simp
  then show ?thesis by (auto split: sum.splits)
qed

lemma ex_forward_run: "\<exists>plan. PlanSnapshotMerge (\<lambda>_ ks. ks) ex_forward = Inr plan"
proof -
  have "case PlanSnapshotMerge (\<lambda>_ ks. ks) ex_forward of Inl _ \<Rightarrow> False | Inr plan \<Rightarrow> True" by code_simp
  then show ?thesis by (auto split: sum.splits)
qed

theorem merge_three_way_witness:
  "\<exists>plan. PlanSnapshotMerge (\<lambda>_ ks. ks) ex_merge = Inr plan
     \<and> settled ex_merge ''b'' = None \<and> sorted_wrt (<) (map mconf_NoteID (mplan_Conflicts plan))"
proof -
  from ex_merge_run obtain plan where p: "PlanSnapshotMerge (\<lambda>_ ks. ks) ex_merge = Inr plan"
    "map mconf_NoteID (mplan_Conflicts plan) = [''b'']" by (elim exE conjE)
  from p(2) obtain c where c: "c \<in> set (mplan_Conflicts plan)" "mconf_NoteID c = ''b''"
    by (cases "mplan_Conflicts plan") auto
  note m = merge_three_way [OF insertion_order.map_iteration_axioms p(1)]
  from m c(1) have "settled ex_merge (mconf_NoteID c) = None" by simp
  then have "settled ex_merge ''b'' = None" by (simp only: c(2))
  with m p(1) show ?thesis by (intro exI [of _ plan] conjI) simp_all
qed

lemma merge_order_irrelevant_example:
  "PlanSnapshotMerge (\<lambda>_ ks. ks) ex_merge = PlanSnapshotMerge (\<lambda>_ ks. rev ks) ex_merge"
  by (rule merge_order_irrelevant [OF insertion_order.map_iteration_axioms reverse_order.map_iteration_axioms])

theorem merge_symmetric_witness:
  "PlanSnapshotMerge (\<lambda>_ ks. ks) (swap_input ex_merge)
     = map_sum id swap_plan (PlanSnapshotMerge (\<lambda>_ ks. ks) ex_merge)"
  by (rule merge_symmetric [OF insertion_order.map_iteration_axioms])

lemma merge_fast_forward_example:
  "\<exists>plan. PlanSnapshotMerge (\<lambda>_ ks. ks) ex_forward = Inr plan \<and> mplan_Conflicts plan = []
     \<and> map mrec_Note (mplan_Records plan) = sort_key note_ID (elems (obj_Notes (smi_Remote ex_forward)))"
proof -
  from ex_forward_run obtain plan where p: "PlanSnapshotMerge (\<lambda>_ ks. ks) ex_forward = Inr plan" by blast
  have "smi_Local ex_forward = smi_Base ex_forward" by (simp add: ex_forward_def)
  from merge_fast_forward [OF insertion_order.map_iteration_axioms p this] p show ?thesis by blast
qed

theorem merge_records_wf_witness:
  "\<exists>plan. PlanSnapshotMerge (\<lambda>_ ks. ks) ex_merge = Inr plan
     \<and> snapshot_wf ((smi_Base ex_merge)\<lparr>obj_Notes := Some (map mrec_Note (mplan_Records plan)),
          obj_RevisionMappings := map mrec_Mapping (mplan_Records plan)\<rparr>)"
proof -
  from ex_merge_run obtain plan where p: "PlanSnapshotMerge (\<lambda>_ ks. ks) ex_merge = Inr plan" by (elim exE conjE)
  from merge_records_wf [OF insertion_order.map_iteration_axioms p] p show ?thesis by blast
qed

end
