(* ===== verification/Landing_Plan.thy ===== *)
theory Landing_Plan
  imports Landing_Bindings Snapshot_Merge
begin

text \<open>
  Landing plans (second half of domain/landing_plan.go and domain/landing_recovery.go): validating
  the evidence of a merged change, deciding what becomes of every canonical note and every candidate
  record, resolving conflicts, and building the snapshot a landing publishes.  This theory holds the
  operations; their properties are in \<open>Landing_Facts\<close>.
\<close>

subsection \<open>Evidence\<close>

definition landing_entity_ok :: "string \<Rightarrow> string \<Rightarrow> Entity \<Rightarrow> bool" where
  "landing_entity_ok sourceSHA previousKey e \<longleftrightarrow>
     \<not> (ent_Language e = [] \<or> ent_Key e = [] \<or> ent_Path e = [] \<or> ent_SourceSHA e \<noteq> sourceSHA
        \<or> \<not> validCandidateSHA (ent_StructuralHash e) \<or> previousKey \<noteq> [] \<and> ent_Key e \<le> previousKey)"

definition normalizeLandingEntities :: "Entity list \<Rightarrow> string \<Rightarrow> Entity list result" where
  "normalizeLandingEntities input sourceSHA =
     (let entities = sort_key ent_Key input
      in and_then
        (range_loop (\<lambda>previousKey e. if landing_entity_ok sourceSHA previousKey e then Inr (ent_Key e)
           else Inl CodeValidation) [] entities)
        (\<lambda>_. Inr entities))"

definition landing_provenance_ok :: "string \<Rightarrow> string \<Rightarrow> ContextSnapshotProvenance \<Rightarrow> bool" where
  "landing_provenance_ok sourceSHA previousLanguage p \<longleftrightarrow>
     \<not> (prov_Language p = [] \<or> prov_IndexerID p = [] \<or> prov_IndexerVersion p = []
        \<or> prov_SourceSHA p \<noteq> sourceSHA \<or> previousLanguage \<noteq> [] \<and> prov_Language p \<le> previousLanguage)"

definition normalizeLandingProvenance ::
  "ContextSnapshotProvenance list \<Rightarrow> string \<Rightarrow> ContextSnapshotProvenance list result" where
  "normalizeLandingProvenance input sourceSHA =
     (let provenance = sort_key prov_Language input
      in and_then
        (range_loop (\<lambda>previousLanguage p. if landing_provenance_ok sourceSHA previousLanguage p
           then Inr (prov_Language p) else Inl CodeValidation) [] provenance)
        (\<lambda>_. Inr provenance))"

definition zero_change :: ChangeKey where
  "zero_change = \<lparr>ck_Provider = [], ck_Repository = [], ck_Number = 0\<rparr>"

definition zero_delta :: CandidateContextDelta where
  "zero_delta = \<lparr>delta_SchemaVersion = 0, delta_Change = zero_change, delta_BaseSourceSHA = [],
     delta_HeadSourceSHA = [], delta_BaseContextCommitID = [], delta_Records = []\<rparr>"

definition fingerprint_ok :: "LandingPlanInput \<Rightarrow> bool" where
  "fingerprint_ok input =
     (let fp = lpi_Fingerprint input
      in \<not> (time_IsZero (lpi_CreatedAt input) \<or> TrimSpace (fp_RepositoryID fp) = []
            \<or> TrimSpace (fp_TargetRef fp) = [] \<or> fp_BaseContextVersion fp < 0
            \<or> \<not> validCandidateSHA (fp_BaseSourceSHA fp) \<or> \<not> validCandidateSHA (fp_HeadSourceSHA fp)))"

definition canonical_matches :: "LandingPlanInput \<Rightarrow> bool" where
  "canonical_matches input =
     (let fp = lpi_Fingerprint input; obj = lpi_Canonical input
      in \<not> (\<not> IsContextSnapshotSchema (obj_SchemaVersion obj) \<or> obj_RepositoryID obj \<noteq> fp_RepositoryID fp
            \<or> obj_RefName obj \<noteq> fp_TargetRef fp \<or> obj_SourceSHA obj \<noteq> fp_BaseSourceSHA fp))"

definition candidate_of_input ::
  "(string \<Rightarrow> string) \<Rightarrow> LandingPlanInput \<Rightarrow> CandidateContextDelta result" where
  "candidate_of_input b3 input =
     (let fp = lpi_Fingerprint input; raw = lpi_Candidate input
      in if delta_SchemaVersion raw = 0 \<and> delta_Records raw = [] then
           (if fp_CandidateDigest fp \<noteq> [] then Inl CodeValidation else Inr zero_delta)
         else and_then (NormalizeCandidateContextDelta b3 raw) (\<lambda>candidate.
           let sourceMismatch = (lpi_Kind input = ContextPlanPreview
                 \<and> (delta_BaseSourceSHA candidate \<noteq> fp_BaseSourceSHA fp
                    \<or> delta_HeadSourceSHA candidate \<noteq> fp_HeadSourceSHA fp))
           in if CandidateContextDigest b3 candidate \<noteq> Inr (fp_CandidateDigest fp)
                \<or> delta_Change candidate \<noteq> fp_Change fp \<or> sourceMismatch
                \<or> delta_BaseContextCommitID candidate \<noteq> fp_BaseContextCommitID fp
              then Inl CodeValidation else Inr candidate))"

text \<open>The provenance of an input with incomplete coverage may be invalid; the planner then sees none.\<close>

definition validateLandingPlanInput :: "(string \<Rightarrow> string) \<Rightarrow> LandingPlanInput \<Rightarrow>
    (ContextObject \<times> Entity list \<times> ContextSnapshotProvenance list \<times> CandidateContextDelta) result" where
  "validateLandingPlanInput b3 input =
     (let fp = lpi_Fingerprint input
      in if lpi_Kind input \<noteq> ContextPlanPreview \<and> lpi_Kind input \<noteq> ContextPlanFinal then Inl CodeValidation
         else if \<not> fingerprint_ok input then Inl CodeValidation
         else if normalizeChangeKey (fp_Change fp) \<noteq> Inr (fp_Change fp) then Inl CodeValidation
         else if \<not> canonical_matches input then Inl CodeValidation
         else if fp_BaseContextCommitID fp \<noteq> []
           \<and> NormalizeContextCommitID (fp_BaseContextCommitID fp) \<noteq> Inr (fp_BaseContextCommitID fp)
           then Inl CodeValidation
         else (case normalizeLandingEntities (lpi_TargetEntities input) (fp_HeadSourceSHA fp) of
             Inl _ \<Rightarrow> Inl CodeValidation
           | Inr entities \<Rightarrow>
               if DigestSourceEvidence b3 entities \<noteq> fp_SourceEvidenceDigest fp then Inl CodeValidation
               else (case normalizeLandingProvenance (lpi_TargetProvenance input) (fp_HeadSourceSHA fp) of
                   Inl e \<Rightarrow>
                     if lpi_CoverageComplete input then Inl e
                     else and_then (candidate_of_input b3 input) (\<lambda>candidate.
                       Inr (lpi_Canonical input, entities, [], candidate))
                 | Inr provenance \<Rightarrow>
                     if DigestProvenance b3 provenance \<noteq> fp_ProvenanceDigest fp then Inl CodeValidation
                     else and_then (candidate_of_input b3 input) (\<lambda>candidate.
                       Inr (lpi_Canonical input, entities, provenance, candidate)))))"

subsection \<open>Decisions\<close>

definition note_mapping :: "Note \<Rightarrow> ContextRevisionMapping" where
  "note_mapping note = \<lparr>map_EntityKey = note_EntityKey note, map_NoteID = note_ID note,
     map_RevisionID = note_RevisionID note, map_BindingState = note_BindingState note,
     map_BindingSourceSHA = note_BindingSourceSHA note, map_ReviewReason = note_ReviewReason note\<rparr>"

definition landingDecision ::
  "string \<Rightarrow> CandidateContextOperation \<Rightarrow> Note \<Rightarrow> bool \<Rightarrow> LandingDecision" where
  "landingDecision recordID operation note noOp =
     (let note = note\<lparr>note_Pending := False\<rparr>
      in \<lparr>dec_CandidateRecordID = recordID, dec_Operation = operation, dec_Note = note,
          dec_Mapping = note_mapping note, dec_NoOp = noOp\<rparr>)"

definition bindCandidateNote :: "Note \<Rightarrow> string \<Rightarrow> Entity list \<Rightarrow> string \<Rightarrow> Note" where
  "bindCandidateNote note structuralHash targetEntities sourceSHA =
     (let note = note\<lparr>note_Pending := False, note_BindingSourceSHA := sourceSHA, note_ReviewReason := []\<rparr>
      in case List.find (\<lambda>e. ent_Key e = note_EntityKey note) targetEntities of
           Some e \<Rightarrow>
             if ent_StructuralHash e = structuralHash then note\<lparr>note_BindingState := NoteBindingActive\<rparr>
             else note\<lparr>note_BindingState := NoteBindingNeedsReview,
                    note_ReviewReason := ''structural_change''\<rparr>
         | None \<Rightarrow> note\<lparr>note_BindingState := NoteBindingHistorical, note_ReviewReason := ''entity_removed''\<rparr>)"

definition noteFromCandidateRecord :: "CandidateContextRecord \<Rightarrow> Entity list \<Rightarrow> string \<Rightarrow> Note" where
  "noteFromCandidateRecord r targetEntities sourceSHA =
     bindCandidateNote \<lparr>note_ID = rec_NoteID r, note_RevisionID = rec_RevisionID r,
       note_SupersedesRevisionID = rec_SupersedesRevisionID r, note_EntityKey = rec_EntityKey r,
       note_Kind = rec_Kind r, note_Body = rec_Body r, note_Author = rec_Author r,
       note_Origin = rec_Origin r, note_CreatedAt = rec_CreatedAt r, note_BindingState = [],
       note_BindingSourceSHA = [], note_ReviewReason = [], note_Topics = copy_slice (rec_Topics r),
       note_Pending = False\<rparr> (rec_StructuralHash r) targetEntities sourceSHA"

definition candidateRecordPreservesRevision :: "CandidateContextRecord \<Rightarrow> Note \<Rightarrow> bool" where
  "candidateRecordPreservesRevision r note \<longleftrightarrow>
     rec_NoteID r = note_ID note \<and> rec_RevisionID r = note_RevisionID note \<and> rec_Kind r = note_Kind note
     \<and> rec_Body r = note_Body note \<and> rec_Topics r = elems (note_Topics note)
     \<and> rec_Author r = note_Author note \<and> rec_Origin r = note_Origin note
     \<and> time_Equal (rec_CreatedAt r) (note_CreatedAt note)"

definition sameLandingNote :: "Note \<Rightarrow> Note \<Rightarrow> bool" where
  "sameLandingNote left right \<longleftrightarrow> left\<lparr>note_Pending := False\<rparr> = right\<lparr>note_Pending := False\<rparr>"

type_synonym landing_state = "LandingDecision gomap \<times> LandingConflict list"

definition add_conflict ::
  "CandidateContextRecord \<Rightarrow> string \<Rightarrow> landing_state \<Rightarrow> landing_state" where
  "add_conflict r reason = (\<lambda>(decisions, conflicts).
     (decisions, conflicts @ [\<lparr>conf_CandidateRecordID = rec_ID r, conf_NoteID = rec_NoteID r,
        conf_Reason = reason, conf_BaseRevisionID = rec_BaseRevisionID r,
        conf_CanonicalRevisionID = (case map_of decisions (rec_NoteID r) of None \<Rightarrow> []
          | Some existing \<Rightarrow> note_RevisionID (dec_Note existing))\<rparr>]))"

definition set_decision :: "CandidateContextRecord \<Rightarrow> LandingDecision \<Rightarrow> landing_state \<Rightarrow> landing_state" where
  "set_decision r decision = (\<lambda>(decisions, conflicts). (map_put (rec_NoteID r) decision decisions, conflicts))"

definition adopted :: "CandidateContextRecord \<Rightarrow> LandingDecision \<Rightarrow> LandingDecision" where
  "adopted r existing = existing\<lparr>dec_CandidateRecordID := rec_ID r, dec_Operation := rec_Operation r,
     dec_NoOp := True\<rparr>"

definition applyCandidateRecord :: "CandidateContextRecord \<Rightarrow> Entity list \<Rightarrow> string \<Rightarrow>
    landing_state \<Rightarrow> landing_state" where
  "applyCandidateRecord r targetEntities sourceSHA state =
     (let desired = noteFromCandidateRecord r targetEntities sourceSHA;
          decide = \<lambda>note noOp. set_decision r (landingDecision (rec_ID r) (rec_Operation r) note noOp) state
      in if rec_Operation r = CandidateAdd then
           (case map_of (fst state) (rec_NoteID r) of
              Some existing \<Rightarrow>
                if sameLandingNote (dec_Note existing) desired then set_decision r (adopted r existing) state
                else add_conflict r ''note_collision'' state
            | None \<Rightarrow> decide desired False)
         else if rec_Operation r = CandidateRevise then
           (case map_of (fst state) (rec_NoteID r) of
              None \<Rightarrow> add_conflict r ''revision_conflict'' state
            | Some existing \<Rightarrow>
                if note_RevisionID (dec_Note existing) = rec_RevisionID r then
                  (if sameLandingNote (dec_Note existing) desired then set_decision r (adopted r existing) state
                   else add_conflict r ''immutable_revision_conflict'' state)
                else if note_RevisionID (dec_Note existing) \<noteq> rec_BaseRevisionID r
                  then add_conflict r ''revision_conflict'' state
                else decide desired False)
         else if rec_Operation r = CandidateRebind then
           (case map_of (fst state) (rec_NoteID r) of
              None \<Rightarrow> add_conflict r ''revision_conflict'' state
            | Some existing \<Rightarrow>
                if note_RevisionID (dec_Note existing) \<noteq> rec_BaseRevisionID r
                  then add_conflict r ''revision_conflict'' state
                else if \<not> candidateRecordPreservesRevision r (dec_Note existing)
                  then add_conflict r ''immutable_revision_conflict'' state
                else let rebound = bindCandidateNote ((dec_Note existing)\<lparr>note_EntityKey := rec_EntityKey r\<rparr>)
                           (rec_StructuralHash r) targetEntities sourceSHA
                  in decide rebound (sameLandingNote (dec_Note existing) rebound))
         else state)"

subsection \<open>Identity of a plan\<close>

definition note_json :: "Note \<Rightarrow> json" where
  "note_json n = JObject (fld_s ''id'' (note_ID n) @ fld_omit ''revision_id'' (note_RevisionID n)
     @ fld_omit ''supersedes_revision_id'' (note_SupersedesRevisionID n)
     @ fld_s ''entity_key'' (note_EntityKey n) @ fld_s ''kind'' (note_Kind n) @ fld_s ''body'' (note_Body n)
     @ fld_s ''author'' (note_Author n) @ fld_s ''origin'' (note_Origin n)
     @ fld ''created_at'' (JTime (note_CreatedAt n)) @ fld_omit ''binding_state'' (note_BindingState n)
     @ fld_omit ''binding_source_sha'' (note_BindingSourceSHA n)
     @ fld_omit ''review_reason'' (note_ReviewReason n)
     @ fld_omit_list ''topics'' (map JString (elems (note_Topics n))) @ fld ''pending'' (JBool (note_Pending n)))"

definition mapping_json :: "ContextRevisionMapping \<Rightarrow> json" where
  "mapping_json m = JObject (fld_s ''entity_key'' (map_EntityKey m) @ fld_s ''note_id'' (map_NoteID m)
     @ fld_s ''revision_id'' (map_RevisionID m) @ fld_s ''binding_state'' (map_BindingState m)
     @ fld_s ''binding_source_sha'' (map_BindingSourceSHA m)
     @ fld_omit ''review_reason'' (map_ReviewReason m))"

definition change_json :: "EntityChange \<Rightarrow> json" where
  "change_json c = JObject (fld_s ''kind'' (chg_Kind c) @ fld ''base'' (entity_json (chg_Base c))
     @ fld ''target'' (entity_json (chg_Target c)))"

definition decision_json :: "LandingDecision \<Rightarrow> json" where
  "decision_json d = JObject (fld_omit ''candidate_record_id'' (dec_CandidateRecordID d)
     @ fld_omit ''operation'' (dec_Operation d) @ fld ''note'' (note_json (dec_Note d))
     @ fld ''mapping'' (mapping_json (dec_Mapping d))
     @ (if dec_NoOp d then fld ''no_op'' (JBool True) else []))"

definition conflict_json :: "LandingConflict \<Rightarrow> json" where
  "conflict_json c = JObject (fld_omit ''candidate_record_id'' (conf_CandidateRecordID c)
     @ fld_omit ''note_id'' (conf_NoteID c) @ fld_s ''reason'' (conf_Reason c)
     @ fld_omit ''base_revision_id'' (conf_BaseRevisionID c)
     @ fld_omit ''canonical_revision_id'' (conf_CanonicalRevisionID c))"

definition fingerprint_json :: "PlanFingerprint \<Rightarrow> json" where
  "fingerprint_json fp = JObject (fld_s ''repository_id'' (fp_RepositoryID fp)
     @ fld_s ''target_ref'' (fp_TargetRef fp) @ fld ''change'' (change_key_json (fp_Change fp))
     @ fld_s ''base_source_sha'' (fp_BaseSourceSHA fp) @ fld_s ''head_source_sha'' (fp_HeadSourceSHA fp)
     @ fld_s ''source_evidence_digest'' (fp_SourceEvidenceDigest fp)
     @ fld_omit ''base_context_commit_id'' (fp_BaseContextCommitID fp)
     @ fld ''base_context_version'' (JInt (fp_BaseContextVersion fp))
     @ fld_omit ''candidate_digest'' (fp_CandidateDigest fp)
     @ fld_s ''provenance_digest'' (fp_ProvenanceDigest fp))"

definition summary_json :: "LandingSummary \<Rightarrow> json" where
  "summary_json s = JObject (fld ''active_notes'' (JInt (sum_ActiveNotes s))
     @ fld ''needs_review_notes'' (JInt (sum_NeedsReviewNotes s))
     @ fld ''historical_notes'' (JInt (sum_HistoricalNotes s))
     @ fld ''candidate_records'' (JInt (sum_CandidateRecords s)) @ fld ''conflicts'' (JInt (sum_Conflicts s)))"

definition plan_json :: "ContextPlan \<Rightarrow> json" where
  "plan_json p = JObject (fld ''schema_version'' (JInt (plan_SchemaVersion p)) @ fld_s ''id'' (plan_ID p)
     @ fld_s ''kind'' (plan_Kind p) @ fld ''fingerprint'' (fingerprint_json (plan_Fingerprint p))
     @ fld_s ''outcome'' (plan_Outcome p)
     @ fld_omit_list ''entity_changes'' (map change_json (plan_EntityChanges p))
     @ fld ''decisions'' (json_slice (map_option (map decision_json) (plan_Decisions p)))
     @ fld_omit_list ''conflicts'' (map conflict_json (plan_Conflicts p))
     @ fld ''summary'' (summary_json (plan_Summary p)) @ fld ''created_at'' (JTime (plan_CreatedAt p)))"

definition contextPlanID :: "(string \<Rightarrow> string) \<Rightarrow> ContextPlan \<Rightarrow> string result" where
  "contextPlanID b3 plan = canonicalDigest b3 (plan_json (plan\<lparr>plan_ID := [], plan_CreatedAt := zero_time\<rparr>))"

subsection \<open>Planning\<close>

definition count_state :: "NoteBindingState \<Rightarrow> LandingDecision list \<Rightarrow> int" where
  "count_state state decisions =
     int (length (filter (\<lambda>d. note_BindingState (dec_Note d) = state) decisions))"

definition plan_outcome :: "LandingConflict list \<Rightarrow> LandingSummary \<Rightarrow> ContextPlanOutcome" where
  "plan_outcome conflicts summary =
     (if conflicts \<noteq> [] then ContextPlanBlocked
      else if sum_NeedsReviewNotes summary \<noteq> 0 \<or> sum_HistoricalNotes summary \<noteq> 0
        then ContextPlanReviewRequired
      else ContextPlanReady)"

definition conflict_key :: "LandingConflict \<Rightarrow> string" where
  "conflict_key c = conf_CandidateRecordID c @ [CHR 0x00] @ conf_NoteID c @ [CHR 0x00] @ conf_Reason c"

definition coverage_conflict :: "string \<Rightarrow> LandingConflict" where
  "coverage_conflict reason = \<lparr>conf_CandidateRecordID = [], conf_NoteID = [], conf_Reason = reason,
     conf_BaseRevisionID = [], conf_CanonicalRevisionID = []\<rparr>"

definition entity_or_zero :: "Entity option \<Rightarrow> Entity" where
  "entity_or_zero e = (case e of None \<Rightarrow> zero_entity | Some x \<Rightarrow> x)"

definition canonical_decisions :: "ContextObject \<Rightarrow> Entity list \<Rightarrow> string \<Rightarrow> LandingDecision gomap" where
  "canonical_decisions canonical targetEntities headSHA =
     (let previousByKey = entities_by_key (elems (obj_Entities canonical));
          reconciler = NewBindingReconciler targetEntities headSHA
      in foldl (\<lambda>decisions note.
           let updated = fst (Reconcile reconciler note
                 (entity_or_zero (map_of previousByKey (note_EntityKey note))))
           in map_put (note_ID note) (landingDecision [] [] (updated\<lparr>note_Pending := False\<rparr>) False) decisions)
         [] (elems (obj_Notes canonical)))"

definition PlanLanding :: "(string \<Rightarrow> string) \<Rightarrow> map_order \<Rightarrow> LandingPlanInput \<Rightarrow> ContextPlan result" where
  "PlanLanding b3 ord input =
     and_then (validateLandingPlanInput b3 input) (\<lambda>(canonical, targetEntities, targetProvenance, candidate).
       let headSHA = fp_HeadSourceSHA (lpi_Fingerprint input);
           conflicts = (if \<not> lpi_CoverageComplete input then [coverage_conflict ''coverage_incomplete''] else [])
             @ (if lpi_CoverageComplete input \<and> length targetProvenance = 0
                then [coverage_conflict ''provenance_incomplete''] else []);
           (decisions, conflicts) = foldl (\<lambda>state r. applyCandidateRecord r targetEntities headSHA state)
             (canonical_decisions canonical targetEntities headSHA, conflicts) (delta_Records candidate);
           listed = map snd (map_range ord 7 decisions);
           sorted_conflicts = sort_key conflict_key conflicts;
           summary = \<lparr>sum_ActiveNotes = count_state NoteBindingActive listed,
             sum_NeedsReviewNotes = count_state NoteBindingNeedsReview listed,
             sum_HistoricalNotes = count_state NoteBindingHistorical listed,
             sum_CandidateRecords = int (length (delta_Records candidate)),
             sum_Conflicts = int (length sorted_conflicts)\<rparr>;
           plan = \<lparr>plan_SchemaVersion = 1, plan_ID = [], plan_Kind = lpi_Kind input,
             plan_Fingerprint = lpi_Fingerprint input,
             plan_Outcome = plan_outcome sorted_conflicts summary,
             plan_EntityChanges = ClassifyEntityChanges ord (elems (obj_Entities canonical)) targetEntities,
             plan_Decisions = Some (sort_key (\<lambda>d. note_ID (dec_Note d)) listed),
             plan_Conflicts = sorted_conflicts, plan_Summary = summary,
             plan_CreatedAt = time_UTC (lpi_CreatedAt input)\<rparr>
       in and_then (contextPlanID b3 plan) (\<lambda>identifier. Inr (plan\<lparr>plan_ID := identifier\<rparr>)))"

subsection \<open>Resolving conflicts (landing_recovery.go)\<close>

definition LandingConflictID :: "(string \<Rightarrow> string) \<Rightarrow> LandingConflict \<Rightarrow> string" where
  "LandingConflictID b3 c = digestParts b3 [''landing-conflict'', conf_CandidateRecordID c, conf_NoteID c,
     conf_Reason c, conf_BaseRevisionID c, conf_CanonicalRevisionID c]"

definition candidateRecordByID :: "CandidateContextDelta \<Rightarrow> string \<Rightarrow> CandidateContextRecord option" where
  "candidateRecordByID candidate identifier = List.find (\<lambda>r. rec_ID r = identifier) (delta_Records candidate)"

fun upsertLandingDecision :: "LandingDecision list \<Rightarrow> LandingDecision \<Rightarrow> LandingDecision list" where
  "upsertLandingDecision [] nxt = [nxt]"
| "upsertLandingDecision (d # ds) nxt =
     (if note_ID (dec_Note d) = note_ID (dec_Note nxt) then nxt # ds else d # upsertLandingDecision ds nxt)"

definition refreshLandingPlan :: "ContextPlan \<Rightarrow> ContextPlan" where
  "refreshLandingPlan plan =
     (let decisions = elems (plan_Decisions plan);
          summary = (plan_Summary plan)\<lparr>sum_ActiveNotes := count_state NoteBindingActive decisions,
            sum_NeedsReviewNotes := count_state NoteBindingNeedsReview decisions,
            sum_HistoricalNotes := count_state NoteBindingHistorical decisions,
            sum_Conflicts := int (length (plan_Conflicts plan))\<rparr>
      in plan\<lparr>plan_Decisions := map_option (sort_key (\<lambda>d. note_ID (dec_Note d))) (plan_Decisions plan),
           plan_Summary := summary, plan_Outcome := plan_outcome (plan_Conflicts plan) summary\<rparr>)"

definition authored_resolution_ok :: "Note \<Rightarrow> LandingConflict \<Rightarrow> string \<Rightarrow> bool" where
  "authored_resolution_ok a conflict headSHA \<longleftrightarrow>
     \<not> (note_ID a \<noteq> conf_NoteID conflict \<or> note_RevisionID a = [] \<or> note_EntityKey a = []
        \<or> \<not> ValidNoteKind (note_Kind a) \<or> TrimSpace (note_Body a) = [] \<or> note_Author a = []
        \<or> note_Origin a = [] \<or> time_IsZero (note_CreatedAt a)
        \<or> \<not> ValidNoteBindingState (note_BindingState a) \<or> note_BindingSourceSHA a \<noteq> headSHA
        \<or> note_Pending a)"

fun index_of :: "('a \<Rightarrow> bool) \<Rightarrow> 'a list \<Rightarrow> nat option" where
  "index_of P [] = None"
| "index_of P (x # xs) = (if P x then Some 0 else map_option Suc (index_of P xs))"

definition put_decision :: "ContextPlan \<Rightarrow> LandingDecision \<Rightarrow> ContextPlan" where
  "put_decision plan d = plan\<lparr>plan_Decisions := Some (upsertLandingDecision (elems (plan_Decisions plan)) d)\<rparr>"

definition resolution :: "ContextPlan \<Rightarrow> CandidateContextDelta \<Rightarrow> Entity list \<Rightarrow> LandingConflict \<Rightarrow>
    LandingResolutionUse \<Rightarrow> Note option \<Rightarrow> ContextPlan result" where
  "resolution plan candidate entities conflict choice authored =
     (let headSHA = fp_HeadSourceSHA (plan_Fingerprint plan)
      in if choice = LandingUseCanonical then Inr plan
         else if choice = LandingUseCandidate then
           (case candidateRecordByID candidate (conf_CandidateRecordID conflict) of
              None \<Rightarrow> Inl CodeValidation
            | Some r \<Rightarrow> Inr (put_decision plan (landingDecision (rec_ID r) (rec_Operation r)
                (noteFromCandidateRecord r entities headSHA) False)))
         else if choice = LandingUseAuthored then
           (case authored of
              None \<Rightarrow> Inl CodeValidation
            | Some a \<Rightarrow>
                if \<not> authored_resolution_ok a conflict headSHA then Inl CodeValidation
                else Inr (put_decision plan (landingDecision [] [] a False)))
         else Inl CodeValidation)"

definition ResolveLandingPlan :: "(string \<Rightarrow> string) \<Rightarrow> ContextPlan \<Rightarrow> CandidateContextDelta \<Rightarrow>
    Entity list \<Rightarrow> string \<Rightarrow> LandingResolutionUse \<Rightarrow> Note option \<Rightarrow> ContextPlan result" where
  "ResolveLandingPlan b3 plan candidate entities conflictID choice authored =
     (case index_of (\<lambda>c. LandingConflictID b3 c = conflictID) (plan_Conflicts plan) of
        None \<Rightarrow> Inl CodeEntityNotFound
      | Some index \<Rightarrow>
          and_then (resolution plan candidate entities (plan_Conflicts plan ! index) choice authored) (\<lambda>plan.
            let plan = refreshLandingPlan (plan\<lparr>plan_Conflicts :=
                  take index (plan_Conflicts plan) @ drop (index + 1) (plan_Conflicts plan)\<rparr>)
            in and_then (contextPlanID b3 plan) (\<lambda>identifier. Inr (plan\<lparr>plan_ID := identifier\<rparr>))))"

subsection \<open>Building the landing snapshot\<close>

definition mapping_key :: "ContextRevisionMapping \<Rightarrow> string" where
  "mapping_key m = map_EntityKey m @ [CHR 0x00] @ map_NoteID m @ [CHR 0x00] @ map_RevisionID m"

definition promotion_key :: "CandidatePromotionMapping \<Rightarrow> string" where
  "promotion_key m = promo_CandidateRecordID m @ [CHR 0x00] @ promo_NoteID m @ [CHR 0x00] @ promo_RevisionID m"

definition decision_ok :: "string \<Rightarrow> LandingDecision \<Rightarrow> bool" where
  "decision_ok headSHA d \<longleftrightarrow>
     \<not> (note_ID (dec_Note d) = [] \<or> note_RevisionID (dec_Note d) = []
        \<or> note_BindingSourceSHA (dec_Note d) \<noteq> headSHA \<or> note_Pending (dec_Note d)
        \<or> \<not> ValidNoteBindingState (note_BindingState (dec_Note d)))"

definition promotion_of :: "LandingDecision \<Rightarrow> CandidatePromotionMapping" where
  "promotion_of d = \<lparr>promo_CandidateRecordID = dec_CandidateRecordID d, promo_NoteID = note_ID (dec_Note d),
     promo_RevisionID = note_RevisionID (dec_Note d)\<rparr>"

definition landing_receipt :: "(string \<Rightarrow> string) \<Rightarrow> ContextPlan \<Rightarrow> string \<Rightarrow>
    CandidatePromotionMapping list \<Rightarrow> LandingReceipt" where
  "landing_receipt b3 plan resolver mappings =
     (let fp = plan_Fingerprint plan
      in \<lparr>rcpt_ID = LandingIntentID b3 fp, rcpt_Provider = ck_Provider (fp_Change fp),
          rcpt_ForgeRepository = ck_Repository (fp_Change fp), rcpt_ChangeNumber = ck_Number (fp_Change fp),
          rcpt_ContextRepositoryID = fp_RepositoryID fp, rcpt_TargetRef = fp_TargetRef fp,
          rcpt_CandidateDigest = fp_CandidateDigest fp, rcpt_FinalPlanID = plan_ID plan,
          rcpt_SourceMergeSHA = fp_HeadSourceSHA fp, rcpt_BaseContextCommitID = fp_BaseContextCommitID fp,
          rcpt_Resolver = TrimSpace resolver, rcpt_CandidateMappings = mappings\<rparr>)"

definition BuildLandingSnapshot :: "(string \<Rightarrow> string) \<Rightarrow> LandingBuildInput \<Rightarrow> ContextObject result" where
  "BuildLandingSnapshot b3 input =
     (let plan = lbi_Plan input; fp = plan_Fingerprint plan; decisions = elems (plan_Decisions plan)
      in if plan_Kind plan \<noteq> ContextPlanFinal \<or> plan_Outcome plan = ContextPlanBlocked
            \<or> plan_Conflicts plan \<noteq> [] then Inl CodeValidation
         else if contextPlanID b3 plan \<noteq> Inr (plan_ID plan) then Inl CodeValidation
         else if lbi_ParentID input \<noteq> fp_BaseContextCommitID fp \<or> TrimSpace (lbi_Message input) = []
            \<or> TrimSpace (lbi_Author input) = [] \<or> TrimSpace (lbi_Resolver input) = []
            \<or> time_IsZero (lbi_CreatedAt input) then Inl CodeValidation
         else (case normalizeLandingEntities (lbi_Entities input) (fp_HeadSourceSHA fp) of
             Inl _ \<Rightarrow> Inl CodeValidation
           | Inr entities \<Rightarrow>
               if DigestSourceEvidence b3 entities \<noteq> fp_SourceEvidenceDigest fp then Inl CodeValidation
               else (case normalizeLandingProvenance (lbi_Provenance input) (fp_HeadSourceSHA fp) of
                   Inl _ \<Rightarrow> Inl CodeValidation
                 | Inr provenance \<Rightarrow>
                     if DigestProvenance b3 provenance \<noteq> fp_ProvenanceDigest fp then Inl CodeValidation
                     else if \<not> list_all (decision_ok (fp_HeadSourceSHA fp)) decisions then Inl CodeValidation
                     else Inr \<lparr>obj_SchemaVersion = 4, obj_RepositoryID = fp_RepositoryID fp,
                       obj_RefName = fp_TargetRef fp, obj_ParentID = [],
                       obj_ParentIDs = (if lbi_ParentID input \<noteq> [] then [lbi_ParentID input] else []),
                       obj_LegacyParentID = [], obj_SourceSHA = fp_HeadSourceSHA fp,
                       obj_Message = TrimSpace (lbi_Message input), obj_Author = TrimSpace (lbi_Author input),
                       obj_CreatedAt = time_UTC (lbi_CreatedAt input), obj_Provenance = provenance,
                       obj_Entities = copy_slice entities,
                       obj_Notes = Some (sort_key note_ID (map dec_Note decisions)),
                       obj_RevisionMappings = sort_key mapping_key (map dec_Mapping decisions),
                       obj_LandingReceipts = [landing_receipt b3 plan (lbi_Resolver input)
                         (sort_key promotion_key (map promotion_of
                           (filter (\<lambda>d. dec_CandidateRecordID d \<noteq> []) decisions)))]\<rparr>)))"

end
