(* ===== verification/Go_Utf8.thy ===== *)
theory Go_Utf8
  imports Go_String_Facts
begin

text \<open>
  UTF-8 and lower-casing: decoding inverts encoding, the decoder only yields valid code points, and
  \<open>ToLower\<close> after \<open>TrimSpace\<close> is idempotent.  The facts about the case table are checked
  row by row by evaluation.
\<close>

subsection \<open>The coder\<close>

definition valid_rune :: "int \<Rightarrow> bool" where
  "valid_rune r \<longleftrightarrow> 0 \<le> r \<and> r \<le> 1114111 \<and> \<not> (55296 \<le> r \<and> r \<le> 57343)"

lemma digits_64: "0 \<le> c \<Longrightarrow> c < 64 \<Longrightarrow> (a * 64 + c) div 64 = (a::int) \<and> (a * 64 + c) mod 64 = c"
  by simp

lemma div_4096: "(r::int) div 4096 = r div 64 div 64"
  by (simp add: zdiv_zmult2_eq [of 64 r 64, simplified])

lemma div_262144: "(r::int) div 262144 = r div 64 div 64 div 64"
  by (simp add: zdiv_zmult2_eq [of 64 r 4096, simplified] zdiv_zmult2_eq [of 64 "r div 64" 64, simplified])

lemma div_262144_4096: "(r::int) div 262144 = r div 4096 div 64"
  by (simp add: div_4096 div_262144)

lemma split_2: "r = r div 64 * 64 + (r::int) mod 64"
  by simp

lemma split_3: "r = r div 4096 * 4096 + r div 64 mod 64 * 64 + (r::int) mod 64"
  using split_2 [of r] split_2 [of "r div 64"] div_4096 [of r] by linarith

lemma split_4:
  "r = r div 262144 * 262144 + r div 4096 mod 64 * 4096 + r div 64 mod 64 * 64 + (r::int) mod 64"
  using split_3 [of r] split_2 [of "r div 4096"] div_262144_4096 [of r] by linarith

lemma decode_3:
  assumes "0 \<le> a" "a \<le> 15" "0 \<le> b" "b < 64" "0 \<le> c" "c < 64"
    "a = 0 \<Longrightarrow> 32 \<le> b" "a = 13 \<Longrightarrow> b \<le> 31"
  shows "decode_rune ([224 + a, 128 + b, 128 + c] @ t) = (a * 4096 + b * 64 + c, 3)"
proof -
  have "(if 224 + a = 224 then 160 else 128) \<le> 128 + b"
      "128 + b \<le> (if 224 + a = 237 then 159 else 191)"
    using assms by (auto split: if_splits)
  moreover have "utf8_cont (128 + c)" using assms by (simp add: utf8_cont_def)
  ultimately show ?thesis using assms by simp
qed

lemma decode_4:
  assumes "0 \<le> a" "a \<le> 4" "0 \<le> b" "b < 64" "0 \<le> c" "c < 64" "0 \<le> d" "d < 64"
    "a = 0 \<Longrightarrow> 16 \<le> b" "a = 4 \<Longrightarrow> b \<le> 15"
  shows "decode_rune ([240 + a, 128 + b, 128 + c, 128 + d] @ t)
    = (a * 262144 + b * 4096 + c * 64 + d, 4)"
proof -
  have "(if 240 + a = 240 then 144 else 128) \<le> 128 + b"
      "128 + b \<le> (if 240 + a = 244 then 143 else 191)"
    using assms by (auto split: if_splits)
  moreover have "utf8_cont (128 + c)" "utf8_cont (128 + d)" using assms by (simp_all add: utf8_cont_def)
  ultimately show ?thesis using assms by simp
qed

lemma decode_encode:
  assumes "valid_rune r"
  shows "decode_rune (encode_rune r @ t) = (r, length (encode_rune r))"
proof -
  consider (one) "r < 128" | (two) "128 \<le> r" "r < 2048" | (three) "2048 \<le> r" "r < 65536"
    | (four) "65536 \<le> r" by linarith
  then show ?thesis
  proof cases
    case one
    then show ?thesis by (simp add: encode_rune_def)
  next
    case two
    then have "194 \<le> 192 + r div 64" "192 + r div 64 \<le> 223" by simp_all
    with two show ?thesis by (simp add: encode_rune_def utf8_cont_def)
  next
    case three
    let ?a = "r div 4096" and ?b = "r div 64 mod 64" and ?c = "r mod 64"
    have r: "r = ?a * 4096 + ?b * 64 + ?c" by (rule split_3)
    have b: "0 \<le> ?b" "?b < 64" "0 \<le> ?c" "?c < 64" by simp_all
    have a: "0 \<le> ?a" "?a \<le> 15" using three by simp_all
    have "?a = 0 \<Longrightarrow> 32 \<le> ?b" using r b three by linarith
    moreover have "?a = 13 \<Longrightarrow> ?b \<le> 31"
      using r b three assms unfolding valid_rune_def by linarith
    ultimately have "decode_rune ([224 + ?a, 128 + ?b, 128 + ?c] @ t) = (?a * 4096 + ?b * 64 + ?c, 3)"
      using a b by (intro decode_3) blast+
    moreover have "encode_rune r = [224 + ?a, 128 + ?b, 128 + ?c]"
      using three assms by (auto simp: encode_rune_def valid_rune_def)
    ultimately show ?thesis using r by (simp only: length_Cons list.size) simp
  next
    case four
    let ?a = "r div 262144" and ?b = "r div 4096 mod 64" and ?c = "r div 64 mod 64" and ?d = "r mod 64"
    have r: "r = ?a * 262144 + ?b * 4096 + ?c * 64 + ?d" by (rule split_4)
    have b: "0 \<le> ?b" "?b < 64" "0 \<le> ?c" "?c < 64" "0 \<le> ?d" "?d < 64" by simp_all
    have a: "0 \<le> ?a" "?a \<le> 4" using four assms by (simp_all add: valid_rune_def)
    have "?a = 0 \<Longrightarrow> 16 \<le> ?b" using r b four by linarith
    moreover have "?a = 4 \<Longrightarrow> ?b \<le> 15"
      using r b assms unfolding valid_rune_def by linarith
    ultimately have "decode_rune ([240 + ?a, 128 + ?b, 128 + ?c, 128 + ?d] @ t)
        = (?a * 262144 + ?b * 4096 + ?c * 64 + ?d, 4)"
      using a b by (intro decode_4) blast+
    moreover have "encode_rune r = [240 + ?a, 128 + ?b, 128 + ?c, 128 + ?d]"
      using four assms by (simp add: encode_rune_def valid_rune_def)
    ultimately show ?thesis using r by (simp only: length_Cons list.size) simp
  qed
qed

lemma encode_nonempty [simp]: "encode_rune r \<noteq> []"
  by (simp add: encode_rune_def)

lemma encode_2:
  assumes "2 \<le> a" "a \<le> 31" "0 \<le> c" "c < 64"
  shows "valid_rune (a * 64 + c) \<and> encode_rune (a * 64 + c) = [192 + a, 128 + c]"
  using assms digits_64 [of c a] by (simp add: encode_rune_def valid_rune_def)

lemma encode_3:
  assumes "0 \<le> a" "a \<le> 15" "0 \<le> b" "b < 64" "0 \<le> c" "c < 64"
    "a = 0 \<Longrightarrow> 32 \<le> b" "a = 13 \<Longrightarrow> b \<le> 31"
  shows "valid_rune (a * 4096 + b * 64 + c)
    \<and> encode_rune (a * 4096 + b * 64 + c) = [224 + a, 128 + b, 128 + c]"
proof -
  let ?r = "a * 4096 + b * 64 + c"
  have r: "?r = (a * 64 + b) * 64 + c" by simp
  have d: "?r div 64 = a * 64 + b" "?r mod 64 = c"
    unfolding r using digits_64 [OF assms(5,6)] by blast+
  have e: "?r div 4096 = a" "?r div 64 mod 64 = b"
    unfolding div_4096 d using digits_64 [OF assms(3,4)] by blast+
  have "2048 \<le> ?r" "?r < 65536" "\<not> (55296 \<le> ?r \<and> ?r \<le> 57343)"
    using assms by (cases "a = 0"; cases "a = 13"; linarith)+
  with d e show ?thesis using assms by (simp add: encode_rune_def valid_rune_def)
qed

lemma encode_4:
  assumes "0 \<le> a" "a \<le> 4" "0 \<le> b" "b < 64" "0 \<le> c" "c < 64" "0 \<le> d" "d < 64"
    "a = 0 \<Longrightarrow> 16 \<le> b" "a = 4 \<Longrightarrow> b \<le> 15"
  shows "valid_rune (a * 262144 + b * 4096 + c * 64 + d)
    \<and> encode_rune (a * 262144 + b * 4096 + c * 64 + d) = [240 + a, 128 + b, 128 + c, 128 + d]"
proof -
  let ?r = "a * 262144 + b * 4096 + c * 64 + d"
  have r: "?r = ((a * 64 + b) * 64 + c) * 64 + d" by simp
  have f: "?r div 64 = (a * 64 + b) * 64 + c" "?r mod 64 = d"
    unfolding r using digits_64 [OF assms(7,8)] by blast+
  have g: "?r div 4096 = a * 64 + b" "?r div 64 mod 64 = c"
    unfolding div_4096 f using digits_64 [OF assms(5,6)] by blast+
  have h: "?r div 262144 = a" "?r div 4096 mod 64 = b"
    unfolding div_262144_4096 g using digits_64 [OF assms(3,4)] by blast+
  have "65536 \<le> ?r" using assms by (cases "a = 0") linarith+
  moreover have "?r \<le> 1114111" using assms by (cases "a = 4") linarith+
  ultimately have s: "65536 \<le> ?r" "?r \<le> 1114111" by blast+
  have e: "encode_rune x = [240 + x div 262144, 128 + x div 4096 mod 64,
      128 + x div 64 mod 64, 128 + x mod 64]" if "65536 \<le> x" "x \<le> 1114111" for x
    using that by (simp add: encode_rune_def)
  have "encode_rune ?r = [240 + a, 128 + b, 128 + c, 128 + d]"
    unfolding e [OF s] unfolding h unfolding g(2) f(2) by (rule refl)
  with s show ?thesis by (simp add: valid_rune_def)
qed

lemma decode_cases:
  assumes "decode_rune (b # bs) = (r, w)" "0 \<le> b"
  shows "r = rune_error \<and> w = 1 \<or>
    valid_rune r \<and> take w (b # bs) = encode_rune r \<and> w = length (encode_rune r)"
proof -
  have one: "valid_rune b \<and> encode_rune b = [b]" if "b < 128"
    using that assms(2) by (simp add: valid_rune_def encode_rune_def)
  have two: "valid_rune ((b - 192) * 64 + (b1 - 128))
      \<and> encode_rune ((b - 192) * 64 + (b1 - 128)) = [b, b1]"
    if "194 \<le> b" "b \<le> 223" "utf8_cont b1" for b1
    using encode_2 [of "b - 192" "b1 - 128"] that by (simp add: utf8_cont_def)
  have three: "valid_rune ((b - 224) * 4096 + (b1 - 128) * 64 + (b2 - 128))
      \<and> encode_rune ((b - 224) * 4096 + (b1 - 128) * 64 + (b2 - 128)) = [b, b1, b2]"
    if "224 \<le> b" "b \<le> 239" "(if b = 224 then 160 else 128) \<le> b1"
      "b1 \<le> (if b = 237 then 159 else 191)" "utf8_cont b2" for b1 b2
    using encode_3 [of "b - 224" "b1 - 128" "b2 - 128"] that
    by (simp add: utf8_cont_def split: if_splits)
  have four: "valid_rune ((b - 240) * 262144 + (b1 - 128) * 4096 + (b2 - 128) * 64 + (b3 - 128))
      \<and> encode_rune ((b - 240) * 262144 + (b1 - 128) * 4096 + (b2 - 128) * 64 + (b3 - 128))
        = [b, b1, b2, b3]"
    if "240 \<le> b" "b \<le> 244" "(if b = 240 then 144 else 128) \<le> b1"
      "b1 \<le> (if b = 244 then 143 else 191)" "utf8_cont b2" "utf8_cont b3" for b1 b2 b3
    using encode_4 [of "b - 240" "b1 - 128" "b2 - 128" "b3 - 128"] that
    by (simp add: utf8_cont_def split: if_splits)
  consider "b < 128" | "194 \<le> b \<and> b \<le> 223" | "224 \<le> b \<and> b \<le> 239" | "240 \<le> b \<and> b \<le> 244"
    | "128 \<le> b" "b < 194 \<or> 244 < b" by linarith
  then show ?thesis
  proof cases
    case 1
    with assms one show ?thesis by auto
  next
    case 2
    with assms(1) two show ?thesis by (auto split: list.splits if_split_asm)
  next
    case 3
    with assms(1) have "r = rune_error \<and> w = 1 \<or> (\<exists>b1 b2 t. bs = b1 # b2 # t
        \<and> (if b = 224 then 160 else 128) \<le> b1 \<and> b1 \<le> (if b = 237 then 159 else 191)
        \<and> utf8_cont b2 \<and> r = (b - 224) * 4096 + (b1 - 128) * 64 + (b2 - 128) \<and> w = 3)"
      by (auto split: list.splits if_split_asm)
    with 3 three show ?thesis by fastforce
  next
    case 4
    with assms(1) have "r = rune_error \<and> w = 1 \<or> (\<exists>b1 b2 b3 t. bs = b1 # b2 # b3 # t
        \<and> (if b = 240 then 144 else 128) \<le> b1 \<and> b1 \<le> (if b = 244 then 143 else 191)
        \<and> utf8_cont b2 \<and> utf8_cont b3
        \<and> r = (b - 240) * 262144 + (b1 - 128) * 4096 + (b2 - 128) * 64 + (b3 - 128) \<and> w = 4)"
      by (auto split: list.splits if_split_asm)
    with 4 four show ?thesis by fastforce
  next
    case 5
    with assms(1) show ?thesis by auto
  qed
qed

subsection \<open>Sequences of runes\<close>

lemma byte_runes_encode:
  "list_all valid_rune rs \<Longrightarrow> byte_runes (concat (map encode_rune rs)) = rs"
proof (induction rs)
  case Nil
  show ?case by simp
next
  case (Cons r rs)
  obtain b bs where b: "encode_rune r = b # bs" by (cases "encode_rune r") auto
  have "decode_rune (b # bs @ concat (map encode_rune rs)) = (r, length (b # bs))"
    using decode_encode [of r "concat (map encode_rune rs)"] Cons.prems b by simp
  then have "byte_runes (b # bs @ concat (map encode_rune rs))
      = r # byte_runes (concat (map encode_rune rs))"
    by (simp del: decode_rune.simps)
  then show ?case using Cons b by simp
qed

lemma byte_runes_valid: "\<forall>x \<in> set bs. 0 \<le> x \<Longrightarrow> list_all valid_rune (byte_runes bs)"
proof (induction bs rule: byte_runes.induct)
  case 1
  show ?case by simp
next
  case (2 b bs)
  obtain r w where d: "decode_rune (b # bs) = (r, w)" by fastforce
  have "\<forall>x \<in> set (drop (w - 1) bs). 0 \<le> x" using "2.prems" by (auto dest: in_set_dropD)
  then have "list_all valid_rune (byte_runes (drop (w - 1) bs))" using "2.IH" d by metis
  moreover have "valid_rune r"
    using decode_cases [OF d] "2.prems" by (auto simp: valid_rune_def rune_error_def)
  ultimately show ?case using d by (simp del: decode_rune.simps)
qed

text \<open>A leading or trailing decoded rune other than U+FFFD stands there encoded.\<close>

lemma byte_runes_hd:
  assumes "byte_runes bs = q # qs" "q \<noteq> rune_error" "\<forall>x \<in> set bs. 0 \<le> x"
  shows "starts_with bs (encode_rune q)"
proof (cases bs)
  case Nil
  with assms(1) show ?thesis by simp
next
  case (Cons b cs)
  obtain r w where d: "decode_rune (b # cs) = (r, w)" by fastforce
  with assms(1) Cons have "r = q" by (simp del: decode_rune.simps)
  with decode_cases [OF d] assms Cons show ?thesis by (auto simp: starts_with_def)
qed

lemma byte_runes_last:
  "byte_runes bs \<noteq> [] \<Longrightarrow> last (byte_runes bs) \<noteq> rune_error \<Longrightarrow> \<forall>x \<in> set bs. 0 \<le> x \<Longrightarrow>
    \<exists>pre. bs = pre @ encode_rune (last (byte_runes bs))"
proof (induction bs rule: byte_runes.induct)
  case 1
  then show ?case by simp
next
  case (2 b bs)
  obtain r w where d: "decode_rune (b # bs) = (r, w)" by fastforce
  let ?t = "drop (w - 1) bs"
  have e: "byte_runes (b # bs) = r # byte_runes ?t" using d by (simp del: decode_rune.simps)
  have c: "r = rune_error \<and> w = 1 \<or> take w (b # bs) = encode_rune r \<and> w = length (encode_rune r)"
    using decode_cases [OF d] "2.prems"(3) by auto
  have w: "0 < w" using c encode_nonempty [of r] by (metis length_greater_0_conv zero_less_one)
  then have t: "b # bs = take w (b # bs) @ ?t" by (cases w) auto
  show ?case
  proof (cases "byte_runes ?t = []")
    case True
    then have "?t = []" by (cases ?t) (auto split: prod.splits)
    with t c "2.prems"(2) e True show ?thesis by (metis append_Nil append_Nil2 last.simps)
  next
    case False
    have "\<forall>x \<in> set ?t. 0 \<le> x" using "2.prems"(3) by (auto dest: in_set_dropD)
    with False "2.prems"(2) e "2.IH" [OF d [symmetric]]
    obtain pre where "?t = pre @ encode_rune (last (byte_runes ?t))" by auto
    with t e False show ?thesis by (metis append.assoc last_ConsR)
  qed
qed

text \<open>UTF-8 is a suffix code: two encodings that end the same bytes are equal.\<close>

lemma encode_shape:
  assumes "valid_rune r"
  obtains "encode_rune r = [r]" "0 \<le> r" "r < 128"
    | a b where "encode_rune r = [192 + a, 128 + b mod 64]" "0 \<le> a"
    | a b c where "encode_rune r = [224 + a, 128 + b mod 64, 128 + c mod 64]" "0 \<le> a"
    | a b c d where "encode_rune r = [240 + a, 128 + b mod 64, 128 + c mod 64, 128 + d mod 64]" "0 \<le> a"
proof -
  have r: "0 \<le> r" "r \<le> 1114111" "\<not> (55296 \<le> r \<and> r \<le> 57343)"
    using assms by (auto simp: valid_rune_def)
  then have "0 \<le> r div 64" "0 \<le> r div 4096" "0 \<le> r div 262144"
    by (simp_all add: pos_imp_zdiv_nonneg_iff)
  moreover consider "r < 128" | "128 \<le> r" "r < 2048" | "2048 \<le> r" "r < 65536" | "65536 \<le> r"
    by linarith
  then show thesis
  proof cases
    case 1
    with that(1) r show ?thesis by (simp add: encode_rune_def)
  next
    case 2
    with that(2) [of "r div 64" r] calculation show ?thesis by (simp add: encode_rune_def)
  next
    case 3
    with that(3) [of "r div 4096" "r div 64" r] r calculation show ?thesis
      by (simp add: encode_rune_def)
  next
    case 4
    with that(4) [of "r div 262144" "r div 4096" "r div 64" r] r calculation show ?thesis
      by (simp add: encode_rune_def)
  qed
qed

lemma cont_mod: "utf8_cont (128 + x mod 64)"
  using pos_mod_bound [of 64 x] by (simp add: utf8_cont_def)

lemma encode_tail_cont: "valid_rune r \<Longrightarrow> \<forall>b \<in> set (tl (encode_rune r)). utf8_cont b"
  by (erule encode_shape) (simp_all add: cont_mod)

lemma encode_hd_lead: "valid_rune r \<Longrightarrow> \<not> utf8_cont (hd (encode_rune r))"
  by (erule encode_shape) (simp_all add: utf8_cont_def)

lemma encode_inj: "valid_rune r \<Longrightarrow> valid_rune q \<Longrightarrow> encode_rune r = encode_rune q \<Longrightarrow> r = q"
  using decode_encode [of r "[]"] decode_encode [of q "[]"] by simp

lemma suffix_lead:
  assumes "pre @ e = pre' @ e'" "e \<noteq> []" "e' \<noteq> []" "\<not> utf8_cont (hd e)"
    "\<forall>b \<in> set (tl e'). utf8_cont b"
  shows "length e' \<le> length e"
proof (rule ccontr)
  assume "\<not> length e' \<le> length e"
  moreover have "length pre + length e = length pre' + length e'"
    using assms(1) by (metis length_append)
  ultimately have l: "length pre' < length pre" by linarith
  have "e' = drop (length pre') (pre @ e)" by (simp add: assms(1))
  then have e': "e' = drop (length pre') pre @ e" using l by simp
  have "drop (length pre') pre \<noteq> []" using l by simp
  then obtain u us where "drop (length pre') pre = u # us" by (cases "drop (length pre') pre") blast+
  with e' assms(2) have "hd e \<in> set (tl e')" by simp
  with assms(4,5) show False by blast
qed

lemma suffix_code:
  assumes "pre @ encode_rune r = pre' @ encode_rune q" "valid_rune r" "valid_rune q"
  shows "r = q"
proof -
  have "length (encode_rune r) = length (encode_rune q)"
    using suffix_lead [OF assms(1) _ _ encode_hd_lead encode_tail_cont]
      suffix_lead [OF assms(1) [symmetric] _ _ encode_hd_lead encode_tail_cont] assms
    by (intro antisym) auto
  with assms show ?thesis by (auto intro: encode_inj)
qed

subsection \<open>Lower case\<close>

text \<open>Every row maps into valid code points that are neither white space nor upper case themselves.\<close>

definition space_runes :: "int list" where
  "space_runes = [9, 10, 11, 12, 13, 32, 133, 160, 5760, 8232, 8233, 8239, 8287, 12288]"

definition row_disjoint :: "int \<times> int \<times> int \<times> int \<Rightarrow> int \<times> int \<times> int \<times> int \<Rightarrow> bool" where
  "row_disjoint a b = (case (a, b) of ((lo, hi, st, dl), (lo', hi', st', dl')) \<Rightarrow>
     hi + dl < lo' \<or> hi' < lo + dl \<or> (st = 2 \<or> lo = hi) \<and> st' = 2 \<and> odd (lo + dl - lo'))"

definition row_ok :: "int \<times> int \<times> int \<times> int \<Rightarrow> bool" where
  "row_ok row = (case row of (lo, hi, st, dl) \<Rightarrow>
     0 \<le> lo + dl \<and> hi + dl \<le> 1114111 \<and> (hi + dl < 55296 \<or> 57343 < lo + dl)
     \<and> (hi + dl < 8192 \<or> 8202 < lo + dl) \<and> list_all (\<lambda>q. hi + dl < q \<or> q < lo + dl) space_runes
     \<and> (st = 1 \<or> st = 2))"

lemma lower_rows_ok: "list_all row_ok lower_rows"
  by code_simp

text \<open>
  No row maps into another row's domain.  Comparing all pairs is slow, so the (sorted) table is cut
  into groups, and a group is only searched when its span meets the row's image.
\<close>

type_synonym row = "int \<times> int \<times> int \<times> int"

function cut :: "nat \<Rightarrow> row list \<Rightarrow> (int \<times> int \<times> row list) list" where
  "cut n [] = []"
| "cut n (x # xs) =
     (let g = x # take n xs in (fst x, fst (snd (last g)), g) # cut n (drop n xs))"
  by pat_completeness auto
termination
  by (relation "measure (\<lambda>(n, xs). length xs)") auto

definition span_ok :: "int \<times> int \<times> row list \<Rightarrow> bool" where
  "span_ok g = (case g of (lo, hi, rs) \<Rightarrow> list_all (\<lambda>(a, b, _, _). lo \<le> a \<and> b \<le> hi) rs)"

definition group_disjoint :: "row \<Rightarrow> int \<times> int \<times> row list \<Rightarrow> bool" where
  "group_disjoint row g = (case (row, g) of ((lo, hi, st, dl), (a, b, rs)) \<Rightarrow>
     hi + dl < a \<or> b < lo + dl \<or> list_all (row_disjoint row) rs)"

fun rows_clear :: "row list \<Rightarrow> (int \<times> int \<times> row list) list \<Rightarrow> bool" where
  "rows_clear [] gs = True"
| "rows_clear (r # rs) gs = (list_all (group_disjoint r) gs \<and> rows_clear rs gs)"

lemma rows_clear_check: "list_all span_ok (cut 13 lower_rows) \<and> rows_clear lower_rows (cut 13 lower_rows)"
  by code_simp

lemma set_cut: "(\<Union>(lo, hi, rs) \<in> set (cut n xs). set rs) = set xs"
proof (induction n xs rule: cut.induct)
  case (1 n)
  show ?case by simp
next
  case (2 n x xs)
  then have "(\<Union>(lo, hi, rs) \<in> set (cut n (drop n xs)). set rs) = set (drop n xs)" by simp
  moreover have "set xs = set (take n xs) \<union> set (drop n xs)" by (metis append_take_drop_id set_append)
  ultimately show ?case by (simp add: Let_def)
qed

lemma rows_clear_iff: "rows_clear rs gs \<longleftrightarrow> (\<forall>r \<in> set rs. \<forall>g \<in> set gs. group_disjoint r g)"
  by (induction rs) (auto simp: list_all_iff)

lemma rows_disjoint:
  assumes "r \<in> set lower_rows" "r' \<in> set lower_rows"
  shows "row_disjoint r r'"
proof -
  obtain lo hi rs where g: "(lo, hi, rs) \<in> set (cut 13 lower_rows)" "r' \<in> set rs"
    using assms(2) set_cut [of 13 lower_rows] by blast
  with assms(1) rows_clear_check have "group_disjoint r (lo, hi, rs)" "span_ok (lo, hi, rs)"
    by (auto simp: rows_clear_iff list_all_iff)
  with g(2) show ?thesis
    by (fastforce simp: group_disjoint_def span_ok_def row_disjoint_def list_all_iff split: prod.splits)
qed

lemma rune_lower_cases:
  obtains "rune_lower r = r" "\<forall>row \<in> set lower_rows. \<not> in_row r row"
    | lo hi st dl where "rune_lower r = r + dl" "(lo, hi, st, dl) \<in> set lower_rows"
        "in_row r (lo, hi, st, dl)"
proof (cases "List.find (in_row r) lower_rows")
  case None
  show ?thesis
  proof (rule that(1))
    show "rune_lower r = r" using None by (simp add: rune_lower_def)
    show "\<forall>row \<in> set lower_rows. \<not> in_row r row" using None by (simp only: find_None_iff) blast
  qed
next
  case (Some row)
  obtain lo hi st dl where row: "row = (lo, hi, st, dl)" by (cases row)
  show ?thesis
  proof (rule that(2))
    show "rune_lower r = r + dl" using Some row by (simp add: rune_lower_def)
    show "(lo, hi, st, dl) \<in> set lower_rows" "in_row r (lo, hi, st, dl)"
      using Some row by (auto simp: find_Some_iff)
  qed
qed

lemma is_space_iff: "is_space r \<longleftrightarrow> r \<in> set space_runes \<or> 8192 \<le> r \<and> r \<le> 8202"
  by (simp add: is_space_def space_runes_def)

lemma rune_lower_image:
  assumes "valid_rune r" "\<not> is_space r"
  shows "valid_rune (rune_lower r) \<and> \<not> is_space (rune_lower r)"
proof (cases rule: rune_lower_cases [of r])
  case 1
  with assms show ?thesis by simp
next
  case (2 lo hi st dl)
  then have "row_ok (lo, hi, st, dl)" using lower_rows_ok by (auto simp: list_all_iff)
  then have "\<not> is_space (r + dl)" "valid_rune (r + dl)"
    using 2(3) by (auto simp: row_ok_def in_row_def is_space_iff valid_rune_def list_all_iff)
  with 2(1) show ?thesis by simp
qed

lemma rune_lower_valid: "valid_rune r \<Longrightarrow> valid_rune (rune_lower r)"
proof (cases rule: rune_lower_cases [of r])
  case (2 lo hi st dl)
  then have "row_ok (lo, hi, st, dl)" using lower_rows_ok by (auto simp: list_all_iff)
  with 2 show ?thesis by (auto simp: row_ok_def in_row_def valid_rune_def)
qed simp

lemma row_image_clear:
  assumes "row_disjoint (lo, hi, st, dl) (lo', hi', st', dl')" "in_row r (lo, hi, st, dl)"
    "row_ok (lo, hi, st, dl)" "row_ok (lo', hi', st', dl')"
  shows "\<not> in_row (r + dl) (lo', hi', st', dl')"
proof
  assume "in_row (r + dl) (lo', hi', st', dl')"
  then have b: "lo' \<le> r + dl" "r + dl \<le> hi'" "st' = 1 \<or> even (r + dl - lo')"
    by (auto simp: in_row_def)
  have a: "lo \<le> r" "r \<le> hi" "st = 1 \<or> even (r - lo)" using assms(2) by (auto simp: in_row_def)
  from assms(1) a b have c: "st = 2 \<or> lo = hi" "st' = 2" "odd (lo + dl - lo')"
    by (auto simp: row_disjoint_def)
  then have "even (r - lo)" using a by auto
  moreover have "even (r + dl - lo')" using b c by auto
  moreover have "(r + dl - lo') = (r - lo) + (lo + dl - lo')" by simp
  ultimately show False using c(3) by (metis even_add)
qed

lemma rune_lower_idem: "rune_lower (rune_lower r) = rune_lower r"
proof (cases rule: rune_lower_cases [of r])
  case 1
  then show ?thesis by simp
next
  case (2 lo hi st dl)
  have "\<not> in_row (r + dl) row" if row: "row \<in> set lower_rows" for row
  proof -
    have "row_disjoint (lo, hi, st, dl) row" by (rule rows_disjoint [OF 2(2) row])
    moreover have "row_ok row" "row_ok (lo, hi, st, dl)"
      using lower_rows_ok row 2(2) by (auto simp: list_all_iff)
    ultimately show ?thesis using 2(3)
      by (cases row) (metis row_image_clear)
  qed
  then have "List.find (in_row (r + dl)) lower_rows = None" by (auto simp: find_None_iff)
  then have "rune_lower (r + dl) = r + dl" by (simp add: rune_lower_def)
  with 2(1) show ?thesis by simp
qed

lemma encode_range: "valid_rune r \<Longrightarrow> \<forall>b \<in> set (encode_rune r). 0 \<le> b \<and> b < 256"
  by (auto simp: encode_rune_def valid_rune_def)

lemma runes_valid: "list_all valid_rune (runes s)"
  unfolding runes_def by (rule byte_runes_valid) auto

lemma lower_runes_valid: "list_all valid_rune (map rune_lower (runes s))"
  using runes_valid [of s] by (auto simp: list_all_iff intro: rune_lower_valid)

lemma ToLower_bytes:
  "map byte_of (ToLower s) = concat (map encode_rune (map rune_lower (runes s)))"
proof -
  have "\<forall>b \<in> set (concat (map encode_rune (map rune_lower (runes s)))). 0 \<le> b \<and> b < 256"
    using lower_runes_valid [of s] encode_range by (auto simp: list_all_iff)
  moreover have "concat (map (\<lambda>r. encode_rune (rune_lower r)) (runes s))
      = concat (map encode_rune (map rune_lower (runes s)))"
    by (simp add: comp_def)
  ultimately show ?thesis unfolding ToLower_def by (simp only: map_byte_char)
qed

lemma runes_ToLower: "runes (ToLower s) = map rune_lower (runes s)"
  by (simp only: runes_def [of "ToLower s"] ToLower_bytes byte_runes_encode lower_runes_valid)

lemma ToLower_idem [simp]: "ToLower (ToLower s) = ToLower s"
  by (simp add: ToLower_def [of "ToLower s"] runes_ToLower rune_lower_idem comp_def)
    (simp add: ToLower_def)

subsection \<open>Lower case and white space\<close>

lemma space_encodings_iff: "p \<in> set space_encodings \<longleftrightarrow> (\<exists>q. is_space q \<and> p = encode_rune q)"
proof -
  have "set ([9, 10, 11, 12, 13, 32, 133, 160, 5760] @ [8192..8202] @ [8232, 8233, 8239, 8287, 12288])
      = {q. is_space q}"
    unfolding set_append set_upto is_space_def by auto
  then show ?thesis unfolding space_encodings_def set_map by auto
qed

lemma space_valid: "is_space q \<Longrightarrow> valid_rune q \<and> q \<noteq> rune_error"
  by (auto simp: is_space_def valid_rune_def rune_error_def)

lemma starts_with_split: "starts_with s p \<longleftrightarrow> (\<exists>t. s = p @ t)"
  by (metis append_eq_conv_conj append_take_drop_id starts_with_def)

lemma untrimmed_space:
  assumes "trimmed_bytes bs" "is_space q"
  shows "\<not> starts_with bs (encode_rune q) \<and> \<not> starts_with (rev bs) (rev (encode_rune q))"
proof -
  have "encode_rune q \<in> set space_encodings" using assms(2) space_encodings_iff by blast
  with assms(1) show ?thesis by (auto simp: trimmed_bytes_def unstripped_def)
qed

lemma trimmed_bytesI:
  assumes "\<And>q. is_space q \<Longrightarrow> \<not> starts_with bs (encode_rune q)"
    "\<And>q. is_space q \<Longrightarrow> \<not> starts_with (rev bs) (rev (encode_rune q))"
  shows "trimmed_bytes bs"
proof -
  have "\<not> starts_with bs p \<and> \<not> starts_with (rev bs) (rev p)" if "p \<in> set space_encodings" for p
  proof -
    from that obtain q where "is_space q" "p = encode_rune q" using space_encodings_iff by blast
    with assms show ?thesis by simp
  qed
  then show ?thesis by (auto simp: trimmed_bytes_def unstripped_def)
qed

lemma trimmed_runes:
  assumes "trimmed_bytes bs" "\<forall>x \<in> set bs. 0 \<le> x" "byte_runes bs \<noteq> []"
  shows "\<not> is_space (hd (byte_runes bs)) \<and> \<not> is_space (last (byte_runes bs))"
proof (intro conjI notI)
  assume s: "is_space (hd (byte_runes bs))"
  obtain q qs where q: "byte_runes bs = q # qs" using assms(3) by (cases "byte_runes bs") blast+
  with s have "q \<noteq> rune_error" using space_valid by simp
  with q have "starts_with bs (encode_rune (hd (byte_runes bs)))"
    using byte_runes_hd [OF q _ assms(2)] by simp
  with s assms(1) show False using untrimmed_space by blast
next
  assume s: "is_space (last (byte_runes bs))"
  then obtain pre where "bs = pre @ encode_rune (last (byte_runes bs))"
    using byte_runes_last [OF assms(3) _ assms(2)] space_valid by blast
  then have "starts_with (rev bs) (rev (encode_rune (last (byte_runes bs))))"
    by (metis rev_append starts_with_split)
  with s assms(1) show False using untrimmed_space by blast
qed

lemma encoded_trimmed:
  assumes "list_all valid_rune rs" "rs \<noteq> [] \<Longrightarrow> \<not> is_space (hd rs) \<and> \<not> is_space (last rs)"
  shows "trimmed_bytes (concat (map encode_rune rs))"
proof -
  let ?bs = "concat (map encode_rune rs)"
  have "\<not> starts_with ?bs (encode_rune q)" if q: "is_space q" for q
  proof
    assume "starts_with ?bs (encode_rune q)"
    then obtain t where t: "?bs = encode_rune q @ t" by (auto simp: starts_with_split)
    obtain b cs where b: "encode_rune q = b # cs" by (cases "encode_rune q") auto
    have "decode_rune (b # cs @ t) = (q, length (b # cs))"
      using decode_encode [of q t] space_valid [OF q] b by simp
    then have "hd (byte_runes ?bs) = q \<and> byte_runes ?bs \<noteq> []"
      using t b by (simp del: decode_rune.simps)
    with q assms byte_runes_encode [OF assms(1)] show False by auto
  qed
  moreover have "\<not> starts_with (rev ?bs) (rev (encode_rune q))" if q: "is_space q" for q
  proof
    assume "starts_with (rev ?bs) (rev (encode_rune q))"
    then obtain t where "rev ?bs = rev (encode_rune q) @ t" by (auto simp: starts_with_split)
    then have t: "?bs = rev t @ encode_rune q" by (metis rev_append rev_rev_ident)
    then have "rs \<noteq> []" by auto
    then have "rs = butlast rs @ [last rs]" by simp
    then have "?bs = concat (map encode_rune (butlast rs @ [last rs]))" by simp
    also have "\<dots> = concat (map encode_rune (butlast rs)) @ encode_rune (last rs)"
      by (simp only: map_append concat_append) simp
    finally have "?bs = concat (map encode_rune (butlast rs)) @ encode_rune (last rs)" .
    moreover have "valid_rune (last rs)" using assms(1) \<open>rs \<noteq> []\<close> by (auto simp: list_all_iff)
    ultimately have "last rs = q" using t suffix_code space_valid [OF q] by metis
    with q assms \<open>rs \<noteq> []\<close> show False by auto
  qed
  ultimately show ?thesis by (rule trimmed_bytesI)
qed

lemma ToLower_trimmed:
  assumes "trimmed_bytes (map byte_of s)"
  shows "trimmed_bytes (map byte_of (ToLower s))"
  unfolding ToLower_bytes
proof (rule encoded_trimmed [OF lower_runes_valid])
  assume "map rune_lower (runes s) \<noteq> []"
  then have ne: "runes s \<noteq> []" by simp
  then have "\<not> is_space (hd (runes s)) \<and> \<not> is_space (last (runes s))"
    using trimmed_runes [OF assms] by (simp add: runes_def)
  with ne runes_valid [of s]
  show "\<not> is_space (hd (map rune_lower (runes s))) \<and> \<not> is_space (last (map rune_lower (runes s)))"
    by (auto simp: list_all_iff hd_map last_map rune_lower_image)
qed

lemma TrimSpace_ToLower_TrimSpace [simp]: "TrimSpace (ToLower (TrimSpace s)) = ToLower (TrimSpace s)"
  by (rule TrimSpace_fix, rule ToLower_trimmed, rule TrimSpace_trimmed)

end
