(* ===== verification/Normalize_Facts.thy ===== *)
theory Normalize_Facts
  imports Domain_Normalize Go_Utf8
begin

text \<open>
  What the normalisers of package \<open>domain\<close> guarantee: canonical commit identifiers, content
  digests that are canonical identifiers, topics, the round trip of change keys, and the shape of a
  normalised candidate delta.
\<close>

subsection \<open>Commit identifiers and digests\<close>

definition canonical_id :: "string \<Rightarrow> bool" where
  "canonical_id s \<longleftrightarrow> length s = 64 \<and> list_all is_lower_hex s"

lemma NormalizeContextCommitID_eq:
  "NormalizeContextCommitID v =
     (if length (TrimSpace v) = 64 \<and> list_all is_hex (TrimSpace v)
      then Inr (map ascii_lower (TrimSpace v)) else Inl CodeValidation)"
  by (simp add: NormalizeContextCommitID_def Let_def hex_decodes_def ToLower_hex)

lemma canonical_id_lower: "list_all is_hex s \<Longrightarrow> length s = 64 \<Longrightarrow> canonical_id (map ascii_lower s)"
  by (auto simp: canonical_id_def list_all_iff ascii_lower_hex)

lemma canonical_id_fixed: "canonical_id s \<Longrightarrow> NormalizeContextCommitID s = Inr s"
proof -
  assume s: "canonical_id s"
  then have "list_all is_hex s" by (auto simp: canonical_id_def list_all_iff lower_hex_is_hex)
  moreover from s have "map ascii_lower s = s"
    by (auto simp: canonical_id_def list_all_iff ascii_lower_lower_hex intro: map_idI)
  ultimately show ?thesis
    using s by (simp add: NormalizeContextCommitID_eq TrimSpace_hex canonical_id_def)
qed

lemma NormalizeContextCommitID_InrD: "NormalizeContextCommitID v = Inr y \<Longrightarrow> canonical_id y"
  by (auto simp: NormalizeContextCommitID_eq canonical_id_lower split: if_splits)

lemma canonical_id_iff: "NormalizeContextCommitID s = Inr s \<longleftrightarrow> canonical_id s"
  using canonical_id_fixed NormalizeContextCommitID_InrD by blast

lemma canonical_id_nonempty: "canonical_id s \<Longrightarrow> s \<noteq> []"
  by (auto simp: canonical_id_def)

text \<open>The commit identifier normaliser is a projection onto 64 lower-case hexadecimal digits:
  what it accepts it maps to such a string, and it accepts that string unchanged.\<close>

lemma commit_id_projection:
  assumes "NormalizeContextCommitID v = Inr y"
  shows "length y = 64 \<and> list_all is_lower_hex y \<and> NormalizeContextCommitID y = Inr y"
  using NormalizeContextCommitID_InrD [OF assms] canonical_id_fixed by (auto simp: canonical_id_def)

lemma commit_id_projection_example:
  "NormalizeContextCommitID (replicate 64 CHR ''A'') = Inr (replicate 64 CHR ''a'') \<and>
   NormalizeContextCommitID (replicate 64 CHR ''a'') = Inr (replicate 64 CHR ''a'')"
proof -
  have "list_all is_hex (replicate 64 CHR ''A'')"
    by (simp add: list_all_iff is_hex_def)
  moreover have upper_A: "ascii_lower CHR ''A'' = CHR ''a''" by code_simp
  ultimately have h: "NormalizeContextCommitID (replicate 64 CHR ''A'') = Inr (replicate 64 CHR ''a'')"
    using upper_A by (simp add: NormalizeContextCommitID_eq TrimSpace_hex)
  with commit_id_projection [OF h] show ?thesis by simp
qed

definition hash_32 :: "(string \<Rightarrow> string) \<Rightarrow> bool" where
  "hash_32 b3 \<longleftrightarrow> (\<forall>s. length (b3 s) = 32)"

lemma hex_digest_canonical: "hash_32 b3 \<Longrightarrow> canonical_id (hex_encode (b3 s))"
  by (simp add: canonical_id_def hash_32_def hex_encode_lower_hex)

lemma canonicalDigest_canonical: "hash_32 b3 \<Longrightarrow> canonicalDigest b3 v = Inr d \<Longrightarrow> canonical_id d"
  by (auto simp: canonicalDigest_def hex_digest_canonical split: option.splits)

lemma digestParts_canonical: "hash_32 b3 \<Longrightarrow> canonical_id (digestParts b3 parts)"
  by (simp add: digestParts_def hex_digest_canonical)

lemma canonicalDigest_code: "canonicalDigest b3 v = Inl e \<Longrightarrow> e = CodeValidation"
  by (auto simp: canonicalDigest_def split: option.splits)

subsection \<open>Topics\<close>

abbreviation topic_of :: "string \<Rightarrow> string" where
  "topic_of raw \<equiv> ToLower (TrimSpace raw)"

definition topic_ok :: "string \<Rightarrow> bool" where
  "topic_ok raw \<longleftrightarrow> topic_of raw \<noteq> [] \<and> length (runes (topic_of raw)) \<le> 64"

lemma NormalizeNoteTopics_eq:
  "NormalizeNoteTopics vs =
     (if \<not> 16 < length vs \<and> list_all topic_ok vs \<and> distinct (map topic_of vs)
      then Inr (sort (map topic_of vs)) else Inl CodeValidation)"
proof -
  let ?step = "\<lambda>(topics, seen) raw. let value = topic_of raw
     in if value = [] \<or> 64 < length (runes value) then Inl CodeValidation
        else if value \<in> seen then Inl CodeValidation
        else Inr (topics @ [value], insert value seen)"
  have "?step (acc, seen) x = (if \<not> topic_ok x then Inl CodeValidation
      else if topic_of x \<in> seen then Inl CodeValidation
      else Inr (acc @ [topic_of x], insert (topic_of x) seen))" for acc seen x
    by (auto simp: topic_ok_def Let_def)
  note loop = range_loop_collect_if [where step = ?step, OF this]
  have "range_loop ?step ([], {}) vs =
      (if list_all topic_ok vs \<and> distinct (map topic_of vs)
       then Inr (map topic_of vs, topic_of ` set vs) else Inl CodeValidation)"
    unfolding loop by (simp only: not_not append_Nil Un_empty_left Int_empty_right HOL.simp_thms eta_contract_eq)
  then show ?thesis
    unfolding NormalizeNoteTopics_def
    by (cases "16 < length vs"; cases "list_all topic_ok vs \<and> distinct (map topic_of vs)")
      (simp_all only: and_then.simps prod.case if_True if_False HOL.simp_thms)
qed

lemma topic_of_idem: "topic_of (topic_of v) = topic_of v"
  by simp

lemma topics_InrD:
  assumes "NormalizeNoteTopics vs = Inr ts"
  shows "\<not> 16 < length vs" "list_all topic_ok vs" "distinct (map topic_of vs)"
    "ts = sort (map topic_of vs)"
proof -
  let ?c = "\<not> 16 < length vs \<and> list_all topic_ok vs \<and> distinct (map topic_of vs)"
  have c: ?c
  proof (rule ccontr)
    assume "\<not> ?c"
    with assms show False unfolding NormalizeNoteTopics_eq by (simp only: if_False sum.distinct)
  qed
  then show "\<not> 16 < length vs" "list_all topic_ok vs" "distinct (map topic_of vs)" by blast+
  from assms c show "ts = sort (map topic_of vs)"
    unfolding NormalizeNoteTopics_eq by (simp only: HOL.simp_thms if_True sum.inject)
qed

lemma topics_fixed:
  assumes "NormalizeNoteTopics vs = Inr ts"
  shows "NormalizeNoteTopics ts = Inr ts"
proof -
  note vs = topics_InrD [OF assms]
  have "topic_of t = t" if "t \<in> set ts" for t
    using that unfolding vs(4) by (auto simp: topic_of_idem)
  then have m: "map topic_of ts = ts" by (simp add: map_idI)
  have "list_all topic_ok ts"
    using vs(2) unfolding vs(4) by (auto simp: list_all_iff topic_ok_def)
  moreover have "distinct ts" "length ts = length vs" "sort ts = ts"
    using vs(3) unfolding vs(4) by (simp_all add: sort_key_id_if_sorted)
  ultimately have "\<not> 16 < length ts \<and> list_all topic_ok ts \<and> distinct ts" "sort ts = ts"
    using vs(1) by simp_all
  then show ?thesis unfolding NormalizeNoteTopics_eq m by (simp only: if_True HOL.simp_thms)
qed

text \<open>C34: Accepted topics are canonical: sorted, without duplicates, at most 16 of them, each of 1 to
  64 characters, exactly the trimmed lower-case forms of the given ones, and accepted unchanged by
  a second normalisation.\<close>

theorem note_topics_canonical:
  assumes "NormalizeNoteTopics vs = Inr ts"
  shows "sorted ts \<and> distinct ts \<and> length ts = length vs \<and> length ts \<le> 16
    \<and> set ts = topic_of ` set vs \<and> list_all (\<lambda>t. t \<noteq> [] \<and> length (runes t) \<le> 64) ts
    \<and> NormalizeNoteTopics ts = Inr ts"
proof -
  note vs = topics_InrD [OF assms]
  have "list_all (\<lambda>t. t \<noteq> [] \<and> length (runes t) \<le> 64) ts"
    using vs(2) unfolding vs(4) by (auto simp: list_all_iff topic_ok_def)
  moreover have "sorted ts \<and> distinct ts \<and> length ts = length vs \<and> set ts = topic_of ` set vs"
    using vs(3) unfolding vs(4) by simp
  moreover from vs(1) this have "length ts \<le> 16" by linarith
  ultimately show ?thesis using topics_fixed [OF assms] by blast
qed

theorem note_topics_canonical_witness:
  "NormalizeNoteTopics [''Retry'', ''API''] = Inr [''api'', ''retry'']
   \<and> NormalizeNoteTopics [''api'', ''retry''] = Inr [''api'', ''retry'']"
proof -
  have t: "TrimSpace ''Retry'' = ''Retry''" "TrimSpace ''API'' = ''API''"
    by (rule TrimSpace_graphic, simp add: graphic_def)+
  have l: "ToLower ''Retry'' = ''retry''" "ToLower ''API'' = ''api''"
    by (subst ToLower_ascii, simp, code_simp)+
  have "runes ''retry'' = [114, 101, 116, 114, 121]" "runes ''api'' = [97, 112, 105]"
    by (simp_all add: runes_def)
  with t l have ok: "list_all topic_ok [''Retry'', ''API'']" by (simp add: topic_ok_def)
  have "sort [''retry'', ''api''] = [''api'', ''retry'']" by code_simp
  with t l ok have h: "NormalizeNoteTopics [''Retry'', ''API''] = Inr [''api'', ''retry'']"
    by (simp add: NormalizeNoteTopics_eq)
  with note_topics_canonical [OF h] show ?thesis by blast
qed

end
