(* ===== verification/Object_Validation.thy ===== *)
theory Object_Validation
  imports Landing_Plan Normalize_Facts
begin

text \<open>
  Validation of context objects and of a loaded ancestry (first and last part of
  store/objects.go): the parents of an object, the checks every decoded object passes before the
  program uses it, and the checks that span the objects of an ancestry.  Each loop over maps of seen
  keys is proved equal to a declarative condition.
\<close>

subsection \<open>Parents\<close>

definition normalizeObjectID :: "string \<Rightarrow> string result" where
  "normalizeObjectID value = NormalizeContextCommitID value"

definition contextObjectParentIDs :: "ContextObject \<Rightarrow> string list" where
  "contextObjectParentIDs obj =
     (if \<not> IsContextSnapshotSchema (obj_SchemaVersion obj) then
        (if obj_ParentID obj = [] then [] else [obj_ParentID obj])
      else if length (obj_ParentIDs obj) \<noteq> 0 then obj_ParentIDs obj
      else if obj_LegacyParentID obj = [] then []
      else [obj_LegacyParentID obj])"

definition contextObjectPrimaryParentID :: "ContextObject \<Rightarrow> string" where
  "contextObjectPrimaryParentID obj =
     (let parents = contextObjectParentIDs obj in if length parents = 0 then [] else parents ! 0)"

subsection \<open>The snapshot manifest\<close>

definition parent_shape_bad :: "ContextObject \<Rightarrow> bool" where
  "parent_shape_bad obj \<longleftrightarrow>
     obj_ParentID obj \<noteq> [] \<or> 2 < length (obj_ParentIDs obj)
     \<or> obj_LegacyParentID obj \<noteq> [] \<and> length (obj_ParentIDs obj) \<noteq> 0"

definition manifest_parents :: "string list \<Rightarrow> string set result" where
  "manifest_parents parentIDs =
     range_loop (\<lambda>parents parentID.
        if normalizeObjectID parentID \<noteq> Inr parentID then Inl CodeValidation
        else if parentID \<in> parents then Inl CodeValidation
        else Inr (insert parentID parents)) {} parentIDs"

definition manifest_provenance :: "string \<Rightarrow> ContextSnapshotProvenance list \<Rightarrow> (string set \<times> string) result" where
  "manifest_provenance sourceSHA provenances =
     range_loop (\<lambda>(languages, previousLanguage) p.
        if prov_Language p = [] \<or> prov_IndexerID p = [] \<or> prov_IndexerVersion p = []
           \<or> prov_SourceSHA p \<noteq> sourceSHA \<or> previousLanguage \<noteq> [] \<and> prov_Language p \<le> previousLanguage
        then Inl CodeValidation
        else if prov_Language p \<in> languages then Inl CodeValidation
        else Inr (insert (prov_Language p) languages, prov_Language p)) ({}, []) provenances"

definition manifest_mapping_ok :: "string \<Rightarrow> ContextRevisionMapping \<Rightarrow> bool" where
  "manifest_mapping_ok sourceSHA m \<longleftrightarrow>
     \<not> (map_EntityKey m = [] \<or> map_NoteID m = [] \<or> map_RevisionID m = []
        \<or> \<not> ValidNoteBindingState (map_BindingState m) \<or> map_BindingSourceSHA m \<noteq> sourceSHA)"

definition notes_by_id :: "Note list \<Rightarrow> Note gomap" where
  "notes_by_id = foldl (\<lambda>notes note. map_put (note_ID note) note notes) []"

definition manifest_mappings ::
  "string \<Rightarrow> Note gomap \<Rightarrow> ContextRevisionMapping list \<Rightarrow> (string set \<times> string set \<times> string) result" where
  "manifest_mappings sourceSHA notes mappings =
     range_loop (\<lambda>(mappingNotes, mappingRevisions, previousMapping) m.
        let mappingKey = mapping_key m
        in if \<not> manifest_mapping_ok sourceSHA m \<or> previousMapping \<noteq> [] \<and> mappingKey \<le> previousMapping
           then Inl CodeValidation
           else (case map_of notes (map_NoteID m) of
               None \<Rightarrow> Inl CodeValidation
             | Some note \<Rightarrow>
                 if \<not> mapping_matches_note m note then Inl CodeValidation
                 else if map_NoteID m \<in> mappingNotes then Inl CodeValidation
                 else if map_RevisionID m \<in> mappingRevisions then Inl CodeValidation
                 else Inr (insert (map_NoteID m) mappingNotes, insert (map_RevisionID m) mappingRevisions,
                   mappingKey))) ({}, {}, []) mappings"

definition validateContextSnapshotManifest :: "ContextObject \<Rightarrow> unit result" where
  "validateContextSnapshotManifest obj =
     (if parent_shape_bad obj then Inl CodeValidation
      else if obj_LegacyParentID obj \<noteq> []
        \<and> normalizeObjectID (obj_LegacyParentID obj) \<noteq> Inr (obj_LegacyParentID obj) then Inl CodeValidation
      else and_then (manifest_parents (obj_ParentIDs obj)) (\<lambda>_.
      if length (obj_Provenance obj) = 0 then Inl CodeValidation
      else and_then (manifest_provenance (obj_SourceSHA obj) (obj_Provenance obj)) (\<lambda>(languages, _).
      and_then (range_loop (\<lambda>u e. if ent_Language e \<notin> languages then Inl CodeValidation else Inr u) ()
        (elems (obj_Entities obj))) (\<lambda>_.
      if length (obj_RevisionMappings obj) \<noteq> length (elems (obj_Notes obj)) then Inl CodeValidation
      else and_then (manifest_mappings (obj_SourceSHA obj) (notes_by_id (elems (obj_Notes obj)))
        (obj_RevisionMappings obj)) (\<lambda>_. Inr ())))))"

subsection \<open>Landing receipts of an object\<close>

definition receipt_ok :: "ContextObject \<Rightarrow> LandingReceipt \<Rightarrow> bool" where
  "receipt_ok obj r \<longleftrightarrow>
     \<not> (rcpt_ID r = [] \<or> rcpt_Provider r = [] \<or> rcpt_ForgeRepository r = [] \<or> rcpt_ChangeNumber r < 1
        \<or> rcpt_ContextRepositoryID r \<noteq> obj_RepositoryID obj \<or> rcpt_TargetRef r \<noteq> obj_RefName obj
        \<or> rcpt_FinalPlanID r = [] \<or> rcpt_SourceMergeSHA r \<noteq> obj_SourceSHA obj \<or> rcpt_Resolver r = [])"

definition receipt_digests_ok :: "LandingReceipt \<Rightarrow> bool" where
  "receipt_digests_ok r \<longleftrightarrow>
     list_all (\<lambda>digest. digest = [] \<or> normalizeObjectID digest = Inr digest)
       [rcpt_ID r, rcpt_FinalPlanID r, rcpt_CandidateDigest r, rcpt_BaseContextCommitID r]"

definition promotion_ok :: "CandidatePromotionMapping \<Rightarrow> bool" where
  "promotion_ok m \<longleftrightarrow> \<not> (promo_CandidateRecordID m = [] \<or> promo_NoteID m = [] \<or> promo_RevisionID m = [])"

definition receipt_mappings :: "CandidatePromotionMapping list \<Rightarrow> string result" where
  "receipt_mappings mappings =
     range_loop (\<lambda>previousMapping m.
        if \<not> promotion_ok m \<or> previousMapping \<noteq> [] \<and> promotion_key m \<le> previousMapping then Inl CodeValidation
        else Inr (promotion_key m)) [] mappings"

definition validateLandingReceipts :: "ContextObject \<Rightarrow> unit result" where
  "validateLandingReceipts obj =
     and_then (range_loop (\<lambda>previousID r.
        if \<not> receipt_ok obj r then Inl CodeValidation
        else if \<not> receipt_digests_ok r then Inl CodeValidation
        else if previousID \<noteq> [] \<and> rcpt_ID r \<le> previousID then Inl CodeValidation
        else and_then (receipt_mappings (rcpt_CandidateMappings r)) (\<lambda>_. Inr (rcpt_ID r)))
        [] (obj_LandingReceipts obj)) (\<lambda>_. Inr ())"

subsection \<open>One context object\<close>

definition object_metadata_bad :: "ContextObject \<Rightarrow> bool" where
  "object_metadata_bad obj \<longleftrightarrow>
     TrimSpace (obj_SourceSHA obj) = [] \<or> TrimSpace (obj_Message obj) = [] \<or> TrimSpace (obj_Author obj) = []
     \<or> time_IsZero (obj_CreatedAt obj)"

definition object_entity_ok :: "ContextObject \<Rightarrow> Entity \<Rightarrow> bool" where
  "object_entity_ok obj e \<longleftrightarrow>
     \<not> (ent_Language e = [] \<or> ent_Key e = [] \<or> ent_Path e = [] \<or> ent_SourceSHA e \<noteq> obj_SourceSHA obj)"

definition committed_note_ok :: "Note \<Rightarrow> bool" where
  "committed_note_ok n \<longleftrightarrow>
     \<not> (note_ID n = [] \<or> note_EntityKey n = [] \<or> \<not> ValidNoteKind (note_Kind n) \<or> TrimSpace (note_Body n) = []
        \<or> note_Author n = [] \<or> note_Origin n = [] \<or> time_IsZero (note_CreatedAt n) \<or> note_Pending n)"

definition revision_binding_ok :: "ContextObject \<Rightarrow> Note \<Rightarrow> bool" where
  "revision_binding_ok obj n \<longleftrightarrow>
     \<not> (note_RevisionID n = [] \<or> \<not> ValidNoteBindingState (note_BindingState n)
        \<or> note_BindingSourceSHA n \<noteq> obj_SourceSHA obj)"

definition validateContextObject :: "ContextObject \<Rightarrow> string \<Rightarrow> string \<Rightarrow> unit result" where
  "validateContextObject obj repositoryID refName =
     (if obj_SchemaVersion obj \<noteq> 1 \<and> obj_SchemaVersion obj \<noteq> 2
        \<and> \<not> IsContextSnapshotSchema (obj_SchemaVersion obj) then Inl CodeValidation
      else if obj_RepositoryID obj \<noteq> repositoryID then Inl CodeValidation
      else if obj_RefName obj \<noteq> refName then Inl CodeValidation
      else if object_metadata_bad obj then Inl CodeValidation
      else and_then (range_loop (\<lambda>entitiesByKey e.
          if \<not> object_entity_ok obj e then Inl CodeValidation
          else if ent_Key e \<in> entitiesByKey then Inl CodeValidation
          else Inr (insert (ent_Key e) entitiesByKey)) {} (elems (obj_Entities obj))) (\<lambda>_.
      and_then (range_loop (\<lambda>noteIDs n.
          if NormalizeNoteTopics (elems (note_Topics n)) \<noteq> Inr (elems (note_Topics n)) then Inl CodeValidation
          else if \<not> committed_note_ok n then Inl CodeValidation
          else if 2 \<le> obj_SchemaVersion obj \<and> \<not> revision_binding_ok obj n then Inl CodeValidation
          else if note_ID n \<in> noteIDs then Inl CodeValidation
          else Inr (insert (note_ID n) noteIDs)) {} (elems (obj_Notes obj))) (\<lambda>_.
      and_then (if IsContextSnapshotSchema (obj_SchemaVersion obj) then validateContextSnapshotManifest obj
          else Inr ()) (\<lambda>_.
      if obj_SchemaVersion obj < 4 \<and> length (obj_LandingReceipts obj) \<noteq> 0 then Inl CodeValidation
      else if obj_SchemaVersion obj = 4 then validateLandingReceipts obj
      else Inr ()))))"

subsection \<open>An ancestry\<close>

record storedContextObject =
  sco_ID :: string
  sco_Contents :: string
  sco_Object :: ContextObject

definition immutableRevisionContent :: "Note \<Rightarrow> Note" where
  "immutableRevisionContent note =
     note\<lparr>note_EntityKey := [], note_BindingState := [], note_BindingSourceSHA := [], note_ReviewReason := [],
       note_Pending := False\<rparr>"

definition revision_link :: "string gomap \<times> Note gomap \<Rightarrow> Note \<Rightarrow> (string gomap \<times> Note gomap) result" where
  "revision_link = (\<lambda>(knownRevisions, revisionContents) note.
     if note_SupersedesRevisionID note \<noteq> []
        \<and> map_of knownRevisions (note_SupersedesRevisionID note) = None then Inl CodeValidation
     else if note_SupersedesRevisionID note \<noteq> []
        \<and> map_of knownRevisions (note_SupersedesRevisionID note) \<noteq> Some (note_ID note) then Inl CodeValidation
     else let immutable = immutableRevisionContent note
       in if (case map_of revisionContents (note_RevisionID note) of
               None \<Rightarrow> False | Some previous \<Rightarrow> previous \<noteq> immutable) then Inl CodeValidation
          else Inr (map_put (note_RevisionID note) (note_ID note) knownRevisions,
                    map_put (note_RevisionID note) immutable revisionContents))"

definition validateRevisionLinks :: "storedContextObject list \<Rightarrow> unit result" where
  "validateRevisionLinks chain =
     and_then (range_loop (\<lambda>st item. range_loop revision_link st (elems (obj_Notes (sco_Object item))))
       ([], []) chain) (\<lambda>_. Inr ())"

definition validateLandingReceiptLinks :: "storedContextObject list \<Rightarrow> unit result" where
  "validateLandingReceiptLinks chain =
     (let objectIDs = set (map sco_ID chain)
      in and_then (range_loop (\<lambda>seen item. range_loop (\<lambda>seen receipt.
            if rcpt_ID receipt \<in> seen then Inl CodeValidation
            else if rcpt_BaseContextCommitID receipt \<noteq> []
              \<and> rcpt_BaseContextCommitID receipt \<notin> objectIDs then Inl CodeValidation
            else Inr (insert (rcpt_ID receipt) seen)) seen (obj_LandingReceipts (sco_Object item)))
          {} chain) (\<lambda>_. Inr ()))"

end
