(* ===== verification/Object_Json.thy ===== *)
theory Object_Json
  imports Object_Validation
begin

text \<open>The JSON text of a context object, as \<open>json.Marshal\<close> writes the structs of domain.go.\<close>

definition promotion_json :: "CandidatePromotionMapping \<Rightarrow> json" where
  "promotion_json m = JObject (fld_s ''candidate_record_id'' (promo_CandidateRecordID m)
     @ fld_s ''note_id'' (promo_NoteID m) @ fld_s ''revision_id'' (promo_RevisionID m))"

definition receipt_json :: "LandingReceipt \<Rightarrow> json" where
  "receipt_json r = JObject (fld_s ''id'' (rcpt_ID r) @ fld_s ''provider'' (rcpt_Provider r)
     @ fld_s ''forge_repository'' (rcpt_ForgeRepository r) @ fld ''change_number'' (JInt (rcpt_ChangeNumber r))
     @ fld_s ''context_repository_id'' (rcpt_ContextRepositoryID r) @ fld_s ''target_ref'' (rcpt_TargetRef r)
     @ fld_omit ''candidate_digest'' (rcpt_CandidateDigest r) @ fld_s ''final_plan_id'' (rcpt_FinalPlanID r)
     @ fld_s ''source_merge_sha'' (rcpt_SourceMergeSHA r)
     @ fld_omit ''base_context_commit_id'' (rcpt_BaseContextCommitID r) @ fld_s ''resolver'' (rcpt_Resolver r)
     @ fld_omit_list ''candidate_mappings'' (map promotion_json (rcpt_CandidateMappings r)))"

definition object_json :: "ContextObject \<Rightarrow> json" where
  "object_json x = JObject (fld ''schema_version'' (JInt (obj_SchemaVersion x))
     @ fld_s ''repository_id'' (obj_RepositoryID x) @ fld_s ''ref_name'' (obj_RefName x)
     @ fld_omit ''parent_id'' (obj_ParentID x) @ fld_omit_list ''parent_ids'' (map JString (obj_ParentIDs x))
     @ fld_omit ''legacy_parent_id'' (obj_LegacyParentID x) @ fld_s ''source_sha'' (obj_SourceSHA x)
     @ fld_s ''message'' (obj_Message x) @ fld_s ''author'' (obj_Author x) @ fld ''created_at'' (JTime (obj_CreatedAt x))
     @ fld_omit_list ''provenance'' (map provenance_json (obj_Provenance x))
     @ fld ''entities'' (json_slice (map_option (map entity_json) (obj_Entities x)))
     @ fld ''notes'' (json_slice (map_option (map note_json) (obj_Notes x)))
     @ fld_omit_list ''revision_mappings'' (map mapping_json (obj_RevisionMappings x))
     @ fld_omit_list ''landing_receipts'' (map receipt_json (obj_LandingReceipts x)))"

end
