(* ===== verification/Sql_Transactions.thy ===== *)
theory Sql_Transactions
  imports Normalize_Facts
begin

text \<open>
  Tables and transactions, shared by the SQL databases of the program (the refs database of a server
  and the local context store).  A table is the list of its rows in the order of their insertion.
  A transaction sees the database as it was at its start and its writes appear at once when it
  commits, or not at all when it returns an error; a failure of the driver is an aborted transaction.
\<close>

subsection \<open>Rows\<close>

text \<open>\<open>Take\<close> without \<open>Order\<close>: the first row the condition selects.\<close>

definition take_row :: "('r \<Rightarrow> bool) \<Rightarrow> 'r list \<Rightarrow> 'r option" where
  "take_row P rows = List.find P rows"

text \<open>\<open>Order\<close> and then \<open>Take\<close> or \<open>Limit\<close>.\<close>

definition order_rows :: "('r \<Rightarrow> 'k::linorder) \<Rightarrow> ('r \<Rightarrow> bool) \<Rightarrow> 'r list \<Rightarrow> 'r list" where
  "order_rows k P rows = sort_key k (filter P rows)"

definition first_row :: "('r \<Rightarrow> 'k::linorder) \<Rightarrow> ('r \<Rightarrow> bool) \<Rightarrow> 'r list \<Rightarrow> 'r option" where
  "first_row k P rows = (case order_rows k P rows of [] \<Rightarrow> None | r # _ \<Rightarrow> Some r)"

definition update_rows :: "('r \<Rightarrow> bool) \<Rightarrow> ('r \<Rightarrow> 'r) \<Rightarrow> 'r list \<Rightarrow> 'r list" where
  "update_rows P f rows = map (\<lambda>r. if P r then f r else r) rows"

definition rows_affected :: "('r \<Rightarrow> bool) \<Rightarrow> 'r list \<Rightarrow> nat" where
  "rows_affected P rows = length (filter P rows)"

lemma take_row_Some: "take_row P rows = Some r \<Longrightarrow> r \<in> set rows \<and> P r"
  by (auto simp: take_row_def find_Some_iff)

lemma take_row_None: "take_row P rows = None \<longleftrightarrow> (\<forall>r \<in> set rows. \<not> P r)"
  by (auto simp: take_row_def find_None_iff)

lemma first_row_Some: "first_row k P rows = Some r \<Longrightarrow> r \<in> set rows \<and> P r"
proof -
  assume "first_row k P rows = Some r"
  then have "r \<in> set (order_rows k P rows)" by (auto simp: first_row_def split: list.splits)
  then show ?thesis by (simp add: order_rows_def)
qed

lemma first_row_least:
  assumes "first_row k P rows = Some r" "x \<in> set rows" "P x"
  shows "k r \<le> k x"
proof -
  from assms(1) obtain rs where o: "order_rows k P rows = r # rs" by (auto simp: first_row_def split: list.splits)
  have "sorted (map k (order_rows k P rows))" by (simp add: order_rows_def)
  moreover have "x \<in> set (order_rows k P rows)" using assms(2,3) by (simp add: order_rows_def)
  ultimately show ?thesis by (auto simp: o)
qed

lemma update_rows_set: "set (update_rows P f rows) = f ` {r \<in> set rows. P r} \<union> {r \<in> set rows. \<not> P r}"
  by (auto simp: update_rows_def)

lemma update_rows_key:
  "(\<And>r. P r \<Longrightarrow> key (f r) = key r) \<Longrightarrow> map key (update_rows P f rows) = map key rows"
  by (auto simp: update_rows_def)

lemma rows_affected_pos: "rows_affected P rows = 1 \<Longrightarrow> \<exists>r \<in> set rows. P r"
proof -
  assume "rows_affected P rows = 1"
  then have "filter P rows \<noteq> []" by (auto simp: rows_affected_def)
  then show ?thesis by (auto simp: filter_empty_conv)
qed

text \<open>A condition that fixes a unique column selects at most one row.\<close>

lemma rows_affected_key:
  assumes "distinct (map key rows)" "\<And>r. P r \<Longrightarrow> key r = k"
  shows "rows_affected P rows \<le> 1"
proof -
  have "distinct (map key (filter P rows))" using assms(1) by (rule distinct_map_filter)
  moreover have "set (map key (filter P rows)) \<subseteq> {k}" using assms(2) by auto
  ultimately have "length (map key (filter P rows)) \<le> card {k}"
    by (metis card_mono distinct_card finite.emptyI finite.insertI)
  then show ?thesis by (simp add: rows_affected_def)
qed

subsection \<open>Times\<close>

definition time_Add :: "go_time \<Rightarrow> int \<Rightarrow> go_time" where
  "time_Add t d = t\<lparr>time_instant := time_instant t + d\<rparr>"

definition not_after :: "go_time \<Rightarrow> go_time \<Rightarrow> bool" where
  "not_after t u \<longleftrightarrow> time_instant t \<le> time_instant u"

definition Second :: int where
  "Second = 1000000000"

subsection \<open>Transactions\<close>

type_synonym ('s, 'a) statements = "'s \<Rightarrow> ('s \<times> 'a) result"

definition tx_return :: "'a \<Rightarrow> ('s, 'a) statements" where
  "tx_return x = (\<lambda>db. Inr (db, x))"

definition tx_fail :: "ErrorCode \<Rightarrow> ('s, 'a) statements" where
  "tx_fail e = (\<lambda>db. Inl e)"

definition tx_bind :: "('s, 'a) statements \<Rightarrow> ('a \<Rightarrow> ('s, 'b) statements) \<Rightarrow> ('s, 'b) statements" where
  "tx_bind m f = (\<lambda>db. case m db of Inl e \<Rightarrow> Inl e | Inr (db', x) \<Rightarrow> f x db')"

definition tx_read :: "('s \<Rightarrow> 'a) \<Rightarrow> ('s, 'a) statements" where
  "tx_read f = (\<lambda>db. Inr (db, f db))"

definition tx_lift :: "'a result \<Rightarrow> ('s, 'a) statements" where
  "tx_lift r = (\<lambda>db. case r of Inl e \<Rightarrow> Inl e | Inr x \<Rightarrow> Inr (db, x))"

lemmas tx_defs = tx_return_def tx_fail_def tx_bind_def tx_read_def tx_lift_def

text \<open>
  The statements of a transaction: \<open>Updates\<close> of the selected rows (its value is \<open>RowsAffected\<close>),
  \<open>Create\<close>, which fails on a duplicate primary key or unique column, and the check of a condition.
\<close>

definition tx_update :: "(('r list \<Rightarrow> 'r list) \<Rightarrow> 's \<Rightarrow> 's) \<Rightarrow> ('s \<Rightarrow> 'r list)
    \<Rightarrow> ('r \<Rightarrow> bool) \<Rightarrow> ('r \<Rightarrow> 'r) \<Rightarrow> ('s, nat) statements" where
  "tx_update upd rows P f = (\<lambda>db. Inr (upd (update_rows P f) db, rows_affected P (rows db)))"

definition tx_insert :: "(('r list \<Rightarrow> 'r list) \<Rightarrow> 's \<Rightarrow> 's) \<Rightarrow> ('s \<Rightarrow> 'r list)
    \<Rightarrow> ('r \<Rightarrow> bool) \<Rightarrow> 'r \<Rightarrow> ('s, unit) statements" where
  "tx_insert upd rows clash r =
     (\<lambda>db. if list_ex clash (rows db) then Inl CodeLocalStorage else Inr (upd (\<lambda>rs. rs @ [r]) db, ()))"

definition tx_check :: "bool \<Rightarrow> ErrorCode \<Rightarrow> ('s, unit) statements" where
  "tx_check ok e = (\<lambda>db. if ok then Inr (db, ()) else Inl e)"

definition tx_found :: "'r option \<Rightarrow> ErrorCode \<Rightarrow> ('s, 'r) statements" where
  "tx_found row e = (\<lambda>db. case row of None \<Rightarrow> Inl e | Some r \<Rightarrow> Inr (db, r))"

text \<open>\<open>DELETE\<close>, \<open>INSERT ... ON CONFLICT DO UPDATE\<close>, \<open>INSERT OR IGNORE\<close>, and a loop of statements.\<close>

definition tx_delete :: "(('r list \<Rightarrow> 'r list) \<Rightarrow> 's \<Rightarrow> 's) \<Rightarrow> ('r \<Rightarrow> bool) \<Rightarrow> ('s, unit) statements" where
  "tx_delete upd P = (\<lambda>db. Inr (upd (filter (\<lambda>r. \<not> P r)) db, ()))"

definition upsert_rows :: "('r \<Rightarrow> bool) \<Rightarrow> ('r \<Rightarrow> 'r) \<Rightarrow> 'r \<Rightarrow> 'r list \<Rightarrow> 'r list" where
  "upsert_rows same f r rows = (if list_ex same rows then update_rows same f rows else rows @ [r])"

definition tx_upsert :: "(('r list \<Rightarrow> 'r list) \<Rightarrow> 's \<Rightarrow> 's) \<Rightarrow> ('r \<Rightarrow> bool) \<Rightarrow> ('r \<Rightarrow> 'r) \<Rightarrow> 'r \<Rightarrow> ('s, unit) statements" where
  "tx_upsert upd same f r = (\<lambda>db. Inr (upd (upsert_rows same f r) db, ()))"

definition ignore_rows :: "('r \<Rightarrow> bool) \<Rightarrow> 'r \<Rightarrow> 'r list \<Rightarrow> 'r list" where
  "ignore_rows clash r rows = (if list_ex clash rows then rows else rows @ [r])"

definition tx_insert_ignore :: "(('r list \<Rightarrow> 'r list) \<Rightarrow> 's \<Rightarrow> 's) \<Rightarrow> ('r \<Rightarrow> bool) \<Rightarrow> 'r \<Rightarrow> ('s, unit) statements" where
  "tx_insert_ignore upd clash r = (\<lambda>db. Inr (upd (ignore_rows clash r) db, ()))"

primrec tx_each :: "('x \<Rightarrow> ('s, unit) statements) \<Rightarrow> 'x list \<Rightarrow> ('s, unit) statements" where
  "tx_each f [] = tx_return ()"
| "tx_each f (x # xs) = tx_bind (f x) (\<lambda>_. tx_each f xs)"

text \<open>\<open>g.db.Transaction\<close>, \<open>withImmediate\<close>\<close>

definition transaction :: "('s, 'a) statements \<Rightarrow> 's \<Rightarrow> 's \<times> 'a result" where
  "transaction body db = (case body db of Inl e \<Rightarrow> (db, Inl e) | Inr (db', x) \<Rightarrow> (db', Inr x))"

lemma tx_bind_Inr: "tx_bind m f db = Inr (db', y) \<longleftrightarrow> (\<exists>d x. m db = Inr (d, x) \<and> f x d = Inr (db', y))"
  by (auto simp: tx_bind_def split: sum.splits)

lemma tx_simps [simp]:
  "tx_return x db = Inr (db', y) \<longleftrightarrow> db' = db \<and> y = x"
  "tx_fail e db = Inl e"
  "tx_read f db = Inr (db', z) \<longleftrightarrow> db' = db \<and> z = f db"
  "tx_lift s db = Inr (db', y) \<longleftrightarrow> db' = db \<and> s = Inr y"
  "tx_update upd rows P g db = Inr (db', n) \<longleftrightarrow> db' = upd (update_rows P g) db \<and> n = rows_affected P (rows db)"
  "tx_insert upd rows clash r db = Inr (db', u) \<longleftrightarrow> \<not> list_ex clash (rows db) \<and> db' = upd (\<lambda>rs. rs @ [r]) db"
  "tx_check ok e db = Inr (db', u) \<longleftrightarrow> ok \<and> db' = db"
  "tx_found row e db = Inr (db', r') \<longleftrightarrow> row = Some r' \<and> db' = db"
  by (auto simp: tx_defs tx_update_def tx_insert_def tx_check_def tx_found_def split: sum.splits option.splits)

lemma tx_more_simps [simp]:
  "tx_delete upd P db = Inr (db', u) \<longleftrightarrow> db' = upd (filter (\<lambda>r. \<not> P r)) db"
  "tx_upsert upd same g r db = Inr (db', u) \<longleftrightarrow> db' = upd (upsert_rows same g r) db"
  "tx_insert_ignore upd clash r db = Inr (db', u) \<longleftrightarrow> db' = upd (ignore_rows clash r) db"
  by (auto simp: tx_delete_def tx_upsert_def tx_insert_ignore_def)

lemma tx_each_inv:
  assumes "tx_each f xs db = Inr (db', u)" "P db" "\<And>x d d'. x \<in> set xs \<Longrightarrow> f x d = Inr (d', ()) \<Longrightarrow> P d \<Longrightarrow> P d'"
  shows "P db'"
  using assms
proof (induction xs arbitrary: db)
  case (Cons x xs)
  from Cons.prems(1) obtain d where d: "f x db = Inr (d, ())" "tx_each f xs d = Inr (db', u)" by (auto simp: tx_bind_Inr)
  have "P d" by (rule Cons.prems(3) [OF _ d(1) Cons.prems(2)]) simp
  then show ?case by (rule Cons.IH [OF d(2)]) (rule Cons.prems(3), simp_all)
qed simp

lemma transaction_Inr: "transaction body db = (db', Inr x) \<longleftrightarrow> body db = Inr (db', x)"
  by (auto simp: transaction_def split: sum.splits)

lemma transaction_Inl: "transaction body db = (db', Inl e) \<longleftrightarrow> body db = Inl e \<and> db' = db"
  by (auto simp: transaction_def split: sum.splits)

text \<open>A property of the database that the body keeps, the transaction keeps.\<close>

lemma transaction_inv:
  "(\<And>db' x. body db = Inr (db', x) \<Longrightarrow> P db') \<Longrightarrow> P db \<Longrightarrow> P (fst (transaction body db))"
  by (auto simp: transaction_def split: sum.splits)

subsection \<open>Keys and histories of tables\<close>

definition table_ok :: "('r \<Rightarrow> 'k) \<Rightarrow> ('r \<Rightarrow> bool) \<Rightarrow> 'r list \<Rightarrow> bool" where
  "table_ok key ok rows \<longleftrightarrow> distinct (map key rows) \<and> (\<forall>r \<in> set rows. ok r)"

definition keeps_rows :: "('r \<Rightarrow> 'r \<Rightarrow> bool) \<Rightarrow> 'r list \<Rightarrow> 'r list \<Rightarrow> bool" where
  "keeps_rows step rows rows' \<longleftrightarrow> (\<forall>r \<in> set rows. \<exists>r' \<in> set rows'. step r r')"

lemma table_ok_update:
  assumes "table_ok key ok rows" "\<And>r. r \<in> set rows \<Longrightarrow> P r \<Longrightarrow> key (f r) = key r \<and> ok (f r)"
  shows "table_ok key ok (update_rows P f rows)"
proof -
  have keys: "map key (update_rows P f rows) = map key rows" using assms(2) by (auto simp: update_rows_def)
  have "\<forall>r \<in> set (update_rows P f rows). ok r" using assms by (auto simp: table_ok_def update_rows_def)
  with assms(1) show ?thesis unfolding table_ok_def keys by blast
qed

lemma table_ok_append [simp]:
  "table_ok key ok (rows @ [r]) \<longleftrightarrow> table_ok key ok rows \<and> key r \<notin> key ` set rows \<and> ok r"
  by (auto simp: table_ok_def)

lemma table_ok_unique:
  "table_ok key ok rows \<Longrightarrow> r \<in> set rows \<Longrightarrow> x \<in> set rows \<Longrightarrow> key x = key r \<Longrightarrow> x = r"
  unfolding table_ok_def by (metis inj_on_def distinct_map)

lemma table_ok_row: "table_ok key ok rows \<Longrightarrow> r \<in> set rows \<Longrightarrow> ok r"
  by (simp add: table_ok_def)

lemma keeps_rows_refl: "(\<And>r. step r r) \<Longrightarrow> keeps_rows step rows rows"
  by (auto simp: keeps_rows_def)

lemma keeps_rows_trans:
  "keeps_rows step a b \<Longrightarrow> keeps_rows step b c \<Longrightarrow> (\<And>x y z. step x y \<Longrightarrow> step y z \<Longrightarrow> step x z) \<Longrightarrow> keeps_rows step a c"
  unfolding keeps_rows_def by meson

lemma keeps_rows_append: "(\<And>r. step r r) \<Longrightarrow> keeps_rows step rows (rows @ [r])"
  by (auto simp: keeps_rows_def)

lemma keeps_rows_update:
  "(\<And>r. step r r) \<Longrightarrow> (\<And>r. r \<in> set rows \<Longrightarrow> P r \<Longrightarrow> step r (f r)) \<Longrightarrow> keeps_rows step rows (update_rows P f rows)"
  by (auto simp: keeps_rows_def update_rows_def) blast

lemma table_ok_mono: "table_ok key ok rows \<Longrightarrow> (\<And>r. ok r \<Longrightarrow> ok' r) \<Longrightarrow> table_ok key ok' rows"
  by (auto simp: table_ok_def)

lemma table_ok_filter: "table_ok key ok rows \<Longrightarrow> table_ok key ok (filter P rows)"
  by (auto simp: table_ok_def distinct_map_filter)

lemma table_ok_upsert:
  assumes "table_ok key ok rows" "\<And>x. same x \<longleftrightarrow> key x = key r" "\<And>x. same x \<Longrightarrow> key (f x) = key x \<and> ok (f x)" "ok r"
  shows "table_ok key ok (upsert_rows same f r rows)"
proof (cases "list_ex same rows")
  case True
  then show ?thesis using table_ok_update [OF assms(1)] assms(3) by (simp add: upsert_rows_def)
next
  case False
  with assms(2) have "key r \<notin> key ` set rows" by (force simp: list_ex_iff)
  with False assms(1,4) show ?thesis by (simp add: upsert_rows_def)
qed

lemma table_ok_ignore:
  assumes "table_ok key ok rows" "\<And>x. clash x \<longleftrightarrow> key x = key r" "ok r"
  shows "table_ok key ok (ignore_rows clash r rows)"
proof (cases "list_ex clash rows")
  case False
  with assms(2) have "key r \<notin> key ` set rows" by (force simp: list_ex_iff)
  with False assms(1,3) show ?thesis by (simp add: ignore_rows_def)
qed (use assms(1) in \<open>simp add: ignore_rows_def\<close>)

lemma set_ignore_rows: "set (ignore_rows clash r rows) = (if list_ex clash rows then set rows else insert r (set rows))"
  by (simp add: ignore_rows_def)

subsection \<open>Relations that a transaction maintains\<close>

definition maintains :: "('s \<Rightarrow> 's \<Rightarrow> bool) \<Rightarrow> ('s, 'a) statements \<Rightarrow> 's \<Rightarrow> bool" where
  "maintains R m db \<longleftrightarrow> (\<forall>db' x. m db = Inr (db', x) \<longrightarrow> R db db')"

lemma maintains_write:
  "maintains R (tx_update upd rows P f) db \<longleftrightarrow> R db (upd (update_rows P f) db)"
  "maintains R (tx_insert upd rows clash r) db \<longleftrightarrow> (\<not> list_ex clash (rows db) \<longrightarrow> R db (upd (\<lambda>rs. rs @ [r]) db))"
  "maintains R (tx_delete upd P) db \<longleftrightarrow> R db (upd (filter (\<lambda>r. \<not> P r)) db)"
  "maintains R (tx_upsert upd same f r) db \<longleftrightarrow> R db (upd (upsert_rows same f r) db)"
  "maintains R (tx_insert_ignore upd clash r) db \<longleftrightarrow> R db (upd (ignore_rows clash r) db)"
  by (auto simp: maintains_def)

text \<open>
  The statements of a transaction maintain every reflexive and transitive relation that each of its
  writes does; so does the transaction, which otherwise leaves the database as it was.
\<close>

locale store_relation =
  fixes R :: "'s \<Rightarrow> 's \<Rightarrow> bool"
  assumes refl: "R db db"
    and trans: "R a b \<Longrightarrow> R b c \<Longrightarrow> R a c"
begin

lemma maintains_pure [simp]:
  "maintains R (tx_return x) db" "maintains R (tx_fail e) db" "maintains R (tx_read g) db" "maintains R (tx_lift s) db"
  "maintains R (tx_check ok e) db" "maintains R (tx_found row e) db"
  by (simp_all add: maintains_def refl)

lemma maintains_bind:
  "maintains R m db \<Longrightarrow> (\<And>db' x. m db = Inr (db', x) \<Longrightarrow> R db db' \<Longrightarrow> maintains R (f x) db') \<Longrightarrow> maintains R (tx_bind m f) db"
  unfolding maintains_def tx_bind_Inr by (metis trans)

lemma maintains_each:
  assumes "\<And>x db. x \<in> set xs \<Longrightarrow> maintains R (f x) db"
  shows "maintains R (tx_each f xs) db"
  using assms
proof (induction xs arbitrary: db)
  case (Cons x xs)
  then show ?case by (auto intro!: maintains_bind)
qed simp

lemma maintains_transaction: "maintains R m db \<Longrightarrow> R db (fst (transaction m db))"
  by (auto simp: maintains_def transaction_def refl split: sum.splits)

end

end
