(* ===== verification/Coordinator_Db.thy ===== *)
theory Coordinator_Db
  imports Sql_Transactions "HOL-Library.Product_Lexorder"
begin

text \<open>
  The database of the coordinator (remote/server/coordinator_store.go, coordinator_outbox.go,
  runner_execution_store.go, refstore.go, coordinator_heartbeat.go): its tables, the conversions between rows and the
  structs of the program.  \<open>CURRENT_TIMESTAMP\<close> is the field \<open>db_now\<close>.
\<close>

text \<open>\<open>time.Duration(1<<min(attempts, 10)) * time.Second\<close>\<close>

definition backoff :: "int \<Rightarrow> int" where
  "backoff attempts = 2 ^ nat (min attempts 10) * Second"

subsection \<open>Refs, receipts and deliveries\<close>

record Ref =
  ref_RefName :: string
  ref_CommitID :: string
  ref_SourceSHA :: string
  ref_Version :: int

record contextRefRecord =
  refr_RepositoryID :: string
  refr_RefName :: string
  refr_CommitID :: string
  refr_SourceSHA :: string
  refr_Version :: int

record landingReceiptRecord =
  lrr_ReceiptID :: string
  lrr_RepositoryID :: string
  lrr_RefName :: string
  lrr_ContextCommitID :: string
  lrr_CreatedAt :: go_time

record WebhookDelivery =
  wd_Provider :: string
  wd_DeliveryID :: string
  wd_PayloadHash :: string
  wd_ReceivedAt :: go_time

record webhookDeliveryRecord =
  wdr_Provider :: string
  wdr_DeliveryID :: string
  wdr_PayloadHash :: string
  wdr_ReceivedAt :: go_time
  wdr_EventPayload :: string

subsection \<open>Generations, plans and candidates\<close>

record PRGeneration =
  gen_RepositoryKey :: string
  gen_Change :: ChangeKey
  gen_BaseSourceSHA :: string
  gen_HeadSourceSHA :: string
  gen_CandidateDigest :: string
  gen_Version :: int
  gen_CurrentPlanID :: string
  gen_UpdatedAt :: go_time

record prGenerationRecord =
  pgr_RepositoryKey :: string
  pgr_Provider :: string
  pgr_ForgeRepository :: string
  pgr_ChangeNumber :: int
  pgr_BaseSourceSHA :: string
  pgr_HeadSourceSHA :: string
  pgr_CandidateDigest :: string
  pgr_Version :: int
  pgr_CurrentPlanID :: string
  pgr_UpdatedAt :: go_time

definition prGenerationRecordFrom :: "PRGeneration \<Rightarrow> prGenerationRecord" where
  "prGenerationRecordFrom g = \<lparr>pgr_RepositoryKey = gen_RepositoryKey g, pgr_Provider = ck_Provider (gen_Change g),
     pgr_ForgeRepository = ck_Repository (gen_Change g), pgr_ChangeNumber = ck_Number (gen_Change g),
     pgr_BaseSourceSHA = gen_BaseSourceSHA g, pgr_HeadSourceSHA = gen_HeadSourceSHA g,
     pgr_CandidateDigest = gen_CandidateDigest g, pgr_Version = gen_Version g,
     pgr_CurrentPlanID = gen_CurrentPlanID g, pgr_UpdatedAt = time_UTC (gen_UpdatedAt g)\<rparr>"

definition prGenerationFrom :: "prGenerationRecord \<Rightarrow> PRGeneration" where
  "prGenerationFrom r = \<lparr>gen_RepositoryKey = pgr_RepositoryKey r,
     gen_Change = \<lparr>ck_Provider = pgr_Provider r, ck_Repository = pgr_ForgeRepository r, ck_Number = pgr_ChangeNumber r\<rparr>,
     gen_BaseSourceSHA = pgr_BaseSourceSHA r, gen_HeadSourceSHA = pgr_HeadSourceSHA r,
     gen_CandidateDigest = pgr_CandidateDigest r, gen_Version = pgr_Version r,
     gen_CurrentPlanID = pgr_CurrentPlanID r, gen_UpdatedAt = pgr_UpdatedAt r\<rparr>"

record contextPlanRecord =
  cpr_PlanID :: string
  cpr_RepositoryKey :: string
  cpr_Provider :: string
  cpr_ForgeRepository :: string
  cpr_ChangeNumber :: int
  cpr_Generation :: int
  cpr_Payload :: string
  cpr_CreatedAt :: go_time

record StoredCandidateArtifact =
  sca_Digest :: string
  sca_Change :: ChangeKey
  sca_Delta :: CandidateContextDelta
  sca_CreatedAt :: go_time

record candidateArtifactRecord =
  car_Digest :: string
  car_Provider :: string
  car_ForgeRepository :: string
  car_ChangeNumber :: int
  car_Payload :: string
  car_CreatedAt :: go_time

subsection \<open>Jobs\<close>

type_synonym CoordinatorJobState = string

definition CoordinatorJobPending :: CoordinatorJobState where [go_defs]: "CoordinatorJobPending = ''pending''"
definition CoordinatorJobRunning :: CoordinatorJobState where [go_defs]: "CoordinatorJobRunning = ''running''"
definition CoordinatorJobRetryable :: CoordinatorJobState where [go_defs]: "CoordinatorJobRetryable = ''retryable''"
definition CoordinatorJobDone :: CoordinatorJobState where [go_defs]: "CoordinatorJobDone = ''done''"
definition CoordinatorJobFailed :: CoordinatorJobState where [go_defs]: "CoordinatorJobFailed = ''failed''"
definition CoordinatorJobIncompatible :: CoordinatorJobState where
  [go_defs]: "CoordinatorJobIncompatible = ''incompatible''"

definition processWebhookJobKind :: string where [go_defs]: "processWebhookJobKind = ''process_webhook''"
definition previewJobKind :: string where [go_defs]: "previewJobKind = ''preview_plan''"
definition finalJobKind :: string where [go_defs]: "finalJobKind = ''final_plan''"
definition checkJobKind :: string where [go_defs]: "checkJobKind = ''publish_check''"

record CoordinatorJob =
  job_ID :: string
  job_DedupeKey :: string
  job_Kind :: string
  job_Priority :: int
  job_Payload :: string
  job_Result :: string
  job_State :: CoordinatorJobState
  job_Attempts :: int
  job_MaxAttempts :: int
  job_NextAttemptAt :: go_time
  job_LeaseOwner :: string
  job_LeaseUntil :: go_time
  job_FencingToken :: int
  job_FailureCode :: ErrorCode

record coordinatorJobRecord =
  cjr_ID :: string
  cjr_DedupeKey :: string
  cjr_Kind :: string
  cjr_Priority :: int
  cjr_Payload :: string
  cjr_Result :: string
  cjr_State :: CoordinatorJobState
  cjr_Attempts :: int
  cjr_MaxAttempts :: int
  cjr_NextAttemptAt :: go_time
  cjr_LeaseOwner :: string
  cjr_LeaseUntil :: go_time
  cjr_FencingToken :: int
  cjr_FailureCode :: ErrorCode

definition coordinatorJobRecordFrom :: "CoordinatorJob \<Rightarrow> coordinatorJobRecord" where
  "coordinatorJobRecordFrom j = \<lparr>cjr_ID = job_ID j, cjr_DedupeKey = job_DedupeKey j, cjr_Kind = job_Kind j,
     cjr_Priority = job_Priority j, cjr_Payload = job_Payload j, cjr_Result = job_Result j,
     cjr_State = job_State j, cjr_Attempts = job_Attempts j, cjr_MaxAttempts = job_MaxAttempts j,
     cjr_NextAttemptAt = time_UTC (job_NextAttemptAt j), cjr_LeaseOwner = job_LeaseOwner j,
     cjr_LeaseUntil = time_UTC (job_LeaseUntil j), cjr_FencingToken = job_FencingToken j,
     cjr_FailureCode = job_FailureCode j\<rparr>"

definition coordinatorJobFrom :: "coordinatorJobRecord \<Rightarrow> CoordinatorJob" where
  "coordinatorJobFrom r = \<lparr>job_ID = cjr_ID r, job_DedupeKey = cjr_DedupeKey r, job_Kind = cjr_Kind r,
     job_Priority = cjr_Priority r, job_Payload = cjr_Payload r, job_Result = cjr_Result r,
     job_State = cjr_State r, job_Attempts = cjr_Attempts r, job_MaxAttempts = cjr_MaxAttempts r,
     job_NextAttemptAt = cjr_NextAttemptAt r, job_LeaseOwner = cjr_LeaseOwner r,
     job_LeaseUntil = cjr_LeaseUntil r, job_FencingToken = cjr_FencingToken r,
     job_FailureCode = cjr_FailureCode r\<rparr>"

record JobClaim =
  claim_JobID :: string
  claim_LeaseOwner :: string
  claim_FencingToken :: int

definition job_Claim :: "CoordinatorJob \<Rightarrow> JobClaim" where
  "job_Claim j = \<lparr>claim_JobID = job_ID j, claim_LeaseOwner = job_LeaseOwner j, claim_FencingToken = job_FencingToken j\<rparr>"

subsection \<open>Landing intents\<close>

type_synonym LandingState = string

definition LandingPending :: LandingState where [go_defs]: "LandingPending = ''pending''"
definition LandingRunning :: LandingState where [go_defs]: "LandingRunning = ''running''"
definition LandingRetryable :: LandingState where [go_defs]: "LandingRetryable = ''retryable''"
definition LandingBlocked :: LandingState where [go_defs]: "LandingBlocked = ''blocked''"
definition LandingRecovering :: LandingState where [go_defs]: "LandingRecovering = ''recovering''"
definition LandingLanded :: LandingState where [go_defs]: "LandingLanded = ''landed''"

record LandingIntent =
  int_ID :: string
  int_RepositoryID :: string
  int_TargetRef :: string
  int_Change :: ChangeKey
  int_CandidateDigest :: string
  int_SourceMergeSHA :: string
  int_PreviewPlanID :: string
  int_FinalPlanID :: string
  int_State :: LandingState
  int_AttemptCount :: int
  int_NextAttemptAt :: go_time
  int_LastErrorCode :: ErrorCode
  int_LandedContextCommitID :: string

record landingIntentRecord =
  lir_ID :: string
  lir_RepositoryID :: string
  lir_TargetRef :: string
  lir_Provider :: string
  lir_ForgeRepository :: string
  lir_ChangeNumber :: int
  lir_CandidateDigest :: string
  lir_SourceMergeSHA :: string
  lir_PreviewPlanID :: string
  lir_FinalPlanID :: string
  lir_State :: LandingState
  lir_AttemptCount :: int
  lir_NextAttemptAt :: go_time
  lir_LastErrorCode :: ErrorCode
  lir_LandedContextCommitID :: string

definition landingIntentRecordFrom :: "LandingIntent \<Rightarrow> landingIntentRecord" where
  "landingIntentRecordFrom i = \<lparr>lir_ID = int_ID i, lir_RepositoryID = int_RepositoryID i,
     lir_TargetRef = int_TargetRef i, lir_Provider = ck_Provider (int_Change i),
     lir_ForgeRepository = ck_Repository (int_Change i), lir_ChangeNumber = ck_Number (int_Change i),
     lir_CandidateDigest = int_CandidateDigest i, lir_SourceMergeSHA = int_SourceMergeSHA i,
     lir_PreviewPlanID = int_PreviewPlanID i, lir_FinalPlanID = int_FinalPlanID i, lir_State = int_State i,
     lir_AttemptCount = int_AttemptCount i, lir_NextAttemptAt = int_NextAttemptAt i,
     lir_LastErrorCode = int_LastErrorCode i, lir_LandedContextCommitID = int_LandedContextCommitID i\<rparr>"

definition landingIntentFrom :: "landingIntentRecord \<Rightarrow> LandingIntent" where
  "landingIntentFrom r = \<lparr>int_ID = lir_ID r, int_RepositoryID = lir_RepositoryID r, int_TargetRef = lir_TargetRef r,
     int_Change = \<lparr>ck_Provider = lir_Provider r, ck_Repository = lir_ForgeRepository r, ck_Number = lir_ChangeNumber r\<rparr>,
     int_CandidateDigest = lir_CandidateDigest r, int_SourceMergeSHA = lir_SourceMergeSHA r,
     int_PreviewPlanID = lir_PreviewPlanID r, int_FinalPlanID = lir_FinalPlanID r, int_State = lir_State r,
     int_AttemptCount = lir_AttemptCount r, int_NextAttemptAt = lir_NextAttemptAt r,
     int_LastErrorCode = lir_LastErrorCode r, int_LandedContextCommitID = lir_LandedContextCommitID r\<rparr>"

subsection \<open>Desired checks\<close>

type_synonym CheckState = string

definition CheckPlanning :: CheckState where [go_defs]: "CheckPlanning = ''planning''"
definition CheckReady :: CheckState where [go_defs]: "CheckReady = ''ready''"
definition CheckReviewRequired :: CheckState where [go_defs]: "CheckReviewRequired = ''review_required''"
definition CheckBlocked :: CheckState where [go_defs]: "CheckBlocked = ''blocked''"
definition CheckSuperseded :: CheckState where [go_defs]: "CheckSuperseded = ''superseded''"

record DesiredCheck =
  chk_LogicalKey :: string
  chk_Change :: ChangeKey
  chk_HeadSHA :: string
  chk_State :: CheckState
  chk_Summary :: string
  chk_PlanURL :: string
  chk_Version :: int
  chk_PublishedVersion :: int
  chk_ProviderCheckRunID :: int
  chk_UpdatedAt :: go_time

record desiredCheckRecord =
  dcr_LogicalKey :: string
  dcr_Provider :: string
  dcr_ForgeRepository :: string
  dcr_ChangeNumber :: int
  dcr_HeadSHA :: string
  dcr_State :: CheckState
  dcr_Summary :: string
  dcr_PlanURL :: string
  dcr_Version :: int
  dcr_PublishedVersion :: int
  dcr_ProviderCheckRunID :: int
  dcr_UpdatedAt :: go_time

definition desiredCheckRecordFrom :: "DesiredCheck \<Rightarrow> desiredCheckRecord" where
  "desiredCheckRecordFrom d = \<lparr>dcr_LogicalKey = chk_LogicalKey d, dcr_Provider = ck_Provider (chk_Change d),
     dcr_ForgeRepository = ck_Repository (chk_Change d), dcr_ChangeNumber = ck_Number (chk_Change d),
     dcr_HeadSHA = ToLower (chk_HeadSHA d), dcr_State = chk_State d, dcr_Summary = chk_Summary d,
     dcr_PlanURL = chk_PlanURL d, dcr_Version = chk_Version d, dcr_PublishedVersion = chk_PublishedVersion d,
     dcr_ProviderCheckRunID = chk_ProviderCheckRunID d, dcr_UpdatedAt = time_UTC (chk_UpdatedAt d)\<rparr>"

definition desiredCheckFrom :: "desiredCheckRecord \<Rightarrow> DesiredCheck" where
  "desiredCheckFrom r = \<lparr>chk_LogicalKey = dcr_LogicalKey r,
     chk_Change = \<lparr>ck_Provider = dcr_Provider r, ck_Repository = dcr_ForgeRepository r, ck_Number = dcr_ChangeNumber r\<rparr>,
     chk_HeadSHA = dcr_HeadSHA r, chk_State = dcr_State r, chk_Summary = dcr_Summary r, chk_PlanURL = dcr_PlanURL r,
     chk_Version = dcr_Version r, chk_PublishedVersion = dcr_PublishedVersion r,
     chk_ProviderCheckRunID = dcr_ProviderCheckRunID r, chk_UpdatedAt = dcr_UpdatedAt r\<rparr>"

subsection \<open>Runner executions and heartbeats\<close>

type_synonym RunnerExecutionState = string

definition RunnerExecutionPrepared :: RunnerExecutionState where [go_defs]: "RunnerExecutionPrepared = ''prepared''"
definition RunnerExecutionActive :: RunnerExecutionState where [go_defs]: "RunnerExecutionActive = ''active''"
definition RunnerExecutionCancelRequested :: RunnerExecutionState where
  [go_defs]: "RunnerExecutionCancelRequested = ''cancel_requested''"
definition RunnerExecutionSucceeded :: RunnerExecutionState where [go_defs]: "RunnerExecutionSucceeded = ''succeeded''"
definition RunnerExecutionFailed :: RunnerExecutionState where [go_defs]: "RunnerExecutionFailed = ''failed''"
definition RunnerExecutionCancelled :: RunnerExecutionState where [go_defs]: "RunnerExecutionCancelled = ''cancelled''"
definition RunnerExecutionLost :: RunnerExecutionState where [go_defs]: "RunnerExecutionLost = ''lost''"
definition RunnerExecutionSuperseded :: RunnerExecutionState where [go_defs]: "RunnerExecutionSuperseded = ''superseded''"

type_synonym RunnerCleanupState = string

definition RunnerCleanupNone :: RunnerCleanupState where [go_defs]: "RunnerCleanupNone = ''none''"
definition RunnerCleanupPending :: RunnerCleanupState where [go_defs]: "RunnerCleanupPending = ''pending''"
definition RunnerCleanupCleaned :: RunnerCleanupState where [go_defs]: "RunnerCleanupCleaned = ''cleaned''"
definition RunnerCleanupFailed :: RunnerCleanupState where [go_defs]: "RunnerCleanupFailed = ''failed''"

record RunnerExecutionSeed =
  seed_ExecutionID :: string
  seed_JobID :: string
  seed_RequestDigest :: string
  seed_SpecDigest :: string
  seed_Backend :: string
  seed_AttemptID :: string
  seed_OwnerInstance :: string

record RunnerExecution =
  exe_ExecutionID :: string
  exe_JobID :: string
  exe_RequestDigest :: string
  exe_SpecDigest :: string
  exe_Backend :: string
  exe_RunnerAttempt :: int
  exe_AttemptID :: string
  exe_ClaimOwner :: string
  exe_ClaimFencingToken :: int
  exe_OwnerInstance :: string
  exe_State :: RunnerExecutionState
  exe_HandleEnvelope :: "string option"
  exe_ResultDigest :: string
  exe_FailureCode :: ErrorCode
  exe_CleanupState :: RunnerCleanupState
  exe_CleanupAttempts :: int
  exe_CleanupAfter :: go_time
  exe_CreatedAt :: go_time
  exe_UpdatedAt :: go_time
  exe_FinishedAt :: go_time

record runnerExecutionRecord =
  rer_AttemptID :: string
  rer_ExecutionID :: string
  rer_JobID :: string
  rer_RequestDigest :: string
  rer_SpecDigest :: string
  rer_Backend :: string
  rer_RunnerAttempt :: int
  rer_ClaimOwner :: string
  rer_ClaimFencingToken :: int
  rer_OwnerInstance :: string
  rer_State :: RunnerExecutionState
  rer_HandleEnvelope :: "string option"
  rer_ResultDigest :: string
  rer_FailureCode :: ErrorCode
  rer_CleanupState :: RunnerCleanupState
  rer_CleanupAttempts :: int
  rer_CleanupAfter :: go_time
  rer_CreatedAt :: go_time
  rer_UpdatedAt :: go_time
  rer_FinishedAt :: go_time

definition runnerExecutionFrom :: "runnerExecutionRecord \<Rightarrow> RunnerExecution" where
  "runnerExecutionFrom r = \<lparr>exe_ExecutionID = rer_ExecutionID r, exe_JobID = rer_JobID r,
     exe_RequestDigest = rer_RequestDigest r, exe_SpecDigest = rer_SpecDigest r, exe_Backend = rer_Backend r,
     exe_RunnerAttempt = rer_RunnerAttempt r, exe_AttemptID = rer_AttemptID r, exe_ClaimOwner = rer_ClaimOwner r,
     exe_ClaimFencingToken = rer_ClaimFencingToken r, exe_OwnerInstance = rer_OwnerInstance r,
     exe_State = rer_State r, exe_HandleEnvelope = rer_HandleEnvelope r, exe_ResultDigest = rer_ResultDigest r,
     exe_FailureCode = rer_FailureCode r, exe_CleanupState = rer_CleanupState r,
     exe_CleanupAttempts = rer_CleanupAttempts r, exe_CleanupAfter = rer_CleanupAfter r,
     exe_CreatedAt = rer_CreatedAt r, exe_UpdatedAt = rer_UpdatedAt r, exe_FinishedAt = rer_FinishedAt r\<rparr>"

record coordinatorHeartbeatRecord =
  chr_Slot :: string
  chr_InstanceID :: string
  chr_DisplayName :: string
  chr_SessionToken :: string
  chr_Mode :: string
  chr_ExpiresAt :: go_time
  chr_UpdatedAt :: go_time

subsection \<open>The database\<close>

record database =
  db_now :: go_time
  db_refs :: "contextRefRecord list"
  db_receipts :: "landingReceiptRecord list"
  db_deliveries :: "webhookDeliveryRecord list"
  db_generations :: "prGenerationRecord list"
  db_plans :: "contextPlanRecord list"
  db_jobs :: "coordinatorJobRecord list"
  db_landings :: "landingIntentRecord list"
  db_candidates :: "candidateArtifactRecord list"
  db_checks :: "desiredCheckRecord list"
  db_executions :: "runnerExecutionRecord list"
  db_heartbeats :: "coordinatorHeartbeatRecord list"

type_synonym 'a tx = "(database, 'a) statements"

text \<open>\<open>databaseTime\<close>\<close>

definition databaseTime :: "go_time tx" where
  "databaseTime = tx_read (\<lambda>db. time_UTC (db_now db))"

lemma codec_round_trips:
  "coordinatorJobFrom (coordinatorJobRecordFrom j)
     = j\<lparr>job_NextAttemptAt := time_UTC (job_NextAttemptAt j), job_LeaseUntil := time_UTC (job_LeaseUntil j)\<rparr>"
  "landingIntentFrom (landingIntentRecordFrom i) = i"
  "prGenerationFrom (prGenerationRecordFrom g) = g\<lparr>gen_UpdatedAt := time_UTC (gen_UpdatedAt g)\<rparr>"
  "desiredCheckFrom (desiredCheckRecordFrom d) = d\<lparr>chk_HeadSHA := ToLower (chk_HeadSHA d), chk_UpdatedAt := time_UTC (chk_UpdatedAt d)\<rparr>"
  by (simp_all add: coordinatorJobFrom_def coordinatorJobRecordFrom_def landingIntentFrom_def
      landingIntentRecordFrom_def prGenerationFrom_def prGenerationRecordFrom_def desiredCheckFrom_def
      desiredCheckRecordFrom_def)

end
