(* ===== verification/Coordinator_Queue.thy ===== *)
theory Coordinator_Queue
  imports Coordinator_Db
begin

text \<open>
  The job queue of the coordinator (remote/server/durable_payload.go and the job operations of
  coordinator_store.go): payload envelopes, webhook deliveries, enqueueing, and what the holder of
  a claim does with it.  Decoding JSON is the work of encoding/json; the decoders for the envelope
  and for the bodies, and the hash BLAKE3, are the parameter \<open>coordinator_env\<close>.
\<close>

subsection \<open>Durable payloads\<close>

definition durablePayloadVersion :: int where
  "durablePayloadVersion = 1"

record durableEnvelope =
  env_SchemaVersion :: int
  env_Kind :: string
  env_Body :: string

record finalJobPayload =
  fjp_RepositoryKey :: string
  fjp_LandingID :: string
  fjp_Change :: ChangeKey

record checkJobPayload =
  kjp_LogicalKey :: string
  kjp_Version :: int

record previewJobPayload =
  pjp_RepositoryKey :: string
  pjp_Generation :: int
  pjp_Change :: ChangeKey
  pjp_HeadSHA :: string

text \<open>
  A decoder returns the value when the input holds exactly one JSON value of the type with no
  unknown field (\<open>DisallowUnknownFields\<close> and the second \<open>Decode\<close> that must meet the end).
\<close>

record coordinator_env =
  ce_blake3 :: "string \<Rightarrow> string"
  ce_envelope :: "string \<Rightarrow> durableEnvelope option"
  ce_final :: "string \<Rightarrow> finalJobPayload option"
  ce_check :: "string \<Rightarrow> checkJobPayload option"
  ce_preview :: "string \<Rightarrow> previewJobPayload option"

definition durable_envelope_json :: "string \<Rightarrow> json \<Rightarrow> json" where
  "durable_envelope_json kind body =
     JObject (fld ''schema_version'' (JInt durablePayloadVersion) @ fld_s ''kind'' kind @ fld ''body'' body)"

definition MarshalDurablePayload :: "string \<Rightarrow> json \<Rightarrow> string result" where
  "MarshalDurablePayload kind body =
     (if TrimSpace kind = [] then Inl CodeValidation
      else case json_marshal (durable_envelope_json kind body) of
        None \<Rightarrow> Inl CodeValidation | Some payload \<Rightarrow> Inr payload)"

definition UnmarshalDurablePayload ::
    "(string \<Rightarrow> durableEnvelope option) \<Rightarrow> (string \<Rightarrow> 'a option) \<Rightarrow> string \<Rightarrow> string \<Rightarrow> 'a result" where
  "UnmarshalDurablePayload decode decode_body payload expectedKind =
     (if payload = [] \<or> TrimSpace expectedKind = [] then Inl CodeValidation
      else case decode payload of
        None \<Rightarrow> Inl CodeValidation
      | Some envelope \<Rightarrow>
          if env_SchemaVersion envelope \<noteq> durablePayloadVersion then Inl CodeIncompatiblePayload
          else if env_Kind envelope \<noteq> expectedKind \<or> env_Body envelope = [] then Inl CodeValidation
          else case decode_body (env_Body envelope) of
            None \<Rightarrow> Inl CodeValidation | Some target \<Rightarrow> Inr target)"

subsection \<open>Deliveries and the queue\<close>

definition validateWebhookDelivery :: "WebhookDelivery \<Rightarrow> unit result" where
  "validateWebhookDelivery d =
     (if TrimSpace (wd_Provider d) = [] \<or> TrimSpace (wd_DeliveryID d) = [] \<or> length (wd_PayloadHash d) \<noteq> 64
         \<or> time_IsZero (wd_ReceivedAt d)
      then Inl CodeValidation else Inr ())"

definition validateCoordinatorJob :: "CoordinatorJob \<Rightarrow> unit result" where
  "validateCoordinatorJob j =
     (if job_ID j = [] \<or> job_DedupeKey j = [] \<or> job_Kind j = [] \<or> job_Payload j = []
         \<or> job_State j \<noteq> CoordinatorJobPending \<or> job_MaxAttempts j < 1 \<or> time_IsZero (job_NextAttemptAt j)
         \<or> job_Priority j < 0
      then Inl CodeValidation else Inr ())"

definition delivery_key :: "string \<Rightarrow> string \<Rightarrow> webhookDeliveryRecord \<Rightarrow> bool" where
  "delivery_key provider deliveryID r \<longleftrightarrow> wdr_Provider r = provider \<and> wdr_DeliveryID r = deliveryID"

text \<open>\<open>OnConflict ... DoNothing\<close>: the row is created unless the primary key exists.\<close>

definition acceptDeliveryTx :: "WebhookDelivery \<Rightarrow> string \<Rightarrow> bool tx" where
  "acceptDeliveryTx d eventPayload = (\<lambda>db.
     case take_row (delivery_key (wd_Provider d) (wd_DeliveryID d)) (db_deliveries db) of
       None \<Rightarrow> Inr (db\<lparr>db_deliveries := db_deliveries db @
           [\<lparr>wdr_Provider = wd_Provider d, wdr_DeliveryID = wd_DeliveryID d, wdr_PayloadHash = wd_PayloadHash d,
             wdr_ReceivedAt = time_UTC (wd_ReceivedAt d), wdr_EventPayload = eventPayload\<rparr>]\<rparr>, True)
     | Some existing \<Rightarrow>
         if wdr_PayloadHash existing \<noteq> wd_PayloadHash d then Inl CodeValidation else Inr (db, False))"

definition AcceptDelivery :: "WebhookDelivery \<Rightarrow> database \<Rightarrow> database \<times> bool result" where
  "AcceptDelivery d db = (case validateWebhookDelivery d of
       Inl _ \<Rightarrow> (db, Inl CodeValidation)
     | Inr _ \<Rightarrow> transaction (acceptDeliveryTx d []) db)"

definition enqueueJobTx :: "CoordinatorJob \<Rightarrow> bool tx" where
  "enqueueJobTx j =
     tx_bind (tx_lift (validateCoordinatorJob j)) (\<lambda>_.
     tx_bind (tx_read (\<lambda>db. take_row (\<lambda>r. cjr_DedupeKey r = job_DedupeKey j) (db_jobs db))) (\<lambda>row.
     case row of
       Some existing \<Rightarrow>
         if cjr_ID existing \<noteq> job_ID j \<or> cjr_Kind existing \<noteq> job_Kind j \<or> cjr_Priority existing \<noteq> job_Priority j
            \<or> cjr_Payload existing \<noteq> job_Payload j
         then tx_fail CodeValidation else tx_return False
     | None \<Rightarrow>
         tx_bind (tx_insert db_jobs_update db_jobs (\<lambda>r. cjr_ID r = job_ID j) (coordinatorJobRecordFrom j)) (\<lambda>_.
         tx_return True)))"

definition EnqueueJob :: "CoordinatorJob \<Rightarrow> database \<Rightarrow> database \<times> bool result" where
  "EnqueueJob j db = (case validateCoordinatorJob j of
       Inl e \<Rightarrow> (db, Inl e) | Inr _ \<Rightarrow> transaction (enqueueJobTx j) db)"

record WebhookAccept =
  wa_Delivery :: WebhookDelivery
  wa_EventPayload :: string
  wa_Job :: CoordinatorJob

definition AcceptWebhook :: "WebhookAccept \<Rightarrow> database \<Rightarrow> database \<times> bool result" where
  "AcceptWebhook input db =
     (if validateWebhookDelivery (wa_Delivery input) \<noteq> Inr () \<or> wa_EventPayload input = [] then (db, Inl CodeValidation)
      else if validateCoordinatorJob (wa_Job input) \<noteq> Inr () \<or> job_Kind (wa_Job input) \<noteq> processWebhookJobKind
        then (db, Inl CodeValidation)
      else transaction
        (tx_bind (acceptDeliveryTx (wa_Delivery input) (wa_EventPayload input)) (\<lambda>accepted.
         if \<not> accepted then tx_return accepted
         else tx_bind (enqueueJobTx (wa_Job input)) (\<lambda>_. tx_return accepted))) db)"

definition WebhookEvent :: "string \<Rightarrow> string \<Rightarrow> database \<Rightarrow> string result" where
  "WebhookEvent provider deliveryID db =
     (if TrimSpace provider = [] \<or> TrimSpace deliveryID = [] then Inl CodeValidation
      else case take_row (delivery_key provider deliveryID) (db_deliveries db) of
        None \<Rightarrow> Inl CodeEntityNotFound
      | Some r \<Rightarrow> if wdr_EventPayload r = [] then Inl CodeValidation else Inr (wdr_EventPayload r))"

subsection \<open>Claims\<close>

definition validateJobClaim :: "JobClaim \<Rightarrow> unit result" where
  "validateJobClaim c =
     (if claim_JobID c = [] \<or> claim_LeaseOwner c = [] \<or> claim_FencingToken c < 1
      then Inl CodeValidation else Inr ())"

text \<open>\<open>job_id = ? AND state = ? AND lease_owner = ? AND fencing_token = ?\<close>\<close>

definition claimed_by :: "JobClaim \<Rightarrow> coordinatorJobRecord \<Rightarrow> bool" where
  "claimed_by c r \<longleftrightarrow> cjr_ID r = claim_JobID c \<and> cjr_State r = CoordinatorJobRunning
     \<and> cjr_LeaseOwner r = claim_LeaseOwner c \<and> cjr_FencingToken r = claim_FencingToken c"

definition release_lease :: "coordinatorJobRecord \<Rightarrow> coordinatorJobRecord" where
  "release_lease r = r\<lparr>cjr_LeaseOwner := [], cjr_LeaseUntil := zero_time\<rparr>"

definition tx_update_claimed :: "JobClaim \<Rightarrow> (coordinatorJobRecord \<Rightarrow> coordinatorJobRecord) \<Rightarrow> unit tx" where
  "tx_update_claimed c f =
     tx_bind (tx_update db_jobs_update db_jobs (claimed_by c) f) (\<lambda>n.
     tx_check (n = 1) CodeConcurrentUpdate)"

definition completeClaimTx :: "JobClaim \<Rightarrow> string \<Rightarrow> unit tx" where
  "completeClaimTx c resultPayload =
     tx_bind (tx_lift (validateJobClaim c)) (\<lambda>_.
     tx_update_claimed c (\<lambda>r. release_lease (r\<lparr>cjr_State := CoordinatorJobDone, cjr_Result := resultPayload\<rparr>)))"

definition CompleteClaim :: "JobClaim \<Rightarrow> string \<Rightarrow> database \<Rightarrow> database \<times> unit result" where
  "CompleteClaim c resultPayload db = transaction (completeClaimTx c resultPayload) db"

definition validateActiveClaimTx :: "JobClaim \<Rightarrow> unit tx" where
  "validateActiveClaimTx c =
     tx_bind databaseTime (\<lambda>now.
     tx_bind (tx_read (\<lambda>db. rows_affected (\<lambda>r. claimed_by c r \<and> \<not> not_after (cjr_LeaseUntil r) now) (db_jobs db))) (\<lambda>n.
     tx_check (n = 1) CodeConcurrentUpdate))"

definition ValidateClaim :: "JobClaim \<Rightarrow> database \<Rightarrow> database \<times> unit result" where
  "ValidateClaim c db = (case validateJobClaim c of
       Inl e \<Rightarrow> (db, Inl e) | Inr _ \<Rightarrow> transaction (validateActiveClaimTx c) db)"

definition AbandonClaim :: "JobClaim \<Rightarrow> go_time \<Rightarrow> database \<Rightarrow> database \<times> unit result" where
  "AbandonClaim c now db =
     (if validateJobClaim c \<noteq> Inr () \<or> time_IsZero now then (db, Inl CodeValidation)
      else transaction (tx_update_claimed c (\<lambda>r. release_lease (r\<lparr>cjr_State := CoordinatorJobRetryable,
             cjr_Attempts := (if 0 < cjr_Attempts r then cjr_Attempts r - 1 else 0),
             cjr_NextAttemptAt := time_UTC now, cjr_FailureCode := CodeNone\<rparr>))) db)"

definition RejectClaim :: "JobClaim \<Rightarrow> ErrorCode \<Rightarrow> database \<Rightarrow> database \<times> unit result" where
  "RejectClaim c code db =
     (if validateJobClaim c \<noteq> Inr () \<or> code = CodeNone then (db, Inl CodeValidation)
      else transaction (tx_update_claimed c (\<lambda>r. release_lease (r\<lparr>cjr_State := CoordinatorJobIncompatible,
             cjr_FailureCode := code\<rparr>))) db)"

definition failClaimTx :: "JobClaim \<Rightarrow> unit tx" where
  "failClaimTx c =
     tx_bind databaseTime (\<lambda>now.
     tx_bind (tx_read (\<lambda>db. take_row (claimed_by c) (db_jobs db))) (\<lambda>row.
     tx_bind (tx_found row CodeConcurrentUpdate) (\<lambda>r.
     let exhausted = cjr_MaxAttempts r \<le> cjr_Attempts r;
         nextState = (if exhausted then CoordinatorJobFailed else CoordinatorJobRetryable);
         nextAttempt = (if exhausted then zero_time else time_Add now (backoff (cjr_Attempts r)))
     in tx_update_claimed c (\<lambda>r. release_lease (r\<lparr>cjr_State := nextState, cjr_NextAttemptAt := nextAttempt\<rparr>)))))"

definition FailClaim :: "JobClaim \<Rightarrow> database \<Rightarrow> database \<times> unit result" where
  "FailClaim c db = (case validateJobClaim c of
       Inl e \<Rightarrow> (db, Inl e) | Inr _ \<Rightarrow> transaction (failClaimTx c) db)"

end
