(* ===== verification/Coordinator_Checks.thy ===== *)
theory Coordinator_Checks
  imports Coordinator_Queue
begin

text \<open>
  The outbox of forge checks (remote/server/coordinator_outbox.go): a desired check is a versioned
  row; each version is published by a job whose dedupe key names the check and the version.
\<close>

definition checkJobPriority :: int where
  "checkJobPriority = 250"

definition DesiredCheckLogicalKey :: "ChangeKey \<Rightarrow> string \<Rightarrow> string" where
  "DesiredCheckLogicalKey change headSHA = ck_Provider change @ '':'' @ ck_Repository change @ ''#''
     @ Sprint_int (ck_Number change) @ ''@'' @ ToLower headSHA"

definition validateDesiredCheck :: "DesiredCheck \<Rightarrow> unit result" where
  "validateDesiredCheck d =
     (if chk_LogicalKey d = [] \<or> chk_LogicalKey d \<noteq> DesiredCheckLogicalKey (chk_Change d) (chk_HeadSHA d)
         \<or> chk_HeadSHA d = [] \<or> chk_Summary d = [] \<or> time_IsZero (chk_UpdatedAt d)
      then Inl CodeValidation
      else if chk_State d \<in> {CheckPlanning, CheckReady, CheckReviewRequired, CheckBlocked, CheckSuperseded}
      then Inr () else Inl CodeValidation)"

text \<open>\<open>newCheckJob\<close>: the \<open>input\<close> of the payload is never set, so its fields are zero.\<close>

definition checkJobPayload_json :: "string \<Rightarrow> int \<Rightarrow> json" where
  "checkJobPayload_json logicalKey version =
     JObject (fld_omit ''logical_key'' logicalKey
       @ (if version = 0 then [] else fld ''version'' (JInt version))
       @ fld ''input'' (JObject (fld ''Change'' (change_key_json \<lparr>ck_Provider = [], ck_Repository = [], ck_Number = 0\<rparr>)
           @ fld_s ''HeadSHA'' [] @ fld_s ''State'' [] @ fld_s ''Summary'' [] @ fld_s ''PlanURL'' []
           @ fld ''CheckRunID'' (JInt 0))))"

definition check_dedupe :: "string \<Rightarrow> int \<Rightarrow> string" where
  "check_dedupe logicalKey version = ''check:'' @ logicalKey @ '':'' @ Sprint_int version"

definition newCheckJob :: "(string \<Rightarrow> string) \<Rightarrow> DesiredCheck \<Rightarrow> go_time \<Rightarrow> int \<Rightarrow> CoordinatorJob result" where
  "newCheckJob b3 d now maxAttempts =
     and_then (MarshalDurablePayload checkJobKind (checkJobPayload_json (chk_LogicalKey d) (chk_Version d))) (\<lambda>payload.
     let dedupe = check_dedupe (chk_LogicalKey d) (chk_Version d)
     in Inr \<lparr>job_ID = hex_encode (b3 dedupe), job_DedupeKey = dedupe, job_Kind = checkJobKind,
          job_Priority = checkJobPriority, job_Payload = payload, job_Result = [],
          job_State = CoordinatorJobPending, job_Attempts = 0, job_MaxAttempts = maxAttempts,
          job_NextAttemptAt = time_UTC now, job_LeaseOwner = [], job_LeaseUntil = zero_time,
          job_FencingToken = 0, job_FailureCode = CodeNone\<rparr>)"

definition upsertDesiredCheckTx :: "DesiredCheck \<Rightarrow> (DesiredCheck \<times> bool) tx" where
  "upsertDesiredCheckTx d =
     tx_bind (tx_read (\<lambda>db. take_row (\<lambda>r. dcr_LogicalKey r = chk_LogicalKey d) (db_checks db))) (\<lambda>row.
     case row of
       None \<Rightarrow>
         let desired = d\<lparr>chk_Version := 1\<rparr>
         in tx_bind (tx_insert db_checks_update db_checks (\<lambda>r. dcr_LogicalKey r = chk_LogicalKey d)
               (desiredCheckRecordFrom desired)) (\<lambda>_.
            tx_return (desired, True))
     | Some existing \<Rightarrow>
         let current = desiredCheckFrom existing
         in if chk_Change current \<noteq> chk_Change d \<or> chk_HeadSHA current \<noteq> chk_HeadSHA d then tx_fail CodeValidation
            else if chk_State current = chk_State d \<and> chk_Summary current = chk_Summary d
              \<and> chk_PlanURL current = chk_PlanURL d
            then tx_return (current, False)
            else
              let desired = d\<lparr>chk_Version := chk_Version current + 1, chk_PublishedVersion := chk_PublishedVersion current,
                    chk_ProviderCheckRunID := chk_ProviderCheckRunID current\<rparr>
              in tx_bind (tx_update db_checks_update db_checks
                    (\<lambda>r. dcr_LogicalKey r = chk_LogicalKey d \<and> dcr_Version r = chk_Version current)
                    (\<lambda>r. r\<lparr>dcr_State := chk_State desired, dcr_Summary := chk_Summary desired,
                      dcr_PlanURL := chk_PlanURL desired, dcr_Version := chk_Version desired,
                      dcr_UpdatedAt := time_UTC (chk_UpdatedAt desired)\<rparr>)) (\<lambda>n.
                 tx_bind (tx_check (n = 1) CodeConcurrentUpdate) (\<lambda>_.
                 tx_return (desired, True))))"

text \<open>\<open>persistExistingDesiredCheckTx\<close> and \<open>persistDesiredCheckTx\<close>\<close>

definition persistExistingDesiredCheckTx :: "(string \<Rightarrow> string) \<Rightarrow> DesiredCheck \<Rightarrow> go_time \<Rightarrow> unit tx" where
  "persistExistingDesiredCheckTx b3 d now =
     tx_bind (tx_lift (newCheckJob b3 d now 5)) (\<lambda>job.
     tx_bind (enqueueJobTx job) (\<lambda>_. tx_return ()))"

definition persistDesiredCheckTx :: "(string \<Rightarrow> string) \<Rightarrow> DesiredCheck \<Rightarrow> unit tx" where
  "persistDesiredCheckTx b3 d =
     tx_bind (upsertDesiredCheckTx d) (\<lambda>(stored, changed).
     if \<not> changed then tx_return () else persistExistingDesiredCheckTx b3 stored (chk_UpdatedAt d))"

definition SetDesiredCheck :: "(string \<Rightarrow> string) \<Rightarrow> DesiredCheck \<Rightarrow> database \<Rightarrow> database \<times> (DesiredCheck \<times> bool) result" where
  "SetDesiredCheck b3 d db = (case validateDesiredCheck d of
       Inl e \<Rightarrow> (db, Inl e)
     | Inr _ \<Rightarrow> transaction
         (tx_bind (upsertDesiredCheckTx d) (\<lambda>(stored, changed).
          if \<not> changed then tx_return (stored, changed)
          else tx_bind (persistExistingDesiredCheckTx b3 stored (chk_UpdatedAt d)) (\<lambda>_. tx_return (stored, changed)))) db)"

definition read_desired_check :: "string \<Rightarrow> database \<Rightarrow> DesiredCheck result" where
  "read_desired_check logicalKey db =
     (if TrimSpace logicalKey = [] then Inl CodeValidation
      else case take_row (\<lambda>r. dcr_LogicalKey r = logicalKey) (db_checks db) of
        None \<Rightarrow> Inl CodeEntityNotFound | Some r \<Rightarrow> Inr (desiredCheckFrom r))"

text \<open>
  The job that publishes a check: created when it is missing, made runnable again when it is over
  (and \<open>rearmTerminal\<close> is set).
\<close>

definition job_over :: "CoordinatorJobState \<Rightarrow> bool" where
  "job_over s \<longleftrightarrow> s = CoordinatorJobDone \<or> s = CoordinatorJobFailed \<or> s = CoordinatorJobIncompatible"

definition ensureCheckJobTx :: "(string \<Rightarrow> string) \<Rightarrow> DesiredCheck \<Rightarrow> go_time \<Rightarrow> bool \<Rightarrow> bool tx" where
  "ensureCheckJobTx b3 d now rearmTerminal =
     tx_bind (tx_lift (newCheckJob b3 d now 5)) (\<lambda>job.
     tx_bind (tx_read (\<lambda>db. take_row (\<lambda>r. cjr_DedupeKey r = job_DedupeKey job) (db_jobs db))) (\<lambda>row.
     case row of
       None \<Rightarrow> enqueueJobTx job
     | Some existing \<Rightarrow>
         if cjr_ID existing \<noteq> job_ID job \<or> cjr_Kind existing \<noteq> job_Kind job \<or> cjr_Payload existing \<noteq> job_Payload job
         then tx_fail CodeValidation
         else if \<not> rearmTerminal \<or> \<not> job_over (cjr_State existing) then tx_return False
         else
           tx_bind (tx_update db_jobs_update db_jobs
              (\<lambda>r. cjr_ID r = cjr_ID existing \<and> cjr_State r = cjr_State existing \<and> cjr_FencingToken r = cjr_FencingToken existing)
              (\<lambda>r. release_lease (r\<lparr>cjr_State := CoordinatorJobRetryable, cjr_Attempts := 0,
                 cjr_NextAttemptAt := time_UTC now, cjr_FailureCode := CodeNone, cjr_Result := []\<rparr>))) (\<lambda>n.
           tx_return (n = 1))))"

subsection \<open>Publication\<close>

record CheckPublicationCommit =
  cpc_Claim :: JobClaim
  cpc_LogicalKey :: string
  cpc_DesiredVersion :: int
  cpc_ProviderCheckRunID :: int
  cpc_ResultPayload :: string

text \<open>
  The part the stale branch of \<open>CommitCheckPublication\<close> and \<open>SupersedeCheckClaim\<close> share: the latest
  version is marked unpublished, its job is made runnable, and the claim on the old job completes.
\<close>

definition supersede_check :: "(string \<Rightarrow> string) \<Rightarrow> JobClaim \<Rightarrow> desiredCheckRecord \<Rightarrow> string \<Rightarrow> unit tx" where
  "supersede_check b3 c r resultPayload =
     (let dirtyVersion = min (dcr_PublishedVersion r) (dcr_Version r - 1)
      in tx_bind (tx_update db_checks_update db_checks
            (\<lambda>x. dcr_LogicalKey x = dcr_LogicalKey r \<and> dcr_Version x = dcr_Version r)
            (\<lambda>x. x\<lparr>dcr_PublishedVersion := dirtyVersion\<rparr>)) (\<lambda>n.
         tx_bind (tx_check (n = 1) CodeConcurrentUpdate) (\<lambda>_.
         tx_bind databaseTime (\<lambda>now.
         tx_bind (ensureCheckJobTx b3 (desiredCheckFrom (r\<lparr>dcr_PublishedVersion := dirtyVersion\<rparr>)) now True) (\<lambda>_.
         completeClaimTx c resultPayload)))))"

definition CommitCheckPublication ::
    "(string \<Rightarrow> string) \<Rightarrow> CheckPublicationCommit \<Rightarrow> database \<Rightarrow> database \<times> unit result" where
  "CommitCheckPublication b3 input db =
     (if validateJobClaim (cpc_Claim input) \<noteq> Inr () \<or> TrimSpace (cpc_LogicalKey input) = []
         \<or> cpc_DesiredVersion input < 1 \<or> cpc_ProviderCheckRunID input < 1
      then (db, Inl CodeValidation)
      else transaction
        (tx_bind (validateActiveClaimTx (cpc_Claim input)) (\<lambda>_.
         tx_bind (tx_read (\<lambda>db. take_row (\<lambda>r. dcr_LogicalKey r = cpc_LogicalKey input) (db_checks db))) (\<lambda>row.
         tx_bind (tx_found row CodeLocalStorage) (\<lambda>r.
         if dcr_Version r < cpc_DesiredVersion input then tx_fail CodeConcurrentUpdate
         else if cpc_DesiredVersion input < dcr_Version r
         then supersede_check b3 (cpc_Claim input) r (cpc_ResultPayload input)
         else
           tx_bind (tx_update db_checks_update db_checks
              (\<lambda>x. dcr_LogicalKey x = cpc_LogicalKey input \<and> dcr_Version x = cpc_DesiredVersion input)
              (\<lambda>x. x\<lparr>dcr_ProviderCheckRunID := cpc_ProviderCheckRunID input,
                 dcr_PublishedVersion := cpc_DesiredVersion input\<rparr>)) (\<lambda>n.
           tx_bind (tx_check (n = 1) CodeConcurrentUpdate) (\<lambda>_.
           completeClaimTx (cpc_Claim input) (cpc_ResultPayload input))))))) db)"

definition SupersedeCheckClaim ::
    "(string \<Rightarrow> string) \<Rightarrow> JobClaim \<Rightarrow> string \<Rightarrow> int \<Rightarrow> string \<Rightarrow> database \<Rightarrow> database \<times> unit result" where
  "SupersedeCheckClaim b3 c logicalKey staleVersion resultPayload db =
     (if validateJobClaim c \<noteq> Inr () \<or> TrimSpace logicalKey = [] \<or> staleVersion < 1 then (db, Inl CodeValidation)
      else transaction
        (tx_bind (validateActiveClaimTx c) (\<lambda>_.
         tx_bind (tx_read (\<lambda>db. take_row (\<lambda>r. dcr_LogicalKey r = logicalKey) (db_checks db))) (\<lambda>row.
         tx_bind (tx_found row CodeLocalStorage) (\<lambda>r.
         if dcr_Version r \<le> staleVersion then tx_fail CodeConcurrentUpdate
         else supersede_check b3 c r resultPayload)))) db)"

primrec repair_checks :: "(string \<Rightarrow> string) \<Rightarrow> go_time \<Rightarrow> desiredCheckRecord list \<Rightarrow> int \<Rightarrow> int tx" where
  "repair_checks b3 now [] repaired = tx_return repaired"
| "repair_checks b3 now (r # rs) repaired =
     tx_bind (ensureCheckJobTx b3 (desiredCheckFrom r) now True) (\<lambda>changed.
     repair_checks b3 now rs (if changed then repaired + 1 else repaired))"

definition unpublished :: "desiredCheckRecord \<Rightarrow> bool" where
  "unpublished r \<longleftrightarrow> dcr_PublishedVersion r < dcr_Version r"

definition RepairDesiredChecks :: "(string \<Rightarrow> string) \<Rightarrow> nat \<Rightarrow> database \<Rightarrow> database \<times> int result" where
  "RepairDesiredChecks b3 limit db =
     (if limit < 1 then (db, Inl CodeValidation)
      else transaction
        (tx_bind databaseTime (\<lambda>now.
         tx_bind (tx_read (\<lambda>db. take limit (order_rows (\<lambda>r. (time_instant (dcr_UpdatedAt r), dcr_LogicalKey r))
             unpublished (db_checks db)))) (\<lambda>records.
         repair_checks b3 now records 0))) db)"

end
