(* ===== verification/Coordinator_Claims.thy ===== *)
theory Coordinator_Claims
  imports Coordinator_Checks
begin

text \<open>
  Claiming jobs (coordinator_store.go): the eligible job of the highest priority is leased with a
  new fencing token; jobs whose last attempt ran out of lease are ended first, together with the
  landing and the runner executions they worked on.
\<close>

definition generation_key :: "string \<Rightarrow> ChangeKey \<Rightarrow> prGenerationRecord \<Rightarrow> bool" where
  "generation_key repositoryKey change r \<longleftrightarrow> pgr_RepositoryKey r = repositoryKey \<and> pgr_Provider r = ck_Provider change
     \<and> pgr_ForgeRepository r = ck_Repository change \<and> pgr_ChangeNumber r = ck_Number change"

subsection \<open>Exhausted jobs\<close>

text \<open>\<open>state = running AND lease_until <= now AND attempts >= max_attempts\<close>\<close>

definition lease_expired :: "go_time \<Rightarrow> coordinatorJobRecord \<Rightarrow> bool" where
  "lease_expired now r \<longleftrightarrow> cjr_State r = CoordinatorJobRunning \<and> not_after (cjr_LeaseUntil r) now"

definition exhausted_job :: "go_time \<Rightarrow> coordinatorJobRecord \<Rightarrow> bool" where
  "exhausted_job now r \<longleftrightarrow> lease_expired now r \<and> cjr_MaxAttempts r \<le> cjr_Attempts r"

definition same_exhausted :: "go_time \<Rightarrow> coordinatorJobRecord \<Rightarrow> coordinatorJobRecord \<Rightarrow> bool" where
  "same_exhausted now r x \<longleftrightarrow> cjr_ID x = cjr_ID r \<and> cjr_FencingToken x = cjr_FencingToken r \<and> exhausted_job now x"

definition blocked_outcome :: string where
  "blocked_outcome = ''{'' @ [char_at 34] @ ''outcome'' @ [char_at 34] @ '':'' @ [char_at 34] @ ''blocked''
     @ [char_at 34] @ ''}''"

definition plan_url :: "string \<Rightarrow> string" where
  "plan_url planID = (if planID = [] then [] else ''/plans/'' @ planID)"

definition exhausted_check :: "finalJobPayload \<Rightarrow> prGenerationRecord \<Rightarrow> landingIntentRecord \<Rightarrow> go_time \<Rightarrow> DesiredCheck" where
  "exhausted_check payload generation landing now =
     \<lparr>chk_LogicalKey = DesiredCheckLogicalKey (fjp_Change payload) (pgr_HeadSourceSHA generation),
       chk_Change = fjp_Change payload, chk_HeadSHA = pgr_HeadSourceSHA generation, chk_State = CheckBlocked,
       chk_Summary = ''Context landing retries were exhausted: Busy.'', chk_PlanURL = plan_url (lir_FinalPlanID landing),
       chk_Version = 0, chk_PublishedVersion = 0, chk_ProviderCheckRunID = 0, chk_UpdatedAt = time_UTC now\<rparr>"

definition recoverExhaustedFinalJobTx :: "coordinator_env \<Rightarrow> coordinatorJobRecord \<Rightarrow> go_time \<Rightarrow> bool tx" where
  "recoverExhaustedFinalJobTx env r now =
     (if cjr_Kind r \<noteq> finalJobKind then tx_return False
      else case UnmarshalDurablePayload (ce_envelope env) (ce_final env) (cjr_Payload r) finalJobKind of
        Inl _ \<Rightarrow> tx_return False
      | Inr payload \<Rightarrow>
        tx_bind (tx_read (\<lambda>db. take_row (\<lambda>l. lir_ID l = fjp_LandingID payload \<and> lir_State l = LandingRunning)
            (db_landings db))) (\<lambda>found.
        case found of
          None \<Rightarrow> tx_return False
        | Some landing \<Rightarrow>
          tx_bind (tx_read (\<lambda>db. take_row (generation_key (fjp_RepositoryKey payload) (fjp_Change payload))
              (db_generations db))) (\<lambda>row.
          tx_bind (tx_found row CodeLocalStorage) (\<lambda>generation.
          tx_bind (tx_update db_jobs_update db_jobs (same_exhausted now r)
              (\<lambda>x. release_lease (x\<lparr>cjr_State := CoordinatorJobDone, cjr_Result := blocked_outcome,
                 cjr_FailureCode := CodeBusy\<rparr>))) (\<lambda>jobs.
          if jobs \<noteq> 1 then tx_return False
          else
          tx_bind (tx_update db_landings_update db_landings
              (\<lambda>l. lir_ID l = lir_ID landing \<and> lir_State l = LandingRunning \<and> lir_AttemptCount l = lir_AttemptCount landing)
              (\<lambda>l. l\<lparr>lir_State := LandingBlocked, lir_AttemptCount := lir_AttemptCount landing + 1,
                 lir_NextAttemptAt := zero_time, lir_LastErrorCode := CodeBusy\<rparr>)) (\<lambda>landings.
          tx_bind (tx_check (landings = 1) CodeConcurrentUpdate) (\<lambda>_.
          tx_bind (persistDesiredCheckTx (ce_blake3 env) (exhausted_check payload generation landing now)) (\<lambda>_.
          tx_return True))))))))"

definition execution_running :: "RunnerExecutionState \<Rightarrow> bool" where
  "execution_running s \<longleftrightarrow> s = RunnerExecutionPrepared \<or> s = RunnerExecutionActive \<or> s = RunnerExecutionCancelRequested"

definition lose_executions :: "string \<Rightarrow> go_time \<Rightarrow> nat tx" where
  "lose_executions jobID now =
     tx_update db_executions_update db_executions (\<lambda>x. rer_JobID x = jobID \<and> execution_running (rer_State x))
       (\<lambda>x. x\<lparr>rer_State := RunnerExecutionLost, rer_FailureCode := CodeBusy, rer_FinishedAt := now,
          rer_CleanupState := RunnerCleanupPending, rer_CleanupAfter := now, rer_UpdatedAt := now\<rparr>)"

definition recover_exhausted :: "coordinator_env \<Rightarrow> go_time \<Rightarrow> coordinatorJobRecord \<Rightarrow> unit tx" where
  "recover_exhausted env now r =
     tx_bind (recoverExhaustedFinalJobTx env r now) (\<lambda>recoveredFinal.
     if recoveredFinal then tx_bind (lose_executions (cjr_ID r) now) (\<lambda>_. tx_return ())
     else
       tx_bind (tx_update db_jobs_update db_jobs (same_exhausted now r)
           (\<lambda>x. release_lease (x\<lparr>cjr_State := CoordinatorJobFailed, cjr_FailureCode := CodeBusy\<rparr>))) (\<lambda>n.
       if n \<noteq> 1 then tx_return () else tx_bind (lose_executions (cjr_ID r) now) (\<lambda>_. tx_return ())))"

primrec recover_all :: "coordinator_env \<Rightarrow> go_time \<Rightarrow> coordinatorJobRecord list \<Rightarrow> unit tx" where
  "recover_all env now [] = tx_return ()"
| "recover_all env now (r # rs) = tx_bind (recover_exhausted env now r) (\<lambda>_. recover_all env now rs)"

definition recoverExpiredExhaustedJobsTx :: "coordinator_env \<Rightarrow> go_time \<Rightarrow> unit tx" where
  "recoverExpiredExhaustedJobsTx env now =
     tx_bind (tx_read (\<lambda>db. take 100 (order_rows (\<lambda>r. (time_instant (cjr_LeaseUntil r), cjr_ID r))
         (exhausted_job now) (db_jobs db)))) (\<lambda>records.
     recover_all env now records)"

subsection \<open>Leasing\<close>

definition claimable :: "go_time \<Rightarrow> coordinatorJobRecord \<Rightarrow> bool" where
  "claimable now r \<longleftrightarrow>
     ((cjr_State r = CoordinatorJobPending \<or> cjr_State r = CoordinatorJobRetryable) \<and> not_after (cjr_NextAttemptAt r) now
      \<or> lease_expired now r)
     \<and> cjr_Attempts r < cjr_MaxAttempts r"

text \<open>\<open>Order("priority DESC, next_attempt_at, job_id")\<close>\<close>

definition claim_order :: "coordinatorJobRecord \<Rightarrow> int \<times> int \<times> string" where
  "claim_order r = (- cjr_Priority r, time_instant (cjr_NextAttemptAt r), cjr_ID r)"

definition lease_job :: "string \<Rightarrow> go_time \<Rightarrow> coordinatorJobRecord \<Rightarrow> coordinatorJobRecord \<Rightarrow> coordinatorJobRecord" where
  "lease_job workerID leaseUntil r x =
     x\<lparr>cjr_State := CoordinatorJobRunning, cjr_Attempts := cjr_Attempts r + 1, cjr_LeaseOwner := workerID,
       cjr_LeaseUntil := leaseUntil, cjr_FencingToken := cjr_FencingToken r + 1\<rparr>"

text \<open>\<open>ClaimJob\<close>: with the caller's clock and without the fencing token in the condition of the update.\<close>

definition ClaimJob :: "coordinator_env \<Rightarrow> string \<Rightarrow> go_time \<Rightarrow> int \<Rightarrow> database \<Rightarrow> database \<times> CoordinatorJob option result" where
  "ClaimJob env workerID now lease db =
     (if TrimSpace workerID = [] \<or> time_IsZero now \<or> lease \<le> 0 then (db, Inl CodeValidation)
      else transaction
        (tx_bind (recoverExpiredExhaustedJobsTx env now) (\<lambda>_.
         tx_bind (tx_read (\<lambda>db. first_row claim_order (claimable now) (db_jobs db))) (\<lambda>found.
         case found of
           None \<Rightarrow> tx_return None
         | Some r \<Rightarrow>
           tx_bind (tx_update db_jobs_update db_jobs
               (\<lambda>x. cjr_ID x = cjr_ID r \<and> cjr_Attempts x = cjr_Attempts r \<and> cjr_State x = cjr_State r)
               (lease_job workerID (time_Add now lease) r)) (\<lambda>n.
           if n \<noteq> 1 then tx_return None
           else tx_return (Some (coordinatorJobFrom (lease_job workerID (time_Add now lease) r r))))))) db)"

record JobClaimOptions =
  jco_WorkerID :: string
  jco_Kinds :: "string list"
  jco_LeaseDuration :: int

definition ClaimJobKinds :: "coordinator_env \<Rightarrow> JobClaimOptions \<Rightarrow> database \<Rightarrow> database \<times> CoordinatorJob option result" where
  "ClaimJobKinds env options db =
     (if TrimSpace (jco_WorkerID options) = [] \<or> jco_Kinds options = [] \<or> jco_LeaseDuration options \<le> 0
         \<or> list_ex (\<lambda>kind. TrimSpace kind = []) (jco_Kinds options)
      then (db, Inl CodeValidation)
      else transaction
        (tx_bind databaseTime (\<lambda>now.
         tx_bind (recoverExpiredExhaustedJobsTx env now) (\<lambda>_.
         tx_bind (tx_read (\<lambda>db. first_row claim_order
             (\<lambda>r. cjr_Kind r \<in> set (jco_Kinds options) \<and> claimable now r) (db_jobs db))) (\<lambda>found.
         case found of
           None \<Rightarrow> tx_return None
         | Some r \<Rightarrow>
           tx_bind (tx_update db_jobs_update db_jobs
               (\<lambda>x. cjr_ID x = cjr_ID r \<and> cjr_Attempts x = cjr_Attempts r \<and> cjr_State x = cjr_State r
                  \<and> cjr_FencingToken x = cjr_FencingToken r)
               (lease_job (jco_WorkerID options) (time_Add now (jco_LeaseDuration options)) r)) (\<lambda>n.
           if n \<noteq> 1 then tx_return None
           else tx_return (Some (coordinatorJobFrom (lease_job (jco_WorkerID options)
               (time_Add now (jco_LeaseDuration options)) r r)))))))) db)"

end
