(* ===== verification/Delta_Facts.thy ===== *)
theory Delta_Facts
  imports Normalize_Facts
begin

text \<open>
  Change keys and candidate deltas: an identity string parses back to the key it was printed from,
  and a normalised delta is sorted, free of duplicates and addressed by content.
\<close>

subsection \<open>Printed numbers\<close>

lemma dec_digits_ok:
  "0 \<le> n \<Longrightarrow> dec_digits n \<noteq> [] \<and> list_all is_digit (dec_digits n) \<and> digits_value (dec_digits n) = n"
proof (induction n rule: dec_digits.induct)
  case (1 n)
  show ?case
  proof (cases "n < 10")
    case True
    with 1(2) show ?thesis
      by (subst (1 2 3) dec_digits.simps) (simp add: is_digit_def digits_value_def)
  next
    case False
    then have IH: "dec_digits (n div 10) \<noteq> []" "list_all is_digit (dec_digits (n div 10))"
      "digits_value (dec_digits (n div 10)) = n div 10"
      using 1 by simp_all
    have m: "0 \<le> n mod 10" "n mod 10 < 10" by simp_all
    have "digits_value (dec_digits (n div 10) @ [char_at (48 + n mod 10)]) = n div 10 * 10 + n mod 10"
      using m IH(3) by (simp add: digits_value_def)
    with False m IH(1,2) show ?thesis
      by (subst (1 2 3) dec_digits.simps) (simp add: is_digit_def)
  qed
qed

lemma digits_no_sep: "list_all is_digit s \<Longrightarrow> c \<in> set s \<Longrightarrow> graphic (byte_of c) \<and> c \<noteq> CHR ''#'' \<and> c \<noteq> CHR ''-'' \<and> c \<noteq> CHR ''+''"
  by (auto simp: list_all_iff is_digit_def graphic_def)

lemma Atoi_Sprint:
  assumes "0 \<le> n" "n < 2 ^ 63"
  shows "Atoi (Sprint_int n) = Some n"
proof -
  note d = dec_digits_ok [OF assms(1)]
  then obtain c cs where s: "dec_digits n = c # cs" by (cases "dec_digits n") auto
  with d have "c \<noteq> CHR ''-''" "c \<noteq> CHR ''+''" using digits_no_sep [of "dec_digits n" c] by auto
  then have "(case c # cs of CHR ''-'' # t \<Rightarrow> (True, t) | CHR ''+'' # t \<Rightarrow> (False, t) | _ \<Rightarrow> (False, c # cs))
      = (False, c # cs)"
    by (cases c) (auto split: bool.splits)
  with d s assms show ?thesis by (simp add: Atoi_def Sprint_int_def)
qed

subsection \<open>Separators\<close>

lemma IndexByte_append: "c \<notin> set s \<Longrightarrow> IndexByte c (s @ c # t) = Some (length s)"
  by (induction s) auto

lemma LastIndexByte_append: "c \<notin> set t \<Longrightarrow> LastIndexByte c (s @ c # t) = Some (length s)"
  by (simp add: LastIndexByte_def IndexByte_append)

lemma decode_ascii:
  assumes "decode_rune (b # bs) = (r, w)" "0 \<le> b" "r < 128"
  shows "r = b \<and> w = 1"
proof -
  from decode_cases [OF assms(1,2)] assms(3) have "take w (b # bs) = encode_rune r" "w = length (encode_rune r)"
    by (auto simp: rune_error_def)
  with assms(3) show ?thesis by (simp add: encode_rune_def)
qed

lemma byte_runes_all_ascii:
  "\<forall>x \<in> set bs. 0 \<le> x \<Longrightarrow> list_all (\<lambda>r. r < 128) (byte_runes bs) \<Longrightarrow> byte_runes bs = bs"
proof (induction bs rule: byte_runes.induct)
  case 1
  show ?case by simp
next
  case (2 b bs)
  obtain r w where rw: "decode_rune (b # bs) = (r, w)" by fastforce
  with 2(3) have "r < 128" by simp
  with decode_ascii [OF rw] 2(2) have r: "r = b" "w = 1" by simp_all
  have "byte_runes (drop (w - 1) bs) = drop (w - 1) bs"
    using 2(2,3) rw r by (intro 2(1) [OF rw [symmetric]]) auto
  with rw r show ?case by simp
qed

lemma runes_ascii: "list_all (\<lambda>r. r < 128) (runes s) \<Longrightarrow> runes s = map byte_of s"
  unfolding runes_def by (rule byte_runes_all_ascii) auto

subsection \<open>Providers and repositories\<close>

lemma name_loop_checks:
  "range_loop (\<lambda>first r. if P r then (if first \<and> Q r then Inl e else Inr False) else Inl e) b rs = Inr c
     \<Longrightarrow> list_all P rs \<and> (b \<longrightarrow> rs \<noteq> [] \<longrightarrow> \<not> Q (hd rs))"
proof (induction rs arbitrary: b)
  case Nil
  then show ?case by simp
next
  case (Cons r rs)
  then show ?case by (auto split: if_splits)
qed

lemma provider_bytes:
  assumes "normalizeCandidateProvider v = Inr p"
  shows "p \<noteq> [] \<and> list_all (\<lambda>c. provider_rune (byte_of c)) p"
proof -
  let ?p = "ToLower (TrimSpace v)"
  from assms obtain x where p: "p = ?p" "?p \<noteq> []" and x: "range_loop (\<lambda>first r.
      if provider_rune r then (if first \<and> r \<in> {46, 95, 45} then Inl CodeValidation else Inr False)
      else Inl CodeValidation) True (runes ?p) = Inr x"
    by (auto simp: normalizeCandidateProvider_def Let_def simp del: range_loop.simps split: if_splits)
  have ok: "list_all provider_rune (runes p)"
    using name_loop_checks [where P = provider_rune and Q = "\<lambda>r. r \<in> {46, 95, 45}", OF x] p(1)
    by (simp only:)
  then have "list_all (\<lambda>r. r < 128) (runes p)" by (auto simp: list_all_iff provider_rune_def)
  from runes_ascii [OF this] ok have "list_all provider_rune (map byte_of p)" by (simp only:)
  with p show ?thesis by (simp add: list.pred_map comp_def)
qed

lemma provider_no_sep:
  assumes "list_all (\<lambda>c. provider_rune (byte_of c)) p"
  shows "CHR '':'' \<notin> set p \<and> CHR ''#'' \<notin> set p \<and> (p \<noteq> [] \<longrightarrow> graphic (byte_of (hd p)))"
  using assms by (cases p) (auto simp: list_all_iff provider_rune_def graphic_def)

lemma repository_facts:
  assumes "normalizeCandidateRepository v = Inr r"
  shows "r \<noteq> [] \<and> CHR ''#'' \<notin> set r \<and> CHR '':'' \<notin> set r"
  using assms
  by (auto simp: normalizeCandidateRepository_def Let_def ContainsAny_def list_ex_iff
      repository_stop_bytes_def split: if_splits)

lemma normalizeChangeKey_fixed:
  "normalizeChangeKey k = Inr k' \<Longrightarrow>
     normalizeCandidateProvider (ck_Provider k) = Inr (ck_Provider k')
     \<and> normalizeCandidateRepository (ck_Repository k) = Inr (ck_Repository k')
     \<and> 1 \<le> ck_Number k \<and> ck_Number k' = ck_Number k"
  by (auto simp: normalizeChangeKey_def split: if_splits)

text \<open>A change key that is normalised parses back from the identity string
  provider:repository#number that the candidates carry.\<close>

lemma change_key_round_trip:
  assumes "normalizeChangeKey k = Inr k" "ck_Number k < 2 ^ 63"
  shows "ParseChangeKey (change_identity (ck_Provider k) (ck_Repository k) (ck_Number k)) = Inr k"
proof -
  let ?p = "ck_Provider k" and ?r = "ck_Repository k" and ?n = "ck_Number k"
  let ?d = "Sprint_int ?n"
  let ?v = "change_identity ?p ?r ?n"
  note k = normalizeChangeKey_fixed [OF assms(1)]
  have p: "?p \<noteq> []" "CHR '':'' \<notin> set ?p" "graphic (byte_of (hd ?p))"
    using provider_bytes provider_no_sep k by blast+
  have r: "?r \<noteq> []" "CHR ''#'' \<notin> set ?r" using repository_facts k by blast+
  have d: "?d \<noteq> []" "CHR ''#'' \<notin> set ?d" "graphic (byte_of (last ?d))"
    using dec_digits_ok [of ?n] digits_no_sep [of "dec_digits ?n"] k
    by (simp_all add: Sprint_int_def) force
  have v: "?v = ?p @ CHR '':'' # ?r @ CHR ''#'' # ?d" by (simp add: change_identity_def)
  have "trimmed_bytes (map byte_of ?v)"
    by (rule graphic_trimmed) (use p d in \<open>auto simp: v hd_append last_map hd_map\<close>)
  then have trim: "TrimSpace ?v = ?v" by (rule TrimSpace_fix)
  have i: "IndexByte CHR '':'' ?v = Some (length ?p)"
    unfolding v using p(2) by (rule IndexByte_append)
  have "?v = (?p @ CHR '':'' # ?r) @ CHR ''#'' # ?d" by (simp add: v)
  then have j: "LastIndexByte CHR ''#'' ?v = Some (length ?p + 1 + length ?r)"
    using LastIndexByte_append [OF d(2), of "?p @ CHR '':'' # ?r"] by simp
  have len: "length ?v = length ?p + length ?r + length ?d + 2" by (simp add: v)
  have parts: "take (length ?p) ?v = ?p" "drop (length ?p + 1 + length ?r + 1) ?v = ?d"
    "drop (length ?p + 1) (take (length ?p + 1 + length ?r) ?v) = ?r"
    by (simp_all add: v)
  have "normalizeChangeKey \<lparr>ck_Provider = ?p, ck_Repository = ?r, ck_Number = ?n\<rparr> = Inr k"
    using assms(1) by (cases k) simp
  moreover have "Atoi ?d = Some ?n" using Atoi_Sprint k assms(2) by simp
  moreover have "nat (int (length ?p + 1 + length ?r)) + 1 = length ?p + 1 + length ?r + 1" by simp
  moreover have "length ?p > 0" "length ?r > 0" "length ?d > 0" using p r d by simp_all
  ultimately show ?thesis
    using parts len
    by (simp add: ParseChangeKey_def trim i j index_int_def Let_def)
qed

subsection \<open>Records\<close>

definition record_fields_ok :: "CandidateContextRecord \<Rightarrow> bool" where
  "record_fields_ok r \<longleftrightarrow> rec_NoteID r \<noteq> [] \<and> rec_RevisionID r \<noteq> [] \<and> rec_EntityKey r \<noteq> []
     \<and> validCandidateSHA (rec_StructuralHash r) \<and> ValidNoteKind (rec_Kind r)
     \<and> TrimSpace (rec_Body r) \<noteq> [] \<and> length (rec_Body r) \<le> 65536 \<and> rec_Author r \<noteq> []
     \<and> rec_Origin r \<noteq> [] \<and> \<not> time_IsZero (rec_CreatedAt r)"

lemma normalizeCandidateContextRecord_iff:
  "normalizeCandidateContextRecord b3 x = Inr r \<longleftrightarrow>
     (\<exists>ts i. NormalizeNoteTopics (rec_Topics x) = Inr ts
        \<and> record_fields_ok ((trim_record x)\<lparr>rec_Topics := ts\<rparr>)
        \<and> record_operation_ok ((trim_record x)\<lparr>rec_Topics := ts\<rparr>)
        \<and> canonicalDigest b3 (record_json ((trim_record x)\<lparr>rec_Topics := ts, rec_ID := []\<rparr>)) = Inr i
        \<and> (ToLower (TrimSpace (rec_ID x)) = [] \<or> ToLower (TrimSpace (rec_ID x)) = i)
        \<and> r = (trim_record x)\<lparr>rec_Topics := ts, rec_ID := i\<rparr>)"
proof -
  have t: "rec_Topics (trim_record x) = rec_Topics x" "rec_ID (trim_record x) = rec_ID x"
    by (simp_all add: trim_record_def)
  show ?thesis
    by (auto simp: normalizeCandidateContextRecord_def Let_def record_fields_ok_def t not_less
      simp del: TrimSpace_Nil split: if_splits)
qed

definition record_normal :: "CandidateContextRecord \<Rightarrow> bool" where
  "record_normal r \<longleftrightarrow> trim_record r = r \<and> NormalizeNoteTopics (rec_Topics r) = Inr (rec_Topics r)
     \<and> record_fields_ok r \<and> record_operation_ok r"

lemma record_op_ID: "record_operation_ok (r\<lparr>rec_ID := i\<rparr>) = record_operation_ok r"
  by (simp add: record_operation_ok_def)

lemma record_fields_ID: "record_fields_ok (r\<lparr>rec_ID := i\<rparr>) = record_fields_ok r"
  by (simp add: record_fields_ok_def)

lemma record_normalised:
  assumes "normalizeCandidateContextRecord b3 x = Inr r"
  shows "record_normal r \<and> canonicalDigest b3 (record_json (r\<lparr>rec_ID := []\<rparr>)) = Inr (rec_ID r)"
proof -
  from assms obtain ts i where ts: "NormalizeNoteTopics (rec_Topics x) = Inr ts"
      and ok: "record_fields_ok ((trim_record x)\<lparr>rec_Topics := ts\<rparr>)"
        "record_operation_ok ((trim_record x)\<lparr>rec_Topics := ts\<rparr>)"
      and i: "canonicalDigest b3 (record_json ((trim_record x)\<lparr>rec_Topics := ts, rec_ID := []\<rparr>)) = Inr i"
      and r: "r = (trim_record x)\<lparr>rec_Topics := ts, rec_ID := i\<rparr>"
    unfolding normalizeCandidateContextRecord_iff by blast
  have "trim_record r = r" by (simp add: r trim_record_def)
  moreover have "rec_Topics r = ts" "r\<lparr>rec_ID := []\<rparr> = (trim_record x)\<lparr>rec_Topics := ts, rec_ID := []\<rparr>"
    "rec_ID r = i" by (simp_all add: r)
  ultimately show ?thesis
    using topics_fixed [OF ts] ok i r by (simp add: record_normal_def record_op_ID record_fields_ID)
qed

lemma record_fixed:
  assumes "record_normal r" "canonicalDigest b3 (record_json (r\<lparr>rec_ID := []\<rparr>)) = Inr (rec_ID r)" "hash_32 b3"
  shows "normalizeCandidateContextRecord b3 r = Inr r"
proof -
  from canonicalDigest_canonical [OF assms(3,2)] have "canonical_id (rec_ID r)" .
  then have "NormalizeContextCommitID (rec_ID r) = Inr (rec_ID r)" by (rule canonical_id_fixed)
  then have "ToLower (TrimSpace (rec_ID r)) = rec_ID r"
    by (auto simp: NormalizeContextCommitID_def Let_def split: if_splits)
  with assms(1,2) show ?thesis
    unfolding normalizeCandidateContextRecord_iff record_normal_def by simp
qed

subsection \<open>Deltas\<close>

lemma hex_lower_fixed: "list_all is_hex s \<Longrightarrow> list_all is_hex (ToLower s) \<and> length (ToLower s) = length s"
  by (auto simp: ToLower_hex list_all_iff ascii_lower_hex lower_hex_is_hex)

lemma validCandidateSHA_lower: "validCandidateSHA s \<Longrightarrow> validCandidateSHA (ToLower s)"
  by (auto simp: validCandidateSHA_def hex_decodes_def hex_lower_fixed)

lemma adjacent_distinct_sorted:
  "sorted ids \<Longrightarrow> adjacent_distinct ids \<longleftrightarrow> sorted_wrt (<) ids"
proof (induction ids rule: adjacent_distinct.induct)
  case (1 x y zs)
  then show ?case by (auto simp: less_le)
qed auto

lemma normalizeChangeKey_idem:
  "normalizeChangeKey k = Inr k' \<Longrightarrow> normalizeChangeKey k' = Inr k'"
  by (auto simp: normalizeChangeKey_def normalizeCandidateProvider_def normalizeCandidateRepository_def
    Let_def split: if_splits)

definition delta_normal :: "(string \<Rightarrow> string) \<Rightarrow> CandidateContextDelta \<Rightarrow> bool" where
  "delta_normal b3 d \<longleftrightarrow> delta_SchemaVersion d = 2
     \<and> normalizeChangeKey (delta_Change d) = Inr (delta_Change d)
     \<and> validCandidateSHA (delta_BaseSourceSHA d) \<and> ToLower (delta_BaseSourceSHA d) = delta_BaseSourceSHA d
     \<and> validCandidateSHA (delta_HeadSourceSHA d) \<and> ToLower (delta_HeadSourceSHA d) = delta_HeadSourceSHA d
     \<and> (delta_BaseContextCommitID d = [] \<or> canonical_id (delta_BaseContextCommitID d))
     \<and> length (delta_Records d) \<le> 1000
     \<and> sorted_wrt (<) (map rec_ID (delta_Records d)) \<and> distinct (map rec_NoteID (delta_Records d))
     \<and> list_all (\<lambda>r. record_normal r
          \<and> canonicalDigest b3 (record_json (r\<lparr>rec_ID := []\<rparr>)) = Inr (rec_ID r)) (delta_Records d)"

lemma delta_records_loop:
  "range_loop (\<lambda>(records, noteIDs) raw.
     and_then (normalizeCandidateContextRecord b3 raw) (\<lambda>record.
     if rec_NoteID record \<in> noteIDs then Inl CodeValidation
     else Inr (records @ [record], insert (rec_NoteID record) noteIDs))) ([], {}) raws = Inr r
   \<longleftrightarrow> (\<exists>rs. list_all2 (\<lambda>x y. normalizeCandidateContextRecord b3 x = Inr y) raws rs
         \<and> distinct (map rec_NoteID rs) \<and> r = (rs, set (map rec_NoteID rs)))"
  by (subst range_loop_collect [where f = "normalizeCandidateContextRecord b3" and key = rec_NoteID
      and e = CodeValidation]) simp_all

lemma NormalizeCandidateContextDelta_normal:
  assumes "NormalizeCandidateContextDelta b3 x = Inr d"
  shows "delta_normal b3 d"
proof -
  from assms obtain rs u where rs: "range_loop (\<lambda>(records, noteIDs) raw.
     and_then (normalizeCandidateContextRecord b3 raw) (\<lambda>record.
     if rec_NoteID record \<in> noteIDs then Inl CodeValidation
     else Inr (records @ [record], insert (rec_NoteID record) noteIDs))) ([], {}) (delta_Records x) = Inr (rs, u)"
     "adjacent_distinct (map rec_ID (sort_key rec_ID rs))" "delta_Records d = sort_key rec_ID rs"
    and d: "delta_SchemaVersion d = 2" "normalizeChangeKey (delta_Change x) = Inr (delta_Change d)"
      "validCandidateSHA (delta_BaseSourceSHA x)" "delta_BaseSourceSHA d = ToLower (delta_BaseSourceSHA x)"
      "validCandidateSHA (delta_HeadSourceSHA x)" "delta_HeadSourceSHA d = ToLower (delta_HeadSourceSHA x)"
      "delta_BaseContextCommitID d = ToLower (TrimSpace (delta_BaseContextCommitID x))"
      "delta_BaseContextCommitID d = [] \<or>
         NormalizeContextCommitID (delta_BaseContextCommitID d) = Inr (delta_BaseContextCommitID d)"
      "\<not> maxCandidateNotes < int (length (delta_Records x))"
    by (auto simp: NormalizeCandidateContextDelta_def Let_def simp del: range_loop.simps split: if_splits)
  from rs(1) have l: "list_all2 (\<lambda>x y. normalizeCandidateContextRecord b3 x = Inr y) (delta_Records x) rs"
      "distinct (map rec_NoteID rs)"
    unfolding delta_records_loop by auto
  then have len: "length (delta_Records x) = length rs" by (auto dest: list_all2_lengthD)
  have rec: "\<forall>r \<in> set rs. record_normal r \<and> canonicalDigest b3 (record_json (r\<lparr>rec_ID := []\<rparr>)) = Inr (rec_ID r)"
  proof
    fix r
    assume "r \<in> set rs"
    with l(1) obtain y where "normalizeCandidateContextRecord b3 y = Inr r"
      by (auto simp: list_all2_conv_all_nth in_set_conv_nth)
    then show "record_normal r \<and> canonicalDigest b3 (record_json (r\<lparr>rec_ID := []\<rparr>)) = Inr (rec_ID r)"
      by (rule record_normalised)
  qed
  have "sorted (map rec_ID (sort_key rec_ID rs))" by simp
  with rs(2) have s: "sorted_wrt (<) (map rec_ID (sort_key rec_ID rs))"
    using adjacent_distinct_sorted by blast
  have "mset (map rec_NoteID (sort_key rec_ID rs)) = mset (map rec_NoteID rs)" by simp
  with l(2) have "distinct (map rec_NoteID (sort_key rec_ID rs))"
    by (metis mset_eq_imp_distinct_iff)
  then show ?thesis
    using d rs(3) s rec len
    by (auto simp: delta_normal_def list_all_iff validCandidateSHA_lower maxCandidateNotes_def
        canonical_id_iff intro: normalizeChangeKey_idem)
qed

lemma delta_normal_fixed:
  assumes "delta_normal b3 d" "hash_32 b3"
  shows "NormalizeCandidateContextDelta b3 d = Inr d"
proof -
  note d = assms(1) [unfolded delta_normal_def]
  let ?rs = "delta_Records d"
  have "list_all2 (\<lambda>x y. normalizeCandidateContextRecord b3 x = Inr y) ?rs ?rs"
    using d assms(2) by (auto simp: list_all_iff intro!: list.rel_refl_strong record_fixed)
  with d have l: "range_loop (\<lambda>(records, noteIDs) raw.
     and_then (normalizeCandidateContextRecord b3 raw) (\<lambda>record.
     if rec_NoteID record \<in> noteIDs then Inl CodeValidation
     else Inr (records @ [record], insert (rec_NoteID record) noteIDs))) ([], {}) ?rs
       = Inr (?rs, set (map rec_NoteID ?rs))"
    unfolding delta_records_loop by blast
  have s: "sorted (map rec_ID ?rs)" using d by (simp add: strict_sorted_iff)
  then have "sort_key rec_ID ?rs = ?rs" by (rule sort_key_id_if_sorted)
  moreover have "adjacent_distinct (map rec_ID ?rs)" using d adjacent_distinct_sorted [OF s] by simp
  moreover have c: "ToLower (TrimSpace (delta_BaseContextCommitID d)) = delta_BaseContextCommitID d"
    using d by (auto dest!: canonical_id_fixed
      simp: NormalizeContextCommitID_def Let_def ToLower_lower_hex split: if_splits)
  moreover have "delta_BaseContextCommitID d = [] \<or>
      NormalizeContextCommitID (delta_BaseContextCommitID d) = Inr (delta_BaseContextCommitID d)"
    using d by (auto intro: canonical_id_fixed)
  moreover have "\<not> maxCandidateNotes < int (length ?rs)" using d by (simp add: maxCandidateNotes_def)
  moreover have "\<lparr>delta_SchemaVersion = 2, delta_Change = delta_Change d,
      delta_BaseSourceSHA = delta_BaseSourceSHA d, delta_HeadSourceSHA = delta_HeadSourceSHA d,
      delta_BaseContextCommitID = delta_BaseContextCommitID d, delta_Records = ?rs\<rparr> = d"
    using d by (cases d) simp
  ultimately show ?thesis
    using d l by (auto simp: NormalizeCandidateContextDelta_def Let_def simp del: range_loop.simps)
qed

text \<open>C30: Normalising a candidate delta is idempotent and keeps its digest, whatever order the
  envelope listed its records in; the result lists the records in the strict order of
  their identifiers, no note twice, each identifier the digest of the record's own content.\<close>

theorem delta_canonical:
  assumes "hash_32 b3" "NormalizeCandidateContextDelta b3 x = Inr d"
  shows "NormalizeCandidateContextDelta b3 d = Inr d
    \<and> CandidateContextDigest b3 d = CandidateContextDigest b3 x
    \<and> length (delta_Records d) \<le> 1000
    \<and> sorted_wrt (<) (map rec_ID (delta_Records d)) \<and> distinct (map rec_NoteID (delta_Records d))
    \<and> (\<forall>r \<in> set (delta_Records d). record_operation_ok r
         \<and> canonicalDigest b3 (record_json (r\<lparr>rec_ID := []\<rparr>)) = Inr (rec_ID r))"
proof -
  have n: "delta_normal b3 d" by (rule NormalizeCandidateContextDelta_normal) (rule assms(2))
  then have f: "NormalizeCandidateContextDelta b3 d = Inr d" using assms(1) by (rule delta_normal_fixed)
  then have "CandidateContextDigest b3 d = CandidateContextDigest b3 x"
    by (simp add: CandidateContextDigest_def assms(2))
  with n f show ?thesis by (auto simp: delta_normal_def list_all_iff record_normal_def)
qed

subsection \<open>A concrete delta\<close>

definition ex_hash :: "string \<Rightarrow> string" where
  "ex_hash _ = replicate 32 CHR 0xAA"

definition ex_id :: string where
  "ex_id = replicate 64 CHR ''a''"

definition ex_sha :: string where
  "ex_sha = replicate 40 CHR ''b''"

definition ex_time :: go_time where
  "ex_time = time_Unix 0"

definition ex_record :: CandidateContextRecord where
  "ex_record = \<lparr>rec_ID = ex_id, rec_Operation = CandidateAdd, rec_NoteID = ''n'', rec_RevisionID = ''r'',
     rec_BaseRevisionID = [], rec_SupersedesRevisionID = [], rec_EntityKey = ''e'',
     rec_StructuralHash = ex_sha, rec_Kind = NoteIntent, rec_Body = ''b'', rec_Topics = [],
     rec_Author = ''a'', rec_Origin = ''o'', rec_CreatedAt = ex_time\<rparr>"

definition ex_change :: ChangeKey where
  "ex_change = \<lparr>ck_Provider = ''gh'', ck_Repository = ''o/r'', ck_Number = 7\<rparr>"

definition ex_delta :: CandidateContextDelta where
  "ex_delta = \<lparr>delta_SchemaVersion = 2, delta_Change = ex_change, delta_BaseSourceSHA = ex_sha,
     delta_HeadSourceSHA = ex_sha, delta_BaseContextCommitID = [], delta_Records = [ex_record]\<rparr>"

lemma ex_hash_32: "hash_32 ex_hash"
  by (simp add: hash_32_def ex_hash_def)

lemma ex_hash_hex: "hex_encode (ex_hash s) = ex_id"
  unfolding ex_hash_def ex_id_def by code_simp

lemma ex_id_canonical: "canonical_id ex_id"
  by (simp add: canonical_id_def ex_id_def list_all_iff is_lower_hex_def)

lemma ex_sha_lower: "list_all is_lower_hex ex_sha" "length ex_sha = 40"
  by (simp_all add: ex_sha_def list_all_iff is_lower_hex_def)

lemma ex_sha_facts:
  "TrimSpace ex_sha = ex_sha" "ToLower ex_sha = ex_sha" "validCandidateSHA ex_sha" "ex_sha \<noteq> []"
proof -
  have "list_all is_hex ex_sha" using ex_sha_lower by (auto simp: list_all_iff lower_hex_is_hex)
  then show "TrimSpace ex_sha = ex_sha" "validCandidateSHA ex_sha"
    by (simp_all add: TrimSpace_hex validCandidateSHA_def hex_decodes_def ex_sha_lower)
  show "ToLower ex_sha = ex_sha" by (rule ToLower_lower_hex) (rule ex_sha_lower)
  show "ex_sha \<noteq> []" using ex_sha_lower(2) by auto
qed

lemma ToLower_Nil [simp]: "ToLower [] = []"
  by (simp add: ToLower_def runes_def)

lemma TrimSpace_letter: "33 \<le> byte_of c \<Longrightarrow> byte_of c < 128 \<Longrightarrow> TrimSpace [c] = [c]"
  by (rule TrimSpace_graphic) (simp add: graphic_def)

lemma ex_time_facts: "time_UTC ex_time = ex_time" "\<not> time_IsZero ex_time" "time_json_ok ex_time"
  by code_simp+

lemma ex_change_normal: "normalizeChangeKey ex_change = Inr ex_change"
proof -
  have "TrimSpace ''gh'' = ''gh''" "TrimSpace ''o/r'' = ''o/r''"
    by (rule TrimSpace_graphic, simp add: graphic_def)+
  moreover have "ToLower ''gh'' = ''gh''"
    by (subst ToLower_ascii, simp, code_simp)
  ultimately show ?thesis
    by (simp add: normalizeChangeKey_def ex_change_def normalizeCandidateProvider_def
        normalizeCandidateRepository_def runes_def provider_rune_def ContainsAny_def
        repository_stop_bytes_def HasPrefix_def HasSuffix_def starts_with_def Let_def)
qed

lemma change_key_round_trip_example:
  "ParseChangeKey (change_identity ''gh'' ''o/r'' 7) = Inr ex_change"
  using change_key_round_trip [OF ex_change_normal] by (simp add: ex_change_def)

lemma ex_record_normal:
  "record_normal ex_record \<and> canonicalDigest ex_hash (record_json (ex_record\<lparr>rec_ID := []\<rparr>)) = Inr ex_id"
proof -
  have "json_ok (record_json (ex_record\<lparr>rec_ID := []\<rparr>))"
    by (simp add: record_json_def ex_record_def fld_defs ex_time_facts)
  moreover have "NormalizeNoteTopics [] = Inr []" by (simp add: NormalizeNoteTopics_def)
  moreover have "trim_record ex_record = ex_record"
    by (simp add: trim_record_def ex_record_def TrimSpace_letter ex_sha_facts ex_time_facts)
  moreover have "record_fields_ok ex_record" "record_operation_ok ex_record" "rec_Topics ex_record = []"
    by (simp_all add: record_fields_ok_def record_operation_ok_def ex_record_def TrimSpace_letter
        ex_sha_facts ex_time_facts ValidNoteKind_def go_defs)
  ultimately show ?thesis
    by (simp add: record_normal_def canonicalDigest_def json_marshal_def ex_hash_hex)
qed

lemma ex_delta_normal: "delta_normal ex_hash ex_delta"
  using ex_record_normal ex_change_normal
  by (simp add: delta_normal_def ex_delta_def ex_sha_facts ex_record_def)

text \<open>The same delta as an envelope lists it, without the identifier of the record.\<close>

definition ex_envelope_delta :: CandidateContextDelta where
  "ex_envelope_delta = ex_delta\<lparr>delta_Records := [ex_record\<lparr>rec_ID := []\<rparr>]\<rparr>"

lemma ex_envelope_normalised: "NormalizeCandidateContextDelta ex_hash ex_envelope_delta = Inr ex_delta"
proof -
  have "trim_record (ex_record\<lparr>rec_ID := []\<rparr>) = (trim_record ex_record)\<lparr>rec_ID := []\<rparr>"
    by (simp add: trim_record_def)
  then have r: "normalizeCandidateContextRecord ex_hash (ex_record\<lparr>rec_ID := []\<rparr>) = Inr ex_record"
    using ex_record_normal
    unfolding normalizeCandidateContextRecord_iff record_normal_def
    by (auto simp: record_op_ID record_fields_ID ex_record_def record_operation_ok_def
        record_fields_ok_def)
  show ?thesis
    using r ex_change_normal
    by (simp add: NormalizeCandidateContextDelta_def ex_envelope_delta_def ex_delta_def ex_sha_facts
        maxCandidateNotes_def)
qed

theorem delta_canonical_witness:
  "NormalizeCandidateContextDelta ex_hash ex_envelope_delta = Inr ex_delta \<and>
   CandidateContextDigest ex_hash ex_delta = CandidateContextDigest ex_hash ex_envelope_delta \<and>
   canonicalDigest ex_hash (record_json (ex_record\<lparr>rec_ID := []\<rparr>)) = Inr (rec_ID ex_record)"
  using ex_envelope_normalised delta_canonical [OF ex_hash_32 ex_envelope_normalised]
  by (simp add: ex_delta_def)

end
