(* ===== verification/Coordinator_Landings.thy ===== *)
theory Coordinator_Landings
  imports Coordinator_Claims Delta_Facts Landing_Plan
begin

text \<open>
  Generations of a change, stored plans and candidates, and landing intents (coordinator_store.go),
  and the transactions that schedule planning and end a landing (coordinator_outbox.go).
\<close>

subsection \<open>Generations and plans\<close>

definition validatePRGeneration :: "PRGeneration \<Rightarrow> unit result" where
  "validatePRGeneration g =
     (if TrimSpace (gen_RepositoryKey g) = [] \<or> ck_Provider (gen_Change g) = [] \<or> ck_Repository (gen_Change g) = []
         \<or> ck_Number (gen_Change g) < 1 \<or> gen_BaseSourceSHA g = [] \<or> gen_HeadSourceSHA g = [] \<or> gen_Version g < 1
         \<or> time_IsZero (gen_UpdatedAt g)
      then Inl CodeValidation else Inr ())"

definition sameGenerationContent :: "PRGeneration \<Rightarrow> PRGeneration \<Rightarrow> bool" where
  "sameGenerationContent l r \<longleftrightarrow> l\<lparr>gen_UpdatedAt := zero_time\<rparr> = r\<lparr>gen_UpdatedAt := zero_time\<rparr>"

definition upsertGenerationTx :: "PRGeneration \<Rightarrow> bool tx" where
  "upsertGenerationTx g =
     tx_bind (tx_read (\<lambda>db. take_row (generation_key (gen_RepositoryKey g) (gen_Change g)) (db_generations db))) (\<lambda>row.
     case row of
       None \<Rightarrow>
         tx_bind (tx_check (gen_Version g = 1) CodeConcurrentUpdate) (\<lambda>_.
         tx_bind (tx_insert db_generations_update db_generations (generation_key (gen_RepositoryKey g) (gen_Change g))
             (prGenerationRecordFrom g)) (\<lambda>_.
         tx_return True))
     | Some existing \<Rightarrow>
         let current = prGenerationFrom existing
         in if gen_Version g = gen_Version current
            then (if \<not> sameGenerationContent current g then tx_fail CodeConcurrentUpdate else tx_return False)
            else if gen_Version g \<noteq> gen_Version current + 1 then tx_fail CodeConcurrentUpdate
            else
              tx_bind (tx_update db_generations_update db_generations
                (\<lambda>r. generation_key (gen_RepositoryKey g) (gen_Change g) r \<and> pgr_Version r = gen_Version current)
                (\<lambda>r. r\<lparr>pgr_BaseSourceSHA := gen_BaseSourceSHA g, pgr_HeadSourceSHA := gen_HeadSourceSHA g,
                   pgr_CandidateDigest := gen_CandidateDigest g, pgr_Version := gen_Version g, pgr_CurrentPlanID := [],
                   pgr_UpdatedAt := time_UTC (gen_UpdatedAt g)\<rparr>)) (\<lambda>n.
              tx_bind (tx_check (n = 1) CodeConcurrentUpdate) (\<lambda>_.
              tx_return True)))"

definition UpsertGeneration :: "PRGeneration \<Rightarrow> database \<Rightarrow> database \<times> bool result" where
  "UpsertGeneration g db = (case validatePRGeneration g of
       Inl e \<Rightarrow> (db, Inl e) | Inr _ \<Rightarrow> transaction (upsertGenerationTx g) db)"

definition Generation :: "string \<Rightarrow> ChangeKey \<Rightarrow> database \<Rightarrow> PRGeneration result" where
  "Generation repositoryKey change db =
     (case take_row (generation_key repositoryKey change) (db_generations db) of
        None \<Rightarrow> Inl CodeEntityNotFound | Some r \<Rightarrow> Inr (prGenerationFrom r))"

definition saveCurrentPlanTx :: "PRGeneration \<Rightarrow> ContextPlan \<Rightarrow> string \<Rightarrow> unit tx" where
  "saveCurrentPlanTx g plan payload =
     tx_bind (tx_read (\<lambda>db. take_row (generation_key (gen_RepositoryKey g) (gen_Change g)) (db_generations db))) (\<lambda>row.
     tx_bind (tx_found row CodeLocalStorage) (\<lambda>current.
     tx_bind (tx_check (pgr_Version current = gen_Version g \<and> pgr_BaseSourceSHA current = gen_BaseSourceSHA g
         \<and> pgr_HeadSourceSHA current = gen_HeadSourceSHA g \<and> pgr_CandidateDigest current = gen_CandidateDigest g)
       CodeConcurrentUpdate) (\<lambda>_.
     tx_bind (tx_read (\<lambda>db. take_row (\<lambda>p. cpr_PlanID p = plan_ID plan) (db_plans db))) (\<lambda>existing.
     tx_bind (case existing of
         Some p \<Rightarrow> tx_check (cpr_Payload p = payload) CodeValidation
       | None \<Rightarrow> tx_insert db_plans_update db_plans (\<lambda>p. cpr_PlanID p = plan_ID plan)
           \<lparr>cpr_PlanID = plan_ID plan, cpr_RepositoryKey = gen_RepositoryKey g, cpr_Provider = ck_Provider (gen_Change g),
             cpr_ForgeRepository = ck_Repository (gen_Change g), cpr_ChangeNumber = ck_Number (gen_Change g),
             cpr_Generation = gen_Version g, cpr_Payload = payload, cpr_CreatedAt = time_UTC (plan_CreatedAt plan)\<rparr>) (\<lambda>_.
     tx_bind (tx_update db_generations_update db_generations
         (\<lambda>r. generation_key (gen_RepositoryKey g) (gen_Change g) r \<and> pgr_Version r = gen_Version g)
         (\<lambda>r. r\<lparr>pgr_CurrentPlanID := plan_ID plan\<rparr>)) (\<lambda>n.
     tx_check (n = 1) CodeConcurrentUpdate))))))"

definition SaveCurrentPlan :: "PRGeneration \<Rightarrow> ContextPlan \<Rightarrow> database \<Rightarrow> database \<times> unit result" where
  "SaveCurrentPlan g plan db = (case validatePRGeneration g of
       Inl e \<Rightarrow> (db, Inl e)
     | Inr _ \<Rightarrow>
         if plan_ID plan = [] \<or> time_IsZero (plan_CreatedAt plan) \<or> fp_Change (plan_Fingerprint plan) \<noteq> gen_Change g
         then (db, Inl CodeValidation)
         else case json_marshal (plan_json plan) of
           None \<Rightarrow> (db, Inl CodeValidation)
         | Some payload \<Rightarrow> transaction (saveCurrentPlanTx g plan payload) db)"

text \<open>\<open>Plan\<close>, with the decoder of a stored plan a parameter.\<close>

definition read_plan :: "(string \<Rightarrow> ContextPlan option) \<Rightarrow> string \<Rightarrow> string \<Rightarrow> database \<Rightarrow> ContextPlan result" where
  "read_plan decode repositoryKey planID db =
     (case take_row (\<lambda>p. cpr_RepositoryKey p = repositoryKey \<and> cpr_PlanID p = planID) (db_plans db) of
        None \<Rightarrow> Inl CodeEntityNotFound
      | Some p \<Rightarrow> (case decode (cpr_Payload p) of None \<Rightarrow> Inl CodeLocalStorage | Some plan \<Rightarrow> Inr plan))"

subsection \<open>Candidates\<close>

definition candidateArtifactPayload :: "(string \<Rightarrow> string) \<Rightarrow> StoredCandidateArtifact \<Rightarrow> string result" where
  "candidateArtifactPayload b3 a =
     and_then (NormalizeCandidateContextDelta b3 (sca_Delta a)) (\<lambda>normalized.
     if CandidateContextDigest b3 normalized \<noteq> Inr (sca_Digest a) \<or> sca_Change a \<noteq> delta_Change normalized
        \<or> time_IsZero (sca_CreatedAt a)
     then Inl CodeValidation
     else case json_marshal (delta_json normalized) of None \<Rightarrow> Inl CodeValidation | Some payload \<Rightarrow> Inr payload)"

definition saveCandidateTx :: "StoredCandidateArtifact \<Rightarrow> string \<Rightarrow> bool tx" where
  "saveCandidateTx a payload =
     tx_bind (tx_read (\<lambda>db. take_row (\<lambda>r. car_Digest r = sca_Digest a) (db_candidates db))) (\<lambda>row.
     case row of
       Some existing \<Rightarrow>
         if car_Provider existing \<noteq> ck_Provider (sca_Change a) \<or> car_ForgeRepository existing \<noteq> ck_Repository (sca_Change a)
            \<or> car_ChangeNumber existing \<noteq> ck_Number (sca_Change a) \<or> car_Payload existing \<noteq> payload
         then tx_fail CodeValidation else tx_return False
     | None \<Rightarrow>
         tx_bind (tx_insert db_candidates_update db_candidates (\<lambda>r. car_Digest r = sca_Digest a)
            \<lparr>car_Digest = sca_Digest a, car_Provider = ck_Provider (sca_Change a),
              car_ForgeRepository = ck_Repository (sca_Change a), car_ChangeNumber = ck_Number (sca_Change a),
              car_Payload = payload, car_CreatedAt = time_UTC (sca_CreatedAt a)\<rparr>) (\<lambda>_.
         tx_return True))"

definition SaveCandidate :: "(string \<Rightarrow> string) \<Rightarrow> StoredCandidateArtifact \<Rightarrow> database \<Rightarrow> database \<times> bool result" where
  "SaveCandidate b3 a db = (case candidateArtifactPayload b3 a of
       Inl e \<Rightarrow> (db, Inl e) | Inr payload \<Rightarrow> transaction (saveCandidateTx a payload) db)"

definition read_candidate :: "(string \<Rightarrow> CandidateContextDelta option) \<Rightarrow> string \<Rightarrow> database \<Rightarrow> StoredCandidateArtifact result" where
  "read_candidate decode digest db =
     (case take_row (\<lambda>r. car_Digest r = digest) (db_candidates db) of
        None \<Rightarrow> Inl CodeEntityNotFound
      | Some r \<Rightarrow> (case decode (car_Payload r) of
          None \<Rightarrow> Inl CodeLocalStorage
        | Some delta \<Rightarrow> Inr \<lparr>sca_Digest = car_Digest r,
            sca_Change = \<lparr>ck_Provider = car_Provider r, ck_Repository = car_ForgeRepository r, ck_Number = car_ChangeNumber r\<rparr>,
            sca_Delta = delta, sca_CreatedAt = car_CreatedAt r\<rparr>))"

subsection \<open>Landing intents\<close>

definition validateLandingIntent :: "LandingIntent \<Rightarrow> unit result" where
  "validateLandingIntent i =
     (if int_ID i = [] \<or> int_RepositoryID i = [] \<or> int_TargetRef i = [] \<or> ck_Provider (int_Change i) = []
         \<or> ck_Repository (int_Change i) = [] \<or> ck_Number (int_Change i) < 1 \<or> int_SourceMergeSHA i = []
         \<or> int_State i \<noteq> LandingPending \<or> int_AttemptCount i \<noteq> 0
      then Inl CodeValidation else Inr ())"

definition sameLandingIdentity :: "LandingIntent \<Rightarrow> LandingIntent \<Rightarrow> bool" where
  "sameLandingIdentity l r \<longleftrightarrow> int_ID l = int_ID r \<and> int_RepositoryID l = int_RepositoryID r
     \<and> int_TargetRef l = int_TargetRef r \<and> int_Change l = int_Change r
     \<and> int_CandidateDigest l = int_CandidateDigest r \<and> int_SourceMergeSHA l = int_SourceMergeSHA r"

definition createLandingIntentTx :: "LandingIntent \<Rightarrow> bool tx" where
  "createLandingIntentTx i =
     tx_bind (tx_read (\<lambda>db. take_row (\<lambda>r. lir_ID r = int_ID i) (db_landings db))) (\<lambda>row.
     case row of
       Some existing \<Rightarrow>
         if \<not> sameLandingIdentity (landingIntentFrom existing) i then tx_fail CodeValidation else tx_return False
     | None \<Rightarrow>
         tx_bind (tx_insert db_landings_update db_landings (\<lambda>r. lir_ID r = int_ID i) (landingIntentRecordFrom i)) (\<lambda>_.
         tx_return True))"

definition CreateLandingIntent :: "LandingIntent \<Rightarrow> database \<Rightarrow> database \<times> bool result" where
  "CreateLandingIntent i db = (case validateLandingIntent i of
       Inl e \<Rightarrow> (db, Inl e) | Inr _ \<Rightarrow> transaction (createLandingIntentTx i) db)"

definition Landing :: "string \<Rightarrow> database \<Rightarrow> LandingIntent result" where
  "Landing i db = (case take_row (\<lambda>r. lir_ID r = i) (db_landings db) of
       None \<Rightarrow> Inl CodeEntityNotFound | Some r \<Rightarrow> Inr (landingIntentFrom r))"

definition Landings :: "string \<Rightarrow> string \<Rightarrow> database \<Rightarrow> LandingIntent list" where
  "Landings repositoryID targetRef db =
     map landingIntentFrom (order_rows lir_ID (\<lambda>r. lir_RepositoryID r = repositoryID \<and> lir_TargetRef r = targetRef) (db_landings db))"

definition in_state :: "string \<Rightarrow> LandingState \<Rightarrow> landingIntentRecord \<Rightarrow> bool" where
  "in_state i state r \<longleftrightarrow> lir_ID r = i \<and> lir_State r = state"

definition tx_update_landing :: "(landingIntentRecord \<Rightarrow> bool) \<Rightarrow> (landingIntentRecord \<Rightarrow> landingIntentRecord) \<Rightarrow> unit tx" where
  "tx_update_landing P f =
     tx_bind (tx_update db_landings_update db_landings P f) (\<lambda>n. tx_check (n = 1) CodeConcurrentUpdate)"

definition SetLandingPlan :: "string \<Rightarrow> string \<Rightarrow> database \<Rightarrow> database \<times> unit result" where
  "SetLandingPlan i planID db =
     (if i = [] \<or> planID = [] then (db, Inl CodeValidation)
      else transaction (tx_update_landing (in_state i LandingRunning) (\<lambda>r. r\<lparr>lir_FinalPlanID := planID\<rparr>)) db)"

text \<open>The statement commits before the row is read again.\<close>

definition then_landing :: "string \<Rightarrow> database \<times> unit result \<Rightarrow> database \<times> LandingIntent result" where
  "then_landing i run = (case run of (db, Inl e) \<Rightarrow> (db, Inl e) | (db, Inr _) \<Rightarrow> (db, Landing i db))"

definition BlockLanding :: "string \<Rightarrow> LandingState \<Rightarrow> ErrorCode \<Rightarrow> database \<Rightarrow> database \<times> LandingIntent result" where
  "BlockLanding i expected code db =
     (if i = [] \<or> code = CodeNone then (db, Inl CodeValidation)
      else then_landing i (transaction (tx_update_landing (in_state i expected)
        (\<lambda>r. r\<lparr>lir_State := LandingBlocked, lir_LastErrorCode := code, lir_NextAttemptAt := zero_time\<rparr>)) db))"

definition validLandingTransition :: "LandingState \<Rightarrow> LandingState \<Rightarrow> bool" where
  "validLandingTransition from_state to_state =
     (if from_state = LandingPending then to_state \<in> {LandingRunning, LandingLanded, LandingBlocked}
      else if from_state = LandingRunning then to_state \<in> {LandingLanded, LandingRetryable, LandingBlocked}
      else if from_state = LandingRetryable then to_state \<in> {LandingRunning, LandingBlocked}
      else if from_state = LandingBlocked then to_state = LandingRecovering
      else if from_state = LandingRecovering then to_state \<in> {LandingBlocked, LandingLanded}
      else False)"

definition TransitionLanding :: "string \<Rightarrow> LandingState \<Rightarrow> LandingState \<Rightarrow> database \<Rightarrow> database \<times> LandingIntent result" where
  "TransitionLanding i expected next_state db =
     (if \<not> validLandingTransition expected next_state then (db, Inl CodeValidation)
      else then_landing i (transaction (tx_update_landing (in_state i expected) (\<lambda>r. r\<lparr>lir_State := next_state\<rparr>)) db))"

text \<open>One more failed attempt: blocked when no attempt is left, otherwise retried after a back-off.\<close>

definition failed_attempt :: "ErrorCode \<Rightarrow> go_time \<Rightarrow> int \<Rightarrow> landingIntentRecord \<Rightarrow> landingIntentRecord" where
  "failed_attempt code now maxAttempts r =
     (let attempts = lir_AttemptCount r + 1; r = r\<lparr>lir_AttemptCount := attempts, lir_LastErrorCode := code\<rparr>
      in if maxAttempts \<le> attempts then r\<lparr>lir_State := LandingBlocked, lir_NextAttemptAt := zero_time\<rparr>
         else r\<lparr>lir_State := LandingRetryable, lir_NextAttemptAt := time_Add now (backoff attempts)\<rparr>)"

definition store_failed_attempt :: "landingIntentRecord \<Rightarrow> LandingState \<Rightarrow> unit tx" where
  "store_failed_attempt r expected =
     tx_update_landing (\<lambda>x. in_state (lir_ID r) expected x \<and> lir_AttemptCount x = lir_AttemptCount r - 1)
       (\<lambda>x. x\<lparr>lir_State := lir_State r, lir_AttemptCount := lir_AttemptCount r,
          lir_NextAttemptAt := lir_NextAttemptAt r, lir_LastErrorCode := lir_LastErrorCode r\<rparr>)"

definition RecordLandingFailure ::
    "string \<Rightarrow> LandingState \<Rightarrow> ErrorCode \<Rightarrow> go_time \<Rightarrow> int \<Rightarrow> database \<Rightarrow> database \<times> LandingIntent result" where
  "RecordLandingFailure i expected code now maxAttempts db =
     (if expected \<noteq> LandingRunning \<or> code = CodeNone \<or> time_IsZero now \<or> maxAttempts < 1 then (db, Inl CodeValidation)
      else transaction
        (tx_bind (tx_read (\<lambda>db. take_row (\<lambda>r. lir_ID r = i) (db_landings db))) (\<lambda>row.
         tx_bind (tx_found row CodeLocalStorage) (\<lambda>r.
         if lir_State r \<noteq> expected then tx_fail CodeConcurrentUpdate
         else
           let updated = failed_attempt code now maxAttempts r
           in tx_bind (store_failed_attempt updated expected) (\<lambda>_. tx_return (landingIntentFrom updated))))) db)"

end
