(* ===== verification/Coordinator_Schedules.thy ===== *)
theory Coordinator_Schedules
  imports Coordinator_Landings
begin

text \<open>
  The transactions of coordinator_outbox.go that change several tables at once: a candidate, a
  preview or a landing is scheduled with its generation, job and check; a preview result and the
  end of a landing attempt complete or fail the job in the same transaction.
\<close>

subsection \<open>Scheduling\<close>

record CandidateSchedule =
  cs_Artifact :: StoredCandidateArtifact
  cs_Generation :: PRGeneration
  cs_PreviewJob :: CoordinatorJob
  cs_DesiredCheck :: DesiredCheck

record CandidateScheduleResult =
  csr_ArtifactCreated :: bool
  csr_GenerationChanged :: bool
  csr_DesiredCheck :: "DesiredCheck option" \<comment> \<open>\<open>None\<close> for the zero check\<close>

record PreviewSchedule =
  ps_Generation :: PRGeneration
  ps_PreviewJob :: CoordinatorJob
  ps_DesiredCheck :: DesiredCheck

record LandingSchedule =
  ls_Generation :: PRGeneration
  ls_Intent :: LandingIntent
  ls_FinalJob :: CoordinatorJob
  ls_DesiredCheck :: DesiredCheck

record PlanningScheduleResult =
  psr_GenerationChanged :: bool
  psr_LandingCreated :: bool
  psr_DesiredCheck :: "DesiredCheck option"

text \<open>The job and the check of a schedule, stored when the generation (or the landing) is new.\<close>

definition schedule_work :: "(string \<Rightarrow> string) \<Rightarrow> CoordinatorJob \<Rightarrow> DesiredCheck \<Rightarrow> DesiredCheck tx" where
  "schedule_work b3 job desired =
     tx_bind (enqueueJobTx job) (\<lambda>_.
     tx_bind (upsertDesiredCheckTx desired) (\<lambda>(stored, desiredChanged).
     if \<not> desiredChanged then tx_return stored
     else tx_bind (persistExistingDesiredCheckTx b3 stored (chk_UpdatedAt desired)) (\<lambda>_. tx_return stored)))"

definition ScheduleCandidate :: "(string \<Rightarrow> string) \<Rightarrow> CandidateSchedule \<Rightarrow> database \<Rightarrow> database \<times> CandidateScheduleResult result" where
  "ScheduleCandidate b3 input db = (case candidateArtifactPayload b3 (cs_Artifact input) of
       Inl e \<Rightarrow> (db, Inl e)
     | Inr payload \<Rightarrow> (case validatePRGeneration (cs_Generation input) of
         Inl e \<Rightarrow> (db, Inl e)
       | Inr _ \<Rightarrow>
         if validateCoordinatorJob (cs_PreviewJob input) \<noteq> Inr () \<or> job_Kind (cs_PreviewJob input) \<noteq> previewJobKind
         then (db, Inl CodeValidation)
         else case validateDesiredCheck (cs_DesiredCheck input) of
           Inl e \<Rightarrow> (db, Inl e)
         | Inr _ \<Rightarrow> transaction
             (tx_bind (saveCandidateTx (cs_Artifact input) payload) (\<lambda>created.
              tx_bind (upsertGenerationTx (cs_Generation input)) (\<lambda>changed.
              if \<not> changed then tx_return \<lparr>csr_ArtifactCreated = created, csr_GenerationChanged = changed, csr_DesiredCheck = None\<rparr>
              else tx_bind (schedule_work b3 (cs_PreviewJob input) (cs_DesiredCheck input)) (\<lambda>desired.
                tx_return \<lparr>csr_ArtifactCreated = created, csr_GenerationChanged = changed, csr_DesiredCheck = Some desired\<rparr>)))) db))"

definition SchedulePreview :: "(string \<Rightarrow> string) \<Rightarrow> PreviewSchedule \<Rightarrow> database \<Rightarrow> database \<times> PlanningScheduleResult result" where
  "SchedulePreview b3 input db = (case validatePRGeneration (ps_Generation input) of
       Inl e \<Rightarrow> (db, Inl e)
     | Inr _ \<Rightarrow>
       if validateCoordinatorJob (ps_PreviewJob input) \<noteq> Inr () \<or> job_Kind (ps_PreviewJob input) \<noteq> previewJobKind
       then (db, Inl CodeValidation)
       else case validateDesiredCheck (ps_DesiredCheck input) of
         Inl e \<Rightarrow> (db, Inl e)
       | Inr _ \<Rightarrow> transaction
           (tx_bind (upsertGenerationTx (ps_Generation input)) (\<lambda>changed.
            if \<not> changed then tx_return \<lparr>psr_GenerationChanged = changed, psr_LandingCreated = False, psr_DesiredCheck = None\<rparr>
            else tx_bind (schedule_work b3 (ps_PreviewJob input) (ps_DesiredCheck input)) (\<lambda>desired.
              tx_return \<lparr>psr_GenerationChanged = changed, psr_LandingCreated = False, psr_DesiredCheck = Some desired\<rparr>))) db)"

definition ScheduleLanding :: "(string \<Rightarrow> string) \<Rightarrow> LandingSchedule \<Rightarrow> database \<Rightarrow> database \<times> PlanningScheduleResult result" where
  "ScheduleLanding b3 input db = (case validatePRGeneration (ls_Generation input) of
       Inl e \<Rightarrow> (db, Inl e)
     | Inr _ \<Rightarrow> (case validateLandingIntent (ls_Intent input) of
         Inl e \<Rightarrow> (db, Inl e)
       | Inr _ \<Rightarrow>
         if validateCoordinatorJob (ls_FinalJob input) \<noteq> Inr () \<or> job_Kind (ls_FinalJob input) \<noteq> finalJobKind
         then (db, Inl CodeValidation)
         else case validateDesiredCheck (ls_DesiredCheck input) of
           Inl e \<Rightarrow> (db, Inl e)
         | Inr _ \<Rightarrow> transaction
             (tx_bind (upsertGenerationTx (ls_Generation input)) (\<lambda>generationChanged.
              tx_bind (createLandingIntentTx (ls_Intent input)) (\<lambda>landingCreated.
              if \<not> landingCreated
              then tx_return \<lparr>psr_GenerationChanged = generationChanged, psr_LandingCreated = landingCreated, psr_DesiredCheck = None\<rparr>
              else tx_bind (schedule_work b3 (ls_FinalJob input) (ls_DesiredCheck input)) (\<lambda>desired.
                tx_return \<lparr>psr_GenerationChanged = generationChanged, psr_LandingCreated = landingCreated,
                  psr_DesiredCheck = Some desired\<rparr>)))) db))"

subsection \<open>Results\<close>

definition PublishPreviewResult :: "(string \<Rightarrow> string) \<Rightarrow> PRGeneration \<Rightarrow> ContextPlan \<Rightarrow> DesiredCheck \<Rightarrow> CoordinatorJob \<Rightarrow> string
    \<Rightarrow> database \<Rightarrow> database \<times> unit result" where
  "PublishPreviewResult b3 g plan desired job resultPayload db = (case validatePRGeneration g of
       Inl e \<Rightarrow> (db, Inl e)
     | Inr _ \<Rightarrow> (case validateDesiredCheck desired of
         Inl e \<Rightarrow> (db, Inl e)
       | Inr _ \<Rightarrow> (case json_marshal (plan_json plan) of
           None \<Rightarrow> (db, Inl CodeValidation)
         | Some planPayload \<Rightarrow> transaction
             (tx_bind (saveCurrentPlanTx g plan planPayload) (\<lambda>_.
              tx_bind (persistDesiredCheckTx b3 desired) (\<lambda>_.
              completeClaimTx (job_Claim job) resultPayload))) db)))"

record BlockedLandingCommit =
  blc_Claim :: JobClaim
  blc_LandingID :: string
  blc_ExpectedState :: LandingState
  blc_ErrorCode :: ErrorCode
  blc_DesiredCheck :: DesiredCheck
  blc_ResultPayload :: string

definition CommitBlockedLanding :: "(string \<Rightarrow> string) \<Rightarrow> BlockedLandingCommit \<Rightarrow> database \<Rightarrow> database \<times> unit result" where
  "CommitBlockedLanding b3 input db =
     (if validateJobClaim (blc_Claim input) \<noteq> Inr () \<or> blc_LandingID input = []
         \<or> blc_ExpectedState input \<noteq> LandingRunning \<or> blc_ErrorCode input = CodeNone
      then (db, Inl CodeValidation)
      else case validateDesiredCheck (blc_DesiredCheck input) of
        Inl e \<Rightarrow> (db, Inl e)
      | Inr _ \<Rightarrow> transaction
          (tx_bind (tx_update_landing (in_state (blc_LandingID input) (blc_ExpectedState input))
             (\<lambda>r. r\<lparr>lir_State := LandingBlocked, lir_LastErrorCode := blc_ErrorCode input, lir_NextAttemptAt := zero_time\<rparr>)) (\<lambda>_.
           tx_bind (persistDesiredCheckTx b3 (blc_DesiredCheck input)) (\<lambda>_.
           completeClaimTx (blc_Claim input) (blc_ResultPayload input)))) db)"

record LandingFailureCommit =
  lfc_Claim :: JobClaim
  lfc_LandingID :: string
  lfc_ErrorCode :: ErrorCode
  lfc_Now :: go_time
  lfc_MaxAttempts :: int
  lfc_BlockedCheck :: DesiredCheck
  lfc_ResultPayload :: string

definition CommitLandingFailure :: "(string \<Rightarrow> string) \<Rightarrow> LandingFailureCommit \<Rightarrow> database \<Rightarrow> database \<times> LandingIntent result" where
  "CommitLandingFailure b3 input db =
     (if validateJobClaim (lfc_Claim input) \<noteq> Inr () \<or> lfc_LandingID input = [] \<or> lfc_ErrorCode input = CodeNone
         \<or> time_IsZero (lfc_Now input) \<or> lfc_MaxAttempts input < 1
      then (db, Inl CodeValidation)
      else case validateDesiredCheck (lfc_BlockedCheck input) of
        Inl e \<Rightarrow> (db, Inl e)
      | Inr _ \<Rightarrow> transaction
          (tx_bind (tx_read (\<lambda>db. take_row (in_state (lfc_LandingID input) LandingRunning) (db_landings db))) (\<lambda>row.
           tx_bind (tx_found row CodeConcurrentUpdate) (\<lambda>r.
           let updated = failed_attempt (lfc_ErrorCode input) (time_UTC (lfc_Now input)) (lfc_MaxAttempts input) r
           in tx_bind (store_failed_attempt updated LandingRunning) (\<lambda>_.
              tx_bind (if lir_State updated = LandingBlocked
                then tx_bind (persistDesiredCheckTx b3 (lfc_BlockedCheck input)) (\<lambda>_.
                  completeClaimTx (lfc_Claim input) (lfc_ResultPayload input))
                else failClaimTx (lfc_Claim input)) (\<lambda>_.
              tx_return (landingIntentFrom updated)))))) db)"

end
