(* ===== verification/Object_Facts.thy ===== *)
theory Object_Facts
  imports Object_Validation
begin

text \<open>
  What the validators of store/objects.go accept: the declarative well-formedness of a context
  object and of an ancestry, and the lemmas that the loops of the validators decide exactly these.
\<close>

subsection \<open>The checks of one object, declaratively\<close>

definition entities_wf :: "ContextObject \<Rightarrow> bool" where
  "entities_wf obj \<longleftrightarrow> list_all (object_entity_ok obj) (elems (obj_Entities obj))
     \<and> distinct (map ent_Key (elems (obj_Entities obj)))"

definition note_wf :: "ContextObject \<Rightarrow> Note \<Rightarrow> bool" where
  "note_wf obj n \<longleftrightarrow>
     NormalizeNoteTopics (elems (note_Topics n)) = Inr (elems (note_Topics n)) \<and> committed_note_ok n
     \<and> (2 \<le> obj_SchemaVersion obj \<longrightarrow> revision_binding_ok obj n)"

definition notes_wf :: "ContextObject \<Rightarrow> bool" where
  "notes_wf obj \<longleftrightarrow> list_all (note_wf obj) (elems (obj_Notes obj))
     \<and> distinct (map note_ID (elems (obj_Notes obj)))"

definition parents_wf :: "ContextObject \<Rightarrow> bool" where
  "parents_wf obj \<longleftrightarrow> \<not> parent_shape_bad obj \<and> (obj_LegacyParentID obj = [] \<or> canonical_id (obj_LegacyParentID obj))
     \<and> list_all canonical_id (obj_ParentIDs obj) \<and> distinct (obj_ParentIDs obj)"

definition provenance_wf :: "ContextObject \<Rightarrow> bool" where
  "provenance_wf obj \<longleftrightarrow> obj_Provenance obj \<noteq> []
     \<and> list_all (\<lambda>p. prov_Language p \<noteq> [] \<and> prov_IndexerID p \<noteq> [] \<and> prov_IndexerVersion p \<noteq> []
          \<and> prov_SourceSHA p = obj_SourceSHA obj) (obj_Provenance obj)
     \<and> sorted_wrt (<) (map prov_Language (obj_Provenance obj))
     \<and> ent_Language ` set (elems (obj_Entities obj)) \<subseteq> prov_Language ` set (obj_Provenance obj)"

definition mappings_wf :: "ContextObject \<Rightarrow> bool" where
  "mappings_wf obj \<longleftrightarrow> length (obj_RevisionMappings obj) = length (elems (obj_Notes obj))
     \<and> list_all (manifest_mapping_ok (obj_SourceSHA obj)) (obj_RevisionMappings obj)
     \<and> sorted_wrt (<) (map mapping_key (obj_RevisionMappings obj))
     \<and> distinct (map map_NoteID (obj_RevisionMappings obj))
     \<and> distinct (map map_RevisionID (obj_RevisionMappings obj))
     \<and> list_all (\<lambda>m. list_ex (\<lambda>n. note_ID n = map_NoteID m \<and> mapping_matches_note m n)
          (elems (obj_Notes obj))) (obj_RevisionMappings obj)"

definition receipt_wf :: "ContextObject \<Rightarrow> LandingReceipt \<Rightarrow> bool" where
  "receipt_wf obj r \<longleftrightarrow> receipt_ok obj r \<and> receipt_digests_ok r
     \<and> list_all promotion_ok (rcpt_CandidateMappings r)
     \<and> sorted_wrt (<) (map promotion_key (rcpt_CandidateMappings r))"

definition receipts_wf :: "ContextObject \<Rightarrow> bool" where
  "receipts_wf obj \<longleftrightarrow>
     (if obj_SchemaVersion obj = 4
      then list_all (receipt_wf obj) (obj_LandingReceipts obj)
        \<and> sorted_wrt (<) (map rcpt_ID (obj_LandingReceipts obj))
      else obj_LandingReceipts obj = [])"

definition object_wf :: "ContextObject \<Rightarrow> string \<Rightarrow> string \<Rightarrow> bool" where
  "object_wf obj repositoryID refName \<longleftrightarrow>
     obj_SchemaVersion obj \<in> {1, 2, 3, 4} \<and> obj_RepositoryID obj = repositoryID \<and> obj_RefName obj = refName
     \<and> \<not> object_metadata_bad obj \<and> entities_wf obj \<and> notes_wf obj
     \<and> (IsContextSnapshotSchema (obj_SchemaVersion obj) \<longrightarrow>
          parents_wf obj \<and> provenance_wf obj \<and> mappings_wf obj)
     \<and> receipts_wf obj"

subsection \<open>The loops decide them\<close>

lemma normalizeObjectID_iff: "normalizeObjectID s = Inr s \<longleftrightarrow> canonical_id s"
  by (simp add: normalizeObjectID_def canonical_id_iff)

lemma check_and_then: "and_then (if c then Inr x else Inl e) f = (if c then f x else Inl e)"
  by simp

lemma if_code: "(if P then Inl e else if Q then Inl e else r) = (if P \<or> Q then Inl e else r)"
  by simp

lemma manifest_parents_eq:
  "manifest_parents ps = (if list_all canonical_id ps \<and> distinct ps then Inr (set ps) else Inl CodeValidation)"
  unfolding manifest_parents_def normalizeObjectID_iff
  by (subst range_loop_seen [where P = "\<lambda>p. \<not> canonical_id p" and k = "\<lambda>p. p" and e = CodeValidation]) simp_all

lemma mapping_key_nonempty: "mapping_key m \<noteq> []"
  by (simp add: mapping_key_def)

lemma promotion_key_nonempty: "promotion_key m \<noteq> []"
  by (simp add: promotion_key_def)

lemma receipt_mappings_eq:
  "receipt_mappings ms =
     (if list_all promotion_ok ms \<and> sorted_wrt (<) (map promotion_key ms)
      then Inr (if ms = [] then [] else promotion_key (last ms)) else Inl CodeValidation)"
  unfolding receipt_mappings_def
  by (subst range_loop_ascending [where P = "\<lambda>m. \<not> promotion_ok m" and k = promotion_key and e = CodeValidation])
    (simp_all add: promotion_key_nonempty)

lemma validateLandingReceipts_eq:
  "validateLandingReceipts obj =
     (if list_all (receipt_wf obj) (obj_LandingReceipts obj)
         \<and> sorted_wrt (<) (map rcpt_ID (obj_LandingReceipts obj)) then Inr () else Inl CodeValidation)"
proof -
  let ?step = "\<lambda>previousID r.
        if \<not> receipt_ok obj r then Inl CodeValidation
        else if \<not> receipt_digests_ok r then Inl CodeValidation
        else if previousID \<noteq> [] \<and> rcpt_ID r \<le> previousID then Inl CodeValidation
        else and_then (receipt_mappings (rcpt_CandidateMappings r)) (\<lambda>_. Inr (rcpt_ID r))"
  have step: "?step previousID r = (if \<not> receipt_wf obj r \<or> previousID \<noteq> [] \<and> rcpt_ID r \<le> previousID
      then Inl CodeValidation else Inr (rcpt_ID r))" for previousID r
    by (simp add: receipt_mappings_eq receipt_wf_def)
  have ne: "\<not> \<not> receipt_wf obj r \<Longrightarrow> rcpt_ID r \<noteq> []" for r
    by (simp add: receipt_wf_def receipt_ok_def)
  have "range_loop ?step [] (obj_LandingReceipts obj) =
      (if list_all (\<lambda>r. \<not> \<not> receipt_wf obj r) (obj_LandingReceipts obj)
          \<and> sorted_wrt (<) (map rcpt_ID (obj_LandingReceipts obj)) \<and> ([] \<noteq> ([]::string) \<longrightarrow> (\<forall>r \<in> set (obj_LandingReceipts obj). [] < rcpt_ID r))
       then Inr (if obj_LandingReceipts obj = [] then [] else rcpt_ID (last (obj_LandingReceipts obj)))
       else Inl CodeValidation)"
    by (rule range_loop_ascending [where P = "\<lambda>r. \<not> receipt_wf obj r" and k = rcpt_ID, OF step ne])
  then show ?thesis
    unfolding validateLandingReceipts_def by simp
qed

definition language_ok :: "string \<Rightarrow> ContextSnapshotProvenance \<Rightarrow> bool" where
  "language_ok sha p \<longleftrightarrow> prov_Language p \<noteq> [] \<and> prov_IndexerID p \<noteq> [] \<and> prov_IndexerVersion p \<noteq> []
     \<and> prov_SourceSHA p = sha"

text \<open>The languages seen never contain a later language, so the duplicate check of the loop is redundant.\<close>

lemma manifest_provenance_run:
  assumes "\<forall>l \<in> seen. previous \<noteq> [] \<and> l \<le> previous"
  shows "(\<exists>prev'. range_loop (\<lambda>(languages, previousLanguage) p.
        if prov_Language p = [] \<or> prov_IndexerID p = [] \<or> prov_IndexerVersion p = []
           \<or> prov_SourceSHA p \<noteq> sha \<or> previousLanguage \<noteq> [] \<and> prov_Language p \<le> previousLanguage
        then Inl CodeValidation
        else if prov_Language p \<in> languages then Inl CodeValidation
        else Inr (insert (prov_Language p) languages, prov_Language p)) (seen, previous) ps =
     (if list_all (language_ok sha) ps \<and> sorted_wrt (<) (map prov_Language ps)
         \<and> (previous \<noteq> [] \<longrightarrow> (\<forall>p \<in> set ps. previous < prov_Language p))
      then Inr (seen \<union> prov_Language ` set ps, prev') else Inl CodeValidation))"
  using assms
proof (induction ps arbitrary: seen previous)
  case Nil
  then show ?case by simp
next
  case (Cons p ps)
  let ?f = "\<lambda>(languages, previousLanguage) p.
        if prov_Language p = [] \<or> prov_IndexerID p = [] \<or> prov_IndexerVersion p = []
           \<or> prov_SourceSHA p \<noteq> sha \<or> previousLanguage \<noteq> [] \<and> prov_Language p \<le> previousLanguage
        then Inl CodeValidation
        else if prov_Language p \<in> languages then Inl CodeValidation
        else Inr (insert (prov_Language p) languages, prov_Language p)"
  show ?case
  proof (cases "language_ok sha p \<and> (previous \<noteq> [] \<longrightarrow> previous < prov_Language p)")
    case False
    then have "?f (seen, previous) p = Inl CodeValidation" by (auto simp: language_ok_def)
    then have "range_loop ?f (seen, previous) (p # ps) = Inl CodeValidation" by simp
    then show ?thesis using False by auto
  next
    case True
    then have fresh: "prov_Language p \<notin> seen" using Cons.prems by auto
    have "\<not> (previous \<noteq> [] \<and> prov_Language p \<le> previous)" using True by auto
    with True fresh have "?f (seen, previous) p = Inr (insert (prov_Language p) seen, prov_Language p)"
      by (simp add: language_ok_def)
    then have run: "range_loop ?f (seen, previous) (p # ps)
        = range_loop ?f (insert (prov_Language p) seen, prov_Language p) ps" by simp
    have ne: "prov_Language p \<noteq> []" using True by (simp add: language_ok_def)
    have "\<forall>l \<in> insert (prov_Language p) seen. prov_Language p \<noteq> [] \<and> l \<le> prov_Language p"
      using Cons.prems True ne by force
    from Cons.IH [OF this] obtain prev' where ih:
      "range_loop ?f (insert (prov_Language p) seen, prov_Language p) ps =
        (if list_all (language_ok sha) ps \<and> sorted_wrt (<) (map prov_Language ps)
            \<and> (prov_Language p \<noteq> [] \<longrightarrow> (\<forall>q \<in> set ps. prov_Language p < prov_Language q))
         then Inr (insert (prov_Language p) seen \<union> prov_Language ` set ps, prev') else Inl CodeValidation)"
      by (elim exE)
    have c: "(list_all (language_ok sha) (p # ps) \<and> sorted_wrt (<) (map prov_Language (p # ps))
         \<and> (previous \<noteq> [] \<longrightarrow> (\<forall>q \<in> set (p # ps). previous < prov_Language q)))
       \<longleftrightarrow> (list_all (language_ok sha) ps \<and> sorted_wrt (<) (map prov_Language ps)
            \<and> (prov_Language p \<noteq> [] \<longrightarrow> (\<forall>q \<in> set ps. prov_Language p < prov_Language q)))"
      using True ne by auto
    show ?thesis unfolding run ih c by (rule exI [of _ prev']) auto
  qed
qed

lemma manifest_provenance_eq:
  obtains prev where "manifest_provenance sha ps =
     (if list_all (language_ok sha) ps \<and> sorted_wrt (<) (map prov_Language ps)
      then Inr (prov_Language ` set ps, prev) else Inl CodeValidation)"
proof -
  from manifest_provenance_run [of "{}" "[]" sha ps] obtain prev where
    "manifest_provenance sha ps =
     (if list_all (language_ok sha) ps \<and> sorted_wrt (<) (map prov_Language ps) \<and> True
      then Inr ({} \<union> prov_Language ` set ps, prev) else Inl CodeValidation)"
    unfolding manifest_provenance_def by (auto simp del: range_loop.simps)
  then show thesis by (intro that [of prev]) simp
qed

lemma notes_by_id_lookup:
  assumes "distinct (map note_ID ns)"
  shows "map_of (notes_by_id ns) k = Some n \<longleftrightarrow> n \<in> set ns \<and> note_ID n = k"
proof -
  have "map_of (foldl (\<lambda>notes note. map_put (note_ID note) note notes) m ns) k =
      (case map_of (map (\<lambda>n. (note_ID n, n)) ns) k of None \<Rightarrow> map_of m k | Some n \<Rightarrow> Some n)" for m
    using assms
  proof (induction ns arbitrary: m)
    case Nil
    then show ?case by simp
  next
    case (Cons a ns)
    have "map_of (map (\<lambda>n. (note_ID n, n)) ns) (note_ID a) = None"
      using Cons.prems by (force simp: map_of_eq_None_iff)
    with Cons.IH [of "map_put (note_ID a) a m"] Cons.prems show ?case
      by (auto split: option.splits)
  qed
  from this [of "[]"] show ?thesis
    using map_of_index [OF assms, of k n] by (auto simp: notes_by_id_def split: option.splits)
qed

definition mapped_note :: "Note list \<Rightarrow> ContextRevisionMapping \<Rightarrow> bool" where
  "mapped_note ns m \<longleftrightarrow> list_ex (\<lambda>n. note_ID n = map_NoteID m \<and> mapping_matches_note m n) ns"

lemma mapped_note_lookup:
  assumes "distinct (map note_ID ns)"
  shows "(case map_of (notes_by_id ns) (map_NoteID m) of None \<Rightarrow> Inl e
      | Some note \<Rightarrow> if \<not> mapping_matches_note m note then Inl e else r)
    = (if mapped_note ns m then r else Inl e)"
proof (cases "map_of (notes_by_id ns) (map_NoteID m)")
  case None
  then have "\<not> mapped_note ns m"
    using notes_by_id_lookup [OF assms, of "map_NoteID m"] unfolding mapped_note_def list_ex_iff
    by (metis option.distinct(1))
  with None show ?thesis by simp
next
  case (Some n)
  then have n: "n \<in> set ns \<and> note_ID n = map_NoteID m" using notes_by_id_lookup [OF assms] by blast
  have "mapped_note ns m \<longleftrightarrow> mapping_matches_note m n"
    unfolding mapped_note_def list_ex_iff
    using n notes_by_id_lookup [OF assms, of "map_NoteID m"] Some by (metis option.inject)
  with Some show ?thesis by simp
qed

lemma manifest_mappings_eq:
  assumes "distinct (map note_ID ns)"
  shows "and_then (manifest_mappings sha (notes_by_id ns) ms) (\<lambda>_. Inr ()) =
     (if list_all (manifest_mapping_ok sha) ms \<and> sorted_wrt (<) (map mapping_key ms)
         \<and> distinct (map map_NoteID ms) \<and> distinct (map map_RevisionID ms) \<and> list_all (mapped_note ns) ms
      then Inr () else Inl CodeValidation)"
proof -
  let ?step = "\<lambda>(mappingNotes, mappingRevisions, previousMapping) m.
        let mappingKey = mapping_key m
        in if \<not> manifest_mapping_ok sha m \<or> previousMapping \<noteq> [] \<and> mappingKey \<le> previousMapping
           then Inl CodeValidation
           else (case map_of (notes_by_id ns) (map_NoteID m) of
               None \<Rightarrow> Inl CodeValidation
             | Some note \<Rightarrow>
                 if \<not> mapping_matches_note m note then Inl CodeValidation
                 else if map_NoteID m \<in> mappingNotes then Inl CodeValidation
                 else if map_RevisionID m \<in> mappingRevisions then Inl CodeValidation
                 else Inr (insert (map_NoteID m) mappingNotes, insert (map_RevisionID m) mappingRevisions,
                   mappingKey))"
  let ?good = "\<lambda>m. manifest_mapping_ok sha m \<and> mapped_note ns m"
  have step: "?step (N, R, prev) m =
     (if ?good m \<and> (prev \<noteq> [] \<longrightarrow> prev < mapping_key m) \<and> map_NoteID m \<notin> N \<and> map_RevisionID m \<notin> R
      then Inr (insert (map_NoteID m) N, insert (map_RevisionID m) R, mapping_key m) else Inl CodeValidation)"
    for N R prev m
    unfolding prod.case Let_def mapped_note_lookup [OF assms] by auto
  have "and_then (range_loop ?step (N, R, prev) ms) (\<lambda>_. Inr ()) =
     (if list_all ?good ms \<and> sorted_wrt (<) (map mapping_key ms) \<and> (prev \<noteq> [] \<longrightarrow> (\<forall>m \<in> set ms. prev < mapping_key m))
         \<and> distinct (map map_NoteID ms) \<and> distinct (map map_RevisionID ms)
         \<and> map_NoteID ` set ms \<inter> N = {} \<and> map_RevisionID ` set ms \<inter> R = {}
      then Inr () else Inl CodeValidation)" for N R prev
  proof (induction ms arbitrary: N R prev)
    case Nil
    show ?case by simp
  next
    case (Cons m ms)
    show ?case
    proof (cases "?good m \<and> (prev \<noteq> [] \<longrightarrow> prev < mapping_key m) \<and> map_NoteID m \<notin> N \<and> map_RevisionID m \<notin> R")
      case False
      then have "?step (N, R, prev) m = Inl CodeValidation" unfolding step by (simp only: if_False)
      then have "range_loop ?step (N, R, prev) (m # ms) = Inl CodeValidation" by simp
      then show ?thesis using False by auto
    next
      case True
      then have "?step (N, R, prev) m = Inr (insert (map_NoteID m) N, insert (map_RevisionID m) R, mapping_key m)"
        unfolding step by (rule if_P)
      then have run: "range_loop ?step (N, R, prev) (m # ms)
          = range_loop ?step (insert (map_NoteID m) N, insert (map_RevisionID m) R, mapping_key m) ms" by simp
      show ?thesis
        unfolding run Cons.IH using True mapping_key_nonempty [of m] by (auto intro: order.strict_trans)
    qed
  qed
  from this [of "{}" "{}" "[]"] show ?thesis
    unfolding manifest_mappings_def by (auto simp: list_all_iff simp del: range_loop.simps)
qed

lemma language_loop_eq:
  "range_loop (\<lambda>u e. if ent_Language e \<notin> L then Inl CodeValidation else Inr u) () es
      = (if ent_Language ` set es \<subseteq> L then Inr () else Inl CodeValidation)"
  by (induction es) auto

lemma validateContextSnapshotManifest_eq:
  assumes "distinct (map note_ID (elems (obj_Notes obj)))"
  shows "validateContextSnapshotManifest obj =
     (if parents_wf obj \<and> provenance_wf obj \<and> mappings_wf obj then Inr () else Inl CodeValidation)"
proof -
  let ?ps = "obj_Provenance obj" and ?es = "elems (obj_Entities obj)" and ?ms = "obj_RevisionMappings obj"
  obtain prev where prov: "manifest_provenance (obj_SourceSHA obj) ?ps =
     (if list_all (language_ok (obj_SourceSHA obj)) ?ps \<and> sorted_wrt (<) (map prov_Language ?ps)
      then Inr (prov_Language ` set ?ps, prev) else Inl CodeValidation)"
    by (rule manifest_provenance_eq)
  have ents: "range_loop (\<lambda>u e. if ent_Language e \<notin> L then Inl CodeValidation else Inr u) () ?es
      = (if ent_Language ` set ?es \<subseteq> L then Inr () else Inl CodeValidation)" for L
    by (rule language_loop_eq)
  have pw: "provenance_wf obj \<longleftrightarrow> ?ps \<noteq> []
      \<and> (list_all (language_ok (obj_SourceSHA obj)) ?ps \<and> sorted_wrt (<) (map prov_Language ?ps))
      \<and> ent_Language ` set ?es \<subseteq> prov_Language ` set ?ps"
    by (auto simp: provenance_wf_def language_ok_def list_all_iff)
  have mw: "mappings_wf obj \<longleftrightarrow> length ?ms = length (elems (obj_Notes obj))
      \<and> list_all (manifest_mapping_ok (obj_SourceSHA obj)) ?ms \<and> sorted_wrt (<) (map mapping_key ?ms)
      \<and> distinct (map map_NoteID ?ms) \<and> distinct (map map_RevisionID ?ms)
      \<and> list_all (mapped_note (elems (obj_Notes obj))) ?ms"
    by (auto simp: mappings_wf_def mapped_note_def list_all_iff)
  show ?thesis
    unfolding validateContextSnapshotManifest_def manifest_parents_eq prov normalizeObjectID_iff ents
      manifest_mappings_eq [OF assms] pw mw parents_wf_def
    by (simp add: manifest_mappings_eq [OF assms])
qed

lemma entity_loop_eq:
  "range_loop (\<lambda>seen e. if \<not> object_entity_ok obj e then Inl CodeValidation
        else if ent_Key e \<in> seen then Inl CodeValidation
        else Inr (insert (ent_Key e) seen)) {} (elems (obj_Entities obj)) =
     (if entities_wf obj then Inr (ent_Key ` set (elems (obj_Entities obj))) else Inl CodeValidation)"
  by (subst range_loop_seen [where P = "\<lambda>e. \<not> object_entity_ok obj e" and k = ent_Key and e = CodeValidation])
    (simp_all add: entities_wf_def)

lemma note_loop_eq:
  "range_loop (\<lambda>noteIDs n.
          if NormalizeNoteTopics (elems (note_Topics n)) \<noteq> Inr (elems (note_Topics n)) then Inl CodeValidation
          else if \<not> committed_note_ok n then Inl CodeValidation
          else if 2 \<le> obj_SchemaVersion obj \<and> \<not> revision_binding_ok obj n then Inl CodeValidation
          else if note_ID n \<in> noteIDs then Inl CodeValidation
          else Inr (insert (note_ID n) noteIDs)) {} (elems (obj_Notes obj)) =
     (if notes_wf obj then Inr (note_ID ` set (elems (obj_Notes obj))) else Inl CodeValidation)"
  by (subst range_loop_seen [where P = "\<lambda>n. \<not> note_wf obj n" and k = note_ID and e = CodeValidation])
    (auto simp: notes_wf_def note_wf_def list_all_iff)

text \<open>The validator decides the declarative well-formedness, and only fails with a validation error.\<close>

lemma validateContextObject_eq:
  "validateContextObject obj repositoryID refName =
     (if object_wf obj repositoryID refName then Inr () else Inl CodeValidation)"
proof (cases "obj_SchemaVersion obj \<in> {1, 2, 3, 4} \<and> obj_RepositoryID obj = repositoryID
    \<and> obj_RefName obj = refName \<and> \<not> object_metadata_bad obj \<and> entities_wf obj \<and> notes_wf obj")
  case False
  then have "\<not> object_wf obj repositoryID refName" by (auto simp: object_wf_def)
  with False show ?thesis
    unfolding validateContextObject_def entity_loop_eq note_loop_eq
    by (auto simp: IsContextSnapshotSchema_def)
next
  case True
  then have d: "distinct (map note_ID (elems (obj_Notes obj)))" by (simp add: notes_wf_def)
  have "validateContextObject obj repositoryID refName =
     and_then (if IsContextSnapshotSchema (obj_SchemaVersion obj) then validateContextSnapshotManifest obj
          else Inr ()) (\<lambda>_.
      if obj_SchemaVersion obj < 4 \<and> length (obj_LandingReceipts obj) \<noteq> 0 then Inl CodeValidation
      else if obj_SchemaVersion obj = 4 then validateLandingReceipts obj
      else Inr ())"
    unfolding validateContextObject_def entity_loop_eq note_loop_eq
    using True by (auto simp: IsContextSnapshotSchema_def)
  moreover have "object_wf obj repositoryID refName \<longleftrightarrow>
      (IsContextSnapshotSchema (obj_SchemaVersion obj) \<longrightarrow> parents_wf obj \<and> provenance_wf obj \<and> mappings_wf obj)
      \<and> receipts_wf obj"
    using True by (simp add: object_wf_def)
  moreover have "obj_SchemaVersion obj < 4 \<longleftrightarrow> obj_SchemaVersion obj \<noteq> 4" using True by auto
  ultimately show ?thesis
    unfolding validateContextSnapshotManifest_eq [OF d] validateLandingReceipts_eq receipts_wf_def
    by (simp add: IsContextSnapshotSchema_def)
qed

subsection \<open>A validated snapshot has consistent records\<close>

lemma subset_same_length:
  assumes "distinct xs" "distinct ys" "length xs = length ys" "set xs \<subseteq> set ys"
  shows "set xs = set ys"
  using assms by (simp add: card_subset_eq distinct_card)

lemma object_wf_snapshot:
  assumes "object_wf obj repositoryID refName" "IsContextSnapshotSchema (obj_SchemaVersion obj)"
  shows "snapshot_wf obj"
proof -
  let ?ns = "elems (obj_Notes obj)" and ?ms = "obj_RevisionMappings obj"
  from assms have n: "distinct (map note_ID ?ns)" and m: "mappings_wf obj"
    by (simp_all add: object_wf_def notes_wf_def)
  then have len: "length ?ms = length ?ns" and dm: "distinct (map map_NoteID ?ms)"
    and match: "\<forall>x \<in> set ?ms. \<exists>k \<in> set ?ns. note_ID k = map_NoteID x \<and> mapping_matches_note x k"
    and ids: "\<forall>x \<in> set ?ms. map_NoteID x \<noteq> [] \<and> map_RevisionID x \<noteq> []"
    by (auto simp: mappings_wf_def list_all_iff list_ex_iff manifest_mapping_ok_def)
  have "set (map map_NoteID ?ms) \<subseteq> set (map note_ID ?ns)" using match by force
  then have all: "set (map map_NoteID ?ms) = set (map note_ID ?ns)"
    by (intro subset_same_length [OF dm n]) (simp_all add: len)
  have "\<exists>x \<in> set ?ms. map_NoteID x = note_ID k \<and> mapping_matches_note x k" if k: "k \<in> set ?ns" for k
  proof -
    from k all obtain x where x: "x \<in> set ?ms" "map_NoteID x = note_ID k"
      by (metis (no_types, lifting) image_iff list.set_map)
    with match obtain k' where k': "k' \<in> set ?ns" "note_ID k' = map_NoteID x" "mapping_matches_note x k'" by blast
    with x(2) k n have "k' = k" by (simp add: distinct_map inj_on_def)
    with x k' show ?thesis by blast
  qed
  with len dm n ids show ?thesis by (simp add: snapshot_wf_def list_all_iff list_ex_iff)
qed

subsection \<open>Links between the objects of an ancestry\<close>

definition chain_notes :: "storedContextObject list \<Rightarrow> Note list" where
  "chain_notes chain = concat (map (\<lambda>item. elems (obj_Notes (sco_Object item))) chain)"

text \<open>
  A note may supersede only a revision of the same note that occurs earlier, and two occurrences of
  a revision have the same immutable content.
\<close>

definition link_ok :: "Note list \<Rightarrow> Note \<Rightarrow> bool" where
  "link_ok earlier n \<longleftrightarrow>
     (note_SupersedesRevisionID n \<noteq> [] \<longrightarrow>
        (\<exists>p \<in> set earlier. note_RevisionID p = note_SupersedesRevisionID n \<and> note_ID p = note_ID n))
     \<and> (\<forall>p \<in> set earlier. note_RevisionID p = note_RevisionID n \<longrightarrow>
          immutableRevisionContent p = immutableRevisionContent n)"

fun links_ok :: "Note list \<Rightarrow> Note list \<Rightarrow> bool" where
  "links_ok earlier [] = True"
| "links_ok earlier (n # ns) = (link_ok earlier n \<and> links_ok (earlier @ [n]) ns)"

definition links_state :: "Note list \<Rightarrow> string gomap \<times> Note gomap \<Rightarrow> bool" where
  "links_state earlier st \<longleftrightarrow>
     (\<forall>r i. map_of (fst st) r = Some i \<longleftrightarrow> (\<exists>p \<in> set earlier. note_RevisionID p = r \<and> note_ID p = i))
     \<and> (\<forall>r c. map_of (snd st) r = Some c \<longleftrightarrow>
          (\<exists>p \<in> set earlier. note_RevisionID p = r \<and> immutableRevisionContent p = c))"

lemma immutable_id: "immutableRevisionContent p = immutableRevisionContent n \<Longrightarrow> note_ID p = note_ID n"
  by (cases p; cases n) (simp add: immutableRevisionContent_def)

lemma revision_link_step:
  assumes "links_state earlier st"
  shows "if link_ok earlier n
    then \<exists>st'. revision_link st n = Inr st' \<and> links_state (earlier @ [n]) st'
    else revision_link st n = Inl CodeValidation"
proof -
  obtain K C where st: "st = (K, C)" by (cases st)
  from assms have K: "map_of K r = Some i \<longleftrightarrow> (\<exists>p \<in> set earlier. note_RevisionID p = r \<and> note_ID p = i)"
    and C: "map_of C r = Some c \<longleftrightarrow> (\<exists>p \<in> set earlier. note_RevisionID p = r \<and> immutableRevisionContent p = c)"
    for r i c by (simp_all add: links_state_def st)
  let ?s = "note_SupersedesRevisionID n" and ?r = "note_RevisionID n" and ?c = "immutableRevisionContent n"
  have sup: "(\<not> (?s \<noteq> [] \<and> map_of K ?s = None) \<and> \<not> (?s \<noteq> [] \<and> map_of K ?s \<noteq> Some (note_ID n)))
      \<longleftrightarrow> (?s \<noteq> [] \<longrightarrow> (\<exists>p \<in> set earlier. note_RevisionID p = ?s \<and> note_ID p = note_ID n))"
    using K by auto
  have con: "\<not> (case map_of C ?r of None \<Rightarrow> False | Some previous \<Rightarrow> previous \<noteq> ?c)
      \<longleftrightarrow> (\<forall>p \<in> set earlier. note_RevisionID p = ?r \<longrightarrow> immutableRevisionContent p = ?c)"
  proof (cases "map_of C ?r")
    case None
    then show ?thesis using C by force
  next
    case (Some c)
    with C have "\<And>p. p \<in> set earlier \<Longrightarrow> note_RevisionID p = ?r \<Longrightarrow> immutableRevisionContent p = c"
      by (metis option.inject)
    moreover from Some C obtain p where "p \<in> set earlier" "note_RevisionID p = ?r" "immutableRevisionContent p = c"
      by blast
    ultimately show ?thesis using Some by auto
  qed
  have run: "revision_link st n = (if link_ok earlier n
      then Inr (map_put ?r (note_ID n) K, map_put ?r ?c C) else Inl CodeValidation)"
    using sup con unfolding revision_link_def st prod.case Let_def link_ok_def by presburger
  have "links_state (earlier @ [n]) (map_put ?r (note_ID n) K, map_put ?r ?c C)" if ok: "link_ok earlier n"
  proof -
    have same: "note_ID p = note_ID n \<and> immutableRevisionContent p = ?c"
      if "p \<in> set earlier" "note_RevisionID p = ?r" for p
      using ok that immutable_id unfolding link_ok_def by blast
    show ?thesis unfolding links_state_def using K C same by auto
  qed
  with run show ?thesis by auto
qed

lemma revision_link_loop:
  assumes "links_state earlier st"
  shows "if links_ok earlier ns
    then \<exists>st'. range_loop revision_link st ns = Inr st' \<and> links_state (earlier @ ns) st'
    else range_loop revision_link st ns = Inl CodeValidation"
  using assms
proof (induction ns arbitrary: earlier st)
  case Nil
  then show ?case by simp
next
  case (Cons n ns)
  note step = revision_link_step [OF Cons.prems, of n]
  show ?case
  proof (cases "link_ok earlier n")
    case False
    with step show ?thesis by simp
  next
    case True
    with step obtain st' where st': "revision_link st n = Inr st'" "links_state (earlier @ [n]) st'" by auto
    from Cons.IH [OF st'(2)] st'(1) True show ?thesis
      by (cases "links_ok (earlier @ [n]) ns") (simp_all del: split_paired_Ex)
  qed
qed

lemma links_ok_append: "links_ok earlier (xs @ ys) \<longleftrightarrow> links_ok earlier xs \<and> links_ok (earlier @ xs) ys"
  by (induction xs arbitrary: earlier) auto

lemma validateRevisionLinks_eq:
  "validateRevisionLinks chain = (if links_ok [] (chain_notes chain) then Inr () else Inl CodeValidation)"
proof -
  let ?f = "\<lambda>st item. range_loop revision_link st (elems (obj_Notes (sco_Object item)))"
  have loop: "if links_ok earlier (chain_notes chain)
    then \<exists>st'. range_loop ?f st chain = Inr st' else range_loop ?f st chain = Inl CodeValidation"
    if "links_state earlier st" for earlier st
    using that
  proof (induction chain arbitrary: earlier st)
    case Nil
    then show ?case by (simp add: chain_notes_def)
  next
    case (Cons item chain)
    let ?ns = "elems (obj_Notes (sco_Object item))"
    have c: "chain_notes (item # chain) = ?ns @ chain_notes chain" by (simp add: chain_notes_def)
    note step = revision_link_loop [OF Cons.prems, of ?ns]
    show ?case
    proof (cases "links_ok earlier ?ns")
      case False
      with step show ?thesis by (simp add: c links_ok_append)
    next
      case True
      with step obtain st' where st': "?f st item = Inr st'" "links_state (earlier @ ?ns) st'" by auto
      from Cons.IH [OF st'(2)] st'(1) True show ?thesis by (simp add: c links_ok_append del: split_paired_Ex)
    qed
  qed
  have "links_state [] ([], [])" by (simp add: links_state_def)
  from loop [OF this] show ?thesis
    unfolding validateRevisionLinks_def by (auto split: if_splits)
qed

definition chain_receipts :: "storedContextObject list \<Rightarrow> LandingReceipt list" where
  "chain_receipts chain = concat (map (\<lambda>item. obj_LandingReceipts (sco_Object item)) chain)"

definition receipt_links_ok :: "storedContextObject list \<Rightarrow> bool" where
  "receipt_links_ok chain \<longleftrightarrow> distinct (map rcpt_ID (chain_receipts chain))
     \<and> list_all (\<lambda>r. rcpt_BaseContextCommitID r = [] \<or> rcpt_BaseContextCommitID r \<in> sco_ID ` set chain)
         (chain_receipts chain)"

lemma range_loop_concat:
  "range_loop (\<lambda>s x. range_loop f s (g x)) s xs = range_loop f s (concat (map g xs))"
proof (induction xs arbitrary: s)
  case Nil
  show ?case by simp
next
  case (Cons x xs)
  then show ?case by (cases "range_loop f s (g x)") (simp_all add: range_loop_append)
qed

lemma validateLandingReceiptLinks_eq:
  "validateLandingReceiptLinks chain = (if receipt_links_ok chain then Inr () else Inl CodeValidation)"
proof -
  let ?bad = "\<lambda>r. rcpt_BaseContextCommitID r \<noteq> [] \<and> rcpt_BaseContextCommitID r \<notin> set (map sco_ID chain)"
  have "range_loop (\<lambda>seen receipt.
            if rcpt_ID receipt \<in> seen then Inl CodeValidation
            else if ?bad receipt then Inl CodeValidation
            else Inr (insert (rcpt_ID receipt) seen)) {} rs
      = (if list_all (\<lambda>r. \<not> ?bad r) rs \<and> distinct (map rcpt_ID rs) \<and> rcpt_ID ` set rs \<inter> {} = {}
         then Inr ({} \<union> rcpt_ID ` set rs) else Inl CodeValidation)" for rs
    by (rule range_loop_seen) simp
  note this [of "chain_receipts chain"]
  moreover have "receipt_links_ok chain \<longleftrightarrow>
      list_all (\<lambda>r. \<not> ?bad r) (chain_receipts chain) \<and> distinct (map rcpt_ID (chain_receipts chain))"
    by (auto simp: receipt_links_ok_def list_all_iff)
  ultimately show ?thesis
    unfolding validateLandingReceiptLinks_def Let_def range_loop_concat chain_receipts_def [symmetric]
    by (cases "receipt_links_ok chain") simp_all
qed

end
