(* ===== verification/Ref_Advance.thy ===== *)
theory Ref_Advance
  imports Object_Json Coordinator_Schedules Object_Facts
begin

text \<open>
  Context refs in the database (remote/server/refstore.go) and the landing transaction
  (remote/server/landing_ref.go), which moves a ref to the object of a landing, indexes its receipt
  and ends its intent at once, and answers a repetition from the index.
\<close>

subsection \<open>Refs\<close>

definition ref_key :: "string \<Rightarrow> string \<Rightarrow> contextRefRecord \<Rightarrow> bool" where
  "ref_key repositoryID refName r \<longleftrightarrow> refr_RepositoryID r = repositoryID \<and> refr_RefName r = refName"

definition empty_ref :: "string \<Rightarrow> Ref" where
  "empty_ref refName = \<lparr>ref_RefName = refName, ref_CommitID = [], ref_SourceSHA = [], ref_Version = 0\<rparr>"

definition ref_of_record :: "contextRefRecord \<Rightarrow> Ref" where
  "ref_of_record r = \<lparr>ref_RefName = refr_RefName r, ref_CommitID = refr_CommitID r, ref_SourceSHA = refr_SourceSHA r,
     ref_Version = refr_Version r\<rparr>"

definition current_ref :: "string \<Rightarrow> string \<Rightarrow> database \<Rightarrow> Ref" where
  "current_ref repositoryID refName db = (case take_row (ref_key repositoryID refName) (db_refs db) of
       None \<Rightarrow> empty_ref refName | Some r \<Rightarrow> ref_of_record r)"

definition ReadRef :: "string \<Rightarrow> string \<Rightarrow> database \<Rightarrow> Ref result" where
  "ReadRef repositoryID refName db =
     (if refName = [] then Inl CodeValidation
      else case take_row (ref_key repositoryID refName) (db_refs db) of
        None \<Rightarrow> Inr (empty_ref refName)
      | Some r \<Rightarrow> Inr \<lparr>ref_RefName = refName, ref_CommitID = refr_CommitID r, ref_SourceSHA = refr_SourceSHA r,
          ref_Version = refr_Version r\<rparr>)"

definition ListRefs :: "string \<Rightarrow> database \<Rightarrow> Ref list" where
  "ListRefs repositoryID db =
     map ref_of_record (order_rows refr_RefName (\<lambda>r. refr_RepositoryID r = repositoryID) (db_refs db))"

definition move_ref :: "Ref \<Rightarrow> contextRefRecord \<Rightarrow> contextRefRecord" where
  "move_ref nxt r = r\<lparr>refr_CommitID := ref_CommitID nxt, refr_SourceSHA := ref_SourceSHA nxt, refr_Version := ref_Version nxt\<rparr>"

definition CompareAndSwapRef :: "string \<Rightarrow> string \<Rightarrow> Ref \<Rightarrow> Ref \<Rightarrow> database \<Rightarrow> database \<times> Ref result" where
  "CompareAndSwapRef repositoryID refName expected nxt db =
     (if ref_RefName expected \<noteq> refName \<or> ref_RefName nxt \<noteq> refName \<or> ref_CommitID nxt = []
         \<or> ref_SourceSHA nxt = [] \<or> ref_Version nxt < 1
      then (db, Inl CodeValidation)
      else transaction
        (tx_bind (tx_read (\<lambda>db. take_row (ref_key repositoryID refName) (db_refs db))) (\<lambda>row.
         let current = (case row of None \<Rightarrow> empty_ref refName
               | Some r \<Rightarrow> \<lparr>ref_RefName = refName, ref_CommitID = refr_CommitID r, ref_SourceSHA = refr_SourceSHA r,
                   ref_Version = refr_Version r\<rparr>)
         in if current \<noteq> expected then tx_fail CodeRemoteConflict
            else if ref_Version nxt \<noteq> ref_Version current + 1 then tx_fail CodeValidation
            else case row of
              None \<Rightarrow> (\<lambda>db. if list_ex (ref_key repositoryID refName) (db_refs db) then Inl CodeRemoteConflict
                  else Inr (db\<lparr>db_refs := db_refs db @ [\<lparr>refr_RepositoryID = repositoryID, refr_RefName = refName,
                    refr_CommitID = ref_CommitID nxt, refr_SourceSHA = ref_SourceSHA nxt, refr_Version = ref_Version nxt\<rparr>]\<rparr>, nxt))
            | Some r \<Rightarrow>
                tx_bind (tx_update db_refs_update db_refs
                    (\<lambda>r. ref_key repositoryID refName r \<and> refr_Version r = ref_Version expected) (move_ref nxt)) (\<lambda>n.
                tx_bind (tx_check (n = 1) CodeRemoteConflict) (\<lambda>_. tx_return nxt)))) db)"

subsection \<open>Landing\<close>

record RefAdvanceInput =
  adv_Expected :: Ref
  adv_Next :: Ref
  adv_Object :: ContextObject

definition validateLandingAdvance :: "(string \<Rightarrow> string) \<Rightarrow> RefAdvanceInput \<Rightarrow> LandingReceipt result" where
  "validateLandingAdvance b3 input =
     (let obj = adv_Object input; nxt = adv_Next input
      in if ref_RefName nxt = [] \<or> ref_RefName nxt \<noteq> ref_RefName (adv_Expected input) \<or> obj_SchemaVersion obj \<noteq> 4
            \<or> obj_RepositoryID obj = [] \<or> obj_RefName obj \<noteq> ref_RefName nxt \<or> obj_SourceSHA obj \<noteq> ref_SourceSHA nxt
            \<or> length (obj_LandingReceipts obj) \<noteq> 1
         then Inl CodeValidation
         else and_then (validateContextObject obj (obj_RepositoryID obj) (obj_RefName obj)) (\<lambda>_.
           case json_marshal (object_json obj) of
             None \<Rightarrow> Inl CodeValidation
           | Some contents \<Rightarrow>
             if hex_encode (b3 contents) \<noteq> ref_CommitID nxt then Inl CodeValidation
             else
               let receipt = hd (obj_LandingReceipts obj)
               in if rcpt_ID receipt = [] \<or> rcpt_ContextRepositoryID receipt \<noteq> obj_RepositoryID obj
                     \<or> rcpt_TargetRef receipt \<noteq> obj_RefName obj \<or> rcpt_SourceMergeSHA receipt \<noteq> obj_SourceSHA obj
                     \<or> rcpt_FinalPlanID receipt = [] \<or> rcpt_BaseContextCommitID receipt \<noteq> ref_CommitID (adv_Expected input)
                  then Inl CodeValidation else Inr receipt))"

definition advanceable :: "LandingState \<Rightarrow> bool" where
  "advanceable s \<longleftrightarrow> s = LandingRunning \<or> s = LandingRecovering \<or> s = LandingPending"

definition validateReceiptIntent :: "LandingReceipt \<Rightarrow> landingIntentRecord \<Rightarrow> ContextObject \<Rightarrow> unit result" where
  "validateReceiptIntent receipt r obj =
     (if lir_RepositoryID r \<noteq> obj_RepositoryID obj \<or> lir_TargetRef r \<noteq> obj_RefName obj
         \<or> lir_Provider r \<noteq> rcpt_Provider receipt \<or> lir_ForgeRepository r \<noteq> rcpt_ForgeRepository receipt
         \<or> lir_ChangeNumber r \<noteq> rcpt_ChangeNumber receipt \<or> lir_CandidateDigest r \<noteq> rcpt_CandidateDigest receipt
         \<or> lir_SourceMergeSHA r \<noteq> rcpt_SourceMergeSHA receipt \<or> lir_FinalPlanID r \<noteq> rcpt_FinalPlanID receipt
      then Inl CodeValidation
      else if \<not> advanceable (lir_State r) then Inl CodeConcurrentUpdate else Inr ())"

definition convergeLandedIntent :: "string \<Rightarrow> string \<Rightarrow> unit tx" where
  "convergeLandedIntent intentID commitID =
     tx_bind (tx_update db_landings_update db_landings (\<lambda>r. lir_ID r = intentID \<and> lir_State r \<noteq> LandingLanded)
        (\<lambda>r. r\<lparr>lir_State := LandingLanded, lir_LandedContextCommitID := commitID, lir_NextAttemptAt := zero_time,
           lir_LastErrorCode := CodeNone\<rparr>)) (\<lambda>_. tx_return ())"

definition persist_optional :: "(string \<Rightarrow> string) \<Rightarrow> DesiredCheck option \<Rightarrow> unit tx" where
  "persist_optional b3 desired = (case desired of None \<Rightarrow> tx_return () | Some d \<Rightarrow> persistDesiredCheckTx b3 d)"

text \<open>The repetition of a landing whose receipt is indexed.\<close>

definition repeat_landing ::
    "(string \<Rightarrow> string) \<Rightarrow> RefAdvanceInput \<Rightarrow> LandingReceipt \<Rightarrow> DesiredCheck option \<Rightarrow> landingReceiptRecord \<Rightarrow> Ref tx" where
  "repeat_landing b3 input receipt desired indexed =
     (let obj = adv_Object input
      in if lrr_RepositoryID indexed \<noteq> obj_RepositoryID obj \<or> lrr_RefName indexed \<noteq> obj_RefName obj
            \<or> lrr_ContextCommitID indexed \<noteq> ref_CommitID (adv_Next input)
         then tx_fail CodeValidation
         else
           tx_bind (tx_read (\<lambda>db. take_row (ref_key (obj_RepositoryID obj) (obj_RefName obj)) (db_refs db))) (\<lambda>row.
           tx_bind (tx_found row CodeLocalStorage) (\<lambda>current.
           tx_bind (convergeLandedIntent (rcpt_ID receipt) (lrr_ContextCommitID indexed)) (\<lambda>_.
           tx_bind (persist_optional b3 desired) (\<lambda>_.
           tx_return (ref_of_record current))))))"

text \<open>The row of the ref as it was read, the receipt's index row, and the intent once it is landed.\<close>

definition at_ref :: "ContextObject \<Rightarrow> Ref \<Rightarrow> contextRefRecord \<Rightarrow> bool" where
  "at_ref obj current r \<longleftrightarrow> ref_key (obj_RepositoryID obj) (obj_RefName obj) r \<and> refr_Version r = ref_Version current
     \<and> refr_CommitID r = ref_CommitID current"

definition receipt_row :: "go_time \<Rightarrow> RefAdvanceInput \<Rightarrow> LandingReceipt \<Rightarrow> landingReceiptRecord" where
  "receipt_row clock input receipt = \<lparr>lrr_ReceiptID = rcpt_ID receipt,
     lrr_RepositoryID = obj_RepositoryID (adv_Object input), lrr_RefName = obj_RefName (adv_Object input),
     lrr_ContextCommitID = ref_CommitID (adv_Next input), lrr_CreatedAt = time_UTC clock\<rparr>"

definition to_land :: "LandingReceipt \<Rightarrow> landingIntentRecord \<Rightarrow> bool" where
  "to_land receipt r \<longleftrightarrow> lir_ID r = rcpt_ID receipt \<and> advanceable (lir_State r)"

definition landed_row :: "LandingReceipt \<Rightarrow> Ref \<Rightarrow> landingIntentRecord \<Rightarrow> landingIntentRecord" where
  "landed_row receipt nxt r = r\<lparr>lir_State := LandingLanded, lir_FinalPlanID := rcpt_FinalPlanID receipt,
     lir_LandedContextCommitID := ref_CommitID nxt, lir_NextAttemptAt := zero_time, lir_LastErrorCode := CodeNone\<rparr>"

definition land :: "(string \<Rightarrow> string) \<Rightarrow> go_time \<Rightarrow> RefAdvanceInput \<Rightarrow> LandingReceipt \<Rightarrow> DesiredCheck option \<Rightarrow> Ref tx" where
  "land b3 clock input receipt desired =
     (let obj = adv_Object input; nxt = adv_Next input
      in tx_bind (tx_read (current_ref (obj_RepositoryID obj) (obj_RefName obj))) (\<lambda>current.
         if current \<noteq> adv_Expected input then tx_fail CodeRemoteConflict
         else if ref_Version nxt \<noteq> ref_Version current + 1 then tx_fail CodeValidation
         else
           tx_bind (tx_read (\<lambda>db. take_row (\<lambda>r. lir_ID r = rcpt_ID receipt) (db_landings db))) (\<lambda>row.
           tx_bind (tx_found row CodeLocalStorage) (\<lambda>intent.
           tx_bind (tx_lift (validateReceiptIntent receipt intent obj)) (\<lambda>_.
           tx_bind (tx_update db_refs_update db_refs (at_ref obj current) (move_ref nxt)) (\<lambda>refs.
           tx_bind (tx_check (refs = 1) CodeRemoteConflict) (\<lambda>_.
           tx_bind (tx_insert db_receipts_update db_receipts (\<lambda>r. lrr_ReceiptID r = rcpt_ID receipt)
               (receipt_row clock input receipt)) (\<lambda>_.
           tx_bind (tx_update db_landings_update db_landings (to_land receipt) (landed_row receipt nxt)) (\<lambda>landings.
           tx_bind (tx_check (landings = 1) CodeConcurrentUpdate) (\<lambda>_.
           tx_bind (persist_optional b3 desired) (\<lambda>_.
           tx_return nxt)))))))))))"

definition advance ::
    "(string \<Rightarrow> string) \<Rightarrow> go_time \<Rightarrow> RefAdvanceInput \<Rightarrow> DesiredCheck option \<Rightarrow> database \<Rightarrow> database \<times> Ref result" where
  "advance b3 clock input desired db = (case validateLandingAdvance b3 input of
       Inl e \<Rightarrow> (db, Inl e)
     | Inr receipt \<Rightarrow> transaction
         (tx_bind (tx_read (\<lambda>db. take_row (\<lambda>r. lrr_ReceiptID r = rcpt_ID receipt) (db_receipts db))) (\<lambda>row.
          case row of
            Some indexed \<Rightarrow> repeat_landing b3 input receipt desired indexed
          | None \<Rightarrow> land b3 clock input receipt desired)) db)"

definition Advance :: "(string \<Rightarrow> string) \<Rightarrow> go_time \<Rightarrow> RefAdvanceInput \<Rightarrow> database \<Rightarrow> database \<times> Ref result" where
  "Advance b3 clock input = advance b3 clock input None"

definition AdvanceWithCheck ::
    "(string \<Rightarrow> string) \<Rightarrow> go_time \<Rightarrow> RefAdvanceInput \<Rightarrow> DesiredCheck \<Rightarrow> database \<Rightarrow> database \<times> Ref result" where
  "AdvanceWithCheck b3 clock input desired db = (case validateDesiredCheck desired of
       Inl e \<Rightarrow> (db, Inl e) | Inr _ \<Rightarrow> advance b3 clock input (Some desired) db)"

end
