(* ===== verification/Runner_Executions.thy ===== *)
theory Runner_Executions
  imports Coordinator_Queue
begin

text \<open>
  The durable record of runner attempts (remote/server/runner_execution_store.go): an execution is
  the work of one job, an attempt is one run of it.  Every write of a worker requires the active
  claim of the job, and the attempt to be owned by that claim.
\<close>

definition maxRunnerHandleBytes :: nat where
  "maxRunnerHandleBytes = 65536"

definition validRunnerDigest :: "string \<Rightarrow> bool" where
  "validRunnerDigest s \<longleftrightarrow> length s = 64 \<and> list_all is_lower_hex s"

definition validateRunnerExecutionSeed :: "JobClaim \<Rightarrow> RunnerExecutionSeed \<Rightarrow> unit result" where
  "validateRunnerExecutionSeed c s =
     and_then (validateJobClaim c) (\<lambda>_.
     if seed_JobID s \<noteq> claim_JobID c \<or> \<not> validRunnerDigest (seed_ExecutionID s) \<or> \<not> validRunnerDigest (seed_RequestDigest s)
        \<or> \<not> validRunnerDigest (seed_SpecDigest s) \<or> \<not> validRunnerDigest (seed_AttemptID s)
        \<or> TrimSpace (seed_OwnerInstance s) = []
     then Inl CodeValidation
     else if seed_Backend s \<in> {''process'', ''in_process'', ''docker'', ''kubernetes_job''} then Inr ()
     else Inl CodeValidation)"

definition validateRunnerHandle :: "string \<Rightarrow> unit result" where
  "validateRunnerHandle h = (if h = [] \<or> maxRunnerHandleBytes < length h then Inl CodeValidation else Inr ())"

definition sameRunnerExecutionIdentity :: "runnerExecutionRecord \<Rightarrow> RunnerExecutionSeed \<Rightarrow> bool" where
  "sameRunnerExecutionIdentity r s \<longleftrightarrow> rer_ExecutionID r = seed_ExecutionID s \<and> rer_JobID r = seed_JobID s
     \<and> rer_RequestDigest r = seed_RequestDigest s \<and> rer_SpecDigest r = seed_SpecDigest s \<and> rer_Backend r = seed_Backend s"

definition terminalRunnerExecutionStates :: "RunnerExecutionState list" where
  "terminalRunnerExecutionStates = [RunnerExecutionSucceeded, RunnerExecutionFailed, RunnerExecutionCancelled,
     RunnerExecutionLost, RunnerExecutionSuperseded]"

text \<open>A new attempt: every column it does not name is zero, the handle is \<open>NULL\<close>.\<close>

definition new_attempt :: "JobClaim \<Rightarrow> go_time \<Rightarrow> string \<Rightarrow> string \<Rightarrow> string \<Rightarrow> string \<Rightarrow> string \<Rightarrow> string \<Rightarrow> int \<Rightarrow> string
    \<Rightarrow> runnerExecutionRecord" where
  "new_attempt c now attemptID executionID jobID requestDigest specDigest backend runnerAttempt ownerInstance =
     \<lparr>rer_AttemptID = attemptID, rer_ExecutionID = executionID, rer_JobID = jobID, rer_RequestDigest = requestDigest,
       rer_SpecDigest = specDigest, rer_Backend = backend, rer_RunnerAttempt = runnerAttempt,
       rer_ClaimOwner = claim_LeaseOwner c, rer_ClaimFencingToken = claim_FencingToken c, rer_OwnerInstance = ownerInstance,
       rer_State = RunnerExecutionPrepared, rer_HandleEnvelope = None, rer_ResultDigest = [], rer_FailureCode = CodeNone,
       rer_CleanupState = RunnerCleanupNone, rer_CleanupAttempts = 0, rer_CleanupAfter = zero_time, rer_CreatedAt = now,
       rer_UpdatedAt = now, rer_FinishedAt = zero_time\<rparr>"

text \<open>The primary key is the attempt; execution and attempt number are a unique index.\<close>

definition attempt_clash :: "runnerExecutionRecord \<Rightarrow> runnerExecutionRecord \<Rightarrow> bool" where
  "attempt_clash r x \<longleftrightarrow> rer_AttemptID x = rer_AttemptID r
     \<or> rer_ExecutionID x = rer_ExecutionID r \<and> rer_RunnerAttempt x = rer_RunnerAttempt r"

definition create_attempt :: "runnerExecutionRecord \<Rightarrow> RunnerExecution tx" where
  "create_attempt r =
     tx_bind (tx_insert db_executions_update db_executions (attempt_clash r) r) (\<lambda>_. tx_return (runnerExecutionFrom r))"

text \<open>\<open>Order("runner_attempt DESC").Take\<close>\<close>

definition latest_attempt :: "string \<Rightarrow> runnerExecutionRecord list \<Rightarrow> runnerExecutionRecord option" where
  "latest_attempt executionID rows = first_row (\<lambda>r. - rer_RunnerAttempt r) (\<lambda>r. rer_ExecutionID r = executionID) rows"

definition tx_update_execution ::
    "(runnerExecutionRecord \<Rightarrow> bool) \<Rightarrow> (runnerExecutionRecord \<Rightarrow> runnerExecutionRecord) \<Rightarrow> unit tx" where
  "tx_update_execution P f =
     tx_bind (tx_update db_executions_update db_executions P f) (\<lambda>n. tx_check (n = 1) CodeConcurrentUpdate)"

subsection \<open>Attempts\<close>

definition PrepareRunnerExecution :: "JobClaim \<Rightarrow> RunnerExecutionSeed \<Rightarrow> database \<Rightarrow> database \<times> RunnerExecution result" where
  "PrepareRunnerExecution c s db = (case validateRunnerExecutionSeed c s of
       Inl e \<Rightarrow> (db, Inl e)
     | Inr _ \<Rightarrow> transaction
         (tx_bind (validateActiveClaimTx c) (\<lambda>_.
          tx_bind (tx_read (\<lambda>db. latest_attempt (seed_ExecutionID s) (db_executions db))) (\<lambda>row.
          case row of
            Some existing \<Rightarrow>
              if \<not> sameRunnerExecutionIdentity existing s
                 \<or> rer_RunnerAttempt existing = 1 \<and> rer_AttemptID existing \<noteq> seed_AttemptID s
              then tx_fail CodeValidation else tx_return (runnerExecutionFrom existing)
          | None \<Rightarrow>
              tx_bind databaseTime (\<lambda>now.
              create_attempt (new_attempt c now (seed_AttemptID s) (seed_ExecutionID s) (seed_JobID s)
                (seed_RequestDigest s) (seed_SpecDigest s) (seed_Backend s) 1 (seed_OwnerInstance s)))))) db)"

definition read_execution :: "string \<Rightarrow> database \<Rightarrow> RunnerExecution result" where
  "read_execution executionID db =
     (if TrimSpace executionID = [] then Inl CodeValidation
      else case latest_attempt executionID (db_executions db) of
        None \<Rightarrow> Inl CodeEntityNotFound | Some r \<Rightarrow> Inr (runnerExecutionFrom r))"

text \<open>
  The adopted row is read back by its execution alone, in the order of the table: it need not be
  the attempt that was adopted.
\<close>

definition AdoptRunnerExecution :: "JobClaim \<Rightarrow> string \<Rightarrow> string \<Rightarrow> database \<Rightarrow> database \<times> RunnerExecution result" where
  "AdoptRunnerExecution c executionID attemptID db = transaction
     (tx_bind (validateActiveClaimTx c) (\<lambda>_.
      tx_bind databaseTime (\<lambda>now.
      tx_bind (tx_update_execution
          (\<lambda>r. rer_ExecutionID r = executionID \<and> rer_AttemptID r = attemptID \<and> rer_JobID r = claim_JobID c
             \<and> rer_State r \<in> {RunnerExecutionPrepared, RunnerExecutionActive, RunnerExecutionSucceeded})
          (\<lambda>r. r\<lparr>rer_ClaimOwner := claim_LeaseOwner c, rer_ClaimFencingToken := claim_FencingToken c, rer_UpdatedAt := now\<rparr>)) (\<lambda>_.
      tx_bind (tx_read (\<lambda>db. take_row (\<lambda>r. rer_ExecutionID r = executionID) (db_executions db))) (\<lambda>row.
      tx_bind (tx_found row CodeLocalStorage) (\<lambda>r. tx_return (runnerExecutionFrom r))))))) db"

definition replacement_invalid :: "JobClaim \<Rightarrow> string \<Rightarrow> string \<Rightarrow> string \<Rightarrow> bool" where
  "replacement_invalid c nextAttemptID specDigest ownerInstance \<longleftrightarrow> validateJobClaim c \<noteq> Inr ()
     \<or> \<not> validRunnerDigest nextAttemptID \<or> \<not> validRunnerDigest specDigest \<or> TrimSpace ownerInstance = []"

definition succeeding_attempt ::
    "JobClaim \<Rightarrow> go_time \<Rightarrow> runnerExecutionRecord \<Rightarrow> string \<Rightarrow> string \<Rightarrow> string \<Rightarrow> runnerExecutionRecord" where
  "succeeding_attempt c now previous nextAttemptID specDigest ownerInstance =
     new_attempt c now nextAttemptID (rer_ExecutionID previous) (rer_JobID previous) (rer_RequestDigest previous) specDigest
       (rer_Backend previous) (rer_RunnerAttempt previous + 1) ownerInstance"

definition ReplaceLocalRunnerAttempt :: "JobClaim \<Rightarrow> string \<Rightarrow> string \<Rightarrow> string \<Rightarrow> string \<Rightarrow> string \<Rightarrow> database
    \<Rightarrow> database \<times> RunnerExecution result" where
  "ReplaceLocalRunnerAttempt c executionID previousAttemptID nextAttemptID specDigest ownerInstance db =
     (if replacement_invalid c nextAttemptID specDigest ownerInstance then (db, Inl CodeValidation)
      else transaction
        (tx_bind (validateActiveClaimTx c) (\<lambda>_.
         tx_bind (tx_read (\<lambda>db. take_row (\<lambda>r. rer_ExecutionID r = executionID \<and> rer_AttemptID r = previousAttemptID
             \<and> rer_JobID r = claim_JobID c \<and> rer_Backend r \<in> {''process'', ''in_process''}
             \<and> rer_State r \<in> {RunnerExecutionPrepared, RunnerExecutionActive, RunnerExecutionSucceeded}) (db_executions db))) (\<lambda>row.
         tx_bind (tx_found row CodeConcurrentUpdate) (\<lambda>previous.
         if rer_OwnerInstance previous = ownerInstance then tx_fail CodeConcurrentUpdate
         else
           tx_bind databaseTime (\<lambda>now.
           tx_bind (tx_update_execution (\<lambda>r. rer_AttemptID r = rer_AttemptID previous \<and> rer_State r = rer_State previous)
              (\<lambda>r. let r = r\<lparr>rer_CleanupState := RunnerCleanupPending, rer_CleanupAfter := now, rer_UpdatedAt := now\<rparr>
                 in if rer_State previous \<noteq> RunnerExecutionSucceeded
                    then r\<lparr>rer_State := RunnerExecutionLost, rer_FinishedAt := now\<rparr> else r)) (\<lambda>_.
           create_attempt (succeeding_attempt c now previous nextAttemptID specDigest ownerInstance))))))) db)"

definition AllocateRunnerAttempt :: "JobClaim \<Rightarrow> string \<Rightarrow> string \<Rightarrow> string \<Rightarrow> string \<Rightarrow> string \<Rightarrow> database
    \<Rightarrow> database \<times> RunnerExecution result" where
  "AllocateRunnerAttempt c executionID previousAttemptID nextAttemptID specDigest ownerInstance db =
     (if replacement_invalid c nextAttemptID specDigest ownerInstance then (db, Inl CodeValidation)
      else transaction
        (tx_bind (validateActiveClaimTx c) (\<lambda>_.
         tx_bind (tx_read (\<lambda>db. take_row (\<lambda>r. rer_ExecutionID r = executionID \<and> rer_AttemptID r = previousAttemptID
             \<and> rer_JobID r = claim_JobID c
             \<and> rer_State r \<in> {RunnerExecutionFailed, RunnerExecutionCancelled, RunnerExecutionLost}) (db_executions db))) (\<lambda>row.
         tx_bind (tx_found row CodeConcurrentUpdate) (\<lambda>previous.
         tx_bind (tx_read (\<lambda>db. latest_attempt executionID (db_executions db))) (\<lambda>last_row.
         tx_bind (tx_found last_row CodeLocalStorage) (\<lambda>latest.
         if rer_AttemptID latest \<noteq> rer_AttemptID previous then tx_fail CodeConcurrentUpdate
         else tx_bind databaseTime (\<lambda>now.
           create_attempt (succeeding_attempt c now previous nextAttemptID specDigest ownerInstance)))))))) db)"

subsection \<open>Progress of an attempt\<close>

text \<open>\<open>updateClaimedRunnerExecution\<close>; the update may use the clock of the database.\<close>

definition owned_attempt :: "JobClaim \<Rightarrow> string \<Rightarrow> string \<Rightarrow> RunnerExecutionState list \<Rightarrow> runnerExecutionRecord \<Rightarrow> bool" where
  "owned_attempt c executionID attemptID states r \<longleftrightarrow> rer_ExecutionID r = executionID \<and> rer_AttemptID r = attemptID
     \<and> rer_JobID r = claim_JobID c \<and> rer_ClaimOwner r = claim_LeaseOwner c
     \<and> rer_ClaimFencingToken r = claim_FencingToken c \<and> rer_State r \<in> set states"

definition updateClaimedRunnerExecution :: "JobClaim \<Rightarrow> string \<Rightarrow> string \<Rightarrow> RunnerExecutionState list
    \<Rightarrow> (go_time \<Rightarrow> runnerExecutionRecord \<Rightarrow> runnerExecutionRecord) \<Rightarrow> database \<Rightarrow> database \<times> unit result" where
  "updateClaimedRunnerExecution c executionID attemptID states updates db =
     (if validateJobClaim c \<noteq> Inr () \<or> TrimSpace executionID = [] \<or> TrimSpace attemptID = [] then (db, Inl CodeValidation)
      else transaction
        (tx_bind (validateActiveClaimTx c) (\<lambda>_.
         tx_bind databaseTime (\<lambda>now.
         tx_update_execution (owned_attempt c executionID attemptID states) (\<lambda>r. (updates now r)\<lparr>rer_UpdatedAt := now\<rparr>)))) db)"

definition RecordRunnerHandle :: "JobClaim \<Rightarrow> string \<Rightarrow> string \<Rightarrow> string \<Rightarrow> database \<Rightarrow> database \<times> unit result" where
  "RecordRunnerHandle c executionID attemptID handle db = (case validateRunnerHandle handle of
       Inl e \<Rightarrow> (db, Inl e)
     | Inr _ \<Rightarrow> updateClaimedRunnerExecution c executionID attemptID [RunnerExecutionPrepared, RunnerExecutionActive]
         (\<lambda>_ r. r\<lparr>rer_State := RunnerExecutionActive, rer_HandleEnvelope := Some handle\<rparr>) db)"

definition RecordDiscoveredRunnerHandle :: "string \<Rightarrow> string \<Rightarrow> string \<Rightarrow> string \<Rightarrow> string \<Rightarrow> database \<Rightarrow> database \<times> unit result" where
  "RecordDiscoveredRunnerHandle executionID attemptID backend specDigest handle db = (case validateRunnerHandle handle of
       Inl e \<Rightarrow> (db, Inl e)
     | Inr _ \<Rightarrow> transaction
         (tx_bind (tx_read (\<lambda>db. take_row (\<lambda>r. rer_ExecutionID r = executionID \<and> rer_AttemptID r = attemptID
             \<and> rer_Backend r = backend \<and> rer_SpecDigest r = specDigest) (db_executions db))) (\<lambda>row.
          tx_bind (tx_found row CodeConcurrentUpdate) (\<lambda>r.
          case rer_HandleEnvelope r of
            Some (b # bs) \<Rightarrow> tx_check (b # bs = handle) CodeValidation
          | _ \<Rightarrow>
            tx_bind databaseTime (\<lambda>now.
            tx_update_execution (\<lambda>x. rer_ExecutionID x = executionID \<and> rer_AttemptID x = attemptID \<and> rer_HandleEnvelope x = None)
              (\<lambda>x. x\<lparr>rer_HandleEnvelope := Some handle, rer_UpdatedAt := now\<rparr>))))) db)"

text \<open>\<open>gorm.Expr("CURRENT_TIMESTAMP")\<close> is the clock the transaction reads.\<close>

definition CompleteRunnerExecution :: "JobClaim \<Rightarrow> string \<Rightarrow> string \<Rightarrow> string \<Rightarrow> go_time \<Rightarrow> database \<Rightarrow> database \<times> unit result" where
  "CompleteRunnerExecution c executionID attemptID resultDigest cleanupAfter db =
     (if \<not> validRunnerDigest resultDigest \<or> time_IsZero cleanupAfter then (db, Inl CodeValidation)
      else updateClaimedRunnerExecution c executionID attemptID [RunnerExecutionActive]
        (\<lambda>now r. r\<lparr>rer_State := RunnerExecutionSucceeded, rer_ResultDigest := resultDigest, rer_FinishedAt := now,
           rer_CleanupState := RunnerCleanupPending, rer_CleanupAfter := time_UTC cleanupAfter\<rparr>) db)"

definition FailRunnerExecution :: "JobClaim \<Rightarrow> string \<Rightarrow> string \<Rightarrow> ErrorCode \<Rightarrow> database \<Rightarrow> database \<times> unit result" where
  "FailRunnerExecution c executionID attemptID code db =
     (if code = CodeNone then (db, Inl CodeValidation)
      else updateClaimedRunnerExecution c executionID attemptID
        [RunnerExecutionPrepared, RunnerExecutionActive, RunnerExecutionCancelRequested]
        (\<lambda>now r. r\<lparr>rer_State := RunnerExecutionFailed, rer_FailureCode := code, rer_FinishedAt := now\<rparr>) db)"

definition BeginRunnerCancel :: "JobClaim \<Rightarrow> string \<Rightarrow> string \<Rightarrow> database \<Rightarrow> database \<times> unit result" where
  "BeginRunnerCancel c executionID attemptID db =
     updateClaimedRunnerExecution c executionID attemptID [RunnerExecutionPrepared, RunnerExecutionActive]
       (\<lambda>_ r. r\<lparr>rer_State := RunnerExecutionCancelRequested\<rparr>) db"

definition MarkRunnerCancelled :: "JobClaim \<Rightarrow> string \<Rightarrow> string \<Rightarrow> database \<Rightarrow> database \<times> unit result" where
  "MarkRunnerCancelled c executionID attemptID db =
     updateClaimedRunnerExecution c executionID attemptID [RunnerExecutionCancelRequested]
       (\<lambda>now r. r\<lparr>rer_State := RunnerExecutionCancelled, rer_FinishedAt := now, rer_CleanupState := RunnerCleanupPending\<rparr>) db"

subsection \<open>Cleanup\<close>

definition attempt_at :: "string \<Rightarrow> string \<Rightarrow> runnerExecutionRecord \<Rightarrow> bool" where
  "attempt_at executionID attemptID r \<longleftrightarrow> rer_ExecutionID r = executionID \<and> rer_AttemptID r = attemptID"

definition cleanup_due :: "runnerExecutionRecord \<Rightarrow> bool" where
  "cleanup_due r \<longleftrightarrow> rer_CleanupState r = RunnerCleanupPending \<or> rer_CleanupState r = RunnerCleanupFailed"

definition MarkRunnerCleanupPending :: "string \<Rightarrow> string \<Rightarrow> database \<Rightarrow> database \<times> unit result" where
  "MarkRunnerCleanupPending executionID attemptID db = transaction
     (tx_bind databaseTime (\<lambda>now.
      tx_update_execution (\<lambda>r. attempt_at executionID attemptID r \<and> rer_State r \<in> set terminalRunnerExecutionStates)
        (\<lambda>r. r\<lparr>rer_CleanupState := RunnerCleanupPending, rer_CleanupAfter := now\<rparr>))) db"

definition RecordRunnerCleanupFailure :: "string \<Rightarrow> string \<Rightarrow> database \<Rightarrow> database \<times> unit result" where
  "RecordRunnerCleanupFailure executionID attemptID db = transaction
     (tx_bind (tx_read (\<lambda>db. take_row (\<lambda>r. attempt_at executionID attemptID r \<and> cleanup_due r) (db_executions db))) (\<lambda>row.
      tx_bind (tx_found row CodeConcurrentUpdate) (\<lambda>r.
      tx_bind databaseTime (\<lambda>now.
      let attempts = (if rer_CleanupAttempts r < 2 ^ 30 then rer_CleanupAttempts r + 1 else rer_CleanupAttempts r)
      in tx_update_execution (\<lambda>x. attempt_at executionID attemptID x \<and> rer_CleanupAttempts x = rer_CleanupAttempts r)
           (\<lambda>x. x\<lparr>rer_CleanupState := RunnerCleanupFailed, rer_CleanupAttempts := attempts,
              rer_CleanupAfter := time_Add now (backoff attempts), rer_UpdatedAt := now\<rparr>))))) db"

definition MarkRunnerCleaned :: "string \<Rightarrow> string \<Rightarrow> database \<Rightarrow> database \<times> unit result" where
  "MarkRunnerCleaned executionID attemptID db = transaction
     (tx_bind databaseTime (\<lambda>now.
      tx_update_execution (\<lambda>r. attempt_at executionID attemptID r \<and> cleanup_due r)
        (\<lambda>r. r\<lparr>rer_CleanupState := RunnerCleanupCleaned, rer_CleanupAfter := zero_time, rer_UpdatedAt := now\<rparr>))) db"

definition ListRunnerExecutionsForReconciliation :: "nat \<Rightarrow> database \<Rightarrow> RunnerExecution list result" where
  "ListRunnerExecutionsForReconciliation limit db =
     (if limit < 1 \<or> 1000 < limit then Inl CodeValidation
      else Inr (map runnerExecutionFrom (take limit (order_rows (\<lambda>r. (time_instant (rer_UpdatedAt r), rer_ExecutionID r))
        (\<lambda>r. rer_State r \<in> {RunnerExecutionPrepared, RunnerExecutionActive, RunnerExecutionCancelRequested} \<or> cleanup_due r)
        (db_executions db)))))"

end
