(* ===== verification/Coordinator_Logic.thy ===== *)
theory Coordinator_Logic
  imports Ref_Advance Runner_Executions
begin

text \<open>
  What every operation of the coordinator keeps: the invariant \<open>coordinator_inv\<close> of one database, and
  the relation \<open>evolves\<close> between a database and a later one; and the rules by which a transaction
  body is shown to keep both (\<open>keeps b3 db m\<close>), one per statement.
\<close>

subsection \<open>The rows\<close>

definition job_ok :: "coordinatorJobRecord \<Rightarrow> bool" where
  "job_ok r \<longleftrightarrow> cjr_ID r \<noteq> [] \<and> 0 \<le> cjr_Attempts r \<and> cjr_Attempts r \<le> cjr_MaxAttempts r \<and> 1 \<le> cjr_MaxAttempts r
     \<and> 0 \<le> cjr_FencingToken r
     \<and> cjr_State r \<in> {CoordinatorJobPending, CoordinatorJobRunning, CoordinatorJobRetryable, CoordinatorJobDone,
         CoordinatorJobFailed, CoordinatorJobIncompatible}
     \<and> (cjr_State r = CoordinatorJobRunning \<longrightarrow> 1 \<le> cjr_Attempts r \<and> 1 \<le> cjr_FencingToken r)"

text \<open>A later version of a job: with the same token it runs only if it ran, for the same owner.\<close>

definition job_step :: "coordinatorJobRecord \<Rightarrow> coordinatorJobRecord \<Rightarrow> bool" where
  "job_step r r' \<longleftrightarrow> cjr_ID r' = cjr_ID r \<and> cjr_DedupeKey r' = cjr_DedupeKey r \<and> cjr_Kind r' = cjr_Kind r
     \<and> cjr_Priority r' = cjr_Priority r \<and> cjr_Payload r' = cjr_Payload r \<and> cjr_MaxAttempts r' = cjr_MaxAttempts r
     \<and> cjr_FencingToken r \<le> cjr_FencingToken r'
     \<and> (cjr_FencingToken r' = cjr_FencingToken r \<longrightarrow> cjr_State r' = CoordinatorJobRunning
          \<longrightarrow> cjr_State r = CoordinatorJobRunning \<and> cjr_LeaseOwner r' = cjr_LeaseOwner r)"

definition landing_step :: "landingIntentRecord \<Rightarrow> landingIntentRecord \<Rightarrow> bool" where
  "landing_step l l' \<longleftrightarrow> lir_ID l' = lir_ID l \<and> lir_RepositoryID l' = lir_RepositoryID l \<and> lir_TargetRef l' = lir_TargetRef l
     \<and> lir_Provider l' = lir_Provider l \<and> lir_ForgeRepository l' = lir_ForgeRepository l
     \<and> lir_ChangeNumber l' = lir_ChangeNumber l \<and> lir_CandidateDigest l' = lir_CandidateDigest l
     \<and> lir_SourceMergeSHA l' = lir_SourceMergeSHA l \<and> lir_AttemptCount l \<le> lir_AttemptCount l'
     \<and> validLandingTransition\<^sup>*\<^sup>* (lir_State l) (lir_State l')
     \<and> (lir_State l = LandingLanded \<longrightarrow> lir_LandedContextCommitID l' = lir_LandedContextCommitID l)"

definition check_step :: "desiredCheckRecord \<Rightarrow> desiredCheckRecord \<Rightarrow> bool" where
  "check_step c c' \<longleftrightarrow> dcr_LogicalKey c' = dcr_LogicalKey c \<and> dcr_HeadSHA c' = dcr_HeadSHA c
     \<and> dcr_Provider c' = dcr_Provider c \<and> dcr_ForgeRepository c' = dcr_ForgeRepository c
     \<and> dcr_ChangeNumber c' = dcr_ChangeNumber c \<and> dcr_Version c \<le> dcr_Version c'
     \<and> (dcr_Version c' = dcr_Version c \<longrightarrow> dcr_State c' = dcr_State c \<and> dcr_Summary c' = dcr_Summary c
          \<and> dcr_PlanURL c' = dcr_PlanURL c)"

definition gen_key :: "prGenerationRecord \<Rightarrow> string \<times> string \<times> string \<times> int" where
  "gen_key g = (pgr_RepositoryKey g, pgr_Provider g, pgr_ForgeRepository g, pgr_ChangeNumber g)"

definition generation_step :: "prGenerationRecord \<Rightarrow> prGenerationRecord \<Rightarrow> bool" where
  "generation_step g g' \<longleftrightarrow> gen_key g' = gen_key g \<and> pgr_Version g \<le> pgr_Version g'
     \<and> (pgr_Version g' = pgr_Version g \<longrightarrow> pgr_BaseSourceSHA g' = pgr_BaseSourceSHA g
          \<and> pgr_HeadSourceSHA g' = pgr_HeadSourceSHA g \<and> pgr_CandidateDigest g' = pgr_CandidateDigest g)"

definition record_ref_key :: "contextRefRecord \<Rightarrow> string \<times> string" where
  "record_ref_key r = (refr_RepositoryID r, refr_RefName r)"

definition ref_step :: "contextRefRecord \<Rightarrow> contextRefRecord \<Rightarrow> bool" where
  "ref_step r r' \<longleftrightarrow> record_ref_key r' = record_ref_key r \<and> refr_Version r \<le> refr_Version r'
     \<and> (refr_Version r' = refr_Version r \<longrightarrow> refr_CommitID r' = refr_CommitID r \<and> refr_SourceSHA r' = refr_SourceSHA r)"

text \<open>A runner attempt only moves forward, and a terminal state is final.\<close>

definition execution_rank :: "RunnerExecutionState \<Rightarrow> nat" where
  "execution_rank s = (if s = RunnerExecutionPrepared then 0 else if s = RunnerExecutionActive then 1
     else if s = RunnerExecutionCancelRequested then 2 else 3)"

definition execution_step :: "runnerExecutionRecord \<Rightarrow> runnerExecutionRecord \<Rightarrow> bool" where
  "execution_step x x' \<longleftrightarrow> rer_AttemptID x' = rer_AttemptID x \<and> rer_ExecutionID x' = rer_ExecutionID x
     \<and> rer_JobID x' = rer_JobID x \<and> rer_RequestDigest x' = rer_RequestDigest x \<and> rer_SpecDigest x' = rer_SpecDigest x
     \<and> rer_Backend x' = rer_Backend x \<and> rer_RunnerAttempt x' = rer_RunnerAttempt x
     \<and> execution_rank (rer_State x) \<le> execution_rank (rer_State x')
     \<and> (execution_rank (rer_State x) = 3 \<longrightarrow> rer_State x' = rer_State x \<and> rer_ResultDigest x' = rer_ResultDigest x)"

lemma job_step_refl [simp]: "job_step r r" by (simp add: job_step_def)
lemma landing_step_refl [simp]: "landing_step r r" by (simp add: landing_step_def)
lemma check_step_refl [simp]: "check_step r r" by (simp add: check_step_def)
lemma generation_step_refl [simp]: "generation_step r r" by (simp add: generation_step_def)
lemma ref_step_refl [simp]: "ref_step r r" by (simp add: ref_step_def)
lemma execution_step_refl [simp]: "execution_step r r" by (simp add: execution_step_def)

lemma landed_final: "validLandingTransition\<^sup>*\<^sup>* LandingLanded s \<Longrightarrow> s = LandingLanded"
  by (induction rule: rtranclp_induct) (auto simp: validLandingTransition_def go_defs)

lemma job_step_trans: "job_step a b \<Longrightarrow> job_step b c \<Longrightarrow> job_step a c"
  unfolding job_step_def by force
lemma landing_step_trans: "landing_step a b \<Longrightarrow> landing_step b c \<Longrightarrow> landing_step a c"
  unfolding landing_step_def by (metis landed_final order_trans rtranclp_trans)
lemma check_step_trans: "check_step a b \<Longrightarrow> check_step b c \<Longrightarrow> check_step a c"
  unfolding check_step_def by force
lemma generation_step_trans: "generation_step a b \<Longrightarrow> generation_step b c \<Longrightarrow> generation_step a c"
  unfolding generation_step_def by force
lemma ref_step_trans: "ref_step a b \<Longrightarrow> ref_step b c \<Longrightarrow> ref_step a c"
  unfolding ref_step_def by force
lemma execution_step_trans: "execution_step a b \<Longrightarrow> execution_step b c \<Longrightarrow> execution_step a c"
  unfolding execution_step_def by force

subsection \<open>The database\<close>

text \<open>The job that publishes version \<open>v\<close> of a check.\<close>

definition publishes :: "(string \<Rightarrow> string) \<Rightarrow> string \<Rightarrow> int \<Rightarrow> coordinatorJobRecord \<Rightarrow> bool" where
  "publishes b3 key v j \<longleftrightarrow> cjr_DedupeKey j = check_dedupe key v \<and> cjr_ID j = hex_encode (b3 (check_dedupe key v))
     \<and> cjr_Kind j = checkJobKind \<and> MarshalDurablePayload checkJobKind (checkJobPayload_json key v) = Inr (cjr_Payload j)"

definition check_ok :: "(string \<Rightarrow> string) \<Rightarrow> coordinatorJobRecord list \<Rightarrow> desiredCheckRecord \<Rightarrow> bool" where
  "check_ok b3 jobs c \<longleftrightarrow> 1 \<le> dcr_Version c \<and> dcr_PublishedVersion c \<le> dcr_Version c
     \<and> (unpublished c \<longrightarrow> (\<exists>j \<in> set jobs. publishes b3 (dcr_LogicalKey c) (dcr_Version c) j))"

definition landed_receipt :: "landingIntentRecord list \<Rightarrow> landingReceiptRecord \<Rightarrow> bool" where
  "landed_receipt landings c \<longleftrightarrow> (\<exists>l \<in> set landings. lir_ID l = lrr_ReceiptID c \<and> lir_State l = LandingLanded
     \<and> lir_LandedContextCommitID l = lrr_ContextCommitID c)"

definition coordinator_inv :: "(string \<Rightarrow> string) \<Rightarrow> database \<Rightarrow> bool" where
  "coordinator_inv b3 db \<longleftrightarrow>
     table_ok cjr_ID job_ok (db_jobs db) \<and> distinct (map cjr_DedupeKey (db_jobs db))
   \<and> table_ok dcr_LogicalKey (check_ok b3 (db_jobs db)) (db_checks db)
   \<and> table_ok lir_ID (\<lambda>l. 0 \<le> lir_AttemptCount l) (db_landings db)
   \<and> table_ok lrr_ReceiptID (landed_receipt (db_landings db)) (db_receipts db)
   \<and> table_ok gen_key (\<lambda>g. 1 \<le> pgr_Version g) (db_generations db)
   \<and> table_ok record_ref_key (\<lambda>r. 1 \<le> refr_Version r) (db_refs db)
   \<and> table_ok cpr_PlanID (\<lambda>_. True) (db_plans db)
   \<and> table_ok car_Digest (\<lambda>_. True) (db_candidates db)
   \<and> table_ok (\<lambda>d. (wdr_Provider d, wdr_DeliveryID d)) (\<lambda>_. True) (db_deliveries db)
   \<and> table_ok rer_AttemptID (\<lambda>x. 1 \<le> rer_RunnerAttempt x) (db_executions db)
   \<and> distinct (map (\<lambda>x. (rer_ExecutionID x, rer_RunnerAttempt x)) (db_executions db))"

definition evolves :: "database \<Rightarrow> database \<Rightarrow> bool" where
  "evolves db db' \<longleftrightarrow>
     keeps_rows job_step (db_jobs db) (db_jobs db')
   \<and> keeps_rows check_step (db_checks db) (db_checks db')
   \<and> keeps_rows landing_step (db_landings db) (db_landings db')
   \<and> keeps_rows (=) (db_receipts db) (db_receipts db')
   \<and> keeps_rows generation_step (db_generations db) (db_generations db')
   \<and> keeps_rows ref_step (db_refs db) (db_refs db')
   \<and> keeps_rows (=) (db_plans db) (db_plans db')
   \<and> keeps_rows (=) (db_candidates db) (db_candidates db')
   \<and> keeps_rows (=) (db_deliveries db) (db_deliveries db')
   \<and> keeps_rows execution_step (db_executions db) (db_executions db')"

lemma evolves_refl [simp]: "evolves db db"
  by (simp add: evolves_def keeps_rows_refl)

lemma evolves_trans:
  assumes "evolves a b" "evolves b c"
  shows "evolves a c"
  using assms unfolding evolves_def
  by (elim conjE, intro conjI)
    (erule keeps_rows_trans, assumption,
      blast intro: job_step_trans check_step_trans landing_step_trans generation_step_trans ref_step_trans execution_step_trans)+

subsection \<open>Rules\<close>

definition keeps :: "(string \<Rightarrow> string) \<Rightarrow> database \<Rightarrow> 'a tx \<Rightarrow> bool" where
  "keeps b3 db m \<longleftrightarrow> (coordinator_inv b3 db \<longrightarrow>
     (\<forall>db' x. m db = Inr (db', x) \<longrightarrow> coordinator_inv b3 db' \<and> evolves db db'))"

lemma keepsI:
  "(\<And>db' x. coordinator_inv b3 db \<Longrightarrow> m db = Inr (db', x) \<Longrightarrow> coordinator_inv b3 db' \<and> evolves db db') \<Longrightarrow> keeps b3 db m"
  by (simp add: keeps_def)

text \<open>The bodies that do not write.\<close>

lemma keeps_pure:
  "keeps b3 db (tx_return x)" "keeps b3 db (tx_fail e)" "keeps b3 db (tx_read f)" "keeps b3 db (tx_lift s)"
  "keeps b3 db (tx_check ok e)" "keeps b3 db (tx_found row e)" "keeps b3 db databaseTime"
  by (simp_all add: keeps_def databaseTime_def)

lemma keeps_if:
  "(c \<Longrightarrow> keeps b3 db m) \<Longrightarrow> (\<not> c \<Longrightarrow> keeps b3 db n) \<Longrightarrow> keeps b3 db (if c then m else n)"
  by simp

lemma keeps_option:
  "(x = None \<Longrightarrow> keeps b3 db m) \<Longrightarrow> (\<And>y. x = Some y \<Longrightarrow> keeps b3 db (n y))
     \<Longrightarrow> keeps b3 db (case x of None \<Rightarrow> m | Some y \<Rightarrow> n y)"
  by (cases x) simp_all

lemma keeps_sum:
  "(\<And>e. x = Inl e \<Longrightarrow> keeps b3 db (m e)) \<Longrightarrow> (\<And>y. x = Inr y \<Longrightarrow> keeps b3 db (n y))
     \<Longrightarrow> keeps b3 db (case x of Inl e \<Rightarrow> m e | Inr y \<Rightarrow> n y)"
  by (cases x) simp_all

lemma keeps_Let: "keeps b3 db (f x) \<Longrightarrow> keeps b3 db (Let x f)"
  by simp

lemma keeps_prod:
  "(\<And>a b. p = (a, b) \<Longrightarrow> keeps b3 db (f a b)) \<Longrightarrow> keeps b3 db (case p of (a, b) \<Rightarrow> f a b)"
  by (cases p) simp

lemma keeps_bind:
  assumes m: "keeps b3 db m" and f: "\<And>d x. m db = Inr (d, x) \<Longrightarrow> keeps b3 d (f x)"
  shows "keeps b3 db (tx_bind m f)"
proof (rule keepsI)
  fix db' y
  assume inv: "coordinator_inv b3 db" and "tx_bind m f db = Inr (db', y)"
  then obtain d x where run: "m db = Inr (d, x)" "f x d = Inr (db', y)" by (auto simp: tx_bind_Inr)
  from m inv run(1) have "coordinator_inv b3 d" "evolves db d" by (auto simp: keeps_def)
  moreover from this f [OF run(1)] run(2) have "coordinator_inv b3 db'" "evolves d db'" by (auto simp: keeps_def)
  ultimately show "coordinator_inv b3 db' \<and> evolves db db'" by (blast intro: evolves_trans)
qed

text \<open>A bind after a statement that does not write continues in the same database.\<close>

lemma keeps_read_bind: "keeps b3 db (f (g db)) \<Longrightarrow> keeps b3 db (tx_bind (tx_read g) f)"
  by (simp add: keeps_def tx_bind_def tx_read_def)

lemma keeps_time_bind:
  "keeps b3 db (f (time_UTC (db_now db))) \<Longrightarrow> keeps b3 db (tx_bind databaseTime f)"
  unfolding databaseTime_def by (rule keeps_read_bind)

lemma keeps_lift_bind:
  "(\<And>x. s = Inr x \<Longrightarrow> keeps b3 db (f x)) \<Longrightarrow> keeps b3 db (tx_bind (tx_lift s) f)"
  by (auto simp: keeps_def tx_bind_def tx_lift_def split: sum.splits)

lemma keeps_check_bind:
  "(ok \<Longrightarrow> keeps b3 db (f ())) \<Longrightarrow> keeps b3 db (tx_bind (tx_check ok e) f)"
  by (simp add: keeps_def tx_bind_def tx_check_def)

lemma keeps_found_bind:
  "(\<And>r. row = Some r \<Longrightarrow> keeps b3 db (f r)) \<Longrightarrow> keeps b3 db (tx_bind (tx_found row e) f)"
  by (auto simp: keeps_def tx_bind_def tx_found_def split: option.splits)

text \<open>The rules of a body, the specific binds before the general one.\<close>

lemmas keeps_rules = keeps_read_bind keeps_time_bind keeps_lift_bind keeps_check_bind keeps_found_bind keeps_pure
  keeps_if keeps_option keeps_sum keeps_prod keeps_Let keeps_bind

text \<open>An operation runs its body as one transaction, or refuses its input.\<close>

definition op_keeps :: "(string \<Rightarrow> string) \<Rightarrow> database \<Rightarrow> database \<times> 'a \<Rightarrow> bool" where
  "op_keeps b3 db run \<longleftrightarrow> (coordinator_inv b3 db \<longrightarrow> coordinator_inv b3 (fst run) \<and> evolves db (fst run))"

lemma op_keeps_refused: "op_keeps b3 db (db, r)"
  by (simp add: op_keeps_def)

lemma op_keeps_transaction: "keeps b3 db m \<Longrightarrow> op_keeps b3 db (transaction m db)"
  by (auto simp: op_keeps_def keeps_def transaction_def split: sum.split)

lemma op_keeps_if: "(c \<Longrightarrow> op_keeps b3 db p) \<Longrightarrow> (\<not> c \<Longrightarrow> op_keeps b3 db q) \<Longrightarrow> op_keeps b3 db (if c then p else q)"
  by simp

lemma op_keeps_sum:
  "(\<And>e. x = Inl e \<Longrightarrow> op_keeps b3 db (p e)) \<Longrightarrow> (\<And>y. x = Inr y \<Longrightarrow> op_keeps b3 db (q y))
     \<Longrightarrow> op_keeps b3 db (case x of Inl e \<Rightarrow> p e | Inr y \<Rightarrow> q y)"
  by (cases x) simp_all

lemma op_keeps_option:
  "(x = None \<Longrightarrow> op_keeps b3 db p) \<Longrightarrow> (\<And>y. x = Some y \<Longrightarrow> op_keeps b3 db (q y))
     \<Longrightarrow> op_keeps b3 db (case x of None \<Rightarrow> p | Some y \<Rightarrow> q y)"
  by (cases x) simp_all

lemmas op_rules = op_keeps_refused op_keeps_if op_keeps_sum op_keeps_option op_keeps_transaction

text \<open>The statements that write one table.\<close>

lemma check_ok_jobs:
  assumes "keeps_rows job_step jobs jobs'" "check_ok b3 jobs c"
  shows "check_ok b3 jobs' c"
proof -
  have "\<exists>j' \<in> set jobs'. publishes b3 key v j'" if "publishes b3 key v j" "j \<in> set jobs" for key v j
  proof -
    from assms(1) that(2) obtain j' where "j' \<in> set jobs'" "job_step j j'" by (auto simp: keeps_rows_def)
    moreover from this(2) that(1) have "publishes b3 key v j'" by (simp add: publishes_def job_step_def)
    ultimately show ?thesis by blast
  qed
  with assms(2) show ?thesis by (auto simp: check_ok_def)
qed

lemma inv_jobs:
  assumes "coordinator_inv b3 db" "keeps_rows job_step (db_jobs db) jobs"
    and "table_ok cjr_ID job_ok jobs" "distinct (map cjr_DedupeKey jobs)"
  shows "coordinator_inv b3 (db\<lparr>db_jobs := jobs\<rparr>) \<and> evolves db (db\<lparr>db_jobs := jobs\<rparr>)"
proof
  have "table_ok dcr_LogicalKey (check_ok b3 jobs) (db_checks db)"
    using assms(1) by (auto simp: coordinator_inv_def intro: table_ok_mono check_ok_jobs [OF assms(2)])
  then show "coordinator_inv b3 (db\<lparr>db_jobs := jobs\<rparr>)" using assms by (simp add: coordinator_inv_def)
  show "evolves db (db\<lparr>db_jobs := jobs\<rparr>)" using assms(2) by (simp add: evolves_def keeps_rows_refl)
qed

lemma jobs_update_ok:
  assumes ok: "table_ok cjr_ID job_ok jobs" and keys: "distinct (map cjr_DedupeKey jobs)"
    and f: "\<And>r. r \<in> set jobs \<Longrightarrow> P r \<Longrightarrow> job_ok r \<Longrightarrow> job_ok (f r) \<and> job_step r (f r)"
  shows "table_ok cjr_ID job_ok (update_rows P f jobs)" "distinct (map cjr_DedupeKey (update_rows P f jobs))"
    "keeps_rows job_step jobs (update_rows P f jobs)"
proof -
  have step: "job_ok (f r) \<and> job_step r (f r)" if "r \<in> set jobs" "P r" for r
    using f [OF that table_ok_row [OF ok that(1)]] .
  show "table_ok cjr_ID job_ok (update_rows P f jobs)"
    using ok by (rule table_ok_update) (use step in \<open>auto simp: job_step_def\<close>)
  have "map cjr_DedupeKey (update_rows P f jobs) = map cjr_DedupeKey jobs"
    using step by (auto simp: update_rows_def job_step_def)
  then show "distinct (map cjr_DedupeKey (update_rows P f jobs))" using keys by simp
  show "keeps_rows job_step jobs (update_rows P f jobs)" using step by (intro keeps_rows_update) auto
qed

lemma keeps_jobs_update:
  assumes "\<And>r. coordinator_inv b3 db \<Longrightarrow> r \<in> set (db_jobs db) \<Longrightarrow> P r \<Longrightarrow> job_ok r \<Longrightarrow> job_ok (f r) \<and> job_step r (f r)"
  shows "keeps b3 db (tx_update db_jobs_update db_jobs P f)"
proof (rule keepsI)
  fix db' n
  assume inv: "coordinator_inv b3 db" and run: "tx_update db_jobs_update db_jobs P f db = Inr (db', n)"
  then have "table_ok cjr_ID job_ok (db_jobs db)" "distinct (map cjr_DedupeKey (db_jobs db))"
    by (simp_all add: coordinator_inv_def)
  note new = jobs_update_ok [OF this assms [OF inv]]
  have "db' = db\<lparr>db_jobs := update_rows P f (db_jobs db)\<rparr>" using run by simp
  then show "coordinator_inv b3 db' \<and> evolves db db'" using inv_jobs [OF inv new(3,1,2)] by simp
qed

lemma keeps_jobs_insert:
  assumes "\<And>r. \<not> clash r \<Longrightarrow> cjr_ID r \<noteq> cjr_ID x"
    and "\<And>r. r \<in> set (db_jobs db) \<Longrightarrow> cjr_DedupeKey r \<noteq> cjr_DedupeKey x" and "job_ok x"
  shows "keeps b3 db (tx_insert db_jobs_update db_jobs clash x)"
proof (rule keepsI)
  fix db' u
  assume inv: "coordinator_inv b3 db" and "tx_insert db_jobs_update db_jobs clash x db = Inr (db', u)"
  then have run: "\<not> list_ex clash (db_jobs db)" "db' = db\<lparr>db_jobs := db_jobs db @ [x]\<rparr>" by simp_all
  have "cjr_ID x \<notin> cjr_ID ` set (db_jobs db)" "cjr_DedupeKey x \<notin> cjr_DedupeKey ` set (db_jobs db)"
    using run(1) assms(1,2) unfolding list_ex_iff image_iff by metis+
  then have "coordinator_inv b3 (db\<lparr>db_jobs := db_jobs db @ [x]\<rparr>) \<and> evolves db (db\<lparr>db_jobs := db_jobs db @ [x]\<rparr>)"
    using inv assms(3) by (intro inv_jobs) (simp_all add: coordinator_inv_def keeps_rows_append)
  then show "coordinator_inv b3 db' \<and> evolves db db'" by (simp add: run(2))
qed

text \<open>The field update of a statement as the assignment of the new table.\<close>

lemma set_table:
  "db_landings_update g db = db\<lparr>db_landings := g (db_landings db)\<rparr>"
  "db_generations_update g' db = db\<lparr>db_generations := g' (db_generations db)\<rparr>"
  "db_executions_update h db = db\<lparr>db_executions := h (db_executions db)\<rparr>"
  "db_refs_update h' db = db\<lparr>db_refs := h' (db_refs db)\<rparr>"
  "db_plans_update k db = db\<lparr>db_plans := k (db_plans db)\<rparr>"
  "db_candidates_update k' db = db\<lparr>db_candidates := k' (db_candidates db)\<rparr>"
  "db_checks_update l db = db\<lparr>db_checks := l (db_checks db)\<rparr>"
  "db_receipts_update l' db = db\<lparr>db_receipts := l' (db_receipts db)\<rparr>"
  "db_jobs_update m db = db\<lparr>db_jobs := m (db_jobs db)\<rparr>"
  by simp_all

lemma keeps_updateI:
  "(coordinator_inv b3 db \<Longrightarrow> coordinator_inv b3 (upd (update_rows P f) db) \<and> evolves db (upd (update_rows P f) db))
     \<Longrightarrow> keeps b3 db (tx_update upd rows P f)"
  by (rule keepsI) simp

lemma keeps_insertI:
  "(coordinator_inv b3 db \<Longrightarrow> \<forall>r \<in> set (rows db). \<not> clash r
      \<Longrightarrow> coordinator_inv b3 (upd (\<lambda>rs. rs @ [x]) db) \<and> evolves db (upd (\<lambda>rs. rs @ [x]) db))
     \<Longrightarrow> keeps b3 db (tx_insert upd rows clash x)"
  by (rule keepsI) (simp add: list_ex_iff)

text \<open>Landing intents: a receipt stays with the landing it belongs to.\<close>

lemma landed_receipt_step:
  assumes "keeps_rows landing_step ls ls'" "landed_receipt ls c"
  shows "landed_receipt ls' c"
proof -
  from assms(2) obtain l where l: "l \<in> set ls" "lir_ID l = lrr_ReceiptID c" "lir_State l = LandingLanded"
      "lir_LandedContextCommitID l = lrr_ContextCommitID c" by (auto simp: landed_receipt_def)
  from assms(1) l(1) obtain l' where l': "l' \<in> set ls'" "landing_step l l'" by (auto simp: keeps_rows_def)
  then have "lir_State l' = LandingLanded" "lir_ID l' = lir_ID l" "lir_LandedContextCommitID l' = lir_LandedContextCommitID l"
    using l(3) landed_final by (auto simp: landing_step_def)
  with l l'(1) show ?thesis by (auto simp: landed_receipt_def)
qed

lemma inv_landings:
  assumes "coordinator_inv b3 db" "keeps_rows landing_step (db_landings db) ls"
    and "table_ok lir_ID (\<lambda>l. 0 \<le> lir_AttemptCount l) ls"
  shows "coordinator_inv b3 (db\<lparr>db_landings := ls\<rparr>) \<and> evolves db (db\<lparr>db_landings := ls\<rparr>)"
proof
  have "table_ok lrr_ReceiptID (landed_receipt ls) (db_receipts db)"
    using assms(1) by (auto simp: coordinator_inv_def intro: table_ok_mono landed_receipt_step [OF assms(2)])
  then show "coordinator_inv b3 (db\<lparr>db_landings := ls\<rparr>)" using assms by (simp add: coordinator_inv_def)
  show "evolves db (db\<lparr>db_landings := ls\<rparr>)" using assms(2) by (simp add: evolves_def keeps_rows_refl)
qed

lemma keeps_landings_update:
  assumes "\<And>l. coordinator_inv b3 db \<Longrightarrow> l \<in> set (db_landings db) \<Longrightarrow> P l \<Longrightarrow> 0 \<le> lir_AttemptCount l \<Longrightarrow> landing_step l (f l)"
  shows "keeps b3 db (tx_update db_landings_update db_landings P f)"
proof (rule keeps_updateI)
  assume inv: "coordinator_inv b3 db"
  let ?ls = "update_rows P f (db_landings db)"
  have ok: "table_ok lir_ID (\<lambda>l. 0 \<le> lir_AttemptCount l) (db_landings db)" using inv by (simp add: coordinator_inv_def)
  have step: "landing_step l (f l)" if "l \<in> set (db_landings db)" "P l" for l
    using assms [OF inv that table_ok_row [OF ok that(1)]] .
  have "table_ok lir_ID (\<lambda>l. 0 \<le> lir_AttemptCount l) ?ls"
    using ok by (rule table_ok_update) (use step table_ok_row [OF ok] in \<open>fastforce simp: landing_step_def\<close>)
  moreover have "keeps_rows landing_step (db_landings db) ?ls" using step by (intro keeps_rows_update) auto
  ultimately have "coordinator_inv b3 (db\<lparr>db_landings := ?ls\<rparr>) \<and> evolves db (db\<lparr>db_landings := ?ls\<rparr>)"
    using inv inv_landings by blast
  then show "coordinator_inv b3 (db_landings_update (update_rows P f) db)
      \<and> evolves db (db_landings_update (update_rows P f) db)" unfolding set_table(1) [of "update_rows P f"] .
qed

lemma keeps_landings_insert:
  assumes "\<And>r. \<not> clash r \<Longrightarrow> lir_ID r \<noteq> lir_ID x" "0 \<le> lir_AttemptCount x"
  shows "keeps b3 db (tx_insert db_landings_update db_landings clash x)"
proof (rule keeps_insertI)
  assume inv: "coordinator_inv b3 db" and "\<forall>r \<in> set (db_landings db). \<not> clash r"
  then have "lir_ID x \<notin> lir_ID ` set (db_landings db)" using assms(1) unfolding image_iff by metis
  then have "coordinator_inv b3 (db\<lparr>db_landings := db_landings db @ [x]\<rparr>) \<and> evolves db (db\<lparr>db_landings := db_landings db @ [x]\<rparr>)"
    using inv assms(2) by (intro inv_landings) (simp_all add: coordinator_inv_def keeps_rows_append)
  then show "coordinator_inv b3 (db_landings_update (\<lambda>rs. rs @ [x]) db) \<and> evolves db (db_landings_update (\<lambda>rs. rs @ [x]) db)"
    unfolding set_table(1) [of "\<lambda>rs. rs @ [x]"] .
qed

text \<open>The other tables stand alone.\<close>

lemma inv_generations:
  "coordinator_inv b3 db \<Longrightarrow> keeps_rows generation_step (db_generations db) gs \<Longrightarrow> table_ok gen_key (\<lambda>g. 1 \<le> pgr_Version g) gs
     \<Longrightarrow> coordinator_inv b3 (db\<lparr>db_generations := gs\<rparr>) \<and> evolves db (db\<lparr>db_generations := gs\<rparr>)"
  by (simp add: coordinator_inv_def evolves_def keeps_rows_refl)

lemma inv_refs:
  "coordinator_inv b3 db \<Longrightarrow> keeps_rows ref_step (db_refs db) rs \<Longrightarrow> table_ok record_ref_key (\<lambda>r. 1 \<le> refr_Version r) rs
     \<Longrightarrow> coordinator_inv b3 (db\<lparr>db_refs := rs\<rparr>) \<and> evolves db (db\<lparr>db_refs := rs\<rparr>)"
  by (simp add: coordinator_inv_def evolves_def keeps_rows_refl)

lemma inv_executions:
  "coordinator_inv b3 db \<Longrightarrow> keeps_rows execution_step (db_executions db) xs
     \<Longrightarrow> table_ok rer_AttemptID (\<lambda>x. 1 \<le> rer_RunnerAttempt x) xs
     \<Longrightarrow> distinct (map (\<lambda>x. (rer_ExecutionID x, rer_RunnerAttempt x)) xs)
     \<Longrightarrow> coordinator_inv b3 (db\<lparr>db_executions := xs\<rparr>) \<and> evolves db (db\<lparr>db_executions := xs\<rparr>)"
  by (simp add: coordinator_inv_def evolves_def keeps_rows_refl)

lemma inv_append:
  "coordinator_inv b3 db \<Longrightarrow> cpr_PlanID p \<notin> cpr_PlanID ` set (db_plans db)
     \<Longrightarrow> coordinator_inv b3 (db\<lparr>db_plans := db_plans db @ [p]\<rparr>) \<and> evolves db (db\<lparr>db_plans := db_plans db @ [p]\<rparr>)"
  "coordinator_inv b3 db \<Longrightarrow> car_Digest c \<notin> car_Digest ` set (db_candidates db)
     \<Longrightarrow> coordinator_inv b3 (db\<lparr>db_candidates := db_candidates db @ [c]\<rparr>) \<and> evolves db (db\<lparr>db_candidates := db_candidates db @ [c]\<rparr>)"
  "coordinator_inv b3 db \<Longrightarrow> (wdr_Provider d, wdr_DeliveryID d) \<notin> (\<lambda>d. (wdr_Provider d, wdr_DeliveryID d)) ` set (db_deliveries db)
     \<Longrightarrow> coordinator_inv b3 (db\<lparr>db_deliveries := db_deliveries db @ [d]\<rparr>) \<and> evolves db (db\<lparr>db_deliveries := db_deliveries db @ [d]\<rparr>)"
  by (simp_all add: coordinator_inv_def evolves_def keeps_rows_refl keeps_rows_append)

lemma keeps_generations_update:
  assumes "\<And>g. g \<in> set (db_generations db) \<Longrightarrow> P g \<Longrightarrow> generation_step g (f g)"
  shows "keeps b3 db (tx_update db_generations_update db_generations P f)"
proof (rule keeps_updateI)
  assume inv: "coordinator_inv b3 db"
  then have ok: "table_ok gen_key (\<lambda>g. 1 \<le> pgr_Version g) (db_generations db)" by (simp add: coordinator_inv_def)
  then have "table_ok gen_key (\<lambda>g. 1 \<le> pgr_Version g) (update_rows P f (db_generations db))"
    by (rule table_ok_update) (use assms table_ok_row [OF ok] in \<open>fastforce simp: generation_step_def\<close>)
  with inv assms show "coordinator_inv b3 (db_generations_update (update_rows P f) db)
      \<and> evolves db (db_generations_update (update_rows P f) db)"
    using inv_generations [OF inv, of "update_rows P f (db_generations db)"]
    unfolding set_table(2) [of "update_rows P f"] by (simp add: keeps_rows_update)
qed

lemma keeps_executions_update:
  assumes "\<And>x. x \<in> set (db_executions db) \<Longrightarrow> P x \<Longrightarrow> execution_step x (f x)"
  shows "keeps b3 db (tx_update db_executions_update db_executions P f)"
proof (rule keeps_updateI)
  assume inv: "coordinator_inv b3 db"
  let ?xs = "update_rows P f (db_executions db)"
  have ok: "table_ok rer_AttemptID (\<lambda>x. 1 \<le> rer_RunnerAttempt x) (db_executions db)" using inv by (simp add: coordinator_inv_def)
  then have "table_ok rer_AttemptID (\<lambda>x. 1 \<le> rer_RunnerAttempt x) ?xs"
    by (rule table_ok_update) (use assms table_ok_row [OF ok] in \<open>fastforce simp: execution_step_def\<close>)
  moreover have "map (\<lambda>x. (rer_ExecutionID x, rer_RunnerAttempt x)) ?xs
      = map (\<lambda>x. (rer_ExecutionID x, rer_RunnerAttempt x)) (db_executions db)"
    using assms by (auto simp: update_rows_def execution_step_def)
  moreover have "distinct (map (\<lambda>x. (rer_ExecutionID x, rer_RunnerAttempt x)) (db_executions db))"
    using inv by (simp add: coordinator_inv_def)
  moreover have "keeps_rows execution_step (db_executions db) ?xs" using assms by (intro keeps_rows_update) auto
  ultimately show "coordinator_inv b3 (db_executions_update (update_rows P f) db)
      \<and> evolves db (db_executions_update (update_rows P f) db)"
    using inv_executions [OF inv, of ?xs] unfolding set_table(3) [of "update_rows P f"] by simp
qed

lemma keeps_executions_insert:
  assumes "1 \<le> rer_RunnerAttempt x"
  shows "keeps b3 db (tx_insert db_executions_update db_executions (attempt_clash x) x)"
proof (rule keeps_insertI)
  assume inv: "coordinator_inv b3 db" and "\<forall>r \<in> set (db_executions db). \<not> attempt_clash x r"
  then have "rer_AttemptID x \<notin> rer_AttemptID ` set (db_executions db)"
    "(rer_ExecutionID x, rer_RunnerAttempt x) \<notin> (\<lambda>x. (rer_ExecutionID x, rer_RunnerAttempt x)) ` set (db_executions db)"
    by (fastforce simp: attempt_clash_def)+
  then show "coordinator_inv b3 (db_executions_update (\<lambda>rs. rs @ [x]) db) \<and> evolves db (db_executions_update (\<lambda>rs. rs @ [x]) db)"
    using inv assms unfolding set_table(3) [of "\<lambda>rs. rs @ [x]"]
    by (intro inv_executions) (simp_all add: keeps_rows_append coordinator_inv_def)
qed

end
