(* ===== verification/Coordinator_Lease.thy ===== *)
theory Coordinator_Lease
  imports Coordinator_Db
begin

text \<open>
  The heartbeat of a single durable coordinator (remote/server/coordinator_heartbeat.go): one row
  per slot, replaced only after it has expired.  The random session token is an argument.
\<close>

record CoordinatorIdentity =
  cid_InstanceID :: string
  cid_DisplayName :: string

record CoordinatorLease =
  lease_Slot :: string
  lease_InstanceID :: string
  lease_Token :: string

definition durable_single :: string where
  "durable_single = ''durable_single''"

definition AcquireCoordinator :: "string \<Rightarrow> CoordinatorIdentity \<Rightarrow> int \<Rightarrow> database \<Rightarrow> database \<times> CoordinatorLease result" where
  "AcquireCoordinator token identity ttl db =
     (if TrimSpace (cid_InstanceID identity) = [] \<or> TrimSpace (cid_DisplayName identity) = [] \<or> ttl \<le> 0
      then (db, Inl CodeValidation)
      else transaction
        (tx_bind databaseTime (\<lambda>now.
         tx_bind (\<lambda>db. Inr (db\<lparr>db_heartbeats := filter (\<lambda>r. \<not> not_after (chr_ExpiresAt r) now) (db_heartbeats db)\<rparr>, ())) (\<lambda>_.
         tx_bind (tx_read (\<lambda>db. take_row (\<lambda>r. chr_Slot r = durable_single) (db_heartbeats db))) (\<lambda>active.
         case active of
           Some _ \<Rightarrow> tx_fail CodeBusy
         | None \<Rightarrow> (\<lambda>db.
             if list_ex (\<lambda>r. chr_Slot r = durable_single \<or> chr_InstanceID r = cid_InstanceID identity) (db_heartbeats db)
             then Inl CodeBusy
             else Inr (db\<lparr>db_heartbeats := db_heartbeats db @
                 [\<lparr>chr_Slot = durable_single, chr_InstanceID = cid_InstanceID identity,
                   chr_DisplayName = cid_DisplayName identity, chr_SessionToken = token, chr_Mode = durable_single,
                   chr_ExpiresAt = time_Add now ttl, chr_UpdatedAt = now\<rparr>]\<rparr>,
               \<lparr>lease_Slot = durable_single, lease_InstanceID = cid_InstanceID identity, lease_Token = token\<rparr>)))))) db)"

definition lease_row :: "CoordinatorLease \<Rightarrow> coordinatorHeartbeatRecord \<Rightarrow> bool" where
  "lease_row l r \<longleftrightarrow> chr_Slot r = lease_Slot l \<and> chr_InstanceID r = lease_InstanceID l \<and> chr_SessionToken r = lease_Token l"

definition lease_incomplete :: "CoordinatorLease \<Rightarrow> bool" where
  "lease_incomplete l \<longleftrightarrow> TrimSpace (lease_Slot l) = [] \<or> TrimSpace (lease_InstanceID l) = [] \<or> TrimSpace (lease_Token l) = []"

definition RefreshCoordinator :: "CoordinatorLease \<Rightarrow> int \<Rightarrow> database \<Rightarrow> database \<times> unit result" where
  "RefreshCoordinator l ttl db =
     (if lease_incomplete l \<or> ttl \<le> 0 then (db, Inl CodeValidation)
      else transaction
        (tx_bind databaseTime (\<lambda>now.
         tx_bind (tx_update db_heartbeats_update db_heartbeats (\<lambda>r. lease_row l r \<and> \<not> not_after (chr_ExpiresAt r) now)
             (\<lambda>r. r\<lparr>chr_ExpiresAt := time_Add now ttl, chr_UpdatedAt := now\<rparr>)) (\<lambda>n.
         tx_check (n = 1) CodeBusy))) db)"

definition ReleaseCoordinator :: "CoordinatorLease \<Rightarrow> database \<Rightarrow> database \<times> unit result" where
  "ReleaseCoordinator l db =
     (if lease_incomplete l then (db, Inl CodeValidation)
      else (db\<lparr>db_heartbeats := filter (\<lambda>r. \<not> lease_row l r) (db_heartbeats db)\<rparr>, Inr ()))"

end
