(* ===== verification/Coordinator_Invariants.thy ===== *)
theory Coordinator_Invariants
  imports Coordinator_Logic Coordinator_Lease
begin

text \<open>
  Every operation of the coordinator keeps the invariant and evolves the database: the bodies of
  the transactions one after the other, then the step relation of the whole store and the
  databases it reaches.
\<close>

subsection \<open>Jobs\<close>

text \<open>A job as every constructor of the program builds it.\<close>

definition fresh_job :: "CoordinatorJob \<Rightarrow> bool" where
  "fresh_job j \<longleftrightarrow> job_Attempts j = 0 \<and> job_FencingToken j = 0"

lemma keeps_enqueue:
  assumes "fresh_job j"
  shows "keeps b3 db (enqueueJobTx j)"
  unfolding enqueueJobTx_def
by (intro keeps_rules keeps_jobs_insert)
    (use assms in \<open>auto simp: take_row_None coordinatorJobRecordFrom_def fresh_job_def validateCoordinatorJob_def
       job_ok_def go_defs split: if_splits\<close>)

text \<open>The claim operations take the job out of the running state.\<close>

lemma keeps_update_claimed:
  assumes "\<And>r. job_ok r \<Longrightarrow> cjr_State r = CoordinatorJobRunning \<Longrightarrow> job_ok (f r) \<and> job_step r (f r)"
  shows "keeps b3 db (tx_update_claimed c f)"
  unfolding tx_update_claimed_def
  by (intro keeps_rules keeps_jobs_update) (simp_all add: assms claimed_by_def)

lemma keeps_complete: "keeps b3 db (completeClaimTx c payload)"
  unfolding completeClaimTx_def
  by (intro keeps_rules keeps_update_claimed) (simp add: release_lease_def job_ok_def job_step_def go_defs)

lemma keeps_active: "keeps b3 db (validateActiveClaimTx c)"
  unfolding validateActiveClaimTx_def by (intro keeps_rules)

lemma keeps_fail: "keeps b3 db (failClaimTx c)"
  unfolding failClaimTx_def
  by (intro keeps_rules keeps_update_claimed) (simp add: release_lease_def job_ok_def job_step_def go_defs)

subsection \<open>Checks\<close>

text \<open>What a body that only works on the job table does to it, and the job it leaves there.\<close>

definition jobs_extended :: "database \<Rightarrow> database \<Rightarrow> (coordinatorJobRecord \<Rightarrow> bool) \<Rightarrow> bool" where
  "jobs_extended db db' P \<longleftrightarrow> (\<exists>jobs. db' = db\<lparr>db_jobs := jobs\<rparr> \<and> table_ok cjr_ID job_ok jobs
     \<and> distinct (map cjr_DedupeKey jobs) \<and> keeps_rows job_step (db_jobs db) jobs \<and> (\<exists>j \<in> set jobs. P j))"

definition job_tables_ok :: "database \<Rightarrow> bool" where
  "job_tables_ok db \<longleftrightarrow> table_ok cjr_ID job_ok (db_jobs db) \<and> distinct (map cjr_DedupeKey (db_jobs db))"

definition stored_job :: "CoordinatorJob \<Rightarrow> coordinatorJobRecord \<Rightarrow> bool" where
  "stored_job j r \<longleftrightarrow> cjr_ID r = job_ID j \<and> cjr_DedupeKey r = job_DedupeKey j \<and> cjr_Kind r = job_Kind j
     \<and> cjr_Payload r = job_Payload j"

lemma jobs_extended_same:
  "job_tables_ok db \<Longrightarrow> r \<in> set (db_jobs db) \<Longrightarrow> P r \<Longrightarrow> jobs_extended db db P"
  unfolding jobs_extended_def by (rule exI [of _ "db_jobs db"]) (auto simp: job_tables_ok_def keeps_rows_refl)

lemma enqueue_run:
  assumes "enqueueJobTx j db = Inr (db', b)" "fresh_job j" "job_tables_ok db"
  shows "jobs_extended db db' (\<lambda>r. stored_job j r
    \<and> (take_row (\<lambda>r. cjr_DedupeKey r = job_DedupeKey j) (db_jobs db) = None \<longrightarrow> cjr_State r = CoordinatorJobPending))"
proof (cases "take_row (\<lambda>r. cjr_DedupeKey r = job_DedupeKey j) (db_jobs db)")
  case None
  from assms(1) None have valid: "validateCoordinatorJob j = Inr ()"
    and fresh: "\<forall>r \<in> set (db_jobs db). cjr_ID r \<noteq> job_ID j"
    and state: "job_State j = CoordinatorJobPending"
    and db': "db' = db\<lparr>db_jobs := db_jobs db @ [coordinatorJobRecordFrom j]\<rparr>"
    by (auto simp: enqueueJobTx_def tx_bind_Inr list_ex_iff validateCoordinatorJob_def split: if_splits)
  have "job_ok (coordinatorJobRecordFrom j)"
    using valid assms(2) by (auto simp: coordinatorJobRecordFrom_def fresh_job_def validateCoordinatorJob_def job_ok_def go_defs
        split: if_splits)
  then show ?thesis
    using assms(3) fresh None state unfolding jobs_extended_def db'
    by (intro exI [of _ "db_jobs db @ [coordinatorJobRecordFrom j]"])
      (auto simp: job_tables_ok_def take_row_None keeps_rows_append stored_job_def coordinatorJobRecordFrom_def image_iff)
next
  case (Some r)
  with take_row_Some [OF Some] assms(1) have r: "db' = db" "stored_job j r" "r \<in> set (db_jobs db)"
    by (auto simp: enqueueJobTx_def tx_bind_Inr stored_job_def split: if_splits)
  show ?thesis unfolding r(1) using assms(3) r(2,3) Some by (intro jobs_extended_same [of _ r]) simp_all
qed


lemma jobs_extended_mono: "jobs_extended db db' P \<Longrightarrow> (\<And>r. P r \<Longrightarrow> Q r) \<Longrightarrow> jobs_extended db db' Q"
  unfolding jobs_extended_def by blast

lemma newCheckJob_run:
  assumes "newCheckJob b3 d now n = Inr j"
  shows "fresh_job j" "stored_job j r \<Longrightarrow> publishes b3 (chk_LogicalKey d) (chk_Version d) r"
    "job_DedupeKey j = check_dedupe (chk_LogicalKey d) (chk_Version d)"
  using assms by (auto simp: newCheckJob_def Let_def fresh_job_def stored_job_def publishes_def)

lemma persist_existing_run:
  assumes "persistExistingDesiredCheckTx b3 d now db = Inr (db', u)" "job_tables_ok db"
  shows "jobs_extended db db' (publishes b3 (chk_LogicalKey d) (chk_Version d))"
proof -
  from assms(1) obtain j b where j: "newCheckJob b3 d now 5 = Inr j" and "enqueueJobTx j db = Inr (db', b)"
    by (auto simp: persistExistingDesiredCheckTx_def tx_bind_Inr)
  from enqueue_run [OF this(2) newCheckJob_run(1) [OF j] assms(2)] show ?thesis
    by (rule jobs_extended_mono) (use newCheckJob_run(2) [OF j] in blast)
qed

text \<open>After \<open>ensureCheckJobTx\<close> the job of the version exists, and with \<open>rearmTerminal\<close> it is not over.\<close>

definition pending_publication :: "(string \<Rightarrow> string) \<Rightarrow> string \<Rightarrow> int \<Rightarrow> bool \<Rightarrow> coordinatorJobRecord \<Rightarrow> bool" where
  "pending_publication b3 key v rearm j \<longleftrightarrow> publishes b3 key v j \<and> (rearm \<longrightarrow> \<not> job_over (cjr_State j))"

lemma ensure_run:
  assumes "ensureCheckJobTx b3 d now rearm db = Inr (db', b)" "job_tables_ok db"
  shows "jobs_extended db db' (pending_publication b3 (chk_LogicalKey d) (chk_Version d) rearm)"
proof -
  from assms(1) obtain j where j: "newCheckJob b3 d now 5 = Inr j"
    by (auto simp: ensureCheckJobTx_def tx_bind_Inr)
  show ?thesis
  proof (cases "take_row (\<lambda>r. cjr_DedupeKey r = job_DedupeKey j) (db_jobs db)")
    case None
    then have "enqueueJobTx j db = Inr (db', b)" using assms(1) j by (auto simp: ensureCheckJobTx_def tx_bind_Inr)
    from enqueue_run [OF this newCheckJob_run(1) [OF j] assms(2)] None show ?thesis
      by (elim jobs_extended_mono)
        (use newCheckJob_run(2) [OF j] in \<open>simp add: pending_publication_def job_over_def go_defs\<close>)
  next
    case (Some r)
    from take_row_Some [OF Some] have r: "r \<in> set (db_jobs db)" "cjr_DedupeKey r = job_DedupeKey j" by simp_all
    with assms(1) j Some have stored: "stored_job j r"
      by (auto simp: ensureCheckJobTx_def tx_bind_Inr stored_job_def split: if_splits)
    then have pub: "publishes b3 (chk_LogicalKey d) (chk_Version d) r" by (rule newCheckJob_run(2) [OF j])
    show ?thesis
    proof (cases "\<not> rearm \<or> \<not> job_over (cjr_State r)")
      case True
      then have "db' = db" using assms(1) j Some stored
        by (auto simp: ensureCheckJobTx_def tx_bind_Inr stored_job_def split: if_splits)
      then show ?thesis using True pub r(1) assms(2)
        by (auto intro!: jobs_extended_same [of _ r] simp: pending_publication_def)
    next
      case False
      let ?P = "\<lambda>x. cjr_ID x = cjr_ID r \<and> cjr_State x = cjr_State r \<and> cjr_FencingToken x = cjr_FencingToken r"
      let ?f = "\<lambda>x. release_lease (x\<lparr>cjr_State := CoordinatorJobRetryable, cjr_Attempts := 0,
          cjr_NextAttemptAt := time_UTC now, cjr_FailureCode := CodeNone, cjr_Result := []\<rparr>)"
      let ?jobs = "update_rows ?P ?f (db_jobs db)"
      have "ensureCheckJobTx b3 d now rearm db = Inr (db_jobs_update (update_rows ?P ?f) db, rows_affected ?P (db_jobs db) = 1)"
        using False stored
        by (simp add: ensureCheckJobTx_def tx_bind_def tx_lift_def tx_read_def tx_update_def tx_return_def j Some stored_job_def)
      with assms(1) have "db' = db_jobs_update (update_rows ?P ?f) db" by simp
      then have db': "db' = db\<lparr>db_jobs := ?jobs\<rparr>" unfolding set_table(9) [of "update_rows ?P ?f"] .
      have "job_ok (?f x) \<and> job_step x (?f x)" if "job_ok x" for x
        using that by (simp add: release_lease_def job_ok_def job_step_def go_defs)
      then have "table_ok cjr_ID job_ok ?jobs" "distinct (map cjr_DedupeKey ?jobs)" "keeps_rows job_step (db_jobs db) ?jobs"
        using assms(2) jobs_update_ok [of "db_jobs db" ?P ?f] unfolding job_tables_ok_def by blast+
      moreover have "?f r \<in> set ?jobs" using r(1) by (force simp: update_rows_set)
      moreover have "pending_publication b3 (chk_LogicalKey d) (chk_Version d) rearm (?f r)"
        using pub by (simp add: pending_publication_def publishes_def release_lease_def job_over_def go_defs)
      ultimately show ?thesis unfolding jobs_extended_def db' by blast
    qed
  qed
qed

lemma inv_checks_jobs:
  assumes "coordinator_inv b3 db" "keeps_rows check_step (db_checks db) cs" "keeps_rows job_step (db_jobs db) jobs"
    and "table_ok cjr_ID job_ok jobs" "distinct (map cjr_DedupeKey jobs)" "table_ok dcr_LogicalKey (check_ok b3 jobs) cs"
  shows "coordinator_inv b3 (db\<lparr>db_checks := cs, db_jobs := jobs\<rparr>) \<and> evolves db (db\<lparr>db_checks := cs, db_jobs := jobs\<rparr>)"
  using assms by (simp add: coordinator_inv_def evolves_def keeps_rows_refl)

text \<open>
  A new version of a check together with its job keeps the invariant, which between the two
  statements does not hold.
\<close>

lemma inv_new_version:
  assumes inv: "coordinator_inv b3 db" and db1: "db1 = db\<lparr>db_checks := cs\<rparr>"
    and keeps: "keeps_rows check_step (db_checks db) cs" and keys: "distinct (map dcr_LogicalKey cs)"
    and rows: "\<And>c. c \<in> set cs \<Longrightarrow> c \<in> set (db_checks db) \<or>
        dcr_LogicalKey c = key \<and> dcr_Version c = v \<and> 1 \<le> v \<and> dcr_PublishedVersion c \<le> v"
    and jobs: "jobs_extended db1 db2 (publishes b3 key v)"
  shows "coordinator_inv b3 db2 \<and> evolves db db2"
proof -
  from jobs obtain js j where js: "db2 = db1\<lparr>db_jobs := js\<rparr>" "table_ok cjr_ID job_ok js" "distinct (map cjr_DedupeKey js)"
      "keeps_rows job_step (db_jobs db) js" "j \<in> set js" "publishes b3 key v j"
    unfolding jobs_extended_def db1 by auto
  have "check_ok b3 js c" if c: "c \<in> set cs" for c
  proof (cases "c \<in> set (db_checks db)")
    case True
    then have "check_ok b3 (db_jobs db) c" using inv by (simp add: coordinator_inv_def table_ok_def)
    then show ?thesis by (rule check_ok_jobs [OF js(4)])
  next
    case False
    with rows [OF c] js(5,6) show ?thesis by (auto simp: check_ok_def)
  qed
  then have "table_ok dcr_LogicalKey (check_ok b3 js) cs" using keys by (simp add: table_ok_def)
  from inv_checks_jobs [OF inv keeps js(4,2,3) this] show ?thesis by (simp add: js(1) db1)
qed

lemma job_tables: "coordinator_inv b3 db \<Longrightarrow> job_tables_ok db"
  by (simp add: coordinator_inv_def job_tables_ok_def)

text \<open>A check as every constructor of the program builds it.\<close>

definition fresh_check :: "DesiredCheck \<Rightarrow> bool" where
  "fresh_check d \<longleftrightarrow> chk_PublishedVersion d = 0"

lemma upsert_run:
  assumes "upsertDesiredCheckTx d db = Inr (db1, (s, changed))" "coordinator_inv b3 db" "fresh_check d"
  shows "\<not> changed \<and> db1 = db \<or>
    (\<exists>cs. changed \<and> db1 = db\<lparr>db_checks := cs\<rparr> \<and> keeps_rows check_step (db_checks db) cs
       \<and> distinct (map dcr_LogicalKey cs) \<and> (\<forall>c \<in> set cs. c \<in> set (db_checks db) \<or>
          dcr_LogicalKey c = chk_LogicalKey s \<and> dcr_Version c = chk_Version s \<and> 1 \<le> chk_Version s
            \<and> dcr_PublishedVersion c \<le> chk_Version s))"
proof (cases "take_row (\<lambda>r. dcr_LogicalKey r = chk_LogicalKey d) (db_checks db)")
  case None
  then have run: "changed" "s = d\<lparr>chk_Version := 1\<rparr>"
    "db1 = db\<lparr>db_checks := db_checks db @ [desiredCheckRecordFrom (d\<lparr>chk_Version := 1\<rparr>)]\<rparr>"
    using assms(1) by (auto simp: upsertDesiredCheckTx_def tx_bind_Inr Let_def)
  show ?thesis
    unfolding run(3) using run(1,2) assms(2,3) None
    by (intro disjI2 exI [of _ "db_checks db @ [desiredCheckRecordFrom (d\<lparr>chk_Version := 1\<rparr>)]"])
      (auto simp: keeps_rows_append coordinator_inv_def table_ok_def take_row_None desiredCheckRecordFrom_def fresh_check_def)
next
  case (Some r)
  show ?thesis
  proof (cases changed)
    case False
    then show ?thesis using assms(1) Some by (auto simp: upsertDesiredCheckTx_def tx_bind_Inr Let_def split: if_splits)
  next
    case True
    from take_row_Some [OF Some] have r: "r \<in> set (db_checks db)" "dcr_LogicalKey r = chk_LogicalKey d" by simp_all
    let ?P = "\<lambda>x. dcr_LogicalKey x = chk_LogicalKey d \<and> dcr_Version x = dcr_Version r"
    let ?f = "\<lambda>x. x\<lparr>dcr_State := chk_State d, dcr_Summary := chk_Summary d, dcr_PlanURL := chk_PlanURL d,
        dcr_Version := dcr_Version r + 1, dcr_UpdatedAt := time_UTC (chk_UpdatedAt d)\<rparr>"
    let ?cs = "update_rows ?P ?f (db_checks db)"
    from assms(1) Some True have s: "chk_LogicalKey s = chk_LogicalKey d" "chk_Version s = dcr_Version r + 1"
      and "db1 = db_checks_update (update_rows ?P ?f) db"
      by (auto simp: upsertDesiredCheckTx_def tx_bind_Inr Let_def desiredCheckFrom_def split: if_splits)
    then have db1: "db1 = db\<lparr>db_checks := ?cs\<rparr>" unfolding set_table(7) [of "update_rows ?P ?f"] by simp
    have ok: "table_ok dcr_LogicalKey (check_ok b3 (db_jobs db)) (db_checks db)" using assms(2) by (simp add: coordinator_inv_def)
    have "map dcr_LogicalKey ?cs = map dcr_LogicalKey (db_checks db)" by (auto simp: update_rows_def)
    then have "distinct (map dcr_LogicalKey ?cs)" using ok by (simp add: table_ok_def)
    moreover have "keeps_rows check_step (db_checks db) ?cs" by (intro keeps_rows_update) (simp_all add: check_step_def)
    moreover have "c \<in> set (db_checks db) \<or> dcr_LogicalKey c = chk_LogicalKey s \<and> dcr_Version c = chk_Version s
        \<and> 1 \<le> chk_Version s \<and> dcr_PublishedVersion c \<le> chk_Version s" if "c \<in> set ?cs" for c
    proof -
      from that consider "c \<in> set (db_checks db)" | x where "x \<in> set (db_checks db)" "?P x" "c = ?f x"
        by (auto simp: update_rows_set)
      then show ?thesis
      proof cases
        case 2
        then have "check_ok b3 (db_jobs db) x" using table_ok_row [OF ok] by simp
        then show ?thesis using 2 s by (simp add: check_ok_def)
      qed simp
    qed
    ultimately show ?thesis using True db1 by blast
  qed
qed

lemma keeps_upsert:
  assumes fresh: "fresh_check d"
    and same: "\<And>s d' db' x. rest (s, False) d' = Inr (db', x) \<Longrightarrow> db' = d'"
    and new: "\<And>s db1 db2 x. rest (s, True) db1 = Inr (db2, x) \<Longrightarrow> \<exists>u. persistExistingDesiredCheckTx b3 s t db1 = Inr (db2, u)"
  shows "keeps b3 db (tx_bind (upsertDesiredCheckTx d) rest)"
proof (rule keepsI)
  fix db' x
  assume inv: "coordinator_inv b3 db" and "tx_bind (upsertDesiredCheckTx d) rest db = Inr (db', x)"
  then obtain db1 s changed where up: "upsertDesiredCheckTx d db = Inr (db1, (s, changed))"
    and rest: "rest (s, changed) db1 = Inr (db', x)" by (auto simp: tx_bind_Inr)
  show "coordinator_inv b3 db' \<and> evolves db db'"
    using upsert_run [OF up inv fresh]
  proof (elim disjE exE conjE)
    assume "\<not> changed" "db1 = db"
    with rest same have "db' = db" by simp
    with inv show ?thesis by simp
  next
    fix cs
    assume changed: changed and db1: "db1 = db\<lparr>db_checks := cs\<rparr>" and keeps: "keeps_rows check_step (db_checks db) cs"
      and keys: "distinct (map dcr_LogicalKey cs)" and rows: "\<forall>c \<in> set cs. c \<in> set (db_checks db) \<or>
          dcr_LogicalKey c = chk_LogicalKey s \<and> dcr_Version c = chk_Version s \<and> 1 \<le> chk_Version s
            \<and> dcr_PublishedVersion c \<le> chk_Version s"
    from rest changed new obtain u where "persistExistingDesiredCheckTx b3 s t db1 = Inr (db', u)" by auto
    moreover have "job_tables_ok db1" using inv by (simp add: db1 coordinator_inv_def job_tables_ok_def)
    ultimately have "jobs_extended db1 db' (publishes b3 (chk_LogicalKey s) (chk_Version s))" by (rule persist_existing_run)
    from inv_new_version [OF inv db1 keeps keys _ this] rows show ?thesis by blast
  qed
qed

lemma keeps_persist: "fresh_check d \<Longrightarrow> keeps b3 db (persistDesiredCheckTx b3 d)"
  unfolding persistDesiredCheckTx_def by (rule keeps_upsert [where t = "chk_UpdatedAt d"]) auto

lemma keeps_schedule_work: "fresh_job j \<Longrightarrow> fresh_check d \<Longrightarrow> keeps b3 db (schedule_work b3 j d)"
  unfolding schedule_work_def
  by (intro keeps_bind keeps_enqueue keeps_upsert [where t = "chk_UpdatedAt d"]) (auto simp: tx_bind_Inr)

lemma SetDesiredCheck_keeps: "fresh_check d \<Longrightarrow> op_keeps b3 db (SetDesiredCheck b3 d db)"
  unfolding SetDesiredCheck_def
  by (intro op_rules keeps_upsert [where t = "chk_UpdatedAt d"]) (auto simp: tx_bind_Inr)

lemma keeps_supersede:
  assumes "r \<in> set (db_checks db)"
  shows "keeps b3 db (supersede_check b3 c r payload)"
proof (rule keepsI)
  fix db' x
  assume inv: "coordinator_inv b3 db" and run: "supersede_check b3 c r payload db = Inr (db', x)"
  let ?dirty = "min (dcr_PublishedVersion r) (dcr_Version r - 1)"
  let ?P = "\<lambda>x. dcr_LogicalKey x = dcr_LogicalKey r \<and> dcr_Version x = dcr_Version r"
  let ?f = "\<lambda>x. x\<lparr>dcr_PublishedVersion := ?dirty\<rparr>"
  let ?cs = "update_rows ?P ?f (db_checks db)"
  from run obtain db1 db2 b where db1: "db1 = db_checks_update (update_rows ?P ?f) db"
    and ensure: "ensureCheckJobTx b3 (desiredCheckFrom (r\<lparr>dcr_PublishedVersion := ?dirty\<rparr>)) (time_UTC (db_now db1)) True db1 = Inr (db2, b)"
    and complete: "completeClaimTx c payload db2 = Inr (db', x)"
    by (auto simp: supersede_check_def Let_def tx_bind_Inr databaseTime_def)
  have db1': "db1 = db\<lparr>db_checks := ?cs\<rparr>" using db1 unfolding set_table(7) [of "update_rows ?P ?f"] .
  have "job_tables_ok db1" using inv by (simp add: db1' coordinator_inv_def job_tables_ok_def)
  from ensure_run [OF ensure this] have jobs: "jobs_extended db1 db2 (publishes b3 (dcr_LogicalKey r) (dcr_Version r))"
    by (rule jobs_extended_mono) (simp add: pending_publication_def desiredCheckFrom_def)
  have ok: "table_ok dcr_LogicalKey (check_ok b3 (db_jobs db)) (db_checks db)" using inv by (simp add: coordinator_inv_def)
  have "map dcr_LogicalKey ?cs = map dcr_LogicalKey (db_checks db)" by (auto simp: update_rows_def)
  then have keys: "distinct (map dcr_LogicalKey ?cs)" using ok by (simp add: table_ok_def)
  have keeps: "keeps_rows check_step (db_checks db) ?cs" by (intro keeps_rows_update) (simp_all add: check_step_def)
  have "1 \<le> dcr_Version r" using table_ok_row [OF ok assms] by (simp add: check_ok_def)
  then have rows: "z \<in> set (db_checks db) \<or> dcr_LogicalKey z = dcr_LogicalKey r \<and> dcr_Version z = dcr_Version r
      \<and> 1 \<le> dcr_Version r \<and> dcr_PublishedVersion z \<le> dcr_Version r" if "z \<in> set ?cs" for z
    using that by (auto simp: update_rows_set)
  from inv_new_version [OF inv db1' keeps keys rows jobs] have "coordinator_inv b3 db2" "evolves db db2" by simp_all
  moreover from this(1) keeps_complete complete have "coordinator_inv b3 db' \<and> evolves db2 db'" unfolding keeps_def by blast
  ultimately show "coordinator_inv b3 db' \<and> evolves db db'" by (blast intro: evolves_trans)
qed

text \<open>Publishing marks the current version published.\<close>

lemma keeps_publish:
  "keeps b3 db (tx_update db_checks_update db_checks (\<lambda>x. dcr_LogicalKey x = key \<and> dcr_Version x = v)
     (\<lambda>x. x\<lparr>dcr_ProviderCheckRunID := run, dcr_PublishedVersion := v\<rparr>))" (is "keeps b3 db (tx_update _ _ ?P ?f)")
proof (rule keeps_updateI)
  assume inv: "coordinator_inv b3 db"
  then have ok: "table_ok dcr_LogicalKey (check_ok b3 (db_jobs db)) (db_checks db)" by (simp add: coordinator_inv_def)
  then have "table_ok dcr_LogicalKey (check_ok b3 (db_jobs db)) (update_rows ?P ?f (db_checks db))"
    by (rule table_ok_update) (use table_ok_row [OF ok] in \<open>fastforce simp: check_ok_def unpublished_def\<close>)
  moreover have "keeps_rows check_step (db_checks db) (update_rows ?P ?f (db_checks db))"
    by (intro keeps_rows_update) (simp_all add: check_step_def)
  ultimately show "coordinator_inv b3 (db_checks_update (update_rows ?P ?f) db)
      \<and> evolves db (db_checks_update (update_rows ?P ?f) db)"
    using inv unfolding set_table(7) [of "update_rows ?P ?f"]
    by (simp add: coordinator_inv_def evolves_def keeps_rows_refl)
qed

lemma keeps_active_bind:
  "(\<And>d x. validateActiveClaimTx c db = Inr (d, x) \<Longrightarrow> d = db \<Longrightarrow> keeps b3 d (f x)) \<Longrightarrow> keeps b3 db (tx_bind (validateActiveClaimTx c) f)"
  by (rule keeps_bind [OF keeps_active]) (auto simp: validateActiveClaimTx_def databaseTime_def tx_bind_Inr)

lemma CommitCheckPublication_keeps: "op_keeps b3 db (CommitCheckPublication b3 input db)"
  unfolding CommitCheckPublication_def
  by (intro op_rules keeps_active_bind keeps_rules keeps_supersede keeps_publish keeps_complete)
    (auto dest: take_row_Some)

lemma SupersedeCheckClaim_keeps: "op_keeps b3 db (SupersedeCheckClaim b3 c key v payload db)"
  unfolding SupersedeCheckClaim_def
  by (intro op_rules keeps_active_bind keeps_rules keeps_supersede) (auto dest: take_row_Some)

lemma keeps_ensure: "keeps b3 db (ensureCheckJobTx b3 d now rearm)"
proof (rule keepsI)
  fix db' b
  assume inv: "coordinator_inv b3 db" and run: "ensureCheckJobTx b3 d now rearm db = Inr (db', b)"
  from ensure_run [OF run job_tables [OF inv]] obtain js where "db' = db\<lparr>db_jobs := js\<rparr>" "table_ok cjr_ID job_ok js"
      "distinct (map cjr_DedupeKey js)" "keeps_rows job_step (db_jobs db) js" unfolding jobs_extended_def by blast
  with inv_jobs [OF inv] show "coordinator_inv b3 db' \<and> evolves db db'" by simp
qed

lemma keeps_repair: "keeps b3 db (repair_checks b3 now rs n)"
  by (induction rs arbitrary: n db) (simp_all, (intro keeps_rules keeps_ensure | assumption)+)

lemma RepairDesiredChecks_keeps: "op_keeps b3 db (RepairDesiredChecks b3 limit db)"
  unfolding RepairDesiredChecks_def by (intro op_rules keeps_rules keeps_repair)

subsection \<open>Claiming\<close>

lemma landing_moves:
  "validLandingTransition\<^sup>*\<^sup>* LandingRunning LandingBlocked" "validLandingTransition\<^sup>*\<^sup>* LandingRunning LandingRetryable"
  "validLandingTransition\<^sup>*\<^sup>* LandingRunning LandingLanded" "validLandingTransition\<^sup>*\<^sup>* LandingRecovering LandingLanded"
  "validLandingTransition\<^sup>*\<^sup>* LandingPending LandingLanded"
  by (auto simp: validLandingTransition_def go_defs intro!: r_into_rtranclp)

lemmas landing_states = LandingPending_def LandingRunning_def LandingRetryable_def LandingBlocked_def LandingRecovering_def
  LandingLanded_def

lemma running_not_landed [simp]:
  "LandingRunning \<noteq> LandingLanded" "LandingRecovering \<noteq> LandingLanded" "LandingPending \<noteq> LandingLanded"
  by (simp_all add: landing_states)

lemma keeps_exhausted_job:
  assumes "f = (\<lambda>x. release_lease (x\<lparr>cjr_State := CoordinatorJobDone, cjr_Result := blocked_outcome, cjr_FailureCode := CodeBusy\<rparr>))
    \<or> f = (\<lambda>x. release_lease (x\<lparr>cjr_State := CoordinatorJobFailed, cjr_FailureCode := CodeBusy\<rparr>))"
  shows "keeps b3 db (tx_update db_jobs_update db_jobs (same_exhausted now r) f)"
  by (rule keeps_jobs_update) (use assms in \<open>auto simp: release_lease_def job_ok_def job_step_def go_defs\<close>)

lemma keeps_recover_final: "keeps (ce_blake3 env) db (recoverExhaustedFinalJobTx env r now)"
  unfolding recoverExhaustedFinalJobTx_def
  by (intro keeps_rules keeps_exhausted_job keeps_landings_update keeps_persist)
    (simp_all add: landing_step_def landing_moves exhausted_check_def fresh_check_def)

lemma keeps_lose: "keeps b3 db (lose_executions jobID now)"
  unfolding lose_executions_def
  by (rule keeps_executions_update)
    (auto simp: execution_step_def execution_running_def execution_rank_def go_defs)

lemma keeps_recover_all: "keeps (ce_blake3 env) db (recover_all env now rs)"
proof (induction rs arbitrary: db)
  case Nil
  show ?case by (simp add: keeps_pure)
next
  case (Cons r rs)
  show ?case unfolding recover_all.simps recover_exhausted_def
    by (intro keeps_rules keeps_recover_final keeps_lose keeps_exhausted_job Cons) simp_all
qed

lemma keeps_recover: "keeps (ce_blake3 env) db (recoverExpiredExhaustedJobsTx env now)"
  unfolding recoverExpiredExhaustedJobsTx_def by (intro keeps_rules keeps_recover_all)

text \<open>The lease of the job the query found; only that row satisfies the condition of the update.\<close>

lemma keeps_lease:
  assumes "first_row claim_order E (db_jobs db) = Some r" "\<And>x. E x \<Longrightarrow> \<exists>now. claimable now x"
    and "\<And>x. P x \<Longrightarrow> cjr_ID x = cjr_ID r"
  shows "keeps b3 db (tx_update db_jobs_update db_jobs P (lease_job worker until r))"
proof (rule keeps_jobs_update)
  fix x
  assume inv: "coordinator_inv b3 db" and x: "x \<in> set (db_jobs db)" "P x" "job_ok x"
  from first_row_Some [OF assms(1)] assms(2) obtain now where r: "r \<in> set (db_jobs db)" "claimable now r" by blast
  have "table_ok cjr_ID job_ok (db_jobs db)" using inv by (simp add: coordinator_inv_def)
  then have "x = r" by (rule table_ok_unique [OF _ r(1) x(1) assms(3) [OF x(2)]])
  then show "job_ok (lease_job worker until r x) \<and> job_step x (lease_job worker until r x)"
    using r(2) x(3) by (auto simp: lease_job_def claimable_def job_ok_def job_step_def)
qed

lemma ClaimJob_keeps: "op_keeps (ce_blake3 env) db (ClaimJob env worker now lease db)"
  unfolding ClaimJob_def
  by (intro op_rules keeps_bind [OF keeps_recover] keeps_rules, rule keeps_lease, assumption) blast+

lemma ClaimJobKinds_keeps: "op_keeps (ce_blake3 env) db (ClaimJobKinds env options db)"
proof -
  have "keeps (ce_blake3 env) d (tx_update db_jobs_update db_jobs
      (\<lambda>x. cjr_ID x = cjr_ID r \<and> cjr_Attempts x = cjr_Attempts r \<and> cjr_State x = cjr_State r
         \<and> cjr_FencingToken x = cjr_FencingToken r) (lease_job worker until r))"
    if "first_row claim_order (\<lambda>r. cjr_Kind r \<in> set kinds \<and> claimable now r) (db_jobs d) = Some r" for d r kinds now worker until
    using that by (rule keeps_lease) auto
  then show ?thesis unfolding ClaimJobKinds_def
    by (intro op_rules keeps_time_bind keeps_bind [OF keeps_recover] keeps_rules) blast
qed

subsection \<open>Generations, plans, candidates and landings\<close>

lemma keeps_upsert_generation: "validatePRGeneration g = Inr () \<Longrightarrow> keeps b3 db (upsertGenerationTx g)"
proof -
  assume valid: "validatePRGeneration g = Inr ()"
  have insert: "keeps b3 db (tx_insert db_generations_update db_generations
      (generation_key (gen_RepositoryKey g) (gen_Change g)) (prGenerationRecordFrom g))"
  proof (rule keeps_insertI)
    let ?g = "prGenerationRecordFrom g"
    assume inv: "coordinator_inv b3 db"
      and "\<forall>r \<in> set (db_generations db). \<not> generation_key (gen_RepositoryKey g) (gen_Change g) r"
    then have "gen_key ?g \<notin> gen_key ` set (db_generations db)"
      by (auto simp: gen_key_def generation_key_def prGenerationRecordFrom_def)
    moreover have "1 \<le> pgr_Version ?g" using valid
      by (auto simp: validatePRGeneration_def prGenerationRecordFrom_def split: if_splits)
    ultimately show "coordinator_inv b3 (db_generations_update (\<lambda>rs. rs @ [?g]) db)
        \<and> evolves db (db_generations_update (\<lambda>rs. rs @ [?g]) db)"
      using inv unfolding set_table(2) [of "\<lambda>rs. rs @ [?g]"]
      by (intro inv_generations) (simp_all add: keeps_rows_append coordinator_inv_def)
  qed
  show ?thesis unfolding upsertGenerationTx_def
    by (intro keeps_rules keeps_generations_update insert)
      (auto simp: generation_step_def gen_key_def generation_key_def prGenerationFrom_def)
qed

lemma keeps_save_plan: "keeps b3 db (saveCurrentPlanTx g plan payload)"
proof -
  have insert: "keeps b3 db (tx_insert db_plans_update db_plans (\<lambda>p. cpr_PlanID p = cpr_PlanID x) x)" for x
  proof (rule keeps_insertI)
    assume "coordinator_inv b3 db" "\<forall>p \<in> set (db_plans db). cpr_PlanID p \<noteq> cpr_PlanID x"
    then show "coordinator_inv b3 (db_plans_update (\<lambda>rs. rs @ [x]) db) \<and> evolves db (db_plans_update (\<lambda>rs. rs @ [x]) db)"
      unfolding set_table(5) [of "\<lambda>rs. rs @ [x]"] by (intro inv_append) auto
  qed
  have "keeps b3 db (tx_insert db_plans_update db_plans (\<lambda>p. cpr_PlanID p = plan_ID plan) x)" if "cpr_PlanID x = plan_ID plan" for x
    using insert [of x] that by simp
  then show ?thesis unfolding saveCurrentPlanTx_def
    by (intro keeps_rules keeps_generations_update) (simp_all add: generation_step_def gen_key_def)
qed

lemma keeps_save_candidate: "keeps b3 db (saveCandidateTx a payload)"
proof -
  have "keeps b3 db (tx_insert db_candidates_update db_candidates (\<lambda>r. car_Digest r = sca_Digest a) x)"
    if x: "car_Digest x = sca_Digest a" for x
  proof (rule keeps_insertI)
    assume "coordinator_inv b3 db" "\<forall>r \<in> set (db_candidates db). car_Digest r \<noteq> sca_Digest a"
    then show "coordinator_inv b3 (db_candidates_update (\<lambda>rs. rs @ [x]) db) \<and> evolves db (db_candidates_update (\<lambda>rs. rs @ [x]) db)"
      unfolding set_table(6) [of "\<lambda>rs. rs @ [x]"] by (intro inv_append) (auto simp: x)
  qed
  then show ?thesis unfolding saveCandidateTx_def by (intro keeps_rules) simp_all
qed

lemma keeps_create_landing: "validateLandingIntent i = Inr () \<Longrightarrow> keeps b3 db (createLandingIntentTx i)"
  unfolding createLandingIntentTx_def
  by (intro keeps_rules keeps_landings_insert)
    (auto simp: landingIntentRecordFrom_def validateLandingIntent_def split: if_splits)

lemma keeps_update_landing:
  assumes "\<And>l. P l \<Longrightarrow> 0 \<le> lir_AttemptCount l \<Longrightarrow> landing_step l (f l)"
  shows "keeps b3 db (tx_update_landing P f)"
  unfolding tx_update_landing_def by (intro keeps_rules keeps_landings_update assms)

lemma keeps_failed_attempt:
  "keeps b3 db (store_failed_attempt (failed_attempt code now n r) LandingRunning)"
  unfolding store_failed_attempt_def
proof (rule keeps_update_landing)
  let ?u = "failed_attempt code now n r"
  fix l assume "in_state (lir_ID ?u) LandingRunning l \<and> lir_AttemptCount l = lir_AttemptCount ?u - 1"
  then show "landing_step l (l\<lparr>lir_State := lir_State ?u, lir_AttemptCount := lir_AttemptCount ?u,
      lir_NextAttemptAt := lir_NextAttemptAt ?u, lir_LastErrorCode := lir_LastErrorCode ?u\<rparr>)"
    by (auto simp: landing_step_def failed_attempt_def in_state_def Let_def landing_moves)
qed

lemma UpsertGeneration_keeps: "op_keeps b3 db (UpsertGeneration g db)"
  unfolding UpsertGeneration_def by (intro op_rules keeps_upsert_generation) simp

lemma SaveCurrentPlan_keeps: "op_keeps b3 db (SaveCurrentPlan g plan db)"
  unfolding SaveCurrentPlan_def by (intro op_rules keeps_save_plan)

lemma SaveCandidate_keeps: "op_keeps b3 db (SaveCandidate b a db)"
  unfolding SaveCandidate_def by (intro op_rules keeps_save_candidate)

lemma CreateLandingIntent_keeps: "op_keeps b3 db (CreateLandingIntent i db)"
  unfolding CreateLandingIntent_def by (intro op_rules keeps_create_landing) simp

lemma op_keeps_landing: "op_keeps b3 db run \<Longrightarrow> op_keeps b3 db (then_landing i run)"
  by (cases run) (auto simp: op_keeps_def then_landing_def split: sum.split)

lemma SetLandingPlan_keeps: "op_keeps b3 db (SetLandingPlan i p db)"
  unfolding SetLandingPlan_def
  by (intro op_rules keeps_update_landing) (simp add: landing_step_def in_state_def)

lemma TransitionLanding_keeps: "op_keeps b3 db (TransitionLanding i s s' db)"
  unfolding TransitionLanding_def
  by (intro op_rules op_keeps_landing keeps_update_landing)
    (auto simp: landing_step_def in_state_def validLandingTransition_def landing_states)

lemma BlockLanding_keeps: "validLandingTransition s LandingBlocked \<Longrightarrow> op_keeps b3 db (BlockLanding i s code db)"
  unfolding BlockLanding_def
  by (intro op_rules op_keeps_landing keeps_update_landing)
    (auto simp: landing_step_def in_state_def validLandingTransition_def landing_states)

lemma RecordLandingFailure_keeps: "op_keeps b3 db (RecordLandingFailure i s code now n db)"
  unfolding RecordLandingFailure_def
  by (intro op_rules keeps_rules; simp add: keeps_failed_attempt)

subsection \<open>Schedules and commits\<close>

lemma ScheduleCandidate_keeps:
  "fresh_job (cs_PreviewJob input) \<Longrightarrow> fresh_check (cs_DesiredCheck input) \<Longrightarrow> op_keeps b3 db (ScheduleCandidate b3 input db)"
  unfolding ScheduleCandidate_def
  by (intro op_rules keeps_bind [OF keeps_save_candidate] keeps_bind [OF keeps_upsert_generation]
      keeps_bind [OF keeps_schedule_work] keeps_if keeps_pure) simp_all

lemma SchedulePreview_keeps:
  "fresh_job (ps_PreviewJob input) \<Longrightarrow> fresh_check (ps_DesiredCheck input) \<Longrightarrow> op_keeps b3 db (SchedulePreview b3 input db)"
  unfolding SchedulePreview_def
  by (intro op_rules keeps_bind [OF keeps_upsert_generation] keeps_bind [OF keeps_schedule_work] keeps_if keeps_pure) simp_all

lemma ScheduleLanding_keeps:
  "fresh_job (ls_FinalJob input) \<Longrightarrow> fresh_check (ls_DesiredCheck input) \<Longrightarrow> op_keeps b3 db (ScheduleLanding b3 input db)"
  unfolding ScheduleLanding_def
  by (intro op_rules keeps_bind [OF keeps_upsert_generation] keeps_bind [OF keeps_create_landing]
      keeps_bind [OF keeps_schedule_work] keeps_if keeps_pure) simp_all

lemma PublishPreviewResult_keeps:
  "fresh_check d \<Longrightarrow> op_keeps b3 db (PublishPreviewResult b3 g plan d job payload db)"
  unfolding PublishPreviewResult_def
  by (intro op_rules keeps_bind [OF keeps_save_plan] keeps_bind [OF keeps_persist] keeps_complete)

lemma CommitBlockedLanding_keeps:
  "fresh_check (blc_DesiredCheck input) \<Longrightarrow> op_keeps b3 db (CommitBlockedLanding b3 input db)"
  unfolding CommitBlockedLanding_def
  by (intro op_rules keeps_bind [OF keeps_update_landing] keeps_bind [OF keeps_persist] keeps_complete)
    (auto simp: landing_step_def in_state_def landing_moves)

lemma CommitLandingFailure_keeps:
  "fresh_check (lfc_BlockedCheck input) \<Longrightarrow> op_keeps b3 db (CommitLandingFailure b3 input db)"
  unfolding CommitLandingFailure_def
  by (intro op_rules keeps_read_bind keeps_found_bind keeps_Let keeps_bind [OF keeps_failed_attempt]
      keeps_bind [OF keeps_if] keeps_bind [OF keeps_persist] keeps_complete keeps_fail keeps_pure)

subsection \<open>Runner executions\<close>

lemma keeps_create_attempt: "1 \<le> rer_RunnerAttempt r \<Longrightarrow> keeps b3 db (create_attempt r)"
  unfolding create_attempt_def by (intro keeps_rules keeps_executions_insert)

lemma keeps_update_execution:
  "(\<And>x. P x \<Longrightarrow> execution_step x (f x)) \<Longrightarrow> keeps b3 db (tx_update_execution P f)"
  unfolding tx_update_execution_def by (intro keeps_rules keeps_executions_update)

lemmas execution_states = RunnerExecutionPrepared_def RunnerExecutionActive_def RunnerExecutionCancelRequested_def
  RunnerExecutionSucceeded_def RunnerExecutionFailed_def RunnerExecutionCancelled_def RunnerExecutionLost_def
  RunnerExecutionSuperseded_def

lemmas execution_step_defs = execution_step_def execution_rank_def execution_states

lemma next_attempt_number:
  assumes "coordinator_inv b3 db" "take_row P (db_executions db) = Some r"
  shows "1 \<le> rer_RunnerAttempt (succeeding_attempt c now r a s own)"
proof -
  have "table_ok rer_AttemptID (\<lambda>x. 1 \<le> rer_RunnerAttempt x) (db_executions db)"
    using assms(1) by (simp add: coordinator_inv_def)
  from table_ok_row [OF this] take_row_Some [OF assms(2)] show ?thesis
    by (fastforce simp: succeeding_attempt_def new_attempt_def)
qed

lemma PrepareRunnerExecution_keeps: "op_keeps b3 db (PrepareRunnerExecution c s db)"
  unfolding PrepareRunnerExecution_def
  by (intro op_rules keeps_active_bind keeps_rules keeps_create_attempt) (simp add: new_attempt_def)

lemma AdoptRunnerExecution_keeps: "op_keeps b3 db (AdoptRunnerExecution c e a db)"
  unfolding AdoptRunnerExecution_def
  by (intro op_rules keeps_active_bind keeps_time_bind keeps_bind [OF keeps_update_execution] keeps_rules)
    (simp add: execution_step_def)

lemma updateClaimed_keeps:
  assumes "\<And>now x. rer_State x \<in> set states \<Longrightarrow> execution_step x ((f now x)\<lparr>rer_UpdatedAt := now\<rparr>)"
  shows "op_keeps b3 db (updateClaimedRunnerExecution c e a states f db)"
  unfolding updateClaimedRunnerExecution_def
  by (intro op_rules keeps_active_bind keeps_time_bind keeps_update_execution assms) (simp add: owned_attempt_def)

lemma RecordRunnerHandle_keeps: "op_keeps b3 db (RecordRunnerHandle c e a h db)"
  unfolding RecordRunnerHandle_def by (intro op_rules updateClaimed_keeps) (auto simp: execution_step_defs)

lemma CompleteRunnerExecution_keeps: "op_keeps b3 db (CompleteRunnerExecution c e a d t db)"
  unfolding CompleteRunnerExecution_def by (intro op_rules updateClaimed_keeps) (auto simp: execution_step_defs)

lemma FailRunnerExecution_keeps: "op_keeps b3 db (FailRunnerExecution c e a code db)"
  unfolding FailRunnerExecution_def by (intro op_rules updateClaimed_keeps) (auto simp: execution_step_defs)

lemma BeginRunnerCancel_keeps: "op_keeps b3 db (BeginRunnerCancel c e a db)"
  unfolding BeginRunnerCancel_def by (intro updateClaimed_keeps) (auto simp: execution_step_defs)

lemma MarkRunnerCancelled_keeps: "op_keeps b3 db (MarkRunnerCancelled c e a db)"
  unfolding MarkRunnerCancelled_def by (intro updateClaimed_keeps) (auto simp: execution_step_defs)

lemma RecordDiscoveredRunnerHandle_keeps: "op_keeps b3 db (RecordDiscoveredRunnerHandle e a b s h db)"
proof -
  have "keeps b3 db (case handle of Some (x # xs) \<Rightarrow> tx_check (x # xs = h) CodeValidation
      | _ \<Rightarrow> tx_bind databaseTime (\<lambda>now. tx_update_execution
          (\<lambda>x. rer_ExecutionID x = e \<and> rer_AttemptID x = a \<and> rer_HandleEnvelope x = None)
          (\<lambda>x. x\<lparr>rer_HandleEnvelope := Some h, rer_UpdatedAt := now\<rparr>)))" for handle
  proof -
    have "keeps b3 db (tx_bind databaseTime (\<lambda>now. tx_update_execution
        (\<lambda>x. rer_ExecutionID x = e \<and> rer_AttemptID x = a \<and> rer_HandleEnvelope x = None)
        (\<lambda>x. x\<lparr>rer_HandleEnvelope := Some h, rer_UpdatedAt := now\<rparr>)))"
      by (intro keeps_time_bind keeps_update_execution) (simp add: execution_step_def)
    then show ?thesis by (auto split: option.split list.split intro: keeps_pure)
  qed
  then show ?thesis unfolding RecordDiscoveredRunnerHandle_def by (intro op_rules keeps_read_bind keeps_found_bind)
qed

lemma cleanup_keeps:
  "op_keeps b3 db (MarkRunnerCleanupPending e a db)" "op_keeps b3 db (RecordRunnerCleanupFailure e a db)"
  "op_keeps b3 db (MarkRunnerCleaned e a db)"
  unfolding MarkRunnerCleanupPending_def RecordRunnerCleanupFailure_def MarkRunnerCleaned_def
  by (intro op_rules keeps_read_bind keeps_found_bind keeps_time_bind keeps_Let keeps_update_execution;
      simp add: execution_step_def)+

lemma keeps_inv: "(coordinator_inv b3 db \<Longrightarrow> keeps b3 db m) \<Longrightarrow> keeps b3 db m"
  by (auto simp: keeps_def)

lemma ReplaceLocalRunnerAttempt_keeps: "op_keeps b3 db (ReplaceLocalRunnerAttempt c e a n s own db)"
proof -
  have "keeps b3 db (if rer_OwnerInstance previous = own then tx_fail CodeConcurrentUpdate
      else tx_bind databaseTime (\<lambda>now. tx_bind (tx_update_execution
          (\<lambda>r. rer_AttemptID r = rer_AttemptID previous \<and> rer_State r = rer_State previous)
          (\<lambda>r. let r = r\<lparr>rer_CleanupState := RunnerCleanupPending, rer_CleanupAfter := now, rer_UpdatedAt := now\<rparr>
             in if rer_State previous \<noteq> RunnerExecutionSucceeded
                then r\<lparr>rer_State := RunnerExecutionLost, rer_FinishedAt := now\<rparr> else r)) (\<lambda>_.
        create_attempt (succeeding_attempt c now previous n s own))))"
    if row: "take_row P (db_executions db) = Some previous"
      and P: "\<And>r. P r \<Longrightarrow> rer_State r \<in> {RunnerExecutionPrepared, RunnerExecutionActive, RunnerExecutionSucceeded}" for P previous
  proof (rule keeps_inv)
    assume inv: "coordinator_inv b3 db"
    have "rer_State previous \<in> {RunnerExecutionPrepared, RunnerExecutionActive, RunnerExecutionSucceeded}"
      using P take_row_Some [OF row] by blast
    then show ?thesis
      by (intro keeps_if keeps_pure keeps_time_bind keeps_bind [OF keeps_update_execution] keeps_create_attempt
          next_attempt_number [OF inv row]) (auto simp: execution_step_defs Let_def)
  qed
  then show ?thesis unfolding ReplaceLocalRunnerAttempt_def
    by (intro op_rules keeps_active_bind keeps_read_bind keeps_found_bind) simp
qed

lemma AllocateRunnerAttempt_keeps: "op_keeps b3 db (AllocateRunnerAttempt c e a n s own db)"
proof -
  have "keeps b3 d (tx_bind databaseTime (\<lambda>now. create_attempt (succeeding_attempt c now previous n s own)))"
    if row: "take_row P (db_executions d) = Some previous" for d P previous
    by (rule keeps_inv) (intro keeps_time_bind keeps_create_attempt next_attempt_number [OF _ row])
  then show ?thesis unfolding AllocateRunnerAttempt_def
    by (intro op_rules keeps_active_bind keeps_read_bind keeps_found_bind keeps_if keeps_pure)
qed

subsection \<open>Refs and landings\<close>

lemma keeps_move_ref:
  assumes "\<And>r. P r \<Longrightarrow> refr_Version r < ref_Version nxt"
  shows "keeps b3 db (tx_update db_refs_update db_refs P (move_ref nxt))"
proof (rule keeps_updateI)
  assume inv: "coordinator_inv b3 db"
  then have ok: "table_ok record_ref_key (\<lambda>r. 1 \<le> refr_Version r) (db_refs db)" by (simp add: coordinator_inv_def)
  then have "table_ok record_ref_key (\<lambda>r. 1 \<le> refr_Version r) (update_rows P (move_ref nxt) (db_refs db))"
    by (rule table_ok_update) (use assms table_ok_row [OF ok] in \<open>fastforce simp: record_ref_key_def move_ref_def\<close>)
  moreover have "keeps_rows ref_step (db_refs db) (update_rows P (move_ref nxt) (db_refs db))"
    by (intro keeps_rows_update) (use assms in \<open>force simp: ref_step_def record_ref_key_def move_ref_def\<close>)+
  ultimately show "coordinator_inv b3 (db_refs_update (update_rows P (move_ref nxt)) db)
      \<and> evolves db (db_refs_update (update_rows P (move_ref nxt)) db)"
    using inv_refs [OF inv] unfolding set_table(4) [of "update_rows P (move_ref nxt)"] by blast
qed

lemma CompareAndSwapRef_keeps: "op_keeps b3 db (CompareAndSwapRef repo name e n db)"
proof -
  have create: "keeps b3 db (\<lambda>db. if list_ex (ref_key repo name) (db_refs db) then Inl CodeRemoteConflict
      else Inr (db\<lparr>db_refs := db_refs db @ [\<lparr>refr_RepositoryID = repo, refr_RefName = name,
        refr_CommitID = ref_CommitID n, refr_SourceSHA = ref_SourceSHA n, refr_Version = ref_Version n\<rparr>]\<rparr>, n))"
    if "1 \<le> ref_Version n"
  proof (rule keepsI)
    fix db' x
    let ?r = "\<lparr>refr_RepositoryID = repo, refr_RefName = name, refr_CommitID = ref_CommitID n,
        refr_SourceSHA = ref_SourceSHA n, refr_Version = ref_Version n\<rparr>"
    assume inv: "coordinator_inv b3 db" and "(if list_ex (ref_key repo name) (db_refs db) then Inl CodeRemoteConflict
      else Inr (db\<lparr>db_refs := db_refs db @ [?r]\<rparr>, n)) = Inr (db', x)"
    then have "\<not> list_ex (ref_key repo name) (db_refs db)" "db' = db\<lparr>db_refs := db_refs db @ [?r]\<rparr>" by (auto split: if_splits)
    moreover from this(1) have "record_ref_key ?r \<notin> record_ref_key ` set (db_refs db)"
      by (auto simp: list_ex_iff ref_key_def record_ref_key_def)
    ultimately show "coordinator_inv b3 db' \<and> evolves db db'"
      using inv inv_refs [OF inv, of "db_refs db @ [?r]"] that by (simp add: keeps_rows_append coordinator_inv_def)
  qed
  show ?thesis unfolding CompareAndSwapRef_def
    by (intro op_rules keeps_read_bind keeps_Let keeps_if keeps_pure keeps_option create keeps_bind [OF keeps_move_ref] keeps_check_bind)
      auto
qed

lemma keeps_converge:
  assumes "take_row P (db_receipts db) = Some x" "lrr_ReceiptID x = i"
  shows "keeps b3 db (convergeLandedIntent i c)"
proof (rule keeps_inv)
  assume inv: "coordinator_inv b3 db"
  from take_row_Some [OF assms(1)] inv have "landed_receipt (db_landings db) x"
    by (auto simp: coordinator_inv_def table_ok_def)
  then obtain l where l: "l \<in> set (db_landings db)" "lir_ID l = i" "lir_State l = LandingLanded"
    using assms(2) by (auto simp: landed_receipt_def)
  have "\<not> (lir_ID r = i \<and> lir_State r \<noteq> LandingLanded)" if "r \<in> set (db_landings db)" for r
    using l that inv table_ok_unique [of lir_ID _ "db_landings db" l r] by (auto simp: coordinator_inv_def)
  then show ?thesis unfolding convergeLandedIntent_def
    by (intro keeps_bind [OF keeps_landings_update] keeps_pure) blast
qed

lemma keeps_persist_optional: "\<forall>d. desired = Some d \<longrightarrow> fresh_check d \<Longrightarrow> keeps b3 db (persist_optional b3 desired)"
  unfolding persist_optional_def by (auto intro: keeps_pure keeps_persist split: option.split)

end
