(* ===== verification/Coordinator_System.thy ===== *)
theory Coordinator_System
  imports Coordinator_Invariants
begin

text \<open>
  The coordinator's store as a transition system: one step is one operation of any process, with
  any input, or the passing of time.  Every reachable database satisfies the invariant, and the
  database only evolves.
\<close>

subsection \<open>The landing transaction\<close>

text \<open>
  The three writes of a landing: the ref moves, the receipt is indexed, the intent is landed.
\<close>

definition land_writes :: "go_time \<Rightarrow> RefAdvanceInput \<Rightarrow> LandingReceipt \<Rightarrow> database \<Rightarrow> database" where
  "land_writes clock input receipt db =
     db_landings_update (update_rows (to_land receipt) (landed_row receipt (adv_Next input)))
       (db_receipts_update (\<lambda>rs. rs @ [receipt_row clock input receipt])
         (db_refs_update (update_rows (at_ref (adv_Object input) (adv_Expected input)) (move_ref (adv_Next input))) db))"

lemma land_run:
  assumes "land b3 clock input receipt desired db = Inr (db', r)"
  shows "r = adv_Next input"
    and "current_ref (obj_RepositoryID (adv_Object input)) (obj_RefName (adv_Object input)) db = adv_Expected input"
    and "ref_Version (adv_Next input) = ref_Version (adv_Expected input) + 1"
    and "\<forall>x \<in> set (db_receipts db). lrr_ReceiptID x \<noteq> rcpt_ID receipt"
    and "rows_affected (at_ref (adv_Object input) (adv_Expected input)) (db_refs db) = 1"
    and "rows_affected (to_land receipt) (db_landings db) = 1"
    and "\<exists>intent. take_row (\<lambda>r. lir_ID r = rcpt_ID receipt) (db_landings db) = Some intent
         \<and> validateReceiptIntent receipt intent (adv_Object input) = Inr ()"
    and "persist_optional b3 desired (land_writes clock input receipt db) = Inr (db', ())"
  using assms by (simp_all add: land_def Let_def tx_bind_Inr list_ex_iff land_writes_def split: if_splits) blast+

lemma land_writes_keep:
  assumes inv: "coordinator_inv b3 db"
    and version: "ref_Version (adv_Next input) = ref_Version (adv_Expected input) + 1"
    and fresh: "\<forall>x \<in> set (db_receipts db). lrr_ReceiptID x \<noteq> rcpt_ID receipt"
    and found: "rows_affected (to_land receipt) (db_landings db) = 1"
  shows "coordinator_inv b3 (land_writes clock input receipt db) \<and> evolves db (land_writes clock input receipt db)"
proof -
  let ?refs = "update_rows (at_ref (adv_Object input) (adv_Expected input)) (move_ref (adv_Next input)) (db_refs db)"
  let ?db1 = "db\<lparr>db_refs := ?refs\<rparr>"
  let ?f = "landed_row receipt (adv_Next input)"
  let ?ls = "update_rows (to_land receipt) ?f (db_landings db)"
  have "keeps b3 db (tx_update db_refs_update db_refs (at_ref (adv_Object input) (adv_Expected input)) (move_ref (adv_Next input)))"
    by (rule keeps_move_ref) (simp add: at_ref_def version)
  then have refs: "coordinator_inv b3 ?db1" "evolves db ?db1" using inv
    by (auto simp: keeps_def set_table(4) [of "update_rows (at_ref (adv_Object input) (adv_Expected input)) (move_ref (adv_Next input))"])
  have step: "landing_step l (?f l)" if "to_land receipt l" for l
    using that by (auto simp: to_land_def advanceable_def landing_step_def landed_row_def landing_moves
        running_not_landed [symmetric])
  have old: "table_ok lir_ID (\<lambda>l. 0 \<le> lir_AttemptCount l) (db_landings db)" using inv by (simp add: coordinator_inv_def)
  then have ls_ok: "table_ok lir_ID (\<lambda>l. 0 \<le> lir_AttemptCount l) ?ls"
    by (rule table_ok_update) (use table_ok_row [OF old] in \<open>simp add: landed_row_def\<close>)
  have ls: "keeps_rows landing_step (db_landings db) ?ls" using step by (intro keeps_rows_update) auto
  from rows_affected_pos [OF found] obtain l where l: "l \<in> set (db_landings db)" "to_land receipt l" by blast
  then have "?f l \<in> set ?ls" by (force simp: update_rows_set)
  then have "landed_receipt ?ls (receipt_row clock input receipt)"
    using l(2) unfolding landed_receipt_def by (intro bexI [of _ "?f l"]) (auto simp: receipt_row_def landed_row_def to_land_def)
  moreover have "landed_receipt ?ls x" if "x \<in> set (db_receipts db)" for x
  proof (rule landed_receipt_step [OF ls])
    show "landed_receipt (db_landings db) x" using inv that by (simp add: coordinator_inv_def table_ok_def)
  qed
  ultimately have "table_ok lrr_ReceiptID (landed_receipt ?ls) (db_receipts db @ [receipt_row clock input receipt])"
    using inv fresh by (auto simp: coordinator_inv_def table_ok_def receipt_row_def)
  with refs ls_ok ls show ?thesis
    by (simp add: land_writes_def coordinator_inv_def evolves_def keeps_rows_refl keeps_rows_append)
qed

lemma advance_keeps:
  assumes "\<forall>d. desired = Some d \<longrightarrow> fresh_check d"
  shows "op_keeps b3 db (advance b3 clock input desired db)"
proof -
  have land: "keeps b3 db (land b3 clock input receipt desired)" for receipt
  proof (rule keepsI)
    fix db' r
    assume inv: "coordinator_inv b3 db" and run: "land b3 clock input receipt desired db = Inr (db', r)"
    note w = land_writes_keep [OF inv land_run(3,4,6) [OF run]]
    from keeps_persist_optional [OF assms] land_run(8) [OF run] w
    have "coordinator_inv b3 db' \<and> evolves (land_writes clock input receipt db) db'" unfolding keeps_def by blast
    with w show "coordinator_inv b3 db' \<and> evolves db db'" by (blast intro: evolves_trans)
  qed
  have "keeps b3 db (repeat_landing b3 input receipt desired x)"
    if "take_row (\<lambda>r. lrr_ReceiptID r = rcpt_ID receipt) (db_receipts db) = Some x" for receipt x
    unfolding repeat_landing_def
    by (intro keeps_Let keeps_if keeps_pure keeps_read_bind keeps_found_bind keeps_bind [OF keeps_converge [OF that]]
        keeps_bind [OF keeps_persist_optional [OF assms]]) (use take_row_Some [OF that] in simp)
  then show ?thesis unfolding advance_def by (intro op_rules keeps_read_bind keeps_option land)
qed

subsection \<open>Deliveries and heartbeats\<close>

lemma keeps_accept: "keeps b3 db (acceptDeliveryTx d payload)"
proof (rule keepsI)
  fix db' x
  assume inv: "coordinator_inv b3 db" and run: "acceptDeliveryTx d payload db = Inr (db', x)"
  show "coordinator_inv b3 db' \<and> evolves db db'"
  proof (cases "take_row (delivery_key (wd_Provider d) (wd_DeliveryID d)) (db_deliveries db)")
    case None
    let ?r = "\<lparr>wdr_Provider = wd_Provider d, wdr_DeliveryID = wd_DeliveryID d, wdr_PayloadHash = wd_PayloadHash d,
        wdr_ReceivedAt = time_UTC (wd_ReceivedAt d), wdr_EventPayload = payload\<rparr>"
    from None run have "db' = db\<lparr>db_deliveries := db_deliveries db @ [?r]\<rparr>" by (simp add: acceptDeliveryTx_def)
    moreover have "(wdr_Provider ?r, wdr_DeliveryID ?r) \<notin> (\<lambda>d. (wdr_Provider d, wdr_DeliveryID d)) ` set (db_deliveries db)"
      using None by (auto simp: take_row_None delivery_key_def)
    ultimately show ?thesis using inv_append(3) [OF inv] by metis
  next
    case (Some r)
    with run inv show ?thesis by (auto simp: acceptDeliveryTx_def split: if_splits)
  qed
qed

lemma AcceptDelivery_keeps: "op_keeps b3 db (AcceptDelivery d db)"
  unfolding AcceptDelivery_def by (intro op_rules keeps_accept)

lemma AcceptWebhook_keeps: "fresh_job (wa_Job input) \<Longrightarrow> op_keeps b3 db (AcceptWebhook input db)"
  unfolding AcceptWebhook_def by (intro op_rules keeps_bind [OF keeps_accept] keeps_if keeps_pure keeps_bind [OF keeps_enqueue])

lemma EnqueueJob_keeps: "fresh_job j \<Longrightarrow> op_keeps b3 db (EnqueueJob j db)"
  unfolding EnqueueJob_def by (intro op_rules keeps_enqueue)

lemma claim_ops_keep:
  "op_keeps b3 db (CompleteClaim c payload db)" "op_keeps b3 db (ValidateClaim c db)" "op_keeps b3 db (AbandonClaim c now db)"
  "op_keeps b3 db (RejectClaim c code db)" "op_keeps b3 db (FailClaim c db)"
  unfolding CompleteClaim_def ValidateClaim_def AbandonClaim_def RejectClaim_def FailClaim_def
  by (intro op_rules keeps_complete keeps_active keeps_fail keeps_update_claimed;
      simp add: release_lease_def job_ok_def job_step_def go_defs)+

text \<open>No table of the invariant is the table of heartbeats.\<close>

lemma lease_ops_keep:
  "op_keeps b3 db (AcquireCoordinator token identity ttl db)" "op_keeps b3 db (RefreshCoordinator l ttl db)"
  "op_keeps b3 db (ReleaseCoordinator l db)"
proof -
  have rows: "coordinator_inv b3 (db_heartbeats_update h db) = coordinator_inv b3 db" "evolves db (db_heartbeats_update h db)"
    "evolves (db_heartbeats_update h db) (db_heartbeats_update k db)" for h k db
    by (simp_all add: coordinator_inv_def evolves_def keeps_rows_refl)
  have upd: "keeps b3 db (tx_update db_heartbeats_update db_heartbeats P f)" for P f db
    by (rule keeps_updateI) (simp add: rows)
  show "op_keeps b3 db (ReleaseCoordinator l db)"
    unfolding ReleaseCoordinator_def by (intro op_rules) (simp add: op_keeps_def rows)
  show "op_keeps b3 db (RefreshCoordinator l ttl db)"
    unfolding RefreshCoordinator_def by (intro op_rules keeps_time_bind keeps_bind [OF upd] keeps_pure)
  show "op_keeps b3 db (AcquireCoordinator token identity ttl db)"
    unfolding AcquireCoordinator_def
    by (intro op_rules keeps_time_bind keeps_bind keeps_read_bind keeps_option keeps_pure)
      (auto intro!: keepsI simp: rows split: if_splits)
qed

lemma Advance_keeps: "op_keeps b3 db (Advance b3 clock input db)"
  unfolding Advance_def by (rule advance_keeps) simp

lemma AdvanceWithCheck_keeps: "fresh_check d \<Longrightarrow> op_keeps b3 db (AdvanceWithCheck b3 clock input d db)"
  unfolding AdvanceWithCheck_def by (intro op_rules advance_keeps) simp

subsection \<open>Steps\<close>

text \<open>
  One step of the store.  Jobs and checks enter it as the constructors of the program build them
  (\<open>newPreviewJob\<close>, \<open>newFinalJob\<close>, \<open>newCheckJob\<close>, the composite literals of coordinator.go): no
  attempt, no fencing token, nothing published; \<open>BlockLanding\<close> is applied to a state that may be
  blocked.
\<close>

inductive store_step :: "(string \<Rightarrow> string) \<Rightarrow> database \<Rightarrow> database \<Rightarrow> bool" for b3 where
  tick: "time_instant (db_now db) \<le> time_instant t \<Longrightarrow> store_step b3 db (db\<lparr>db_now := t\<rparr>)"
| accept_delivery: "store_step b3 db (fst (AcceptDelivery d db))"
| accept_webhook: "fresh_job (wa_Job input) \<Longrightarrow> store_step b3 db (fst (AcceptWebhook input db))"
| enqueue: "fresh_job j \<Longrightarrow> store_step b3 db (fst (EnqueueJob j db))"
| claim: "ce_blake3 env = b3 \<Longrightarrow> store_step b3 db (fst (ClaimJob env worker now lease db))"
| claim_kinds: "ce_blake3 env = b3 \<Longrightarrow> store_step b3 db (fst (ClaimJobKinds env options db))"
| complete: "store_step b3 db (fst (CompleteClaim c payload db))"
| validate: "store_step b3 db (fst (ValidateClaim c db))"
| abandon: "store_step b3 db (fst (AbandonClaim c now db))"
| reject: "store_step b3 db (fst (RejectClaim c code db))"
| fail: "store_step b3 db (fst (FailClaim c db))"
| set_check: "fresh_check d \<Longrightarrow> store_step b3 db (fst (SetDesiredCheck b3 d db))"
| publish: "store_step b3 db (fst (CommitCheckPublication b3 publication db))"
| supersede: "store_step b3 db (fst (SupersedeCheckClaim b3 c key v payload db))"
| repair: "store_step b3 db (fst (RepairDesiredChecks b3 limit db))"
| generation: "store_step b3 db (fst (UpsertGeneration g db))"
| save_plan: "store_step b3 db (fst (SaveCurrentPlan g plan db))"
| save_candidate: "store_step b3 db (fst (SaveCandidate b3 a db))"
| create_landing: "store_step b3 db (fst (CreateLandingIntent i db))"
| landing_plan: "store_step b3 db (fst (SetLandingPlan i p db))"
| transition: "store_step b3 db (fst (TransitionLanding i s s' db))"
| block: "validLandingTransition s LandingBlocked \<Longrightarrow> store_step b3 db (fst (BlockLanding i s code db))"
| landing_failure: "store_step b3 db (fst (RecordLandingFailure i s code now n db))"
| schedule_candidate: "fresh_job (cs_PreviewJob cs) \<Longrightarrow> fresh_check (cs_DesiredCheck cs)
    \<Longrightarrow> store_step b3 db (fst (ScheduleCandidate b3 cs db))"
| schedule_preview: "fresh_job (ps_PreviewJob ps) \<Longrightarrow> fresh_check (ps_DesiredCheck ps)
    \<Longrightarrow> store_step b3 db (fst (SchedulePreview b3 ps db))"
| schedule_landing: "fresh_job (ls_FinalJob ls) \<Longrightarrow> fresh_check (ls_DesiredCheck ls)
    \<Longrightarrow> store_step b3 db (fst (ScheduleLanding b3 ls db))"
| preview_result: "fresh_check d \<Longrightarrow> store_step b3 db (fst (PublishPreviewResult b3 g plan d job payload db))"
| blocked_landing: "fresh_check (blc_DesiredCheck bl) \<Longrightarrow> store_step b3 db (fst (CommitBlockedLanding b3 bl db))"
| failed_landing: "fresh_check (lfc_BlockedCheck fl) \<Longrightarrow> store_step b3 db (fst (CommitLandingFailure b3 fl db))"
| prepare: "store_step b3 db (fst (PrepareRunnerExecution c seed db))"
| adopt: "store_step b3 db (fst (AdoptRunnerExecution c e a db))"
| replace_attempt: "store_step b3 db (fst (ReplaceLocalRunnerAttempt c e a n spec own db))"
| allocate: "store_step b3 db (fst (AllocateRunnerAttempt c e a n spec own db))"
| handle: "store_step b3 db (fst (RecordRunnerHandle c e a h db))"
| discovered: "store_step b3 db (fst (RecordDiscoveredRunnerHandle e a backend spec h db))"
| runner_complete: "store_step b3 db (fst (CompleteRunnerExecution c e a digest t db))"
| runner_fail: "store_step b3 db (fst (FailRunnerExecution c e a code db))"
| runner_cancel: "store_step b3 db (fst (BeginRunnerCancel c e a db))"
| runner_cancelled: "store_step b3 db (fst (MarkRunnerCancelled c e a db))"
| cleanup_pending: "store_step b3 db (fst (MarkRunnerCleanupPending e a db))"
| cleanup_failure: "store_step b3 db (fst (RecordRunnerCleanupFailure e a db))"
| cleaned: "store_step b3 db (fst (MarkRunnerCleaned e a db))"
| cas: "store_step b3 db (fst (CompareAndSwapRef repo name expected nxt db))"
| advance: "store_step b3 db (fst (Advance b3 clock adv db))"
| advance_check: "fresh_check d \<Longrightarrow> store_step b3 db (fst (AdvanceWithCheck b3 clock adv d db))"
| acquire: "store_step b3 db (fst (AcquireCoordinator token identity ttl db))"
| refresh: "store_step b3 db (fst (RefreshCoordinator l ttl db))"
| release: "store_step b3 db (fst (ReleaseCoordinator l db))"

lemma claims_keep:
  "ce_blake3 env = b3 \<Longrightarrow> op_keeps b3 db (ClaimJob env worker now lease db)"
  "ce_blake3 env = b3 \<Longrightarrow> op_keeps b3 db (ClaimJobKinds env options db)"
  using ClaimJob_keeps ClaimJobKinds_keeps by auto

lemma op_keeps_fst: "op_keeps b3 db run \<Longrightarrow> op_keeps b3 db (fst run, ())"
  by (simp add: op_keeps_def)

lemmas operations_keep = AcceptDelivery_keeps AcceptWebhook_keeps EnqueueJob_keeps claims_keep claim_ops_keep SetDesiredCheck_keeps CommitCheckPublication_keeps SupersedeCheckClaim_keeps RepairDesiredChecks_keeps
  UpsertGeneration_keeps SaveCurrentPlan_keeps SaveCandidate_keeps CreateLandingIntent_keeps SetLandingPlan_keeps
  TransitionLanding_keeps BlockLanding_keeps RecordLandingFailure_keeps ScheduleCandidate_keeps SchedulePreview_keeps
  ScheduleLanding_keeps PublishPreviewResult_keeps CommitBlockedLanding_keeps CommitLandingFailure_keeps
  PrepareRunnerExecution_keeps AdoptRunnerExecution_keeps ReplaceLocalRunnerAttempt_keeps AllocateRunnerAttempt_keeps
  RecordRunnerHandle_keeps RecordDiscoveredRunnerHandle_keeps CompleteRunnerExecution_keeps FailRunnerExecution_keeps
  BeginRunnerCancel_keeps MarkRunnerCancelled_keeps cleanup_keeps CompareAndSwapRef_keeps Advance_keeps
  AdvanceWithCheck_keeps lease_ops_keep

lemma store_step_keeps: "store_step b3 db db' \<Longrightarrow> op_keeps b3 db (db', ())"
proof (induction rule: store_step.induct)
  case (tick db t)
  then show ?case by (simp add: op_keeps_def coordinator_inv_def evolves_def keeps_rows_refl)
qed (rule op_keeps_fst, rule operations_keep; assumption)+

definition empty_store :: "go_time \<Rightarrow> database" where
  "empty_store t = \<lparr>db_now = t, db_refs = [], db_receipts = [], db_deliveries = [], db_generations = [], db_plans = [],
     db_jobs = [], db_landings = [], db_candidates = [], db_checks = [], db_executions = [], db_heartbeats = []\<rparr>"

definition store_reachable :: "(string \<Rightarrow> string) \<Rightarrow> database \<Rightarrow> bool" where
  "store_reachable b3 db \<longleftrightarrow> (\<exists>t. (store_step b3)\<^sup>*\<^sup>* (empty_store t) db)"

lemma steps_keep:
  assumes "(store_step b3)\<^sup>*\<^sup>* db db'" "coordinator_inv b3 db"
  shows "coordinator_inv b3 db' \<and> evolves db db'"
  using assms
proof (induction rule: rtranclp_induct)
  case base
  then show ?case by simp
next
  case (step x y)
  then have "coordinator_inv b3 x" "evolves db x" by simp_all
  moreover have "coordinator_inv b3 y \<and> evolves x y"
    using store_step_keeps [OF step.hyps(2)] \<open>coordinator_inv b3 x\<close> by (simp add: op_keeps_def)
  ultimately show ?case by (blast intro: evolves_trans)
qed

lemma empty_store_inv: "coordinator_inv b3 (empty_store t)"
  by (simp add: coordinator_inv_def empty_store_def table_ok_def)

lemma reachable_inv: "store_reachable b3 db \<Longrightarrow> coordinator_inv b3 db"
  using steps_keep empty_store_inv by (auto simp: store_reachable_def)

end
