(* ===== verification/Claim_Properties.thy ===== *)
theory Claim_Properties
  imports Coordinator_System
begin

text \<open>
  What a claim is worth: which job is leased, that a later lease fences the earlier one out, and
  that every operation refuses a claim that is over, without any effect.
\<close>

subsection \<open>Leasing\<close>

text \<open>The job \<open>r\<close> of \<open>d\<close> is leased as \<open>j\<close>: only its row changes.\<close>

definition granted :: "database \<Rightarrow> coordinatorJobRecord \<Rightarrow> string \<Rightarrow> go_time \<Rightarrow> database \<Rightarrow> CoordinatorJob \<Rightarrow> bool" where
  "granted d r worker until db' j \<longleftrightarrow> r \<in> set (db_jobs d) \<and> j = coordinatorJobFrom (lease_job worker until r r)
     \<and> db' = d\<lparr>db_jobs := update_rows (\<lambda>x. x = r) (lease_job worker until r) (db_jobs d)\<rparr>"

lemma granted_row:
  assumes "granted d r worker until db' j"
  shows "lease_job worker until r r \<in> set (db_jobs db')" "j = coordinatorJobFrom (lease_job worker until r r)"
  using assms by (force simp: granted_def update_rows_set)+

lemma update_rows_cong: "(\<And>x. x \<in> set rows \<Longrightarrow> P x = Q x) \<Longrightarrow> update_rows P f rows = update_rows Q f rows"
  by (simp add: update_rows_def)

lemma grantedI:
  assumes "coordinator_inv b3 d" "r \<in> set (db_jobs d)" "\<And>x. P x \<Longrightarrow> cjr_ID x = cjr_ID r" "P r"
  shows "granted d r worker until (db_jobs_update (update_rows P (lease_job worker until r)) d)
    (coordinatorJobFrom (lease_job worker until r r))"
proof -
  have "table_ok cjr_ID job_ok (db_jobs d)" using assms(1) by (simp add: coordinator_inv_def)
  then have "P x = (x = r)" if "x \<in> set (db_jobs d)" for x
    using that assms table_ok_unique by metis
  then have "update_rows P (lease_job worker until r) (db_jobs d) = update_rows (\<lambda>x. x = r) (lease_job worker until r) (db_jobs d)"
    by (rule update_rows_cong)
  then show ?thesis using assms(2) unfolding granted_def set_table(9) [of "update_rows P (lease_job worker until r)"] by simp
qed

lemma recover_keeps:
  assumes "coordinator_inv (ce_blake3 env) db" "recoverExpiredExhaustedJobsTx env now db = Inr (d, u)"
  shows "coordinator_inv (ce_blake3 env) d" "evolves db d"
  using keeps_recover [of env db now] assms unfolding keeps_def by blast+

lemma ClaimJob_run:
  assumes "ClaimJob env worker now lease db = (db', Inr (Some j))" "coordinator_inv (ce_blake3 env) db"
  shows "0 < lease \<and> TrimSpace worker \<noteq> [] \<and> (\<exists>d r. recoverExpiredExhaustedJobsTx env now db = Inr (d, ())
    \<and> first_row claim_order (claimable now) (db_jobs d) = Some r \<and> granted d r worker (time_Add now lease) db' j)"
proof -
  from assms(1) obtain d r where w: "0 < lease" "TrimSpace worker \<noteq> []" and d: "recoverExpiredExhaustedJobsTx env now db = Inr (d, ())"
    and r: "first_row claim_order (claimable now) (db_jobs d) = Some r"
    and db': "db' = db_jobs_update (update_rows (\<lambda>x. cjr_ID x = cjr_ID r \<and> cjr_Attempts x = cjr_Attempts r \<and> cjr_State x = cjr_State r)
        (lease_job worker (time_Add now lease) r)) d"
    and j: "j = coordinatorJobFrom (lease_job worker (time_Add now lease) r r)"
    by (auto simp: ClaimJob_def transaction_Inr tx_bind_Inr split: if_splits option.splits)
  have "granted d r worker (time_Add now lease) db' j"
    unfolding db' j using recover_keeps [OF assms(2) d] first_row_Some [OF r] by (intro grantedI) auto
  with w d r show ?thesis by blast
qed

lemma ClaimJobKinds_run:
  assumes "ClaimJobKinds env options db = (db', Inr (Some j))" "coordinator_inv (ce_blake3 env) db"
  shows "0 < jco_LeaseDuration options \<and> TrimSpace (jco_WorkerID options) \<noteq> [] \<and> (\<exists>d r.
    recoverExpiredExhaustedJobsTx env (time_UTC (db_now db)) db = Inr (d, ())
    \<and> first_row claim_order (\<lambda>r. cjr_Kind r \<in> set (jco_Kinds options) \<and> claimable (time_UTC (db_now db)) r) (db_jobs d) = Some r
    \<and> granted d r (jco_WorkerID options) (time_Add (time_UTC (db_now db)) (jco_LeaseDuration options)) db' j)"
proof -
  let ?now = "time_UTC (db_now db)" and ?until = "time_Add (time_UTC (db_now db)) (jco_LeaseDuration options)"
  from assms(1) obtain d r where w: "0 < jco_LeaseDuration options" "TrimSpace (jco_WorkerID options) \<noteq> []"
    and d: "recoverExpiredExhaustedJobsTx env ?now db = Inr (d, ())"
    and r: "first_row claim_order (\<lambda>r. cjr_Kind r \<in> set (jco_Kinds options) \<and> claimable ?now r) (db_jobs d) = Some r"
    and db': "db' = db_jobs_update (update_rows (\<lambda>x. cjr_ID x = cjr_ID r \<and> cjr_Attempts x = cjr_Attempts r \<and> cjr_State x = cjr_State r
        \<and> cjr_FencingToken x = cjr_FencingToken r) (lease_job (jco_WorkerID options) ?until r)) d"
    and j: "j = coordinatorJobFrom (lease_job (jco_WorkerID options) ?until r r)"
    by (auto simp: ClaimJobKinds_def transaction_Inr tx_bind_Inr databaseTime_def split: if_splits option.splits)
  have "granted d r (jco_WorkerID options) ?until db' j"
    unfolding db' j using recover_keeps [OF assms(2) d] first_row_Some [OF r] by (intro grantedI) auto
  with w d r show ?thesis by blast
qed

text \<open>The clock of the database does not move in a transaction.\<close>

definition same_clock :: "'a tx \<Rightarrow> bool" where
  "same_clock m \<longleftrightarrow> (\<forall>db db' x. m db = Inr (db', x) \<longrightarrow> db_now db' = db_now db)"

lemma clock_bind: "same_clock m \<Longrightarrow> (\<And>x. same_clock (f x)) \<Longrightarrow> same_clock (tx_bind m f)"
  unfolding same_clock_def tx_bind_Inr by metis

lemma clock_statements:
  "same_clock (tx_return x)" "same_clock (tx_fail e)" "same_clock (tx_read g)" "same_clock (tx_lift s)"
  "same_clock (tx_check ok e)" "same_clock (tx_found row e)" "same_clock databaseTime"
  "same_clock (tx_update db_jobs_update db_jobs P f)" "same_clock (tx_update db_checks_update db_checks P' f')"
  "same_clock (tx_update db_landings_update db_landings Q g')"
  "same_clock (tx_update db_executions_update db_executions Q' h)"
  "same_clock (tx_insert db_jobs_update db_jobs clash j)" "same_clock (tx_insert db_checks_update db_checks clash' c)"
  by (auto simp: same_clock_def databaseTime_def)

lemma clock_cases:
  "same_clock m \<Longrightarrow> same_clock n \<Longrightarrow> same_clock (if b then m else n)"
  "same_clock m \<Longrightarrow> (\<And>y. same_clock (k y)) \<Longrightarrow> same_clock (case w of None \<Rightarrow> m | Some y \<Rightarrow> k y)"
  "(\<And>e. same_clock (l e)) \<Longrightarrow> (\<And>y. same_clock (k y)) \<Longrightarrow> same_clock (case v of Inl e \<Rightarrow> l e | Inr y \<Rightarrow> k y)"
  "same_clock (q z) \<Longrightarrow> same_clock (Let z q)"
  "(\<And>a b. same_clock (h a b)) \<Longrightarrow> same_clock (case p of (a, b) \<Rightarrow> h a b)"
  by (auto split: option.split sum.split prod.split)

lemmas clock_rules = clock_bind clock_statements clock_cases

lemma clock_persist: "same_clock (persistDesiredCheckTx b3 d)"
  unfolding persistDesiredCheckTx_def upsertDesiredCheckTx_def persistExistingDesiredCheckTx_def enqueueJobTx_def
  by (intro clock_rules)

lemma clock_recover: "same_clock (recoverExpiredExhaustedJobsTx env now)"
proof -
  have "same_clock (recover_exhausted env now r)" for r
    unfolding recover_exhausted_def recoverExhaustedFinalJobTx_def lose_executions_def
    by (intro clock_persist clock_rules)
  then have "same_clock (recover_all env now rs)" for rs
    by (induction rs) (auto intro: clock_rules)
  then show ?thesis unfolding recoverExpiredExhaustedJobsTx_def by (intro clock_rules)
qed

lemma recover_clock: "recoverExpiredExhaustedJobsTx env now db = Inr (d, u) \<Longrightarrow> db_now d = db_now db"
  using clock_recover by (auto simp: same_clock_def)

text \<open>A lease that ends in the future is a valid claim.\<close>

lemma granted_valid:
  assumes grant: "granted d r worker until db' j" and inv: "coordinator_inv b3 d"
    and worker: "TrimSpace worker \<noteq> []" and time: "time_instant (db_now d) < time_instant until"
  shows "ValidateClaim (job_Claim j) db' = (db', Inr ())"
proof -
  have r: "r \<in> set (db_jobs d)" and j: "j = coordinatorJobFrom (lease_job worker until r r)"
    and db': "db' = d\<lparr>db_jobs := update_rows (\<lambda>x. x = r) (lease_job worker until r) (db_jobs d)\<rparr>"
    using grant by (auto simp: granted_def)
  have ok: "table_ok cjr_ID job_ok (db_jobs d)" using inv by (simp add: coordinator_inv_def)
  then have row: "job_ok r" using r by (rule table_ok_row)
  have keys: "distinct (map cjr_ID (db_jobs db'))"
  proof -
    have "map cjr_ID (db_jobs db') = map cjr_ID (db_jobs d)" by (auto simp: db' update_rows_def lease_job_def)
    with ok show ?thesis by (simp add: table_ok_def)
  qed
  have claim: "job_Claim j = \<lparr>claim_JobID = cjr_ID r, claim_LeaseOwner = worker, claim_FencingToken = cjr_FencingToken r + 1\<rparr>"
    by (simp add: j job_Claim_def coordinatorJobFrom_def lease_job_def)
  let ?P = "\<lambda>x. claimed_by (job_Claim j) x \<and> \<not> not_after (cjr_LeaseUntil x) (time_UTC (db_now d))"
  have "lease_job worker until r r \<in> set (filter ?P (db_jobs db'))"
    using granted_row(1) [OF grant] time by (simp add: claim claimed_by_def lease_job_def not_after_def time_UTC_def)
  then have "0 < length (filter ?P (db_jobs db'))" by (rule length_pos_if_in_set)
  moreover have "rows_affected ?P (db_jobs db') \<le> 1" by (rule rows_affected_key [OF keys]) (simp add: claimed_by_def)
  ultimately have one: "rows_affected ?P (db_jobs db') = 1" unfolding rows_affected_def by linarith
  have "validateJobClaim (job_Claim j) = Inr ()" using row worker
    by (auto simp: validateJobClaim_def claim job_ok_def)
  moreover have "db_now db' = db_now d" by (simp add: db')
  ultimately show ?thesis using one
    by (simp add: ValidateClaim_def transaction_def validateActiveClaimTx_def databaseTime_def tx_bind_def tx_read_def tx_check_def)
qed

text \<open>Either way of claiming.\<close>

definition claims :: "coordinator_env \<Rightarrow> database \<Rightarrow> database \<Rightarrow> CoordinatorJob \<Rightarrow> bool" where
  "claims env db db' j \<longleftrightarrow> (\<exists>worker now lease. ClaimJob env worker now lease db = (db', Inr (Some j)))
     \<or> (\<exists>options. ClaimJobKinds env options db = (db', Inr (Some j)))"

lemma claims_granted:
  assumes "claims env db db' j" "coordinator_inv (ce_blake3 env) db"
  obtains d r worker until where "coordinator_inv (ce_blake3 env) d" "evolves db d" "granted d r worker until db' j"
  using assms(1) unfolding claims_def
proof (elim disjE exE)
  fix worker now lease
  assume "ClaimJob env worker now lease db = (db', Inr (Some j))"
  from ClaimJob_run [OF this assms(2)] show thesis by (blast intro: that recover_keeps [OF assms(2)])
next
  fix options
  assume "ClaimJobKinds env options db = (db', Inr (Some j))"
  from ClaimJobKinds_run [OF this assms(2)] show thesis by (blast intro: that recover_keeps [OF assms(2)])
qed

subsection \<open>Spent claims\<close>

text \<open>
  A claim is spent when its job has moved past it: the job has a larger token, or it has the token
  of the claim and is no longer held by it.
\<close>

definition spent :: "JobClaim \<Rightarrow> database \<Rightarrow> bool" where
  "spent c db \<longleftrightarrow> (\<exists>r \<in> set (db_jobs db). cjr_ID r = claim_JobID c \<and> claim_FencingToken c \<le> cjr_FencingToken r \<and> \<not> claimed_by c r)"

lemma spent_evolves:
  assumes "spent c db" "evolves db db'"
  shows "spent c db'"
proof -
  from assms(1) obtain r where r: "r \<in> set (db_jobs db)" "cjr_ID r = claim_JobID c"
    "claim_FencingToken c \<le> cjr_FencingToken r" "\<not> claimed_by c r" by (auto simp: spent_def)
  from assms(2) r(1) obtain r' where r': "r' \<in> set (db_jobs db')" "job_step r r'" by (auto simp: evolves_def keeps_rows_def)
  with r(2-) have "cjr_ID r' = claim_JobID c" "claim_FencingToken c \<le> cjr_FencingToken r'" "\<not> claimed_by c r'"
    by (auto simp: job_step_def claimed_by_def)
  with r'(1) show ?thesis by (auto simp: spent_def)
qed

lemma spent_unclaimed:
  assumes "coordinator_inv b3 db" "spent c db" "x \<in> set (db_jobs db)"
  shows "\<not> claimed_by c x"
proof
  assume claimed: "claimed_by c x"
  from assms(2) obtain r where r: "r \<in> set (db_jobs db)" "cjr_ID r = claim_JobID c" "\<not> claimed_by c r" by (auto simp: spent_def)
  have "table_ok cjr_ID job_ok (db_jobs db)" using assms(1) by (simp add: coordinator_inv_def)
  from table_ok_unique [OF this r(1) assms(3)] r claimed show False by (auto simp: claimed_by_def)
qed

text \<open>A body that fails whenever the claim is spent.\<close>

definition stuck :: "(string \<Rightarrow> string) \<Rightarrow> JobClaim \<Rightarrow> database \<Rightarrow> 'a tx \<Rightarrow> bool" where
  "stuck b3 c db m \<longleftrightarrow> (coordinator_inv b3 db \<longrightarrow> spent c db \<longrightarrow> (\<exists>e. m db = Inl e))"

lemma stuckI: "(\<And>db' x. coordinator_inv b3 db \<Longrightarrow> spent c db \<Longrightarrow> m db = Inr (db', x) \<Longrightarrow> False) \<Longrightarrow> stuck b3 c db m"
  unfolding stuck_def by (cases "m db") auto

lemma stuck_fail: "stuck b3 c db (tx_fail e)"
  by (rule stuckI) simp

lemma stuck_first: "stuck b3 c db m \<Longrightarrow> stuck b3 c db (tx_bind m f)"
  by (rule stuckI) (auto simp: stuck_def tx_bind_Inr)

lemma stuck_later:
  assumes "keeps b3 db m" "\<And>d x. m db = Inr (d, x) \<Longrightarrow> stuck b3 c d (f x)"
  shows "stuck b3 c db (tx_bind m f)"
proof (rule stuckI)
  fix db' y
  assume now: "coordinator_inv b3 db" "spent c db" and "tx_bind m f db = Inr (db', y)"
  then obtain d x where run: "m db = Inr (d, x)" "f x d = Inr (db', y)" by (auto simp: tx_bind_Inr)
  with assms(1) now have "coordinator_inv b3 d" "spent c d" by (auto simp: keeps_def intro: spent_evolves)
  with assms(2) [OF run(1)] run(2) show False by (simp add: stuck_def)
qed

lemma stuck_unclaimed:
  assumes "coordinator_inv b3 db" "spent c db"
  shows "rows_affected (\<lambda>r. claimed_by c r \<and> P r) (db_jobs db) = 0" "rows_affected (claimed_by c) (db_jobs db) = 0"
    "take_row (claimed_by c) (db_jobs db) = None"
  using spent_unclaimed [OF assms] by (auto simp: rows_affected_def take_row_None)

lemma stuck_active: "stuck b3 c db (validateActiveClaimTx c)"
  by (rule stuckI) (auto simp: validateActiveClaimTx_def databaseTime_def tx_bind_Inr stuck_unclaimed)

lemma stuck_update_claimed: "stuck b3 c db (tx_update_claimed c f)"
  by (rule stuckI) (auto simp: tx_update_claimed_def tx_bind_Inr stuck_unclaimed)

lemma stuck_fail_claim: "stuck b3 c db (failClaimTx c)"
  by (rule stuckI) (auto simp: failClaimTx_def databaseTime_def tx_bind_Inr stuck_unclaimed)

lemma stuck_complete: "stuck b3 c db (completeClaimTx c payload)"
  unfolding completeClaimTx_def by (intro stuck_later keeps_pure stuck_update_claimed)

lemma stuck_if: "(b \<Longrightarrow> stuck b3 c db m) \<Longrightarrow> (\<not> b \<Longrightarrow> stuck b3 c db n) \<Longrightarrow> stuck b3 c db (if b then m else n)"
  by simp

lemma stuck_Let: "stuck b3 c db (f x) \<Longrightarrow> stuck b3 c db (Let x f)"
  by simp

text \<open>An operation that fails and changes nothing.\<close>

definition refused :: "database \<Rightarrow> database \<times> 'a result \<Rightarrow> bool" where
  "refused db run \<longleftrightarrow> (\<exists>e. run = (db, Inl e))"

definition bars :: "(string \<Rightarrow> string) \<Rightarrow> JobClaim \<Rightarrow> database \<Rightarrow> database \<times> 'a result \<Rightarrow> bool" where
  "bars b3 c db run \<longleftrightarrow> (coordinator_inv b3 db \<longrightarrow> spent c db \<longrightarrow> refused db run)"

lemma bars_refused: "bars b3 c db (db, Inl e)"
  by (simp add: bars_def refused_def)

lemma bars_transaction: "stuck b3 c db m \<Longrightarrow> bars b3 c db (transaction m db)"
  by (auto simp: bars_def refused_def stuck_def transaction_def)

lemma bars_if: "(b \<Longrightarrow> bars b3 c db p) \<Longrightarrow> (\<not> b \<Longrightarrow> bars b3 c db q) \<Longrightarrow> bars b3 c db (if b then p else q)"
  by simp

lemma bars_sum:
  "(\<And>e. x = Inl e \<Longrightarrow> bars b3 c db (p e)) \<Longrightarrow> (\<And>y. x = Inr y \<Longrightarrow> bars b3 c db (q y))
     \<Longrightarrow> bars b3 c db (case x of Inl e \<Rightarrow> p e | Inr y \<Rightarrow> q y)"
  by (cases x) simp_all

lemma bars_option:
  "(x = None \<Longrightarrow> bars b3 c db p) \<Longrightarrow> (\<And>y. x = Some y \<Longrightarrow> bars b3 c db (q y))
     \<Longrightarrow> bars b3 c db (case x of None \<Rightarrow> p | Some y \<Rightarrow> q y)"
  by (cases x) simp_all

lemmas bars_rules = bars_refused bars_if bars_sum bars_option bars_transaction

text \<open>The operations of the queue, of the outbox, of landings and of runner executions.\<close>

lemma claim_ops_bar:
  "bars b3 c db (ValidateClaim c db)" "bars b3 c db (CompleteClaim c payload db)" "bars b3 c db (AbandonClaim c now db)"
  "bars b3 c db (RejectClaim c code db)" "bars b3 c db (FailClaim c db)"
  unfolding ValidateClaim_def CompleteClaim_def AbandonClaim_def RejectClaim_def FailClaim_def
  by (intro bars_rules stuck_active stuck_complete stuck_update_claimed stuck_fail_claim)+

lemma check_ops_bar:
  "bars b3 (cpc_Claim p) db (CommitCheckPublication b3 p db)" "bars b3 c db (SupersedeCheckClaim b3 c key v payload db)"
  unfolding CommitCheckPublication_def SupersedeCheckClaim_def
  by (intro bars_rules stuck_first [OF stuck_active])+

lemma runner_ops_bar:
  "bars b3 c db (PrepareRunnerExecution c seed db)" "bars b3 c db (AdoptRunnerExecution c e a db)"
  "bars b3 c db (ReplaceLocalRunnerAttempt c e a n spec own db)" "bars b3 c db (AllocateRunnerAttempt c e a n spec own db)"
  "bars b3 c db (RecordRunnerHandle c e a h db)" "bars b3 c db (CompleteRunnerExecution c e a digest t db)"
  "bars b3 c db (FailRunnerExecution c e a code db)" "bars b3 c db (BeginRunnerCancel c e a db)"
  "bars b3 c db (MarkRunnerCancelled c e a db)"
  unfolding PrepareRunnerExecution_def AdoptRunnerExecution_def ReplaceLocalRunnerAttempt_def AllocateRunnerAttempt_def
    RecordRunnerHandle_def CompleteRunnerExecution_def FailRunnerExecution_def BeginRunnerCancel_def MarkRunnerCancelled_def
    updateClaimedRunnerExecution_def
  by (intro bars_rules stuck_first [OF stuck_active])+

lemma result_ops_bar:
  "fresh_check d \<Longrightarrow> bars b3 (job_Claim j) db (PublishPreviewResult b3 g plan d j payload db)"
  "fresh_check (blc_DesiredCheck bl) \<Longrightarrow> bars b3 (blc_Claim bl) db (CommitBlockedLanding b3 bl db)"
  "fresh_check (lfc_BlockedCheck fl) \<Longrightarrow> bars b3 (lfc_Claim fl) db (CommitLandingFailure b3 fl db)"
proof -
  show "fresh_check d \<Longrightarrow> bars b3 (job_Claim j) db (PublishPreviewResult b3 g plan d j payload db)"
    unfolding PublishPreviewResult_def
    by (intro bars_rules stuck_later [OF keeps_save_plan] stuck_later [OF keeps_persist] stuck_complete)
  show "fresh_check (blc_DesiredCheck bl) \<Longrightarrow> bars b3 (blc_Claim bl) db (CommitBlockedLanding b3 bl db)"
    unfolding CommitBlockedLanding_def
    by (intro bars_rules stuck_later [OF keeps_update_landing] stuck_later [OF keeps_persist] stuck_complete)
      (auto simp: landing_step_def in_state_def landing_moves)
  show "fresh_check (lfc_BlockedCheck fl) \<Longrightarrow> bars b3 (lfc_Claim fl) db (CommitLandingFailure b3 fl db)"
    unfolding CommitLandingFailure_def
    by (intro bars_rules stuck_later [OF keeps_pure(3)] stuck_later [OF keeps_pure(6)] stuck_Let
        stuck_later [OF keeps_failed_attempt] stuck_first stuck_if stuck_later [OF keeps_persist] stuck_complete
        stuck_fail_claim)
qed

subsection \<open>A lease fences the earlier ones\<close>

lemma granted_spends:
  assumes grant: "granted d r worker until db' j" and inv: "coordinator_inv b3 d"
    and x: "x \<in> set (db_jobs d)" "cjr_ID x = claim_JobID c" "claim_FencingToken c \<le> cjr_FencingToken x"
    and same: "claim_JobID c = job_ID j"
  shows "claim_FencingToken c < job_FencingToken j" "spent c db'"
proof -
  have r: "r \<in> set (db_jobs d)" "job_ID j = cjr_ID r" "job_FencingToken j = cjr_FencingToken r + 1"
    using grant by (auto simp: granted_def coordinatorJobFrom_def lease_job_def)
  have "table_ok cjr_ID job_ok (db_jobs d)" using inv by (simp add: coordinator_inv_def)
  from table_ok_unique [OF this r(1) x(1)] x(2) same r(2) have "x = r" by simp
  with x(3) r(3) show less: "claim_FencingToken c < job_FencingToken j" by simp
  have "cjr_ID (lease_job worker until r r) = claim_JobID c" "cjr_FencingToken (lease_job worker until r r) = job_FencingToken j"
    using r same by (simp_all add: lease_job_def)
  with granted_row(1) [OF grant] less show "spent c db'"
    unfolding spent_def claimed_by_def by (intro bexI [of _ "lease_job worker until r r"]) auto
qed

text \<open>The row of a claimed job, in every later database.\<close>

lemma claims_row_later:
  assumes "claims env db db1 j" "coordinator_inv (ce_blake3 env) db" "evolves db1 db2"
  obtains x where "x \<in> set (db_jobs db2)" "cjr_ID x = job_ID j" "job_FencingToken j \<le> cjr_FencingToken x"
proof -
  obtain d r worker until where grant: "granted d r worker until db1 j" using claims_granted [OF assms(1,2)] .
  then have "lease_job worker until r r \<in> set (db_jobs db1)" by (rule granted_row(1))
  with assms(3) obtain x where x: "x \<in> set (db_jobs db2)" "job_step (lease_job worker until r r) x"
    by (auto simp: evolves_def keeps_rows_def)
  have "job_ID j = cjr_ID r" "job_FencingToken j = cjr_FencingToken r + 1"
    using granted_row(2) [OF grant] by (simp_all add: coordinatorJobFrom_def lease_job_def)
  with x show thesis by (intro that [of x]) (auto simp: job_step_def lease_job_def)
qed

lemma claims_keep_inv:
  assumes "claims env db db' j" "coordinator_inv (ce_blake3 env) db"
  shows "coordinator_inv (ce_blake3 env) db'" "evolves db db'"
  using assms ClaimJob_keeps [of env db] ClaimJobKinds_keeps [of env db] unfolding claims_def op_keeps_def
  by (metis fst_conv)+

lemma claims_fence:
  assumes first: "claims env1 db0 db1 j1" and inv: "coordinator_inv (ce_blake3 env1) db0"
    and between: "(store_step (ce_blake3 env1))\<^sup>*\<^sup>* db1 db2"
    and second: "claims env2 db2 db3 j2" "ce_blake3 env2 = ce_blake3 env1" "job_ID j2 = job_ID j1"
    and later: "(store_step (ce_blake3 env1))\<^sup>*\<^sup>* db3 db4"
  shows "job_FencingToken j1 < job_FencingToken j2 \<and> spent (job_Claim j1) db4 \<and> coordinator_inv (ce_blake3 env1) db4"
proof -
  have inv1: "coordinator_inv (ce_blake3 env1) db1" by (rule claims_keep_inv [OF first inv])
  then have inv2: "coordinator_inv (ce_blake3 env2) db2" and ev: "evolves db1 db2"
    using steps_keep [OF between] by (simp_all add: second)
  obtain d r worker until where d: "coordinator_inv (ce_blake3 env2) d" "evolves db2 d" and grant: "granted d r worker until db3 j2"
    using claims_granted [OF second(1) inv2] .
  obtain x where x: "x \<in> set (db_jobs d)" "cjr_ID x = job_ID j1" "job_FencingToken j1 \<le> cjr_FencingToken x"
    using claims_row_later [OF first inv evolves_trans [OF ev d(2)]] .
  then have "claim_FencingToken (job_Claim j1) < job_FencingToken j2" "spent (job_Claim j1) db3"
    using granted_spends [OF grant d(1) x(1), of "job_Claim j1"] second(3) by (simp_all add: job_Claim_def)
  moreover have "coordinator_inv (ce_blake3 env1) db4" "evolves db3 db4"
    using steps_keep [OF later] claims_keep_inv(1) [OF second(1) inv2] second(2) by simp_all
  ultimately show ?thesis using spent_evolves by (auto simp: job_Claim_def)
qed

text \<open>A claim that was used up: the operations that take the job out of the running state.\<close>

lemma update_claimed_spends:
  assumes run: "tx_update_claimed c f db = Inr (db', u)"
    and f: "\<And>r. cjr_ID (f r) = cjr_ID r \<and> cjr_FencingToken (f r) = cjr_FencingToken r \<and> cjr_State (f r) \<noteq> CoordinatorJobRunning"
  shows "spent c db'"
proof -
  from run have db': "db' = db_jobs_update (update_rows (claimed_by c) f) db" and "rows_affected (claimed_by c) (db_jobs db) = 1"
    by (auto simp: tx_update_claimed_def tx_bind_Inr)
  from rows_affected_pos [OF this(2)] obtain r where r: "r \<in> set (db_jobs db)" "claimed_by c r" by blast
  then have "f r \<in> set (db_jobs db')" unfolding db' by (force simp: update_rows_set)
  with r(2) f [of r] show ?thesis unfolding spent_def by (intro bexI [of _ "f r"]) (auto simp: claimed_by_def)
qed

lemma complete_spends: "completeClaimTx c payload db = Inr (db', u) \<Longrightarrow> spent c db'"
  unfolding completeClaimTx_def
  by (auto simp: tx_bind_Inr release_lease_def go_defs elim!: update_claimed_spends)

lemma fail_spends: "failClaimTx c db = Inr (db', u) \<Longrightarrow> spent c db'"
  by (auto simp: failClaimTx_def tx_bind_Inr Let_def release_lease_def go_defs elim!: update_claimed_spends split: if_splits)

lemma release_ops_spend:
  "CompleteClaim c payload db = (db', Inr ()) \<Longrightarrow> spent c db'" "FailClaim c db = (db', Inr ()) \<Longrightarrow> spent c db'"
  "AbandonClaim c now db = (db', Inr ()) \<Longrightarrow> spent c db'" "RejectClaim c code db = (db', Inr ()) \<Longrightarrow> spent c db'"
  by (auto simp: CompleteClaim_def FailClaim_def AbandonClaim_def RejectClaim_def transaction_Inr release_lease_def go_defs
      split: if_splits sum.splits intro: complete_spends fail_spends elim!: update_claimed_spends)

end
