(* ===== verification/Coordinator_Facts.thy ===== *)
theory Coordinator_Facts
  imports Claim_Properties
begin

text \<open>
  What single operations of the coordinator achieve: the repair of the outbox, the landing
  transaction and its repetition, and the compare-and-swap of refs.
\<close>

subsection \<open>The outbox\<close>

lemma publishes_newCheckJob:
  assumes "publishes b3 (chk_LogicalKey d) (chk_Version d) j"
  obtains job where "newCheckJob b3 d now n = Inr job" "job_DedupeKey job = cjr_DedupeKey j" "job_ID job = cjr_ID j"
    "job_Kind job = cjr_Kind j" "job_Payload job = cjr_Payload j"
  using assms by (auto simp: publishes_def newCheckJob_def Let_def intro: that)

lemma dedupe_row:
  assumes "coordinator_inv b3 db" "j \<in> set (db_jobs db)"
  shows "take_row (\<lambda>r. cjr_DedupeKey r = cjr_DedupeKey j) (db_jobs db) = Some j"
proof (cases "take_row (\<lambda>r. cjr_DedupeKey r = cjr_DedupeKey j) (db_jobs db)")
  case None
  with assms(2) show ?thesis by (auto simp: take_row_None)
next
  case (Some r)
  have "inj_on cjr_DedupeKey (set (db_jobs db))" using assms(1) by (simp add: coordinator_inv_def distinct_map)
  with take_row_Some [OF Some] assms(2) Some show ?thesis by (auto dest: inj_onD)
qed

text \<open>The publishing job exists, so it is found or made runnable; no other live job changes.\<close>

lemma ensure_succeeds:
  assumes inv: "coordinator_inv b3 db" and j: "j \<in> set (db_jobs db)" "publishes b3 (chk_LogicalKey d) (chk_Version d) j"
  obtains db' b where "ensureCheckJobTx b3 d now rearm db = Inr (db', b)"
proof -
  obtain job where job: "newCheckJob b3 d now 5 = Inr job" "job_DedupeKey job = cjr_DedupeKey j" "job_ID job = cjr_ID j"
    "job_Kind job = cjr_Kind j" "job_Payload job = cjr_Payload j" using publishes_newCheckJob [OF j(2)] .
  show thesis
    by (rule that [of "fst (projr (ensureCheckJobTx b3 d now rearm db))" "snd (projr (ensureCheckJobTx b3 d now rearm db))"])
      (simp add: ensureCheckJobTx_def tx_bind_def tx_lift_def tx_read_def tx_update_def tx_return_def job dedupe_row [OF inv j(1)])
qed

lemma ensure_live:
  assumes "ensureCheckJobTx b3 d now rearm db = Inr (db', b)" "x \<in> set (db_jobs db)" "\<not> job_over (cjr_State x)"
  shows "x \<in> set (db_jobs db')"
  using assms by (auto simp: ensureCheckJobTx_def enqueueJobTx_def tx_bind_Inr update_rows_set split: option.splits if_splits)

lemma ensure_only_jobs:
  assumes "ensureCheckJobTx b3 d now rearm db = Inr (db', b)"
  shows "db_checks db' = db_checks db"
  using assms by (auto simp: ensureCheckJobTx_def enqueueJobTx_def tx_bind_Inr split: option.splits if_splits)

text \<open>The check \<open>c\<close> has a job that will publish its current version.\<close>

definition will_publish :: "(string \<Rightarrow> string) \<Rightarrow> database \<Rightarrow> desiredCheckRecord \<Rightarrow> bool" where
  "will_publish b3 db c \<longleftrightarrow> (\<exists>j \<in> set (db_jobs db). publishes b3 (dcr_LogicalKey c) (dcr_Version c) j \<and> \<not> job_over (cjr_State j))"

lemma check_codec: "chk_LogicalKey (desiredCheckFrom c) = dcr_LogicalKey c" "chk_Version (desiredCheckFrom c) = dcr_Version c"
  by (simp_all add: desiredCheckFrom_def)

lemma repair_run:
  assumes "coordinator_inv b3 db" "\<forall>c \<in> set rs. c \<in> set (db_checks db) \<and> unpublished c"
  shows "\<exists>db' m. repair_checks b3 now rs n db = Inr (db', m) \<and> db_checks db' = db_checks db
    \<and> (\<forall>c \<in> set rs. will_publish b3 db' c) \<and> (\<forall>x \<in> set (db_jobs db). \<not> job_over (cjr_State x) \<longrightarrow> x \<in> set (db_jobs db'))"
  using assms
proof (induction rs arbitrary: db n)
  case Nil
  then show ?case by (simp add: tx_return_def)
next
  case (Cons c rs)
  then have c: "c \<in> set (db_checks db)" "unpublished c" by simp_all
  with Cons.prems(1) obtain j where j: "j \<in> set (db_jobs db)" "publishes b3 (dcr_LogicalKey c) (dcr_Version c) j"
    by (auto simp: coordinator_inv_def table_ok_def check_ok_def)
  obtain d b where run: "ensureCheckJobTx b3 (desiredCheckFrom c) now True db = Inr (d, b)"
    using ensure_succeeds [OF Cons.prems(1) j(1), of "desiredCheckFrom c"] j(2) unfolding check_codec by blast
  have "jobs_extended db d (pending_publication b3 (dcr_LogicalKey c) (dcr_Version c) True)"
    using ensure_run [OF run job_tables [OF Cons.prems(1)]] unfolding check_codec .
  then obtain p where p: "p \<in> set (db_jobs d)" "pending_publication b3 (dcr_LogicalKey c) (dcr_Version c) True p"
    by (auto simp: jobs_extended_def)
  have "coordinator_inv b3 d" using keeps_ensure Cons.prems(1) run unfolding keeps_def by blast
  moreover have checks: "db_checks d = db_checks db" by (rule ensure_only_jobs [OF run])
  ultimately obtain db' m where rest: "repair_checks b3 now rs (if b then n + 1 else n) d = Inr (db', m)" "db_checks db' = db_checks d"
    "\<forall>c \<in> set rs. will_publish b3 db' c" "\<forall>x \<in> set (db_jobs d). \<not> job_over (cjr_State x) \<longrightarrow> x \<in> set (db_jobs db')"
    using Cons.IH [of d] Cons.prems(2) by fastforce
  have "will_publish b3 db' c" using p rest(4) by (auto simp: will_publish_def pending_publication_def)
  moreover have "repair_checks b3 now (c # rs) n db = Inr (db', m)" using run rest(1) by (simp add: tx_bind_def)
  ultimately show ?case using rest checks ensure_live [OF run] by auto
qed

subsection \<open>Landing\<close>

text \<open>The receipt of a landed intent: converging it again does nothing.\<close>

lemma converge_landed:
  assumes inv: "coordinator_inv b3 db" and receipt: "x \<in> set (db_receipts db)"
  shows "update_rows (\<lambda>r. lir_ID r = lrr_ReceiptID x \<and> lir_State r \<noteq> LandingLanded) f (db_landings db) = db_landings db"
proof -
  have ok: "table_ok lir_ID (\<lambda>l. 0 \<le> lir_AttemptCount l) (db_landings db)" using inv by (simp add: coordinator_inv_def)
  have "landed_receipt (db_landings db) x" using inv receipt by (simp add: coordinator_inv_def table_ok_def)
  then obtain l where l: "l \<in> set (db_landings db)" "lir_ID l = lrr_ReceiptID x" "lir_State l = LandingLanded"
    by (auto simp: landed_receipt_def)
  have "\<not> (lir_ID r = lrr_ReceiptID x \<and> lir_State r \<noteq> LandingLanded)" if "r \<in> set (db_landings db)" for r
    using table_ok_unique [OF ok that l(1)] l by auto
  then show ?thesis unfolding update_rows_def by (intro map_idI) auto
qed

lemma receipt_unique:
  assumes "coordinator_inv b3 db" "x \<in> set (db_receipts db)"
  shows "take_row (\<lambda>r. lrr_ReceiptID r = lrr_ReceiptID x) (db_receipts db) = Some x"
proof (cases "take_row (\<lambda>r. lrr_ReceiptID r = lrr_ReceiptID x) (db_receipts db)")
  case None
  with assms(2) show ?thesis by (auto simp: take_row_None)
next
  case (Some r)
  have "table_ok lrr_ReceiptID (landed_receipt (db_landings db)) (db_receipts db)" using assms(1) by (simp add: coordinator_inv_def)
  from table_ok_unique [OF this assms(2)] take_row_Some [OF Some] Some show ?thesis by auto
qed

lemma validateLandingAdvance_run:
  assumes "validateLandingAdvance b3 input = Inr receipt"
  shows "ref_RefName (adv_Next input) = obj_RefName (adv_Object input)"
  using assms by (auto simp: validateLandingAdvance_def Let_def split: if_splits option.splits)

text \<open>The ref a key holds, in a table with one row per key.\<close>

lemma current_ref_row:
  assumes inv: "coordinator_inv b3 db" and r: "r \<in> set (db_refs db)" "ref_key repo name r"
  shows "current_ref repo name db = ref_of_record r"
proof -
  have ok: "table_ok record_ref_key (\<lambda>r. 1 \<le> refr_Version r) (db_refs db)" using inv by (simp add: coordinator_inv_def)
  show ?thesis
  proof (cases "take_row (ref_key repo name) (db_refs db)")
    case None
    with r show ?thesis by (auto simp: take_row_None)
  next
    case (Some x)
    with table_ok_unique [OF ok r(1), of x] take_row_Some [OF Some] r(2) show ?thesis
      by (auto simp: current_ref_def ref_key_def record_ref_key_def)
  qed
qed

text \<open>The first landing: nothing but the ref, the index of receipts and the intent changes.\<close>

lemma advance_first:
  assumes "advance b3 clock input None db = (db', Inr r)"
    and "validateLandingAdvance b3 input = Inr receipt" "\<forall>x \<in> set (db_receipts db). lrr_ReceiptID x \<noteq> rcpt_ID receipt"
  shows "land b3 clock input receipt None db = Inr (db', r)" "db' = land_writes clock input receipt db"
proof -
  have "take_row (\<lambda>r. lrr_ReceiptID r = rcpt_ID receipt) (db_receipts db) = None" using assms(3) by (simp add: take_row_None)
  then show land: "land b3 clock input receipt None db = Inr (db', r)"
    using assms(1,2) by (simp add: advance_def transaction_Inr tx_bind_def tx_read_def)
  from land_run(8) [OF land] show "db' = land_writes clock input receipt db" by (simp add: persist_optional_def)
qed

lemma land_writes_ref:
  assumes inv: "coordinator_inv b3 db" "coordinator_inv b3 (land_writes clock input receipt db)"
    and found: "rows_affected (at_ref (adv_Object input) (adv_Expected input)) (db_refs db) = 1"
    and name: "ref_RefName (adv_Next input) = obj_RefName (adv_Object input)"
  shows "current_ref (obj_RepositoryID (adv_Object input)) (obj_RefName (adv_Object input)) (land_writes clock input receipt db)
    = adv_Next input"
proof -
  from rows_affected_pos [OF found] obtain r where r: "r \<in> set (db_refs db)" "at_ref (adv_Object input) (adv_Expected input) r"
    by blast
  let ?r = "move_ref (adv_Next input) r"
  have "?r \<in> set (db_refs (land_writes clock input receipt db))" using r by (force simp: land_writes_def update_rows_set)
  from current_ref_row [OF inv(2) this] r(2) have "current_ref (obj_RepositoryID (adv_Object input))
      (obj_RefName (adv_Object input)) (land_writes clock input receipt db) = ref_of_record ?r"
    by (simp add: at_ref_def ref_key_def move_ref_def)
  also have "\<dots> = adv_Next input" using r(2) name by (simp add: at_ref_def ref_key_def move_ref_def ref_of_record_def)
  finally show ?thesis .
qed

text \<open>A repetition, in any database that still has the receipt and the ref.\<close>

lemma advance_repeated:
  assumes inv: "coordinator_inv b3 db" and valid: "validateLandingAdvance b3 input = Inr receipt"
    and x: "x \<in> set (db_receipts db)" "lrr_ReceiptID x = rcpt_ID receipt"
      "lrr_RepositoryID x = obj_RepositoryID (adv_Object input)" "lrr_RefName x = obj_RefName (adv_Object input)"
      "lrr_ContextCommitID x = ref_CommitID (adv_Next input)"
    and r: "r \<in> set (db_refs db)" "ref_key (obj_RepositoryID (adv_Object input)) (obj_RefName (adv_Object input)) r"
  shows "advance b3 clock input None db
    = (db, Inr (current_ref (obj_RepositoryID (adv_Object input)) (obj_RefName (adv_Object input)) db))"
proof -
  have found: "take_row (\<lambda>r. lrr_ReceiptID r = rcpt_ID receipt) (db_receipts db) = Some x"
    using receipt_unique [OF inv x(1)] x(2) by simp
  obtain row where row: "take_row (ref_key (obj_RepositoryID (adv_Object input)) (obj_RefName (adv_Object input))) (db_refs db) = Some row"
    using r by (cases "take_row (ref_key (obj_RepositoryID (adv_Object input)) (obj_RefName (adv_Object input))) (db_refs db)")
      (auto simp: take_row_None)
  have same: "db_landings_update (update_rows (\<lambda>r. lir_ID r = rcpt_ID receipt \<and> lir_State r \<noteq> LandingLanded) f) db = db" for f
    using converge_landed [OF inv x(1), of f] x(2)
    unfolding set_table(1) [of "update_rows (\<lambda>r. lir_ID r = rcpt_ID receipt \<and> lir_State r \<noteq> LandingLanded) f"] by simp
  show ?thesis
    by (simp add: advance_def valid transaction_def tx_bind_def tx_read_def found repeat_landing_def Let_def x(3-5) row
        convergeLandedIntent_def tx_found_def tx_update_def same persist_optional_def tx_return_def current_ref_def)
qed

subsection \<open>Compare and swap\<close>

lemma cas_success:
  assumes "CompareAndSwapRef repo name expected nxt db = (db', Inr r)"
  shows "r = nxt" "current_ref repo name db = expected" "ref_Version nxt = ref_Version expected + 1" "ref_RefName nxt = name"
proof -
  have "case_option (empty_ref name) (\<lambda>r. \<lparr>ref_RefName = name, ref_CommitID = refr_CommitID r, ref_SourceSHA = refr_SourceSHA r,
      ref_Version = refr_Version r\<rparr>) (take_row (ref_key repo name) (db_refs db)) = current_ref repo name db"
    using take_row_Some [of "ref_key repo name"]
    by (cases "take_row (ref_key repo name) (db_refs db)") (auto simp: current_ref_def ref_of_record_def ref_key_def)
  with assms show "r = nxt" "current_ref repo name db = expected" "ref_Version nxt = ref_Version expected + 1" "ref_RefName nxt = name"
    by (auto simp: CompareAndSwapRef_def transaction_Inr tx_bind_Inr Let_def split: if_splits option.splits)
qed

lemma cas_row:
  assumes "CompareAndSwapRef repo name expected nxt db = (db', Inr r)"
  obtains x where "x \<in> set (db_refs db')" "ref_key repo name x" "refr_Version x = ref_Version nxt"
proof (cases "take_row (ref_key repo name) (db_refs db)")
  case None
  then have "db_refs db' = db_refs db @ [\<lparr>refr_RepositoryID = repo, refr_RefName = name, refr_CommitID = ref_CommitID nxt,
      refr_SourceSHA = ref_SourceSHA nxt, refr_Version = ref_Version nxt\<rparr>]"
    using assms by (auto simp: CompareAndSwapRef_def transaction_Inr tx_bind_Inr Let_def split: if_splits)
  then show thesis by (intro that) (auto simp: ref_key_def)
next
  case (Some y)
  then have db': "db_refs db' = update_rows (\<lambda>r. ref_key repo name r \<and> refr_Version r = ref_Version expected) (move_ref nxt) (db_refs db)"
    and "rows_affected (\<lambda>r. ref_key repo name r \<and> refr_Version r = ref_Version expected) (db_refs db) = 1"
    using assms by (auto simp: CompareAndSwapRef_def transaction_Inr tx_bind_Inr Let_def split: if_splits)
  from rows_affected_pos [OF this(2)] obtain x where "x \<in> set (db_refs db)" "ref_key repo name x" "refr_Version x = ref_Version expected"
    by blast
  then show thesis by (intro that [of "move_ref nxt x"]) (force simp: db' update_rows_set, simp_all add: move_ref_def ref_key_def)
qed

lemma cas_refused: "refused db (CompareAndSwapRef repo name expected nxt db) \<or> (\<exists>db' r. CompareAndSwapRef repo name expected nxt db = (db', Inr r))"
  by (auto simp: refused_def CompareAndSwapRef_def transaction_def split: sum.split)

end
