(* ===== verification/Coordinator_Properties.thy ===== *)
theory Coordinator_Properties
  imports Coordinator_Facts
begin

text \<open>
  The properties of the coordinator's store: its invariant and its history, what claims are worth,
  the repair of the outbox, and the landing transaction.
\<close>

subsection \<open>The store\<close>

text \<open>C22: Every database the operations of the coordinator can produce, from an empty one, in any
order and by any processes, satisfies the invariant of the store: primary and dedupe keys are
unique; every job has at most its maximum of attempts and a running one has a positive fencing
token; every unpublished version of a desired check has the job that publishes it; every indexed
landing receipt belongs to an intent that is landed with the same commit; versions are positive.\<close>

theorem store_invariant:
  assumes "store_reachable b3 db"
  shows "coordinator_inv b3 db"
  using assms by (rule reachable_inv)

text \<open>C23: What the operations of the coordinator never undo: jobs keep their identity and payload
and their fencing token never falls, checks, generations and refs change only with a larger version, a landing
intent keeps its identity and moves along the transitions of the state machine, a landed one stays
landed with its commit, plans, candidates, receipts and deliveries are never changed or lost, and a
runner attempt never leaves a terminal state.\<close>

theorem store_history:
  assumes "store_reachable b3 db" "(store_step b3)\<^sup>*\<^sup>* db db'"
  shows "evolves db db'"
  using steps_keep [OF assms(2) reachable_inv [OF assms(1)]] by blast

subsection \<open>Claims\<close>

text \<open>C19: When a job is claimed a second time, the second claim has a larger fencing token, and from
then on the first claim is spent, whatever the operations that follow.\<close>

theorem claim_fenced:
  assumes "store_reachable (ce_blake3 env1) db0" "claims env1 db0 db1 j1" "(store_step (ce_blake3 env1))\<^sup>*\<^sup>* db1 db2"
    and "claims env2 db2 db3 j2" "ce_blake3 env2 = ce_blake3 env1" "job_ID j2 = job_ID j1"
    and "(store_step (ce_blake3 env1))\<^sup>*\<^sup>* db3 db4"
  shows "job_FencingToken j1 < job_FencingToken j2 \<and> spent (job_Claim j1) db4"
  using claims_fence [OF assms(2) reachable_inv [OF assms(1)] assms(3-7)] by blast

text \<open>C20: Every operation that takes a claim refuses a spent one and leaves the database as it is:
the operations of the queue, of the check outbox, of previews and landings, and of runner executions.\<close>

theorem spent_claim_refused:
  assumes "store_reachable b3 db" "spent c db" "job_Claim j = c" "cpc_Claim p = c" "blc_Claim bl = c" "lfc_Claim fl = c"
    and "fresh_check d" "fresh_check (blc_DesiredCheck bl)" "fresh_check (lfc_BlockedCheck fl)"
  shows "refused db (ValidateClaim c db) \<and> refused db (CompleteClaim c payload db) \<and> refused db (FailClaim c db)
    \<and> refused db (AbandonClaim c now db) \<and> refused db (RejectClaim c code db)
    \<and> refused db (CommitCheckPublication b3 p db) \<and> refused db (SupersedeCheckClaim b3 c key v payload db)
    \<and> refused db (PublishPreviewResult b3 g plan d j payload db)
    \<and> refused db (CommitBlockedLanding b3 bl db) \<and> refused db (CommitLandingFailure b3 fl db)
    \<and> refused db (PrepareRunnerExecution c seed db) \<and> refused db (AdoptRunnerExecution c e a db)
    \<and> refused db (ReplaceLocalRunnerAttempt c e a n spec own db) \<and> refused db (AllocateRunnerAttempt c e a n spec own db)
    \<and> refused db (RecordRunnerHandle c e a h db) \<and> refused db (CompleteRunnerExecution c e a digest t db)
    \<and> refused db (FailRunnerExecution c e a code db) \<and> refused db (BeginRunnerCancel c e a db)
    \<and> refused db (MarkRunnerCancelled c e a db)"
  using reachable_inv [OF assms(1)] assms(2-9) claim_ops_bar [of b3 c db] runner_ops_bar [of b3 c db]
    check_ops_bar(1) [of b3 p db] check_ops_bar(2) [of b3 c db] result_ops_bar(1) [of d b3 j db]
    result_ops_bar(2) [of bl b3 db] result_ops_bar(3) [of fl b3 db]
  by (simp add: bars_def)

text \<open>A claim is used once: after its holder has completed, failed, abandoned or rejected the
job, the claim is spent in every later database.\<close>

lemma claim_single_use:
  assumes "store_reachable b3 db" "(store_step b3)\<^sup>*\<^sup>* db1 db2"
    and "CompleteClaim c payload db = (db1, Inr ()) \<or> FailClaim c db = (db1, Inr ())
      \<or> AbandonClaim c now db = (db1, Inr ()) \<or> RejectClaim c code db = (db1, Inr ())"
  shows "spent c db2"
proof -
  have inv: "coordinator_inv b3 db" by (rule reachable_inv [OF assms(1)])
  have "spent c db1" using assms(3) release_ops_spend by blast
  moreover have "coordinator_inv b3 db1" 
    using assms(3) claim_ops_keep(1) [of b3 db c payload] claim_ops_keep(3) [of b3 db c now]
      claim_ops_keep(4) [of b3 db c code] claim_ops_keep(5) [of b3 db c] inv by (auto simp: op_keeps_def)
  ultimately show ?thesis using steps_keep [OF assms(2)] spent_evolves by blast
qed

text \<open>C26: A worker is given the claimable job of its kinds that comes first in the order (highest
priority, then earliest next attempt, then ID) once the exhausted jobs have been ended; only that
job changes, it has one attempt and one fencing token more, and its claim is valid.\<close>

theorem claim_selects:
  assumes "store_reachable (ce_blake3 env) db" "ClaimJobKinds env options db = (db', Inr (Some j))"
  shows "\<exists>d r. recoverExpiredExhaustedJobsTx env (time_UTC (db_now db)) db = Inr (d, ())
    \<and> first_row claim_order (\<lambda>r. cjr_Kind r \<in> set (jco_Kinds options) \<and> claimable (time_UTC (db_now db)) r) (db_jobs d) = Some r
    \<and> granted d r (jco_WorkerID options) (time_Add (time_UTC (db_now db)) (jco_LeaseDuration options)) db' j
    \<and> job_Attempts j = cjr_Attempts r + 1 \<and> job_FencingToken j = cjr_FencingToken r + 1
    \<and> ValidateClaim (job_Claim j) db' = (db', Inr ())"
proof -
  let ?until = "time_Add (time_UTC (db_now db)) (jco_LeaseDuration options)"
  have inv: "coordinator_inv (ce_blake3 env) db" by (rule reachable_inv [OF assms(1)])
  from ClaimJobKinds_run [OF assms(2) inv] obtain d r where pos: "0 < jco_LeaseDuration options" "TrimSpace (jco_WorkerID options) \<noteq> []"
    and d: "recoverExpiredExhaustedJobsTx env (time_UTC (db_now db)) db = Inr (d, ())"
    and r: "first_row claim_order (\<lambda>r. cjr_Kind r \<in> set (jco_Kinds options) \<and> claimable (time_UTC (db_now db)) r) (db_jobs d) = Some r"
    and grant: "granted d r (jco_WorkerID options) ?until db' j" by blast
  have "job_Attempts j = cjr_Attempts r + 1" "job_FencingToken j = cjr_FencingToken r + 1"
    using granted_row(2) [OF grant] by (simp_all add: coordinatorJobFrom_def lease_job_def)
  moreover have "ValidateClaim (job_Claim j) db' = (db', Inr ())"
    using granted_valid [OF grant recover_keeps(1) [OF inv d] pos(2)] pos(1)
    by (simp add: recover_clock [OF d] time_Add_def time_UTC_def)
  ultimately show ?thesis using d r grant by blast
qed

subsection \<open>The outbox\<close>

text \<open>C21: Repairing the outbox always succeeds, and afterwards each of the first limit unpublished checks
(in the order of their last change) has a job for its current version that is not over; no check
changes, and no job that was not over is lost.\<close>

theorem repair_revives:
  assumes "store_reachable b3 db" "1 \<le> limit"
  shows "\<exists>db' n. RepairDesiredChecks b3 limit db = (db', Inr n) \<and> db_checks db' = db_checks db
    \<and> list_all (will_publish b3 db')
        (take limit (order_rows (\<lambda>r. (time_instant (dcr_UpdatedAt r), dcr_LogicalKey r)) unpublished (db_checks db)))
    \<and> {x \<in> set (db_jobs db). \<not> job_over (cjr_State x)} \<subseteq> set (db_jobs db')"
proof -
  let ?rs = "take limit (order_rows (\<lambda>r. (time_instant (dcr_UpdatedAt r), dcr_LogicalKey r)) unpublished (db_checks db))"
  have "\<forall>c \<in> set ?rs. c \<in> set (db_checks db) \<and> unpublished c"
    by (auto simp: order_rows_def dest!: in_set_takeD)
  from repair_run [OF reachable_inv [OF assms(1)] this, of "time_UTC (db_now db)" 0] obtain db' m where
    run: "repair_checks b3 (time_UTC (db_now db)) ?rs 0 db = Inr (db', m)" "db_checks db' = db_checks db"
      "\<forall>c \<in> set ?rs. will_publish b3 db' c" "\<forall>x \<in> set (db_jobs db). \<not> job_over (cjr_State x) \<longrightarrow> x \<in> set (db_jobs db')" by blast
  then have "RepairDesiredChecks b3 limit db = (db', Inr m)"
    using assms(2) by (simp add: RepairDesiredChecks_def transaction_Inr tx_bind_Inr databaseTime_def)
  with run(2-) show ?thesis by (auto simp: list_all_iff)
qed

subsection \<open>Landing\<close>

text \<open>C4: The first time a landing is advanced it happens as a whole: the ref was the expected one and
is now the next one, with the next version; the receipt is indexed with the new commit; the intent,
which could be landed, is landed with it; and nothing else changes.\<close>

theorem landing_atomic:
  assumes "store_reachable b3 db" "Advance b3 clock input db = (db', Inr r)"
    and "validateLandingAdvance b3 input = Inr receipt" "\<forall>x \<in> set (db_receipts db). lrr_ReceiptID x \<noteq> rcpt_ID receipt"
  shows "r = adv_Next input \<and> ref_Version r = ref_Version (adv_Expected input) + 1
    \<and> current_ref (obj_RepositoryID (adv_Object input)) (obj_RefName (adv_Object input)) db = adv_Expected input
    \<and> current_ref (obj_RepositoryID (adv_Object input)) (obj_RefName (adv_Object input)) db' = r
    \<and> db_receipts db' = db_receipts db @ [receipt_row clock input receipt]
    \<and> rows_affected (to_land receipt) (db_landings db) = 1
    \<and> db_landings db' = update_rows (to_land receipt) (landed_row receipt r) (db_landings db)
    \<and> db' = db\<lparr>db_refs := db_refs db', db_receipts := db_receipts db', db_landings := db_landings db'\<rparr>"
proof -
  have inv: "coordinator_inv b3 db" by (rule reachable_inv [OF assms(1)])
  note first = advance_first [OF assms(2) [unfolded Advance_def] assms(3,4)]
  note run = land_run [OF first(1)]
  have "coordinator_inv b3 (land_writes clock input receipt db)" using land_writes_keep [OF inv run(3,4,6)] by blast
  from land_writes_ref [OF inv this run(5) validateLandingAdvance_run [OF assms(3)]] run(1,2,3,6) show ?thesis
    unfolding first(2) by (simp add: land_writes_def)
qed

text \<open>C24: A landing is idempotent: advancing it again with the same input, after any further operations,
succeeds, changes nothing at all and returns the ref as it is now.\<close>

theorem landing_idempotent:
  assumes "store_reachable b3 db" "Advance b3 clock input db = (db1, Inr r)"
    and "validateLandingAdvance b3 input = Inr receipt" "\<forall>x \<in> set (db_receipts db). lrr_ReceiptID x \<noteq> rcpt_ID receipt"
    and "(store_step b3)\<^sup>*\<^sup>* db1 db2"
  shows "Advance b3 clock' input db2
    = (db2, Inr (current_ref (obj_RepositoryID (adv_Object input)) (obj_RefName (adv_Object input)) db2))"
proof -
  have inv: "coordinator_inv b3 db" by (rule reachable_inv [OF assms(1)])
  note first = advance_first [OF assms(2) [unfolded Advance_def] assms(3,4)]
  note run = land_run [OF first(1)]
  have "coordinator_inv b3 db1" using land_writes_keep [OF inv run(3,4,6)] first(2) by blast
  then have inv2: "coordinator_inv b3 db2" and ev: "evolves db1 db2" using steps_keep [OF assms(5)] by simp_all
  have "receipt_row clock input receipt \<in> set (db_receipts db1)" by (simp add: first(2) land_writes_def)
  with ev have x: "receipt_row clock input receipt \<in> set (db_receipts db2)" by (auto simp: evolves_def keeps_rows_def)
  from rows_affected_pos [OF run(5)] obtain y where y: "y \<in> set (db_refs db)" "at_ref (adv_Object input) (adv_Expected input) y"
    by blast
  then have "move_ref (adv_Next input) y \<in> set (db_refs db1)" by (force simp: first(2) land_writes_def update_rows_set)
  with ev obtain z where z: "z \<in> set (db_refs db2)" "ref_step (move_ref (adv_Next input) y) z"
    by (auto simp: evolves_def keeps_rows_def)
  have "ref_key (obj_RepositoryID (adv_Object input)) (obj_RefName (adv_Object input)) z"
    using z(2) y(2) by (simp add: ref_step_def at_ref_def ref_key_def record_ref_key_def move_ref_def)
  from advance_repeated [OF inv2 assms(3) x _ _ _ _ z(1) this] show ?thesis
    unfolding Advance_def by (simp add: receipt_row_def)
qed

subsection \<open>Refs\<close>

text \<open>C25: No update of a ref is lost: once a compare-and-swap from an expected value has succeeded, every
later one from the same value is refused, whatever operations happened in between.\<close>

theorem no_lost_update:
  assumes "store_reachable b3 db" "CompareAndSwapRef repo name expected nxt db = (db1, Inr r)"
    and "(store_step b3)\<^sup>*\<^sup>* db1 db2"
  shows "refused db2 (CompareAndSwapRef repo name expected other db2)"
proof (rule ccontr)
  assume "\<not> refused db2 (CompareAndSwapRef repo name expected other db2)"
  then obtain db3 r' where again: "CompareAndSwapRef repo name expected other db2 = (db3, Inr r')" using cas_refused by blast
  have inv: "coordinator_inv b3 db" by (rule reachable_inv [OF assms(1)])
  have "coordinator_inv b3 db1" using CompareAndSwapRef_keeps [of b3 db repo name expected nxt] inv
    by (simp add: op_keeps_def assms(2))
  then have inv2: "coordinator_inv b3 db2" and ev: "evolves db1 db2" using steps_keep [OF assms(3)] by simp_all
  obtain x where x: "x \<in> set (db_refs db1)" "ref_key repo name x" "refr_Version x = ref_Version nxt" using cas_row [OF assms(2)] .
  with ev obtain z where z: "z \<in> set (db_refs db2)" "ref_step x z" by (auto simp: evolves_def keeps_rows_def)
  then have "ref_key repo name z" using x(2) by (simp add: ref_step_def ref_key_def record_ref_key_def)
  from current_ref_row [OF inv2 z(1) this] have "expected = ref_of_record z" using cas_success(2) [OF again] by simp
  then have "ref_Version expected = refr_Version z" by (simp add: ref_of_record_def)
  with z(2) x(3) cas_success(3) [OF assms(2)] show False by (simp add: ref_step_def)
qed

end
