(* ===== verification/Object_Graph.thy ===== *)
theory Object_Graph
  imports Object_Facts
begin

text \<open>
  Loading the ancestry of a context object (\<open>loadObjectGraphFrom\<close> of store/objects.go): a depth-first
  search over content-addressed objects that reports cycles, objects whose contents do not match
  their ID, and objects that fail validation.  The reader and the decoder of \<open>encoding/json\<close> are
  parameters.  The recursion of the code is bounded here by fuel, one unit per nested visit;
  \<open>graph_terminates\<close> shows how much is enough, and \<open>None\<close> is the value of a search that ran out.
\<close>

subsection \<open>Reading one object\<close>

text \<open>What \<open>decoder.Decode\<close> reports: a field the struct does not have, any other failure, or a value
  and whether only white space follows it.\<close>

datatype 'a json_decoded = UnknownField | DecodeFailed | Decoded 'a bool

definition decodeContextObject :: "(string \<Rightarrow> ContextObject json_decoded) \<Rightarrow> string \<Rightarrow> ContextObject result" where
  "decodeContextObject decode contents =
     (case decode contents of
        UnknownField \<Rightarrow> Inl CodeValidation
      | DecodeFailed \<Rightarrow> Inl CodeLocalStorage
      | Decoded obj at_end \<Rightarrow> if at_end then Inr obj else Inl CodeValidation)"

definition load_object :: "(string \<Rightarrow> string) \<Rightarrow> (string \<Rightarrow> ContextObject json_decoded) \<Rightarrow> string \<Rightarrow> string \<Rightarrow>
    (string \<Rightarrow> string result) \<Rightarrow> string \<Rightarrow> (string \<times> ContextObject) result" where
  "load_object b3 decode repositoryID refName readObject identifier =
     and_then (readObject identifier) (\<lambda>contents.
     if hex_encode (b3 contents) \<noteq> identifier then Inl CodeValidation
     else and_then (decodeContextObject decode contents) (\<lambda>obj.
       let obj = (if obj_SchemaVersion obj = 1
             then obj\<lparr>obj_Notes := map_option (map (\<lambda>n. NormalizeLegacyNote n (obj_SourceSHA obj))) (obj_Notes obj)\<rparr>
             else obj)
       in and_then (validateContextObject obj repositoryID refName) (\<lambda>_. Inr (contents, obj))))"

subsection \<open>The search\<close>

datatype visit_state = unvisited | visiting | visited

type_synonym graph_state = "(string \<Rightarrow> visit_state) \<times> storedContextObject list"

type_synonym loader = "string \<Rightarrow> (string \<times> ContextObject) result"

function visit :: "loader \<Rightarrow> nat \<Rightarrow> string \<Rightarrow> graph_state \<Rightarrow> graph_state result option"
  and visit_parents :: "loader \<Rightarrow> nat \<Rightarrow> string list \<Rightarrow> graph_state \<Rightarrow> graph_state result option" where
  "visit load 0 identifier st = None"
| "visit load (Suc fuel) identifier st =
     (case fst st identifier of
        visiting \<Rightarrow> Some (Inl CodeValidation)
      | visited \<Rightarrow> Some (Inr st)
      | unvisited \<Rightarrow>
          (case load identifier of
             Inl e \<Rightarrow> Some (Inl e)
           | Inr (contents, obj) \<Rightarrow>
               (case visit_parents load fuel (contextObjectParentIDs obj)
                       ((fst st)(identifier := visiting), snd st) of
                  None \<Rightarrow> None
                | Some (Inl e) \<Rightarrow> Some (Inl e)
                | Some (Inr (states, graph)) \<Rightarrow>
                    Some (Inr (states(identifier := visited), graph @ [\<lparr>sco_ID = identifier,
                      sco_Contents = contents, sco_Object = obj\<rparr>])))))"
| "visit_parents load fuel [] st = Some (Inr st)"
| "visit_parents load fuel (parentID # rest) st =
     (case normalizeObjectID parentID of
        Inl e \<Rightarrow> Some (Inl e)
      | Inr normalized \<Rightarrow>
          (case visit load fuel normalized st of
             None \<Rightarrow> None
           | Some (Inl e) \<Rightarrow> Some (Inl e)
           | Some (Inr st') \<Rightarrow> visit_parents load fuel rest st'))"
  by pat_completeness auto
termination
  by (relation "measures [\<lambda>x. case x of Inl (_, fuel, _, _) \<Rightarrow> 2 * fuel | Inr (_, fuel, _, _) \<Rightarrow> 2 * fuel + 1,
      \<lambda>x. case x of Inl _ \<Rightarrow> 0 | Inr (_, _, parents, _) \<Rightarrow> length parents]") auto

definition loadObjectGraphFrom :: "(string \<Rightarrow> string) \<Rightarrow> (string \<Rightarrow> ContextObject json_decoded) \<Rightarrow> nat \<Rightarrow>
    string \<Rightarrow> string \<Rightarrow> string \<Rightarrow> (string \<Rightarrow> string result) \<Rightarrow> storedContextObject list result option" where
  "loadObjectGraphFrom b3 decode fuel commitID repositoryID refName readObject =
     (case normalizeObjectID commitID of
        Inl e \<Rightarrow> Some (Inl e)
      | Inr rootID \<Rightarrow>
          map_option (\<lambda>r. and_then r (\<lambda>(_, graph).
              and_then (validateRevisionLinks graph) (\<lambda>_.
              and_then (validateLandingReceiptLinks graph) (\<lambda>_. Inr graph))))
            (visit (load_object b3 decode repositoryID refName readObject) fuel rootID (\<lambda>_. unvisited, [])))"

subsection \<open>Reachability\<close>

definition object_parent :: "loader \<Rightarrow> string \<Rightarrow> string \<Rightarrow> bool" where
  "object_parent load a b \<longleftrightarrow> (\<exists>contents obj q. load a = Inr (contents, obj)
     \<and> q \<in> set (contextObjectParentIDs obj) \<and> normalizeObjectID q = Inr b)"

abbreviation ancestor_or_self :: "loader \<Rightarrow> string \<Rightarrow> string \<Rightarrow> bool" where
  "ancestor_or_self load \<equiv> (object_parent load)\<^sup>*\<^sup>*"

definition graph_ids :: "storedContextObject list \<Rightarrow> string set" where
  "graph_ids graph = sco_ID ` set graph"

lemma graph_ids_simps [simp]:
  "graph_ids [] = {}" "graph_ids (xs @ ys) = graph_ids xs \<union> graph_ids ys"
  "graph_ids (x # xs) = insert (sco_ID x) (graph_ids xs)"
  by (auto simp: graph_ids_def)

text \<open>A stored object is what the loader returns for its ID, and its parents precede it.\<close>

definition item_ok :: "loader \<Rightarrow> string set \<Rightarrow> storedContextObject \<Rightarrow> bool" where
  "item_ok load earlier item \<longleftrightarrow> sco_ID item \<notin> earlier
     \<and> load (sco_ID item) = Inr (sco_Contents item, sco_Object item)
     \<and> (\<forall>q \<in> set (contextObjectParentIDs (sco_Object item)). \<exists>b \<in> earlier. normalizeObjectID q = Inr b)"

fun topological :: "loader \<Rightarrow> string set \<Rightarrow> storedContextObject list \<Rightarrow> bool" where
  "topological load earlier [] = True"
| "topological load earlier (item # rest) =
     (item_ok load earlier item \<and> topological load (insert (sco_ID item) earlier) rest)"

lemma topological_append:
  "topological load A (xs @ ys) \<longleftrightarrow> topological load A xs \<and> topological load (A \<union> graph_ids xs) ys"
  by (induction xs arbitrary: A) auto

lemma topological_distinct:
  "topological load A g \<Longrightarrow> distinct (map sco_ID g) \<and> A \<inter> graph_ids g = {}"
  by (induction g arbitrary: A) (auto simp: item_ok_def graph_ids_def)

lemma topological_item:
  "topological load A g \<Longrightarrow> item \<in> set g \<Longrightarrow> load (sco_ID item) = Inr (sco_Contents item, sco_Object item)"
  by (induction g arbitrary: A) (auto simp: item_ok_def)

lemma topological_parents:
  "topological load A g \<Longrightarrow> item \<in> set g \<Longrightarrow> q \<in> set (contextObjectParentIDs (sco_Object item))
     \<Longrightarrow> \<exists>b \<in> A \<union> graph_ids g. normalizeObjectID q = Inr b"
  by (induction g arbitrary: A) (auto simp: item_ok_def)

lemma topological_closed:
  assumes "topological load {} g" "a \<in> graph_ids g" "object_parent load a b"
  shows "b \<in> graph_ids g"
proof -
  from assms(2) obtain item where item: "item \<in> set g" "a = sco_ID item" by (auto simp: graph_ids_def)
  with assms(3) topological_item [OF assms(1) item(1)] obtain q where
    q: "q \<in> set (contextObjectParentIDs (sco_Object item))" "normalizeObjectID q = Inr b"
    by (auto simp: object_parent_def)
  from topological_parents [OF assms(1) item(1) q(1)] q(2) show ?thesis by auto
qed

lemma topological_reachable:
  assumes "topological load {} g" "a \<in> graph_ids g" "ancestor_or_self load a b"
  shows "b \<in> graph_ids g"
  using assms(3,2)
proof (induction rule: rtranclp_induct)
  case base
  then show ?case .
next
  case (step y z)
  then show ?case using topological_closed [OF assms(1)] by blast
qed

text \<open>Positions decrease along parents, so a loaded ancestry has no cycle.\<close>

lemma topological_acyclic:
  assumes "topological load {} g" "a \<in> graph_ids g"
  shows "\<not> (object_parent load)\<^sup>+\<^sup>+ a a"
proof -
  have earlier: "b \<in> A \<union> graph_ids xs"
    if "topological load A (xs @ x # ys)" "object_parent load (sco_ID x) b" for A xs x ys b
  proof -
    from that(1) have x: "item_ok load (A \<union> graph_ids xs) x" by (simp add: topological_append)
    with that(2) show ?thesis by (auto simp: item_ok_def object_parent_def)
  qed
  have "\<exists>xs ys x. g = xs @ x # ys \<and> sco_ID x = a \<and> b \<in> graph_ids xs"
    if "(object_parent load)\<^sup>+\<^sup>+ a b" for b
    using that
  proof (induction rule: tranclp_induct)
    case (base b)
    from assms(2) obtain x where x: "x \<in> set g" "sco_ID x = a" by (auto simp: graph_ids_def)
    then obtain xs ys where g: "g = xs @ x # ys" by (meson split_list)
    from earlier [of "{}" xs x ys b] assms(1) base x g show ?case by auto
  next
    case (step b c)
    then obtain xs ys x where g: "g = xs @ x # ys" "sco_ID x = a" "b \<in> graph_ids xs" by blast
    then obtain y where y: "y \<in> set xs" "sco_ID y = b" by (auto simp: graph_ids_def)
    then obtain us vs where xs: "xs = us @ y # vs" by (meson split_list)
    from earlier [of "{}" us y "vs @ x # ys" c] assms(1) step.hyps(2) y g xs have "c \<in> graph_ids us" by auto
    then have "c \<in> graph_ids xs" by (simp add: xs)
    with g show ?case by blast
  qed
  then show ?thesis
    using topological_distinct [OF assms(1)] by (fastforce simp: graph_ids_def)
qed

subsection \<open>What a successful search has established\<close>

definition graph_inv :: "loader \<Rightarrow> graph_state \<Rightarrow> bool" where
  "graph_inv load st \<longleftrightarrow> topological load {} (snd st)
     \<and> (\<forall>x. fst st x = visited \<longleftrightarrow> x \<in> graph_ids (snd st))"

definition search_step :: "loader \<Rightarrow> string set \<Rightarrow> graph_state \<Rightarrow> graph_state \<Rightarrow> bool" where
  "search_step load roots st st' \<longleftrightarrow> graph_inv load st'
     \<and> (\<forall>x. fst st' x = visiting \<longleftrightarrow> fst st x = visiting)
     \<and> (\<exists>new. snd st' = snd st @ new \<and> (\<forall>x \<in> graph_ids new. \<exists>r \<in> roots. ancestor_or_self load r x))"

lemma search_step_refl: "graph_inv load st \<Longrightarrow> search_step load R st st"
  by (simp add: search_step_def)

lemma search_step_trans:
  assumes "search_step load R st st'" "search_step load R' st' st''"
  shows "search_step load (R \<union> R') st st''"
proof -
  from assms(1) obtain n1 where n1: "snd st' = snd st @ n1"
    "\<forall>x \<in> graph_ids n1. \<exists>r \<in> R. ancestor_or_self load r x" by (auto simp: search_step_def)
  from assms(2) obtain n2 where n2: "snd st'' = snd st' @ n2"
    "\<forall>x \<in> graph_ids n2. \<exists>r \<in> R'. ancestor_or_self load r x" by (auto simp: search_step_def)
  have "snd st'' = snd st @ (n1 @ n2)" using n1(1) n2(1) by simp
  moreover have "\<forall>x \<in> graph_ids (n1 @ n2). \<exists>r \<in> R \<union> R'. ancestor_or_self load r x"
    using n1(2) n2(2) by auto
  ultimately show ?thesis using assms unfolding search_step_def by metis
qed

lemma search_visited:
  assumes "search_step load R st st'" "graph_inv load st" "fst st x = visited"
  shows "fst st' x = visited"
proof -
  have "graph_ids (snd st) \<subseteq> graph_ids (snd st')" using assms(1) by (auto simp: search_step_def)
  with assms show ?thesis unfolding graph_inv_def search_step_def by blast
qed

lemma visit_success:
  "visit load fuel a st = Some (Inr st') \<Longrightarrow> graph_inv load st \<Longrightarrow>
     search_step load {a} st st' \<and> fst st' a = visited
     \<and> (fst st a = unvisited \<longrightarrow> (\<exists>g item. snd st' = g @ [item] \<and> sco_ID item = a))"
  "visit_parents load fuel ps st = Some (Inr st') \<Longrightarrow> graph_inv load st \<Longrightarrow>
     \<exists>roots. map normalizeObjectID ps = map Inr roots \<and> search_step load (set roots) st st'
       \<and> (\<forall>r \<in> set roots. fst st' r = visited)"
proof (induction load fuel a st and load fuel ps st arbitrary: st' and st' rule: visit_visit_parents.induct)
  case (1 load a st)
  then show ?case by simp
next
  case (2 load fuel a st)
  show ?case
  proof (cases "fst st a")
    case visiting
    with "2.prems" show ?thesis by simp
  next
    case visited
    with "2.prems" show ?thesis by (simp add: search_step_refl)
  next
    case unvisited
    let ?mid = "((fst st)(a := visiting), snd st)"
    from "2.prems"(1) unvisited obtain contents obj where l: "load a = Inr (contents, obj)"
      by (auto split: sum.splits)
    with "2.prems"(1) unvisited obtain S G where
      p: "visit_parents load fuel (contextObjectParentIDs obj) ?mid = Some (Inr (S, G))"
      and st': "st' = (S(a := visited), G @ [\<lparr>sco_ID = a, sco_Contents = contents, sco_Object = obj\<rparr>])"
      by (auto split: option.splits sum.splits)
    have a: "a \<notin> graph_ids (snd st)" using "2.prems"(2) unvisited unfolding graph_inv_def by (metis visit_state.distinct)
    then have mid: "graph_inv load ?mid" using "2.prems"(2) by (auto simp: graph_inv_def)
    from "2.IH" [OF unvisited l refl p mid] obtain roots where
      roots: "map normalizeObjectID (contextObjectParentIDs obj) = map Inr roots"
      "search_step load (set roots) ?mid (S, G)" "\<forall>r \<in> set roots. S r = visited" by auto
    let ?item = "\<lparr>sco_ID = a, sco_Contents = contents, sco_Object = obj\<rparr>"
    from roots(2) obtain new where G: "G = snd st @ new"
      "\<forall>x \<in> graph_ids new. \<exists>r \<in> set roots. ancestor_or_self load r x" by (auto simp: search_step_def)
    from roots(2) have SG: "topological load {} G" "\<And>x. S x = visited \<longleftrightarrow> x \<in> graph_ids G"
      and vis: "\<And>x. S x = visiting \<longleftrightarrow> x = a \<or> fst st x = visiting"
      by (auto simp: search_step_def graph_inv_def)
    have Sa: "S a = visiting" by (simp add: vis)
    have parent: "object_parent load a r" if "r \<in> set roots" for r
    proof -
      from that roots(1) have "Inr r \<in> set (map normalizeObjectID (contextObjectParentIDs obj))" by simp
      with l show ?thesis by (auto simp: object_parent_def)
    qed
    have "\<exists>b \<in> graph_ids G. normalizeObjectID q = Inr b" if "q \<in> set (contextObjectParentIDs obj)" for q
    proof -
      from that have "normalizeObjectID q \<in> set (map Inr roots)" by (metis roots(1) image_eqI list.set_map)
      with roots(3) SG(2) show ?thesis by auto
    qed
    then have item: "item_ok load (graph_ids G) ?item"
      using Sa SG(2) [of a] l by (auto simp: item_ok_def)
    have inv: "graph_inv load st'"
      using SG item Sa by (auto simp: graph_inv_def st' topological_append)
    have "\<forall>x \<in> graph_ids (new @ [?item]). ancestor_or_self load a x"
    proof
      fix x assume "x \<in> graph_ids (new @ [?item])"
      then consider "x = a" | "x \<in> graph_ids new" by auto
      then show "ancestor_or_self load a x"
      proof cases
        case 1
        then show ?thesis by simp
      next
        case 2
        with G(2) obtain r where "r \<in> set roots" "ancestor_or_self load r x" by blast
        with parent show ?thesis by (meson converse_rtranclp_into_rtranclp)
      qed
    qed
    moreover have "snd st' = snd st @ (new @ [?item])" by (simp add: st' G)
    moreover have "\<forall>x. fst st' x = visiting \<longleftrightarrow> fst st x = visiting"
      using vis unvisited by (auto simp: st')
    ultimately have "search_step load {a} st st'"
      using inv unfolding search_step_def by blast
    then show ?thesis by (auto simp: st')
  qed
next
  case (3 load fuel st)
  then show ?case by (intro exI [of _ "[]"]) (simp add: search_step_refl)
next
  case (4 load fuel p ps st)
  from "4.prems"(1) obtain b st1 where b: "normalizeObjectID p = Inr b"
    and v: "visit load fuel b st = Some (Inr st1)" and r: "visit_parents load fuel ps st1 = Some (Inr st')"
    by (auto split: sum.splits option.splits)
  from "4.IH"(1) [OF b v "4.prems"(2)] have s1: "search_step load {b} st st1" "fst st1 b = visited" by auto
  then have inv1: "graph_inv load st1" by (simp add: search_step_def)
  from "4.IH"(2) [OF b v refl r inv1] obtain roots where
    s2: "map normalizeObjectID ps = map Inr roots" "search_step load (set roots) st1 st'"
      "\<forall>r \<in> set roots. fst st' r = visited" by blast
  from search_step_trans [OF s1(1) s2(2)] have "search_step load (set (b # roots)) st st'" by simp
  moreover have "fst st' b = visited" using search_visited [OF s2(2) inv1] s1(2) by blast
  ultimately show ?case using b s2 by (intro exI [of _ "b # roots"]) simp
qed

subsection \<open>Why a search fails\<close>

text \<open>An ancestor that cannot be loaded, a parent ID that is malformed, or a cycle.\<close>

definition search_fault :: "loader \<Rightarrow> string set \<Rightarrow> (string \<Rightarrow> visit_state) \<Rightarrow> ErrorCode \<Rightarrow> bool" where
  "search_fault load roots states e \<longleftrightarrow> (\<exists>r \<in> roots. \<exists>x. ancestor_or_self load r x \<and>
     (load x = Inl e
      \<or> (\<exists>contents obj q. load x = Inr (contents, obj) \<and> q \<in> set (contextObjectParentIDs obj)
           \<and> normalizeObjectID q = Inl e)
      \<or> e = CodeValidation \<and> (states x = visiting \<or> (object_parent load)\<^sup>+\<^sup>+ x x)))"

lemma search_fault_mono:
  "search_fault load R states e \<Longrightarrow> R \<subseteq> R' \<Longrightarrow> (\<forall>x. states x = visiting \<longrightarrow> states' x = visiting)
    \<Longrightarrow> search_fault load R' states' e"
  unfolding search_fault_def by blast

lemma visit_failure:
  "visit load fuel a st = Some (Inl e) \<Longrightarrow> graph_inv load st \<Longrightarrow> search_fault load {a} (fst st) e"
  "visit_parents load fuel ps st = Some (Inl e) \<Longrightarrow> graph_inv load st \<Longrightarrow>
     (\<exists>q \<in> set ps. normalizeObjectID q = Inl e)
     \<or> search_fault load {b. \<exists>q \<in> set ps. normalizeObjectID q = Inr b} (fst st) e"
proof (induction load fuel a st and load fuel ps st rule: visit_visit_parents.induct)
  case (1 load a st)
  then show ?case by simp
next
  case (2 load fuel a st)
  show ?case
  proof (cases "fst st a")
    case visiting
    with "2.prems" show ?thesis by (auto simp: search_fault_def)
  next
    case visited
    with "2.prems" show ?thesis by simp
  next
    case unvisited
    let ?mid = "((fst st)(a := visiting), snd st)"
    have a: "a \<notin> graph_ids (snd st)" using "2.prems"(2) unvisited unfolding graph_inv_def by (metis visit_state.distinct)
    then have mid: "graph_inv load ?mid" using "2.prems"(2) by (auto simp: graph_inv_def)
    show ?thesis
    proof (cases "load a")
      case (Inl e')
      with "2.prems"(1) unvisited show ?thesis by (auto simp: search_fault_def)
    next
      case (Inr r)
      obtain contents obj where r: "(contents, obj) = r" by (cases r) auto
      from "2.prems"(1) unvisited Inr r have
        p: "visit_parents load fuel (contextObjectParentIDs obj) ?mid = Some (Inl e)"
        by (auto split: option.splits sum.splits)
      from "2.IH" [OF unvisited Inr r p mid] consider
        q where "q \<in> set (contextObjectParentIDs obj)" "normalizeObjectID q = Inl e"
      | "search_fault load {b. \<exists>q \<in> set (contextObjectParentIDs obj). normalizeObjectID q = Inr b} (fst ?mid) e"
        by blast
      then show ?thesis
      proof cases
        case 1
        with Inr r show ?thesis unfolding search_fault_def by blast
      next
        case 2
        then obtain q b x where q: "q \<in> set (contextObjectParentIDs obj)" "normalizeObjectID q = Inr b"
          and x: "ancestor_or_self load b x"
          and why: "load x = Inl e \<or> (\<exists>contents obj q. load x = Inr (contents, obj)
              \<and> q \<in> set (contextObjectParentIDs obj) \<and> normalizeObjectID q = Inl e)
             \<or> e = CodeValidation \<and> ((fst st)(a := visiting)) x = visiting
             \<or> e = CodeValidation \<and> (object_parent load)\<^sup>+\<^sup>+ x x"
          unfolding search_fault_def fst_conv by blast
        have ab: "object_parent load a b" using q Inr r by (auto simp: object_parent_def)
        then have ax: "(object_parent load)\<^sup>+\<^sup>+ a x" using x by (rule rtranclp_into_tranclp2)
        then have "ancestor_or_self load a x" by (rule tranclp_into_rtranclp)
        moreover have "(object_parent load)\<^sup>+\<^sup>+ x x \<or> fst st x = visiting" if "((fst st)(a := visiting)) x = visiting"
          using that ax by (cases "x = a") auto
        ultimately show ?thesis using why unfolding search_fault_def by blast
      qed
    qed
  qed
next
  case (3 load fuel st)
  then show ?case by simp
next
  case (4 load fuel p ps st)
  show ?case
  proof (cases "normalizeObjectID p")
    case (Inl e')
    with "4.prems"(1) show ?thesis by simp
  next
    case (Inr b)
    with "4.prems"(1) consider "visit load fuel b st = Some (Inl e)"
      | st1 where "visit load fuel b st = Some (Inr st1)" "visit_parents load fuel ps st1 = Some (Inl e)"
      by (auto split: option.splits sum.splits)
    then show ?thesis
    proof cases
      case 1
      from "4.IH"(1) [OF Inr 1 "4.prems"(2)] have f1: "search_fault load {b} (fst st) e" .
      have "search_fault load {b. \<exists>q \<in> set (p # ps). normalizeObjectID q = Inr b} (fst st) e"
        using Inr by (intro search_fault_mono [OF f1]) auto
      then show ?thesis by blast
    next
      case 2
      from visit_success(1) [OF 2(1) "4.prems"(2)] have s: "search_step load {b} st st1" by blast
      then have inv: "graph_inv load st1" and vis: "\<forall>x. fst st1 x = visiting \<longrightarrow> fst st x = visiting"
        by (auto simp: search_step_def)
      from "4.IH"(2) [OF Inr 2(1) refl 2(2) inv] consider
          q where "q \<in> set ps" "normalizeObjectID q = Inl e"
        | (fault) "search_fault load {b. \<exists>q \<in> set ps. normalizeObjectID q = Inr b} (fst st1) e" by blast
      then show ?thesis
      proof cases
        case 1
        then show ?thesis by auto
      next
        case fault
        have "search_fault load {b. \<exists>q \<in> set (p # ps). normalizeObjectID q = Inr b} (fst st) e"
          using vis by (intro search_fault_mono [OF fault]) auto
        then show ?thesis by blast
      qed
    qed
  qed
qed

subsection \<open>Termination\<close>

text \<open>Each nested visit marks another object that loads, so their number bounds the depth.\<close>

definition loadable :: "loader \<Rightarrow> string set" where
  "loadable load = {a. \<exists>r. load a = Inr r}"

lemma visit_terminates:
  "finite (loadable load) \<Longrightarrow> graph_inv load st \<Longrightarrow> card {a \<in> loadable load. fst st a \<noteq> visiting} < fuel \<Longrightarrow>
     \<exists>r. visit load fuel a st = Some r"
  "finite (loadable load) \<Longrightarrow> graph_inv load st \<Longrightarrow> card {a \<in> loadable load. fst st a \<noteq> visiting} < fuel \<Longrightarrow>
     \<exists>r. visit_parents load fuel ps st = Some r"
proof (induction load fuel a st and load fuel ps st rule: visit_visit_parents.induct)
  case (1 load a st)
  then show ?case by simp
next
  case (2 load fuel a st)
  show ?case
  proof (cases "fst st a = unvisited \<and> a \<in> loadable load")
    case False
    then show ?thesis
      by (cases "fst st a"; cases "load a") (auto simp: loadable_def)
  next
    case True
    then have un: "fst st a = unvisited" by blast
    from True obtain contents obj where l: "load a = Inr (contents, obj)" by (auto simp: loadable_def)
    let ?mid = "((fst st)(a := visiting), snd st)" and ?free = "\<lambda>st. {a \<in> loadable load. fst st a \<noteq> visiting}"
    have a: "a \<notin> graph_ids (snd st)" using "2.prems"(2) un unfolding graph_inv_def by (metis visit_state.distinct)
    then have mid: "graph_inv load ?mid" using "2.prems"(2) by (auto simp: graph_inv_def)
    have "?free ?mid = ?free st - {a}" by auto
    moreover have "a \<in> ?free st" using True by simp
    moreover have "finite (?free st)" using "2.prems"(1) by simp
    ultimately have "card (?free ?mid) < fuel"
      using "2.prems"(3) by (metis Suc_less_eq card_Suc_Diff1)
    from "2.IH" [OF un l refl "2.prems"(1) mid this] obtain r where
      "visit_parents load fuel (contextObjectParentIDs obj) ?mid = Some r" by blast
    then show ?thesis using un l by (cases r) auto
  qed
next
  case (3 load fuel st)
  then show ?case by simp
next
  case (4 load fuel p ps st)
  show ?case
  proof (cases "normalizeObjectID p")
    case (Inl e)
    then show ?thesis by simp
  next
    case (Inr b)
    from "4.IH"(1) [OF Inr "4.prems"] obtain r where r: "visit load fuel b st = Some r" by blast
    show ?thesis
    proof (cases r)
      case (Inl e)
      with r \<open>normalizeObjectID p = Inr b\<close> show ?thesis by simp
    next
      case (Inr st1)
      from visit_success(1) [OF r [unfolded Inr] "4.prems"(2)] have s: "search_step load {b} st st1" by blast
      then have inv: "graph_inv load st1" and vis: "\<And>x. fst st1 x = visiting \<longleftrightarrow> fst st x = visiting"
        by (auto simp: search_step_def)
      then have "card {a \<in> loadable load. fst st1 a \<noteq> visiting} < fuel" using "4.prems"(3) by simp
      from "4.IH"(2) [OF \<open>normalizeObjectID p = Inr b\<close> r Inr "4.prems"(1) inv this]
      show ?thesis using r Inr \<open>normalizeObjectID p = Inr b\<close> by simp
    qed
  qed
qed

subsection \<open>Loaded ancestries\<close>

lemma load_object_ok:
  assumes "load_object b3 decode repositoryID refName readObject a = Inr (contents, obj)"
  shows "readObject a = Inr contents \<and> hex_encode (b3 contents) = a \<and> object_wf obj repositoryID refName"
  using assms
  by (auto simp: load_object_def Let_def validateContextObject_eq split: if_splits)

definition start_state :: graph_state where
  "start_state = (\<lambda>_. unvisited, [])"

lemma start_inv: "graph_inv load start_state"
  by (simp add: graph_inv_def start_state_def)

lemma loadObjectGraphFrom_run:
  "normalizeObjectID commitID = Inr rootID \<Longrightarrow>
   loadObjectGraphFrom b3 decode fuel commitID repositoryID refName readObject =
     map_option (\<lambda>r. and_then r (\<lambda>(_, graph).
        if links_ok [] (chain_notes graph) \<and> receipt_links_ok graph then Inr graph else Inl CodeValidation))
      (visit (load_object b3 decode repositoryID refName readObject) fuel rootID start_state)"
  by (simp add: loadObjectGraphFrom_def validateRevisionLinks_eq validateLandingReceiptLinks_eq start_state_def
      if_distrib [of "\<lambda>r. and_then r f" for f] split_def if_if_eq_conj cong: if_cong)

end
