(* ===== verification/Object_Ancestry.thy ===== *)
theory Object_Ancestry
  imports Object_Graph
begin

text \<open>
  The operations of the object store on a loaded ancestry (store/objects.go): reading and importing
  chains, content-addressed writes, ancestry queries and merge bases.  A directory of objects is a
  map from IDs to contents.
\<close>

subsection \<open>The object directory\<close>

type_synonym object_dir = "string \<Rightarrow> string option"

definition read_object_file :: "object_dir \<Rightarrow> string \<Rightarrow> string result" where
  "read_object_file dir identifier = (case dir identifier of None \<Rightarrow> Inl CodeLocalStorage | Some contents \<Rightarrow> Inr contents)"

definition loadObjectGraph :: "(string \<Rightarrow> string) \<Rightarrow> (string \<Rightarrow> ContextObject json_decoded) \<Rightarrow> nat \<Rightarrow> object_dir \<Rightarrow>
    string \<Rightarrow> string \<Rightarrow> string \<Rightarrow> storedContextObject list result option" where
  "loadObjectGraph b3 decode fuel dir commitID repositoryID refName =
     loadObjectGraphFrom b3 decode fuel commitID repositoryID refName (read_object_file dir)"

record ObjectRecord =
  orec_ID :: string
  orec_Contents :: string
  orec_SourceSHA :: string

definition object_record :: "storedContextObject \<Rightarrow> ObjectRecord" where
  "object_record item = \<lparr>orec_ID = sco_ID item, orec_Contents = sco_Contents item,
     orec_SourceSHA = obj_SourceSHA (sco_Object item)\<rparr>"

definition ReadObjectChain :: "(string \<Rightarrow> string) \<Rightarrow> (string \<Rightarrow> ContextObject json_decoded) \<Rightarrow> nat \<Rightarrow> object_dir \<Rightarrow>
    string \<Rightarrow> string \<Rightarrow> string \<Rightarrow> ObjectRecord list result option" where
  "ReadObjectChain b3 decode fuel dir commitID repositoryID refName =
     map_option (\<lambda>r. and_then r (\<lambda>chain. Inr (map object_record chain)))
       (loadObjectGraph b3 decode fuel dir commitID repositoryID refName)"

definition ReadContextObject :: "(string \<Rightarrow> string) \<Rightarrow> (string \<Rightarrow> ContextObject json_decoded) \<Rightarrow> nat \<Rightarrow> object_dir \<Rightarrow>
    string \<Rightarrow> string \<Rightarrow> string \<Rightarrow> ContextObject result option" where
  "ReadContextObject b3 decode fuel dir commitID repositoryID refName =
     map_option (\<lambda>r. and_then r (\<lambda>chain. Inr (sco_Object (last chain))))
       (loadObjectGraph b3 decode fuel dir commitID repositoryID refName)"

text \<open>
  What the operating system does during one write: each of the calls can fail, a failed rename
  finds the contents another process has published meanwhile (or none), and a failed directory
  sync leaves the new file in place.
\<close>

datatype write_fault = WriteWorks | ReadFails | CreateFails | WriteFails | SyncFails | CloseFails
  | RenameFails "string option" | DirectorySyncFails

definition WriteObject :: "write_fault \<Rightarrow> string \<Rightarrow> string \<Rightarrow> object_dir \<Rightarrow> object_dir \<times> unit result" where
  "WriteObject fault identifier contents dir =
     (if fault = ReadFails then (dir, Inl CodeLocalStorage)
      else (case dir identifier of
          Some existing \<Rightarrow> if existing = contents then (dir, Inr ()) else (dir, Inl CodeLocalStorage)
        | None \<Rightarrow>
            if fault \<in> {CreateFails, WriteFails, SyncFails, CloseFails} then (dir, Inl CodeLocalStorage)
            else (case fault of
                RenameFails published \<Rightarrow>
                  (case published of
                     None \<Rightarrow> (dir, Inl CodeLocalStorage)
                   | Some existing \<Rightarrow> (dir(identifier \<mapsto> existing),
                       if existing = contents then Inr () else Inl CodeLocalStorage))
              | DirectorySyncFails \<Rightarrow> (dir(identifier \<mapsto> contents), Inl CodeLocalStorage)
              | _ \<Rightarrow> (dir(identifier \<mapsto> contents), Inr ()))))"

record ObjectChain =
  chain_TipID :: string
  chain_SourceSHA :: string
  chain_Count :: nat

fun import_objects :: "(nat \<Rightarrow> write_fault) \<Rightarrow> nat \<Rightarrow> storedContextObject list \<Rightarrow> object_dir \<Rightarrow>
    object_dir \<times> unit result" where
  "import_objects faults i [] dir = (dir, Inr ())"
| "import_objects faults i (item # rest) dir =
     (case WriteObject (faults i) (sco_ID item) (sco_Contents item) dir of
        (dir', Inl e) \<Rightarrow> (dir', Inl e)
      | (dir', Inr _) \<Rightarrow> import_objects faults (i + 1) rest dir')"

definition ImportObjectChain :: "(string \<Rightarrow> string) \<Rightarrow> (string \<Rightarrow> ContextObject json_decoded) \<Rightarrow> nat \<Rightarrow>
    (nat \<Rightarrow> write_fault) \<Rightarrow> string \<Rightarrow> string \<Rightarrow> string \<Rightarrow> (string \<Rightarrow> string result) option \<Rightarrow> object_dir \<Rightarrow>
    (object_dir \<times> ObjectChain result) option" where
  "ImportObjectChain b3 decode fuel faults commitID repositoryID refName reader dir =
     (case reader of
        None \<Rightarrow> Some (dir, Inl CodeValidation)
      | Some readObject \<Rightarrow>
          map_option (\<lambda>r. case r of
              Inl e \<Rightarrow> (dir, Inl e)
            | Inr chain \<Rightarrow>
                (case import_objects faults 0 chain dir of
                   (dir', Inl e) \<Rightarrow> (dir', Inl e)
                 | (dir', Inr _) \<Rightarrow> (dir', Inr \<lparr>chain_TipID = sco_ID (last chain),
                     chain_SourceSHA = obj_SourceSHA (sco_Object (last chain)), chain_Count = length chain\<rparr>)))
            (loadObjectGraphFrom b3 decode fuel commitID repositoryID refName readObject))"

subsection \<open>Ancestry queries\<close>

definition IsAncestor :: "(string \<Rightarrow> string) \<Rightarrow> (string \<Rightarrow> ContextObject json_decoded) \<Rightarrow> nat \<Rightarrow> object_dir \<Rightarrow>
    string \<Rightarrow> string \<Rightarrow> string \<Rightarrow> string \<Rightarrow> bool result option" where
  "IsAncestor b3 decode fuel dir descendantID ancestorID repositoryID refName =
     (if ancestorID = [] then Some (Inr True)
      else (case normalizeObjectID ancestorID of
          Inl e \<Rightarrow> Some (Inl e)
        | Inr ancestor \<Rightarrow>
            map_option (\<lambda>r. and_then r (\<lambda>chain. Inr (list_ex (\<lambda>item. sco_ID item = ancestor) chain)))
              (loadObjectGraph b3 decode fuel dir descendantID repositoryID refName)))"

definition graph_objects :: "storedContextObject list \<Rightarrow> ContextObject gomap" where
  "graph_objects graph = foldl (\<lambda>objects item. map_put (sco_ID item) (sco_Object item) objects) [] graph"

definition distance_step :: "ContextObject gomap \<Rightarrow> nat \<Rightarrow> nat gomap \<times> string list \<Rightarrow> string \<Rightarrow>
    (nat gomap \<times> string list) result" where
  "distance_step objects distance = (\<lambda>(distances, queue) parentID.
     if map_of objects parentID = None then Inl CodeValidation
     else let nextDistance = distance + 1
       in if (case map_of distances parentID of None \<Rightarrow> False
              | Some previousDistance \<Rightarrow> previousDistance \<le> nextDistance) then Inr (distances, queue)
          else Inr (map_put parentID nextDistance distances, queue @ [parentID]))"

text \<open>Each iteration takes one object from the queue; \<open>None\<close> is a loop that ran out of fuel.\<close>

fun distance_loop :: "ContextObject gomap \<Rightarrow> nat \<Rightarrow> nat gomap \<Rightarrow> string list \<Rightarrow> nat gomap result option" where
  "distance_loop objects fuel distances [] = Some (Inr distances)"
| "distance_loop objects 0 distances (identifier # queue) = None"
| "distance_loop objects (Suc fuel) distances (identifier # queue) =
     (case range_loop (distance_step objects (the (map_of distances identifier))) (distances, queue)
             (contextObjectParentIDs (the (map_of objects identifier))) of
        Inl e \<Rightarrow> Some (Inl e)
      | Inr (distances', queue') \<Rightarrow> distance_loop objects fuel distances' queue')"

definition snapshotAncestorDistances :: "string \<Rightarrow> storedContextObject list \<Rightarrow> nat gomap result option" where
  "snapshotAncestorDistances tipID graph =
     (let objects = graph_objects graph
      in if map_of objects tipID = None then Some (Inl CodeValidation)
         else distance_loop objects (length graph) [(tipID, 0)] [tipID])"

definition base_step :: "nat gomap \<Rightarrow> string \<times> nat \<times> nat \<Rightarrow> string \<times> nat \<Rightarrow> string \<times> nat \<times> nat" where
  "base_step remoteDistances = (\<lambda>(baseID, bestMaximum, bestTotal) (identifier, localDistance).
     case map_of remoteDistances identifier of
       None \<Rightarrow> (baseID, bestMaximum, bestTotal)
     | Some remoteDistance \<Rightarrow>
         let maximum = (if remoteDistance > localDistance then remoteDistance else localDistance);
             total = localDistance + remoteDistance
         in if baseID = [] \<or> maximum < bestMaximum
               \<or> (maximum = bestMaximum \<and> (total < bestTotal \<or> (total = bestTotal \<and> identifier < baseID)))
            then (identifier, maximum, total) else (baseID, bestMaximum, bestTotal))"

definition best_base :: "map_order \<Rightarrow> nat gomap \<Rightarrow> nat gomap \<Rightarrow> string result" where
  "best_base ord localDistances remoteDistances =
     (case foldl (base_step remoteDistances) ([], 0, 0) (map_range ord 0 localDistances) of
        (baseID, _, _) \<Rightarrow> if baseID = [] then Inl CodeRemoteConflict else Inr baseID)"

definition opt_then :: "('e + 'a) option \<Rightarrow> ('a \<Rightarrow> ('e + 'b) option) \<Rightarrow> ('e + 'b) option" where
  "opt_then r f = (case r of None \<Rightarrow> None | Some (Inl e) \<Rightarrow> Some (Inl e) | Some (Inr x) \<Rightarrow> f x)"

definition FindMergeBase :: "(string \<Rightarrow> string) \<Rightarrow> (string \<Rightarrow> ContextObject json_decoded) \<Rightarrow> map_order \<Rightarrow> nat \<Rightarrow>
    object_dir \<Rightarrow> string \<Rightarrow> string \<Rightarrow> string \<Rightarrow> string \<Rightarrow> string result option" where
  "FindMergeBase b3 decode ord fuel dir localID remoteID repositoryID refName =
     opt_then (Some (normalizeObjectID localID)) (\<lambda>localID.
     opt_then (Some (normalizeObjectID remoteID)) (\<lambda>remoteID.
     opt_then (loadObjectGraph b3 decode fuel dir localID repositoryID refName) (\<lambda>localGraph.
     opt_then (loadObjectGraph b3 decode fuel dir remoteID repositoryID refName) (\<lambda>remoteGraph.
     opt_then (snapshotAncestorDistances localID localGraph) (\<lambda>localDistances.
     opt_then (snapshotAncestorDistances remoteID remoteGraph) (\<lambda>remoteDistances.
       Some (best_base ord localDistances remoteDistances)))))))"

end
