(* ===== verification/Ancestry_Properties.thy ===== *)
theory Ancestry_Properties
  imports Object_Ancestry
begin

text \<open>
  The properties of the object store: what a loaded ancestry guarantees, when loading fails and how
  much fuel it needs, that an import makes the ancestry readable locally, and that merge bases are
  the nearest common ancestors by distance.
\<close>

subsection \<open>Validation\<close>

text \<open>
  The conditions on an object, written out field by field and without the predicates the model of the
  validators is made of.
\<close>

definition valid_entity :: "ContextObject \<Rightarrow> Entity \<Rightarrow> bool" where
  "valid_entity obj e \<longleftrightarrow> ent_Language e \<noteq> [] \<and> ent_Key e \<noteq> [] \<and> ent_Path e \<noteq> [] \<and> ent_SourceSHA e = obj_SourceSHA obj"

definition valid_topics :: "string list \<Rightarrow> bool" where
  "valid_topics ts \<longleftrightarrow> length ts \<le> 16 \<and> sorted_wrt (<) ts
     \<and> (\<forall>t \<in> set ts. ToLower (TrimSpace t) = t \<and> t \<noteq> [] \<and> length (runes t) \<le> 64)"

definition valid_note :: "ContextObject \<Rightarrow> Note \<Rightarrow> bool" where
  "valid_note obj n \<longleftrightarrow> note_ID n \<noteq> [] \<and> note_EntityKey n \<noteq> []
     \<and> note_Kind n \<in> {''intent'', ''decision'', ''constraint'', ''example'', ''warning''}
     \<and> TrimSpace (note_Body n) \<noteq> [] \<and> note_Author n \<noteq> [] \<and> note_Origin n \<noteq> [] \<and> \<not> time_IsZero (note_CreatedAt n)
     \<and> \<not> note_Pending n \<and> valid_topics (elems (note_Topics n))
     \<and> (obj_SchemaVersion obj \<noteq> 1 \<longrightarrow> note_RevisionID n \<noteq> [] \<and> note_BindingSourceSHA n = obj_SourceSHA obj
          \<and> note_BindingState n \<in> {''active'', ''needs_review'', ''historical''})"

definition valid_parents :: "ContextObject \<Rightarrow> bool" where
  "valid_parents obj \<longleftrightarrow> obj_ParentID obj = [] \<and> (obj_LegacyParentID obj = [] \<or> obj_ParentIDs obj = [])
     \<and> length (obj_ParentIDs obj) \<le> 2 \<and> distinct (obj_ParentIDs obj)
     \<and> (\<forall>p. p \<in> set (obj_ParentIDs obj) \<or> p = obj_LegacyParentID obj \<and> p \<noteq> [] \<longrightarrow> length p = 64 \<and> list_all is_lower_hex p)"

definition valid_provenance :: "ContextObject \<Rightarrow> bool" where
  "valid_provenance obj \<longleftrightarrow> obj_Provenance obj \<noteq> [] \<and> sorted_wrt (<) (map prov_Language (obj_Provenance obj))
     \<and> (\<forall>p \<in> set (obj_Provenance obj). prov_Language p \<noteq> [] \<and> prov_IndexerID p \<noteq> [] \<and> prov_IndexerVersion p \<noteq> []
          \<and> prov_SourceSHA p = obj_SourceSHA obj)
     \<and> (\<forall>e \<in> set (elems (obj_Entities obj)). \<exists>p \<in> set (obj_Provenance obj). prov_Language p = ent_Language e)"

text \<open>The mappings of a snapshot: one for every note, with the values of the note.\<close>

definition maps_note :: "ContextRevisionMapping \<Rightarrow> Note \<Rightarrow> bool" where
  "maps_note m n \<longleftrightarrow> map_NoteID m = note_ID n \<and> map_RevisionID m = note_RevisionID n \<and> map_EntityKey m = note_EntityKey n
     \<and> map_BindingState m = note_BindingState n \<and> map_BindingSourceSHA m = note_BindingSourceSHA n
     \<and> map_ReviewReason m = note_ReviewReason n"

definition valid_mappings :: "ContextObject \<Rightarrow> bool" where
  "valid_mappings obj \<longleftrightarrow> length (obj_RevisionMappings obj) = length (elems (obj_Notes obj))
     \<and> (\<forall>m \<in> set (obj_RevisionMappings obj). \<exists>n \<in> set (elems (obj_Notes obj)). maps_note m n)
     \<and> distinct (map map_NoteID (obj_RevisionMappings obj)) \<and> distinct (map map_RevisionID (obj_RevisionMappings obj))
     \<and> sorted_wrt (<) (map (\<lambda>m. map_EntityKey m @ [CHR 0x00] @ map_NoteID m @ [CHR 0x00] @ map_RevisionID m)
          (obj_RevisionMappings obj))"

definition valid_promotion :: "CandidatePromotionMapping \<Rightarrow> bool" where
  "valid_promotion m \<longleftrightarrow> promo_CandidateRecordID m \<noteq> [] \<and> promo_NoteID m \<noteq> [] \<and> promo_RevisionID m \<noteq> []"

definition valid_receipt :: "ContextObject \<Rightarrow> LandingReceipt \<Rightarrow> bool" where
  "valid_receipt obj r \<longleftrightarrow> rcpt_Provider r \<noteq> [] \<and> rcpt_ForgeRepository r \<noteq> [] \<and> 1 \<le> rcpt_ChangeNumber r \<and> rcpt_Resolver r \<noteq> []
     \<and> rcpt_ContextRepositoryID r = obj_RepositoryID obj \<and> rcpt_TargetRef r = obj_RefName obj
     \<and> rcpt_SourceMergeSHA r = obj_SourceSHA obj
     \<and> (\<forall>d \<in> {rcpt_ID r, rcpt_FinalPlanID r}. length d = 64 \<and> list_all is_lower_hex d)
     \<and> (\<forall>d \<in> {rcpt_CandidateDigest r, rcpt_BaseContextCommitID r}. d = [] \<or> length d = 64 \<and> list_all is_lower_hex d)
     \<and> (\<forall>m \<in> set (rcpt_CandidateMappings r). valid_promotion m)
     \<and> sorted_wrt (<) (map (\<lambda>m. promo_CandidateRecordID m @ [CHR 0x00] @ promo_NoteID m @ [CHR 0x00] @ promo_RevisionID m)
          (rcpt_CandidateMappings r))"

definition valid_object :: "ContextObject \<Rightarrow> string \<Rightarrow> string \<Rightarrow> bool" where
  "valid_object obj repositoryID refName \<longleftrightarrow> obj_SchemaVersion obj \<in> {1, 2, 3, 4}
     \<and> obj_RepositoryID obj = repositoryID \<and> obj_RefName obj = refName
     \<and> TrimSpace (obj_SourceSHA obj) \<noteq> [] \<and> TrimSpace (obj_Message obj) \<noteq> [] \<and> TrimSpace (obj_Author obj) \<noteq> []
     \<and> \<not> time_IsZero (obj_CreatedAt obj)
     \<and> (\<forall>e \<in> set (elems (obj_Entities obj)). valid_entity obj e) \<and> distinct (map ent_Key (elems (obj_Entities obj)))
     \<and> (\<forall>n \<in> set (elems (obj_Notes obj)). valid_note obj n) \<and> distinct (map note_ID (elems (obj_Notes obj)))
     \<and> (obj_SchemaVersion obj \<in> {3, 4} \<longrightarrow> valid_parents obj \<and> valid_provenance obj \<and> valid_mappings obj)
     \<and> (if obj_SchemaVersion obj = 4
        then (\<forall>r \<in> set (obj_LandingReceipts obj). valid_receipt obj r) \<and> sorted_wrt (<) (map rcpt_ID (obj_LandingReceipts obj))
        else obj_LandingReceipts obj = [])"

text \<open>The conditions that span the objects of an ancestry.\<close>

definition same_revision :: "Note \<Rightarrow> Note \<Rightarrow> bool" where
  "same_revision m n \<longleftrightarrow> note_ID m = note_ID n \<and> note_SupersedesRevisionID m = note_SupersedesRevisionID n
     \<and> note_Kind m = note_Kind n \<and> note_Body m = note_Body n \<and> note_Author m = note_Author n
     \<and> note_Origin m = note_Origin n \<and> note_CreatedAt m = note_CreatedAt n \<and> note_Topics m = note_Topics n"

definition valid_links :: "storedContextObject list \<Rightarrow> bool" where
  "valid_links chain \<longleftrightarrow> (let ns = concat (map (\<lambda>item. elems (obj_Notes (sco_Object item))) chain)
     in \<forall>i < length ns.
       (note_SupersedesRevisionID (ns ! i) \<noteq> [] \<longrightarrow> (\<exists>j < i. note_RevisionID (ns ! j) = note_SupersedesRevisionID (ns ! i)
            \<and> note_ID (ns ! j) = note_ID (ns ! i)))
       \<and> (\<forall>j < i. note_RevisionID (ns ! j) = note_RevisionID (ns ! i) \<longrightarrow> same_revision (ns ! j) (ns ! i)))"

definition valid_receipt_links :: "storedContextObject list \<Rightarrow> bool" where
  "valid_receipt_links chain \<longleftrightarrow> (let rs = concat (map (\<lambda>item. obj_LandingReceipts (sco_Object item)) chain)
     in distinct (map rcpt_ID rs) \<and> (\<forall>r \<in> set rs. rcpt_BaseContextCommitID r \<noteq> [] \<longrightarrow>
          (\<exists>item \<in> set chain. sco_ID item = rcpt_BaseContextCommitID r)))"

lemma topics_iff: "NormalizeNoteTopics ts = Inr ts \<longleftrightarrow> valid_topics ts"
proof
  assume a: "NormalizeNoteTopics ts = Inr ts"
  note t = topics_InrD [OF a]
  have fixed: "ToLower (TrimSpace x) = x" if "x \<in> set ts" for x
  proof -
    from that t(4) have "x \<in> (\<lambda>v. ToLower (TrimSpace v)) ` set ts" by (metis set_map set_sort)
    then show ?thesis by (auto simp: topic_of_idem)
  qed
  then have m: "map (\<lambda>v. ToLower (TrimSpace v)) ts = ts" by (simp add: map_idI)
  with t(3,4) have "sorted ts" "distinct ts" by (metis sorted_sort)+
  then have "sorted_wrt (<) ts" by (simp add: strict_sorted_iff)
  with t(1,2) fixed show "valid_topics ts" by (auto simp: valid_topics_def list_all_iff topic_ok_def)
next
  assume v: "valid_topics ts"
  then have m: "map (\<lambda>v. ToLower (TrimSpace v)) ts = ts" by (auto simp: valid_topics_def map_idI)
  from v have "sorted ts" "distinct ts" by (simp_all add: valid_topics_def strict_sorted_iff)
  with v show "NormalizeNoteTopics ts = Inr ts"
    unfolding NormalizeNoteTopics_eq m by (auto simp: valid_topics_def list_all_iff topic_ok_def sorted_sort_id)
qed

lemma note_wf_valid:
  assumes "obj_SchemaVersion obj \<in> {1, 2, 3, 4}"
  shows "note_wf obj n \<longleftrightarrow> valid_note obj n"
proof -
  have "2 \<le> obj_SchemaVersion obj \<longleftrightarrow> obj_SchemaVersion obj \<noteq> 1" using assms by auto
  then show ?thesis
    unfolding note_wf_def valid_note_def topics_iff committed_note_ok_def revision_binding_ok_def ValidNoteKind_def
      ValidNoteBindingState_def go_defs by blast
qed

lemma parents_wf_valid: "parents_wf obj \<longleftrightarrow> valid_parents obj"
  unfolding parents_wf_def valid_parents_def parent_shape_bad_def canonical_id_def by (auto simp: list_all_iff)

lemma provenance_wf_valid: "provenance_wf obj \<longleftrightarrow> valid_provenance obj"
proof -
  have s: "ent_Language ` A \<subseteq> prov_Language ` B \<longleftrightarrow> (\<forall>e \<in> A. \<exists>p \<in> B. prov_Language p = ent_Language e)"
    for A :: "Entity set" and B :: "ContextSnapshotProvenance set"
    unfolding image_subset_iff image_iff eq_commute [of "ent_Language _"] by (rule refl)
  show ?thesis unfolding provenance_wf_def valid_provenance_def list_all_iff s by (simp only: conj_ac)
qed

lemma mappings_wf_valid:
  assumes "obj_SchemaVersion obj \<noteq> 1" "\<forall>n \<in> set (elems (obj_Notes obj)). valid_note obj n"
  shows "mappings_wf obj \<longleftrightarrow> valid_mappings obj"
proof -
  have m: "mapping_key = (\<lambda>m. map_EntityKey m @ [CHR 0x00] @ map_NoteID m @ [CHR 0x00] @ map_RevisionID m)"
    by (rule ext) (simp add: mapping_key_def)
  have w: "note_ID n = map_NoteID m \<and> mapping_matches_note m n \<longleftrightarrow> maps_note m n" for m n
    by (auto simp: mapping_matches_note_def maps_note_def)
  have "manifest_mapping_ok (obj_SourceSHA obj) m" if "n \<in> set (elems (obj_Notes obj))" "maps_note m n" for m n
  proof -
    from assms that(1) have "valid_note obj n" by blast
    with that(2) assms(1) show ?thesis
      unfolding manifest_mapping_ok_def ValidNoteBindingState_def go_defs maps_note_def valid_note_def by auto
  qed
  then show ?thesis
    unfolding mappings_wf_def valid_mappings_def m list_all_iff list_ex_iff w by blast
qed

lemma receipt_wf_valid: "receipt_wf obj r \<longleftrightarrow> valid_receipt obj r"
proof -
  have p: "promotion_key = (\<lambda>m. promo_CandidateRecordID m @ [CHR 0x00] @ promo_NoteID m @ [CHR 0x00] @ promo_RevisionID m)"
    by (rule ext) (simp add: promotion_key_def)
  have v: "promotion_ok m \<longleftrightarrow> valid_promotion m" for m by (auto simp: promotion_ok_def valid_promotion_def)
  show ?thesis
    unfolding receipt_wf_def valid_receipt_def p v receipt_ok_def receipt_digests_ok_def normalizeObjectID_iff canonical_id_def
    by (auto simp: list_all_iff)
qed

lemma object_wf_valid: "object_wf obj repositoryID refName \<longleftrightarrow> valid_object obj repositoryID refName"
proof (cases "obj_SchemaVersion obj \<in> {1, 2, 3, 4}")
  case True
  have e: "object_entity_ok obj e \<longleftrightarrow> valid_entity obj e" for e by (auto simp: object_entity_ok_def valid_entity_def)
  have k: "IsContextSnapshotSchema (obj_SchemaVersion obj) \<longleftrightarrow> obj_SchemaVersion obj \<in> {3, 4}"
    by (simp add: IsContextSnapshotSchema_def)
  have "mappings_wf obj \<longleftrightarrow> valid_mappings obj"
    if "obj_SchemaVersion obj \<in> {3, 4}" "\<forall>n \<in> set (elems (obj_Notes obj)). valid_note obj n"
    using mappings_wf_valid that by auto
  then show ?thesis
    unfolding object_wf_def valid_object_def object_metadata_bad_def entities_wf_def notes_wf_def receipts_wf_def list_all_iff
      e note_wf_valid [OF True] k parents_wf_valid provenance_wf_valid receipt_wf_valid by blast
next
  case False
  then show ?thesis by (simp add: object_wf_def valid_object_def)
qed

lemma links_ok_nth:
  "links_ok earlier ns \<longleftrightarrow> (\<forall>i < length ns. link_ok (earlier @ take i ns) (ns ! i))"
proof (induction ns arbitrary: earlier)
  case Nil
  then show ?case by simp
next
  case (Cons n ns)
  have "(\<forall>i < length (n # ns). link_ok (earlier @ take i (n # ns)) ((n # ns) ! i))
      \<longleftrightarrow> link_ok earlier n \<and> (\<forall>i < length ns. link_ok ((earlier @ [n]) @ take i ns) (ns ! i))"
    by (simp add: All_less_Suc2)
  with Cons.IH show ?case by (simp only: links_ok.simps)
qed

lemma revision_content_same:
  "note_RevisionID m = note_RevisionID n \<Longrightarrow> immutableRevisionContent m = immutableRevisionContent n \<longleftrightarrow> same_revision m n"
  by (cases m; cases n) (auto simp: immutableRevisionContent_def same_revision_def)

lemma links_ok_valid: "links_ok [] (chain_notes chain) \<longleftrightarrow> valid_links chain"
proof -
  have t: "(\<forall>p \<in> set (take i ns). P p) \<longleftrightarrow> (\<forall>j < i. P (ns ! j))" "(\<exists>p \<in> set (take i ns). P p) \<longleftrightarrow> (\<exists>j < i. P (ns ! j))"
    if "i < length ns" for i P and ns :: "Note list"
    using nth_image [of i ns] that by (auto simp flip: nth_image)
  have "link_ok (take i ns) (ns ! i) \<longleftrightarrow>
      (note_SupersedesRevisionID (ns ! i) \<noteq> [] \<longrightarrow> (\<exists>j < i. note_RevisionID (ns ! j) = note_SupersedesRevisionID (ns ! i)
            \<and> note_ID (ns ! j) = note_ID (ns ! i)))
       \<and> (\<forall>j < i. note_RevisionID (ns ! j) = note_RevisionID (ns ! i) \<longrightarrow> same_revision (ns ! j) (ns ! i))"
    if "i < length ns" for i ns
    unfolding link_ok_def t [OF that] using revision_content_same by metis
  then show ?thesis
    unfolding links_ok_nth valid_links_def chain_notes_def [symmetric] Let_def by simp
qed

lemma receipt_links_valid: "receipt_links_ok chain \<longleftrightarrow> valid_receipt_links chain"
  unfolding receipt_links_ok_def valid_receipt_links_def chain_receipts_def list_all_iff Let_def by (auto simp: image_iff) metis+

text \<open>C37: The validators decide the conditions above.  An object is accepted iff its metadata, entities, notes, parents,
  provenance, mappings and receipts are valid field by field; an ancestry iff every note that supersedes a revision comes after
  that revision of the same note, a revision keeps its content wherever it occurs again, and receipts have distinct IDs and
  are based on an object of the ancestry.\<close>

theorem validators_decide:
  "validateContextObject obj repositoryID refName
      = (if valid_object obj repositoryID refName then Inr () else Inl CodeValidation)
   \<and> validateRevisionLinks chain = (if valid_links chain then Inr () else Inl CodeValidation)
   \<and> validateLandingReceiptLinks chain = (if valid_receipt_links chain then Inr () else Inl CodeValidation)"
  using validateContextObject_eq validateRevisionLinks_eq validateLandingReceiptLinks_eq
  by (simp only: object_wf_valid links_ok_valid receipt_links_valid HOL.simp_thms)

text \<open>Snapshots that pass validation for the same repository and ref, of one source revision and the
  same provenance, can always be merged: the merge planner has no error left to report.\<close>

lemma validated_snapshots_merge:
  assumes "validateContextObject (smi_Base inp) repositoryID refName = Inr ()"
    and "validateContextObject (smi_Local inp) repositoryID refName = Inr ()"
    and "validateContextObject (smi_Remote inp) repositoryID refName = Inr ()"
    and "\<forall>s \<in> {smi_Base inp, smi_Local inp, smi_Remote inp}. IsContextSnapshotSchema (obj_SchemaVersion s)
       \<and> obj_SourceSHA s = obj_SourceSHA (smi_Base inp) \<and> obj_Provenance s = obj_Provenance (smi_Base inp)"
  shows "\<exists>plan. PlanSnapshotMerge ord inp = Inr plan"
proof -
  have wf: "object_wf s repositoryID refName" if "validateContextObject s repositoryID refName = Inr ()" for s
    using that by (auto simp: validateContextObject_eq split: if_splits)
  note o = wf [OF assms(1)] wf [OF assms(2)] wf [OF assms(3)]
  have "snapshot_wf (smi_Base inp)" "snapshot_wf (smi_Local inp)" "snapshot_wf (smi_Remote inp)"
    using object_wf_snapshot [OF o(1)] object_wf_snapshot [OF o(2)] object_wf_snapshot [OF o(3)] assms(4) by simp_all
  moreover have "sameSnapshotProvenance p p" for p by (simp add: sameSnapshotProvenance_def list_all_iff)
  moreover have "validateMergeSnapshots inp = Inr ()"
    using o assms(4) \<open>\<And>p. sameSnapshotProvenance p p\<close> by (simp add: validateMergeSnapshots_def object_wf_def)
  ultimately show ?thesis by (simp add: PlanSnapshotMerge_def snapshotMergeRecords_eq)
qed

subsection \<open>Loading\<close>

lemma load_success:
  assumes "loadObjectGraphFrom b3 decode fuel commitID repositoryID refName readObject = Some (Inr graph)"
  obtains rootID states g item where "normalizeObjectID commitID = Inr rootID" "graph = g @ [item]"
    "sco_ID item = rootID"
    "visit (load_object b3 decode repositoryID refName readObject) fuel rootID start_state = Some (Inr (states, graph))"
    "topological (load_object b3 decode repositoryID refName readObject) {} graph"
    "graph_ids graph = {a. ancestor_or_self (load_object b3 decode repositoryID refName readObject) rootID a}"
    "links_ok [] (chain_notes graph)" "receipt_links_ok graph"
proof -
  let ?load = "load_object b3 decode repositoryID refName readObject"
  obtain rootID where root: "normalizeObjectID commitID = Inr rootID"
    using assms by (auto simp: loadObjectGraphFrom_def split: sum.splits)
  from assms [unfolded loadObjectGraphFrom_run [OF root]] obtain states where
    v: "visit ?load fuel rootID start_state = Some (Inr (states, graph))"
    and ok: "links_ok [] (chain_notes graph)" "receipt_links_ok graph"
    by (auto split: if_splits)
  from visit_success(1) [OF v start_inv] have s: "search_step ?load {rootID} start_state (states, graph)"
    and last: "\<exists>g item. graph = g @ [item] \<and> sco_ID item = rootID"
    by (auto simp: start_state_def)
  then obtain g item where g: "graph = g @ [item]" "sco_ID item = rootID" by blast
  from s have top: "topological ?load {} graph" by (simp add: search_step_def graph_inv_def)
  have "a \<in> graph_ids graph" if "ancestor_or_self ?load rootID a" for a
    using topological_reachable [OF top _ that] g by simp
  moreover have "ancestor_or_self ?load rootID a" if "a \<in> graph_ids graph" for a
    using s that by (auto simp: search_step_def start_state_def)
  ultimately have "graph_ids graph = {a. ancestor_or_self ?load rootID a}" by blast
  from that [OF root g v top this ok] show thesis .
qed

text \<open>C35: A loaded ancestry is exactly the set of ancestors of the requested commit, each once, parents before
  children and the commit last, with no cycle; the contents of every object hash to its ID and
  every object is well formed and belongs to the requested repository and ref; superseded revisions
  precede, and revisions and receipts are consistent across the ancestry.\<close>

theorem graph_sound:
  assumes "loadObjectGraphFrom b3 decode fuel commitID repositoryID refName readObject = Some (Inr graph)"
  shows "graph \<noteq> [] \<and> normalizeObjectID commitID = Inr (sco_ID (last graph))
    \<and> distinct (map sco_ID graph)
    \<and> topological (load_object b3 decode repositoryID refName readObject) {} graph
    \<and> graph_ids graph = {a. ancestor_or_self (load_object b3 decode repositoryID refName readObject) (sco_ID (last graph)) a}
    \<and> (\<forall>a \<in> graph_ids graph. \<not> (object_parent (load_object b3 decode repositoryID refName readObject))\<^sup>+\<^sup>+ a a)
    \<and> (\<forall>item \<in> set graph. readObject (sco_ID item) = Inr (sco_Contents item)
         \<and> hex_encode (b3 (sco_Contents item)) = sco_ID item \<and> object_wf (sco_Object item) repositoryID refName)
    \<and> links_ok [] (chain_notes graph) \<and> receipt_links_ok graph"
proof -
  let ?load = "load_object b3 decode repositoryID refName readObject"
  from assms obtain rootID g item where root: "normalizeObjectID commitID = Inr rootID" "graph = g @ [item]" "sco_ID item = rootID"
    and top: "topological ?load {} graph" and ids: "graph_ids graph = {a. ancestor_or_self ?load rootID a}"
    and ok: "links_ok [] (chain_notes graph)" "receipt_links_ok graph"
    by (rule load_success) simp
  have "readObject (sco_ID x) = Inr (sco_Contents x) \<and> hex_encode (b3 (sco_Contents x)) = sco_ID x
      \<and> object_wf (sco_Object x) repositoryID refName" if "x \<in> set graph" for x
    using load_object_ok [OF topological_item [OF top that]] .
  then show ?thesis
    using root top ids ok topological_distinct [OF top] topological_acyclic [OF top] by auto
qed

text \<open>C36: With as much fuel as there are loadable objects plus one the search ends, and it fails only for a
  reason: the given ID or a parent ID is malformed, an ancestor cannot be read, decoded or
  validated (the error is then that of the ancestor), the ancestry has a cycle, or the loaded
  ancestry has inconsistent links.  Without such a fault it returns the ancestry.\<close>

theorem graph_complete:
  assumes "finite (loadable (load_object b3 decode repositoryID refName readObject))"
    and "card (loadable (load_object b3 decode repositoryID refName readObject)) < fuel"
  shows "\<exists>r. loadObjectGraphFrom b3 decode fuel commitID repositoryID refName readObject = Some r \<and>
    (case r of
       Inr graph \<Rightarrow> True
     | Inl e \<Rightarrow> normalizeObjectID commitID = Inl e
         \<or> (\<exists>rootID. normalizeObjectID commitID = Inr rootID
             \<and> search_fault (load_object b3 decode repositoryID refName readObject) {rootID} (\<lambda>_. unvisited) e)
         \<or> e = CodeValidation \<and> (\<exists>graph. topological (load_object b3 decode repositoryID refName readObject) {} graph
             \<and> \<not> (links_ok [] (chain_notes graph) \<and> receipt_links_ok graph)))"
proof (cases "normalizeObjectID commitID")
  case (Inl e)
  then show ?thesis by (simp add: loadObjectGraphFrom_def)
next
  case (Inr rootID)
  let ?load = "load_object b3 decode repositoryID refName readObject"
  have "card {a \<in> loadable ?load. fst start_state a \<noteq> visiting} < fuel"
    using assms(2) by (simp add: start_state_def)
  from visit_terminates(1) [OF assms(1) start_inv this] obtain r where
    r: "visit ?load fuel rootID start_state = Some r" by blast
  show ?thesis
  proof (cases r)
    case (Inl e)
    from visit_failure(1) [OF r [unfolded Inl] start_inv]
    have "search_fault ?load {rootID} (\<lambda>_. unvisited) e" by (simp add: start_state_def)
    with r Inl Inr show ?thesis by (simp add: loadObjectGraphFrom_run [OF Inr])
  next
    case res: (Inr st)
    obtain states graph where st: "st = (states, graph)" by (cases st)
    from visit_success(1) [OF r [unfolded res] start_inv] have "topological ?load {} graph"
      by (auto simp: st search_step_def graph_inv_def)
    with r res Inr show ?thesis
      by (auto simp: loadObjectGraphFrom_run [OF Inr] st)
  qed
qed

subsection \<open>Writing and importing\<close>

lemma visit_cong:
  "(\<forall>x. ancestor_or_self load a x \<longrightarrow> load' x = load x) \<Longrightarrow> visit load' fuel a st = visit load fuel a st"
  "(\<forall>q \<in> set ps. \<forall>b x. normalizeObjectID q = Inr b \<longrightarrow> ancestor_or_self load b x \<longrightarrow> load' x = load x)
     \<Longrightarrow> visit_parents load' fuel ps st = visit_parents load fuel ps st"
proof (induction load fuel a st and load fuel ps st rule: visit_visit_parents.induct)
  case (1 load a st)
  show ?case by simp
next
  case (2 load fuel a st)
  have eq: "load' a = load a" using "2.prems" by blast
  show ?case
  proof (cases "fst st a = unvisited \<and> (\<exists>contents obj. load a = Inr (contents, obj))")
    case False
    then show ?thesis using eq by (cases "fst st a"; cases "load a") auto
  next
    case True
    then obtain contents obj where un: "fst st a = unvisited" and l: "load a = Inr (contents, obj)" by blast
    have "\<forall>q \<in> set (contextObjectParentIDs obj). \<forall>b x. normalizeObjectID q = Inr b
        \<longrightarrow> ancestor_or_self load b x \<longrightarrow> load' x = load x"
    proof (intro ballI allI impI)
      fix q b x
      assume "q \<in> set (contextObjectParentIDs obj)" "normalizeObjectID q = Inr b" "ancestor_or_self load b x"
      then have "ancestor_or_self load a x"
        using l by (intro converse_rtranclp_into_rtranclp [of "object_parent load" a b x]) (auto simp: object_parent_def)
      with "2.prems" show "load' x = load x" by blast
    qed
    from "2.IH" [OF un l refl this] show ?thesis using un l eq by simp
  qed
next
  case (3 load fuel st)
  show ?case by simp
next
  case (4 load fuel p ps st)
  show ?case
  proof (cases "normalizeObjectID p")
    case (Inl e)
    then show ?thesis by simp
  next
    case (Inr b)
    have "visit load' fuel b st = visit load fuel b st" using "4.IH"(1) [OF Inr] "4.prems" Inr by simp
    moreover have "visit_parents load' fuel ps st1 = visit_parents load fuel ps st1"
      if "visit load fuel b st = Some (Inr st1)" for st1
      using "4.IH"(2) [OF Inr that refl] "4.prems" by simp
    ultimately show ?thesis using Inr by (auto split: option.splits sum.splits)
  qed
qed

lemma WriteObject_extends: "WriteObject fault identifier contents dir = (dir', r) \<Longrightarrow> dir \<subseteq>\<^sub>m dir'"
  by (auto simp: WriteObject_def map_le_def split: if_splits option.splits write_fault.splits)

lemma WriteObject_stored: "WriteObject fault identifier contents dir = (dir', Inr u) \<Longrightarrow> dir' identifier = Some contents"
  by (auto simp: WriteObject_def split: if_splits option.splits write_fault.splits)

lemma import_objects_extends: "import_objects faults i items dir = (dir', r) \<Longrightarrow> dir \<subseteq>\<^sub>m dir'"
proof (induction items arbitrary: i dir)
  case Nil
  then show ?case by simp
next
  case (Cons item items)
  obtain d r1 where w: "WriteObject (faults i) (sco_ID item) (sco_Contents item) dir = (d, r1)" by fastforce
  note ext = WriteObject_extends [OF w]
  show ?case
  proof (cases r1)
    case (Inl e)
    with Cons.prems w ext show ?thesis by simp
  next
    case (Inr u)
    with Cons.prems w have "import_objects faults (i + 1) items d = (dir', r)" by simp
    from Cons.IH [OF this] ext show ?thesis by (rule map_le_trans [rotated])
  qed
qed

lemma import_objects_stored:
  "import_objects faults i items dir = (dir', Inr u) \<Longrightarrow> item \<in> set items \<Longrightarrow> dir' (sco_ID item) = Some (sco_Contents item)"
proof (induction items arbitrary: i dir)
  case Nil
  then show ?case by simp
next
  case (Cons x items)
  obtain d r1 where w1: "WriteObject (faults i) (sco_ID x) (sco_Contents x) dir = (d, r1)" by fastforce
  with Cons.prems(1) obtain u' where "r1 = Inr u'" by (cases r1) simp_all
  with w1 Cons.prems(1) have w: "WriteObject (faults i) (sco_ID x) (sco_Contents x) dir = (d, Inr u')"
    and r: "import_objects faults (i + 1) items d = (dir', Inr u)" by simp_all
  show ?case
  proof (cases "item = x")
    case True
    with WriteObject_stored [OF w] import_objects_extends [OF r] show ?thesis by (auto simp: map_le_def dom_def)
  next
    case False
    with Cons.IH [OF r] Cons.prems(2) show ?thesis by simp
  qed
qed

lemma import_run:
  "loadObjectGraphFrom b3 decode fuel commitID repositoryID refName readObject = Some (Inr graph) \<Longrightarrow>
   import_objects faults 0 graph dir = (d, ir) \<Longrightarrow>
   ImportObjectChain b3 decode fuel faults commitID repositoryID refName (Some readObject) dir =
     Some (d, and_then ir (\<lambda>_. Inr \<lparr>chain_TipID = sco_ID (last graph),
       chain_SourceSHA = obj_SourceSHA (sco_Object (last graph)), chain_Count = length graph\<rparr>))"
  by (cases ir) (simp_all add: ImportObjectChain_def)

text \<open>An ancestry that was loaded from one reader loads from any reader that has its objects.\<close>

lemma load_copied:
  assumes load: "loadObjectGraphFrom b3 decode fuel commitID repositoryID refName readObject = Some (Inr graph)"
    and copied: "\<And>y. y \<in> set graph \<Longrightarrow> reader (sco_ID y) = Inr (sco_Contents y)"
  shows "loadObjectGraphFrom b3 decode fuel commitID repositoryID refName reader = Some (Inr graph)"
proof -
  let ?load = "load_object b3 decode repositoryID refName readObject"
  let ?copy = "load_object b3 decode repositoryID refName reader"
  from load_success [OF load] obtain rootID where root: "normalizeObjectID commitID = Inr rootID"
    and top: "topological ?load {} graph" and ids: "graph_ids graph = {a. ancestor_or_self ?load rootID a}"
    by metis
  have "?copy x = ?load x" if "ancestor_or_self ?load rootID x" for x
  proof -
    from that ids obtain y where y: "y \<in> set graph" "x = sco_ID y" by (auto simp: graph_ids_def)
    from load_object_ok [OF topological_item [OF top y(1)]] have "readObject x = Inr (sco_Contents y)" by (simp add: y(2))
    with copied [OF y(1)] show ?thesis by (simp add: load_object_def y(2))
  qed
  then have "visit ?copy fuel rootID start_state = visit ?load fuel rootID start_state"
    by (intro visit_cong(1)) blast
  with load show ?thesis by (simp add: loadObjectGraphFrom_run [OF root])
qed

lemma import_success:
  assumes "ImportObjectChain b3 decode fuel faults commitID repositoryID refName (Some readObject) dir = Some (dir', Inr chain)"
  obtains graph where "loadObjectGraphFrom b3 decode fuel commitID repositoryID refName readObject = Some (Inr graph)"
    "loadObjectGraph b3 decode fuel dir' commitID repositoryID refName = Some (Inr graph)" "graph \<noteq> []"
    "chain = \<lparr>chain_TipID = sco_ID (last graph), chain_SourceSHA = obj_SourceSHA (sco_Object (last graph)), chain_Count = length graph\<rparr>"
proof -
  from assms obtain lr where lr: "loadObjectGraphFrom b3 decode fuel commitID repositoryID refName readObject = Some lr"
    by (auto simp: ImportObjectChain_def)
  with assms obtain graph where "lr = Inr graph" by (cases lr) (auto simp: ImportObjectChain_def)
  with lr have load: "loadObjectGraphFrom b3 decode fuel commitID repositoryID refName readObject = Some (Inr graph)" by simp
  obtain d ir where i: "import_objects faults 0 graph dir = (d, ir)" by fastforce
  with import_run [OF load i] assms obtain u where ir: "ir = Inr u" and d: "d = dir'" by (cases ir) auto
  have "read_object_file dir' (sco_ID y) = Inr (sco_Contents y)" if "y \<in> set graph" for y
    using import_objects_stored [OF i [unfolded ir] that] by (simp add: read_object_file_def d)
  from load_copied [OF load this] have local: "loadObjectGraph b3 decode fuel dir' commitID repositoryID refName = Some (Inr graph)"
    by (simp add: loadObjectGraph_def)
  from load_success [OF load] have "graph \<noteq> []" by auto
  from that [OF load local this] import_run [OF load i] assms show thesis by (simp add: ir)
qed

lemma import_extends:
  assumes "ImportObjectChain b3 decode fuel faults commitID repositoryID refName (Some readObject) dir = Some (dir', r)"
  shows "dir \<subseteq>\<^sub>m dir'"
proof -
  from assms obtain lr where lr: "loadObjectGraphFrom b3 decode fuel commitID repositoryID refName readObject = Some lr"
    by (auto simp: ImportObjectChain_def)
  show ?thesis
  proof (cases lr)
    case (Inl e)
    with assms lr show ?thesis by (auto simp: ImportObjectChain_def)
  next
    case (Inr graph)
    obtain d ir where i: "import_objects faults 0 graph dir = (d, ir)" by fastforce
    from import_objects_extends [OF i] import_run [OF lr [unfolded Inr] i] assms show ?thesis by simp
  qed
qed

text \<open>C38: Whatever fails, an import never changes or removes an object of the local directory; when it
  succeeds, the ancestry it fetched is readable locally: the local chain is the remote one, object
  by object, and the reported tip and count are those of this chain.\<close>

theorem import_publishes:
  assumes "ImportObjectChain b3 decode fuel faults commitID repositoryID refName (Some readObject) dir = Some (dir', r)"
  shows "dir \<subseteq>\<^sub>m dir' \<and>
    (\<forall>chain. r = Inr chain \<longrightarrow>
       loadObjectGraph b3 decode fuel dir' commitID repositoryID refName
         = loadObjectGraphFrom b3 decode fuel commitID repositoryID refName readObject
       \<and> (\<exists>objects. ReadObjectChain b3 decode fuel dir' commitID repositoryID refName = Some (Inr objects)
            \<and> chain_Count chain = length objects \<and> chain_TipID chain = orec_ID (last objects)
            \<and> chain_SourceSHA chain = orec_SourceSHA (last objects)))"
proof (intro conjI allI impI)
  show "dir \<subseteq>\<^sub>m dir'" by (rule import_extends [OF assms])
next
  fix chain
  assume "r = Inr chain"
  from import_success [OF assms [unfolded this]] obtain graph where
    load: "loadObjectGraphFrom b3 decode fuel commitID repositoryID refName readObject = Some (Inr graph)"
      "loadObjectGraph b3 decode fuel dir' commitID repositoryID refName = Some (Inr graph)"
    and graph: "graph \<noteq> []" "chain = \<lparr>chain_TipID = sco_ID (last graph),
      chain_SourceSHA = obj_SourceSHA (sco_Object (last graph)), chain_Count = length graph\<rparr>" by metis
  show "loadObjectGraph b3 decode fuel dir' commitID repositoryID refName
      = loadObjectGraphFrom b3 decode fuel commitID repositoryID refName readObject"
    by (simp add: load)
  show "\<exists>objects. ReadObjectChain b3 decode fuel dir' commitID repositoryID refName = Some (Inr objects)
      \<and> chain_Count chain = length objects \<and> chain_TipID chain = orec_ID (last objects)
      \<and> chain_SourceSHA chain = orec_SourceSHA (last objects)"
    using graph by (simp add: ReadObjectChain_def load last_map object_record_def)
qed

subsection \<open>Ancestry\<close>

text \<open>IsAncestor answers exactly the reachability question: when the descendant's ancestry loads, the
  answer is whether the descendant reaches the given commit (in its canonical spelling) along parents.\<close>

lemma is_ancestor_reachable:
  assumes "loadObjectGraph b3 decode fuel dir descendantID repositoryID refName = Some (Inr graph)"
    and "normalizeObjectID ancestorID = Inr a"
  shows "IsAncestor b3 decode fuel dir descendantID ancestorID repositoryID refName
    = Some (Inr (ancestor_or_self (load_object b3 decode repositoryID refName (read_object_file dir))
        (sco_ID (last graph)) a))"
proof -
  let ?load = "load_object b3 decode repositoryID refName (read_object_file dir)"
  from load_success [OF assms(1) [unfolded loadObjectGraph_def]] obtain rootID g item where
    g: "graph = g @ [item]" "sco_ID item = rootID" "graph_ids graph = {a. ancestor_or_self ?load rootID a}"
    by metis
  then have r: "sco_ID (last graph) = rootID" by simp
  have "list_ex (\<lambda>item. sco_ID item = a) graph \<longleftrightarrow> a \<in> graph_ids graph"
    by (auto simp: list_ex_iff graph_ids_def)
  then have "list_ex (\<lambda>item. sco_ID item = a) graph \<longleftrightarrow> ancestor_or_self ?load (sco_ID (last graph)) a"
    unfolding r g(3) by simp
  moreover have "ancestorID \<noteq> []"
    using canonical_id_nonempty assms(2) by (auto simp: normalizeObjectID_def NormalizeContextCommitID_eq TrimSpace_Nil)
  ultimately show ?thesis using assms by (simp add: IsAncestor_def)
qed

end
