(* ===== verification/Merge_Base.thy ===== *)
theory Merge_Base
  imports Ancestry_Properties "HOL-Library.Product_Lexorder"
begin

text \<open>
  Merge bases (\<open>snapshotAncestorDistances\<close> and \<open>FindMergeBase\<close> of store/objects.go): the queue
  computes shortest distances and needs no more iterations than the graph has objects, and the base is the
  common ancestor with the least key (largest distance, sum of distances, ID).
\<close>

subsection \<open>Shortest distances\<close>

definition object_edge :: "ContextObject gomap \<Rightarrow> string \<Rightarrow> string \<Rightarrow> bool" where
  "object_edge objects a b \<longleftrightarrow> (\<exists>obj. map_of objects a = Some obj \<and> b \<in> set (contextObjectParentIDs obj))"

definition shortest :: "(string \<Rightarrow> string \<Rightarrow> bool) \<Rightarrow> string \<Rightarrow> string \<Rightarrow> nat \<Rightarrow> bool" where
  "shortest edge a x d \<longleftrightarrow> (edge ^^ d) a x \<and> (\<forall>n < d. \<not> (edge ^^ n) a x)"

lemma shortest_unique: "shortest edge a x d \<Longrightarrow> shortest edge a x e \<Longrightarrow> d = e"
  by (metis linorder_neqE_nat shortest_def)

lemma shortest_exists: "edge\<^sup>*\<^sup>* a x \<Longrightarrow> \<exists>d. shortest edge a x d"
proof -
  assume "edge\<^sup>*\<^sup>* a x"
  then have "\<exists>n. (edge ^^ n) a x" by (rule rtranclp_imp_relpowp)
  then have "(edge ^^ (LEAST n. (edge ^^ n) a x)) a x" "\<forall>n < (LEAST n. (edge ^^ n) a x). \<not> (edge ^^ n) a x"
    by (auto intro: LeastI dest: not_less_Least)
  then show ?thesis by (auto simp: shortest_def)
qed

lemma shortest_reachable: "shortest edge a x d \<Longrightarrow> edge\<^sup>*\<^sup>* a x"
  by (auto simp: shortest_def intro: relpowp_imp_rtranclp)

text \<open>The invariant of the outer loop.\<close>

definition queue_inv :: "ContextObject gomap \<Rightarrow> string \<Rightarrow> nat gomap \<Rightarrow> string list \<Rightarrow> bool" where
  "queue_inv objects tip ds q \<longleftrightarrow>
     map_of ds tip = Some 0
     \<and> (\<forall>x d. map_of ds x = Some d \<longrightarrow> (object_edge objects ^^ d) tip x \<and> x \<in> dom (map_of objects))
     \<and> set q \<subseteq> dom (map_of ds) \<and> distinct q
     \<and> (\<forall>x y d. map_of ds x = Some d \<longrightarrow> x \<notin> set q \<longrightarrow> object_edge objects x y \<longrightarrow>
          (\<exists>e. map_of ds y = Some e \<and> e \<le> d + 1))
     \<and> sorted (map (\<lambda>x. the (map_of ds x)) q)
     \<and> (q \<noteq> [] \<longrightarrow> (\<forall>x d. map_of ds x = Some d \<longrightarrow> d \<le> the (map_of ds (hd q)) + 1))"

lemma distance_step_cases:
  "map_of objects p = None \<Longrightarrow> distance_step objects d (ds, q) p = Inl CodeValidation"
  "map_of objects p \<noteq> None \<Longrightarrow> map_of ds p = Some e \<Longrightarrow> e \<le> d + 1 \<Longrightarrow> distance_step objects d (ds, q) p = Inr (ds, q)"
  "map_of objects p \<noteq> None \<Longrightarrow> map_of ds p = None
     \<Longrightarrow> distance_step objects d (ds, q) p = Inr (map_put p (d + 1) ds, q @ [p])"
  by (simp_all add: distance_step_def)

text \<open>The inner loop adds the unknown parents, one step further away, at the end of the queue.\<close>

lemma parents_loop:
  assumes "\<forall>x d'. map_of ds x = Some d' \<longrightarrow> d' \<le> d + 1"
    and "range_loop (distance_step objects d) (ds, q) ps = Inr (ds', q')"
  shows "\<exists>new. q' = q @ new \<and> distinct new \<and> set new = {p \<in> set ps. map_of ds p = None}
    \<and> map_of ds' = (\<lambda>x. if x \<in> set new then Some (d + 1) else map_of ds x)
    \<and> set ps \<subseteq> dom (map_of objects)"
  using assms
proof (induction ps arbitrary: ds q)
  case Nil
  then show ?case by auto
next
  case (Cons p ps)
  then have obj: "map_of objects p \<noteq> None" by (cases "map_of objects p") (auto simp: distance_step_cases(1))
  show ?case
  proof (cases "map_of ds p")
    case (Some e)
    with Cons.prems(1) have "e \<le> d + 1" by blast
    from Cons.prems(2) have "range_loop (distance_step objects d) (ds, q) ps = Inr (ds', q')"
      unfolding range_loop.simps distance_step_cases(2) [OF obj Some \<open>e \<le> d + 1\<close>] and_then.simps .
    from Cons.IH [OF Cons.prems(1) this] obtain new where new: "q' = q @ new" "distinct new"
      "set new = {p \<in> set ps. map_of ds p = None}"
      "map_of ds' = (\<lambda>x. if x \<in> set new then Some (d + 1) else map_of ds x)" "set ps \<subseteq> dom (map_of objects)"
      by blast
    show ?thesis
      using new obj Some by (intro exI [of _ new]) auto
  next
    case None
    from Cons.prems(2) have run:
      "range_loop (distance_step objects d) (map_put p (d + 1) ds, q @ [p]) ps = Inr (ds', q')"
      unfolding range_loop.simps distance_step_cases(3) [OF obj None] and_then.simps .
    have "\<forall>x d'. map_of (map_put p (d + 1) ds) x = Some d' \<longrightarrow> d' \<le> d + 1"
      using Cons.prems(1) by auto
    from Cons.IH [OF this run] obtain new where new: "q' = (q @ [p]) @ new" "distinct new"
      "set new = {r \<in> set ps. map_of (map_put p (d + 1) ds) r = None}"
      "map_of ds' = (\<lambda>x. if x \<in> set new then Some (d + 1) else map_of (map_put p (d + 1) ds) x)"
      "set ps \<subseteq> dom (map_of objects)" by blast
    have "p \<notin> set new" using new(3) by simp
    moreover have "set (p # new) = {r \<in> set (p # ps). map_of ds r = None}" using new(3) None by auto
    moreover have "map_of ds' = (\<lambda>x. if x \<in> set (p # new) then Some (d + 1) else map_of ds x)"
      using new(4) by (auto simp: fun_eq_iff)
    ultimately show ?thesis using new obj by (intro exI [of _ "p # new"]) auto
  qed
qed

lemma queue_inv_step:
  assumes inv: "queue_inv objects tip ds (a # q)"
    and run: "range_loop (distance_step objects (the (map_of ds a))) (ds, q)
      (contextObjectParentIDs (the (map_of objects a))) = Inr (ds', q')"
  shows "queue_inv objects tip ds' q'
    \<and> card (dom (map_of objects) - dom (map_of ds')) + length q'
        = card (dom (map_of objects) - dom (map_of ds)) + length q"
proof -
  let ?ps = "contextObjectParentIDs (the (map_of objects a))" and ?D = "map_of ds"
  from inv obtain d obj where d: "?D a = Some d" and obj: "map_of objects a = Some obj"
    unfolding queue_inv_def by (metis domIff insert_subset list.simps(15) option.exhaust_sel)
  from inv have tip: "?D tip = Some 0"
    and path: "\<And>x e. ?D x = Some e \<Longrightarrow> (object_edge objects ^^ e) tip x \<and> x \<in> dom (map_of objects)"
    and q: "set q \<subseteq> dom ?D" "distinct q" "a \<notin> set q"
    and closed: "\<And>x y e. ?D x = Some e \<Longrightarrow> x \<noteq> a \<Longrightarrow> x \<notin> set q \<Longrightarrow> object_edge objects x y \<Longrightarrow>
          \<exists>e'. ?D y = Some e' \<and> e' \<le> e + 1"
    and sorted: "sorted (map (\<lambda>x. the (?D x)) q)" "\<forall>x \<in> set q. d \<le> the (?D x)"
    and bound: "\<forall>x e. ?D x = Some e \<longrightarrow> e \<le> d + 1"
    unfolding queue_inv_def using d by auto
  from parents_loop [OF bound run [unfolded d option.sel]] obtain new where
    new: "q' = q @ new" "distinct new" "set new = {p \<in> set ?ps. ?D p = None}"
    and D': "map_of ds' = (\<lambda>x. if x \<in> set new then Some (d + 1) else ?D x)"
    and objs: "set ?ps \<subseteq> dom (map_of objects)" by blast
  have edge: "object_edge objects a p \<longleftrightarrow> p \<in> set ?ps" for p by (simp add: object_edge_def obj)
  have fresh: "set new \<inter> dom ?D = {}" using new(3) by auto
  have new_path: "(object_edge objects ^^ (d + 1)) tip p" if "p \<in> set new" for p
  proof -
    have "object_edge objects a p" using that new(3) edge by blast
    with path [OF d] show ?thesis by auto
  qed
  have t0: "map_of ds' tip = Some 0" using tip fresh unfolding D' by auto
  have p0: "(object_edge objects ^^ e) tip x \<and> x \<in> dom (map_of objects)" if "map_of ds' x = Some e" for x e
    using that new_path path new(3) objs unfolding D' by (auto split: if_splits)
  have q0: "set q' \<subseteq> dom (map_of ds')" "distinct q'"
    using q new(1,2) fresh unfolding D' by auto
  have c0: "\<exists>e'. map_of ds' y = Some e' \<and> e' \<le> e + 1"
    if x: "map_of ds' x = Some e" "x \<notin> set q'" "object_edge objects x y" for x y e
  proof (cases "x = a")
    case True
    then have "e = d" using x(1) d fresh unfolding D' by (auto split: if_splits)
    from x(3) True edge have "y \<in> set new \<or> (\<exists>e'. ?D y = Some e')" using new(3) by auto
    then show ?thesis using bound fresh \<open>e = d\<close> unfolding D' by auto
  next
    case False
    from x(1,2) new(1) have "?D x = Some e" "x \<notin> set q" unfolding D' by (auto split: if_splits)
    from closed [OF this(1) False this(2) x(3)] fresh show ?thesis unfolding D' by auto
  qed
  have vals: "map (\<lambda>x. the (map_of ds' x)) q' = map (\<lambda>x. the (?D x)) q @ map (\<lambda>_. d + 1) new"
    using q(1) fresh unfolding new(1) D' by (auto intro!: map_cong)
  have s0: "sorted (map (\<lambda>x. the (map_of ds' x)) q')"
  proof -
    have "\<forall>x \<in> set q. the (?D x) \<le> d + 1" using q(1) bound by (metis domD option.sel subsetD)
    then show ?thesis unfolding vals sorted_append using sorted(1) by (auto simp: sorted_iff_nth_mono)
  qed
  have b0: "e \<le> the (map_of ds' (hd q')) + 1" if "q' \<noteq> []" "map_of ds' x = Some e" for x e
  proof -
    have "e \<le> d + 1" using that(2) bound unfolding D' by (auto split: if_splits)
    moreover have "d \<le> the (map_of ds' (hd q'))"
      using that(1) sorted(2) unfolding new(1) D' by (cases q) (auto simp: hd_append)
    ultimately show ?thesis by linarith
  qed
  let ?free = "dom (map_of objects) - dom ?D"
  have "dom (map_of objects) - dom (map_of ds') = ?free - set new" unfolding D' by (auto split: if_splits)
  moreover have sub: "set new \<subseteq> ?free" using new(3) objs by auto
  moreover have "card (set new) \<le> card ?free" using sub by (intro card_mono) (simp_all add: finite_dom_map_of)
  ultimately have "card (dom (map_of objects) - dom (map_of ds')) + length new = card ?free"
    using distinct_card [OF new(2)] by (simp add: card_Diff_subset)
  moreover have "queue_inv objects tip ds' q'"
    unfolding queue_inv_def using t0 p0 q0 c0 s0 b0 by blast
  ultimately show ?thesis by (simp add: new(1))
qed

lemma queue_inv_done:
  assumes "queue_inv objects tip ds []"
  shows "map_of ds x = Some d \<longleftrightarrow> shortest (object_edge objects) tip x d"
proof -
  have close: "\<exists>e. map_of ds x = Some e \<and> e \<le> n" if "(object_edge objects ^^ n) tip x" for n x
    using that
  proof (induction n arbitrary: x)
    case 0
    with assms show ?case by (auto simp: queue_inv_def)
  next
    case (Suc n)
    from Suc.prems obtain y where y: "(object_edge objects ^^ n) tip y" "object_edge objects y x" by auto
    from Suc.IH [OF y(1)] obtain e where e: "map_of ds y = Some e" "e \<le> n" by blast
    with assms y(2) obtain e' where "map_of ds x = Some e'" "e' \<le> e + 1"
      unfolding queue_inv_def by (metis empty_iff empty_set)
    with e(2) show ?case by auto
  qed
  have path: "(object_edge objects ^^ d) tip x" if "map_of ds x = Some d" for x d
    using assms that by (simp add: queue_inv_def)
  have is_shortest: "shortest (object_edge objects) tip x d" if d: "map_of ds x = Some d" for d
    unfolding shortest_def
  proof (intro conjI allI impI notI)
    show "(object_edge objects ^^ d) tip x" by (rule path [OF d])
    fix n assume "n < d" "(object_edge objects ^^ n) tip x"
    with close [OF this(2)] d show False by auto
  qed
  show ?thesis
  proof
    assume "map_of ds x = Some d"
    then show "shortest (object_edge objects) tip x d" by (rule is_shortest)
  next
    assume s: "shortest (object_edge objects) tip x d"
    then have "(object_edge objects ^^ d) tip x" by (simp add: shortest_def)
    from close [OF this] obtain e where e: "map_of ds x = Some e" by blast
    from shortest_unique [OF s is_shortest [OF e]] e show "map_of ds x = Some d" by simp
  qed
qed

lemma distance_loop_correct:
  assumes "queue_inv objects tip ds q"
    and "card (dom (map_of objects) - dom (map_of ds)) + length q \<le> fuel"
  shows "\<exists>r. distance_loop objects fuel ds q = Some r
    \<and> (\<forall>ds'. r = Inr ds' \<longrightarrow> queue_inv objects tip ds' [])"
  using assms
proof (induction objects fuel ds q rule: distance_loop.induct)
  case (1 objects fuel ds)
  then show ?case by simp
next
  case (2 objects ds a q)
  then show ?case by simp
next
  case (3 objects fuel ds a q)
  let ?run = "range_loop (distance_step objects (the (map_of ds a))) (ds, q)
      (contextObjectParentIDs (the (map_of objects a)))"
  show ?case
  proof (cases ?run)
    case (Inl e)
    then show ?thesis by simp
  next
    case (Inr st)
    obtain ds' q' where st: "st = (ds', q')" by (cases st)
    note step = queue_inv_step [OF "3.prems"(1) Inr [unfolded st]]
    then have "card (dom (map_of objects) - dom (map_of ds')) + length q' \<le> fuel" using "3.prems"(2) by simp
    from "3.IH" [OF Inr [unfolded st] refl conjunct1 [OF step] this] show ?thesis by (simp add: Inr st)
  qed
qed

lemma graph_objects_lookup:
  assumes "distinct (map sco_ID graph)"
  shows "map_of (graph_objects graph) a = Some obj \<longleftrightarrow> (\<exists>item \<in> set graph. sco_ID item = a \<and> sco_Object item = obj)"
proof -
  have "map_of (foldl (\<lambda>objects item. map_put (sco_ID item) (sco_Object item) objects) m graph) a = Some obj
      \<longleftrightarrow> (\<exists>item \<in> set graph. sco_ID item = a \<and> sco_Object item = obj)
         \<or> a \<notin> sco_ID ` set graph \<and> map_of m a = Some obj" for m
    using assms
  proof (induction graph arbitrary: m)
    case Nil
    then show ?case by simp
  next
    case (Cons x graph)
    then have "sco_ID x \<notin> sco_ID ` set graph" by simp
    with Cons.IH [of "map_put (sco_ID x) (sco_Object x) m"] Cons.prems show ?case by (auto simp: image_iff)
  qed
  from this [of "[]"] show ?thesis by (simp add: graph_objects_def)
qed

lemma graph_objects_dom:
  "distinct (map sco_ID graph) \<Longrightarrow> dom (map_of (graph_objects graph)) = graph_ids graph"
  using graph_objects_lookup [of graph] by (auto simp: dom_def graph_ids_def)

lemma snapshotAncestorDistances_correct:
  assumes "distinct (map sco_ID graph)"
  shows "\<exists>r. snapshotAncestorDistances tipID graph = Some r \<and>
    (\<forall>ds. r = Inr ds \<longrightarrow> (\<forall>x d. map_of ds x = Some d \<longleftrightarrow> shortest (object_edge (graph_objects graph)) tipID x d)
       \<and> dom (map_of ds) \<subseteq> graph_ids graph)"
proof (cases "map_of (graph_objects graph) tipID")
  case None
  then show ?thesis by (simp add: snapshotAncestorDistances_def)
next
  case (Some obj)
  let ?o = "graph_objects graph"
  have inv: "queue_inv ?o tipID [(tipID, 0)] [tipID]"
    using Some by (auto simp: queue_inv_def)
  have "card (dom (map_of ?o) - {tipID}) + 1 \<le> length graph"
  proof -
    have "tipID \<in> dom (map_of ?o)" using Some by blast
    then have "card (dom (map_of ?o) - {tipID}) + 1 = card (dom (map_of ?o))"
      by (metis Suc_eq_plus1 card_Suc_Diff1 finite_dom_map_of)
    moreover have "card (dom (map_of ?o)) \<le> length graph"
      unfolding graph_objects_dom [OF assms] graph_ids_def by (metis card_image_le card_length finite_set le_trans)
    ultimately show ?thesis by simp
  qed
  then have "card (dom (map_of ?o) - dom (map_of [(tipID, 0 :: nat)])) + length [tipID] \<le> length graph" by simp
  from distance_loop_correct [OF inv this] obtain r where
    r: "distance_loop ?o (length graph) [(tipID, 0)] [tipID] = Some r" "\<forall>ds'. r = Inr ds' \<longrightarrow> queue_inv ?o tipID ds' []"
    by blast
  have "dom (map_of ds) \<subseteq> graph_ids graph" if "queue_inv ?o tipID ds []" for ds
    using that unfolding queue_inv_def graph_objects_dom [OF assms] by blast
  with r queue_inv_done show ?thesis
    using Some by (simp add: snapshotAncestorDistances_def)
qed

subsection \<open>The least key\<close>

type_synonym base_key = "nat \<times> nat \<times> string"

definition base_key :: "nat \<Rightarrow> nat \<Rightarrow> string \<Rightarrow> base_key" where
  "base_key l r c = (max l r, l + r, c)"

definition base_keys :: "(string \<times> nat) list \<Rightarrow> nat gomap \<Rightarrow> base_key set" where
  "base_keys ls rds = {base_key l r c | l r c. (c, l) \<in> set ls \<and> map_of rds c = Some r}"

lemma base_keys_simps [simp]:
  "base_keys [] rds = {}"
  "base_keys (xs @ [(c, l)]) rds =
     (case map_of rds c of None \<Rightarrow> base_keys xs rds | Some r \<Rightarrow> insert (base_key l r c) (base_keys xs rds))"
  by (auto simp: base_keys_def split: option.splits)

lemma finite_base_keys: "finite (base_keys ls rds)"
proof (induction ls rule: rev_induct)
  case Nil
  show ?case by simp
next
  case (snoc x xs)
  then show ?case by (cases x) (simp split: option.split)
qed

lemma base_step_key:
  "base_step rds (b, m, t) (c, l) =
     (case map_of rds c of None \<Rightarrow> (b, m, t)
      | Some r \<Rightarrow> if b = [] \<or> base_key l r c < (m, t, b) then (c, max l r, l + r) else (b, m, t))"
proof -
  have "(max l r < m \<or> max l r = m \<and> (l + r < t \<or> l + r = t \<and> c < b)) \<longleftrightarrow> base_key l r c < (m, t, b)" for r
    by (auto simp: base_key_def)
  moreover have "(if r > l then r else l) = max l r" for r by auto
  ultimately show ?thesis by (simp add: base_step_def Let_def split: option.split)
qed

lemma base_step_min:
  assumes "[] \<notin> fst ` set ls"
  shows "foldl (base_step rds) ([], 0, 0) ls =
    (if base_keys ls rds = {} then ([], 0, 0)
     else case Min (base_keys ls rds) of (m, t, c) \<Rightarrow> (c, m, t))"
  using assms
proof (induction ls rule: rev_induct)
  case Nil
  show ?case by simp
next
  case (snoc x xs)
  obtain c l where x: "x = (c, l)" by (cases x)
  let ?K = "base_keys xs rds"
  have ih: "foldl (base_step rds) ([], 0, 0) xs =
      (if ?K = {} then ([], 0, 0) else case Min ?K of (m, t, c) \<Rightarrow> (c, m, t))"
    using snoc by simp
  show ?case
  proof (cases "map_of rds c")
    case None
    then show ?thesis using ih by (cases "Min ?K") (simp add: x base_step_key)
  next
    case (Some r)
    show ?thesis
    proof (cases "?K = {}")
      case True
      with ih Some show ?thesis by (simp add: x base_step_key) (simp add: base_key_def)
    next
      case False
      obtain m t b where min: "Min ?K = (m, t, b)" by (cases "Min ?K")
      have "(m, t, b) \<in> ?K" using Min_in [OF finite_base_keys False] min by simp
      then have "b \<noteq> []" using snoc.prems by (force simp: base_keys_def base_key_def)
      have new: "Min (base_keys (xs @ [x]) rds) = min (base_key l r c) (m, t, b)"
        using Min_insert [OF finite_base_keys False] Some min by (simp add: x)
      have "foldl (base_step rds) ([], 0, 0) (xs @ [x]) =
          (if base_key l r c < (m, t, b) then (c, max l r, l + r) else (b, m, t))"
        using ih False min Some \<open>b \<noteq> []\<close> by (simp add: x base_step_key)
      also have "\<dots> = (case min (base_key l r c) (m, t, b) of (m, t, c) \<Rightarrow> (c, m, t))"
        by (auto simp: min_def base_key_def)
      finally show ?thesis unfolding new using Some by (simp add: x)
    qed
  qed
qed

lemma best_base_min:
  assumes "map_iteration ord" "[] \<notin> dom (map_of lds)"
  shows "best_base ord lds rds =
    (let K = {base_key l r c | l r c. map_of lds c = Some l \<and> map_of rds c = Some r}
     in if K = {} then Inl CodeRemoteConflict else Inr (snd (snd (Min K))))"
proof -
  note ranges = map_iteration.set_map_range [OF assms(1)]
  let ?ls = "map_range ord 0 lds"
  have keys: "base_keys ?ls rds = {base_key l r c | l r c. map_of lds c = Some l \<and> map_of rds c = Some r}"
    by (simp add: base_keys_def ranges)
  have "[] \<notin> fst ` set ?ls" using assms(2) by (force simp: ranges dom_def)
  note run = base_step_min [OF this, of rds]
  show ?thesis
  proof (cases "base_keys ?ls rds = {}")
    case True
    then show ?thesis unfolding keys [symmetric] best_base_def run by simp
  next
    case False
    obtain m t c where min: "Min (base_keys ?ls rds) = (m, t, c)" by (cases "Min (base_keys ?ls rds)")
    then have "(m, t, c) \<in> base_keys ?ls rds" using Min_in [OF finite_base_keys False] by simp
    then have "c \<noteq> []" using \<open>[] \<notin> fst ` set ?ls\<close> by (force simp: base_keys_def base_key_def)
    with False min show ?thesis unfolding keys [symmetric] best_base_def run by (simp add: Let_def)
  qed
qed

subsection \<open>Parents of a loaded graph\<close>

lemma relpowp_agree:
  assumes "\<And>n x y. (R ^^ n) a x \<Longrightarrow> R x y \<longleftrightarrow> S x y"
  shows "(S ^^ n) a x \<longleftrightarrow> (R ^^ n) a x"
proof (induction n arbitrary: x)
  case 0
  show ?case by simp
next
  case (Suc n)
  have "(S ^^ Suc n) a x \<longleftrightarrow> (\<exists>y. (R ^^ n) a y \<and> S y x)" by (simp add: OO_def Suc.IH)
  also have "\<dots> \<longleftrightarrow> (R ^^ Suc n) a x" using assms by (auto simp: OO_def)
  finally show ?case .
qed

lemma loaded_distances:
  assumes "loadObjectGraphFrom b3 decode fuel commitID repositoryID refName readObject = Some (Inr graph)"
    and "normalizeObjectID commitID = Inr rootID"
    and "snapshotAncestorDistances rootID graph = Some (Inr ds)"
  shows "map_of ds x = Some d \<longleftrightarrow> shortest (object_parent (load_object b3 decode repositoryID refName readObject)) rootID x d"
    and "[] \<notin> dom (map_of ds)"
proof -
  let ?load = "load_object b3 decode repositoryID refName readObject" and ?E = "object_edge (graph_objects graph)"
  from load_success [OF assms(1)] assms(2) have top: "topological ?load {} graph"
    and ids: "graph_ids graph = {a. ancestor_or_self ?load rootID a}"
    by (metis sum.inject(2))+
  note dist = topological_distinct [OF top, THEN conjunct1]
  from snapshotAncestorDistances_correct [OF dist, of rootID] assms(3) have
    ds: "\<And>x d. map_of ds x = Some d \<longleftrightarrow> shortest ?E rootID x d" and sub: "dom (map_of ds) \<subseteq> graph_ids graph" by auto
  have canonical: "canonical_id a" if "a \<in> graph_ids graph" for a
  proof -
    from that ids have "ancestor_or_self ?load rootID a" by simp
    then show ?thesis
    proof (cases rule: rtranclp.cases)
      case rtrancl_refl
      with assms(2) show ?thesis by (simp add: normalizeObjectID_def NormalizeContextCommitID_InrD)
    next
      case (rtrancl_into_rtrancl b)
      then show ?thesis by (auto simp: object_parent_def normalizeObjectID_def NormalizeContextCommitID_InrD)
    qed
  qed
  have agree: "?E y z \<longleftrightarrow> object_parent ?load y z" if y: "(?E ^^ n) rootID y" for n y z
  proof -
    have inds: "u \<in> graph_ids graph" if "?E\<^sup>*\<^sup>* rootID u" for u
      using shortest_exists [OF that] ds sub by blast
    have y': "y \<in> graph_ids graph" by (rule inds [OF relpowp_imp_rtranclp [OF y]])
    then obtain item where item: "item \<in> set graph" "sco_ID item = y" by (auto simp: graph_ids_def)
    note l = topological_item [OF top item(1), unfolded item(2)]
    have E: "?E y q \<longleftrightarrow> q \<in> set (contextObjectParentIDs (sco_Object item))" for q
      using graph_objects_lookup [OF dist, of y] item unfolding object_edge_def by (metis option.inject)
    have norm: "normalizeObjectID q = Inr q" if "?E y q" for q
    proof -
      have "?E\<^sup>*\<^sup>* rootID q" using relpowp_imp_rtranclp [OF y] that by simp
      from canonical [OF inds [OF this]] show ?thesis by (simp add: normalizeObjectID_iff)
    qed
    have "object_parent ?load y z \<longleftrightarrow> (\<exists>q. ?E y q \<and> normalizeObjectID q = Inr z)"
      by (auto simp: object_parent_def l E)
    with norm show ?thesis by auto
  qed
  have "(object_parent ?load ^^ n) rootID u \<longleftrightarrow> (?E ^^ n) rootID u" for n u
    by (rule relpowp_agree) (rule agree)
  then show "map_of ds x = Some d \<longleftrightarrow> shortest (object_parent ?load) rootID x d"
    by (simp add: ds shortest_def)
  show "[] \<notin> dom (map_of ds)"
    using sub canonical canonical_id_nonempty by blast
qed

subsection \<open>Merge bases\<close>

lemma opt_then_Some: "opt_then r f = Some (Inr y) \<longleftrightarrow> (\<exists>x. r = Some (Inr x) \<and> f x = Some (Inr y))"
  by (cases r rule: option.exhaust; cases "the r") (auto simp: opt_then_def)

lemma opt_then_cases:
  "opt_then r f = Some (Inl e) \<longleftrightarrow> r = Some (Inl e) \<or> (\<exists>x. r = Some (Inr x) \<and> f x = Some (Inl e))"
  by (cases r rule: option.exhaust; cases "the r") (auto simp: opt_then_def)

definition common_keys :: "(string \<Rightarrow> string \<Rightarrow> bool) \<Rightarrow> string \<Rightarrow> string \<Rightarrow> base_key set" where
  "common_keys parent l r = {base_key dl dr c | dl dr c. shortest parent l c dl \<and> shortest parent r c dr}"

lemma common_keys_nonempty: "common_keys P l r \<noteq> {} \<longleftrightarrow> (\<exists>c. P\<^sup>*\<^sup>* l c \<and> P\<^sup>*\<^sup>* r c)"
proof
  assume "common_keys P l r \<noteq> {}"
  then obtain dl dr c where "shortest P l c dl" "shortest P r c dr" by (auto simp: common_keys_def)
  then show "\<exists>c. P\<^sup>*\<^sup>* l c \<and> P\<^sup>*\<^sup>* r c" by (meson shortest_reachable)
next
  assume "\<exists>c. P\<^sup>*\<^sup>* l c \<and> P\<^sup>*\<^sup>* r c"
  then obtain c where "P\<^sup>*\<^sup>* l c" "P\<^sup>*\<^sup>* r c" by blast
  then obtain dl dr where "shortest P l c dl" "shortest P r c dr" by (meson shortest_exists)
  then have "base_key dl dr c \<in> common_keys P l r" unfolding common_keys_def by blast
  then show "common_keys P l r \<noteq> {}" by blast
qed

lemma FindMergeBase_run:
  assumes "map_iteration ord" "normalizeObjectID localID = Inr l" "normalizeObjectID remoteID = Inr r"
    and "loadObjectGraph b3 decode fuel dir l repositoryID refName = Some (Inr lg)"
    and "loadObjectGraph b3 decode fuel dir r repositoryID refName = Some (Inr rg)"
    and "snapshotAncestorDistances l lg = Some (Inr lds)" "snapshotAncestorDistances r rg = Some (Inr rds)"
  defines "K \<equiv> common_keys (object_parent (load_object b3 decode repositoryID refName (read_object_file dir))) l r"
  shows "FindMergeBase b3 decode ord fuel dir localID remoteID repositoryID refName =
      Some (if K = {} then Inl CodeRemoteConflict else Inr (snd (snd (Min K))))"
    and "finite K"
proof -
  have n: "normalizeObjectID l = Inr l" "normalizeObjectID r = Inr r"
    using assms(2,3) unfolding normalizeObjectID_iff
    by (simp_all add: normalizeObjectID_def NormalizeContextCommitID_InrD)
  note L = loaded_distances [OF assms(4) [unfolded loadObjectGraph_def] n(1) assms(6)]
  note R = loaded_distances [OF assms(5) [unfolded loadObjectGraph_def] n(2) assms(7)]
  have K: "{base_key dl dr c | dl dr c. map_of lds c = Some dl \<and> map_of rds c = Some dr} = K"
    unfolding K_def common_keys_def L(1) R(1) ..
  show "FindMergeBase b3 decode ord fuel dir localID remoteID repositoryID refName =
      Some (if K = {} then Inl CodeRemoteConflict else Inr (snd (snd (Min K))))"
    using assms(2-7) by (simp add: FindMergeBase_def opt_then_def best_base_min [OF assms(1) L(2)] K Let_def)
  have "K \<subseteq> base_keys lds rds"
    unfolding K [symmetric] base_keys_def by (auto dest: map_of_SomeD)
  then show "finite K" by (rule finite_subset [OF _ finite_base_keys])
qed

lemma FindMergeBase_loaded:
  assumes "FindMergeBase b3 decode ord fuel dir localID remoteID repositoryID refName = Some (Inr base)"
  obtains l r lg rg lds rds where "normalizeObjectID localID = Inr l" "normalizeObjectID remoteID = Inr r"
    "loadObjectGraph b3 decode fuel dir l repositoryID refName = Some (Inr lg)"
    "loadObjectGraph b3 decode fuel dir r repositoryID refName = Some (Inr rg)"
    "snapshotAncestorDistances l lg = Some (Inr lds)" "snapshotAncestorDistances r rg = Some (Inr rds)"
  using assms by (auto simp: FindMergeBase_def opt_then_Some)

text \<open>C39: The merge base of two commits is a common ancestor, and among all common ancestors it has the least
  key: the larger of its two shortest distances, then their sum, then its ID.\<close>

theorem merge_base_nearest:
  assumes "map_iteration ord"
    and "FindMergeBase b3 decode ord fuel dir localID remoteID repositoryID refName = Some (Inr base)"
  shows "\<exists>l r dl dr. normalizeObjectID localID = Inr l \<and> normalizeObjectID remoteID = Inr r
    \<and> shortest (object_parent (load_object b3 decode repositoryID refName (read_object_file dir))) l base dl
    \<and> shortest (object_parent (load_object b3 decode repositoryID refName (read_object_file dir))) r base dr
    \<and> (\<forall>c cl cr. shortest (object_parent (load_object b3 decode repositoryID refName (read_object_file dir))) l c cl
        \<longrightarrow> shortest (object_parent (load_object b3 decode repositoryID refName (read_object_file dir))) r c cr
        \<longrightarrow> base_key dl dr base \<le> base_key cl cr c)"
proof -
  let ?P = "object_parent (load_object b3 decode repositoryID refName (read_object_file dir))"
  from assms(2) obtain l r lg rg lds rds where
    run: "normalizeObjectID localID = Inr l" "normalizeObjectID remoteID = Inr r"
    "loadObjectGraph b3 decode fuel dir l repositoryID refName = Some (Inr lg)"
    "loadObjectGraph b3 decode fuel dir r repositoryID refName = Some (Inr rg)"
    "snapshotAncestorDistances l lg = Some (Inr lds)" "snapshotAncestorDistances r rg = Some (Inr rds)"
    by (rule FindMergeBase_loaded)
  note F = FindMergeBase_run [OF assms(1) run]
  from F(1) assms(2) have ne: "common_keys ?P l r \<noteq> {}" and b: "base = snd (snd (Min (common_keys ?P l r)))"
    by (auto split: if_splits)
  from Min_in [OF F(2) ne] obtain dl dr c where
    m: "Min (common_keys ?P l r) = base_key dl dr c" "shortest ?P l c dl" "shortest ?P r c dr"
    by (auto simp: common_keys_def)
  with b have "c = base" by (simp add: base_key_def)
  moreover have "base_key dl dr c \<le> base_key cl cr x" if "shortest ?P l x cl" "shortest ?P r x cr" for x cl cr
    unfolding m(1) [symmetric] using that by (intro Min_le [OF F(2)]) (auto simp only: common_keys_def)
  ultimately show ?thesis using run(1,2) m(2,3) by blast
qed

text \<open>An ancestor names a parent in another spelling than the one objects are stored under.  Manifests are refused then; an
  object of the first two schemas is not, and its parent is loaded under the normalised spelling.\<close>

definition misspelt_parent :: "loader \<Rightarrow> string \<Rightarrow> bool" where
  "misspelt_parent load a \<longleftrightarrow> (\<exists>b contents obj q. ancestor_or_self load a b \<and> load b = Inr (contents, obj)
     \<and> q \<in> set (contextObjectParentIDs obj) \<and> normalizeObjectID q \<noteq> Inr q)"

lemma distance_steps_in:
  assumes "set ps \<subseteq> dom (map_of objects)"
  shows "\<exists>ds' new. range_loop (distance_step objects d) (ds, q) ps = Inr (ds', q @ new) \<and> set new \<subseteq> set ps"
  using assms
proof (induction ps arbitrary: ds q)
  case Nil
  then show ?case by simp
next
  case (Cons p ps)
  then have p: "map_of objects p \<noteq> None" and ps: "set ps \<subseteq> dom (map_of objects)" by auto
  from p consider "distance_step objects d (ds, q) p = Inr (ds, q)"
    | "distance_step objects d (ds, q) p = Inr (map_put p (d + 1) ds, q @ [p])"
    unfolding distance_step_def by (fastforce simp: Let_def split: if_splits)
  then show ?case
  proof cases
    case 1
    from Cons.IH [OF ps, of ds q] obtain ds' new where
      "range_loop (distance_step objects d) (ds, q) ps = Inr (ds', q @ new)" "set new \<subseteq> set ps" by blast
    with 1 show ?thesis by (intro exI [of _ ds'] exI [of _ new]) auto
  next
    case 2
    from Cons.IH [OF ps, of "map_put p (d + 1) ds" "q @ [p]"] obtain ds' new where
      "range_loop (distance_step objects d) (map_put p (d + 1) ds, q @ [p]) ps = Inr (ds', (q @ [p]) @ new)"
      "set new \<subseteq> set ps" by blast
    with 2 show ?thesis by (intro exI [of _ ds'] exI [of _ "p # new"]) auto
  qed
qed

lemma distance_loop_closed:
  assumes "\<And>a obj. map_of objects a = Some obj \<Longrightarrow> set (contextObjectParentIDs obj) \<subseteq> dom (map_of objects)"
  shows "set q \<subseteq> dom (map_of objects) \<Longrightarrow> distance_loop objects fuel ds q \<noteq> Some (Inl e)"
  using assms
proof (induction objects fuel ds q rule: distance_loop.induct)
  case (3 objects fuel ds a q)
  from "3.prems"(1) obtain obj where obj: "map_of objects a = Some obj" by auto
  from distance_steps_in [OF "3.prems"(2) [OF obj]] obtain ds' new where
    run: "range_loop (distance_step objects (the (map_of ds a))) (ds, q) (contextObjectParentIDs (the (map_of objects a)))
        = Inr (ds', q @ new)" "set new \<subseteq> set (contextObjectParentIDs obj)" unfolding obj option.sel by blast
  have "set (q @ new) \<subseteq> dom (map_of objects)" using "3.prems"(1) "3.prems"(2) [OF obj] run(2) by auto
  from "3.IH" [OF run(1) refl this "3.prems"(2)] show ?case by (simp add: run(1))
qed simp_all

lemma distances_code:
  assumes "distinct (map sco_ID graph)"
  shows "(\<exists>ds. snapshotAncestorDistances tipID graph = Some (Inr ds)) \<or> snapshotAncestorDistances tipID graph = Some (Inl CodeValidation)"
proof -
  have code: "e = CodeValidation" if "distance_loop objects f ds q = Some (Inl e)" for objects f ds q e
    using that
  proof (induction objects f ds q rule: distance_loop.induct)
    case (3 objects fuel ds a q)
    show ?case
    proof (cases "range_loop (distance_step objects (the (map_of ds a))) (ds, q)
        (contextObjectParentIDs (the (map_of objects a)))")
      case (Inl d)
      then have "d = CodeValidation"
        by (rule range_loop_code [rotated]) (auto simp: distance_step_def Let_def split: if_splits)
      with Inl "3.prems" show ?thesis by simp
    next
      case (Inr st)
      with "3.IH" [OF Inr prod.collapse] "3.prems" show ?thesis by (simp add: split_def)
    qed
  qed simp_all
  from snapshotAncestorDistances_correct [OF assms, of tipID] obtain res where
    res: "snapshotAncestorDistances tipID graph = Some res" by blast
  then show ?thesis
    by (cases res) (auto simp: snapshotAncestorDistances_def Let_def split: if_splits dest: code)
qed

text \<open>The distances of a loaded ancestry can be computed unless a parent is misspelt.\<close>

lemma loaded_distances_iff:
  assumes "loadObjectGraphFrom b3 decode fuel commitID repositoryID refName readObject = Some (Inr graph)"
    and "normalizeObjectID commitID = Inr rootID"
  shows "(\<exists>ds. snapshotAncestorDistances rootID graph = Some (Inr ds))
    \<longleftrightarrow> \<not> misspelt_parent (load_object b3 decode repositoryID refName readObject) rootID"
proof -
  let ?load = "load_object b3 decode repositoryID refName readObject" and ?o = "graph_objects graph"
  from load_success [OF assms(1)] assms(2) have top: "topological ?load {} graph"
    and ids: "graph_ids graph = {a. ancestor_or_self ?load rootID a}"
    by (metis sum.inject(2))+
  note dist = topological_distinct [OF top, THEN conjunct1]
  have loaded: "map_of ?o a = Some obj \<longleftrightarrow> ancestor_or_self ?load rootID a \<and> (\<exists>contents. ?load a = Inr (contents, obj))" for a obj
  proof
    assume "map_of ?o a = Some obj"
    then obtain item where item: "item \<in> set graph" "sco_ID item = a" "sco_Object item = obj"
      using graph_objects_lookup [OF dist] by blast
    moreover from this(1,2) have "a \<in> graph_ids graph" by (auto simp: graph_ids_def)
    ultimately show "ancestor_or_self ?load rootID a \<and> (\<exists>contents. ?load a = Inr (contents, obj))"
      using ids topological_item [OF top item(1)] by auto
  next
    assume r: "ancestor_or_self ?load rootID a \<and> (\<exists>contents. ?load a = Inr (contents, obj))"
    with ids have "a \<in> sco_ID ` set graph" unfolding graph_ids_def by blast
    then obtain item where item: "item \<in> set graph" "sco_ID item = a" by blast
    from topological_item [OF top item(1)] item(2) r have "sco_Object item = obj" by auto
    with item show "map_of ?o a = Some obj" using graph_objects_lookup [OF dist] by blast
  qed
  show ?thesis
  proof
    assume "\<exists>ds. snapshotAncestorDistances rootID graph = Some (Inr ds)"
    then obtain ds where run: "snapshotAncestorDistances rootID graph = Some (Inr ds)" by blast
    with snapshotAncestorDistances_correct [OF dist, of rootID] have
      ds: "\<And>x d. map_of ds x = Some d \<longleftrightarrow> shortest (object_edge ?o) rootID x d" and sub: "dom (map_of ds) \<subseteq> graph_ids graph" by auto
    show "\<not> misspelt_parent ?load rootID"
    proof
      assume "misspelt_parent ?load rootID"
      then obtain b contents obj q where m: "ancestor_or_self ?load rootID b" "?load b = Inr (contents, obj)"
        "q \<in> set (contextObjectParentIDs obj)" "normalizeObjectID q \<noteq> Inr q" unfolding misspelt_parent_def by blast
      have root: "normalizeObjectID rootID = Inr rootID"
        using assms(2) unfolding normalizeObjectID_iff by (simp add: normalizeObjectID_def NormalizeContextCommitID_InrD)
      from shortest_exists [OF m(1)] obtain e where "shortest (object_parent ?load) rootID b e" by blast
      with loaded_distances(1) [OF assms(1) assms(2) run] have "map_of ds b = Some e" by blast
      then have "(object_edge ?o)\<^sup>*\<^sup>* rootID b" using ds shortest_reachable by blast
      moreover have "object_edge ?o b q" using m(1-3) loaded by (auto simp: object_edge_def)
      ultimately have "(object_edge ?o)\<^sup>*\<^sup>* rootID q" by (rule rtranclp.rtrancl_into_rtrancl)
      from shortest_exists [OF this] obtain k where "map_of ds q = Some k" using ds by blast
      with sub ids have "ancestor_or_self ?load rootID q" by blast
      then have "canonical_id q"
      proof (cases rule: rtranclp.cases)
        case rtrancl_refl
        with root show ?thesis by (simp add: normalizeObjectID_iff)
      next
        case (rtrancl_into_rtrancl c)
        then show ?thesis by (auto simp: object_parent_def normalizeObjectID_def NormalizeContextCommitID_InrD)
      qed
      with m(4) show False by (simp add: normalizeObjectID_iff)
    qed
  next
    assume spelt: "\<not> misspelt_parent ?load rootID"
    have closed: "set (contextObjectParentIDs obj) \<subseteq> dom (map_of ?o)" if "map_of ?o a = Some obj" for a obj
    proof
      fix q
      assume q: "q \<in> set (contextObjectParentIDs obj)"
      from that loaded obtain contents where l: "ancestor_or_self ?load rootID a" "?load a = Inr (contents, obj)" by blast
      with spelt q have "normalizeObjectID q = Inr q" unfolding misspelt_parent_def by blast
      with l q have "object_parent ?load a q" by (auto simp: object_parent_def)
      with l(1) have "ancestor_or_self ?load rootID q" by (rule rtranclp.rtrancl_into_rtrancl)
      with ids show "q \<in> dom (map_of ?o)" unfolding graph_objects_dom [OF dist] by blast
    qed
    have "rootID \<in> graph_ids graph" using ids by simp
    then have root: "set [rootID] \<subseteq> dom (map_of ?o)" unfolding graph_objects_dom [OF dist] by simp
    then have "map_of ?o rootID \<noteq> None" by auto
    then have "snapshotAncestorDistances rootID graph = distance_loop ?o (length graph) [(rootID, 0)] [rootID]"
      by (auto simp: snapshotAncestorDistances_def Let_def)
    moreover have "distance_loop ?o (length graph) [(rootID, 0)] [rootID] \<noteq> Some (Inl CodeValidation)"
      by (rule distance_loop_closed [OF closed root])
    ultimately show "\<exists>ds. snapshotAncestorDistances rootID graph = Some (Inr ds)" using distances_code [OF dist, of rootID] by auto
  qed
qed

text \<open>C40: The search over two loaded ancestries always ends, and its outcome does not depend on the order in which the runtime
  visits the map of distances.  When an ancestor names its parent in a spelling that is not canonical, it fails with
  a validation error; otherwise it finds a base when the two commits have a common ancestor, and reports a
  conflict when they have none.\<close>

theorem merge_base_decides:
  fixes b3 decode repositoryID refName dir
  defines "load \<equiv> load_object b3 decode repositoryID refName (read_object_file dir)"
  assumes "map_iteration ord" "map_iteration ord'"
    and "normalizeObjectID localID = Inr l" "normalizeObjectID remoteID = Inr r"
    and "loadObjectGraph b3 decode fuel dir l repositoryID refName = Some (Inr lg)"
    and "loadObjectGraph b3 decode fuel dir r repositoryID refName = Some (Inr rg)"
  shows "FindMergeBase b3 decode ord fuel dir localID remoteID repositoryID refName
      = FindMergeBase b3 decode ord' fuel dir localID remoteID repositoryID refName
    \<and> (if misspelt_parent load l \<or> misspelt_parent load r
       then FindMergeBase b3 decode ord fuel dir localID remoteID repositoryID refName = Some (Inl CodeValidation)
       else if \<exists>c. ancestor_or_self load l c \<and> ancestor_or_self load r c
       then \<exists>base. FindMergeBase b3 decode ord fuel dir localID remoteID repositoryID refName = Some (Inr base)
       else FindMergeBase b3 decode ord fuel dir localID remoteID repositoryID refName = Some (Inl CodeRemoteConflict))"
proof -
  have n: "normalizeObjectID l = Inr l" "normalizeObjectID r = Inr r"
    using assms(4,5) unfolding normalizeObjectID_iff
    by (simp_all add: normalizeObjectID_def NormalizeContextCommitID_InrD)
  note L = loaded_distances_iff [OF assms(6) [unfolded loadObjectGraph_def] n(1), folded load_def]
    and R = loaded_distances_iff [OF assms(7) [unfolded loadObjectGraph_def] n(2), folded load_def]
  have d: "distinct (map sco_ID lg)" "distinct (map sco_ID rg)"
    using load_success [OF assms(6) [unfolded loadObjectGraph_def]] load_success [OF assms(7) [unfolded loadObjectGraph_def]]
      topological_distinct by metis+
  show ?thesis
  proof (cases "misspelt_parent load l \<or> misspelt_parent load r")
    case True
    have "FindMergeBase b3 decode o' fuel dir localID remoteID repositoryID refName = Some (Inl CodeValidation)" for o'
    proof (cases "misspelt_parent load l")
      case True
      with L distances_code [OF d(1), of l] have "snapshotAncestorDistances l lg = Some (Inl CodeValidation)" by blast
      then show ?thesis by (simp add: FindMergeBase_def opt_then_def assms(4-7))
    next
      case False
      with L obtain lds where "snapshotAncestorDistances l lg = Some (Inr lds)" by blast
      moreover from True False R distances_code [OF d(2), of r] have "snapshotAncestorDistances r rg = Some (Inl CodeValidation)"
        by blast
      ultimately show ?thesis by (simp add: FindMergeBase_def opt_then_def assms(4-7))
    qed
    with True show ?thesis by simp
  next
    case False
    with L R obtain lds rds where ds: "snapshotAncestorDistances l lg = Some (Inr lds)" "snapshotAncestorDistances r rg = Some (Inr rds)"
      by blast
    note F = FindMergeBase_run(1) [OF assms(2,4-7) ds, folded load_def] FindMergeBase_run(1) [OF assms(3,4-7) ds, folded load_def]
    show ?thesis
      unfolding F common_keys_nonempty [of "object_parent load" l r, symmetric] using False by simp
  qed
qed

end
