(* ===== verification/Landing_Facts.thy ===== *)
theory Landing_Facts
  imports Landing_Plan Delta_Facts
begin

text \<open>
  What a landing plan decides: every canonical note and every candidate record is accounted for, the
  content of a revision never changes, decisions are bound to the landed source revision; resolving
  a conflict removes that conflict only, and the snapshot built from a plan is well formed.
\<close>

subsection \<open>Decisions and the notes they carry\<close>

definition same_content :: "Note \<Rightarrow> Note \<Rightarrow> bool" where
  "same_content a b \<longleftrightarrow> note_ID a = note_ID b \<and> note_RevisionID a = note_RevisionID b
     \<and> note_SupersedesRevisionID a = note_SupersedesRevisionID b \<and> note_Kind a = note_Kind b
     \<and> note_Body a = note_Body b \<and> note_Author a = note_Author b \<and> note_Origin a = note_Origin b
     \<and> note_CreatedAt a = note_CreatedAt b \<and> note_Topics a = note_Topics b"

definition decision_sound :: "string \<Rightarrow> string \<Rightarrow> LandingDecision \<Rightarrow> bool" where
  "decision_sound headSHA k d \<longleftrightarrow> note_ID (dec_Note d) = k \<and> \<not> note_Pending (dec_Note d)
     \<and> note_BindingSourceSHA (dec_Note d) = headSHA \<and> dec_Mapping d = note_mapping (dec_Note d)"

lemma landingDecision_simps [simp]:
  "dec_CandidateRecordID (landingDecision i p n b) = i" "dec_Operation (landingDecision i p n b) = p"
  "dec_Note (landingDecision i p n b) = n\<lparr>note_Pending := False\<rparr>" "dec_NoOp (landingDecision i p n b) = b"
  "dec_Mapping (landingDecision i p n b) = note_mapping n"
  by (simp_all add: landingDecision_def note_mapping_def Let_def)

lemma note_mapping_pending [simp]: "note_mapping (n\<lparr>note_Pending := b\<rparr>) = note_mapping n"
  by (simp add: note_mapping_def)

lemma bindCandidateNote_facts:
  "same_content (bindCandidateNote n h es sha) n \<and> \<not> note_Pending (bindCandidateNote n h es sha)
   \<and> note_BindingSourceSHA (bindCandidateNote n h es sha) = sha
   \<and> note_EntityKey (bindCandidateNote n h es sha) = note_EntityKey n
   \<and> ValidNoteBindingState (note_BindingState (bindCandidateNote n h es sha))"
  by (simp add: bindCandidateNote_def same_content_def Let_def ValidNoteBindingState_def
      split: option.splits)

lemma noteFromCandidateRecord_facts:
  "note_ID (noteFromCandidateRecord r es sha) = rec_NoteID r
   \<and> note_RevisionID (noteFromCandidateRecord r es sha) = rec_RevisionID r
   \<and> note_SupersedesRevisionID (noteFromCandidateRecord r es sha) = rec_SupersedesRevisionID r
   \<and> \<not> note_Pending (noteFromCandidateRecord r es sha)
   \<and> note_BindingSourceSHA (noteFromCandidateRecord r es sha) = sha
   \<and> ValidNoteBindingState (note_BindingState (noteFromCandidateRecord r es sha))"
  using bindCandidateNote_facts unfolding noteFromCandidateRecord_def same_content_def by simp

lemma sameLandingNote_content: "sameLandingNote a b \<Longrightarrow> same_content a b"
  unfolding sameLandingNote_def same_content_def by (cases a; cases b) simp

subsection \<open>One candidate record\<close>

text \<open>
  What \<open>applyCandidateRecord\<close> may do to the decision of its note: the decision stays a sound one,
  and its note keeps its content or is replaced by a revision that supersedes it.
\<close>

definition succeeds :: "Note \<Rightarrow> LandingDecision \<Rightarrow> bool" where
  "succeeds old d \<longleftrightarrow> same_content (dec_Note d) old
     \<or> dec_Operation d = CandidateRevise \<and> note_ID (dec_Note d) = note_ID old
       \<and> note_SupersedesRevisionID (dec_Note d) = note_RevisionID old
       \<and> note_RevisionID (dec_Note d) \<noteq> note_RevisionID old"

definition record_conflict :: "CandidateContextRecord \<Rightarrow> LandingConflict \<Rightarrow> bool" where
  "record_conflict r c \<longleftrightarrow> conf_CandidateRecordID c = rec_ID r \<and> conf_NoteID c = rec_NoteID r
     \<and> conf_Reason c \<in> {''note_collision'', ''revision_conflict'', ''immutable_revision_conflict''}"

lemma add_conflict_cases:
  "reason \<in> {''note_collision'', ''revision_conflict'', ''immutable_revision_conflict''} \<Longrightarrow>
   \<exists>c. add_conflict r reason st = (fst st, snd st @ [c]) \<and> record_conflict r c"
  by (cases st) (simp add: add_conflict_def record_conflict_def)

lemma set_decision_simp: "set_decision r d st = (map_put (rec_NoteID r) d (fst st), snd st)"
  by (cases st) (simp add: set_decision_def)

lemma applyCandidateRecord_cases [consumes 2, case_names conflict decide]:
  assumes "record_operation_ok r"
    and "\<forall>d. map_of (fst st) (rec_NoteID r) = Some d \<longrightarrow> decision_sound sha (rec_NoteID r) d"
  obtains (conflict) c where "applyCandidateRecord r es sha st = (fst st, snd st @ [c])" "record_conflict r c"
    | (decide) d where "applyCandidateRecord r es sha st = (map_put (rec_NoteID r) d (fst st), snd st)"
        "decision_sound sha (rec_NoteID r) d" "dec_CandidateRecordID d = rec_ID r"
        "dec_Operation d = rec_Operation r"
        "\<And>old. map_of (fst st) (rec_NoteID r) = Some old \<Longrightarrow> succeeds (dec_Note old) d"
        "map_of (fst st) (rec_NoteID r) = None \<Longrightarrow> rec_Operation r = CandidateAdd"
proof -
  let ?d = "noteFromCandidateRecord r es sha"
  let ?D = "landingDecision (rec_ID r) (rec_Operation r)"
  note nf = noteFromCandidateRecord_facts [of r es sha]
  have new: "decision_sound sha (rec_NoteID r) (?D ?d False)"
    using nf by (simp add: decision_sound_def)
  have adopt: "decision_sound sha (rec_NoteID r) (adopted r x) \<and> succeeds (dec_Note x) (adopted r x)
      \<and> dec_CandidateRecordID (adopted r x) = rec_ID r \<and> dec_Operation (adopted r x) = rec_Operation r"
    if "map_of (fst st) (rec_NoteID r) = Some x" for x
    using assms(2) that by (simp add: adopted_def decision_sound_def succeeds_def same_content_def)
  have refused: thesis if "applyCandidateRecord r es sha st = add_conflict r reason st"
      "reason \<in> {''note_collision'', ''revision_conflict'', ''immutable_revision_conflict''}" for reason
  proof -
    from add_conflict_cases [OF that(2), of r st] obtain c
      where "add_conflict r reason st = (fst st, snd st @ [c])" "record_conflict r c" by (elim exE conjE)
    with that(1) show thesis by (intro conflict) simp_all
  qed
  from assms(1) consider (add) "rec_Operation r = CandidateAdd"
    | (revise) "rec_Operation r = CandidateRevise" "rec_SupersedesRevisionID r = rec_BaseRevisionID r"
        "rec_RevisionID r \<noteq> rec_BaseRevisionID r"
    | (rebind) "rec_Operation r = CandidateRebind" "rec_RevisionID r = rec_BaseRevisionID r"
    by (auto simp: record_operation_ok_def split: if_splits)
  then show thesis
  proof cases
    case add
    show thesis
    proof (cases "map_of (fst st) (rec_NoteID r)")
      case None
      with add have "applyCandidateRecord r es sha st = (map_put (rec_NoteID r) (?D ?d False) (fst st), snd st)"
        by (simp add: applyCandidateRecord_def set_decision_simp Let_def)
      from decide [OF this new] None add show thesis by simp
    next
      case (Some x)
      show thesis
      proof (cases "sameLandingNote (dec_Note x) ?d")
        case True
        with add Some have "applyCandidateRecord r es sha st = (map_put (rec_NoteID r) (adopted r x) (fst st), snd st)"
          by (simp add: applyCandidateRecord_def set_decision_simp Let_def)
        from decide [OF this] adopt [OF Some] Some show thesis by simp
      next
        case False
        with add Some have "applyCandidateRecord r es sha st = add_conflict r ''note_collision'' st"
          by (simp add: applyCandidateRecord_def)
        then show thesis by (rule refused) simp
      qed
    qed
  next
    case revise
    have op: "rec_Operation r \<noteq> CandidateAdd" using revise by (simp add: go_defs)
    show thesis
    proof (cases "map_of (fst st) (rec_NoteID r)")
      case None
      with revise op have "applyCandidateRecord r es sha st = add_conflict r ''revision_conflict'' st"
        by (simp add: applyCandidateRecord_def)
      then show thesis by (rule refused) simp
    next
      case (Some x)
      consider (same) "note_RevisionID (dec_Note x) = rec_RevisionID r" "sameLandingNote (dec_Note x) ?d"
        | (clash) "note_RevisionID (dec_Note x) = rec_RevisionID r" "\<not> sameLandingNote (dec_Note x) ?d"
        | (stale) "note_RevisionID (dec_Note x) \<noteq> rec_RevisionID r" "note_RevisionID (dec_Note x) \<noteq> rec_BaseRevisionID r"
        | (next_rev) "note_RevisionID (dec_Note x) \<noteq> rec_RevisionID r" "note_RevisionID (dec_Note x) = rec_BaseRevisionID r"
        by blast
      then show thesis
      proof cases
        case same
        with revise op Some have "applyCandidateRecord r es sha st = (map_put (rec_NoteID r) (adopted r x) (fst st), snd st)"
          by (simp add: applyCandidateRecord_def set_decision_simp Let_def)
        from decide [OF this] adopt [OF Some] Some show thesis by simp
      next
        case clash
        with revise op Some have "applyCandidateRecord r es sha st = add_conflict r ''immutable_revision_conflict'' st"
          by (simp add: applyCandidateRecord_def)
        then show thesis by (rule refused) simp
      next
        case stale
        with revise op Some have "applyCandidateRecord r es sha st = add_conflict r ''revision_conflict'' st"
          by (simp add: applyCandidateRecord_def)
        then show thesis by (rule refused) simp
      next
        case next_rev
        with revise op Some have run: "applyCandidateRecord r es sha st = (map_put (rec_NoteID r) (?D ?d False) (fst st), snd st)"
          by (simp add: applyCandidateRecord_def set_decision_simp Let_def)
        have "succeeds (dec_Note x) (?D ?d False)"
          using nf revise next_rev assms(2) Some by (simp add: succeeds_def decision_sound_def)
        with decide [OF run new] Some show thesis by simp
      qed
    qed
  next
    case rebind
    have op: "rec_Operation r \<noteq> CandidateAdd" "rec_Operation r \<noteq> CandidateRevise"
      using rebind by (simp_all add: go_defs)
    show thesis
    proof (cases "map_of (fst st) (rec_NoteID r)")
      case None
      with rebind op have "applyCandidateRecord r es sha st = add_conflict r ''revision_conflict'' st"
        by (simp add: applyCandidateRecord_def)
      then show thesis by (rule refused) simp
    next
      case (Some x)
      let ?b = "bindCandidateNote ((dec_Note x)\<lparr>note_EntityKey := rec_EntityKey r\<rparr>) (rec_StructuralHash r) es sha"
      consider (stale) "note_RevisionID (dec_Note x) \<noteq> rec_BaseRevisionID r"
        | (clash) "note_RevisionID (dec_Note x) = rec_BaseRevisionID r" "\<not> candidateRecordPreservesRevision r (dec_Note x)"
        | (bound) "note_RevisionID (dec_Note x) = rec_BaseRevisionID r" "candidateRecordPreservesRevision r (dec_Note x)"
        by blast
      then show thesis
      proof cases
        case stale
        with rebind op Some have "applyCandidateRecord r es sha st = add_conflict r ''revision_conflict'' st"
          by (simp add: applyCandidateRecord_def)
        then show thesis by (rule refused) simp
      next
        case clash
        with rebind op Some have "applyCandidateRecord r es sha st = add_conflict r ''immutable_revision_conflict'' st"
          by (simp add: applyCandidateRecord_def)
        then show thesis by (rule refused) simp
      next
        case bound
        let ?D' = "?D ?b (sameLandingNote (dec_Note x) ?b)"
        from bound rebind op Some have run: "applyCandidateRecord r es sha st = (map_put (rec_NoteID r) ?D' (fst st), snd st)"
          by (simp add: applyCandidateRecord_def set_decision_simp Let_def)
        have s: "same_content ?b (dec_Note x)" "\<not> note_Pending ?b" "note_BindingSourceSHA ?b = sha"
          using bindCandidateNote_facts [of "(dec_Note x)\<lparr>note_EntityKey := rec_EntityKey r\<rparr>"]
          by (simp_all add: same_content_def)
        then have "decision_sound sha (rec_NoteID r) ?D'" "succeeds (dec_Note x) ?D'"
          using assms(2) Some by (simp_all add: decision_sound_def succeeds_def same_content_def)
        with decide [OF run] Some show thesis by simp
      qed
    qed
  qed
qed

subsection \<open>All notes and all records\<close>

lemma canonical_fold:
  fixes es sha obj
  defines "step \<equiv> \<lambda>decisions note.
     map_put (note_ID note) (landingDecision [] [] ((fst (Reconcile (NewBindingReconciler es sha) note
       (entity_or_zero (map_of obj (note_EntityKey note)))))\<lparr>note_Pending := False\<rparr>) False) decisions"
  assumes "wf_map m"
  shows "wf_map (foldl step m ns) \<and> dom (map_of (foldl step m ns)) = dom (map_of m) \<union> note_ID ` set ns
    \<and> (\<forall>k d. map_of (foldl step m ns) k = Some d \<longrightarrow> map_of m k = Some d \<or>
         decision_sound sha k d \<and> dec_CandidateRecordID d = [] \<and> (\<exists>n \<in> set ns. same_content (dec_Note d) n))"
  using assms(2)
proof (induction ns arbitrary: m)
  case Nil
  then show ?case by simp
next
  case (Cons n ns)
  let ?d = "landingDecision [] [] ((fst (Reconcile (NewBindingReconciler es sha) n
       (entity_or_zero (map_of obj (note_EntityKey n)))))\<lparr>note_Pending := False\<rparr>) False"
  obtain u c where u: "Reconcile (NewBindingReconciler es sha) n (entity_or_zero (map_of obj (note_EntityKey n))) = (u, c)"
    by fastforce
  have d: "decision_sound sha (note_ID n) ?d \<and> dec_CandidateRecordID ?d = [] \<and> same_content (dec_Note ?d) n"
    using Reconcile_facts [OF u] by (simp add: u decision_sound_def same_content_def)
  then obtain d where d: "step m n = map_put (note_ID n) d m" "decision_sound sha (note_ID n) d"
      "dec_CandidateRecordID d = []" "same_content (dec_Note d) n"
    unfolding step_def by blast
  have "wf_map (step m n)" using Cons.prems d(1) by simp
  note IH = Cons.IH [OF this]
  have dom: "dom (map_of (step m n)) = insert (note_ID n) (dom (map_of m))" by (simp add: d(1))
  have "map_of m k = Some e \<or> decision_sound sha k e \<and> dec_CandidateRecordID e = []
      \<and> (\<exists>x \<in> set (n # ns). same_content (dec_Note e) x)"
    if e: "map_of (foldl step (step m n) ns) k = Some e" for k e
  proof (cases "map_of (step m n) k = Some e")
    case True
    with d show ?thesis by (simp split: if_splits)
  next
    case False
    with IH e show ?thesis by auto
  qed
  with IH dom show ?case by auto
qed

lemma canonical_decisions_facts:
  "wf_map (canonical_decisions obj es sha)
   \<and> dom (map_of (canonical_decisions obj es sha)) = note_ID ` set (elems (obj_Notes obj))
   \<and> (\<forall>k d. map_of (canonical_decisions obj es sha) k = Some d \<longrightarrow> decision_sound sha k d
        \<and> dec_CandidateRecordID d = [] \<and> (\<exists>n \<in> set (elems (obj_Notes obj)). same_content (dec_Note d) n))"
  using canonical_fold [OF wf_map_Nil, of es sha "entities_by_key (elems (obj_Entities obj))" "elems (obj_Notes obj)"]
  by (simp add: canonical_decisions_def Let_def)

definition records_applied :: "LandingDecision gomap \<Rightarrow> LandingConflict list \<Rightarrow> string \<Rightarrow>
    CandidateContextRecord list \<Rightarrow> landing_state \<Rightarrow> bool" where
  "records_applied D0 C0 sha rs st \<longleftrightarrow> wf_map (fst st)
     \<and> (\<forall>k d. map_of (fst st) k = Some d \<longrightarrow> decision_sound sha k d)
     \<and> (\<forall>k old. map_of D0 k = Some old \<longrightarrow> (\<exists>d. map_of (fst st) k = Some d \<and> succeeds (dec_Note old) d))
     \<and> (\<forall>k. k \<notin> rec_NoteID ` set rs \<longrightarrow> map_of (fst st) k = map_of D0 k)
     \<and> (\<forall>k d. map_of (fst st) k = Some d \<longrightarrow> map_of D0 k = None \<longrightarrow>
          (\<exists>r \<in> set rs. rec_NoteID r = k \<and> rec_Operation r = CandidateAdd \<and> dec_CandidateRecordID d = rec_ID r))
     \<and> (\<forall>r \<in> set rs. (\<exists>d. map_of (fst st) (rec_NoteID r) = Some d \<and> dec_CandidateRecordID d = rec_ID r
            \<and> dec_Operation d = rec_Operation r) \<or> (\<exists>c \<in> set (snd st). record_conflict r c))
     \<and> (\<exists>cs. snd st = C0 @ cs \<and> list_all (\<lambda>c. \<exists>r \<in> set rs. record_conflict r c) cs)"

lemma same_content_refl [simp]: "same_content n n"
  by (simp add: same_content_def)

lemma records_applied_step:
  assumes inv: "records_applied D0 C0 sha rs st"
    and r: "record_operation_ok r" "rec_NoteID r \<notin> rec_NoteID ` set rs"
  shows "records_applied D0 C0 sha (rs @ [r]) (applyCandidateRecord r es sha st)"
proof -
  note I = inv [unfolded records_applied_def]
  have old: "map_of (fst st) (rec_NoteID r) = map_of D0 (rec_NoteID r)" using I r(2) by blast
  have sound: "\<forall>d. map_of (fst st) (rec_NoteID r) = Some d \<longrightarrow> decision_sound sha (rec_NoteID r) d"
    using I by blast
  from r(1) sound show ?thesis
  proof (cases rule: applyCandidateRecord_cases [where es = es])
    case (conflict c)
    from I obtain cs where cs: "snd st = C0 @ cs" "list_all (\<lambda>c. \<exists>r \<in> set rs. record_conflict r c) cs" by blast
    have "snd st @ [c] = C0 @ (cs @ [c])" "list_all (\<lambda>c. \<exists>x \<in> set (rs @ [r]). record_conflict x c) (cs @ [c])"
      using cs conflict(2) by (auto simp: list_all_iff)
    then show ?thesis
      unfolding records_applied_def conflict(1) fst_conv snd_conv using I conflict(2)
      by (intro conjI) (auto 0 3)
  next
    case (decide d)
    have new: "map_of (map_put (rec_NoteID r) d (fst st)) = (map_of (fst st))(rec_NoteID r \<mapsto> d)" by simp
    from I obtain cs where cs: "snd st = C0 @ cs" "list_all (\<lambda>c. \<exists>r \<in> set rs. record_conflict r c) cs" by blast
    then have "list_all (\<lambda>c. \<exists>x \<in> set (rs @ [r]). record_conflict x c) cs" by (auto simp: list_all_iff)
    with cs(1) have conf: "\<exists>cs. snd st = C0 @ cs \<and> list_all (\<lambda>c. \<exists>x \<in> set (rs @ [r]). record_conflict x c) cs" by blast
    have others: "rec_NoteID x \<noteq> rec_NoteID r" if "x \<in> set rs" for x using r(2) that by (metis imageI)
    show ?thesis
      unfolding records_applied_def decide(1) fst_conv snd_conv new
    proof (intro conjI)
      show "wf_map (map_put (rec_NoteID r) d (fst st))" using I by simp
      show "\<forall>k e. ((map_of (fst st))(rec_NoteID r \<mapsto> d)) k = Some e \<longrightarrow> decision_sound sha k e"
        using I decide(2) by simp
      show "\<forall>k o'. map_of D0 k = Some o' \<longrightarrow>
          (\<exists>e. ((map_of (fst st))(rec_NoteID r \<mapsto> d)) k = Some e \<and> succeeds (dec_Note o') e)"
        using I decide(5) old by simp
      show "\<forall>k. k \<notin> rec_NoteID ` set (rs @ [r]) \<longrightarrow> ((map_of (fst st))(rec_NoteID r \<mapsto> d)) k = map_of D0 k"
        using I by simp
      show "\<forall>k e. ((map_of (fst st))(rec_NoteID r \<mapsto> d)) k = Some e \<longrightarrow> map_of D0 k = None \<longrightarrow>
          (\<exists>x \<in> set (rs @ [r]). rec_NoteID x = k \<and> rec_Operation x = CandidateAdd \<and> dec_CandidateRecordID e = rec_ID x)"
        using I decide(3,6) old by (simp add: Bex_def) blast
      show "\<forall>x \<in> set (rs @ [r]). (\<exists>e. ((map_of (fst st))(rec_NoteID r \<mapsto> d)) (rec_NoteID x) = Some e
            \<and> dec_CandidateRecordID e = rec_ID x \<and> dec_Operation e = rec_Operation x)
          \<or> (\<exists>c \<in> set (snd st). record_conflict x c)"
        using I decide(3,4) others by simp
    qed (rule conf)
  qed
qed

lemma records_applied_all:
  assumes "wf_map D0" "\<forall>k d. map_of D0 k = Some d \<longrightarrow> decision_sound sha k d"
    "list_all record_operation_ok rs" "distinct (map rec_NoteID rs)"
  shows "records_applied D0 C0 sha rs (foldl (\<lambda>st r. applyCandidateRecord r es sha st) (D0, C0) rs)"
  using assms(3,4)
proof (induction rs rule: rev_induct)
  case Nil
  show ?case using assms(1,2) by (auto simp: records_applied_def succeeds_def)
next
  case (snoc r rs)
  then show ?case by (simp add: records_applied_step)
qed

subsection \<open>The plan\<close>

lemma candidate_of_input_records:
  assumes "candidate_of_input b3 inp = Inr cand"
  shows "list_all record_operation_ok (delta_Records cand) \<and> distinct (map rec_NoteID (delta_Records cand))"
proof -
  let ?raw = "lpi_Candidate inp"
  have "cand = zero_delta \<or> NormalizeCandidateContextDelta b3 ?raw = Inr cand"
  proof (cases "delta_SchemaVersion ?raw = 0 \<and> delta_Records ?raw = []")
    case True
    with assms show ?thesis
      unfolding candidate_of_input_def Let_def by (simp only: HOL.simp_thms if_True sum.distinct sum.inject split: if_split_asm)
  next
    case False
    show ?thesis
    proof (cases "NormalizeCandidateContextDelta b3 ?raw")
      case (Inl e)
      with assms False show ?thesis
        unfolding candidate_of_input_def Let_def by (simp only: HOL.simp_thms if_False and_then.simps sum.distinct)
    next
      case (Inr c)
      with assms False show ?thesis
        unfolding candidate_of_input_def Let_def
        by (simp only: HOL.simp_thms if_False and_then.simps sum.distinct sum.inject split: if_split_asm)
    qed
  qed
  then consider "cand = zero_delta" | "NormalizeCandidateContextDelta b3 ?raw = Inr cand" by (elim disjE)
  then show ?thesis
  proof cases
    case 1
    then show ?thesis by (simp add: zero_delta_def)
  next
    case 2
    from NormalizeCandidateContextDelta_normal [OF this] show ?thesis
      by (auto simp: delta_normal_def list_all_iff record_normal_def)
  qed
qed

lemma validateLandingPlanInput_facts:
  assumes "validateLandingPlanInput b3 inp = Inr (canonical, es, pv, cand)"
  shows "canonical = lpi_Canonical inp \<and> candidate_of_input b3 inp = Inr cand
    \<and> normalizeLandingEntities (lpi_TargetEntities inp) (fp_HeadSourceSHA (lpi_Fingerprint inp)) = Inr es"
proof (cases "normalizeLandingEntities (lpi_TargetEntities inp) (fp_HeadSourceSHA (lpi_Fingerprint inp))")
  case (Inl e)
  with assms show ?thesis
    unfolding validateLandingPlanInput_def Let_def
    by (simp only: HOL.simp_thms sum.case sum.distinct split: if_split_asm)
next
  case ents: (Inr xs)
  show ?thesis
  proof (cases "normalizeLandingProvenance (lpi_TargetProvenance inp) (fp_HeadSourceSHA (lpi_Fingerprint inp))")
    case (Inl e)
    with assms ents show ?thesis
      unfolding validateLandingPlanInput_def Let_def
      by (simp only: HOL.simp_thms sum.case sum.distinct and_then_eq_Inr sum.inject prod.inject split: if_split_asm)
        (elim exE conjE, simp only: HOL.simp_thms)
  next
    case (Inr ps)
    with assms ents show ?thesis
      unfolding validateLandingPlanInput_def Let_def
      by (simp only: HOL.simp_thms sum.case sum.distinct and_then_eq_Inr sum.inject prod.inject split: if_split_asm)
        (elim exE conjE, simp only: HOL.simp_thms)
  qed
qed

definition landed_state :: "LandingPlanInput \<Rightarrow> Entity list \<Rightarrow> ContextSnapshotProvenance list \<Rightarrow>
    CandidateContextDelta \<Rightarrow> landing_state" where
  "landed_state inp es pv cand = foldl (\<lambda>st r. applyCandidateRecord r es (fp_HeadSourceSHA (lpi_Fingerprint inp)) st)
     (canonical_decisions (lpi_Canonical inp) es (fp_HeadSourceSHA (lpi_Fingerprint inp)),
      (if \<not> lpi_CoverageComplete inp then [coverage_conflict ''coverage_incomplete''] else [])
      @ (if lpi_CoverageComplete inp \<and> length pv = 0 then [coverage_conflict ''provenance_incomplete''] else []))
     (delta_Records cand)"

definition landed_plan :: "map_order \<Rightarrow> LandingPlanInput \<Rightarrow> Entity list \<Rightarrow> ContextSnapshotProvenance list \<Rightarrow>
    CandidateContextDelta \<Rightarrow> ContextPlan" where
  "landed_plan ord inp es pv cand =
    (let listed = map snd (map_range ord 7 (fst (landed_state inp es pv cand)));
         conflicts = sort_key conflict_key (snd (landed_state inp es pv cand));
         summary = \<lparr>sum_ActiveNotes = count_state NoteBindingActive listed,
             sum_NeedsReviewNotes = count_state NoteBindingNeedsReview listed,
             sum_HistoricalNotes = count_state NoteBindingHistorical listed,
             sum_CandidateRecords = int (length (delta_Records cand)),
             sum_Conflicts = int (length conflicts)\<rparr>
     in \<lparr>plan_SchemaVersion = 1, plan_ID = [], plan_Kind = lpi_Kind inp,
             plan_Fingerprint = lpi_Fingerprint inp, plan_Outcome = plan_outcome conflicts summary,
             plan_EntityChanges = ClassifyEntityChanges ord (elems (obj_Entities (lpi_Canonical inp))) es,
             plan_Decisions = Some (sort_key (\<lambda>d. note_ID (dec_Note d)) listed),
             plan_Conflicts = conflicts, plan_Summary = summary, plan_CreatedAt = time_UTC (lpi_CreatedAt inp)\<rparr>)"

lemma PlanLanding_run:
  "PlanLanding b3 ord inp = and_then (validateLandingPlanInput b3 inp) (\<lambda>(canonical, es, pv, cand).
     and_then (contextPlanID b3 (landed_plan ord inp es pv cand)) (\<lambda>identifier.
       Inr ((landed_plan ord inp es pv cand)\<lparr>plan_ID := identifier\<rparr>)))"
proof (cases "validateLandingPlanInput b3 inp")
  case (Inl e)
  then show ?thesis by (simp add: PlanLanding_def)
next
  case (Inr v)
  obtain canonical es pv cand where v: "v = (canonical, es, pv, cand)" by (cases v)
  with validateLandingPlanInput_facts Inr have c: "canonical = lpi_Canonical inp" by blast
  show ?thesis
    by (simp add: PlanLanding_def Inr v c landed_plan_def landed_state_def Let_def split_def)
qed

lemma landed_state_applied:
  assumes "validateLandingPlanInput b3 inp = Inr (canonical, es, pv, cand)"
  shows "records_applied (canonical_decisions (lpi_Canonical inp) es (fp_HeadSourceSHA (lpi_Fingerprint inp)))
    ((if \<not> lpi_CoverageComplete inp then [coverage_conflict ''coverage_incomplete''] else [])
      @ (if lpi_CoverageComplete inp \<and> length pv = 0 then [coverage_conflict ''provenance_incomplete''] else []))
    (fp_HeadSourceSHA (lpi_Fingerprint inp)) (delta_Records cand) (landed_state inp es pv cand)"
  unfolding landed_state_def
  using candidate_of_input_records canonical_decisions_facts validateLandingPlanInput_facts [OF assms]
  by (intro records_applied_all) blast+

lemma contextPlanID_ignores: "contextPlanID b3 (p\<lparr>plan_ID := i\<rparr>) = contextPlanID b3 p"
  by (simp add: contextPlanID_def)

lemma PlanLanding_cases:
  assumes "PlanLanding b3 ord inp = Inr plan"
  obtains es pv cand where "validateLandingPlanInput b3 inp = Inr (lpi_Canonical inp, es, pv, cand)"
    "candidate_of_input b3 inp = Inr cand" "plan = (landed_plan ord inp es pv cand)\<lparr>plan_ID := plan_ID plan\<rparr>"
    "contextPlanID b3 plan = Inr (plan_ID plan)"
proof -
  from assms obtain canonical es pv cand i where
    v: "validateLandingPlanInput b3 inp = Inr (canonical, es, pv, cand)"
    and i: "contextPlanID b3 (landed_plan ord inp es pv cand) = Inr i"
    and p: "plan = (landed_plan ord inp es pv cand)\<lparr>plan_ID := i\<rparr>"
    by (auto simp: PlanLanding_run)
  from p have "plan_ID plan = i" by simp
  with p i have "plan = (landed_plan ord inp es pv cand)\<lparr>plan_ID := plan_ID plan\<rparr>"
    "contextPlanID b3 plan = Inr (plan_ID plan)" by (simp_all add: contextPlanID_ignores)
  with v validateLandingPlanInput_facts [OF v] show thesis by (intro that) simp_all
qed

context map_iteration
begin

lemma listed_decisions:
  assumes "wf_map D" "\<forall>k d. map_of D k = Some d \<longrightarrow> note_ID (dec_Note d) = k"
  shows "set (map snd (map_range ord i D)) = {d. map_of D (note_ID (dec_Note d)) = Some d}"
    and "distinct (map (\<lambda>d. note_ID (dec_Note d)) (map snd (map_range ord i D)))"
proof -
  show "set (map snd (map_range ord i D)) = {d. map_of D (note_ID (dec_Note d)) = Some d}"
    using assms(2) by (force simp: set_map_range)
  have "map (\<lambda>d. note_ID (dec_Note d)) (map snd (map_range ord i D)) = map fst (map_range ord i D)"
    using assms(2) by (auto simp: set_map_range)
  then show "distinct (map (\<lambda>d. note_ID (dec_Note d)) (map snd (map_range ord i D)))"
    using distinct_map_range [OF assms(1)] by metis
qed

end

lemma distinct_sorted_key:
  assumes "distinct (map f xs)"
  shows "sorted_wrt (<) (map f (sort_key f xs))"
proof -
  have "mset (map f (sort_key f xs)) = mset (map f xs)" by simp
  then have "distinct (map f (sort_key f xs))" using assms by (metis mset_eq_imp_distinct_iff)
  then show ?thesis by (simp add: strict_sorted_iff)
qed

lemma landed_decisions:
  assumes "map_iteration ord" "validateLandingPlanInput b3 inp = Inr (canonical, es, pv, cand)"
  defines "D \<equiv> fst (landed_state inp es pv cand)"
  shows "set (elems (plan_Decisions (landed_plan ord inp es pv cand))) = {d. map_of D (note_ID (dec_Note d)) = Some d}"
    "sorted_wrt (<) (map (\<lambda>d. note_ID (dec_Note d)) (elems (plan_Decisions (landed_plan ord inp es pv cand))))"
proof -
  have D: "wf_map D" "\<forall>k d. map_of D k = Some d \<longrightarrow> note_ID (dec_Note d) = k"
    using landed_state_applied [OF assms(2)] by (auto simp: records_applied_def D_def decision_sound_def)
  note l = map_iteration.listed_decisions [OF assms(1) D, of 7]
  have e: "elems (plan_Decisions (landed_plan ord inp es pv cand))
      = sort_key (\<lambda>d. note_ID (dec_Note d)) (map snd (map_range ord 7 D))"
    by (simp add: landed_plan_def Let_def D_def)
  show "set (elems (plan_Decisions (landed_plan ord inp es pv cand))) = {d. map_of D (note_ID (dec_Note d)) = Some d}"
    unfolding e set_sort by (rule l(1))
  show "sorted_wrt (<) (map (\<lambda>d. note_ID (dec_Note d)) (elems (plan_Decisions (landed_plan ord inp es pv cand))))"
    unfolding e by (rule distinct_sorted_key [OF l(2)])
qed

lemma count_state_zero: "count_state s ds = 0 \<longleftrightarrow> (\<forall>d \<in> set ds. note_BindingState (dec_Note d) \<noteq> s)"
  by (simp add: count_state_def filter_empty_conv)

lemma count_state_sort: "count_state s (sort_key f ds) = count_state s ds"
proof -
  have "mset (filter (\<lambda>d. note_BindingState (dec_Note d) = s) (sort_key f ds))
      = mset (filter (\<lambda>d. note_BindingState (dec_Note d) = s) ds)" by (simp add: mset_filter)
  then show ?thesis unfolding count_state_def by (metis mset_eq_length)
qed

definition plan_consistent :: "ContextPlan \<Rightarrow> bool" where
  "plan_consistent plan \<longleftrightarrow>
     (plan_Outcome plan = ContextPlanBlocked \<longleftrightarrow> plan_Conflicts plan \<noteq> [])
     \<and> (plan_Outcome plan = ContextPlanReady \<longleftrightarrow> plan_Conflicts plan = []
          \<and> (\<forall>d \<in> set (elems (plan_Decisions plan)).
               note_BindingState (dec_Note d) \<notin> {NoteBindingNeedsReview, NoteBindingHistorical}))
     \<and> sum_Conflicts (plan_Summary plan) = int (length (plan_Conflicts plan))
     \<and> (\<forall>(s, n) \<in> {(NoteBindingActive, sum_ActiveNotes (plan_Summary plan)),
            (NoteBindingNeedsReview, sum_NeedsReviewNotes (plan_Summary plan)),
            (NoteBindingHistorical, sum_HistoricalNotes (plan_Summary plan))}.
          n = count_state s (elems (plan_Decisions plan)))"

lemma plan_outcome_iff:
  "plan_outcome cs sm = ContextPlanBlocked \<longleftrightarrow> cs \<noteq> []"
  "plan_outcome cs sm = ContextPlanReady \<longleftrightarrow> cs = [] \<and> sum_NeedsReviewNotes sm = 0 \<and> sum_HistoricalNotes sm = 0"
  by (simp_all add: plan_outcome_def go_defs)

lemma landed_plan_consistent: "plan_consistent ((landed_plan ord inp es pv cand)\<lparr>plan_ID := i\<rparr>)"
  by (simp add: plan_consistent_def landed_plan_def Let_def plan_outcome_iff count_state_sort count_state_zero)
    blast

end
