(* ===== verification/Landing_Properties.thy ===== *)
theory Landing_Properties
  imports Landing_Facts
begin

text \<open>
  The properties of landing plans: soundness and completeness of the decisions, independence of the iteration
  order, what resolving a conflict changes, and the snapshot a plan is published as.
\<close>

subsection \<open>Planning\<close>

lemma same_content_trans: "same_content a b \<Longrightarrow> same_content b c \<Longrightarrow> same_content a c"
  by (simp add: same_content_def)

lemma succeeds_content: "same_content old n \<Longrightarrow> succeeds old d \<Longrightarrow> succeeds n d"
  by (auto simp: succeeds_def same_content_def)

text \<open>C27: A plan is sound: its decisions are strictly sorted by note ID, each is bound to the landed source
  revision, not pending, and carries the mapping of its own note; outcome and summary agree
  with decisions and conflicts; and the plan's ID is the digest of its content.\<close>

theorem plan_sound:
  assumes "map_iteration ord" "PlanLanding b3 ord inp = Inr plan"
  shows "sorted_wrt (<) (map (\<lambda>d. note_ID (dec_Note d)) (elems (plan_Decisions plan)))
    \<and> (\<forall>d \<in> set (elems (plan_Decisions plan)).
         decision_sound (fp_HeadSourceSHA (plan_Fingerprint plan)) (note_ID (dec_Note d)) d)
    \<and> plan_Fingerprint plan = lpi_Fingerprint inp \<and> plan_consistent plan
    \<and> contextPlanID b3 plan = Inr (plan_ID plan)"
proof -
  from assms(2) obtain es pv cand where
    v: "validateLandingPlanInput b3 inp = Inr (lpi_Canonical inp, es, pv, cand)"
    and p: "plan = (landed_plan ord inp es pv cand)\<lparr>plan_ID := plan_ID plan\<rparr>"
    and i: "contextPlanID b3 plan = Inr (plan_ID plan)"
    by (rule PlanLanding_cases)
  have d: "plan_Decisions plan = plan_Decisions (landed_plan ord inp es pv cand)"
    and f: "plan_Fingerprint plan = lpi_Fingerprint inp"
    by (subst p, simp add: landed_plan_def Let_def)+
  have "plan_consistent plan" by (subst p) (rule landed_plan_consistent)
  moreover have "decision_sound (fp_HeadSourceSHA (lpi_Fingerprint inp)) (note_ID (dec_Note x)) x"
    if "x \<in> set (elems (plan_Decisions plan))" for x
    using that landed_state_applied [OF v] unfolding d landed_decisions(1) [OF assms(1) v]
    by (auto simp: records_applied_def)
  ultimately show ?thesis
    using landed_decisions(2) [OF assms(1) v] i f unfolding d f by blast
qed

text \<open>What a note says of the record it was made from, field by field, and how a landed note is bound to the
  entities of the landed source.\<close>

definition record_content :: "CandidateContextRecord \<Rightarrow> Note \<Rightarrow> bool" where
  "record_content r n \<longleftrightarrow> note_ID n = rec_NoteID r \<and> note_RevisionID n = rec_RevisionID r
     \<and> note_SupersedesRevisionID n = rec_SupersedesRevisionID r \<and> note_EntityKey n = rec_EntityKey r
     \<and> note_Kind n = rec_Kind r \<and> note_Body n = rec_Body r \<and> note_Author n = rec_Author r
     \<and> note_Origin n = rec_Origin r \<and> note_CreatedAt n = rec_CreatedAt r \<and> elems (note_Topics n) = rec_Topics r"

definition bound_to :: "Entity set \<Rightarrow> string \<Rightarrow> Note \<Rightarrow> bool" where
  "bound_to T structuralHash n \<longleftrightarrow>
     (if note_EntityKey n \<in> ent_Key ` T then
        (\<exists>e \<in> T. ent_Key e = note_EntityKey n
           \<and> (if ent_StructuralHash e = structuralHash
              then note_BindingState n = NoteBindingActive \<and> note_ReviewReason n = []
              else note_BindingState n = NoteBindingNeedsReview \<and> note_ReviewReason n = ''structural_change''))
      else note_BindingState n = NoteBindingHistorical \<and> note_ReviewReason n = ''entity_removed'')"

text \<open>A record fits the canonical notes: it adds a note that is not there, or revises or rebinds the very revision
  it is based on, a rebind without changing anything of that revision.\<close>

definition fits :: "Note set \<Rightarrow> CandidateContextRecord \<Rightarrow> bool" where
  "fits N r \<longleftrightarrow>
     (if rec_Operation r = CandidateAdd then rec_NoteID r \<notin> note_ID ` N
      else \<exists>n \<in> N. note_ID n = rec_NoteID r \<and> note_RevisionID n = rec_BaseRevisionID r
        \<and> (rec_Operation r = CandidateRebind \<longrightarrow> note_Kind n = rec_Kind r \<and> note_Body n = rec_Body r
             \<and> elems (note_Topics n) = rec_Topics r \<and> note_Author n = rec_Author r \<and> note_Origin n = rec_Origin r
             \<and> time_Equal (rec_CreatedAt r) (note_CreatedAt n)))"

text \<open>The decision of a record that was taken: its content, or for a rebind that of the revision it binds
  again, with the entity of the record.\<close>

definition taken :: "Entity set \<Rightarrow> Note set \<Rightarrow> CandidateContextRecord \<Rightarrow> LandingDecision \<Rightarrow> bool" where
  "taken T N r d \<longleftrightarrow> dec_CandidateRecordID d = rec_ID r \<and> dec_Operation d = rec_Operation r
     \<and> note_EntityKey (dec_Note d) = rec_EntityKey r \<and> bound_to T (rec_StructuralHash r) (dec_Note d)
     \<and> (if rec_Operation r = CandidateRebind
        then \<exists>n \<in> N. note_ID n = rec_NoteID r \<and> note_RevisionID n = rec_BaseRevisionID r \<and> same_content (dec_Note d) n
        else record_content r (dec_Note d))"

definition kept :: "Entity set \<Rightarrow> Note \<Rightarrow> LandingDecision \<Rightarrow> bool" where
  "kept T n d \<longleftrightarrow> dec_CandidateRecordID d = [] \<and> same_content (dec_Note d) n
     \<and> (note_EntityKey n \<in> ent_Key ` T \<longrightarrow> note_EntityKey (dec_Note d) = note_EntityKey n)"

text \<open>The conflict of a record that was refused: it names the record, its note, the revision the record is
  based on, the canonical revision, and why.\<close>

definition turned_down :: "Note set \<Rightarrow> CandidateContextRecord \<Rightarrow> LandingConflict \<Rightarrow> bool" where
  "turned_down N r c \<longleftrightarrow> conf_CandidateRecordID c = rec_ID r \<and> conf_NoteID c = rec_NoteID r
     \<and> conf_BaseRevisionID c = rec_BaseRevisionID r
     \<and> (if rec_NoteID r \<in> note_ID ` N then
          \<exists>n \<in> N. note_ID n = rec_NoteID r \<and> conf_CanonicalRevisionID c = note_RevisionID n
            \<and> conf_Reason c = (if rec_Operation r = CandidateAdd then ''note_collision''
                else if note_RevisionID n = rec_RevisionID r then ''immutable_revision_conflict''
                else ''revision_conflict'')
        else conf_CanonicalRevisionID c = [] \<and> conf_Reason c = ''revision_conflict'')"

lemma map_of_foldl_put:
  "map_of (foldl (\<lambda>m n. map_put (k n) (v n) m) m0 ns) j
     = (case map_of (rev (map (\<lambda>n. (k n, v n)) ns)) j of None \<Rightarrow> map_of m0 j | Some y \<Rightarrow> Some y)"
  by (induction ns arbitrary: m0) (auto simp: map_add_def split: option.splits)

lemma reconcile_key:
  "note_EntityKey n \<in> ent_Key ` set es \<Longrightarrow>
     note_EntityKey (fst (Reconcile (NewBindingReconciler es sha) n previous)) = note_EntityKey n"
  unfolding dom_entities_by_key [symmetric]
  by (auto simp: Reconcile_def NewBindingReconciler_def Let_def)

lemma canonical_decision:
  assumes "distinct (map note_ID (elems (obj_Notes obj)))" "p \<in> set (elems (obj_Notes obj))"
  shows "\<exists>x. map_of (canonical_decisions obj es sha) (note_ID p) = Some x \<and> same_content (dec_Note x) p
    \<and> (note_EntityKey p \<in> ent_Key ` set es \<longrightarrow> note_EntityKey (dec_Note x) = note_EntityKey p)"
proof -
  let ?u = "\<lambda>n. fst (Reconcile (NewBindingReconciler es sha) n
     (entity_or_zero (map_of (entities_by_key (elems (obj_Entities obj))) (note_EntityKey n))))"
  let ?v = "\<lambda>n. landingDecision [] [] ((?u n)\<lparr>note_Pending := False\<rparr>) False"
  have "distinct (map fst (map (\<lambda>n. (note_ID n, ?v n)) (elems (obj_Notes obj))))" using assms(1) by (simp add: comp_def)
  then have "distinct (map fst (rev (map (\<lambda>n. (note_ID n, ?v n)) (elems (obj_Notes obj)))))"
    by (simp only: rev_map [symmetric] distinct_rev)
  then have "map_of (rev (map (\<lambda>n. (note_ID n, ?v n)) (elems (obj_Notes obj)))) (note_ID p) = Some (?v p)"
    using assms(2) by (subst map_of_eq_Some_iff) auto
  then have "map_of (canonical_decisions obj es sha) (note_ID p) = Some (?v p)"
    unfolding canonical_decisions_def Let_def map_of_foldl_put by simp
  moreover have "same_content (?u p) p"
    using Reconcile_facts [OF surjective_pairing] unfolding same_content_def by blast
  then have "same_content (dec_Note (?v p)) p" by (simp add: same_content_def)
  ultimately show ?thesis using reconcile_key by simp
qed

lemma landing_entities_set: "normalizeLandingEntities xs sha = Inr es \<Longrightarrow> set es = set xs"
  by (auto simp: normalizeLandingEntities_def Let_def and_then_eq_Inr simp del: range_loop.simps)

lemma bind_bound_to:
  "bound_to (set es) h ((bindCandidateNote n h es sha)\<lparr>note_Pending := b\<rparr>)"
proof (cases "List.find (\<lambda>e. ent_Key e = note_EntityKey n) es")
  case None
  then have "note_EntityKey n \<notin> ent_Key ` set es" by (auto simp: find_None_iff)
  with None show ?thesis by (simp add: bindCandidateNote_def bound_to_def Let_def)
next
  case (Some e)
  then have e: "e \<in> set es" "ent_Key e = note_EntityKey n" by (auto simp: find_Some_iff)
  then have "note_EntityKey n \<in> ent_Key ` set es" by (metis image_eqI)
  with Some e show ?thesis unfolding bindCandidateNote_def Let_def by (simp add: bound_to_def) (intro conjI impI bexI [of _ e], auto)
qed

lemma desired_taken:
  "record_content r ((noteFromCandidateRecord r es sha)\<lparr>note_Pending := b\<rparr>)
   \<and> bound_to (set es) (rec_StructuralHash r) ((noteFromCandidateRecord r es sha)\<lparr>note_Pending := b\<rparr>)"
  using bind_bound_to bindCandidateNote_facts unfolding noteFromCandidateRecord_def record_content_def same_content_def
  by simp

lemma same_as_desired:
  assumes "sameLandingNote m (noteFromCandidateRecord r es sha)"
  shows "record_content r m \<and> bound_to (set es) (rec_StructuralHash r) m"
proof -
  from assms have "m = (noteFromCandidateRecord r es sha)\<lparr>note_Pending := note_Pending m\<rparr>"
    unfolding sameLandingNote_def by (cases m; cases "noteFromCandidateRecord r es sha") simp
  then show ?thesis using desired_taken by metis
qed

text \<open>One record: what it finds of its note decides whether it is taken or refused.\<close>

definition settles :: "Entity list \<Rightarrow> string \<Rightarrow> LandingDecision option \<Rightarrow> (LandingDecision \<Rightarrow> bool) \<Rightarrow>
    (LandingConflict \<Rightarrow> bool) \<Rightarrow> CandidateContextRecord \<Rightarrow> bool" where
  "settles es sha old P Q r \<longleftrightarrow> (\<forall>st. map_of (fst st) (rec_NoteID r) = old \<longrightarrow>
     (\<exists>x. applyCandidateRecord r es sha st = (map_put (rec_NoteID r) x (fst st), snd st) \<and> P x)
     \<or> (\<exists>c. applyCandidateRecord r es sha st = (fst st, snd st @ [c]) \<and> Q c))"

lemma distinct_operations:
  "CandidateRevise \<noteq> CandidateAdd" "CandidateAdd \<noteq> CandidateRevise" "CandidateRebind \<noteq> CandidateAdd"
  "CandidateAdd \<noteq> CandidateRebind" "CandidateRebind \<noteq> CandidateRevise" "CandidateRevise \<noteq> CandidateRebind"
  by (simp_all add: go_defs)

lemma record_settles:
  assumes op: "record_operation_ok r"
    and none: "old = None \<Longrightarrow> rec_NoteID r \<notin> note_ID ` N"
    and some: "\<And>x. old = Some x \<Longrightarrow> \<exists>n \<in> N. note_ID n = rec_NoteID r \<and> same_content (dec_Note x) n"
    and one: "inj_on note_ID N"
  shows "settles es sha old (\<lambda>x. taken (set es) N r x \<and> (fits N r \<or> dec_NoOp x)) (\<lambda>c. \<not> fits N r \<and> turned_down N r c) r"
  unfolding settles_def
proof (intro allI impI)
  fix st :: landing_state
  assume st: "map_of (fst st) (rec_NoteID r) = old"
  let ?d = "noteFromCandidateRecord r es sha" and ?P = "\<lambda>x. taken (set es) N r x \<and> (fits N r \<or> dec_NoOp x)"
  let ?ok = "\<exists>x. applyCandidateRecord r es sha st = (map_put (rec_NoteID r) x (fst st), snd st) \<and> ?P x"
  let ?no = "\<exists>c. applyCandidateRecord r es sha st = (fst st, snd st @ [c]) \<and> \<not> fits N r \<and> turned_down N r c"
  note ops = distinct_operations
  have put: ?ok if "applyCandidateRecord r es sha st = set_decision r x st" "?P x" for x
    using that by (auto simp: set_decision_simp)
  have refuse: ?no if "applyCandidateRecord r es sha st = add_conflict r reason st" "\<not> fits N r"
      "turned_down N r \<lparr>conf_CandidateRecordID = rec_ID r, conf_NoteID = rec_NoteID r, conf_Reason = reason,
         conf_BaseRevisionID = rec_BaseRevisionID r,
         conf_CanonicalRevisionID = (case old of None \<Rightarrow> [] | Some x \<Rightarrow> note_RevisionID (dec_Note x))\<rparr>" for reason
    using that st by (auto simp: add_conflict_def split: prod.splits)
  have new: "taken (set es) N r (landingDecision (rec_ID r) (rec_Operation r) ?d b)"
    if "rec_Operation r \<noteq> CandidateRebind" for b
    using desired_taken [where r = r and es = es and sha = sha and b = False] that unfolding taken_def by (simp add: record_content_def)
  have adopt: "taken (set es) N r (adopted r x)"
    if "rec_Operation r \<noteq> CandidateRebind" "sameLandingNote (dec_Note x) ?d" for x
    using same_as_desired [OF that(2)] that(1) unfolding taken_def adopted_def by (simp add: record_content_def)
  show "?ok \<or> ?no"
  proof (cases old)
    case None
    note absent = none [OF None]
    show ?thesis
    proof (cases "rec_Operation r = CandidateAdd")
      case True
      with None st absent have "applyCandidateRecord r es sha st
          = set_decision r (landingDecision (rec_ID r) (rec_Operation r) ?d False) st" "fits N r"
        by (simp_all add: applyCandidateRecord_def Let_def fits_def)
      then show ?thesis using put new True ops by metis
    next
      case False
      with None st op have "applyCandidateRecord r es sha st = add_conflict r ''revision_conflict'' st"
        by (simp add: applyCandidateRecord_def record_operation_ok_def split: if_splits)
      moreover have "\<not> fits N r" using absent False by (auto simp: fits_def image_iff)
      ultimately show ?thesis using refuse absent None by (simp add: turned_down_def)
    qed
  next
    case (Some x)
    from some [OF Some] obtain n where n: "n \<in> N" "note_ID n = rec_NoteID r" "same_content (dec_Note x) n" by blast
    then have rev: "note_RevisionID (dec_Note x) = note_RevisionID n" by (simp add: same_content_def)
    have mem: "rec_NoteID r \<in> note_ID ` N" using n(1,2) by (metis image_eqI)
    have uniq: "m = n" if "m \<in> N" "note_ID m = rec_NoteID r" for m using inj_onD [OF one _ that(1) n(1)] that(2) n(2) by simp
    have one_of: "(\<exists>m \<in> N. note_ID m = rec_NoteID r \<and> R m) \<longleftrightarrow> R n" for R
      using n(1,2) uniq by blast
    have fit: "fits N r \<longleftrightarrow> rec_Operation r \<noteq> CandidateAdd \<and> note_RevisionID n = rec_BaseRevisionID r
        \<and> (rec_Operation r = CandidateRebind \<longrightarrow> note_Kind n = rec_Kind r \<and> note_Body n = rec_Body r
             \<and> elems (note_Topics n) = rec_Topics r \<and> note_Author n = rec_Author r \<and> note_Origin n = rec_Origin r
             \<and> time_Equal (rec_CreatedAt r) (note_CreatedAt n))"
      unfolding fits_def one_of using mem by simp
    have because: "turned_down N r \<lparr>conf_CandidateRecordID = rec_ID r, conf_NoteID = rec_NoteID r,
         conf_Reason = (if rec_Operation r = CandidateAdd then ''note_collision''
                else if note_RevisionID n = rec_RevisionID r then ''immutable_revision_conflict'' else ''revision_conflict''),
         conf_BaseRevisionID = rec_BaseRevisionID r,
         conf_CanonicalRevisionID = (case old of None \<Rightarrow> [] | Some x \<Rightarrow> note_RevisionID (dec_Note x))\<rparr>"
      unfolding turned_down_def one_of using mem by (simp add: Some rev)
    from op consider (add) "rec_Operation r = CandidateAdd"
      | (revise) "rec_Operation r = CandidateRevise" "rec_RevisionID r \<noteq> rec_BaseRevisionID r"
      | (rebind) "rec_Operation r = CandidateRebind" "rec_RevisionID r = rec_BaseRevisionID r"
      by (auto simp: record_operation_ok_def split: if_splits)
    then show ?thesis
    proof cases
      case add
      show ?thesis
      proof (cases "sameLandingNote (dec_Note x) ?d")
        case True
        with add Some st have "applyCandidateRecord r es sha st = set_decision r (adopted r x) st"
          by (simp add: applyCandidateRecord_def Let_def)
        moreover have "?P (adopted r x)" using adopt True add ops by (simp add: adopted_def)
        ultimately show ?thesis using put by blast
      next
        case False
        with add Some st have "applyCandidateRecord r es sha st = add_conflict r ''note_collision'' st"
          by (simp add: applyCandidateRecord_def)
        then show ?thesis using refuse because add fit by simp
      qed
    next
      case revise
      consider (same) "note_RevisionID n = rec_RevisionID r" "sameLandingNote (dec_Note x) ?d"
        | (clash) "note_RevisionID n = rec_RevisionID r" "\<not> sameLandingNote (dec_Note x) ?d"
        | (stale) "note_RevisionID n \<noteq> rec_RevisionID r" "note_RevisionID n \<noteq> rec_BaseRevisionID r"
        | (next_rev) "note_RevisionID n \<noteq> rec_RevisionID r" "note_RevisionID n = rec_BaseRevisionID r"
        by blast
      then show ?thesis
      proof cases
        case same
        with revise Some st rev have "applyCandidateRecord r es sha st = set_decision r (adopted r x) st"
          by (simp add: applyCandidateRecord_def ops Let_def)
        moreover have "?P (adopted r x)" using adopt same revise ops by (simp add: adopted_def)
        ultimately show ?thesis using put by blast
      next
        case clash
        with revise Some st rev have "applyCandidateRecord r es sha st = add_conflict r ''immutable_revision_conflict'' st"
          by (simp add: applyCandidateRecord_def ops)
        then show ?thesis using refuse because revise clash fit ops by simp
      next
        case stale
        with revise Some st rev have "applyCandidateRecord r es sha st = add_conflict r ''revision_conflict'' st"
          by (simp add: applyCandidateRecord_def ops)
        then show ?thesis using refuse because revise stale fit ops by simp
      next
        case next_rev
        with revise Some st rev have "applyCandidateRecord r es sha st
            = set_decision r (landingDecision (rec_ID r) (rec_Operation r) ?d False) st"
          by (simp add: applyCandidateRecord_def ops Let_def)
        moreover have "fits N r" using fit revise next_rev ops by simp
        ultimately show ?thesis using put new revise ops by metis
      qed
    next
      case rebind
      let ?b = "bindCandidateNote ((dec_Note x)\<lparr>note_EntityKey := rec_EntityKey r\<rparr>) (rec_StructuralHash r) es sha"
      have pres: "candidateRecordPreservesRevision r (dec_Note x) \<longleftrightarrow> fits N r" if "note_RevisionID n = rec_BaseRevisionID r"
        using n(2,3) rebind that ops unfolding candidateRecordPreservesRevision_def fit by (auto simp: same_content_def)
      show ?thesis
      proof (cases "fits N r")
        case True
        then have base: "note_RevisionID n = rec_BaseRevisionID r" using fit by simp
        with rebind Some st rev pres True have "applyCandidateRecord r es sha st
            = set_decision r (landingDecision (rec_ID r) (rec_Operation r) ?b (sameLandingNote (dec_Note x) ?b)) st"
          by (simp add: applyCandidateRecord_def ops Let_def)
        moreover have "same_content (?b\<lparr>note_Pending := False\<rparr>) n" "note_EntityKey ?b = rec_EntityKey r"
          using bindCandidateNote_facts [of "(dec_Note x)\<lparr>note_EntityKey := rec_EntityKey r\<rparr>"] n(3)
          by (simp_all add: same_content_def)
        then have "?P (landingDecision (rec_ID r) (rec_Operation r) ?b (sameLandingNote (dec_Note x) ?b))"
          using bind_bound_to rebind n(1,2) base True unfolding taken_def by auto
        ultimately show ?thesis using put by blast
      next
        case False
        show ?thesis
        proof (cases "note_RevisionID n = rec_BaseRevisionID r")
          case True
          with rebind Some st rev pres False
          have "applyCandidateRecord r es sha st = add_conflict r ''immutable_revision_conflict'' st"
            by (simp add: applyCandidateRecord_def ops)
          then show ?thesis using refuse because rebind True False ops by simp
        next
          case stale: False
          with rebind Some st rev have "applyCandidateRecord r es sha st = add_conflict r ''revision_conflict'' st"
            by (simp add: applyCandidateRecord_def ops)
          then show ?thesis using refuse because rebind stale False ops by simp
        qed
      qed
    qed
  qed
qed

lemma settle_all:
  assumes "\<forall>r \<in> set rs. settles es sha (map_of D0 (rec_NoteID r)) (P r) (Q r) r" "distinct (map rec_NoteID rs)"
    and "st = foldl (\<lambda>st r. applyCandidateRecord r es sha st) (D0, C0) rs"
  shows "\<exists>cs. snd st = C0 @ cs \<and> (\<forall>c \<in> set cs. \<exists>r \<in> set rs. Q r c)
    \<and> (\<forall>r \<in> set rs. (\<exists>x. map_of (fst st) (rec_NoteID r) = Some x \<and> P r x)
         \<or> map_of (fst st) (rec_NoteID r) = map_of D0 (rec_NoteID r) \<and> (\<exists>c \<in> set cs. Q r c))
    \<and> (\<forall>k. k \<notin> rec_NoteID ` set rs \<longrightarrow> map_of (fst st) k = map_of D0 k)"
  using assms
proof (induction rs arbitrary: st rule: rev_induct)
  case Nil
  then show ?case by simp
next
  case (snoc r rs)
  let ?st = "foldl (\<lambda>st r. applyCandidateRecord r es sha st) (D0, C0) rs"
  have "\<exists>cs. snd ?st = C0 @ cs \<and> (\<forall>c \<in> set cs. \<exists>r \<in> set rs. Q r c)
    \<and> (\<forall>r \<in> set rs. (\<exists>x. map_of (fst ?st) (rec_NoteID r) = Some x \<and> P r x)
         \<or> map_of (fst ?st) (rec_NoteID r) = map_of D0 (rec_NoteID r) \<and> (\<exists>c \<in> set cs. Q r c))
    \<and> (\<forall>k. k \<notin> rec_NoteID ` set rs \<longrightarrow> map_of (fst ?st) k = map_of D0 k)"
    using snoc.prems by (intro snoc.IH) auto
  then obtain cs where IH: "snd ?st = C0 @ cs" "\<forall>c \<in> set cs. \<exists>r \<in> set rs. Q r c"
      "\<forall>q \<in> set rs. (\<exists>x. map_of (fst ?st) (rec_NoteID q) = Some x \<and> P q x)
         \<or> map_of (fst ?st) (rec_NoteID q) = map_of D0 (rec_NoteID q) \<and> (\<exists>c \<in> set cs. Q q c)"
      "\<forall>k. k \<notin> rec_NoteID ` set rs \<longrightarrow> map_of (fst ?st) k = map_of D0 k" by blast
  from snoc.prems(2) have fresh: "rec_NoteID r \<notin> rec_NoteID ` set rs" by auto
  then have others: "rec_NoteID q \<noteq> rec_NoteID r" if "q \<in> set rs" for q using that by (metis image_eqI)
  from IH(4) fresh have "map_of (fst ?st) (rec_NoteID r) = map_of D0 (rec_NoteID r)" by blast
  with snoc.prems(1) consider
      (put) x where "applyCandidateRecord r es sha ?st = (map_put (rec_NoteID r) x (fst ?st), snd ?st)" "P r x"
    | (conf) c where "applyCandidateRecord r es sha ?st = (fst ?st, snd ?st @ [c])" "Q r c"
    unfolding settles_def by (metis in_set_conv_decomp)
  then show ?case
  proof cases
    case put
    from snoc.prems(3) put(1) have st: "st = (map_put (rec_NoteID r) x (fst ?st), snd ?st)" by simp
    show ?thesis
      by (rule exI [of _ cs]) (use IH put(2) others in \<open>auto simp: st\<close>)
  next
    case conf
    from snoc.prems(3) conf(1) have st: "st = (fst ?st, snd ?st @ [c])" by simp
    show ?thesis
      by (rule exI [of _ "cs @ [c]"]) (use IH conf(2) fresh in \<open>auto simp: st\<close>)
  qed
qed

definition coverage_conflicts :: "LandingPlanInput \<Rightarrow> ContextSnapshotProvenance list \<Rightarrow> LandingConflict list" where
  "coverage_conflicts inp pv =
     (if \<not> lpi_CoverageComplete inp then [coverage_conflict ''coverage_incomplete''] else [])
      @ (if lpi_CoverageComplete inp \<and> length pv = 0 then [coverage_conflict ''provenance_incomplete''] else [])"

lemma landed_state_settled:
  fixes inp :: LandingPlanInput
  defines "N \<equiv> set (elems (obj_Notes (lpi_Canonical inp)))"
  assumes v: "validateLandingPlanInput b3 inp = Inr (lpi_Canonical inp, es, pv, cand)"
    and c: "candidate_of_input b3 inp = Inr cand"
    and d: "distinct (map note_ID (elems (obj_Notes (lpi_Canonical inp))))"
  shows "\<exists>cs. snd (landed_state inp es pv cand) = coverage_conflicts inp pv @ cs
    \<and> (\<forall>c \<in> set cs. \<exists>r \<in> set (delta_Records cand). \<not> fits N r \<and> turned_down N r c)
    \<and> (\<forall>r \<in> set (delta_Records cand). (\<exists>x. map_of (fst (landed_state inp es pv cand)) (rec_NoteID r) = Some x
           \<and> taken (set es) N r x \<and> (fits N r \<or> dec_NoOp x))
         \<or> (\<exists>c \<in> set cs. \<not> fits N r \<and> turned_down N r c))
    \<and> (\<forall>k d. map_of (fst (landed_state inp es pv cand)) k = Some d \<longrightarrow> (\<exists>n \<in> N. kept (set es) n d)
         \<or> (\<exists>r \<in> set (delta_Records cand). rec_NoteID r = k \<and> taken (set es) N r d))
    \<and> (\<forall>n \<in> N. \<exists>d. map_of (fst (landed_state inp es pv cand)) (note_ID n) = Some d \<and> (kept (set es) n d
         \<or> (\<exists>r \<in> set (delta_Records cand). rec_NoteID r = note_ID n \<and> taken (set es) N r d)))"
proof -
  let ?sha = "fp_HeadSourceSHA (lpi_Fingerprint inp)" and ?rs = "delta_Records cand"
  let ?D0 = "canonical_decisions (lpi_Canonical inp) es ?sha" and ?st = "landed_state inp es pv cand"
  have one: "inj_on note_ID N" using d by (simp add: N_def distinct_map)
  have dom0: "dom (map_of ?D0) = note_ID ` N" unfolding N_def using canonical_decisions_facts by blast
  have old: "\<exists>x. map_of ?D0 (note_ID n) = Some x \<and> kept (set es) n x" if "n \<in> N" for n
    using canonical_decision [OF d that [unfolded N_def], of es ?sha] canonical_decisions_facts [of "lpi_Canonical inp" es ?sha]
    unfolding kept_def by blast
  have kept0: "\<exists>n \<in> N. note_ID n = k \<and> kept (set es) n x" if "map_of ?D0 k = Some x" for k x
  proof -
    from that dom0 have "k \<in> note_ID ` N" by blast
    then obtain n where "n \<in> N" "note_ID n = k" by blast
    with old that show ?thesis by fastforce
  qed
  note rs = candidate_of_input_records [OF c]
  have "settles es ?sha (map_of ?D0 (rec_NoteID r)) (\<lambda>x. taken (set es) N r x \<and> (fits N r \<or> dec_NoOp x))
      (\<lambda>c. \<not> fits N r \<and> turned_down N r c) r" if "r \<in> set ?rs" for r
  proof (rule record_settles [OF _ _ _ one])
    show "record_operation_ok r" using rs that by (simp add: list_all_iff)
    show "rec_NoteID r \<notin> note_ID ` N" if "map_of ?D0 (rec_NoteID r) = None" using that dom0 by blast
    show "\<exists>n \<in> N. note_ID n = rec_NoteID r \<and> same_content (dec_Note x) n" if "map_of ?D0 (rec_NoteID r) = Some x" for x
      using kept0 [OF that] unfolding kept_def by blast
  qed
  then have "\<forall>r \<in> set ?rs. settles es ?sha (map_of ?D0 (rec_NoteID r)) (\<lambda>x. taken (set es) N r x \<and> (fits N r \<or> dec_NoOp x))
      (\<lambda>c. \<not> fits N r \<and> turned_down N r c) r" by blast
  from settle_all [OF this _ landed_state_def [folded coverage_conflicts_def]] rs
  obtain cs where S: "snd ?st = coverage_conflicts inp pv @ cs" "\<forall>c \<in> set cs. \<exists>r \<in> set ?rs. \<not> fits N r \<and> turned_down N r c"
    "\<forall>r \<in> set ?rs. (\<exists>x. map_of (fst ?st) (rec_NoteID r) = Some x \<and> taken (set es) N r x \<and> (fits N r \<or> dec_NoOp x))
       \<or> map_of (fst ?st) (rec_NoteID r) = map_of ?D0 (rec_NoteID r) \<and> (\<exists>c \<in> set cs. \<not> fits N r \<and> turned_down N r c)"
    "\<forall>k. k \<notin> rec_NoteID ` set ?rs \<longrightarrow> map_of (fst ?st) k = map_of ?D0 k" by blast
  have at: "map_of (fst ?st) k = map_of ?D0 k \<or> (\<exists>r \<in> set ?rs. rec_NoteID r = k \<and> (\<exists>x. map_of (fst ?st) k = Some x \<and> taken (set es) N r x))" for k
    using S(3,4) by (cases "k \<in> rec_NoteID ` set ?rs") blast+
  have "\<forall>k d. map_of (fst ?st) k = Some d \<longrightarrow> (\<exists>n \<in> N. kept (set es) n d)
         \<or> (\<exists>r \<in> set ?rs. rec_NoteID r = k \<and> taken (set es) N r d)"
    using at kept0 by (metis option.inject)
  moreover have "\<forall>n \<in> N. \<exists>d. map_of (fst ?st) (note_ID n) = Some d \<and> (kept (set es) n d
         \<or> (\<exists>r \<in> set ?rs. rec_NoteID r = note_ID n \<and> taken (set es) N r d))"
    using at old by metis
  ultimately show ?thesis using S(1,2,3) by blast
qed


lemma landed_plan_deterministic:
  assumes "map_iteration ord" "map_iteration ord'" "validateLandingPlanInput b3 inp = Inr (canonical, es, pv, cand)"
  shows "landed_plan ord inp es pv cand = landed_plan ord' inp es pv cand"
proof -
  let ?D = "fst (landed_state inp es pv cand)" and ?k = "\<lambda>d. note_ID (dec_Note d)"
  have D: "wf_map ?D" "\<forall>k d. map_of ?D k = Some d \<longrightarrow> note_ID (dec_Note d) = k"
    using landed_state_applied [OF assms(3)] by (auto simp: records_applied_def decision_sound_def)
  have m: "mset (map snd (map_range ord 7 ?D)) = mset (map snd (map_range ord' 7 ?D))"
    using map_iteration.mset_map_range [OF assms(1) D(1)] map_iteration.mset_map_range [OF assms(2) D(1)]
    by (simp add: mset_map)
  then have c: "count_state s (map snd (map_range ord 7 ?D)) = count_state s (map snd (map_range ord' 7 ?D))" for s
    unfolding count_state_def by (metis mset_filter size_mset)
  have "inj_on ?k (set (map snd (map_range ord 7 ?D)))"
    using map_iteration.listed_decisions(2) [OF assms(1) D] by (simp only: distinct_map)
  with m have "sort_key ?k (map snd (map_range ord 7 ?D)) = sort_key ?k (map snd (map_range ord' 7 ?D))"
    by (intro sort_key_inj_key_eq) simp_all
  then show ?thesis
    by (simp only: landed_plan_def Let_def c ClassifyEntityChanges_deterministic [OF assms(1,2)])
qed

text \<open>The plan, its ID included, does not depend on the order in which the runtime iterates over its maps:
  two runs over the same evidence publish the same plan.\<close>

lemma plan_deterministic:
  assumes "map_iteration ord" "map_iteration ord'"
  shows "PlanLanding b3 ord inp = PlanLanding b3 ord' inp"
proof (cases "validateLandingPlanInput b3 inp")
  case (Inl e)
  then show ?thesis by (simp add: PlanLanding_run)
next
  case (Inr v)
  obtain canonical es pv cand where v: "v = (canonical, es, pv, cand)" by (cases v)
  with Inr landed_plan_deterministic [OF assms] show ?thesis by (simp add: PlanLanding_run)
qed

subsection \<open>Resolving a conflict\<close>

lemma upsert_ids:
  "map (\<lambda>d. note_ID (dec_Note d)) (upsertLandingDecision ds x) =
     (let ids = map (\<lambda>d. note_ID (dec_Note d)) ds
      in if note_ID (dec_Note x) \<in> set ids then ids else ids @ [note_ID (dec_Note x)])"
  by (induction ds) (auto simp: Let_def)

lemma upsert_others:
  "note_ID (dec_Note y) \<noteq> note_ID (dec_Note x) \<Longrightarrow> y \<in> set (upsertLandingDecision ds x) \<longleftrightarrow> y \<in> set ds"
  by (induction ds) auto

lemma upsert_distinct:
  "distinct (map (\<lambda>d. note_ID (dec_Note d)) ds) \<Longrightarrow>
     distinct (map (\<lambda>d. note_ID (dec_Note d)) (upsertLandingDecision ds x))"
  by (simp add: upsert_ids Let_def del: set_map)

lemma upsert_mem: "x \<in> set (upsertLandingDecision ds x)"
  by (induction ds) auto

lemma upsert_set: "set (upsertLandingDecision ds x) \<subseteq> insert x (set ds)"
  by (induction ds) auto

lemma index_of_Some: "index_of P xs = Some i \<Longrightarrow> i < length xs \<and> P (xs ! i) \<and> (\<forall>j < i. \<not> P (xs ! j))"
proof (induction xs arbitrary: i)
  case Nil
  then show ?case by simp
next
  case (Cons x xs)
  show ?case
  proof (cases "P x")
    case True
    with Cons.prems show ?thesis by auto
  next
    case False
    with Cons.prems obtain k where "index_of P xs = Some k" "i = Suc k" by auto
    with Cons.IH [of k] False show ?thesis by (auto simp: less_Suc_eq_0_disj)
  qed
qed

lemma index_of_None: "index_of P xs = None \<longleftrightarrow> (\<forall>x \<in> set xs. \<not> P x)"
  by (induction xs) auto

lemma refresh_consistent: "plan_consistent ((refreshLandingPlan plan)\<lparr>plan_ID := i\<rparr>)"
proof -
  have e: "elems (map_option (sort_key f) o') = sort_key f (elems o')" for f :: "LandingDecision \<Rightarrow> string" and o'
    by (cases o') simp_all
  show ?thesis
    by (simp add: plan_consistent_def refreshLandingPlan_def Let_def plan_outcome_iff e count_state_sort count_state_zero)
      blast
qed

lemma refresh_fields:
  "plan_Conflicts (refreshLandingPlan plan) = plan_Conflicts plan"
  "plan_Fingerprint (refreshLandingPlan plan) = plan_Fingerprint plan"
  "plan_Kind (refreshLandingPlan plan) = plan_Kind plan"
  "plan_EntityChanges (refreshLandingPlan plan) = plan_EntityChanges plan"
  "elems (plan_Decisions (refreshLandingPlan plan)) = sort_key (\<lambda>d. note_ID (dec_Note d)) (elems (plan_Decisions plan))"
  by (cases "plan_Decisions plan", simp_all add: refreshLandingPlan_def Let_def)+

text \<open>What a resolution does to the decisions: nothing for the canonical side; for the candidate side the record of
  the conflict is decided with its content, for the authored side the given note is, in place of the decision
  for that note, and every other decision stays.\<close>

definition replaced :: "LandingDecision \<Rightarrow> LandingDecision list \<Rightarrow> LandingDecision list \<Rightarrow> bool" where
  "replaced d ds ds' \<longleftrightarrow> d \<in> set ds'
     \<and> (\<forall>x. note_ID (dec_Note x) \<noteq> note_ID (dec_Note d) \<longrightarrow> (x \<in> set ds' \<longleftrightarrow> x \<in> set ds))
     \<and> set ds' \<subseteq> insert d (set ds)"

definition side_taken :: "CandidateContextDelta \<Rightarrow> Entity set \<Rightarrow> string \<Rightarrow> LandingConflict \<Rightarrow> LandingResolutionUse \<Rightarrow>
    Note option \<Rightarrow> LandingDecision list \<Rightarrow> LandingDecision list \<Rightarrow> bool" where
  "side_taken cand T headSHA c choice authored ds ds' \<longleftrightarrow>
     (choice = ''canonical'' \<and> set ds' = set ds)
     \<or> (choice = ''candidate'' \<and> (\<exists>r d. r \<in> set (delta_Records cand) \<and> rec_ID r = conf_CandidateRecordID c
          \<and> replaced d ds ds' \<and> decision_sound headSHA (rec_NoteID r) d
          \<and> dec_CandidateRecordID d = rec_ID r \<and> dec_Operation d = rec_Operation r
          \<and> record_content r (dec_Note d) \<and> bound_to T (rec_StructuralHash r) (dec_Note d)))
     \<or> (choice = ''authored'' \<and> (\<exists>a d. authored = Some a \<and> dec_Note d = a \<and> note_ID a = conf_NoteID c
          \<and> replaced d ds ds' \<and> decision_sound headSHA (note_ID a) d \<and> dec_CandidateRecordID d = []))"

lemma put_decision_replaced:
  "replaced d (elems (plan_Decisions plan)) (elems (plan_Decisions (put_decision plan d)))"
proof -
  have "elems (plan_Decisions (put_decision plan d)) = upsertLandingDecision (elems (plan_Decisions plan)) d"
    by (simp add: put_decision_def)
  then show ?thesis unfolding replaced_def using upsert_mem upsert_others upsert_set by metis
qed

lemma resolution_cases:
  assumes "resolution plan cand es c choice authored = Inr q"
  defines "sha \<equiv> fp_HeadSourceSHA (plan_Fingerprint plan)"
  obtains (canonical) "choice = ''canonical''" "q = plan"
    | (candidate) r where "choice = ''candidate''" "candidateRecordByID cand (conf_CandidateRecordID c) = Some r"
        "q = put_decision plan (landingDecision (rec_ID r) (rec_Operation r) (noteFromCandidateRecord r es sha) False)"
    | (authored) a where "choice = ''authored''" "authored = Some a" "authored_resolution_ok a c sha"
        "q = put_decision plan (landingDecision [] [] a False)"
proof (cases "choice = ''canonical''")
  case True
  with assms(1) canonical show thesis by (simp add: resolution_def Let_def LandingUseCanonical_def)
next
  case c: False
  show thesis
  proof (cases "choice = ''candidate''")
    case True
    with assms(1) c have r: "(case candidateRecordByID cand (conf_CandidateRecordID c) of None \<Rightarrow> Inl CodeValidation
        | Some r \<Rightarrow> Inr (put_decision plan (landingDecision (rec_ID r) (rec_Operation r)
            (noteFromCandidateRecord r es sha) False))) = Inr q"
      unfolding resolution_def Let_def LandingUseCanonical_def LandingUseCandidate_def sha_def
      by (simp only: HOL.simp_thms if_True if_False)
    then show thesis using candidate True by (cases "candidateRecordByID cand (conf_CandidateRecordID c)") simp_all
  next
    case False
    with assms(1) c have r: "choice = ''authored'' \<and> (case authored of None \<Rightarrow> Inl CodeValidation
        | Some a \<Rightarrow> if \<not> authored_resolution_ok a c sha then Inl CodeValidation
            else Inr (put_decision plan (landingDecision [] [] a False))) = Inr q"
      unfolding resolution_def Let_def LandingUseCanonical_def LandingUseCandidate_def LandingUseAuthored_def sha_def
      by (simp only: HOL.simp_thms if_False sum.distinct split: if_split_asm)
    then show thesis using authored by (cases authored) (simp_all split: if_split_asm)
  qed
qed

lemma resolution_plan:
  assumes "resolution plan cand es c choice authored = Inr q"
  shows "(q = plan \<or> (\<exists>d. q = put_decision plan d))
    \<and> side_taken cand (set es) (fp_HeadSourceSHA (plan_Fingerprint plan)) c choice authored
        (elems (plan_Decisions plan)) (elems (plan_Decisions q))"
proof -
  let ?sha = "fp_HeadSourceSHA (plan_Fingerprint plan)"
  show ?thesis
  proof (cases rule: resolution_cases [OF assms])
    case 1
    then show ?thesis by (simp add: side_taken_def)
  next
    case (2 r)
    define d where "d = landingDecision (rec_ID r) (rec_Operation r) (noteFromCandidateRecord r es ?sha) False"
    from 2(2) have r: "r \<in> set (delta_Records cand)" "rec_ID r = conf_CandidateRecordID c"
      by (auto simp: candidateRecordByID_def find_Some_iff)
    have "decision_sound ?sha (rec_NoteID r) d"
      using noteFromCandidateRecord_facts by (simp add: decision_sound_def d_def)
    moreover have "record_content r (dec_Note d)" "bound_to (set es) (rec_StructuralHash r) (dec_Note d)"
      using desired_taken by (simp_all add: d_def)
    moreover have "dec_CandidateRecordID d = rec_ID r" "dec_Operation d = rec_Operation r" by (simp_all add: d_def)
    ultimately have "side_taken cand (set es) ?sha c choice authored (elems (plan_Decisions plan)) (elems (plan_Decisions q))"
      using r 2(1) put_decision_replaced [of d plan] unfolding side_taken_def 2(3) d_def [symmetric] by blast
    with 2(3) show ?thesis by blast
  next
    case (3 a)
    define d where "d = landingDecision [] [] a False"
    from 3(3) have a: "note_ID a = conf_NoteID c" "note_BindingSourceSHA a = ?sha" "\<not> note_Pending a"
      by (simp_all add: authored_resolution_ok_def)
    then have "dec_Note d = a" "decision_sound ?sha (note_ID a) d" "dec_CandidateRecordID d = []"
      by (simp_all add: decision_sound_def d_def)
    then have "side_taken cand (set es) ?sha c choice authored (elems (plan_Decisions plan)) (elems (plan_Decisions q))"
      using a(1) 3(1,2) put_decision_replaced [of d plan] unfolding side_taken_def 3(4) d_def [symmetric] by blast
    with 3(4) show ?thesis by blast
  qed
qed

definition resolved_plan :: "ContextPlan \<Rightarrow> nat \<Rightarrow> ContextPlan" where
  "resolved_plan q i = refreshLandingPlan (q\<lparr>plan_Conflicts :=
     take i (plan_Conflicts q) @ drop (i + 1) (plan_Conflicts q)\<rparr>)"

lemma ResolveLandingPlan_Some:
  "index_of (\<lambda>c. LandingConflictID b3 c = cid) (plan_Conflicts plan) = Some i \<Longrightarrow>
   ResolveLandingPlan b3 plan cand es cid choice authored =
      and_then (resolution plan cand es (plan_Conflicts plan ! i) choice authored) (\<lambda>q.
        and_then (contextPlanID b3 (resolved_plan q i)) (\<lambda>j. Inr ((resolved_plan q i)\<lparr>plan_ID := j\<rparr>)))"
  by (simp add: ResolveLandingPlan_def resolved_plan_def Let_def)

definition one_resolved :: "(string \<Rightarrow> string) \<Rightarrow> CandidateContextDelta \<Rightarrow> Entity set \<Rightarrow> string \<Rightarrow>
    LandingResolutionUse \<Rightarrow> Note option \<Rightarrow> ContextPlan \<Rightarrow> ContextPlan \<Rightarrow> bool" where
  "one_resolved b3 cand T cid choice authored plan plan' \<longleftrightarrow>
     (\<exists>i < length (plan_Conflicts plan). LandingConflictID b3 (plan_Conflicts plan ! i) = cid
        \<and> (\<forall>j < i. LandingConflictID b3 (plan_Conflicts plan ! j) \<noteq> cid)
        \<and> plan_Conflicts plan' = take i (plan_Conflicts plan) @ drop (i + 1) (plan_Conflicts plan)
        \<and> side_taken cand T (fp_HeadSourceSHA (plan_Fingerprint plan)) (plan_Conflicts plan ! i) choice authored
            (elems (plan_Decisions plan)) (elems (plan_Decisions plan')))
     \<and> (distinct (map (\<lambda>d. note_ID (dec_Note d)) (elems (plan_Decisions plan))) \<longrightarrow>
          sorted_wrt (<) (map (\<lambda>d. note_ID (dec_Note d)) (elems (plan_Decisions plan'))))
     \<and> plan_Fingerprint plan' = plan_Fingerprint plan \<and> plan_Kind plan' = plan_Kind plan
     \<and> plan_EntityChanges plan' = plan_EntityChanges plan
     \<and> plan_consistent plan' \<and> contextPlanID b3 plan' = Inr (plan_ID plan')"

lemma resolve_success:
  assumes ok: "ResolveLandingPlan b3 plan cand es cid choice authored = Inr plan'"
    and Some: "index_of (\<lambda>c. LandingConflictID b3 c = cid) (plan_Conflicts plan) = Some i"
  shows "one_resolved b3 cand (set es) cid choice authored plan plan'"
proof -
  note i = index_of_Some [OF Some]
  let ?k = "\<lambda>d. note_ID (dec_Note d)" and ?c = "plan_Conflicts plan ! i"
  from ok obtain q j where q: "resolution plan cand es ?c choice authored = Inr q"
      and j: "contextPlanID b3 (resolved_plan q i) = Inr j" and p: "plan' = (resolved_plan q i)\<lparr>plan_ID := j\<rparr>"
    unfolding ResolveLandingPlan_Some [OF Some] by auto
  from resolution_plan [OF q] have f: "plan_Conflicts q = plan_Conflicts plan"
      "plan_Fingerprint q = plan_Fingerprint plan" "plan_Kind q = plan_Kind plan"
      "plan_EntityChanges q = plan_EntityChanges plan"
    by (auto simp: put_decision_def)
  have d: "elems (plan_Decisions plan') = sort_key ?k (elems (plan_Decisions q))"
    by (simp add: p resolved_plan_def refresh_fields)
  have "distinct (map ?k (elems (plan_Decisions q)))" if "distinct (map ?k (elems (plan_Decisions plan)))"
    using resolution_plan [OF q] upsert_distinct [OF that] that by (auto simp: put_decision_def)
  then have "distinct (map ?k (elems (plan_Decisions plan))) \<longrightarrow>
      sorted_wrt (<) (map ?k (elems (plan_Decisions plan')))"
    unfolding d using distinct_sorted_key by blast
  moreover have "plan_Conflicts plan' = take i (plan_Conflicts plan) @ drop (i + 1) (plan_Conflicts plan)"
    by (simp add: p resolved_plan_def refresh_fields f)
  moreover have "side_taken cand (set es) (fp_HeadSourceSHA (plan_Fingerprint plan)) ?c choice authored
      (elems (plan_Decisions plan)) (elems (plan_Decisions plan'))"
    using resolution_plan [OF q] by (simp add: side_taken_def replaced_def d)
  moreover have "plan_consistent plan'" unfolding p resolved_plan_def by (rule refresh_consistent)
  moreover have "contextPlanID b3 plan' = Inr (plan_ID plan')"
    using j by (simp add: p contextPlanID_ignores)
  ultimately show ?thesis
    using i f unfolding one_resolved_def by (auto simp: p resolved_plan_def refresh_fields)
qed

lemma resolve_error_code:
  assumes "index_of (\<lambda>c. LandingConflictID b3 c = cid) (plan_Conflicts plan) = Some i"
    and "ResolveLandingPlan b3 plan cand es cid choice authored = Inl e"
  shows "e = CodeValidation"
proof -
  have "e = CodeValidation" if "resolution plan cand es c choice authored = Inl e" for c e
    using that by (auto simp: resolution_def Let_def split: if_splits option.splits)
  moreover have "e = CodeValidation" if "contextPlanID b3 p = Inl e" for p e
    using that unfolding contextPlanID_def by (rule canonicalDigest_code)
  ultimately show ?thesis
    using assms(2) unfolding ResolveLandingPlan_Some [OF assms(1)] by (auto simp: and_then_eq_Inl)
qed

text \<open>C29: Resolving a conflict removes exactly that conflict (the first with the given ID), whatever its reason, and takes the
  chosen side: with the canonical choice every decision stays; with the candidate choice the record of the conflict is decided
  with its content, bound to the landed entities; with the authored choice the given note is; every decision of
  another note stays.  The plan is consistent again, with a fresh ID for the same evidence.  The conflict may be the
  planner's own coverage conflict, which docs/multilanguage-indexing.md says cannot be resolved away.\<close>

theorem resolve_one_conflict:
  assumes "ResolveLandingPlan b3 plan cand es cid choice authored = Inr plan'"
  shows "one_resolved b3 cand (set es) cid choice authored plan plan'
    \<and> length (plan_Conflicts plan') + 1 = length (plan_Conflicts plan)"
proof (cases "index_of (\<lambda>c. LandingConflictID b3 c = cid) (plan_Conflicts plan)")
  case None
  with assms show ?thesis by (simp add: ResolveLandingPlan_def)
next
  case (Some i)
  from resolve_success [OF assms Some] show ?thesis by (auto simp: one_resolved_def)
qed

text \<open>The only way to get the not-found error from a resolution is an ID no conflict of the plan has; every other failure is a
  validation error.\<close>

lemma resolve_errors:
  "(ResolveLandingPlan b3 plan cand es cid choice authored = Inl CodeEntityNotFound \<longleftrightarrow>
      (\<nexists>c. c \<in> set (plan_Conflicts plan) \<and> LandingConflictID b3 c = cid))
   \<and> ResolveLandingPlan b3 plan cand es cid choice authored
       \<in> {Inl CodeEntityNotFound, Inl CodeValidation} \<union> range Inr"
proof (cases "index_of (\<lambda>c. LandingConflictID b3 c = cid) (plan_Conflicts plan)")
  case None
  then have "ResolveLandingPlan b3 plan cand es cid choice authored = Inl CodeEntityNotFound"
    by (simp add: ResolveLandingPlan_def)
  moreover have "\<forall>c \<in> set (plan_Conflicts plan). LandingConflictID b3 c \<noteq> cid"
    using None unfolding index_of_None .
  ultimately show ?thesis by auto
next
  case (Some i)
  note i = index_of_Some [OF Some]
  then have "\<exists>c. c \<in> set (plan_Conflicts plan) \<and> LandingConflictID b3 c = cid" by (auto intro: nth_mem)
  moreover have "ResolveLandingPlan b3 plan cand es cid choice authored \<in> {Inl CodeValidation} \<union> range Inr"
    using resolve_error_code [OF Some, of cand es choice authored]
    by (cases "ResolveLandingPlan b3 plan cand es cid choice authored") auto
  ultimately show ?thesis by auto
qed

subsection \<open>Publishing\<close>

lemma BuildLandingSnapshot_cases:
  assumes "BuildLandingSnapshot b3 inp = Inr obj"
  obtains entities provenance where
    "normalizeLandingEntities (lbi_Entities inp) (fp_HeadSourceSHA (plan_Fingerprint (lbi_Plan inp))) = Inr entities"
    "normalizeLandingProvenance (lbi_Provenance inp) (fp_HeadSourceSHA (plan_Fingerprint (lbi_Plan inp))) = Inr provenance"
    "list_all (decision_ok (fp_HeadSourceSHA (plan_Fingerprint (lbi_Plan inp)))) (elems (plan_Decisions (lbi_Plan inp)))"
    "plan_Conflicts (lbi_Plan inp) = []" "plan_Kind (lbi_Plan inp) = ContextPlanFinal"
    "contextPlanID b3 (lbi_Plan inp) = Inr (plan_ID (lbi_Plan inp))"
    "lbi_ParentID inp = fp_BaseContextCommitID (plan_Fingerprint (lbi_Plan inp))"
    "obj = \<lparr>obj_SchemaVersion = 4, obj_RepositoryID = fp_RepositoryID (plan_Fingerprint (lbi_Plan inp)),
       obj_RefName = fp_TargetRef (plan_Fingerprint (lbi_Plan inp)), obj_ParentID = [],
       obj_ParentIDs = (if lbi_ParentID inp \<noteq> [] then [lbi_ParentID inp] else []),
       obj_LegacyParentID = [], obj_SourceSHA = fp_HeadSourceSHA (plan_Fingerprint (lbi_Plan inp)),
       obj_Message = TrimSpace (lbi_Message inp), obj_Author = TrimSpace (lbi_Author inp),
       obj_CreatedAt = time_UTC (lbi_CreatedAt inp), obj_Provenance = provenance,
       obj_Entities = copy_slice entities,
       obj_Notes = Some (sort_key note_ID (map dec_Note (elems (plan_Decisions (lbi_Plan inp))))),
       obj_RevisionMappings = sort_key mapping_key (map dec_Mapping (elems (plan_Decisions (lbi_Plan inp)))),
       obj_LandingReceipts = [landing_receipt b3 (lbi_Plan inp) (lbi_Resolver inp)
         (sort_key promotion_key (map promotion_of
           (filter (\<lambda>d. dec_CandidateRecordID d \<noteq> []) (elems (plan_Decisions (lbi_Plan inp))))))]\<rparr>"
proof (cases "normalizeLandingEntities (lbi_Entities inp) (fp_HeadSourceSHA (plan_Fingerprint (lbi_Plan inp)))")
  case (Inl e)
  with assms show thesis
    unfolding BuildLandingSnapshot_def Let_def by (simp only: sum.case sum.distinct split: if_split_asm)
next
  case ents: (Inr entities)
  show thesis
  proof (cases "normalizeLandingProvenance (lbi_Provenance inp) (fp_HeadSourceSHA (plan_Fingerprint (lbi_Plan inp)))")
    case (Inl e)
    with assms ents show thesis
      unfolding BuildLandingSnapshot_def Let_def by (simp only: sum.case sum.distinct split: if_split_asm)
  next
    case (Inr provenance)
    show thesis
      by (rule that [OF ents Inr])
        (use assms ents Inr in \<open>unfold BuildLandingSnapshot_def Let_def,
          simp_all only: sum.case sum.distinct sum.inject not_not de_Morgan_disj split: if_split_asm\<close>)
  qed
qed

text \<open>C28: Building from a plan whose decisions are sound (every plan made by the planner, and every plan resolved from
  one) publishes exactly its decisions: a well-formed snapshot whose notes, sorted by ID, are the notes of the
  decisions, all bound to the landed revision, with the plan's base as its only parent and one receipt
  that names the plan and lists the promoted records.\<close>

theorem landing_snapshot_wf:
  assumes "BuildLandingSnapshot b3 inp = Inr obj"
    and "distinct (map (\<lambda>d. note_ID (dec_Note d)) (elems (plan_Decisions (lbi_Plan inp))))"
    and "\<forall>d \<in> set (elems (plan_Decisions (lbi_Plan inp))). dec_Mapping d = note_mapping (dec_Note d)"
  shows "snapshot_wf obj \<and> mset (elems (obj_Notes obj)) = mset (map dec_Note (elems (plan_Decisions (lbi_Plan inp))))
    \<and> sorted_wrt (<) (map note_ID (elems (obj_Notes obj)))
    \<and> (\<forall>n \<in> set (elems (obj_Notes obj)). note_BindingSourceSHA n = obj_SourceSHA obj
         \<and> \<not> note_Pending n \<and> ValidNoteBindingState (note_BindingState n))
    \<and> obj_ParentIDs obj = (if fp_BaseContextCommitID (plan_Fingerprint (lbi_Plan inp)) = [] then []
         else [fp_BaseContextCommitID (plan_Fingerprint (lbi_Plan inp))])
    \<and> (\<exists>r. obj_LandingReceipts obj = [r] \<and> rcpt_FinalPlanID r = plan_ID (lbi_Plan inp)
         \<and> rcpt_SourceMergeSHA r = obj_SourceSHA obj
         \<and> mset (rcpt_CandidateMappings r) = mset (map promotion_of
             (filter (\<lambda>d. dec_CandidateRecordID d \<noteq> []) (elems (plan_Decisions (lbi_Plan inp))))))"
proof -
  let ?ds = "elems (plan_Decisions (lbi_Plan inp))" and ?fp = "plan_Fingerprint (lbi_Plan inp)"
  from assms(1) obtain entities provenance where
    ok: "list_all (decision_ok (fp_HeadSourceSHA ?fp)) ?ds" "lbi_ParentID inp = fp_BaseContextCommitID ?fp"
    and obj: "obj_Notes obj = Some (sort_key note_ID (map dec_Note ?ds))"
      "obj_RevisionMappings obj = sort_key mapping_key (map dec_Mapping ?ds)"
      "obj_ParentIDs obj = (if lbi_ParentID inp \<noteq> [] then [lbi_ParentID inp] else [])"
      "obj_SourceSHA obj = fp_HeadSourceSHA ?fp"
      "obj_LandingReceipts obj = [landing_receipt b3 (lbi_Plan inp) (lbi_Resolver inp)
         (sort_key promotion_key (map promotion_of (filter (\<lambda>d. dec_CandidateRecordID d \<noteq> []) ?ds)))]"
    by (rule BuildLandingSnapshot_cases) simp
  have ids: "distinct (map note_ID (map dec_Note ?ds))" using assms(2) by (simp add: comp_def)
  have d: "decision_ok (fp_HeadSourceSHA ?fp) x" "dec_Mapping x = note_mapping (dec_Note x)" if "x \<in> set ?ds" for x
    using ok(1) assms(3) that by (auto simp: list_all_iff)
  have maps: "map map_NoteID (map dec_Mapping ?ds) = map note_ID (map dec_Note ?ds)"
    using d(2) by (simp add: note_mapping_def)
  have "mset (map map_NoteID (obj_RevisionMappings obj)) = mset (map map_NoteID (map dec_Mapping ?ds))"
    "mset (map note_ID (sort_key note_ID (map dec_Note ?ds))) = mset (map note_ID (map dec_Note ?ds))"
    unfolding obj by (simp_all add: multiset.map_comp comp_def)
  then have dist: "distinct (map map_NoteID (obj_RevisionMappings obj))"
    "distinct (map note_ID (sort_key note_ID (map dec_Note ?ds)))"
    using ids maps by (metis mset_eq_imp_distinct_iff)+
  have "snapshot_wf obj"
    using dist d unfolding snapshot_wf_def obj
    by (auto simp: list_all_iff list_ex_iff decision_ok_def note_mapping_def mapping_matches_note_def)
  moreover have "sorted_wrt (<) (map note_ID (elems (obj_Notes obj)))"
    unfolding obj using distinct_sorted_key [OF ids] by simp
  moreover have "\<exists>r. obj_LandingReceipts obj = [r] \<and> rcpt_FinalPlanID r = plan_ID (lbi_Plan inp)
         \<and> rcpt_SourceMergeSHA r = obj_SourceSHA obj
         \<and> mset (rcpt_CandidateMappings r) = mset (map promotion_of (filter (\<lambda>d. dec_CandidateRecordID d \<noteq> []) ?ds))"
    unfolding obj by (simp add: landing_receipt_def Let_def)
  moreover have "\<forall>n \<in> set (elems (obj_Notes obj)). note_BindingSourceSHA n = obj_SourceSHA obj
         \<and> \<not> note_Pending n \<and> ValidNoteBindingState (note_BindingState n)"
    unfolding obj using d(1) by (auto simp: decision_ok_def)
  ultimately show ?thesis using ok(2) unfolding obj by (simp add: obj)
qed

subsection \<open>A concrete landing\<close>

definition ex_target :: "Entity list" where
  "ex_target = [\<lparr>ent_Language = ''go'', ent_Key = ''e'', ent_Kind = EntityFunction, ent_Name = ''f'',
     ent_Signature = ''s'', ent_Path = ''p'', ent_StartLine = 1, ent_EndLine = 2, ent_SourceSHA = ex_sha,
     ent_StructuralHash = ex_sha\<rparr>]"

definition ex_prov :: "ContextSnapshotProvenance list" where
  "ex_prov = [\<lparr>prov_Language = ''go'', prov_IndexerID = ''i'', prov_IndexerVersion = ''1'', prov_SourceSHA = ex_sha\<rparr>]"

definition ex_fingerprint :: PlanFingerprint where
  "ex_fingerprint = \<lparr>fp_RepositoryID = ''repo'', fp_TargetRef = ''main'', fp_Change = ex_change,
     fp_BaseSourceSHA = ex_sha, fp_HeadSourceSHA = ex_sha, fp_SourceEvidenceDigest = ex_id,
     fp_BaseContextCommitID = [], fp_BaseContextVersion = 1, fp_CandidateDigest = ex_id, fp_ProvenanceDigest = ex_id\<rparr>"

text \<open>The canonical snapshot has one note, on an entity that is gone; the candidate adds another.\<close>

definition ex_canonical :: ContextObject where
  "ex_canonical = (ex_snapshot [ex_merge_note ''c'' ''0''])\<lparr>obj_SourceSHA := ex_sha,
     obj_Entities := Some [(ex_entity ''e'' ''9'')]\<rparr>"

definition ex_landing :: LandingPlanInput where
  "ex_landing = \<lparr>lpi_Kind = ContextPlanFinal, lpi_Fingerprint = ex_fingerprint, lpi_Canonical = ex_canonical,
     lpi_TargetEntities = ex_target, lpi_TargetProvenance = ex_prov, lpi_CoverageComplete = True,
     lpi_Candidate = ex_envelope_delta, lpi_CreatedAt = ex_time\<rparr>"

lemma TrimSpace_words: "TrimSpace ''repo'' = ''repo''" "TrimSpace ''main'' = ''main''"
  by (rule TrimSpace_graphic, simp add: graphic_def)+

lemma ex_evidence:
  "normalizeLandingEntities ex_target ex_sha = Inr ex_target" "DigestSourceEvidence ex_hash ex_target = ex_id"
  "normalizeLandingProvenance ex_prov ex_sha = Inr ex_prov" "DigestProvenance ex_hash ex_prov = ex_id"
  by (simp_all add: normalizeLandingEntities_def normalizeLandingProvenance_def ex_target_def ex_prov_def
      landing_entity_ok_def landing_provenance_ok_def ex_sha_facts DigestSourceEvidence_def DigestProvenance_def
      canonicalDigest_def json_marshal_def copy_slice_def fld_defs entity_json_def provenance_json_def ex_hash_hex
      Let_def)

lemma ex_candidate: "candidate_of_input ex_hash ex_landing = Inr ex_delta"
proof -
  have "NormalizeCandidateContextDelta ex_hash ex_delta = Inr ex_delta"
    by (rule delta_normal_fixed [OF ex_delta_normal ex_hash_32])
  moreover have "json_ok (delta_json ex_delta)"
    by (simp add: delta_json_def ex_delta_def record_json_def ex_record_def change_key_json_def fld_defs ex_time_facts)
  ultimately have "CandidateContextDigest ex_hash ex_delta = Inr ex_id"
    by (simp add: CandidateContextDigest_def canonicalDigest_def json_marshal_def ex_hash_hex)
  moreover have "delta_SchemaVersion ex_envelope_delta = 2" by (simp add: ex_envelope_delta_def ex_delta_def)
  moreover have "delta_Change ex_delta = ex_change" "delta_BaseContextCommitID ex_delta = []"
    by (simp_all add: ex_delta_def)
  ultimately show ?thesis
    using ex_envelope_normalised
    by (simp add: candidate_of_input_def ex_landing_def ex_fingerprint_def go_defs)
qed

lemma ex_landing_valid:
  "validateLandingPlanInput ex_hash ex_landing = Inr (ex_canonical, ex_target, ex_prov, ex_delta)"
proof -
  have "fingerprint_ok ex_landing"
    by (simp add: fingerprint_ok_def ex_landing_def ex_fingerprint_def ex_time_facts TrimSpace_words ex_sha_facts)
  moreover have "canonical_matches ex_landing"
    by (simp add: canonical_matches_def ex_landing_def ex_fingerprint_def ex_canonical_def ex_snapshot_def
        IsContextSnapshotSchema_def)
  moreover have "lpi_Kind ex_landing = ContextPlanFinal" "lpi_Fingerprint ex_landing = ex_fingerprint"
    "lpi_TargetEntities ex_landing = ex_target" "lpi_TargetProvenance ex_landing = ex_prov"
    "lpi_Canonical ex_landing = ex_canonical"
    by (simp_all add: ex_landing_def)
  moreover have "fp_Change ex_fingerprint = ex_change" "fp_BaseContextCommitID ex_fingerprint = []"
    "fp_HeadSourceSHA ex_fingerprint = ex_sha" "fp_SourceEvidenceDigest ex_fingerprint = ex_id"
    "fp_ProvenanceDigest ex_fingerprint = ex_id"
    by (simp_all add: ex_fingerprint_def)
  ultimately show ?thesis
    using ex_change_normal ex_evidence ex_candidate
    by (simp add: validateLandingPlanInput_def)
qed

definition ex_plan :: ContextPlan where
  "ex_plan = (landed_plan (\<lambda>_ ks. ks) ex_landing ex_target ex_prov ex_delta)\<lparr>plan_ID := ex_id\<rparr>"

lemma ex_plan_json: "json_ok (plan_json ((landed_plan (\<lambda>_ ks. ks) ex_landing ex_target ex_prov ex_delta)
    \<lparr>plan_ID := [], plan_CreatedAt := zero_time\<rparr>))"
  by code_simp

lemma ex_plan_run: "PlanLanding ex_hash (\<lambda>_ ks. ks) ex_landing = Inr ex_plan"
proof -
  have "contextPlanID ex_hash (landed_plan (\<lambda>_ ks. ks) ex_landing ex_target ex_prov ex_delta) = Inr ex_id"
    using ex_plan_json by (simp add: contextPlanID_def canonicalDigest_def json_marshal_def ex_hash_hex)
  then show ?thesis by (simp add: PlanLanding_run ex_landing_valid ex_plan_def)
qed

theorem plan_sound_witness:
  "PlanLanding ex_hash (\<lambda>_ ks. ks) ex_landing = Inr ex_plan \<and> plan_consistent ex_plan
   \<and> contextPlanID ex_hash ex_plan = Inr (plan_ID ex_plan)"
  using plan_sound [OF insertion_order.map_iteration_axioms ex_plan_run] ex_plan_run by simp

lemma ex_notes:
  "elems (obj_Notes (lpi_Canonical ex_landing)) = [ex_merge_note ''c'' ''0'']"
  "delta_Records ex_delta = [ex_record]" "rec_Operation ex_record = CandidateAdd"
  "rec_NoteID ex_record \<noteq> ''c''" "note_ID (ex_merge_note ''c'' ''0'') = ''c''"
  by (simp_all add: ex_landing_def ex_canonical_def ex_snapshot_def ex_delta_def ex_record_def ex_merge_note_def)


lemma plan_deterministic_example:
  "PlanLanding ex_hash (\<lambda>_ ks. rev ks) ex_landing = Inr ex_plan"
  using plan_deterministic [OF insertion_order.map_iteration_axioms reverse_order.map_iteration_axioms,
      of ex_hash ex_landing] ex_plan_run by simp

definition ex_blocked :: "LandingConflict \<Rightarrow> ContextPlan" where
  "ex_blocked c = ex_plan\<lparr>plan_Conflicts := [c], plan_Decisions := Some [],
     plan_Outcome := ContextPlanBlocked\<rparr>"

definition ex_stale :: LandingConflict where
  "ex_stale = \<lparr>conf_CandidateRecordID = rec_ID ex_record, conf_NoteID = rec_NoteID ex_record,
     conf_Reason = ''revision_conflict'', conf_BaseRevisionID = [], conf_CanonicalRevisionID = []\<rparr>"

definition ex_taken :: ContextPlan where
  "ex_taken = put_decision (ex_blocked ex_stale) (landingDecision (rec_ID ex_record) (rec_Operation ex_record)
     (noteFromCandidateRecord ex_record ex_target ex_sha) False)"

lemma ex_resolved_json:
  "json_ok (plan_json ((resolved_plan (ex_blocked (coverage_conflict ''coverage_incomplete'')) 0)
     \<lparr>plan_ID := [], plan_CreatedAt := zero_time\<rparr>))"
  "json_ok (plan_json ((resolved_plan ex_taken 0)\<lparr>plan_ID := [], plan_CreatedAt := zero_time\<rparr>))"
  by code_simp+

lemma ex_blocked_conflict:
  "index_of (\<lambda>c. LandingConflictID ex_hash c = ex_id) (plan_Conflicts (ex_blocked c)) = Some 0"
  "plan_Conflicts (ex_blocked c) = [c]"
  by (simp_all add: ex_blocked_def LandingConflictID_def digestParts_def ex_hash_hex)

lemma ex_resolved:
  "ResolveLandingPlan ex_hash (ex_blocked (coverage_conflict ''coverage_incomplete'')) ex_delta ex_target ex_id
     LandingUseCanonical None
     = Inr ((resolved_plan (ex_blocked (coverage_conflict ''coverage_incomplete'')) 0)\<lparr>plan_ID := ex_id\<rparr>)"
  "ResolveLandingPlan ex_hash (ex_blocked ex_stale) ex_delta ex_target ex_id LandingUseCandidate None
     = Inr ((resolved_plan ex_taken 0)\<lparr>plan_ID := ex_id\<rparr>)"
proof -
  have i: "contextPlanID ex_hash (resolved_plan (ex_blocked (coverage_conflict ''coverage_incomplete'')) 0) = Inr ex_id"
    "contextPlanID ex_hash (resolved_plan ex_taken 0) = Inr ex_id"
    using ex_resolved_json by (simp_all add: contextPlanID_def canonicalDigest_def json_marshal_def ex_hash_hex)
  have f: "fp_HeadSourceSHA (plan_Fingerprint (ex_blocked ex_stale)) = ex_sha"
    by (simp add: ex_blocked_def ex_plan_def landed_plan_def Let_def ex_landing_def ex_fingerprint_def)
  have r: "candidateRecordByID ex_delta (conf_CandidateRecordID ex_stale) = Some ex_record"
    by (simp add: candidateRecordByID_def ex_delta_def ex_stale_def)
  have c: "LandingUseCandidate \<noteq> LandingUseCanonical" by (simp add: go_defs)
  from i(1) show "ResolveLandingPlan ex_hash (ex_blocked (coverage_conflict ''coverage_incomplete'')) ex_delta ex_target ex_id
     LandingUseCanonical None
     = Inr ((resolved_plan (ex_blocked (coverage_conflict ''coverage_incomplete'')) 0)\<lparr>plan_ID := ex_id\<rparr>)"
    unfolding ResolveLandingPlan_Some [OF ex_blocked_conflict(1)] by (simp add: resolution_def)
  have "resolution (ex_blocked ex_stale) ex_delta ex_target ex_stale LandingUseCandidate None = Inr ex_taken"
    using c by (simp add: resolution_def Let_def f r ex_taken_def)
  with i(2) show "ResolveLandingPlan ex_hash (ex_blocked ex_stale) ex_delta ex_target ex_id LandingUseCandidate None
     = Inr ((resolved_plan ex_taken 0)\<lparr>plan_ID := ex_id\<rparr>)"
    unfolding ResolveLandingPlan_Some [OF ex_blocked_conflict(1)] by (simp add: ex_blocked_conflict(2))
qed

text \<open>The first conflict of the witness is the planner's own coverage conflict: a resolution with the canonical choice drops
  it and the plan is no longer blocked.  The second is a conflict of a record: the candidate choice decides the record.\<close>

theorem resolve_one_conflict_witness:
  "plan_Conflicts ((resolved_plan (ex_blocked (coverage_conflict ''coverage_incomplete'')) 0)\<lparr>plan_ID := ex_id\<rparr>) = []
   \<and> plan_Outcome ((resolved_plan (ex_blocked (coverage_conflict ''coverage_incomplete'')) 0)\<lparr>plan_ID := ex_id\<rparr>)
       \<noteq> ContextPlanBlocked
   \<and> (\<exists>d \<in> set (elems (plan_Decisions ((resolved_plan ex_taken 0)\<lparr>plan_ID := ex_id\<rparr>))).
        dec_CandidateRecordID d = rec_ID ex_record \<and> record_content ex_record (dec_Note d))"
proof -
  note c = resolve_one_conflict [OF ex_resolved(1)] and d = resolve_one_conflict [OF ex_resolved(2)]
  from c have n: "plan_Conflicts ((resolved_plan (ex_blocked (coverage_conflict ''coverage_incomplete'')) 0)\<lparr>plan_ID := ex_id\<rparr>) = []"
    by (simp add: ex_blocked_conflict(2))
  from c have "plan_consistent ((resolved_plan (ex_blocked (coverage_conflict ''coverage_incomplete'')) 0)\<lparr>plan_ID := ex_id\<rparr>)"
    unfolding one_resolved_def by (elim conjE)
  with n have unblocked: "plan_Outcome ((resolved_plan (ex_blocked (coverage_conflict ''coverage_incomplete'')) 0)\<lparr>plan_ID := ex_id\<rparr>)
      \<noteq> ContextPlanBlocked"
    unfolding plan_consistent_def by (elim conjE) (simp only: HOL.simp_thms)
  from d have "\<exists>i ds. side_taken ex_delta (set ex_target) i ex_stale LandingUseCandidate None ds
      (elems (plan_Decisions ((resolved_plan ex_taken 0)\<lparr>plan_ID := ex_id\<rparr>)))"
    unfolding one_resolved_def ex_blocked_conflict(2) by (auto simp del: One_nat_def)
  then have "\<exists>d \<in> set (elems (plan_Decisions ((resolved_plan ex_taken 0)\<lparr>plan_ID := ex_id\<rparr>))).
      dec_CandidateRecordID d = rec_ID ex_record \<and> record_content ex_record (dec_Note d)"
    unfolding side_taken_def LandingUseCandidate_def replaced_def ex_notes(2) by (auto simp: ex_stale_def)
  with n unblocked show ?thesis by blast
qed

definition ex_build :: LandingBuildInput where
  "ex_build = \<lparr>lbi_Plan = ex_plan, lbi_ParentID = [], lbi_Entities = ex_target, lbi_Provenance = ex_prov,
     lbi_Message = ''m'', lbi_Author = ''a'', lbi_CreatedAt = ex_time, lbi_Resolver = ''r''\<rparr>"

lemma ex_plan_fields:
  "plan_Kind ex_plan = ContextPlanFinal" "plan_Fingerprint ex_plan = ex_fingerprint" "plan_ID ex_plan = ex_id"
  by (simp_all add: ex_plan_def landed_plan_def Let_def ex_landing_def)

lemma ex_plan_decisions:
  "plan_Conflicts ex_plan = [] \<and> plan_Outcome ex_plan \<noteq> ContextPlanBlocked
   \<and> list_all (decision_ok ex_sha) (elems (plan_Decisions ex_plan))"
  by code_simp

lemma ex_built: "\<exists>obj. BuildLandingSnapshot ex_hash ex_build = Inr obj"
proof -
  have "contextPlanID ex_hash ex_plan = Inr (plan_ID ex_plan)"
    by (rule PlanLanding_cases [OF ex_plan_run])
  moreover have "fp_BaseContextCommitID ex_fingerprint = []" "fp_HeadSourceSHA ex_fingerprint = ex_sha"
    "fp_SourceEvidenceDigest ex_fingerprint = ex_id" "fp_ProvenanceDigest ex_fingerprint = ex_id"
    by (simp_all add: ex_fingerprint_def)
  moreover have "lbi_Plan ex_build = ex_plan" "lbi_ParentID ex_build = []" "lbi_Entities ex_build = ex_target"
    "lbi_Provenance ex_build = ex_prov" "TrimSpace (lbi_Message ex_build) \<noteq> []"
    "TrimSpace (lbi_Author ex_build) \<noteq> []" "TrimSpace (lbi_Resolver ex_build) \<noteq> []"
    "\<not> time_IsZero (lbi_CreatedAt ex_build)"
    by (simp_all add: ex_build_def TrimSpace_letter ex_time_facts)
  ultimately show ?thesis
    using ex_evidence ex_plan_decisions ex_plan_fields by (simp add: BuildLandingSnapshot_def Let_def)
qed

theorem landing_snapshot_wf_witness:
  "\<exists>obj. BuildLandingSnapshot ex_hash ex_build = Inr obj \<and> snapshot_wf obj \<and> obj_ParentIDs obj = []"
proof -
  from ex_built obtain obj where o: "BuildLandingSnapshot ex_hash ex_build = Inr obj" by (elim exE)
  have p: "lbi_Plan ex_build = ex_plan" by (simp add: ex_build_def)
  have "distinct (map (\<lambda>d. note_ID (dec_Note d)) (elems (plan_Decisions ex_plan)))"
    "\<forall>d \<in> set (elems (plan_Decisions ex_plan)). dec_Mapping d = note_mapping (dec_Note d)"
    by code_simp+
  from landing_snapshot_wf [OF o, unfolded p, OF this] o show ?thesis
    by (auto simp: ex_plan_fields ex_fingerprint_def)
qed

end
