(* ===== verification/Ancestry_Examples.thy ===== *)
theory Ancestry_Examples
  imports Merge_Base Landing_Properties
begin

text \<open>
  A concrete object directory with a diamond-shaped ancestry, and the properties of the object store
  on it.  An object is written under the hash of a one-letter content; \<open>a\<close> is the root, \<open>l\<close> and
  \<open>y\<close> its children, \<open>k\<close> and \<open>x\<close> the children of \<open>l\<close>, \<open>w\<close> the child of \<open>x\<close>, and \<open>r\<close> the merge of
  \<open>w\<close> and \<open>y\<close>.
\<close>

definition ex_node_id :: "char \<Rightarrow> string" where
  "ex_node_id c = hex_encode (replicate 32 c)"

definition ex_node_hash :: "string \<Rightarrow> string" where
  "ex_node_hash s = replicate 32 (case s of [] \<Rightarrow> CHR ''0'' | c # _ \<Rightarrow> c)"

definition ex_node :: "string list \<Rightarrow> ContextObject" where
  "ex_node parents = (ex_snapshot [])\<lparr>obj_SchemaVersion := 3, obj_RepositoryID := ''repo'', obj_RefName := ''main'',
     obj_ParentIDs := parents, obj_SourceSHA := ex_sha, obj_Message := ''m'', obj_Author := ''a'',
     obj_CreatedAt := ex_time, obj_Provenance := ex_prov, obj_Entities := None, obj_Notes := None,
     obj_RevisionMappings := [], obj_LandingReceipts := []\<rparr>"

definition ex_parents :: "char \<Rightarrow> string" where
  "ex_parents c = (if c = CHR ''l'' \<or> c = CHR ''y'' then ''a'' else if c = CHR ''k'' \<or> c = CHR ''x'' then ''l''
     else if c = CHR ''w'' then ''x'' else if c = CHR ''r'' then ''wy'' else [])"

definition ex_decode :: "string \<Rightarrow> ContextObject json_decoded" where
  "ex_decode s = (case s of [] \<Rightarrow> DecodeFailed
     | c # _ \<Rightarrow> Decoded (ex_node (map ex_node_id (ex_parents c))) True)"

definition ex_dir :: object_dir where
  "ex_dir = map_of (map (\<lambda>c. (ex_node_id c, [c])) ''alyxwrk'')"

lemma ex_node_hash_32: "hash_32 ex_node_hash"
  by (simp add: hash_32_def ex_node_hash_def)

lemma ex_node_canonical: "canonical_id (ex_node_id c)"
  using hex_digest_canonical [OF ex_node_hash_32, of "[c]"] by (simp add: ex_node_id_def ex_node_hash_def)

lemma ex_node_normal [simp]: "normalizeObjectID (ex_node_id c) = Inr (ex_node_id c)"
  by (simp add: normalizeObjectID_iff ex_node_canonical)

lemma byte_hex_digit: "0 \<le> n \<Longrightarrow> n < 16 \<Longrightarrow> byte_of (hex_digit n) = (if n < 10 then 48 + n else 87 + n)"
  by (simp add: hex_digit_def)

lemma hex_digit_inj: "0 \<le> m \<Longrightarrow> m < 16 \<Longrightarrow> 0 \<le> n \<Longrightarrow> n < 16 \<Longrightarrow> hex_digit m = hex_digit n \<longleftrightarrow> m = n"
proof (rule iffI)
  assume "0 \<le> m" "m < 16" "0 \<le> n" "n < 16" "hex_digit m = hex_digit n"
  then have "(if m < 10 then 48 + m else 87 + m) = (if n < 10 then 48 + n else 87 + n)"
    by (metis byte_hex_digit)
  with \<open>0 \<le> m\<close> \<open>m < 16\<close> \<open>0 \<le> n\<close> \<open>n < 16\<close> show "m = n" by (simp split: if_splits)
qed simp

lemma ex_node_inj [simp]: "ex_node_id c = ex_node_id d \<longleftrightarrow> c = d"
proof
  have r: "replicate 32 x = x # replicate 31 x" for x :: char by (simp add: eval_nat_numeral)
  have b: "0 \<le> byte_of x div 16" "byte_of x div 16 < 16" "0 \<le> byte_of x mod 16" "byte_of x mod 16 < 16" for x
    using byte_range [of x] by presburger+
  assume "ex_node_id c = ex_node_id d"
  then have "hex_digit (byte_of c div 16) = hex_digit (byte_of d div 16)"
    "hex_digit (byte_of c mod 16) = hex_digit (byte_of d mod 16)"
    by (simp_all add: ex_node_id_def hex_encode_def r)
  with b have "byte_of c div 16 = byte_of d div 16" "byte_of c mod 16 = byte_of d mod 16"
    by (simp_all add: hex_digit_inj)
  then have "byte_of c = byte_of d" by (metis div_mult_mod_eq)
  then show "c = d" by simp
qed simp

lemma ex_node_wf:
  assumes "length cs \<le> 2" "distinct cs"
  shows "object_wf (ex_node (map ex_node_id cs)) ''repo'' ''main''"
proof -
  have t: "TrimSpace ex_sha \<noteq> []" by (simp add: ex_sha_facts)
  show ?thesis
  using assms t ex_node_canonical
  by (simp add: object_wf_def ex_node_def ex_snapshot_def object_metadata_bad_def TrimSpace_letter ex_time_facts
      entities_wf_def notes_wf_def IsContextSnapshotSchema_def parents_wf_def parent_shape_bad_def provenance_wf_def
      ex_prov_def mappings_wf_def receipts_wf_def list_all_iff distinct_map inj_on_def)
qed

lemma ex_load [simp]:
  assumes "c \<in> set ''alyxwrk''"
  shows "load_object ex_node_hash ex_decode ''repo'' ''main'' (read_object_file ex_dir) (ex_node_id c)
    = Inr ([c], ex_node (map ex_node_id (ex_parents c)))"
proof -
  have "ex_dir (ex_node_id c) = Some [c]" using assms by (auto simp: ex_dir_def)
  moreover have "object_wf (ex_node (map ex_node_id (ex_parents c))) ''repo'' ''main''"
    by (rule ex_node_wf) (simp_all add: ex_parents_def)
  moreover have "hex_encode (ex_node_hash [c]) = ex_node_id c" by (simp add: ex_node_hash_def ex_node_id_def)
  moreover have "obj_SchemaVersion (ex_node ps) = 3" for ps by (simp add: ex_node_def)
  ultimately show ?thesis
    by (simp add: load_object_def read_object_file_def decodeContextObject_def ex_decode_def validateContextObject_eq)
qed

lemma ex_node_parents [simp]: "contextObjectParentIDs (ex_node ps) = ps"
  by (simp add: contextObjectParentIDs_def ex_node_def ex_snapshot_def IsContextSnapshotSchema_def)

definition ex_item :: "char \<Rightarrow> storedContextObject" where
  "ex_item c = \<lparr>sco_ID = ex_node_id c, sco_Contents = [c], sco_Object = ex_node (map ex_node_id (ex_parents c))\<rparr>"

lemma ex_graph:
  "loadObjectGraph ex_node_hash ex_decode 8 ex_dir (ex_node_id CHR ''k'') ''repo'' ''main'' = Some (Inr (map ex_item ''alk''))"
  "loadObjectGraph ex_node_hash ex_decode 8 ex_dir (ex_node_id CHR ''r'') ''repo'' ''main'' = Some (Inr (map ex_item ''alxwyr''))"
proof -
  have n: "elems (obj_Notes (ex_node ps)) = []" "obj_LandingReceipts (ex_node ps) = []" for ps by (simp_all add: ex_node_def)
  have p: "ex_parents CHR ''a'' = []" "ex_parents CHR ''l'' = ''a''" "ex_parents CHR ''y'' = ''a''"
    "ex_parents CHR ''k'' = ''l''" "ex_parents CHR ''x'' = ''l''" "ex_parents CHR ''w'' = ''x''" "ex_parents CHR ''r'' = ''wy''"
    by (simp_all add: ex_parents_def)
  show "loadObjectGraph ex_node_hash ex_decode 8 ex_dir (ex_node_id CHR ''k'') ''repo'' ''main'' = Some (Inr (map ex_item ''alk''))"
    by (simp add: loadObjectGraph_def loadObjectGraphFrom_run [OF ex_node_normal] start_state_def eval_nat_numeral p ex_item_def
      chain_notes_def receipt_links_ok_def chain_receipts_def n)
  show "loadObjectGraph ex_node_hash ex_decode 8 ex_dir (ex_node_id CHR ''r'') ''repo'' ''main'' = Some (Inr (map ex_item ''alxwyr''))"
    by (simp add: loadObjectGraph_def loadObjectGraphFrom_run [OF ex_node_normal] start_state_def eval_nat_numeral p ex_item_def
      chain_notes_def receipt_links_ok_def chain_receipts_def n)
qed

lemma ex_distances:
  "snapshotAncestorDistances (ex_node_id CHR ''k'') (map ex_item ''alk'')
     = Some (Inr [(ex_node_id CHR ''k'', 0), (ex_node_id CHR ''l'', 1), (ex_node_id CHR ''a'', 2)])"
  "snapshotAncestorDistances (ex_node_id CHR ''r'') (map ex_item ''alxwyr'')
     = Some (Inr [(ex_node_id CHR ''r'', 0), (ex_node_id CHR ''w'', 1), (ex_node_id CHR ''y'', 1),
         (ex_node_id CHR ''x'', 2), (ex_node_id CHR ''a'', 2), (ex_node_id CHR ''l'', 3)])"
  by (simp_all add: snapshotAncestorDistances_def graph_objects_def map_put_def ex_item_def distance_step_cases
      distance_step_def ex_parents_def)

lemma ex_merge_base:
  "FindMergeBase ex_node_hash ex_decode (\<lambda>_ ks. ks) 8 ex_dir (ex_node_id CHR ''k'') (ex_node_id CHR ''r'') ''repo'' ''main''
     = Some (Inr (ex_node_id CHR ''a''))"
proof -
  have ne: "ex_node_id c \<noteq> []" for c using ex_node_canonical canonical_id_nonempty by blast
  have "best_base (\<lambda>_ ks. ks) [(ex_node_id CHR ''k'', 0), (ex_node_id CHR ''l'', 1), (ex_node_id CHR ''a'', 2)]
     [(ex_node_id CHR ''r'', 0), (ex_node_id CHR ''w'', 1), (ex_node_id CHR ''y'', 1),
         (ex_node_id CHR ''x'', 2), (ex_node_id CHR ''a'', 2), (ex_node_id CHR ''l'', 3)] = Inr (ex_node_id CHR ''a'')"
    by (simp add: best_base_def map_range_def List.map_filter_simps map_keys_def base_step_key base_key_def ne)
  then show ?thesis
    unfolding FindMergeBase_def ex_node_normal opt_then_def option.case sum.case ex_graph ex_distances by (rule arg_cong)
qed

subsection \<open>The properties at this directory\<close>

abbreviation ex_loader :: loader where
  "ex_loader \<equiv> load_object ex_node_hash ex_decode ''repo'' ''main'' (read_object_file ex_dir)"

lemma ex_loadable: "finite (loadable ex_loader) \<and> card (loadable ex_loader) < 8"
proof -
  have sub: "loadable ex_loader \<subseteq> ex_node_id ` set ''alyxwrk''"
  proof
    fix i assume "i \<in> loadable ex_loader"
    then have "ex_dir i \<noteq> None"
      by (auto simp: loadable_def load_object_def read_object_file_def split: option.splits)
    then show "i \<in> ex_node_id ` set ''alyxwrk''" by (auto simp: ex_dir_def split: if_splits)
  qed
  have "finite (loadable ex_loader)" by (rule finite_subset [OF sub]) simp
  moreover have "card (loadable ex_loader) \<le> card (ex_node_id ` set ''alyxwrk'')" by (rule card_mono [OF _ sub]) simp
  moreover have "card (ex_node_id ` set ''alyxwrk'') \<le> card (set ''alyxwrk'')" by (rule card_image_le) simp
  moreover have "card (set ''alyxwrk'') = 7" by simp
  ultimately show ?thesis by linarith
qed

lemma validated_snapshots_merge_example:
  "\<exists>plan. PlanSnapshotMerge (\<lambda>_ ks. ks) \<lparr>smi_Base = ex_node [], smi_Local = ex_node [], smi_Remote = ex_node []\<rparr> = Inr plan"
proof -
  have "validateContextObject (ex_node []) ''repo'' ''main'' = Inr ()"
    using ex_node_wf [of "[]"] by (simp add: validateContextObject_eq)
  then show ?thesis
    by (intro validated_snapshots_merge [of _ "''repo''" "''main''"])
      (simp_all add: IsContextSnapshotSchema_def, simp_all add: ex_node_def)
qed

theorem graph_sound_witness:
  "graph_ids (map ex_item ''alxwyr'') = {a. ancestor_or_self ex_loader (ex_node_id CHR ''r'') a}
   \<and> \<not> (object_parent ex_loader)\<^sup>+\<^sup>+ (ex_node_id CHR ''r'') (ex_node_id CHR ''r'')"
proof -
  have "sco_ID (last (map ex_item ''alxwyr'')) = ex_node_id CHR ''r''" by (simp add: ex_item_def)
  note sound = graph_sound [OF ex_graph(2) [unfolded loadObjectGraph_def], unfolded this]
  have ids: "graph_ids (map ex_item ''alxwyr'') = {a. ancestor_or_self ex_loader (ex_node_id CHR ''r'') a}"
    using sound by (elim conjE) assumption
  have acyclic: "\<forall>a \<in> graph_ids (map ex_item ''alxwyr''). \<not> (object_parent ex_loader)\<^sup>+\<^sup>+ a a"
    using sound by (elim conjE) assumption
  have "ex_node_id CHR ''r'' \<in> graph_ids (map ex_item ''alxwyr'')" by (simp add: ex_item_def)
  from bspec [OF acyclic this] ids show ?thesis by blast
qed

theorem graph_complete_witness:
  "\<exists>r. loadObjectGraphFrom ex_node_hash ex_decode 8 (ex_node_id CHR ''r'') ''repo'' ''main'' (read_object_file ex_dir) = Some r"
  using graph_complete [OF conjunct1 [OF ex_loadable] conjunct2 [OF ex_loadable], of "ex_node_id CHR ''r''"] by blast

lemma is_ancestor_reachable_example:
  "IsAncestor ex_node_hash ex_decode 8 ex_dir (ex_node_id CHR ''r'') (ex_node_id CHR ''l'') ''repo'' ''main''
     = Some (Inr (ancestor_or_self ex_loader (ex_node_id CHR ''r'') (ex_node_id CHR ''l'')))"
  using is_ancestor_reachable [OF ex_graph(2) ex_node_normal] by (simp add: ex_item_def)

theorem import_publishes_witness:
  "\<exists>dir' chain. ImportObjectChain ex_node_hash ex_decode 8 (\<lambda>_. WriteWorks) (ex_node_id CHR ''k'') ''repo'' ''main''
      (Some (read_object_file ex_dir)) Map.empty = Some (dir', Inr chain)
   \<and> loadObjectGraph ex_node_hash ex_decode 8 dir' (ex_node_id CHR ''k'') ''repo'' ''main'' = Some (Inr (map ex_item ''alk''))"
proof -
  note g = ex_graph(1) [unfolded loadObjectGraph_def]
  obtain d where "import_objects (\<lambda>_. WriteWorks) 0 (map ex_item ''alk'') Map.empty = (d, Inr ())"
    by (simp add: WriteObject_def ex_item_def)
  from import_run [OF g this] obtain chain where
    i: "ImportObjectChain ex_node_hash ex_decode 8 (\<lambda>_. WriteWorks) (ex_node_id CHR ''k'') ''repo'' ''main''
      (Some (read_object_file ex_dir)) Map.empty = Some (d, Inr chain)" by simp
  from import_publishes [OF i] g have
    "loadObjectGraph ex_node_hash ex_decode 8 d (ex_node_id CHR ''k'') ''repo'' ''main'' = Some (Inr (map ex_item ''alk''))"
    by simp
  with i show ?thesis by blast
qed

theorem merge_base_nearest_witness:
  "\<exists>dl dr. shortest (object_parent ex_loader) (ex_node_id CHR ''k'') (ex_node_id CHR ''a'') dl
     \<and> shortest (object_parent ex_loader) (ex_node_id CHR ''r'') (ex_node_id CHR ''a'') dr"
proof -
  from merge_base_nearest [OF insertion_order.map_iteration_axioms ex_merge_base] obtain l r dl dr where
    "normalizeObjectID (ex_node_id CHR ''k'') = Inr l" "normalizeObjectID (ex_node_id CHR ''r'') = Inr r"
    "shortest (object_parent ex_loader) l (ex_node_id CHR ''a'') dl" "shortest (object_parent ex_loader) r (ex_node_id CHR ''a'') dr"
    by (elim exE conjE) (rule that)
  then show ?thesis unfolding ex_node_normal by (metis sum.inject(2))
qed

theorem merge_base_decides_witness:
  "FindMergeBase ex_node_hash ex_decode (\<lambda>_ ks. rev ks) 8 ex_dir (ex_node_id CHR ''k'') (ex_node_id CHR ''r'') ''repo'' ''main''
     = Some (Inr (ex_node_id CHR ''a''))"
  using merge_base_decides [OF insertion_order.map_iteration_axioms reverse_order.map_iteration_axioms ex_node_normal
      ex_node_normal ex_graph] ex_merge_base by simp

text \<open>
  The base of the two commits \<open>k\<close> and \<open>r\<close> is \<open>a\<close>, although \<open>l\<close>, a descendant of \<open>a\<close>, is an ancestor of
  both: the distance rule does not prefer the lowest common ancestor.
\<close>

lemma merge_base_not_lowest:
  "FindMergeBase ex_node_hash ex_decode (\<lambda>_ ks. ks) 8 ex_dir (ex_node_id CHR ''k'') (ex_node_id CHR ''r'') ''repo'' ''main''
     = Some (Inr (ex_node_id CHR ''a''))
   \<and> ancestor_or_self ex_loader (ex_node_id CHR ''k'') (ex_node_id CHR ''l'')
   \<and> ancestor_or_self ex_loader (ex_node_id CHR ''r'') (ex_node_id CHR ''l'')
   \<and> object_parent ex_loader (ex_node_id CHR ''l'') (ex_node_id CHR ''a'')"
proof -
  have p: "object_parent ex_loader (ex_node_id c) (ex_node_id d)" if "d \<in> set (ex_parents c)" "c \<in> set ''alyxwrk''" for c d
    using that ex_load [OF that(2)] by (auto simp: object_parent_def)
  have "object_parent ex_loader (ex_node_id CHR ''l'') (ex_node_id CHR ''a'')"
    "object_parent ex_loader (ex_node_id CHR ''k'') (ex_node_id CHR ''l'')"
    "object_parent ex_loader (ex_node_id CHR ''r'') (ex_node_id CHR ''w'')"
    "object_parent ex_loader (ex_node_id CHR ''w'') (ex_node_id CHR ''x'')"
    "object_parent ex_loader (ex_node_id CHR ''x'') (ex_node_id CHR ''l'')"
    by (rule p, simp_all add: ex_parents_def)+
  with ex_merge_base show ?thesis by (meson converse_rtranclp_into_rtranclp r_into_rtranclp)
qed

end
