(* ===== verification/Coordinator_Examples.thy ===== *)
theory Coordinator_Examples
  imports Coordinator_Properties Ancestry_Examples
begin

text \<open>
  Concrete databases: a job that is claimed, lost and claimed again; a check whose publication was
  rejected; and a landing from its intent to its receipt.  The properties of the coordinator applied
  to them.
\<close>

subsection \<open>A job\<close>

definition at :: "int \<Rightarrow> go_time" where
  "at n = \<lparr>time_instant = n, time_loc = None, time_mono = None\<rparr>"

definition ex_env :: coordinator_env where
  "ex_env = \<lparr>ce_blake3 = ex_hash, ce_envelope = (\<lambda>_. None), ce_final = (\<lambda>_. None), ce_check = (\<lambda>_. None), ce_preview = (\<lambda>_. None)\<rparr>"

definition ex_job :: CoordinatorJob where
  "ex_job = \<lparr>job_ID = ''j'', job_DedupeKey = ''d'', job_Kind = ''k'', job_Priority = 1, job_Payload = ''{}'', job_Result = [],
     job_State = CoordinatorJobPending, job_Attempts = 0, job_MaxAttempts = 3, job_NextAttemptAt = at 1, job_LeaseOwner = [],
     job_LeaseUntil = zero_time, job_FencingToken = 0, job_FailureCode = CodeNone\<rparr>"

definition ex_worker :: "string \<Rightarrow> JobClaimOptions" where
  "ex_worker name = \<lparr>jco_WorkerID = name, jco_Kinds = [''k''], jco_LeaseDuration = 10\<rparr>"

definition ex_leased :: "string \<Rightarrow> int \<Rightarrow> int \<Rightarrow> CoordinatorJob" where
  "ex_leased worker token until = ex_job\<lparr>job_State := CoordinatorJobRunning, job_Attempts := token, job_LeaseOwner := worker,
     job_LeaseUntil := at until, job_FencingToken := token\<rparr>"

definition ex_enqueued :: database where "ex_enqueued = fst (EnqueueJob ex_job (empty_store (at 1)))"
definition ex_claimed :: database where "ex_claimed = fst (ClaimJobKinds ex_env (ex_worker ''v'') ex_enqueued)"
definition ex_expired :: database where "ex_expired = ex_claimed\<lparr>db_now := at 20\<rparr>"
definition ex_reclaimed :: database where "ex_reclaimed = fst (ClaimJobKinds ex_env (ex_worker ''w'') ex_expired)"
definition ex_completed :: database where "ex_completed = fst (CompleteClaim (job_Claim (ex_leased ''w'' 2 30)) ''{}'' ex_reclaimed)"

lemma ex_claims:
  "ClaimJobKinds ex_env (ex_worker ''v'') ex_enqueued = (ex_claimed, Inr (Some (ex_leased ''v'' 1 11)))"
  "ClaimJobKinds ex_env (ex_worker ''w'') ex_expired = (ex_reclaimed, Inr (Some (ex_leased ''w'' 2 30)))"
  "CompleteClaim (job_Claim (ex_leased ''w'' 2 30)) ''{}'' ex_reclaimed = (ex_completed, Inr ())"
  by code_simp+

lemma store_steps:
  "store_reachable b3 (empty_store t)"
  "store_reachable b3 db \<Longrightarrow> store_step b3 db db' \<Longrightarrow> store_reachable b3 db'"
  unfolding store_reachable_def by (auto intro: rtranclp.rtrancl_into_rtrancl)

lemma ex_job_steps:
  "store_step ex_hash (empty_store (at 1)) ex_enqueued" "store_step ex_hash ex_enqueued ex_claimed"
  "store_step ex_hash ex_claimed ex_expired" "store_step ex_hash ex_expired ex_reclaimed"
  "store_step ex_hash ex_reclaimed ex_completed"
proof -
  show "store_step ex_hash (empty_store (at 1)) ex_enqueued"
    unfolding ex_enqueued_def by (rule store_step.enqueue) (simp add: fresh_job_def ex_job_def)
  show "store_step ex_hash ex_enqueued ex_claimed" "store_step ex_hash ex_expired ex_reclaimed"
    unfolding ex_claimed_def ex_reclaimed_def by (rule store_step.claim_kinds, simp add: ex_env_def)+
  have "db_now ex_claimed = at 1" by code_simp
  then show "store_step ex_hash ex_claimed ex_expired"
    unfolding ex_expired_def by (intro store_step.tick) (simp add: at_def)
  show "store_step ex_hash ex_reclaimed ex_completed" unfolding ex_completed_def by (rule store_step.complete)
qed

lemma ex_jobs_reachable:
  "store_reachable ex_hash ex_enqueued" "store_reachable ex_hash ex_claimed" "store_reachable ex_hash ex_expired"
  "store_reachable ex_hash ex_reclaimed" "store_reachable ex_hash ex_completed"
  using store_steps ex_job_steps by blast+

lemma ex_both_claim:
  "claims ex_env ex_enqueued ex_claimed (ex_leased ''v'' 1 11)" "claims ex_env ex_expired ex_reclaimed (ex_leased ''w'' 2 30)"
  using ex_claims(1,2) unfolding claims_def by blast+

lemma ex_env_hash [simp]: "ce_blake3 ex_env = ex_hash"
  by (simp add: ex_env_def)

theorem store_invariant_witness: "coordinator_inv ex_hash ex_reclaimed"
  by (rule store_invariant [OF ex_jobs_reachable(4)])

theorem store_history_witness: "evolves ex_enqueued ex_claimed"
  by (rule store_history [OF ex_jobs_reachable(1)]) (blast intro: ex_job_steps)

theorem claim_fenced_witness:
  "job_FencingToken (ex_leased ''v'' 1 11) < job_FencingToken (ex_leased ''w'' 2 30)
     \<and> spent (job_Claim (ex_leased ''v'' 1 11)) ex_completed"
proof -
  have "(store_step (ce_blake3 ex_env))\<^sup>*\<^sup>* ex_claimed ex_expired" "(store_step (ce_blake3 ex_env))\<^sup>*\<^sup>* ex_reclaimed ex_completed"
    using ex_job_steps by auto
  moreover have "store_reachable (ce_blake3 ex_env) ex_enqueued" using ex_jobs_reachable by simp
  ultimately show ?thesis
    using claim_fenced [OF _ ex_both_claim(1) _ ex_both_claim(2)] by (simp add: ex_leased_def ex_job_def)
qed

lemma ex_spent: "spent (job_Claim (ex_leased ''v'' 1 11)) ex_reclaimed"
  by code_simp

lemma claim_single_use_example: "spent (job_Claim (ex_leased ''w'' 2 30)) ex_completed"
  by (rule claim_single_use [OF ex_jobs_reachable(4) rtranclp.rtrancl_refl]) (rule disjI1, rule ex_claims(3))

theorem claim_selects_witness: "ValidateClaim (job_Claim (ex_leased ''w'' 2 30)) ex_reclaimed = (ex_reclaimed, Inr ())"
  using claim_selects [of ex_env ex_expired, OF _ ex_claims(2)] ex_jobs_reachable(3) by simp blast

subsection \<open>A check\<close>

definition ex_check :: DesiredCheck where
  "ex_check = \<lparr>chk_LogicalKey = ''gh:o/r#7@'' @ ex_sha, chk_Change = ex_change, chk_HeadSHA = ex_sha, chk_State = CheckReady,
     chk_Summary = ''s'', chk_PlanURL = [], chk_Version = 0, chk_PublishedVersion = 0, chk_ProviderCheckRunID = 0,
     chk_UpdatedAt = at 1\<rparr>"

theorem spent_claim_refused_witness:
  "refused ex_reclaimed (CompleteClaim (job_Claim (ex_leased ''v'' 1 11)) ''{}'' ex_reclaimed)"
proof -
  let ?c = "job_Claim (ex_leased ''v'' 1 11)"
  show ?thesis
    using spent_claim_refused [OF ex_jobs_reachable(4) ex_spent refl, of "\<lparr>cpc_Claim = ?c, cpc_LogicalKey = [], cpc_DesiredVersion = 1,
          cpc_ProviderCheckRunID = 1, cpc_ResultPayload = []\<rparr>"
        "\<lparr>blc_Claim = ?c, blc_LandingID = [], blc_ExpectedState = [], blc_ErrorCode = CodeBusy,
          blc_DesiredCheck = ex_check, blc_ResultPayload = []\<rparr>"
        "\<lparr>lfc_Claim = ?c, lfc_LandingID = [], lfc_ErrorCode = CodeBusy, lfc_Now = at 1, lfc_MaxAttempts = 1,
          lfc_BlockedCheck = ex_check, lfc_ResultPayload = []\<rparr>"
        ex_check]
    by (simp add: fresh_check_def ex_check_def)
qed

definition ex_check_row :: desiredCheckRecord where
  "ex_check_row = \<lparr>dcr_LogicalKey = ''gh:o/r#7@'' @ ex_sha, dcr_Provider = ''gh'', dcr_ForgeRepository = ''o/r'',
     dcr_ChangeNumber = 7, dcr_HeadSHA = ex_sha, dcr_State = CheckReady, dcr_Summary = ''s'', dcr_PlanURL = [],
     dcr_Version = 1, dcr_PublishedVersion = 0, dcr_ProviderCheckRunID = 0, dcr_UpdatedAt = at 1\<rparr>"

definition ex_check_job :: CoordinatorJob where
  "ex_check_job = projr (newCheckJob ex_hash (ex_check\<lparr>chk_Version := 1\<rparr>) (at 1) 5)"

definition ex_checked :: database where
  "ex_checked = (empty_store (at 1))\<lparr>db_checks := [ex_check_row], db_jobs := [coordinatorJobRecordFrom ex_check_job]\<rparr>"

lemma ex_check_key: "DesiredCheckLogicalKey ex_change ex_sha = ''gh:o/r#7@'' @ ex_sha"
proof -
  have "Sprint_int 7 = ''7''" by code_simp
  then show ?thesis by (simp add: DesiredCheckLogicalKey_def ex_change_def ex_sha_facts)
qed

lemma ex_check_facts:
  "validateDesiredCheck ex_check = Inr ()" "desiredCheckRecordFrom (ex_check\<lparr>chk_Version := 1\<rparr>) = ex_check_row"
  "fresh_check ex_check"
proof -
  show "validateDesiredCheck ex_check = Inr ()" "fresh_check ex_check"
    by (simp_all add: validateDesiredCheck_def ex_check_def ex_check_key ex_sha_facts at_def time_IsZero_def go_defs
        fresh_check_def)
  show "desiredCheckRecordFrom (ex_check\<lparr>chk_Version := 1\<rparr>) = ex_check_row"
    by (simp add: desiredCheckRecordFrom_def ex_check_def ex_check_row_def ex_change_def ex_sha_facts time_UTC_def at_def)
qed

lemma ex_check_job_run:
  "newCheckJob ex_hash (ex_check\<lparr>chk_Version := 1\<rparr>) (at 1) 5 = Inr ex_check_job"
  "validateCoordinatorJob ex_check_job = Inr ()"
  by code_simp+

lemma ex_checked_run: "fst (SetDesiredCheck ex_hash ex_check (empty_store (at 1))) = ex_checked"
proof -
  have "chk_UpdatedAt ex_check = at 1" by (simp add: ex_check_def)
  then show ?thesis
    by (simp add: SetDesiredCheck_def ex_check_facts transaction_def upsertDesiredCheckTx_def persistExistingDesiredCheckTx_def
        enqueueJobTx_def tx_defs tx_insert_def take_row_def empty_store_def ex_check_job_run Let_def ex_checked_def)
qed

definition ex_publisher :: JobClaimOptions where
  "ex_publisher = \<lparr>jco_WorkerID = ''p'', jco_Kinds = [checkJobKind], jco_LeaseDuration = 10\<rparr>"

definition ex_publishing :: database where "ex_publishing = fst (ClaimJobKinds ex_env ex_publisher ex_checked)"
definition ex_rejected :: database where
  "ex_rejected = fst (RejectClaim \<lparr>claim_JobID = ex_id, claim_LeaseOwner = ''p'', claim_FencingToken = 1\<rparr> CodeBusy ex_publishing)"

lemma ex_rejected_state:
  "db_checks ex_rejected = [ex_check_row]" "unpublished ex_check_row" "\<not> will_publish ex_hash ex_rejected ex_check_row"
  by code_simp+

lemma ex_rejected_reachable: "store_reachable ex_hash ex_rejected"
proof -
  have "store_step ex_hash (empty_store (at 1)) ex_checked"
    using store_step.set_check [OF ex_check_facts(3), of ex_hash "empty_store (at 1)"] by (simp add: ex_checked_run)
  moreover have "store_step ex_hash ex_checked ex_publishing"
    unfolding ex_publishing_def by (rule store_step.claim_kinds) simp
  moreover have "store_step ex_hash ex_publishing ex_rejected" unfolding ex_rejected_def by (rule store_step.reject)
  ultimately show ?thesis using store_steps by blast
qed

theorem repair_revives_witness:
  "\<not> will_publish ex_hash ex_rejected ex_check_row
     \<and> will_publish ex_hash (fst (RepairDesiredChecks ex_hash 1 ex_rejected)) ex_check_row"
proof -
  have "take 1 (order_rows (\<lambda>r. (time_instant (dcr_UpdatedAt r), dcr_LogicalKey r)) unpublished [ex_check_row]) = [ex_check_row]"
    using ex_rejected_state(2) by (simp add: order_rows_def)
  then show ?thesis
    using repair_revives [OF ex_rejected_reachable, of 1] ex_rejected_state(3) by (auto simp: ex_rejected_state(1))
qed

subsection \<open>A landing\<close>

definition ex_old :: string where "ex_old = ex_node_id CHR ''a''"

definition ex_receipt :: LandingReceipt where
  "ex_receipt = \<lparr>rcpt_ID = ex_id, rcpt_Provider = ''gh'', rcpt_ForgeRepository = ''o/r'', rcpt_ChangeNumber = 7,
     rcpt_ContextRepositoryID = ''repo'', rcpt_TargetRef = ''main'', rcpt_CandidateDigest = [], rcpt_FinalPlanID = ex_id,
     rcpt_SourceMergeSHA = ex_sha, rcpt_BaseContextCommitID = ex_old, rcpt_Resolver = ''a'', rcpt_CandidateMappings = []\<rparr>"

definition ex_landed_object :: ContextObject where
  "ex_landed_object = (ex_node [ex_old])\<lparr>obj_SchemaVersion := 4, obj_LandingReceipts := [ex_receipt]\<rparr>"

definition ex_ref :: "string \<Rightarrow> int \<Rightarrow> Ref" where
  "ex_ref commit version = \<lparr>ref_RefName = ''main'', ref_CommitID = commit, ref_SourceSHA = ex_sha, ref_Version = version\<rparr>"

definition ex_advance :: RefAdvanceInput where
  "ex_advance = \<lparr>adv_Expected = ex_ref ex_old 1, adv_Next = ex_ref ex_id 2, adv_Object = ex_landed_object\<rparr>"

definition ex_intent :: LandingIntent where
  "ex_intent = \<lparr>int_ID = ex_id, int_RepositoryID = ''repo'', int_TargetRef = ''main'', int_Change = ex_change,
     int_CandidateDigest = [], int_SourceMergeSHA = ex_sha, int_PreviewPlanID = [], int_FinalPlanID = [], int_State = LandingPending,
     int_AttemptCount = 0, int_NextAttemptAt = zero_time, int_LastErrorCode = CodeNone, int_LandedContextCommitID = []\<rparr>"

definition ex_ref_set :: database where
  "ex_ref_set = fst (CompareAndSwapRef ''repo'' ''main'' (empty_ref ''main'') (ex_ref ex_old 1) (empty_store (at 1)))"
definition ex_intended :: database where "ex_intended = fst (CreateLandingIntent ex_intent ex_ref_set)"
definition ex_running :: database where "ex_running = fst (TransitionLanding ex_id LandingPending LandingRunning ex_intended)"
definition ex_planned :: database where "ex_planned = fst (SetLandingPlan ex_id ex_id ex_running)"
definition ex_landed_store :: database where "ex_landed_store = fst (Advance ex_hash (at 2) ex_advance ex_planned)"

lemma ex_object_valid: "validateContextObject ex_landed_object ''repo'' ''main'' = Inr ()"
proof -
  have t: "TrimSpace ex_sha \<noteq> []" by (simp add: ex_sha_facts)
  have "normalizeObjectID ex_id = Inr ex_id" "ex_id \<noteq> []"
    by (simp add: normalizeObjectID_iff ex_id_canonical) (simp add: ex_id_def)
  then have "object_wf ex_landed_object ''repo'' ''main''"
    using t ex_node_canonical ex_id_canonical
    by (simp add: object_wf_def ex_landed_object_def ex_node_def ex_snapshot_def object_metadata_bad_def TrimSpace_letter
        ex_time_facts entities_wf_def notes_wf_def IsContextSnapshotSchema_def parents_wf_def parent_shape_bad_def
        provenance_wf_def ex_prov_def mappings_wf_def receipts_wf_def receipt_wf_def receipt_ok_def receipt_digests_ok_def ex_receipt_def
        ex_old_def list_all_iff)
  then show ?thesis by (simp add: validateContextObject_eq)
qed

lemma ex_advance_valid: "validateLandingAdvance ex_hash ex_advance = Inr ex_receipt"
proof -
  have "json_ok (object_json ex_landed_object)" by code_simp
  moreover have "obj_RepositoryID ex_landed_object = ''repo''" "obj_RefName ex_landed_object = ''main''"
    "obj_SourceSHA ex_landed_object = ex_sha" "obj_SchemaVersion ex_landed_object = 4"
    "obj_LandingReceipts ex_landed_object = [ex_receipt]"
    by (simp_all add: ex_landed_object_def ex_node_def)
  ultimately show ?thesis using ex_object_valid
    by (simp add: validateLandingAdvance_def ex_advance_def ex_ref_def ex_receipt_def Let_def json_marshal_def ex_hash_hex)
      (simp add: ex_id_def)
qed

lemma ex_planned_state:
  "db_receipts ex_planned = []"
  "db_refs ex_planned = [\<lparr>refr_RepositoryID = ''repo'', refr_RefName = ''main'', refr_CommitID = ex_old, refr_SourceSHA = ex_sha,
     refr_Version = 1\<rparr>]"
  "db_landings ex_planned = [landingIntentRecordFrom (ex_intent\<lparr>int_State := LandingRunning, int_FinalPlanID := ex_id\<rparr>)]"
  by code_simp+

lemma ex_planned_reachable: "store_reachable ex_hash ex_planned"
proof -
  have "store_step ex_hash (empty_store (at 1)) ex_ref_set" unfolding ex_ref_set_def by (rule store_step.cas)
  moreover have "store_step ex_hash ex_ref_set ex_intended" unfolding ex_intended_def by (rule store_step.create_landing)
  moreover have "store_step ex_hash ex_intended ex_running" unfolding ex_running_def by (rule store_step.transition)
  moreover have "store_step ex_hash ex_running ex_planned" unfolding ex_planned_def by (rule store_step.landing_plan)
  ultimately show ?thesis using store_steps by blast
qed

lemma ex_advanced: "Advance ex_hash (at 2) ex_advance ex_planned = (ex_landed_store, Inr (ex_ref ex_id 2))"
proof -
  have "snd (Advance ex_hash (at 2) ex_advance ex_planned) = Inr (ex_ref ex_id 2)"
    unfolding Advance_def advance_def ex_advance_valid
    by (simp add: tx_bind_def tx_read_def ex_planned_state take_row_def transaction_def land_def current_ref_def ref_key_def
        ex_advance_def ex_landed_object_def ex_node_def ex_snapshot_def ref_of_record_def ex_ref_def Let_def tx_found_def
        validateReceiptIntent_def landingIntentRecordFrom_def ex_intent_def ex_receipt_def ex_change_def tx_lift_def
        advanceable_def tx_update_def rows_affected_def at_ref_def tx_check_def tx_insert_def to_land_def
        persist_optional_def tx_return_def)
  then show ?thesis unfolding ex_landed_store_def by (metis prod.collapse)
qed

theorem landing_atomic_witness:
  "current_ref ''repo'' ''main'' ex_planned = ex_ref ex_old 1 \<and> current_ref ''repo'' ''main'' ex_landed_store = ex_ref ex_id 2"
  using landing_atomic [OF ex_planned_reachable ex_advanced ex_advance_valid]
  by (simp add: ex_planned_state(1) ex_advance_def ex_landed_object_def ex_node_def ex_snapshot_def)

theorem landing_idempotent_witness:
  "Advance ex_hash (at 3) ex_advance ex_landed_store = (ex_landed_store, Inr (current_ref ''repo'' ''main'' ex_landed_store))"
  using landing_idempotent [OF ex_planned_reachable ex_advanced ex_advance_valid _ rtranclp.rtrancl_refl]
  by (simp add: ex_planned_state(1)) (simp add: ex_advance_def ex_landed_object_def ex_node_def ex_snapshot_def)

theorem no_lost_update_witness:
  "refused ex_ref_set (CompareAndSwapRef ''repo'' ''main'' (empty_ref ''main'') (ex_ref ex_id 1) ex_ref_set)"
proof -
  have "CompareAndSwapRef ''repo'' ''main'' (empty_ref ''main'') (ex_ref ex_old 1) (empty_store (at 1))
      = (ex_ref_set, Inr (ex_ref ex_old 1))" by code_simp
  from no_lost_update [OF store_steps(1) this rtranclp.rtrancl_refl] show ?thesis .
qed

end
