(* ===== verification/Remote_Files.thy ===== *)
theory Remote_Files
  imports Ref_Advance Object_Ancestry
begin

text \<open>
  The files of one repository on a context remote: the objects, refs and packs directories, and the
  operations of remote/filesystem.go on them.  A directory maps file names to files; every file is
  regular.  Decoding a stored ref (encoding/json) and SHA-256 are parameters.
\<close>

subsection \<open>Directories\<close>

record stored_file =
  file_Contents :: string
  file_ModTime :: go_time

type_synonym directory = "stored_file gomap"

record remote_files =
  fs_objects :: directory
  fs_refs :: directory
  fs_packs :: directory

record remote_env =
  re_blake3 :: "string \<Rightarrow> string"
  re_sha256 :: "string \<Rightarrow> string"
  re_ref :: "string \<Rightarrow> Ref option" \<comment> \<open>\<open>json.Unmarshal\<close> into a \<open>Ref\<close>\<close>

subsection \<open>Objects\<close>

definition object_file :: "string \<Rightarrow> string" where
  "object_file oid = oid @ ''.json''"

definition objectPath :: "string \<Rightarrow> string result" where
  "objectPath oid = and_then (NormalizeContextCommitID oid) (\<lambda>oid. Inr (object_file oid))"

definition validateObjectBytes :: "(string \<Rightarrow> string) \<Rightarrow> string \<Rightarrow> string \<Rightarrow> unit result" where
  "validateObjectBytes b3 oid contents =
     and_then (NormalizeContextCommitID oid) (\<lambda>oid.
     if hex_encode (b3 contents) \<noteq> oid then Inl CodeValidation else Inr ())"

definition fs_ReadObject :: "(string \<Rightarrow> string) \<Rightarrow> string \<Rightarrow> remote_files \<Rightarrow> string result" where
  "fs_ReadObject b3 oid files =
     and_then (objectPath oid) (\<lambda>path.
     case map_of (fs_objects files) path of
       None \<Rightarrow> Inl CodeObjectMissing
     | Some f \<Rightarrow> and_then (validateObjectBytes b3 oid (file_Contents f)) (\<lambda>_. Inr (file_Contents f)))"

text \<open>
  \<open>PublishObject\<close>: \<open>fault\<close> is what the operating system does (a failed link finds what another
  process has published meanwhile), \<open>now\<close> the time of the write.  An object that is already there is
  touched.
\<close>

definition put_object :: "string \<Rightarrow> string \<Rightarrow> go_time \<Rightarrow> remote_files \<Rightarrow> remote_files" where
  "put_object path contents now files =
     files\<lparr>fs_objects := map_put path \<lparr>file_Contents = contents, file_ModTime = now\<rparr> (fs_objects files)\<rparr>"

definition fs_PublishObject ::
    "(string \<Rightarrow> string) \<Rightarrow> write_fault \<Rightarrow> go_time \<Rightarrow> string \<Rightarrow> string \<Rightarrow> remote_files \<Rightarrow> remote_files \<times> bool result" where
  "fs_PublishObject b3 fault now oid contents files = (case objectPath oid of
       Inl e \<Rightarrow> (files, Inl e)
     | Inr path \<Rightarrow> (case validateObjectBytes b3 oid contents of
         Inl e \<Rightarrow> (files, Inl e)
       | Inr _ \<Rightarrow>
         if fault = ReadFails then (files, Inl CodeLocalStorage)
         else (case map_of (fs_objects files) path of
             Some existing \<Rightarrow>
               if file_Contents existing = contents then (put_object path contents now files, Inr False)
               else (files, Inl CodeValidation)
           | None \<Rightarrow>
               if fault \<in> {CreateFails, WriteFails, SyncFails, CloseFails} then (files, Inl CodeLocalStorage)
               else (case fault of
                   RenameFails None \<Rightarrow> (files, Inl CodeLocalStorage)
                 | RenameFails (Some published) \<Rightarrow>
                     (put_object path published now files,
                      if published = contents then Inr False else Inl CodeValidation)
                 | DirectorySyncFails \<Rightarrow> (put_object path contents now files, Inl CodeLocalStorage)
                 | _ \<Rightarrow> (put_object path contents now files, Inr True)))))"

subsection \<open>Refs\<close>

definition refPath :: "remote_env \<Rightarrow> string \<Rightarrow> string result" where
  "refPath env refName =
     (if refName = [] then Inl CodeValidation else Inr (hex_encode (re_sha256 env refName) @ ''.json''))"

definition ref_json :: "Ref \<Rightarrow> json" where
  "ref_json r = JObject (fld_s ''ref_name'' (ref_RefName r) @ fld_omit ''commit_id'' (ref_CommitID r)
     @ fld_omit ''source_sha'' (ref_SourceSHA r) @ fld ''version'' (JInt (ref_Version r)))"

text \<open>\<open>readRef\<close>; \<open>None\<close> when the file does not exist.\<close>

definition readRef :: "remote_env \<Rightarrow> string \<Rightarrow> string \<Rightarrow> remote_files \<Rightarrow> Ref option result" where
  "readRef env path refName files = (case map_of (fs_refs files) path of
       None \<Rightarrow> Inr None
     | Some f \<Rightarrow> (case re_ref env (file_Contents f) of
         None \<Rightarrow> Inl CodeValidation
       | Some ref \<Rightarrow>
           if ref_RefName ref \<noteq> refName \<or> ref_CommitID ref = [] \<or> ref_SourceSHA ref = [] \<or> ref_Version ref < 1
           then Inl CodeValidation
           else and_then (NormalizeContextCommitID (ref_CommitID ref)) (\<lambda>_. Inr (Some ref))))"

definition ref_or_empty :: "string \<Rightarrow> Ref option \<Rightarrow> Ref" where
  "ref_or_empty refName found = (case found of None \<Rightarrow> empty_ref refName | Some ref \<Rightarrow> ref)"

definition fs_ReadRef :: "remote_env \<Rightarrow> string \<Rightarrow> remote_files \<Rightarrow> Ref result" where
  "fs_ReadRef env refName files =
     and_then (refPath env refName) (\<lambda>path.
     and_then (readRef env path refName files) (\<lambda>found. Inr (ref_or_empty refName found)))"

text \<open>\<open>acquireLock\<close>: the lock of a ref is a file beside it; a lock that was left behind is held.\<close>

definition lock_held :: "string \<Rightarrow> remote_files \<Rightarrow> bool" where
  "lock_held path files \<longleftrightarrow> map_of (fs_refs files) (path @ ''.lock'') \<noteq> None"

definition WriteAtomic :: "write_fault \<Rightarrow> go_time \<Rightarrow> string \<Rightarrow> string \<Rightarrow> directory \<Rightarrow> directory \<times> unit result" where
  "WriteAtomic fault now path contents dir =
     (let dir' = map_put path \<lparr>file_Contents = contents, file_ModTime = now\<rparr> dir
      in case fault of
           WriteWorks \<Rightarrow> (dir', Inr ())
         | ReadFails \<Rightarrow> (dir', Inr ())
         | DirectorySyncFails \<Rightarrow> (dir', Inl CodeLocalStorage)
         | _ \<Rightarrow> (dir, Inl CodeLocalStorage))"

definition valid_swap :: "string \<Rightarrow> Ref \<Rightarrow> Ref \<Rightarrow> bool" where
  "valid_swap refName expected nxt \<longleftrightarrow> ref_RefName expected = refName \<and> ref_RefName nxt = refName
     \<and> ref_CommitID nxt \<noteq> [] \<and> ref_SourceSHA nxt \<noteq> [] \<and> 1 \<le> ref_Version nxt"

definition fs_CompareAndSwapRef ::
    "remote_env \<Rightarrow> write_fault \<Rightarrow> go_time \<Rightarrow> string \<Rightarrow> Ref \<Rightarrow> Ref \<Rightarrow> remote_files \<Rightarrow> remote_files \<times> Ref result" where
  "fs_CompareAndSwapRef env fault now refName expected nxt files = (case refPath env refName of
       Inl e \<Rightarrow> (files, Inl e)
     | Inr path \<Rightarrow>
       if \<not> valid_swap refName expected nxt then (files, Inl CodeValidation)
       else if lock_held path files then (files, Inl CodeRemoteConflict)
       else if fault = ReadFails then (files, Inl CodeLocalStorage)
       else (case readRef env path refName files of
           Inl e \<Rightarrow> (files, Inl e)
         | Inr found \<Rightarrow>
             if ref_or_empty refName found \<noteq> expected then (files, Inl CodeRemoteConflict)
             else if ref_Version nxt \<noteq> ref_Version (ref_or_empty refName found) + 1 then (files, Inl CodeValidation)
             else (case json_marshal (ref_json nxt) of
                 None \<Rightarrow> (files, Inl CodeLocalStorage)
               | Some contents \<Rightarrow> (case WriteAtomic fault now path contents (fs_refs files) of
                   (refs, Inl e) \<Rightarrow> (files\<lparr>fs_refs := refs\<rparr>, Inl e)
                 | (refs, Inr _) \<Rightarrow> (files\<lparr>fs_refs := refs\<rparr>, Inr nxt)))))"

end
