(* ===== verification/Pack_Files.thy ===== *)
theory Pack_Files
  imports Remote_Files
begin

text \<open>
  Object packs of the server (remote/server/pack.go, pack_reader.go, pack_cache.go and
  storage.go): a pack holds compressed objects one after the other, its index says where; the
  largest object is the dictionary of the others.  The compressor (zstd) and the decoder of an index
  file are parameters.  The in-memory cache of indexes is left out: the catalog is what the
  directory holds.
\<close>

subsection \<open>Packs\<close>

definition packIndexVersion :: int where
  "packIndexVersion = 2"

record packEntry =
  pe_Offset :: int
  pe_Length :: int
  pe_StoredAt :: int
  pe_RawSize :: int

record packIndex =
  pki_Version :: int
  pki_Dictionary :: string
  pki_Objects :: "packEntry gomap"
  pki_name :: string

text \<open>
  Encoders and decoders; the dictionary is the first argument.  \<open>None\<close> is a decoder that rejects
  its input, or a dictionary that no encoder or decoder accepts.
\<close>

record pack_env =
  pk_blake3 :: "string \<Rightarrow> string"
  pk_index :: "string \<Rightarrow> packIndex option" \<comment> \<open>\<open>json.Unmarshal\<close>, which leaves \<open>name\<close> empty\<close>
  pk_encode :: "string \<Rightarrow> string"
  pk_decode :: "string \<Rightarrow> string option"
  pk_dict_encoder :: "string \<Rightarrow> (string \<Rightarrow> string) option"
  pk_dict_decoder :: "string \<Rightarrow> (string \<Rightarrow> string option) option"

text \<open>
  An error of the component: a coded one, or a run-time panic (a slice of negative length), which
  nothing here recovers.
\<close>

datatype pack_error = PackPanic | PackCode ErrorCode

definition coded :: "'a result \<Rightarrow> pack_error + 'a" where
  "coded r = (case r of Inl e \<Rightarrow> Inl (PackCode e) | Inr x \<Rightarrow> Inr x)"

definition packDataPath :: "string \<Rightarrow> string" where
  "packDataPath name = name @ ''.pack''"

definition packIndexPath :: "string \<Rightarrow> string" where
  "packIndexPath name = name @ ''.idx.json''"

subsection \<open>Reading\<close>

definition readPackRange :: "directory \<Rightarrow> string \<Rightarrow> packEntry \<Rightarrow> pack_error + string" where
  "readPackRange packs packName entry = (case map_of packs (packDataPath packName) of
       None \<Rightarrow> Inl (PackCode CodeLocalStorage)
     | Some f \<Rightarrow>
         if pe_Length entry < 0 then Inl PackPanic
         else if pe_Offset entry < 0 then Inl (PackCode CodeLocalStorage)
         else if pe_Length entry = 0 then Inr []
         else if int (length (file_Contents f)) < pe_Offset entry + pe_Length entry
         then Inl (PackCode CodeLocalStorage)
         else Inr (take (nat (pe_Length entry)) (drop (nat (pe_Offset entry)) (file_Contents f))))"

definition decode_entry :: "pack_env \<Rightarrow> (string \<Rightarrow> string option) \<Rightarrow> string \<Rightarrow> string \<Rightarrow> pack_error + string" where
  "decode_entry env decode objectID compressed = (case decode compressed of
       None \<Rightarrow> Inl (PackCode CodeValidation)
     | Some contents \<Rightarrow> and_then (coded (validateObjectBytes (pk_blake3 env) objectID contents)) (\<lambda>_. Inr contents))"

definition decoderFor :: "pack_env \<Rightarrow> directory \<Rightarrow> packIndex \<Rightarrow> string \<Rightarrow> pack_error + (string \<Rightarrow> string option)" where
  "decoderFor env packs index objectID =
     (if objectID = pki_Dictionary index \<or> pki_Dictionary index = [] then Inr (pk_decode env)
      else case map_of (pki_Objects index) (pki_Dictionary index) of
        None \<Rightarrow> Inl (PackCode CodeValidation)
      | Some dictionaryEntry \<Rightarrow>
          and_then (readPackRange packs (pki_name index) dictionaryEntry) (\<lambda>compressed.
          and_then (decode_entry env (pk_decode env) (pki_Dictionary index) compressed) (\<lambda>dictionary.
          case pk_dict_decoder env dictionary of None \<Rightarrow> Inl (PackCode CodeLocalStorage) | Some decode \<Rightarrow> Inr decode)))"

definition readEntry :: "pack_env \<Rightarrow> directory \<Rightarrow> packIndex \<Rightarrow> string \<Rightarrow> packEntry \<Rightarrow> pack_error + string" where
  "readEntry env packs index objectID entry =
     and_then (readPackRange packs (pki_name index) entry) (\<lambda>compressed.
     and_then (decoderFor env packs index objectID) (\<lambda>decode.
     decode_entry env decode objectID compressed))"

definition readFromIndex :: "pack_env \<Rightarrow> directory \<Rightarrow> packIndex \<Rightarrow> string \<Rightarrow> pack_error + string option" where
  "readFromIndex env packs index objectID = (case map_of (pki_Objects index) objectID of
       None \<Rightarrow> Inr None
     | Some entry \<Rightarrow> and_then (readEntry env packs index objectID entry) (\<lambda>contents. Inr (Some contents)))"

primrec session_readObject :: "pack_env \<Rightarrow> directory \<Rightarrow> packIndex list \<Rightarrow> string \<Rightarrow> pack_error + string option" where
  "session_readObject env packs [] objectID = Inr None"
| "session_readObject env packs (index # indexes) objectID = (case map_of (pki_Objects index) objectID of
       None \<Rightarrow> session_readObject env packs indexes objectID
     | Some entry \<Rightarrow> and_then (readEntry env packs index objectID entry) (\<lambda>contents. Inr (Some contents)))"

subsection \<open>The catalog\<close>

definition TrimSuffix :: "string \<Rightarrow> string \<Rightarrow> string" where
  "TrimSuffix s suffix = (if HasSuffix s suffix then take (length s - length suffix) s else s)"

definition index_names :: "directory \<Rightarrow> string list" where
  "index_names packs = filter (\<lambda>name. HasSuffix name ''.idx.json'') (sort (map_keys packs))"

definition load_index :: "pack_env \<Rightarrow> directory \<Rightarrow> string \<Rightarrow> packIndex option" where
  "load_index env packs name = (case pk_index env (file_Contents (the (map_of packs name))) of
       None \<Rightarrow> None
     | Some index \<Rightarrow> if pki_Version index \<noteq> packIndexVersion then None
         else Some (index\<lparr>pki_name := TrimSuffix name ''.idx.json''\<rparr>))"

text \<open>\<open>loadPackCatalogIndexes\<close>, sorted by descending name.\<close>

definition loadPackIndexes :: "pack_env \<Rightarrow> directory \<Rightarrow> packIndex list" where
  "loadPackIndexes env packs = rev (sort_key pki_name (List.map_filter (load_index env packs) (index_names packs)))"

subsection \<open>Storage\<close>

text \<open>\<open>FileStorage\<close>: loose objects first, then packs.\<close>

definition storage_ReadObject :: "pack_env \<Rightarrow> string \<Rightarrow> remote_files \<Rightarrow> pack_error + string" where
  "storage_ReadObject env objectID files = (case fs_ReadObject (pk_blake3 env) objectID files of
       Inr contents \<Rightarrow> Inr contents
     | Inl e \<Rightarrow>
         if e \<noteq> CodeObjectMissing then Inl (PackCode e)
         else and_then (session_readObject env (fs_packs files) (loadPackIndexes env (fs_packs files)) objectID) (\<lambda>found.
           case found of Some contents \<Rightarrow> Inr contents | None \<Rightarrow> Inl (PackCode e)))"

definition listLooseObjects :: "remote_files \<Rightarrow> string list" where
  "listLooseObjects files = map (\<lambda>name. TrimSuffix name ''.json'')
     (filter (\<lambda>name. HasSuffix name ''.json'') (sort (map_keys (fs_objects files))))"

text \<open>\<open>ListObjects\<close>, with the iteration order of each index's objects.\<close>

definition first_occurrences :: "string list \<Rightarrow> string list" where
  "first_occurrences xs = rev (remdups (rev xs))"

definition ListObjects :: "map_order \<Rightarrow> pack_env \<Rightarrow> remote_files \<Rightarrow> string list" where
  "ListObjects ord env files =
     first_occurrences (listLooseObjects files
       @ concat (map (\<lambda>index. map fst (map_range ord 0 (pki_Objects index))) (loadPackIndexes env (fs_packs files))))"

subsection \<open>Writing\<close>

text \<open>A pack source; \<open>pks_Read\<close> is what its reader returns.\<close>

datatype pack_failure = RepackAborted | PackError pack_error

record packObjectSource =
  pks_ID :: string
  pks_Size :: int
  pks_StoredAt :: int
  pks_Read :: "pack_failure + string"

definition readPackSource :: "pack_env \<Rightarrow> packObjectSource \<Rightarrow> pack_failure + string" where
  "readPackSource env source = and_then (pks_Read source) (\<lambda>contents.
     case validateObjectBytes (pk_blake3 env) (pks_ID source) contents of
       Inl e \<Rightarrow> Inl (PackError (PackCode e)) | Inr _ \<Rightarrow> Inr contents)"

text \<open>The first of the largest sources is the dictionary.\<close>

definition larger_source :: "packObjectSource option \<Rightarrow> packObjectSource \<Rightarrow> packObjectSource option" where
  "larger_source best source = (case best of
       None \<Rightarrow> Some source
     | Some b \<Rightarrow> if pks_Size b < pks_Size source then Some source else best)"

definition dictionary_source :: "packObjectSource list \<Rightarrow> packObjectSource option" where
  "dictionary_source sources = foldl larger_source None sources"

text \<open>The loop over the sources: the entries of the index and the bytes of the pack so far.\<close>

definition pack_step :: "pack_env \<Rightarrow> int \<Rightarrow> string \<Rightarrow> string \<Rightarrow> (string \<Rightarrow> string) \<Rightarrow> packEntry gomap \<times> string
    \<Rightarrow> packObjectSource \<Rightarrow> pack_failure + (packEntry gomap \<times> string)" where
  "pack_step env defaultStoredAt dictionaryID dictionary encode = (\<lambda>(objects, bytes) source.
     and_then (if pks_ID source = dictionaryID then Inr dictionary else readPackSource env source) (\<lambda>contents.
     let compressed = (if pks_ID source = dictionaryID then pk_encode env contents else encode contents)
     in Inr (map_put (pks_ID source)
           \<lparr>pe_Offset = int (length bytes), pe_Length = int (length compressed),
             pe_StoredAt = (if pks_StoredAt source = 0 then defaultStoredAt else pks_StoredAt source),
             pe_RawSize = int (length contents)\<rparr> objects,
         bytes @ compressed)))"

definition entry_json :: "packEntry \<Rightarrow> json" where
  "entry_json e = JObject (fld ''offset'' (JInt (pe_Offset e)) @ fld ''length'' (JInt (pe_Length e))
     @ (if pe_StoredAt e = 0 then [] else fld ''stored_at'' (JInt (pe_StoredAt e)))
     @ (if pe_RawSize e = 0 then [] else fld ''raw_size'' (JInt (pe_RawSize e))))"

text \<open>A Go map is marshalled in the order of its keys.\<close>

definition index_json :: "packIndex \<Rightarrow> json" where
  "index_json i = JObject (fld ''version'' (JInt (pki_Version i)) @ fld_omit ''dictionary'' (pki_Dictionary i)
     @ fld ''objects'' (JObject (map (\<lambda>k. (k, entry_json (the (map_of (pki_Objects i) k)))) (sort (map_keys (pki_Objects i))))))"

text \<open>The contents of the pack and of its index; \<open>defaultStoredAt\<close> is the Unix time of the call.\<close>

definition build_pack :: "pack_env \<Rightarrow> int \<Rightarrow> packObjectSource list \<Rightarrow> pack_failure + (string \<times> packIndex)" where
  "build_pack env defaultStoredAt sources =
     (let sources = sort_key pks_ID sources
      in and_then (case dictionary_source sources of
             None \<Rightarrow> Inr ([], [], pk_encode env)
           | Some source \<Rightarrow>
               and_then (readPackSource env source) (\<lambda>dictionary.
               if pks_ID source = [] then Inr ([], dictionary, pk_encode env)
               else case pk_dict_encoder env dictionary of
                 None \<Rightarrow> Inl (PackError (PackCode CodeLocalStorage))
               | Some encode \<Rightarrow> Inr (pks_ID source, dictionary, encode)))
           (\<lambda>(dictionaryID, dictionary, encode).
         and_then (range_loop (pack_step env defaultStoredAt dictionaryID dictionary encode) ([], []) sources)
           (\<lambda>(objects, bytes).
         Inr (bytes, \<lparr>pki_Version = packIndexVersion, pki_Dictionary = dictionaryID, pki_Objects = objects,
           pki_name = []\<rparr>))))"

end
