(* ===== verification/Pack_Gc.thy ===== *)
theory Pack_Gc
  imports Pack_Files
begin

text \<open>
  Garbage collection of a repository on the server (remote/server/gc.go): objects that no ref
  reaches and that are older than the grace period are removed, reachable loose objects of that age
  and all packs are rewritten into one pack.  The disk is the sequence of the states the directory
  goes through, so that a crash between any two file operations is one of them.
\<close>

subsection \<open>Policy\<close>

record GCConfig =
  gcc_Auto :: "bool option"
  gcc_AutoThreshold :: int
  gcc_IntervalSeconds :: int
  gcc_GraceSeconds :: int

record MaintenancePolicy =
  mp_Auto :: bool
  mp_AutoThreshold :: int
  mp_Interval :: int
  mp_Grace :: int

definition resolve_auto :: "GCConfig \<Rightarrow> MaintenancePolicy \<Rightarrow> MaintenancePolicy" where
  "resolve_auto c p = (case gcc_Auto c of None \<Rightarrow> p | Some auto \<Rightarrow> p\<lparr>mp_Auto := auto\<rparr>)"

definition ResolveMaintenancePolicy :: "GCConfig option \<Rightarrow> MaintenancePolicy result" where
  "ResolveMaintenancePolicy config =
     (let policy = \<lparr>mp_Auto = True, mp_AutoThreshold = 512, mp_Interval = 0, mp_Grace = 14 * 24 * 3600 * Second\<rparr>
      in case config of
        None \<Rightarrow> Inr policy
      | Some c \<Rightarrow>
          let policy = resolve_auto c policy
          in if gcc_AutoThreshold c \<noteq> 0 \<and> gcc_AutoThreshold c < 1 then Inl CodeValidation
             else if gcc_GraceSeconds c \<noteq> 0 \<and> gcc_GraceSeconds c < 60 then Inl CodeValidation
             else if gcc_IntervalSeconds c \<noteq> 0 \<and> gcc_IntervalSeconds c < 1 then Inl CodeValidation
             else Inr (policy\<lparr>
               mp_AutoThreshold := (if gcc_AutoThreshold c = 0 then mp_AutoThreshold policy else gcc_AutoThreshold c),
               mp_Grace := (if gcc_GraceSeconds c = 0 then mp_Grace policy else gcc_GraceSeconds c * Second),
               mp_Interval := (if \<not> mp_Auto policy then 0
                 else if gcc_IntervalSeconds c = 0 then mp_Interval policy else gcc_IntervalSeconds c * Second)\<rparr>))"

subsection \<open>Reachability\<close>

record objectParents =
  opa_ParentID :: string
  opa_ParentIDs :: "string list"
  opa_LegacyParentID :: string

record gc_env =
  gc_pack :: pack_env
  gc_parents :: "string \<Rightarrow> objectParents option" \<comment> \<open>\<open>json.Unmarshal\<close> of an object\<close>

definition all_parents :: "gc_env \<Rightarrow> string \<Rightarrow> string list" where
  "all_parents env contents = (case gc_parents env contents of
       None \<Rightarrow> []
     | Some p \<Rightarrow> opa_ParentIDs p @ (if opa_ParentID p = [] then [] else [opa_ParentID p])
         @ (if opa_LegacyParentID p = [] then [] else [opa_LegacyParentID p]))"

text \<open>The loop over the queue; the outer \<open>None\<close> is a loop that ran out of fuel.\<close>

datatype reach_failure = ObjectMissing | ReachError pack_error

fun reach_loop :: "gc_env \<Rightarrow> remote_files \<Rightarrow> nat \<Rightarrow> string list \<Rightarrow> string list \<Rightarrow> (reach_failure + string list) option" where
  "reach_loop env files fuel reachable [] = Some (Inr reachable)"
| "reach_loop env files 0 reachable (oid # queue) = None"
| "reach_loop env files (Suc fuel) reachable (oid # queue) =
     (if oid \<in> set reachable then reach_loop env files (Suc fuel) reachable queue
      else case storage_ReadObject (gc_pack env) oid files of
        Inl e \<Rightarrow> Some (Inl (if e = PackCode CodeObjectMissing then ObjectMissing else ReachError e))
      | Inr contents \<Rightarrow> reach_loop env files fuel (oid # reachable) (queue @ all_parents env contents))"

subsection \<open>File operations\<close>

datatype file_op = RemoveLoose string | CreatePack string string | RemovePack string | RemoveIndex string

definition apply_op :: "go_time \<Rightarrow> file_op \<Rightarrow> remote_files \<Rightarrow> remote_files" where
  "apply_op now operation files = (case operation of
       RemoveLoose oid \<Rightarrow> files\<lparr>fs_objects := map_del (object_file oid) (fs_objects files)\<rparr>
     | CreatePack name bytes \<Rightarrow> files\<lparr>fs_packs := map_put (packDataPath name) \<lparr>file_Contents = bytes, file_ModTime = now\<rparr> (fs_packs files)\<rparr>
     | RemovePack name \<Rightarrow> files\<lparr>fs_packs := map_del (packDataPath name) (fs_packs files)\<rparr>
     | RemoveIndex name \<Rightarrow> files\<lparr>fs_packs := map_del (packIndexPath name) (fs_packs files)\<rparr>)"

text \<open>
  The disk: its present state first, then every earlier one.  An operation that fails (\<open>fails\<close>)
  leaves the disk as it is.
\<close>

type_synonym disk = "remote_files list"

definition perform :: "(file_op \<Rightarrow> bool) \<Rightarrow> go_time \<Rightarrow> file_op \<Rightarrow> disk \<Rightarrow> disk" where
  "perform fails now operation disk = (if fails operation then disk else apply_op now operation (hd disk) # disk)"

primrec perform_all :: "(file_op \<Rightarrow> bool) \<Rightarrow> go_time \<Rightarrow> file_op list \<Rightarrow> disk \<Rightarrow> disk" where
  "perform_all fails now [] disk = disk"
| "perform_all fails now (operation # operations) disk = perform_all fails now operations (perform fails now operation disk)"

subsection \<open>Collection\<close>

definition unix_seconds :: "go_time \<Rightarrow> int" where
  "unix_seconds t = (time_instant t - unix_epoch) div Second"

record gc_run =
  run_now :: go_time                    \<comment> \<open>the clock\<close>
  run_cutoff :: go_time                 \<comment> \<open>\<open>time.Now().Add(-grace)\<close>\<close>
  run_name :: string                    \<comment> \<open>the name of a new pack, from the clock\<close>
  run_fails :: "file_op \<Rightarrow> bool"        \<comment> \<open>the file operations that fail\<close>
  run_sync_fails :: bool                \<comment> \<open>the directory of a new pack cannot be synced\<close>
  run_index_fault :: write_fault        \<comment> \<open>what happens to the write of the index\<close>

definition packEntryAged :: "packEntry \<Rightarrow> go_time option \<Rightarrow> go_time \<Rightarrow> bool" where
  "packEntryAged entry modTime cutoff =
     (if pe_StoredAt entry \<noteq> 0 then pe_StoredAt entry \<le> unix_seconds cutoff
      else case modTime of None \<Rightarrow> False | Some t \<Rightarrow> not_after t cutoff)"

definition mod_time :: "directory \<Rightarrow> string \<Rightarrow> go_time option" where
  "mod_time dir name = map_option file_ModTime (map_of dir name)"

definition loose_aged :: "go_time \<Rightarrow> remote_files \<Rightarrow> string \<Rightarrow> bool" where
  "loose_aged cutoff files oid = (case mod_time (fs_objects files) (object_file oid) of
       None \<Rightarrow> False | Some t \<Rightarrow> not_after t cutoff)"

text \<open>The first loop of \<open>gcRepository\<close>: the aged reachable loose objects, and the unreachable ones that are removed.\<close>

definition loose_step :: "gc_run \<Rightarrow> string list \<Rightarrow> string list \<times> nat \<times> disk \<Rightarrow> string \<Rightarrow> string list \<times> nat \<times> disk" where
  "loose_step run reachable = (\<lambda>(agedReachable, deleted, disk) oid.
     let aged = loose_aged (run_cutoff run) (hd disk) oid
     in if oid \<in> set reachable then (if aged then agedReachable @ [oid] else agedReachable, deleted, disk)
        else if \<not> aged then (agedReachable, deleted, disk)
        else (agedReachable, if run_fails run (RemoveLoose oid) then deleted else deleted + 1,
              perform (run_fails run) (run_now run) (RemoveLoose oid) disk))"

text \<open>The loop of \<open>repackRepository\<close> over the entries of the indexes.\<close>

record repack_state =
  rp_dropped :: nat
  rp_rewrite :: bool
  rp_selected :: "string list"
  rp_sources :: "packObjectSource list"

definition packed_read :: "pack_env \<Rightarrow> directory \<Rightarrow> packIndex \<Rightarrow> string \<Rightarrow> pack_failure + string" where
  "packed_read env packs index oid = (case readFromIndex env packs index oid of
       Inl PackPanic \<Rightarrow> Inl (PackError PackPanic)
     | Inr (Some contents) \<Rightarrow> Inr contents
     | _ \<Rightarrow> Inl RepackAborted)"

definition entry_step :: "pack_env \<Rightarrow> directory \<Rightarrow> go_time \<Rightarrow> string list \<Rightarrow> packIndex \<Rightarrow> repack_state \<Rightarrow> string \<times> packEntry \<Rightarrow> repack_state" where
  "entry_step env packs cutoff reachable index = (\<lambda>st (oid, entry).
     let modTime = mod_time packs (packDataPath (pki_name index));
         drop = oid \<notin> set reachable \<and> packEntryAged entry modTime cutoff;
         st = (if drop then st\<lparr>rp_rewrite := True\<rparr> else st)
     in if oid \<in> set (rp_selected st) then st
        else if drop then st\<lparr>rp_dropped := rp_dropped st + 1\<rparr>
        else st\<lparr>rp_selected := oid # rp_selected st,
               rp_sources := rp_sources st @ [\<lparr>pks_ID = oid, pks_Size = pe_RawSize entry,
                 pks_StoredAt = (if pe_StoredAt entry = 0 then (case modTime of None \<Rightarrow> 0 | Some t \<Rightarrow> unix_seconds t)
                   else pe_StoredAt entry),
                 pks_Read = packed_read env packs index oid\<rparr>]\<rparr>)"

definition index_step :: "map_order \<Rightarrow> pack_env \<Rightarrow> directory \<Rightarrow> go_time \<Rightarrow> string list \<Rightarrow> repack_state \<Rightarrow> packIndex \<Rightarrow> repack_state" where
  "index_step ord env packs cutoff reachable st index =
     foldl (entry_step env packs cutoff reachable index) st (map_range ord 0 (pki_Objects index))"

text \<open>The loop over the aged reachable loose objects; the third component counts the moved ones.\<close>

definition moved_step :: "remote_files \<Rightarrow> repack_state \<times> nat \<Rightarrow> string \<Rightarrow> repack_state \<times> nat" where
  "moved_step files = (\<lambda>(st, movedCount) oid.
     if oid \<in> set (rp_selected st) then (st, movedCount)
     else let file = map_of (fs_objects files) (object_file oid)
       in (st\<lparr>rp_selected := oid # rp_selected st,
             rp_sources := rp_sources st @ [\<lparr>pks_ID = oid,
               pks_Size = (case file of None \<Rightarrow> 0 | Some f \<Rightarrow> int (length (file_Contents f))),
               pks_StoredAt = (case file of None \<Rightarrow> 0 | Some f \<Rightarrow> unix_seconds (file_ModTime f)),
               pks_Read = (case file of None \<Rightarrow> Inl RepackAborted | Some f \<Rightarrow> Inr (file_Contents f))\<rparr>]\<rparr>, movedCount + 1))"

text \<open>A source whose size is unknown is read once to measure it.\<close>

primrec measure_sources :: "packObjectSource list \<Rightarrow> pack_failure + packObjectSource list" where
  "measure_sources [] = Inr []"
| "measure_sources (source # sources) =
     and_then (if pks_Size source \<noteq> 0 then Inr source
       else and_then (pks_Read source) (\<lambda>contents. Inr (source\<lparr>pks_Size := int (length contents)\<rparr>))) (\<lambda>measured.
     and_then (measure_sources sources) (\<lambda>rest. Inr (measured # rest)))"

text \<open>
  Publishing a pack (the end of \<open>writePackSources\<close>): the data, then the index.  When a step fails,
  what was written is removed again, and that removal may fail too.
\<close>

definition discard_pack :: "gc_run \<Rightarrow> file_op list \<Rightarrow> disk \<Rightarrow> disk \<times> bool" where
  "discard_pack run operations disk = (perform_all (run_fails run) (run_now run) operations disk, False)"

definition publish_pack :: "gc_run \<Rightarrow> string \<Rightarrow> string option \<Rightarrow> disk \<Rightarrow> disk \<times> bool" where
  "publish_pack run bytes contents disk =
     (let name = run_name run
      in if run_fails run (CreatePack name bytes) then (disk, False)
         else let disk = perform (run_fails run) (run_now run) (CreatePack name bytes) disk
           in if run_sync_fails run then discard_pack run [RemovePack name] disk
              else case contents of
                None \<Rightarrow> discard_pack run [RemovePack name] disk
              | Some contents \<Rightarrow>
                (case WriteAtomic (run_index_fault run) (run_now run) (packIndexPath name) contents (fs_packs (hd disk)) of
                  (packs, written) \<Rightarrow>
                    let disk = (hd disk)\<lparr>fs_packs := packs\<rparr> # disk
                    in case written of
                         Inl _ \<Rightarrow> discard_pack run [RemoveIndex name, RemovePack name] disk
                       | Inr _ \<Rightarrow> (disk, True)))"

definition retire_ops :: "packIndex list \<Rightarrow> string list \<Rightarrow> file_op list" where
  "retire_ops indexes agedReachable =
     concat (map (\<lambda>index. [RemovePack (pki_name index), RemoveIndex (pki_name index)]) indexes)
     @ map RemoveLoose agedReachable"

definition repackRepository :: "map_order \<Rightarrow> gc_env \<Rightarrow> gc_run \<Rightarrow> string list \<Rightarrow> string list \<Rightarrow> disk
    \<Rightarrow> disk \<times> (pack_failure + (nat \<times> nat))" where
  "repackRepository ord env run reachable agedReachable disk =
     (let packs = fs_packs (hd disk);
          indexes = loadPackIndexes (gc_pack env) packs;
          st = foldl (index_step ord (gc_pack env) packs (run_cutoff run) reachable)
            \<lparr>rp_dropped = 0, rp_rewrite = agedReachable \<noteq> [] \<or> 1 < length indexes, rp_selected = [], rp_sources = []\<rparr> indexes;
          (st, movedCount) = foldl (moved_step (hd disk)) (st, 0) agedReachable
      in if \<not> rp_rewrite st then (disk, Inr (0, 0))
         else case measure_sources (rp_sources st) of
           Inl e \<Rightarrow> (disk, Inl e)
         | Inr sources \<Rightarrow>
           if sources = []
           then (perform_all (run_fails run) (run_now run) (retire_ops indexes agedReachable) disk, Inr (rp_dropped st, movedCount))
           else case build_pack (gc_pack env) (unix_seconds (run_now run)) sources of
             Inl e \<Rightarrow> (disk, Inl e)
           | Inr (bytes, index) \<Rightarrow>
             (case publish_pack run bytes (json_marshal (index_json index)) disk of
               (disk, published) \<Rightarrow>
                 if \<not> published then (disk, Inl (PackError (PackCode CodeLocalStorage)))
                 else (perform_all (run_fails run) (run_now run) (retire_ops indexes agedReachable) disk,
                   Inr (rp_dropped st, movedCount))))"

record GCRepositoryResult =
  gcr_Kept :: int
  gcr_Deleted :: int
  gcr_Packed :: int
  gcr_Aborted :: bool

definition gcRepository :: "map_order \<Rightarrow> gc_env \<Rightarrow> nat \<Rightarrow> gc_run \<Rightarrow> Ref list \<Rightarrow> remote_files \<Rightarrow> (disk \<times> (pack_error + GCRepositoryResult)) option" where
  "gcRepository ord env fuel run refs files =
     (let ids = ListObjects ord (gc_pack env) files
      in case reach_loop env files fuel [] (filter (\<lambda>oid. oid \<noteq> []) (map ref_CommitID refs)) of
           None \<Rightarrow> None
         | Some (Inl ObjectMissing) \<Rightarrow>
             Some ([files], Inr \<lparr>gcr_Kept = int (length ids), gcr_Deleted = 0, gcr_Packed = 0, gcr_Aborted = True\<rparr>)
         | Some (Inl (ReachError e)) \<Rightarrow> Some ([files], Inl e)
         | Some (Inr reachable) \<Rightarrow>
             let (agedReachable, deleted, disk) = foldl (loose_step run reachable) ([], 0, [files]) (listLooseObjects files)
             in case repackRepository ord env run reachable agedReachable disk of
                  (disk, Inl RepackAborted) \<Rightarrow>
                    Some (disk, Inr \<lparr>gcr_Kept = int (length ids) - int deleted, gcr_Deleted = int deleted, gcr_Packed = 0,
                      gcr_Aborted = True\<rparr>)
                | (disk, Inl (PackError e)) \<Rightarrow> Some (disk, Inl e)
                | (disk, Inr (dropped, movedCount)) \<Rightarrow>
                    Some (disk, Inr \<lparr>gcr_Kept = int (length ids) - int (deleted + dropped), gcr_Deleted = int (deleted + dropped),
                      gcr_Packed = int movedCount, gcr_Aborted = False\<rparr>))"

end
