(* ===== verification/Pack_Facts.thy ===== *)
theory Pack_Facts
  imports Pack_Gc
begin

text \<open>
  Facts about packs: what the catalog of a directory holds, that a pack that was built reads back,
  and which index an object is read from.
\<close>

subsection \<open>The catalog\<close>

lemma HasSuffix_append [simp]: "HasSuffix (s @ t) t"
  by (simp add: HasSuffix_def starts_with_def)

lemma HasSuffix_iff: "HasSuffix s t \<longleftrightarrow> (\<exists>r. s = r @ t)"
proof
  assume "HasSuffix s t"
  then have "rev s = rev t @ drop (length t) (rev s)"
    unfolding HasSuffix_def starts_with_def by (metis append_take_drop_id length_rev)
  then have "s = rev (drop (length t) (rev s)) @ t" unfolding rev_swap by simp
  then show "\<exists>r. s = r @ t" ..
qed auto

lemma TrimSuffix_append [simp]: "TrimSuffix (s @ t) t = s"
  by (simp add: TrimSuffix_def)

definition index_at :: "pack_env \<Rightarrow> directory \<Rightarrow> string \<Rightarrow> packIndex option" where
  "index_at env packs n = (if packIndexPath n \<in> dom (map_of packs) then load_index env packs (packIndexPath n) else None)"

lemma index_at_name: "index_at env packs n = Some i \<Longrightarrow> pki_name i = n"
  by (auto simp: index_at_def load_index_def packIndexPath_def Let_def split: if_splits option.splits)

lemma index_names_set: "set (index_names packs) = packIndexPath ` {n. packIndexPath n \<in> dom (map_of packs)}"
  unfolding index_names_def packIndexPath_def set_filter set_sort set_map_keys HasSuffix_iff by blast

lemma map_filter_set: "set (List.map_filter f xs) = {y. \<exists>x \<in> set xs. f x = Some y}"
  by (auto simp: List.map_filter_def) force

lemma catalog_set: "set (loadPackIndexes env packs) = {i. \<exists>n. index_at env packs n = Some i}"
proof -
  have "set (loadPackIndexes env packs) = {i. \<exists>x \<in> packIndexPath ` {n. packIndexPath n \<in> dom (map_of packs)}. load_index env packs x = Some i}"
    by (simp add: loadPackIndexes_def map_filter_set index_names_set)
  also have "\<dots> = {i. \<exists>n. index_at env packs n = Some i}" by (auto simp: index_at_def)
  finally show ?thesis .
qed

lemma catalog_names:
  assumes "wf_map packs"
  shows "distinct (map pki_name (loadPackIndexes env packs))" "sorted (rev (map pki_name (loadPackIndexes env packs)))"
proof -
  have keys: "distinct (index_names packs)" using assms by (simp add: index_names_def wf_map_def)
  have "distinct (map pki_name (List.map_filter (load_index env packs) xs))"
    if "distinct xs" "set xs \<subseteq> set (index_names packs)" for xs
    using that
  proof (induction xs)
    case (Cons x xs)
    show ?case
    proof (cases "load_index env packs x")
      case None
      with Cons show ?thesis by (simp add: List.map_filter_simps)
    next
      case (Some i)
      have name: "y = packIndexPath (pki_name j)" if "y \<in> set (x # xs)" "load_index env packs y = Some j" for y j
      proof -
        from that(1) Cons.prems(2) obtain n where "y = packIndexPath n" "packIndexPath n \<in> dom (map_of packs)"
          unfolding index_names_set by blast
        with that(2) index_at_name [of env packs n j] show ?thesis by (simp add: index_at_def)
      qed
      have "pki_name i \<noteq> pki_name j" if "y \<in> set xs" "load_index env packs y = Some j" for y j
      proof
        assume "pki_name i = pki_name j"
        then have "x = y" using name [of x i] name [of y j] that Some by simp
        then show False using that(1) Cons.prems(1) by simp
      qed
      then have "pki_name i \<notin> pki_name ` set (List.map_filter (load_index env packs) xs)"
        unfolding map_filter_set by blast
      with Cons Some show ?thesis by (simp add: List.map_filter_simps)
    qed
  qed (simp add: List.map_filter_simps)
  from this [OF keys] show "distinct (map pki_name (loadPackIndexes env packs))"
    by (simp add: loadPackIndexes_def distinct_map)
  show "sorted (rev (map pki_name (loadPackIndexes env packs)))"
    unfolding loadPackIndexes_def rev_map [symmetric] rev_rev_ident by (rule sorted_sort_key)
qed

text \<open>An object is read from the index with the greatest name among those that list it.\<close>

lemma session_skips:
  "\<forall>i \<in> set is. map_of (pki_Objects i) oid = None \<Longrightarrow> session_readObject env packs (is @ js) oid = session_readObject env packs js oid"
  by (induction "is") auto

lemma session_read_first:
  assumes "distinct (map pki_name is)" "sorted (rev (map pki_name is))" "i \<in> set is"
    and "map_of (pki_Objects i) oid = Some entry"
    and "\<And>j. j \<in> set is \<Longrightarrow> map_of (pki_Objects j) oid \<noteq> None \<Longrightarrow> pki_name j \<le> pki_name i"
  shows "session_readObject env packs is oid = and_then (readEntry env packs i oid entry) (\<lambda>contents. Inr (Some contents))"
proof -
  from assms(3) obtain us vs where us: "is = us @ i # vs" by (meson split_list)
  have "map_of (pki_Objects j) oid = None" if "j \<in> set us" for j
  proof (rule ccontr)
    assume j: "map_of (pki_Objects j) oid \<noteq> None"
    have "j \<in> set is" using that by (simp add: us)
    then have "pki_name j \<le> pki_name i" using j by (rule assms(5))
    moreover have "pki_name i \<le> pki_name j" using assms(2) that by (auto simp: us sorted_append)
    ultimately have "pki_name j = pki_name i" by simp
    then have "pki_name i \<in> pki_name ` set us" using that by (metis image_eqI)
    then show False using assms(1) by (simp add: us)
  qed
  then show ?thesis using assms(4) by (simp add: us session_skips)
qed

lemma session_none:
  "\<forall>i \<in> set is. map_of (pki_Objects i) oid = None \<Longrightarrow> session_readObject env packs is oid = Inr None"
  using session_skips [of "is" oid env packs "[]"] by simp

lemma session_found:
  assumes "session_readObject env packs is oid = Inr (Some c)"
  obtains i entry where "i \<in> set is" "map_of (pki_Objects i) oid = Some entry" "readEntry env packs i oid entry = Inr c"
  using assms
proof (induction "is")
  case (Cons i "is")
  then show ?case by (cases "map_of (pki_Objects i) oid") auto
qed simp

subsection \<open>The compressor\<close>

text \<open>
  What the server relies on: a decoder inverts the encoder with the same dictionary on objects of
  at most \<open>maxObjectRequestBytes\<close> bytes, and never returns tail than that; an index that was
  marshalled with object IDs as keys is unmarshalled to the same version, dictionary and entries.
\<close>

definition maxObjectRequestBytes :: nat where
  "maxObjectRequestBytes = 64 * 2 ^ 20"

definition small :: "string \<Rightarrow> bool" where
  "small contents \<longleftrightarrow> length contents \<le> maxObjectRequestBytes"

definition codec_ok :: "pack_env \<Rightarrow> bool" where
  "codec_ok env \<longleftrightarrow> (\<forall>x. small x \<longrightarrow> pk_decode env (pk_encode env x) = Some x)
     \<and> (\<forall>y x. pk_decode env y = Some x \<longrightarrow> small x)
     \<and> (\<forall>d encode. pk_dict_encoder env d = Some encode \<longrightarrow>
          (\<exists>decode. pk_dict_decoder env d = Some decode \<and> (\<forall>x. small x \<longrightarrow> decode (encode x) = Some x)))
     \<and> (\<forall>d decode. pk_dict_decoder env d = Some decode \<longrightarrow> (\<forall>y x. decode y = Some x \<longrightarrow> small x))"

definition same_index :: "packIndex \<Rightarrow> packIndex \<Rightarrow> bool" where
  "same_index i j \<longleftrightarrow> pki_Version i = pki_Version j \<and> pki_Dictionary i = pki_Dictionary j
     \<and> map_of (pki_Objects i) = map_of (pki_Objects j)"

definition index_codec_ok :: "pack_env \<Rightarrow> bool" where
  "index_codec_ok env \<longleftrightarrow> (\<forall>i contents. wf_map (pki_Objects i) \<longrightarrow> list_all canonical_id (map_keys (pki_Objects i)) \<longrightarrow>
     (pki_Dictionary i \<noteq> [] \<longrightarrow> canonical_id (pki_Dictionary i)) \<longrightarrow>
     json_marshal (index_json i) = Some contents \<longrightarrow> (\<exists>j. pk_index env contents = Some j \<and> same_index i j))"

subsection \<open>A pack that was built reads back\<close>

definition stored_at :: "packEntry \<Rightarrow> string \<Rightarrow> string \<Rightarrow> bool" where
  "stored_at e bytes chunk \<longleftrightarrow> pe_Length e = int (length chunk)
     \<and> (\<exists>pre post. bytes = pre @ chunk @ post \<and> pe_Offset e = int (length pre))"

lemma stored_at_append: "stored_at e bytes chunk \<Longrightarrow> stored_at e (bytes @ tail) chunk"
  unfolding stored_at_def by (metis append.assoc)

lemma read_stored:
  assumes "map_of packs (packDataPath n) = Some f" "stored_at e (file_Contents f) chunk"
  shows "readPackRange packs n e = Inr chunk"
proof -
  from assms(2) obtain pre post where e: "file_Contents f = pre @ chunk @ post" "pe_Offset e = int (length pre)"
    "pe_Length e = int (length chunk)" by (auto simp: stored_at_def)
  show ?thesis by (cases chunk) (simp_all add: readPackRange_def assms(1) e nat_add_distrib)
qed

text \<open>The contents of a source, and the chunk that is written for it.\<close>

definition source_contents :: "pack_env \<Rightarrow> string \<Rightarrow> string \<Rightarrow> packObjectSource \<Rightarrow> pack_failure + string" where
  "source_contents env dictionaryID dictionary source =
     (if pks_ID source = dictionaryID then Inr dictionary else readPackSource env source)"

definition source_chunk :: "pack_env \<Rightarrow> string \<Rightarrow> (string \<Rightarrow> string) \<Rightarrow> packObjectSource \<Rightarrow> string \<Rightarrow> string" where
  "source_chunk env dictionaryID encode source contents =
     (if pks_ID source = dictionaryID then pk_encode env contents else encode contents)"

lemma pack_step_run:
  "pack_step env t D dict encode (objects, bytes) s = and_then (source_contents env D dict s) (\<lambda>c.
     Inr (map_put (pks_ID s)
        \<lparr>pe_Offset = int (length bytes), pe_Length = int (length (source_chunk env D encode s c)),
          pe_StoredAt = (if pks_StoredAt s = 0 then t else pks_StoredAt s), pe_RawSize = int (length c)\<rparr> objects,
      bytes @ source_chunk env D encode s c))"
  by (simp add: pack_step_def source_contents_def source_chunk_def Let_def)

lemma pack_steps:
  assumes "range_loop (pack_step env t D dict encode) (objects, bytes) sources = Inr (objects', bytes')"
    and "distinct (map pks_ID sources)" "wf_map objects"
  shows "(\<exists>tail. bytes' = bytes @ tail) \<and> wf_map objects' \<and> set (map_keys objects') = set (map_keys objects) \<union> pks_ID ` set sources
    \<and> (\<forall>k. k \<notin> pks_ID ` set sources \<longrightarrow> map_of objects' k = map_of objects k)
    \<and> (\<forall>s \<in> set sources. \<exists>c e. source_contents env D dict s = Inr c \<and> map_of objects' (pks_ID s) = Some e
         \<and> stored_at e bytes' (source_chunk env D encode s c))"
  using assms
proof (induction sources arbitrary: objects bytes)
  case Nil
  then show ?case by simp
next
  case (Cons s rest)
  from Cons.prems(1) obtain c where c: "source_contents env D dict s = Inr c"
    by (auto simp: pack_step_run)
  let ?chunk = "source_chunk env D encode s c"
  let ?e = "\<lparr>pe_Offset = int (length bytes), pe_Length = int (length ?chunk),
      pe_StoredAt = (if pks_StoredAt s = 0 then t else pks_StoredAt s), pe_RawSize = int (length c)\<rparr>"
  have rest: "range_loop (pack_step env t D dict encode) (map_put (pks_ID s) ?e objects, bytes @ ?chunk) rest = Inr (objects', bytes')"
    using Cons.prems(1) c by (simp add: pack_step_run)
  have "distinct (map pks_ID rest)" "wf_map (map_put (pks_ID s) ?e objects)" using Cons.prems by simp_all
  note IH = Cons.IH [OF rest this]
  from IH obtain tail where tail: "bytes' = bytes @ ?chunk @ tail" by auto
  have "stored_at ?e bytes' ?chunk" unfolding stored_at_def tail by auto
  moreover have "map_of objects' (pks_ID s) = Some ?e" using IH Cons.prems(2) by simp
  ultimately have "\<exists>c e. source_contents env D dict s = Inr c \<and> map_of objects' (pks_ID s) = Some e
      \<and> stored_at e bytes' (source_chunk env D encode s c)" using c by blast
  with IH tail show ?case by auto
qed

lemma dictionary_source_set: "dictionary_source sources = Some s \<Longrightarrow> s \<in> set sources"
proof -
  have "foldl larger_source best sources = Some s \<Longrightarrow> s \<in> set sources \<or> best = Some s" for best
    by (induction sources arbitrary: best) (fastforce simp: larger_source_def split: option.splits if_splits)+
  then show "dictionary_source sources = Some s \<Longrightarrow> s \<in> set sources" unfolding dictionary_source_def by blast
qed

lemma dictionary_source_some: "sources \<noteq> [] \<Longrightarrow> dictionary_source sources \<noteq> None"
proof -
  have "foldl larger_source (Some b) xs \<noteq> None" for b xs
    by (induction xs arbitrary: b) (auto simp: larger_source_def)
  then show "sources \<noteq> [] \<Longrightarrow> dictionary_source sources \<noteq> None"
    unfolding dictionary_source_def by (cases sources) (simp_all add: larger_source_def)
qed

lemma readPackSource_ok:
  assumes "readPackSource env s = Inr c"
  shows "pks_Read s = Inr c" "validateObjectBytes (pk_blake3 env) (pks_ID s) c = Inr ()" "pks_ID s \<noteq> []"
proof -
  from assms obtain c' where c': "pks_Read s = Inr c'" by (auto simp: readPackSource_def)
  with assms show r: "pks_Read s = Inr c" and v: "validateObjectBytes (pk_blake3 env) (pks_ID s) c = Inr ()"
    by (simp_all add: readPackSource_def split: sum.splits)
  have "NormalizeContextCommitID [] = Inl CodeValidation" by (simp add: NormalizeContextCommitID_def)
  with v show "pks_ID s \<noteq> []" by (auto simp: validateObjectBytes_def)
qed

text \<open>The sources of a pack that was built were all read, with contents that belong to their IDs.\<close>

lemma build_pack_run:
  assumes "build_pack env t sources = Inr (bytes, index)" "sources \<noteq> []" "distinct (map pks_ID sources)"
  obtains D dict encode d where "d \<in> set sources" "pks_ID d = D" "readPackSource env d = Inr dict" "D \<noteq> []"
    "pk_dict_encoder env dict = Some encode" "pki_Dictionary index = D" "pki_Version index = packIndexVersion" "pki_name index = []"
    "wf_map (pki_Objects index)" "set (map_keys (pki_Objects index)) = pks_ID ` set sources"
    "\<And>s. s \<in> set sources \<Longrightarrow> \<exists>c e. readPackSource env s = Inr c \<and> map_of (pki_Objects index) (pks_ID s) = Some e
        \<and> stored_at e bytes (source_chunk env D encode s c)"
proof -
  let ?sorted = "sort_key pks_ID sources"
  from assms(2) obtain d where d: "dictionary_source ?sorted = Some d"
    using dictionary_source_some [of ?sorted] by (metis not_None_eq set_empty set_sort)
  then have dset: "d \<in> set sources" using dictionary_source_set by fastforce
  from assms(1) d obtain dict where dict: "readPackSource env d = Inr dict" by (auto simp: build_pack_def)
  note dok = readPackSource_ok [OF dict]
  from assms(1) d dict dok(3) obtain encode where encode: "pk_dict_encoder env dict = Some encode"
    by (cases "pk_dict_encoder env dict") (simp_all add: build_pack_def Let_def)
  from assms(1) d dict dok(3) encode obtain objects where
    loop: "range_loop (pack_step env t (pks_ID d) dict encode) ([], []) ?sorted = Inr (objects, bytes)"
    and index: "index = \<lparr>pki_Version = packIndexVersion, pki_Dictionary = pks_ID d, pki_Objects = objects, pki_name = []\<rparr>"
    by (cases "range_loop (pack_step env t (pks_ID d) dict encode) ([], []) ?sorted") (auto simp: build_pack_def Let_def)
  have dist: "distinct (map pks_ID ?sorted)" using assms(3) by (simp add: distinct_map)
  note steps = pack_steps [OF loop dist wf_map_Nil]
  have stored: "\<exists>c e. source_contents env (pks_ID d) dict s = Inr c \<and> map_of objects (pks_ID s) = Some e
      \<and> stored_at e bytes (source_chunk env (pks_ID d) encode s c)" if "s \<in> set sources" for s
    by (rule bspec [OF steps [THEN conjunct2, THEN conjunct2, THEN conjunct2, THEN conjunct2]]) (simp add: that)
  have contents: "source_contents env (pks_ID d) dict s = readPackSource env s" if "s \<in> set sources" for s
  proof (cases "pks_ID s = pks_ID d")
    case True
    then have "s = d" using assms(3) that dset by (auto simp: distinct_map inj_on_def)
    then show ?thesis using dict by (simp add: source_contents_def)
  qed (simp add: source_contents_def)
  show thesis
  proof (rule that [OF dset refl dict dok(3) encode])
    show "pki_Dictionary index = pks_ID d" "pki_Version index = packIndexVersion" "pki_name index = []" by (simp_all add: index)
    show "wf_map (pki_Objects index)" "set (map_keys (pki_Objects index)) = pks_ID ` set sources" using steps by (auto simp: index map_keys_def)
    show "\<exists>c e. readPackSource env s = Inr c \<and> map_of (pki_Objects index) (pks_ID s) = Some e
        \<and> stored_at e bytes (source_chunk env (pks_ID d) encode s c)" if "s \<in> set sources" for s
      using stored [OF that] by (simp add: contents [OF that] index)
  qed
qed

lemma built_pack_reads:
  assumes built: "build_pack env t sources = Inr (bytes, index)" and dist: "distinct (map pks_ID sources)" and s: "s \<in> set sources"
    and codec: "codec_ok env" and small: "\<And>s c. s \<in> set sources \<Longrightarrow> pks_Read s = Inr c \<Longrightarrow> small c"
    and data: "map_of packs (packDataPath (pki_name j)) = Some f" "file_Contents f = bytes" and j: "same_index index j"
  obtains c e where "pks_Read s = Inr c" "map_of (pki_Objects j) (pks_ID s) = Some e" "readEntry env packs j (pks_ID s) e = Inr c"
proof -
  have ne: "sources \<noteq> []" using s by auto
  obtain D dict encode d where d: "d \<in> set sources" "pks_ID d = D" "readPackSource env d = Inr dict" "D \<noteq> []"
    and encode: "pk_dict_encoder env dict = Some encode" and D: "pki_Dictionary index = D"
    and stored: "\<And>s. s \<in> set sources \<Longrightarrow> \<exists>c e. readPackSource env s = Inr c \<and> map_of (pki_Objects index) (pks_ID s) = Some e
        \<and> stored_at e bytes (source_chunk env D encode s c)"
    by (rule build_pack_run [OF built ne dist]) blast
  from codec encode obtain decode where decode: "pk_dict_decoder env dict = Some decode" "\<And>x. small x \<Longrightarrow> decode (encode x) = Some x"
    unfolding codec_ok_def by blast
  have plain: "pk_decode env (pk_encode env x) = Some x" if "small x" for x using codec that by (simp add: codec_ok_def)
  from stored [OF s] obtain c e where c: "readPackSource env s = Inr c" and e: "map_of (pki_Objects index) (pks_ID s) = Some e"
    "stored_at e bytes (source_chunk env D encode s c)" by blast
  note ok = readPackSource_ok [OF c] and okd = readPackSource_ok [OF d(3)]
  have smalls: "small c" "small dict" using small [OF s ok(1)] small [OF d(1) okd(1)] .
  from stored [OF d(1)] obtain ed where ed: "map_of (pki_Objects index) D = Some ed" "stored_at ed bytes (pk_encode env dict)"
    using d(2,3) by (auto simp: source_chunk_def)
  have read: "readPackRange packs (pki_name j) e' = Inr chunk" if "stored_at e' bytes chunk" for e' chunk
    using read_stored [OF data(1)] that data(2) by simp
  have jD: "pki_Dictionary j = D" "map_of (pki_Objects j) = map_of (pki_Objects index)" using j D by (simp_all add: same_index_def)
  have "readEntry env packs j (pks_ID s) e = Inr c"
  proof (cases "pks_ID s = D")
    case True
    then show ?thesis using read [OF e(2)] plain [OF smalls(1)] ok(2)
      by (simp add: readEntry_def decoderFor_def jD source_chunk_def decode_entry_def coded_def)
  next
    case False
    then have "decoderFor env packs j (pks_ID s) = Inr decode"
      using read [OF ed(2)] plain [OF smalls(2)] okd(2) d(2,4) decode(1) ed(1)
      by (simp add: decoderFor_def jD decode_entry_def coded_def)
    then show ?thesis using read [OF e(2)] decode(2) [OF smalls(1)] ok(2) False
      by (simp add: readEntry_def source_chunk_def decode_entry_def coded_def)
  qed
  then show thesis using that [OF ok(1)] e(1) jD(2) by simp
qed

end
