(* ===== verification/Gc_Facts.thy ===== *)
theory Gc_Facts
  imports Pack_Facts
begin

text \<open>
  What garbage collection does to the files: the objects that are reachable, the sources of the new
  pack, and the reads that every state of the disk keeps.
\<close>

subsection \<open>Reachability\<close>

inductive gc_reaches :: "gc_env \<Rightarrow> remote_files \<Rightarrow> string list \<Rightarrow> string \<Rightarrow> bool"
  for env :: gc_env and files :: remote_files and roots :: "string list"
where
  gc_root: "oid \<in> set roots \<Longrightarrow> gc_reaches env files roots oid"
| gc_parent: "gc_reaches env files roots oid \<Longrightarrow> storage_ReadObject (gc_pack env) oid files = Inr contents
    \<Longrightarrow> parent \<in> set (all_parents env contents) \<Longrightarrow> gc_reaches env files roots parent"

lemma reach_loop_closed:
  assumes "reach_loop env files fuel reachable queue = Some (Inr result)"
    and "\<And>oid contents. oid \<in> set reachable \<Longrightarrow> storage_ReadObject (gc_pack env) oid files = Inr contents
      \<Longrightarrow> set (all_parents env contents) \<subseteq> set reachable \<union> set queue"
  shows "set reachable \<union> set queue \<subseteq> set result
    \<and> (\<forall>oid \<in> set result. \<forall>contents. storage_ReadObject (gc_pack env) oid files = Inr contents \<longrightarrow> set (all_parents env contents) \<subseteq> set result)"
  using assms
proof (induction env files fuel reachable queue rule: reach_loop.induct)
  case (1 env files fuel reachable)
  then show ?case by auto
next
  case (2 env files reachable oid queue)
  then show ?case by simp
next
  case (3 env files fuel reachable oid queue)
  show ?case
  proof (cases "oid \<in> set reachable")
    case True
    have "set reachable \<union> set queue \<subseteq> set result \<and> (\<forall>oid \<in> set result. \<forall>contents.
        storage_ReadObject (gc_pack env) oid files = Inr contents \<longrightarrow> set (all_parents env contents) \<subseteq> set result)"
      by (rule "3.IH"(1) [OF True]) (use "3.prems" True in auto)
    with True show ?thesis by auto
  next
    case False
    with "3.prems"(1) obtain c where c: "storage_ReadObject (gc_pack env) oid files = Inr c"
      by (auto split: sum.splits)
    have "set (oid # reachable) \<union> set (queue @ all_parents env c) \<subseteq> set result \<and> (\<forall>oid \<in> set result. \<forall>contents.
        storage_ReadObject (gc_pack env) oid files = Inr contents \<longrightarrow> set (all_parents env contents) \<subseteq> set result)"
      by (rule "3.IH"(2) [OF False c]) (use "3.prems" False c in \<open>auto split: if_splits\<close>)
    then show ?thesis by auto
  qed
qed

lemma reach_loop_complete:
  assumes "reach_loop env files fuel [] roots = Some (Inr result)" "gc_reaches env files roots oid"
  shows "oid \<in> set result"
  using assms(2)
proof induction
  case (gc_root oid)
  then show ?case using reach_loop_closed [OF assms(1)] by auto
next
  case (gc_parent oid contents parent)
  then show ?case using reach_loop_closed [OF assms(1)] by auto
qed

text \<open>Every object that can be read takes at most one unit of fuel.\<close>

lemma reach_loop_returns:
  assumes "finite R" "\<And>oid contents. storage_ReadObject (gc_pack env) oid files = Inr contents \<Longrightarrow> oid \<in> R"
    and "card (R - set reachable) < fuel"
  shows "reach_loop env files fuel reachable queue \<noteq> None"
  using assms
proof (induction env files fuel reachable queue rule: reach_loop.induct)
  case (3 env files fuel reachable oid queue)
  show ?case
  proof (cases "oid \<in> set reachable")
    case True
    then show ?thesis using "3.IH"(1) [OF True "3.prems"] by simp
  next
    case False
    show ?thesis
    proof (cases "storage_ReadObject (gc_pack env) oid files")
      case (Inr c)
      have "oid \<in> R - set reachable" using "3.prems"(2) [OF Inr] False by simp
      then have "card (R - set (oid # reachable)) < card (R - set reachable)"
        using "3.prems"(1) by (metis Diff_insert card_Diff1_less finite_Diff list.set(2))
      with "3.prems"(3) have "card (R - set (oid # reachable)) < fuel" by linarith
      from "3.IH"(2) [OF False Inr "3.prems"(1,2) this] show ?thesis using False Inr by simp
    qed (simp add: False)
  qed
qed simp_all

subsection \<open>Reading\<close>

definition readable :: "pack_env \<Rightarrow> string \<Rightarrow> remote_files \<Rightarrow> bool" where
  "readable env oid files \<longleftrightarrow> (\<exists>contents. storage_ReadObject env oid files = Inr contents)"

lemma validate_code: "validateObjectBytes b3 oid c = Inl e \<Longrightarrow> canonical_id oid \<Longrightarrow> e = CodeValidation"
  by (auto simp: validateObjectBytes_def canonical_id_fixed split: if_splits)

lemma readable_loose:
  assumes "canonical_id oid" "map_of (fs_objects files) (object_file oid) = Some f"
  shows "readable env oid files \<longleftrightarrow> validateObjectBytes (pk_blake3 env) oid (file_Contents f) = Inr ()"
proof (cases "validateObjectBytes (pk_blake3 env) oid (file_Contents f)")
  case (Inl e)
  with validate_code [OF this assms(1)] show ?thesis using assms
    by (simp add: readable_def storage_ReadObject_def fs_ReadObject_def objectPath_def canonical_id_fixed)
next
  case (Inr u)
  then show ?thesis using assms
    by (simp add: readable_def storage_ReadObject_def fs_ReadObject_def objectPath_def canonical_id_fixed)
qed

lemma readable_packed:
  assumes "canonical_id oid" "map_of (fs_objects files) (object_file oid) = None"
  shows "readable env oid files \<longleftrightarrow> (\<exists>c. session_readObject env (fs_packs files) (loadPackIndexes env (fs_packs files)) oid = Inr (Some c))"
proof -
  have run: "storage_ReadObject env oid files = and_then (session_readObject env (fs_packs files) (loadPackIndexes env (fs_packs files)) oid)
      (\<lambda>found. case found of Some contents \<Rightarrow> Inr contents | None \<Rightarrow> Inl (PackCode CodeObjectMissing))"
    using assms by (simp add: storage_ReadObject_def fs_ReadObject_def objectPath_def canonical_id_fixed)
  show ?thesis unfolding readable_def run by (auto split: option.splits) force
qed

lemma object_file_inj [simp]: "object_file x = object_file y \<longleftrightarrow> x = y"
  by (simp add: object_file_def)

text \<open>File names of data and index files never clash.\<close>

lemma packDataPath_inj [simp]: "packDataPath x = packDataPath y \<longleftrightarrow> x = y"
  by (simp add: packDataPath_def)

lemma packIndexPath_inj [simp]: "packIndexPath x = packIndexPath y \<longleftrightarrow> x = y"
  by (simp add: packIndexPath_def)

lemma data_not_index [simp]: "packDataPath x \<noteq> packIndexPath y" "packIndexPath y \<noteq> packDataPath x"
proof -
  have "last (packDataPath x) \<noteq> last (packIndexPath y)" by (simp add: packDataPath_def packIndexPath_def)
  then show "packDataPath x \<noteq> packIndexPath y" "packIndexPath y \<noteq> packDataPath x" by auto
qed

lemma map_filter_cong: "(\<And>x. x \<in> set xs \<Longrightarrow> f x = g x) \<Longrightarrow> List.map_filter f xs = List.map_filter g xs"
  by (induction xs) (simp_all add: List.map_filter_simps split: option.splits)

text \<open>The catalog depends on the index files alone, and reading a pack on the data files of its indexes.\<close>

definition same_indexes :: "directory \<Rightarrow> directory \<Rightarrow> bool" where
  "same_indexes d d' \<longleftrightarrow> (\<forall>n. map_of d' (packIndexPath n) = map_of d (packIndexPath n))"

lemma catalog_cong:
  assumes "wf_map d" "wf_map d'" "same_indexes d d'"
  shows "loadPackIndexes env d' = loadPackIndexes env d"
proof -
  have "set (index_names d') = set (index_names d)"
    using assms(3) by (simp add: index_names_set same_indexes_def domIff)
  then have names: "index_names d' = index_names d"
    using assms(1,2) by (intro sorted_distinct_set_unique) (simp_all add: index_names_def wf_map_def sorted_filter [where f = id, simplified])
  have "load_index env d' n = load_index env d n" if "n \<in> set (index_names d)" for n
    using that assms(3) by (auto simp: index_names_set same_indexes_def load_index_def)
  then have "List.map_filter (load_index env d') (index_names d) = List.map_filter (load_index env d) (index_names d)"
    by (intro map_filter_cong) simp_all
  then show ?thesis by (simp add: loadPackIndexes_def names)
qed

lemma readEntry_cong:
  assumes "map_of d' (packDataPath (pki_name i)) = map_of d (packDataPath (pki_name i))"
  shows "readEntry env d' i oid e = readEntry env d i oid e"
proof -
  have "readPackRange d' (pki_name i) = readPackRange d (pki_name i)"
    by (rule ext) (simp add: readPackRange_def assms)
  then show ?thesis unfolding readEntry_def decoderFor_def by (rule ssubst) (rule refl)
qed

lemma session_cong:
  assumes "\<And>i. i \<in> set is \<Longrightarrow> map_of d' (packDataPath (pki_name i)) = map_of d (packDataPath (pki_name i))"
  shows "session_readObject env d' is oid = session_readObject env d is oid"
  using assms
proof (induction "is")
  case (Cons i "is")
  have "readEntry env d' i oid e = readEntry env d i oid e" for e by (rule readEntry_cong) (simp add: Cons.prems)
  moreover have "session_readObject env d' is oid = session_readObject env d is oid" by (rule Cons.IH) (simp add: Cons.prems)
  ultimately show ?case by (simp split: option.splits)
qed simp

text \<open>The names of the packs of a directory.\<close>

definition pack_names :: "directory \<Rightarrow> string set" where
  "pack_names d = {n. map_of d (packIndexPath n) \<noteq> None}"

lemma catalog_pack_names: "i \<in> set (loadPackIndexes env d) \<Longrightarrow> pki_name i \<in> pack_names d"
proof -
  assume "i \<in> set (loadPackIndexes env d)"
  then obtain n where n: "index_at env d n = Some i" by (auto simp: catalog_set)
  with index_at_name [OF n] show ?thesis by (auto simp: index_at_def pack_names_def split: if_splits)
qed


subsection \<open>The sources of the new pack\<close>

definition repack_inv :: "pack_env \<Rightarrow> repack_state \<Rightarrow> bool" where
  "repack_inv env st \<longleftrightarrow> set (rp_selected st) = pks_ID ` set (rp_sources st) \<and> distinct (map pks_ID (rp_sources st))
     \<and> (\<forall>s \<in> set (rp_sources st). canonical_id (pks_ID s)) \<and> (\<forall>s \<in> set (rp_sources st). \<forall>c. pks_Read s = Inr c \<longrightarrow> small c)"

lemma packed_read_small:
  assumes "codec_ok env" "packed_read env packs index oid = Inr c"
  shows "small c"
proof -
  from assms(2) obtain e where "readEntry env packs index oid e = Inr c"
    by (auto simp: packed_read_def readFromIndex_def split: sum.splits option.splits pack_error.splits)
  then obtain decode z where d: "decoderFor env packs index oid = Inr decode" "decode z = Some c"
    by (auto simp: readEntry_def decode_entry_def split: option.splits)
  then have "decode = pk_decode env \<or> (\<exists>dict. pk_dict_decoder env dict = Some decode)"
    by (auto simp: decoderFor_def split: if_splits option.splits)
  with assms(1) d(2) show ?thesis by (auto simp: codec_ok_def)
qed

lemma entry_step_inv:
  assumes "codec_ok env" "repack_inv env st" "canonical_id (fst kv)"
  shows "repack_inv env (entry_step env packs cutoff reachable index st kv)"
  using assms packed_read_small [OF assms(1)] by (cases kv) (auto simp: entry_step_def repack_inv_def Let_def)

lemma entry_step_grows: "set (rp_selected st) \<subseteq> set (rp_selected (entry_step env packs cutoff reachable index st kv))"
  by (cases kv) (auto simp: entry_step_def Let_def)

lemma entry_step_selects:
  assumes "oid \<in> set reachable \<or> \<not> packEntryAged e (mod_time packs (packDataPath (pki_name index))) cutoff"
  shows "oid \<in> set (rp_selected (entry_step env packs cutoff reachable index st (oid, e)))"
  using assms by (auto simp: entry_step_def Let_def)

lemma foldl_inv: "P s \<Longrightarrow> (\<And>s x. x \<in> set xs \<Longrightarrow> P s \<Longrightarrow> P (f s x)) \<Longrightarrow> P (foldl f s xs)"
  by (induction xs arbitrary: s) auto

lemma foldl_reaches:
  assumes "x \<in> set xs" "\<And>s. Q (f s x)" "\<And>s y. Q s \<Longrightarrow> Q (f s y)"
  shows "Q (foldl f s xs)"
proof -
  from assms(1) obtain us vs where "xs = us @ x # vs" by (meson split_list)
  then show ?thesis using assms(2) foldl_inv [of Q "f (foldl f s us) x" vs f] assms(3) by simp
qed

lemma index_step_grows: "x \<in> set (rp_selected st) \<Longrightarrow> x \<in> set (rp_selected (index_step ord env packs cutoff reachable st index))"
  unfolding index_step_def by (rule foldl_inv) (assumption, use entry_step_grows in blast)

lemma moved_step_inv:
  assumes "repack_inv env (fst acc)" "canonical_id oid"
    and "\<And>f. map_of (fs_objects files) (object_file oid) = Some f \<Longrightarrow> small (file_Contents f)"
  shows "repack_inv env (fst (moved_step files acc oid))"
  using assms by (cases acc) (auto simp: moved_step_def repack_inv_def Let_def split: option.splits)

lemma moved_step_grows: "x \<in> set (rp_selected (fst acc)) \<Longrightarrow> x \<in> set (rp_selected (fst (moved_step files acc oid)))"
  by (cases acc) (auto simp: moved_step_def Let_def)

lemma moved_step_selects: "oid \<in> set (rp_selected (fst (moved_step files acc oid)))"
  by (cases acc) (auto simp: moved_step_def Let_def)

lemma measured:
  "measure_sources xs = Inr ys \<Longrightarrow> map pks_ID ys = map pks_ID xs \<and> map pks_Read ys = map pks_Read xs"
  by (induction xs arbitrary: ys) (auto split: if_splits)

definition packed_by :: "map_order \<Rightarrow> gc_env \<Rightarrow> gc_run \<Rightarrow> string list \<Rightarrow> string list \<Rightarrow> remote_files \<Rightarrow> repack_state \<times> nat" where
  "packed_by ord env run reachable agedReachable files =
     foldl (moved_step files) (foldl (index_step ord (gc_pack env) (fs_packs files) (run_cutoff run) reachable)
       \<lparr>rp_dropped = 0, rp_rewrite = agedReachable \<noteq> [] \<or> 1 < length (loadPackIndexes (gc_pack env) (fs_packs files)),
         rp_selected = [], rp_sources = []\<rparr> (loadPackIndexes (gc_pack env) (fs_packs files)), 0) agedReachable"

lemma packed_by_moved: "oid \<in> set agedReachable \<Longrightarrow> oid \<in> set (rp_selected (fst (packed_by ord env run reachable agedReachable files)))"
  unfolding packed_by_def
  by (rule foldl_reaches [where Q = "\<lambda>acc. oid \<in> set (rp_selected (fst acc))"]) (auto intro: moved_step_grows moved_step_selects)

context map_iteration begin

lemma index_step_inv:
  assumes "codec_ok env" "repack_inv env st" "list_all canonical_id (map_keys (pki_Objects index))"
  shows "repack_inv env (index_step ord env packs cutoff reachable st index)"
  unfolding index_step_def
proof (rule foldl_inv)
  fix st' kv assume "kv \<in> set (map_range ord 0 (pki_Objects index))"
  then have "canonical_id (fst kv)" using assms(3) by (auto simp: set_map_range list_all_iff)
  then show "repack_inv env st' \<Longrightarrow> repack_inv env (entry_step env packs cutoff reachable index st' kv)"
    using entry_step_inv [OF assms(1)] by blast
qed (rule assms(2))

lemma packed_by_inv:
  assumes "codec_ok (gc_pack env)" "\<And>i. i \<in> set (loadPackIndexes (gc_pack env) (fs_packs files)) \<Longrightarrow> list_all canonical_id (map_keys (pki_Objects i))"
    and "list_all canonical_id agedReachable"
    and "\<And>oid f. map_of (fs_objects files) (object_file oid) = Some f \<Longrightarrow> small (file_Contents f)"
  shows "repack_inv (gc_pack env) (fst (packed_by ord env run reachable agedReachable files))"
  unfolding packed_by_def
proof (rule foldl_inv [where P = "\<lambda>acc :: repack_state \<times> nat. repack_inv (gc_pack env) (fst acc)"], unfold fst_conv, rule foldl_inv)
  show "repack_inv (gc_pack env) \<lparr>rp_dropped = 0, rp_rewrite = agedReachable \<noteq> [] \<or> 1 < length (loadPackIndexes (gc_pack env) (fs_packs files)),
      rp_selected = [], rp_sources = []\<rparr>" by (simp add: repack_inv_def)
next
  fix acc :: "repack_state \<times> nat" and oid assume "oid \<in> set agedReachable" "repack_inv (gc_pack env) (fst acc)"
  then show "repack_inv (gc_pack env) (fst (moved_step files acc oid))"
    using assms(3,4) by (intro moved_step_inv) (auto simp: list_all_iff)
qed (rule index_step_inv [OF assms(1) _ assms(2)])

lemma index_step_selects:
  assumes "map_of (pki_Objects index) oid = Some e"
    and "oid \<in> set reachable \<or> \<not> packEntryAged e (mod_time packs (packDataPath (pki_name index))) cutoff"
  shows "oid \<in> set (rp_selected (index_step ord env packs cutoff reachable st index))"
  unfolding index_step_def
proof (rule foldl_reaches)
  show "(oid, e) \<in> set (map_range ord 0 (pki_Objects index))" using assms(1) by (simp add: set_map_range)
qed (use assms(2) entry_step_selects entry_step_grows in blast)+

lemma packed_by_indexed:
  assumes "index \<in> set (loadPackIndexes (gc_pack env) (fs_packs files))" "map_of (pki_Objects index) oid = Some e"
    and "oid \<in> set reachable \<or> \<not> packEntryAged e (mod_time (fs_packs files) (packDataPath (pki_name index))) (run_cutoff run)"
  shows "oid \<in> set (rp_selected (fst (packed_by ord env run reachable agedReachable files)))"
  unfolding packed_by_def
proof (rule foldl_inv)
  show "oid \<in> set (rp_selected (fst (foldl (index_step ord (gc_pack env) (fs_packs files) (run_cutoff run) reachable)
      \<lparr>rp_dropped = 0, rp_rewrite = agedReachable \<noteq> [] \<or> 1 < length (loadPackIndexes (gc_pack env) (fs_packs files)),
        rp_selected = [], rp_sources = []\<rparr> (loadPackIndexes (gc_pack env) (fs_packs files)), 0)))"
    unfolding fst_conv
    by (rule foldl_reaches [OF assms(1)]) (auto intro: index_step_selects [OF assms(2,3)] index_step_grows)
qed (rule moved_step_grows)

end

subsection \<open>The states of the disk\<close>

definition loose_kept :: "remote_files \<Rightarrow> string set \<Rightarrow> remote_files \<Rightarrow> bool" where
  "loose_kept files gone s \<longleftrightarrow> (\<forall>oid. map_of (fs_objects s) (object_file oid) = map_of (fs_objects files) (object_file oid)
     \<or> oid \<in> gone \<and> map_of (fs_objects s) (object_file oid) = None)"

text \<open>Until the index of the new pack is written, and from then on.\<close>

definition before_pack :: "remote_files \<Rightarrow> string set \<Rightarrow> string \<Rightarrow> remote_files \<Rightarrow> bool" where
  "before_pack files gone name s \<longleftrightarrow> wf_map (fs_packs s) \<and> same_indexes (fs_packs files) (fs_packs s)
     \<and> (\<forall>n. n \<noteq> name \<longrightarrow> map_of (fs_packs s) (packDataPath n) = map_of (fs_packs files) (packDataPath n))
     \<and> loose_kept files gone s"

definition after_pack :: "remote_files \<Rightarrow> string set \<Rightarrow> string \<Rightarrow> string \<Rightarrow> string \<Rightarrow> remote_files \<Rightarrow> bool" where
  "after_pack files gone name bytes contents s \<longleftrightarrow> wf_map (fs_packs s)
     \<and> map_option file_Contents (map_of (fs_packs s) (packDataPath name)) = Some bytes
     \<and> map_option file_Contents (map_of (fs_packs s) (packIndexPath name)) = Some contents
     \<and> (\<forall>n \<in> pack_names (fs_packs s). n \<le> name) \<and> loose_kept files gone s"

lemma loose_kept_refl: "loose_kept files gone files"
  by (simp add: loose_kept_def)

lemma loose_kept_mono: "loose_kept files gone s \<Longrightarrow> gone \<subseteq> gone' \<Longrightarrow> loose_kept files gone' s"
  by (auto simp: loose_kept_def)

lemma loose_kept_remove:
  "loose_kept files gone s \<Longrightarrow> oid \<in> gone \<Longrightarrow> loose_kept files gone (apply_op now (RemoveLoose oid) s)"
  by (simp add: loose_kept_def apply_op_def)

lemma loose_kept_packs: "loose_kept files gone s \<Longrightarrow> fs_objects s' = fs_objects s \<Longrightarrow> loose_kept files gone s'"
  by (simp add: loose_kept_def)

lemma before_refl: "wf_map (fs_packs files) \<Longrightarrow> before_pack files gone name files"
  by (simp add: before_pack_def same_indexes_def loose_kept_refl)

lemma before_remove:
  "before_pack files gone name s \<Longrightarrow> oid \<in> gone \<Longrightarrow> before_pack files gone name (apply_op now (RemoveLoose oid) s)"
  by (simp add: before_pack_def loose_kept_remove) (simp add: apply_op_def)

lemma before_create: "before_pack files gone name s \<Longrightarrow> before_pack files gone name (apply_op now (CreatePack name bytes) s)"
  by (auto simp: before_pack_def apply_op_def same_indexes_def loose_kept_def)

lemma before_discard:
  "before_pack files gone name s \<Longrightarrow> name \<notin> pack_names (fs_packs files) \<Longrightarrow> before_pack files gone name (apply_op now (RemovePack name) s)"
  "before_pack files gone name s \<Longrightarrow> name \<notin> pack_names (fs_packs files) \<Longrightarrow> before_pack files gone name (apply_op now (RemoveIndex name) s)"
  by (auto simp: before_pack_def apply_op_def same_indexes_def loose_kept_def pack_names_def)

text \<open>Before the index is written every object reads as it did.\<close>

lemma before_read:
  assumes "before_pack files gone name s" "wf_map (fs_packs files)" "name \<notin> pack_names (fs_packs files)"
    and "canonical_id oid" "oid \<notin> gone"
  shows "storage_ReadObject env oid s = storage_ReadObject env oid files"
proof -
  let ?is = "loadPackIndexes env (fs_packs files)"
  have catalog: "loadPackIndexes env (fs_packs s) = ?is"
    using assms(1,2) by (intro catalog_cong) (simp_all add: before_pack_def)
  have sess: "session_readObject env (fs_packs s) ?is oid = session_readObject env (fs_packs files) ?is oid"
  proof (rule session_cong)
    fix i assume "i \<in> set ?is"
    then have "pki_name i \<noteq> name" using catalog_pack_names assms(3) by blast
    then show "map_of (fs_packs s) (packDataPath (pki_name i)) = map_of (fs_packs files) (packDataPath (pki_name i))"
      using assms(1) by (simp add: before_pack_def)
  qed
  have loose: "map_of (fs_objects s) (object_file oid) = map_of (fs_objects files) (object_file oid)"
    using assms(1,5) by (auto simp: before_pack_def loose_kept_def)
  have path: "objectPath oid = Inr (object_file oid)" using assms(4) by (simp add: objectPath_def canonical_id_fixed)
  show ?thesis unfolding storage_ReadObject_def fs_ReadObject_def path and_then.simps loose catalog sess ..
qed

text \<open>From then on the objects of the new pack are read from it.\<close>

lemma index_keys:
  assumes "build_pack env t sources = Inr (bytes, index)" "distinct (map pks_ID sources)" "sources \<noteq> []"
    and canonical: "\<And>s. s \<in> set sources \<Longrightarrow> canonical_id (pks_ID s)"
  shows "wf_map (pki_Objects index)" "list_all canonical_id (map_keys (pki_Objects index))" "pki_Version index = packIndexVersion"
    "pki_Dictionary index \<noteq> [] \<Longrightarrow> canonical_id (pki_Dictionary index)"
proof -
  obtain D dict encode d where facts: "wf_map (pki_Objects index)" "set (map_keys (pki_Objects index)) = pks_ID ` set sources"
    "pki_Version index = packIndexVersion" "d \<in> set sources" "pks_ID d = D" "pki_Dictionary index = D"
    using build_pack_run [OF assms(1,3,2)] by metis
  from facts(1,3) show "wf_map (pki_Objects index)" "pki_Version index = packIndexVersion" .
  from facts(2) canonical show "list_all canonical_id (map_keys (pki_Objects index))" by (auto simp: list_all_iff)
  from canonical [OF facts(4)] facts(5,6) show "canonical_id (pki_Dictionary index)" by simp
qed

lemma after_read:
  assumes after: "after_pack files gone name bytes contents s"
    and built: "build_pack env t sources = Inr (bytes, index)" "distinct (map pks_ID sources)"
    and marshal: "json_marshal (index_json index) = Some contents"
    and codecs: "codec_ok env" "index_codec_ok env" and small: "\<And>s c. s \<in> set sources \<Longrightarrow> pks_Read s = Inr c \<Longrightarrow> small c"
    and canonical: "\<And>s. s \<in> set sources \<Longrightarrow> canonical_id (pks_ID s)"
    and source: "source \<in> set sources" "pks_ID source = oid"
    and oid: "canonical_id oid" "map_of (fs_objects s) (object_file oid) = None"
  shows "readable env oid s"
proof -
  let ?d = "fs_packs s" and ?is = "loadPackIndexes env (fs_packs s)"
  have ne: "sources \<noteq> []" using source by auto
  note keys = index_keys [OF built ne canonical]
  from codecs(2) keys(1,2,4) marshal obtain j0 where j0: "pk_index env contents = Some j0" "same_index index j0"
    unfolding index_codec_ok_def by blast
  let ?j = "j0\<lparr>pki_name := name\<rparr>"
  from after obtain f g where f: "map_of ?d (packDataPath name) = Some f" "file_Contents f = bytes"
    and g: "map_of ?d (packIndexPath name) = Some g" "file_Contents g = contents" by (auto simp: after_pack_def)
  have "index_at env ?d name = Some ?j" using g j0 keys(3)
    by (simp add: index_at_def load_index_def domIff same_index_def) (simp add: packIndexPath_def)
  then have j: "?j \<in> set ?is" by (auto simp: catalog_set)
  obtain c e where read: "map_of (pki_Objects ?j) oid = Some e" "readEntry env ?d ?j oid e = Inr c"
  proof (rule built_pack_reads [OF built source(1) codecs(1), where packs = ?d and j = ?j])
    show "same_index index ?j" using j0(2) by (simp add: same_index_def)
    show "map_of ?d (packDataPath (pki_name ?j)) = Some f" "file_Contents f = bytes" using f by simp_all
  qed (use small source(2) that in auto)
  have greatest: "pki_name i \<le> pki_name ?j" if "i \<in> set ?is" for i
    using catalog_pack_names [OF that] after by (simp add: after_pack_def)
  have "wf_map ?d" using after by (simp add: after_pack_def)
  from session_read_first [OF catalog_names [OF this] j read(1) greatest] read(2)
  have "session_readObject env ?d ?is oid = Inr (Some c)" by simp
  then show ?thesis using readable_packed [OF oid] by blast
qed

end
