(* ===== verification/Gc_Properties.thy ===== *)
theory Gc_Properties
  imports Gc_Facts
begin

text \<open>
  Garbage collection keeps every object that a ref reaches and every object that is younger than
  the grace period, in every state the disk goes through and whatever file operation fails.
\<close>

subsection \<open>Hypotheses\<close>

definition gc_roots :: "Ref list \<Rightarrow> string list" where
  "gc_roots refs = filter (\<lambda>oid. oid \<noteq> []) (map ref_CommitID refs)"

text \<open>An object that a collection must keep.\<close>

definition gc_protected :: "gc_env \<Rightarrow> gc_run \<Rightarrow> Ref list \<Rightarrow> remote_files \<Rightarrow> string \<Rightarrow> bool" where
  "gc_protected env run refs files oid \<longleftrightarrow> gc_reaches env files (gc_roots refs) oid
     \<or> (case map_of (fs_objects files) (object_file oid) of
          Some f \<Rightarrow> \<not> not_after (file_ModTime f) (run_cutoff run)
        | None \<Rightarrow> \<exists>i \<in> set (loadPackIndexes (gc_pack env) (fs_packs files)). \<exists>e. map_of (pki_Objects i) oid = Some e
            \<and> \<not> packEntryAged e (mod_time (fs_packs files) (packDataPath (pki_name i))) (run_cutoff run))"

text \<open>Objects are filed under their canonical IDs.\<close>

definition filed :: "pack_env \<Rightarrow> remote_files \<Rightarrow> bool" where
  "filed env files \<longleftrightarrow> (\<forall>oid. map_of (fs_objects files) (object_file oid) \<noteq> None \<longrightarrow> canonical_id oid)
     \<and> (\<forall>i \<in> set (loadPackIndexes env (fs_packs files)). list_all canonical_id (map_keys (pki_Objects i)))"

text \<open>
  The clock names a new pack after every pack there is, loose objects have at most the size the
  server accepts, and an index that was written but could not be synced can be removed again.
\<close>

definition gc_ready :: "gc_env \<Rightarrow> gc_run \<Rightarrow> remote_files \<Rightarrow> bool" where
  "gc_ready env run files \<longleftrightarrow> codec_ok (gc_pack env) \<and> index_codec_ok (gc_pack env) \<and> wf_map (fs_packs files) \<and> filed (gc_pack env) files
     \<and> (\<forall>n \<in> pack_names (fs_packs files). n < run_name run)
     \<and> (\<forall>oid f. map_of (fs_objects files) (object_file oid) = Some f \<longrightarrow> small (file_Contents f))
     \<and> (run_index_fault run = DirectorySyncFails \<longrightarrow> \<not> run_fails run (RemoveIndex (run_name run)))"

lemma gc_ready_facts:
  assumes "gc_ready env run files"
  shows "codec_ok (gc_pack env)" "index_codec_ok (gc_pack env)" "wf_map (fs_packs files)"
    "\<And>n. n \<in> pack_names (fs_packs files) \<Longrightarrow> n < run_name run" "run_name run \<notin> pack_names (fs_packs files)"
    "\<And>oid f. map_of (fs_objects files) (object_file oid) = Some f \<Longrightarrow> small (file_Contents f)"
    "run_index_fault run = DirectorySyncFails \<Longrightarrow> \<not> run_fails run (RemoveIndex (run_name run))"
    "\<And>oid f. map_of (fs_objects files) (object_file oid) = Some f \<Longrightarrow> canonical_id oid"
    "\<And>i. i \<in> set (loadPackIndexes (gc_pack env) (fs_packs files)) \<Longrightarrow> list_all canonical_id (map_keys (pki_Objects i))"
  using assms by (auto simp: gc_ready_def filed_def)

subsection \<open>The loop over the loose objects\<close>

definition unreached :: "gc_run \<Rightarrow> string list \<Rightarrow> remote_files \<Rightarrow> string set" where
  "unreached run reachable files = {oid. oid \<notin> set reachable \<and> loose_aged (run_cutoff run) files oid}"

definition loose_inv :: "gc_run \<Rightarrow> string list \<Rightarrow> remote_files \<Rightarrow> string list \<times> nat \<times> disk \<Rightarrow> bool" where
  "loose_inv run reachable files = (\<lambda>(agedReachable, deleted, disk). set agedReachable \<subseteq> set reachable \<and> disk \<noteq> []
     \<and> (\<forall>oid \<in> set agedReachable. map_of (fs_objects files) (object_file oid) \<noteq> None)
     \<and> (\<forall>s \<in> set disk. before_pack files (unreached run reachable files) (run_name run) s \<and> fs_packs s = fs_packs files))"

lemma loose_aged_kept: "loose_kept files gone s \<Longrightarrow> loose_aged cutoff s oid \<Longrightarrow> loose_aged cutoff files oid"
proof -
  assume kept: "loose_kept files gone s" and aged: "loose_aged cutoff s oid"
  from kept have "map_of (fs_objects s) (object_file oid) = map_of (fs_objects files) (object_file oid) \<or> map_of (fs_objects s) (object_file oid) = None"
    unfolding loose_kept_def by (elim allE [of _ oid]) auto
  with aged show ?thesis by (auto simp: loose_aged_def mod_time_def)
qed

lemma loose_step_inv: "loose_inv run reachable files acc \<Longrightarrow> loose_inv run reachable files (loose_step run reachable acc oid)"
proof -
  obtain agedReachable deleted disk where acc: "acc = (agedReachable, deleted, disk)" by (cases acc)
  assume inv: "loose_inv run reachable files acc"
  then have hd: "hd disk \<in> set disk" by (simp add: acc loose_inv_def)
  with inv have before: "before_pack files (unreached run reachable files) (run_name run) (hd disk)" "fs_packs (hd disk) = fs_packs files"
    by (auto simp: acc loose_inv_def)
  from before(1) have kept: "loose_kept files (unreached run reachable files) (hd disk)" by (simp add: before_pack_def)
  have "before_pack files (unreached run reachable files) (run_name run) (apply_op (run_now run) (RemoveLoose oid) (hd disk))"
    if "oid \<notin> set reachable" "loose_aged (run_cutoff run) (hd disk) oid"
    by (rule before_remove [OF before(1)]) (use that loose_aged_kept [OF kept] in \<open>simp add: unreached_def\<close>)
  moreover have "fs_packs (apply_op (run_now run) (RemoveLoose oid) (hd disk)) = fs_packs files"
    using before(2) by (simp add: apply_op_def)
  moreover have "map_of (fs_objects files) (object_file oid) \<noteq> None" if "loose_aged (run_cutoff run) (hd disk) oid"
    using loose_aged_kept [OF kept that] by (auto simp: loose_aged_def mod_time_def split: option.splits)
  ultimately show ?thesis using inv by (auto simp: acc loose_inv_def loose_step_def Let_def perform_def)
qed

lemma loose_phase:
  assumes "wf_map (fs_packs files)"
  shows "loose_inv run reachable files (foldl (loose_step run reachable) ([], 0, [files]) xs)"
proof (rule foldl_inv)
  show "loose_inv run reachable files ([], 0, [files])" by (simp add: loose_inv_def before_refl assms)
qed (rule loose_step_inv)

subsection \<open>The loop over the packs\<close>

lemma perform_all_inv:
  assumes "Q (hd disk)" "\<And>operation s. operation \<in> set operations \<Longrightarrow> Q s \<Longrightarrow> Q (apply_op now operation s)"
  shows "Q (hd (perform_all fails now operations disk)) \<and> (\<forall>s \<in> set (perform_all fails now operations disk). s \<in> set disk \<or> Q s)"
  using assms
proof (induction operations arbitrary: disk)
  case (Cons operation operations)
  have "Q (hd (perform fails now operation disk))" using Cons.prems by (simp add: perform_def)
  from Cons.IH [OF this] Cons.prems show ?case by (fastforce simp: perform_def split: if_splits)
qed simp

lemma after_retire:
  assumes after: "after_pack files gone name bytes contents s" and op: "operation \<in> set (retire_ops indexes agedReachable)"
    and names: "\<And>i. i \<in> set indexes \<Longrightarrow> pki_name i < name" and aged: "set agedReachable \<subseteq> gone"
  shows "after_pack files gone name bytes contents (apply_op now operation s)"
proof -
  from op consider i where "i \<in> set indexes" "operation = RemovePack (pki_name i) \<or> operation = RemoveIndex (pki_name i)"
    | oid where "oid \<in> gone" "operation = RemoveLoose oid"
    using aged by (auto simp: retire_ops_def)
  then show ?thesis
  proof cases
    case 1
    then have "pki_name i \<noteq> name" using names by force
    with 1 after show ?thesis by (auto simp: after_pack_def apply_op_def pack_names_def loose_kept_def split: if_splits)
  next
    case 2
    with after loose_kept_remove show ?thesis by (auto simp: after_pack_def apply_op_def)
  qed
qed

lemma kept_retire:
  "loose_kept files gone s \<Longrightarrow> operation \<in> set (retire_ops indexes agedReachable) \<Longrightarrow> set agedReachable \<subseteq> gone
    \<Longrightarrow> loose_kept files gone (apply_op now operation s)"
  by (auto simp: retire_ops_def loose_kept_remove) (auto simp: apply_op_def loose_kept_def)

lemma after_create:
  assumes "before_pack files gone name s" "map_of (fs_packs s) (packDataPath name) = Some f" "file_Contents f = bytes"
    and "\<And>n. n \<in> pack_names (fs_packs files) \<Longrightarrow> n < name"
  shows "after_pack files gone name bytes contents
    (s\<lparr>fs_packs := map_put (packIndexPath name) \<lparr>file_Contents = contents, file_ModTime = now\<rparr> (fs_packs s)\<rparr>)"
  using assms
  by (auto simp: before_pack_def after_pack_def pack_names_def same_indexes_def loose_kept_def domIff intro: less_imp_le)

lemma before_undo:
  assumes "before_pack files gone name s" "name \<notin> pack_names (fs_packs files)"
  shows "before_pack files gone name (apply_op now (RemoveIndex name)
    (s\<lparr>fs_packs := map_put (packIndexPath name) \<lparr>file_Contents = contents, file_ModTime = now\<rparr> (fs_packs s)\<rparr>))"
  using assms by (auto simp: before_pack_def apply_op_def same_indexes_def loose_kept_def pack_names_def)


text \<open>What a state of the disk is like once the sources of the new pack are known.\<close>

definition gc_state :: "gc_env \<Rightarrow> gc_run \<Rightarrow> remote_files \<Rightarrow> string set \<Rightarrow> string list \<Rightarrow> packObjectSource list \<Rightarrow> remote_files \<Rightarrow> bool" where
  "gc_state env run files gone agedReachable sources s \<longleftrightarrow> before_pack files gone (run_name run) s
     \<or> (\<exists>t bytes index contents. build_pack (gc_pack env) t sources = Inr (bytes, index) \<and> json_marshal (index_json index) = Some contents
         \<and> after_pack files (gone \<union> set agedReachable) (run_name run) bytes contents s)
     \<or> sources = [] \<and> loose_kept files (gone \<union> set agedReachable) s"

lemma publish_states:
  assumes publish: "publish_pack run bytes contents disk = (disk', published)"
    and before: "before_pack files gone (run_name run) (hd disk)" and ready: "gc_ready env run files"
  shows "\<forall>s \<in> set disk'. s \<in> set disk \<or> before_pack files gone (run_name run) s
      \<or> (\<exists>c. contents = Some c \<and> after_pack files gone (run_name run) bytes c s)"
    and "published \<Longrightarrow> \<exists>c. contents = Some c \<and> after_pack files gone (run_name run) bytes c (hd disk')"
proof -
  let ?name = "run_name run" and ?B = "before_pack files gone (run_name run)"
  note facts = gc_ready_facts [OF ready]
  let ?d1 = "apply_op (run_now run) (CreatePack ?name bytes) (hd disk) # disk"
  have b1: "?B (hd ?d1)" by (simp add: before_create before)
  have data: "map_of (fs_packs (hd ?d1)) (packDataPath ?name) = Some \<lparr>file_Contents = bytes, file_ModTime = run_now run\<rparr>"
    by (simp add: apply_op_def)
  have discard: "s \<in> set disk0 \<or> ?B s" if "s \<in> set (fst (discard_pack run ops disk0))" "?B (hd disk0)"
      "set ops \<subseteq> {RemovePack ?name, RemoveIndex ?name}" for s ops disk0
    using perform_all_inv [where Q = ?B, of disk0 ops "run_now run" "run_fails run"] that before_discard [OF _ facts(5)]
    by (fastforce simp: discard_pack_def)
  let ?after = "\<lambda>c. (hd ?d1)\<lparr>fs_packs := map_put (packIndexPath ?name) \<lparr>file_Contents = c, file_ModTime = run_now run\<rparr> (fs_packs (hd ?d1))\<rparr>"
  have a: "after_pack files gone ?name bytes c (?after c)" for c
    by (rule after_create [OF b1 data]) (simp_all add: facts(4))
  have undo: "s = ?after c \<or> s \<in> set ?d1 \<or> ?B s"
    if "s \<in> set (fst (discard_pack run [RemoveIndex ?name, RemovePack ?name] (?after c # ?d1)))" "run_index_fault run = DirectorySyncFails" for s c
  proof -
    have "\<not> run_fails run (RemoveIndex ?name)" using facts(7) that(2) by simp
    then have "fst (discard_pack run [RemoveIndex ?name, RemovePack ?name] (?after c # ?d1))
        = fst (discard_pack run [RemovePack ?name] (apply_op (run_now run) (RemoveIndex ?name) (?after c) # ?after c # ?d1))"
      by (simp add: discard_pack_def perform_def)
    with that(1) discard [of s "[RemovePack ?name]" "apply_op (run_now run) (RemoveIndex ?name) (?after c) # ?after c # ?d1"]
      before_undo [OF b1 facts(5)] show ?thesis by auto
  qed
  consider (unwritten) "disk' = disk" "\<not> published"
    | (unsynced) "disk' = fst (discard_pack run [RemovePack ?name] ?d1)" "\<not> published"
    | (no_index) "disk' = fst (discard_pack run [RemoveIndex ?name, RemovePack ?name] (hd ?d1 # ?d1))" "\<not> published"
    | (undone) c where "contents = Some c" "run_index_fault run = DirectorySyncFails" "\<not> published"
        "disk' = fst (discard_pack run [RemoveIndex ?name, RemovePack ?name] (?after c # ?d1))"
    | (indexed) c where "contents = Some c" "disk' = ?after c # ?d1"
    using publish
    by (cases "run_fails run (CreatePack ?name bytes)"; cases "run_sync_fails run"; cases contents; cases "run_index_fault run")
      (auto simp: publish_pack_def perform_def Let_def WriteAtomic_def discard_pack_def)
  then have states: "(\<forall>s \<in> set disk'. s \<in> set disk \<or> ?B s \<or> (\<exists>c. contents = Some c \<and> after_pack files gone ?name bytes c s))
      \<and> (published \<longrightarrow> (\<exists>c. contents = Some c \<and> after_pack files gone ?name bytes c (hd disk')))"
  proof cases
    case unsynced
    then show ?thesis using discard [of _ "[RemovePack ?name]" ?d1] b1 by auto
  next
    case no_index
    then show ?thesis using discard [of _ "[RemoveIndex ?name, RemovePack ?name]" "hd ?d1 # ?d1"] b1 by auto
  next
    case (undone c)
    then show ?thesis using undo [of _ c] b1 a by auto
  next
    case (indexed c)
    then show ?thesis using b1 a by auto
  qed simp
  from states show "\<forall>s \<in> set disk'. s \<in> set disk \<or> ?B s \<or> (\<exists>c. contents = Some c \<and> after_pack files gone ?name bytes c s)" ..
  from states show "published \<Longrightarrow> \<exists>c. contents = Some c \<and> after_pack files gone ?name bytes c (hd disk')" by blast
qed

lemma before_gone: "before_pack files gone name s \<Longrightarrow> gone \<subseteq> gone' \<Longrightarrow> before_pack files gone' name s"
  by (auto simp: before_pack_def intro: loose_kept_mono)

lemma after_gone: "after_pack files gone name bytes contents s \<Longrightarrow> gone \<subseteq> gone' \<Longrightarrow> after_pack files gone' name bytes contents s"
  by (auto simp: after_pack_def intro: loose_kept_mono)

lemma repack_phase:
  assumes repack: "repackRepository ord env run reachable agedReachable disk = (disk', result)"
    and before: "before_pack files gone (run_name run) (hd disk)" "fs_packs (hd disk) = fs_packs files" and ready: "gc_ready env run files"
    and s: "s \<in> set disk'"
  shows "s \<in> set disk \<or> (\<exists>sources. measure_sources (rp_sources (fst (packed_by ord env run reachable agedReachable (hd disk)))) = Inr sources
      \<and> gc_state env run files gone agedReachable sources s)"
proof -
  let ?packs = "fs_packs (hd disk)" let ?indexes = "loadPackIndexes (gc_pack env) ?packs"
  let ?gone = "gone \<union> set agedReachable"
  obtain st movedCount where st: "packed_by ord env run reachable agedReachable (hd disk) = (st, movedCount)" by fastforce
  note run = repack [unfolded repackRepository_def Let_def, folded packed_by_def, unfolded st]
  show ?thesis
  proof (cases "rp_rewrite st")
    case False
    with run s show ?thesis by auto
  next
    case True
    show ?thesis
    proof (cases "measure_sources (rp_sources st)")
      case (Inl e)
      with run s True show ?thesis by auto
    next
      case (Inr sources)
      have ?thesis if "gc_state env run files gone agedReachable sources s" using that st Inr by auto
      moreover have "gc_state env run files gone agedReachable sources s \<or> s \<in> set disk"
      proof (cases "sources = []")
        case empty: True
        have "loose_kept files ?gone (hd disk)" using before(1) loose_kept_mono by (auto simp: before_pack_def)
        from perform_all_inv [where Q = "loose_kept files ?gone", OF this kept_retire] empty run s True Inr
        show ?thesis by (fastforce simp: gc_state_def)
      next
        case False
        show ?thesis
        proof (cases "build_pack (gc_pack env) (unix_seconds (run_now run)) sources")
          case (Inl e)
          with run s True False \<open>measure_sources (rp_sources st) = Inr sources\<close> show ?thesis by simp
        next
          case built: (Inr p)
          obtain bytes index where p: "p = (bytes, index)" by fastforce
          let ?contents = "json_marshal (index_json index)"
          obtain disk1 published where publish: "publish_pack run bytes ?contents disk = (disk1, published)" by fastforce
          note states = publish_states [OF publish before(1) ready]
          have after: "gc_state env run files gone agedReachable sources s'"
            if "?contents = Some c" "after_pack files ?gone (run_name run) bytes c s'" for c s'
            using that built p unfolding gc_state_def by blast
          have early: "s' \<in> set disk \<or> gc_state env run files gone agedReachable sources s'" if "s' \<in> set disk1" for s'
            using states(1) that after after_gone [of files gone "run_name run" bytes _ s' ?gone] by (auto simp: gc_state_def)
          show ?thesis
          proof (cases published)
            case False
            with run s True Inr \<open>sources \<noteq> []\<close> built p publish have "s \<in> set disk1" by simp
            with early show ?thesis by blast
          next
            case pub: True
            with states(2) obtain c where c: "?contents = Some c" "after_pack files ?gone (run_name run) bytes c (hd disk1)"
              using after_gone [of files gone "run_name run" bytes _ "hd disk1" ?gone] by auto
            have "disk' = perform_all (run_fails run) (run_now run) (retire_ops ?indexes agedReachable) disk1"
              using run pub True Inr \<open>sources \<noteq> []\<close> built p publish by simp
            moreover have "after_pack files ?gone (run_name run) bytes c (apply_op (run_now run) operation s')"
              if "operation \<in> set (retire_ops ?indexes agedReachable)" "after_pack files ?gone (run_name run) bytes c s'" for operation s'
              by (rule after_retire [OF that(2,1)]) (use gc_ready_facts(4) [OF ready] catalog_pack_names before(2) in fastforce)+
            ultimately have "s \<in> set disk1 \<or> after_pack files ?gone (run_name run) bytes c s"
              using perform_all_inv [where Q = "after_pack files ?gone (run_name run) bytes c", OF c(2)] s by blast
            then show ?thesis using early after [OF c(1)] by blast
          qed
        qed
      qed
      ultimately show ?thesis by blast
    qed
  qed
qed

subsection \<open>Safety\<close>

lemma gc_run_states:
  assumes run: "gcRepository ord env fuel run refs files = Some (disk, result)" and ready: "gc_ready env run files" and s: "s \<in> set disk"
  obtains (unchanged) "s = files"
    | (loose) reachable where "\<And>oid. gc_reaches env files (gc_roots refs) oid \<Longrightarrow> oid \<in> set reachable"
      "before_pack files (unreached run reachable files) (run_name run) s"
    | (packs) reachable agedReachable files1 sources where "\<And>oid. gc_reaches env files (gc_roots refs) oid \<Longrightarrow> oid \<in> set reachable"
      "list_all canonical_id agedReachable" "before_pack files (unreached run reachable files) (run_name run) files1"
      "fs_packs files1 = fs_packs files"
      "measure_sources (rp_sources (fst (packed_by ord env run reachable agedReachable files1))) = Inr sources"
      "gc_state env run files (unreached run reachable files) agedReachable sources s"
proof (cases "reach_loop env files fuel [] (gc_roots refs)")
  case None
  with run show thesis by (simp add: gcRepository_def gc_roots_def Let_def)
next
  case (Some r)
  show thesis
  proof (cases r)
    case (Inl e)
    with run Some s show thesis by (cases e) (auto simp: gcRepository_def gc_roots_def Let_def intro: unchanged)
  next
    case (Inr reachable)
    have complete: "oid \<in> set reachable" if "gc_reaches env files (gc_roots refs) oid" for oid
      using reach_loop_complete [OF _ that] Some Inr by simp
    obtain agedReachable deleted disk1 where
      phase: "foldl (loose_step run reachable) ([], 0, [files]) (listLooseObjects files) = (agedReachable, deleted, disk1)"
      by (cases "foldl (loose_step run reachable) ([], 0, [files]) (listLooseObjects files)")
    have "wf_map (fs_packs files)" using gc_ready_facts(3) [OF ready] .
    from loose_phase [OF this, of run reachable "listLooseObjects files"] phase
    have inv: "\<forall>oid \<in> set agedReachable. map_of (fs_objects files) (object_file oid) \<noteq> None" "disk1 \<noteq> []"
      "\<forall>s \<in> set disk1. before_pack files (unreached run reachable files) (run_name run) s \<and> fs_packs s = fs_packs files"
      by (simp_all add: loose_inv_def)
    then have hd: "before_pack files (unreached run reachable files) (run_name run) (hd disk1)" "fs_packs (hd disk1) = fs_packs files" by simp_all
    from inv(1) gc_ready_facts(8) [OF ready] have aged: "list_all canonical_id agedReachable" by (auto simp: list_all_iff)
    obtain result2 where repack: "repackRepository ord env run reachable agedReachable disk1 = (disk, result2)"
      using run Some Inr phase
      by (cases "repackRepository ord env run reachable agedReachable disk1")
        (auto simp: gcRepository_def gc_roots_def Let_def split: sum.splits pack_failure.splits)
    from repack_phase [OF repack hd ready s] show thesis
      using loose [OF complete] packs [OF complete _ hd] inv(3) aged by blast
  qed
qed

lemma protected_kept:
  assumes "gc_protected env run refs files oid" "\<And>oid. gc_reaches env files (gc_roots refs) oid \<Longrightarrow> oid \<in> set reachable"
  shows "oid \<notin> unreached run reachable files"
  using assms by (auto simp: gc_protected_def unreached_def loose_aged_def mod_time_def split: option.splits)

text \<open>A protected object that can be read is in the new pack, unless it stays loose.\<close>

context map_iteration begin

lemma protected_selected:
  assumes protected: "gc_protected env run refs files oid" "\<And>oid. gc_reaches env files (gc_roots refs) oid \<Longrightarrow> oid \<in> set reachable"
    and readable: "readable (gc_pack env) oid files" and oid: "canonical_id oid" and same: "fs_packs files1 = fs_packs files"
    and gone: "map_of (fs_objects files) (object_file oid) = None \<or> oid \<in> set agedReachable"
  shows "oid \<in> set (rp_selected (fst (packed_by ord env run reachable agedReachable files1)))"
proof (cases "oid \<in> set agedReachable")
  case False
  with gone have none: "map_of (fs_objects files) (object_file oid) = None" by simp
  then obtain c where "session_readObject (gc_pack env) (fs_packs files) (loadPackIndexes (gc_pack env) (fs_packs files)) oid = Inr (Some c)"
    using readable readable_packed [OF oid] by blast
  then obtain i e where i: "i \<in> set (loadPackIndexes (gc_pack env) (fs_packs files))" "map_of (pki_Objects i) oid = Some e"
    by (rule session_found)
  show ?thesis
  proof (cases "oid \<in> set reachable")
    case True
    with i show ?thesis by (intro packed_by_indexed) (simp_all add: same)
  next
    case False
    with protected none obtain j e' where "j \<in> set (loadPackIndexes (gc_pack env) (fs_packs files))" "map_of (pki_Objects j) oid = Some e'"
      "\<not> packEntryAged e' (mod_time (fs_packs files) (packDataPath (pki_name j))) (run_cutoff run)"
      by (auto simp: gc_protected_def)
    then show ?thesis by (intro packed_by_indexed [where index = j and e = e'] disjI2) (simp_all add: same)
  qed
qed (rule packed_by_moved)

end

lemma sources_facts:
  assumes inv: "repack_inv env st" and run: "measure_sources (rp_sources st) = Inr sources"
  shows "distinct (map pks_ID sources)" "pks_ID ` set sources = set (rp_selected st)"
    and "\<And>s c. s \<in> set sources \<Longrightarrow> pks_Read s = Inr c \<Longrightarrow> small c" "\<And>s. s \<in> set sources \<Longrightarrow> canonical_id (pks_ID s)"
proof -
  note same = measured [OF run]
  show "distinct (map pks_ID sources)" using inv same by (simp add: repack_inv_def)
  show ids: "pks_ID ` set sources = set (rp_selected st)" using inv same by (metis repack_inv_def set_map)
  show "small c" if "s \<in> set sources" "pks_Read s = Inr c" for s c
  proof -
    have "pks_Read s \<in> set (map pks_Read (rp_sources st))" using that(1) same by (metis image_eqI set_map)
    then show ?thesis using inv that(2) by (auto simp: repack_inv_def)
  qed
  show "canonical_id (pks_ID s)" if "s \<in> set sources" for s
  proof -
    have "pks_ID s \<in> pks_ID ` set (rp_sources st)" using that ids inv by (auto simp: repack_inv_def)
    then show ?thesis using inv by (auto simp: repack_inv_def)
  qed
qed

lemma gc_state_readable:
  assumes state: "gc_state env run files gone agedReachable sources s" and ready: "gc_ready env run files"
    and sources: "repack_inv (gc_pack env) st" "measure_sources (rp_sources st) = Inr sources"
    and oid: "canonical_id oid" "oid \<notin> gone" "readable (gc_pack env) oid files"
    and selected: "map_of (fs_objects files) (object_file oid) = None \<or> oid \<in> set agedReachable \<Longrightarrow> oid \<in> set (rp_selected st)"
  shows "readable (gc_pack env) oid s"
proof -
  let ?gone = "gone \<union> set agedReachable"
  note facts = gc_ready_facts [OF ready] and source_facts = sources_facts [OF sources]
  have stays: "readable (gc_pack env) oid s" if "loose_kept files ?gone s" "map_of (fs_objects s) (object_file oid) = Some f" for f
  proof -
    have "map_of (fs_objects files) (object_file oid) = Some f"
      using that unfolding loose_kept_def by (metis option.distinct(1))
    then show ?thesis using oid(3) readable_loose [OF oid(1)] that(2) by blast
  qed
  have source: "oid \<in> pks_ID ` set sources" if "loose_kept files ?gone s" "map_of (fs_objects s) (object_file oid) = None"
    using that oid(2) selected unfolding source_facts(2) loose_kept_def by (metis UnE)
  from state consider "before_pack files gone (run_name run) s"
    | t bytes index contents where "build_pack (gc_pack env) t sources = Inr (bytes, index)" "json_marshal (index_json index) = Some contents"
      "after_pack files ?gone (run_name run) bytes contents s"
    | "sources = []" "loose_kept files ?gone s" unfolding gc_state_def by blast
  then show ?thesis
  proof cases
    case 1
    from before_read [OF 1 facts(3,5) oid(1,2)] oid(3) show ?thesis by (simp add: readable_def)
  next
    case (2 t bytes index contents)
    then have kept: "loose_kept files ?gone s" by (simp add: after_pack_def)
    show ?thesis
    proof (cases "map_of (fs_objects s) (object_file oid)")
      case None
      from source [OF kept None] obtain x where x: "x \<in> set sources" "pks_ID x = oid" by blast
      show ?thesis by (rule after_read [OF 2(3,1) source_facts(1) 2(2) facts(1,2) _ _ x oid(1) None]) (use source_facts(3,4) in blast)+
    qed (rule stays [OF kept])
  next
    case 3
    then show ?thesis using stays source by (cases "map_of (fs_objects s) (object_file oid)") auto
  qed
qed

text \<open>C5: garbage collection never loses a live object.  Whatever file operation fails, in every
  state the directory goes through (so also after a crash at any point) each object that was
  readable and that a ref reaches, or that was stored less than the grace period ago, can still be
  read and verifies against its ID.\<close>

theorem gc_safe:
  assumes "map_iteration ord" "gc_ready env run files" "gcRepository ord env fuel run refs files = Some (disk, result)"
    and "s \<in> set disk" "canonical_id oid" "gc_protected env run refs files oid" "readable (gc_pack env) oid files"
  shows "readable (gc_pack env) oid s"
proof -
  note facts = gc_ready_facts [OF assms(2)]
  from assms(3,2,4) show ?thesis
  proof (cases rule: gc_run_states)
    case unchanged
    then show ?thesis using assms(7) by simp
  next
    case (loose reachable)
    from before_read [OF loose(2) facts(3,5) assms(5) protected_kept [OF assms(6) loose(1)]] assms(7)
    show ?thesis by (simp add: readable_def)
  next
    case (packs reachable agedReachable files1 sources)
    have objects1: "map_of (fs_objects files1) (object_file x) = Some f \<Longrightarrow> map_of (fs_objects files) (object_file x) = Some f" for x f
      using packs(3) unfolding before_pack_def loose_kept_def by (metis option.distinct(1))
    have inv: "repack_inv (gc_pack env) (fst (packed_by ord env run reachable agedReachable files1))"
      by (rule map_iteration.packed_by_inv [OF assms(1) facts(1) _ packs(2)]) (use objects1 facts(6,9) packs(4) in auto)
    show ?thesis
      by (rule gc_state_readable [OF packs(6) assms(2) inv packs(5) assms(5) protected_kept [OF assms(6) packs(1)] assms(7)
          map_iteration.protected_selected [OF assms(1,6) packs(1) assms(7,5) packs(4)]])
  qed
qed

end
