(* ===== verification/Gc_Examples.thy ===== *)
theory Gc_Examples
  imports Gc_Properties
begin

text \<open>
  Concrete runs of garbage collection.  The compressor is instantiated with the identity and the
  decoder of index files with a parser of what the server writes, which is shown to invert the
  printer; so the hypotheses of the properties are met by an executable server.
\<close>

subsection \<open>A parser for index files\<close>

definition expect :: "string \<Rightarrow> string \<Rightarrow> string option" where
  "expect p s = (if take (length p) s = p then Some (drop (length p) s) else None)"

definition parse_number :: "string \<Rightarrow> (int \<times> string) option" where
  "parse_number s = (case expect ''-'' s of
       Some t \<Rightarrow> (if takeWhile is_digit t = [] then None else Some (- digits_value (takeWhile is_digit t), dropWhile is_digit t))
     | None \<Rightarrow> if takeWhile is_digit s = [] then None else Some (digits_value (takeWhile is_digit s), dropWhile is_digit s))"

definition parse_id :: "string \<Rightarrow> (string \<times> string) option" where
  "parse_id s = Option.bind (expect ''\"'' s) (\<lambda>t. Option.bind (expect ''\"'' (drop 64 t)) (\<lambda>r. Some (take 64 t, r)))"

definition parse_optional :: "string \<Rightarrow> string \<Rightarrow> (int \<times> string) option" where
  "parse_optional field s = (case expect field s of None \<Rightarrow> Some (0, s) | Some t \<Rightarrow> parse_number t)"

definition parse_entry :: "string \<Rightarrow> (packEntry \<times> string) option" where
  "parse_entry s =
     Option.bind (expect ''{\"offset\":'' s) (\<lambda>s. Option.bind (parse_number s) (\<lambda>(offset, s).
     Option.bind (expect '',\"length\":'' s) (\<lambda>s. Option.bind (parse_number s) (\<lambda>(len, s).
     Option.bind (parse_optional '',\"stored_at\":'' s) (\<lambda>(storedAt, s).
     Option.bind (parse_optional '',\"raw_size\":'' s) (\<lambda>(rawSize, s).
     Option.bind (expect ''}'' s) (\<lambda>s.
     Some (\<lparr>pe_Offset = offset, pe_Length = len, pe_StoredAt = storedAt, pe_RawSize = rawSize\<rparr>, s))))))))"

text \<open>The fuel is the number of entries at most.\<close>

fun parse_entries :: "nat \<Rightarrow> string \<Rightarrow> (packEntry gomap \<times> string) option" where
  "parse_entries 0 s = None"
| "parse_entries (Suc n) s =
     Option.bind (parse_id s) (\<lambda>(k, s). Option.bind (expect '':'' s) (\<lambda>s. Option.bind (parse_entry s) (\<lambda>(e, s).
     case expect '','' s of
       None \<Rightarrow> Some ([(k, e)], s)
     | Some t \<Rightarrow> Option.bind (parse_entries n t) (\<lambda>(m, r). Some ((k, e) # m, r)))))"

definition parse_objects :: "string \<Rightarrow> (packEntry gomap \<times> string) option" where
  "parse_objects s = (case expect ''}'' s of Some t \<Rightarrow> Some ([], t)
     | None \<Rightarrow> Option.bind (parse_entries (length s) s) (\<lambda>(m, s). Option.bind (expect ''}'' s) (\<lambda>t. Some (m, t))))"

definition parse_dictionary :: "string \<Rightarrow> (string \<times> string) option" where
  "parse_dictionary s = (case expect '',\"dictionary\":'' s of None \<Rightarrow> Some ([], s) | Some t \<Rightarrow> parse_id t)"

definition parse_index :: "string \<Rightarrow> packIndex option" where
  "parse_index s =
     Option.bind (expect ''{\"version\":'' s) (\<lambda>s. Option.bind (parse_number s) (\<lambda>(version, s).
     Option.bind (parse_dictionary s) (\<lambda>(dictionary, s).
     Option.bind (expect '',\"objects\":{'' s) (\<lambda>s. Option.bind (parse_objects s) (\<lambda>(objects, s).
     if s = ''}'' then Some \<lparr>pki_Version = version, pki_Dictionary = dictionary, pki_Objects = objects, pki_name = []\<rparr>
     else None)))))"

subsection \<open>It inverts the printer\<close>

definition plain :: "char \<Rightarrow> bool" where
  "plain c \<longleftrightarrow> 32 \<le> byte_of c \<and> byte_of c < 127 \<and> byte_of c \<notin> {34, 92, 60, 62, 38}"

lemma json_bytes_plain: "list_all plain s \<Longrightarrow> json_bytes (map byte_of s) = s"
  by (induction s) (simp_all add: plain_def json_rune_def encode_rune_def rune_error_def)

lemma quote_char: "char_at 34 = CHR 0x22"
  by (simp add: char_of_def)

lemma json_string_plain: "list_all plain s \<Longrightarrow> json_string s = CHR 0x22 # s @ [CHR 0x22]"
  by (simp add: json_string_def json_bytes_plain quote_char)

lemma canonical_plain: "canonical_id k \<Longrightarrow> list_all plain k \<and> length k = 64"
  by (auto simp: canonical_id_def list_all_iff is_lower_hex_def plain_def)

lemma expect_append [simp]: "expect p (p @ s) = Some s"
  by (simp add: expect_def)

lemma expect_Cons [simp]: "expect (c # p) (d # s) = (if c = d then expect p s else None)" "expect [] s = Some s" "expect (c # p) [] = None"
  by (simp_all add: expect_def)

lemma digits_prefix:
  assumes "list_all is_digit d" "\<not> is_digit c"
  shows "takeWhile is_digit (d @ c # r) = d" "dropWhile is_digit (d @ c # r) = c # r"
  using assms by (simp_all add: takeWhile_append2 dropWhile_append2 list_all_iff)

lemma parse_number_print [simp]:
  assumes "\<not> is_digit c"
  shows "parse_number (Sprint_int n @ c # r) = Some (n, c # r)"
proof (cases "n < 0")
  case True
  with dec_digits_ok [of "- n"] show ?thesis by (simp add: parse_number_def Sprint_int_def digits_prefix assms)
next
  case False
  with dec_digits_ok [of n] have d: "dec_digits n \<noteq> []" "list_all is_digit (dec_digits n)" "digits_value (dec_digits n) = n" by simp_all
  then obtain x xs where x: "dec_digits n = x # xs" "is_digit x" by (cases "dec_digits n") auto
  then have "x \<noteq> CHR ''-''" by (auto simp: is_digit_def)
  then have "expect ''-'' (dec_digits n @ c # r) = None" by (simp add: x)
  with d False show ?thesis by (simp add: parse_number_def Sprint_int_def digits_prefix assms)
qed

lemma parse_id_print [simp]: "length k = 64 \<Longrightarrow> parse_id (CHR 0x22 # k @ CHR 0x22 # r) = Some (k, r)"
  by (simp add: parse_id_def)

lemma field_print [simp]:
  "json_string ''version'' = ''\"version\"''" "json_string ''dictionary'' = ''\"dictionary\"''" "json_string ''objects'' = ''\"objects\"''"
  "json_string ''offset'' = ''\"offset\"''" "json_string ''length'' = ''\"length\"''" "json_string ''stored_at'' = ''\"stored_at\"''"
  "json_string ''raw_size'' = ''\"raw_size\"''"
  by (simp_all add: json_string_plain plain_def)

lemma not_digits [simp]: "\<not> is_digit CHR '',''" "\<not> is_digit CHR ''}''"
  by (simp_all add: is_digit_def)

lemma parse_entry_print [simp]: "parse_entry (json_text (entry_json e) @ r) = Some (e, r)"
  by (simp add: parse_entry_def entry_json_def fld_defs parse_optional_def)

lemma commas_Cons: "commas (x # xs) = (if xs = [] then x else x @ '','' @ commas xs)"
  by (cases xs) simp_all

lemma parse_entries_print:
  assumes "list_all canonical_id ks" "ks \<noteq> []" "length ks \<le> n"
  shows "parse_entries n (commas (map (\<lambda>k. json_string k @ '':'' @ json_text (entry_json (the (map_of m k)))) ks) @ ''}'' @ r)
     = Some (map (\<lambda>k. (k, the (map_of m k))) ks, ''}'' @ r)"
  using assms
proof (induction ks arbitrary: n)
  case (Cons k ks)
  then obtain n' where n: "n = Suc n'" by (cases n) auto
  have k: "list_all plain k" "length k = 64" using Cons.prems(1) canonical_plain by auto
  show ?case
  proof (cases "ks = []")
    case False
    with Cons n have "parse_entries n' (commas (map (\<lambda>k. json_string k @ '':'' @ json_text (entry_json (the (map_of m k)))) ks) @ ''}'' @ r)
      = Some (map (\<lambda>k. (k, the (map_of m k))) ks, ''}'' @ r)" by simp
    with False k n show ?thesis by (simp add: commas_Cons json_string_plain)
  qed (simp add: n k json_string_plain)
qed simp

lemma commas_length: "[] \<notin> set xs \<Longrightarrow> length xs \<le> length (commas xs)"
  by (induction xs rule: commas.induct) (auto simp: Suc_le_eq)

lemma parse_objects_print:
  assumes "list_all canonical_id ks"
  shows "parse_objects (commas (map (\<lambda>k. json_string k @ '':'' @ json_text (entry_json (the (map_of m k)))) ks) @ ''}'' @ r)
     = Some (map (\<lambda>k. (k, the (map_of m k))) ks, r)"
proof (cases ks)
  case (Cons k ks')
  have "length ks \<le> length (commas (map (\<lambda>k. json_string k @ '':'' @ json_text (entry_json (the (map_of m k)))) ks) @ ''}'' @ r)"
    using commas_length [of "map (\<lambda>k. json_string k @ '':'' @ json_text (entry_json (the (map_of m k)))) ks"] by (simp add: image_iff)
  from parse_entries_print [OF assms _ this, of m r]
  have entries: "parse_entries (length (commas (map (\<lambda>k. json_string k @ '':'' @ json_text (entry_json (the (map_of m k)))) ks) @ ''}'' @ r))
      (commas (map (\<lambda>k. json_string k @ '':'' @ json_text (entry_json (the (map_of m k)))) ks) @ ''}'' @ r)
      = Some (map (\<lambda>k. (k, the (map_of m k))) ks, ''}'' @ r)" using Cons by simp
  have "json_string k = CHR 0x22 # k @ [CHR 0x22]" using assms Cons canonical_plain json_string_plain by simp
  then have "expect ''}'' (commas (map (\<lambda>k. json_string k @ '':'' @ json_text (entry_json (the (map_of m k)))) ks) @ ''}'' @ r) = None"
    by (simp add: Cons commas_Cons)
  with entries show ?thesis by (simp add: parse_objects_def)
qed (simp add: parse_objects_def)

lemma parse_index_print:
  assumes "list_all canonical_id (map_keys (pki_Objects i))" "pki_Dictionary i \<noteq> [] \<Longrightarrow> canonical_id (pki_Dictionary i)"
  shows "parse_index (json_text (index_json i)) = Some (i\<lparr>pki_Objects := map (\<lambda>k. (k, the (map_of (pki_Objects i) k))) (sort (map_keys (pki_Objects i))), pki_name := []\<rparr>)"
proof -
  have keys: "list_all canonical_id (sort (map_keys (pki_Objects i)))" using assms(1) by (simp add: list_all_iff)
  have dict: "pki_Dictionary i \<noteq> [] \<Longrightarrow> list_all plain (pki_Dictionary i) \<and> length (pki_Dictionary i) = 64" using assms(2) canonical_plain by blast
  show ?thesis using dict parse_objects_print [OF keys, of "pki_Objects i" "''}''"]
    by (cases i; cases "pki_Dictionary i = []")
      (simp_all add: parse_index_def index_json_def fld_defs comp_def parse_dictionary_def json_string_plain)
qed

lemma index_codec: "pk_index env = parse_index \<Longrightarrow> index_codec_ok env"
proof -
  assume parser: "pk_index env = parse_index"
  have "map_of (map (\<lambda>k. (k, the (map_of m k))) (sort (map_keys m))) = map_of m" for m :: "packEntry gomap"
    by (rule ext) (simp add: map_of_map_restrict restrict_map_def domIff)
  then show ?thesis unfolding index_codec_ok_def parser same_index_def
    by (auto simp: json_marshal_def parse_index_print split: if_splits)
qed

subsection \<open>A collection\<close>

declare NormalizeContextCommitID_eq [code]

text \<open>
  Objects are one letter; the hash of an object repeats that letter.  \<open>A\<close> is the tip of a ref and
  \<open>B\<close> its parent; \<open>C\<close> is old and nothing reaches it, \<open>D\<close> is as unreachable but young.
\<close>

definition ex_hash :: "string \<Rightarrow> string" where
  "ex_hash s = replicate 32 (hd (s @ ''_''))"

definition ex_object_id :: "char \<Rightarrow> string" where
  "ex_object_id c = hex_encode (ex_hash [c])"

definition ex_decode :: "string \<Rightarrow> string option" where
  "ex_decode y = (if small y then Some y else None)"

definition ex_gc_env :: gc_env where
  "ex_gc_env = \<lparr>gc_pack = \<lparr>pk_blake3 = ex_hash, pk_index = parse_index, pk_encode = (\<lambda>x. x), pk_decode = ex_decode,
       pk_dict_encoder = (\<lambda>_. Some (\<lambda>x. x)), pk_dict_decoder = (\<lambda>_. Some ex_decode)\<rparr>,
     gc_parents = (\<lambda>c. Some \<lparr>opa_ParentID = (if c = ''A'' then ex_object_id CHR ''B'' else []), opa_ParentIDs = [], opa_LegacyParentID = []\<rparr>)\<rparr>"

definition ex_gc_file :: "int \<Rightarrow> string \<Rightarrow> stored_file" where
  "ex_gc_file t c = \<lparr>file_Contents = c, file_ModTime = time_Unix (t * Second)\<rparr>"

definition ex_gc_files :: remote_files where
  "ex_gc_files = \<lparr>fs_objects = map (\<lambda>(c, t). (object_file (ex_object_id c), ex_gc_file t [c]))
      [(CHR ''A'', 1000), (CHR ''B'', 1001), (CHR ''C'', 1002), (CHR ''D'', 9000)],
     fs_refs = [], fs_packs = []\<rparr>"

definition ex_gc_run :: gc_run where
  "ex_gc_run = \<lparr>run_now = time_Unix (9999 * Second), run_cutoff = time_Unix (5000 * Second), run_name = ''pack-9999'',
     run_fails = (\<lambda>_. False), run_sync_fails = False, run_index_fault = WriteWorks\<rparr>"

definition ex_gc_refs :: "Ref list" where
  "ex_gc_refs = [\<lparr>ref_RefName = ''main'', ref_CommitID = ex_object_id CHR ''A'', ref_SourceSHA = ''s'', ref_Version = 1\<rparr>]"

lemma ex_codecs: "codec_ok (gc_pack ex_gc_env)" "index_codec_ok (gc_pack ex_gc_env)"
  by (simp_all add: index_codec ex_gc_env_def codec_ok_def ex_decode_def)

definition ex_gc_result :: "(disk \<times> (pack_error + GCRepositoryResult)) option" where
  "ex_gc_result = gcRepository (\<lambda>_ ks. ks) ex_gc_env 5 ex_gc_run ex_gc_refs ex_gc_files"

lemma ex_gc_runs:
  "map_option (\<lambda>(disk, r). (r, disk \<noteq> [], map_of (fs_objects (hd disk)) (object_file (ex_object_id CHR ''B'')))) ex_gc_result
   = Some (Inr \<lparr>gcr_Kept = 3, gcr_Deleted = 1, gcr_Packed = 2, gcr_Aborted = False\<rparr>, True, None)"
  by code_simp

lemma ex_gc_names: "map_of (fs_objects ex_gc_files) (object_file oid) = Some f \<Longrightarrow> canonical_id oid \<and> small (file_Contents f)"
proof -
  have "list_all (\<lambda>c. canonical_id (ex_object_id c)) ''ABCD''" by code_simp
  then show "map_of (fs_objects ex_gc_files) (object_file oid) = Some f \<Longrightarrow> canonical_id oid \<and> small (file_Contents f)"
    by (auto simp: ex_gc_files_def ex_gc_file_def small_def maxObjectRequestBytes_def split: if_splits)
qed

lemma ex_gc_ready: "gc_ready ex_gc_env ex_gc_run ex_gc_files"
proof -
  have "fs_packs ex_gc_files = []" "run_index_fault ex_gc_run = WriteWorks" by (simp_all add: ex_gc_files_def ex_gc_run_def)
  then show ?thesis using ex_codecs ex_gc_names
    by (auto simp: gc_ready_def filed_def pack_names_def loadPackIndexes_def index_names_def map_keys_def List.map_filter_simps)
qed

lemma ex_gc_reads: "readable (gc_pack ex_gc_env) (ex_object_id CHR ''B'') ex_gc_files"
proof -
  have "storage_ReadObject (gc_pack ex_gc_env) (ex_object_id CHR ''B'') ex_gc_files = Inr ''B''" by code_simp
  then show ?thesis by (simp add: readable_def)
qed

lemma ex_gc_protected: "gc_protected ex_gc_env ex_gc_run ex_gc_refs ex_gc_files (ex_object_id CHR ''B'')"
proof -
  have "ex_object_id CHR ''A'' \<in> set (gc_roots ex_gc_refs)" by code_simp
  then have "gc_reaches ex_gc_env ex_gc_files (gc_roots ex_gc_refs) (ex_object_id CHR ''A'')" by (rule gc_root)
  moreover have "storage_ReadObject (gc_pack ex_gc_env) (ex_object_id CHR ''A'') ex_gc_files = Inr ''A''" by code_simp
  moreover have "ex_object_id CHR ''B'' \<in> set (all_parents ex_gc_env ''A'')" by code_simp
  ultimately have "gc_reaches ex_gc_env ex_gc_files (gc_roots ex_gc_refs) (ex_object_id CHR ''B'')" by (rule gc_parent)
  then show ?thesis by (simp add: gc_protected_def)
qed

text \<open>The parent of the tip is no longer a loose object afterwards, and is read from the new pack.\<close>

theorem gc_safe_witness:
  "map_option (\<lambda>(disk, _). map_of (fs_objects (hd disk)) (object_file (ex_object_id CHR ''B''))) ex_gc_result = Some None
   \<and> map_option (\<lambda>(disk, _). readable (gc_pack ex_gc_env) (ex_object_id CHR ''B'') (hd disk)) ex_gc_result = Some True"
proof -
  obtain disk r where run: "ex_gc_result = Some (disk, r)" using ex_gc_runs by (cases ex_gc_result) auto
  from ex_gc_runs [unfolded run] have state: "disk \<noteq> []" "map_of (fs_objects (hd disk)) (object_file (ex_object_id CHR ''B'')) = None" by simp_all
  then have "hd disk \<in> set disk" by simp
  moreover have "canonical_id (ex_object_id CHR ''B'')" by code_simp
  ultimately have "readable (gc_pack ex_gc_env) (ex_object_id CHR ''B'') (hd disk)"
    by (rule gc_safe [OF insertion_order.map_iteration_axioms ex_gc_ready run [unfolded ex_gc_result_def] _ _ ex_gc_protected ex_gc_reads])
  with state show ?thesis by (simp add: run)
qed

subsection \<open>A ref that spells its commit ID in upper case\<close>

text \<open>
  The compare-and-swap of a ref accepts a commit ID in any spelling, but the collection compares it
  with file names as it is: the commit it names is removed once it is old.
\<close>

definition ex_case_refs :: "Ref list" where
  "ex_case_refs = [\<lparr>ref_RefName = ''main'', ref_CommitID = concat (replicate 32 ''4A''), ref_SourceSHA = ''s'', ref_Version = 1\<rparr>]"

definition ex_case_files :: remote_files where
  "ex_case_files = \<lparr>fs_objects = [(object_file (ex_object_id CHR ''J''), ex_gc_file 1000 ''J'')], fs_refs = [], fs_packs = []\<rparr>"

lemma gc_drops_other_spelling:
  "storage_ReadObject (gc_pack ex_gc_env) (concat (replicate 32 ''4A'')) ex_case_files = Inr ''J''
   \<and> map_option (\<lambda>(disk, r). (r, storage_ReadObject (gc_pack ex_gc_env) (concat (replicate 32 ''4A'')) (hd disk)))
       (gcRepository (\<lambda>_ ks. ks) ex_gc_env 5 ex_gc_run ex_case_refs ex_case_files)
     = Some (Inr \<lparr>gcr_Kept = 0, gcr_Deleted = 1, gcr_Packed = 0, gcr_Aborted = False\<rparr>, Inl (PackCode CodeObjectMissing))"
  by code_simp

end
