(* ===== verification/Local_Db.thy ===== *)
theory Local_Db
  imports Sql_Transactions Landing_Bindings Object_Ancestry "HOL-Library.Product_Lexorder"
begin

text \<open>
  The local context store (store/schema.go): the tables of its SQLite database, the rows that notes
  are kept in, and the queries that the operations share.  A decoder of the JSON column of a note is
  a parameter.
\<close>

subsection \<open>Tables\<close>

record workingSetRow =
  ws_WorktreeID :: string
  ws_RepositoryID :: string
  ws_RefName :: string
  ws_BaseContextCommitID :: string
  ws_SourceSHA :: string
  ws_UpdatedAt :: int

record entityRow =
  enr_WorktreeID :: string
  enr_Entity :: Entity

record coverageRow =
  cvr_WorktreeID :: string
  cvr_Coverage :: Coverage

text \<open>A row of \<open>pending_notes\<close> (the owner is a worktree) or \<open>committed_notes\<close> (a commit).\<close>

record noteRow =
  nr_Owner :: string
  nr_NoteID :: string
  nr_RevisionID :: string
  nr_SupersedesRevisionID :: string
  nr_EntityKey :: string
  nr_Kind :: NoteKind
  nr_Body :: string
  nr_Author :: string
  nr_Origin :: string
  nr_CreatedAt :: int
  nr_BindingState :: NoteBindingState
  nr_BindingSourceSHA :: string
  nr_ReviewReason :: string
  nr_TopicsJSON :: string

record commitRow =
  cmr_CommitID :: string
  cmr_ParentID :: string
  cmr_RefName :: string
  cmr_SourceSHA :: string
  cmr_Message :: string
  cmr_Author :: string
  cmr_CreatedAt :: int

record parentRow =
  par_CommitID :: string
  par_Index :: int
  par_ParentID :: string

record localRefRow =
  lrr_RefName :: string
  lrr_CommitID :: string
  lrr_SourceSHA :: string
  lrr_Version :: int

record remoteRow =
  rmr_Name :: string
  rmr_Path :: string

record remoteRefRow =
  rrr_RemoteName :: string
  rrr_RefName :: string
  rrr_CommitID :: string
  rrr_SourceSHA :: string
  rrr_Version :: int

record searchRow =
  sr_WorktreeID :: string
  sr_EntityKey :: string
  sr_Name :: string
  sr_Signature :: string
  sr_Path :: string
  sr_NoteBody :: string
  sr_State :: string

record mergeSessionRow =
  msr_SessionID :: string
  msr_LocalSnapshotID :: string
  msr_RemoteSnapshotID :: string
  msr_BaseSnapshotID :: string
  msr_RepositoryID :: string
  msr_RefName :: string
  msr_SourceSHA :: string
  msr_ProvenanceJSON :: string
  msr_Message :: string
  msr_Author :: string
  msr_PlannedCreatedAt :: int
  msr_State :: string
  msr_AutomaticRecordsJSON :: string

record mergeConflictRow =
  mcr_SessionID :: string
  mcr_ConflictID :: string
  mcr_ConflictJSON :: string

record candidateRow =
  cdr_Candidate :: Candidate
  cdr_UpdatedAt :: int
  cdr_PayloadHash :: string

record candidateNoteRow =
  cnr_Note :: CandidateNote
  cnr_CreatedAt :: int

record landingSessionRow =
  lsr_SessionID :: string
  lsr_LandingID :: string
  lsr_Version :: int
  lsr_State :: string
  lsr_Payload :: string

record local_db =
  ldb_working_sets :: "workingSetRow list"
  ldb_entities :: "entityRow list"
  ldb_coverage :: "coverageRow list"
  ldb_pending :: "noteRow list"
  ldb_commits :: "commitRow list"
  ldb_parents :: "parentRow list"
  ldb_notes :: "noteRow list"
  ldb_refs :: "localRefRow list"
  ldb_remotes :: "remoteRow list"
  ldb_remote_refs :: "remoteRefRow list"
  ldb_search :: "searchRow list"
  ldb_merge_sessions :: "mergeSessionRow list"
  ldb_merge_conflicts :: "mergeConflictRow list"
  ldb_landing_sessions :: "landingSessionRow list"
  ldb_candidates :: "candidateRow list"
  ldb_candidate_notes :: "candidateNoteRow list"

type_synonym 'a lt = "(local_db, 'a) statements"

subsection \<open>Notes\<close>

definition encodeNoteTopics :: "string slice \<Rightarrow> string" where
  "encodeNoteTopics topics = json_text (json_slice (map_option (map JString) topics))"

definition note_row :: "string \<Rightarrow> Note \<Rightarrow> noteRow" where
  "note_row owner n = \<lparr>nr_Owner = owner, nr_NoteID = note_ID n, nr_RevisionID = note_RevisionID n,
     nr_SupersedesRevisionID = note_SupersedesRevisionID n, nr_EntityKey = note_EntityKey n, nr_Kind = note_Kind n,
     nr_Body = note_Body n, nr_Author = note_Author n, nr_Origin = note_Origin n, nr_CreatedAt = UnixNano (note_CreatedAt n),
     nr_BindingState = note_BindingState n, nr_BindingSourceSHA = note_BindingSourceSHA n,
     nr_ReviewReason = note_ReviewReason n, nr_TopicsJSON = encodeNoteTopics (note_Topics n)\<rparr>"

text \<open>\<open>json.Unmarshal\<close> of a topics column; \<open>None\<close> is an error.\<close>

type_synonym topics_decoder = "string \<Rightarrow> string slice option"

definition scanNote :: "topics_decoder \<Rightarrow> bool \<Rightarrow> string \<Rightarrow> noteRow \<Rightarrow> Note result" where
  "scanNote decode pending sourceSHA r = (case decode (nr_TopicsJSON r) of
       None \<Rightarrow> Inl CodeLocalStorage
     | Some topics \<Rightarrow> Inr ((NormalizeLegacyNote \<lparr>note_ID = nr_NoteID r, note_RevisionID = nr_RevisionID r,
         note_SupersedesRevisionID = nr_SupersedesRevisionID r, note_EntityKey = nr_EntityKey r, note_Kind = nr_Kind r,
         note_Body = nr_Body r, note_Author = nr_Author r, note_Origin = nr_Origin r, note_CreatedAt = time_Unix (nr_CreatedAt r),
         note_BindingState = nr_BindingState r, note_BindingSourceSHA = nr_BindingSourceSHA r,
         note_ReviewReason = nr_ReviewReason r, note_Topics = topics, note_Pending = False\<rparr> sourceSHA)\<lparr>note_Pending := pending\<rparr>))"

primrec scanNotes :: "topics_decoder \<Rightarrow> bool \<Rightarrow> (noteRow \<times> string) list \<Rightarrow> Note list result" where
  "scanNotes decode pending [] = Inr []"
| "scanNotes decode pending (rs # rows) =
     and_then (scanNote decode pending (snd rs) (fst rs)) (\<lambda>n.
     and_then (scanNotes decode pending rows) (\<lambda>ns. Inr (n # ns)))"

text \<open>The joins with the row that owns the notes.\<close>

definition pending_rows :: "string \<Rightarrow> local_db \<Rightarrow> (noteRow \<times> string) list" where
  "pending_rows worktreeID db = concat (map (\<lambda>p. map (\<lambda>w. (p, ws_SourceSHA w))
       (filter (\<lambda>w. ws_WorktreeID w = nr_Owner p) (ldb_working_sets db)))
     (filter (\<lambda>p. nr_Owner p = worktreeID) (ldb_pending db)))"

definition committed_rows :: "string \<Rightarrow> local_db \<Rightarrow> (noteRow \<times> string) list" where
  "committed_rows commitID db = concat (map (\<lambda>n. map (\<lambda>c. (n, cmr_SourceSHA c))
       (filter (\<lambda>c. cmr_CommitID c = nr_Owner n) (ldb_commits db)))
     (filter (\<lambda>n. nr_Owner n = commitID) (ldb_notes db)))"

definition note_order :: "noteRow \<times> string \<Rightarrow> int \<times> string" where
  "note_order r = (nr_CreatedAt (fst r), nr_NoteID (fst r))"

definition listPendingNotes :: "topics_decoder \<Rightarrow> string \<Rightarrow> Note list lt" where
  "listPendingNotes decode worktreeID =
     tx_bind (tx_read (\<lambda>db. sort_key note_order (pending_rows worktreeID db))) (\<lambda>rows. tx_lift (scanNotes decode True rows))"

definition listCommittedNotes :: "topics_decoder \<Rightarrow> string \<Rightarrow> Note list lt" where
  "listCommittedNotes decode commitID =
     tx_bind (tx_read (\<lambda>db. sort_key note_order (committed_rows commitID db))) (\<lambda>rows. tx_lift (scanNotes decode False rows))"

text \<open>\<open>pendingNoteByID\<close> and \<open>committedNoteByID\<close>; \<open>None\<close> when there is no such note.\<close>

definition scan_first :: "topics_decoder \<Rightarrow> bool \<Rightarrow> (noteRow \<times> string) list \<Rightarrow> Note option result" where
  "scan_first decode pending rows = (case rows of
       [] \<Rightarrow> Inr None | r # _ \<Rightarrow> and_then (scanNote decode pending (snd r) (fst r)) (\<lambda>n. Inr (Some n)))"

definition pendingNoteByID :: "topics_decoder \<Rightarrow> string \<Rightarrow> string \<Rightarrow> Note option lt" where
  "pendingNoteByID decode worktreeID noteID =
     tx_bind (tx_read (\<lambda>db. filter (\<lambda>r. nr_NoteID (fst r) = noteID) (pending_rows worktreeID db)))
       (\<lambda>rows. tx_lift (scan_first decode True rows))"

definition committedNoteByID :: "topics_decoder \<Rightarrow> string \<Rightarrow> string \<Rightarrow> Note option lt" where
  "committedNoteByID decode commitID noteID =
     tx_bind (tx_read (\<lambda>db. filter (\<lambda>r. nr_NoteID (fst r) = noteID) (committed_rows commitID db)))
       (\<lambda>rows. tx_lift (scan_first decode False rows))"

definition upsertPendingNote :: "string \<Rightarrow> Note \<Rightarrow> unit lt" where
  "upsertPendingNote worktreeID n =
     tx_bind (tx_lift (NormalizeNoteTopics (elems (note_Topics n)))) (\<lambda>topics.
     let row = note_row worktreeID (n\<lparr>note_Topics := Some topics\<rparr>)
     in tx_upsert ldb_pending_update (\<lambda>r. nr_Owner r = worktreeID \<and> nr_NoteID r = note_ID n) (\<lambda>_. row) row)"

subsection \<open>Working sets, refs and entities\<close>

definition requireWorkingSet :: "WorkingSetKey \<Rightarrow> unit lt" where
  "requireWorkingSet key =
     tx_bind (tx_read (\<lambda>db. take_row (\<lambda>w. ws_WorktreeID w = key_WorktreeID key) (ldb_working_sets db))) (\<lambda>found.
     case found of
       None \<Rightarrow> tx_fail CodeStaleWorkingSet
     | Some w \<Rightarrow> tx_check (ws_RepositoryID w = key_RepositoryID key \<and> ws_RefName w = key_RefName key
         \<and> ws_SourceSHA w = key_SourceSHA key) CodeStaleWorkingSet)"

text \<open>\<open>ref\<close>\<close>

definition local_ref :: "string \<Rightarrow> local_db \<Rightarrow> string \<times> int" where
  "local_ref refName db = (case take_row (\<lambda>r. lrr_RefName r = refName) (ldb_refs db) of
       None \<Rightarrow> ([], 0) | Some r \<Rightarrow> (lrr_CommitID r, lrr_Version r))"

definition pending_count :: "string \<Rightarrow> local_db \<Rightarrow> nat" where
  "pending_count worktreeID db = rows_affected (\<lambda>p. nr_Owner p = worktreeID) (ldb_pending db)"

definition ensureWorkingSet :: "int \<Rightarrow> WorkingSetKey \<Rightarrow> unit lt" where
  "ensureWorkingSet now key =
     tx_bind (tx_read (\<lambda>db. (take_row (\<lambda>w. ws_WorktreeID w = key_WorktreeID key) (ldb_working_sets db),
         pending_count (key_WorktreeID key) db, fst (local_ref (key_RefName key) db)))) (\<lambda>(found, pending, parent).
     let row = \<lparr>ws_WorktreeID = key_WorktreeID key, ws_RepositoryID = key_RepositoryID key, ws_RefName = key_RefName key,
           ws_BaseContextCommitID = parent, ws_SourceSHA = key_SourceSHA key, ws_UpdatedAt = now\<rparr>
     in case found of
       Some w \<Rightarrow>
         if ws_RefName w = key_RefName key \<and> ws_SourceSHA w = key_SourceSHA key then tx_return ()
         else if 0 < pending then tx_fail CodeWorkingSetDirty
         else tx_bind (tx_update ldb_working_sets_update ldb_working_sets (\<lambda>w. ws_WorktreeID w = key_WorktreeID key) (\<lambda>_. row))
           (\<lambda>_. tx_return ())
     | None \<Rightarrow> tx_insert ldb_working_sets_update ldb_working_sets (\<lambda>w. ws_WorktreeID w = key_WorktreeID key) row)"

definition fresh_rows :: "string \<Rightarrow> string \<Rightarrow> local_db \<Rightarrow> Entity list" where
  "fresh_rows worktreeID sourceSHA db = concat (map (\<lambda>e. map (\<lambda>_. enr_Entity e)
       (filter (\<lambda>c. cvr_WorktreeID c = enr_WorktreeID e \<and> cov_Language (cvr_Coverage c) = ent_Language (enr_Entity e)
          \<and> cov_State (cvr_Coverage c) = CoverageIndexed \<and> cov_SourceSHA (cvr_Coverage c) = sourceSHA) (ldb_coverage db)))
     (filter (\<lambda>e. enr_WorktreeID e = worktreeID) (ldb_entities db)))"

definition listFreshEntities :: "string \<Rightarrow> string \<Rightarrow> local_db \<Rightarrow> Entity list" where
  "listFreshEntities worktreeID sourceSHA db = sort_key ent_Key (fresh_rows worktreeID sourceSHA db)"

definition entityByKeyFresh :: "string \<Rightarrow> string \<Rightarrow> string \<Rightarrow> local_db \<Rightarrow> Entity result" where
  "entityByKeyFresh worktreeID sourceSHA entityKey db = (case filter (\<lambda>e. ent_Key e = entityKey) (fresh_rows worktreeID sourceSHA db) of
       [] \<Rightarrow> Inl CodeEntityNotFound | e # _ \<Rightarrow> Inr e)"

definition listCoverage :: "string \<Rightarrow> local_db \<Rightarrow> Coverage list" where
  "listCoverage worktreeID db =
     sort_key cov_Language (map cvr_Coverage (filter (\<lambda>c. cvr_WorktreeID c = worktreeID) (ldb_coverage db)))"

definition coverageComplete :: "Coverage list \<Rightarrow> string \<Rightarrow> bool" where
  "coverageComplete coverage sourceSHA =
     list_all (\<lambda>c. cov_State c = CoverageIndexed \<and> cov_SourceSHA c = sourceSHA) coverage"

text \<open>A query in the middle of a transaction that can fail.\<close>

definition tx_query :: "(local_db \<Rightarrow> 'a result) \<Rightarrow> 'a lt" where
  "tx_query f = tx_bind (tx_read f) tx_lift"

lemma tx_query_Inr [simp]: "tx_query f db = Inr (db', x) \<longleftrightarrow> db' = db \<and> f db = Inr x"
  by (auto simp: tx_query_def tx_bind_Inr)

end
