(* ===== verification/Local_Index.thy ===== *)
theory Local_Index
  imports Local_Db
begin

text \<open>
  Pending notes (store/notes.go) and the projection of the source (store/projection.go): adding,
  revising and reviewing a note, recording what the indexers found, re-binding the committed notes
  to it, and the rows of the search index.
\<close>

subsection \<open>Effective notes\<close>

definition note_time_order :: "Note \<Rightarrow> int \<times> string" where
  "note_time_order n = (time_instant (note_CreatedAt n), note_ID n)"

definition effectiveNotes :: "map_order \<Rightarrow> Note list \<Rightarrow> Note list \<Rightarrow> Note list" where
  "effectiveNotes ord committed pending =
     sort_key note_time_order (map snd (map_range ord 0 (notes_by_id (committed @ pending))))"

subsection \<open>The search index\<close>

fun Join :: "string list \<Rightarrow> string \<Rightarrow> string" where
  "Join [] separator = []"
| "Join [x] separator = x"
| "Join (x # xs) separator = x @ separator @ Join xs separator"

definition search_row :: "string \<Rightarrow> Note list \<Rightarrow> Entity \<Rightarrow> searchRow" where
  "search_row worktreeID active e =
     (let notes = filter (\<lambda>n. note_EntityKey n = ent_Key e) active
      in \<lparr>sr_WorktreeID = worktreeID, sr_EntityKey = ent_Key e, sr_Name = ent_Name e, sr_Signature = ent_Signature e,
        sr_Path = ent_Path e, sr_NoteBody = Join (map note_Body notes) [char_at 10],
        sr_State = (if list_ex note_Pending notes then ''pending'' else ''committed'')\<rparr>)"

text \<open>The parents that commits of an older schema do not have yet.\<close>

definition backfill_parents :: "commitRow list \<Rightarrow> parentRow list \<Rightarrow> parentRow list" where
  "backfill_parents commits parents = foldl (\<lambda>rows c.
     if cmr_ParentID c = [] then rows
     else ignore_rows (\<lambda>p. par_CommitID p = cmr_CommitID c \<and> par_Index p = 0)
       \<lparr>par_CommitID = cmr_CommitID c, par_Index = 0, par_ParentID = cmr_ParentID c\<rparr> rows) parents commits"

definition rebuildSearch :: "map_order \<Rightarrow> topics_decoder \<Rightarrow> WorkingSetKey \<Rightarrow> unit lt" where
  "rebuildSearch ord decode key =
     tx_bind (tx_delete ldb_search_update (\<lambda>r. sr_WorktreeID r = key_WorktreeID key)) (\<lambda>_.
     tx_bind (tx_read (listFreshEntities (key_WorktreeID key) (key_SourceSHA key))) (\<lambda>entities.
     tx_bind (tx_read (\<lambda>db. fst (local_ref (key_RefName key) db))) (\<lambda>parent.
     tx_bind (if parent = [] then tx_return [] else listCommittedNotes decode parent) (\<lambda>committed.
     tx_bind (listPendingNotes decode (key_WorktreeID key)) (\<lambda>pending.
     let active = filter (\<lambda>n. note_BindingState n = NoteBindingActive) (effectiveNotes ord committed pending)
     in tx_bind (tx_each (\<lambda>e. tx_insert ldb_search_update ldb_search (\<lambda>_. False)
            (search_row (key_WorktreeID key) active e)) entities) (\<lambda>_ db.
          Inr (ldb_parents_update (backfill_parents (ldb_commits db)) db, ())))))))"

subsection \<open>Notes\<close>

definition default_to :: "string \<Rightarrow> string \<Rightarrow> string" where
  "default_to value s = (if s = [] then value else s)"

text \<open>\<open>newIDs\<close> are the results of the two calls of \<open>newID\<close> and \<open>now\<close> is \<open>time.Now()\<close>.\<close>

definition AddPendingNote :: "map_order \<Rightarrow> topics_decoder \<Rightarrow> string result \<times> string result \<Rightarrow> go_time \<Rightarrow> WorkingSetKey \<Rightarrow> Note
    \<Rightarrow> local_db \<Rightarrow> local_db \<times> Note result" where
  "AddPendingNote ord decode newIDs now key n db =
     (case (if note_ID n = [] then fst newIDs else Inr (note_ID n)) of
        Inl e \<Rightarrow> (db, Inl CodeLocalStorage)
      | Inr noteID \<Rightarrow>
     (case (if note_RevisionID n = [] then snd newIDs else Inr (note_RevisionID n)) of
        Inl e \<Rightarrow> (db, Inl CodeLocalStorage)
      | Inr revisionID \<Rightarrow>
        let n = n\<lparr>note_ID := noteID, note_RevisionID := revisionID,
              note_BindingState := default_to NoteBindingActive (note_BindingState n),
              note_BindingSourceSHA := default_to (key_SourceSHA key) (note_BindingSourceSHA n), note_Pending := True,
              note_CreatedAt := (if time_IsZero (note_CreatedAt n) then time_UTC now else note_CreatedAt n),
              note_Origin := default_to ''human'' (note_Origin n)\<rparr>
        in transaction
          (tx_bind (requireWorkingSet key) (\<lambda>_.
           tx_bind (tx_query (entityByKeyFresh (key_WorktreeID key) (key_SourceSHA key) (note_EntityKey n))) (\<lambda>_.
           tx_bind (upsertPendingNote (key_WorktreeID key) n) (\<lambda>_.
           tx_bind (rebuildSearch ord decode key) (\<lambda>_. tx_return n))))) db))"

definition working_parent :: "WorkingSetKey \<Rightarrow> local_db \<Rightarrow> string result" where
  "working_parent key db = (case take_row (\<lambda>w. ws_WorktreeID w = key_WorktreeID key) (ldb_working_sets db) of
       None \<Rightarrow> Inl CodeLocalStorage | Some w \<Rightarrow> Inr (ws_BaseContextCommitID w))"

definition revise_note :: "string \<Rightarrow> go_time \<Rightarrow> string \<Rightarrow> string \<Rightarrow> string \<Rightarrow> string slice \<Rightarrow> string \<Rightarrow> Note \<Rightarrow> Note" where
  "revise_note revisionID now body author origin topics sourceSHA current =
     current\<lparr>note_RevisionID := revisionID, note_SupersedesRevisionID := note_RevisionID current, note_Body := body,
       note_Author := author, note_Origin := origin,
       note_Topics := (case topics of None \<Rightarrow> note_Topics current | Some ts \<Rightarrow> copy_slice ts),
       note_CreatedAt := time_UTC now, note_BindingState := NoteBindingActive, note_BindingSourceSHA := sourceSHA,
       note_ReviewReason := [], note_Pending := True\<rparr>"

definition ReviseNote :: "map_order \<Rightarrow> topics_decoder \<Rightarrow> string result \<Rightarrow> go_time \<Rightarrow> WorkingSetKey \<Rightarrow> string \<Rightarrow> string \<Rightarrow> string \<Rightarrow> string
    \<Rightarrow> string slice \<Rightarrow> local_db \<Rightarrow> local_db \<times> Note result" where
  "ReviseNote ord decode newID now key noteID body author origin topics = transaction
     (tx_bind (requireWorkingSet key) (\<lambda>_.
      tx_bind (tx_query (working_parent key)) (\<lambda>parentID.
      tx_bind (tx_check (parentID \<noteq> []) CodeValidation) (\<lambda>_.
      tx_bind (committedNoteByID decode parentID noteID) (\<lambda>found.
      tx_bind (tx_found found CodeValidation) (\<lambda>parent.
      tx_bind (pendingNoteByID decode (key_WorktreeID key) noteID) (\<lambda>pending.
      tx_bind (tx_check (case pending of None \<Rightarrow> True | Some p \<Rightarrow> note_RevisionID p = note_RevisionID parent) CodeValidation) (\<lambda>_.
      let current = (case pending of None \<Rightarrow> parent | Some p \<Rightarrow> p)
      in tx_bind (tx_check (note_BindingState current = NoteBindingActive \<or> note_BindingState current = NoteBindingNeedsReview)
           CodeValidation) (\<lambda>_.
         tx_bind (tx_query (entityByKeyFresh (key_WorktreeID key) (key_SourceSHA key) (note_EntityKey current))) (\<lambda>_.
         case newID of Inl e \<Rightarrow> tx_fail CodeLocalStorage
         | Inr revisionID \<Rightarrow>
             let revised = revise_note revisionID now body author origin topics (key_SourceSHA key) current
             in tx_bind (upsertPendingNote (key_WorktreeID key) revised) (\<lambda>_.
                tx_bind (rebuildSearch ord decode key) (\<lambda>_. tx_return revised))))))))))))"

definition effectiveNote :: "topics_decoder \<Rightarrow> WorkingSetKey \<Rightarrow> string \<Rightarrow> Note lt" where
  "effectiveNote decode key noteID =
     tx_bind (pendingNoteByID decode (key_WorktreeID key) noteID) (\<lambda>pending.
     case pending of
       Some n \<Rightarrow> tx_return n
     | None \<Rightarrow>
         tx_bind (tx_query (working_parent key)) (\<lambda>parentID.
         if parentID = [] then tx_fail CodeEntityNotFound
         else tx_bind (committedNoteByID decode parentID noteID) (\<lambda>found. tx_found found CodeEntityNotFound)))"

definition ReviewNote :: "map_order \<Rightarrow> topics_decoder \<Rightarrow> WorkingSetKey \<Rightarrow> string \<Rightarrow> string \<Rightarrow> local_db \<Rightarrow> local_db \<times> Note result" where
  "ReviewNote ord decode key noteID entityKey = transaction
     (tx_bind (requireWorkingSet key) (\<lambda>_.
      tx_bind (effectiveNote decode key noteID) (\<lambda>current.
      tx_bind (tx_check (note_BindingState current = NoteBindingNeedsReview) CodeValidation) (\<lambda>_.
      tx_bind (tx_query (entityByKeyFresh (key_WorktreeID key) (key_SourceSHA key) entityKey)) (\<lambda>_.
      let confirmed = current\<lparr>note_EntityKey := entityKey, note_BindingState := NoteBindingActive,
            note_BindingSourceSHA := key_SourceSHA key, note_ReviewReason := [], note_Pending := True\<rparr>
      in tx_bind (upsertPendingNote (key_WorktreeID key) confirmed) (\<lambda>_.
         tx_bind (rebuildSearch ord decode key) (\<lambda>_. tx_return confirmed)))))))"

subsection \<open>Index updates\<close>

record LanguageProjection =
  lp_Coverage :: Coverage
  lp_Entities :: "Entity list"

definition validateProjection :: "WorkingSetKey \<Rightarrow> Coverage \<Rightarrow> Entity list \<Rightarrow> unit result" where
  "validateProjection key coverage entities =
     (if cov_Language coverage = [] \<or> cov_SourceSHA coverage \<noteq> key_SourceSHA key then Inl CodeValidation
      else if cov_State coverage \<noteq> CoverageIndexed \<and> length entities \<noteq> 0 then Inl CodeValidation
      else if list_ex (\<lambda>e. ent_Key e = [] \<or> ent_Language e \<noteq> cov_Language coverage \<or> ent_Path e = []
          \<or> ent_SourceSHA e \<noteq> key_SourceSHA key) entities then Inl CodeValidation
      else Inr ())"

definition clearUndetectedCoverage :: "string \<Rightarrow> string list \<Rightarrow> unit lt" where
  "clearUndetectedCoverage worktreeID detected =
     tx_delete ldb_coverage_update (\<lambda>c. cvr_WorktreeID c = worktreeID \<and> cov_Language (cvr_Coverage c) \<notin> set detected)"

definition apply_projection :: "WorkingSetKey \<Rightarrow> LanguageProjection \<Rightarrow> unit lt" where
  "apply_projection key projection =
     (let coverage = lp_Coverage projection; worktree = key_WorktreeID key;
          row = \<lparr>cvr_WorktreeID = worktree, cvr_Coverage = coverage\<rparr>
      in tx_bind (tx_lift (validateProjection key coverage (lp_Entities projection))) (\<lambda>_.
         tx_bind (if cov_State coverage \<noteq> CoverageIndexed then tx_return ()
           else tx_bind (tx_delete ldb_entities_update
                  (\<lambda>e. enr_WorktreeID e = worktree \<and> ent_Language (enr_Entity e) = cov_Language coverage)) (\<lambda>_.
                tx_each (\<lambda>e. tx_insert ldb_entities_update ldb_entities
                  (\<lambda>r. enr_WorktreeID r = worktree \<and> ent_Key (enr_Entity r) = ent_Key e)
                  \<lparr>enr_WorktreeID = worktree, enr_Entity = e\<lparr>ent_Language := cov_Language coverage\<rparr>\<rparr>) (lp_Entities projection))) (\<lambda>_.
         tx_upsert ldb_coverage_update
           (\<lambda>c. cvr_WorktreeID c = worktree \<and> cov_Language (cvr_Coverage c) = cov_Language coverage) (\<lambda>_. row) row)))"

text \<open>\<open>graph\<close> is \<open>loadObjectGraph\<close> for the repository and ref of the key.\<close>

type_synonym graph_loader = "string \<Rightarrow> storedContextObject list result"

definition reconcile_note :: "BindingReconciler \<Rightarrow> Entity gomap \<Rightarrow> string list \<Rightarrow> string \<Rightarrow> Note \<Rightarrow> unit lt" where
  "reconcile_note reconciler parentEntities pendingIDs worktreeID n =
     (if note_BindingState n \<noteq> NoteBindingActive \<or> note_ID n \<in> set pendingIDs then tx_return ()
      else case Reconcile reconciler n (case map_of parentEntities (note_EntityKey n) of None \<Rightarrow> zero_entity | Some e \<Rightarrow> e) of
        (updated, changed) \<Rightarrow> if \<not> changed then tx_return () else upsertPendingNote worktreeID updated)"

definition reconcileActiveBindings :: "topics_decoder \<Rightarrow> graph_loader \<Rightarrow> WorkingSetKey \<Rightarrow> unit lt" where
  "reconcileActiveBindings decode graph key =
     tx_bind (tx_read (\<lambda>db. fst (local_ref (key_RefName key) db))) (\<lambda>parentID.
     if parentID = [] then tx_return ()
     else tx_bind (tx_lift (graph parentID)) (\<lambda>chain.
       let parentEntities = entities_by_key (elems (obj_Entities (sco_Object (last chain))))
       in tx_bind (tx_read (listFreshEntities (key_WorktreeID key) (key_SourceSHA key))) (\<lambda>current.
          tx_bind (listCommittedNotes decode parentID) (\<lambda>notes.
          tx_bind (listPendingNotes decode (key_WorktreeID key)) (\<lambda>pending.
          tx_each (reconcile_note (NewBindingReconciler current (key_SourceSHA key)) parentEntities (map note_ID pending)
            (key_WorktreeID key)) notes)))))"

definition applyIndexUpdate :: "map_order \<Rightarrow> topics_decoder \<Rightarrow> graph_loader \<Rightarrow> int \<Rightarrow> WorkingSetKey \<Rightarrow> LanguageProjection list \<Rightarrow> bool \<Rightarrow> unit lt" where
  "applyIndexUpdate ord decode graph now key projections reconcileBindings =
     tx_bind (ensureWorkingSet now key) (\<lambda>_.
     tx_bind (clearUndetectedCoverage (key_WorktreeID key) (map (\<lambda>p. cov_Language (lp_Coverage p)) projections)) (\<lambda>_.
     tx_bind (tx_each (apply_projection key) projections) (\<lambda>_.
     tx_bind (if reconcileBindings then reconcileActiveBindings decode graph key else tx_return ()) (\<lambda>_.
     rebuildSearch ord decode key))))"

definition ApplyIndexUpdate :: "map_order \<Rightarrow> topics_decoder \<Rightarrow> graph_loader \<Rightarrow> int \<Rightarrow> WorkingSetKey \<Rightarrow> LanguageProjection list
    \<Rightarrow> local_db \<Rightarrow> local_db \<times> unit result" where
  "ApplyIndexUpdate ord decode graph now key projections =
     transaction (applyIndexUpdate ord decode graph now key projections True)"

end
