(* ===== verification/Local_Commits.thy ===== *)
theory Local_Commits
  imports Local_Index
begin

text \<open>
  Committing and synchronising the local store: store/snapshot.go, \<open>Rebuild\<close> of store/objects.go and
  store/remote.go.  Each operation is one transaction; the object files of the ancestry are read by
  the parameter \<open>graph\<close>.
\<close>

subsection \<open>Commits\<close>

record CommitSnapshot =
  snap_Entities :: "Entity list"
  snap_CommittedNotes :: "Note list"
  snap_PendingNotes :: "Note list"
  snap_ParentID :: string
  snap_WorkingSource :: string

definition read_CommitSnapshot :: "topics_decoder \<Rightarrow> WorkingSetKey \<Rightarrow> CommitSnapshot lt" where
  "read_CommitSnapshot decode key =
     tx_bind (requireWorkingSet key) (\<lambda>_.
     tx_bind (tx_read (\<lambda>db. take_row (\<lambda>w. ws_WorktreeID w = key_WorktreeID key) (ldb_working_sets db))) (\<lambda>found.
     tx_bind (tx_found found CodeLocalStorage) (\<lambda>w.
     tx_bind (tx_read (listFreshEntities (key_WorktreeID key) (ws_SourceSHA w))) (\<lambda>entities.
     tx_bind (if ws_BaseContextCommitID w = [] then tx_return [] else listCommittedNotes decode (ws_BaseContextCommitID w)) (\<lambda>notes.
     tx_bind (listPendingNotes decode (key_WorktreeID key)) (\<lambda>pending.
     tx_return \<lparr>snap_Entities = entities, snap_CommittedNotes = notes, snap_PendingNotes = pending,
       snap_ParentID = ws_BaseContextCommitID w, snap_WorkingSource = ws_SourceSHA w\<rparr>))))))"

definition samePendingNote :: "Note \<Rightarrow> Note \<Rightarrow> bool" where
  "samePendingNote actual expected \<longleftrightarrow> note_ID actual = note_ID expected \<and> note_RevisionID actual = note_RevisionID expected
     \<and> note_SupersedesRevisionID actual = note_SupersedesRevisionID expected \<and> note_EntityKey actual = note_EntityKey expected
     \<and> note_Kind actual = note_Kind expected \<and> note_Body actual = note_Body expected \<and> note_Author actual = note_Author expected
     \<and> note_Origin actual = note_Origin expected \<and> time_Equal (note_CreatedAt actual) (note_CreatedAt expected)
     \<and> note_BindingState actual = note_BindingState expected \<and> note_BindingSourceSHA actual = note_BindingSourceSHA expected
     \<and> note_ReviewReason actual = note_ReviewReason expected \<and> elems (note_Topics actual) = elems (note_Topics expected)"

text \<open>
  \<open>samePendingSnapshot\<close>: the IDs are distinct and not empty, the snapshot has exactly one note with
  each of them, and the current notes are those.
\<close>

definition expected_notes :: "string list \<Rightarrow> Note list \<Rightarrow> Note list" where
  "expected_notes expectedIDs snapshot = filter (\<lambda>n. note_ID n \<in> set expectedIDs) snapshot"

definition samePendingSnapshot :: "Note list \<Rightarrow> string list \<Rightarrow> Note list \<Rightarrow> bool" where
  "samePendingSnapshot current expectedIDs snapshot \<longleftrightarrow>
     length current = length expectedIDs \<and> [] \<notin> set expectedIDs \<and> distinct expectedIDs
     \<and> distinct (map note_ID (expected_notes expectedIDs snapshot))
     \<and> length (expected_notes expectedIDs snapshot) = length expectedIDs
     \<and> list_all (\<lambda>n. case List.find (\<lambda>e. note_ID e = note_ID n) (expected_notes expectedIDs snapshot) of
         None \<Rightarrow> False | Some expected \<Rightarrow> samePendingNote n expected) current"

definition commit_row :: "ContextCommit \<Rightarrow> commitRow" where
  "commit_row c = \<lparr>cmr_CommitID = commit_ID c, cmr_ParentID = commit_ParentID c, cmr_RefName = commit_RefName c,
     cmr_SourceSHA = commit_SourceSHA c, cmr_Message = commit_Message c, cmr_Author = commit_Author c,
     cmr_CreatedAt = UnixNano (commit_CreatedAt c)\<rparr>"

definition insert_commit :: "ContextCommit \<Rightarrow> unit lt" where
  "insert_commit c = tx_insert ldb_commits_update ldb_commits (\<lambda>r. cmr_CommitID r = commit_ID c) (commit_row c)"

primrec insert_parents_from :: "int \<Rightarrow> string \<Rightarrow> string list \<Rightarrow> unit lt" where
  "insert_parents_from i commitID [] = tx_return ()"
| "insert_parents_from i commitID (parentID # parents) =
     tx_bind (if parentID = [] then tx_return ()
       else tx_insert_ignore ldb_parents_update (\<lambda>p. par_CommitID p = commitID \<and> par_Index p = i)
         \<lparr>par_CommitID = commitID, par_Index = i, par_ParentID = parentID\<rparr>) (\<lambda>_.
     insert_parents_from (i + 1) commitID parents)"

definition insertContextCommitParents :: "string \<Rightarrow> string list \<Rightarrow> unit lt" where
  "insertContextCommitParents = insert_parents_from 0"

definition insert_note :: "string \<Rightarrow> Note \<Rightarrow> unit lt" where
  "insert_note commitID n =
     tx_insert ldb_notes_update ldb_notes (\<lambda>r. nr_Owner r = commitID \<and> nr_NoteID r = note_ID n) (note_row commitID n)"

definition set_ref :: "string \<Rightarrow> string \<Rightarrow> localRefRow \<Rightarrow> localRefRow" where
  "set_ref commitID sourceSHA r = r\<lparr>lrr_CommitID := commitID, lrr_SourceSHA := sourceSHA, lrr_Version := lrr_Version r + 1\<rparr>"

definition set_base :: "string \<Rightarrow> workingSetRow \<Rightarrow> workingSetRow" where
  "set_base commitID w = w\<lparr>ws_BaseContextCommitID := commitID\<rparr>"

text \<open>Create the ref, or move it from the commit and version it was read with.\<close>

definition advance_ref :: "string \<Rightarrow> string \<Rightarrow> int \<Rightarrow> string \<Rightarrow> string \<Rightarrow> unit lt" where
  "advance_ref refName fromCommit fromVersion commitID sourceSHA =
     (if fromCommit = [] then tx_insert ldb_refs_update ldb_refs (\<lambda>r. lrr_RefName r = refName)
        \<lparr>lrr_RefName = refName, lrr_CommitID = commitID, lrr_SourceSHA = sourceSHA, lrr_Version = 1\<rparr>
      else tx_bind (tx_update ldb_refs_update ldb_refs
             (\<lambda>r. lrr_RefName r = refName \<and> lrr_Version r = fromVersion \<and> lrr_CommitID r = fromCommit) (set_ref commitID sourceSHA))
           (\<lambda>changed. tx_check (changed = 1) CodeConcurrentUpdate))"

record FinalizeInput =
  fin_Key :: WorkingSetKey
  fin_ExpectedParent :: string
  fin_PendingNoteIDs :: "string list"
  fin_Commit :: ContextCommit
  fin_Notes :: "Note list"

definition finalize_commit :: "map_order \<Rightarrow> topics_decoder \<Rightarrow> FinalizeInput \<Rightarrow> unit lt" where
  "finalize_commit ord decode input =
     (let key = fin_Key input; worktree = key_WorktreeID key; commit = fin_Commit input in
     tx_bind (tx_read (\<lambda>db. take_row (\<lambda>w. ws_WorktreeID w = worktree) (ldb_working_sets db))) (\<lambda>found.
     tx_bind (tx_found found CodeStaleWorkingSet) (\<lambda>w.
     tx_bind (tx_check (ws_SourceSHA w = key_SourceSHA key \<and> ws_RefName w = key_RefName key
         \<and> ws_BaseContextCommitID w = fin_ExpectedParent input) CodeStaleWorkingSet) (\<lambda>_.
     tx_bind (tx_read (pending_count worktree)) (\<lambda>pendingCount.
     tx_bind (tx_check (pendingCount \<noteq> 0) CodeNothingToCommit) (\<lambda>_.
     tx_bind (listPendingNotes decode worktree) (\<lambda>currentPending.
     tx_bind (tx_check (samePendingSnapshot currentPending (fin_PendingNoteIDs input) (fin_Notes input)) CodeConcurrentUpdate) (\<lambda>_.
     tx_bind (tx_read (local_ref (key_RefName key))) (\<lambda>(currentParent, version).
     tx_bind (tx_check (currentParent = fin_ExpectedParent input) CodeConcurrentUpdate) (\<lambda>_.
     tx_bind (insert_commit commit) (\<lambda>_.
     tx_bind (insertContextCommitParents (commit_ID commit) [commit_ParentID commit]) (\<lambda>_.
     tx_bind (tx_delete ldb_notes_update (\<lambda>r. nr_Owner r = commit_ID commit)) (\<lambda>_.
     tx_bind (tx_each (insert_note (commit_ID commit)) (fin_Notes input)) (\<lambda>_.
     tx_bind (advance_ref (key_RefName key) currentParent version (commit_ID commit) (commit_SourceSHA commit)) (\<lambda>_.
     tx_bind (tx_delete ldb_pending_update (\<lambda>r. nr_Owner r = worktree)) (\<lambda>_.
     tx_bind (tx_update ldb_working_sets_update ldb_working_sets (\<lambda>w. ws_WorktreeID w = worktree) (set_base (commit_ID commit))) (\<lambda>_.
     rebuildSearch ord decode key)))))))))))))))))"

definition commitWasFinalized :: "FinalizeInput \<Rightarrow> local_db \<Rightarrow> bool" where
  "commitWasFinalized input db \<longleftrightarrow>
     rows_affected (\<lambda>r. cmr_CommitID r = commit_ID (fin_Commit input)) (ldb_commits db) = 1
     \<and> (case take_row (\<lambda>r. lrr_RefName r = key_RefName (fin_Key input)) (ldb_refs db) of
          None \<Rightarrow> False | Some r \<Rightarrow> lrr_CommitID r = commit_ID (fin_Commit input))
     \<and> pending_count (key_WorktreeID (fin_Key input)) db = 0"

definition FinalizeCommit :: "map_order \<Rightarrow> topics_decoder \<Rightarrow> FinalizeInput \<Rightarrow> local_db \<Rightarrow> local_db \<times> unit result" where
  "FinalizeCommit ord decode input db = (case transaction (finalize_commit ord decode input) db of
       (db', Inr _) \<Rightarrow> (db', Inr ())
     | (db', Inl e) \<Rightarrow> (db', if commitWasFinalized input db' then Inr () else Inl e))"

subsection \<open>Rebuilding\<close>

definition projectionEmpty :: "local_db \<Rightarrow> bool" where
  "projectionEmpty db \<longleftrightarrow> ldb_working_sets db = [] \<and> ldb_entities db = [] \<and> ldb_coverage db = [] \<and> ldb_pending db = []
     \<and> ldb_commits db = [] \<and> ldb_refs db = [] \<and> ldb_notes db = [] \<and> ldb_search db = []"

definition object_commit :: "storedContextObject \<Rightarrow> ContextCommit" where
  "object_commit item = (let obj = sco_Object item in
     \<lparr>commit_ID = sco_ID item, commit_ParentID = contextObjectPrimaryParentID obj, commit_RefName = obj_RefName obj,
      commit_SourceSHA = obj_SourceSHA obj, commit_Message = obj_Message obj, commit_Author = obj_Author obj,
      commit_CreatedAt = obj_CreatedAt obj\<rparr>)"

definition restore_object :: "storedContextObject \<Rightarrow> unit lt" where
  "restore_object item =
     tx_bind (insert_commit (object_commit item)) (\<lambda>_.
     tx_bind (insertContextCommitParents (sco_ID item) (contextObjectParentIDs (sco_Object item))) (\<lambda>_.
     tx_each (insert_note (sco_ID item)) (elems (obj_Notes (sco_Object item)))))"

record RebuildInput =
  reb_Key :: WorkingSetKey
  reb_CommitID :: string
  reb_Projections :: "LanguageProjection list"

definition Rebuild :: "map_order \<Rightarrow> topics_decoder \<Rightarrow> graph_loader \<Rightarrow> int \<Rightarrow> RebuildInput \<Rightarrow> local_db \<Rightarrow> local_db \<times> (string \<times> int) result" where
  "Rebuild ord decode graph now input db = (case graph (reb_CommitID input) of
       Inl e \<Rightarrow> (db, Inl e)
     | Inr chain \<Rightarrow>
       let tip = last chain; key = reb_Key input in transaction
         (tx_bind (tx_read projectionEmpty) (\<lambda>empty.
          tx_bind (tx_check empty CodeWorkingSetDirty) (\<lambda>_.
          tx_bind (tx_each restore_object chain) (\<lambda>_.
          tx_bind (tx_insert ldb_refs_update ldb_refs (\<lambda>r. lrr_RefName r = key_RefName key)
            \<lparr>lrr_RefName = key_RefName key, lrr_CommitID = sco_ID tip, lrr_SourceSHA = obj_SourceSHA (sco_Object tip),
              lrr_Version = int (length chain)\<rparr>) (\<lambda>_.
          tx_bind (applyIndexUpdate ord decode graph now key (reb_Projections input) False) (\<lambda>_.
          tx_return (sco_ID tip, int (length chain)))))))) db)"

subsection \<open>Remotes\<close>

record ContextRef =
  cref_RefName :: string
  cref_CommitID :: string
  cref_SourceSHA :: string
  cref_Version :: int

definition currentContextRef :: "string \<Rightarrow> local_db \<Rightarrow> ContextRef" where
  "currentContextRef refName db = (case take_row (\<lambda>r. lrr_RefName r = refName) (ldb_refs db) of
       None \<Rightarrow> \<lparr>cref_RefName = refName, cref_CommitID = [], cref_SourceSHA = [], cref_Version = 0\<rparr>
     | Some r \<Rightarrow> \<lparr>cref_RefName = refName, cref_CommitID = lrr_CommitID r, cref_SourceSHA = lrr_SourceSHA r, cref_Version = lrr_Version r\<rparr>)"

definition read_ContextRef :: "WorkingSetKey \<Rightarrow> ContextRef lt" where
  "read_ContextRef key = tx_bind (requireWorkingSet key) (\<lambda>_. tx_read (currentContextRef (key_RefName key)))"

text \<open>The commit, its parents and its notes, unless they are already there.\<close>

definition materialize_object :: "storedContextObject \<Rightarrow> unit lt" where
  "materialize_object item =
     tx_bind (tx_insert_ignore ldb_commits_update (\<lambda>r. cmr_CommitID r = sco_ID item) (commit_row (object_commit item))) (\<lambda>_.
     tx_bind (insertContextCommitParents (sco_ID item) (contextObjectParentIDs (sco_Object item))) (\<lambda>_.
     tx_each (\<lambda>n. tx_insert_ignore ldb_notes_update (\<lambda>r. nr_Owner r = sco_ID item \<and> nr_NoteID r = note_ID n)
       (note_row (sco_ID item) n)) (elems (obj_Notes (sco_Object item)))))"

definition insertContextChain :: "storedContextObject list \<Rightarrow> unit lt" where
  "insertContextChain chain = tx_each materialize_object chain"

record FastForwardInput =
  ff_Key :: WorkingSetKey
  ff_Expected :: ContextRef
  ff_Next :: ContextRef

text \<open>The transaction of \<open>FastForward\<close> and \<open>PrepareLandingRecovery\<close>.\<close>

definition fast_forward :: "map_order \<Rightarrow> topics_decoder \<Rightarrow> FastForwardInput \<Rightarrow> storedContextObject list \<Rightarrow> unit lt" where
  "fast_forward ord decode input chain =
     (let key = ff_Key input; nxt = ff_Next input in
     tx_bind (requireWorkingSet key) (\<lambda>_.
     tx_bind (tx_read (currentContextRef (key_RefName key))) (\<lambda>actual.
     tx_bind (tx_check (actual = ff_Expected input) CodeConcurrentUpdate) (\<lambda>_.
     tx_bind (tx_read (pending_count (key_WorktreeID key))) (\<lambda>pendingCount.
     tx_bind (tx_check (pendingCount = 0) CodeWorkingSetDirty) (\<lambda>_.
     tx_bind (insertContextChain chain) (\<lambda>_.
     tx_bind (advance_ref (key_RefName key) (cref_CommitID actual) (cref_Version actual) (cref_CommitID nxt) (cref_SourceSHA nxt)) (\<lambda>_.
     tx_bind (tx_update ldb_working_sets_update ldb_working_sets
         (\<lambda>w. ws_WorktreeID w = key_WorktreeID key \<and> ws_RefName w = key_RefName key \<and> ws_SourceSHA w = key_SourceSHA key)
         (set_base (cref_CommitID nxt))) (\<lambda>changed.
     tx_bind (tx_check (changed = 1) CodeStaleWorkingSet) (\<lambda>_.
     rebuildSearch ord decode key))))))))))"

definition in_chain :: "string \<Rightarrow> storedContextObject list \<Rightarrow> bool" where
  "in_chain commitID chain \<longleftrightarrow> commitID = [] \<or> list_ex (\<lambda>item. sco_ID item = commitID) chain"

definition FastForward :: "map_order \<Rightarrow> topics_decoder \<Rightarrow> graph_loader \<Rightarrow> FastForwardInput \<Rightarrow> local_db \<Rightarrow> local_db \<times> unit result" where
  "FastForward ord decode graph input db =
     (let key = ff_Key input; nxt = ff_Next input in
      if cref_RefName nxt \<noteq> key_RefName key \<or> cref_CommitID nxt = [] \<or> cref_SourceSHA nxt \<noteq> key_SourceSHA key
      then (db, Inl CodeValidation)
      else case graph (cref_CommitID nxt) of
        Inl e \<Rightarrow> (db, Inl e)
      | Inr chain \<Rightarrow>
          if obj_SourceSHA (sco_Object (last chain)) \<noteq> key_SourceSHA key then (db, Inl CodeStaleWorkingSet)
          else if \<not> in_chain (cref_CommitID (ff_Expected input)) chain then (db, Inl CodeRemoteConflict)
          else transaction (fast_forward ord decode input chain) db)"

definition PrepareLandingRecovery :: "map_order \<Rightarrow> topics_decoder \<Rightarrow> graph_loader \<Rightarrow> FastForwardInput \<Rightarrow> local_db \<Rightarrow> local_db \<times> unit result" where
  "PrepareLandingRecovery ord decode graph input db =
     (let key = ff_Key input; nxt = ff_Next input in
      if cref_RefName nxt \<noteq> key_RefName key \<or> cref_CommitID nxt = [] \<or> cref_SourceSHA nxt = [] then (db, Inl CodeValidation)
      else case graph (cref_CommitID nxt) of
        Inl e \<Rightarrow> (db, Inl e)
      | Inr chain \<Rightarrow>
          if obj_SourceSHA (sco_Object (last chain)) \<noteq> cref_SourceSHA nxt then (db, Inl CodeValidation)
          else if \<not> in_chain (cref_CommitID (ff_Expected input)) chain then (db, Inl CodeRemoteConflict)
          else transaction (fast_forward ord decode input chain) db)"

definition AddRemote :: "string \<Rightarrow> string \<Rightarrow> local_db \<Rightarrow> local_db \<times> (string \<times> string) result" where
  "AddRemote remoteName path db = (case NormalizeRemoteName remoteName of
       Inl e \<Rightarrow> (db, Inl e)
     | Inr name \<Rightarrow>
       if TrimSpace path = [] then (db, Inl CodeValidation)
       else transaction
         (tx_bind (tx_read (\<lambda>db. take_row (\<lambda>r. rmr_Name r = name) (ldb_remotes db))) (\<lambda>found.
          case found of
            None \<Rightarrow> tx_bind (tx_insert ldb_remotes_update ldb_remotes (\<lambda>r. rmr_Name r = name) \<lparr>rmr_Name = name, rmr_Path = path\<rparr>)
              (\<lambda>_. tx_return (name, path))
          | Some r \<Rightarrow> tx_bind (tx_check (rmr_Path r = path) CodeValidation) (\<lambda>_. tx_return (name, path)))) db)"

definition read_Remote :: "string \<Rightarrow> local_db \<Rightarrow> (string \<times> string) result" where
  "read_Remote remoteName db =
     and_then (NormalizeRemoteName remoteName) (\<lambda>name.
     case take_row (\<lambda>r. rmr_Name r = name) (ldb_remotes db) of
       None \<Rightarrow> Inl CodeValidation | Some r \<Rightarrow> Inr (rmr_Name r, rmr_Path r))"

record RemoteRef =
  rref_RemoteName :: string
  rref_RefName :: string
  rref_CommitID :: string
  rref_SourceSHA :: string
  rref_Version :: int

definition RecordRemoteRef :: "RemoteRef \<Rightarrow> local_db \<Rightarrow> local_db \<times> unit result" where
  "RecordRemoteRef ref db = (case NormalizeRemoteName (rref_RemoteName ref) of
       Inl e \<Rightarrow> (db, Inl e)
     | Inr name \<Rightarrow>
       if rref_RefName ref = [] \<or> rref_SourceSHA ref = [] \<or> rref_Version ref < 1 then (db, Inl CodeValidation)
       else (case NormalizeContextCommitID (rref_CommitID ref) of
         Inl e \<Rightarrow> (db, Inl e)
       | Inr commitID \<Rightarrow>
         let row = \<lparr>rrr_RemoteName = name, rrr_RefName = rref_RefName ref, rrr_CommitID = commitID,
               rrr_SourceSHA = rref_SourceSHA ref, rrr_Version = rref_Version ref\<rparr>;
             same = (\<lambda>r. rrr_RemoteName r = name \<and> rrr_RefName r = rref_RefName ref)
         in transaction
           (tx_bind (tx_read (\<lambda>db. take_row same (ldb_remote_refs db))) (\<lambda>found.
            tx_bind (tx_check (case found of None \<Rightarrow> True | Some existing \<Rightarrow>
                rrr_Version existing \<le> rref_Version ref
                \<and> (rrr_Version existing = rref_Version ref \<longrightarrow> rrr_CommitID existing = commitID \<and> rrr_SourceSHA existing = rref_SourceSHA ref))
              CodeRemoteConflict) (\<lambda>_.
            tx_upsert ldb_remote_refs_update same (\<lambda>_. row) row)) ) db))"

end
