(* ===== verification/Local_Queries.thy ===== *)
theory Local_Queries
  imports Local_Commits
begin

text \<open>
  The read-only queries of the local store (store/query.go) that are not full-text search: status
  and coverage, the entities related to one, the context of an entity, and the log of commits.  Each
  reads one state of the database.
\<close>

subsection \<open>Status\<close>

record Status =
  st_RepositoryID :: string
  st_WorktreeID :: string
  st_RefName :: string
  st_SourceSHA :: string
  st_EntityCount :: nat
  st_PendingNotes :: nat
  st_ContextCommitID :: string
  st_CoverageComplete :: bool
  st_Coverage :: "Coverage list"

definition read_Status :: "WorkingSetKey \<Rightarrow> local_db \<Rightarrow> Status" where
  "read_Status key db =
     (let source = (case take_row (\<lambda>w. ws_WorktreeID w = key_WorktreeID key) (ldb_working_sets db) of
            None \<Rightarrow> key_SourceSHA key | Some w \<Rightarrow> ws_SourceSHA w);
          coverage = listCoverage (key_WorktreeID key) db
      in \<lparr>st_RepositoryID = key_RepositoryID key, st_WorktreeID = key_WorktreeID key, st_RefName = key_RefName key,
        st_SourceSHA = source, st_EntityCount = length (fresh_rows (key_WorktreeID key) source db),
        st_PendingNotes = pending_count (key_WorktreeID key) db,
        st_ContextCommitID = fst (local_ref (key_RefName key) db),
        st_CoverageComplete = coverageComplete coverage source, st_Coverage = coverage\<rparr>)"

definition read_CoverageComplete :: "WorkingSetKey \<Rightarrow> bool lt" where
  "read_CoverageComplete key = tx_bind (requireWorkingSet key) (\<lambda>_.
     tx_read (\<lambda>db. coverageComplete (listCoverage (key_WorktreeID key) db) (key_SourceSHA key)))"

subsection \<open>Related entities\<close>

record RelatedEntity =
  rel_EntityKey :: string
  rel_Name :: string
  rel_Path :: string
  rel_EdgeKind :: string
  rel_Fresh :: bool

definition ownerKind :: "EntityKind \<Rightarrow> bool" where
  "ownerKind kind \<longleftrightarrow> kind \<in> {EntityType, EntityClass, EntityInterface}"

definition relatedEntity :: "Entity \<Rightarrow> string \<Rightarrow> RelatedEntity" where
  "relatedEntity e edgeKind = \<lparr>rel_EntityKey = ent_Key e, rel_Name = ent_Name e, rel_Path = ent_Path e,
     rel_EdgeKind = edgeKind, rel_Fresh = True\<rparr>"

text \<open>The part before the last dot; empty when the dot is missing or the first byte.\<close>

definition methodOwnerKey :: "string \<Rightarrow> string" where
  "methodOwnerKey entityKey = (case LastIndexByte (CHR ''.'') entityKey of None \<Rightarrow> [] | Some i \<Rightarrow> take i entityKey)"

text \<open>\<open>strings.Index\<close>\<close>

fun Index :: "string \<Rightarrow> string \<Rightarrow> nat option" where
  "Index s sub = (if HasPrefix s sub then Some 0 else case s of [] \<Rightarrow> None | _ # rest \<Rightarrow> map_option Suc (Index rest sub))"

declare Index.simps [simp del]

definition methodMarker :: string where
  "methodMarker = ''#method:''"

definition owner_at :: "Entity gomap \<Rightarrow> string \<Rightarrow> Entity option" where
  "owner_at byKey key = (case map_of byKey key of None \<Rightarrow> None | Some e \<Rightarrow> if ownerKind (ent_Kind e) then Some e else None)"

definition methodOwner :: "Entity \<Rightarrow> Entity gomap \<Rightarrow> Entity option" where
  "methodOwner method byKey = (case owner_at byKey (methodOwnerKey (ent_Key method)) of
       Some owner \<Rightarrow> Some owner
     | None \<Rightarrow> (case Index (ent_Key method) methodMarker of
         None \<Rightarrow> None
       | Some marker \<Rightarrow>
           let qualifiedName = drop (marker + length methodMarker) (ent_Key method); ownerName = methodOwnerKey qualifiedName
           in if ownerName = [] then None
              else (case List.map_filter (\<lambda>kind. owner_at byKey (take marker (ent_Key method) @ ''#'' @ kind @ '':'' @ ownerName))
                  [EntityClass, EntityInterface, EntityType] of
                [] \<Rightarrow> None | owner # _ \<Rightarrow> Some owner)))"

definition related_methods :: "Entity \<Rightarrow> Entity list \<Rightarrow> RelatedEntity gomap \<Rightarrow> RelatedEntity gomap" where
  "related_methods root entities related = foldl (\<lambda>m e.
     if ent_Kind e = EntityMethod \<and> methodOwnerKey (ent_Key e) = ent_Key root then map_put (ent_Key e) (relatedEntity e ''method_owner'') m
     else m) related entities"

definition related_same_file :: "Entity \<Rightarrow> Entity list \<Rightarrow> RelatedEntity gomap \<Rightarrow> RelatedEntity gomap" where
  "related_same_file root entities related = foldl (\<lambda>m e.
     if ent_Key e = ent_Key root \<or> ent_Path e \<noteq> ent_Path root \<or> map_of m (ent_Key e) \<noteq> None then m
     else map_put (ent_Key e) (relatedEntity e ''same_file'') m) related entities"

definition relatedFromEntities :: "map_order \<Rightarrow> Entity \<Rightarrow> Entity list \<Rightarrow> RelatedEntity list" where
  "relatedFromEntities ord root entities =
     (let byKey = entities_by_key entities;
          owner = (if ent_Kind root \<noteq> EntityMethod then []
            else case methodOwner root byKey of None \<Rightarrow> [] | Some e \<Rightarrow> [(ent_Key e, relatedEntity e ''method_owner'')]);
          methods = (if ownerKind (ent_Kind root) then related_methods root entities owner else owner);
          related = related_same_file root entities methods
      in sort_key (\<lambda>r. (rel_EdgeKind r, rel_EntityKey r)) (map snd (map_range ord 0 related)))"

definition maxRelatedLimit :: int where "maxRelatedLimit = 100"

definition Related :: "map_order \<Rightarrow> WorkingSetKey \<Rightarrow> string \<Rightarrow> int \<Rightarrow> RelatedEntity list lt" where
  "Related ord key entityKey limit =
     tx_bind (tx_check (TrimSpace entityKey \<noteq> []) CodeValidation) (\<lambda>_.
     tx_bind (tx_check (1 \<le> limit \<and> limit \<le> maxRelatedLimit) CodeValidation) (\<lambda>_.
     tx_bind (requireWorkingSet key) (\<lambda>_.
     tx_bind (tx_query (entityByKeyFresh (key_WorktreeID key) (key_SourceSHA key) entityKey)) (\<lambda>root.
     tx_bind (tx_read (listFreshEntities (key_WorktreeID key) (key_SourceSHA key))) (\<lambda>entities.
     tx_return (take (nat limit) (relatedFromEntities ord root entities)))))))"

subsection \<open>Context and log\<close>

definition read_Context :: "map_order \<Rightarrow> topics_decoder \<Rightarrow> WorkingSetKey \<Rightarrow> string \<Rightarrow> (Entity \<times> Note list) lt" where
  "read_Context ord decode key entityKey =
     tx_bind (requireWorkingSet key) (\<lambda>_.
     tx_bind (tx_query (entityByKeyFresh (key_WorktreeID key) (key_SourceSHA key) entityKey)) (\<lambda>entity.
     tx_bind (tx_read (\<lambda>db. fst (local_ref (key_RefName key) db))) (\<lambda>parent.
     tx_bind (if parent = [] then tx_return [] else listCommittedNotes decode parent) (\<lambda>committed.
     tx_bind (listPendingNotes decode (key_WorktreeID key)) (\<lambda>pending.
     tx_return (entity, filter (\<lambda>n. note_EntityKey n = entityKey \<and> note_BindingState n = NoteBindingActive)
       (effectiveNotes ord committed pending)))))))"

definition row_commit :: "commitRow \<Rightarrow> ContextCommit" where
  "row_commit r = \<lparr>commit_ID = cmr_CommitID r, commit_ParentID = cmr_ParentID r, commit_RefName = cmr_RefName r,
     commit_SourceSHA = cmr_SourceSHA r, commit_Message = cmr_Message r, commit_Author = cmr_Author r,
     commit_CreatedAt = time_Unix (cmr_CreatedAt r)\<rparr>"

definition read_Log :: "WorkingSetKey \<Rightarrow> int \<Rightarrow> local_db \<Rightarrow> ContextCommit list" where
  "read_Log key limit db = map row_commit (take (nat (if limit \<le> 0 then 20 else limit))
     (sort_key (\<lambda>r. - cmr_CreatedAt r) (filter (\<lambda>r. cmr_RefName r = key_RefName key) (ldb_commits db))))"

end
