(* ===== verification/Context_Commits.thy ===== *)
theory Context_Commits
  imports Local_Queries Object_Json
begin

text \<open>
  The commit of pending notes (app/commit.go): the context object that is built from a snapshot of
  the store, its content-addressed file, and the transaction that makes it the tip of the ref.  The
  state is the database and the directory of objects; what Git and the operating system report
  during a run is a record of their results.
\<close>

subsection \<open>The stored ancestry\<close>

text \<open>
  BLAKE3, the JSON decoder of objects and the fuel of the search for ancestors; with fuel for every
  loadable object the search ends (\<open>visit_terminates\<close>) and the last case does not arise.
\<close>

record object_env =
  oe_blake3 :: "string \<Rightarrow> string"
  oe_decode :: "string \<Rightarrow> ContextObject json_decoded"
  oe_fuel :: nat

definition stored_graph :: "object_env \<Rightarrow> object_dir \<Rightarrow> WorkingSetKey \<Rightarrow> graph_loader" where
  "stored_graph env dir key commitID = (case loadObjectGraph (oe_blake3 env) (oe_decode env) (oe_fuel env) dir
       commitID (key_RepositoryID key) (key_RefName key) of Some r \<Rightarrow> r | None \<Rightarrow> Inl CodeLocalStorage)"

definition stored_object :: "object_env \<Rightarrow> object_dir \<Rightarrow> WorkingSetKey \<Rightarrow> string \<Rightarrow> ContextObject result" where
  "stored_object env dir key commitID = and_then (stored_graph env dir key commitID) (\<lambda>chain. Inr (sco_Object (last chain)))"

subsection \<open>The committed object\<close>

definition mergeNotes :: "map_order \<Rightarrow> Note list \<Rightarrow> Note list \<Rightarrow> Note list" where
  "mergeNotes ord committed pending = map snd (map_range ord 0 (notes_by_id (committed @ pending)))"

definition coverage_provenance :: "Coverage \<Rightarrow> ContextSnapshotProvenance" where
  "coverage_provenance c = \<lparr>prov_Language = cov_Language c, prov_IndexerID = cov_IndexerID c,
     prov_IndexerVersion = cov_IndexerVersion c, prov_SourceSHA = cov_SourceSHA c\<rparr>"

definition contextSnapshotProvenance :: "Coverage list \<Rightarrow> string \<Rightarrow> ContextSnapshotProvenance list result" where
  "contextSnapshotProvenance coverage sourceSHA =
     (if list_ex (\<lambda>c. cov_Language c = [] \<or> cov_State c \<noteq> CoverageIndexed \<or> cov_IndexerID c = [] \<or> cov_IndexerVersion c = []
         \<or> cov_SourceSHA c \<noteq> sourceSHA) coverage then Inl CodeValidation
      else let provenance = sort_key prov_Language (map coverage_provenance coverage)
        in if distinct_adj (map prov_Language provenance) then Inr provenance else Inl CodeValidation)"

definition contextSnapshotWriteVersion :: "ContextObject list \<Rightarrow> int" where
  "contextSnapshotWriteVersion parents = (if list_ex (\<lambda>p. obj_SchemaVersion p = 4) parents then 4 else 3)"

definition contextSnapshotParents :: "(string \<Rightarrow> ContextObject result) \<Rightarrow> string \<Rightarrow> (string list \<times> string \<times> int) result" where
  "contextSnapshotParents reader parentID =
     (if parentID = [] then Inr ([], [], 3)
      else and_then (reader parentID) (\<lambda>parent.
        if \<not> IsContextSnapshotSchema (obj_SchemaVersion parent) then Inr ([], parentID, 3)
        else Inr ([parentID], [], contextSnapshotWriteVersion [parent])))"

definition mapping_order :: "ContextRevisionMapping \<Rightarrow> string \<times> string \<times> string" where
  "mapping_order m = (map_EntityKey m, map_NoteID m, map_RevisionID m)"

definition contextRevisionMappings :: "Note list \<Rightarrow> ContextRevisionMapping list" where
  "contextRevisionMappings notes = sort_key mapping_order (map note_mapping notes)"

definition commit_notes :: "map_order \<Rightarrow> CommitSnapshot \<Rightarrow> Note list" where
  "commit_notes ord snapshot = sort_key note_ID
     (map (\<lambda>n. n\<lparr>note_Pending := False\<rparr>) (mergeNotes ord (snap_CommittedNotes snapshot) (snap_PendingNotes snapshot)))"

definition context_object :: "WorkingSetKey \<Rightarrow> string list \<times> string \<times> int \<Rightarrow> string \<Rightarrow> string \<Rightarrow> go_time
    \<Rightarrow> ContextSnapshotProvenance list \<Rightarrow> Entity list \<Rightarrow> Note list \<Rightarrow> ContextObject" where
  "context_object key parents message author createdAt provenance entities notes =
     \<lparr>obj_SchemaVersion = snd (snd parents), obj_RepositoryID = key_RepositoryID key, obj_RefName = key_RefName key,
      obj_ParentID = [], obj_ParentIDs = fst parents, obj_LegacyParentID = fst (snd parents), obj_SourceSHA = key_SourceSHA key,
      obj_Message = message, obj_Author = author, obj_CreatedAt = createdAt, obj_Provenance = provenance,
      obj_Entities = Some (sort_key ent_Key entities), obj_Notes = Some notes,
      obj_RevisionMappings = contextRevisionMappings notes, obj_LandingReceipts = []\<rparr>"

subsection \<open>Commit\<close>

text \<open>
  What a run meets: Git's state at the start (\<open>mutableKey\<close>; the head of the state is the source of
  the key), the two checks around the write, the default author, opening the store, the clock and
  the faults of the write.
\<close>

record commit_run =
  run_key :: "WorkingSetKey result"
  run_default_author :: string
  run_store :: "unit result"
  run_now :: go_time
  run_before_write :: "unit result"
  run_write :: write_fault
  run_after_write :: "unit result"

record CommitInput =
  cin_Message :: string
  cin_Author :: string

type_synonym local_state = "local_db \<times> object_dir"

definition finalize_input :: "WorkingSetKey \<Rightarrow> CommitSnapshot \<Rightarrow> ContextCommit \<Rightarrow> Note list \<Rightarrow> FinalizeInput" where
  "finalize_input key snapshot commit notes = \<lparr>fin_Key = key, fin_ExpectedParent = snap_ParentID snapshot,
     fin_PendingNoteIDs = map note_ID (snap_PendingNotes snapshot), fin_Commit = commit, fin_Notes = notes\<rparr>"

text \<open>Everything \<open>Commit\<close> reads before it writes: the key, the snapshot and the object.\<close>

definition commit_plan :: "object_env \<Rightarrow> map_order \<Rightarrow> topics_decoder \<Rightarrow> commit_run \<Rightarrow> CommitInput
    \<Rightarrow> local_state \<Rightarrow> (WorkingSetKey \<times> CommitSnapshot \<times> ContextObject) result" where
  "commit_plan env ord decode run input st =
     and_then (run_key run) (\<lambda>key.
     let message = TrimSpace (cin_Message input);
         author = (if TrimSpace (cin_Author input) = [] then run_default_author run else TrimSpace (cin_Author input))
     in if message = [] then Inl CodeValidation
     else and_then (run_store run) (\<lambda>_.
     and_then (read_CommitSnapshot decode key (fst st)) (\<lambda>(_, snapshot).
     if snap_WorkingSource snapshot \<noteq> key_SourceSHA key then Inl CodeStaleWorkingSet
     else and_then (read_CoverageComplete key (fst st)) (\<lambda>(_, complete).
     if \<not> complete then Inl CodeCoverageIncomplete
     else and_then (contextSnapshotProvenance (st_Coverage (read_Status key (fst st))) (key_SourceSHA key)) (\<lambda>provenance.
     if snap_PendingNotes snapshot = [] then Inl CodeNothingToCommit
     else and_then (contextSnapshotParents (stored_object env (snd st) key) (snap_ParentID snapshot)) (\<lambda>parents.
       Inr (key, snapshot, context_object key parents message author (time_UTC (run_now run)) provenance
         (snap_Entities snapshot) (commit_notes ord snapshot))))))))"

definition object_to_commit :: "string \<Rightarrow> CommitSnapshot \<Rightarrow> ContextObject \<Rightarrow> ContextCommit" where
  "object_to_commit identifier snapshot obj = \<lparr>commit_ID = identifier, commit_ParentID = snap_ParentID snapshot,
     commit_RefName = obj_RefName obj, commit_SourceSHA = obj_SourceSHA obj, commit_Message = obj_Message obj,
     commit_Author = obj_Author obj, commit_CreatedAt = obj_CreatedAt obj\<rparr>"

definition Commit :: "object_env \<Rightarrow> map_order \<Rightarrow> topics_decoder \<Rightarrow> commit_run
    \<Rightarrow> CommitInput \<Rightarrow> local_state \<Rightarrow> local_state \<times> ContextCommit result" where
  "Commit env ord decode run input st = (case commit_plan env ord decode run input st of
       Inl e \<Rightarrow> (st, Inl e)
     | Inr (key, snapshot, obj) \<Rightarrow>
       (case json_marshal (object_json obj) of
          None \<Rightarrow> (st, Inl CodeLocalStorage)
        | Some contents \<Rightarrow>
          let identifier = hex_encode (oe_blake3 env contents)
          in (case run_before_write run of
             Inl e \<Rightarrow> (st, Inl e)
           | Inr _ \<Rightarrow>
             (case WriteObject (run_write run) identifier contents (snd st) of
                (dir, Inl e) \<Rightarrow> ((fst st, dir), Inl e)
              | (dir, Inr _) \<Rightarrow>
                (case run_after_write run of
                   Inl e \<Rightarrow> ((fst st, dir), Inl e)
                 | Inr _ \<Rightarrow>
                   let commit = object_to_commit identifier snapshot obj
                   in (case FinalizeCommit ord decode (finalize_input key snapshot commit (elems (obj_Notes obj))) (fst st) of
                        (db, Inl e) \<Rightarrow> ((db, dir), Inl e)
                      | (db, Inr _) \<Rightarrow> ((db, dir), Inr commit)))))))"

end
