(* ===== verification/Transports.thy ===== *)
theory Transports
  imports Remote_Files Context_Commits
begin

text \<open>
  Transports (remote/transport.go): what the service needs from a remote, the laws its operations rest
  on, and the shared directory of remote/filesystem.go as an implementation of them.
\<close>

subsection \<open>The interface\<close>

text \<open>
  \<open>Transport\<close> over a remote in state \<open>'s\<close>.  The number given to a publication is its position in one run;
  an implementation may let it fail there.
\<close>

record 's transport =
  tr_ReadObject :: "string \<Rightarrow> 's \<Rightarrow> string result"
  tr_PublishObject :: "nat \<Rightarrow> string \<Rightarrow> string \<Rightarrow> 's \<Rightarrow> 's \<times> bool result"
  tr_ReadRef :: "string \<Rightarrow> 's \<Rightarrow> Ref result"
  tr_CompareAndSwapRef :: "string \<Rightarrow> Ref \<Rightarrow> Ref \<Rightarrow> 's \<Rightarrow> 's \<times> Ref result"

text \<open>
  What clients may rely on.  Publishing makes the object readable, keeps what can be read and leaves every
  ref; a swap happens only from the expected ref and to the version after it, and leaves the
  objects, whether or not it reports an error.  \<open>stored\<close> are the refs that are read back as they were written.
\<close>

locale object_transport =
  fixes t :: "'s transport" and stored :: "Ref \<Rightarrow> bool"
  assumes publish_readable: "tr_PublishObject t i oid contents s = (s', Inr b) \<Longrightarrow> tr_ReadObject t oid s' = Inr contents"
    and publish_keeps: "tr_ReadObject t x s = Inr c \<Longrightarrow> tr_ReadObject t x (fst (tr_PublishObject t i oid contents s)) = Inr c"
    and publish_refs: "tr_ReadRef t refName (fst (tr_PublishObject t i oid contents s)) = tr_ReadRef t refName s"
    and swap_objects: "tr_ReadObject t x (fst (tr_CompareAndSwapRef t refName expected nxt s)) = tr_ReadObject t x s"
    and swap_done: "tr_CompareAndSwapRef t refName expected nxt s = (s', Inr r)
      \<Longrightarrow> r = nxt \<and> tr_ReadRef t refName s = Inr expected \<and> ref_Version nxt = ref_Version expected + 1
        \<and> (stored nxt \<longrightarrow> tr_ReadRef t refName s' = Inr nxt)"
    and swap_failed: "tr_CompareAndSwapRef t refName expected nxt s = (s', Inl e)
      \<Longrightarrow> tr_ReadRef t refName s' = tr_ReadRef t refName s
        \<or> (tr_ReadRef t refName s = Inr expected \<and> ref_Version nxt = ref_Version expected + 1
           \<and> (stored nxt \<longrightarrow> tr_ReadRef t refName s' = Inr nxt))"
begin

lemma swap_result:
  assumes "tr_CompareAndSwapRef t refName expected nxt s = (s', r)"
  shows "tr_ReadRef t refName s' = tr_ReadRef t refName s
    \<or> (tr_ReadRef t refName s = Inr expected \<and> ref_Version nxt = ref_Version expected + 1
       \<and> (stored nxt \<longrightarrow> tr_ReadRef t refName s' = Inr nxt))"
  using assms swap_done swap_failed by (cases r) blast+

end

subsection \<open>The shared directory\<close>

text \<open>The faults of a run and the times of its writes, by the position of the write.\<close>

record file_run =
  fr_publish :: "nat \<Rightarrow> write_fault \<times> go_time"
  fr_swap :: "write_fault \<times> go_time"

definition filesystem :: "remote_env \<Rightarrow> file_run \<Rightarrow> remote_files transport" where
  "filesystem env run = \<lparr>tr_ReadObject = fs_ReadObject (re_blake3 env),
     tr_PublishObject = (\<lambda>i. fs_PublishObject (re_blake3 env) (fst (fr_publish run i)) (snd (fr_publish run i))),
     tr_ReadRef = fs_ReadRef env,
     tr_CompareAndSwapRef = fs_CompareAndSwapRef env (fst (fr_swap run)) (snd (fr_swap run))\<rparr>"

lemma filesystem_sel [simp]:
  "tr_ReadObject (filesystem env run) = fs_ReadObject (re_blake3 env)"
  "tr_PublishObject (filesystem env run) i = fs_PublishObject (re_blake3 env) (fst (fr_publish run i)) (snd (fr_publish run i))"
  "tr_ReadRef (filesystem env run) = fs_ReadRef env"
  "tr_CompareAndSwapRef (filesystem env run) = fs_CompareAndSwapRef env (fst (fr_swap run)) (snd (fr_swap run))"
  by (simp_all add: filesystem_def)

text \<open>A ref the decoder reads back from its JSON text, and that names an object.\<close>

definition ref_stored :: "remote_env \<Rightarrow> Ref \<Rightarrow> bool" where
  "ref_stored env r \<longleftrightarrow> canonical_id (ref_CommitID r)
     \<and> (case json_marshal (ref_json r) of None \<Rightarrow> False | Some contents \<Rightarrow> re_ref env contents = Some r)"

lemma put_object_sel [simp]:
  "fs_refs (put_object path contents now files) = fs_refs files"
  "map_of (fs_objects (put_object path contents now files)) p
     = (if p = path then Some \<lparr>file_Contents = contents, file_ModTime = now\<rparr> else map_of (fs_objects files) p)"
  by (auto simp: put_object_def)

lemma fs_PublishObject_run:
  assumes "fs_PublishObject b3 fault now oid contents files = (files', r)"
  shows "(files' = files \<and> (\<exists>e. r = Inl e))
    \<or> (\<exists>path published. objectPath oid = Inr path \<and> files' = put_object path published now files
        \<and> validateObjectBytes b3 oid contents = Inr ()
        \<and> (\<forall>f. map_of (fs_objects files) path = Some f \<longrightarrow> file_Contents f = published)
        \<and> ((\<exists>b. r = Inr b) \<longrightarrow> published = contents))"
proof (cases "objectPath oid")
  case (Inl e)
  then show ?thesis using assms by (auto simp: fs_PublishObject_def)
next
  case path: (Inr path)
  show ?thesis
  proof (cases "validateObjectBytes b3 oid contents")
    case (Inl e)
    then show ?thesis using assms path by (auto simp: fs_PublishObject_def)
  next
    case (Inr u)
    then show ?thesis using assms path
      by (auto simp: fs_PublishObject_def split: option.splits if_splits write_fault.splits)
  qed
qed

lemma fs_publish_readable:
  assumes "fs_PublishObject b3 fault now oid contents files = (files', Inr b)"
  shows "fs_ReadObject b3 oid files' = Inr contents"
  using fs_PublishObject_run [OF assms] by (auto simp: fs_ReadObject_def)

lemma fs_publish_keeps:
  assumes "fs_ReadObject b3 x files = Inr c"
  shows "fs_ReadObject b3 x (fst (fs_PublishObject b3 fault now oid contents files)) = Inr c"
proof -
  obtain files' r where run: "fs_PublishObject b3 fault now oid contents files = (files', r)" by fastforce
  obtain p f where f: "objectPath x = Inr p" "map_of (fs_objects files) p = Some f" "file_Contents f = c" "validateObjectBytes b3 x c = Inr ()"
    using assms by (auto simp: fs_ReadObject_def split: option.splits)
  from fs_PublishObject_run [OF run] show ?thesis
    unfolding run using assms f by (auto simp: fs_ReadObject_def)
qed

lemma fs_publish_refs: "fs_ReadRef env refName (fst (fs_PublishObject b3 fault now oid contents files)) = fs_ReadRef env refName files"
proof -
  obtain files' r where run: "fs_PublishObject b3 fault now oid contents files = (files', r)" by fastforce
  from fs_PublishObject_run [OF run] show ?thesis
    unfolding run by (auto simp: fs_ReadRef_def readRef_def)
qed

text \<open>A swap leaves the files, or it writes the next ref.\<close>

lemma fs_swap_run:
  assumes "fs_CompareAndSwapRef env fault now refName expected nxt files = (files', r)"
  shows "(files' = files \<and> (\<exists>e. r = Inl e))
    \<or> (\<exists>path contents. refPath env refName = Inr path \<and> valid_swap refName expected nxt
        \<and> fs_ReadRef env refName files = Inr expected \<and> ref_Version nxt = ref_Version expected + 1
        \<and> json_marshal (ref_json nxt) = Some contents
        \<and> files' = files\<lparr>fs_refs := map_put path \<lparr>file_Contents = contents, file_ModTime = now\<rparr> (fs_refs files)\<rparr>
        \<and> ((\<exists>e. r = Inl e) \<or> r = Inr nxt))"
proof (cases "refPath env refName")
  case (Inl e)
  then show ?thesis using assms by (auto simp: fs_CompareAndSwapRef_def)
next
  case path: (Inr path)
  show ?thesis
  proof (cases "readRef env path refName files")
    case (Inl e)
    then show ?thesis using assms path by (auto simp: fs_CompareAndSwapRef_def split: if_splits)
  next
    case (Inr found)
    then show ?thesis using assms path
      by (auto simp: fs_CompareAndSwapRef_def fs_ReadRef_def WriteAtomic_def Let_def
          split: option.splits if_splits prod.splits sum.splits write_fault.splits)
  qed
qed

lemma fs_swap_objects: "fs_ReadObject b3 x (fst (fs_CompareAndSwapRef env fault now refName expected nxt files)) = fs_ReadObject b3 x files"
proof -
  obtain files' r where run: "fs_CompareAndSwapRef env fault now refName expected nxt files = (files', r)" by fastforce
  from fs_swap_run [OF run] show ?thesis unfolding run by (auto simp: fs_ReadObject_def)
qed

lemma written_ref_read:
  assumes "refPath env refName = Inr path" "valid_swap refName expected nxt" "json_marshal (ref_json nxt) = Some contents" "ref_stored env nxt"
  shows "fs_ReadRef env refName (files\<lparr>fs_refs := map_put path \<lparr>file_Contents = contents, file_ModTime = now\<rparr> (fs_refs files)\<rparr>) = Inr nxt"
proof -
  have "re_ref env contents = Some nxt" "NormalizeContextCommitID (ref_CommitID nxt) = Inr (ref_CommitID nxt)"
    using assms(3,4) by (auto simp: ref_stored_def canonical_id_fixed)
  then show ?thesis
    using assms(1,2) by (simp add: fs_ReadRef_def readRef_def valid_swap_def ref_or_empty_def)
qed

interpretation shared_directory: object_transport "filesystem env run" "ref_stored env" for env run
proof unfold_locales
  fix i oid contents s s' b x c refName expected nxt r e
  show "tr_ReadObject (filesystem env run) oid s' = Inr contents"
    if "tr_PublishObject (filesystem env run) i oid contents s = (s', Inr b)"
    using fs_publish_readable that by simp
  show "tr_ReadObject (filesystem env run) x (fst (tr_PublishObject (filesystem env run) i oid contents s)) = Inr c"
    if "tr_ReadObject (filesystem env run) x s = Inr c"
    using fs_publish_keeps that by simp
  show "tr_ReadRef (filesystem env run) refName (fst (tr_PublishObject (filesystem env run) i oid contents s))
      = tr_ReadRef (filesystem env run) refName s"
    by (simp add: fs_publish_refs)
  show "tr_ReadObject (filesystem env run) x (fst (tr_CompareAndSwapRef (filesystem env run) refName expected nxt s))
      = tr_ReadObject (filesystem env run) x s"
    by (simp add: fs_swap_objects)
  show "r = nxt \<and> tr_ReadRef (filesystem env run) refName s = Inr expected \<and> ref_Version nxt = ref_Version expected + 1
      \<and> (ref_stored env nxt \<longrightarrow> tr_ReadRef (filesystem env run) refName s' = Inr nxt)"
    if "tr_CompareAndSwapRef (filesystem env run) refName expected nxt s = (s', Inr r)"
    using fs_swap_run [OF that [simplified]] by (auto simp: written_ref_read)
  show "tr_ReadRef (filesystem env run) refName s' = tr_ReadRef (filesystem env run) refName s
      \<or> tr_ReadRef (filesystem env run) refName s = Inr expected \<and> ref_Version nxt = ref_Version expected + 1
         \<and> (ref_stored env nxt \<longrightarrow> tr_ReadRef (filesystem env run) refName s' = Inr nxt)"
    if "tr_CompareAndSwapRef (filesystem env run) refName expected nxt s = (s', Inl e)"
    using fs_swap_run [OF that [simplified]] by (auto simp: written_ref_read)
qed

end
