(* ===== verification/Remote_Sync.thy ===== *)
theory Remote_Sync
  imports Transports
begin

text \<open>
  Push, fetch and pull (app/remote.go): the ancestry of the local ref is published object by object and
  the remote ref is swapped from the value that was read; the ancestry of a remote ref is imported
  and its tip recorded; a pull moves the local ref to it when it descends from the local commit.
\<close>

subsection \<open>Runs\<close>

text \<open>What Git, the opening of the store, \<open>Dial\<close> and the file system report during one run.\<close>

record 's sync_run =
  sy_key :: "WorkingSetKey result"
  sy_store :: "unit result"
  sy_dial :: "string \<Rightarrow> 's transport result"
  sy_faults :: "nat \<Rightarrow> write_fault"
  sy_before_move :: "unit result"

record RemoteSyncResult =
  rsr_RemoteName :: string
  rsr_RefName :: string
  rsr_LocalTip :: string
  rsr_RemoteTip :: string
  rsr_TrackingTip :: string
  rsr_Outcome :: string
  rsr_TransferredObjects :: nat

definition stored_ancestor :: "object_env \<Rightarrow> object_dir \<Rightarrow> WorkingSetKey \<Rightarrow> string \<Rightarrow> string \<Rightarrow> bool result" where
  "stored_ancestor env dir key descendantID ancestorID =
     (case IsAncestor (oe_blake3 env) (oe_decode env) (oe_fuel env) dir descendantID ancestorID
         (key_RepositoryID key) (key_RefName key) of Some r \<Rightarrow> r | None \<Rightarrow> Inl CodeLocalStorage)"

definition stored_import :: "object_env \<Rightarrow> (nat \<Rightarrow> write_fault) \<Rightarrow> WorkingSetKey \<Rightarrow> string \<Rightarrow> (string \<Rightarrow> string result)
    \<Rightarrow> object_dir \<Rightarrow> object_dir \<times> ObjectChain result" where
  "stored_import env faults key commitID reader dir =
     (case ImportObjectChain (oe_blake3 env) (oe_decode env) (oe_fuel env) faults commitID
         (key_RepositoryID key) (key_RefName key) (Some reader) dir of Some r \<Rightarrow> r | None \<Rightarrow> (dir, Inl CodeLocalStorage))"

definition tracking_ref :: "string \<Rightarrow> string \<Rightarrow> Ref \<Rightarrow> RemoteRef" where
  "tracking_ref remoteName refName r = \<lparr>rref_RemoteName = remoteName, rref_RefName = refName, rref_CommitID = ref_CommitID r,
     rref_SourceSHA = ref_SourceSHA r, rref_Version = ref_Version r\<rparr>"

subsection \<open>Push\<close>

definition findObject :: "ObjectRecord list \<Rightarrow> string \<Rightarrow> ObjectRecord option" where
  "findObject objects oid = List.find (\<lambda>o'. orec_ID o' = oid) objects"

fun publish_chain :: "'s transport \<Rightarrow> nat \<Rightarrow> nat \<Rightarrow> ObjectRecord list \<Rightarrow> 's \<Rightarrow> 's \<times> nat result" where
  "publish_chain t i published [] s = (s, Inr published)"
| "publish_chain t i published (obj # rest) s =
     (case tr_PublishObject t i (orec_ID obj) (orec_Contents obj) s of
        (s', Inl e) \<Rightarrow> (s', Inl e)
      | (s', Inr created) \<Rightarrow> publish_chain t (i + 1) (if created then published + 1 else published) rest s')"

text \<open>What \<open>PushRemote\<close> reads before it writes: the key, the local ref, the remote and its ref.\<close>

definition push_start :: "'s sync_run \<Rightarrow> string \<Rightarrow> local_db \<Rightarrow> 's \<Rightarrow> (WorkingSetKey \<times> ContextRef \<times> string \<times> 's transport \<times> Ref) result" where
  "push_start run name db s =
     and_then (sy_key run) (\<lambda>key.
     and_then (sy_store run) (\<lambda>_.
     and_then (read_ContextRef key db) (\<lambda>(_, local).
     if cref_CommitID local = [] then Inl CodeValidation
     else and_then (read_Remote name db) (\<lambda>(remoteName, path).
     and_then (sy_dial run path) (\<lambda>t.
     and_then (tr_ReadRef t (key_RefName key) s) (\<lambda>remoteRef.
     Inr (key, local, remoteName, t, remoteRef)))))))"

text \<open>The chain to publish, unless the remote ref is not one of its commits.\<close>

definition push_chain :: "object_env \<Rightarrow> object_dir \<Rightarrow> WorkingSetKey \<Rightarrow> ContextRef \<Rightarrow> Ref \<Rightarrow> ObjectRecord list result" where
  "push_chain env dir key local remoteRef =
     and_then (stored_graph env dir key (cref_CommitID local)) (\<lambda>graph.
     let chain = map object_record graph
     in if ref_CommitID remoteRef = [] then Inr chain
        else case findObject chain (ref_CommitID remoteRef) of
          None \<Rightarrow> Inl CodeRemoteConflict
        | Some obj \<Rightarrow> if orec_SourceSHA obj \<noteq> ref_SourceSHA remoteRef then Inl CodeValidation else Inr chain)"

definition pushed_ref :: "WorkingSetKey \<Rightarrow> ContextRef \<Rightarrow> Ref \<Rightarrow> Ref" where
  "pushed_ref key local remoteRef = \<lparr>ref_RefName = key_RefName key, ref_CommitID = cref_CommitID local,
     ref_SourceSHA = cref_SourceSHA local, ref_Version = ref_Version remoteRef + 1\<rparr>"

definition push_objects :: "object_env \<Rightarrow> object_dir \<Rightarrow> WorkingSetKey \<Rightarrow> ContextRef \<Rightarrow> 's transport \<Rightarrow> Ref \<Rightarrow> 's
    \<Rightarrow> 's \<times> (Ref \<times> nat) result" where
  "push_objects env dir key local t remoteRef s = (case push_chain env dir key local remoteRef of
       Inl e \<Rightarrow> (s, Inl e)
     | Inr chain \<Rightarrow> (case publish_chain t 0 0 chain s of
         (s', Inl e) \<Rightarrow> (s', Inl e)
       | (s', Inr published) \<Rightarrow>
         (case tr_CompareAndSwapRef t (key_RefName key) remoteRef (pushed_ref key local remoteRef) s' of
            (s'', Inl e) \<Rightarrow> (s'', Inl e)
          | (s'', Inr confirmed) \<Rightarrow> (s'', Inr (confirmed, published)))))"

definition push_result :: "string \<Rightarrow> WorkingSetKey \<Rightarrow> ContextRef \<Rightarrow> Ref \<Rightarrow> string \<Rightarrow> nat \<Rightarrow> RemoteSyncResult" where
  "push_result remoteName key local tip outcome transferred = \<lparr>rsr_RemoteName = remoteName, rsr_RefName = key_RefName key,
     rsr_LocalTip = cref_CommitID local, rsr_RemoteTip = ref_CommitID tip, rsr_TrackingTip = ref_CommitID tip,
     rsr_Outcome = outcome, rsr_TransferredObjects = transferred\<rparr>"

definition record_push :: "string \<Rightarrow> WorkingSetKey \<Rightarrow> ContextRef \<Rightarrow> Ref \<Rightarrow> string \<Rightarrow> nat \<Rightarrow> local_db \<Rightarrow> local_db \<times> RemoteSyncResult result" where
  "record_push remoteName key local tip outcome transferred db =
     (case RecordRemoteRef (tracking_ref remoteName (key_RefName key) tip) db of
        (db', Inl e) \<Rightarrow> (db', Inl e)
      | (db', Inr _) \<Rightarrow> (db', Inr (push_result remoteName key local tip outcome transferred)))"

definition PushRemote :: "object_env \<Rightarrow> 's sync_run \<Rightarrow> string \<Rightarrow> local_state \<times> 's \<Rightarrow> (local_state \<times> 's) \<times> RemoteSyncResult result" where
  "PushRemote env run name st = (case st of ((db, dir), s) \<Rightarrow>
     (case push_start run name db s of
        Inl e \<Rightarrow> (st, Inl e)
      | Inr (key, local, remoteName, t, remoteRef) \<Rightarrow>
        if ref_CommitID remoteRef = cref_CommitID local then
          (if ref_SourceSHA remoteRef \<noteq> cref_SourceSHA local then (st, Inl CodeValidation)
           else case record_push remoteName key local remoteRef ''up_to_date'' 0 db of (db', r) \<Rightarrow> (((db', dir), s), r))
        else (case push_objects env dir key local t remoteRef s of
            (s', Inl e) \<Rightarrow> (((db, dir), s'), Inl e)
          | (s', Inr (confirmed, published)) \<Rightarrow>
            (case record_push remoteName key local confirmed ''pushed'' published db of (db', r) \<Rightarrow> (((db', dir), s'), r)))))"

subsection \<open>Fetch and pull\<close>

record fetchedRemote =
  fetched_Local :: ContextRef
  fetched_Remote :: ContextRef
  fetched_Count :: nat

definition local_of_ref :: "string \<Rightarrow> Ref \<Rightarrow> ContextRef" where
  "local_of_ref refName r = \<lparr>cref_RefName = refName, cref_CommitID = ref_CommitID r, cref_SourceSHA = ref_SourceSHA r,
     cref_Version = ref_Version r\<rparr>"

definition fetch_result :: "string \<Rightarrow> WorkingSetKey \<Rightarrow> ContextRef \<Rightarrow> Ref \<Rightarrow> RemoteSyncResult" where
  "fetch_result remoteName key local remoteRef = \<lparr>rsr_RemoteName = remoteName, rsr_RefName = key_RefName key,
     rsr_LocalTip = cref_CommitID local, rsr_RemoteTip = ref_CommitID remoteRef, rsr_TrackingTip = [],
     rsr_Outcome = ''empty'', rsr_TransferredObjects = 0\<rparr>"

text \<open>The name of the remote, the local ref, the transport and the remote's ref.\<close>

definition fetch_start :: "'s sync_run \<Rightarrow> WorkingSetKey \<Rightarrow> string \<Rightarrow> local_db \<Rightarrow> 's \<Rightarrow> (string \<times> ContextRef \<times> 's transport \<times> Ref) result" where
  "fetch_start run key name db s =
     and_then (read_Remote name db) (\<lambda>(remoteName, path).
     and_then (read_ContextRef key db) (\<lambda>(_, local).
     and_then (sy_dial run path) (\<lambda>t.
     and_then (tr_ReadRef t (key_RefName key) s) (\<lambda>remoteRef.
     Inr (remoteName, local, t, remoteRef)))))"

definition fetchRemote :: "object_env \<Rightarrow> 's sync_run \<Rightarrow> WorkingSetKey \<Rightarrow> string \<Rightarrow> local_state \<Rightarrow> 's
    \<Rightarrow> local_state \<times> (RemoteSyncResult \<times> fetchedRemote) result" where
  "fetchRemote env run key name st s = (case st of (db, dir) \<Rightarrow>
     (case fetch_start run key name db s of
        Inl e \<Rightarrow> (st, Inl e)
      | Inr (remoteName, local, t, remoteRef) \<Rightarrow>
        let result = fetch_result remoteName key local remoteRef
        in if ref_CommitID remoteRef = []
           then (st, Inr (result, \<lparr>fetched_Local = local, fetched_Remote = local_of_ref (key_RefName key) (empty_ref (key_RefName key)),
             fetched_Count = 0\<rparr>))
           else (case stored_import env (sy_faults run) key (ref_CommitID remoteRef) (\<lambda>oid. tr_ReadObject t oid s) dir of
             (dir', Inl e) \<Rightarrow> ((db, dir'), Inl e)
           | (dir', Inr imported) \<Rightarrow>
             if chain_SourceSHA imported \<noteq> ref_SourceSHA remoteRef then ((db, dir'), Inl CodeValidation)
             else (case RecordRemoteRef (tracking_ref remoteName (key_RefName key) remoteRef) db of
                 (db', Inl e) \<Rightarrow> ((db', dir'), Inl e)
               | (db', Inr _) \<Rightarrow> ((db', dir'),
                   Inr (result\<lparr>rsr_TrackingTip := ref_CommitID remoteRef, rsr_Outcome := ''fetched'',
                     rsr_TransferredObjects := chain_Count imported\<rparr>,
                     \<lparr>fetched_Local = local, fetched_Remote = local_of_ref (key_RefName key) remoteRef,
                       fetched_Count = chain_Count imported\<rparr>))))))"

definition FetchRemote :: "object_env \<Rightarrow> 's sync_run \<Rightarrow> string \<Rightarrow> local_state \<Rightarrow> 's \<Rightarrow> local_state \<times> RemoteSyncResult result" where
  "FetchRemote env run name st s = (case and_then (sy_key run) (\<lambda>key. and_then (sy_store run) (\<lambda>_. Inr key)) of
       Inl e \<Rightarrow> (st, Inl e)
     | Inr key \<Rightarrow> (case fetchRemote env run key name st s of
         (st', Inl e) \<Rightarrow> (st', Inl e) | (st', Inr (result, _)) \<Rightarrow> (st', Inr result)))"

text \<open>What \<open>PullRemote\<close> checks between the fetch and the move: \<open>None\<close> when there is nothing to move.\<close>

definition pull_decision :: "object_env \<Rightarrow> object_dir \<Rightarrow> 's sync_run \<Rightarrow> WorkingSetKey \<Rightarrow> fetchedRemote \<Rightarrow> FastForwardInput option result" where
  "pull_decision env dir run key fetched =
     (let local = fetched_Local fetched; tip = fetched_Remote fetched
      in if cref_CommitID tip = [] \<or> cref_CommitID tip = cref_CommitID local then Inr None
         else if cref_SourceSHA tip \<noteq> key_SourceSHA key then Inl CodeStaleWorkingSet
         else and_then (stored_ancestor env dir key (cref_CommitID tip) (cref_CommitID local)) (\<lambda>fastForward.
           if \<not> fastForward then Inl CodeRemoteConflict
           else and_then (sy_before_move run) (\<lambda>_. Inr (Some \<lparr>ff_Key = key, ff_Expected = local, ff_Next = tip\<rparr>))))"

definition pull_start :: "topics_decoder \<Rightarrow> 's sync_run \<Rightarrow> local_db \<Rightarrow> WorkingSetKey result" where
  "pull_start decode run db =
     and_then (sy_key run) (\<lambda>key.
     and_then (sy_store run) (\<lambda>_.
     and_then (listPendingNotes decode (key_WorktreeID key) db) (\<lambda>(_, pending).
     if pending \<noteq> [] then Inl CodeWorkingSetDirty else Inr key)))"

definition PullRemote :: "object_env \<Rightarrow> map_order \<Rightarrow> topics_decoder \<Rightarrow> 's sync_run \<Rightarrow> string \<Rightarrow> local_state \<Rightarrow> 's
    \<Rightarrow> local_state \<times> RemoteSyncResult result" where
  "PullRemote env ord decode run name st s = (case pull_start decode run (fst st) of
       Inl e \<Rightarrow> (st, Inl e)
     | Inr key \<Rightarrow> (case fetchRemote env run key name st s of
         (st', Inl e) \<Rightarrow> (st', Inl e)
       | ((db, dir), Inr (result, fetched)) \<Rightarrow> (case pull_decision env dir run key fetched of
           Inl e \<Rightarrow> ((db, dir), Inl e)
         | Inr None \<Rightarrow> ((db, dir), Inr (result\<lparr>rsr_Outcome := ''up_to_date''\<rparr>))
         | Inr (Some input) \<Rightarrow> (case FastForward ord decode (stored_graph env dir key) input db of
             (db', Inl e) \<Rightarrow> ((db', dir), Inl e)
           | (db', Inr _) \<Rightarrow> ((db', dir), Inr (result\<lparr>rsr_Outcome := ''pulled''\<rparr>))))))"

end
