(* ===== verification/Merge_Sessions.thy ===== *)
theory Merge_Sessions
  imports Context_Commits Snapshot_Merge
begin

text \<open>
  Merge sessions of the local store (store/merge.go, \<open>FinalizeMerge\<close> of store/snapshot.go) and the
  service operations that start, resolve and commit them (app/merge.go).  The decoders of the JSON
  columns are a parameter; what is written in them is the text \<open>json.Marshal\<close> returns.
\<close>

subsection \<open>Sessions\<close>

type_synonym MergeSessionState = string

definition MergeSessionOpen :: MergeSessionState where [go_defs]: "MergeSessionOpen = ''open''"
definition MergeSessionReady :: MergeSessionState where [go_defs]: "MergeSessionReady = ''ready''"
definition MergeSessionCommitted :: MergeSessionState where [go_defs]: "MergeSessionCommitted = ''committed''"

type_synonym MergeConflictResolution = string

definition MergeConflictUnresolved :: MergeConflictResolution where [go_defs]: "MergeConflictUnresolved = ''unresolved''"
definition MergeConflictLocal :: MergeConflictResolution where [go_defs]: "MergeConflictLocal = ''local''"
definition MergeConflictRemote :: MergeConflictResolution where [go_defs]: "MergeConflictRemote = ''remote''"
definition MergeConflictAuthored :: MergeConflictResolution where [go_defs]: "MergeConflictAuthored = ''authored''"

record MergeSessionConflict =
  msc_ID :: string
  msc_Conflict :: SnapshotMergeConflict
  msc_Resolution :: MergeConflictResolution
  msc_Authored :: "SnapshotMergeRecord option"

record MergeSession =
  ms_ID :: string
  ms_LocalSnapshotID :: string
  ms_RemoteSnapshotID :: string
  ms_BaseSnapshotID :: string
  ms_RepositoryID :: string
  ms_RefName :: string
  ms_SourceSHA :: string
  ms_Provenance :: "ContextSnapshotProvenance list"
  ms_Message :: string
  ms_Author :: string
  ms_PlannedCreatedAt :: go_time
  ms_State :: MergeSessionState
  ms_AutomaticRecords :: "SnapshotMergeRecord slice"
  ms_Conflicts :: "MergeSessionConflict list"

definition merge_record_json :: "SnapshotMergeRecord \<Rightarrow> json" where
  "merge_record_json r = JObject (fld ''note'' (note_json (mrec_Note r)) @ fld ''mapping'' (mapping_json (mrec_Mapping r)))"

definition fld_record :: "string \<Rightarrow> SnapshotMergeRecord option \<Rightarrow> (string \<times> json) list" where
  "fld_record k r = (case r of None \<Rightarrow> [] | Some x \<Rightarrow> fld k (merge_record_json x))"

definition session_conflict_json :: "MergeSessionConflict \<Rightarrow> json" where
  "session_conflict_json c = JObject (fld_s ''id'' (msc_ID c) @ fld_s ''note_id'' (mconf_NoteID (msc_Conflict c))
     @ fld_record ''base'' (mconf_Base (msc_Conflict c)) @ fld_record ''local'' (mconf_Local (msc_Conflict c))
     @ fld_record ''remote'' (mconf_Remote (msc_Conflict c)) @ fld_s ''resolution'' (msc_Resolution c)
     @ fld_record ''authored'' (msc_Authored c))"

text \<open>\<open>json.Unmarshal\<close> of the three kinds of column; \<open>None\<close> is an error.\<close>

record session_decoders =
  sd_provenance :: "string \<Rightarrow> ContextSnapshotProvenance list option"
  sd_records :: "string \<Rightarrow> SnapshotMergeRecord slice option"
  sd_conflict :: "string \<Rightarrow> MergeSessionConflict option"

definition validateMergeSession :: "MergeSession \<Rightarrow> unit result" where
  "validateMergeSession s =
     and_then (NormalizeContextCommitID (ms_LocalSnapshotID s)) (\<lambda>_.
     and_then (NormalizeContextCommitID (ms_RemoteSnapshotID s)) (\<lambda>_.
     and_then (NormalizeContextCommitID (ms_BaseSnapshotID s)) (\<lambda>_.
     if TrimSpace (ms_RepositoryID s) = [] \<or> TrimSpace (ms_RefName s) = [] \<or> TrimSpace (ms_SourceSHA s) = []
       \<or> TrimSpace (ms_Message s) = [] \<or> TrimSpace (ms_Author s) = [] \<or> time_IsZero (ms_PlannedCreatedAt s)
       \<or> ms_Provenance s = [] then Inl CodeValidation
     else if list_all (\<lambda>c. TrimSpace (mconf_NoteID (msc_Conflict c)) \<noteq> [] \<and> TrimSpace (msc_ID c) \<noteq> []) (ms_Conflicts s)
       \<and> distinct (map msc_ID (ms_Conflicts s)) \<and> distinct (map (\<lambda>c. mconf_NoteID (msc_Conflict c)) (ms_Conflicts s))
     then Inr () else Inl CodeValidation)))"

definition default_conflict_id :: "MergeSessionConflict \<Rightarrow> MergeSessionConflict" where
  "default_conflict_id c = (if msc_ID c = [] then c\<lparr>msc_ID := mconf_NoteID (msc_Conflict c)\<rparr> else c)"

definition open_conflict :: "MergeSessionConflict \<Rightarrow> MergeSessionConflict" where
  "open_conflict c = c\<lparr>msc_Resolution := MergeConflictUnresolved, msc_Authored := None\<rparr>"

definition session_row :: "MergeSession \<Rightarrow> string \<Rightarrow> string \<Rightarrow> mergeSessionRow" where
  "session_row s provenance automaticRecords = \<lparr>msr_SessionID = ms_ID s, msr_LocalSnapshotID = ms_LocalSnapshotID s,
     msr_RemoteSnapshotID = ms_RemoteSnapshotID s, msr_BaseSnapshotID = ms_BaseSnapshotID s, msr_RepositoryID = ms_RepositoryID s,
     msr_RefName = ms_RefName s, msr_SourceSHA = ms_SourceSHA s, msr_ProvenanceJSON = provenance, msr_Message = ms_Message s,
     msr_Author = ms_Author s, msr_PlannedCreatedAt = UnixNano (ms_PlannedCreatedAt s), msr_State = ms_State s,
     msr_AutomaticRecordsJSON = automaticRecords\<rparr>"

definition tx_marshal :: "json \<Rightarrow> string lt" where
  "tx_marshal v = tx_found (json_marshal v) CodeLocalStorage"

definition insert_conflict :: "string \<Rightarrow> MergeSessionConflict \<Rightarrow> unit lt" where
  "insert_conflict sessionID c =
     tx_bind (tx_marshal (session_conflict_json c)) (\<lambda>payload.
     tx_insert ldb_merge_conflicts_update ldb_merge_conflicts (\<lambda>r. mcr_SessionID r = sessionID \<and> mcr_ConflictID r = msc_ID c)
       \<lparr>mcr_SessionID = sessionID, mcr_ConflictID = msc_ID c, mcr_ConflictJSON = payload\<rparr>)"

definition CreateMergeSession :: "string result \<Rightarrow> MergeSession \<Rightarrow> local_db \<Rightarrow> local_db \<times> MergeSession result" where
  "CreateMergeSession newID session db =
     (let session = session\<lparr>ms_Conflicts := map default_conflict_id (ms_Conflicts session)\<rparr>
      in case validateMergeSession session of Inl e \<Rightarrow> (db, Inl e)
       | Inr _ \<Rightarrow> (case newID of Inl e \<Rightarrow> (db, Inl CodeLocalStorage)
       | Inr identifier \<Rightarrow>
         let session = session\<lparr>ms_ID := identifier,
               ms_State := (if ms_Conflicts session = [] then MergeSessionReady else MergeSessionOpen),
               ms_Conflicts := map open_conflict (ms_Conflicts session)\<rparr>
         in case json_marshal (JArray (map provenance_json (ms_Provenance session))) of None \<Rightarrow> (db, Inl CodeLocalStorage)
          | Some provenance \<Rightarrow> (case json_marshal (json_slice (map_option (map merge_record_json) (ms_AutomaticRecords session))) of
              None \<Rightarrow> (db, Inl CodeLocalStorage)
            | Some automaticRecords \<Rightarrow> transaction
                (tx_bind (tx_insert ldb_merge_sessions_update ldb_merge_sessions (\<lambda>r. msr_SessionID r = identifier)
                   (session_row session provenance automaticRecords)) (\<lambda>_.
                 tx_bind (tx_each (insert_conflict identifier) (ms_Conflicts session)) (\<lambda>_. tx_return session))) db)))"

definition scan_conflict :: "session_decoders \<Rightarrow> mergeConflictRow \<Rightarrow> MergeSessionConflict result" where
  "scan_conflict dec r = (case sd_conflict dec (mcr_ConflictJSON r) of
       None \<Rightarrow> Inl CodeLocalStorage
     | Some c \<Rightarrow> if msc_ID c = mcr_ConflictID r then Inr c else Inl CodeLocalStorage)"

definition conflict_rows :: "string \<Rightarrow> local_db \<Rightarrow> mergeConflictRow list" where
  "conflict_rows sessionID db = sort_key mcr_ConflictID (filter (\<lambda>r. mcr_SessionID r = sessionID) (ldb_merge_conflicts db))"

primrec scan_conflicts :: "session_decoders \<Rightarrow> mergeConflictRow list \<Rightarrow> MergeSessionConflict list result" where
  "scan_conflicts dec [] = Inr []"
| "scan_conflicts dec (r # rows) =
     and_then (scan_conflict dec r) (\<lambda>c. and_then (scan_conflicts dec rows) (\<lambda>cs. Inr (c # cs)))"

definition read_MergeSession :: "session_decoders \<Rightarrow> string \<Rightarrow> local_db \<Rightarrow> MergeSession result" where
  "read_MergeSession dec sessionID db =
     (let sessionID = TrimSpace sessionID
      in if sessionID = [] then Inl CodeValidation
      else case take_row (\<lambda>r. msr_SessionID r = sessionID) (ldb_merge_sessions db) of
        None \<Rightarrow> Inl CodeEntityNotFound
      | Some r \<Rightarrow> (case sd_provenance dec (msr_ProvenanceJSON r) of None \<Rightarrow> Inl CodeLocalStorage
      | Some provenance \<Rightarrow> (case sd_records dec (msr_AutomaticRecordsJSON r) of None \<Rightarrow> Inl CodeLocalStorage
      | Some records \<Rightarrow>
          and_then (scan_conflicts dec (conflict_rows (msr_SessionID r) db)) (\<lambda>conflicts.
          Inr \<lparr>ms_ID = msr_SessionID r, ms_LocalSnapshotID = msr_LocalSnapshotID r, ms_RemoteSnapshotID = msr_RemoteSnapshotID r,
            ms_BaseSnapshotID = msr_BaseSnapshotID r, ms_RepositoryID = msr_RepositoryID r, ms_RefName = msr_RefName r,
            ms_SourceSHA = msr_SourceSHA r, ms_Provenance = provenance, ms_Message = msr_Message r, ms_Author = msr_Author r,
            ms_PlannedCreatedAt = time_Unix (msr_PlannedCreatedAt r), ms_State = msr_State r, ms_AutomaticRecords = records,
            ms_Conflicts = conflicts\<rparr>))))"

subsection \<open>Resolving a conflict\<close>

definition merge_fields_ok :: "string \<Rightarrow> SnapshotMergeRecord \<Rightarrow> bool" where
  "merge_fields_ok noteID r \<longleftrightarrow> (let n = mrec_Note r; m = mrec_Mapping r in
     note_ID n = noteID \<and> note_RevisionID n \<noteq> [] \<and> note_EntityKey n \<noteq> [] \<and> ValidNoteKind (note_Kind n)
     \<and> TrimSpace (note_Body n) \<noteq> [] \<and> note_Author n \<noteq> [] \<and> note_Origin n \<noteq> [] \<and> \<not> time_IsZero (note_CreatedAt n)
     \<and> ValidNoteBindingState (note_BindingState n)
     \<and> map_EntityKey m = note_EntityKey n \<and> map_NoteID m = note_ID n \<and> map_RevisionID m = note_RevisionID n
     \<and> map_BindingState m = note_BindingState n \<and> map_BindingSourceSHA m = note_BindingSourceSHA n
     \<and> map_ReviewReason m = note_ReviewReason n)"

definition validAuthoredMergeRecord :: "string \<Rightarrow> SnapshotMergeRecord option \<Rightarrow> bool" where
  "validAuthoredMergeRecord noteID r = (case r of None \<Rightarrow> False
     | Some x \<Rightarrow> merge_fields_ok noteID x \<and> note_BindingSourceSHA (mrec_Note x) \<noteq> [])"

definition settle_conflict :: "string \<Rightarrow> MergeConflictResolution \<Rightarrow> SnapshotMergeRecord option \<Rightarrow> MergeSessionConflict
    \<Rightarrow> MergeSessionConflict result" where
  "settle_conflict sourceSHA choice authored c =
     (if msc_Resolution c \<noteq> MergeConflictUnresolved then Inl CodeValidation
      else if choice = MergeConflictLocal \<and> mconf_Local (msc_Conflict c) = None
        \<or> choice = MergeConflictRemote \<and> mconf_Remote (msc_Conflict c) = None then Inl CodeValidation
      else if choice = MergeConflictAuthored
        \<and> (\<not> validAuthoredMergeRecord (mconf_NoteID (msc_Conflict c)) authored
           \<or> map_option (\<lambda>x. note_BindingSourceSHA (mrec_Note x)) authored \<noteq> Some sourceSHA) then Inl CodeValidation
      else Inr (c\<lparr>msc_Authored := (if choice = MergeConflictAuthored then authored else msc_Authored c),
        msc_Resolution := choice\<rparr>))"

primrec resolve_rows :: "session_decoders \<Rightarrow> (MergeSessionConflict \<Rightarrow> MergeSessionConflict result) \<Rightarrow> string \<Rightarrow> mergeConflictRow list
    \<Rightarrow> MergeSessionConflict list result" where
  "resolve_rows dec resolve conflictID [] = Inr []"
| "resolve_rows dec resolve conflictID (r # rows) =
     and_then (scan_conflict dec r) (\<lambda>c.
     and_then (if mcr_ConflictID r = conflictID then resolve c else Inr c) (\<lambda>c.
     and_then (resolve_rows dec resolve conflictID rows) (\<lambda>cs. Inr (c # cs))))"

definition store_conflict :: "string \<Rightarrow> MergeSessionConflict \<Rightarrow> unit lt" where
  "store_conflict sessionID c =
     tx_bind (tx_marshal (session_conflict_json c)) (\<lambda>payload.
     tx_bind (tx_update ldb_merge_conflicts_update ldb_merge_conflicts
       (\<lambda>r. mcr_SessionID r = sessionID \<and> mcr_ConflictID r = msc_ID c) (\<lambda>r. r\<lparr>mcr_ConflictJSON := payload\<rparr>)) (\<lambda>_. tx_return ()))"

definition set_session_state :: "MergeSessionState \<Rightarrow> mergeSessionRow \<Rightarrow> mergeSessionRow" where
  "set_session_state state r = r\<lparr>msr_State := state\<rparr>"

definition resolve_merge :: "session_decoders \<Rightarrow> string \<Rightarrow> string \<Rightarrow> MergeConflictResolution \<Rightarrow> SnapshotMergeRecord option \<Rightarrow> unit lt" where
  "resolve_merge dec sessionID conflictID choice authored =
     tx_bind (tx_read (\<lambda>db. take_row (\<lambda>r. msr_SessionID r = sessionID) (ldb_merge_sessions db))) (\<lambda>found.
     tx_bind (tx_found found CodeEntityNotFound) (\<lambda>session.
     tx_bind (tx_check (msr_State session \<noteq> MergeSessionCommitted) CodeValidation) (\<lambda>_.
     tx_bind (tx_read (conflict_rows sessionID)) (\<lambda>rows.
     tx_bind (tx_lift (resolve_rows dec (settle_conflict (msr_SourceSHA session) choice authored) conflictID rows)) (\<lambda>conflicts.
     tx_bind (tx_check (conflictID \<in> set (map mcr_ConflictID rows)) CodeEntityNotFound) (\<lambda>_.
     tx_bind (tx_each (store_conflict sessionID) conflicts) (\<lambda>_.
     let ready = list_all (\<lambda>c. msc_Resolution c \<noteq> MergeConflictUnresolved) conflicts
     in tx_bind (tx_update ldb_merge_sessions_update ldb_merge_sessions (\<lambda>r. msr_SessionID r = sessionID)
          (set_session_state (if ready then MergeSessionReady else MergeSessionOpen))) (\<lambda>_. tx_return ()))))))))"

definition ResolveMergeConflict :: "session_decoders \<Rightarrow> string \<Rightarrow> string \<Rightarrow> MergeConflictResolution \<Rightarrow> SnapshotMergeRecord option
    \<Rightarrow> local_db \<Rightarrow> local_db \<times> MergeSession result" where
  "ResolveMergeConflict dec sessionID conflictID choice authored db =
     (let sessionID = TrimSpace sessionID; conflictID = TrimSpace conflictID
      in if sessionID = [] \<or> conflictID = [] then (db, Inl CodeValidation)
      else if choice \<notin> {MergeConflictLocal, MergeConflictRemote, MergeConflictAuthored} then (db, Inl CodeValidation)
      else case transaction (resolve_merge dec sessionID conflictID choice authored) db of
        (db', Inl e) \<Rightarrow> (db', Inl e)
      | (db', Inr _) \<Rightarrow> (db', read_MergeSession dec sessionID db'))"

subsection \<open>Finalizing a merge\<close>

record FinalizeMergeInput =
  fmi_Key :: WorkingSetKey
  fmi_SessionID :: string
  fmi_Commit :: ContextCommit
  fmi_ParentIDs :: "string list"
  fmi_Notes :: "Note list"

definition merge_matches :: "FinalizeMergeInput \<Rightarrow> mergeSessionRow \<Rightarrow> bool" where
  "merge_matches input s \<longleftrightarrow> (let commit = fmi_Commit input; key = fmi_Key input in
     fmi_ParentIDs input = [msr_LocalSnapshotID s, msr_RemoteSnapshotID s] \<and> commit_ParentID commit = msr_LocalSnapshotID s
     \<and> commit_SourceSHA commit = msr_SourceSHA s \<and> commit_SourceSHA commit = key_SourceSHA key
     \<and> commit_RefName commit = key_RefName key)"

definition finalize_merge :: "map_order \<Rightarrow> topics_decoder \<Rightarrow> FinalizeMergeInput \<Rightarrow> unit lt" where
  "finalize_merge ord decode input =
     (let key = fmi_Key input; commit = fmi_Commit input in
     tx_bind (requireWorkingSet key) (\<lambda>_.
     tx_bind (tx_read (\<lambda>db. take_row (\<lambda>r. msr_SessionID r = fmi_SessionID input) (ldb_merge_sessions db))) (\<lambda>found.
     tx_bind (tx_found found CodeEntityNotFound) (\<lambda>session.
     tx_bind (tx_check (msr_State session = MergeSessionReady) CodeValidation) (\<lambda>_.
     tx_bind (tx_check (merge_matches input session) CodeValidation) (\<lambda>_.
     tx_bind (tx_read (pending_count (key_WorktreeID key))) (\<lambda>pendingCount.
     tx_bind (tx_check (pendingCount = 0) CodeWorkingSetDirty) (\<lambda>_.
     tx_bind (tx_read (currentContextRef (key_RefName key))) (\<lambda>actual.
     tx_bind (tx_check (cref_CommitID actual = msr_LocalSnapshotID session \<and> cref_SourceSHA actual = key_SourceSHA key)
       CodeConcurrentUpdate) (\<lambda>_.
     tx_bind (insert_commit commit) (\<lambda>_.
     tx_bind (insertContextCommitParents (commit_ID commit) (fmi_ParentIDs input)) (\<lambda>_.
     tx_bind (tx_each (insert_note (commit_ID commit)) (fmi_Notes input)) (\<lambda>_.
     tx_bind (tx_update ldb_refs_update ldb_refs (\<lambda>r. lrr_RefName r = key_RefName key
         \<and> lrr_CommitID r = msr_LocalSnapshotID session \<and> lrr_SourceSHA r = key_SourceSHA key
         \<and> lrr_Version r = cref_Version actual) (set_ref (commit_ID commit) (commit_SourceSHA commit))) (\<lambda>changed.
     tx_bind (tx_check (changed = 1) CodeConcurrentUpdate) (\<lambda>_.
     tx_bind (tx_update ldb_working_sets_update ldb_working_sets (\<lambda>w. ws_WorktreeID w = key_WorktreeID key
         \<and> ws_RefName w = key_RefName key \<and> ws_SourceSHA w = key_SourceSHA key) (set_base (commit_ID commit))) (\<lambda>changed.
     tx_bind (tx_check (changed = 1) CodeStaleWorkingSet) (\<lambda>_.
     tx_bind (tx_update ldb_merge_sessions_update ldb_merge_sessions
         (\<lambda>r. msr_SessionID r = fmi_SessionID input \<and> msr_State r = MergeSessionReady)
         (set_session_state MergeSessionCommitted)) (\<lambda>_.
     rebuildSearch ord decode key))))))))))))))))))"

definition FinalizeMerge :: "map_order \<Rightarrow> topics_decoder \<Rightarrow> FinalizeMergeInput \<Rightarrow> local_db \<Rightarrow> local_db \<times> unit result" where
  "FinalizeMerge ord decode input db =
     (if length (fmi_ParentIDs input) \<noteq> 2 \<or> fmi_ParentIDs input ! 0 = [] \<or> fmi_ParentIDs input ! 1 = []
        \<or> fmi_ParentIDs input ! 0 = fmi_ParentIDs input ! 1 then (db, Inl CodeValidation)
      else transaction (finalize_merge ord decode input) db)"

end
