(* ===== verification/Merge_Commits.thy ===== *)
theory Merge_Commits
  imports Merge_Sessions Merge_Base
begin

text \<open>
  The service operations on merges (app/merge.go): \<open>StartMerge\<close> plans the merge of two snapshots of
  one source and opens a session, \<open>ResolveMerge\<close> settles one conflict, and \<open>CommitMerge\<close> writes the
  object with both snapshots as its parents and moves the ref to it.
\<close>

text \<open>What a run meets besides \<open>commit_run\<close>: whether the worktree is clean, and a new identifier.\<close>

record merge_run = commit_run +
  run_clean :: "unit result"
  run_new_id :: "string result"

definition stored_merge_base :: "object_env \<Rightarrow> map_order \<Rightarrow> object_dir \<Rightarrow> WorkingSetKey \<Rightarrow> string \<Rightarrow> string \<Rightarrow> string result" where
  "stored_merge_base env ord dir key localID remoteID =
     (case FindMergeBase (oe_blake3 env) (oe_decode env) ord (oe_fuel env) dir localID remoteID
         (key_RepositoryID key) (key_RefName key) of Some r \<Rightarrow> r | None \<Rightarrow> Inl CodeLocalStorage)"

record MergeStartInput =
  msi_LocalSnapshotID :: string
  msi_RemoteSnapshotID :: string
  msi_Message :: string
  msi_Author :: string

definition planned_conflict :: "SnapshotMergeConflict \<Rightarrow> MergeSessionConflict" where
  "planned_conflict c = \<lparr>msc_ID = mconf_NoteID c, msc_Conflict = c, msc_Resolution = MergeConflictUnresolved, msc_Authored = None\<rparr>"

definition merge_source_ok :: "WorkingSetKey \<Rightarrow> ContextObject \<Rightarrow> ContextObject \<Rightarrow> bool" where
  "merge_source_ok key l r \<longleftrightarrow> IsContextSnapshotSchema (obj_SchemaVersion l) \<and> IsContextSnapshotSchema (obj_SchemaVersion r)
     \<and> obj_SourceSHA l = key_SourceSHA key \<and> obj_SourceSHA r = key_SourceSHA key"

definition StartMerge :: "object_env \<Rightarrow> map_order \<Rightarrow> topics_decoder \<Rightarrow> merge_run \<Rightarrow> MergeStartInput \<Rightarrow> local_state
    \<Rightarrow> local_state \<times> MergeSession result" where
  "StartMerge env ord decode run input st =
     (let db = fst st; dir = snd st;
       planned =
         and_then (run_key run) (\<lambda>key.
         and_then (run_clean run) (\<lambda>_.
         and_then (NormalizeContextCommitID (msi_LocalSnapshotID input)) (\<lambda>localID.
         and_then (NormalizeContextCommitID (msi_RemoteSnapshotID input)) (\<lambda>remoteID.
         if localID = remoteID then Inl CodeValidation
         else let message = TrimSpace (msi_Message input); author = TrimSpace (msi_Author input)
         in if message = [] \<or> author = [] then Inl CodeValidation
         else and_then (run_store run) (\<lambda>_.
         and_then (read_ContextRef key db) (\<lambda>(_, ref).
         if cref_CommitID ref \<noteq> localID then Inl CodeConcurrentUpdate
         else and_then (listPendingNotes decode (key_WorktreeID key) db) (\<lambda>(_, pending).
         if pending \<noteq> [] then Inl CodeWorkingSetDirty
         else and_then (stored_object env dir key localID) (\<lambda>l.
         and_then (stored_object env dir key remoteID) (\<lambda>r.
         if \<not> merge_source_ok key l r then Inl CodeStaleWorkingSet
         else and_then (stored_merge_base env ord dir key localID remoteID) (\<lambda>baseID.
         and_then (stored_object env dir key baseID) (\<lambda>base.
         and_then (PlanSnapshotMerge ord \<lparr>smi_Base = base, smi_Local = l, smi_Remote = r\<rparr>) (\<lambda>plan.
         Inr \<lparr>ms_ID = [], ms_LocalSnapshotID = localID, ms_RemoteSnapshotID = remoteID, ms_BaseSnapshotID = baseID,
           ms_RepositoryID = key_RepositoryID key, ms_RefName = key_RefName key, ms_SourceSHA = key_SourceSHA key,
           ms_Provenance = obj_Provenance l, ms_Message = message, ms_Author = author,
           ms_PlannedCreatedAt = time_UTC (run_now run), ms_State = [], ms_AutomaticRecords = copy_slice (mplan_Records plan),
           ms_Conflicts = map planned_conflict (mplan_Conflicts plan)\<rparr>))))))))))))
     in case planned of Inl e \<Rightarrow> (st, Inl e)
      | Inr session \<Rightarrow> (case CreateMergeSession (run_new_id run) session db of (db', r) \<Rightarrow> ((db', dir), r)))"

subsection \<open>Resolving\<close>

record MergeResolveInput =
  mri_SessionID :: string
  mri_ConflictID :: string
  mri_Use :: string
  mri_EntityKey :: string
  mri_Kind :: string
  mri_Body :: string
  mri_Author :: string
  mri_Origin :: string

definition authoredMergeRecord :: "object_env \<Rightarrow> MergeSession \<Rightarrow> MergeResolveInput \<Rightarrow> SnapshotMergeRecord result" where
  "authoredMergeRecord env session input =
     (let conflictID = TrimSpace (mri_ConflictID input);
          found = List.find (\<lambda>c. msc_ID c = conflictID) (ms_Conflicts session);
          noteID = (case found of None \<Rightarrow> [] | Some c \<Rightarrow> mconf_NoteID (msc_Conflict c));
          supersedes = (case found of None \<Rightarrow> [] | Some c \<Rightarrow>
            (case mconf_Base (msc_Conflict c) of None \<Rightarrow> [] | Some b \<Rightarrow> note_RevisionID (mrec_Note b)));
          entityKey = TrimSpace (mri_EntityKey input); body = TrimSpace (mri_Body input);
          author = TrimSpace (mri_Author input); origin = TrimSpace (mri_Origin input); kind = TrimSpace (mri_Kind input)
      in if noteID = [] then Inl CodeEntityNotFound
      else if entityKey = [] \<or> body = [] \<or> author = [] \<or> origin = [] \<or> \<not> ValidNoteKind kind then Inl CodeValidation
      else case json_marshal (JObject (fld_s ''local_snapshot_id'' (ms_LocalSnapshotID session)
          @ fld_s ''remote_snapshot_id'' (ms_RemoteSnapshotID session) @ fld_s ''conflict_id'' conflictID @ fld_s ''note_id'' noteID
          @ fld_s ''supersedes_revision_id'' supersedes @ fld_s ''entity_key'' entityKey @ fld_s ''kind'' kind
          @ fld_s ''body'' body @ fld_s ''author'' author @ fld_s ''origin'' origin)) of
        None \<Rightarrow> Inl CodeLocalStorage
      | Some contents \<Rightarrow>
        let n = \<lparr>note_ID = noteID, note_RevisionID = hex_encode (oe_blake3 env contents), note_SupersedesRevisionID = supersedes,
              note_EntityKey = entityKey, note_Kind = kind, note_Body = body, note_Author = author, note_Origin = origin,
              note_CreatedAt = ms_PlannedCreatedAt session, note_BindingState = NoteBindingActive,
              note_BindingSourceSHA = ms_SourceSHA session, note_ReviewReason = [], note_Topics = None, note_Pending = False\<rparr>
        in Inr \<lparr>mrec_Note = n, mrec_Mapping = note_mapping n\<rparr>)"

definition ResolveMerge :: "object_env \<Rightarrow> session_decoders \<Rightarrow> merge_run \<Rightarrow> MergeResolveInput \<Rightarrow> local_db \<Rightarrow> local_db \<times> MergeSession result" where
  "ResolveMerge env dec run input db =
     (let checked =
        and_then (run_key run) (\<lambda>key.
        and_then (run_clean run) (\<lambda>_.
        and_then (run_store run) (\<lambda>_.
        and_then (read_MergeSession dec (mri_SessionID input) db) (\<lambda>session.
        if ms_RepositoryID session \<noteq> key_RepositoryID key \<or> ms_RefName session \<noteq> key_RefName key
          \<or> ms_SourceSHA session \<noteq> key_SourceSHA key then Inl CodeStaleWorkingSet
        else if TrimSpace (mri_Use input) = MergeConflictAuthored
          then and_then (authoredMergeRecord env session input) (\<lambda>r. Inr (Some r)) else Inr None))))
      in case checked of Inl e \<Rightarrow> (db, Inl e)
       | Inr authored \<Rightarrow> ResolveMergeConflict dec (mri_SessionID input) (mri_ConflictID input) (TrimSpace (mri_Use input)) authored db)"

subsection \<open>Committing\<close>

definition validMergeRecord :: "string \<Rightarrow> SnapshotMergeRecord option \<Rightarrow> string \<Rightarrow> bool" where
  "validMergeRecord noteID r sourceSHA = (case r of None \<Rightarrow> False
     | Some x \<Rightarrow> merge_fields_ok noteID x \<and> note_BindingSourceSHA (mrec_Note x) = sourceSHA)"

definition chosen_record :: "MergeSessionConflict \<Rightarrow> SnapshotMergeRecord option option" where
  "chosen_record c = (if msc_Resolution c = MergeConflictLocal then Some (mconf_Local (msc_Conflict c))
     else if msc_Resolution c = MergeConflictRemote then Some (mconf_Remote (msc_Conflict c))
     else if msc_Resolution c = MergeConflictAuthored then Some (msc_Authored c) else None)"

primrec resolved_conflicts :: "string \<Rightarrow> MergeSessionConflict list \<Rightarrow> SnapshotMergeRecord list result" where
  "resolved_conflicts sourceSHA [] = Inr []"
| "resolved_conflicts sourceSHA (c # cs) = (case chosen_record c of
       None \<Rightarrow> Inl CodeValidation
     | Some r \<Rightarrow> if \<not> validMergeRecord (mconf_NoteID (msc_Conflict c)) r sourceSHA then Inl CodeValidation
         else and_then (resolved_conflicts sourceSHA cs) (\<lambda>rs. Inr (the r # rs)))"

definition resolvedMergeRecords :: "MergeSession \<Rightarrow> SnapshotMergeRecord list result" where
  "resolvedMergeRecords session =
     and_then (resolved_conflicts (ms_SourceSHA session) (ms_Conflicts session)) (\<lambda>resolved.
     let records = elems (ms_AutomaticRecords session) @ resolved
     in if list_all (\<lambda>r. validMergeRecord (note_ID (mrec_Note r)) (Some r) (ms_SourceSHA session)) records
          \<and> distinct (map (\<lambda>r. note_ID (mrec_Note r)) records) then Inr records else Inl CodeValidation)"

definition merge_compatible :: "WorkingSetKey \<Rightarrow> MergeSession \<Rightarrow> ContextObject \<Rightarrow> ContextObject \<Rightarrow> bool" where
  "merge_compatible key session l r \<longleftrightarrow> merge_source_ok key l r
     \<and> obj_Provenance l = ms_Provenance session \<and> obj_Provenance r = ms_Provenance session \<and> obj_Entities l = obj_Entities r"

definition merge_notes :: "SnapshotMergeRecord list \<Rightarrow> Note list" where
  "merge_notes records = sort_key note_ID (map (\<lambda>r. (mrec_Note r)\<lparr>note_Pending := False\<rparr>) records)"

definition merge_object :: "WorkingSetKey \<Rightarrow> MergeSession \<Rightarrow> ContextObject \<Rightarrow> ContextObject \<Rightarrow> Note list \<Rightarrow> ContextObject" where
  "merge_object key session l r notes =
     (context_object key ([ms_LocalSnapshotID session, ms_RemoteSnapshotID session], [], contextSnapshotWriteVersion [l, r])
       (ms_Message session) (ms_Author session) (ms_PlannedCreatedAt session) (ms_Provenance session) [] notes)
     \<lparr>obj_Entities := map_option (sort_key ent_Key) (if elems (obj_Entities l) = [] then None else obj_Entities l)\<rparr>"

definition merge_commit_plan :: "object_env \<Rightarrow> topics_decoder \<Rightarrow> session_decoders \<Rightarrow> merge_run \<Rightarrow> string \<Rightarrow> local_state
    \<Rightarrow> (WorkingSetKey \<times> MergeSession \<times> ContextObject) result" where
  "merge_commit_plan env decode dec run sessionID st =
     (let db = fst st; dir = snd st in
     and_then (run_key run) (\<lambda>key.
     and_then (run_clean run) (\<lambda>_.
     and_then (run_store run) (\<lambda>_.
     and_then (read_MergeSession dec sessionID db) (\<lambda>session.
     if ms_State session \<noteq> MergeSessionReady \<or> ms_RepositoryID session \<noteq> key_RepositoryID key
       \<or> ms_RefName session \<noteq> key_RefName key \<or> ms_SourceSHA session \<noteq> key_SourceSHA key then Inl CodeValidation
     else and_then (read_ContextRef key db) (\<lambda>(_, ref).
     if cref_CommitID ref \<noteq> ms_LocalSnapshotID session then Inl CodeConcurrentUpdate
     else and_then (listPendingNotes decode (key_WorktreeID key) db) (\<lambda>(_, pending).
     if pending \<noteq> [] then Inl CodeWorkingSetDirty
     else and_then (stored_object env dir key (ms_LocalSnapshotID session)) (\<lambda>l.
     and_then (stored_object env dir key (ms_RemoteSnapshotID session)) (\<lambda>r.
     if \<not> merge_compatible key session l r then Inl CodeValidation
     else and_then (resolvedMergeRecords session) (\<lambda>records.
     Inr (key, session, merge_object key session l r (merge_notes records))))))))))))"

definition finalize_merge_input :: "WorkingSetKey \<Rightarrow> MergeSession \<Rightarrow> ContextObject \<Rightarrow> ContextCommit \<Rightarrow> FinalizeMergeInput" where
  "finalize_merge_input key session obj commit = \<lparr>fmi_Key = key, fmi_SessionID = ms_ID session, fmi_Commit = commit,
     fmi_ParentIDs = obj_ParentIDs obj, fmi_Notes = elems (obj_Notes obj)\<rparr>"

definition merge_to_commit :: "string \<Rightarrow> MergeSession \<Rightarrow> ContextObject \<Rightarrow> ContextCommit" where
  "merge_to_commit identifier session obj = \<lparr>commit_ID = identifier, commit_ParentID = ms_LocalSnapshotID session,
     commit_RefName = obj_RefName obj, commit_SourceSHA = obj_SourceSHA obj, commit_Message = obj_Message obj,
     commit_Author = obj_Author obj, commit_CreatedAt = obj_CreatedAt obj\<rparr>"

definition CommitMerge :: "object_env \<Rightarrow> map_order \<Rightarrow> topics_decoder \<Rightarrow> session_decoders \<Rightarrow> merge_run \<Rightarrow> string \<Rightarrow> local_state
    \<Rightarrow> local_state \<times> ContextCommit result" where
  "CommitMerge env ord decode dec run sessionID st = (case merge_commit_plan env decode dec run sessionID st of
       Inl e \<Rightarrow> (st, Inl e)
     | Inr (key, session, obj) \<Rightarrow>
       (case json_marshal (object_json obj) of
          None \<Rightarrow> (st, Inl CodeLocalStorage)
        | Some contents \<Rightarrow>
          let identifier = hex_encode (oe_blake3 env contents)
          in (case run_before_write run of
             Inl e \<Rightarrow> (st, Inl e)
           | Inr _ \<Rightarrow>
             (case WriteObject (run_write run) identifier contents (snd st) of
                (dir, Inl e) \<Rightarrow> ((fst st, dir), Inl e)
              | (dir, Inr _) \<Rightarrow>
                (case run_after_write run of
                   Inl e \<Rightarrow> ((fst st, dir), Inl e)
                 | Inr _ \<Rightarrow>
                   let commit = merge_to_commit identifier session obj
                   in (case FinalizeMerge ord decode (finalize_merge_input key session obj commit) (fst st) of
                        (db, Inl e) \<Rightarrow> ((db, dir), Inl e)
                      | (db, Inr _) \<Rightarrow> ((db, dir), Inr commit)))))))"

end
