(* ===== verification/Local_Candidates.thy ===== *)
theory Local_Candidates
  imports Local_Queries
begin

text \<open>
  Candidates of the local store (store/candidate.go): snapshots of pull requests with their draft
  notes, imported in the order of the provider's updates, and the promotion of the drafts of a merged
  candidate to pending notes.  The time columns keep nanoseconds, the other columns are the fields.
\<close>

subsection \<open>Importing\<close>

definition candidate_json :: "Candidate \<Rightarrow> json" where
  "candidate_json c = JObject (fld_s ''id'' (cand_ID c) @ fld_s ''provider'' (cand_Provider c)
     @ fld_s ''repository'' (cand_Repository c) @ fld ''number'' (JInt (cand_Number c)) @ fld_s ''state'' (cand_State c)
     @ fld_s ''base_sha'' (cand_BaseSHA c) @ fld_s ''head_sha'' (cand_HeadSHA c) @ fld_omit ''merge_sha'' (cand_MergeSHA c)
     @ fld ''updated_at'' (JTime (cand_UpdatedAt c)))"

definition candidate_note_json :: "CandidateNote \<Rightarrow> json" where
  "candidate_note_json n = JObject (fld_s ''candidate_id'' (cnote_CandidateID n) @ fld_s ''id'' (cnote_ID n)
     @ fld_s ''entity_key'' (cnote_EntityKey n) @ fld_s ''structural_hash'' (cnote_StructuralHash n)
     @ fld_s ''kind'' (cnote_Kind n) @ fld_s ''body'' (cnote_Body n) @ fld_s ''author'' (cnote_Author n)
     @ fld_s ''origin'' (cnote_Origin n) @ fld ''created_at'' (JTime (cnote_CreatedAt n)) @ fld_s ''state'' (cnote_State n)
     @ fld_omit ''promoted_note_id'' (cnote_PromotedNoteID n))"

definition validateCandidateInput :: "Candidate \<Rightarrow> CandidateNote list \<Rightarrow> unit result" where
  "validateCandidateInput c notes =
     (if cand_ID c = [] \<or> cand_Provider c = [] \<or> cand_Repository c = [] \<or> cand_Number c < 1 \<or> \<not> ValidCandidateState (cand_State c)
        \<or> cand_BaseSHA c = [] \<or> cand_HeadSHA c = [] \<or> time_IsZero (cand_UpdatedAt c) then Inl CodeValidation
      else if list_ex (\<lambda>n. cnote_CandidateID n \<noteq> cand_ID c \<or> cnote_ID n = [] \<or> cnote_EntityKey n = [] \<or> cnote_StructuralHash n = []
          \<or> \<not> ValidNoteKind (cnote_Kind n) \<or> cnote_Body n = [] \<or> cnote_Author n = [] \<or> cnote_Origin n = []
          \<or> time_IsZero (cnote_CreatedAt n) \<or> cnote_State n \<noteq> CandidateNoteDraft \<or> cnote_PromotedNoteID n \<noteq> []) notes
        then Inl CodeValidation
      else Inr ())"

definition candidatePayloadHash :: "(string \<Rightarrow> string) \<Rightarrow> Candidate \<Rightarrow> CandidateNote slice \<Rightarrow> string result" where
  "candidatePayloadHash b3 c notes = (case json_marshal (JObject (fld ''candidate'' (candidate_json c)
       @ fld ''notes'' (json_slice (map_option (map candidate_note_json) notes)))) of
     None \<Rightarrow> Inl CodeLocalStorage | Some contents \<Rightarrow> Inr (hex_encode (b3 contents)))"

definition candidate_row :: "Candidate \<Rightarrow> string \<Rightarrow> candidateRow" where
  "candidate_row c hash = \<lparr>cdr_Candidate = c, cdr_UpdatedAt = UnixNano (cand_UpdatedAt c), cdr_PayloadHash = hash\<rparr>"

definition upsertCandidate :: "Candidate \<Rightarrow> string \<Rightarrow> unit lt" where
  "upsertCandidate c payloadHash = tx_upsert ldb_candidates_update (\<lambda>r. cand_ID (cdr_Candidate r) = cand_ID c)
     (\<lambda>_. candidate_row c payloadHash) (candidate_row c payloadHash)"

definition candidate_note_key :: "CandidateNote \<Rightarrow> string \<times> string" where
  "candidate_note_key n = (cnote_CandidateID n, cnote_ID n)"

definition insertCandidateNotes :: "CandidateNote list \<Rightarrow> unit lt" where
  "insertCandidateNotes = tx_each (\<lambda>n. tx_insert_ignore ldb_candidate_notes_update
     (\<lambda>r. candidate_note_key (cnr_Note r) = candidate_note_key n)
     \<lparr>cnr_Note = n\<lparr>cnote_PromotedNoteID := []\<rparr>, cnr_CreatedAt = UnixNano (cnote_CreatedAt n)\<rparr>)"

definition import_candidate :: "Candidate \<Rightarrow> CandidateNote list \<Rightarrow> string \<Rightarrow> bool lt" where
  "import_candidate c notes payloadHash =
     (let write = tx_bind (upsertCandidate c payloadHash) (\<lambda>_. tx_bind (insertCandidateNotes notes) (\<lambda>_. tx_return True))
      in tx_bind (tx_read (\<lambda>db. take_row (\<lambda>r. cand_ID (cdr_Candidate r) = cand_ID c) (ldb_candidates db))) (\<lambda>found.
         case found of
           None \<Rightarrow> write
         | Some r \<Rightarrow>
             if UnixNano (cand_UpdatedAt c) < cdr_UpdatedAt r then tx_fail CodeValidation
             else if cdr_UpdatedAt r = UnixNano (cand_UpdatedAt c)
               then (if cdr_PayloadHash r = payloadHash then tx_return False else tx_fail CodeValidation)
             else tx_bind (tx_delete ldb_candidate_notes_update
                 (\<lambda>r. cnote_CandidateID (cnr_Note r) = cand_ID c \<and> cnote_State (cnr_Note r) = CandidateNoteDraft)) (\<lambda>_. write)))"

definition ImportCandidate :: "(string \<Rightarrow> string) \<Rightarrow> Candidate \<Rightarrow> CandidateNote slice \<Rightarrow> local_db \<Rightarrow> local_db \<times> bool result" where
  "ImportCandidate b3 c notes db = (case validateCandidateInput c (elems notes) of Inl e \<Rightarrow> (db, Inl e)
     | Inr _ \<Rightarrow> (case candidatePayloadHash b3 c notes of Inl e \<Rightarrow> (db, Inl e)
     | Inr payloadHash \<Rightarrow> transaction (import_candidate c (elems notes) payloadHash) db))"

subsection \<open>Reading\<close>

definition row_candidate :: "candidateRow \<Rightarrow> Candidate" where
  "row_candidate r = (cdr_Candidate r)\<lparr>cand_UpdatedAt := time_Unix (cdr_UpdatedAt r)\<rparr>"

definition row_candidate_note :: "candidateNoteRow \<Rightarrow> CandidateNote" where
  "row_candidate_note r = (cnr_Note r)\<lparr>cnote_CreatedAt := time_Unix (cnr_CreatedAt r)\<rparr>"

definition candidate_notes_where :: "(CandidateNote \<Rightarrow> bool) \<Rightarrow> local_db \<Rightarrow> CandidateNote list" where
  "candidate_notes_where P db = map row_candidate_note (sort_key (\<lambda>r. (cnr_CreatedAt r, cnote_ID (cnr_Note r)))
     (filter (\<lambda>r. P (cnr_Note r)) (ldb_candidate_notes db)))"

definition read_Candidate :: "string \<Rightarrow> local_db \<Rightarrow> (Candidate \<times> CandidateNote list) result" where
  "read_Candidate candidateID db = (case take_row (\<lambda>r. cand_ID (cdr_Candidate r) = candidateID) (ldb_candidates db) of
       None \<Rightarrow> Inl CodeEntityNotFound
     | Some r \<Rightarrow> Inr (row_candidate r, candidate_notes_where (\<lambda>n. cnote_CandidateID n = candidateID) db))"

definition read_Candidates :: "local_db \<Rightarrow> Candidate list" where
  "read_Candidates db = map row_candidate (sort_key (\<lambda>r. (- cdr_UpdatedAt r, cand_ID (cdr_Candidate r))) (ldb_candidates db))"

definition listCandidateNotesByState :: "string \<Rightarrow> CandidateNoteState \<Rightarrow> local_db \<Rightarrow> CandidateNote list" where
  "listCandidateNotesByState candidateID state =
     candidate_notes_where (\<lambda>n. cnote_CandidateID n = candidateID \<and> cnote_State n = state)"

subsection \<open>Promotion\<close>

record CandidatePromotionResult =
  cpr_CandidateID :: string
  cpr_Promoted :: bool
  cpr_ActiveNotes :: nat
  cpr_NeedsReviewNotes :: nat
  cpr_HistoricalNotes :: nat

definition set_outcome :: "CandidateNoteState \<Rightarrow> string \<Rightarrow> candidateNoteRow \<Rightarrow> candidateNoteRow" where
  "set_outcome state promotedNoteID r =
     r\<lparr>cnr_Note := (cnr_Note r)\<lparr>cnote_State := state, cnote_PromotedNoteID := promotedNoteID\<rparr>\<rparr>"

definition setCandidateNoteOutcome :: "string \<Rightarrow> string \<Rightarrow> CandidateNoteState \<Rightarrow> string \<Rightarrow> unit lt" where
  "setCandidateNoteOutcome candidateID noteID state promotedNoteID =
     tx_bind (tx_update ldb_candidate_notes_update ldb_candidate_notes
       (\<lambda>r. candidate_note_key (cnr_Note r) = (candidateID, noteID) \<and> cnote_State (cnr_Note r) = CandidateNoteDraft)
       (set_outcome state promotedNoteID)) (\<lambda>changed. tx_check (changed = 1) CodeConcurrentUpdate)"

text \<open>The identifiers \<open>newID\<close> returns and the clock, for each note that is promoted.\<close>

type_synonym promotion_source = "nat \<Rightarrow> string result \<times> string result \<times> go_time"

definition promoted_note :: "string \<Rightarrow> string \<Rightarrow> go_time \<Rightarrow> string \<Rightarrow> CandidateNote \<Rightarrow> Entity \<Rightarrow> Note" where
  "promoted_note noteID revisionID now sourceSHA c e =
     (let same = ent_StructuralHash e = cnote_StructuralHash c in
     \<lparr>note_ID = noteID, note_RevisionID = revisionID, note_SupersedesRevisionID = [], note_EntityKey = cnote_EntityKey c,
      note_Kind = cnote_Kind c, note_Body = cnote_Body c, note_Author = cnote_Author c, note_Origin = cnote_Origin c,
      note_CreatedAt = time_UTC now, note_BindingState = (if same then NoteBindingActive else NoteBindingNeedsReview),
      note_BindingSourceSHA = sourceSHA, note_ReviewReason = (if same then [] else ''candidate_structural_change''),
      note_Topics = None, note_Pending = True\<rparr>)"

fun promote_notes :: "promotion_source \<Rightarrow> nat \<Rightarrow> WorkingSetKey \<Rightarrow> string \<Rightarrow> CandidateNote list \<Rightarrow> CandidatePromotionResult
    \<Rightarrow> CandidatePromotionResult lt" where
  "promote_notes source i key candidateID [] res = tx_return res"
| "promote_notes source i key candidateID (c # rest) res =
     tx_bind (tx_read (entityByKeyFresh (key_WorktreeID key) (key_SourceSHA key) (cnote_EntityKey c))) (\<lambda>found.
     case found of
       Inl e \<Rightarrow> if e = CodeEntityNotFound
         then tx_bind (setCandidateNoteOutcome candidateID (cnote_ID c) CandidateNoteHistorical []) (\<lambda>_.
           promote_notes source (i + 1) key candidateID rest (res\<lparr>cpr_HistoricalNotes := cpr_HistoricalNotes res + 1\<rparr>))
         else tx_fail e
     | Inr entity \<Rightarrow> (case source i of
         (Inl e, _) \<Rightarrow> tx_fail CodeLocalStorage
       | (Inr noteID, Inl e, _) \<Rightarrow> tx_fail CodeLocalStorage
       | (Inr noteID, Inr revisionID, now) \<Rightarrow>
           let pending = promoted_note noteID revisionID now (key_SourceSHA key) c entity;
               counted = (if note_BindingState pending = NoteBindingActive then res\<lparr>cpr_ActiveNotes := cpr_ActiveNotes res + 1\<rparr>
                 else res\<lparr>cpr_NeedsReviewNotes := cpr_NeedsReviewNotes res + 1\<rparr>)
           in tx_bind (upsertPendingNote (key_WorktreeID key) pending) (\<lambda>_.
              tx_bind (setCandidateNoteOutcome candidateID (cnote_ID c) CandidateNotePromoted noteID) (\<lambda>_.
              promote_notes source (i + 1) key candidateID rest counted))))"

definition PromoteCandidate :: "map_order \<Rightarrow> topics_decoder \<Rightarrow> promotion_source \<Rightarrow> WorkingSetKey \<Rightarrow> string \<Rightarrow> local_db
    \<Rightarrow> local_db \<times> CandidatePromotionResult result" where
  "PromoteCandidate ord decode source key candidateID = transaction
     (tx_bind (requireWorkingSet key) (\<lambda>_.
      tx_bind (tx_read (\<lambda>db. take_row (\<lambda>r. cand_ID (cdr_Candidate r) = candidateID) (ldb_candidates db))) (\<lambda>found.
      tx_bind (tx_found found CodeEntityNotFound) (\<lambda>r.
      tx_bind (tx_check (cand_State (cdr_Candidate r) = CandidateMerged) CodeValidation) (\<lambda>_.
      tx_bind (tx_check (cand_MergeSHA (cdr_Candidate r) = key_SourceSHA key) CodeStaleWorkingSet) (\<lambda>_.
      tx_bind (tx_read (listCandidateNotesByState candidateID CandidateNoteDraft)) (\<lambda>notes.
      let none = \<lparr>cpr_CandidateID = candidateID, cpr_Promoted = False, cpr_ActiveNotes = 0, cpr_NeedsReviewNotes = 0, cpr_HistoricalNotes = 0\<rparr>
      in if notes = [] then tx_return none
         else tx_bind (promote_notes source 0 key candidateID notes none) (\<lambda>res.
           let promoted = res\<lparr>cpr_Promoted := True\<rparr>
           in if cpr_ActiveNotes res + cpr_NeedsReviewNotes res = 0 then tx_return promoted
              else tx_bind (rebuildSearch ord decode key) (\<lambda>_. tx_return promoted)))))))))"

end
