(* ===== verification/Landing_Sessions.thy ===== *)
theory Landing_Sessions
  imports Merge_Sessions
begin

text \<open>
  Landing sessions of the local store (store/landing_session.go): a final plan that is resolved
  under optimistic versions and then committed on top of the remote's context.
\<close>

type_synonym LandingSessionState = string

definition LandingSessionOpen :: LandingSessionState where [go_defs]: "LandingSessionOpen = ''open''"
definition LandingSessionReady :: LandingSessionState where [go_defs]: "LandingSessionReady = ''ready''"
definition LandingSessionCommitted :: LandingSessionState where [go_defs]: "LandingSessionCommitted = ''committed''"

record LandingSession =
  lss_ID :: string
  lss_Version :: int
  lss_LandingID :: string
  lss_RemoteName :: string
  lss_RepositoryID :: string
  lss_RefName :: string
  lss_SourceSHA :: string
  lss_ExpectedRemoteCommitID :: string
  lss_ExpectedRemoteRefVersion :: int
  lss_Plan :: ContextPlan
  lss_Candidate :: CandidateContextDelta
  lss_Entities :: "Entity list"
  lss_Provenance :: "ContextSnapshotProvenance list"
  lss_State :: LandingSessionState
  lss_CreatedAt :: go_time

definition landing_session_json :: "LandingSession \<Rightarrow> json" where
  "landing_session_json s = JObject (fld_s ''id'' (lss_ID s) @ fld ''version'' (JInt (lss_Version s))
     @ fld_s ''landing_id'' (lss_LandingID s) @ fld_s ''remote_name'' (lss_RemoteName s)
     @ fld_s ''repository_id'' (lss_RepositoryID s) @ fld_s ''ref_name'' (lss_RefName s) @ fld_s ''source_sha'' (lss_SourceSHA s)
     @ fld_s ''expected_remote_commit_id'' (lss_ExpectedRemoteCommitID s)
     @ fld ''expected_remote_ref_version'' (JInt (lss_ExpectedRemoteRefVersion s)) @ fld ''plan'' (plan_json (lss_Plan s))
     @ fld ''candidate'' (delta_json (lss_Candidate s)) @ fld ''entities'' (JArray (map entity_json (lss_Entities s)))
     @ fld ''provenance'' (JArray (map provenance_json (lss_Provenance s))) @ fld_s ''state'' (lss_State s)
     @ fld ''created_at'' (JTime (lss_CreatedAt s)))"

definition session_state_for :: "ContextPlan \<Rightarrow> LandingSessionState" where
  "session_state_for plan = (if plan_Conflicts plan = [] then LandingSessionReady else LandingSessionOpen)"

definition validateLandingSession :: "LandingSession \<Rightarrow> unit result" where
  "validateLandingSession s =
     (if lss_LandingID s = [] \<or> lss_RemoteName s = [] \<or> lss_RepositoryID s = [] \<or> lss_RefName s = [] \<or> lss_SourceSHA s = []
        \<or> lss_ExpectedRemoteCommitID s = [] \<or> lss_ExpectedRemoteRefVersion s < 1 \<or> plan_Kind (lss_Plan s) \<noteq> ContextPlanFinal
        \<or> fp_HeadSourceSHA (plan_Fingerprint (lss_Plan s)) \<noteq> lss_SourceSHA s \<or> time_IsZero (lss_CreatedAt s)
        \<or> lss_Entities s = [] \<or> lss_Provenance s = [] then Inl CodeValidation else Inr ())"

definition landing_row :: "LandingSession \<Rightarrow> string \<Rightarrow> landingSessionRow" where
  "landing_row s payload = \<lparr>lsr_SessionID = lss_ID s, lsr_LandingID = lss_LandingID s, lsr_Version = lss_Version s,
     lsr_State = lss_State s, lsr_Payload = payload\<rparr>"

definition CreateLandingSession :: "string result \<Rightarrow> LandingSession \<Rightarrow> local_db \<Rightarrow> local_db \<times> LandingSession result" where
  "CreateLandingSession newID session db = (case validateLandingSession session of Inl e \<Rightarrow> (db, Inl e)
     | Inr _ \<Rightarrow> (case newID of Inl e \<Rightarrow> (db, Inl CodeLocalStorage)
     | Inr identifier \<Rightarrow>
       let session = session\<lparr>lss_ID := identifier, lss_Version := 1, lss_State := session_state_for (lss_Plan session)\<rparr>
       in (case json_marshal (landing_session_json session) of None \<Rightarrow> (db, Inl CodeLocalStorage)
        | Some payload \<Rightarrow> transaction
            (tx_bind (tx_insert ldb_landing_sessions_update ldb_landing_sessions
               (\<lambda>r. lsr_SessionID r = identifier \<or> lsr_LandingID r = lss_LandingID session) (landing_row session payload))
             (\<lambda>_. tx_return session)) db)))"

text \<open>\<open>json.Unmarshal\<close> of the payload is a parameter.\<close>

definition read_LandingSession :: "(string \<Rightarrow> LandingSession option) \<Rightarrow> string \<Rightarrow> local_db \<Rightarrow> LandingSession result" where
  "read_LandingSession decode sessionID db =
     (case take_row (\<lambda>r. lsr_SessionID r = TrimSpace sessionID) (ldb_landing_sessions db) of
        None \<Rightarrow> Inl CodeEntityNotFound
      | Some r \<Rightarrow> (case decode (lsr_Payload r) of None \<Rightarrow> Inl CodeLocalStorage | Some s \<Rightarrow> Inr s))"

definition set_landing :: "LandingSession \<Rightarrow> string \<Rightarrow> landingSessionRow \<Rightarrow> landingSessionRow" where
  "set_landing s payload r = r\<lparr>lsr_Version := lss_Version s, lsr_State := lss_State s, lsr_Payload := payload\<rparr>"

definition store_landing :: "int \<Rightarrow> LandingSession \<Rightarrow> unit lt" where
  "store_landing expectedVersion s =
     tx_bind (tx_marshal (landing_session_json s)) (\<lambda>payload.
     tx_bind (tx_update ldb_landing_sessions_update ldb_landing_sessions
       (\<lambda>r. lsr_SessionID r = lss_ID s \<and> lsr_Version r = expectedVersion) (set_landing s payload)) (\<lambda>changed.
     tx_check (changed = 1) CodeConcurrentUpdate))"

definition UpdateLandingSession :: "int \<Rightarrow> LandingSession \<Rightarrow> local_db \<Rightarrow> local_db \<times> LandingSession result" where
  "UpdateLandingSession expectedVersion session db =
     (if expectedVersion < 1 \<or> lss_ID session = [] \<or> lss_State session = LandingSessionCommitted then (db, Inl CodeValidation)
      else let session = session\<lparr>lss_Version := expectedVersion + 1, lss_State := session_state_for (lss_Plan session)\<rparr>
        in transaction (tx_bind (store_landing expectedVersion session) (\<lambda>_. tx_return session)) db)"

record FinalizeLandingInput =
  fli_Key :: WorkingSetKey
  fli_Session :: LandingSession
  fli_ExpectedParent :: string
  fli_Commit :: ContextCommit
  fli_Notes :: "Note list"

definition landing_input_bad :: "FinalizeLandingInput \<Rightarrow> bool" where
  "landing_input_bad input \<longleftrightarrow> (let commit = fli_Commit input; key = fli_Key input in
     lss_State (fli_Session input) \<noteq> LandingSessionReady \<or> commit_ID commit = [] \<or> commit_ParentID commit \<noteq> fli_ExpectedParent input
     \<or> commit_SourceSHA commit \<noteq> key_SourceSHA key \<or> commit_RefName commit \<noteq> key_RefName key)"

definition finalize_landing :: "map_order \<Rightarrow> topics_decoder \<Rightarrow> FinalizeLandingInput \<Rightarrow> unit lt" where
  "finalize_landing ord decode input =
     (let key = fli_Key input; commit = fli_Commit input; session = fli_Session input in
     tx_bind (requireWorkingSet key) (\<lambda>_.
     tx_bind (tx_read (pending_count (key_WorktreeID key))) (\<lambda>pending.
     tx_bind (tx_check (pending = 0) CodeWorkingSetDirty) (\<lambda>_.
     tx_bind (tx_read (currentContextRef (key_RefName key))) (\<lambda>current.
     tx_bind (tx_check (cref_CommitID current = fli_ExpectedParent input) CodeConcurrentUpdate) (\<lambda>_.
     tx_bind (tx_read (\<lambda>db. take_row (\<lambda>r. lsr_SessionID r = lss_ID session) (ldb_landing_sessions db))) (\<lambda>found.
     tx_bind (tx_found found CodeLocalStorage) (\<lambda>stored.
     tx_bind (tx_check (lsr_Version stored = lss_Version session \<and> lsr_State stored = LandingSessionReady) CodeConcurrentUpdate) (\<lambda>_.
     tx_bind (insert_commit commit) (\<lambda>_.
     tx_bind (insertContextCommitParents (commit_ID commit) [fli_ExpectedParent input]) (\<lambda>_.
     tx_bind (tx_each (insert_note (commit_ID commit)) (fli_Notes input)) (\<lambda>_.
     tx_bind (tx_update ldb_refs_update ldb_refs (\<lambda>r. lrr_RefName r = key_RefName key
         \<and> lrr_CommitID r = fli_ExpectedParent input \<and> lrr_Version r = cref_Version current)
         (set_ref (commit_ID commit) (commit_SourceSHA commit))) (\<lambda>changed.
     tx_bind (tx_check (changed = 1) CodeConcurrentUpdate) (\<lambda>_.
     tx_bind (store_landing (lsr_Version stored)
         (session\<lparr>lss_State := LandingSessionCommitted, lss_Version := lss_Version session + 1\<rparr>)) (\<lambda>_.
     tx_bind (tx_update ldb_working_sets_update ldb_working_sets (\<lambda>w. ws_WorktreeID w = key_WorktreeID key)
         (set_base (commit_ID commit))) (\<lambda>_.
     rebuildSearch ord decode key))))))))))))))))"

definition FinalizeLanding :: "map_order \<Rightarrow> topics_decoder \<Rightarrow> FinalizeLandingInput \<Rightarrow> local_db \<Rightarrow> local_db \<times> unit result" where
  "FinalizeLanding ord decode input db =
     (if landing_input_bad input then (db, Inl CodeValidation) else transaction (finalize_landing ord decode input) db)"

end
