(* ===== verification/Local_Facts.thy ===== *)
theory Local_Facts
  imports Merge_Commits Local_Candidates Landing_Sessions
begin

text \<open>
  What the operations of the local store keep: the keys of its tables and the references between
  them (\<open>local_inv\<close>), and the history that no later operation rewrites (\<open>local_evolves\<close>), statement by
  statement.
\<close>

subsection \<open>The invariant and the history\<close>

definition commit_ids :: "local_db \<Rightarrow> string set" where
  "commit_ids db = cmr_CommitID ` set (ldb_commits db)"

text \<open>
  A ref or a working set names a commit by its ID.  The IDs of fetched commits are recorded in
  their normal form, while a fast-forward stores the ID the remote's ref was written with: it names
  the commit up to the spelling.
\<close>

definition names_commit :: "string set \<Rightarrow> string \<Rightarrow> bool" where
  "names_commit ids i \<longleftrightarrow> i \<in> ids \<or> (\<exists>c \<in> ids. NormalizeContextCommitID i = Inr c)"

lemma names_recorded [intro]: "i \<in> ids \<Longrightarrow> names_commit ids i"
  by (simp add: names_commit_def)

lemma names_commit_mono: "names_commit ids i \<Longrightarrow> ids \<subseteq> ids' \<Longrightarrow> names_commit ids' i"
  by (auto simp: names_commit_def)

lemma names_canonical: "names_commit ids i \<Longrightarrow> canonical_id i \<Longrightarrow> i \<in> ids"
  by (auto simp: names_commit_def canonical_id_fixed)

definition note_key :: "noteRow \<Rightarrow> string \<times> string" where
  "note_key r = (nr_Owner r, nr_NoteID r)"

definition parent_key :: "parentRow \<Rightarrow> string \<times> int" where
  "parent_key p = (par_CommitID p, par_Index p)"

definition session_conflict_key :: "mergeConflictRow \<Rightarrow> string \<times> string" where
  "session_conflict_key r = (mcr_SessionID r, mcr_ConflictID r)"

definition remote_ref_key :: "remoteRefRow \<Rightarrow> string \<times> string" where
  "remote_ref_key r = (rrr_RemoteName r, rrr_RefName r)"

definition merge_state_ok :: "mergeSessionRow \<Rightarrow> bool" where
  "merge_state_ok s \<longleftrightarrow> msr_State s \<in> {MergeSessionOpen, MergeSessionReady, MergeSessionCommitted}"

definition local_inv :: "local_db \<Rightarrow> bool" where
  "local_inv db \<longleftrightarrow>
     table_ok cmr_CommitID (\<lambda>_. True) (ldb_commits db)
     \<and> table_ok note_key (\<lambda>r. nr_Owner r \<in> commit_ids db) (ldb_notes db)
     \<and> table_ok note_key (\<lambda>_. True) (ldb_pending db)
     \<and> table_ok lrr_RefName (\<lambda>r. names_commit (commit_ids db) (lrr_CommitID r)) (ldb_refs db)
     \<and> table_ok ws_WorktreeID (\<lambda>w. ws_BaseContextCommitID w = [] \<or> names_commit (commit_ids db) (ws_BaseContextCommitID w)) (ldb_working_sets db)
     \<and> table_ok parent_key (\<lambda>p. par_CommitID p \<in> commit_ids db) (ldb_parents db)
     \<and> table_ok msr_SessionID merge_state_ok (ldb_merge_sessions db)
     \<and> table_ok session_conflict_key (\<lambda>_. True) (ldb_merge_conflicts db)
     \<and> table_ok lsr_SessionID (\<lambda>_. True) (ldb_landing_sessions db)
     \<and> table_ok rmr_Name (\<lambda>_. True) (ldb_remotes db)
     \<and> table_ok remote_ref_key (\<lambda>_. True) (ldb_remote_refs db)
     \<and> table_ok (\<lambda>r. cand_ID (cdr_Candidate r)) (\<lambda>_. True) (ldb_candidates db)
     \<and> table_ok (\<lambda>r. candidate_note_key (cnr_Note r)) (\<lambda>_. True) (ldb_candidate_notes db)"

definition local_ref_step :: "localRefRow \<Rightarrow> localRefRow \<Rightarrow> bool" where
  "local_ref_step r r' \<longleftrightarrow> lrr_RefName r' = lrr_RefName r \<and> lrr_Version r \<le> lrr_Version r' \<and> (lrr_Version r' = lrr_Version r \<longrightarrow> r' = r)"

text \<open>A merge session only changes its state, and a committed one stays committed.\<close>

definition session_step :: "mergeSessionRow \<Rightarrow> mergeSessionRow \<Rightarrow> bool" where
  "session_step s s' \<longleftrightarrow> s' = s\<lparr>msr_State := msr_State s'\<rparr>
     \<and> (msr_State s = MergeSessionCommitted \<longrightarrow> msr_State s' = MergeSessionCommitted)"

definition landing_session_step :: "landingSessionRow \<Rightarrow> landingSessionRow \<Rightarrow> bool" where
  "landing_session_step s s' \<longleftrightarrow> lsr_SessionID s' = lsr_SessionID s \<and> lsr_LandingID s' = lsr_LandingID s
     \<and> lsr_Version s \<le> lsr_Version s' \<and> (lsr_Version s' = lsr_Version s \<longrightarrow> s' = s)"

definition remote_ref_step :: "remoteRefRow \<Rightarrow> remoteRefRow \<Rightarrow> bool" where
  "remote_ref_step r r' \<longleftrightarrow> remote_ref_key r' = remote_ref_key r \<and> rrr_Version r \<le> rrr_Version r'
     \<and> (rrr_Version r' = rrr_Version r \<longrightarrow> r' = r)"

definition candidate_step :: "candidateRow \<Rightarrow> candidateRow \<Rightarrow> bool" where
  "candidate_step r r' \<longleftrightarrow> cand_ID (cdr_Candidate r') = cand_ID (cdr_Candidate r) \<and> cdr_UpdatedAt r \<le> cdr_UpdatedAt r'
     \<and> (cdr_UpdatedAt r' = cdr_UpdatedAt r \<longrightarrow> r' = r)"

definition settled_notes :: "local_db \<Rightarrow> candidateNoteRow set" where
  "settled_notes db = {r \<in> set (ldb_candidate_notes db). cnote_State (cnr_Note r) \<noteq> CandidateNoteDraft}"

definition local_evolves :: "local_db \<Rightarrow> local_db \<Rightarrow> bool" where
  "local_evolves db db' \<longleftrightarrow>
     set (ldb_commits db) \<subseteq> set (ldb_commits db') \<and> set (ldb_notes db) \<subseteq> set (ldb_notes db')
     \<and> set (ldb_parents db) \<subseteq> set (ldb_parents db') \<and> set (ldb_remotes db) \<subseteq> set (ldb_remotes db')
     \<and> keeps_rows local_ref_step (ldb_refs db) (ldb_refs db')
     \<and> keeps_rows session_step (ldb_merge_sessions db) (ldb_merge_sessions db')
     \<and> keeps_rows landing_session_step (ldb_landing_sessions db) (ldb_landing_sessions db')
     \<and> keeps_rows remote_ref_step (ldb_remote_refs db) (ldb_remote_refs db')
     \<and> keeps_rows candidate_step (ldb_candidates db) (ldb_candidates db')
     \<and> settled_notes db \<subseteq> settled_notes db'"

definition local_keeps :: "local_db \<Rightarrow> local_db \<Rightarrow> bool" where
  "local_keeps db db' \<longleftrightarrow> (local_inv db \<longrightarrow> local_inv db' \<and> local_evolves db db')"

lemma local_step_refl [simp]:
  "local_ref_step r r" "session_step s s" "landing_session_step l l" "remote_ref_step t t" "candidate_step c c"
  by (simp_all add: local_ref_step_def session_step_def landing_session_step_def remote_ref_step_def candidate_step_def)

lemma local_ref_step_trans: "local_ref_step a b \<Longrightarrow> local_ref_step b c \<Longrightarrow> local_ref_step a c"
  unfolding local_ref_step_def by force
lemma session_step_trans: "session_step a b \<Longrightarrow> session_step b c \<Longrightarrow> session_step a c"
  unfolding session_step_def by (metis mergeSessionRow.surjective mergeSessionRow.update_convs(12))
lemma landing_session_step_trans: "landing_session_step a b \<Longrightarrow> landing_session_step b c \<Longrightarrow> landing_session_step a c"
  unfolding landing_session_step_def by force
lemma remote_ref_step_trans: "remote_ref_step a b \<Longrightarrow> remote_ref_step b c \<Longrightarrow> remote_ref_step a c"
  unfolding remote_ref_step_def by force
lemma candidate_step_trans: "candidate_step a b \<Longrightarrow> candidate_step b c \<Longrightarrow> candidate_step a c"
  unfolding candidate_step_def by force

lemma local_evolves_refl [simp]: "local_evolves db db"
  by (simp add: local_evolves_def keeps_rows_refl)

lemma keeps_rows_steps:
  "keeps_rows local_ref_step r r' \<Longrightarrow> keeps_rows local_ref_step r' r'' \<Longrightarrow> keeps_rows local_ref_step r r''"
  "keeps_rows session_step s s' \<Longrightarrow> keeps_rows session_step s' s'' \<Longrightarrow> keeps_rows session_step s s''"
  "keeps_rows landing_session_step l l' \<Longrightarrow> keeps_rows landing_session_step l' l'' \<Longrightarrow> keeps_rows landing_session_step l l''"
  "keeps_rows remote_ref_step t t' \<Longrightarrow> keeps_rows remote_ref_step t' t'' \<Longrightarrow> keeps_rows remote_ref_step t t''"
  "keeps_rows candidate_step c c' \<Longrightarrow> keeps_rows candidate_step c' c'' \<Longrightarrow> keeps_rows candidate_step c c''"
  by (blast intro: keeps_rows_trans local_ref_step_trans session_step_trans landing_session_step_trans remote_ref_step_trans
      candidate_step_trans)+

lemma local_evolves_trans: "local_evolves a b \<Longrightarrow> local_evolves b c \<Longrightarrow> local_evolves a c"
  unfolding local_evolves_def by (meson subset_trans keeps_rows_steps)

interpretation local_store: store_relation local_keeps
  by unfold_locales (use local_evolves_trans in \<open>auto simp: local_keeps_def\<close>)

lemma local_keeps_inv: "local_keeps db db' \<Longrightarrow> local_inv db \<Longrightarrow> local_inv db'"
  by (simp add: local_keeps_def)

subsection \<open>Writes\<close>

lemma commit_ids_update [simp]:
  "commit_ids (ldb_working_sets_update a db) = commit_ids db" "commit_ids (ldb_pending_update b db) = commit_ids db"
  "commit_ids (ldb_notes_update c db) = commit_ids db" "commit_ids (ldb_refs_update d db) = commit_ids db"
  "commit_ids (ldb_parents_update e db) = commit_ids db" "commit_ids (ldb_search_update f db) = commit_ids db"
  by (simp_all add: commit_ids_def)

text \<open>Tables whose rows the rest of the store does not refer to.\<close>

lemma keeps_free [simp]:
  "local_keeps db (ldb_search_update f db)" "local_keeps db (ldb_entities_update g db)" "local_keeps db (ldb_coverage_update h db)"
  by (simp_all add: local_keeps_def local_inv_def local_evolves_def commit_ids_def settled_notes_def keeps_rows_refl)

lemma keeps_pending:
  "(table_ok note_key (\<lambda>_. True) (ldb_pending db) \<Longrightarrow> table_ok note_key (\<lambda>_. True) (f (ldb_pending db)))
     \<Longrightarrow> local_keeps db (ldb_pending_update f db)"
  by (simp add: local_keeps_def local_inv_def local_evolves_def commit_ids_def settled_notes_def keeps_rows_refl)

lemma keeps_working_sets:
  "(local_inv db \<Longrightarrow> table_ok ws_WorktreeID (\<lambda>w. ws_BaseContextCommitID w = [] \<or> names_commit (commit_ids db) (ws_BaseContextCommitID w)) (f (ldb_working_sets db)))
     \<Longrightarrow> local_keeps db (ldb_working_sets_update f db)"
  by (simp add: local_keeps_def local_inv_def local_evolves_def commit_ids_def settled_notes_def keeps_rows_refl)

lemma keeps_commits:
  assumes keys: "table_ok cmr_CommitID (\<lambda>_. True) (ldb_commits db) \<Longrightarrow> table_ok cmr_CommitID (\<lambda>_. True) (f (ldb_commits db))"
    and grows: "set (ldb_commits db) \<subseteq> set (f (ldb_commits db))"
  shows "local_keeps db (ldb_commits_update f db)"
proof -
  have ids: "commit_ids db \<subseteq> commit_ids (ldb_commits_update f db)" using grows by (auto simp: commit_ids_def)
  have "local_inv (ldb_commits_update f db)" if "local_inv db"
    using that keys ids unfolding local_inv_def by (auto elim!: table_ok_mono intro: names_commit_mono)
  then show ?thesis
    using grows by (simp add: local_keeps_def local_evolves_def settled_notes_def keeps_rows_refl)
qed

lemma keeps_notes:
  "(local_inv db \<Longrightarrow> table_ok note_key (\<lambda>r. nr_Owner r \<in> commit_ids db) (f (ldb_notes db)) \<and> set (ldb_notes db) \<subseteq> set (f (ldb_notes db)))
     \<Longrightarrow> local_keeps db (ldb_notes_update f db)"
  by (auto simp: local_keeps_def local_inv_def local_evolves_def commit_ids_def settled_notes_def keeps_rows_refl)

lemma keeps_parents:
  "(local_inv db \<Longrightarrow> table_ok parent_key (\<lambda>p. par_CommitID p \<in> commit_ids db) (f (ldb_parents db))
      \<and> set (ldb_parents db) \<subseteq> set (f (ldb_parents db))) \<Longrightarrow> local_keeps db (ldb_parents_update f db)"
  by (auto simp: local_keeps_def local_inv_def local_evolves_def commit_ids_def settled_notes_def keeps_rows_refl)

lemma keeps_refs:
  "(local_inv db \<Longrightarrow> table_ok lrr_RefName (\<lambda>r. names_commit (commit_ids db) (lrr_CommitID r)) (f (ldb_refs db))
      \<and> keeps_rows local_ref_step (ldb_refs db) (f (ldb_refs db))) \<Longrightarrow> local_keeps db (ldb_refs_update f db)"
  by (auto simp: local_keeps_def local_inv_def local_evolves_def commit_ids_def settled_notes_def keeps_rows_refl)

lemma keeps_merge_sessions:
  "(table_ok msr_SessionID merge_state_ok (ldb_merge_sessions db) \<Longrightarrow>
      table_ok msr_SessionID merge_state_ok (f (ldb_merge_sessions db))
      \<and> keeps_rows session_step (ldb_merge_sessions db) (f (ldb_merge_sessions db))) \<Longrightarrow> local_keeps db (ldb_merge_sessions_update f db)"
  by (auto simp: local_keeps_def local_inv_def local_evolves_def commit_ids_def settled_notes_def keeps_rows_refl)

lemma keeps_merge_conflicts:
  "(table_ok session_conflict_key (\<lambda>_. True) (ldb_merge_conflicts db) \<Longrightarrow> table_ok session_conflict_key (\<lambda>_. True) (f (ldb_merge_conflicts db)))
     \<Longrightarrow> local_keeps db (ldb_merge_conflicts_update f db)"
  by (auto simp: local_keeps_def local_inv_def local_evolves_def commit_ids_def settled_notes_def keeps_rows_refl)

lemma keeps_landing_sessions:
  "(table_ok lsr_SessionID (\<lambda>_. True) (ldb_landing_sessions db) \<Longrightarrow> table_ok lsr_SessionID (\<lambda>_. True) (f (ldb_landing_sessions db))
      \<and> keeps_rows landing_session_step (ldb_landing_sessions db) (f (ldb_landing_sessions db)))
     \<Longrightarrow> local_keeps db (ldb_landing_sessions_update f db)"
  by (auto simp: local_keeps_def local_inv_def local_evolves_def commit_ids_def settled_notes_def keeps_rows_refl)

lemma keeps_remotes:
  "(table_ok rmr_Name (\<lambda>_. True) (ldb_remotes db) \<Longrightarrow> table_ok rmr_Name (\<lambda>_. True) (f (ldb_remotes db))
      \<and> set (ldb_remotes db) \<subseteq> set (f (ldb_remotes db))) \<Longrightarrow> local_keeps db (ldb_remotes_update f db)"
  by (auto simp: local_keeps_def local_inv_def local_evolves_def commit_ids_def settled_notes_def keeps_rows_refl)

lemma keeps_remote_refs:
  "(table_ok remote_ref_key (\<lambda>_. True) (ldb_remote_refs db) \<Longrightarrow> table_ok remote_ref_key (\<lambda>_. True) (f (ldb_remote_refs db))
      \<and> keeps_rows remote_ref_step (ldb_remote_refs db) (f (ldb_remote_refs db))) \<Longrightarrow> local_keeps db (ldb_remote_refs_update f db)"
  by (auto simp: local_keeps_def local_inv_def local_evolves_def commit_ids_def settled_notes_def keeps_rows_refl)

lemma keeps_candidates:
  "(table_ok (\<lambda>r. cand_ID (cdr_Candidate r)) (\<lambda>_. True) (ldb_candidates db) \<Longrightarrow>
      table_ok (\<lambda>r. cand_ID (cdr_Candidate r)) (\<lambda>_. True) (f (ldb_candidates db))
      \<and> keeps_rows candidate_step (ldb_candidates db) (f (ldb_candidates db))) \<Longrightarrow> local_keeps db (ldb_candidates_update f db)"
  by (auto simp: local_keeps_def local_inv_def local_evolves_def commit_ids_def settled_notes_def keeps_rows_refl)

lemma keeps_candidate_notes:
  "(table_ok (\<lambda>r. candidate_note_key (cnr_Note r)) (\<lambda>_. True) (ldb_candidate_notes db) \<Longrightarrow>
      table_ok (\<lambda>r. candidate_note_key (cnr_Note r)) (\<lambda>_. True) (f (ldb_candidate_notes db))
      \<and> (\<forall>r \<in> set (ldb_candidate_notes db). cnote_State (cnr_Note r) \<noteq> CandidateNoteDraft \<longrightarrow> r \<in> set (f (ldb_candidate_notes db))))
     \<Longrightarrow> local_keeps db (ldb_candidate_notes_update f db)"
  by (auto simp: local_keeps_def local_inv_def local_evolves_def commit_ids_def settled_notes_def keeps_rows_refl)

end
