(* ===== verification/Local_History.thy ===== *)
theory Local_History
  imports Local_Facts
begin

text \<open>
  Every operation of the local store keeps its invariant and its history: the bodies of the
  transactions one after the other.
\<close>

subsection \<open>Reads\<close>

lemmas keeps_bind = local_store.maintains_bind
lemmas keeps_each = local_store.maintains_each
lemmas keeps_same [simp] = local_store.refl

lemma keeps_reads [simp]:
  "maintains local_keeps (requireWorkingSet key) db" "maintains local_keeps (listPendingNotes decode w) db"
  "maintains local_keeps (listCommittedNotes decode c) db" "maintains local_keeps (pendingNoteByID decode w i) db"
  "maintains local_keeps (committedNoteByID decode c i) db" "maintains local_keeps (tx_query f) db"
  "maintains local_keeps (tx_marshal v) db"
  by (auto simp: requireWorkingSet_def listPendingNotes_def listCommittedNotes_def pendingNoteByID_def committedNoteByID_def
      tx_query_def tx_marshal_def intro!: keeps_bind split: option.split)

lemma keeps_effectiveNote [simp]: "maintains local_keeps (effectiveNote decode key i) db"
  by (auto simp: effectiveNote_def intro!: keeps_bind split: option.split)

subsection \<open>The search index\<close>

lemma backfill_parents_table:
  assumes "table_ok parent_key (\<lambda>p. par_CommitID p \<in> ids) parents" "cmr_CommitID ` set commits \<subseteq> ids"
  shows "table_ok parent_key (\<lambda>p. par_CommitID p \<in> ids) (backfill_parents commits parents)
    \<and> set parents \<subseteq> set (backfill_parents commits parents)"
  using assms
proof (induction commits arbitrary: parents)
  case (Cons c commits)
  let ?ok = "\<lambda>p. par_CommitID p \<in> ids"
  let ?parents = "if cmr_ParentID c = [] then parents
     else ignore_rows (\<lambda>p. par_CommitID p = cmr_CommitID c \<and> par_Index p = 0)
       \<lparr>par_CommitID = cmr_CommitID c, par_Index = 0, par_ParentID = cmr_ParentID c\<rparr> parents"
  have step: "backfill_parents (c # commits) parents = backfill_parents commits ?parents" by (simp add: backfill_parents_def)
  have "table_ok parent_key ?ok (ignore_rows (\<lambda>p. par_CommitID p = cmr_CommitID c \<and> par_Index p = 0)
       \<lparr>par_CommitID = cmr_CommitID c, par_Index = 0, par_ParentID = cmr_ParentID c\<rparr> parents)"
    by (rule table_ok_ignore [OF Cons.prems(1)]) (use Cons.prems(2) in \<open>simp_all add: parent_key_def\<close>)
  with Cons.prems have "table_ok parent_key ?ok ?parents" by simp
  from Cons.IH [OF this] Cons.prems(2) have "table_ok parent_key ?ok (backfill_parents commits ?parents)"
    "set ?parents \<subseteq> set (backfill_parents commits ?parents)" by auto
  moreover have "set parents \<subseteq> set ?parents" by (auto simp: set_ignore_rows)
  ultimately show ?case unfolding step by blast
qed (simp add: backfill_parents_def)

lemma keeps_backfill [simp]: "local_keeps db (ldb_parents_update (backfill_parents (ldb_commits db)) db)"
  by (rule keeps_parents) (rule backfill_parents_table, simp_all add: local_inv_def commit_ids_def)

lemma maintains_raw: "maintains R (\<lambda>d. Inr (g d, u)) db \<longleftrightarrow> R db (g db)"
  by (simp add: maintains_def)

lemma keeps_rebuildSearch [simp]: "maintains local_keeps (rebuildSearch ord decode key) db"
  unfolding rebuildSearch_def Let_def
  by (intro keeps_bind keeps_each)
    (auto simp: maintains_write maintains_raw)

subsection \<open>Notes\<close>

lemma keeps_upsertPendingNote [simp]: "maintains local_keeps (upsertPendingNote w n) db"
  unfolding upsertPendingNote_def Let_def
  by (intro keeps_bind) (auto simp: maintains_write note_key_def note_row_def intro!: keeps_pending table_ok_upsert)

lemma keeps_AddPendingNote: "local_keeps db (fst (AddPendingNote ord decode ids now key n db))"
  unfolding AddPendingNote_def Let_def
  by (auto split: sum.split intro!: local_store.maintains_transaction keeps_bind)

lemma keeps_ReviseNote: "local_keeps db (fst (ReviseNote ord decode i now key n body author origin topics db))"
  unfolding ReviseNote_def Let_def
  by (rule local_store.maintains_transaction) (auto intro!: keeps_bind split: sum.split)

lemma keeps_ReviewNote: "local_keeps db (fst (ReviewNote ord decode key n e db))"
  unfolding ReviewNote_def Let_def
  by (rule local_store.maintains_transaction) (auto intro!: keeps_bind)

subsection \<open>Index updates\<close>

text \<open>The base of a new working set is the commit its ref names.\<close>

lemma list_ex_key: "list_ex (\<lambda>r. key r = k) rows \<longleftrightarrow> k \<in> key ` set rows"
  by (force simp: list_ex_iff)

lemma local_ref_commit:
  "local_inv db \<Longrightarrow> fst (local_ref refName db) = [] \<or> names_commit (commit_ids db) (fst (local_ref refName db))"
  by (auto simp: local_ref_def local_inv_def dest!: take_row_Some dest: table_ok_row split: option.split)

lemma keeps_working_row:
  assumes "local_inv db \<Longrightarrow> ws_BaseContextCommitID row = [] \<or> names_commit (commit_ids db) (ws_BaseContextCommitID row)"
  shows "\<not> list_ex (\<lambda>w. ws_WorktreeID w = ws_WorktreeID row) (ldb_working_sets db)
      \<Longrightarrow> local_keeps db (ldb_working_sets_update (\<lambda>rs. rs @ [row]) db)"
    "local_keeps db (ldb_working_sets_update (update_rows (\<lambda>w. ws_WorktreeID w = ws_WorktreeID row) (\<lambda>_. row)) db)"
proof -
  show "local_keeps db (ldb_working_sets_update (\<lambda>rs. rs @ [row]) db)"
    if "\<not> list_ex (\<lambda>w. ws_WorktreeID w = ws_WorktreeID row) (ldb_working_sets db)"
  proof (rule keeps_working_sets)
    from that have "ws_WorktreeID row \<notin> ws_WorktreeID ` set (ldb_working_sets db)" by (force simp: list_ex_iff)
    then show "table_ok ws_WorktreeID (\<lambda>w. ws_BaseContextCommitID w = [] \<or> names_commit (commit_ids db) (ws_BaseContextCommitID w))
        (ldb_working_sets db @ [row])" if "local_inv db"
      using that assms by (simp add: local_inv_def)
  qed
  show "local_keeps db (ldb_working_sets_update (update_rows (\<lambda>w. ws_WorktreeID w = ws_WorktreeID row) (\<lambda>_. row)) db)"
    by (rule keeps_working_sets, rule table_ok_update) (use assms in \<open>simp_all add: local_inv_def\<close>)
qed

lemma keeps_ensureWorkingSet [simp]: "maintains local_keeps (ensureWorkingSet now key) db"
proof -
  define row where "row = \<lparr>ws_WorktreeID = key_WorktreeID key, ws_RepositoryID = key_RepositoryID key, ws_RefName = key_RefName key,
      ws_BaseContextCommitID = fst (local_ref (key_RefName key) db), ws_SourceSHA = key_SourceSHA key, ws_UpdatedAt = now\<rparr>"
  have key: "key_WorktreeID key = ws_WorktreeID row" by (simp add: row_def)
  have "local_inv db \<Longrightarrow> ws_BaseContextCommitID row = [] \<or> names_commit (commit_ids db) (ws_BaseContextCommitID row)"
    using local_ref_commit by (simp add: row_def)
  note rows = keeps_working_row [OF this, folded key]
  show ?thesis
    unfolding ensureWorkingSet_def Let_def
    apply (rule keeps_bind)
     apply simp
    apply (auto simp: row_def [symmetric] maintains_write rows split: option.split intro!: keeps_bind)
    done
qed

lemma keeps_apply_projection [simp]: "maintains local_keeps (apply_projection key p) db"
  unfolding apply_projection_def Let_def
  by (intro keeps_bind) (auto simp: maintains_write intro!: keeps_bind keeps_each)

lemma keeps_reconcile [simp]: "maintains local_keeps (reconcileActiveBindings decode graph key) db"
  unfolding reconcileActiveBindings_def Let_def reconcile_note_def
  by (auto intro!: keeps_bind keeps_each split: prod.split)

lemma keeps_applyIndexUpdate [simp]: "maintains local_keeps (applyIndexUpdate ord decode graph now key ps b) db"
  unfolding applyIndexUpdate_def clearUndetectedCoverage_def
  by (auto simp: maintains_write intro!: keeps_bind keeps_each)

lemma keeps_ApplyIndexUpdate: "local_keeps db (fst (ApplyIndexUpdate ord decode graph now key ps db))"
  unfolding ApplyIndexUpdate_def by (rule local_store.maintains_transaction) simp

subsection \<open>Commits\<close>

text \<open>From its insertion on, a commit is there for the notes, the refs and the working sets that name it.\<close>

lemma evolves_commit: "local_evolves db db' \<Longrightarrow> c \<in> commit_ids db \<Longrightarrow> c \<in> commit_ids db'"
  by (auto simp: local_evolves_def commit_ids_def)

lemma keeps_assuming_inv: "(local_inv db \<Longrightarrow> maintains local_keeps m db) \<Longrightarrow> maintains local_keeps m db"
  by (auto simp: maintains_def local_keeps_def)

lemma keeps_bind_at:
  assumes "maintains local_keeps m db" "c \<in> commit_ids db"
    "\<And>db' x. m db = Inr (db', x) \<Longrightarrow> c \<in> commit_ids db' \<Longrightarrow> maintains local_keeps (f x) db'"
  shows "maintains local_keeps (tx_bind m f) db"
proof (rule keeps_assuming_inv, rule keeps_bind)
  show "maintains local_keeps (f x) db'" if "m db = Inr (db', x)" "local_keeps db db'" "local_inv db" for db' x
    using that assms(2,3) evolves_commit unfolding local_keeps_def by blast
qed (rule assms(1))

lemma keeps_insert_commit:
  assumes "\<And>db'. commit_ID c \<in> commit_ids db' \<Longrightarrow> \<forall>n \<in> set (ldb_notes db'). nr_Owner n \<noteq> commit_ID c \<Longrightarrow> maintains local_keeps (f ()) db'"
  shows "maintains local_keeps (tx_bind (insert_commit c) f) db"
proof (rule keeps_assuming_inv, rule keeps_bind)
  assume inv: "local_inv db"
  show "maintains local_keeps (insert_commit c) db"
    by (auto simp: insert_commit_def maintains_write list_ex_key commit_row_def intro!: keeps_commits)
  fix db' x
  assume "insert_commit c db = Inr (db', x)"
  then have fresh: "commit_ID c \<notin> commit_ids db" and db': "db' = ldb_commits_update (\<lambda>rs. rs @ [commit_row c]) db"
    by (auto simp: insert_commit_def list_ex_iff commit_ids_def)
  have "commit_ID c \<in> commit_ids db'" by (simp add: db' commit_ids_def commit_row_def)
  moreover have "\<forall>n \<in> set (ldb_notes db'). nr_Owner n \<noteq> commit_ID c"
    using inv fresh by (auto simp: db' local_inv_def dest: table_ok_row)
  ultimately show "maintains local_keeps (f x) db'" using assms by simp
qed

lemma keeps_insert_parents:
  assumes "c \<in> commit_ids db"
  shows "maintains local_keeps (insertContextCommitParents c ps) db"
proof -
  have row: "local_keeps d (ldb_parents_update (ignore_rows (\<lambda>p. par_CommitID p = c \<and> par_Index p = i)
      \<lparr>par_CommitID = c, par_Index = i, par_ParentID = q\<rparr>) d)" if "c \<in> commit_ids d" for d i q
    by (rule keeps_parents)
      (use that in \<open>auto simp: set_ignore_rows parent_key_def local_inv_def intro!: table_ok_ignore [where key = parent_key]\<close>)
  have "maintains local_keeps (insert_parents_from i c ps) db" for i
    using assms by (induction ps arbitrary: i db) (auto simp: maintains_write row intro!: keeps_bind_at [of _ _ c])
  then show ?thesis by (simp add: insertContextCommitParents_def)
qed

lemma parents_notes: "insert_parents_from i c ps db = Inr (db', u) \<Longrightarrow> ldb_notes db' = ldb_notes db"
  by (induction ps arbitrary: i db) (auto simp: tx_bind_Inr split: if_splits)

lemma keeps_insert_note:
  assumes "c \<in> commit_ids db"
  shows "maintains local_keeps (insert_note c n) db"
proof -
  have "note_key (note_row c n) \<notin> note_key ` set (ldb_notes db)"
    if "\<not> list_ex (\<lambda>r. nr_Owner r = c \<and> nr_NoteID r = note_ID n) (ldb_notes db)"
    using that by (auto simp: list_ex_iff note_key_def note_row_def)
  then show ?thesis
    using assms by (auto simp: insert_note_def maintains_write local_inv_def note_row_def intro!: keeps_notes)
qed

lemma keeps_insert_notes:
  assumes "c \<in> commit_ids db"
  shows "maintains local_keeps (tx_each (insert_note c) ns) db"
  using assms by (induction ns arbitrary: db) (auto intro!: keeps_bind_at keeps_insert_note)

lemma keeps_set_ref:
  assumes "names_commit (commit_ids db) c"
  shows "local_keeps db (ldb_refs_update (update_rows P (set_ref c sourceSHA)) db)"
proof (rule keeps_refs, rule conjI)
  assume "local_inv db"
  then have "table_ok lrr_RefName (\<lambda>r. names_commit (commit_ids db) (lrr_CommitID r)) (ldb_refs db)" by (simp add: local_inv_def)
  then show "table_ok lrr_RefName (\<lambda>r. names_commit (commit_ids db) (lrr_CommitID r)) (update_rows P (set_ref c sourceSHA) (ldb_refs db))"
    by (rule table_ok_update) (simp add: set_ref_def assms)
  show "keeps_rows local_ref_step (ldb_refs db) (update_rows P (set_ref c sourceSHA) (ldb_refs db))"
    by (rule keeps_rows_update) (simp_all add: local_ref_step_def set_ref_def)
qed

lemma keeps_new_ref:
  assumes "names_commit (commit_ids db) c" "\<not> list_ex (\<lambda>r. lrr_RefName r = refName) (ldb_refs db)"
  shows "local_keeps db (ldb_refs_update (\<lambda>rs. rs @ [\<lparr>lrr_RefName = refName, lrr_CommitID = c, lrr_SourceSHA = s, lrr_Version = v\<rparr>]) db)"
  using assms by (intro keeps_refs) (auto simp: local_inv_def list_ex_iff keeps_rows_append)

lemma keeps_advance_ref: "names_commit (commit_ids db) c \<Longrightarrow> maintains local_keeps (advance_ref refName oldCommit v c s) db"
  unfolding advance_ref_def by (auto simp: maintains_write keeps_set_ref keeps_new_ref intro!: keeps_bind)

lemma keeps_set_base: "names_commit (commit_ids db) c \<Longrightarrow> local_keeps db (ldb_working_sets_update (update_rows P (set_base c)) db)"
  by (rule keeps_working_sets, rule table_ok_update) (simp_all add: local_inv_def set_base_def)

lemma keeps_delete_pending [simp]: "local_keeps db (ldb_pending_update (filter P) db)"
  by (rule keeps_pending) (rule table_ok_filter)

lemma keeps_finalize_commit: "maintains local_keeps (finalize_commit ord decode input) db"
proof -
  define key commit where "key = fin_Key input" and "commit = fin_Commit input"
  have finish: "maintains local_keeps
      (tx_bind (insertContextCommitParents (commit_ID commit) ps) (\<lambda>_.
       tx_bind (tx_delete ldb_notes_update (\<lambda>r. nr_Owner r = commit_ID commit)) (\<lambda>_.
       tx_bind (tx_each (insert_note (commit_ID commit)) ns) (\<lambda>_.
       tx_bind (advance_ref refName oldCommit v (commit_ID commit) s) (\<lambda>_.
       tx_bind (tx_delete ldb_pending_update P) (\<lambda>_.
       tx_bind (tx_update ldb_working_sets_update ldb_working_sets Q (set_base (commit_ID commit))) (\<lambda>_.
       rebuildSearch ord decode key)))))) ) d"
    if new: "commit_ID commit \<in> commit_ids d" "\<forall>n \<in> set (ldb_notes d). nr_Owner n \<noteq> commit_ID commit"
    for ps ns refName oldCommit v s P Q d
  proof (rule keeps_bind_at [OF keeps_insert_parents [OF new(1)] new(1)])
    fix d' u
    assume "insertContextCommitParents (commit_ID commit) ps d = Inr (d', u)" and d': "commit_ID commit \<in> commit_ids d'"
    then have "ldb_notes d' = ldb_notes d" by (simp add: insertContextCommitParents_def parents_notes)
    with new(2) have "ldb_notes_update (filter (\<lambda>r. nr_Owner r \<noteq> commit_ID commit)) d' = d'"
      by (cases d') (simp add: filter_id_conv)
    then show "maintains local_keeps (tx_bind (tx_delete ldb_notes_update (\<lambda>r. nr_Owner r = commit_ID commit)) (\<lambda>_.
       tx_bind (tx_each (insert_note (commit_ID commit)) ns) (\<lambda>_.
       tx_bind (advance_ref refName oldCommit v (commit_ID commit) s) (\<lambda>_.
       tx_bind (tx_delete ldb_pending_update P) (\<lambda>_.
       tx_bind (tx_update ldb_working_sets_update ldb_working_sets Q (set_base (commit_ID commit))) (\<lambda>_.
       rebuildSearch ord decode key)))))) d'"
      using d' by (intro keeps_bind_at [of _ _ "commit_ID commit"])
        (simp_all add: maintains_write keeps_insert_notes keeps_advance_ref keeps_set_base names_recorded)
  qed
  show ?thesis
    unfolding finalize_commit_def Let_def key_def [symmetric] commit_def [symmetric]
    by (intro keeps_bind) (auto intro!: keeps_bind keeps_insert_commit finish split: prod.split)
qed

end
