(* ===== verification/Local_Steps.thy ===== *)
theory Local_Steps
  imports Local_History Ancestry_Properties
begin

text \<open>
  The rest of the operations of the local store keep its invariant and history: rebuilding and
  fast-forwarding from an ancestry, remotes, merge and landing sessions, and candidates; then the
  step relation of the store and the databases it reaches.
\<close>

subsection \<open>Ancestries\<close>

text \<open>What the store relies on when it loads the ancestry of a commit: the commit is its last object.\<close>

locale ancestry_source =
  fixes graph :: graph_loader
  assumes tip: "graph c = Inr chain \<Longrightarrow> chain \<noteq> [] \<and> NormalizeContextCommitID c = Inr (sco_ID (last chain))"
begin

lemma tip_names:
  assumes "graph c = Inr chain"
  shows "last chain \<in> set chain" "sco_ID (last chain) \<in> ids \<Longrightarrow> names_commit ids c"
  using tip [OF assms] by (auto simp: names_commit_def)

end

lemma keeps_tx_each_commits:
  assumes "\<And>x d. x \<in> set xs \<Longrightarrow> maintains local_keeps (f x) d"
    and "\<And>x d d'. x \<in> set xs \<Longrightarrow> f x d = Inr (d', ()) \<Longrightarrow> g x \<in> commit_ids d'"
    and "tx_each f xs db = Inr (db', u)" "local_inv db" "x \<in> set xs"
  shows "g x \<in> commit_ids db'"
  using assms
proof (induction xs arbitrary: db)
  case (Cons y ys)
  from Cons.prems(3) obtain d where d: "f y db = Inr (d, ())" "tx_each f ys d = Inr (db', u)" by (auto simp: tx_bind_Inr)
  from Cons.prems(1) [of y db] Cons.prems(4) d(1) have inv: "local_inv d"
    by (auto simp: maintains_def local_keeps_def)
  show ?case
  proof (cases "x \<in> set ys")
    case True
    show ?thesis by (rule Cons.IH [OF _ _ d(2) inv True]) (use Cons.prems(1,2) in auto)
  next
    case False
    with Cons.prems(5) have "x = y" by simp
    with Cons.prems(2) d(1) have "g x \<in> commit_ids d" by simp
    moreover have "maintains local_keeps (tx_each f ys) d" by (rule keeps_each) (use Cons.prems(1) in auto)
    ultimately show ?thesis using d(2) inv evolves_commit by (auto simp: maintains_def local_keeps_def)
  qed
qed simp

lemma keeps_restore_object: "maintains local_keeps (restore_object item) db"
proof -
  have "commit_ID (object_commit item) = sco_ID item" by (simp add: object_commit_def Let_def)
  then show ?thesis
    unfolding restore_object_def
    by (intro keeps_insert_commit) (auto intro!: keeps_bind_at [of _ _ "sco_ID item"] keeps_insert_notes keeps_insert_parents)
qed

lemma keeps_commit_ignore:
  "maintains local_keeps (tx_insert_ignore ldb_commits_update (\<lambda>r. cmr_CommitID r = sco_ID item) (commit_row (object_commit item))) db"
  unfolding maintains_write
  by (rule keeps_commits)
    (auto simp: set_ignore_rows commit_row_def object_commit_def Let_def intro!: table_ok_ignore [where key = cmr_CommitID])

lemma keeps_note_ignore:
  assumes "c \<in> commit_ids db"
  shows "maintains local_keeps (tx_insert_ignore ldb_notes_update (\<lambda>r. nr_Owner r = c \<and> nr_NoteID r = note_ID n) (note_row c n)) db"
  unfolding maintains_write
  by (rule keeps_notes)
    (use assms in \<open>auto simp: set_ignore_rows note_key_def note_row_def local_inv_def intro!: table_ok_ignore [where key = note_key]\<close>)

lemma keeps_note_ignores:
  assumes "c \<in> commit_ids db"
  shows "maintains local_keeps (tx_each (\<lambda>n. tx_insert_ignore ldb_notes_update
     (\<lambda>r. nr_Owner r = c \<and> nr_NoteID r = note_ID n) (note_row c n)) ns) db"
  using assms by (induction ns arbitrary: db) (auto intro!: keeps_bind_at keeps_note_ignore)

lemma commit_ignored:
  "tx_insert_ignore ldb_commits_update (\<lambda>r. cmr_CommitID r = sco_ID item) (commit_row (object_commit item)) db = Inr (db', u)
     \<Longrightarrow> sco_ID item \<in> commit_ids db'"
  by (auto simp: commit_ids_def set_ignore_rows commit_row_def object_commit_def Let_def list_ex_key)

lemma keeps_materialize_object: "maintains local_keeps (materialize_object item) db"
  unfolding materialize_object_def
proof (rule keeps_bind [OF keeps_commit_ignore])
  fix d u
  assume "tx_insert_ignore ldb_commits_update (\<lambda>r. cmr_CommitID r = sco_ID item) (commit_row (object_commit item)) db = Inr (d, u)"
  then have "sco_ID item \<in> commit_ids d" by (rule commit_ignored)
  then show "maintains local_keeps (tx_bind (insertContextCommitParents (sco_ID item) (contextObjectParentIDs (sco_Object item))) (\<lambda>_.
     tx_each (\<lambda>n. tx_insert_ignore ldb_notes_update (\<lambda>r. nr_Owner r = sco_ID item \<and> nr_NoteID r = note_ID n)
       (note_row (sco_ID item) n)) (elems (obj_Notes (sco_Object item))))) d"
    by (intro keeps_bind_at [of _ _ "sco_ID item"] keeps_note_ignores keeps_insert_parents) simp_all
qed

lemma object_recorded:
  assumes "restore_object item db = Inr (db', u) \<or> materialize_object item db = Inr (db', u)"
  shows "sco_ID item \<in> commit_ids db'"
proof -
  have parents: "commit_ids d' = commit_ids d" if "insert_parents_from i c ps d = Inr (d', u)" for i c ps d d' u
    using that by (induction ps arbitrary: i d) (auto simp: tx_bind_Inr commit_ids_def split: if_splits)
  have noted: "commit_ids d' = commit_ids d" if "tx_each (insert_note c) ns d = Inr (d', u)" for c ns d d' u
    using that by (induction ns arbitrary: d) (auto simp: tx_bind_Inr insert_note_def)
  have ignores: "commit_ids d' = commit_ids d" if "tx_each (\<lambda>n. tx_insert_ignore ldb_notes_update
     (\<lambda>r. nr_Owner r = c \<and> nr_NoteID r = note_ID n) (note_row c n)) ns d = Inr (d', u)" for c ns d d' u
    using that by (induction ns arbitrary: d) (auto simp: tx_bind_Inr)
  from assms show ?thesis
  proof
    assume "restore_object item db = Inr (db', u)"
    then show ?thesis
      by (auto simp: restore_object_def tx_bind_Inr insert_commit_def insertContextCommitParents_def object_commit_def
          Let_def commit_row_def commit_ids_def [of "ldb_commits_update _ _"] dest!: parents noted)
  next
    assume "materialize_object item db = Inr (db', u)"
    then obtain d d' v w where r:
      "tx_insert_ignore ldb_commits_update (\<lambda>r. cmr_CommitID r = sco_ID item) (commit_row (object_commit item)) db = Inr (d, v)"
      "insert_parents_from 0 (sco_ID item) (contextObjectParentIDs (sco_Object item)) d = Inr (d', w)"
      "tx_each (\<lambda>n. tx_insert_ignore ldb_notes_update (\<lambda>r. nr_Owner r = sco_ID item \<and> nr_NoteID r = note_ID n)
         (note_row (sco_ID item) n)) (elems (obj_Notes (sco_Object item))) d' = Inr (db', u)"
      unfolding materialize_object_def tx_bind_Inr insertContextCommitParents_def by blast
    show ?thesis unfolding ignores [OF r(3)] parents [OF r(2)] by (rule commit_ignored [OF r(1)])
  qed
qed

lemma keeps_ref_insert:
  "names_commit (commit_ids db) c \<Longrightarrow> maintains local_keeps (tx_insert ldb_refs_update ldb_refs (\<lambda>r. lrr_RefName r = refName)
     \<lparr>lrr_RefName = refName, lrr_CommitID = c, lrr_SourceSHA = s, lrr_Version = v\<rparr>) db"
  by (simp add: maintains_write keeps_new_ref)

context ancestry_source
begin

lemma keeps_Rebuild: "local_keeps db (fst (Rebuild ord decode graph now input db))"
proof (cases "graph (reb_CommitID input)")
  case (Inr chain)
  then have last: "last chain \<in> set chain" using tip [OF Inr] by simp
  have "maintains local_keeps
     (tx_bind (tx_read projectionEmpty) (\<lambda>empty.
      tx_bind (tx_check empty CodeWorkingSetDirty) (\<lambda>_.
      tx_bind (tx_each restore_object chain) (\<lambda>_.
      tx_bind (tx_insert ldb_refs_update ldb_refs (\<lambda>r. lrr_RefName r = key_RefName (reb_Key input))
        \<lparr>lrr_RefName = key_RefName (reb_Key input), lrr_CommitID = sco_ID (last chain),
          lrr_SourceSHA = obj_SourceSHA (sco_Object (last chain)), lrr_Version = int (length chain)\<rparr>) (\<lambda>_.
      tx_bind (applyIndexUpdate ord decode graph now (reb_Key input) (reb_Projections input) False) (\<lambda>_.
      tx_return (sco_ID (last chain), int (length chain)))))))) db"
  proof (rule keeps_assuming_inv, intro keeps_bind keeps_ref_insert)
    assume inv: "local_inv db"
    show "names_commit (commit_ids d'') (sco_ID (last chain))"
      if "tx_read projectionEmpty db = Inr (d, e)" "tx_check e CodeWorkingSetDirty d = Inr (d', u)"
        "tx_each restore_object chain d' = Inr (d'', v)" for d d' d'' e u v
      using that inv keeps_tx_each_commits [OF keeps_restore_object _ that(3) _ last, of sco_ID] object_recorded by (auto intro!: names_recorded)
  qed (auto intro!: keeps_each keeps_restore_object)
  then show ?thesis using Inr by (simp add: Rebuild_def Let_def local_store.maintains_transaction)
qed (simp add: Rebuild_def)

lemma keeps_fast_forward:
  assumes "graph (cref_CommitID (ff_Next input)) = Inr chain"
  shows "local_keeps db (fst (transaction (fast_forward ord decode input chain) db))"
proof (rule local_store.maintains_transaction)
  note tip = tip_names [OF assms]
  have finish: "maintains local_keeps
     (tx_bind (advance_ref r oldCommit v (cref_CommitID (ff_Next input)) s) (\<lambda>_.
      tx_bind (tx_update ldb_working_sets_update ldb_working_sets P (set_base (cref_CommitID (ff_Next input)))) (\<lambda>changed.
      tx_bind (tx_check (changed = 1) CodeStaleWorkingSet) (\<lambda>_. rebuildSearch ord decode key)))) d"
    if "sco_ID (last chain) \<in> commit_ids d" for r oldCommit v s P key d
    using that by (intro keeps_bind_at [of _ _ "sco_ID (last chain)"])
      (auto simp: maintains_write keeps_advance_ref keeps_set_base tip(2) intro!: keeps_bind)
  have all: "maintains local_keeps (tx_bind (tx_each materialize_object chain) (\<lambda>_.
     (tx_bind (advance_ref r oldCommit v (cref_CommitID (ff_Next input)) s) (\<lambda>_.
      tx_bind (tx_update ldb_working_sets_update ldb_working_sets P (set_base (cref_CommitID (ff_Next input)))) (\<lambda>changed.
      tx_bind (tx_check (changed = 1) CodeStaleWorkingSet) (\<lambda>_. rebuildSearch ord decode key)))))) d"
    for r oldCommit v s P key d
  proof (rule keeps_assuming_inv, rule keeps_bind, rule keeps_each, rule keeps_materialize_object, rule finish)
    fix d' u
    assume "local_inv d" and run: "tx_each materialize_object chain d = Inr (d', u)"
    from keeps_tx_each_commits [OF keeps_materialize_object _ run this(1) tip(1), of sco_ID]
    show "sco_ID (last chain) \<in> commit_ids d'" using object_recorded by auto
  qed
  show "maintains local_keeps (fast_forward ord decode input chain) db"
    unfolding fast_forward_def Let_def insertContextChain_def by (intro keeps_bind all) simp_all
qed

lemma keeps_FastForward:
  "local_keeps db (fst (FastForward ord decode graph input db))"
  by (auto simp: FastForward_def Let_def keeps_fast_forward split: sum.split)

lemma keeps_PrepareLandingRecovery:
  "local_keeps db (fst (PrepareLandingRecovery ord decode graph input db))"
  by (auto simp: PrepareLandingRecovery_def Let_def keeps_fast_forward split: sum.split)

end

interpretation stored: ancestry_source "stored_graph env dir key" for env dir key
proof
  fix c chain
  assume "stored_graph env dir key c = Inr chain"
  then have load: "loadObjectGraphFrom (oe_blake3 env) (oe_decode env) (oe_fuel env) c (key_RepositoryID key) (key_RefName key)
      (read_object_file dir) = Some (Inr chain)"
    by (auto simp: stored_graph_def loadObjectGraph_def split: option.splits)
  show "chain \<noteq> [] \<and> NormalizeContextCommitID c = Inr (sco_ID (last chain))"
    by (rule load_success [OF load]) (auto simp: normalizeObjectID_def)
qed

subsection \<open>Commits, merges and landings\<close>

lemma keeps_FinalizeCommit: "local_keeps db (fst (FinalizeCommit ord decode input db))"
  using local_store.maintains_transaction [OF keeps_finalize_commit [of ord decode input db]]
  by (auto simp: FinalizeCommit_def split: prod.split sum.split)

text \<open>What a merge and a landing do after the new commit is recorded.\<close>

lemma keeps_commit_tail:
  assumes "c \<in> commit_ids db" "\<And>d. c \<in> commit_ids d \<Longrightarrow> maintains local_keeps tail d"
  shows "maintains local_keeps (tx_bind (insertContextCommitParents c ps) (\<lambda>_.
     tx_bind (tx_each (insert_note c) ns) (\<lambda>_.
     tx_bind (tx_update ldb_refs_update ldb_refs P (set_ref c s)) (\<lambda>changed.
     tx_bind (tx_check (changed = 1) e) (\<lambda>_. tail))))) db"
  using assms(1) by (intro keeps_bind_at [of _ _ c]) (auto simp: maintains_write keeps_insert_notes keeps_insert_parents keeps_set_ref names_recorded intro: assms(2))

lemma keeps_session_state:
  "maintains local_keeps (tx_update ldb_merge_sessions_update ldb_merge_sessions P (set_session_state state)) db"
  if "state \<in> {MergeSessionOpen, MergeSessionReady, MergeSessionCommitted}"
    "\<forall>s \<in> set (ldb_merge_sessions db). P s \<longrightarrow> msr_State s \<noteq> MergeSessionCommitted \<or> state = MergeSessionCommitted"
  unfolding maintains_write
proof (rule keeps_merge_sessions, rule conjI)
  assume "table_ok msr_SessionID merge_state_ok (ldb_merge_sessions db)"
  then show "table_ok msr_SessionID merge_state_ok (update_rows P (set_session_state state) (ldb_merge_sessions db))"
    by (rule table_ok_update) (use that(1) in \<open>simp add: set_session_state_def merge_state_ok_def\<close>)
  show "keeps_rows session_step (ldb_merge_sessions db) (update_rows P (set_session_state state) (ldb_merge_sessions db))"
    by (rule keeps_rows_update) (use that(2) in \<open>auto simp: session_step_def set_session_state_def\<close>)
qed

lemma keeps_finalize_merge: "maintains local_keeps (finalize_merge ord decode input) db"
proof -
  define key commit where "key = fmi_Key input" and "commit = fmi_Commit input"
  have tail: "maintains local_keeps
      (tx_bind (tx_update ldb_working_sets_update ldb_working_sets P (set_base (commit_ID commit))) (\<lambda>changed.
       tx_bind (tx_check (changed = 1) CodeStaleWorkingSet) (\<lambda>_.
       tx_bind (tx_update ldb_merge_sessions_update ldb_merge_sessions Q (set_session_state MergeSessionCommitted)) (\<lambda>_.
       rebuildSearch ord decode key)))) d"
    if "commit_ID commit \<in> commit_ids d" for P Q d
    using that by (intro keeps_bind keeps_session_state) (auto simp: maintains_write keeps_set_base names_recorded)
  show ?thesis
    unfolding finalize_merge_def Let_def key_def [symmetric] commit_def [symmetric]
    by (intro keeps_bind keeps_insert_commit keeps_commit_tail tail) simp_all
qed

lemma keeps_FinalizeMerge: "local_keeps db (fst (FinalizeMerge ord decode input db))"
  by (simp add: FinalizeMerge_def local_store.maintains_transaction keeps_finalize_merge)

lemma keeps_store_landing [simp]: "maintains local_keeps (store_landing v s) db" if "v < lss_Version s"
proof -
  have "local_keeps d (ldb_landing_sessions_update (update_rows (\<lambda>r. lsr_SessionID r = lss_ID s \<and> lsr_Version r = v) (set_landing s payload)) d)"
    for d payload
    by (rule keeps_landing_sessions)
      (use that in \<open>auto simp: set_landing_def landing_session_step_def intro: table_ok_update keeps_rows_update\<close>)
  then show ?thesis by (auto simp: store_landing_def maintains_write intro!: keeps_bind)
qed

lemma keeps_finalize_landing: "maintains local_keeps (finalize_landing ord decode input) db"
proof -
  define key commit session where "key = fli_Key input" and "commit = fli_Commit input" and "session = fli_Session input"
  have tail: "maintains local_keeps
      (tx_bind (store_landing v (session\<lparr>lss_State := LandingSessionCommitted, lss_Version := lss_Version session + 1\<rparr>)) (\<lambda>_.
       tx_bind (tx_update ldb_working_sets_update ldb_working_sets P (set_base (commit_ID commit))) (\<lambda>_.
       rebuildSearch ord decode key))) d"
    if "commit_ID commit \<in> commit_ids d" "v = lss_Version session" for P v d
    using that by (intro keeps_bind_at [of _ _ "commit_ID commit"]) (auto simp: maintains_write keeps_set_base names_recorded)
  show ?thesis
    unfolding finalize_landing_def Let_def key_def [symmetric] commit_def [symmetric] session_def [symmetric]
    by (intro keeps_bind keeps_insert_commit keeps_commit_tail tail) auto
qed

lemma keeps_FinalizeLanding: "local_keeps db (fst (FinalizeLanding ord decode input db))"
  by (simp add: FinalizeLanding_def local_store.maintains_transaction keeps_finalize_landing)

subsection \<open>Sessions, remotes and candidates\<close>

lemma tx_marshal_Inr [simp]: "tx_marshal v db = Inr (db', text) \<longleftrightarrow> db' = db \<and> json_marshal v = Some text"
  by (auto simp: tx_marshal_def)

lemma session_conflict_key_simps:
  "session_conflict_key \<lparr>mcr_SessionID = x, mcr_ConflictID = i, mcr_ConflictJSON = p\<rparr> = (x, i)"
  "(\<lambda>r. mcr_SessionID r = x \<and> mcr_ConflictID r = i) = (\<lambda>r. session_conflict_key r = (x, i))"
  by (auto simp: session_conflict_key_def)

lemma keeps_CreateMergeSession: "local_keeps db (fst (CreateMergeSession i session db))"
proof -
  have row: "maintains local_keeps (tx_insert ldb_merge_sessions_update ldb_merge_sessions (\<lambda>r. msr_SessionID r = x)
      (session_row s p a)) d" if "ms_ID s = x" "ms_State s \<in> {MergeSessionReady, MergeSessionOpen}" for x s p a d
    using that by (auto simp: maintains_write list_ex_key session_row_def merge_state_ok_def keeps_rows_append intro!: keeps_merge_sessions)
  have conflict: "maintains local_keeps (insert_conflict x c) d" for x c d
    unfolding insert_conflict_def
    by (intro keeps_bind) (auto simp: maintains_write session_conflict_key_simps list_ex_key intro!: keeps_merge_conflicts)
  show ?thesis
    unfolding CreateMergeSession_def Let_def
    by (auto split: sum.split option.split intro!: local_store.maintains_transaction keeps_bind keeps_each row conflict)
qed

lemma keeps_ResolveMergeConflict: "local_keeps db (fst (ResolveMergeConflict dec i c choice authored db))"
proof -
  have conflict: "maintains local_keeps (store_conflict x k) d" for x k d
    unfolding store_conflict_def
    by (intro keeps_bind) (auto simp: maintains_write session_conflict_key_def intro!: keeps_merge_conflicts table_ok_update)
  have sessions: "ldb_merge_sessions d' = ldb_merge_sessions d" if "tx_each (store_conflict x) ks d = Inr (d', u)" for x ks d d' u
    using that by (induction ks arbitrary: d) (auto simp: tx_bind_Inr store_conflict_def)
  have "maintains local_keeps (resolve_merge dec x k choice authored) db" for x k
    unfolding resolve_merge_def Let_def
  proof (rule keeps_assuming_inv, intro keeps_bind keeps_session_state)
    assume inv: "local_inv db"
    show "\<forall>s \<in> set (ldb_merge_sessions d'). msr_SessionID s = x \<longrightarrow> msr_State s \<noteq> MergeSessionCommitted \<or> state = MergeSessionCommitted"
      if "tx_read (\<lambda>db. take_row (\<lambda>r. msr_SessionID r = x) (ldb_merge_sessions db)) db = Inr (d0, found)"
        "tx_found found CodeEntityNotFound d0 = Inr (d1, session)"
        "tx_check (msr_State session \<noteq> MergeSessionCommitted) CodeValidation d1 = Inr (d2, u)"
        "tx_read (conflict_rows x) d2 = Inr (d3, rows)" "tx_lift q d3 = Inr (d4, conflicts)" "tx_check b e d4 = Inr (d5, u')"
        "tx_each (store_conflict x) conflicts d5 = Inr (d', u'')" for d0 found d1 session d2 u d3 rows q d4 conflicts b e d5 u' d' u'' state
    proof -
      have d5: "d5 = db" and found: "take_row (\<lambda>r. msr_SessionID r = x) (ldb_merge_sessions db) = Some session"
        and open_session: "msr_State session \<noteq> MergeSessionCommitted"
        using that(1-6) by auto
      have "table_ok msr_SessionID merge_state_ok (ldb_merge_sessions db)" using inv by (simp add: local_inv_def)
      from table_ok_unique [OF this] take_row_Some [OF found] open_session sessions [OF that(7)]
      show ?thesis unfolding d5 by metis
    qed
  qed (auto simp: conflict intro!: keeps_each)
  from local_store.maintains_transaction [OF this] show ?thesis
    by (auto simp: ResolveMergeConflict_def Let_def split: prod.split sum.split) (metis fst_conv)+
qed

lemma keeps_landing_row:
  "\<not> list_ex (\<lambda>r. lsr_SessionID r = lsr_SessionID row \<or> q r) (ldb_landing_sessions d)
     \<Longrightarrow> local_keeps d (ldb_landing_sessions_update (\<lambda>rs. rs @ [row]) d)"
  by (rule keeps_landing_sessions) (force simp: list_ex_iff keeps_rows_append)

lemma keeps_CreateLandingSession: "local_keeps db (fst (CreateLandingSession i session db))"
  unfolding CreateLandingSession_def Let_def
  by (auto simp: maintains_write landing_row_def [of "_\<lparr>lss_ID := _, lss_Version := _, lss_State := _\<rparr>"]
      split: sum.split option.split intro!: local_store.maintains_transaction keeps_bind keeps_landing_row)

lemma keeps_UpdateLandingSession: "local_keeps db (fst (UpdateLandingSession v session db))"
  unfolding UpdateLandingSession_def Let_def
  by (auto intro!: local_store.maintains_transaction keeps_bind)

lemma keeps_AddRemote: "local_keeps db (fst (AddRemote name path db))"
proof -
  have "local_keeps d (ldb_remotes_update (\<lambda>rs. rs @ [\<lparr>rmr_Name = n, rmr_Path = path\<rparr>]) d)"
    if "\<not> list_ex (\<lambda>r. rmr_Name r = n) (ldb_remotes d)" for d n
    using that by (intro keeps_remotes) (auto simp: list_ex_key)
  then show ?thesis
    unfolding AddRemote_def
    by (auto simp: maintains_write split: sum.split option.split intro!: local_store.maintains_transaction keeps_bind)
qed

text \<open>A new version of a tracking ref is larger, or the row it replaces is the same.\<close>

lemma keeps_RecordRemoteRef: "local_keeps db (fst (RecordRemoteRef ref db))"
proof -
  have upsert: "local_keeps db (ldb_remote_refs_update (upsert_rows (\<lambda>r. rrr_RemoteName r = n \<and> rrr_RefName r = rref_RefName ref)
      (\<lambda>_. row) row) db)"
    if row: "row = \<lparr>rrr_RemoteName = n, rrr_RefName = rref_RefName ref, rrr_CommitID = c, rrr_SourceSHA = rref_SourceSHA ref,
        rrr_Version = rref_Version ref\<rparr>"
      and ok: "case take_row (\<lambda>r. rrr_RemoteName r = n \<and> rrr_RefName r = rref_RefName ref) (ldb_remote_refs db) of None \<Rightarrow> True
        | Some existing \<Rightarrow> rrr_Version existing \<le> rref_Version ref
            \<and> (rrr_Version existing = rref_Version ref \<longrightarrow> rrr_CommitID existing = c \<and> rrr_SourceSHA existing = rref_SourceSHA ref)"
    for n c row
  proof (rule keeps_remote_refs, rule conjI)
    let ?same = "\<lambda>r. rrr_RemoteName r = n \<and> rrr_RefName r = rref_RefName ref"
    assume table: "table_ok remote_ref_key (\<lambda>_. True) (ldb_remote_refs db)"
    then show "table_ok remote_ref_key (\<lambda>_. True) (upsert_rows ?same (\<lambda>_. row) row (ldb_remote_refs db))"
      by (rule table_ok_upsert) (auto simp: row remote_ref_key_def)
    show "keeps_rows remote_ref_step (ldb_remote_refs db) (upsert_rows ?same (\<lambda>_. row) row (ldb_remote_refs db))"
    proof (cases "take_row ?same (ldb_remote_refs db)")
      case None
      then show ?thesis by (auto simp: take_row_None upsert_rows_def list_ex_iff intro: keeps_rows_append)
    next
      case (Some existing)
      have "remote_ref_step r row" if "r \<in> set (ldb_remote_refs db)" "?same r" for r
      proof -
        have "r = existing"
          using table_ok_unique [OF table that(1)] take_row_Some [OF Some] that(2) by (auto simp: remote_ref_key_def)
        with ok Some that(2) show ?thesis by (auto simp: row remote_ref_step_def remote_ref_key_def)
      qed
      then have "keeps_rows remote_ref_step (ldb_remote_refs db) (update_rows ?same (\<lambda>_. row) (ldb_remote_refs db))"
        by (intro keeps_rows_update) auto
      moreover have "list_ex ?same (ldb_remote_refs db)" using take_row_Some [OF Some] by (auto simp: list_ex_iff)
      ultimately show ?thesis by (simp add: upsert_rows_def)
    qed
  qed
  show ?thesis
    unfolding RecordRemoteRef_def Let_def
    by (auto split: sum.split intro!: local_store.maintains_transaction keeps_bind)
      (auto simp: maintains_write intro!: upsert)
qed

lemma keeps_insertCandidateNotes [simp]: "maintains local_keeps (insertCandidateNotes notes) db"
  unfolding insertCandidateNotes_def
  by (intro keeps_each)
    (auto simp: maintains_write set_ignore_rows candidate_note_key_def intro!: keeps_candidate_notes
      table_ok_ignore [where key = "\<lambda>r. candidate_note_key (cnr_Note r)", unfolded candidate_note_key_def])

lemma keeps_ImportCandidate: "local_keeps db (fst (ImportCandidate b3 c notes db))"
proof -
  let ?same = "\<lambda>r. cand_ID (cdr_Candidate r) = cand_ID c"
  have upsert: "maintains local_keeps (upsertCandidate c hash) d"
    if "\<forall>r \<in> set (ldb_candidates d). ?same r \<longrightarrow> cdr_UpdatedAt r < UnixNano (cand_UpdatedAt c)" for hash d
    unfolding upsertCandidate_def maintains_write
  proof (rule keeps_candidates, rule conjI)
    assume "table_ok (\<lambda>r. cand_ID (cdr_Candidate r)) (\<lambda>_. True) (ldb_candidates d)"
    then show "table_ok (\<lambda>r. cand_ID (cdr_Candidate r)) (\<lambda>_. True)
        (upsert_rows ?same (\<lambda>_. candidate_row c hash) (candidate_row c hash) (ldb_candidates d))"
      by (rule table_ok_upsert) (auto simp: candidate_row_def)
    show "keeps_rows candidate_step (ldb_candidates d) (upsert_rows ?same (\<lambda>_. candidate_row c hash) (candidate_row c hash) (ldb_candidates d))"
      using that by (auto simp: upsert_rows_def candidate_row_def candidate_step_def intro!: keeps_rows_append keeps_rows_update)
  qed
  have writes: "maintains local_keeps (tx_bind (upsertCandidate c hash) (\<lambda>_. tx_bind (insertCandidateNotes ns) (\<lambda>_. tx_return True))) d"
    if "\<forall>r \<in> set (ldb_candidates d). ?same r \<longrightarrow> cdr_UpdatedAt r < UnixNano (cand_UpdatedAt c)" for hash ns d
    using upsert [OF that] by (intro keeps_bind) simp_all
  have delete: "local_keeps d (ldb_candidate_notes_update
      (filter (\<lambda>r. cnote_CandidateID (cnr_Note r) = cand_ID c \<longrightarrow> cnote_State (cnr_Note r) \<noteq> CandidateNoteDraft)) d)" for d
    by (rule keeps_candidate_notes) (auto intro: table_ok_filter)
  have "maintains local_keeps (import_candidate c ns hash) db" for ns hash
  proof (rule keeps_assuming_inv)
    assume inv: "local_inv db"
    show ?thesis
    proof (cases "take_row ?same (ldb_candidates db)")
      case None
      then have "\<forall>r \<in> set (ldb_candidates db). \<not> ?same r" by (simp add: take_row_None)
      then show ?thesis using None writes [of db] by (auto simp: import_candidate_def Let_def intro!: keeps_bind)
    next
      case (Some r)
      have "table_ok (\<lambda>r. cand_ID (cdr_Candidate r)) (\<lambda>_. True) (ldb_candidates db)" using inv by (simp add: local_inv_def)
      from table_ok_unique [OF this] take_row_Some [OF Some]
      have only: "\<forall>x \<in> set (ldb_candidates db). ?same x \<longrightarrow> x = r" by metis
      show ?thesis
        unfolding import_candidate_def Let_def
        by (rule keeps_bind) (use only in \<open>auto simp: Some maintains_write delete not_less intro!: keeps_bind writes\<close>)
    qed
  qed
  then show ?thesis
    by (auto simp: ImportCandidate_def local_store.maintains_transaction split: sum.split)
qed

lemma keeps_set_outcome [simp]: "maintains local_keeps (setCandidateNoteOutcome c n state p) db"
  unfolding setCandidateNoteOutcome_def
  by (intro keeps_bind)
    (auto simp: maintains_write set_outcome_def candidate_note_key_def update_rows_def intro!: keeps_candidate_notes
      table_ok_update [unfolded update_rows_def])

lemma keeps_promote_notes: "maintains local_keeps (promote_notes source i key c ns res) db"
  by (induction ns arbitrary: i res db) (auto simp: Let_def intro!: keeps_bind split: sum.split prod.split)

lemma keeps_PromoteCandidate: "local_keeps db (fst (PromoteCandidate ord decode source key c db))"
  unfolding PromoteCandidate_def Let_def
  by (auto intro!: local_store.maintains_transaction keeps_bind keeps_promote_notes)

subsection \<open>The whole store\<close>

text \<open>
  One operation of the store.  The parameters of an operation are arbitrary, failures included; the
  ancestry is read from any state of the object directory.
\<close>

inductive local_step :: "object_env \<Rightarrow> local_db \<Rightarrow> local_db \<Rightarrow> bool" for env where
  add_note: "local_step env db (fst (AddPendingNote ord decode newIDs now key n db))"
| revise_note: "local_step env db (fst (ReviseNote ord decode newID now key noteID body author origin topics db))"
| review_note: "local_step env db (fst (ReviewNote ord decode key noteID entityKey db))"
| index: "local_step env db (fst (ApplyIndexUpdate ord decode (stored_graph env dir key) time key projections db))"
| finalize_commit: "local_step env db (fst (FinalizeCommit ord decode commit db))"
| finalize_merge: "local_step env db (fst (FinalizeMerge ord decode merge db))"
| finalize_landing: "local_step env db (fst (FinalizeLanding ord decode landing db))"
| rebuild: "local_step env db (fst (Rebuild ord decode (stored_graph env dir (reb_Key rebuild)) time rebuild db))"
| fast_forward: "local_step env db (fst (FastForward ord decode (stored_graph env dir (ff_Key input)) input db))"
| landing_recovery: "local_step env db (fst (PrepareLandingRecovery ord decode (stored_graph env dir (ff_Key input)) input db))"
| create_merge: "local_step env db (fst (CreateMergeSession newID session db))"
| resolve_merge: "local_step env db (fst (ResolveMergeConflict dec sessionID conflictID choice authored db))"
| create_landing: "local_step env db (fst (CreateLandingSession newID landing_session db))"
| update_landing: "local_step env db (fst (UpdateLandingSession expectedVersion landing_session db))"
| add_remote: "local_step env db (fst (AddRemote remoteName path db))"
| record_remote_ref: "local_step env db (fst (RecordRemoteRef remoteRef db))"
| import_candidate: "local_step env db (fst (ImportCandidate (oe_blake3 env) candidate drafts db))"
| promote_candidate: "local_step env db (fst (PromoteCandidate ord decode source key candidateID db))"

inductive_cases local_stepE: "local_step env db db'"

definition empty_local_db :: local_db where
  "empty_local_db = \<lparr>ldb_working_sets = [], ldb_entities = [], ldb_coverage = [], ldb_pending = [], ldb_commits = [],
     ldb_parents = [], ldb_notes = [], ldb_refs = [], ldb_remotes = [], ldb_remote_refs = [], ldb_search = [],
     ldb_merge_sessions = [], ldb_merge_conflicts = [], ldb_landing_sessions = [], ldb_candidates = [], ldb_candidate_notes = []\<rparr>"

definition local_reachable :: "object_env \<Rightarrow> local_db \<Rightarrow> bool" where
  "local_reachable env db \<longleftrightarrow> (local_step env)\<^sup>*\<^sup>* empty_local_db db"

lemma keeps_local_step: "local_step env db db' \<Longrightarrow> local_keeps db db'"
  by (induction rule: local_step.induct)
    (simp_all add: keeps_AddPendingNote keeps_ReviseNote keeps_ReviewNote keeps_ApplyIndexUpdate keeps_FinalizeCommit
      keeps_FinalizeMerge keeps_FinalizeLanding stored.keeps_Rebuild stored.keeps_FastForward stored.keeps_PrepareLandingRecovery
      keeps_CreateMergeSession keeps_ResolveMergeConflict keeps_CreateLandingSession keeps_UpdateLandingSession keeps_AddRemote
      keeps_RecordRemoteRef keeps_ImportCandidate keeps_PromoteCandidate)

lemma keeps_local_steps: "(local_step env)\<^sup>*\<^sup>* db db' \<Longrightarrow> local_keeps db db'"
  by (induction rule: rtranclp_induct) (auto dest: keeps_local_step intro: local_store.trans)

lemma empty_local_inv [simp]: "local_inv empty_local_db"
  by (simp add: local_inv_def empty_local_db_def table_ok_def)

lemma local_reachable_inv: "local_reachable env db \<Longrightarrow> local_inv db"
  unfolding local_reachable_def by (rule local_keeps_inv [OF keeps_local_steps empty_local_inv])

lemma local_reachable_step: "local_reachable env db \<Longrightarrow> local_step env db db' \<Longrightarrow> local_reachable env db'"
  by (auto simp: local_reachable_def)

end
