(* ===== verification/Local_Properties.thy ===== *)
theory Local_Properties
  imports Local_Steps
begin

text \<open>
  The properties of the local store: its invariant and history, the atomic advance of a commit, of a
  merge and of a fast-forward, and that nothing a user wrote is lost by them.
\<close>

subsection \<open>History\<close>

text \<open>C11: In every database the operations of the store can reach, from an empty one, the keys of all
  tables are unique, every committed note, every ref and every working set names a recorded commit (or
  no commit), and every merge session is open, ready or committed.\<close>

theorem local_invariant: "local_reachable env db \<Longrightarrow> local_inv db"
  by (rule local_reachable_inv)

text \<open>C12: No later operation rewrites history: recorded commits, their parents and notes, and configured
  remotes stay as they are; the version of a ref never falls and the ref only changes with it, the
  same holds for tracking refs, landing sessions and candidates; a merge session changes nothing but
  its state and stays committed; and a promoted candidate note stays promoted.\<close>

theorem local_history:
  assumes "local_reachable env db" "(local_step env)\<^sup>*\<^sup>* db db'"
  shows "local_evolves db db'"
  using keeps_local_steps [OF assms(2)] local_reachable_inv [OF assms(1)] by (simp add: local_keeps_def)

subsection \<open>What the statements do\<close>

lemma listPending_run: "listPendingNotes decode w db = Inr (db', ns) \<Longrightarrow> db' = db"
  by (auto simp: listPendingNotes_def tx_bind_Inr)

lemma listPending_Inr: "listPendingNotes decode w db = Inr (db', ns)
    \<longleftrightarrow> db' = db \<and> scanNotes decode True (sort_key note_order (pending_rows w db)) = Inr ns"
  by (auto simp: listPendingNotes_def tx_bind_Inr)

lemma listCommitted_run: "listCommittedNotes decode c db = Inr (db', ns) \<Longrightarrow> db' = db"
  by (auto simp: listCommittedNotes_def tx_bind_Inr)

text \<open>The rebuilt index leaves every other table but the parents alone.\<close>

definition same_but_search :: "local_db \<Rightarrow> local_db \<Rightarrow> bool" where
  "same_but_search db db' \<longleftrightarrow> db' = db\<lparr>ldb_search := ldb_search db', ldb_parents := ldb_parents db'\<rparr>
     \<and> set (ldb_parents db) \<subseteq> set (ldb_parents db')"

lemma rebuildSearch_run:
  assumes "rebuildSearch ord decode key db = Inr (db', u)"
  shows "same_but_search db db'"
proof -
  have inserted: "\<exists>f. d' = ldb_search_update f db"
    if "tx_each (\<lambda>e. tx_insert ldb_search_update ldb_search (\<lambda>_. False) (g e)) es d = Inr (d', v)" "\<exists>f. d = ldb_search_update f db"
    for g es d d' v
    by (rule tx_each_inv [where P = "\<lambda>d. \<exists>f. d = ldb_search_update f db", OF that]) (auto simp: comp_def)
  from assms obtain f commits where db': "db' = ldb_parents_update (backfill_parents commits) (ldb_search_update f db)"
    by (auto simp: rebuildSearch_def Let_def tx_bind_Inr split: if_splits dest!: listPending_run listCommitted_run inserted)
  have "set parents \<subseteq> set (backfill_parents commits parents)" for parents
  proof (induction commits arbitrary: parents)
    case (Cons c commits)
    have "set parents \<subseteq> set (ignore_rows q r parents)" for q r by (simp add: set_ignore_rows subset_insertI)
    with Cons.IH show ?case by (auto simp: backfill_parents_def) blast+
  qed (simp add: backfill_parents_def)
  then show ?thesis by (simp add: same_but_search_def db')
qed

lemma take_row_update:
  "(\<And>r. P (f r) \<longleftrightarrow> P r) \<Longrightarrow> take_row P (update_rows Q f rows) = map_option (\<lambda>r. if Q r then f r else r) (take_row P rows)"
  by (induction rows) (simp_all add: take_row_def update_rows_def)

lemma take_row_append: "take_row P (rows @ [r]) = (case take_row P rows of None \<Rightarrow> if P r then Some r else None | Some x \<Rightarrow> Some x)"
  by (induction rows) (simp_all add: take_row_def)

text \<open>A ref moves to the next version, and the others stay.\<close>

definition moves_ref :: "string \<Rightarrow> string \<Rightarrow> string \<Rightarrow> local_db \<Rightarrow> local_db \<Rightarrow> bool" where
  "moves_ref refName c sourceSHA db db' \<longleftrightarrow>
     currentContextRef refName db' = \<lparr>cref_RefName = refName, cref_CommitID = c, cref_SourceSHA = sourceSHA,
       cref_Version = cref_Version (currentContextRef refName db) + 1\<rparr>
     \<and> (\<forall>r. r \<noteq> refName \<longrightarrow> currentContextRef r db' = currentContextRef r db)"

lemma moves_ref_update:
  assumes "\<And>r. take_row (\<lambda>r. lrr_RefName r = refName) (ldb_refs db) = Some r \<Longrightarrow> P r"
    "\<And>r. P r \<Longrightarrow> lrr_RefName r = refName" "\<exists>r \<in> set (ldb_refs db). P r"
  shows "moves_ref refName c s db (ldb_refs_update (update_rows P (set_ref c s)) db)"
proof -
  have "take_row (\<lambda>r. lrr_RefName r = refName) (ldb_refs db) \<noteq> None" using assms(2,3) by (auto simp: take_row_None)
  then obtain r where r: "take_row (\<lambda>r. lrr_RefName r = refName) (ldb_refs db) = Some r" by blast
  have rows: "take_row (\<lambda>r. lrr_RefName r = x) (update_rows P (set_ref c s) (ldb_refs db))
      = map_option (\<lambda>r. if P r then set_ref c s r else r) (take_row (\<lambda>r. lrr_RefName r = x) (ldb_refs db))" for x
    by (rule take_row_update) (simp add: set_ref_def)
  have "currentContextRef x (ldb_refs_update (update_rows P (set_ref c s)) db) = currentContextRef x db" if "x \<noteq> refName" for x
  proof (cases "take_row (\<lambda>r. lrr_RefName r = x) (ldb_refs db)")
    case (Some q)
    with take_row_Some [OF Some] assms(2) that have "\<not> P q" by blast
    with Some show ?thesis by (simp add: currentContextRef_def rows)
  qed (simp add: currentContextRef_def rows)
  then show ?thesis using assms(1) [OF r] by (simp add: moves_ref_def currentContextRef_def rows r set_ref_def)
qed

lemma moves_ref_insert:
  assumes "\<not> list_ex (\<lambda>r. lrr_RefName r = refName) (ldb_refs db)"
  shows "moves_ref refName c s db (ldb_refs_update (\<lambda>rs. rs @ [\<lparr>lrr_RefName = refName, lrr_CommitID = c, lrr_SourceSHA = s, lrr_Version = 1\<rparr>]) db)"
proof -
  from assms have "take_row (\<lambda>r. lrr_RefName r = refName) (ldb_refs db) = None" by (auto simp: take_row_None list_ex_iff)
  then show ?thesis by (auto simp: moves_ref_def currentContextRef_def take_row_append split: option.split)
qed

lemma advance_ref_run:
  assumes "advance_ref refName (fst (local_ref refName db)) (snd (local_ref refName db)) c s d = Inr (d', u)" "ldb_refs d = ldb_refs db"
  shows "\<exists>f. d' = ldb_refs_update f d \<and> moves_ref refName c s d d'"
proof (cases "fst (local_ref refName db) = []")
  case True
  with assms(1) show ?thesis by (auto simp: advance_ref_def intro: moves_ref_insert)
next
  case False
  let ?P = "\<lambda>r. lrr_RefName r = refName \<and> lrr_Version r = snd (local_ref refName db) \<and> lrr_CommitID r = fst (local_ref refName db)"
  from assms(1) False have d': "d' = ldb_refs_update (update_rows ?P (set_ref c s)) d" and n: "rows_affected ?P (ldb_refs d) = 1"
    by (auto simp: advance_ref_def tx_bind_Inr)
  have "?P r" if "take_row (\<lambda>r. lrr_RefName r = refName) (ldb_refs d) = Some r" for r
    using that take_row_Some [OF that] assms(2) by (simp add: local_ref_def)
  then have "moves_ref refName c s d (ldb_refs_update (update_rows ?P (set_ref c s)) d)"
    by (rule moves_ref_update) (use rows_affected_pos [OF n] in auto)
  then show ?thesis unfolding d' by blast
qed

lemma insert_notes_run:
  "tx_each (insert_note c) ns db = Inr (db', u) \<Longrightarrow> db' = ldb_notes_update (\<lambda>rows. rows @ map (note_row c) ns) db"
proof (induction ns arbitrary: db)
  case (Cons n ns)
  from Cons.prems obtain d v where d: "insert_note c n db = Inr (d, v)" "tx_each (insert_note c) ns d = Inr (db', u)"
    by (auto simp: tx_bind_Inr)
  from d(1) have "d = ldb_notes_update (\<lambda>rows. rows @ [note_row c n]) db" by (simp add: insert_note_def)
  then show ?case unfolding Cons.IH [OF d(2)] by (simp add: comp_def)
qed (simp add: local_db.defs)

definition parents_recorded :: "int \<Rightarrow> string \<Rightarrow> string list \<Rightarrow> local_db \<Rightarrow> bool" where
  "parents_recorded i c ps db \<longleftrightarrow> (\<forall>k < length ps. ps ! k \<noteq> [] \<longrightarrow>
     \<lparr>par_CommitID = c, par_Index = i + int k, par_ParentID = ps ! k\<rparr> \<in> set (ldb_parents db))"

lemma insert_parents_run:
  assumes "insert_parents_from i c ps db = Inr (db', u)" "\<forall>p \<in> set (ldb_parents db). par_CommitID p = c \<longrightarrow> par_Index p < i"
  shows "\<exists>f. db' = ldb_parents_update f db \<and> set (ldb_parents db) \<subseteq> set (ldb_parents db') \<and> parents_recorded i c ps db'"
  using assms
proof (induction ps arbitrary: i db)
  case (Cons p ps)
  let ?row = "\<lparr>par_CommitID = c, par_Index = i, par_ParentID = p\<rparr>"
  let ?d = "if p = [] then db else ldb_parents_update (\<lambda>rows. rows @ [?row]) db"
  have "ignore_rows (\<lambda>p. par_CommitID p = c \<and> par_Index p = i) ?row (ldb_parents db) = ldb_parents db @ [?row]"
    using Cons.prems(2) by (auto simp: ignore_rows_def list_ex_iff)
  then have "ldb_parents_update (ignore_rows (\<lambda>p. par_CommitID p = c \<and> par_Index p = i) ?row) db = ldb_parents_update (\<lambda>rows. rows @ [?row]) db"
    by (cases db) simp
  then have "insert_parents_from (i + 1) c ps ?d = Inr (db', u)"
    using Cons.prems(1) by (auto simp: tx_bind_Inr split: if_splits)
  moreover have "\<forall>q \<in> set (ldb_parents ?d). par_CommitID q = c \<longrightarrow> par_Index q < i + 1"
    using Cons.prems(2) by (auto dest!: bspec)
  ultimately obtain f where f: "db' = ldb_parents_update f ?d" "set (ldb_parents ?d) \<subseteq> set (ldb_parents db')" "parents_recorded (i + 1) c ps db'"
    using Cons.IH by blast
  have "parents_recorded i c (p # ps) db'"
    unfolding parents_recorded_def
  proof (intro allI impI)
    fix k assume "k < length (p # ps)" "(p # ps) ! k \<noteq> []"
    with f(2,3) show "\<lparr>par_CommitID = c, par_Index = i + int k, par_ParentID = (p # ps) ! k\<rparr> \<in> set (ldb_parents db')"
      by (cases k) (auto simp: parents_recorded_def algebra_simps)
  qed
  moreover have "\<exists>g. ldb_parents_update f ?d = ldb_parents_update g db" by (auto simp: comp_def)
  ultimately show ?case using f(1,2) by auto
qed (auto simp: parents_recorded_def intro: exI [of _ "\<lambda>x. x"])

subsection \<open>Recording a commit\<close>

text \<open>
  The contract that commits, merges and landings share: one new commit with its ordered parents and its
  notes, the ref moved to it, the pending notes of the worktree gone and its working set based on it.
\<close>

definition records_commit :: "WorkingSetKey \<Rightarrow> ContextCommit \<Rightarrow> string list \<Rightarrow> Note list \<Rightarrow> local_db \<Rightarrow> local_db \<Rightarrow> bool" where
  "records_commit key c ps ns db db' \<longleftrightarrow>
     commit_ID c \<notin> commit_ids db
     \<and> ldb_commits db' = ldb_commits db @ [commit_row c]
     \<and> parents_recorded 0 (commit_ID c) ps db'
     \<and> ldb_notes db' = ldb_notes db @ map (note_row (commit_ID c)) ns
     \<and> moves_ref (key_RefName key) (commit_ID c) (commit_SourceSHA c) db db'
     \<and> ldb_pending db' = filter (\<lambda>p. nr_Owner p \<noteq> key_WorktreeID key) (ldb_pending db)
     \<and> ldb_working_sets db' = update_rows (\<lambda>w. ws_WorktreeID w = key_WorktreeID key) (set_base (commit_ID c)) (ldb_working_sets db)
     \<and> ldb_entities db' = ldb_entities db \<and> ldb_coverage db' = ldb_coverage db \<and> ldb_remotes db' = ldb_remotes db
     \<and> ldb_remote_refs db' = ldb_remote_refs db \<and> ldb_candidates db' = ldb_candidates db
     \<and> ldb_candidate_notes db' = ldb_candidate_notes db"

lemma insert_commit_run:
  "insert_commit c db = Inr (db', u) \<Longrightarrow> commit_ID c \<notin> commit_ids db \<and> db' = ldb_commits_update (\<lambda>rows. rows @ [commit_row c]) db"
  by (auto simp: insert_commit_def list_ex_key commit_ids_def)

text \<open>The first three steps: the commit, its parents and its notes.\<close>

definition recorded :: "ContextCommit \<Rightarrow> string list \<Rightarrow> Note list \<Rightarrow> local_db \<Rightarrow> local_db \<Rightarrow> bool" where
  "recorded c ps ns db d \<longleftrightarrow> commit_ID c \<notin> commit_ids db \<and> parents_recorded 0 (commit_ID c) ps d
     \<and> d = db\<lparr>ldb_commits := ldb_commits db @ [commit_row c], ldb_parents := ldb_parents d,
         ldb_notes := ldb_notes db @ map (note_row (commit_ID c)) ns\<rparr>"

lemma recorded_run:
  assumes "local_inv db" "insert_commit c db = Inr (d1, u1)" "insertContextCommitParents (commit_ID c) ps d1 = Inr (d2, u2)"
    "tx_each (insert_note (commit_ID c)) ns d2 = Inr (d3, u3)"
  shows "recorded c ps ns db d3"
proof -
  from insert_commit_run [OF assms(2)] have c: "commit_ID c \<notin> commit_ids db"
    and d1: "d1 = ldb_commits_update (\<lambda>rows. rows @ [commit_row c]) db" by auto
  have "\<forall>p \<in> set (ldb_parents d1). par_CommitID p = commit_ID c \<longrightarrow> par_Index p < 0"
    using assms(1) c by (auto simp: d1 local_inv_def dest: table_ok_row)
  from insert_parents_run [OF assms(3) [unfolded insertContextCommitParents_def] this] obtain f where
    f: "d2 = ldb_parents_update f d1" "parents_recorded 0 (commit_ID c) ps d2" by blast
  from insert_notes_run [OF assms(4)] have d3: "d3 = ldb_notes_update (\<lambda>rows. rows @ map (note_row (commit_ID c)) ns) d2" .
  have "parents_recorded 0 (commit_ID c) ps d3" using f(2) by (simp add: d3 parents_recorded_def)
  then show ?thesis using c unfolding recorded_def d3 f(1) d1 by (cases db) simp
qed

text \<open>The last steps: the ref, the working set, the pending notes and the index.\<close>

lemma records_commit_run:
  assumes rec: "recorded c ps ns db d"
    and ref: "d1 = ldb_refs_update f d" "moves_ref (key_RefName key) (commit_ID c) (commit_SourceSHA c) d d1"
    and pending: "d2 = ldb_pending_update (filter (\<lambda>p. nr_Owner p \<noteq> key_WorktreeID key)) d1"
    and base: "d3 = ldb_working_sets_update (update_rows (\<lambda>w. ws_WorktreeID w = key_WorktreeID key) (set_base (commit_ID c))) d2"
    and other: "d4 = ldb_merge_sessions_update m (ldb_landing_sessions_update l d3)"
    and search: "same_but_search d4 db'"
  shows "records_commit key c ps ns db db'"
proof -
  from search have db': "db' = d4\<lparr>ldb_search := ldb_search db', ldb_parents := ldb_parents db'\<rparr>"
    and grown: "set (ldb_parents d4) \<subseteq> set (ldb_parents db')" by (auto simp: same_but_search_def)
  from rec have c: "commit_ID c \<notin> commit_ids db" and ps: "parents_recorded 0 (commit_ID c) ps d"
    and d: "d = db\<lparr>ldb_commits := ldb_commits db @ [commit_row c], ldb_parents := ldb_parents d,
         ldb_notes := ldb_notes db @ map (note_row (commit_ID c)) ns\<rparr>" by (auto simp: recorded_def)
  have "ldb_parents d4 = ldb_parents d" unfolding other base pending ref(1) by simp
  with ps grown have "parents_recorded 0 (commit_ID c) ps db'" by (auto simp: parents_recorded_def)
  moreover have "ldb_refs db' = ldb_refs d1" by (subst db') (simp add: other base pending)
  moreover have "ldb_refs d = ldb_refs db" by (subst d) simp
  ultimately have "parents_recorded 0 (commit_ID c) ps db' \<and> moves_ref (key_RefName key) (commit_ID c) (commit_SourceSHA c) db db'"
    using ref(2) by (simp add: moves_ref_def currentContextRef_def)
  moreover have "ldb_commits db' = ldb_commits d" "ldb_notes db' = ldb_notes d" "ldb_entities db' = ldb_entities d"
    "ldb_coverage db' = ldb_coverage d" "ldb_remotes db' = ldb_remotes d" "ldb_remote_refs db' = ldb_remote_refs d"
    "ldb_candidates db' = ldb_candidates d" "ldb_candidate_notes db' = ldb_candidate_notes d"
    "ldb_pending db' = filter (\<lambda>p. nr_Owner p \<noteq> key_WorktreeID key) (ldb_pending d)"
    "ldb_working_sets db' = update_rows (\<lambda>w. ws_WorktreeID w = key_WorktreeID key) (set_base (commit_ID c)) (ldb_working_sets d)"
    by (subst db', simp add: other base pending ref(1))+
  moreover have "ldb_commits d = ldb_commits db @ [commit_row c]" "ldb_notes d = ldb_notes db @ map (note_row (commit_ID c)) ns"
    "ldb_entities d = ldb_entities db" "ldb_coverage d = ldb_coverage db" "ldb_remotes d = ldb_remotes db"
    "ldb_remote_refs d = ldb_remote_refs db" "ldb_candidates d = ldb_candidates db"
    "ldb_candidate_notes d = ldb_candidate_notes db" "ldb_pending d = ldb_pending db" "ldb_working_sets d = ldb_working_sets db"
    by (subst d, simp)+
  ultimately show ?thesis using c by (simp add: records_commit_def)
qed

lemma same_sessions: "d = ldb_merge_sessions_update (\<lambda>x. x) (ldb_landing_sessions_update (\<lambda>x. x) d)"
  by (cases d) simp

lemma no_pending_filter: "pending_count w db = 0 \<Longrightarrow> filter (\<lambda>p. nr_Owner p \<noteq> w) (ldb_pending db) = ldb_pending db"
  by (auto simp: pending_count_def rows_affected_def filter_id_conv filter_empty_conv)

lemma same_pending: "f (ldb_pending d) = ldb_pending d \<Longrightarrow> d = ldb_pending_update f d"
  by (cases d) simp

lemma same_working_sets: "f (ldb_working_sets d) = g (ldb_working_sets d) \<Longrightarrow> ldb_working_sets_update f d = ldb_working_sets_update g d"
  by (cases d) simp

text \<open>The working set of a worktree is the one the key describes.\<close>

definition in_working_set :: "WorkingSetKey \<Rightarrow> local_db \<Rightarrow> bool" where
  "in_working_set key db \<longleftrightarrow> (\<exists>w. take_row (\<lambda>w. ws_WorktreeID w = key_WorktreeID key) (ldb_working_sets db) = Some w
     \<and> ws_RepositoryID w = key_RepositoryID key \<and> ws_RefName w = key_RefName key \<and> ws_SourceSHA w = key_SourceSHA key)"

lemma requireWorkingSet_Inr: "requireWorkingSet key db = Inr (db', u) \<longleftrightarrow> db' = db \<and> in_working_set key db"
  by (auto simp: requireWorkingSet_def tx_bind_Inr in_working_set_def split: option.splits)

lemma working_set_condition:
  assumes "local_inv db" "in_working_set key db"
  shows "update_rows (\<lambda>w. ws_WorktreeID w = key_WorktreeID key \<and> ws_RefName w = key_RefName key \<and> ws_SourceSHA w = key_SourceSHA key) f
      (ldb_working_sets db) = update_rows (\<lambda>w. ws_WorktreeID w = key_WorktreeID key) f (ldb_working_sets db)"
proof -
  from assms(2) obtain w where w: "take_row (\<lambda>w. ws_WorktreeID w = key_WorktreeID key) (ldb_working_sets db) = Some w"
    "ws_RefName w = key_RefName key" "ws_SourceSHA w = key_SourceSHA key"
    by (auto simp: in_working_set_def)
  have "table_ok ws_WorktreeID (\<lambda>w. ws_BaseContextCommitID w = [] \<or> names_commit (commit_ids db) (ws_BaseContextCommitID w)) (ldb_working_sets db)"
    using assms(1) by (simp add: local_inv_def)
  from table_ok_unique [OF this] take_row_Some [OF w(1)] have "x = w" if "x \<in> set (ldb_working_sets db)"
    "ws_WorktreeID x = key_WorktreeID key" for x using that by metis
  with w(2,3) show ?thesis by (auto simp: update_rows_def)
qed

lemma finalize_commit_run:
  assumes "local_inv db" "finalize_commit ord decode input db = Inr (db', u)"
  shows "records_commit (fin_Key input) (fin_Commit input) [commit_ParentID (fin_Commit input)] (fin_Notes input) db db'
    \<and> (\<exists>pending. listPendingNotes decode (key_WorktreeID (fin_Key input)) db = Inr (db, pending)
         \<and> samePendingSnapshot pending (fin_PendingNoteIDs input) (fin_Notes input))
    \<and> cref_CommitID (currentContextRef (key_RefName (fin_Key input)) db) = fin_ExpectedParent input"
proof -
  let ?key = "fin_Key input" and ?c = "fin_Commit input"
  from assms(2) obtain pending d1 u1 d2 u2 d3 u3 d4 u4 v where
    pending: "listPendingNotes decode (key_WorktreeID ?key) db = Inr (db, pending)"
      "samePendingSnapshot pending (fin_PendingNoteIDs input) (fin_Notes input)"
    and parent: "fst (local_ref (key_RefName ?key) db) = fin_ExpectedParent input"
    and run: "insert_commit ?c db = Inr (d1, u1)" "insertContextCommitParents (commit_ID ?c) [commit_ParentID ?c] d1 = Inr (d2, u2)"
      "tx_each (insert_note (commit_ID ?c)) (fin_Notes input) (ldb_notes_update (filter (\<lambda>r. nr_Owner r \<noteq> commit_ID ?c)) d2) = Inr (d3, u3)"
      "advance_ref (key_RefName ?key) (fst (local_ref (key_RefName ?key) db)) (snd (local_ref (key_RefName ?key) db))
         (commit_ID ?c) (commit_SourceSHA ?c) d3 = Inr (d4, u4)"
      "rebuildSearch ord decode ?key (ldb_working_sets_update (update_rows (\<lambda>w. ws_WorktreeID w = key_WorktreeID ?key) (set_base (commit_ID ?c)))
         (ldb_pending_update (filter (\<lambda>p. nr_Owner p \<noteq> key_WorktreeID ?key)) d4)) = Inr (db', v)"
    by (auto simp: finalize_commit_def Let_def tx_bind_Inr listPending_Inr split: prod.splits)
  have fresh: "\<forall>n \<in> set (ldb_notes d2). nr_Owner n \<noteq> commit_ID ?c"
    using insert_commit_run [OF run(1)] parents_notes [OF run(2) [unfolded insertContextCommitParents_def]] assms(1)
    by (auto simp: local_inv_def dest: table_ok_row)
  then have "ldb_notes_update (filter (\<lambda>r. nr_Owner r \<noteq> commit_ID ?c)) d2 = d2" by (cases d2) (simp add: filter_id_conv)
  from recorded_run [OF assms(1) run(1,2) run(3) [unfolded this]]
  have rec: "recorded ?c [commit_ParentID ?c] (fin_Notes input) db d3" .
  then have "ldb_refs d3 = ldb_refs db" by (metis (no_types, lifting) local_db.select_convs(8) local_db.surjective local_db.update_convs(5,6,7) recorded_def)
  from advance_ref_run [OF run(4) this] obtain f where "d4 = ldb_refs_update f d3"
    "moves_ref (key_RefName ?key) (commit_ID ?c) (commit_SourceSHA ?c) d3 d4" by blast
  from records_commit_run [OF rec this refl refl same_sessions rebuildSearch_run [OF run(5)]]
  have "records_commit ?key ?c [commit_ParentID ?c] (fin_Notes input) db db'" .
  moreover have "cref_CommitID (currentContextRef (key_RefName ?key) db) = fin_ExpectedParent input"
    using parent by (auto simp: local_ref_def currentContextRef_def split: option.splits)
  ultimately show ?thesis using pending by blast
qed

lemma finalize_merge_run:
  assumes "local_inv db" "finalize_merge ord decode input db = Inr (db', u)"
  shows "records_commit (fmi_Key input) (fmi_Commit input) (fmi_ParentIDs input) (fmi_Notes input) db db'
    \<and> (\<exists>s \<in> set (ldb_merge_sessions db). msr_SessionID s = fmi_SessionID input \<and> msr_State s = MergeSessionReady
         \<and> merge_matches input s \<and> cref_CommitID (currentContextRef (key_RefName (fmi_Key input)) db) = msr_LocalSnapshotID s)
    \<and> ldb_merge_sessions db' = update_rows (\<lambda>r. msr_SessionID r = fmi_SessionID input \<and> msr_State r = MergeSessionReady)
         (set_session_state MergeSessionCommitted) (ldb_merge_sessions db)"
proof -
  let ?key = "fmi_Key input" and ?c = "fmi_Commit input" and ?ref = "currentContextRef (key_RefName (fmi_Key input)) db"
  let ?committed = "update_rows (\<lambda>r. msr_SessionID r = fmi_SessionID input \<and> msr_State r = MergeSessionReady) (set_session_state MergeSessionCommitted)"
  let ?same = "\<lambda>w. ws_WorktreeID w = key_WorktreeID ?key \<and> ws_RefName w = key_RefName ?key \<and> ws_SourceSHA w = key_SourceSHA ?key"
  from assms(2) obtain s d1 u1 d2 u2 d3 u3 v' where
    key: "in_working_set ?key db"
    and s: "take_row (\<lambda>r. msr_SessionID r = fmi_SessionID input) (ldb_merge_sessions db) = Some s" "msr_State s = MergeSessionReady" "merge_matches input s"
    and pending: "pending_count (key_WorktreeID ?key) db = 0"
    and ref: "cref_CommitID ?ref = msr_LocalSnapshotID s" "cref_SourceSHA ?ref = key_SourceSHA ?key"
    and run: "insert_commit ?c db = Inr (d1, u1)" "insertContextCommitParents (commit_ID ?c) (fmi_ParentIDs input) d1 = Inr (d2, u2)"
      "tx_each (insert_note (commit_ID ?c)) (fmi_Notes input) d2 = Inr (d3, u3)"
    and moved: "rows_affected (\<lambda>r. lrr_RefName r = key_RefName ?key \<and> lrr_CommitID r = msr_LocalSnapshotID s
         \<and> lrr_SourceSHA r = key_SourceSHA ?key \<and> lrr_Version r = cref_Version ?ref) (ldb_refs d3) = 1"
    and search: "rebuildSearch ord decode ?key (ldb_merge_sessions_update ?committed (ldb_working_sets_update (update_rows ?same (set_base (commit_ID ?c)))
         (ldb_refs_update (update_rows (\<lambda>r. lrr_RefName r = key_RefName ?key \<and> lrr_CommitID r = msr_LocalSnapshotID s
            \<and> lrr_SourceSHA r = key_SourceSHA ?key \<and> lrr_Version r = cref_Version ?ref) (set_ref (commit_ID ?c) (commit_SourceSHA ?c))) d3)))
       = Inr (db', v')"
    by (auto simp: finalize_merge_def Let_def tx_bind_Inr requireWorkingSet_Inr simp del: One_nat_def)
  let ?P = "\<lambda>r. lrr_RefName r = key_RefName ?key \<and> lrr_CommitID r = msr_LocalSnapshotID s
      \<and> lrr_SourceSHA r = key_SourceSHA ?key \<and> lrr_Version r = cref_Version ?ref"
  define d4 where "d4 = ldb_refs_update (update_rows ?P (set_ref (commit_ID ?c) (commit_SourceSHA ?c))) d3"
  have rec: "recorded ?c (fmi_ParentIDs input) (fmi_Notes input) db d3" by (rule recorded_run [OF assms(1) run])
  then have d3: "d3 = db\<lparr>ldb_commits := ldb_commits db @ [commit_row ?c], ldb_parents := ldb_parents d3,
         ldb_notes := ldb_notes db @ map (note_row (commit_ID ?c)) (fmi_Notes input)\<rparr>" by (simp add: recorded_def)
  have same: "ldb_refs d3 = ldb_refs db" "ldb_pending d3 = ldb_pending db" "ldb_working_sets d3 = ldb_working_sets db"
    "ldb_merge_sessions d3 = ldb_merge_sessions db"
    by (subst d3, simp)+
  have "moves_ref (key_RefName ?key) (commit_ID ?c) (commit_SourceSHA ?c) d3 d4"
    unfolding d4_def
  proof (rule moves_ref_update)
    show "?P r" if "take_row (\<lambda>r. lrr_RefName r = key_RefName ?key) (ldb_refs d3) = Some r" for r
      using that ref take_row_Some [OF that] by (simp add: same currentContextRef_def)
  qed (use rows_affected_pos [OF moved] in auto)
  note ref_moved = d4_def this
  have pend: "d4 = ldb_pending_update (filter (\<lambda>p. nr_Owner p \<noteq> key_WorktreeID ?key)) d4"
    using no_pending_filter [OF pending] same(2) by (intro same_pending) (simp add: d4_def)
  have base: "ldb_working_sets_update (update_rows ?same (set_base (commit_ID ?c))) d4
      = ldb_working_sets_update (update_rows (\<lambda>w. ws_WorktreeID w = key_WorktreeID ?key) (set_base (commit_ID ?c))) d4"
    using working_set_condition [OF assms(1) key] same(3) by (intro same_working_sets) (simp add: d4_def)
  have sessions: "ldb_merge_sessions_update ?committed d = ldb_merge_sessions_update ?committed (ldb_landing_sessions_update (\<lambda>x. x) d)" for d
    by (cases d) simp
  note search = rebuildSearch_run [OF search [folded d4_def]]
  have "records_commit ?key ?c (fmi_ParentIDs input) (fmi_Notes input) db db'"
    by (rule records_commit_run [OF rec ref_moved pend base sessions search])
  moreover have "ldb_merge_sessions db' = ?committed (ldb_merge_sessions db)"
  proof -
    from search have "ldb_merge_sessions db' = ?committed (ldb_merge_sessions d4)"
      unfolding same_but_search_def by (metis (no_types, lifting) local_db.select_convs(12) local_db.surjective local_db.update_convs)
    then show ?thesis by (simp add: d4_def same)
  qed
  ultimately show ?thesis using take_row_Some [OF s(1)] s(2,3) ref(1) by blast
qed

end
