(* ===== verification/Commit_Properties.thy ===== *)
theory Commit_Properties
  imports Local_Properties
begin

text \<open>
  What becomes visible when pending notes are committed, when a merge is finalized and when a ref is
  fast-forwarded, and which committed objects can be read again.
\<close>

subsection \<open>Committing\<close>

lemma samePendingSnapshot_found:
  assumes "samePendingSnapshot current expectedIDs snapshot" "p \<in> set current"
  shows "\<exists>n \<in> set snapshot. note_ID n \<in> set expectedIDs \<and> samePendingNote p n"
  using assms
  by (auto simp: samePendingSnapshot_def list_all_iff expected_notes_def dest!: bspec split: option.splits)
    (metis (mono_tags, lifting) expected_notes_def find_Some_iff mem_Collect_eq nth_mem set_filter)

text \<open>C6: FinalizeCommit is atomic and loses nothing.  When it fails the database is as before.  When
  it succeeds, either this very commit had been recorded already and the database is as before, or:
  the ID is new; the commit, its parent and exactly the given notes are recorded; the ref, which was
  at the expected parent, has moved to the commit with the next version while all other refs stay; every
  note that was pending in the worktree is among the recorded notes with the same content; the pending
  notes of this worktree, and of no other, are gone; its working set is based on the commit; and
  entities, coverage, remotes and candidates are unchanged.\<close>

theorem commit_recorded:
  assumes "local_inv db" "FinalizeCommit ord decode input db = (db', r)"
  shows "case r of Inl e \<Rightarrow> db' = db
    | Inr _ \<Rightarrow> db' = db \<and> commitWasFinalized input db
      \<or> records_commit (fin_Key input) (fin_Commit input) [commit_ParentID (fin_Commit input)] (fin_Notes input) db db'
        \<and> cref_CommitID (currentContextRef (key_RefName (fin_Key input)) db) = fin_ExpectedParent input
        \<and> (\<exists>pending. listPendingNotes decode (key_WorktreeID (fin_Key input)) db = Inr (db, pending)
             \<and> (\<forall>p \<in> set pending. \<exists>n \<in> set (fin_Notes input). samePendingNote p n))"
proof (cases "finalize_commit ord decode input db")
  case (Inl e)
  with assms(2) show ?thesis by (auto simp: FinalizeCommit_def transaction_def split: if_splits)
next
  case (Inr x)
  then obtain d u where d: "finalize_commit ord decode input db = Inr (d, u)" by (cases x) auto
  with assms(2) have "r = Inr ()" "d = db'" by (auto simp: FinalizeCommit_def transaction_def)
  with finalize_commit_run [OF assms(1) d] samePendingSnapshot_found show ?thesis by (auto; blast)
qed

subsection \<open>Merging\<close>

text \<open>A session that is committed is refused by every later run.\<close>

lemma committed_merge_refused:
  assumes "local_inv db" "s \<in> set (ldb_merge_sessions db)" "msr_SessionID s = fmi_SessionID input" "msr_State s = MergeSessionCommitted"
  shows "snd (FinalizeMerge ord decode input db) \<noteq> Inr u \<and> fst (FinalizeMerge ord decode input db) = db"
proof (cases "finalize_merge ord decode input db")
  case (Inl e)
  then show ?thesis by (simp add: FinalizeMerge_def transaction_def)
next
  case (Inr x)
  then obtain d v where "finalize_merge ord decode input db = Inr (d, v)" by (cases x) auto
  from finalize_merge_run [OF assms(1) this] obtain r where "r \<in> set (ldb_merge_sessions db)"
    "msr_SessionID r = fmi_SessionID input" "msr_State r = MergeSessionReady" by blast
  moreover have "table_ok msr_SessionID merge_state_ok (ldb_merge_sessions db)" using assms(1) by (simp add: local_inv_def)
  ultimately have "r = s" using table_ok_unique assms(2,3) by metis
  with \<open>msr_State r = MergeSessionReady\<close> assms(4) show ?thesis by (simp add: MergeSessionReady_def MergeSessionCommitted_def)
qed

text \<open>C10: A merge is recorded exactly once.  When FinalizeMerge succeeds, its session was ready and fits
  the commit, the ref was at the local snapshot of the session, and the commit is recorded with both
  parents and the given notes, the ref moved to the next version and the working set rebased.  After
  any further operations of the store, every attempt to finalize the same session fails and
  changes nothing.\<close>

theorem merge_recorded_once:
  assumes "local_inv db" "FinalizeMerge ord decode input db = (db', Inr u)" "(local_step env)\<^sup>*\<^sup>* db' db''"
    "fmi_SessionID again = fmi_SessionID input"
  shows "records_commit (fmi_Key input) (fmi_Commit input) (fmi_ParentIDs input) (fmi_Notes input) db db'
    \<and> (\<exists>s. s \<in> set (ldb_merge_sessions db) \<and> msr_SessionID s = fmi_SessionID input \<and> msr_State s = MergeSessionReady
         \<and> merge_matches input s \<and> cref_CommitID (currentContextRef (key_RefName (fmi_Key input)) db) = msr_LocalSnapshotID s)
    \<and> (\<exists>e. FinalizeMerge ord' decode' again db'' = (db'', Inl e))"
proof -
  from assms(2) have run: "finalize_merge ord decode input db = Inr (db', u)"
    by (auto simp: FinalizeMerge_def transaction_Inr split: if_splits)
  note done_ = finalize_merge_run [OF assms(1) run]
  then obtain s where s: "s \<in> set (ldb_merge_sessions db)" "msr_SessionID s = fmi_SessionID input" "msr_State s = MergeSessionReady"
    by blast
  let ?s = "set_session_state MergeSessionCommitted s"
  have "?s \<in> set (ldb_merge_sessions db')" using done_ s by (auto simp: update_rows_def)
  have inv': "local_inv db'"
    using local_keeps_inv [OF _ assms(1), of db'] keeps_FinalizeMerge [of db ord decode input] assms(2) by simp
  from keeps_local_steps [OF assms(3)] inv' have later: "local_inv db''" "local_evolves db' db''" by (auto simp: local_keeps_def)
  from later(2) have "keeps_rows session_step (ldb_merge_sessions db') (ldb_merge_sessions db'')" by (simp add: local_evolves_def)
  with \<open>?s \<in> set (ldb_merge_sessions db')\<close> obtain s'' where "s'' \<in> set (ldb_merge_sessions db'')" "session_step ?s s''"
    by (auto simp: keeps_rows_def)
  then have "s'' \<in> set (ldb_merge_sessions db'')" "msr_SessionID s'' = fmi_SessionID again" "msr_State s'' = MergeSessionCommitted"
    using s(2) assms(4) by (auto simp: session_step_def set_session_state_def)
  from committed_merge_refused [OF later(1) this, of ord' decode']
  have "\<exists>e. FinalizeMerge ord' decode' again db'' = (db'', Inl e)"
    by (cases "FinalizeMerge ord' decode' again db''"; cases "snd (FinalizeMerge ord' decode' again db'')") auto
  with done_ show ?thesis by blast
qed

subsection \<open>Fast-forwarding\<close>

text \<open>Materialising an ancestry adds its commits and touches no other table.\<close>

definition same_outside_history :: "local_db \<Rightarrow> local_db \<Rightarrow> bool" where
  "same_outside_history db db' \<longleftrightarrow>
     db' = db\<lparr>ldb_commits := ldb_commits db', ldb_parents := ldb_parents db', ldb_notes := ldb_notes db'\<rparr>"

lemma same_outside_history_trans: "same_outside_history a b \<Longrightarrow> same_outside_history b c \<Longrightarrow> same_outside_history a c"
  unfolding same_outside_history_def by (cases a; cases b; cases c) simp

interpretation history_only: store_relation same_outside_history
  by unfold_locales (simp add: same_outside_history_def, rule same_outside_history_trans)

lemma history_writes [simp]:
  "same_outside_history db (ldb_commits_update f db)" "same_outside_history db (ldb_parents_update g db)"
  "same_outside_history db (ldb_notes_update h db)"
  by (simp_all add: same_outside_history_def)

lemma insert_parents_history: "maintains same_outside_history (insert_parents_from i c ps) db"
  by (induction ps arbitrary: i db) (auto simp: maintains_write intro!: history_only.maintains_bind)

lemma materialize_history: "maintains same_outside_history (materialize_object item) db"
  unfolding materialize_object_def insertContextCommitParents_def
  by (intro history_only.maintains_bind history_only.maintains_each insert_parents_history) (simp_all add: maintains_write)

lemma chain_history: "insertContextChain chain db = Inr (db', u) \<Longrightarrow> same_outside_history db db'"
  using history_only.maintains_each [of chain materialize_object db] materialize_history
  by (auto simp: insertContextChain_def maintains_def)

lemma materialize_commits: "materialize_object item db = Inr (db', u) \<Longrightarrow> commit_ids db' = insert (sco_ID item) (commit_ids db)"
proof -
  have parents: "commit_ids d' = commit_ids d" if "insert_parents_from i c ps d = Inr (d', v)" for i c ps d d' v
    using that by (induction ps arbitrary: i d) (auto simp: tx_bind_Inr commit_ids_def split: if_splits)
  have noted: "commit_ids d' = commit_ids d" if "tx_each (\<lambda>n. tx_insert_ignore ldb_notes_update
     (\<lambda>r. nr_Owner r = c \<and> nr_NoteID r = note_ID n) (note_row c n)) ns d = Inr (d', v)" for c ns d d' v
    using that by (induction ns arbitrary: d) (auto simp: tx_bind_Inr)
  have ignored: "commit_ids (ldb_commits_update (ignore_rows (\<lambda>r. cmr_CommitID r = sco_ID item) (commit_row (object_commit item))) db)
      = insert (sco_ID item) (commit_ids db)"
    by (cases "sco_ID item \<in> commit_ids db")
      (auto simp: commit_ids_def set_ignore_rows list_ex_iff object_commit_def Let_def commit_row_def image_iff)
  show "materialize_object item db = Inr (db', u) \<Longrightarrow> ?thesis"
    by (auto simp: materialize_object_def tx_bind_Inr insertContextCommitParents_def ignored dest!: parents noted)
qed

lemma chain_commits: "insertContextChain chain db = Inr (db', u) \<Longrightarrow> commit_ids db' = graph_ids chain \<union> commit_ids db"
  unfolding insertContextChain_def
proof (induction chain arbitrary: db)
  case (Cons item chain)
  from Cons.prems obtain d v where d: "materialize_object item db = Inr (d, v)" "tx_each materialize_object chain d = Inr (db', u)"
    by (auto simp: tx_bind_Inr)
  from Cons.IH [OF d(2)] materialize_commits [OF d(1)] show ?case by simp
qed simp

abbreviation stored_loader :: "object_env \<Rightarrow> object_dir \<Rightarrow> WorkingSetKey \<Rightarrow> loader" where
  "stored_loader env dir key \<equiv> load_object (oe_blake3 env) (oe_decode env) (key_RepositoryID key) (key_RefName key) (read_object_file dir)"

lemma stored_graph_ids:
  assumes "stored_graph env dir key c = Inr chain"
  shows "\<exists>tip. normalizeObjectID c = Inr tip \<and> graph_ids chain = {a. ancestor_or_self (stored_loader env dir key) tip a}"
proof -
  from assms have load: "loadObjectGraphFrom (oe_blake3 env) (oe_decode env) (oe_fuel env) c (key_RepositoryID key) (key_RefName key)
      (read_object_file dir) = Some (Inr chain)"
    by (auto simp: stored_graph_def loadObjectGraph_def split: option.splits)
  show ?thesis by (rule load_success [OF load]) blast
qed

text \<open>What a fast-forward and the preparation of a landing recovery do to the database.\<close>

definition forwards :: "FastForwardInput \<Rightarrow> string set \<Rightarrow> local_db \<Rightarrow> local_db \<Rightarrow> bool" where
  "forwards input ancestors db db' \<longleftrightarrow> (let key = ff_Key input in
     currentContextRef (key_RefName key) db = ff_Expected input
     \<and> moves_ref (key_RefName key) (cref_CommitID (ff_Next input)) (cref_SourceSHA (ff_Next input)) db db'
     \<and> commit_ids db' = ancestors \<union> commit_ids db
     \<and> pending_count (key_WorktreeID key) db = 0 \<and> ldb_pending db' = ldb_pending db
     \<and> ldb_working_sets db' = update_rows (\<lambda>w. ws_WorktreeID w = key_WorktreeID key) (set_base (cref_CommitID (ff_Next input)))
          (ldb_working_sets db)
     \<and> ldb_entities db' = ldb_entities db \<and> ldb_coverage db' = ldb_coverage db \<and> ldb_merge_sessions db' = ldb_merge_sessions db
     \<and> ldb_landing_sessions db' = ldb_landing_sessions db \<and> ldb_candidate_notes db' = ldb_candidate_notes db)"

lemma fast_forward_run:
  assumes "local_inv db" "fast_forward ord decode input chain db = Inr (db', u)"
  shows "forwards input (graph_ids chain) db db'"
proof -
  let ?key = "ff_Key input" and ?ref = "key_RefName (ff_Key input)" and ?next = "ff_Next input"
  let ?same = "\<lambda>w. ws_WorktreeID w = key_WorktreeID ?key \<and> ws_RefName w = key_RefName ?key \<and> ws_SourceSHA w = key_SourceSHA ?key"
  have ref: "cref_CommitID (currentContextRef r db) = fst (local_ref r db)" "cref_Version (currentContextRef r db) = snd (local_ref r db)" for r
    by (auto simp: currentContextRef_def local_ref_def split: option.split)
  from assms(2) obtain d1 u1 d2 u2 v where key: "in_working_set ?key db" and actual: "currentContextRef ?ref db = ff_Expected input"
    and pending: "pending_count (key_WorktreeID ?key) db = 0" and chain: "insertContextChain chain db = Inr (d1, u1)"
    and moved: "advance_ref ?ref (fst (local_ref ?ref db)) (snd (local_ref ?ref db)) (cref_CommitID ?next) (cref_SourceSHA ?next) d1 = Inr (d2, u2)"
    and search: "rebuildSearch ord decode ?key (ldb_working_sets_update (update_rows ?same (set_base (cref_CommitID ?next))) d2) = Inr (db', v)"
    by (auto simp: fast_forward_def Let_def tx_bind_Inr requireWorkingSet_Inr ref simp del: One_nat_def)
  from chain_history [OF chain] have d1: "d1 = db\<lparr>ldb_commits := ldb_commits d1, ldb_parents := ldb_parents d1, ldb_notes := ldb_notes d1\<rparr>"
    by (simp add: same_outside_history_def)
  have "ldb_refs d1 = ldb_refs db" by (subst d1) simp
  from advance_ref_run [OF moved this] obtain f where d2: "d2 = ldb_refs_update f d1"
    and moves: "moves_ref ?ref (cref_CommitID ?next) (cref_SourceSHA ?next) d1 d2" by blast
  from rebuildSearch_run [OF search] have db': "db' = (ldb_working_sets_update (update_rows ?same (set_base (cref_CommitID ?next))) d2)
      \<lparr>ldb_search := ldb_search db', ldb_parents := ldb_parents db'\<rparr>" by (simp add: same_but_search_def)
  have "ldb_refs db' = ldb_refs d2" "ldb_commits db' = ldb_commits d1" by (subst db', simp add: d2)+
  then have "moves_ref ?ref (cref_CommitID ?next) (cref_SourceSHA ?next) db db'" "commit_ids db' = graph_ids chain \<union> commit_ids db"
    using moves \<open>ldb_refs d1 = ldb_refs db\<close> chain_commits [OF chain] by (simp_all add: moves_ref_def currentContextRef_def commit_ids_def)
  moreover have "ldb_working_sets db' = update_rows ?same (set_base (cref_CommitID ?next)) (ldb_working_sets d1)"
    "ldb_pending db' = ldb_pending d1" "ldb_entities db' = ldb_entities d1" "ldb_coverage db' = ldb_coverage d1"
    "ldb_merge_sessions db' = ldb_merge_sessions d1" "ldb_landing_sessions db' = ldb_landing_sessions d1"
    "ldb_candidate_notes db' = ldb_candidate_notes d1" by (subst db', simp add: d2)+
  moreover have "ldb_working_sets d1 = ldb_working_sets db"
    "ldb_pending d1 = ldb_pending db" "ldb_entities d1 = ldb_entities db" "ldb_coverage d1 = ldb_coverage db"
    "ldb_merge_sessions d1 = ldb_merge_sessions db" "ldb_landing_sessions d1 = ldb_landing_sessions db"
    "ldb_candidate_notes d1 = ldb_candidate_notes db" by (subst d1, simp)+
  ultimately show ?thesis
    using actual pending working_set_condition [OF assms(1) key] by (simp add: forwards_def)
qed

lemma forward_success:
  assumes "local_inv db" "stored_graph env dir (ff_Key input) (cref_CommitID (ff_Next input)) = Inr chain"
    "in_chain (cref_CommitID (ff_Expected input)) chain" "fast_forward ord decode input chain db = Inr (db', u)"
  shows "\<exists>tip. normalizeObjectID (cref_CommitID (ff_Next input)) = Inr tip
    \<and> forwards input {a. ancestor_or_self (stored_loader env dir (ff_Key input)) tip a} db db'
    \<and> (cref_CommitID (ff_Expected input) = []
       \<or> ancestor_or_self (stored_loader env dir (ff_Key input)) tip (cref_CommitID (ff_Expected input)))"
proof -
  from stored_graph_ids [OF assms(2)] obtain tip where tip: "normalizeObjectID (cref_CommitID (ff_Next input)) = Inr tip"
    "graph_ids chain = {a. ancestor_or_self (stored_loader env dir (ff_Key input)) tip a}" by blast
  from assms(3) have "cref_CommitID (ff_Expected input) = [] \<or> cref_CommitID (ff_Expected input) \<in> graph_ids chain"
    by (auto simp: in_chain_def list_ex_iff graph_ids_def image_iff) (metis)
  with fast_forward_run [OF assms(1,4)] tip show ?thesis by auto
qed

text \<open>C7: FastForward and PrepareLandingRecovery never leave history behind.  When one of them succeeds, the
  ref was the expected one and, unless it named no commit, its commit is an ancestor of the new tip; the
  ref moves to the tip with the next version and the others stay; exactly the ancestors of the tip are
  recorded in addition; there were no pending notes in the worktree; its working set is based on
  the tip; and entities, coverage, sessions and candidate notes are unchanged.\<close>

theorem fast_forward_keeps_history:
  assumes "local_inv db"
    "FastForward ord decode (stored_graph env dir (ff_Key input)) input db = (db', Inr u)
     \<or> PrepareLandingRecovery ord decode (stored_graph env dir (ff_Key input)) input db = (db', Inr u)"
  shows "\<exists>tip. normalizeObjectID (cref_CommitID (ff_Next input)) = Inr tip
    \<and> forwards input {a. ancestor_or_self (stored_loader env dir (ff_Key input)) tip a} db db'
    \<and> (cref_CommitID (ff_Expected input) = []
       \<or> ancestor_or_self (stored_loader env dir (ff_Key input)) tip (cref_CommitID (ff_Expected input)))"
proof -
  from assms(2) obtain chain where chain: "stored_graph env dir (ff_Key input) (cref_CommitID (ff_Next input)) = Inr chain"
    and member: "in_chain (cref_CommitID (ff_Expected input)) chain"
    and run: "fast_forward ord decode input chain db = Inr (db', u)"
    by (auto simp: FastForward_def PrepareLandingRecovery_def Let_def transaction_Inr split: if_splits sum.splits)
  show ?thesis by (rule forward_success [OF assms(1) chain member run])
qed

end
