(* ===== verification/Sync_Properties.thy ===== *)
theory Sync_Properties
  imports Remote_Sync Commit_Properties
begin

text \<open>
  What push, fetch and pull guarantee: a push only adds objects and only fast-forwards the remote ref; what
  was pushed is fetched unchanged by every other clone; a pull only fast-forwards the local ref.
\<close>

subsection \<open>Publishing through a transport\<close>

text \<open>What can be read from the remote can still be read.\<close>

definition keeps_objects :: "'s transport \<Rightarrow> 's \<Rightarrow> 's \<Rightarrow> bool" where
  "keeps_objects t s s' \<longleftrightarrow> (\<forall>x c. tr_ReadObject t x s = Inr c \<longrightarrow> tr_ReadObject t x s' = Inr c)"

text \<open>What a push does to the remote: it publishes the chain and then swaps the ref.\<close>

definition pushes :: "'s transport \<Rightarrow> (Ref \<Rightarrow> bool) \<Rightarrow> object_env \<Rightarrow> object_dir \<Rightarrow> WorkingSetKey \<Rightarrow> ContextRef \<Rightarrow> Ref \<Rightarrow> 's \<Rightarrow> 's \<Rightarrow> bool" where
  "pushes t stored env dir key local remoteRef s s' \<longleftrightarrow> tr_ReadRef t (key_RefName key) s = Inr remoteRef
     \<and> (\<exists>graph. stored_graph env dir key (cref_CommitID local) = Inr graph
          \<and> (ref_CommitID remoteRef = [] \<or> ref_CommitID remoteRef \<in> graph_ids graph)
          \<and> (\<forall>item \<in> set graph. tr_ReadObject t (sco_ID item) s' = Inr (sco_Contents item)))
     \<and> (stored (pushed_ref key local remoteRef) \<longrightarrow> tr_ReadRef t (key_RefName key) s' = Inr (pushed_ref key local remoteRef))"

lemma push_chain_graph:
  assumes "push_chain env dir key local remoteRef = Inr chain"
  shows "\<exists>graph. stored_graph env dir key (cref_CommitID local) = Inr graph \<and> chain = map object_record graph
    \<and> (ref_CommitID remoteRef = [] \<or> ref_CommitID remoteRef \<in> graph_ids graph)"
proof -
  obtain graph where graph: "stored_graph env dir key (cref_CommitID local) = Inr graph"
    using assms by (auto simp: push_chain_def)
  have "ref_CommitID remoteRef \<in> graph_ids graph" if "findObject (map object_record graph) (ref_CommitID remoteRef) = Some obj" for obj
    using that by (auto simp: findObject_def find_Some_iff graph_ids_def object_record_def image_iff intro!: bexI [OF _ nth_mem])
  with assms graph show ?thesis
    by (auto simp: push_chain_def Let_def split: if_splits option.splits)
qed

text \<open>Recording what a remote has changes the tracking refs only.\<close>

definition only_tracking :: "local_db \<Rightarrow> local_db \<Rightarrow> bool" where
  "only_tracking db db' \<longleftrightarrow> db' = db\<lparr>ldb_remote_refs := ldb_remote_refs db'\<rparr>"

lemma only_tracking_refl [simp]: "only_tracking db db"
  by (simp add: only_tracking_def)

lemma record_tracking: "RecordRemoteRef ref db = (db', r) \<Longrightarrow> only_tracking db db'"
  by (auto simp: RecordRemoteRef_def only_tracking_def Let_def transaction_def tx_bind_Inr
      split: sum.splits if_splits prod.splits)

lemma read_ContextRef_same: "read_ContextRef key db = Inr (db', local) \<Longrightarrow> db' = db"
  by (auto simp: read_ContextRef_def tx_bind_Inr requireWorkingSet_Inr)

text \<open>\<open>Dial\<close> opens this transport whenever it succeeds.\<close>

definition dials :: "'s sync_run \<Rightarrow> 's transport \<Rightarrow> bool" where
  "dials run t \<longleftrightarrow> (\<forall>path u. sy_dial run path = Inr u \<longrightarrow> u = t)"

lemma dialsD: "dials run t \<Longrightarrow> sy_dial run path = Inr u \<Longrightarrow> u = t"
  by (simp add: dials_def)

lemma push_start_run:
  assumes "push_start run name db s = Inr (key, local, remoteName, t, remoteRef)"
  shows "sy_key run = Inr key \<and> read_ContextRef key db = Inr (db, local) \<and> (\<exists>path. sy_dial run path = Inr t)
    \<and> tr_ReadRef t (key_RefName key) s = Inr remoteRef"
proof -
  from assms obtain db1 where "read_ContextRef key db = Inr (db1, local)" and rest: "sy_key run = Inr key"
    "\<exists>path. sy_dial run path = Inr t" "tr_ReadRef t (key_RefName key) s = Inr remoteRef"
    by (auto simp: push_start_def split: if_splits)
  with read_ContextRef_same show ?thesis by fastforce
qed

context object_transport begin

lemma keeps_objects_trans: "keeps_objects t a b \<Longrightarrow> keeps_objects t b c \<Longrightarrow> keeps_objects t a c"
  by (simp add: keeps_objects_def)

lemma publish_chain_run:
  "publish_chain t i n objs s = (s', r) \<Longrightarrow> keeps_objects t s s' \<and> tr_ReadRef t refName s' = tr_ReadRef t refName s
     \<and> (\<forall>k. r = Inr k \<longrightarrow> (\<forall>obj \<in> set objs. tr_ReadObject t (orec_ID obj) s' = Inr (orec_Contents obj)))"
proof (induction objs arbitrary: i n s)
  case Nil
  then show ?case by (simp add: keeps_objects_def)
next
  case (Cons obj objs)
  obtain s1 r1 where p: "tr_PublishObject t i (orec_ID obj) (orec_Contents obj) s = (s1, r1)" by fastforce
  have kept: "keeps_objects t s s1" using publish_keeps [where i = i and oid = "orec_ID obj" and contents = "orec_Contents obj" and s = s]
    by (simp add: keeps_objects_def p)
  have ref: "tr_ReadRef t refName s1 = tr_ReadRef t refName s"
    using publish_refs [of refName i "orec_ID obj" "orec_Contents obj" s] by (simp add: p)
  show ?case
  proof (cases r1)
    case (Inl e)
    with Cons.prems p kept ref show ?thesis by auto
  next
    case (Inr created)
    with Cons.prems p have "publish_chain t (i + 1) (if created then n + 1 else n) objs s1 = (s', r)" by simp
    from Cons.IH [OF this] have rest: "keeps_objects t s1 s'" "tr_ReadRef t refName s' = tr_ReadRef t refName s1"
      "r = Inr k \<Longrightarrow> obj' \<in> set objs \<Longrightarrow> tr_ReadObject t (orec_ID obj') s' = Inr (orec_Contents obj')" for k obj'
      by blast+
    moreover have "tr_ReadObject t (orec_ID obj) s' = Inr (orec_Contents obj)"
      using publish_readable [OF p [unfolded Inr]] rest(1) by (simp add: keeps_objects_def)
    ultimately show ?thesis using keeps_objects_trans [OF kept] ref by auto
  qed
qed

lemma push_objects_run:
  assumes "push_objects env dir key local t remoteRef s = (s', r)"
  shows "keeps_objects t s s'
    \<and> (tr_ReadRef t (key_RefName key) s' = tr_ReadRef t (key_RefName key) s \<or> pushes t stored env dir key local remoteRef s s')
    \<and> (\<forall>confirmed k. r = Inr (confirmed, k) \<longrightarrow> confirmed = pushed_ref key local remoteRef \<and> pushes t stored env dir key local remoteRef s s')"
proof (cases "push_chain env dir key local remoteRef")
  case (Inl e)
  with assms show ?thesis by (auto simp: push_objects_def keeps_objects_def)
next
  case chain: (Inr chain)
  obtain s1 r1 where p: "publish_chain t 0 0 chain s = (s1, r1)" by fastforce
  note published = publish_chain_run [OF p, of "key_RefName key"]
  show ?thesis
  proof (cases r1)
    case (Inl e)
    with assms chain p published show ?thesis by (auto simp: push_objects_def)
  next
    case (Inr k)
    obtain s2 r2 where w: "tr_CompareAndSwapRef t (key_RefName key) remoteRef (pushed_ref key local remoteRef) s1 = (s2, r2)" by fastforce
    with assms chain p Inr have s': "s' = s2" and r: "r = and_then r2 (\<lambda>confirmed. Inr (confirmed, k))"
      by (cases r2; simp add: push_objects_def)+
    have objects: "tr_ReadObject t x s2 = tr_ReadObject t x s1" for x
      using swap_objects [of x "key_RefName key" remoteRef "pushed_ref key local remoteRef" s1] by (simp add: w)
    have kept: "keeps_objects t s s'" using published by (simp add: keeps_objects_def s' objects)
    from push_chain_graph [OF chain] obtain graph where graph: "stored_graph env dir key (cref_CommitID local) = Inr graph"
      "ref_CommitID remoteRef = [] \<or> ref_CommitID remoteRef \<in> graph_ids graph" "chain = map object_record graph" by blast
    have items: "tr_ReadObject t (sco_ID item) s' = Inr (sco_Contents item)" if "item \<in> set graph" for item
    proof -
      have "object_record item \<in> set chain" using that graph(3) by simp
      with published Inr show ?thesis by (fastforce simp: s' objects object_record_def)
    qed
    have moved: "pushes t stored env dir key local remoteRef s s'"
      if "tr_ReadRef t (key_RefName key) s1 = Inr remoteRef"
        "stored (pushed_ref key local remoteRef) \<longrightarrow> tr_ReadRef t (key_RefName key) s2 = Inr (pushed_ref key local remoteRef)"
      using that published graph items by (auto simp: pushes_def s')
    show ?thesis
    proof (cases r2)
      case (Inl e)
      with swap_failed [OF w [unfolded Inl]] moved kept published show ?thesis by (auto simp: s' r)
    next
      case (Inr c)
      with swap_done [OF w [unfolded Inr]] moved kept show ?thesis by (auto simp: s' r)
    qed
  qed
qed

text \<open>The whole push.\<close>

lemma push_remote_run:
  assumes run: "PushRemote env run name ((db, dir), s) = (((db', dir'), s'), r)"
    and dial: "dials run t" and key: "sy_key run = Inr key"
  shows "dir' = dir \<and> only_tracking db db' \<and> keeps_objects t s s'
    \<and> (tr_ReadRef t (key_RefName key) s' = tr_ReadRef t (key_RefName key) s
       \<or> (\<exists>local remoteRef. read_ContextRef key db = Inr (db, local) \<and> pushes t stored env dir key local remoteRef s s'))
    \<and> (\<forall>result. r = Inr result \<longrightarrow> (\<exists>local remoteRef. read_ContextRef key db = Inr (db, local)
         \<and> rsr_LocalTip result = cref_CommitID local
         \<and> (if rsr_Outcome result = ''pushed'' then pushes t stored env dir key local remoteRef s s'
            else s' = s \<and> tr_ReadRef t (key_RefName key) s = Inr remoteRef \<and> ref_CommitID remoteRef = cref_CommitID local)))"
proof (cases "push_start run name db s")
  case (Inl e)
  with run show ?thesis by (auto simp: PushRemote_def keeps_objects_def)
next
  case (Inr start)
  then obtain key1 local remoteName t1 remoteRef where "push_start run name db s = Inr (key1, local, remoteName, t1, remoteRef)"
    by (cases start) auto
  with push_start_run [OF this] key dialsD [OF dial] have start: "push_start run name db s = Inr (key, local, remoteName, t, remoteRef)"
    and local: "read_ContextRef key db = Inr (db, local)" and ref: "tr_ReadRef t (key_RefName key) s = Inr remoteRef"
    by auto
  show ?thesis
  proof (cases "ref_CommitID remoteRef = cref_CommitID local")
    case True
    with run start ref local show ?thesis
      by (auto simp: PushRemote_def keeps_objects_def record_push_def push_result_def
          split: if_splits prod.splits sum.splits dest: record_tracking)
  next
    case False
    obtain s1 r1 where p: "push_objects env dir key local t remoteRef s = (s1, r1)" by fastforce
    note pushed = push_objects_run [OF p]
    show ?thesis
    proof (cases r1)
      case (Inl e)
      with run start False p pushed local show ?thesis by (auto simp: PushRemote_def)
    next
      case (Inr c)
      with run start False p pushed local show ?thesis
        by (auto simp: PushRemote_def record_push_def push_result_def split: prod.splits sum.splits dest: record_tracking)
    qed
  qed
qed

end

subsection \<open>Pushing\<close>

text \<open>C13: Push, whatever fails, removes or changes no object of the shared directory and does not touch the local
  objects, commits, notes and refs.  The remote ref stays as it was, or it is moved, and then: it named
  no commit or one of the ancestry of the local commit, every object of this ancestry can be read from the
  directory, and the ref names the local commit with the next version.  A push that reports success
  has moved the ref, or found it at the local commit.\<close>

theorem push_fast_forwards:
  assumes "PushRemote env run name ((db, dir), files) = (((db', dir'), files'), r)"
    and "dials run (filesystem renv frun)" and "sy_key run = Inr key"
  shows "dir' = dir \<and> only_tracking db db' \<and> keeps_objects (filesystem renv frun) files files'
    \<and> (fs_ReadRef renv (key_RefName key) files' = fs_ReadRef renv (key_RefName key) files
       \<or> (\<exists>local remoteRef. read_ContextRef key db = Inr (db, local)
            \<and> pushes (filesystem renv frun) (ref_stored renv) env dir key local remoteRef files files'))
    \<and> (\<forall>result. r = Inr result \<longrightarrow> (\<exists>local remoteRef. read_ContextRef key db = Inr (db, local)
         \<and> rsr_LocalTip result = cref_CommitID local
         \<and> (if rsr_Outcome result = ''pushed''
            then pushes (filesystem renv frun) (ref_stored renv) env dir key local remoteRef files files'
            else files' = files \<and> fs_ReadRef renv (key_RefName key) files = Inr remoteRef
              \<and> ref_CommitID remoteRef = cref_CommitID local)))"
  by (rule shared_directory.push_remote_run [OF assms(1,2,3), unfolded filesystem_sel])

subsection \<open>Fetching\<close>

lemma stored_graph_load:
  assumes "stored_graph env dir key c = Inr graph"
  shows "loadObjectGraphFrom (oe_blake3 env) (oe_decode env) (oe_fuel env) c (key_RepositoryID key) (key_RefName key)
    (read_object_file dir) = Some (Inr graph)"
  using assms by (auto simp: stored_graph_def loadObjectGraph_def split: option.splits)

lemma stored_import_run:
  assumes "stored_import env faults key c reader dir = (dir', r)"
  shows "dir \<subseteq>\<^sub>m dir' \<and> (\<forall>imported. r = Inr imported \<longrightarrow> (\<exists>graph.
    loadObjectGraphFrom (oe_blake3 env) (oe_decode env) (oe_fuel env) c (key_RepositoryID key) (key_RefName key) reader = Some (Inr graph)
    \<and> stored_graph env dir' key c = Inr graph \<and> chain_Count imported = length graph))"
proof (cases "ImportObjectChain (oe_blake3 env) (oe_decode env) (oe_fuel env) faults c (key_RepositoryID key) (key_RefName key) (Some reader) dir")
  case None
  with assms show ?thesis by (auto simp: stored_import_def)
next
  case (Some p)
  with assms have i: "ImportObjectChain (oe_blake3 env) (oe_decode env) (oe_fuel env) faults c (key_RepositoryID key)
      (key_RefName key) (Some reader) dir = Some (dir', r)" by (simp add: stored_import_def)
  have "\<exists>graph. loadObjectGraphFrom (oe_blake3 env) (oe_decode env) (oe_fuel env) c (key_RepositoryID key) (key_RefName key) reader
      = Some (Inr graph) \<and> stored_graph env dir' key c = Inr graph \<and> chain_Count imported = length graph" if "r = Inr imported" for imported
    by (rule import_success [OF i [unfolded that]]) (auto simp: stored_graph_def)
  with import_extends [OF i] show ?thesis by blast
qed

text \<open>What a fetch that reports success has done.\<close>

definition fetches :: "object_env \<Rightarrow> 's transport \<Rightarrow> WorkingSetKey \<Rightarrow> 's \<Rightarrow> object_dir \<Rightarrow> Ref \<Rightarrow> RemoteSyncResult \<times> fetchedRemote \<Rightarrow> bool" where
  "fetches env t key s dir' remoteRef = (\<lambda>(result, fetched). tr_ReadRef t (key_RefName key) s = Inr remoteRef
     \<and> rsr_RemoteTip result = ref_CommitID remoteRef \<and> rsr_LocalTip result = cref_CommitID (fetched_Local fetched)
     \<and> cref_CommitID (fetched_Remote fetched) = ref_CommitID remoteRef
     \<and> (ref_CommitID remoteRef \<noteq> [] \<longrightarrow> (\<exists>graph.
          loadObjectGraphFrom (oe_blake3 env) (oe_decode env) (oe_fuel env) (ref_CommitID remoteRef) (key_RepositoryID key)
            (key_RefName key) (\<lambda>oid. tr_ReadObject t oid s) = Some (Inr graph)
          \<and> stored_graph env dir' key (ref_CommitID remoteRef) = Inr graph \<and> rsr_TransferredObjects result = length graph)))"

lemma fetch_start_run:
  assumes "fetch_start run key name db s = Inr (remoteName, local, t, remoteRef)"
  shows "read_ContextRef key db = Inr (db, local) \<and> (\<exists>path. sy_dial run path = Inr t) \<and> tr_ReadRef t (key_RefName key) s = Inr remoteRef"
proof -
  from assms obtain db1 where "read_ContextRef key db = Inr (db1, local)" and
    "\<exists>path. sy_dial run path = Inr t" "tr_ReadRef t (key_RefName key) s = Inr remoteRef"
    by (auto simp: fetch_start_def)
  with read_ContextRef_same show ?thesis by fastforce
qed

lemma fetchRemote_run:
  assumes run: "fetchRemote env run key name (db, dir) s = ((db', dir'), r)"
    and dial: "dials run t"
  shows "dir \<subseteq>\<^sub>m dir' \<and> only_tracking db db'
    \<and> (\<forall>x. r = Inr x \<longrightarrow> read_ContextRef key db = Inr (db, fetched_Local (snd x)) \<and> (\<exists>remoteRef. fetches env t key s dir' remoteRef x))"
proof (cases "fetch_start run key name db s")
  case (Inl e)
  with run show ?thesis by (auto simp: fetchRemote_def)
next
  case (Inr start)
  then obtain remoteName local t1 remoteRef where "fetch_start run key name db s = Inr (remoteName, local, t1, remoteRef)"
    by (cases start) auto
  with fetch_start_run [OF this] dialsD [OF dial] have start: "fetch_start run key name db s = Inr (remoteName, local, t, remoteRef)"
    and local: "read_ContextRef key db = Inr (db, local)" and ref: "tr_ReadRef t (key_RefName key) s = Inr remoteRef"
    by auto
  show ?thesis
  proof (cases "ref_CommitID remoteRef = []")
    case True
    with run start local ref show ?thesis
      by (auto simp: fetchRemote_def Let_def fetches_def fetch_result_def local_of_ref_def empty_ref_def)
  next
    case False
    obtain d1 r1 where i: "stored_import env (sy_faults run) key (ref_CommitID remoteRef) (\<lambda>oid. tr_ReadObject t oid s) dir = (d1, r1)"
      by fastforce
    note imported = stored_import_run [OF i]
    from run start False i have d1: "dir' = d1"
      by (auto simp: fetchRemote_def Let_def split: sum.splits if_splits prod.splits)
    have ok: "only_tracking db db' \<and> (\<forall>x. r = Inr x \<longrightarrow> (\<exists>c. r1 = Inr c \<and> snd x = \<lparr>fetched_Local = local,
        fetched_Remote = local_of_ref (key_RefName key) remoteRef, fetched_Count = chain_Count c\<rparr>
        \<and> rsr_RemoteTip (fst x) = ref_CommitID remoteRef \<and> rsr_LocalTip (fst x) = cref_CommitID local
        \<and> rsr_TransferredObjects (fst x) = chain_Count c))"
      using run start False i
      by (auto simp: fetchRemote_def Let_def fetch_result_def split: sum.splits if_splits prod.splits dest: record_tracking)
    have "read_ContextRef key db = Inr (db, fetched_Local (snd x)) \<and> (\<exists>remoteRef. fetches env t key s dir' remoteRef x)" if x: "r = Inr x" for x
    proof -
      from ok x obtain c where c: "r1 = Inr c" "snd x = \<lparr>fetched_Local = local,
          fetched_Remote = local_of_ref (key_RefName key) remoteRef, fetched_Count = chain_Count c\<rparr>"
        "rsr_RemoteTip (fst x) = ref_CommitID remoteRef" "rsr_LocalTip (fst x) = cref_CommitID local"
        "rsr_TransferredObjects (fst x) = chain_Count c" by blast
      have "fetches env t key s dir' remoteRef x"
        using imported c ref unfolding fetches_def by (auto simp: split_beta d1 local_of_ref_def)
      with local c(2) show ?thesis by auto
    qed
    with ok imported d1 show ?thesis by blast
  qed
qed

text \<open>C14: What is pushed is fetched unchanged.  After a push that reports that it moved the ref, the ancestry of the
  pushed commit loads from the shared directory as it loads for the pusher.  A clone of the same
  repository and ref that then fetches successfully is told the pushed commit as the tip and can read
  its whole ancestry, object by object the pusher's, while its own objects are kept.\<close>

theorem push_then_fetch:
  assumes "PushRemote env run name ((db, dir), files) = (((db', dir'), files'), Inr result)" "rsr_Outcome result = ''pushed''"
    and "dials run (filesystem renv frun)" "sy_key run = Inr key"
    and "fs_ReadRef renv (key_RefName key) files = Inr before"
      "ref_stored renv (pushed_ref key (currentContextRef (key_RefName key) db) before)"
    and "dials run2 (filesystem renv frun2)" "sy_key run2 = Inr key2"
      "key_RepositoryID key2 = key_RepositoryID key" "key_RefName key2 = key_RefName key"
  shows "\<exists>graph. stored_graph env dir key (rsr_LocalTip result) = Inr graph
    \<and> loadObjectGraphFrom (oe_blake3 env) (oe_decode env) (oe_fuel env) (rsr_LocalTip result) (key_RepositoryID key) (key_RefName key)
        (\<lambda>oid. fs_ReadObject (re_blake3 renv) oid files') = Some (Inr graph)
    \<and> (\<forall>db2 dir2 db3 dir3 name2 result2. FetchRemote env run2 name2 (db2, dir2) files' = ((db3, dir3), Inr result2)
         \<longrightarrow> rsr_RemoteTip result2 = rsr_LocalTip result \<and> rsr_TransferredObjects result2 = length graph
           \<and> stored_graph env dir3 key2 (rsr_LocalTip result) = Inr graph \<and> dir2 \<subseteq>\<^sub>m dir3)"
proof -
  from shared_directory.push_remote_run [OF assms(1) assms(3) assms(4)] assms(2) obtain local remoteRef where
    local: "read_ContextRef key db = Inr (db, local)" "rsr_LocalTip result = cref_CommitID local"
    and pushed: "pushes (filesystem renv frun) (ref_stored renv) env dir key local remoteRef files files'"
    by auto
  from local(1) have current: "local = currentContextRef (key_RefName key) db"
    by (auto simp: read_ContextRef_def tx_bind_Inr requireWorkingSet_Inr)
  from pushed assms(5,6) have ref: "fs_ReadRef renv (key_RefName key) files' = Inr (pushed_ref key local before)"
    by (auto simp: pushes_def current)
  from pushed obtain graph where graph: "stored_graph env dir key (cref_CommitID local) = Inr graph"
    "\<forall>item \<in> set graph. fs_ReadObject (re_blake3 renv) (sco_ID item) files' = Inr (sco_Contents item)"
    by (auto simp: pushes_def)
  have load: "loadObjectGraphFrom (oe_blake3 env) (oe_decode env) (oe_fuel env) (cref_CommitID local) (key_RepositoryID key) (key_RefName key)
      (\<lambda>oid. fs_ReadObject (re_blake3 renv) oid files') = Some (Inr graph)"
    by (rule load_copied [OF stored_graph_load [OF graph(1)]]) (simp add: graph(2))
  have tip: "cref_CommitID local \<noteq> []" using assms(6) canonical_id_nonempty by (auto simp: current ref_stored_def pushed_ref_def)
  have "rsr_RemoteTip result2 = cref_CommitID local \<and> rsr_TransferredObjects result2 = length graph
      \<and> stored_graph env dir3 key2 (cref_CommitID local) = Inr graph \<and> dir2 \<subseteq>\<^sub>m dir3"
    if fetch: "FetchRemote env run2 name2 (db2, dir2) files' = ((db3, dir3), Inr result2)" for db2 dir2 db3 dir3 name2 result2
  proof -
    from fetch assms(8) obtain fetched where "fetchRemote env run2 key2 name2 (db2, dir2) files' = ((db3, dir3), Inr (result2, fetched))"
      by (auto simp: FetchRemote_def split: sum.splits prod.splits)
    from fetchRemote_run [OF this assms(7)] obtain ref2 where "dir2 \<subseteq>\<^sub>m dir3"
      "fetches env (filesystem renv frun2) key2 files' dir3 ref2 (result2, fetched)" by auto
    with ref load tip show ?thesis by (auto simp: fetches_def assms(9,10) pushed_ref_def)
  qed
  with graph(1) load local(2) show ?thesis by auto
qed

subsection \<open>Pulling\<close>

text \<open>What a pull does to the database of the clone.\<close>

definition pulls :: "object_env \<Rightarrow> object_dir \<Rightarrow> FastForwardInput \<Rightarrow> RemoteSyncResult \<Rightarrow> local_db \<Rightarrow> local_db \<Rightarrow> bool" where
  "pulls env dir input result db db' \<longleftrightarrow> cref_CommitID (ff_Next input) = rsr_RemoteTip result
     \<and> cref_CommitID (ff_Expected input) = rsr_LocalTip result \<and> cref_SourceSHA (ff_Next input) = key_SourceSHA (ff_Key input)
     \<and> (\<exists>d tip. only_tracking db d \<and> normalizeObjectID (rsr_RemoteTip result) = Inr tip
          \<and> forwards input {a. ancestor_or_self (stored_loader env dir (ff_Key input)) tip a} d db'
          \<and> (rsr_LocalTip result = [] \<or> ancestor_or_self (stored_loader env dir (ff_Key input)) tip (rsr_LocalTip result)))"

lemma pull_decision_run:
  assumes "pull_decision env dir run key fetched = Inr (Some input)"
  shows "ff_Key input = key \<and> ff_Expected input = fetched_Local fetched \<and> ff_Next input = fetched_Remote fetched
    \<and> cref_SourceSHA (fetched_Remote fetched) = key_SourceSHA key"
  using assms by (auto simp: pull_decision_def Let_def split: if_splits)

lemma FastForward_success:
  assumes "local_inv db" "FastForward ord decode (stored_graph env dir (ff_Key input)) input db = (db', Inr u)"
  shows "\<exists>tip. normalizeObjectID (cref_CommitID (ff_Next input)) = Inr tip
    \<and> forwards input {a. ancestor_or_self (stored_loader env dir (ff_Key input)) tip a} db db'
    \<and> (cref_CommitID (ff_Expected input) = []
       \<or> ancestor_or_self (stored_loader env dir (ff_Key input)) tip (cref_CommitID (ff_Expected input)))"
proof -
  from assms(2) obtain chain where "stored_graph env dir (ff_Key input) (cref_CommitID (ff_Next input)) = Inr chain"
    "in_chain (cref_CommitID (ff_Expected input)) chain" "fast_forward ord decode input chain db = Inr (db', u)"
    by (auto simp: FastForward_def Let_def transaction_Inr split: if_splits sum.splits)
  from forward_success [OF assms(1) this] show ?thesis .
qed

lemma FastForward_failure: "FastForward ord decode graph input db = (db', Inl e) \<Longrightarrow> db' = db"
  by (auto simp: FastForward_def Let_def transaction_Inl split: if_splits sum.splits)

lemma only_tracking_inv: "only_tracking db db' \<Longrightarrow> RecordRemoteRef ref db = (db', r) \<Longrightarrow> local_inv db \<Longrightarrow> local_inv db'"
  using keeps_RecordRemoteRef [of db ref] local_keeps_inv by simp

lemma fetchRemote_inv:
  assumes "local_inv db" "fetchRemote env run key name (db, dir) s = ((db', dir'), r)"
  shows "local_inv db'"
proof -
  have "db' = db \<or> (\<exists>ref r'. RecordRemoteRef ref db = (db', r'))"
    using assms(2) by (auto simp: fetchRemote_def Let_def split: sum.splits if_splits prod.splits)
  with assms(1) only_tracking_inv record_tracking show ?thesis by blast
qed

text \<open>A pull fails before or after its fetch, finds nothing to move, or fast-forwards.\<close>

lemma pull_run:
  assumes "PullRemote env ord decode run name (db, dir) s = ((db', dir'), r)" "sy_key run = Inr key"
  shows "((\<exists>e. r = Inl e) \<and> db' = db \<and> dir' = dir)
    \<or> (\<exists>db1 r1. listPendingNotes decode (key_WorktreeID key) db = Inr (db, [])
        \<and> fetchRemote env run key name (db, dir) s = ((db1, dir'), r1)
        \<and> ((\<exists>e. r = Inl e) \<and> db' = db1
           \<or> (\<exists>result tip. r1 = Inr (result, tip)
               \<and> (pull_decision env dir' run key tip = Inr None \<and> db' = db1 \<and> r = Inr (result\<lparr>rsr_Outcome := ''up_to_date''\<rparr>)
                  \<or> (\<exists>input. pull_decision env dir' run key tip = Inr (Some input) \<and> ff_Key input = key
                      \<and> FastForward ord decode (stored_graph env dir' (ff_Key input)) input db1 = (db', Inr ())
                      \<and> r = Inr (result\<lparr>rsr_Outcome := ''pulled''\<rparr>))))))"
proof (cases "pull_start decode run db")
  case (Inl e)
  with assms show ?thesis by (auto simp: PullRemote_def)
next
  case (Inr k)
  with assms(2) have start: "pull_start decode run db = Inr key" "\<exists>d. listPendingNotes decode (key_WorktreeID key) db = Inr (d, [])"
    by (auto simp: pull_start_def split: if_splits)
  with listPending_run have "listPendingNotes decode (key_WorktreeID key) db = Inr (db, [])" by blast
  with assms(1) start show ?thesis
    by (auto simp: PullRemote_def split: prod.splits sum.splits option.splits dest: FastForward_failure pull_decision_run)
qed

text \<open>C15: Pull never loses anything.  Local objects are kept, also by a pull that fails; then commits, notes, refs and
  pending notes are as before.  A pull that succeeds started without pending notes in the worktree.  It found
  the remote empty or at the local commit and moved nothing, or the remote's tip, bound to the source of
  the worktree, is now the local tip with the next version; the former local commit is one of its
  ancestors, all of which are recorded, and nothing else is.\<close>

theorem pull_fast_forwards:
  assumes "local_inv db" "PullRemote env ord decode run name (db, dir) s = ((db', dir'), r)" "dials run t" "sy_key run = Inr key"
  shows "dir \<subseteq>\<^sub>m dir' \<and> (case r of
      Inl e \<Rightarrow> only_tracking db db'
    | Inr result \<Rightarrow> listPendingNotes decode (key_WorktreeID key) db = Inr (db, [])
        \<and> (if rsr_Outcome result = ''up_to_date''
           then only_tracking db db' \<and> (rsr_RemoteTip result = [] \<or> rsr_RemoteTip result = rsr_LocalTip result)
           else rsr_Outcome result = ''pulled'' \<and> (\<exists>input. ff_Key input = key \<and> pulls env dir' input result db db')))"
  using pull_run [OF assms(2,4)]
proof (elim disjE exE conjE)
  fix db1 r1
  assume pending: "listPendingNotes decode (key_WorktreeID key) db = Inr (db, [])"
    and f: "fetchRemote env run key name (db, dir) s = ((db1, dir'), r1)"
  note fetched = fetchRemote_run [OF f assms(3)]
  show ?thesis if "r = Inl e" "db' = db1" for e using fetched that by simp
  fix result tip
  assume r1: "r1 = Inr (result, tip)"
  with fetched have tips: "rsr_RemoteTip result = cref_CommitID (fetched_Remote tip)"
    "rsr_LocalTip result = cref_CommitID (fetched_Local tip)" by (auto simp: fetches_def)
  show ?thesis if decision: "pull_decision env dir' run key tip = Inr None" and "db' = db1" "r = Inr (result\<lparr>rsr_Outcome := ''up_to_date''\<rparr>)"
  proof -
    have "cref_CommitID (fetched_Remote tip) = [] \<or> cref_CommitID (fetched_Remote tip) = cref_CommitID (fetched_Local tip)"
      using decision by (auto simp: pull_decision_def Let_def split: if_splits)
    with that fetched pending tips show ?thesis by auto
  qed
  show ?thesis if decision: "pull_decision env dir' run key tip = Inr (Some input)" and key: "ff_Key input = key"
    and forward: "FastForward ord decode (stored_graph env dir' (ff_Key input)) input db1 = (db', Inr ())"
    and r: "r = Inr (result\<lparr>rsr_Outcome := ''pulled''\<rparr>)" for input
  proof -
    from FastForward_success [OF fetchRemote_inv [OF assms(1) f] forward] fetched pull_decision_run [OF decision] tips
    have "pulls env dir' input (result\<lparr>rsr_Outcome := ''pulled''\<rparr>) db db'" unfolding pulls_def by auto
    with fetched pending key r show ?thesis by auto
  qed
qed simp

end
