(* ===== verification/Commit_Objects.thy ===== *)
theory Commit_Objects
  imports Commit_Properties
begin

text \<open>
  The context object that a commit writes: which conditions of the validator hold by construction, and
  which depend on what the store holds.
\<close>

subsection \<open>The notes of a commit\<close>

lemma notes_by_id_facts:
  "wf_map (notes_by_id ns) \<and> (\<forall>k n. map_of (notes_by_id ns) k = Some n \<longrightarrow> note_ID n = k \<and> n \<in> set ns)"
proof -
  have "wf_map (foldl (\<lambda>m n. map_put (note_ID n) n m) m xs)
      \<and> (\<forall>k n. map_of (foldl (\<lambda>m n. map_put (note_ID n) n m) m xs) k = Some n \<longrightarrow> note_ID n = k \<and> n \<in> set ns)"
    if "wf_map m" "\<forall>k n. map_of m k = Some n \<longrightarrow> note_ID n = k \<and> n \<in> set ns" "set xs \<subseteq> set ns" for m xs
    using that
  proof (induction xs arbitrary: m)
    case (Cons x xs)
    show ?case
      unfolding foldl_Cons
    proof (rule Cons.IH)
      show "\<forall>k n. map_of (map_put (note_ID x) x m) k = Some n \<longrightarrow> note_ID n = k \<and> n \<in> set ns"
      proof (intro allI impI)
        fix k n assume "map_of (map_put (note_ID x) x m) k = Some n"
        then show "note_ID n = k \<and> n \<in> set ns"
          using Cons.prems(2) [rule_format, of k n] Cons.prems(3) by (auto split: if_splits)
      qed
    qed (use Cons.prems(1,3) in simp_all)
  qed simp
  note fold = this
  have "\<forall>k n. map_of [] k = Some n \<longrightarrow> note_ID n = k \<and> n \<in> set ns" by simp
  from fold [OF wf_map_Nil this order_refl] show ?thesis unfolding notes_by_id_def .
qed

lemma distinct_map_sort: "distinct (map f (sort_key g xs)) \<longleftrightarrow> distinct (map f xs)"
  by (rule mset_eq_imp_distinct_iff) simp

context map_iteration
begin

lemma mergeNotes_notes:
  "distinct (map note_ID (mergeNotes ord committed pending)) \<and> set (mergeNotes ord committed pending) \<subseteq> set committed \<union> set pending"
proof -
  let ?m = "notes_by_id (committed @ pending)"
  have f: "wf_map ?m" "\<And>k n. map_of ?m k = Some n \<Longrightarrow> note_ID n = k \<and> n \<in> set committed \<union> set pending"
    using notes_by_id_facts [of "committed @ pending"] by auto
  have "map note_ID (map snd (map_range ord 0 ?m)) = map fst (map_range ord 0 ?m)"
    unfolding map_map by (rule map_cong) (use f(2) in \<open>auto simp: set_map_range\<close>)
  then have "distinct (map note_ID (mergeNotes ord committed pending))"
    unfolding mergeNotes_def using distinct_map_range [OF f(1), of 0] by (simp only:)
  moreover have "set (mergeNotes ord committed pending) \<subseteq> set committed \<union> set pending"
  proof
    fix n assume "n \<in> set (mergeNotes ord committed pending)"
    then obtain k where "map_of ?m k = Some n" by (auto simp: mergeNotes_def set_map_range)
    from f(2) [OF this] show "n \<in> set committed \<union> set pending" by simp
  qed
  ultimately show ?thesis by blast
qed

lemma commit_notes_distinct: "distinct (map note_ID (commit_notes ord snapshot))"
  unfolding commit_notes_def distinct_map_sort
  using mergeNotes_notes [of "snap_CommittedNotes snapshot" "snap_PendingNotes snapshot"] by (simp add: comp_def)

end

subsection \<open>The order of the mappings\<close>

definition keys_without_nul :: "Note list \<Rightarrow> bool" where
  "keys_without_nul notes \<longleftrightarrow> list_all (\<lambda>n. no_nul (note_EntityKey n) \<and> no_nul (note_ID n)) notes"

lemma mapping_key_less:
  assumes "no_nul (map_EntityKey a)" "no_nul (map_NoteID a)" "no_nul (map_EntityKey b)" "no_nul (map_NoteID b)"
  shows "mapping_key a < mapping_key b \<longleftrightarrow> mapping_order a < mapping_order b"
proof -
  have "mapping_key m = join_nul (map_EntityKey m) (join_nul (map_NoteID m) (map_RevisionID m))" for m
    by (simp add: mapping_key_def join_nul_def)
  with assms show ?thesis by (auto simp: join_nul_less mapping_order_def le_less)
qed

lemma revision_mappings_sorted:
  assumes "distinct (map note_ID notes)" "keys_without_nul notes"
  shows "sorted_wrt (<) (map mapping_key (contextRevisionMappings notes))"
proof -
  let ?ms = "contextRevisionMappings notes"
  have keys: "no_nul (map_EntityKey m)" "no_nul (map_NoteID m)" if "m \<in> set ?ms" for m
    using that assms(2) by (auto simp: contextRevisionMappings_def keys_without_nul_def list_all_iff note_mapping_def)
  have "map note_ID notes = map (\<lambda>(_, noteID, _). noteID) (map mapping_order (map note_mapping notes))"
    by (simp add: mapping_order_def note_mapping_def)
  with assms(1) have "distinct (map mapping_order (map note_mapping notes))" by (metis distinct_map)
  then have "distinct (map mapping_order ?ms)" unfolding contextRevisionMappings_def distinct_map_sort .
  moreover have "sorted (map mapping_order ?ms)" by (simp add: contextRevisionMappings_def)
  ultimately have "sorted_wrt (<) (map mapping_order ?ms)" by (simp add: strict_sorted_iff)
  then show ?thesis
    unfolding sorted_wrt_map by (rule sorted_wrt_mono_rel [rotated]) (simp add: mapping_key_less keys)
qed

lemma revision_mappings_wf:
  assumes "distinct (map note_ID (elems (obj_Notes obj)))" "keys_without_nul (elems (obj_Notes obj))"
    "obj_RevisionMappings obj = contextRevisionMappings (elems (obj_Notes obj))"
    "list_all (note_wf obj) (elems (obj_Notes obj))" "2 \<le> obj_SchemaVersion obj"
  shows "mappings_wf obj \<longleftrightarrow> distinct (map note_RevisionID (elems (obj_Notes obj)))"
proof -
  let ?ns = "elems (obj_Notes obj)" and ?ms = "obj_RevisionMappings obj"
  have perm: "mset ?ms = mset (map note_mapping ?ns)" by (simp add: assms(3) contextRevisionMappings_def)
  have each: "set ?ms = note_mapping ` set ?ns" "length ?ms = length ?ns"
    using mset_eq_setD [OF perm] mset_eq_length [OF perm] by auto
  have field: "distinct (map f ?ms) \<longleftrightarrow> distinct (map (\<lambda>n. f (note_mapping n)) ?ns)" for f :: "ContextRevisionMapping \<Rightarrow> string"
    by (rule mset_eq_imp_distinct_iff) (simp add: perm image_mset.compositionality comp_def)
  have "list_all (manifest_mapping_ok (obj_SourceSHA obj)) ?ms"
    using assms(4,5) each by (auto simp: list_all_iff manifest_mapping_ok_def note_mapping_def note_wf_def committed_note_ok_def revision_binding_ok_def)
  moreover have "list_all (\<lambda>m. list_ex (\<lambda>n. note_ID n = map_NoteID m \<and> mapping_matches_note m n) ?ns) ?ms"
    using each by (force simp: list_all_iff list_ex_iff note_mapping_def mapping_matches_note_def)
  ultimately show ?thesis
    using revision_mappings_sorted [OF assms(1,2)] assms(1) each(2) field [of map_NoteID] field [of map_RevisionID]
    by (simp add: mappings_wf_def assms(3) note_mapping_def)
qed

subsection \<open>The committed object\<close>

lemma strict_sorted_adj: "distinct_adj xs \<Longrightarrow> sorted xs \<Longrightarrow> sorted_wrt (<) (xs :: string list)"
proof (induction xs rule: induct_list012)
  case (3 x y zs)
  then have "sorted_wrt (<) (y # zs)" "x < y" by auto
  then show ?case by (auto intro: less_trans)
qed simp_all

lemma read_CommitSnapshot_run: "read_CommitSnapshot decode key db = Inr (db', snapshot) \<Longrightarrow> db' = db"
  by (auto simp: read_CommitSnapshot_def tx_bind_Inr requireWorkingSet_Inr dest!: listPending_run listCommitted_run split: if_splits)

lemma snapshot_provenance_wf:
  assumes "contextSnapshotProvenance coverage sourceSHA = Inr provenance"
  shows "provenance = sort_key prov_Language (map coverage_provenance coverage)"
    "list_all (\<lambda>p. prov_Language p \<noteq> [] \<and> prov_IndexerID p \<noteq> [] \<and> prov_IndexerVersion p \<noteq> [] \<and> prov_SourceSHA p = sourceSHA) provenance"
    "sorted_wrt (<) (map prov_Language provenance)"
proof -
  from assms show p: "provenance = sort_key prov_Language (map coverage_provenance coverage)"
    by (auto simp: contextSnapshotProvenance_def Let_def split: if_splits)
  from assms show "list_all (\<lambda>p. prov_Language p \<noteq> [] \<and> prov_IndexerID p \<noteq> [] \<and> prov_IndexerVersion p \<noteq> []
      \<and> prov_SourceSHA p = sourceSHA) provenance"
    unfolding p by (auto simp: contextSnapshotProvenance_def list_ex_iff list_all_iff coverage_provenance_def split: if_splits)
  have "distinct_adj (map prov_Language provenance)" "sorted (map prov_Language provenance)"
    using assms by (auto simp: contextSnapshotProvenance_def Let_def split: if_splits)
  then show "sorted_wrt (<) (map prov_Language provenance)" by (rule strict_sorted_adj)
qed

lemma snapshot_parents_cases:
  assumes "contextSnapshotParents reader parentID = Inr (parents, legacy, version)"
  shows "version = 3 \<or> version = 4" "parents = [] \<or> parents = [parentID] \<and> parentID \<noteq> [] \<and> legacy = []" "legacy = [] \<or> legacy = parentID"
  using assms
  by (auto simp: contextSnapshotParents_def contextSnapshotWriteVersion_def and_then_eq_Inr split: if_splits)

lemma commit_plan_run:
  assumes "commit_plan env ord decode run input st = Inr (key, snapshot, obj)"
  obtains parents message author provenance d where
    "run_key run = Inr key" "read_CommitSnapshot decode key (fst st) = Inr (d, snapshot)" "snap_WorkingSource snapshot = key_SourceSHA key"
    "contextSnapshotProvenance (listCoverage (key_WorktreeID key) (fst st)) (key_SourceSHA key) = Inr provenance"
    "snap_PendingNotes snapshot \<noteq> []" "contextSnapshotParents (stored_object env (snd st) key) (snap_ParentID snapshot) = Inr parents"
    "obj = context_object key parents message author (time_UTC (run_now run)) provenance (snap_Entities snapshot) (commit_notes ord snapshot)"
  using assms
  by (auto simp: commit_plan_def Let_def and_then_eq_Inr read_Status_def split: prod.splits if_splits)

text \<open>C8: Which commits can be read again.  The object that Commit writes is accepted by the validator that
  every later load applies exactly when the metadata are complete, some language is covered and
  the entities are valid ones of the covered languages, every note is valid and bound to the
  committed source, and no two notes share a revision.  Parents, provenance, the mappings and
  their order, the IDs of the notes and the schema version are right by construction.\<close>

theorem commit_object_valid:
  assumes "map_iteration ord" "commit_plan env ord decode run input st = Inr (key, snapshot, obj)"
    "snap_ParentID snapshot = [] \<or> canonical_id (snap_ParentID snapshot)" "keys_without_nul (elems (obj_Notes obj))"
  shows "validateContextObject obj (key_RepositoryID key) (key_RefName key) = Inr () \<longleftrightarrow>
    \<not> object_metadata_bad obj
    \<and> listCoverage (key_WorktreeID key) (fst st) \<noteq> []
    \<and> entities_wf obj \<and> ent_Language ` set (elems (obj_Entities obj)) \<subseteq> cov_Language ` set (listCoverage (key_WorktreeID key) (fst st))
    \<and> list_all (note_wf obj) (elems (obj_Notes obj))
    \<and> distinct (map note_RevisionID (elems (obj_Notes obj)))"
proof -
  let ?coverage = "listCoverage (key_WorktreeID key) (fst st)"
  from commit_plan_run [OF assms(2)] obtain parents legacy version message author provenance where
    prov: "contextSnapshotProvenance ?coverage (key_SourceSHA key) = Inr provenance"
    and par: "contextSnapshotParents (stored_object env (snd st) key) (snap_ParentID snapshot) = Inr (parents, legacy, version)"
    and obj: "obj = context_object key (parents, legacy, version) message author (time_UTC (run_now run)) provenance
       (snap_Entities snapshot) (commit_notes ord snapshot)"
    by (metis prod_cases3)
  note p = snapshot_provenance_wf [OF prov] and v = snapshot_parents_cases [OF par]
  have fields: "obj_SchemaVersion obj = version" "obj_RepositoryID obj = key_RepositoryID key" "obj_RefName obj = key_RefName key"
    "obj_SourceSHA obj = key_SourceSHA key" "obj_Provenance obj = provenance" "obj_LandingReceipts obj = []"
    "obj_ParentID obj = []" "obj_ParentIDs obj = parents" "obj_LegacyParentID obj = legacy"
    "elems (obj_Notes obj) = commit_notes ord snapshot"
    "obj_RevisionMappings obj = contextRevisionMappings (elems (obj_Notes obj))"
    by (simp_all add: obj context_object_def)
  have ids: "distinct (map note_ID (elems (obj_Notes obj)))"
    unfolding fields(10) by (rule map_iteration.commit_notes_distinct [OF assms(1)])
  have "prov_Language ` set provenance = cov_Language ` set ?coverage" "length provenance = length ?coverage"
    unfolding p(1) by (force simp: coverage_provenance_def)+
  then have "provenance = [] \<longleftrightarrow> ?coverage = []" by (metis length_0_conv)
  note same = this \<open>prov_Language ` set provenance = cov_Language ` set ?coverage\<close>
  have "provenance_wf obj \<longleftrightarrow> ?coverage \<noteq> [] \<and> ent_Language ` set (elems (obj_Entities obj)) \<subseteq> cov_Language ` set ?coverage"
    using p(2,3) same by (simp add: provenance_wf_def fields)
  moreover have "parents_wf obj" using v(2,3) assms(3) by (auto simp: parents_wf_def parent_shape_bad_def fields)
  moreover have "receipts_wf obj" by (simp add: receipts_wf_def fields)
  moreover have "mappings_wf obj \<longleftrightarrow> distinct (map note_RevisionID (elems (obj_Notes obj)))" if "list_all (note_wf obj) (elems (obj_Notes obj))"
    using v(1) by (intro revision_mappings_wf [OF ids assms(4) fields(11) that]) (auto simp: fields)
  ultimately show ?thesis
    using v(1) ids by (auto simp: validateContextObject_eq object_wf_def notes_wf_def fields IsContextSnapshotSchema_def)
qed

subsection \<open>A commit that cannot be read\<close>

lemma invalid_object_unreadable:
  assumes "hash_32 (oe_blake3 env)" "0 < oe_fuel env" "dir identifier = Some contents"
    "identifier = hex_encode (oe_blake3 env contents)" "oe_decode env contents = Decoded obj True" "obj_SchemaVersion obj \<noteq> 1"
    "\<not> object_wf obj (key_RepositoryID key) (key_RefName key)"
  shows "stored_graph env dir key identifier = Inl CodeValidation"
proof -
  have "normalizeObjectID identifier = Inr identifier"
    unfolding normalizeObjectID_iff assms(4) by (rule hex_digest_canonical [OF assms(1)])
  moreover have "stored_loader env dir key identifier = Inl CodeValidation"
    using assms(3-7) by (simp add: load_object_def read_object_file_def decodeContextObject_def validateContextObject_eq)
  moreover obtain f where "oe_fuel env = Suc f" using assms(2) gr0_implies_Suc by blast
  ultimately show ?thesis
    by (simp add: stored_graph_def loadObjectGraph_def loadObjectGraphFrom_def)
qed

lemma FinalizeCommit_ref:
  assumes "local_inv db" "FinalizeCommit ord decode input db = (db', Inr u)"
  shows "cref_CommitID (currentContextRef (key_RefName (fin_Key input)) db') = commit_ID (fin_Commit input)"
proof (cases "finalize_commit ord decode input db")
  case (Inl e)
  with assms(2) have "commitWasFinalized input db'" by (auto simp: FinalizeCommit_def transaction_def split: if_splits)
  then show ?thesis by (auto simp: commitWasFinalized_def currentContextRef_def split: option.splits)
next
  case (Inr x)
  then obtain d v where d: "finalize_commit ord decode input db = Inr (d, v)" by (cases x) auto
  with assms(2) have "d = db'" by (auto simp: FinalizeCommit_def transaction_def)
  with finalize_commit_run [OF assms(1) d] show ?thesis by (simp add: records_commit_def moves_ref_def)
qed

lemma Commit_run:
  assumes "Commit env ord decode run input st = ((db, dir), Inr commit)"
    "commit_plan env ord decode run input st = Inr (key, snapshot, obj)" "json_marshal (object_json obj) = Some contents"
  shows "commit_ID commit = hex_encode (oe_blake3 env contents)" "dir (commit_ID commit) = Some contents"
    "\<exists>u. FinalizeCommit ord decode (finalize_input key snapshot commit (elems (obj_Notes obj))) (fst st) = (db, Inr u)"
  using assms
  by (auto simp: Commit_def Let_def object_to_commit_def split: sum.splits prod.splits dest: WriteObject_stored)

text \<open>C9: Commit can make a ref unreadable.  When the notes of a successful Commit include one that is bound to
  another source (a committed note that needs review or is historical keeps its old binding, because
  re-indexing only re-binds the active ones), then, provided the decoder returns the schema version,
  the source and the bindings that were written, the ref now names the new commit, every load of its
  ancestry fails with a validation error, and so does every further Commit on top of it.\<close>

theorem stale_commit_unreadable:
  assumes "local_inv (fst st)" "Commit env ord decode run input st = ((db, dir), Inr commit)"
    "commit_plan env ord decode run input st = Inr (key, snapshot, obj)"
    "n \<in> set (elems (obj_Notes obj))" "note_BindingSourceSHA n \<noteq> key_SourceSHA key"
    "hash_32 (oe_blake3 env)" "0 < oe_fuel env"
    "json_marshal (object_json obj) = Some contents" "oe_decode env contents = Decoded read True"
    "obj_SchemaVersion read = obj_SchemaVersion obj" "obj_SourceSHA read = obj_SourceSHA obj"
    "map note_BindingSourceSHA (elems (obj_Notes read)) = map note_BindingSourceSHA (elems (obj_Notes obj))"
  shows "cref_CommitID (currentContextRef (key_RefName key) db) = commit_ID commit
    \<and> stored_graph env dir key (commit_ID commit) = Inl CodeValidation
    \<and> contextSnapshotParents (stored_object env dir key) (commit_ID commit) = Inl CodeValidation"
proof -
  note run = Commit_run [OF assms(2,3,8)]
  from run(3) obtain u where f: "FinalizeCommit ord decode (finalize_input key snapshot commit (elems (obj_Notes obj))) (fst st) = (db, Inr u)"
    by blast
  have ref: "cref_CommitID (currentContextRef (key_RefName key) db) = commit_ID commit"
    using FinalizeCommit_ref [OF assms(1) f] by (simp add: finalize_input_def)
  from commit_plan_run [OF assms(3)] obtain parents legacy version message author provenance where
    par: "contextSnapshotParents (stored_object env (snd st) key) (snap_ParentID snapshot) = Inr (parents, legacy, version)"
    and obj: "obj = context_object key (parents, legacy, version) message author (time_UTC (run_now run)) provenance
       (snap_Entities snapshot) (commit_notes ord snapshot)"
    by (metis prod_cases3)
  have source: "obj_SourceSHA obj = key_SourceSHA key" and version: "obj_SchemaVersion obj \<in> {3, 4}"
    using snapshot_parents_cases(1) [OF par] by (auto simp: obj context_object_def)
  from assms(4,12) obtain m where m: "m \<in> set (elems (obj_Notes read))" "note_BindingSourceSHA m = note_BindingSourceSHA n"
    by (metis image_eqI image_iff list.set_map)
  then have "\<not> note_wf read m" using assms(5,10,11) source version by (auto simp: note_wf_def revision_binding_ok_def)
  with m(1) have "\<not> object_wf read (key_RepositoryID key) (key_RefName key)" by (auto simp: object_wf_def notes_wf_def list_all_iff)
  with assms(6,7,9,10) run(1,2) version have load: "stored_graph env dir key (commit_ID commit) = Inl CodeValidation"
    by (intro invalid_object_unreadable [where contents = contents]) auto
  have "commit_ID commit \<noteq> []"
    unfolding run(1) by (rule canonical_id_nonempty) (rule hex_digest_canonical [OF assms(6)])
  with ref load show ?thesis by (simp add: contextSnapshotParents_def stored_object_def)
qed

end
