(* ===== verification/Local_Examples.thy ===== *)
theory Local_Examples
  imports Commit_Objects Ancestry_Examples
begin

text \<open>
  Concrete databases of the local store: a ref at the root of the example ancestry, a worktree that is
  based on it, and runs of the operations on them.
\<close>

subsection \<open>A store\<close>

definition ex_key :: "string \<Rightarrow> WorkingSetKey" where
  "ex_key source = \<lparr>key_RepositoryID = ''repo'', key_WorktreeID = ''w'', key_RefName = ''main'', key_SourceSHA = source\<rparr>"

definition ex_root :: string where
  "ex_root = ex_node_id CHR ''a''"

definition ex_topics :: topics_decoder where
  "ex_topics _ = Some None"

definition ex_note :: "string \<Rightarrow> NoteBindingState \<Rightarrow> string \<Rightarrow> Note" where
  "ex_note i state source = \<lparr>note_ID = i, note_RevisionID = ''r'' @ i, note_SupersedesRevisionID = [], note_EntityKey = ''e'',
     note_Kind = NoteIntent, note_Body = ''b'', note_Author = ''a'', note_Origin = ''o'', note_CreatedAt = ex_time,
     note_BindingState = state, note_BindingSourceSHA = source, note_ReviewReason = [], note_Topics = None, note_Pending = False\<rparr>"

definition ex_coverage :: "string \<Rightarrow> Coverage" where
  "ex_coverage source = \<lparr>cov_Language = ''go'', cov_State = CoverageIndexed, cov_IndexerID = ''i'', cov_IndexerVersion = ''v'',
     cov_SourceSHA = source, cov_Detail = []\<rparr>"

text \<open>The ref is at the root, whose notes are \<open>notes\<close>; the worktree is at \<open>source\<close> with the given pending notes.\<close>

definition ex_store :: "string \<Rightarrow> Note list \<Rightarrow> Note list \<Rightarrow> mergeSessionRow list \<Rightarrow> local_db" where
  "ex_store source notes pending sessions = empty_local_db\<lparr>
     ldb_working_sets := [\<lparr>ws_WorktreeID = ''w'', ws_RepositoryID = ''repo'', ws_RefName = ''main'', ws_BaseContextCommitID = ex_root,
       ws_SourceSHA = source, ws_UpdatedAt = 0\<rparr>],
     ldb_coverage := [\<lparr>cvr_WorktreeID = ''w'', cvr_Coverage = ex_coverage source\<rparr>],
     ldb_commits := [\<lparr>cmr_CommitID = ex_root, cmr_ParentID = [], cmr_RefName = ''main'', cmr_SourceSHA = ex_sha, cmr_Message = ''m'',
       cmr_Author = ''a'', cmr_CreatedAt = 0\<rparr>],
     ldb_notes := map (note_row ex_root) notes, ldb_pending := map (note_row ''w'') pending,
     ldb_refs := [\<lparr>lrr_RefName = ''main'', lrr_CommitID = ex_root, lrr_SourceSHA = ex_sha, lrr_Version = 1\<rparr>],
     ldb_merge_sessions := sessions\<rparr>"

lemma ex_store_inv:
  assumes "distinct (map note_ID notes)" "distinct (map note_ID pending)" "table_ok msr_SessionID merge_state_ok sessions"
  shows "local_inv (ex_store source notes pending sessions)"
  using assms
  by (simp add: local_inv_def ex_store_def empty_local_db_def table_ok_def commit_ids_def names_commit_def note_key_def note_row_def comp_def
      distinct_map inj_on_def)

subsection \<open>A remote\<close>

definition ex_remote :: "local_db \<Rightarrow> local_db" where
  "ex_remote db = fst (AddRemote ''origin'' ''/srv/context'' db)"

lemma ex_remote_step: "local_step env db (ex_remote db)"
  unfolding ex_remote_def by (rule add_remote)

lemma ex_remote_steps: "(local_step env)\<^sup>*\<^sup>* db (ex_remote db)"
  by (rule r_into_rtranclp) (rule ex_remote_step)

subsection \<open>A commit\<close>

definition ex_commit :: ContextCommit where
  "ex_commit = \<lparr>commit_ID = ''c'', commit_ParentID = ex_root, commit_RefName = ''main'', commit_SourceSHA = ex_sha,
     commit_Message = ''m'', commit_Author = ''a'', commit_CreatedAt = ex_time\<rparr>"

definition ex_finalize :: FinalizeInput where
  "ex_finalize = \<lparr>fin_Key = ex_key ex_sha, fin_ExpectedParent = ex_root, fin_PendingNoteIDs = [''n''], fin_Commit = ex_commit,
     fin_Notes = [ex_note ''n'' NoteBindingActive ex_sha]\<rparr>"

definition ex_before :: local_db where
  "ex_before = ex_store ex_sha [] [ex_note ''n'' NoteBindingActive ex_sha] []"

definition ex_after :: local_db where
  "ex_after = fst (FinalizeCommit (\<lambda>_ ks. ks) ex_topics ex_finalize ex_before)"

theorem commit_recorded_witness:
  "records_commit (ex_key ex_sha) ex_commit [ex_root] [ex_note ''n'' NoteBindingActive ex_sha] ex_before ex_after"
proof -
  have inv: "local_inv ex_before" unfolding ex_before_def by (rule ex_store_inv) (simp_all add: table_ok_def)
  have "snd (FinalizeCommit (\<lambda>_ ks. ks) ex_topics ex_finalize ex_before) = Inr ()" by code_simp
  then have "FinalizeCommit (\<lambda>_ ks. ks) ex_topics ex_finalize ex_before = (ex_after, Inr ())"
    by (simp add: ex_after_def prod_eq_iff)
  moreover have "\<not> commitWasFinalized ex_finalize ex_before" by code_simp
  ultimately show ?thesis
    using commit_recorded [OF inv] by (fastforce simp: ex_finalize_def ex_commit_def)
qed

subsection \<open>A merge\<close>

definition ex_session :: mergeSessionRow where
  "ex_session = \<lparr>msr_SessionID = ''s'', msr_LocalSnapshotID = ex_root, msr_RemoteSnapshotID = ''q'', msr_BaseSnapshotID = ''z'',
     msr_RepositoryID = ''repo'', msr_RefName = ''main'', msr_SourceSHA = ex_sha, msr_ProvenanceJSON = [], msr_Message = ''m'',
     msr_Author = ''a'', msr_PlannedCreatedAt = 0, msr_State = MergeSessionReady, msr_AutomaticRecordsJSON = []\<rparr>"

definition ex_merge :: FinalizeMergeInput where
  "ex_merge = \<lparr>fmi_Key = ex_key ex_sha, fmi_SessionID = ''s'', fmi_Commit = ex_commit, fmi_ParentIDs = [ex_root, ''q''],
     fmi_Notes = [ex_note ''n'' NoteBindingActive ex_sha]\<rparr>"

definition ex_unmerged :: local_db where
  "ex_unmerged = ex_store ex_sha [] [] [ex_session]"

definition ex_merged :: local_db where
  "ex_merged = fst (FinalizeMerge (\<lambda>_ ks. ks) ex_topics ex_merge ex_unmerged)"

theorem merge_recorded_once_witness:
  "records_commit (ex_key ex_sha) ex_commit [ex_root, ''q''] [ex_note ''n'' NoteBindingActive ex_sha] ex_unmerged ex_merged
   \<and> (\<exists>e. FinalizeMerge (\<lambda>_ ks. ks) ex_topics ex_merge (ex_remote ex_merged) = (ex_remote ex_merged, Inl e))"
proof -
  have inv: "local_inv ex_unmerged" unfolding ex_unmerged_def
    by (rule ex_store_inv) (simp_all add: table_ok_def merge_state_ok_def ex_session_def)
  have "snd (FinalizeMerge (\<lambda>_ ks. ks) ex_topics ex_merge ex_unmerged) = Inr ()" by code_simp
  then have run: "FinalizeMerge (\<lambda>_ ks. ks) ex_topics ex_merge ex_unmerged = (ex_merged, Inr ())"
    by (simp add: ex_merged_def prod_eq_iff)
  have "fmi_Key ex_merge = ex_key ex_sha" "fmi_Commit ex_merge = ex_commit" "fmi_ParentIDs ex_merge = [ex_root, ''q'']"
    "fmi_Notes ex_merge = [ex_note ''n'' NoteBindingActive ex_sha]" by (simp_all add: ex_merge_def)
  with merge_recorded_once [OF inv run ex_remote_steps refl] show ?thesis by metis
qed

subsection \<open>A fast-forward\<close>

definition ex_env :: object_env where
  "ex_env = \<lparr>oe_blake3 = ex_node_hash, oe_decode = ex_decode, oe_fuel = 8\<rparr>"

definition ex_fast_forward :: FastForwardInput where
  "ex_fast_forward = \<lparr>ff_Key = ex_key ex_sha,
     ff_Expected = \<lparr>cref_RefName = ''main'', cref_CommitID = ex_root, cref_SourceSHA = ex_sha, cref_Version = 1\<rparr>,
     ff_Next = \<lparr>cref_RefName = ''main'', cref_CommitID = ex_node_id CHR ''k'', cref_SourceSHA = ex_sha, cref_Version = 3\<rparr>\<rparr>"

definition ex_clean :: local_db where
  "ex_clean = ex_store ex_sha [] [] []"

definition ex_forwarded :: local_db where
  "ex_forwarded = fst (transaction (fast_forward (\<lambda>_ ks. ks) ex_topics ex_fast_forward (map ex_item ''alk'')) ex_clean)"

theorem fast_forward_keeps_history_witness:
  "forwards ex_fast_forward {a. ancestor_or_self ex_loader (ex_node_id CHR ''k'') a} ex_clean ex_forwarded
   \<and> ancestor_or_self ex_loader (ex_node_id CHR ''k'') ex_root"
proof -
  have inv: "local_inv ex_clean" unfolding ex_clean_def by (rule ex_store_inv) (simp_all add: table_ok_def)
  have graph: "stored_graph ex_env ex_dir (ff_Key ex_fast_forward) (ex_node_id CHR ''k'') = Inr (map ex_item ''alk'')"
    using ex_graph(1) by (simp add: stored_graph_def ex_env_def ex_fast_forward_def ex_key_def)
  have "snd (transaction (fast_forward (\<lambda>_ ks. ks) ex_topics ex_fast_forward (map ex_item ''alk'')) ex_clean) = Inr ()" by code_simp
  then have "transaction (fast_forward (\<lambda>_ ks. ks) ex_topics ex_fast_forward (map ex_item ''alk'')) ex_clean = (ex_forwarded, Inr ())"
    by (simp add: ex_forwarded_def prod_eq_iff)
  moreover have "in_chain ex_root (map ex_item ''alk'')" "obj_SourceSHA (sco_Object (last (map ex_item ''alk''))) = ex_sha"
    by (simp_all add: in_chain_def ex_item_def ex_root_def ex_node_def)
  moreover have "cref_CommitID (ff_Next ex_fast_forward) = ex_node_id CHR ''k''" "cref_CommitID (ff_Expected ex_fast_forward) = ex_root"
    "cref_RefName (ff_Next ex_fast_forward) = key_RefName (ff_Key ex_fast_forward)" "cref_SourceSHA (ff_Next ex_fast_forward) = ex_sha"
    "key_SourceSHA (ff_Key ex_fast_forward) = ex_sha"
    by (simp_all add: ex_fast_forward_def ex_key_def)
  moreover have "ex_node_id c \<noteq> []" for c using ex_node_canonical canonical_id_nonempty by blast
  ultimately have "FastForward (\<lambda>_ ks. ks) ex_topics (stored_graph ex_env ex_dir (ff_Key ex_fast_forward)) ex_fast_forward ex_clean = (ex_forwarded, Inr ())"
    unfolding FastForward_def Let_def by (simp add: graph)
  from fast_forward_keeps_history [OF inv disjI1 [OF this]] show ?thesis
    using \<open>\<And>c. ex_node_id c \<noteq> []\<close> by (auto simp: ex_fast_forward_def ex_env_def ex_key_def ex_root_def)
qed

subsection \<open>History\<close>

text \<open>
  A run of the store from the empty database: a remote is added, the worktree is indexed, the ref is
  fast-forwarded to \<open>k\<close>, whose ID the remote spells in upper case, and a note is added and committed.
\<close>

definition ex_upper :: string where
  "ex_upper = concat (replicate 32 ''6B'')"

definition ex_entity :: Entity where
  "ex_entity = zero_entity\<lparr>ent_Language := ''go'', ent_Key := ''e'', ent_Path := ''e.go'', ent_SourceSHA := ex_sha\<rparr>"

definition ex_projection :: LanguageProjection where
  "ex_projection = \<lparr>lp_Coverage = ex_coverage ex_sha, lp_Entities = [ex_entity]\<rparr>"

definition ex_upper_forward :: FastForwardInput where
  "ex_upper_forward = \<lparr>ff_Key = ex_key ex_sha,
     ff_Expected = \<lparr>cref_RefName = ''main'', cref_CommitID = [], cref_SourceSHA = [], cref_Version = 0\<rparr>,
     ff_Next = \<lparr>cref_RefName = ''main'', cref_CommitID = ex_upper, cref_SourceSHA = ex_sha, cref_Version = 3\<rparr>\<rparr>"

definition ex_upper_commit :: FinalizeInput where
  "ex_upper_commit = \<lparr>fin_Key = ex_key ex_sha, fin_ExpectedParent = ex_upper, fin_PendingNoteIDs = [''n''],
     fin_Commit = ex_commit\<lparr>commit_ParentID := ex_upper\<rparr>, fin_Notes = [ex_note ''n'' NoteBindingActive ex_sha]\<rparr>"

definition ex_indexed :: local_db where
  "ex_indexed = fst (ApplyIndexUpdate (\<lambda>_ ks. ks) ex_topics (\<lambda>_. Inl CodeLocalStorage) 0 (ex_key ex_sha) [ex_projection]
     (ex_remote empty_local_db))"

definition ex_moved :: local_db where
  "ex_moved = fst (transaction (fast_forward (\<lambda>_ ks. ks) ex_topics ex_upper_forward (map ex_item ''alk'')) ex_indexed)"

definition ex_noted :: local_db where
  "ex_noted = fst (AddPendingNote (\<lambda>_ ks. ks) ex_topics (Inl CodeLocalStorage, Inl CodeLocalStorage) ex_time (ex_key ex_sha)
     (ex_note ''n'' NoteBindingActive ex_sha) ex_moved)"

definition ex_committed :: local_db where
  "ex_committed = fst (FinalizeCommit (\<lambda>_ ks. ks) ex_topics ex_upper_commit ex_noted)"

lemma ex_upper_graph: "stored_graph ex_env ex_dir (ex_key ex_sha) ex_upper = Inr (map ex_item ''alk'')"
proof -
  have "normalizeObjectID ex_upper = Inr (ex_node_id CHR ''k'')" by code_simp
  then have "loadObjectGraph ex_node_hash ex_decode 8 ex_dir ex_upper ''repo'' ''main''
      = loadObjectGraph ex_node_hash ex_decode 8 ex_dir (ex_node_id CHR ''k'') ''repo'' ''main''"
    by (simp add: loadObjectGraph_def loadObjectGraphFrom_def)
  then show ?thesis using ex_graph(1) by (simp add: stored_graph_def ex_env_def ex_key_def)
qed

lemma ex_indexed_step: "local_step ex_env (ex_remote empty_local_db) ex_indexed"
proof -
  have "ApplyIndexUpdate (\<lambda>_ ks. ks) ex_topics g 0 (ex_key ex_sha) [ex_projection] (ex_remote empty_local_db)
      = ApplyIndexUpdate (\<lambda>_ ks. ks) ex_topics (\<lambda>_. Inl CodeLocalStorage) 0 (ex_key ex_sha) [ex_projection] (ex_remote empty_local_db)" for g
    by code_simp
  then show ?thesis unfolding ex_indexed_def by (metis index)
qed

lemma ex_moved_step: "local_step ex_env ex_indexed ex_moved"
proof -
  have "in_chain [] (map ex_item ''alk'')" "obj_SourceSHA (sco_Object (last (map ex_item ''alk''))) = ex_sha"
    by (simp_all add: in_chain_def ex_item_def ex_node_def)
  moreover have "cref_CommitID (ff_Next ex_upper_forward) = ex_upper" "cref_CommitID (ff_Expected ex_upper_forward) = []"
    "cref_RefName (ff_Next ex_upper_forward) = key_RefName (ff_Key ex_upper_forward)" "cref_SourceSHA (ff_Next ex_upper_forward) = ex_sha"
    "ff_Key ex_upper_forward = ex_key ex_sha" "key_SourceSHA (ex_key ex_sha) = ex_sha"
    by (simp_all add: ex_upper_forward_def ex_key_def)
  moreover have "ex_upper \<noteq> []" by code_simp
  ultimately have "fst (FastForward (\<lambda>_ ks. ks) ex_topics (stored_graph ex_env ex_dir (ff_Key ex_upper_forward)) ex_upper_forward ex_indexed) = ex_moved"
    unfolding FastForward_def Let_def by (simp add: ex_upper_graph ex_moved_def)
  then show ?thesis by (metis local_step.fast_forward)
qed

lemma ex_committed_steps: "(local_step ex_env)\<^sup>*\<^sup>* ex_moved ex_committed"
proof -
  have "local_step ex_env ex_moved ex_noted" unfolding ex_noted_def by (rule add_note)
  moreover have "local_step ex_env ex_noted ex_committed" unfolding ex_committed_def by (rule finalize_commit)
  ultimately show ?thesis by auto
qed

lemma ex_moved_reachable: "local_reachable ex_env ex_moved"
  unfolding local_reachable_def
  using ex_remote_steps ex_indexed_step ex_moved_step by (meson rtranclp.rtrancl_into_rtrancl)

text \<open>After the fast-forward the ref is spelt in upper case and names a recorded commit only by its normal form.\<close>

lemma ex_moved_tables:
  "map lrr_CommitID (ldb_refs ex_moved) = [ex_upper] \<and> map ws_BaseContextCommitID (ldb_working_sets ex_moved) = [ex_upper]"
  "map cmr_CommitID (ldb_commits ex_moved) = map ex_node_id ''alk''"
  "ex_upper \<notin> set (map ex_node_id ''alk'')"
  by code_simp+

lemma ex_committed_tables:
  "map cmr_CommitID (ldb_commits ex_committed) = map ex_node_id ''alk'' @ [''c'']"
  "map (\<lambda>n. (nr_Owner n, nr_NoteID n)) (ldb_notes ex_committed) = [(''c'', ''n'')]"
  "map (\<lambda>r. (lrr_CommitID r, lrr_Version r)) (ldb_refs ex_moved) = [(ex_upper, 1)]"
  "map (\<lambda>r. (lrr_CommitID r, lrr_Version r)) (ldb_refs ex_committed) = [(''c'', 2)]"
  by code_simp+

theorem local_invariant_witness:
  "local_inv ex_moved \<and> names_commit (commit_ids ex_moved) ex_upper \<and> ex_upper \<notin> commit_ids ex_moved"
proof -
  have inv: "local_inv ex_moved" by (rule local_invariant [OF ex_moved_reachable])
  from ex_moved_tables(1) obtain r where "r \<in> set (ldb_refs ex_moved)" "lrr_CommitID r = ex_upper" by auto
  with inv have "names_commit (commit_ids ex_moved) ex_upper" by (auto simp: local_inv_def dest: table_ok_row)
  moreover have "commit_ids ex_moved = set (map ex_node_id ''alk'')" unfolding commit_ids_def set_map [symmetric] ex_moved_tables(2) ..
  ultimately show ?thesis using inv ex_moved_tables(3) by simp
qed

theorem local_history_witness:
  "local_evolves ex_moved ex_committed
   \<and> map (\<lambda>r. (lrr_CommitID r, lrr_Version r)) (ldb_refs ex_moved) = [(ex_upper, 1)]
   \<and> map (\<lambda>r. (lrr_CommitID r, lrr_Version r)) (ldb_refs ex_committed) = [(''c'', 2)]
   \<and> map (\<lambda>n. (nr_Owner n, nr_NoteID n)) (ldb_notes ex_committed) = [(''c'', ''n'')]"
  using local_history [OF ex_moved_reachable ex_committed_steps] ex_committed_tables(2-4) by blast

subsection \<open>A commit on top of a note that needs review\<close>

text \<open>The root has a note that needs review and is bound to \<open>s1\<close>; the worktree is at \<open>s2\<close>, with one new note.\<close>

definition ex_stale_notes :: "Note list" where
  "ex_stale_notes = [ex_note ''h'' NoteBindingNeedsReview ''s1'', ex_note ''n'' NoteBindingActive ''s2'']"

definition ex_stale_store :: local_db where
  "ex_stale_store = ex_store ''s2'' [ex_stale_notes ! 0] [ex_stale_notes ! 1] []"

definition ex_run :: commit_run where
  "ex_run = \<lparr>run_key = Inr (ex_key ''s2''), run_default_author = ''a'', run_store = Inr (), run_now = ex_time,
     run_before_write = Inr (), run_write = WriteWorks, run_after_write = Inr ()\<rparr>"

definition ex_stale_object :: ContextObject where
  "ex_stale_object = context_object (ex_key ''s2'') ([ex_root], [], 3) ''m'' ''a'' ex_time
     [coverage_provenance (ex_coverage ''s2'')] [] ex_stale_notes"

definition ex_snapshot_at :: CommitSnapshot where
  "ex_snapshot_at = \<lparr>snap_Entities = [], snap_CommittedNotes = [ex_stale_notes ! 0],
     snap_PendingNotes = [(ex_stale_notes ! 1)\<lparr>note_Pending := True\<rparr>], snap_ParentID = ex_root, snap_WorkingSource = ''s2''\<rparr>"

definition ex_stale_decode :: "string \<Rightarrow> ContextObject json_decoded" where
  "ex_stale_decode s = (if take 1 s = ''{'' then Decoded ex_stale_object True else ex_decode s)"

definition ex_stale_env :: object_env where
  "ex_stale_env = \<lparr>oe_blake3 = ex_node_hash, oe_decode = ex_stale_decode, oe_fuel = 8\<rparr>"

lemma ex_stale_root: "stored_object ex_stale_env ex_dir (ex_key ''s2'') ex_root = Inr (ex_node [])"
proof -
  have dir: "ex_dir (ex_node_id CHR ''a'') = Some ''a''" by (auto simp: ex_dir_def)
  have "load_object ex_node_hash ex_stale_decode ''repo'' ''main'' (read_object_file ex_dir) (ex_node_id CHR ''a'')
      = load_object ex_node_hash ex_decode ''repo'' ''main'' (read_object_file ex_dir) (ex_node_id CHR ''a'')"
    by (simp add: load_object_def read_object_file_def dir decodeContextObject_def ex_stale_decode_def)
  then have load: "load_object ex_node_hash ex_stale_decode ''repo'' ''main'' (read_object_file ex_dir) (ex_node_id CHR ''a'')
      = Inr (''a'', ex_node [])" by (simp add: ex_parents_def)
  have "elems (obj_Notes (ex_node ps)) = []" "obj_LandingReceipts (ex_node ps) = []" for ps by (simp_all add: ex_node_def)
  then have "loadObjectGraph ex_node_hash ex_stale_decode 8 ex_dir (ex_node_id CHR ''a'') ''repo'' ''main'' = Some (Inr [ex_item CHR ''a''])"
    by (simp add: loadObjectGraph_def loadObjectGraphFrom_run [OF ex_node_normal] start_state_def eval_nat_numeral load ex_item_def
      ex_parents_def chain_notes_def receipt_links_ok_def chain_receipts_def)
  then show ?thesis
    by (simp add: stored_object_def stored_graph_def ex_stale_env_def ex_key_def ex_root_def ex_item_def ex_parents_def)
qed

lemma ex_stale_plan:
  "commit_plan ex_stale_env (\<lambda>_ ks. ks) ex_topics ex_run \<lparr>cin_Message = ''m'', cin_Author = ''a''\<rparr> (ex_stale_store, ex_dir)
     = Inr (ex_key ''s2'', ex_snapshot_at, ex_stale_object)"
proof -
  have reads: "read_CommitSnapshot ex_topics (ex_key ''s2'') ex_stale_store = Inr (ex_stale_store, ex_snapshot_at)"
    "read_CoverageComplete (ex_key ''s2'') ex_stale_store = Inr (ex_stale_store, True)"
    "contextSnapshotProvenance (st_Coverage (read_Status (ex_key ''s2'') ex_stale_store)) ''s2'' = Inr [coverage_provenance (ex_coverage ''s2'')]"
    "commit_notes (\<lambda>_ ks. ks) ex_snapshot_at = ex_stale_notes" "TrimSpace ''m'' = ''m''" "TrimSpace ''a'' = ''a''" "time_UTC ex_time = ex_time"
    by code_simp+
  have "contextSnapshotParents (stored_object ex_stale_env ex_dir (ex_key ''s2'')) ex_root = Inr ([ex_root], [], 3)"
    using ex_node_canonical [of "CHR ''a''"] canonical_id_nonempty
    by (auto simp: contextSnapshotParents_def ex_stale_root [unfolded ex_root_def] ex_root_def contextSnapshotWriteVersion_def IsContextSnapshotSchema_def ex_node_def)
  with reads show ?thesis
    by (simp add: commit_plan_def ex_run_def Let_def ex_stale_object_def) (simp add: ex_key_def ex_snapshot_at_def)
qed

definition ex_contents :: string where
  "ex_contents = the (json_marshal (object_json ex_stale_object))"

lemma ex_stale_contents: "json_marshal (object_json ex_stale_object) = Some ex_contents"
  and ex_stale_start: "take 1 ex_contents = ''{''"
proof -
  have "json_marshal (object_json ex_stale_object) \<noteq> None \<and> take 1 (the (json_marshal (object_json ex_stale_object))) = ''{''" by code_simp
  then show "json_marshal (object_json ex_stale_object) = Some ex_contents" "take 1 ex_contents = ''{''"
    by (simp_all add: ex_contents_def)
qed

definition ex_stale_commit :: ContextCommit where
  "ex_stale_commit = object_to_commit (ex_node_id CHR ''{'') ex_snapshot_at ex_stale_object"

definition ex_stale_finalized :: local_db where
  "ex_stale_finalized = fst (FinalizeCommit (\<lambda>_ ks. ks) ex_topics
     (finalize_input (ex_key ''s2'') ex_snapshot_at ex_stale_commit ex_stale_notes) ex_stale_store)"

lemma ex_stale_run:
  "Commit ex_stale_env (\<lambda>_ ks. ks) ex_topics ex_run \<lparr>cin_Message = ''m'', cin_Author = ''a''\<rparr> (ex_stale_store, ex_dir)
     = ((ex_stale_finalized, ex_dir(ex_node_id CHR ''{'' \<mapsto> ex_contents)), Inr ex_stale_commit)"
proof -
  have "ex_contents = ''{'' @ drop 1 ex_contents" using ex_stale_start by (metis append_take_drop_id)
  then obtain r where r: "ex_contents = CHR ''{'' # r" by auto
  have "ex_node_hash ex_contents = replicate 32 CHR ''{''" unfolding r by (simp add: ex_node_hash_def)
  then have "hex_encode (oe_blake3 ex_stale_env ex_contents) = ex_node_id CHR ''{''" by (simp add: ex_stale_env_def ex_node_id_def)
  moreover have "ex_dir (ex_node_id CHR ''{'') = None" by (simp add: ex_dir_def)
  moreover have "snd (FinalizeCommit (\<lambda>_ ks. ks) ex_topics (finalize_input (ex_key ''s2'') ex_snapshot_at ex_stale_commit ex_stale_notes)
      ex_stale_store) = Inr ()" by code_simp
  then have "FinalizeCommit (\<lambda>_ ks. ks) ex_topics (finalize_input (ex_key ''s2'') ex_snapshot_at ex_stale_commit ex_stale_notes)
      ex_stale_store = (ex_stale_finalized, Inr ())" by (simp add: ex_stale_finalized_def prod_eq_iff)
  moreover have "elems (obj_Notes ex_stale_object) = ex_stale_notes" by (simp add: ex_stale_object_def context_object_def)
  moreover have "run_before_write ex_run = Inr ()" "run_write ex_run = WriteWorks" "run_after_write ex_run = Inr ()"
    by (simp_all add: ex_run_def)
  ultimately show ?thesis
    by (simp add: Commit_def ex_stale_plan ex_stale_contents Let_def WriteObject_def ex_stale_commit_def)
qed

theorem stale_commit_unreadable_witness:
  "cref_CommitID (currentContextRef ''main'' ex_stale_finalized) = commit_ID ex_stale_commit
   \<and> stored_graph ex_stale_env (ex_dir(ex_node_id CHR ''{'' \<mapsto> ex_contents)) (ex_key ''s2'') (commit_ID ex_stale_commit) = Inl CodeValidation"
proof -
  have inv: "local_inv (fst (ex_stale_store, ex_dir))"
    unfolding fst_conv ex_stale_store_def by (rule ex_store_inv) (simp_all add: table_ok_def)
  have listed: "elems (obj_Notes ex_stale_object) = ex_stale_notes" by (simp add: ex_stale_object_def context_object_def)
  have "ex_note ''h'' NoteBindingNeedsReview ''s1'' \<in> set (elems (obj_Notes ex_stale_object))" by (simp add: listed ex_stale_notes_def)
  moreover have "note_BindingSourceSHA (ex_note ''h'' NoteBindingNeedsReview ''s1'') \<noteq> key_SourceSHA (ex_key ''s2'')"
    by (simp add: ex_note_def ex_key_def)
  moreover have "hash_32 (oe_blake3 ex_stale_env)" "0 < oe_fuel ex_stale_env" by (simp_all add: ex_stale_env_def ex_node_hash_32)
  moreover have "oe_decode ex_stale_env ex_contents = Decoded ex_stale_object True"
    by (simp add: ex_stale_env_def ex_stale_decode_def ex_stale_start del: take_Suc_Cons One_nat_def)
  moreover have "key_RefName (ex_key ''s2'') = ''main''" by (simp add: ex_key_def)
  ultimately show ?thesis
    using stale_commit_unreadable [OF inv ex_stale_run ex_stale_plan _ _ _ _ ex_stale_contents _ refl refl refl] by metis
qed

text \<open>The object of that commit is rejected, exactly because of the note.\<close>

theorem commit_object_valid_witness:
  "validateContextObject ex_stale_object ''repo'' ''main'' \<noteq> Inr ()"
proof -
  have "keys_without_nul (elems (obj_Notes ex_stale_object))"
    by (simp add: ex_stale_object_def context_object_def ex_stale_notes_def keys_without_nul_def ex_note_def no_nul_def)
  moreover have "snap_ParentID ex_snapshot_at = [] \<or> canonical_id (snap_ParentID ex_snapshot_at)"
    by (simp add: ex_snapshot_at_def ex_root_def ex_node_canonical)
  moreover have "\<not> list_all (note_wf ex_stale_object) (elems (obj_Notes ex_stale_object))"
    by (simp add: ex_stale_object_def context_object_def ex_stale_notes_def note_wf_def revision_binding_ok_def ex_note_def ex_key_def)
  moreover have "key_RepositoryID (ex_key ''s2'') = ''repo''" "key_RefName (ex_key ''s2'') = ''main''" by (simp_all add: ex_key_def)
  ultimately show ?thesis
    using commit_object_valid [OF insertion_order.map_iteration_axioms ex_stale_plan] by simp
qed

end
