(* ===== verification/Sync_Examples.thy ===== *)
theory Sync_Examples
  imports Sync_Properties Local_Examples
begin

text \<open>
  Two clones and a shared directory: one pushes the commit \<open>k\<close> of the example ancestry, the other,
  which is at the root, pulls it.
\<close>

declare NormalizeContextCommitID_eq [code]

definition ex_next_ref :: Ref where
  "ex_next_ref = \<lparr>ref_RefName = ''main'', ref_CommitID = ex_node_id CHR ''k'', ref_SourceSHA = ex_sha, ref_Version = 1\<rparr>"

definition ex_remote_env :: remote_env where
  "ex_remote_env = \<lparr>re_blake3 = ex_node_hash, re_sha256 = (\<lambda>s. s),
     re_ref = (\<lambda>contents. if json_marshal (ref_json ex_next_ref) = Some contents then Some ex_next_ref else None)\<rparr>"

definition ex_file_run :: file_run where
  "ex_file_run = \<lparr>fr_publish = (\<lambda>_. (WriteWorks, ex_time)), fr_swap = (WriteWorks, ex_time)\<rparr>"

definition ex_sync_run :: "remote_files sync_run" where
  "ex_sync_run = \<lparr>sy_key = Inr (ex_key ex_sha), sy_store = Inr (), sy_dial = (\<lambda>_. Inr (filesystem ex_remote_env ex_file_run)),
     sy_faults = (\<lambda>_. WriteWorks), sy_before_move = Inr ()\<rparr>"

definition ex_no_files :: remote_files where
  "ex_no_files = \<lparr>fs_objects = [], fs_refs = [], fs_packs = []\<rparr>"

definition ex_clone :: "char \<Rightarrow> local_db" where
  "ex_clone c = (ex_store ex_sha [] [] [])
     \<lparr>ldb_refs := [\<lparr>lrr_RefName = ''main'', lrr_CommitID = ex_node_id c, lrr_SourceSHA = ex_sha, lrr_Version = 1\<rparr>],
      ldb_remotes := [\<lparr>rmr_Name = ''origin'', rmr_Path = ''/srv/context''\<rparr>]\<rparr>"

definition ex_push :: "(local_state \<times> remote_files) \<times> RemoteSyncResult result" where
  "ex_push = PushRemote ex_env ex_sync_run ''origin'' ((ex_clone CHR ''k'', ex_dir), ex_no_files)"

definition ex_tip :: ContextRef where
  "ex_tip = \<lparr>cref_RefName = ''main'', cref_CommitID = ex_node_id CHR ''k'', cref_SourceSHA = ex_sha, cref_Version = 1\<rparr>"

definition ex_chain :: "ObjectRecord list" where
  "ex_chain = map object_record (map ex_item ''alk'')"

text \<open>The directory after the objects were published, and after the swap; the pusher's database at the end.\<close>

definition ex_published :: remote_files where
  "ex_published = fst (publish_chain (filesystem ex_remote_env ex_file_run) 0 0 ex_chain ex_no_files)"

definition ex_shared :: remote_files where
  "ex_shared = fst (fs_CompareAndSwapRef ex_remote_env WriteWorks ex_time ''main'' (empty_ref ''main'') ex_next_ref ex_published)"

definition ex_pushed_db :: local_db where
  "ex_pushed_db = fst (record_push ''origin'' (ex_key ex_sha) ex_tip ex_next_ref ''pushed'' 3 (ex_clone CHR ''k''))"

definition ex_pushed_result :: RemoteSyncResult where
  "ex_pushed_result = push_result ''origin'' (ex_key ex_sha) ex_tip ex_next_ref ''pushed'' 3"

lemma ex_local_reads:
  "read_Remote ''origin'' (ex_clone CHR ''k'') = Inr (''origin'', ''/srv/context'')"
  "read_ContextRef (ex_key ex_sha) (ex_clone CHR ''k'') = Inr (ex_clone CHR ''k'', ex_tip)"
  "currentContextRef ''main'' (ex_clone CHR ''k'') = ex_tip"
  by code_simp+

lemma ex_remote_writes:
  "fs_ReadRef ex_remote_env ''main'' ex_no_files = Inr (empty_ref ''main'')"
  "snd (publish_chain (filesystem ex_remote_env ex_file_run) 0 0 ex_chain ex_no_files) = Inr 3"
  "snd (fs_CompareAndSwapRef ex_remote_env WriteWorks ex_time ''main'' (empty_ref ''main'') ex_next_ref ex_published) = Inr ex_next_ref"
  "snd (record_push ''origin'' (ex_key ex_sha) ex_tip ex_next_ref ''pushed'' 3 (ex_clone CHR ''k'')) = Inr ex_pushed_result"
  by code_simp+

lemma ex_stored: "stored_graph ex_env ex_dir (ex_key ex_sha) (ex_node_id CHR ''k'') = Inr (map ex_item ''alk'')"
  using ex_graph(1) by (simp add: stored_graph_def ex_env_def ex_key_def)

lemma ex_dials: "dials ex_sync_run (filesystem ex_remote_env ex_file_run)"
  by (simp add: dials_def ex_sync_run_def)

lemma ex_push: "PushRemote ex_env ex_sync_run ''origin'' ((ex_clone CHR ''k'', ex_dir), ex_no_files)
    = (((ex_pushed_db, ex_dir), ex_shared), Inr ex_pushed_result)"
proof -
  have sel: "key_RefName (ex_key ex_sha) = ''main''" "cref_CommitID ex_tip = ex_node_id CHR ''k''" "ex_node_id CHR ''k'' \<noteq> []"
    "ref_CommitID (empty_ref ''main'') = []" "sy_key ex_sync_run = Inr (ex_key ex_sha)" "sy_store ex_sync_run = Inr ()"
    "sy_dial ex_sync_run path = Inr (filesystem ex_remote_env ex_file_run)" "fr_swap ex_file_run = (WriteWorks, ex_time)"
    "pushed_ref (ex_key ex_sha) ex_tip (empty_ref ''main'') = ex_next_ref" for path
    using ex_node_canonical canonical_id_nonempty
    by (simp_all add: ex_key_def ex_tip_def empty_ref_def ex_sync_run_def ex_file_run_def pushed_ref_def ex_next_ref_def)
  then have "[] \<noteq> ex_node_id CHR ''k''" by metis
  have start: "push_start ex_sync_run ''origin'' (ex_clone CHR ''k'') ex_no_files
      = Inr (ex_key ex_sha, ex_tip, ''origin'', filesystem ex_remote_env ex_file_run, empty_ref ''main'')"
    by (simp add: push_start_def ex_local_reads ex_remote_writes sel)
  have chain: "push_chain ex_env ex_dir (ex_key ex_sha) ex_tip (empty_ref ''main'') = Inr ex_chain"
    by (simp only: push_chain_def ex_chain_def sel ex_stored and_then.simps Let_def simp_thms if_True)
  have "publish_chain (filesystem ex_remote_env ex_file_run) 0 0 ex_chain ex_no_files = (ex_published, Inr 3)"
    "fs_CompareAndSwapRef ex_remote_env WriteWorks ex_time ''main'' (empty_ref ''main'') ex_next_ref ex_published = (ex_shared, Inr ex_next_ref)"
    and recorded: "record_push ''origin'' (ex_key ex_sha) ex_tip ex_next_ref ''pushed'' 3 (ex_clone CHR ''k'') = (ex_pushed_db, Inr ex_pushed_result)"
    by (rule prod_eqI; simp only: fst_conv snd_conv ex_remote_writes ex_published_def [symmetric] ex_shared_def [symmetric]
        ex_pushed_db_def [symmetric])+
  then have "push_objects ex_env ex_dir (ex_key ex_sha) ex_tip (filesystem ex_remote_env ex_file_run) (empty_ref ''main'') ex_no_files
      = (ex_shared, Inr (ex_next_ref, 3))"
    unfolding push_objects_def chain by (simp add: sel)
  with recorded \<open>[] \<noteq> ex_node_id CHR ''k''\<close> show ?thesis by (simp add: PushRemote_def start sel)
qed

theorem push_fast_forwards_witness:
  "keeps_objects (filesystem ex_remote_env ex_file_run) ex_no_files ex_shared
   \<and> pushes (filesystem ex_remote_env ex_file_run) (ref_stored ex_remote_env) ex_env ex_dir (ex_key ex_sha) ex_tip
       (empty_ref ''main'') ex_no_files ex_shared"
proof -
  have sel: "sy_key ex_sync_run = Inr (ex_key ex_sha)" "rsr_Outcome ex_pushed_result = ''pushed''" "key_RefName (ex_key ex_sha) = ''main''"
    by (simp_all add: ex_sync_run_def ex_pushed_result_def push_result_def ex_key_def)
  from push_fast_forwards [OF ex_push ex_dials sel(1)] sel(2) obtain local remoteRef where
    "keeps_objects (filesystem ex_remote_env ex_file_run) ex_no_files ex_shared"
    "read_ContextRef (ex_key ex_sha) (ex_clone CHR ''k'') = Inr (ex_clone CHR ''k'', local)"
    "pushes (filesystem ex_remote_env ex_file_run) (ref_stored ex_remote_env) ex_env ex_dir (ex_key ex_sha) local remoteRef
       ex_no_files ex_shared" by auto
  moreover from this(3) have "remoteRef = empty_ref ''main''" using ex_remote_writes(1) by (simp add: pushes_def sel(3))
  ultimately show ?thesis by (simp add: ex_local_reads)
qed

lemma ex_ref_stored: "ref_stored ex_remote_env ex_next_ref"
proof -
  have "json_marshal (ref_json ex_next_ref) \<noteq> None" by code_simp
  then show ?thesis using ex_node_canonical
    by (auto simp: ref_stored_def ex_remote_env_def) (simp add: ex_next_ref_def)
qed

theorem push_then_fetch_witness:
  "loadObjectGraphFrom ex_node_hash ex_decode 8 (ex_node_id CHR ''k'') ''repo'' ''main''
     (\<lambda>oid. fs_ReadObject ex_node_hash oid ex_shared) = Some (Inr (map ex_item ''alk''))"
proof -
  have sel: "sy_key ex_sync_run = Inr (ex_key ex_sha)" "rsr_Outcome ex_pushed_result = ''pushed''" "key_RefName (ex_key ex_sha) = ''main''"
    "rsr_LocalTip ex_pushed_result = ex_node_id CHR ''k''" "key_RepositoryID (ex_key ex_sha) = ''repo''"
    "re_blake3 ex_remote_env = ex_node_hash" "oe_blake3 ex_env = ex_node_hash" "oe_decode ex_env = ex_decode" "oe_fuel ex_env = 8"
    by (simp_all add: ex_sync_run_def ex_pushed_result_def push_result_def ex_key_def ex_tip_def ex_remote_env_def ex_env_def)
  have before: "fs_ReadRef ex_remote_env (key_RefName (ex_key ex_sha)) ex_no_files = Inr (empty_ref ''main'')"
    by (simp add: sel ex_remote_writes)
  have "pushed_ref (ex_key ex_sha) (currentContextRef (key_RefName (ex_key ex_sha)) (ex_clone CHR ''k'')) (empty_ref ''main'') = ex_next_ref"
    by (simp add: sel ex_local_reads) (simp add: ex_tip_def pushed_ref_def ex_next_ref_def ex_key_def empty_ref_def)
  with ex_ref_stored have "ref_stored ex_remote_env
      (pushed_ref (ex_key ex_sha) (currentContextRef (key_RefName (ex_key ex_sha)) (ex_clone CHR ''k'')) (empty_ref ''main''))" by simp
  from push_then_fetch [OF ex_push sel(2) ex_dials sel(1) before this ex_dials sel(1) refl refl] ex_stored
  show ?thesis by (auto simp: sel)
qed

subsection \<open>Pulling what was pushed\<close>

text \<open>The other clone is at the root and has the objects of the example directory.\<close>

lemma ex_pushes: "pushes (filesystem ex_remote_env ex_file_run) (ref_stored ex_remote_env) ex_env ex_dir (ex_key ex_sha) ex_tip
    (empty_ref ''main'') ex_no_files ex_shared"
proof -
  have sel: "sy_key ex_sync_run = Inr (ex_key ex_sha)" "rsr_Outcome ex_pushed_result = ''pushed''" "key_RefName (ex_key ex_sha) = ''main''"
    by (simp_all add: ex_sync_run_def ex_pushed_result_def push_result_def ex_key_def)
  from shared_directory.push_remote_run [OF ex_push ex_dials sel(1)] sel(2) obtain local remoteRef where
    "read_ContextRef (ex_key ex_sha) (ex_clone CHR ''k'') = Inr (ex_clone CHR ''k'', local)"
    and p: "pushes (filesystem ex_remote_env ex_file_run) (ref_stored ex_remote_env) ex_env ex_dir (ex_key ex_sha) local remoteRef
       ex_no_files ex_shared" by auto
  moreover from p have "remoteRef = empty_ref ''main''" using ex_remote_writes(1) by (simp add: pushes_def sel(3))
  ultimately show ?thesis by (simp add: ex_local_reads)
qed

lemma ex_shared_load: "loadObjectGraphFrom ex_node_hash ex_decode 8 (ex_node_id CHR ''k'') ''repo'' ''main''
    (\<lambda>oid. fs_ReadObject ex_node_hash oid ex_shared) = Some (Inr (map ex_item ''alk''))"
proof (rule load_copied)
  show "loadObjectGraphFrom ex_node_hash ex_decode 8 (ex_node_id CHR ''k'') ''repo'' ''main'' (read_object_file ex_dir)
      = Some (Inr (map ex_item ''alk''))"
    using ex_graph(1) by (simp add: loadObjectGraph_def)
  show "fs_ReadObject ex_node_hash (sco_ID y) ex_shared = Inr (sco_Contents y)" if "y \<in> set (map ex_item ''alk'')" for y
  proof -
    have "cref_CommitID ex_tip = ex_node_id CHR ''k''" by (simp add: ex_tip_def)
    with ex_pushes ex_stored that show ?thesis by (auto simp: pushes_def ex_remote_env_def)
  qed
qed

lemma ex_import: "stored_import ex_env (\<lambda>_. WriteWorks) (ex_key ex_sha) (ex_node_id CHR ''k'')
    (\<lambda>oid. fs_ReadObject ex_node_hash oid ex_shared) ex_dir
    = (ex_dir, Inr \<lparr>chain_TipID = ex_node_id CHR ''k'', chain_SourceSHA = ex_sha, chain_Count = 3\<rparr>)"
proof -
  have "import_objects (\<lambda>_. WriteWorks) 0 (map ex_item ''alk'') ex_dir = (ex_dir, Inr ())"
    by (simp add: ex_item_def WriteObject_def ex_dir_def)
  from import_run [OF ex_shared_load this] show ?thesis
    by (simp add: stored_import_def ex_env_def ex_key_def) (simp add: ex_item_def ex_node_def)
qed

lemma ex_root_inv: "local_inv (ex_clone CHR ''a'')"
proof -
  have "local_inv (ex_store ex_sha [] [] [])" by (rule ex_store_inv) (simp_all add: table_ok_def)
  then show ?thesis by (simp add: ex_clone_def local_inv_def table_ok_def ex_store_def empty_local_db_def commit_ids_def names_commit_def ex_root_def)
qed

definition ex_fetched :: local_db where
  "ex_fetched = fst (RecordRemoteRef (tracking_ref ''origin'' ''main'' ex_next_ref) (ex_clone CHR ''a''))"

definition ex_pull_input :: FastForwardInput where
  "ex_pull_input = \<lparr>ff_Key = ex_key ex_sha, ff_Expected = ex_tip\<lparr>cref_CommitID := ex_root\<rparr>, ff_Next = local_of_ref ''main'' ex_next_ref\<rparr>"

definition ex_pulled :: local_db where
  "ex_pulled = fst (transaction (fast_forward (\<lambda>_ ks. ks) ex_topics ex_pull_input (map ex_item ''alk'')) ex_fetched)"

lemma ex_pull_steps:
  "read_Remote ''origin'' (ex_clone CHR ''a'') = Inr (''origin'', ''/srv/context'')"
  "read_ContextRef (ex_key ex_sha) (ex_clone CHR ''a'') = Inr (ex_clone CHR ''a'', ex_tip\<lparr>cref_CommitID := ex_root\<rparr>)"
  "listPendingNotes ex_topics ''w'' (ex_clone CHR ''a'') = Inr (ex_clone CHR ''a'', [])"
  "snd (RecordRemoteRef (tracking_ref ''origin'' ''main'' ex_next_ref) (ex_clone CHR ''a'')) = Inr ()"
  "snd (transaction (fast_forward (\<lambda>_ ks. ks) ex_topics ex_pull_input (map ex_item ''alk'')) ex_fetched) = Inr ()"
  by code_simp+

definition ex_pull_result :: "string \<Rightarrow> RemoteSyncResult" where
  "ex_pull_result outcome = \<lparr>rsr_RemoteName = ''origin'', rsr_RefName = ''main'', rsr_LocalTip = ex_root,
     rsr_RemoteTip = ex_node_id CHR ''k'', rsr_TrackingTip = ex_node_id CHR ''k'', rsr_Outcome = outcome, rsr_TransferredObjects = 3\<rparr>"

definition ex_pull_tip :: fetchedRemote where
  "ex_pull_tip = \<lparr>fetched_Local = ex_tip\<lparr>cref_CommitID := ex_root\<rparr>, fetched_Remote = local_of_ref ''main'' ex_next_ref, fetched_Count = 3\<rparr>"

lemma ex_fetch: "fetchRemote ex_env ex_sync_run (ex_key ex_sha) ''origin'' (ex_clone CHR ''a'', ex_dir) ex_shared
    = ((ex_fetched, ex_dir), Inr (ex_pull_result ''fetched'', ex_pull_tip))"
proof -
  have sel: "key_RefName (ex_key ex_sha) = ''main''" "sy_dial ex_sync_run path = Inr (filesystem ex_remote_env ex_file_run)"
    "sy_faults ex_sync_run = (\<lambda>_. WriteWorks)" "re_blake3 ex_remote_env = ex_node_hash" "ref_CommitID ex_next_ref = ex_node_id CHR ''k''"
    "ref_SourceSHA ex_next_ref = ex_sha" "ex_node_id CHR ''k'' \<noteq> []" for path
    using ex_node_canonical canonical_id_nonempty
    by (simp_all add: ex_key_def ex_sync_run_def ex_remote_env_def ex_next_ref_def)
  have ref: "fs_ReadRef ex_remote_env ''main'' ex_shared = Inr ex_next_ref"
  proof -
    have "pushed_ref (ex_key ex_sha) ex_tip (empty_ref ''main'') = ex_next_ref"
      by (simp add: ex_key_def ex_tip_def pushed_ref_def ex_next_ref_def empty_ref_def)
    with ex_pushes ex_ref_stored show ?thesis by (simp add: pushes_def sel(1))
  qed
  have start: "fetch_start ex_sync_run (ex_key ex_sha) ''origin'' (ex_clone CHR ''a'') ex_shared
      = Inr (''origin'', ex_tip\<lparr>cref_CommitID := ex_root\<rparr>, filesystem ex_remote_env ex_file_run, ex_next_ref)"
    by (simp add: fetch_start_def ex_pull_steps sel ref)
  have "RecordRemoteRef (tracking_ref ''origin'' ''main'' ex_next_ref) (ex_clone CHR ''a'') = (ex_fetched, Inr ())"
    by (rule prod_eqI; simp only: fst_conv snd_conv ex_pull_steps ex_fetched_def [symmetric])
  then show ?thesis
    by (simp add: fetchRemote_def start sel ex_import Let_def fetch_result_def ex_pull_result_def ex_pull_tip_def)
qed

lemma ex_pull: "PullRemote ex_env (\<lambda>_ ks. ks) ex_topics ex_sync_run ''origin'' (ex_clone CHR ''a'', ex_dir) ex_shared
    = ((ex_pulled, ex_dir), Inr (ex_pull_result ''pulled''))"
proof -
  have start: "pull_start ex_topics ex_sync_run (ex_clone CHR ''a'') = Inr (ex_key ex_sha)"
  proof -
    have "key_WorktreeID (ex_key ex_sha) = ''w''" by (simp add: ex_key_def)
    then show ?thesis using ex_pull_steps(3) by (simp add: pull_start_def ex_sync_run_def)
  qed
  have "stored_ancestor ex_env ex_dir (ex_key ex_sha) (ex_node_id CHR ''k'') ex_root = Inr True"
    using ex_graph(1) by (simp add: stored_ancestor_def IsAncestor_def ex_env_def ex_key_def ex_root_def ex_item_def)
  moreover have tips: "cref_CommitID (fetched_Remote ex_pull_tip) = ex_node_id CHR ''k''" "cref_CommitID (fetched_Local ex_pull_tip) = ex_root"
    "cref_SourceSHA (fetched_Remote ex_pull_tip) = ex_sha" "key_SourceSHA (ex_key ex_sha) = ex_sha" "sy_before_move ex_sync_run = Inr ()"
    "ex_pull_input = \<lparr>ff_Key = ex_key ex_sha, ff_Expected = fetched_Local ex_pull_tip, ff_Next = fetched_Remote ex_pull_tip\<rparr>"
    by (simp_all add: ex_pull_tip_def local_of_ref_def ex_next_ref_def ex_key_def ex_sync_run_def ex_pull_input_def)
  moreover have neq: "ex_node_id CHR ''k'' \<noteq> []" "ex_node_id CHR ''k'' \<noteq> ex_root"
    using ex_node_canonical canonical_id_nonempty by (simp_all add: ex_root_def)
  ultimately have decision: "pull_decision ex_env ex_dir ex_sync_run (ex_key ex_sha) ex_pull_tip = Inr (Some ex_pull_input)"
    by (simp add: pull_decision_def)
  have "transaction (fast_forward (\<lambda>_ ks. ks) ex_topics ex_pull_input (map ex_item ''alk'')) ex_fetched = (ex_pulled, Inr ())"
    by (rule prod_eqI; simp only: fst_conv snd_conv ex_pull_steps ex_pulled_def [symmetric])
  moreover have "in_chain ex_root (map ex_item ''alk'')" "obj_SourceSHA (sco_Object (last (map ex_item ''alk''))) = ex_sha"
    by (simp_all add: in_chain_def ex_item_def ex_root_def ex_node_def)
  moreover have "cref_RefName (ff_Next ex_pull_input) = key_RefName (ff_Key ex_pull_input)" "ff_Key ex_pull_input = ex_key ex_sha"
    "cref_CommitID (ff_Next ex_pull_input) = ex_node_id CHR ''k''" "cref_CommitID (ff_Expected ex_pull_input) = ex_root"
    "cref_SourceSHA (ff_Next ex_pull_input) = ex_sha" "key_SourceSHA (ex_key ex_sha) = ex_sha"
    by (simp_all add: ex_pull_input_def local_of_ref_def ex_next_ref_def ex_key_def ex_tip_def)
  ultimately have "FastForward (\<lambda>_ ks. ks) ex_topics (stored_graph ex_env ex_dir (ex_key ex_sha)) ex_pull_input ex_fetched = (ex_pulled, Inr ())"
    unfolding FastForward_def Let_def by (simp add: ex_stored neq)
  then show ?thesis
    by (simp add: PullRemote_def start ex_fetch decision) (simp add: ex_pull_result_def)
qed

theorem pull_fast_forwards_witness:
  "listPendingNotes ex_topics (key_WorktreeID (ex_key ex_sha)) (ex_clone CHR ''a'') = Inr (ex_clone CHR ''a'', [])
   \<and> (\<exists>input. pulls ex_env ex_dir input (ex_pull_result ''pulled'') (ex_clone CHR ''a'') ex_pulled)"
proof -
  have "sy_key ex_sync_run = Inr (ex_key ex_sha)" "rsr_Outcome (ex_pull_result ''pulled'') = ''pulled''"
    by (simp_all add: ex_sync_run_def ex_pull_result_def)
  with pull_fast_forwards [OF ex_root_inv ex_pull ex_dials] show ?thesis by auto
qed

end
