(* ===== verification/Retrieval.thy ===== *)
theory Retrieval
  imports Local_Index Normalize_Facts
begin

text \<open>
  Retrieval of notes (retrieval/retrieval.go): a query is normalised, candidates that do not match it
  are dropped, and the others are deduplicated, ranked and limited.
\<close>

subsection \<open>strings and sort\<close>

text \<open>
  \<open>strings.Fields\<close>: the first byte of an encoded space never continues another rune, so the fields are
  split off byte by byte.
\<close>

function fields_from :: "int list \<Rightarrow> int list \<Rightarrow> int list list" where
  "fields_from field s = (case List.find (\<lambda>p. p \<noteq> [] \<and> starts_with s p) space_encodings of
       Some p \<Rightarrow> (if field = [] then [] else [field]) @ fields_from [] (drop (length p) s)
     | None \<Rightarrow> (case s of [] \<Rightarrow> if field = [] then [] else [field] | b # rest \<Rightarrow> fields_from (field @ [b]) rest))"
  by pat_completeness auto
termination
  by (relation "measure (\<lambda>(field, s). length s)")
    (auto simp: find_Some_iff starts_with_def, metis diff_less length_greater_0_conv list.size(3) take_eq_Nil2)

declare fields_from.simps [simp del]

definition Fields :: "string \<Rightarrow> string list" where
  "Fields s = map (map char_at) (fields_from [] (map byte_of s))"

fun Contains :: "string \<Rightarrow> string \<Rightarrow> bool" where
  "Contains [] t \<longleftrightarrow> t = []"
| "Contains (c # s) t \<longleftrightarrow> HasPrefix (c # s) t \<or> Contains s t"

definition TrimByte :: "char \<Rightarrow> string \<Rightarrow> string" where
  "TrimByte c s = rev (dropWhile (\<lambda>x. x = c) (rev (dropWhile (\<lambda>x. x = c) s)))"

text \<open>
  What \<open>sort.Slice\<close> promises for a strict weak order: a permutation in which no element is less than an
  earlier one.  The order of equal elements is open.
\<close>

locale slice_sort =
  fixes sorter :: "('a \<Rightarrow> 'a \<Rightarrow> bool) \<Rightarrow> 'a list \<Rightarrow> 'a list"
  assumes perm: "mset (sorter lt xs) = mset xs"
    and ordered: "(\<And>a b. lt a b \<Longrightarrow> \<not> lt b a) \<Longrightarrow> (\<And>a b c. \<not> lt a b \<Longrightarrow> \<not> lt b c \<Longrightarrow> \<not> lt a c)
      \<Longrightarrow> sorted_wrt (\<lambda>a b. \<not> lt b a) (sorter lt xs)"
begin

lemma set_sorter: "set (sorter lt xs) = set xs"
  by (metis perm set_mset_mset)

lemma length_sorter: "length (sorter lt xs) = length xs"
  by (metis perm size_mset)

lemma distinct_sorter: "distinct (map f (sorter lt xs)) = distinct (map f xs)"
  by (metis perm mset_map mset_eq_imp_distinct_iff)

lemma sorted_rank:
  fixes rank :: "'a \<Rightarrow> 'r :: linorder"
  shows "sorted (map rank (sorter (\<lambda>a b. rank a < rank b) xs))"
  using ordered [of "\<lambda>a b. rank a < rank b" xs] by (auto simp: sorted_map not_less)

end

text \<open>Insertion sort, which \<open>sort.Slice\<close> uses for short slices.\<close>

fun insert_less :: "('a \<Rightarrow> 'a \<Rightarrow> bool) \<Rightarrow> 'a \<Rightarrow> 'a list \<Rightarrow> 'a list" where
  "insert_less lt x [] = [x]"
| "insert_less lt x (y # ys) = (if lt y x then y # insert_less lt x ys else x # y # ys)"

definition insertion_sort :: "('a \<Rightarrow> 'a \<Rightarrow> bool) \<Rightarrow> 'a list \<Rightarrow> 'a list" where
  "insertion_sort lt xs = foldr (insert_less lt) xs []"

lemma mset_insert_less [simp]: "mset (insert_less lt x ys) = add_mset x (mset ys)"
  by (induction ys) auto

lemma set_insert_less [simp]: "set (insert_less lt x ys) = insert x (set ys)"
  by (metis mset_insert_less set_mset_add_mset_insert set_mset_mset)

lemma sorted_insert_less:
  assumes "\<And>a b. lt a b \<Longrightarrow> \<not> lt b a" "\<And>a b c. \<not> lt a b \<Longrightarrow> \<not> lt b c \<Longrightarrow> \<not> lt a c"
    and "sorted_wrt (\<lambda>a b. \<not> lt b a) ys"
  shows "sorted_wrt (\<lambda>a b. \<not> lt b a) (insert_less lt x ys)"
  using assms(3)
proof (induction ys)
  case Nil
  then show ?case by simp
next
  case (Cons y ys)
  show ?case
  proof (cases "lt y x")
    case True
    with Cons assms(1) show ?thesis by auto
  next
    case False
    have "\<not> lt z x" if "z \<in> set ys" for z using assms(2) [of z y x] False Cons.prems that by auto
    with False Cons.prems show ?thesis by auto
  qed
qed

lemma mset_insertion_sort: "mset (insertion_sort lt xs) = mset xs"
  by (induction xs) (simp_all add: insertion_sort_def)

lemma sorted_insertion_sort:
  assumes "\<And>a b. lt a b \<Longrightarrow> \<not> lt b a" "\<And>a b c. \<not> lt a b \<Longrightarrow> \<not> lt b c \<Longrightarrow> \<not> lt a c"
  shows "sorted_wrt (\<lambda>a b. \<not> lt b a) (insertion_sort lt xs)"
proof (induction xs)
  case Nil
  show ?case by (simp add: insertion_sort_def)
next
  case (Cons x xs)
  have "insertion_sort lt (x # xs) = insert_less lt x (insertion_sort lt xs)" by (simp add: insertion_sort_def)
  moreover have "sorted_wrt (\<lambda>a b. \<not> lt b a) (insert_less lt x (insertion_sort lt xs))"
    by (rule sorted_insert_less [OF _ _ Cons]) (erule assms(1), erule (1) assms(2))
  ultimately show ?case by simp
qed

interpretation insertion: slice_sort insertion_sort
  by unfold_locales (rule mset_insertion_sort, rule sorted_insertion_sort)

subsection \<open>Queries and bundles (domain/retrieval.go)\<close>

definition AnchorChange :: string where [go_defs]: "AnchorChange = ''change''"
definition AnchorEntity :: string where [go_defs]: "AnchorEntity = ''entity''"
definition AnchorText :: string where [go_defs]: "AnchorText = ''text''"

definition HistoryCurrent :: string where [go_defs]: "HistoryCurrent = ''current''"
definition HistoryAll :: string where [go_defs]: "HistoryAll = ''all''"

definition ReasonChangedEntity :: string where [go_defs]: "ReasonChangedEntity = ''changed_entity''"
definition ReasonDirectEntity :: string where [go_defs]: "ReasonDirectEntity = ''direct_entity''"
definition ReasonTextEntityField :: string where [go_defs]: "ReasonTextEntityField = ''text_entity_field''"
definition ReasonTextNoteBody :: string where [go_defs]: "ReasonTextNoteBody = ''text_note_body''"
definition ReasonTopicExact :: string where [go_defs]: "ReasonTopicExact = ''topic_exact''"
definition ReasonHistoricalRevision :: string where [go_defs]: "ReasonHistoricalRevision = ''historical_revision''"

record ContextAnchor =
  anc_Kind :: string
  anc_EntityKey :: string
  anc_Query :: string
  anc_BaseContextID :: string

record ContextQuery =
  cq_Anchor :: ContextAnchor
  cq_Text :: string
  cq_Kinds :: "NoteKind list"
  cq_States :: "NoteBindingState list"
  cq_Topics :: "string list option"
  cq_Languages :: "string list"
  cq_Paths :: "string list"
  cq_EntityKinds :: "EntityKind list"
  cq_History :: string
  cq_Limit :: int

record RetrievalSource =
  rsrc_SourceSHA :: string
  rsrc_ContextCommitID :: string
  rsrc_BaseSourceSHA :: string

record ResolvedAnchor =
  ranc_Kind :: string
  ranc_EntityKeys :: "string list"
  ranc_Query :: string
  ranc_Changes :: "EntityChange list"

record EntityRef =
  eref_Language :: string
  eref_EntityKey :: string
  eref_Kind :: EntityKind
  eref_Name :: string
  eref_Path :: string
  eref_SourceSHA :: string

record SelectionReason =
  sel_Kind :: string
  sel_MatchedField :: string
  sel_MatchedTerms :: "string list"
  sel_ChangeKind :: EntityChangeKind

record RetrievalDiagnostic =
  diag_Code :: string
  diag_Detail :: string
  diag_Language :: string

record ContextItem =
  item_Note :: Note
  item_BoundEntity :: EntityRef
  item_RootEntity :: EntityRef
  item_Reasons :: "SelectionReason list"
  item_Historical :: bool
  item_ContextCommit :: string

record ContextBundle =
  bundle_Source :: RetrievalSource
  bundle_Anchor :: ResolvedAnchor
  bundle_Complete :: bool
  bundle_Diagnostics :: "RetrievalDiagnostic list"
  bundle_Items :: "ContextItem list"

record retrievalCandidate =
  rc_Root :: Entity
  rc_Bound :: Entity
  rc_Note :: Note
  rc_Reasons :: "SelectionReason list"
  rc_Historical :: bool
  rc_ContextCommit :: string

record retrievalInput =
  rin_Query :: ContextQuery
  rin_Source :: RetrievalSource
  rin_Anchor :: ResolvedAnchor
  rin_Candidates :: "retrievalCandidate list"
  rin_Complete :: bool
  rin_Diagnostics :: "RetrievalDiagnostic list"

subsection \<open>Normalising a query\<close>

definition anchor_ok :: "ContextQuery \<Rightarrow> bool" where
  "anchor_ok q = (let a = cq_Anchor q in
     if anc_Kind a = AnchorEntity then anc_EntityKey a \<noteq> [] \<and> anc_Query a = [] \<and> anc_BaseContextID a = []
     else if anc_Kind a = AnchorText then anc_Query a \<noteq> [] \<and> anc_EntityKey a = [] \<and> anc_BaseContextID a = [] \<and> cq_Text q = []
     else if anc_Kind a = AnchorChange then anc_EntityKey a = [] \<and> anc_Query a = [] else False)"

definition trim_query :: "ContextQuery \<Rightarrow> ContextQuery" where
  "trim_query q = q\<lparr>cq_Anchor := (cq_Anchor q)\<lparr>anc_EntityKey := TrimSpace (anc_EntityKey (cq_Anchor q)),
       anc_Query := TrimSpace (anc_Query (cq_Anchor q)), anc_BaseContextID := TrimSpace (anc_BaseContextID (cq_Anchor q))\<rparr>,
     cq_Text := TrimSpace (cq_Text q)\<rparr>"

definition query_defaults :: "ContextQuery \<Rightarrow> ContextQuery" where
  "query_defaults q = q\<lparr>cq_History := (if cq_History q = [] then HistoryCurrent else cq_History q),
     cq_Limit := (if cq_Limit q = 0 then 20 else cq_Limit q),
     cq_States := (if cq_States q = [] then [NoteBindingActive] else cq_States q)\<rparr>"

definition NormalizeQuery :: "ContextQuery \<Rightarrow> ContextQuery result" where
  "NormalizeQuery query =
     (let q = trim_query query in
      if \<not> anchor_ok q then Inl CodeValidation
      else let q = query_defaults q in
      if cq_History q \<noteq> HistoryCurrent \<and> cq_History q \<noteq> HistoryAll then Inl CodeValidation
      else if cq_Limit q < 1 \<or> 100 < cq_Limit q then Inl CodeValidation
      else if \<not> list_all ValidNoteKind (cq_Kinds q) then Inl CodeValidation
      else if \<not> list_all ValidNoteBindingState (cq_States q) then Inl CodeValidation
      else case cq_Topics q of
        None \<Rightarrow> Inr q
      | Some topics \<Rightarrow> and_then (NormalizeNoteTopics topics) (\<lambda>topics. Inr (q\<lparr>cq_Topics := Some topics\<rparr>)))"

subsection \<open>Matching\<close>

definition containsAllTopics :: "string list \<Rightarrow> string list \<Rightarrow> bool" where
  "containsAllTopics noteTopics requested \<longleftrightarrow> list_all (\<lambda>topic. list_ex (\<lambda>candidate. candidate = topic) noteTopics) requested"

definition matchesText :: "string \<Rightarrow> retrievalCandidate \<Rightarrow> bool" where
  "matchesText query c =
     (let values = [ent_Key (rc_Bound c), ent_Name (rc_Bound c), ent_Signature (rc_Bound c), ent_Path (rc_Bound c), note_Body (rc_Note c)]
      in list_all (\<lambda>term. list_ex (\<lambda>value. Contains (ToLower value) term) values) (Fields (ToLower query)))"

definition hasPathPrefix :: "string list \<Rightarrow> string \<Rightarrow> bool" where
  "hasPathPrefix prefixes value = list_ex (\<lambda>prefix. let p = TrimByte (CHR ''/'') (TrimSpace prefix)
     in p \<noteq> [] \<and> (value = p \<or> HasPrefix value (p @ ''/''))) prefixes"

definition matches :: "ContextQuery \<Rightarrow> retrievalCandidate \<Rightarrow> bool" where
  "matches q c =
     (if rc_Historical c \<and> cq_History q \<noteq> HistoryAll then False
      else if note_BindingState (rc_Note c) \<notin> set (cq_States q) then False
      else if cq_Kinds q \<noteq> [] \<and> note_Kind (rc_Note c) \<notin> set (cq_Kinds q) then False
      else if cq_Languages q \<noteq> [] \<and> ent_Language (rc_Bound c) \<notin> set (cq_Languages q) then False
      else if cq_EntityKinds q \<noteq> [] \<and> ent_Kind (rc_Bound c) \<notin> set (cq_EntityKinds q) then False
      else if cq_Paths q \<noteq> [] \<and> \<not> hasPathPrefix (cq_Paths q) (ent_Path (rc_Bound c)) then False
      else if cq_Text q \<noteq> [] \<and> \<not> matchesText (cq_Text q) c then False
      else if elems (cq_Topics q) \<noteq> [] \<and> \<not> containsAllTopics (elems (note_Topics (rc_Note c))) (elems (cq_Topics q)) then False
      else True)"

subsection \<open>Assembling\<close>

definition entityRef :: "Entity \<Rightarrow> EntityRef" where
  "entityRef e = \<lparr>eref_Language = ent_Language e, eref_EntityKey = ent_Key e, eref_Kind = ent_Kind e, eref_Name = ent_Name e,
     eref_Path = ent_Path e, eref_SourceSHA = ent_SourceSHA e\<rparr>"

definition context_item :: "retrievalCandidate \<Rightarrow> ContextItem" where
  "context_item c = \<lparr>item_Note = rc_Note c, item_BoundEntity = entityRef (rc_Bound c), item_RootEntity = entityRef (rc_Root c),
     item_Reasons = rc_Reasons c, item_Historical = rc_Historical c, item_ContextCommit = rc_ContextCommit c\<rparr>"

definition Sprint_bool :: "bool \<Rightarrow> string" where
  "Sprint_bool b = (if b then ''true'' else ''false'')"

definition itemKey :: "ContextItem \<Rightarrow> string" where
  "itemKey i = Join [eref_EntityKey (item_RootEntity i), eref_EntityKey (item_BoundEntity i), note_ID (item_Note i),
     note_RevisionID (item_Note i), note_BindingState (item_Note i), note_BindingSourceSHA (item_Note i),
     Sprint_bool (item_Historical i), item_ContextCommit i] [char_at 0]"

definition reason_rank :: "SelectionReason \<Rightarrow> nat" where
  "reason_rank r = (if sel_Kind r \<in> {ReasonDirectEntity, ReasonTextEntityField, ReasonTextNoteBody} then 0 else 2)"

definition reasonPriority :: "SelectionReason list \<Rightarrow> nat" where
  "reasonPriority reasons = foldl (\<lambda>priority r. if reason_rank r < priority then reason_rank r else priority) 3 reasons"

definition noteKindPriority :: "NoteKind \<Rightarrow> nat" where
  "noteKindPriority kind = (if kind = NoteConstraint then 0 else if kind = NoteWarning then 1 else if kind = NoteDecision then 2
     else if kind = NoteIntent then 3 else if kind = NoteExample then 4 else 5)"

definition lessItem :: "ContextItem \<Rightarrow> ContextItem \<Rightarrow> bool" where
  "lessItem l r =
     (if item_Historical l \<noteq> item_Historical r then \<not> item_Historical l
      else if reasonPriority (item_Reasons l) \<noteq> reasonPriority (item_Reasons r)
        then reasonPriority (item_Reasons l) < reasonPriority (item_Reasons r)
      else if noteKindPriority (note_Kind (item_Note l)) \<noteq> noteKindPriority (note_Kind (item_Note r))
        then noteKindPriority (note_Kind (item_Note l)) < noteKindPriority (note_Kind (item_Note r))
      else if eref_EntityKey (item_BoundEntity l) \<noteq> eref_EntityKey (item_BoundEntity r)
        then eref_EntityKey (item_BoundEntity l) < eref_EntityKey (item_BoundEntity r)
      else if note_ID (item_Note l) \<noteq> note_ID (item_Note r) then note_ID (item_Note l) < note_ID (item_Note r)
      else note_RevisionID (item_Note l) < note_RevisionID (item_Note r))"

definition collect_step :: "ContextQuery \<Rightarrow> ContextItem list \<times> string set \<Rightarrow> retrievalCandidate \<Rightarrow> ContextItem list \<times> string set" where
  "collect_step q = (\<lambda>(items, seen) c.
     if \<not> matches q c then (items, seen)
     else let item = context_item c; key = itemKey item
          in if key \<in> seen then (items, seen) else (items @ [item], insert key seen))"

definition Assemble :: "((ContextItem \<Rightarrow> ContextItem \<Rightarrow> bool) \<Rightarrow> ContextItem list \<Rightarrow> ContextItem list) \<Rightarrow> retrievalInput
    \<Rightarrow> ContextBundle result" where
  "Assemble sorter inp =
     and_then (NormalizeQuery (rin_Query inp)) (\<lambda>query.
     let items = sorter lessItem (fst (foldl (collect_step query) ([], {}) (rin_Candidates inp)));
         limit = nat (cq_Limit query);
         truncated = limit < length items
     in Inr \<lparr>bundle_Source = rin_Source inp, bundle_Anchor = rin_Anchor inp,
       bundle_Complete = (rin_Complete inp \<and> \<not> truncated),
       bundle_Diagnostics = rin_Diagnostics inp @ (if truncated then
         [\<lparr>diag_Code = ''results_truncated'', diag_Detail = ''limited to '' @ Sprint_int (cq_Limit query) @ '' items'', diag_Language = []\<rparr>]
         else []),
       bundle_Items = (if truncated then take limit items else items)\<rparr>)"

end
