(* ===== verification/Context_Assembly.thy ===== *)
theory Context_Assembly
  imports Remote_Sync Retrieval
begin

text \<open>
  Assembling the context of an entity, of a text or of a change from the local store
  (store/retrieval.go, with the evidence of a text match from store/query.go): the roots an anchor
  selects, the notes bound to them, and older revisions from the ancestry.
\<close>

subsection \<open>Text evidence\<close>

text \<open>
  What is not part of the program: the letters and digits of Unicode (\<open>unicode.IsLetter\<close> or
  \<open>unicode.IsNumber\<close>; not the replacement rune), and what SQLite returns for a full-text match and for
  \<open>LIKE\<close> on the note bodies, best rank or first key first, at most 100 rows.
\<close>

record searchCandidate =
  sc_EntityKey :: string
  sc_Name :: string
  sc_Signature :: string
  sc_Path :: string
  sc_NoteBody :: string
  sc_Pending :: bool
  sc_Snippet :: string

record search_env =
  se_word :: "int \<Rightarrow> bool"
  se_match :: "string \<Rightarrow> string \<Rightarrow> local_db \<Rightarrow> searchCandidate list result"
  se_like :: "string \<Rightarrow> string \<Rightarrow> local_db \<Rightarrow> searchCandidate list result"

record SearchHit =
  hit_EntityKey :: string
  hit_Name :: string
  hit_Path :: string
  hit_Pending :: bool
  hit_Snippet :: string
  hit_MatchedFields :: "string list"
  hit_MatchedTerms :: "string list"
  hit_NoteIDs :: "string list"
  hit_BindingState :: NoteBindingState
  hit_Fresh :: bool

definition SearchMatchEntityKey :: string where [go_defs]: "SearchMatchEntityKey = ''entity_key''"
definition SearchMatchName :: string where [go_defs]: "SearchMatchName = ''name''"
definition SearchMatchSignature :: string where [go_defs]: "SearchMatchSignature = ''signature''"
definition SearchMatchPath :: string where [go_defs]: "SearchMatchPath = ''path''"
definition SearchMatchNoteBody :: string where [go_defs]: "SearchMatchNoteBody = ''note_body''"

text \<open>\<open>strings.FieldsFunc\<close> where the separators are the runes that are not in \<open>word\<close>.\<close>

fun rune_fields :: "(int \<Rightarrow> bool) \<Rightarrow> int list \<Rightarrow> int list \<Rightarrow> int list list" where
  "rune_fields word field [] = (if field = [] then [] else [field])"
| "rune_fields word field (r # rs) =
     (if word r then rune_fields word (field @ [r]) rs
      else (if field = [] then [] else [field]) @ rune_fields word [] rs)"

definition word_fields :: "(int \<Rightarrow> bool) \<Rightarrow> string \<Rightarrow> string list" where
  "word_fields word s = map (\<lambda>field. map char_at (concat (map encode_rune field))) (rune_fields word [] (runes s))"

definition containsSearchTerm :: "(int \<Rightarrow> bool) \<Rightarrow> string \<Rightarrow> string \<Rightarrow> bool" where
  "containsSearchTerm word value term =
     (let value = ToLower value; term = ToLower term
      in if Contains value term then True
         else let terms = word_fields (\<lambda>r. word r \<or> r = 95) term
           in if terms = [] then False else list_all (\<lambda>t. Contains value t) terms)"

definition append_unique :: "string list \<Rightarrow> string \<Rightarrow> string list" where
  "append_unique xs x = (if x \<in> set xs then xs else xs @ [x])"

definition field_step :: "(int \<Rightarrow> bool) \<Rightarrow> string \<Rightarrow> string list \<times> bool \<Rightarrow> string \<times> string \<Rightarrow> string list \<times> bool" where
  "field_step word term = (\<lambda>(flds, matched) (field, value).
     if containsSearchTerm word value term then (append_unique flds field, True) else (flds, matched))"

definition note_step :: "(int \<Rightarrow> bool) \<Rightarrow> string \<Rightarrow> string list \<times> string list \<times> bool \<Rightarrow> Note \<Rightarrow> string list \<times> string list \<times> bool" where
  "note_step word term = (\<lambda>(flds, ids, matched) n.
     if containsSearchTerm word (note_Body n) term
     then (append_unique flds SearchMatchNoteBody, append_unique ids (note_ID n), True) else (flds, ids, matched))"

definition term_step :: "(int \<Rightarrow> bool) \<Rightarrow> searchCandidate \<Rightarrow> Note list \<Rightarrow> string list \<times> string list \<times> string list \<Rightarrow> string
    \<Rightarrow> string list \<times> string list \<times> string list" where
  "term_step word c notes = (\<lambda>(flds, terms, ids) term.
     case foldl (field_step word term) (flds, False) [(SearchMatchEntityKey, sc_EntityKey c), (SearchMatchName, sc_Name c),
         (SearchMatchSignature, sc_Signature c), (SearchMatchPath, sc_Path c)] of (flds, matched) \<Rightarrow>
     case foldl (note_step word term) (flds, ids, matched) notes of (flds, ids, matched) \<Rightarrow>
       (flds, if matched then terms @ [term] else terms, ids))"

definition evidenceSearchHit :: "(int \<Rightarrow> bool) \<Rightarrow> searchCandidate \<Rightarrow> string list \<Rightarrow> Note list \<Rightarrow> SearchHit" where
  "evidenceSearchHit word c terms notes = (case foldl (term_step word c notes) ([], [], []) terms of (flds, matchedTerms, noteIDs) \<Rightarrow>
     \<lparr>hit_EntityKey = sc_EntityKey c, hit_Name = sc_Name c, hit_Path = sc_Path c, hit_Pending = sc_Pending c, hit_Snippet = sc_Snippet c,
       hit_MatchedFields = flds, hit_MatchedTerms = matchedTerms, hit_NoteIDs = noteIDs,
       hit_BindingState = (if noteIDs \<noteq> [] then NoteBindingActive else []), hit_Fresh = True\<rparr>)"

text \<open>\<open>ftsQuery\<close> quotes every term; a quote inside is doubled.\<close>

definition quote_token :: "string \<Rightarrow> string" where
  "quote_token token = ''\"'' @ concat (map (\<lambda>c. if c = CHR ''\"'' then ''\"\"'' else [c]) token) @ ''\"''"

definition ftsQuery :: "string \<Rightarrow> string result" where
  "ftsQuery query = (let tokens = Fields query in
     if tokens = [] then Inl CodeValidation else Inr (Join (map quote_token tokens) '' AND ''))"

definition containsNonASCII :: "string \<Rightarrow> bool" where
  "containsNonASCII value = list_ex (\<lambda>r. 127 < r) (runes value)"

definition scanSearchCandidates :: "searchCandidate list \<Rightarrow> searchCandidate gomap \<Rightarrow> searchCandidate gomap" where
  "scanSearchCandidates rows candidates = foldl (\<lambda>m c. map_put (sc_EntityKey c) c m) candidates rows"

definition exact_candidate :: "searchRow \<Rightarrow> searchCandidate" where
  "exact_candidate r = \<lparr>sc_EntityKey = sr_EntityKey r, sc_Name = sr_Name r, sc_Signature = sr_Signature r, sc_Path = sr_Path r,
     sc_NoteBody = sr_NoteBody r, sc_Pending = (sr_State r = ''pending''), sc_Snippet = []\<rparr>"

definition searchCandidates :: "search_env \<Rightarrow> string \<Rightarrow> string \<Rightarrow> string \<Rightarrow> local_db \<Rightarrow> (searchCandidate gomap \<times> bool) result" where
  "searchCandidates env worktreeID matchExpr query db =
     and_then (se_match env worktreeID matchExpr db) (\<lambda>rows.
     let candidates = scanSearchCandidates rows [];
         exact = take_row (\<lambda>r. sr_WorktreeID r = worktreeID \<and> sr_EntityKey r = query) (ldb_search db)
     in Inr ((case exact of None \<Rightarrow> candidates | Some r \<Rightarrow> map_put (sr_EntityKey r) (exact_candidate r) candidates), rows \<noteq> []))"

definition searchCandidatesByNoteBody :: "search_env \<Rightarrow> string \<Rightarrow> string \<Rightarrow> searchCandidate gomap \<Rightarrow> local_db \<Rightarrow> searchCandidate gomap result" where
  "searchCandidatesByNoteBody env worktreeID query candidates db =
     and_then (se_like env worktreeID query db) (\<lambda>rows. Inr (scanSearchCandidates rows candidates))"

subsection \<open>Roots\<close>

definition requestedNoteState :: "NoteBindingState list \<Rightarrow> NoteBindingState \<Rightarrow> bool" where
  "requestedNoteState states candidate = list_ex (\<lambda>s. s = candidate) states"

definition noteBodyMatchesTerms :: "(int \<Rightarrow> bool) \<Rightarrow> string \<Rightarrow> string list \<Rightarrow> bool" where
  "noteBodyMatchesTerms word body terms \<longleftrightarrow> terms \<noteq> [] \<and> list_all (containsSearchTerm word body) terms"

definition noteHasTopics :: "Note \<Rightarrow> string list \<Rightarrow> bool" where
  "noteHasTopics n topics \<longleftrightarrow> topics \<noteq> [] \<and> list_all (\<lambda>topic. list_ex (\<lambda>c. c = topic) (elems (note_Topics n))) topics"

type_synonym reason_map = "SelectionReason list gomap"

definition reasons_at :: "reason_map \<Rightarrow> string \<Rightarrow> SelectionReason list" where
  "reasons_at m k = (case map_of m k of None \<Rightarrow> [] | Some rs \<Rightarrow> rs)"

definition plain_reason :: "string \<Rightarrow> SelectionReason" where
  "plain_reason kind = \<lparr>sel_Kind = kind, sel_MatchedField = [], sel_MatchedTerms = [], sel_ChangeKind = []\<rparr>"

definition appendSelectionReason :: "SelectionReason list \<Rightarrow> SelectionReason \<Rightarrow> SelectionReason list" where
  "appendSelectionReason reasons reason =
     (if list_ex (\<lambda>existing. sel_Kind existing = sel_Kind reason) reasons then reasons else reasons @ [reason])"

definition changeRoots :: "EntityChange list \<Rightarrow> Entity list \<times> reason_map" where
  "changeRoots changes = foldl (\<lambda>(roots, reasons) change.
     let root = (if chg_Kind change = ChangeRemoved then chg_Base change else chg_Target change)
     in (roots @ [root], map_put (ent_Key root) [(plain_reason ReasonChangedEntity)\<lparr>sel_ChangeKind := chg_Kind change\<rparr>] reasons)) ([], []) changes"

definition currentNotes :: "map_order \<Rightarrow> topics_decoder \<Rightarrow> WorkingSetKey \<Rightarrow> local_db \<Rightarrow> (Note list \<times> string) result" where
  "currentNotes ord decode key db =
     (let parentID = fst (local_ref (key_RefName key) db) in
     and_then (if parentID = [] then Inr [] else and_then (listCommittedNotes decode parentID db) (\<lambda>(_, ns). Inr ns)) (\<lambda>committed.
     and_then (listPendingNotes decode (key_WorktreeID key) db) (\<lambda>(_, pending).
     Inr (effectiveNotes ord committed pending, parentID))))"

text \<open>The entities a text anchor may select: those of notes that need review may be in the parent only.\<close>

definition missing_step :: "Entity list \<times> string list \<Rightarrow> Entity \<Rightarrow> Entity list \<times> string list" where
  "missing_step = (\<lambda>(entities, missing) e.
     if ent_Key e \<notin> set missing then (entities, missing) else (entities @ [e], filter (\<lambda>k. k \<noteq> ent_Key e) missing))"

definition entitiesForAssemblyRoots :: "object_env \<Rightarrow> object_dir \<Rightarrow> WorkingSetKey \<Rightarrow> ContextQuery \<Rightarrow> Entity list \<Rightarrow> Note list \<Rightarrow> string
    \<Rightarrow> Entity list result" where
  "entitiesForAssemblyRoots env dir key query current notes parentID =
     (if anc_Kind (cq_Anchor query) \<noteq> AnchorText \<or> parentID = [] then Inr current
      else let missing = map note_EntityKey (filter (\<lambda>n. note_BindingState n = NoteBindingNeedsReview
             \<and> requestedNoteState (cq_States query) (note_BindingState n) \<and> note_EntityKey n \<notin> ent_Key ` set current) notes)
      in if missing = [] then Inr current
         else and_then (stored_object env dir key parentID) (\<lambda>parent.
           Inr (fst (foldl missing_step (current, missing) (elems (obj_Entities parent))))))"

definition notes_by_entity :: "Note list \<Rightarrow> Note list gomap" where
  "notes_by_entity notes = foldl (\<lambda>m n. map_put (note_EntityKey n)
     ((case map_of m (note_EntityKey n) of None \<Rightarrow> [] | Some ns \<Rightarrow> ns) @ [n]) m) [] notes"

definition body_step :: "search_env \<Rightarrow> Entity gomap \<Rightarrow> string list \<Rightarrow> searchCandidate gomap \<Rightarrow> string \<times> Note list \<Rightarrow> searchCandidate gomap" where
  "body_step env byKey terms = (\<lambda>candidates (entityKey, ns). case map_of byKey entityKey of
       None \<Rightarrow> candidates
     | Some e \<Rightarrow> (case List.find (\<lambda>n. noteBodyMatchesTerms (se_word env) (note_Body n) terms) ns of
         None \<Rightarrow> candidates
       | Some n \<Rightarrow> map_put entityKey \<lparr>sc_EntityKey = ent_Key e, sc_Name = ent_Name e, sc_Signature = ent_Signature e,
           sc_Path = ent_Path e, sc_NoteBody = [], sc_Pending = note_Pending n, sc_Snippet = []\<rparr> candidates))"

definition field_reason :: "string list \<Rightarrow> string \<Rightarrow> SelectionReason" where
  "field_reason terms field = \<lparr>sel_Kind = (if field = SearchMatchNoteBody then ReasonTextNoteBody else ReasonTextEntityField),
     sel_MatchedField = field, sel_MatchedTerms = terms, sel_ChangeKind = []\<rparr>"

definition candidate_step :: "search_env \<Rightarrow> Entity gomap \<Rightarrow> Note list gomap \<Rightarrow> string list \<Rightarrow> Entity gomap \<times> reason_map
    \<Rightarrow> string \<times> searchCandidate \<Rightarrow> Entity gomap \<times> reason_map" where
  "candidate_step env byKey selected terms = (\<lambda>(rootsByKey, reasons) (_, c). case map_of byKey (sc_EntityKey c) of
       None \<Rightarrow> (rootsByKey, reasons)
     | Some e \<Rightarrow>
       let hit = evidenceSearchHit (se_word env) c terms (case map_of selected (ent_Key e) of None \<Rightarrow> [] | Some ns \<Rightarrow> ns)
       in if hit_MatchedFields hit = [] then (rootsByKey, reasons)
          else (map_put (ent_Key e) e rootsByKey, map_put (ent_Key e) (reasons_at reasons (ent_Key e)
            @ map (field_reason (hit_MatchedTerms hit)) (hit_MatchedFields hit)) reasons))"

definition topic_step :: "ContextQuery \<Rightarrow> Entity gomap \<Rightarrow> Entity gomap \<times> reason_map \<Rightarrow> Note \<Rightarrow> Entity gomap \<times> reason_map" where
  "topic_step query byKey = (\<lambda>(rootsByKey, reasons) n.
     if \<not> requestedNoteState (cq_States query) (note_BindingState n) \<or> \<not> noteHasTopics n (elems (cq_Topics query)) then (rootsByKey, reasons)
     else case map_of byKey (note_EntityKey n) of
         None \<Rightarrow> (rootsByKey, reasons)
       | Some e \<Rightarrow> (map_put (ent_Key e) e rootsByKey, map_put (ent_Key e) (appendSelectionReason (reasons_at reasons (ent_Key e))
           ((plain_reason ReasonTopicExact)\<lparr>sel_MatchedTerms := elems (cq_Topics query)\<rparr>)) reasons))"

definition text_roots :: "search_env \<Rightarrow> map_order \<Rightarrow> ContextQuery \<Rightarrow> Entity list \<Rightarrow> Note list \<Rightarrow> searchCandidate gomap \<Rightarrow> Entity list \<times> reason_map" where
  "text_roots env ord query entities notes candidates =
     (let selected = notes_by_entity (filter (\<lambda>n. requestedNoteState (cq_States query) (note_BindingState n)) notes);
          byKey = entities_by_key entities;
          terms = Fields (anc_Query (cq_Anchor query));
          candidates = foldl (body_step env byKey terms) candidates (map_range ord 10 selected);
          (rootsByKey, reasons) = foldl (topic_step query byKey)
            (foldl (candidate_step env byKey selected terms) ([], []) (map_range ord 11 candidates)) notes
      in (sort_key ent_Key (map snd (map_range ord 12 rootsByKey)), reasons))"

definition assemblyRoots :: "search_env \<Rightarrow> map_order \<Rightarrow> WorkingSetKey \<Rightarrow> ContextQuery \<Rightarrow> Entity list \<Rightarrow> Note list \<Rightarrow> local_db
    \<Rightarrow> (Entity list \<times> reason_map) result" where
  "assemblyRoots env ord key query entities notes db =
     (if anc_Kind (cq_Anchor query) = AnchorEntity
      then and_then (entityByKeyFresh (key_WorktreeID key) (key_SourceSHA key) (anc_EntityKey (cq_Anchor query)) db) (\<lambda>root.
        Inr ([root], [(ent_Key root, [plain_reason ReasonDirectEntity])]))
      else let text = anc_Query (cq_Anchor query) in
        and_then (ftsQuery text) (\<lambda>matchExpr.
        and_then (searchCandidates env (key_WorktreeID key) matchExpr text db) (\<lambda>(candidates, found).
        and_then (if \<not> found \<and> containsNonASCII text then searchCandidatesByNoteBody env (key_WorktreeID key) text candidates db
            else Inr candidates) (\<lambda>candidates.
        Inr (text_roots env ord query entities notes candidates)))))"

subsection \<open>Candidates\<close>

definition plain_candidate :: "Entity \<Rightarrow> SelectionReason list \<Rightarrow> Note \<Rightarrow> retrievalCandidate" where
  "plain_candidate root reasons n = \<lparr>rc_Root = root, rc_Bound = root, rc_Note = n, rc_Reasons = reasons, rc_Historical = False,
     rc_ContextCommit = []\<rparr>"

definition candidatesForRoots :: "Entity list \<Rightarrow> reason_map \<Rightarrow> Note list \<Rightarrow> retrievalCandidate list" where
  "candidatesForRoots roots reasons notes = concat (map (\<lambda>root.
     map (plain_candidate root (reasons_at reasons (ent_Key root)))
       (case map_of (notes_by_entity notes) (ent_Key root) of None \<Rightarrow> [] | Some ns \<Rightarrow> ns)) roots)"

definition rootHistoryKeys :: "Entity \<Rightarrow> EntityChange list \<Rightarrow> string list" where
  "rootHistoryKeys root changes = ent_Key root # map (\<lambda>c. ent_Key (chg_Base c)) (filter (\<lambda>c.
     ent_Key (chg_Target c) = ent_Key root \<and> ent_Key (chg_Base c) \<noteq> [] \<and> ent_Key (chg_Base c) \<noteq> ent_Key (chg_Target c)) changes)"

definition containsAllTerms :: "string \<Rightarrow> string list \<Rightarrow> bool" where
  "containsAllTerms value terms \<longleftrightarrow> list_all (\<lambda>t. Contains (ToLower value) (ToLower t)) terms \<and> terms \<noteq> []"

definition historicalTextReasons :: "ContextQuery \<Rightarrow> Entity \<Rightarrow> Note \<Rightarrow> SelectionReason list" where
  "historicalTextReasons query e n =
     (let terms = Fields (anc_Query (cq_Anchor query))
      in (if containsAllTerms (note_Body n) terms then [field_reason terms SearchMatchNoteBody] else [])
         @ map (\<lambda>(field, value). field_reason terms field) (filter (\<lambda>(field, value). containsAllTerms value terms)
             [(SearchMatchEntityKey, ent_Key e), (SearchMatchName, ent_Name e), (SearchMatchSignature, ent_Signature e),
              (SearchMatchPath, ent_Path e)])
         @ (if noteHasTopics n (elems (cq_Topics query))
            then [(plain_reason ReasonTopicExact)\<lparr>sel_MatchedTerms := elems (cq_Topics query)\<rparr>] else []))"

definition noteObservationKey :: "Note \<Rightarrow> string" where
  "noteObservationKey n = Join [note_ID n, note_RevisionID n, note_EntityKey n, note_BindingState n, note_BindingSourceSHA n] [char_at 0]"

text \<open>The candidate an older note gives, when it matches the anchor and was not observed before.\<close>

definition historical_candidate :: "ContextQuery \<Rightarrow> Entity list \<Rightarrow> reason_map \<Rightarrow> EntityChange list \<Rightarrow> Entity gomap \<Rightarrow> string \<Rightarrow> Note
    \<Rightarrow> retrievalCandidate option" where
  "historical_candidate query roots reasons changes entities commitID n =
     (let old = map_of entities (note_EntityKey n); mark = plain_reason ReasonHistoricalRevision
      in if anc_Kind (cq_Anchor query) = AnchorText
         then (case old of None \<Rightarrow> None
           | Some e \<Rightarrow> let rs = historicalTextReasons query e n
             in if rs = [] then None
                else Some \<lparr>rc_Root = e, rc_Bound = e, rc_Note = n, rc_Reasons = rs @ [mark], rc_Historical = True, rc_ContextCommit = commitID\<rparr>)
         else (case List.find (\<lambda>root. note_EntityKey n \<in> set (rootHistoryKeys root changes)) roots of None \<Rightarrow> None
           | Some root \<Rightarrow> Some \<lparr>rc_Root = root, rc_Bound = (case old of None \<Rightarrow> root | Some e \<Rightarrow> e), rc_Note = n,
               rc_Reasons = reasons_at reasons (ent_Key root) @ [mark], rc_Historical = True, rc_ContextCommit = commitID\<rparr>))"

definition history_step :: "ContextQuery \<Rightarrow> Entity list \<Rightarrow> reason_map \<Rightarrow> EntityChange list \<Rightarrow> string set \<Rightarrow> Entity gomap \<Rightarrow> string
    \<Rightarrow> retrievalCandidate list \<times> string set \<Rightarrow> Note \<Rightarrow> retrievalCandidate list \<times> string set" where
  "history_step query roots reasons changes observed entities commitID = (\<lambda>(candidates, seen) n.
     let key = noteObservationKey n
     in if key \<in> observed \<or> key \<in> seen then (candidates, seen)
        else case historical_candidate query roots reasons changes entities commitID n of
            None \<Rightarrow> (candidates, seen)
          | Some c \<Rightarrow> (candidates @ [c], insert key seen))"

definition historicalCandidates :: "graph_loader \<Rightarrow> string \<Rightarrow> ContextQuery \<Rightarrow> Entity list \<Rightarrow> reason_map \<Rightarrow> EntityChange list \<Rightarrow> Note list
    \<Rightarrow> retrievalCandidate list result" where
  "historicalCandidates graph parentID query roots reasons changes current =
     and_then (graph parentID) (\<lambda>chain.
     Inr (fst (foldl (\<lambda>acc item. foldl (history_step query roots reasons changes (noteObservationKey ` set current)
         (entities_by_key (elems (obj_Entities (sco_Object item)))) (sco_ID item)) acc (elems (obj_Notes (sco_Object item))))
       ([], {}) (rev chain))))"

subsection \<open>Assembling\<close>

record assembly_roots =
  ar_Roots :: "Entity list"
  ar_Reasons :: reason_map
  ar_Changes :: "EntityChange list"
  ar_Source :: RetrievalSource
  ar_Diagnostics :: "RetrievalDiagnostic list"

definition change_base :: "object_env \<Rightarrow> object_dir \<Rightarrow> WorkingSetKey \<Rightarrow> ContextQuery \<Rightarrow> string \<Rightarrow> string result" where
  "change_base env dir key query parentID =
     (let given = anc_BaseContextID (cq_Anchor query); baseID = (if given = [] then parentID else given)
      in if baseID = [] then Inl CodeValidation
         else and_then (NormalizeContextCommitID baseID) (\<lambda>baseID.
           if given \<noteq> [] \<and> parentID \<noteq> []
           then and_then (stored_ancestor env dir key parentID baseID) (\<lambda>reachable. if reachable then Inr baseID else Inl CodeValidation)
           else Inr baseID))"

definition change_roots :: "object_env \<Rightarrow> map_order \<Rightarrow> object_dir \<Rightarrow> WorkingSetKey \<Rightarrow> ContextQuery \<Rightarrow> Entity list \<Rightarrow> string \<Rightarrow> assembly_roots result" where
  "change_roots env ord dir key query entities parentID =
     and_then (change_base env dir key query parentID) (\<lambda>baseID.
     and_then (stored_object env dir key baseID) (\<lambda>base.
     let changes = ClassifyEntityChanges ord (elems (obj_Entities base)) entities; (roots, reasons) = changeRoots changes
     in Inr \<lparr>ar_Roots = roots, ar_Reasons = reasons, ar_Changes = changes,
          ar_Source = \<lparr>rsrc_SourceSHA = key_SourceSHA key, rsrc_ContextCommitID = baseID, rsrc_BaseSourceSHA = obj_SourceSHA base\<rparr>,
          ar_Diagnostics = (if obj_SchemaVersion base < 3 then [\<lparr>diag_Code = ''base_coverage_unknown'',
            diag_Detail = ''legacy base snapshot does not record complete indexer provenance'', diag_Language = []\<rparr>] else [])\<rparr>))"

definition anchor_roots :: "object_env \<Rightarrow> search_env \<Rightarrow> map_order \<Rightarrow> object_dir \<Rightarrow> WorkingSetKey \<Rightarrow> ContextQuery \<Rightarrow> Entity list \<Rightarrow> Note list
    \<Rightarrow> string \<Rightarrow> local_db \<Rightarrow> assembly_roots result" where
  "anchor_roots env senv ord dir key query entities notes parentID db =
     (if anc_Kind (cq_Anchor query) = AnchorChange then change_roots env ord dir key query entities parentID
      else and_then (entitiesForAssemblyRoots env dir key query entities notes parentID) (\<lambda>rootEntities.
        and_then (assemblyRoots senv ord key query rootEntities notes db) (\<lambda>(roots, reasons).
        Inr \<lparr>ar_Roots = roots, ar_Reasons = reasons, ar_Changes = [],
          ar_Source = \<lparr>rsrc_SourceSHA = key_SourceSHA key, rsrc_ContextCommitID = parentID, rsrc_BaseSourceSHA = []\<rparr>,
          ar_Diagnostics = []\<rparr>)))"

definition retrieval_input :: "WorkingSetKey \<Rightarrow> ContextQuery \<Rightarrow> assembly_roots \<Rightarrow> retrievalCandidate list \<Rightarrow> local_db \<Rightarrow> retrievalInput" where
  "retrieval_input key query roots candidates db = \<lparr>rin_Query = query, rin_Source = ar_Source roots,
     rin_Anchor = \<lparr>ranc_Kind = anc_Kind (cq_Anchor query), ranc_EntityKeys = map ent_Key (ar_Roots roots),
       ranc_Query = anc_Query (cq_Anchor query), ranc_Changes = ar_Changes roots\<rparr>,
     rin_Candidates = candidates,
     rin_Complete = (coverageComplete (listCoverage (key_WorktreeID key) db) (key_SourceSHA key) \<and> ar_Diagnostics roots = []),
     rin_Diagnostics = ar_Diagnostics roots\<rparr>"

definition AssembleContext :: "object_env \<Rightarrow> search_env \<Rightarrow> map_order \<Rightarrow> ((ContextItem \<Rightarrow> ContextItem \<Rightarrow> bool) \<Rightarrow> ContextItem list \<Rightarrow> ContextItem list)
    \<Rightarrow> topics_decoder \<Rightarrow> object_dir \<Rightarrow> WorkingSetKey \<Rightarrow> ContextQuery \<Rightarrow> local_db \<Rightarrow> ContextBundle result" where
  "AssembleContext env senv ord sorter decode dir key query db =
     and_then (NormalizeQuery query) (\<lambda>query.
     and_then (requireWorkingSet key db) (\<lambda>_.
     let entities = listFreshEntities (key_WorktreeID key) (key_SourceSHA key) db in
     and_then (currentNotes ord decode key db) (\<lambda>(notes, parentID).
     and_then (anchor_roots env senv ord dir key query entities notes parentID db) (\<lambda>roots.
     and_then (if cq_History query = HistoryAll \<and> parentID \<noteq> []
         then historicalCandidates (stored_graph env dir key) parentID query (ar_Roots roots) (ar_Reasons roots) (ar_Changes roots) notes
         else Inr []) (\<lambda>historical.
     Assemble sorter (retrieval_input key query roots
       (candidatesForRoots (ar_Roots roots) (ar_Reasons roots) notes @ historical) db))))))"

end
