(* ===== verification/Retrieval_Properties.thy ===== *)
theory Retrieval_Properties
  imports Retrieval "HOL-Library.Sublist"
begin

text \<open>
  Normalising a query is idempotent; a bundle holds the best items among the wanted candidates, each
  once, and says whether something was left out.
\<close>

subsection \<open>Queries\<close>

lemma trim_query_idem [simp]: "trim_query (trim_query q) = trim_query q"
  by (simp add: trim_query_def)

lemma trim_query_defaults [simp]: "trim_query (query_defaults (trim_query q)) = query_defaults (trim_query q)"
  by (simp add: trim_query_def query_defaults_def)

lemma trim_query_topics: "trim_query (q\<lparr>cq_Topics := t\<rparr>) = (trim_query q)\<lparr>cq_Topics := t\<rparr>"
  by (simp add: trim_query_def)

lemma anchor_ok_defaults [simp]: "anchor_ok (query_defaults q) = anchor_ok q" "anchor_ok (q\<lparr>cq_Topics := t\<rparr>) = anchor_ok q"
  by (simp_all add: anchor_ok_def query_defaults_def)

lemma query_defaults_idem: "query_defaults (query_defaults q) = query_defaults q"
  by (simp add: query_defaults_def HistoryCurrent_def)

lemma query_defaults_topics: "query_defaults (q\<lparr>cq_Topics := t\<rparr>) = (query_defaults q)\<lparr>cq_Topics := t\<rparr>"
  by (simp add: query_defaults_def)

lemma NormalizeQuery_Inr:
  "NormalizeQuery query = Inr q \<longleftrightarrow> (let d = query_defaults (trim_query query) in
     anchor_ok d \<and> (cq_History d = HistoryCurrent \<or> cq_History d = HistoryAll) \<and> 1 \<le> cq_Limit d \<and> cq_Limit d \<le> 100
     \<and> list_all ValidNoteKind (cq_Kinds d) \<and> list_all ValidNoteBindingState (cq_States d)
     \<and> (case cq_Topics d of None \<Rightarrow> q = d | Some topics \<Rightarrow> \<exists>ts. NormalizeNoteTopics topics = Inr ts \<and> q = d\<lparr>cq_Topics := Some ts\<rparr>))"
  by (auto simp: NormalizeQuery_def Let_def split: option.splits)

lemma normal_query:
  assumes "NormalizeQuery query = Inr q"
  shows "NormalizeQuery q = Inr q"
proof -
  define d where "d = query_defaults (trim_query query)"
  have d: "query_defaults (trim_query d) = d" by (simp add: d_def query_defaults_idem)
  show ?thesis
  proof (cases "cq_Topics d")
    case None
    with assms have "q = d" by (simp add: NormalizeQuery_Inr d_def [symmetric])
    with assms d None show ?thesis by (simp add: NormalizeQuery_Inr d_def [symmetric])
  next
    case (Some topics)
    with assms obtain ts where ts: "NormalizeNoteTopics topics = Inr ts" and q: "q = d\<lparr>cq_Topics := Some ts\<rparr>"
      by (auto simp: NormalizeQuery_Inr d_def [symmetric])
    have "query_defaults (trim_query q) = q" by (simp add: q trim_query_topics query_defaults_topics d)
    with assms topics_fixed [OF ts] Some show ?thesis by (auto simp: NormalizeQuery_Inr d_def [symmetric] q)
  qed
qed

subsection \<open>Matching\<close>

lemma HasPrefix_iff: "HasPrefix s p \<longleftrightarrow> prefix p s"
  by (auto simp: HasPrefix_def starts_with_def prefix_def) (metis append_take_drop_id)

lemma Contains_iff: "Contains s t \<longleftrightarrow> sublist t s"
  by (induction s) (auto simp: HasPrefix_iff sublist_Cons_right)

text \<open>A path is the given directory or file, or lies below it.\<close>

definition under_path :: "string \<Rightarrow> string \<Rightarrow> bool" where
  "under_path value p \<longleftrightarrow> (let dir = TrimByte (CHR ''/'') (TrimSpace p) in dir \<noteq> [] \<and> (value = dir \<or> prefix (dir @ ''/'') value))"

definition text_values :: "retrievalCandidate \<Rightarrow> string set" where
  "text_values c = {ent_Key (rc_Bound c), ent_Name (rc_Bound c), ent_Signature (rc_Bound c), ent_Path (rc_Bound c), note_Body (rc_Note c)}"

definition wanted :: "ContextQuery \<Rightarrow> retrievalCandidate \<Rightarrow> bool" where
  "wanted q c \<longleftrightarrow> (rc_Historical c \<longrightarrow> cq_History q = HistoryAll) \<and> note_BindingState (rc_Note c) \<in> set (cq_States q)
     \<and> (cq_Kinds q = [] \<or> note_Kind (rc_Note c) \<in> set (cq_Kinds q))
     \<and> (cq_Languages q = [] \<or> ent_Language (rc_Bound c) \<in> set (cq_Languages q))
     \<and> (cq_EntityKinds q = [] \<or> ent_Kind (rc_Bound c) \<in> set (cq_EntityKinds q))
     \<and> (cq_Paths q = [] \<or> (\<exists>p \<in> set (cq_Paths q). under_path (ent_Path (rc_Bound c)) p))
     \<and> (cq_Text q = [] \<or> (\<forall>term \<in> set (Fields (ToLower (cq_Text q))). \<exists>value \<in> text_values c. sublist term (ToLower value)))
     \<and> set (elems (cq_Topics q)) \<subseteq> set (elems (note_Topics (rc_Note c)))"

lemma matches_wanted: "matches q c = wanted q c"
proof -
  have "containsAllTopics ns ts \<longleftrightarrow> set ts \<subseteq> set ns" for ns ts
    by (auto simp: containsAllTopics_def list_all_iff list_ex_iff)
  moreover have "hasPathPrefix ps v \<longleftrightarrow> (\<exists>p \<in> set ps. under_path v p)" for ps v
    by (simp add: hasPathPrefix_def under_path_def list_ex_iff HasPrefix_iff Let_def)
  moreover have "matchesText t c \<longleftrightarrow> (\<forall>term \<in> set (Fields (ToLower t)). \<exists>value \<in> text_values c. sublist term (ToLower value))" for t
    by (simp add: matchesText_def text_values_def list_all_iff Contains_iff)
  ultimately show ?thesis by (auto simp: matches_def wanted_def)
qed

subsection \<open>Ranking\<close>

definition item_rank :: "ContextItem \<Rightarrow> bool \<times> nat \<times> nat \<times> string \<times> string \<times> string" where
  "item_rank i = (item_Historical i, reasonPriority (item_Reasons i), noteKindPriority (note_Kind (item_Note i)),
     eref_EntityKey (item_BoundEntity i), note_ID (item_Note i), note_RevisionID (item_Note i))"

lemma lessItem_rank: "lessItem = (\<lambda>l r. item_rank l < item_rank r)"
  by (intro ext) (auto simp: lessItem_def item_rank_def less_prod_def' )

lemma collect_run:
  "foldl (collect_step q) ([], {}) cs = (items, seen) \<Longrightarrow> seen = itemKey ` set items \<and> distinct (map itemKey items)
     \<and> (\<forall>i \<in> set items. \<exists>c \<in> set cs. wanted q c \<and> i = context_item c)
     \<and> (\<forall>c \<in> set cs. wanted q c \<longrightarrow> itemKey (context_item c) \<in> itemKey ` set items)"
proof (induction cs arbitrary: items seen rule: rev_induct)
  case Nil
  then show ?case by simp
next
  case (snoc c cs)
  obtain items1 seen1 where f: "foldl (collect_step q) ([], {}) cs = (items1, seen1)" by fastforce
  from snoc.prems f have "collect_step q (items1, seen1) c = (items, seen)" by simp
  with snoc.IH [OF f] show ?case
    by (auto simp: collect_step_def matches_wanted Let_def split: if_splits)
qed

lemma sorted_take_rest:
  assumes "sorted (map f xs)" "x \<in> set xs" "x \<notin> set (take n xs)" "y \<in> set (take n xs)"
  shows "f y \<le> (f x :: 'r :: linorder)"
proof -
  from assms(2,3) have "x \<in> set (drop n xs)" by (metis Un_iff append_take_drop_id set_append)
  moreover from assms(1) have "sorted (map f (take n xs @ drop n xs))" by simp
  ultimately show ?thesis using assms(4) by (auto simp: sorted_append simp del: append_take_drop_id)
qed

text \<open>A bundle holds the best of what the query wants.  Its items come from wanted candidates, are ranked
  (current before historical, then by reason, kind of note, entity, note and revision), have distinct
  identities and are at most as many as the limit.  Every wanted candidate is represented by a wanted
  candidate of the same identity that is among the items, or that ranks after all of them; the latter only
  when the limit is reached, and then the bundle is not complete and carries a diagnostic.\<close>

lemma bundle_exact:
  assumes "slice_sort sorter" "Assemble sorter inp = Inr b" "NormalizeQuery (rin_Query inp) = Inr q"
  shows "sorted (map item_rank (bundle_Items b)) \<and> distinct (map itemKey (bundle_Items b))
    \<and> int (length (bundle_Items b)) \<le> cq_Limit q
    \<and> (\<forall>i \<in> set (bundle_Items b). \<exists>c \<in> set (rin_Candidates inp). wanted q c \<and> i = context_item c)
    \<and> (\<forall>c \<in> set (rin_Candidates inp). wanted q c \<longrightarrow> (\<exists>c' \<in> set (rin_Candidates inp). wanted q c'
         \<and> itemKey (context_item c') = itemKey (context_item c)
         \<and> (context_item c' \<in> set (bundle_Items b)
            \<or> int (length (bundle_Items b)) = cq_Limit q \<and> \<not> bundle_Complete b \<and> bundle_Diagnostics b \<noteq> rin_Diagnostics inp
              \<and> (\<forall>i \<in> set (bundle_Items b). item_rank i \<le> item_rank (context_item c')))))
    \<and> (bundle_Complete b \<longleftrightarrow> rin_Complete inp \<and> bundle_Diagnostics b = rin_Diagnostics inp)"
proof -
  obtain items0 seen where collected: "foldl (collect_step q) ([], {}) (rin_Candidates inp) = (items0, seen)" by fastforce
  define items where "items = sorter lessItem items0"
  have items: "set items = set items0" "distinct (map itemKey items)" "sorted (map item_rank items)"
    using collect_run [OF collected] slice_sort.sorted_rank [OF assms(1), of item_rank items0]
    by (simp_all only: items_def lessItem_rank slice_sort.set_sorter [OF assms(1)] slice_sort.distinct_sorter [OF assms(1)])
  let ?n = "nat (cq_Limit q)"
  have limit: "int ?n = cq_Limit q" using assms(3) by (auto simp: NormalizeQuery_Inr Let_def split: option.splits)
  have b: "bundle_Items b = take ?n items" "bundle_Complete b \<longleftrightarrow> rin_Complete inp \<and> length items \<le> ?n"
    "bundle_Diagnostics b = rin_Diagnostics inp \<longleftrightarrow> length items \<le> ?n"
    using assms(2) by (auto simp: Assemble_def assms(3) collected Let_def items_def not_less split: if_splits)
  have kept: "sorted (map item_rank (take ?n items))" "distinct (map itemKey (take ?n items))"
    using items(2,3) by (simp_all add: take_map [symmetric] sorted_wrt_take distinct_take)
  have reached: "\<exists>c' \<in> set (rin_Candidates inp). wanted q c' \<and> itemKey (context_item c') = itemKey (context_item c)
      \<and> (context_item c' \<in> set (take ?n items) \<or> ?n < length items \<and> (\<forall>i \<in> set (take ?n items). item_rank i \<le> item_rank (context_item c')))"
    if "c \<in> set (rin_Candidates inp)" "wanted q c" for c
  proof -
    from collect_run [OF collected] that items(1) obtain c' where c': "c' \<in> set (rin_Candidates inp)" "wanted q c'"
      "itemKey (context_item c') = itemKey (context_item c)" "context_item c' \<in> set items" by force
    show ?thesis
    proof (cases "context_item c' \<in> set (take ?n items)")
      case False
      with c'(4) have "?n < length items" by (metis not_less take_all)
      with c' False sorted_take_rest [OF items(3) c'(4) False] show ?thesis by blast
    qed (use c' in blast)
  qed
  show ?thesis
  proof (intro conjI ballI impI)
    have "int (length (take ?n items)) \<le> int ?n" by (simp only: of_nat_le_iff length_take min.cobounded2)
    then show "int (length (bundle_Items b)) \<le> cq_Limit q" by (simp only: b(1) limit)
    show "bundle_Complete b = (rin_Complete inp \<and> bundle_Diagnostics b = rin_Diagnostics inp)" by (simp add: b(2,3))
    show "\<exists>c \<in> set (rin_Candidates inp). wanted q c \<and> i = context_item c" if "i \<in> set (bundle_Items b)" for i
      using that collect_run [OF collected] items(1) by (auto simp: b(1) dest!: in_set_takeD)
  next
    fix c
    assume "c \<in> set (rin_Candidates inp)" "wanted q c"
    from reached [OF this] limit show "\<exists>c' \<in> set (rin_Candidates inp). wanted q c' \<and> itemKey (context_item c') = itemKey (context_item c)
        \<and> (context_item c' \<in> set (bundle_Items b) \<or> int (length (bundle_Items b)) = cq_Limit q \<and> \<not> bundle_Complete b
           \<and> bundle_Diagnostics b \<noteq> rin_Diagnostics inp \<and> (\<forall>i \<in> set (bundle_Items b). item_rank i \<le> item_rank (context_item c')))"
      by (force simp: b)
  qed (use kept in \<open>simp_all only: b(1)\<close>)
qed

end
