(* ===== verification/Assembly_Properties.thy ===== *)
theory Assembly_Properties
  imports Context_Assembly Retrieval_Properties Local_Properties
begin

text \<open>
  What an assembled context contains: the current notes of the roots an anchor selects, and for the
  whole history the older observations of the ancestry, newest first.
\<close>

subsection \<open>Candidates\<close>

lemma notes_by_entity_at:
  "(case map_of (notes_by_entity ns) k of None \<Rightarrow> [] | Some xs \<Rightarrow> xs) = filter (\<lambda>n. note_EntityKey n = k) ns"
  unfolding notes_by_entity_def by (induction ns rule: rev_induct) auto

lemma set_candidatesForRoots:
  "set (candidatesForRoots roots reasons notes) = {plain_candidate root (reasons_at reasons (ent_Key root)) n | root n.
     root \<in> set roots \<and> n \<in> set notes \<and> note_EntityKey n = ent_Key root}"
  by (auto simp: candidatesForRoots_def notes_by_entity_at)

text \<open>What tells two items apart: root and bound entity, note, revision, binding, and whether and where in the history.\<close>

definition item_identity :: "ContextItem \<Rightarrow> string \<times> string \<times> string \<times> string \<times> string \<times> string \<times> bool \<times> string" where
  "item_identity i = (eref_EntityKey (item_RootEntity i), eref_EntityKey (item_BoundEntity i), note_ID (item_Note i),
     note_RevisionID (item_Note i), note_BindingState (item_Note i), note_BindingSourceSHA (item_Note i),
     item_Historical i, item_ContextCommit i)"

text \<open>An observation of a note: its revision, and what it was bound to.\<close>

definition observation :: "Note \<Rightarrow> string \<times> string \<times> string \<times> string \<times> string" where
  "observation n = (note_ID n, note_RevisionID n, note_EntityKey n, note_BindingState n, note_BindingSourceSHA n)"

definition plain_note :: "Note \<Rightarrow> bool" where
  "plain_note n \<longleftrightarrow> no_nul (note_ID n) \<and> no_nul (note_RevisionID n) \<and> no_nul (note_EntityKey n)
     \<and> no_nul (note_BindingState n) \<and> no_nul (note_BindingSourceSHA n)"

lemma Join_nul: "Join (x # y # zs) [char_at 0] = join_nul x (Join (y # zs) [char_at 0])"
  by (simp add: join_nul_def char_of_def)

lemma item_key_identity: "item_identity i = item_identity j \<Longrightarrow> itemKey i = itemKey j"
  by (simp add: item_identity_def itemKey_def)

lemma item_identity_key:
  assumes "itemKey i = itemKey j" "plain_note (item_Note i)" "plain_note (item_Note j)"
    and "no_nul (eref_EntityKey (item_RootEntity i))" "no_nul (eref_EntityKey (item_RootEntity j))"
    and "no_nul (eref_EntityKey (item_BoundEntity i))" "no_nul (eref_EntityKey (item_BoundEntity j))"
  shows "item_identity i = item_identity j"
proof -
  have "no_nul (Sprint_bool b)" for b by (simp add: Sprint_bool_def no_nul_def)
  moreover have "Sprint_bool b = Sprint_bool c \<longleftrightarrow> b = c" for b c by (simp add: Sprint_bool_def)
  ultimately show ?thesis
    using assms unfolding itemKey_def Join_nul plain_note_def item_identity_def
    by (simp only: join_nul_inj Join.simps HOL.simp_thms)
qed

lemma observation_key: "observation m = observation n \<Longrightarrow> noteObservationKey m = noteObservationKey n"
  by (simp add: observation_def noteObservationKey_def)

lemma key_observation:
  "noteObservationKey m = noteObservationKey n \<Longrightarrow> plain_note m \<Longrightarrow> plain_note n \<Longrightarrow> observation m = observation n"
  unfolding noteObservationKey_def Join_nul plain_note_def observation_def
  by (simp only: join_nul_inj Join.simps HOL.simp_thms)

subsection \<open>Older notes\<close>

text \<open>The entity a snapshot has under a key.\<close>

definition entity_of :: "ContextObject \<Rightarrow> string \<Rightarrow> Entity option" where
  "entity_of obj k = List.find (\<lambda>e. ent_Key e = k) (rev (elems (obj_Entities obj)))"

lemma entities_by_key_at: "map_of (entities_by_key es) k = List.find (\<lambda>e. ent_Key e = k) (rev es)"
  unfolding entities_by_key_def by (induction es rule: rev_induct) auto

text \<open>Why a text anchor selects an older note: a field of the entity or the body holds all terms, or the note has all topics.\<close>

definition searched_fields :: "Entity \<Rightarrow> Note \<Rightarrow> (string \<times> string) set" where
  "searched_fields e n = {(''note_body'', note_Body n), (''entity_key'', ent_Key e), (''name'', ent_Name e),
     (''signature'', ent_Signature e), (''path'', ent_Path e)}"

definition text_evidence :: "ContextQuery \<Rightarrow> Entity \<Rightarrow> Note \<Rightarrow> SelectionReason set" where
  "text_evidence q e n =
     (let terms = Fields (anc_Query (cq_Anchor q)); topics = elems (cq_Topics q)
      in {\<lparr>sel_Kind = (if f = ''note_body'' then ''text_note_body'' else ''text_entity_field''), sel_MatchedField = f,
            sel_MatchedTerms = terms, sel_ChangeKind = []\<rparr> | f v. (f, v) \<in> searched_fields e n
            \<and> terms \<noteq> [] \<and> (\<forall>t \<in> set terms. sublist (ToLower t) (ToLower v))}
         \<union> (if topics \<noteq> [] \<and> set topics \<subseteq> set (elems (note_Topics n))
            then {\<lparr>sel_Kind = ''topic_exact'', sel_MatchedField = [], sel_MatchedTerms = topics, sel_ChangeKind = []\<rparr>} else {}))"

lemma set_historicalTextReasons: "set (historicalTextReasons q e n) = text_evidence q e n"
proof -
  let ?terms = "Fields (anc_Query (cq_Anchor q))" and ?topics = "elems (cq_Topics q)"
  have all: "containsAllTerms v ?terms \<longleftrightarrow> ?terms \<noteq> [] \<and> (\<forall>t \<in> set ?terms. sublist (ToLower t) (ToLower v))" for v
    by (auto simp: containsAllTerms_def list_all_iff Contains_iff)
  have topics: "noteHasTopics n ?topics \<longleftrightarrow> ?topics \<noteq> [] \<and> set ?topics \<subseteq> set (elems (note_Topics n))"
    by (auto simp: noteHasTopics_def list_all_iff list_ex_iff)
  define vs where "vs = [(''note_body'', note_Body n), (''entity_key'', ent_Key e), (''name'', ent_Name e),
     (''signature'', ent_Signature e), (''path'', ent_Path e)]"
  have "historicalTextReasons q e n = map (\<lambda>(f, v). field_reason ?terms f) (filter (\<lambda>(f, v). containsAllTerms v ?terms) vs)
      @ (if noteHasTopics n ?topics then [(plain_reason ReasonTopicExact)\<lparr>sel_MatchedTerms := ?topics\<rparr>] else [])"
    by (simp add: historicalTextReasons_def Let_def vs_def go_defs)
  then have "set (historicalTextReasons q e n) = {field_reason ?terms f | f v. (f, v) \<in> set vs \<and> containsAllTerms v ?terms}
      \<union> (if noteHasTopics n ?topics then {(plain_reason ReasonTopicExact)\<lparr>sel_MatchedTerms := ?topics\<rparr>} else {})"
    by force
  moreover have "set vs = searched_fields e n" by (simp add: vs_def searched_fields_def)
  moreover have "field_reason ?terms f = \<lparr>sel_Kind = (if f = ''note_body'' then ''text_note_body'' else ''text_entity_field''),
      sel_MatchedField = f, sel_MatchedTerms = ?terms, sel_ChangeKind = []\<rparr>" for f
    by (simp add: field_reason_def go_defs)
  moreover have "(plain_reason ReasonTopicExact)\<lparr>sel_MatchedTerms := ?topics\<rparr>
      = \<lparr>sel_Kind = ''topic_exact'', sel_MatchedField = [], sel_MatchedTerms = ?topics, sel_ChangeKind = []\<rparr>"
    by (simp add: plain_reason_def go_defs)
  ultimately show ?thesis unfolding text_evidence_def Let_def all topics by simp
qed

text \<open>A root has had a key when it is its own, or that of the base of a change that leads to it.\<close>

definition had_key :: "EntityChange list \<Rightarrow> string \<Rightarrow> Entity \<Rightarrow> bool" where
  "had_key changes k root \<longleftrightarrow> k = ent_Key root
     \<or> (\<exists>ch \<in> set changes. ent_Key (chg_Target ch) = ent_Key root \<and> ent_Key (chg_Base ch) = k \<and> k \<noteq> [])"

lemma rootHistoryKeys_had: "k \<in> set (rootHistoryKeys root changes) \<longleftrightarrow> had_key changes k root"
  by (auto simp: rootHistoryKeys_def had_key_def)

text \<open>The candidate a note of an object of the history gives, if any.  For a text the entity of that time stands for the
  root; otherwise it is the first root that has had the key of the note.\<close>

definition older_candidate :: "ContextQuery \<Rightarrow> assembly_roots \<Rightarrow> storedContextObject \<times> Note \<Rightarrow> retrievalCandidate \<Rightarrow> bool" where
  "older_candidate q roots = (\<lambda>(item, n) c. rc_Historical c \<and> rc_Note c = n \<and> rc_ContextCommit c = sco_ID item
     \<and> (let was = entity_of (sco_Object item) (note_EntityKey n);
            mark = \<lparr>sel_Kind = ''historical_revision'', sel_MatchedField = [], sel_MatchedTerms = [], sel_ChangeKind = []\<rparr>
        in if anc_Kind (cq_Anchor q) = ''text''
           then was = Some (rc_Root c) \<and> rc_Bound c = rc_Root c \<and> text_evidence q (rc_Root c) n \<noteq> {}
             \<and> set (rc_Reasons c) = insert mark (text_evidence q (rc_Root c) n)
           else (\<exists>k < length (ar_Roots roots). rc_Root c = ar_Roots roots ! k
               \<and> had_key (ar_Changes roots) (note_EntityKey n) (rc_Root c)
               \<and> (\<forall>j < k. \<not> had_key (ar_Changes roots) (note_EntityKey n) (ar_Roots roots ! j)))
             \<and> rc_Bound c = (case was of None \<Rightarrow> rc_Root c | Some e \<Rightarrow> e)
             \<and> set (rc_Reasons c) = insert mark (set (reasons_at (ar_Reasons roots) (ent_Key (rc_Root c))))))"

definition old_candidate :: "ContextQuery \<Rightarrow> assembly_roots \<Rightarrow> storedContextObject \<times> Note \<Rightarrow> retrievalCandidate option" where
  "old_candidate q roots = (\<lambda>(item, n). historical_candidate q (ar_Roots roots) (ar_Reasons roots) (ar_Changes roots)
     (entities_by_key (elems (obj_Entities (sco_Object item)))) (sco_ID item) n)"

lemma old_candidate_sound:
  assumes "old_candidate q roots x = Some c"
  shows "older_candidate q roots x c"
proof -
  obtain item n where x: "x = (item, n)" by (cases x)
  have mark: "\<lparr>sel_Kind = ''historical_revision'', sel_MatchedField = [], sel_MatchedTerms = [], sel_ChangeKind = []\<rparr>
      = plain_reason ReasonHistoricalRevision" by (simp add: plain_reason_def go_defs)
  show ?thesis
  proof (cases "anc_Kind (cq_Anchor q) = ''text''")
    case True
    with assms obtain e where "entity_of (sco_Object item) (note_EntityKey n) = Some e" "historicalTextReasons q e n \<noteq> []"
      "c = \<lparr>rc_Root = e, rc_Bound = e, rc_Note = n, rc_Reasons = historicalTextReasons q e n @ [plain_reason ReasonHistoricalRevision],
        rc_Historical = True, rc_ContextCommit = sco_ID item\<rparr>"
      by (auto simp: x old_candidate_def historical_candidate_def entities_by_key_at entity_of_def AnchorText_def Let_def
          split: option.splits if_splits)
    moreover from this(2) have "text_evidence q e n \<noteq> {}" unfolding set_historicalTextReasons [symmetric] by simp
    ultimately show ?thesis
      using True by (simp add: x older_candidate_def mark set_historicalTextReasons)
  next
    case False
    with assms obtain root where root: "List.find (\<lambda>root. note_EntityKey n \<in> set (rootHistoryKeys root (ar_Changes roots))) (ar_Roots roots) = Some root"
      and c: "c = \<lparr>rc_Root = root, rc_Bound = (case entity_of (sco_Object item) (note_EntityKey n) of None \<Rightarrow> root | Some e \<Rightarrow> e),
        rc_Note = n, rc_Reasons = reasons_at (ar_Reasons roots) (ent_Key root) @ [plain_reason ReasonHistoricalRevision],
        rc_Historical = True, rc_ContextCommit = sco_ID item\<rparr>"
      by (auto simp: x old_candidate_def historical_candidate_def entities_by_key_at entity_of_def AnchorText_def Let_def
          split: option.splits)
    from root obtain k where "k < length (ar_Roots roots)" "root = ar_Roots roots ! k"
      "had_key (ar_Changes roots) (note_EntityKey n) root"
      "\<forall>j < k. \<not> had_key (ar_Changes roots) (note_EntityKey n) (ar_Roots roots ! j)"
      unfolding find_Some_iff rootHistoryKeys_had by blast
    moreover have "rc_Root c = root" "rc_Bound c = (case entity_of (sco_Object item) (note_EntityKey n) of None \<Rightarrow> root | Some e \<Rightarrow> e)"
      "rc_Note c = n" "rc_Reasons c = reasons_at (ar_Reasons roots) (ent_Key root) @ [plain_reason ReasonHistoricalRevision]"
      "rc_Historical c" "rc_ContextCommit c = sco_ID item" by (simp_all add: c)
    ultimately show ?thesis using False
      by (cases "entity_of (sco_Object item) (note_EntityKey n)") (simp_all add: x older_candidate_def mark Let_def, blast+)
  qed
qed

lemma old_candidate_complete:
  assumes "older_candidate q roots x c"
  shows "\<exists>c'. old_candidate q roots x = Some c' \<and> rc_Root c' = rc_Root c \<and> rc_Bound c' = rc_Bound c \<and> rc_Note c' = rc_Note c
    \<and> rc_Historical c' = rc_Historical c \<and> rc_ContextCommit c' = rc_ContextCommit c"
proof -
  obtain item n where x: "x = (item, n)" by (cases x)
  from assms have c: "rc_Historical c" "rc_Note c = n" "rc_ContextCommit c = sco_ID item"
    by (simp_all add: x older_candidate_def)
  show ?thesis
  proof (cases "anc_Kind (cq_Anchor q) = ''text''")
    case True
    with assms have "entity_of (sco_Object item) (note_EntityKey n) = Some (rc_Root c)" "rc_Bound c = rc_Root c"
      "text_evidence q (rc_Root c) n \<noteq> {}"
      by (auto simp: x older_candidate_def Let_def)
    moreover from this(3) have "historicalTextReasons q (rc_Root c) n \<noteq> []" unfolding set_historicalTextReasons [symmetric] by simp
    ultimately show ?thesis
      using True c
      by (simp add: x old_candidate_def historical_candidate_def entities_by_key_at entity_of_def AnchorText_def Let_def)
  next
    case False
    with assms obtain k where k: "k < length (ar_Roots roots)" "rc_Root c = ar_Roots roots ! k"
        "had_key (ar_Changes roots) (note_EntityKey n) (rc_Root c)"
        "\<forall>j < k. \<not> had_key (ar_Changes roots) (note_EntityKey n) (ar_Roots roots ! j)"
      and b: "rc_Bound c = (case entity_of (sco_Object item) (note_EntityKey n) of None \<Rightarrow> rc_Root c | Some e \<Rightarrow> e)"
      by (auto simp: x older_candidate_def Let_def)
    from k have "List.find (\<lambda>root. note_EntityKey n \<in> set (rootHistoryKeys root (ar_Changes roots))) (ar_Roots roots) = Some (rc_Root c)"
      unfolding find_Some_iff rootHistoryKeys_had by auto
    with False c b show ?thesis
      by (simp add: x old_candidate_def historical_candidate_def entities_by_key_at entity_of_def AnchorText_def Let_def)
  qed
qed

text \<open>The first element of a list that is selected under its key.\<close>

definition first_of :: "('a \<Rightarrow> bool) \<Rightarrow> ('a \<Rightarrow> 'k) \<Rightarrow> 'a list \<Rightarrow> 'a \<Rightarrow> bool" where
  "first_of sel k xs x \<longleftrightarrow> sel x \<and> (\<exists>ys zs. xs = ys @ x # zs \<and> (\<forall>y \<in> set ys. k y = k x \<longrightarrow> \<not> sel y))"

lemma first_of_Nil [simp]: "\<not> first_of sel k [] x"
  by (simp add: first_of_def)

lemma first_of_snoc:
  "first_of sel k (xs @ [x]) y \<longleftrightarrow> first_of sel k xs y \<or> y = x \<and> sel x \<and> (\<forall>z \<in> set xs. k z = k x \<longrightarrow> \<not> sel z)"
proof
  assume "first_of sel k (xs @ [x]) y"
  then obtain ys zs where y: "sel y" "xs @ [x] = ys @ y # zs" "\<forall>z \<in> set ys. k z = k y \<longrightarrow> \<not> sel z"
    unfolding first_of_def by blast
  then show "first_of sel k xs y \<or> y = x \<and> sel x \<and> (\<forall>z \<in> set xs. k z = k x \<longrightarrow> \<not> sel z)"
    unfolding first_of_def by (cases zs rule: rev_cases) auto
next
  assume "first_of sel k xs y \<or> y = x \<and> sel x \<and> (\<forall>z \<in> set xs. k z = k x \<longrightarrow> \<not> sel z)"
  then show "first_of sel k (xs @ [x]) y"
  proof
    assume "first_of sel k xs y"
    then obtain ys zs where "sel y" "xs = ys @ y # zs" "\<forall>z \<in> set ys. k z = k y \<longrightarrow> \<not> sel z" unfolding first_of_def by blast
    then show ?thesis unfolding first_of_def by (intro conjI exI [of _ ys] exI [of _ "zs @ [x]"]) simp_all
  next
    assume "y = x \<and> sel x \<and> (\<forall>z \<in> set xs. k z = k x \<longrightarrow> \<not> sel z)"
    then show ?thesis unfolding first_of_def by blast
  qed
qed

text \<open>The notes of a chain, newest object first.\<close>

definition history_notes :: "storedContextObject list \<Rightarrow> (storedContextObject \<times> Note) list" where
  "history_notes chain = concat (map (\<lambda>item. map (Pair item) (elems (obj_Notes (sco_Object item)))) (rev chain))"

lemma history_fold:
  fixes q roots observed
  defines "step \<equiv> \<lambda>acc (item, n). history_step q (ar_Roots roots) (ar_Reasons roots) (ar_Changes roots) observed
      (entities_by_key (elems (obj_Entities (sco_Object item)))) (sco_ID item) acc n"
    and "sel \<equiv> \<lambda>x. noteObservationKey (snd x) \<notin> observed \<and> old_candidate q roots x \<noteq> None"
  assumes "foldl step ([], {}) xs = (cs, seen)"
  shows "set cs = {c. \<exists>x. first_of sel (noteObservationKey \<circ> snd) xs x \<and> old_candidate q roots x = Some c}
    \<and> seen = (noteObservationKey \<circ> snd) ` {x \<in> set xs. sel x}"
  using assms(3)
proof (induction xs arbitrary: cs seen rule: rev_induct)
  case Nil
  then show ?case by auto
next
  case (snoc x xs)
  obtain cs1 seen1 where f: "foldl step ([], {}) xs = (cs1, seen1)" by fastforce
  note IH = snoc.IH [OF f]
  obtain item n where x: "x = (item, n)" by (cases x)
  let ?k = "noteObservationKey n"
  from snoc.prems f have "step (cs1, seen1) x = (cs, seen)" by simp
  then have run: "(if ?k \<in> observed \<or> ?k \<in> seen1 then (cs1, seen1)
      else case old_candidate q roots x of None \<Rightarrow> (cs1, seen1) | Some c \<Rightarrow> (cs1 @ [c], insert ?k seen1)) = (cs, seen)"
    unfolding step_def x history_step_def Let_def old_candidate_def by (simp only: case_prod_conv)
  have before: "?k \<in> seen1 \<longleftrightarrow> (\<exists>z \<in> set xs. (noteObservationKey \<circ> snd) z = (noteObservationKey \<circ> snd) x \<and> sel z)"
    using conjunct2 [OF IH] unfolding image_iff comp_apply Bex_def mem_Collect_eq x snd_conv by (simp add: set_eq_iff image_iff) metis
  consider (skip) "?k \<in> observed \<or> ?k \<in> seen1 \<or> old_candidate q roots x = None"
    | (add) c where "?k \<notin> observed" "?k \<notin> seen1" "old_candidate q roots x = Some c" by blast
  then show ?case
  proof cases
    case skip
    with run have same: "cs = cs1" "seen = seen1" by (auto split: if_splits option.splits)
    have "\<not> (sel x \<and> (\<forall>z \<in> set xs. (noteObservationKey \<circ> snd) z = (noteObservationKey \<circ> snd) x \<longrightarrow> \<not> sel z))"
      using skip before unfolding sel_def by (auto simp: x)
    then have e: "first_of sel (noteObservationKey \<circ> snd) (xs @ [x]) = first_of sel (noteObservationKey \<circ> snd) xs"
      by (intro ext) (use first_of_snoc [of sel "noteObservationKey \<circ> snd" xs x] in blast)
    have "sel x \<Longrightarrow> ?k \<in> seen1" using skip unfolding sel_def by (auto simp: x)
    then have "(noteObservationKey \<circ> snd) ` {y \<in> set (xs @ [x]). sel y} = seen1" using IH by (auto simp: x)
    with IH show ?thesis unfolding same e by (simp only: HOL.simp_thms)
  next
    case add
    with run have new: "cs = cs1 @ [c]" "seen = insert ?k seen1" by auto
    have sel: "sel x" using add unfolding sel_def by (simp add: x)
    have "first_of sel (noteObservationKey \<circ> snd) (xs @ [x]) y \<longleftrightarrow> first_of sel (noteObservationKey \<circ> snd) xs y \<or> y = x" for y
      unfolding first_of_snoc using sel add(2) before by blast
    then have "{d. \<exists>y. first_of sel (noteObservationKey \<circ> snd) (xs @ [x]) y \<and> old_candidate q roots y = Some d}
        = insert c {d. \<exists>y. first_of sel (noteObservationKey \<circ> snd) xs y \<and> old_candidate q roots y = Some d}"
      using add(3) by (intro set_eqI, simp only: mem_Collect_eq insert_iff) (metis option.inject)
    moreover have "{y \<in> set (xs @ [x]). sel y} = insert x {y \<in> set xs. sel y}" using sel by auto
    then have "(noteObservationKey \<circ> snd) ` {y \<in> set (xs @ [x]). sel y} = insert ?k seen1" using IH by (simp add: x)
    moreover have "set cs = insert c (set cs1)" by (simp add: new)
    ultimately show ?thesis using IH unfolding new(2) by (simp only: HOL.simp_thms)
  qed
qed

text \<open>An older note is shown from the newest object that has this observation of it and gives a candidate, unless a
  current note has the same observation.\<close>

definition shown :: "ContextQuery \<Rightarrow> assembly_roots \<Rightarrow> Note list \<Rightarrow> storedContextObject list \<Rightarrow> storedContextObject \<times> Note \<Rightarrow> bool" where
  "shown q roots notes chain = first_of (\<lambda>x. observation (snd x) \<notin> observation ` set notes \<and> (\<exists>c. older_candidate q roots x c))
     (observation \<circ> snd) (history_notes chain)"

lemma nested_foldl: "foldl (\<lambda>acc x. foldl (\<lambda>acc y. f acc (x, y)) acc (g x)) acc xs = foldl f acc (concat (map (\<lambda>x. map (Pair x) (g x)) xs))"
proof (induction xs arbitrary: acc)
  case (Cons x xs)
  moreover have "foldl (\<lambda>acc y. f acc (x, y)) acc ys = foldl f acc (map (Pair x) ys)" for acc ys
    by (induction ys arbitrary: acc) simp_all
  ultimately show ?case by simp
qed simp

lemma historicalCandidates_set:
  assumes "historicalCandidates graph parentID q (ar_Roots roots) (ar_Reasons roots) (ar_Changes roots) notes = Inr cs"
  obtains chain where "graph parentID = Inr chain"
    "set cs = {c. \<exists>x. first_of (\<lambda>x. noteObservationKey (snd x) \<notin> noteObservationKey ` set notes \<and> old_candidate q roots x \<noteq> None)
       (noteObservationKey \<circ> snd) (history_notes chain) x \<and> old_candidate q roots x = Some c}"
proof -
  let ?step = "\<lambda>acc (item, n). history_step q (ar_Roots roots) (ar_Reasons roots) (ar_Changes roots) (noteObservationKey ` set notes)
      (entities_by_key (elems (obj_Entities (sco_Object item)))) (sco_ID item) acc n"
  let ?nested = "\<lambda>acc item. foldl (history_step q (ar_Roots roots) (ar_Reasons roots) (ar_Changes roots) (noteObservationKey ` set notes)
      (entities_by_key (elems (obj_Entities (sco_Object item)))) (sco_ID item)) acc (elems (obj_Notes (sco_Object item)))"
  from assms obtain chain where chain: "graph parentID = Inr chain" "cs = fst (foldl ?nested ([], {}) (rev chain))"
    by (auto simp: historicalCandidates_def)
  have flat: "foldl ?nested acc xs = foldl ?step acc (concat (map (\<lambda>item. map (Pair item) (elems (obj_Notes (sco_Object item)))) xs))" for acc xs
    using nested_foldl [of ?step "\<lambda>item. elems (obj_Notes (sco_Object item))" acc xs] by simp
  have "cs = fst (foldl ?step ([], {}) (history_notes chain))" unfolding chain(2) flat history_notes_def ..
  moreover obtain seen where run: "foldl ?step ([], {}) (history_notes chain) = (fst (foldl ?step ([], {}) (history_notes chain)), seen)"
    by (cases "foldl ?step ([], {}) (history_notes chain)") simp
  note history_fold [where q = q and roots = roots and observed = "noteObservationKey ` set notes", OF run]
  ultimately show thesis by (intro that [OF chain(1)]) (simp only: HOL.simp_thms)
qed

text \<open>What a context is assembled from: the current notes of the roots, and the older notes that are shown.\<close>

definition offered :: "ContextQuery \<Rightarrow> assembly_roots \<Rightarrow> Note list \<Rightarrow> storedContextObject list \<Rightarrow> retrievalCandidate \<Rightarrow> bool" where
  "offered q roots notes chain c \<longleftrightarrow>
     (\<exists>root \<in> set (ar_Roots roots). \<exists>n \<in> set notes. note_EntityKey n = ent_Key root
        \<and> c = plain_candidate root (reasons_at (ar_Reasons roots) (ent_Key root)) n)
     \<or> (\<exists>x. shown q roots notes chain x \<and> older_candidate q roots x c)"

definition plain_context :: "assembly_roots \<Rightarrow> Note list \<Rightarrow> storedContextObject list \<Rightarrow> bool" where
  "plain_context roots notes chain \<longleftrightarrow> (\<forall>n \<in> set notes. plain_note n) \<and> (\<forall>root \<in> set (ar_Roots roots). no_nul (ent_Key root))
     \<and> (\<forall>item \<in> set chain. (\<forall>n \<in> set (elems (obj_Notes (sco_Object item))). plain_note n)
          \<and> (\<forall>e \<in> set (elems (obj_Entities (sco_Object item))). no_nul (ent_Key e)))"

lemma shown_from_keys:
  assumes "first_of (\<lambda>x. noteObservationKey (snd x) \<notin> noteObservationKey ` set notes \<and> old_candidate q roots x \<noteq> None)
       (noteObservationKey \<circ> snd) (history_notes chain) x"
  shows "shown q roots notes chain x"
proof -
  from assms obtain ys zs where x: "noteObservationKey (snd x) \<notin> noteObservationKey ` set notes" "old_candidate q roots x \<noteq> None"
      "history_notes chain = ys @ x # zs"
      "\<forall>y \<in> set ys. noteObservationKey (snd y) = noteObservationKey (snd x) \<longrightarrow> old_candidate q roots y = None"
    unfolding first_of_def by auto
  have "observation (snd x) \<notin> observation ` set notes" using x(1) observation_key by (metis image_iff)
  moreover have "\<exists>c. older_candidate q roots x c" using x(2) old_candidate_sound by blast
  moreover have "\<not> (\<exists>c. older_candidate q roots y c)" if "y \<in> set ys" "observation (snd y) = observation (snd x)" for y
    using x(4) that observation_key old_candidate_complete by (metis option.distinct(1))
  ultimately show ?thesis unfolding shown_def first_of_def using x(3) by auto
qed

lemma keys_from_shown:
  assumes "shown q roots notes chain x" "plain_context roots notes chain"
  shows "first_of (\<lambda>x. noteObservationKey (snd x) \<notin> noteObservationKey ` set notes \<and> old_candidate q roots x \<noteq> None)
       (noteObservationKey \<circ> snd) (history_notes chain) x"
proof -
  from assms(1) obtain ys zs where x: "observation (snd x) \<notin> observation ` set notes" "\<exists>c. older_candidate q roots x c"
      "history_notes chain = ys @ x # zs"
      "\<forall>y \<in> set ys. observation (snd y) = observation (snd x) \<longrightarrow>
         \<not> (observation (snd y) \<notin> observation ` set notes \<and> (\<exists>c. older_candidate q roots y c))"
    unfolding shown_def first_of_def by auto
  have plain: "plain_note (snd y)" if "y \<in> set (history_notes chain)" for y
    using that assms(2) by (auto simp: history_notes_def plain_context_def)
  have px: "plain_note (snd x)" by (rule plain) (simp add: x(3))
  have "noteObservationKey (snd x) \<notin> noteObservationKey ` set notes"
  proof
    assume "noteObservationKey (snd x) \<in> noteObservationKey ` set notes"
    then obtain m where m: "m \<in> set notes" "noteObservationKey (snd x) = noteObservationKey m" by blast
    from m(1) assms(2) have "plain_note m" by (simp add: plain_context_def)
    from key_observation [OF m(2) px this] have "observation (snd x) = observation m" .
    with m(1) x(1) show False by blast
  qed
  moreover have "old_candidate q roots x \<noteq> None" using x(2) old_candidate_complete by blast
  moreover have "old_candidate q roots y = None"
    if "y \<in> set ys" "noteObservationKey (snd y) = noteObservationKey (snd x)" for y
  proof -
    have "plain_note (snd y)" by (rule plain) (simp add: x(3) that(1))
    from key_observation [OF that(2) this px] x(1,4) that(1) have "\<not> (\<exists>c. older_candidate q roots y c)" by auto
    then show ?thesis using old_candidate_sound by (metis option.exhaust)
  qed
  ultimately show ?thesis unfolding first_of_def using x(3) by auto
qed

lemma offered_plain:
  assumes "offered q roots notes chain c" "plain_context roots notes chain"
  shows "plain_note (rc_Note c) \<and> no_nul (ent_Key (rc_Root c)) \<and> no_nul (ent_Key (rc_Bound c))"
proof (cases "\<exists>root \<in> set (ar_Roots roots). \<exists>n \<in> set notes. note_EntityKey n = ent_Key root
        \<and> c = plain_candidate root (reasons_at (ar_Reasons roots) (ent_Key root)) n")
  case True
  with assms(2) show ?thesis by (auto simp: plain_context_def plain_candidate_def)
next
  case False
  with assms(1) obtain item n where x: "shown q roots notes chain (item, n)" "older_candidate q roots (item, n) c"
    unfolding offered_def by auto
  from x(1) have "(item, n) \<in> set (history_notes chain)" unfolding shown_def first_of_def by auto
  then have item: "item \<in> set chain" "n \<in> set (elems (obj_Notes (sco_Object item)))" by (auto simp: history_notes_def)
  have was: "no_nul (ent_Key e)" if "entity_of (sco_Object item) k = Some e" for e k
  proof -
    from that have "e \<in> set (elems (obj_Entities (sco_Object item)))" by (auto simp: entity_of_def find_Some_iff rev_nth)
    with assms(2) item(1) show ?thesis by (auto simp: plain_context_def)
  qed
  have root: "no_nul (ent_Key (ar_Roots roots ! k))" if "k < length (ar_Roots roots)" for k
    using assms(2) that by (auto simp: plain_context_def)
  show ?thesis
    using x(2) item assms(2) was root
    by (auto simp: older_candidate_def plain_context_def Let_def split: if_splits option.splits)
qed

definition same_candidate :: "retrievalCandidate \<Rightarrow> retrievalCandidate \<Rightarrow> bool" where
  "same_candidate c d \<longleftrightarrow> rc_Root c = rc_Root d \<and> rc_Bound c = rc_Bound d \<and> rc_Note c = rc_Note d
     \<and> rc_Historical c = rc_Historical d \<and> rc_ContextCommit c = rc_ContextCommit d"

lemma historical_chain:
  assumes "(if cq_History q = HistoryAll \<and> parentID \<noteq> []
     then historicalCandidates graph parentID q (ar_Roots roots) (ar_Reasons roots) (ar_Changes roots) notes else Inr []) = Inr historical"
  shows "\<exists>chain. (if cq_History q = HistoryAll \<and> parentID \<noteq> [] then graph parentID = Inr chain else chain = [])
    \<and> (\<forall>c \<in> set (candidatesForRoots (ar_Roots roots) (ar_Reasons roots) notes @ historical). offered q roots notes chain c)
    \<and> (\<forall>c. plain_context roots notes chain \<and> offered q roots notes chain c \<longrightarrow>
         (\<exists>c' \<in> set (candidatesForRoots (ar_Roots roots) (ar_Reasons roots) notes @ historical). same_candidate c' c))"
proof (cases "cq_History q = HistoryAll \<and> parentID \<noteq> []")
  case False
  with assms have "historical = []" by simp
  moreover have "\<not> shown q roots notes [] x" for x by (simp add: shown_def history_notes_def)
  ultimately show ?thesis
    using False by (intro exI [of _ "[]"]) (auto simp: set_candidatesForRoots offered_def same_candidate_def)
next
  case True
  with assms have "historicalCandidates graph parentID q (ar_Roots roots) (ar_Reasons roots) (ar_Changes roots) notes = Inr historical"
    by simp
  from historicalCandidates_set [OF this] obtain chain where chain: "graph parentID = Inr chain"
    "set historical = {c. \<exists>x. first_of (\<lambda>x. noteObservationKey (snd x) \<notin> noteObservationKey ` set notes \<and> old_candidate q roots x \<noteq> None)
       (noteObservationKey \<circ> snd) (history_notes chain) x \<and> old_candidate q roots x = Some c}" .
  let ?cs = "candidatesForRoots (ar_Roots roots) (ar_Reasons roots) notes @ historical"
  have "offered q roots notes chain c" if "c \<in> set historical" for c
    using that shown_from_keys old_candidate_sound unfolding chain(2) offered_def by blast
  then have sound: "\<forall>c \<in> set ?cs. offered q roots notes chain c"
    unfolding offered_def by (auto simp: set_candidatesForRoots)
  have "\<exists>c' \<in> set ?cs. same_candidate c' c" if p: "plain_context roots notes chain" and given: "offered q roots notes chain c" for c
  proof (cases "\<exists>x. shown q roots notes chain x \<and> older_candidate q roots x c")
    case True
    then obtain x where x: "shown q roots notes chain x" "older_candidate q roots x c" by blast
    from keys_from_shown [OF x(1) p] old_candidate_complete [OF x(2)]
    have "\<exists>c' \<in> set historical. same_candidate c' c" unfolding chain(2) same_candidate_def by blast
    then show ?thesis by auto
  next
    case False
    with given have "c \<in> set ?cs" unfolding offered_def by (auto simp: set_candidatesForRoots)
    then show ?thesis unfolding same_candidate_def by blast
  qed
  with sound True chain(1) show ?thesis by (intro exI [of _ chain]) simp
qed

subsection \<open>The assembled context\<close>

text \<open>A candidate is represented by an item of its identity, or the limit has cut off one of its identity that ranks after
  all items; then the context is not complete and says so.\<close>

definition represented :: "ContextBundle \<Rightarrow> ContextQuery \<Rightarrow> assembly_roots \<Rightarrow> Note list \<Rightarrow> storedContextObject list \<Rightarrow> retrievalCandidate \<Rightarrow> bool" where
  "represented b q roots notes chain c \<longleftrightarrow> (\<exists>c'. offered q roots notes chain c' \<and> wanted q c'
     \<and> item_identity (context_item c') = item_identity (context_item c)
     \<and> (context_item c' \<in> set (bundle_Items b)
        \<or> int (length (bundle_Items b)) = cq_Limit q \<and> \<not> bundle_Complete b \<and> bundle_Diagnostics b \<noteq> ar_Diagnostics roots
          \<and> (\<forall>i \<in> set (bundle_Items b). item_rank i \<le> item_rank (context_item c'))))"

text \<open>C16: An assembled context is exact.  Every item is wanted by the query and is either a current note of the
  worktree bound to a root, or, only when the whole history is asked for, the newest observation of its kind of an older note
  in the tip's ancestry that no current note has, with the entity and the ID of the object it is from.  The items are ranked, of
  distinct identity and within the limit.  Conversely, when no key or ID holds a NUL byte, every wanted current note of a
  root and every wanted older note is represented, unless the limit cuts it off, and then a diagnostic says so.  The context
  is complete exactly when the coverage is and there is no diagnostic.\<close>

theorem context_exact:
  assumes "slice_sort sorter" "AssembleContext env senv ord sorter decode dir key query db = Inr b"
  shows "\<exists>q notes parentID roots chain. NormalizeQuery query = Inr q \<and> in_working_set key db
    \<and> currentNotes ord decode key db = Inr (notes, parentID)
    \<and> anchor_roots env senv ord dir key q (listFreshEntities (key_WorktreeID key) (key_SourceSHA key) db) notes parentID db = Inr roots
    \<and> (if cq_History q = HistoryAll \<and> parentID \<noteq> [] then stored_graph env dir key parentID = Inr chain else chain = [])
    \<and> sorted (map item_rank (bundle_Items b)) \<and> distinct (map item_identity (bundle_Items b))
    \<and> int (length (bundle_Items b)) \<le> cq_Limit q
    \<and> (\<forall>i \<in> set (bundle_Items b). \<exists>c. i = context_item c \<and> wanted q c \<and> offered q roots notes chain c)
    \<and> (plain_context roots notes chain \<longrightarrow>
         (\<forall>c. offered q roots notes chain c \<and> wanted q c \<longrightarrow> represented b q roots notes chain c))
    \<and> (bundle_Complete b \<longleftrightarrow> coverageComplete (listCoverage (key_WorktreeID key) db) (key_SourceSHA key) \<and> bundle_Diagnostics b = [])"
proof -
  from assms(2) obtain q d u ns parentID roots historical where
    q: "NormalizeQuery query = Inr q" and working: "requireWorkingSet key db = Inr (d, u)"
    and current: "currentNotes ord decode key db = Inr (ns, parentID)"
    and roots: "anchor_roots env senv ord dir key q (listFreshEntities (key_WorktreeID key) (key_SourceSHA key) db) ns parentID db = Inr roots"
    and historical: "(if cq_History q = HistoryAll \<and> parentID \<noteq> []
         then historicalCandidates (stored_graph env dir key) parentID q (ar_Roots roots) (ar_Reasons roots) (ar_Changes roots) ns
         else Inr []) = Inr historical"
    and b: "Assemble sorter (retrieval_input key q roots
         (candidatesForRoots (ar_Roots roots) (ar_Reasons roots) ns @ historical) db) = Inr b"
    by (auto simp: AssembleContext_def Let_def)
  define cs where "cs = candidatesForRoots (ar_Roots roots) (ar_Reasons roots) ns @ historical"
  let ?inp = "retrieval_input key q roots cs db"
  have inp: "rin_Query ?inp = q" "rin_Diagnostics ?inp = ar_Diagnostics roots" "rin_Candidates ?inp = cs"
    "rin_Complete ?inp \<longleftrightarrow> coverageComplete (listCoverage (key_WorktreeID key) db) (key_SourceSHA key) \<and> ar_Diagnostics roots = []"
    by (simp_all add: retrieval_input_def)
  note exact = bundle_exact [OF assms(1) b [folded cs_def], unfolded inp, OF normal_query [OF q]]
  from historical_chain [OF historical] obtain chain where
    chain: "if cq_History q = HistoryAll \<and> parentID \<noteq> [] then stored_graph env dir key parentID = Inr chain else chain = []"
    and sound: "\<forall>c \<in> set cs. offered q roots ns chain c"
    and all: "\<forall>c. plain_context roots ns chain \<and> offered q roots ns chain c \<longrightarrow> (\<exists>c' \<in> set cs. same_candidate c' c)"
    unfolding cs_def by (elim exE conjE)
  have items: "\<exists>c. i = context_item c \<and> wanted q c \<and> offered q roots ns chain c" if "i \<in> set (bundle_Items b)" for i
    using exact sound that by blast
  have found: "represented b q roots ns chain c"
    if plain: "plain_context roots ns chain" and c: "offered q roots ns chain c" "wanted q c" for c
  proof -
    from all plain c(1) obtain c1 where c1: "c1 \<in> set cs" "same_candidate c1 c" by blast
    with c(2) have "wanted q c1" by (simp add: same_candidate_def wanted_def text_values_def)
    with exact c1(1) obtain c' where c': "c' \<in> set cs" "wanted q c'" "itemKey (context_item c') = itemKey (context_item c1)"
        "context_item c' \<in> set (bundle_Items b)
            \<or> int (length (bundle_Items b)) = cq_Limit q \<and> \<not> bundle_Complete b \<and> bundle_Diagnostics b \<noteq> ar_Diagnostics roots
              \<and> (\<forall>i \<in> set (bundle_Items b). item_rank i \<le> item_rank (context_item c'))" by blast
    have o': "offered q roots ns chain c'" "offered q roots ns chain c1" using sound c'(1) c1(1) by blast+
    have "item_identity (context_item c') = item_identity (context_item c1)"
      using c'(3) offered_plain [OF o'(1) plain] offered_plain [OF o'(2) plain]
      by (intro item_identity_key) (simp_all add: context_item_def entityRef_def)
    also have "\<dots> = item_identity (context_item c)"
      using c1(2) by (simp add: same_candidate_def item_identity_def context_item_def entityRef_def)
    finally show ?thesis unfolding represented_def using o'(1) c'(2,4) by blast
  qed
  have complete: "bundle_Complete b \<longleftrightarrow> coverageComplete (listCoverage (key_WorktreeID key) db) (key_SourceSHA key) \<and> bundle_Diagnostics b = []"
  proof -
    have "ar_Diagnostics roots = [] \<and> bundle_Diagnostics b = ar_Diagnostics roots \<longleftrightarrow> bundle_Diagnostics b = []"
      using b [folded cs_def] by (auto simp: Assemble_def inp Let_def)
    with exact show ?thesis by auto
  qed
  have "distinct (map item_identity (bundle_Items b))"
  proof -
    from exact have "distinct (map itemKey (bundle_Items b))" by blast
    then show ?thesis unfolding distinct_map inj_on_def using item_key_identity by blast
  qed
  moreover from working have "in_working_set key db" by (simp add: requireWorkingSet_Inr)
  ultimately show ?thesis using q current roots chain exact items found complete by blast
qed

end
