(* ===== verification/Assembly_Examples.thy ===== *)
theory Assembly_Examples
  imports Assembly_Properties Local_Examples
begin

text \<open>The context of an entity with one committed and one pending note, and an older note that only the ancestry has.\<close>

definition ex_found_entity :: Entity where
  "ex_found_entity = zero_entity\<lparr>ent_Language := ''go'', ent_Key := ''e'', ent_Kind := EntityFunction, ent_Name := ''Run'',
     ent_Path := ''pkg/run.go'', ent_SourceSHA := ex_sha\<rparr>"

definition ex_notes_store :: local_db where
  "ex_notes_store = (ex_store ex_sha [ex_note ''n'' NoteBindingActive ex_sha] [ex_note ''p'' NoteBindingActive ex_sha] [])
     \<lparr>ldb_entities := [\<lparr>enr_WorktreeID = ''w'', enr_Entity = ex_found_entity\<rparr>]\<rparr>"

definition ex_query :: ContextQuery where
  "ex_query = \<lparr>cq_Anchor = \<lparr>anc_Kind = AnchorEntity, anc_EntityKey = '' e '', anc_Query = [], anc_BaseContextID = []\<rparr>, cq_Text = [],
     cq_Kinds = [], cq_States = [], cq_Topics = None, cq_Languages = [], cq_Paths = [''/pkg/''], cq_EntityKinds = [],
     cq_History = HistoryAll, cq_Limit = 0\<rparr>"

definition ex_search :: search_env where
  "ex_search = \<lparr>se_word = (\<lambda>_. True), se_match = (\<lambda>_ _ _. Inr []), se_like = (\<lambda>_ _ _. Inr [])\<rparr>"

definition ex_normal_query :: ContextQuery where
  "ex_normal_query = ex_query\<lparr>cq_Anchor := (cq_Anchor ex_query)\<lparr>anc_EntityKey := ''e''\<rparr>, cq_States := [NoteBindingActive],
     cq_Limit := 20\<rparr>"

definition ex_current :: "Note list" where
  "ex_current = fst (projr (currentNotes (\<lambda>_ ks. ks) ex_topics (ex_key ex_sha) ex_notes_store))"

definition ex_roots :: assembly_roots where
  "ex_roots = \<lparr>ar_Roots = [ex_found_entity], ar_Reasons = [(''e'', [plain_reason ReasonDirectEntity])], ar_Changes = [],
     ar_Source = \<lparr>rsrc_SourceSHA = ex_sha, rsrc_ContextCommitID = ex_root, rsrc_BaseSourceSHA = []\<rparr>, ar_Diagnostics = []\<rparr>"

text \<open>The root of the ancestry holds the older note.\<close>

definition ex_old_note :: Note where
  "ex_old_note = ex_note ''h'' NoteBindingActive ex_sha"

definition ex_old_object :: ContextObject where
  "ex_old_object = (ex_node [])\<lparr>obj_Notes := Some [ex_old_note], obj_RevisionMappings := [note_mapping ex_old_note]\<rparr>"

definition ex_old_decode :: "string \<Rightarrow> ContextObject json_decoded" where
  "ex_old_decode s = (if s = ''a'' then Decoded ex_old_object True else ex_decode s)"

definition ex_old_env :: object_env where
  "ex_old_env = \<lparr>oe_blake3 = ex_node_hash, oe_decode = ex_old_decode, oe_fuel = 8\<rparr>"

definition ex_old_item :: storedContextObject where
  "ex_old_item = \<lparr>sco_ID = ex_root, sco_Contents = ''a'', sco_Object = ex_old_object\<rparr>"

lemma ex_old_wf: "object_wf ex_old_object ''repo'' ''main''"
proof -
  have "TrimSpace ex_sha \<noteq> []" "TrimSpace ''b'' \<noteq> []" by (simp_all add: ex_sha_facts TrimSpace_letter)
  moreover have "NormalizeNoteTopics [] = Inr []" by code_simp
  moreover have "ValidNoteKind NoteIntent" "ValidNoteBindingState NoteBindingActive" by (simp_all add: ValidNoteKind_def ValidNoteBindingState_def)
  ultimately show ?thesis
    by (simp add: object_wf_def ex_old_object_def ex_node_def ex_snapshot_def object_metadata_bad_def TrimSpace_letter ex_time_facts
      entities_wf_def notes_wf_def IsContextSnapshotSchema_def parents_wf_def parent_shape_bad_def provenance_wf_def
      ex_prov_def mappings_wf_def receipts_wf_def ex_old_note_def ex_note_def note_wf_def committed_note_ok_def
      revision_binding_ok_def note_mapping_def manifest_mapping_ok_def mapping_matches_note_def)
qed

lemma ex_old_graph: "stored_graph ex_old_env ex_dir (ex_key ex_sha) ex_root = Inr [ex_old_item]"
proof -
  have dir: "ex_dir (ex_node_id CHR ''a'') = Some ''a''" by (auto simp: ex_dir_def)
  have "obj_SchemaVersion ex_old_object = 3" by (simp add: ex_old_object_def ex_node_def)
  moreover have "hex_encode (ex_node_hash ''a'') = ex_node_id CHR ''a''" by (simp add: ex_node_hash_def ex_node_id_def)
  ultimately have load: "load_object ex_node_hash ex_old_decode ''repo'' ''main'' (read_object_file ex_dir) (ex_node_id CHR ''a'')
      = Inr (''a'', ex_old_object)"
    using ex_old_wf by (simp add: load_object_def read_object_file_def dir decodeContextObject_def ex_old_decode_def validateContextObject_eq)
  have held: "elems (obj_Notes ex_old_object) = [ex_old_note]" "obj_LandingReceipts ex_old_object = []"
    "contextObjectParentIDs ex_old_object = []"
    by (simp_all add: ex_old_object_def ex_node_def ex_snapshot_def contextObjectParentIDs_def IsContextSnapshotSchema_def)
  have "note_SupersedesRevisionID ex_old_note = []" by (simp add: ex_old_note_def ex_note_def)
  then have "loadObjectGraph ex_node_hash ex_old_decode 8 ex_dir (ex_node_id CHR ''a'') ''repo'' ''main'' = Some (Inr [ex_old_item])"
    by (simp add: loadObjectGraph_def loadObjectGraphFrom_run [OF ex_node_normal] start_state_def eval_nat_numeral load ex_old_item_def
      held chain_notes_def receipt_links_ok_def chain_receipts_def ex_root_def link_ok_def)
  then show ?thesis by (simp add: stored_graph_def ex_old_env_def ex_key_def ex_root_def)
qed

definition ex_old_candidate :: retrievalCandidate where
  "ex_old_candidate = \<lparr>rc_Root = ex_found_entity, rc_Bound = ex_found_entity, rc_Note = ex_old_note,
     rc_Reasons = [plain_reason ReasonDirectEntity, plain_reason ReasonHistoricalRevision], rc_Historical = True,
     rc_ContextCommit = ex_root\<rparr>"

definition ex_items :: "ContextItem list" where
  "ex_items = insertion_sort lessItem (fst (foldl (collect_step ex_normal_query) ([], {})
     (candidatesForRoots [ex_found_entity] [(''e'', [plain_reason ReasonDirectEntity])] ex_current @ [ex_old_candidate])))"

lemma ex_assembly_steps:
  "NormalizeQuery ex_query = Inr ex_normal_query"
  "map_sum id snd (currentNotes (\<lambda>_ ks. ks) ex_topics (ex_key ex_sha) ex_notes_store) = Inr ex_root"
  "listFreshEntities ''w'' ex_sha ex_notes_store = [ex_found_entity]"
  "entityByKeyFresh ''w'' ex_sha ''e'' ex_notes_store = Inr ex_found_entity"
  "map (\<lambda>i. note_ID (item_Note i)) ex_items = [''n'', ''p'', ''h'']"
  "map note_ID ex_current = [''n'', ''p'']" "list_all plain_note ex_current"
  by code_simp+

definition ex_bundle :: ContextBundle where
  "ex_bundle = \<lparr>bundle_Source = ar_Source ex_roots,
     bundle_Anchor = \<lparr>ranc_Kind = AnchorEntity, ranc_EntityKeys = [''e''], ranc_Query = [], ranc_Changes = []\<rparr>, bundle_Complete = True,
     bundle_Diagnostics = [], bundle_Items = ex_items\<rparr>"

lemma ex_sel:
  "anc_Kind (cq_Anchor ex_normal_query) = AnchorEntity" "anc_EntityKey (cq_Anchor ex_normal_query) = ''e''"
  "anc_Query (cq_Anchor ex_normal_query) = []" "cq_History ex_normal_query = HistoryAll" "cq_Limit ex_normal_query = 20"
  "ent_Key ex_found_entity = ''e''" "key_WorktreeID (ex_key ex_sha) = ''w''" "key_SourceSHA (ex_key ex_sha) = ex_sha"
  "key_RefName (ex_key ex_sha) = ''main''"
  by (simp_all add: ex_normal_query_def ex_query_def ex_found_entity_def ex_key_def)

lemma ex_current_notes: "currentNotes (\<lambda>_ ks. ks) ex_topics (ex_key ex_sha) ex_notes_store = Inr (ex_current, ex_root)"
  using ex_assembly_steps(2)
  by (cases "currentNotes (\<lambda>_ ks. ks) ex_topics (ex_key ex_sha) ex_notes_store") (auto simp: ex_current_def)

lemma ex_anchor: "anchor_roots ex_old_env ex_search (\<lambda>_ ks. ks) ex_dir (ex_key ex_sha) ex_normal_query [ex_found_entity] ex_current ex_root
    ex_notes_store = Inr ex_roots"
  by (simp add: anchor_roots_def ex_sel entitiesForAssemblyRoots_def assemblyRoots_def ex_assembly_steps ex_roots_def
      AnchorEntity_def AnchorChange_def AnchorText_def)

lemma ex_root_nonempty: "ex_root \<noteq> []"
  using ex_node_canonical canonical_id_nonempty unfolding ex_root_def by blast

lemma ex_older: "historicalCandidates (stored_graph ex_old_env ex_dir (ex_key ex_sha)) ex_root ex_normal_query (ar_Roots ex_roots)
    (ar_Reasons ex_roots) (ar_Changes ex_roots) ex_current = Inr [ex_old_candidate]"
proof -
  have obs: "noteObservationKey ex_old_note \<notin> noteObservationKey ` set ex_current"
  proof
    assume "noteObservationKey ex_old_note \<in> noteObservationKey ` set ex_current"
    then obtain m where m: "m \<in> set ex_current" "noteObservationKey ex_old_note = noteObservationKey m" by blast
    have p: "plain_note ex_old_note" by code_simp
    from m(1) ex_assembly_steps(7) have "plain_note m" by (simp add: list_all_iff)
    from key_observation [OF m(2) p this] have "note_ID m = ''h''" by (simp add: observation_def ex_old_note_def ex_note_def)
    moreover have "note_ID m \<in> set (map note_ID ex_current)" using m(1) by simp
    ultimately show False unfolding ex_assembly_steps(6) by simp
  qed
  have "elems (obj_Notes ex_old_object) = [ex_old_note]" "elems (obj_Entities ex_old_object) = []" "note_EntityKey ex_old_note = ''e''"
    by (simp_all add: ex_old_object_def ex_node_def ex_old_note_def ex_note_def)
  then show ?thesis
    using obs by (simp add: historicalCandidates_def ex_old_graph ex_old_item_def history_step_def historical_candidate_def ex_sel
        AnchorEntity_def AnchorText_def Let_def ex_roots_def rootHistoryKeys_def reasons_at_def entities_by_key_def ex_old_candidate_def)
qed

lemma ex_assembled: "AssembleContext ex_old_env ex_search (\<lambda>_ ks. ks) insertion_sort ex_topics ex_dir (ex_key ex_sha) ex_query ex_notes_store
    = Inr ex_bundle"
proof -
  have normal: "NormalizeQuery ex_normal_query = Inr ex_normal_query" by (rule normal_query [OF ex_assembly_steps(1)])
  have working: "requireWorkingSet (ex_key ex_sha) ex_notes_store = Inr (ex_notes_store, ())"
    by (simp add: requireWorkingSet_Inr in_working_set_def ex_notes_store_def ex_store_def ex_key_def take_row_def)
  have "length ex_items = 3" using arg_cong [OF ex_assembly_steps(5), of length] by simp
  moreover have "coverageComplete (listCoverage ''w'' ex_notes_store) ex_sha" by code_simp
  ultimately show ?thesis
    using ex_root_nonempty
    by (simp add: AssembleContext_def ex_assembly_steps ex_sel working ex_current_notes ex_anchor ex_older Assemble_def
        retrieval_input_def normal Let_def)
      (simp add: ex_roots_def ex_items_def ex_bundle_def ex_sel)
qed

text \<open>The older note is found in the history, and nothing is cut off.\<close>

theorem context_exact_witness:
  "map (\<lambda>i. note_ID (item_Note i)) (bundle_Items ex_bundle) = [''n'', ''p'', ''h'']
   \<and> (\<exists>i \<in> set (bundle_Items ex_bundle). item_identity i = item_identity (context_item ex_old_candidate))"
proof -
  have plain: "plain_context ex_roots ex_current [ex_old_item]"
  proof -
    have "plain_note ex_old_note" "no_nul ''e''" by code_simp+
    then show ?thesis
      using ex_assembly_steps(7)
      by (simp add: plain_context_def list_all_iff ex_roots_def ex_found_entity_def ex_old_item_def ex_old_object_def ex_node_def)
  qed
  have offer: "offered ex_normal_query ex_roots ex_current [ex_old_item] ex_old_candidate"
    using historical_chain [of ex_normal_query ex_root "stored_graph ex_old_env ex_dir (ex_key ex_sha)" ex_roots ex_current "[ex_old_candidate]"]
    by (simp add: ex_sel ex_root_nonempty ex_older ex_old_graph)
  have want: "wanted ex_normal_query ex_old_candidate" unfolding matches_wanted [symmetric] by code_simp
  from context_exact [OF insertion.slice_sort_axioms ex_assembled]
  have "represented ex_bundle ex_normal_query ex_roots ex_current [ex_old_item] ex_old_candidate"
    using plain offer want
    by (simp add: ex_assembly_steps(1,3) ex_current_notes ex_anchor ex_old_graph ex_sel ex_root_nonempty)
  then have "\<exists>i \<in> set (bundle_Items ex_bundle). item_identity i = item_identity (context_item ex_old_candidate)"
    unfolding represented_def by (auto simp: ex_bundle_def)
  moreover have "map (\<lambda>i. note_ID (item_Note i)) (bundle_Items ex_bundle) = [''n'', ''p'', ''h'']"
    using ex_assembly_steps(5) by (simp add: ex_bundle_def)
  ultimately show ?thesis by blast
qed

end
