(* ===== verification/Candidate_Publication.thy ===== *)
theory Candidate_Publication
  imports Remote_Sync Landing_Plan
begin

text \<open>
  Publishing the context of a pull request (app/candidate.go): the notes of the local commit are compared with
  those of the context the pull request is based on, and the difference is sent as a candidate delta.
\<close>

subsection \<open>The difference of two snapshots\<close>

record CandidatePublicationMetadata =
  cpm_Change :: ChangeKey
  cpm_BaseSourceSHA :: string
  cpm_HeadSourceSHA :: string
  cpm_BaseContextCommitID :: string

definition sameImmutableCandidateRevision :: "Note \<Rightarrow> Note \<Rightarrow> bool" where
  "sameImmutableCandidateRevision left right \<longleftrightarrow> note_ID left = note_ID right \<and> note_RevisionID left = note_RevisionID right
     \<and> note_SupersedesRevisionID left = note_SupersedesRevisionID right \<and> note_Kind left = note_Kind right
     \<and> note_Body left = note_Body right \<and> elems (note_Topics left) = elems (note_Topics right)
     \<and> note_Author left = note_Author right \<and> note_Origin left = note_Origin right
     \<and> time_Equal (note_CreatedAt left) (note_CreatedAt right)"

text \<open>Operation, base revision and superseded revision of the record of a note, \<open>None\<close> when it has not changed.\<close>

definition candidate_change :: "Note option \<Rightarrow> Note \<Rightarrow> (CandidateContextOperation \<times> string \<times> string) option result" where
  "candidate_change found note = (case found of
       None \<Rightarrow> Inr (Some (CandidateAdd, [], []))
     | Some previous \<Rightarrow>
       if note_RevisionID note \<noteq> note_RevisionID previous
         then Inr (Some (CandidateRevise, note_RevisionID previous, note_SupersedesRevisionID note))
       else if note_EntityKey note \<noteq> note_EntityKey previous then
         (if \<not> sameImmutableCandidateRevision previous note then Inl CodeValidation
          else Inr (Some (CandidateRebind, note_RevisionID previous, [])))
       else if \<not> sameImmutableCandidateRevision previous note then Inl CodeValidation
       else Inr None)"

definition candidate_record :: "CandidateContextOperation \<times> string \<times> string \<Rightarrow> Note \<Rightarrow> Entity \<Rightarrow> CandidateContextRecord" where
  "candidate_record change note entity = (case change of (operation, baseRevisionID, supersedesRevisionID) \<Rightarrow>
     \<lparr>rec_ID = [], rec_Operation = operation, rec_NoteID = note_ID note, rec_RevisionID = note_RevisionID note,
      rec_BaseRevisionID = baseRevisionID, rec_SupersedesRevisionID = supersedesRevisionID,
      rec_EntityKey = note_EntityKey note, rec_StructuralHash = ent_StructuralHash entity, rec_Kind = note_Kind note,
      rec_Body = note_Body note, rec_Topics = elems (note_Topics note), rec_Author = note_Author note,
      rec_Origin = note_Origin note, rec_CreatedAt = note_CreatedAt note\<rparr>)"

definition candidate_entity :: "ContextObject \<Rightarrow> ContextObject \<Rightarrow> string \<Rightarrow> Entity option" where
  "candidate_entity base branch key =
     (case map_of (entities_by_key (elems (obj_Entities branch))) key of
        Some entity \<Rightarrow> Some entity
      | None \<Rightarrow> map_of (entities_by_key (elems (obj_Entities base))) key)"

definition record_step :: "ContextObject \<Rightarrow> ContextObject \<Rightarrow> CandidateContextRecord list \<Rightarrow> string \<times> Note
    \<Rightarrow> CandidateContextRecord list result" where
  "record_step base branch records = (\<lambda>(noteID, note).
     and_then (candidate_change (map_of (notes_by_id (elems (obj_Notes base))) noteID) note) (\<lambda>change.
       case change of None \<Rightarrow> Inr records
       | Some c \<Rightarrow> (case candidate_entity base branch (note_EntityKey note) of
           None \<Rightarrow> Inl CodeValidation
         | Some entity \<Rightarrow> Inr (records @ [candidate_record c note entity]))))"

definition buildCandidateContextDelta :: "(string \<Rightarrow> string) \<Rightarrow> map_order \<Rightarrow> ChangeKey \<Rightarrow> CandidatePublicationMetadata
    \<Rightarrow> ContextObject \<Rightarrow> ContextObject \<Rightarrow> CandidateContextDelta result" where
  "buildCandidateContextDelta b3 ord change metadata base branch =
     (let baseNotes = notes_by_id (elems (obj_Notes base)); branchNotes = notes_by_id (elems (obj_Notes branch))
      in and_then (range_loop (\<lambda>_ (noteID, _). if map_of branchNotes noteID = None then Inl CodeValidation else Inr ()) ()
           (map_range ord 0 baseNotes)) (\<lambda>_.
         and_then (range_loop (record_step base branch) [] (map_range ord 1 branchNotes)) (\<lambda>records.
         NormalizeCandidateContextDelta b3 \<lparr>delta_SchemaVersion = 2, delta_Change = change,
           delta_BaseSourceSHA = cpm_BaseSourceSHA metadata, delta_HeadSourceSHA = cpm_HeadSourceSHA metadata,
           delta_BaseContextCommitID = cpm_BaseContextCommitID metadata, delta_Records = records\<rparr>)))"

subsection \<open>Publication\<close>

record CandidatePublicationRequest =
  cpq_Delta :: CandidateContextDelta
  cpq_Digest :: string

record CandidatePublicationResult =
  cpr_Digest :: string
  cpr_Published :: bool

text \<open>
  The interface \<open>CandidateTransport\<close> (remote/candidate.go) over a state of the remote.  \<open>Dial\<close> may yield a transport
  without it.
\<close>

record 's candidate_transport =
  ct_Metadata :: "ChangeKey \<Rightarrow> 's \<Rightarrow> CandidatePublicationMetadata result"
  ct_Publish :: "CandidatePublicationRequest \<Rightarrow> 's \<Rightarrow> 's \<times> CandidatePublicationResult result"

record 's publish_run =
  pb_key :: "WorkingSetKey result"
  pb_clean :: "unit result"
  pb_store :: "unit result"
  pb_dial :: "string \<Rightarrow> 's candidate_transport option result"

record CandidatePublishResult =
  cpub_Digest :: string
  cpub_Records :: nat
  cpub_Published :: bool

text \<open>The local side of a publication: the key, the change, the local ref and the transport.\<close>

definition publish_start :: "topics_decoder \<Rightarrow> 's publish_run \<Rightarrow> string \<Rightarrow> string \<Rightarrow> local_db
    \<Rightarrow> (WorkingSetKey \<times> ChangeKey \<times> ContextRef \<times> 's candidate_transport) result" where
  "publish_start decode run remoteName changeValue db =
     and_then (pb_key run) (\<lambda>key.
     and_then (pb_clean run) (\<lambda>_.
     and_then (ParseChangeKey changeValue) (\<lambda>change.
     and_then (pb_store run) (\<lambda>_.
     and_then (listPendingNotes decode (key_WorktreeID key) db) (\<lambda>(_, pending).
     if pending \<noteq> [] then Inl CodeWorkingSetDirty
     else and_then (read_ContextRef key db) (\<lambda>(_, localRef).
     if cref_CommitID localRef = [] \<or> cref_SourceSHA localRef \<noteq> key_SourceSHA key then Inl CodeStaleWorkingSet
     else and_then (read_Remote remoteName db) (\<lambda>(_, path).
     and_then (pb_dial run path) (\<lambda>dialled. case dialled of
         None \<Rightarrow> Inl CodeValidation | Some t \<Rightarrow> Inr (key, change, localRef, t)))))))))"

text \<open>The delta to send, from the stored objects and the metadata of the remote.\<close>

definition publish_delta :: "object_env \<Rightarrow> map_order \<Rightarrow> object_dir \<Rightarrow> WorkingSetKey \<Rightarrow> ChangeKey \<Rightarrow> ContextRef
    \<Rightarrow> CandidatePublicationMetadata \<Rightarrow> CandidateContextDelta result" where
  "publish_delta env ord dir key change localRef metadata =
     (if cpm_HeadSourceSHA metadata \<noteq> key_SourceSHA key then Inl CodeStaleWorkingSet
      else and_then (stored_ancestor env dir key (cref_CommitID localRef) (cpm_BaseContextCommitID metadata)) (\<lambda>ancestor.
      if \<not> ancestor then Inl CodeStaleWorkingSet
      else and_then (stored_object env dir key (cpm_BaseContextCommitID metadata)) (\<lambda>base.
      and_then (stored_object env dir key (cref_CommitID localRef)) (\<lambda>branch.
      if obj_SourceSHA base \<noteq> cpm_BaseSourceSHA metadata \<or> obj_SourceSHA branch \<noteq> cpm_HeadSourceSHA metadata
        then Inl CodeStaleWorkingSet
      else buildCandidateContextDelta (oe_blake3 env) ord change metadata base branch))))"

definition publish_request :: "object_env \<Rightarrow> map_order \<Rightarrow> topics_decoder \<Rightarrow> 's publish_run \<Rightarrow> string \<Rightarrow> string
    \<Rightarrow> local_state \<Rightarrow> 's \<Rightarrow> ('s candidate_transport \<times> CandidatePublicationRequest) result" where
  "publish_request env ord decode run remoteName changeValue st s =
     and_then (publish_start decode run remoteName changeValue (fst st)) (\<lambda>(key, change, localRef, t).
     and_then (ct_Metadata t change s) (\<lambda>metadata.
     and_then (publish_delta env ord (snd st) key change localRef metadata) (\<lambda>delta.
     and_then (CandidateContextDigest (oe_blake3 env) delta) (\<lambda>digest.
     Inr (t, \<lparr>cpq_Delta = delta, cpq_Digest = digest\<rparr>)))))"

definition PublishCandidate :: "object_env \<Rightarrow> map_order \<Rightarrow> topics_decoder \<Rightarrow> 's publish_run \<Rightarrow> string \<Rightarrow> string
    \<Rightarrow> local_state \<Rightarrow> 's \<Rightarrow> 's \<times> CandidatePublishResult result" where
  "PublishCandidate env ord decode run remoteName changeValue st s =
     (case publish_request env ord decode run remoteName changeValue st s of
        Inl e \<Rightarrow> (s, Inl e)
      | Inr (t, request) \<Rightarrow> (case ct_Publish t request s of
          (s', Inl e) \<Rightarrow> (s', Inl e)
        | (s', Inr result) \<Rightarrow> (s', Inr \<lparr>cpub_Digest = cpr_Digest result,
            cpub_Records = length (delta_Records (cpq_Delta request)), cpub_Published = cpr_Published result\<rparr>)))"

end
