(* ===== verification/Publication_Properties.thy ===== *)
theory Publication_Properties
  imports Candidate_Publication Landing_Properties
begin

text \<open>
  What a published candidate delta says: planning its landing on the context it is based on has no conflict and
  restores the notes of the branch; and a note that was revised twice on the branch cannot be published.
\<close>

subsection \<open>Normalised records\<close>

text \<open>A note as the local store writes it: identifiers, author and origin without space around them, the time in UTC.\<close>

definition publishable :: "Note \<Rightarrow> bool" where
  "publishable n \<longleftrightarrow> TrimSpace (note_ID n) = note_ID n \<and> TrimSpace (note_RevisionID n) = note_RevisionID n
     \<and> TrimSpace (note_EntityKey n) = note_EntityKey n \<and> TrimSpace (note_Author n) = note_Author n
     \<and> TrimSpace (note_Origin n) = note_Origin n \<and> time_UTC (note_CreatedAt n) = note_CreatedAt n
     \<and> NormalizeNoteTopics (elems (note_Topics n)) = Inr (elems (note_Topics n))"

definition publishable_notes :: "ContextObject \<Rightarrow> bool" where
  "publishable_notes obj \<longleftrightarrow> list_all publishable (elems (obj_Notes obj)) \<and> distinct (map note_ID (elems (obj_Notes obj)))"

definition carries :: "CandidateContextRecord \<Rightarrow> CandidateContextOperation \<times> string \<times> string \<Rightarrow> Note \<Rightarrow> bool" where
  "carries r change n \<longleftrightarrow> (case change of (operation, baseRevisionID, _) \<Rightarrow>
     rec_Operation r = operation \<and> rec_BaseRevisionID r = TrimSpace baseRevisionID
     \<and> rec_NoteID r = note_ID n \<and> rec_RevisionID r = note_RevisionID n \<and> rec_EntityKey r = note_EntityKey n
     \<and> rec_Kind r = note_Kind n \<and> rec_Body r = note_Body n \<and> rec_Topics r = elems (note_Topics n)
     \<and> rec_Author r = note_Author n \<and> rec_Origin r = note_Origin n \<and> rec_CreatedAt r = note_CreatedAt n)"

lemma candidate_record_sel:
  "rec_Topics (candidate_record c n e) = elems (note_Topics n)"
  by (simp add: candidate_record_def split: prod.splits)

lemma normalised_carries:
  assumes "normalizeCandidateContextRecord b3 (candidate_record c n e) = Inr r" "publishable n"
  shows "carries r c n"
proof -
  obtain p b s where c: "c = (p, b, s)" by (cases c)
  from assms(1) obtain ts i where "NormalizeNoteTopics (elems (note_Topics n)) = Inr ts"
      and "r = (trim_record (candidate_record c n e))\<lparr>rec_Topics := ts, rec_ID := i\<rparr>"
    unfolding normalizeCandidateContextRecord_iff candidate_record_sel by blast
  then show ?thesis
    using assms(2) by (simp add: carries_def c trim_record_def candidate_record_def publishable_def)
qed

lemma normalised_records:
  assumes "NormalizeCandidateContextDelta b3 x = Inr d"
  shows "\<exists>rs. list_all2 (\<lambda>x y. normalizeCandidateContextRecord b3 x = Inr y) (delta_Records x) rs
    \<and> set (delta_Records d) = set rs"
proof -
  from assms obtain rs u where rs: "range_loop (\<lambda>(records, noteIDs) raw.
     and_then (normalizeCandidateContextRecord b3 raw) (\<lambda>record.
     if rec_NoteID record \<in> noteIDs then Inl CodeValidation
     else Inr (records @ [record], insert (rec_NoteID record) noteIDs))) ([], {}) (delta_Records x) = Inr (rs, u)"
     "delta_Records d = sort_key rec_ID rs"
    by (auto simp: NormalizeCandidateContextDelta_def Let_def simp del: range_loop.simps split: if_splits)
  from rs(1) show ?thesis unfolding delta_records_loop rs(2) by auto
qed

subsection \<open>The loops\<close>

definition recorded :: "ContextObject \<Rightarrow> ContextObject \<Rightarrow> Note \<Rightarrow> CandidateContextRecord \<Rightarrow> bool" where
  "recorded base branch n x \<longleftrightarrow> (\<exists>c e.
     candidate_change (map_of (notes_by_id (elems (obj_Notes base))) (note_ID n)) n = Inr (Some c)
     \<and> candidate_entity base branch (note_EntityKey n) = Some e \<and> x = candidate_record c n e)"

lemma record_loop:
  assumes "range_loop (record_step base branch) acc xs = Inr rs" "\<forall>(k, n) \<in> set xs. note_ID n = k"
  shows "set rs = set acc \<union> {x. \<exists>n \<in> snd ` set xs. recorded base branch n x}
    \<and> (\<forall>n \<in> snd ` set xs. candidate_change (map_of (notes_by_id (elems (obj_Notes base))) (note_ID n)) n = Inr None
         \<or> (\<exists>x. recorded base branch n x))"
  using assms
proof (induction xs arbitrary: acc)
  case Nil
  then show ?case by simp
next
  case (Cons x xs)
  obtain k n where x: "x = (k, n)" by (cases x)
  with Cons.prems(2) have k: "note_ID n = k" by simp
  from Cons.prems(1) obtain acc' where step: "record_step base branch acc x = Inr acc'"
      and rest: "range_loop (record_step base branch) acc' xs = Inr rs"
    by (auto simp: and_then_eq_Inr)
  from step have s: "(candidate_change (map_of (notes_by_id (elems (obj_Notes base))) (note_ID n)) n = Inr None \<and> acc' = acc
        \<and> (\<forall>y. \<not> recorded base branch n y))
      \<or> (\<exists>y. recorded base branch n y \<and> acc' = acc @ [y] \<and> (\<forall>z. recorded base branch n z \<longrightarrow> z = y))"
  proof (cases "candidate_change (map_of (notes_by_id (elems (obj_Notes base))) (note_ID n)) n")
    case (Inl e)
    with step show ?thesis by (simp add: record_step_def x k)
  next
    case change: (Inr ch)
    show ?thesis
    proof (cases ch)
      case None
      with change step show ?thesis by (simp add: record_step_def recorded_def x k)
    next
      case (Some c)
      with change step obtain e where "candidate_entity base branch (note_EntityKey n) = Some e"
          "acc' = acc @ [candidate_record c n e]"
        by (auto simp: record_step_def x k split: option.splits)
      with change Some show ?thesis
        by (intro disjI2 exI [of _ "candidate_record c n e"]) (simp add: recorded_def)
    qed
  qed
  from Cons.prems(2) have "\<forall>(k, n) \<in> set xs. note_ID n = k" by simp
  note IH = Cons.IH [OF rest this]
  have "snd ` set (x # xs) = insert n (snd ` set xs)" by (simp add: x)
  note S = this
  from s show ?case
  proof (elim disjE exE conjE)
    assume "candidate_change (map_of (notes_by_id (elems (obj_Notes base))) (note_ID n)) n = Inr None" "acc' = acc"
      "\<forall>y. \<not> recorded base branch n y"
    then show ?thesis using IH unfolding S by simp
  next
    fix y
    assume y: "recorded base branch n y" "acc' = acc @ [y]" "\<forall>z. recorded base branch n z \<longrightarrow> z = y"
    then have only: "recorded base branch n z \<longleftrightarrow> z = y" for z by blast
    show ?thesis using IH y(2) unfolding S by (auto simp: only)
  qed
qed

lemma subset_loop:
  assumes "range_loop (\<lambda>_ (k, _). if map_of m k = None then Inl CodeValidation else Inr ()) u xs = Inr v"
  shows "fst ` set xs \<subseteq> dom (map_of m)"
  using assms by (induction xs arbitrary: u) (auto simp: and_then_eq_Inr split: if_splits)

text \<open>A delta that is built lists a record for every changed note of the branch and nothing else.\<close>

lemma built_cases:
  assumes "map_iteration ord" "buildCandidateContextDelta b3 ord change metadata base branch = Inr d"
    and "distinct (map note_ID (elems (obj_Notes base)))" "distinct (map note_ID (elems (obj_Notes branch)))"
  obtains x where "note_ID ` set (elems (obj_Notes base)) \<subseteq> note_ID ` set (elems (obj_Notes branch))"
    "set (delta_Records x) = {r. \<exists>n \<in> set (elems (obj_Notes branch)). recorded base branch n r}"
    "\<forall>n \<in> set (elems (obj_Notes branch)).
       candidate_change (map_of (notes_by_id (elems (obj_Notes base))) (note_ID n)) n = Inr None
       \<or> (\<exists>r. recorded base branch n r)"
    "NormalizeCandidateContextDelta b3 x = Inr d"
proof -
  let ?bs = "elems (obj_Notes base)" and ?ns = "elems (obj_Notes branch)"
  have all: "set (map_range ord i (notes_by_id ns)) = (\<lambda>n. (note_ID n, n)) ` set ns" if "distinct (map note_ID ns)" for i ns
    using notes_by_id_lookup [OF that] by (auto simp: map_iteration.set_map_range [OF assms(1)])
  let ?x = "\<lambda>records. \<lparr>delta_SchemaVersion = 2, delta_Change = change,
     delta_BaseSourceSHA = cpm_BaseSourceSHA metadata, delta_HeadSourceSHA = cpm_HeadSourceSHA metadata,
     delta_BaseContextCommitID = cpm_BaseContextCommitID metadata, delta_Records = records\<rparr>"
  from assms(2) obtain u records where
    sub: "range_loop (\<lambda>_ (k, _). if map_of (notes_by_id ?ns) k = None then Inl CodeValidation else Inr ()) ()
       (map_range ord 0 (notes_by_id ?bs)) = Inr u"
    and loop: "range_loop (record_step base branch) [] (map_range ord 1 (notes_by_id ?ns)) = Inr records"
    and norm: "NormalizeCandidateContextDelta b3 (?x records) = Inr d"
    unfolding buildCandidateContextDelta_def Let_def and_then_eq_Inr by (elim exE conjE)
  have "fst ` set (map_range ord 0 (notes_by_id ?bs)) \<subseteq> dom (map_of (notes_by_id ?ns))" by (rule subset_loop [OF sub])
  moreover have "dom (map_of (notes_by_id ?ns)) = note_ID ` set ?ns"
    unfolding dom_def using notes_by_id_lookup [OF assms(4)] by auto
  ultimately have sub: "note_ID ` set ?bs \<subseteq> note_ID ` set ?ns" unfolding all [OF assms(3)] by (simp add: image_image)
  have "\<forall>(k, n) \<in> set (map_range ord 1 (notes_by_id ?ns)). note_ID n = k" unfolding all [OF assms(4)] by auto
  moreover have "snd ` set (map_range ord 1 (notes_by_id ?ns)) = set ?ns" unfolding all [OF assms(4)] by force
  moreover have "delta_Records (?x records) = records" by simp
  ultimately show thesis using record_loop [OF loop] by (intro that [OF sub _ _ norm]) simp_all
qed

lemma normalised_member:
  assumes "NormalizeCandidateContextDelta b3 x = Inr d"
  shows "r \<in> set (delta_Records d) \<longleftrightarrow> (\<exists>y \<in> set (delta_Records x). normalizeCandidateContextRecord b3 y = Inr r)"
    and "y \<in> set (delta_Records x) \<Longrightarrow> \<exists>r. normalizeCandidateContextRecord b3 y = Inr r"
proof -
  from normalised_records [OF assms] obtain rs where
    all: "list_all2 (\<lambda>x y. normalizeCandidateContextRecord b3 x = Inr y) (delta_Records x) rs"
    and rs: "set (delta_Records d) = set rs" by blast
  show "r \<in> set (delta_Records d) \<longleftrightarrow> (\<exists>y \<in> set (delta_Records x). normalizeCandidateContextRecord b3 y = Inr r)"
    unfolding rs using all by (induction rule: list_all2_induct) auto
  show "y \<in> set (delta_Records x) \<Longrightarrow> \<exists>r. normalizeCandidateContextRecord b3 y = Inr r"
    using all by (induction rule: list_all2_induct) auto
qed

lemma built_delta:
  assumes "map_iteration ord" "buildCandidateContextDelta b3 ord change metadata base branch = Inr d"
    and "publishable_notes base" "publishable_notes branch"
  shows "note_ID ` set (elems (obj_Notes base)) \<subseteq> note_ID ` set (elems (obj_Notes branch))"
    and "r \<in> set (delta_Records d) \<Longrightarrow> \<exists>n \<in> set (elems (obj_Notes branch)). \<exists>c.
        candidate_change (map_of (notes_by_id (elems (obj_Notes base))) (note_ID n)) n = Inr (Some c) \<and> carries r c n"
    and "n \<in> set (elems (obj_Notes branch)) \<Longrightarrow>
        candidate_change (map_of (notes_by_id (elems (obj_Notes base))) (note_ID n)) n = Inr None
        \<or> (\<exists>r \<in> set (delta_Records d). rec_NoteID r = note_ID n)"
    and "distinct (map rec_NoteID (delta_Records d))"
proof -
  let ?ns = "elems (obj_Notes branch)"
  have b: "distinct (map note_ID (elems (obj_Notes base)))" "distinct (map note_ID ?ns)" "\<forall>n \<in> set ?ns. publishable n"
    using assms(3,4) by (simp_all add: publishable_notes_def list_all_iff)
  from built_cases [OF assms(1,2) b(1,2)] obtain x where
    x: "note_ID ` set (elems (obj_Notes base)) \<subseteq> note_ID ` set ?ns"
      "set (delta_Records x) = {r. \<exists>n \<in> set ?ns. recorded base branch n r}"
      "\<forall>n \<in> set ?ns. candidate_change (map_of (notes_by_id (elems (obj_Notes base))) (note_ID n)) n = Inr None
         \<or> (\<exists>r. recorded base branch n r)"
    and norm: "NormalizeCandidateContextDelta b3 x = Inr d" .
  show "note_ID ` set (elems (obj_Notes base)) \<subseteq> note_ID ` set ?ns" by (rule x(1))
  have carried: "\<exists>c. candidate_change (map_of (notes_by_id (elems (obj_Notes base))) (note_ID n)) n = Inr (Some c) \<and> carries r c n"
    if "n \<in> set ?ns" "recorded base branch n y" "normalizeCandidateContextRecord b3 y = Inr r" for n y r
    using that b(3) normalised_carries unfolding recorded_def by blast
  show "\<exists>n \<in> set ?ns. \<exists>c. candidate_change (map_of (notes_by_id (elems (obj_Notes base))) (note_ID n)) n = Inr (Some c)
      \<and> carries r c n" if "r \<in> set (delta_Records d)"
    using that carried unfolding normalised_member(1) [OF norm] x(2) by blast
  show "candidate_change (map_of (notes_by_id (elems (obj_Notes base))) (note_ID n)) n = Inr None
      \<or> (\<exists>r \<in> set (delta_Records d). rec_NoteID r = note_ID n)" if n: "n \<in> set ?ns"
  proof -
    have "\<exists>r \<in> set (delta_Records d). rec_NoteID r = note_ID n" if y: "recorded base branch n y" for y
    proof -
      from y n have "y \<in> set (delta_Records x)" unfolding x(2) by blast
      with normalised_member [OF norm] obtain r where r: "r \<in> set (delta_Records d)" "normalizeCandidateContextRecord b3 y = Inr r"
        by blast
      from carried [OF n y r(2)] have "rec_NoteID r = note_ID n" by (auto simp: carries_def)
      with r(1) show ?thesis by blast
    qed
    with x(3) n show ?thesis by blast
  qed
  show "distinct (map rec_NoteID (delta_Records d))"
    using NormalizeCandidateContextDelta_normal [OF norm] by (simp add: delta_normal_def)
qed

subsection \<open>Landing the delta\<close>

text \<open>A landed note is the note of the branch; its entity may only differ where the landed source has no such entity.\<close>

definition landed_as :: "Entity list \<Rightarrow> Note \<Rightarrow> Note \<Rightarrow> bool" where
  "landed_as es n m \<longleftrightarrow> note_ID m = note_ID n \<and> note_RevisionID m = note_RevisionID n \<and> note_Kind m = note_Kind n
     \<and> note_Body m = note_Body n \<and> elems (note_Topics m) = elems (note_Topics n) \<and> note_Author m = note_Author n
     \<and> note_Origin m = note_Origin n \<and> time_Equal (note_CreatedAt m) (note_CreatedAt n)
     \<and> (note_EntityKey n \<in> ent_Key ` set es \<longrightarrow> note_EntityKey m = note_EntityKey n)"

definition decides :: "Entity list \<Rightarrow> string \<Rightarrow> LandingDecision option \<Rightarrow> (LandingDecision \<Rightarrow> bool) \<Rightarrow> CandidateContextRecord \<Rightarrow> bool" where
  "decides es sha old P r \<longleftrightarrow> (\<forall>st. map_of (fst st) (rec_NoteID r) = old \<longrightarrow>
     (\<exists>x. applyCandidateRecord r es sha st = (map_put (rec_NoteID r) x (fst st), snd st) \<and> P x))"

lemma decide_all:
  assumes "\<forall>r \<in> set rs. decides es sha (map_of D0 (rec_NoteID r)) (P r) r" "distinct (map rec_NoteID rs)"
    and "st = foldl (\<lambda>st r. applyCandidateRecord r es sha st) (D0, C0) rs"
  shows "snd st = C0 \<and> (\<forall>r \<in> set rs. \<exists>x. map_of (fst st) (rec_NoteID r) = Some x \<and> P r x)
    \<and> (\<forall>k. k \<notin> rec_NoteID ` set rs \<longrightarrow> map_of (fst st) k = map_of D0 k)"
  using assms
proof (induction rs arbitrary: st rule: rev_induct)
  case Nil
  then show ?case by simp
next
  case (snoc r rs)
  let ?st = "foldl (\<lambda>st r. applyCandidateRecord r es sha st) (D0, C0) rs"
  have IH: "snd ?st = C0 \<and> (\<forall>r \<in> set rs. \<exists>x. map_of (fst ?st) (rec_NoteID r) = Some x \<and> P r x)
    \<and> (\<forall>k. k \<notin> rec_NoteID ` set rs \<longrightarrow> map_of (fst ?st) k = map_of D0 k)"
    using snoc.prems by (intro snoc.IH) auto
  from snoc.prems(2) have fresh: "rec_NoteID r \<notin> rec_NoteID ` set rs" by auto
  with IH have "map_of (fst ?st) (rec_NoteID r) = map_of D0 (rec_NoteID r)" by blast
  with snoc.prems(1) obtain x where
    x: "applyCandidateRecord r es sha ?st = (map_put (rec_NoteID r) x (fst ?st), snd ?st)" "P r x"
    unfolding decides_def by (metis in_set_conv_decomp)
  from snoc.prems(3) x(1) have "st = (map_put (rec_NoteID r) x (fst ?st), snd ?st)" by simp
  moreover have "rec_NoteID q \<noteq> rec_NoteID r" if "q \<in> set rs" for q using fresh that by (metis image_eqI)
  ultimately show ?case using IH x(2) by simp
qed

lemma time_Equal_sym: "time_Equal t u = time_Equal u t"
  by (auto simp: time_Equal_def split: option.splits)

lemma carried_note:
  assumes "carries r c n"
  shows "landed_as es n ((noteFromCandidateRecord r es sha)\<lparr>note_Pending := b\<rparr>)"
  using assms bindCandidateNote_facts
  unfolding landed_as_def noteFromCandidateRecord_def carries_def same_content_def
  by (simp add: time_Equal_def split: prod.splits option.splits)

lemma record_decides:
  assumes c: "candidate_change found n = Inr (Some c)" "carries r c n"
    and p: "\<And>p. found = Some p \<Longrightarrow> publishable p \<and> note_ID p = note_ID n"
    and old: "\<And>p. found = Some p \<Longrightarrow> \<exists>x. old = Some x \<and> same_content (dec_Note x) p" "found = None \<Longrightarrow> old = None"
  shows "decides es sha old (\<lambda>x. landed_as es n (dec_Note x)) r"
proof (cases found)
  case None
  then have "rec_Operation r = CandidateAdd" "old = None" using c old by (auto simp: candidate_change_def carries_def)
  then show ?thesis
    using carried_note [OF c(2)]
    by (auto simp: decides_def applyCandidateRecord_def Let_def set_decision_def split: prod.splits)
next
  case (Some p)
  from p [OF Some] have pub: "TrimSpace (note_RevisionID p) = note_RevisionID p" "note_ID p = note_ID n"
    by (simp_all add: publishable_def)
  from old(1) [OF Some] obtain x where x: "old = Some x" "same_content (dec_Note x) p" by blast
  have ops: "CandidateRevise \<noteq> CandidateAdd" "CandidateRebind \<noteq> CandidateAdd" "CandidateRebind \<noteq> CandidateRevise"
    by (simp_all add: go_defs)
  show ?thesis
  proof (cases "note_RevisionID n = note_RevisionID p")
    case False
    with c Some have r: "rec_Operation r = CandidateRevise" "rec_BaseRevisionID r = note_RevisionID p"
        "rec_RevisionID r \<noteq> note_RevisionID p"
      using pub by (auto simp: candidate_change_def carries_def)
    with x show ?thesis
      using carried_note [OF c(2)]
      by (auto simp: decides_def applyCandidateRecord_def Let_def set_decision_def same_content_def ops split: prod.splits)
  next
    case True
    with c(1) Some have im: "sameImmutableCandidateRevision p n" and c': "c = (CandidateRebind, note_RevisionID p, [])"
      by (auto simp: candidate_change_def split: if_splits)
    have r: "rec_Operation r = CandidateRebind" "rec_BaseRevisionID r = note_RevisionID p"
      using c(2) pub by (simp_all add: c' carries_def)
    have t: "time_Equal (note_CreatedAt n) (note_CreatedAt p)"
      using im by (simp add: sameImmutableCandidateRevision_def time_Equal_sym)
    have keeps: "candidateRecordPreservesRevision r (dec_Note x)"
      using c(2) im x(2) t
      by (simp add: c' candidateRecordPreservesRevision_def carries_def sameImmutableCandidateRevision_def same_content_def)
    have lands: "landed_as es n ((bindCandidateNote ((dec_Note x)\<lparr>note_EntityKey := rec_EntityKey r\<rparr>) h es sha)\<lparr>note_Pending := b\<rparr>)"
      for h b
      using bindCandidateNote_facts [of "(dec_Note x)\<lparr>note_EntityKey := rec_EntityKey r\<rparr>" h es sha] c(2) im x(2) t
      by (simp add: c' landed_as_def carries_def sameImmutableCandidateRevision_def same_content_def time_Equal_sym)
    show ?thesis
      using r keeps lands x pub
      by (auto simp: decides_def applyCandidateRecord_def Let_def set_decision_def same_content_def ops split: prod.splits)
  qed
qed

lemma unchanged_lands:
  assumes "candidate_change found n = Inr None" "same_content m p" "found = Some p"
    and "note_EntityKey p \<in> ent_Key ` set es \<longrightarrow> note_EntityKey m = note_EntityKey p"
  shows "landed_as es n m"
  using assms
  by (auto simp: candidate_change_def landed_as_def same_content_def sameImmutableCandidateRevision_def split: if_splits)

text \<open>The decisions on the context a delta is based on, once its records are applied.\<close>

lemma delta_decisions:
  assumes "map_iteration ord" "buildCandidateContextDelta b3 ord change metadata base branch = Inr d"
    and "publishable_notes base" "publishable_notes branch"
    and "st = foldl (\<lambda>st r. applyCandidateRecord r es sha st) (canonical_decisions base es sha, C0) (delta_Records d)"
  shows "snd st = C0" and "dom (map_of (fst st)) = note_ID ` set (elems (obj_Notes branch))"
    and "n \<in> set (elems (obj_Notes branch)) \<Longrightarrow> \<exists>x. map_of (fst st) (note_ID n) = Some x \<and> landed_as es n (dec_Note x)"
proof -
  let ?bs = "elems (obj_Notes base)" and ?ns = "elems (obj_Notes branch)" and ?D0 = "canonical_decisions base es sha"
  note B = built_delta [OF assms(1-4)]
  have bs: "distinct (map note_ID ?bs)" "\<forall>n \<in> set ?bs. publishable n"
    using assms(3) by (simp_all add: publishable_notes_def list_all_iff)
  have ns: "inj_on note_ID (set ?ns)" using assms(4) by (simp add: publishable_notes_def distinct_map)
  define P :: "CandidateContextRecord \<Rightarrow> LandingDecision \<Rightarrow> bool" where
    "P r x \<longleftrightarrow> (\<forall>n \<in> set ?ns. note_ID n = rec_NoteID r \<longrightarrow> landed_as es n (dec_Note x))" for r x
  have dom0: "dom (map_of ?D0) = note_ID ` set ?bs" using canonical_decisions_facts by blast
  have dec: "decides es sha (map_of ?D0 (rec_NoteID r)) (P r) r \<and> rec_NoteID r \<in> note_ID ` set ?ns"
    if r: "r \<in> set (delta_Records d)" for r
  proof -
    from B(2) [OF r] obtain n c where n: "n \<in> set ?ns"
        "candidate_change (map_of (notes_by_id ?bs) (note_ID n)) n = Inr (Some c)" "carries r c n" by blast
    then have id: "rec_NoteID r = note_ID n" by (auto simp: carries_def)
    have "decides es sha (map_of ?D0 (note_ID n)) (\<lambda>x. landed_as es n (dec_Note x)) r"
    proof (rule record_decides [OF n(2,3)])
      show "publishable p \<and> note_ID p = note_ID n" if "map_of (notes_by_id ?bs) (note_ID n) = Some p" for p
        using that bs notes_by_id_lookup by blast
      show "\<exists>x. map_of ?D0 (note_ID n) = Some x \<and> same_content (dec_Note x) p"
        if "map_of (notes_by_id ?bs) (note_ID n) = Some p" for p
        using that canonical_decision [OF bs(1), of p es sha] notes_by_id_lookup [OF bs(1)] by metis
      show "map_of ?D0 (note_ID n) = None" if "map_of (notes_by_id ?bs) (note_ID n) = None"
        using that dom0 notes_by_id_lookup [OF bs(1)] by (metis (no_types, lifting) domIff imageE option.distinct(1))
    qed
    moreover have "P r x" if "landed_as es n (dec_Note x)" for x
      unfolding P_def using that n(1) ns id by (auto dest: inj_onD)
    ultimately show ?thesis unfolding decides_def id using n(1) by blast
  qed
  then have "\<forall>r \<in> set (delta_Records d). decides es sha (map_of ?D0 (rec_NoteID r)) (P r) r" by blast
  note A = decide_all [OF this B(4) assms(5)]
  show "snd st = C0" using A by blast
  show lands: "\<exists>x. map_of (fst st) (note_ID n) = Some x \<and> landed_as es n (dec_Note x)" if n: "n \<in> set ?ns" for n
  proof (cases "note_ID n \<in> rec_NoteID ` set (delta_Records d)")
    case True
    with A n show ?thesis unfolding P_def by fastforce
  next
    case False
    with B(3) [OF n] have same: "candidate_change (map_of (notes_by_id ?bs) (note_ID n)) n = Inr None" by force
    then obtain p where p: "map_of (notes_by_id ?bs) (note_ID n) = Some p" by (auto simp: candidate_change_def split: option.splits)
    then have "p \<in> set ?bs" "note_ID p = note_ID n" using notes_by_id_lookup [OF bs(1)] by blast+
    with canonical_decision [OF bs(1), of p es sha] obtain x where
      x: "map_of ?D0 (note_ID n) = Some x" "same_content (dec_Note x) p"
        "note_EntityKey p \<in> ent_Key ` set es \<longrightarrow> note_EntityKey (dec_Note x) = note_EntityKey p" by auto
    from unchanged_lands [OF same x(2) p x(3)] x(1) False A show ?thesis by metis
  qed
  show "dom (map_of (fst st)) = note_ID ` set ?ns"
  proof
    show "note_ID ` set ?ns \<subseteq> dom (map_of (fst st))" using lands by fastforce
    show "dom (map_of (fst st)) \<subseteq> note_ID ` set ?ns"
    proof
      fix k
      assume k: "k \<in> dom (map_of (fst st))"
      show "k \<in> note_ID ` set ?ns"
      proof (cases "k \<in> rec_NoteID ` set (delta_Records d)")
        case True
        with dec show ?thesis by blast
      next
        case False
        with A k have "k \<in> dom (map_of ?D0)" by (simp add: domIff)
        with dom0 B(1) show ?thesis by blast
      qed
    qed
  qed
qed

text \<open>C17: Publishing is faithful: planning the landing of a published delta on the context it is based on meets no conflict
  with any record (only missing coverage or provenance can block it), and the planned notes are those of the branch:
  the same identifiers, revisions, content, topics, authors and times, and the same entity where the landed source has it.\<close>

theorem published_delta_lands:
  assumes "map_iteration ord" "buildCandidateContextDelta b3 ord change metadata base branch = Inr d"
    and "publishable_notes base" "publishable_notes branch"
    and "map_iteration ord'" "PlanLanding b3 ord' inp = Inr plan" "lpi_Canonical inp = base" "candidate_of_input b3 inp = Inr d"
  shows "(\<forall>c \<in> set (plan_Conflicts plan). conf_Reason c \<in> {''coverage_incomplete'', ''provenance_incomplete''})
    \<and> note_ID ` dec_Note ` set (elems (plan_Decisions plan)) = note_ID ` set (elems (obj_Notes branch))
    \<and> (\<forall>n \<in> set (elems (obj_Notes branch)). \<exists>x \<in> set (elems (plan_Decisions plan)).
         landed_as (lpi_TargetEntities inp) n (dec_Note x))"
proof -
  from assms(6) obtain es pv cand where v: "validateLandingPlanInput b3 inp = Inr (lpi_Canonical inp, es, pv, cand)"
    and "candidate_of_input b3 inp = Inr cand" and plan: "plan = (landed_plan ord' inp es pv cand)\<lparr>plan_ID := plan_ID plan\<rparr>"
    by (rule PlanLanding_cases)
  with assms(8) have cand: "cand = d" by simp
  note P = delta_decisions [OF assms(1-4) landed_state_def [of inp es pv d, unfolded assms(7)]]
  note I = landed_state_applied [OF v, unfolded cand records_applied_def]
  have "plan_Decisions plan = plan_Decisions (landed_plan ord' inp es pv d)" by (subst plan) (simp add: cand)
  with landed_decisions(1) [OF assms(5) v] have D: "set (elems (plan_Decisions plan))
      = {x. map_of (fst (landed_state inp es pv d)) (note_ID (dec_Note x)) = Some x}" by (simp add: cand)
  have mem: "x \<in> set (elems (plan_Decisions plan)) \<and> note_ID (dec_Note x) = k"
    if "map_of (fst (landed_state inp es pv d)) k = Some x" for k x
    using I that unfolding D decision_sound_def by auto
  have es: "set es = set (lpi_TargetEntities inp)"
    using validateLandingPlanInput_facts [OF v] landing_entities_set by blast
  have C: "set (plan_Conflicts plan) = set (snd (landed_state inp es pv d))"
    by (subst plan) (simp add: cand landed_plan_def Let_def)
  have "conf_Reason c \<in> {''coverage_incomplete'', ''provenance_incomplete''}" if "c \<in> set (snd (landed_state inp es pv d))" for c
    using that by (auto simp: P(1) coverage_conflict_def split: if_split_asm)
  then have "\<forall>c \<in> set (plan_Conflicts plan). conf_Reason c \<in> {''coverage_incomplete'', ''provenance_incomplete''}"
    unfolding C by blast
  moreover have "note_ID ` dec_Note ` set (elems (plan_Decisions plan)) = dom (map_of (fst (landed_state inp es pv d)))"
  proof (intro set_eqI iffI)
    fix k
    assume "k \<in> note_ID ` dec_Note ` set (elems (plan_Decisions plan))"
    then obtain x where "x \<in> set (elems (plan_Decisions plan))" "k = note_ID (dec_Note x)" by blast
    then show "k \<in> dom (map_of (fst (landed_state inp es pv d)))" unfolding D by (simp add: domI)
  next
    fix k
    assume "k \<in> dom (map_of (fst (landed_state inp es pv d)))"
    then obtain x where "map_of (fst (landed_state inp es pv d)) k = Some x" by blast
    from mem [OF this] show "k \<in> note_ID ` dec_Note ` set (elems (plan_Decisions plan))" by blast
  qed
  moreover have "\<exists>x \<in> set (elems (plan_Decisions plan)). landed_as (lpi_TargetEntities inp) n (dec_Note x)"
    if "n \<in> set (elems (obj_Notes branch))" for n
  proof -
    have "landed_as es n m = landed_as (lpi_TargetEntities inp) n m" for m by (simp add: landed_as_def es)
    with P(3) [OF that] mem show ?thesis by blast
  qed
  ultimately show ?thesis unfolding P(2) by blast
qed

subsection \<open>A note revised twice\<close>

lemma topics_code: "NormalizeNoteTopics ts = Inl e \<Longrightarrow> e = CodeValidation"
proof -
  have loop: "range_loop (\<lambda>(topics, seen) raw.
       if topic_of raw = [] \<or> 64 < length (runes (topic_of raw)) then Inl CodeValidation
       else if topic_of raw \<in> seen then Inl CodeValidation
       else Inr (topics @ [topic_of raw], insert (topic_of raw) seen)) s xs = Inl e \<Longrightarrow> e = CodeValidation" for s xs
    by (rule range_loop_code) (auto split: prod.splits if_splits)
  show "NormalizeNoteTopics ts = Inl e \<Longrightarrow> e = CodeValidation"
    using loop by (auto simp: NormalizeNoteTopics_def Let_def and_then_eq_Inl simp del: range_loop.simps split: if_splits)
qed

lemma record_code: "normalizeCandidateContextRecord b3 x = Inl e \<Longrightarrow> e = CodeValidation"
  by (auto simp: normalizeCandidateContextRecord_def Let_def and_then_eq_Inl
      dest: canonicalDigest_code topics_code split: if_splits)

lemma provider_code:
  assumes "normalizeCandidateProvider s = Inl e"
  shows "e = CodeValidation"
proof -
  have "range_loop (\<lambda>first r. if provider_rune r then (if first \<and> r \<in> {46, 95, 45} then Inl CodeValidation else Inr False)
       else Inl CodeValidation) b xs = Inl e \<Longrightarrow> e = CodeValidation" for b xs
    by (rule range_loop_code) (auto split: if_splits)
  with assms show ?thesis
    by (auto simp: normalizeCandidateProvider_def Let_def and_then_eq_Inl simp del: range_loop.simps split: if_splits)
qed

lemma repository_code:
  assumes "normalizeCandidateRepository s = Inl e"
  shows "e = CodeValidation"
proof -
  have "range_loop (\<lambda>u segment. if segment = [] \<or> segment = ''.'' \<or> segment = ''..'' then Inl CodeValidation else Inr u) u xs
       = Inl e \<Longrightarrow> e = CodeValidation" for u :: unit and xs
    by (rule range_loop_code) (auto split: if_splits)
  with assms show ?thesis
    by (auto simp: normalizeCandidateRepository_def Let_def and_then_eq_Inl simp del: range_loop.simps split: if_splits)
qed

lemma change_code: "normalizeChangeKey k = Inl e \<Longrightarrow> e = CodeValidation"
  by (auto simp: normalizeChangeKey_def and_then_eq_Inl dest: provider_code repository_code split: if_splits)

lemma delta_code:
  assumes "NormalizeCandidateContextDelta b3 x = Inl e"
  shows "e = CodeValidation"
proof -
  have "range_loop (\<lambda>(records, noteIDs) raw.
     and_then (normalizeCandidateContextRecord b3 raw) (\<lambda>record.
     if rec_NoteID record \<in> noteIDs then Inl CodeValidation
     else Inr (records @ [record], insert (rec_NoteID record) noteIDs))) s xs = Inl e \<Longrightarrow> e = CodeValidation" for s xs
    by (rule range_loop_code) (auto simp: and_then_eq_Inl dest: record_code split: prod.splits if_splits)
  with assms show ?thesis
    unfolding NormalizeCandidateContextDelta_def Let_def
    by (auto simp: and_then_eq_Inl simp del: range_loop.simps dest: change_code split: if_splits prod.splits)
qed

lemma step_code: "record_step base branch records kn = Inl e \<Longrightarrow> e = CodeValidation"
  by (auto simp: record_step_def candidate_change_def and_then_eq_Inl split: prod.splits if_splits option.splits)

lemma built_code:
  assumes "buildCandidateContextDelta b3 ord change metadata base branch = Inl e"
  shows "e = CodeValidation"
proof -
  have "range_loop (record_step base branch) acc xs = Inl e \<Longrightarrow> e = CodeValidation" for acc xs
    by (rule range_loop_code) (rule step_code)
  moreover have "range_loop (\<lambda>_ (k, _). if map_of m k = None then Inl CodeValidation else Inr ()) u xs = Inl e
      \<Longrightarrow> e = CodeValidation" for u xs and m :: "Note gomap"
    by (rule range_loop_code) (auto split: prod.splits if_splits)
  ultimately show ?thesis
    using assms delta_code unfolding buildCandidateContextDelta_def Let_def and_then_eq_Inl by blast
qed

text \<open>C18: A note of the base that was revised twice on the branch (its last revision supersedes one that the base does not have)
  makes the publication of the whole branch fail: the record names the superseded revision of the branch,
  and a revise record must supersede the revision of the base.\<close>

theorem twice_revised_rejected:
  assumes "map_iteration ord" "distinct (map note_ID (elems (obj_Notes base)))" "distinct (map note_ID (elems (obj_Notes branch)))"
    and "p \<in> set (elems (obj_Notes base))" "n \<in> set (elems (obj_Notes branch))" "note_ID n = note_ID p"
    and "note_RevisionID n \<noteq> note_RevisionID p" "TrimSpace (note_SupersedesRevisionID n) \<noteq> TrimSpace (note_RevisionID p)"
  shows "buildCandidateContextDelta b3 ord change metadata base branch = Inl CodeValidation"
proof (cases "buildCandidateContextDelta b3 ord change metadata base branch")
  case (Inl e)
  with built_code show ?thesis by blast
next
  case (Inr d)
  have found: "map_of (notes_by_id (elems (obj_Notes base))) (note_ID n) = Some p"
    using notes_by_id_lookup [OF assms(2)] assms(4,6) by simp
  have change: "candidate_change (Some p) n = Inr (Some (CandidateRevise, note_RevisionID p, note_SupersedesRevisionID n))"
    using assms(7) by (simp add: candidate_change_def)
  from built_cases [OF assms(1) Inr assms(2,3)] obtain x where
    "note_ID ` set (elems (obj_Notes base)) \<subseteq> note_ID ` set (elems (obj_Notes branch))"
    and x: "set (delta_Records x) = {r. \<exists>n \<in> set (elems (obj_Notes branch)). recorded base branch n r}"
      "\<forall>n \<in> set (elems (obj_Notes branch)).
         candidate_change (map_of (notes_by_id (elems (obj_Notes base))) (note_ID n)) n = Inr None \<or> (\<exists>r. recorded base branch n r)"
    and norm: "NormalizeCandidateContextDelta b3 x = Inr d" .
  from x(2) assms(5) have "candidate_change (map_of (notes_by_id (elems (obj_Notes base))) (note_ID n)) n = Inr None
      \<or> (\<exists>r. recorded base branch n r)" by blast
  then obtain y where y: "recorded base branch n y" unfolding found change by auto
  with x(1) assms(5) normalised_member(2) [OF norm] obtain r where r: "normalizeCandidateContextRecord b3 y = Inr r" by blast
  from y found change obtain e where "y = candidate_record (CandidateRevise, note_RevisionID p, note_SupersedesRevisionID n) n e"
    unfolding recorded_def by auto
  moreover have "record_operation_ok (z\<lparr>rec_Topics := ts\<rparr>) = record_operation_ok z" for z ts
    by (simp add: record_operation_ok_def)
  with r have "record_operation_ok (trim_record y)" unfolding normalizeCandidateContextRecord_iff by blast
  ultimately show ?thesis
    using assms(8) by (auto simp: record_operation_ok_def trim_record_def candidate_record_def go_defs)
qed

subsection \<open>Concrete branches\<close>

text \<open>The branch adds the note of \<open>ex_record\<close> to the canonical snapshot of the landing examples.\<close>

definition ex_added :: Note where
  "ex_added = \<lparr>note_ID = ''n'', note_RevisionID = ''r'', note_SupersedesRevisionID = [], note_EntityKey = ''e'',
     note_Kind = NoteIntent, note_Body = ''b'', note_Author = ''a'', note_Origin = ''o'', note_CreatedAt = ex_time,
     note_BindingState = NoteBindingActive, note_BindingSourceSHA = ex_sha, note_ReviewReason = [], note_Topics = None,
     note_Pending = False\<rparr>"

definition ex_branch :: ContextObject where
  "ex_branch = ex_canonical\<lparr>obj_Entities := Some ex_target, obj_Notes := Some [ex_merge_note ''c'' ''0'', ex_added]\<rparr>"

definition ex_metadata :: CandidatePublicationMetadata where
  "ex_metadata = \<lparr>cpm_Change = ex_change, cpm_BaseSourceSHA = ex_sha, cpm_HeadSourceSHA = ex_sha, cpm_BaseContextCommitID = []\<rparr>"

lemma ex_records:
  "range_loop (record_step ex_canonical ex_branch) [] (map_range (\<lambda>_ ks. ks) 1 (notes_by_id (elems (obj_Notes ex_branch))))
     = Inr [ex_record\<lparr>rec_ID := []\<rparr>]"
  "range_loop (\<lambda>_ (k, _). if map_of (notes_by_id (elems (obj_Notes ex_branch))) k = None then Inl CodeValidation else Inr ()) ()
     (map_range (\<lambda>_ ks. ks) 0 (notes_by_id (elems (obj_Notes ex_canonical)))) = Inr ()"
  by code_simp+

lemma ex_built_delta: "buildCandidateContextDelta ex_hash (\<lambda>_ ks. ks) ex_change ex_metadata ex_canonical ex_branch = Inr ex_delta"
proof -
  have "\<lparr>delta_SchemaVersion = 2, delta_Change = ex_change, delta_BaseSourceSHA = ex_sha, delta_HeadSourceSHA = ex_sha,
      delta_BaseContextCommitID = [], delta_Records = [ex_record\<lparr>rec_ID := []\<rparr>]\<rparr> = ex_envelope_delta"
    by (simp add: ex_envelope_delta_def ex_delta_def)
  with ex_envelope_normalised show ?thesis
    by (simp add: buildCandidateContextDelta_def ex_records [unfolded One_nat_def] ex_metadata_def Let_def del: range_loop.simps)
qed

lemma ex_publishable: "publishable_notes ex_canonical" "publishable_notes ex_branch"
proof -
  have t: "time_UTC (time_Unix 0) = time_Unix 0" "NormalizeNoteTopics [] = Inr []"
    by (simp_all add: time_UTC_def time_Unix_def NormalizeNoteTopics_def)
  have words: "TrimSpace ''c0'' = ''c0''" by (rule TrimSpace_graphic) (simp add: graphic_def)
  have "publishable (ex_merge_note ''c'' ''0'')" "publishable ex_added"
    by (simp_all add: publishable_def ex_merge_note_def ex_added_def TrimSpace_letter words t ex_time_facts)
  then show "publishable_notes ex_canonical" "publishable_notes ex_branch"
    by (simp_all add: publishable_notes_def ex_branch_def ex_canonical_def ex_snapshot_def)
      (simp add: ex_merge_note_def ex_added_def)
qed

theorem published_delta_lands_witness:
  "note_ID ` dec_Note ` set (elems (plan_Decisions ex_plan)) = {''c'', ''n''}
   \<and> (\<exists>x \<in> set (elems (plan_Decisions ex_plan)). landed_as ex_target ex_added (dec_Note x))"
proof -
  have l: "lpi_Canonical ex_landing = ex_canonical" "lpi_TargetEntities ex_landing = ex_target" by (simp_all add: ex_landing_def)
  have n: "elems (obj_Notes ex_branch) = [ex_merge_note ''c'' ''0'', ex_added]" by (simp add: ex_branch_def)
  have i: "note_ID (ex_merge_note ''c'' ''0'') = ''c''" "note_ID ex_added = ''n''" by (simp_all add: ex_merge_note_def ex_added_def)
  from published_delta_lands [OF insertion_order.map_iteration_axioms ex_built_delta ex_publishable
      insertion_order.map_iteration_axioms ex_plan_run l(1) ex_candidate, unfolded l(2) n]
  show ?thesis by (simp add: i)
qed

text \<open>The note of the canonical snapshot, revised to \<open>c1\<close> and then to \<open>c2\<close>.\<close>

definition ex_revised :: ContextObject where
  "ex_revised = ex_canonical\<lparr>obj_Notes := Some [(ex_merge_note ''c'' ''2'')\<lparr>note_SupersedesRevisionID := ''c1''\<rparr>]\<rparr>"

theorem twice_revised_rejected_witness:
  "buildCandidateContextDelta ex_hash (\<lambda>_ ks. ks) ex_change ex_metadata ex_canonical ex_revised = Inl CodeValidation"
proof (rule twice_revised_rejected [OF insertion_order.map_iteration_axioms])
  show "distinct (map note_ID (elems (obj_Notes ex_canonical)))" "distinct (map note_ID (elems (obj_Notes ex_revised)))"
    "ex_merge_note ''c'' ''0'' \<in> set (elems (obj_Notes ex_canonical))"
    "(ex_merge_note ''c'' ''2'')\<lparr>note_SupersedesRevisionID := ''c1''\<rparr> \<in> set (elems (obj_Notes ex_revised))"
    by (simp_all add: ex_canonical_def ex_revised_def ex_snapshot_def)
  have "TrimSpace ''c0'' = ''c0''" "TrimSpace ''c1'' = ''c1''" by (rule TrimSpace_graphic, simp add: graphic_def)+
  then show "TrimSpace (note_SupersedesRevisionID ((ex_merge_note ''c'' ''2'')\<lparr>note_SupersedesRevisionID := ''c1''\<rparr>))
      \<noteq> TrimSpace (note_RevisionID (ex_merge_note ''c'' ''0''))" by (simp add: ex_merge_note_def)
qed (simp_all add: ex_merge_note_def)

end
